(* ===== verification/Go_Prelude.thy ===== *)
theory Go_Prelude
  imports Main "HOL-Library.AList" "HOL-Library.Char_ord"
begin

text \<open>
  The parts of Go and of its standard library that the modelled sources use, and the lemmas on
  them that the component theories share.

  \<^item> Time: a \<open>time.Time\<close> is the number of nanoseconds since the zero time, so that the zero
    value of the type is \<open>0\<close> and \<open>IsZero\<close> is a comparison with it; a
    \<open>time.Duration\<close> is a number of nanoseconds, and \<open>Sub\<close> saturates at the bounds of
    \<open>int64\<close> as it does in Go. A call of \<open>time.Now()\<close> is an argument of the definition that
    makes it.
  \<^item> Integers: a Go \<open>int\<close> or \<open>int64\<close> is an \<open>int\<close>; where a computation can leave the
    64-bit range the wrap-around \<open>i64\<close> is written out.
  \<^item> Maps: a Go map is an association list with distinct keys (\<open>gm_ok\<close>), so that
    \<open>len\<close> and iteration are computable; a missing key reads as the zero value (\<open>gm_getd\<close>).
  \<^item> Strings: a Go string is its list of bytes.
\<close>

section \<open>Collections of facts\<close>

named_theorems go_simps \<open>rewriting rules for the Go primitives\<close>
named_theorems go_bounds \<open>bounds of the Go primitives\<close>

section \<open>Time\<close>

type_synonym gotime = int
type_synonym duration = int

definition is_zero :: "gotime \<Rightarrow> bool" where
  [simp]: "is_zero t \<longleftrightarrow> t = 0"

definition max_duration :: duration where "max_duration = 9223372036854775807"
definition min_duration :: duration where "min_duration = - 9223372036854775808"

definition time_sub :: "gotime \<Rightarrow> gotime \<Rightarrow> duration" where
  "time_sub t u = max min_duration (min max_duration (t - u))"

definition time_add :: "gotime \<Rightarrow> duration \<Rightarrow> gotime" where
  [simp]: "time_add t d = t + d"

definition millisecond :: duration where [simp]: "millisecond = 1000000"
definition second :: duration where [simp]: "second = 1000000000"
definition minute :: duration where [simp]: "minute = 60 * second"
definition hour :: duration where [simp]: "hour = 60 * minute"

text \<open>\<open>Duration.Seconds\<close> truncated to an \<open>int\<close>, as in \<open>int(d.Seconds())\<close>.\<close>

definition int_seconds :: "duration \<Rightarrow> int" where
  "int_seconds d = sgn d * (\<bar>d\<bar> div second)"

lemma time_sub_pos [go_simps]: "0 < time_sub t u \<longleftrightarrow> u < t"
  by (auto simp: time_sub_def max_duration_def min_duration_def)

lemma time_sub_nonneg [go_simps]: "0 \<le> time_sub t u \<longleftrightarrow> u \<le> t"
  by (auto simp: time_sub_def max_duration_def min_duration_def)

lemma time_sub_less [go_simps]:
  "min_duration < d \<Longrightarrow> d \<le> max_duration \<Longrightarrow> time_sub t u < d \<longleftrightarrow> t - u < d"
  by (auto simp: time_sub_def max_duration_def min_duration_def)

lemma less_time_sub [go_simps]:
  "min_duration \<le> d \<Longrightarrow> d < max_duration \<Longrightarrow> d < time_sub t u \<longleftrightarrow> d < t - u"
  by (auto simp: time_sub_def max_duration_def min_duration_def)

lemma time_sub_bounds [go_bounds]: "min_duration \<le> time_sub t u" "time_sub t u \<le> max_duration"
  by (auto simp: time_sub_def max_duration_def min_duration_def)

lemma less_time_sub_imp: "0 \<le> d \<Longrightarrow> d < time_sub t u \<Longrightarrow> d < t - u"
  by (auto simp: time_sub_def max_duration_def min_duration_def split: if_splits)

section \<open>Fixed-width integers\<close>

definition i64 :: "int \<Rightarrow> int" where
  "i64 x = (x + 2 ^ 63) mod 2 ^ 64 - 2 ^ 63"

definition i32 :: "int \<Rightarrow> int" where
  "i32 x = (x + 2 ^ 31) mod 2 ^ 32 - 2 ^ 31"

definition in_i64 :: "int \<Rightarrow> bool" where
  "in_i64 x \<longleftrightarrow> - (2 ^ 63) \<le> x \<and> x < 2 ^ 63"

lemma i64_id [go_simps]: "in_i64 x \<Longrightarrow> i64 x = x"
  by (simp add: i64_def in_i64_def)

lemma in_i64_i64 [go_bounds]: "in_i64 (i64 x)"
proof -
  have "0 \<le> (x + 2 ^ 63) mod (2 ^ 64 :: int)" "(x + 2 ^ 63) mod (2 ^ 64 :: int) < 2 ^ 64"
    by (rule pos_mod_sign pos_mod_bound; simp)+
  then show ?thesis unfolding i64_def in_i64_def by simp
qed

lemma i32_id [go_simps]: "- (2 ^ 31) \<le> x \<Longrightarrow> x < 2 ^ 31 \<Longrightarrow> i32 x = x"
  by (simp add: i32_def)

section \<open>Maps\<close>

type_synonym ('k, 'v) gomap = "('k \<times> 'v) list"

definition gm_ok :: "('k, 'v) gomap \<Rightarrow> bool" where
  "gm_ok m \<longleftrightarrow> distinct (map fst m)"

definition gm_get :: "('k, 'v) gomap \<Rightarrow> 'k \<Rightarrow> 'v option" where
  "gm_get m k = map_of m k"

definition gm_getd :: "'v \<Rightarrow> ('k, 'v) gomap \<Rightarrow> 'k \<Rightarrow> 'v" where
  "gm_getd d m k = (case gm_get m k of None \<Rightarrow> d | Some v \<Rightarrow> v)"

definition gm_put :: "'k \<Rightarrow> 'v \<Rightarrow> ('k, 'v) gomap \<Rightarrow> ('k, 'v) gomap" where
  "gm_put k v m = AList.update k v m"

definition gm_del :: "'k \<Rightarrow> ('k, 'v) gomap \<Rightarrow> ('k, 'v) gomap" where
  "gm_del k m = AList.delete k m"

lemma gm_get_Nil [simp]: "gm_get [] k = None"
  by (simp add: gm_get_def)

lemma gm_getd_Nil [simp]: "gm_getd d [] k = d"
  by (simp add: gm_getd_def)

lemma gm_get_put: "gm_get (gm_put k v m) k' = (if k' = k then Some v else gm_get m k')"
  by (simp add: gm_get_def gm_put_def update_conv')

lemma gm_getd_put: "gm_getd d (gm_put k v m) k' = (if k' = k then v else gm_getd d m k')"
  by (simp add: gm_getd_def gm_get_put)

lemma gm_get_del: "gm_get (gm_del k m) k' = (if k' = k then None else gm_get m k')"
  by (simp add: gm_get_def gm_del_def delete_conv')

lemmas gm_lookup [simp] = gm_get_put gm_getd_put gm_get_del

lemma gm_ok_Nil [simp]: "gm_ok []"
  by (simp add: gm_ok_def)

lemma gm_ok_put [simp]: "gm_ok m \<Longrightarrow> gm_ok (gm_put k v m)"
  by (simp add: gm_ok_def gm_put_def distinct_update)

lemma gm_ok_del [simp]: "gm_ok m \<Longrightarrow> gm_ok (gm_del k m)"
  by (simp add: gm_ok_def gm_del_def distinct_delete)

lemma gm_ok_filter [simp]: "gm_ok m \<Longrightarrow> gm_ok (filter P m)"
  by (simp add: gm_ok_def distinct_map_filter)

lemma gm_get_eq_Some: "gm_ok m \<Longrightarrow> gm_get m k = Some v \<longleftrightarrow> (k, v) \<in> set m"
  by (simp add: gm_ok_def gm_get_def)

lemma gm_get_SomeD: "gm_get m k = Some v \<Longrightarrow> (k, v) \<in> set m"
  by (simp add: gm_get_def map_of_SomeD)

lemma gm_get_None: "gm_get m k = None \<longleftrightarrow> k \<notin> fst ` set m"
  by (simp add: gm_get_def map_of_eq_None_iff)

lemma gm_put_new_length: "gm_get m k = None \<Longrightarrow> length (gm_put k v m) = Suc (length m)"
proof -
  assume "gm_get m k = None"
  then have "k \<notin> fst ` set m" by (simp add: gm_get_None)
  then show ?thesis unfolding gm_put_def by (induction m) auto
qed

lemma gm_put_old_length: "gm_get m k = Some w \<Longrightarrow> length (gm_put k v m) = length m"
proof -
  assume "gm_get m k = Some w"
  then have "k \<in> fst ` set m" by (force simp: gm_get_def dest: map_of_SomeD)
  then show ?thesis unfolding gm_put_def by (induction m) auto
qed

lemma gm_put_length_ge: "length m \<le> length (gm_put k v m)"
  by (cases "gm_get m k") (simp_all add: gm_put_new_length gm_put_old_length)

lemma fst_set_gm_put: "fst ` set (gm_put k v m) = insert k (fst ` set m)"
  unfolding gm_put_def by (simp add: dom_update)

section \<open>Dynamic values\<close>

text \<open>A value of type \<open>any\<close>, one constructor per dynamic type that the code distinguishes. A
  \<open>float64\<close> is \<open>VFloat m e\<close>, the number \<open>m * 2 ^ e\<close>; its conversion to \<open>int\<close> truncates, and
  gives the smallest \<open>int\<close> when the value does not fit, as on amd64.\<close>

datatype goval =
    VNil
  | VBool bool
  | VInt int
  | VInt64 int
  | VFloat int int
  | VNumber string
  | VStr string
  | VList "goval list"
  | VMap "(string \<times> goval) list"

definition float_trunc :: "int \<Rightarrow> int \<Rightarrow> int" where
  "float_trunc m e =
     (let t = (if 0 \<le> e then m * 2 ^ nat e else sgn m * (\<bar>m\<bar> div 2 ^ nat (- e)))
      in if in_i64 t then t else - (2 ^ 63))"

text \<open>A lookup in a \<open>map[string]any\<close>: a missing key reads as nil.\<close>

definition any_get :: "(string, goval) gomap \<Rightarrow> string \<Rightarrow> goval" where
  "any_get m k = gm_getd VNil m k"

section \<open>Runs of a component\<close>

text \<open>The outputs of a component over a sequence of events, and the induction that every client of
  an invariant uses: what each event keeps holds at the end, and what each event guarantees of its
  output holds of all outputs.\<close>

fun run_all :: "('e \<Rightarrow> 's \<Rightarrow> 's \<times> 'o) \<Rightarrow> 'e list \<Rightarrow> 's \<Rightarrow> 's \<times> 'o list" where
  "run_all f [] s = (s, [])"
| "run_all f (e # es) s = (case f e s of (s1, o1) \<Rightarrow> (case run_all f es s1 of (s2, os) \<Rightarrow> (s2, o1 # os)))"

locale invariant_system =
  fixes step :: "'e \<Rightarrow> 's \<Rightarrow> 's \<times> 'o"
    and valid :: "'e \<Rightarrow> bool"
    and inv :: "'s \<Rightarrow> bool"
  assumes inv_step: "valid e \<Longrightarrow> inv s \<Longrightarrow> inv (fst (step e s))"
begin

lemma inv_run_all: "list_all valid es \<Longrightarrow> inv s \<Longrightarrow> inv (fst (run_all step es s))"
proof (induction es arbitrary: s)
  case Nil
  then show ?case by simp
next
  case (Cons e es)
  then have "inv (fst (run_all step es (fst (step e s))))" using inv_step by simp
  then show ?case by (simp add: split_def)
qed

lemma output_run_all:
  assumes "\<And>e s. valid e \<Longrightarrow> inv s \<Longrightarrow> good (snd (step e s))" "list_all valid es" "inv s"
  shows "list_all good (snd (run_all step es s))"
  using assms(2,3)
proof (induction es arbitrary: s)
  case Nil
  then show ?case by simp
next
  case (Cons e es)
  have "list_all good (snd (run_all step es (fst (step e s))))" using Cons inv_step by simp
  with assms(1) Cons.prems show ?case by (simp add: split_def)
qed

end

lemma run_all_append:
  "run_all f (xs @ ys) s =
     (case run_all f xs s of (s1, os1) \<Rightarrow> (case run_all f ys s1 of (s2, os2) \<Rightarrow> (s2, os1 @ os2)))"
  by (induction xs arbitrary: s) (auto split: prod.splits)

lemma run_all_length: "length (snd (run_all f es s)) = length es"
  by (induction es arbitrary: s) (auto split: prod.splits, metis snd_conv)

end
