(* ===== verification/Go_Strings.thy ===== *)
theory Go_Strings
  imports Go_Prelude
begin

text \<open>
  The functions of Go's \<open>strings\<close>, \<open>strconv\<close> and \<open>unicode/utf8\<close> packages that the
  sources call, on strings as lists of bytes.

  \<^item> \<open>has_prefix\<close>, \<open>cut_prefix\<close>: \<open>strings.HasPrefix\<close>, \<open>strings.CutPrefix\<close>;
  \<^item> \<open>trim_space\<close>: \<open>strings.TrimSpace\<close>, for every code point of Unicode's
    \<open>White_Space\<close> property, given by its UTF-8 encoding;
  \<^item> \<open>to_lower\<close>, \<open>to_upper\<close>: the ASCII part of \<open>strings.ToLower\<close> and
    \<open>strings.ToUpper\<close>;
  \<^item> \<open>itoa\<close>, \<open>atoi\<close>: \<open>strconv.Itoa\<close> and \<open>strconv.Atoi\<close> (\<open>None\<close> is the error);
  \<^item> \<open>utf8_valid\<close>: \<open>utf8.ValidString\<close>.
\<close>

section \<open>Prefixes\<close>

fun cut_prefix :: "'a list \<Rightarrow> 'a list \<Rightarrow> 'a list option" where
  "cut_prefix [] s = Some s"
| "cut_prefix (p # ps) [] = None"
| "cut_prefix (p # ps) (c # s) = (if p = c then cut_prefix ps s else None)"

definition has_prefix :: "'a list \<Rightarrow> 'a list \<Rightarrow> bool" where
  "has_prefix p s \<longleftrightarrow> cut_prefix p s \<noteq> None"

fun str_contains :: "string \<Rightarrow> string \<Rightarrow> bool" where
  "str_contains [] sub = (sub = [])"
| "str_contains (c # s) sub = (has_prefix sub (c # s) \<or> str_contains s sub)"

lemma cut_prefix_Some: "cut_prefix p s = Some r \<longleftrightarrow> s = p @ r"
  by (induction p s rule: cut_prefix.induct) auto

lemma has_prefix_iff: "has_prefix p s \<longleftrightarrow> (\<exists>r. s = p @ r)"
  by (auto simp: has_prefix_def cut_prefix_Some simp flip: not_None_eq)

lemma has_prefix_append [simp]: "has_prefix p (p @ r)"
  by (auto simp: has_prefix_iff)

lemma has_prefix_Nil [simp]: "has_prefix [] s"
  by (simp add: has_prefix_def)

lemma has_prefix_length: "has_prefix p s \<Longrightarrow> length p \<le> length s"
  by (auto simp: has_prefix_iff)

lemma has_prefix_Cons [simp]: "has_prefix (p # ps) (c # s) \<longleftrightarrow> p = c \<and> has_prefix ps s"
  by (simp add: has_prefix_def)

lemma has_prefix_Cons_Nil [simp]: "\<not> has_prefix (p # ps) []"
  by (simp add: has_prefix_def)

section \<open>White space\<close>

definition space_seqs :: "string list" where
  "space_seqs =
     [[CHR 0x09], [CHR 0x0A], [CHR 0x0B], [CHR 0x0C], [CHR 0x0D], [CHR 0x20],
      [CHR 0xC2, CHR 0x85], [CHR 0xC2, CHR 0xA0], [CHR 0xE1, CHR 0x9A, CHR 0x80],
      [CHR 0xE2, CHR 0x80, CHR 0x80], [CHR 0xE2, CHR 0x80, CHR 0x81],
      [CHR 0xE2, CHR 0x80, CHR 0x82], [CHR 0xE2, CHR 0x80, CHR 0x83],
      [CHR 0xE2, CHR 0x80, CHR 0x84], [CHR 0xE2, CHR 0x80, CHR 0x85],
      [CHR 0xE2, CHR 0x80, CHR 0x86], [CHR 0xE2, CHR 0x80, CHR 0x87],
      [CHR 0xE2, CHR 0x80, CHR 0x88], [CHR 0xE2, CHR 0x80, CHR 0x89],
      [CHR 0xE2, CHR 0x80, CHR 0x8A], [CHR 0xE2, CHR 0x80, CHR 0xA8],
      [CHR 0xE2, CHR 0x80, CHR 0xA9], [CHR 0xE2, CHR 0x80, CHR 0xAF],
      [CHR 0xE2, CHR 0x81, CHR 0x9F], [CHR 0xE3, CHR 0x80, CHR 0x80]]"

function drop_seqs :: "'a list list \<Rightarrow> 'a list \<Rightarrow> 'a list" where
  "drop_seqs ps s =
     (case find (\<lambda>p. p \<noteq> [] \<and> has_prefix p s) ps of
        None \<Rightarrow> s
      | Some p \<Rightarrow> drop_seqs ps (drop (length p) s))"
  by pat_completeness auto
termination
proof (relation "measure (\<lambda>(ps, s). length s)", simp, goal_cases)
  case (1 ps s p)
  then have "p \<noteq> []" "has_prefix p s" by (auto simp: find_Some_iff)
  then show ?case using has_prefix_length [of p s] by (cases p; cases s; simp)
qed

declare drop_seqs.simps [simp del]

definition trim_left_space :: "string \<Rightarrow> string" where
  "trim_left_space s = drop_seqs space_seqs s"

definition trim_right_space :: "string \<Rightarrow> string" where
  "trim_right_space s = rev (drop_seqs (map rev space_seqs) (rev s))"

definition trim_space :: "string \<Rightarrow> string" where
  "trim_space s = trim_right_space (trim_left_space s)"

lemma drop_seqs_suffix: "\<exists>r. s = r @ drop_seqs ps s"
proof (induction ps s rule: drop_seqs.induct)
  case (1 ps s)
  show ?case
  proof (cases "find (\<lambda>p. p \<noteq> [] \<and> has_prefix p s) ps")
    case None
    then show ?thesis by (simp add: drop_seqs.simps [of ps s])
  next
    case (Some p)
    then obtain r where "drop (length p) s = r @ drop_seqs ps (drop (length p) s)"
      using "1.IH" by blast
    then have "s = (take (length p) s @ r) @ drop_seqs ps (drop (length p) s)"
      by (metis append_assoc append_take_drop_id)
    moreover have "drop_seqs ps s = drop_seqs ps (drop (length p) s)"
      using Some by (simp add: drop_seqs.simps [of ps s])
    ultimately show ?thesis by metis
  qed
qed

lemma drop_seqs_length: "length (drop_seqs ps s) \<le> length s"
  by (metis drop_seqs_suffix length_append le_add2)

lemma set_drop_seqs: "set (drop_seqs ps s) \<subseteq> set s"
  by (metis drop_seqs_suffix set_append Un_upper2)

lemma drop_seqs_None:
  "find (\<lambda>p. p \<noteq> [] \<and> has_prefix p s) ps = None \<Longrightarrow> drop_seqs ps s = s"
  by (simp add: drop_seqs.simps [of ps s])

lemma trim_space_length: "length (trim_space s) \<le> length s"
  unfolding trim_space_def trim_right_space_def trim_left_space_def
  by (metis drop_seqs_length length_rev order_trans)

lemma set_trim_space: "set (trim_space s) \<subseteq> set s"
  unfolding trim_space_def trim_right_space_def trim_left_space_def
  by (metis set_drop_seqs set_rev subset_trans)

lemma trim_space_Nil [simp]: "trim_space [] = []"
  using trim_space_length [of "[]"] by simp

text \<open>A string of printable ASCII characters has nothing to trim.\<close>

definition printable :: "char \<Rightarrow> bool" where
  "printable c \<longleftrightarrow> 33 \<le> (of_char c :: nat) \<and> (of_char c :: nat) \<le> 126"

definition unprintable_seqs :: "string list \<Rightarrow> bool" where
  "unprintable_seqs ps \<longleftrightarrow> list_all (\<lambda>p. p = [] \<or> \<not> printable (hd p)) ps"

lemma drop_seqs_printable:
  assumes "unprintable_seqs ps" "list_all printable s"
  shows "drop_seqs ps s = s"
proof (rule drop_seqs_None)
  have "\<not> (p \<noteq> [] \<and> has_prefix p s)" if "p \<in> set ps" for p
    using assms that
    by (cases p; cases s) (auto simp: unprintable_seqs_def list_all_iff)
  then show "find (\<lambda>p. p \<noteq> [] \<and> has_prefix p s) ps = None"
    by (auto simp: find_None_iff)
qed

lemma unprintable_space_seqs:
  "unprintable_seqs space_seqs" "unprintable_seqs (map rev space_seqs)"
  by (simp_all add: unprintable_seqs_def space_seqs_def printable_def)

lemma trim_space_printable: "list_all printable s \<Longrightarrow> trim_space s = s"
  by (simp add: trim_space_def trim_left_space_def trim_right_space_def drop_seqs_printable
      unprintable_space_seqs list_all_iff)

text \<open>A string with a printable last character does not trim to the empty string.\<close>

lemma drop_seqs_last:
  assumes "list_all (\<lambda>p. c \<notin> set p) ps"
  shows "\<exists>r. drop_seqs ps (xs @ [c]) = r @ [c]"
proof (induction "length xs" arbitrary: xs rule: less_induct)
  case less
  show ?case
  proof (cases "find (\<lambda>p. p \<noteq> [] \<and> has_prefix p (xs @ [c])) ps")
    case None
    then show ?thesis by (simp add: drop_seqs_None)
  next
    case (Some p)
    then have p: "p \<in> set ps" "p \<noteq> []" "has_prefix p (xs @ [c])" by (auto simp: find_Some_iff)
    then obtain r where r: "xs @ [c] = p @ r" by (auto simp: has_prefix_iff)
    have "c \<notin> set p" using assms p(1) by (auto simp: list_all_iff)
    with r have "r \<noteq> []" by (metis append_Nil2 in_set_conv_decomp)
    with r obtain r' where r': "xs = p @ r'" "r = r' @ [c]" by (metis append_butlast_last_id append_assoc last_appendR snoc_eq_iff_butlast)
    have "drop_seqs ps (xs @ [c]) = drop_seqs ps (r' @ [c])"
      by (subst drop_seqs.simps) (use Some r' in simp)
    with less [of r'] r' p(2) show ?thesis by simp
  qed
qed

lemma trim_space_last:
  assumes "printable c"
  shows "trim_space (xs @ [c]) \<noteq> []"
proof -
  have "list_all (list_all (\<lambda>d. \<not> printable d)) space_seqs"
    by (simp add: space_seqs_def printable_def)
  then have "list_all (\<lambda>p. c \<notin> set p) space_seqs"
    using assms by (auto simp: list_all_iff)
  then obtain r where "trim_left_space (xs @ [c]) = r @ [c]"
    using drop_seqs_last [of c space_seqs xs] by (auto simp: trim_left_space_def)
  moreover have "drop_seqs (map rev space_seqs) (c # rev r) = c # rev r"
  proof (rule drop_seqs_None)
    have "\<not> (p \<noteq> [] \<and> has_prefix p (c # rev r))" if "p \<in> set (map rev space_seqs)" for p
    proof (cases p)
      case (Cons d ds)
      have "p = [] \<or> \<not> printable (hd p)"
        using that unprintable_space_seqs(2) by (simp only: unprintable_seqs_def list_all_iff)
      with assms Cons show ?thesis by auto
    qed simp
    then show "find (\<lambda>p. p \<noteq> [] \<and> has_prefix p (c # rev r)) (map rev space_seqs) = None"
      by (auto simp: find_None_iff)
  qed
  ultimately show ?thesis by (simp add: trim_space_def trim_right_space_def)
qed

lemma drop_seqs_printable_hd: "unprintable_seqs ps \<Longrightarrow> printable c \<Longrightarrow> drop_seqs ps (c # s) = c # s"
proof (rule drop_seqs_None)
  assume "unprintable_seqs ps" "printable c"
  then have "\<not> (p \<noteq> [] \<and> has_prefix p (c # s))" if "p \<in> set ps" for p
    using that by (cases p) (auto simp: unprintable_seqs_def list_all_iff)
  then show "find (\<lambda>p. p \<noteq> [] \<and> has_prefix p (c # s)) ps = None" by (auto simp: find_None_iff)
qed

lemma trim_space_delimited: "printable c \<Longrightarrow> printable d \<Longrightarrow> trim_space (c # s @ [d]) = c # s @ [d]"
  using unprintable_space_seqs drop_seqs_printable_hd [of space_seqs c "s @ [d]"] drop_seqs_printable_hd [of "map rev space_seqs" d "rev s @ [c]"]
  by (simp add: trim_space_def trim_left_space_def trim_right_space_def)

section \<open>Case\<close>

definition lower_char :: "char \<Rightarrow> char" where
  "lower_char c = (let n = (of_char c :: nat) in if 65 \<le> n \<and> n \<le> 90 then char_of (n + 32) else c)"

definition upper_char :: "char \<Rightarrow> char" where
  "upper_char c = (let n = (of_char c :: nat) in if 97 \<le> n \<and> n \<le> 122 then char_of (n - 32) else c)"

definition to_lower :: "string \<Rightarrow> string" where
  "to_lower s = map lower_char s"

definition to_upper :: "string \<Rightarrow> string" where
  "to_upper s = map upper_char s"

section \<open>Decimal numbers\<close>

definition digit_char :: "nat \<Rightarrow> char" where
  "digit_char d = char_of (48 + d)"

fun nat_digits :: "nat \<Rightarrow> string" where
  "nat_digits n = (if n < 10 then [digit_char n] else nat_digits (n div 10) @ [digit_char (n mod 10)])"

declare nat_digits.simps [simp del]

definition itoa :: "int \<Rightarrow> string" where
  "itoa i = (if i < 0 then CHR ''-'' # nat_digits (nat (- i)) else nat_digits (nat i))"

definition digit_value :: "char \<Rightarrow> nat option" where
  "digit_value c =
     (let n = (of_char c :: nat) in if 48 \<le> n \<and> n \<le> 57 then Some (n - 48) else None)"

fun parse_digits :: "nat \<Rightarrow> string \<Rightarrow> nat option" where
  "parse_digits acc [] = Some acc"
| "parse_digits acc (c # s) =
     (case digit_value c of None \<Rightarrow> None | Some d \<Rightarrow> parse_digits (10 * acc + d) s)"

definition atoi :: "string \<Rightarrow> int option" where
  "atoi s =
     (let (neg, ds) =
        (case s of
           c # r \<Rightarrow> (if c = CHR ''-'' then (True, r) else if c = CHR ''+'' then (False, r) else (False, s))
         | [] \<Rightarrow> (False, s))
      in if ds = [] then None
         else case parse_digits 0 ds of
                None \<Rightarrow> None
              | Some n \<Rightarrow> (let i = (if neg then - int n else int n) in if in_i64 i then Some i else None))"

lemma parse_digits_append:
  "parse_digits acc (s @ t) = (case parse_digits acc s of None \<Rightarrow> None | Some a \<Rightarrow> parse_digits a t)"
  by (induction acc s rule: parse_digits.induct) (auto split: option.splits)

lemma digit_value_digit_char: "d < 10 \<Longrightarrow> digit_value (digit_char d) = Some d"
  by (simp add: digit_value_def digit_char_def)

lemma parse_nat_digits: "parse_digits 0 (nat_digits n) = Some n"
proof (induction n rule: nat_digits.induct)
  case (1 n)
  show ?case
    by (subst nat_digits.simps)
      (use "1.IH" in \<open>auto simp: parse_digits_append digit_value_digit_char\<close>)
qed

lemma nat_digits_digit: "list_all (\<lambda>c. digit_value c \<noteq> None) (nat_digits n)"
proof (induction n rule: nat_digits.induct)
  case (1 n)
  show ?case
    by (subst nat_digits.simps) (use "1.IH" in \<open>auto simp: digit_value_digit_char\<close>)
qed

lemma nat_digits_nonempty [simp]: "nat_digits n \<noteq> []"
  by (subst nat_digits.simps) simp

lemma hd_nat_digits: "hd (nat_digits n) \<noteq> CHR ''-''" "hd (nat_digits n) \<noteq> CHR ''+''"
proof -
  have "digit_value (hd (nat_digits n)) \<noteq> None"
    using nat_digits_digit [of n] by (cases "nat_digits n") auto
  then show "hd (nat_digits n) \<noteq> CHR ''-''" "hd (nat_digits n) \<noteq> CHR ''+''"
    by (auto simp: digit_value_def)
qed

lemma atoi_itoa: "in_i64 i \<Longrightarrow> atoi (itoa i) = Some i"
proof (cases "i < 0")
  case True
  assume "in_i64 i"
  with True show ?thesis by (simp add: atoi_def itoa_def parse_nat_digits)
next
  case False
  assume i: "in_i64 i"
  obtain c r where cr: "nat_digits (nat i) = c # r" by (cases "nat_digits (nat i)") auto
  with hd_nat_digits [of "nat i"] have "c \<noteq> CHR ''-''" "c \<noteq> CHR ''+''" by auto
  moreover have "parse_digits 0 (c # r) = Some (nat i)"
    using parse_nat_digits [of "nat i"] unfolding cr .
  ultimately show ?thesis
    using False i by (simp add: atoi_def itoa_def cr del: parse_digits.simps)
qed

lemma digit_printable: "digit_value c \<noteq> None \<Longrightarrow> printable c"
  by (auto simp: digit_value_def printable_def Let_def split: if_splits)

lemma itoa_printable: "list_all printable (itoa i)"
proof -
  have "list_all printable (nat_digits n)" for n
    using nat_digits_digit [of n] by (auto simp: list_all_iff intro: digit_printable)
  then show ?thesis by (simp add: itoa_def printable_def)
qed

lemma itoa_nonempty [simp]: "itoa i \<noteq> []"
  by (simp add: itoa_def)

section \<open>UTF-8 validity\<close>

definition cont_byte :: "nat \<Rightarrow> bool" where
  "cont_byte b \<longleftrightarrow> 0x80 \<le> b \<and> b \<le> 0xBF"

fun utf8_valid_bytes :: "nat list \<Rightarrow> bool" where
  "utf8_valid_bytes [] = True"
| "utf8_valid_bytes (a # s) =
     (if a < 0x80 then utf8_valid_bytes s
      else if 0xC2 \<le> a \<and> a \<le> 0xDF then
        (case s of b # s' \<Rightarrow> cont_byte b \<and> utf8_valid_bytes s' | [] \<Rightarrow> False)
      else if 0xE0 \<le> a \<and> a \<le> 0xEF then
        (case s of
           b # c # s' \<Rightarrow>
             (if a = 0xE0 then 0xA0 \<le> b \<and> b \<le> 0xBF
              else if a = 0xED then 0x80 \<le> b \<and> b \<le> 0x9F else cont_byte b)
             \<and> cont_byte c \<and> utf8_valid_bytes s'
         | _ \<Rightarrow> False)
      else if 0xF0 \<le> a \<and> a \<le> 0xF4 then
        (case s of
           b # c # d # s' \<Rightarrow>
             (if a = 0xF0 then 0x90 \<le> b \<and> b \<le> 0xBF
              else if a = 0xF4 then 0x80 \<le> b \<and> b \<le> 0x8F else cont_byte b)
             \<and> cont_byte c \<and> cont_byte d \<and> utf8_valid_bytes s'
         | _ \<Rightarrow> False)
      else False)"

definition utf8_valid :: "string \<Rightarrow> bool" where
  "utf8_valid s = utf8_valid_bytes (map of_char s)"

lemma utf8_valid_Nil [simp]: "utf8_valid []"
  by (simp add: utf8_valid_def)

section \<open>Trimming, and lower case of identifiers\<close>

definition trim_prefix :: "'a list \<Rightarrow> 'a list \<Rightarrow> 'a list" where
  "trim_prefix p s = (case cut_prefix p s of Some r \<Rightarrow> r | None \<Rightarrow> s)"

definition trim_suffix :: "'a list \<Rightarrow> 'a list \<Rightarrow> 'a list" where
  "trim_suffix p s = rev (trim_prefix (rev p) (rev s))"

text \<open>\<open>strings.ToLower\<close> for a result that is only compared with ASCII text: besides the letters A to Z,
  exactly two runes have an ASCII lower case, the Kelvin sign and the capital I with dot above.\<close>

fun fold_runes :: "string \<Rightarrow> string" where
  "fold_runes (a # b # c # s) =
     (if a = CHR 0xE2 \<and> b = CHR 0x84 \<and> c = CHR 0xAA then CHR ''k'' # fold_runes s
      else if a = CHR 0xC4 \<and> b = CHR 0xB0 then CHR ''i'' # fold_runes (c # s)
      else a # fold_runes (b # c # s))"
| "fold_runes [a, b] = (if a = CHR 0xC4 \<and> b = CHR 0xB0 then [CHR ''i''] else [a, b])"
| "fold_runes [a] = [a]"
| "fold_runes [] = []"

definition to_lower_ascii :: "string \<Rightarrow> string" where
  "to_lower_ascii s = to_lower (fold_runes s)"

lemma trim_prefix_append [simp]: "trim_prefix p (p @ s) = s"
proof -
  have "cut_prefix p (p @ s) = Some s" by (simp add: cut_prefix_Some)
  then show ?thesis by (simp add: trim_prefix_def)
qed

lemma trim_prefix_other: "\<not> has_prefix p s \<Longrightarrow> trim_prefix p s = s"
  by (simp add: trim_prefix_def has_prefix_def split: option.splits)

section \<open>Case folding\<close>

text \<open>\<open>strings.EqualFold\<close>: besides the ASCII letters, the Kelvin sign and the long s fold to an ASCII letter.
  Other letters are compared as they are.\<close>

fun fold_case :: "string \<Rightarrow> string" where
  "fold_case (a # b # c # s) =
     (if a = CHR 0xE2 \<and> b = CHR 0x84 \<and> c = CHR 0xAA then CHR ''k'' # fold_case s
      else if a = CHR 0xC5 \<and> b = CHR 0xBF then CHR ''s'' # fold_case (c # s)
      else lower_char a # fold_case (b # c # s))"
| "fold_case [a, b] = (if a = CHR 0xC5 \<and> b = CHR 0xBF then [CHR ''s''] else [lower_char a, lower_char b])"
| "fold_case [a] = [lower_char a]"
| "fold_case [] = []"

definition equal_fold :: "string \<Rightarrow> string \<Rightarrow> bool" where
  "equal_fold s t \<longleftrightarrow> fold_case s = fold_case t"

lemma equal_fold_equiv [simp]: "equal_fold s s" "equal_fold s t \<Longrightarrow> equal_fold t s"
  by (simp_all add: equal_fold_def)

text \<open>\<open>strings.ToUpper\<close> for a result that is only compared with ASCII text: the long s and the dotless i
  have an ASCII upper case.\<close>

fun upper_runes :: "string \<Rightarrow> string" where
  "upper_runes (a # b # s) =
     (if a = CHR 0xC5 \<and> b = CHR 0xBF then CHR ''S'' # upper_runes s
      else if a = CHR 0xC4 \<and> b = CHR 0xB1 then CHR ''I'' # upper_runes s
      else a # upper_runes (b # s))"
| "upper_runes [a] = [a]"
| "upper_runes [] = []"

definition to_upper_ascii :: "string \<Rightarrow> string" where
  "to_upper_ascii s = to_upper (upper_runes s)"

end
