(* ===== verification/App_Errors.thy ===== *)
theory App_Errors
  imports Go_Strings
begin

text \<open>
  The error values of \<open>internal/pkg/errors\<close>: the struct \<open>Status\<close>, the type
  \<open>ApplicationError\<close> with its methods, the constructors and predicates per HTTP status, and
  \<open>ToHTTP\<close>, which every handler uses to answer.

  A Go \<open>error\<close> is a \<open>goerror\<close>: an \<open>ApplicationError\<close> with its cause, an error
  without a chain (\<open>errors.New\<close>) or one that wraps another (\<open>fmt.Errorf\<close> with
  \<open>%w\<close>). The nil error is \<open>None\<close>. \<open>errors.As\<close> with an
  \<open>*ApplicationError\<close> target is the walk \<open>as_app\<close> along the chain.
\<close>

section \<open>Types\<close>

record Status =
  st_Code :: int
  st_Reason :: string
  st_Message :: string
  st_Metadata :: "(string, string) gomap option"

datatype goerror =
    ApplicationError Status "goerror option"
  | PlainError string
  | WrapError string goerror

definition UnknownCode :: int where "UnknownCode = 500"
definition UnknownReason :: string where "UnknownReason = ''''"
definition UnknownMessage :: string where "UnknownMessage = ''internal error''"

section \<open>Operations\<close>

primrec as_app :: "goerror \<Rightarrow> (Status \<times> goerror option) option" where
  "as_app (ApplicationError s c) = Some (s, c)"
| "as_app (PlainError m) = None"
| "as_app (WrapError m e) = as_app e"

definition Unwrap :: "goerror \<Rightarrow> goerror option" where
  "Unwrap e = (case e of ApplicationError s c \<Rightarrow> c | PlainError m \<Rightarrow> None | WrapError m e' \<Rightarrow> Some e')"

definition app_Is :: "Status \<Rightarrow> goerror \<Rightarrow> bool" where
  "app_Is s err =
     (case as_app err of
        Some (se, _) \<Rightarrow> st_Code se = st_Code s \<and> st_Reason se = st_Reason s
      | None \<Rightarrow> False)"

text \<open>\<open>Clone\<close> copies the metadata map entry by entry.\<close>

definition copy_map :: "(string, string) gomap \<Rightarrow> (string, string) gomap" where
  "copy_map md = foldl (\<lambda>acc (k, v). gm_put k v acc) [] md"

definition Clone :: "Status \<times> goerror option \<Rightarrow> Status \<times> goerror option" where
  "Clone e = (case e of (s, c) \<Rightarrow>
     (\<lparr>st_Code = st_Code s, st_Reason = st_Reason s, st_Message = st_Message s,
       st_Metadata = map_option copy_map (st_Metadata s)\<rparr>, c))"

definition WithCause :: "Status \<times> goerror option \<Rightarrow> goerror option \<Rightarrow> Status \<times> goerror option" where
  "WithCause e cause = (case Clone e of (s, _) \<Rightarrow> (s, cause))"

definition WithMetadata ::
  "Status \<times> goerror option \<Rightarrow> (string, string) gomap option \<Rightarrow> Status \<times> goerror option" where
  "WithMetadata e md = (case Clone e of (s, c) \<Rightarrow> (s\<lparr>st_Metadata := map_option copy_map md\<rparr>, c))"

definition New :: "int \<Rightarrow> string \<Rightarrow> string \<Rightarrow> Status \<times> goerror option" where
  "New code reason message =
     (\<lparr>st_Code = i32 code, st_Reason = reason, st_Message = message, st_Metadata = None\<rparr>, None)"

definition FromError :: "goerror option \<Rightarrow> (Status \<times> goerror option) option" where
  "FromError err =
     (case err of
        None \<Rightarrow> None
      | Some e \<Rightarrow>
          (case as_app e of
             Some se \<Rightarrow> Some se
           | None \<Rightarrow> Some (WithCause (New UnknownCode UnknownReason UnknownMessage) (Some e))))"

definition Code :: "goerror option \<Rightarrow> int" where
  "Code err = (case FromError err of None \<Rightarrow> 200 | Some (s, _) \<Rightarrow> st_Code s)"

definition Reason :: "goerror option \<Rightarrow> string" where
  "Reason err = (case FromError err of None \<Rightarrow> UnknownReason | Some (s, _) \<Rightarrow> st_Reason s)"

definition Message :: "goerror option \<Rightarrow> string" where
  "Message err = (case FromError err of None \<Rightarrow> '''' | Some (s, _) \<Rightarrow> st_Message s)"

definition ToHTTP :: "goerror option \<Rightarrow> int \<times> Status" where
  "ToHTTP err =
     (case FromError err of
        None \<Rightarrow> (200, \<lparr>st_Code = 200, st_Reason = '''', st_Message = '''', st_Metadata = None\<rparr>)
      | Some (s, _) \<Rightarrow>
          (st_Code s,
           \<lparr>st_Code = st_Code s, st_Reason = st_Reason s, st_Message = st_Message s,
             st_Metadata = map_option copy_map (st_Metadata s)\<rparr>))"

section \<open>Constructors and predicates\<close>

definition BadRequest where "BadRequest r m = New 400 r m"
definition TooManyRequests where "TooManyRequests r m = New 429 r m"
definition Unauthorized where "Unauthorized r m = New 401 r m"
definition Forbidden where "Forbidden r m = New 403 r m"
definition NotFound where "NotFound r m = New 404 r m"
definition Conflict where "Conflict r m = New 409 r m"
definition InternalServer where "InternalServer r m = New 500 r m"
definition ServiceUnavailable where "ServiceUnavailable r m = New 503 r m"
definition GatewayTimeout where "GatewayTimeout r m = New 504 r m"
definition ClientClosed where "ClientClosed r m = New 499 r m"

definition IsBadRequest where "IsBadRequest err \<longleftrightarrow> Code err = 400"
definition IsTooManyRequests where "IsTooManyRequests err \<longleftrightarrow> Code err = 429"
definition IsUnauthorized where "IsUnauthorized err \<longleftrightarrow> Code err = 401"
definition IsForbidden where "IsForbidden err \<longleftrightarrow> Code err = 403"
definition IsNotFound where "IsNotFound err \<longleftrightarrow> Code err = 404"
definition IsConflict where "IsConflict err \<longleftrightarrow> Code err = 409"
definition IsInternalServer where "IsInternalServer err \<longleftrightarrow> Code err = 500"
definition IsServiceUnavailable where "IsServiceUnavailable err \<longleftrightarrow> Code err = 503"
definition IsGatewayTimeout where "IsGatewayTimeout err \<longleftrightarrow> Code err = 504"
definition IsClientClosed where "IsClientClosed err \<longleftrightarrow> Code err = 499"

text \<open>An \<open>*ApplicationError\<close> used as an \<open>error\<close>.\<close>

definition app_err :: "Status \<times> goerror option \<Rightarrow> goerror" where
  "app_err e = ApplicationError (fst e) (snd e)"

lemmas error_ctor_defs = BadRequest_def TooManyRequests_def Unauthorized_def Forbidden_def
  NotFound_def Conflict_def InternalServer_def ServiceUnavailable_def GatewayTimeout_def
  ClientClosed_def

lemmas error_pred_defs = IsBadRequest_def IsTooManyRequests_def IsUnauthorized_def IsForbidden_def
  IsNotFound_def IsConflict_def IsInternalServer_def IsServiceUnavailable_def IsGatewayTimeout_def
  IsClientClosed_def

section \<open>Lemmas\<close>

lemma gm_put_append_new: "k \<notin> fst ` set m \<Longrightarrow> gm_put k v m = m @ [(k, v)]"
  unfolding gm_put_def by (induction m) auto

lemma foldl_put_append:
  "distinct (map fst (acc @ md)) \<Longrightarrow> foldl (\<lambda>acc (k, v). gm_put k v acc) acc md = acc @ md"
proof (induction md arbitrary: acc)
  case Nil
  then show ?case by simp
next
  case (Cons kv md)
  obtain k v where kv: "kv = (k, v)" by force
  with Cons.prems have "gm_put k v acc = acc @ [(k, v)]"
    by (intro gm_put_append_new) auto
  with Cons kv show ?case by simp
qed

lemma copy_map_id: "gm_ok md \<Longrightarrow> copy_map md = md"
  using foldl_put_append [of "[]" md] by (simp add: copy_map_def gm_ok_def)

text \<open>A status as every constructor makes it: codes fit \<open>int32\<close>, metadata is a map.\<close>

definition status_ok :: "Status \<Rightarrow> bool" where
  "status_ok s \<longleftrightarrow> (case st_Metadata s of None \<Rightarrow> True | Some md \<Rightarrow> gm_ok md)"

lemma Clone_id: "status_ok s \<Longrightarrow> Clone (s, c) = (s, c)"
  by (cases s; cases "st_Metadata s") (auto simp: Clone_def status_ok_def copy_map_id)

lemma New_code [simp]: "st_Code (fst (New c r m)) = i32 c"
  by (simp add: New_def)

lemma New_reason [simp]: "st_Reason (fst (New c r m)) = r"
  by (simp add: New_def)

lemma WithCause_fields [simp]:
  "st_Code (fst (WithCause e c)) = st_Code (fst e)"
  "st_Reason (fst (WithCause e c)) = st_Reason (fst e)"
  "st_Message (fst (WithCause e c)) = st_Message (fst e)"
  "snd (WithCause e c) = c"
  by (auto simp: WithCause_def Clone_def split: prod.splits)

lemma WithMetadata_fields [simp]:
  "st_Code (fst (WithMetadata e md)) = st_Code (fst e)"
  "st_Reason (fst (WithMetadata e md)) = st_Reason (fst e)"
  "st_Message (fst (WithMetadata e md)) = st_Message (fst e)"
  "snd (WithMetadata e md) = snd e"
  "st_Metadata (fst (WithMetadata e md)) = map_option copy_map md"
  by (auto simp: WithMetadata_def Clone_def split: prod.splits)

lemma as_app_app_err [simp]: "as_app (app_err e) = Some e"
  by (simp add: app_err_def)

lemma FromError_app_err [simp]: "FromError (Some (app_err e)) = Some e"
  by (simp add: FromError_def)

lemma Code_app_err [simp]: "Code (Some (app_err e)) = st_Code (fst e)"
  by (simp add: Code_def split: prod.splits)

lemma Reason_app_err [simp]: "Reason (Some (app_err e)) = st_Reason (fst e)"
  by (simp add: Reason_def split: prod.splits)

text \<open>Every handler answers with the status code that \<open>Code\<close> reports, the body repeats it
  together with the reason and the message of the first application error of the chain, and an
  error that carries no application error anywhere is answered with 500, an empty reason and the
  fixed message, so that the text of an internal error never reaches the client.\<close>

theorem ToHTTP_spec:
  "fst (ToHTTP err) = Code err
   \<and> st_Code (snd (ToHTTP err)) = Code err
   \<and> st_Reason (snd (ToHTTP err)) = Reason err
   \<and> st_Message (snd (ToHTTP err)) = Message err
   \<and> (\<forall>e. err = Some e \<and> as_app e = None \<longrightarrow>
        ToHTTP err = (500, \<lparr>st_Code = 500, st_Reason = '''', st_Message = ''internal error'',
          st_Metadata = None\<rparr>))"
proof (cases "FromError err")
  case None
  then show ?thesis
    by (auto simp: ToHTTP_def Code_def Reason_def Message_def UnknownReason_def FromError_def
        split: option.splits)
next
  case (Some sc)
  then show ?thesis
    by (cases sc)
      (auto simp: ToHTTP_def Code_def Reason_def Message_def FromError_def WithCause_def Clone_def
        New_def UnknownCode_def UnknownReason_def UnknownMessage_def i32_def
        split: option.splits)
qed

theorem ToHTTP_spec_witness:
  "as_app (WrapError ''query'' (PlainError ''pq: password'')) = None
   \<and> ToHTTP (Some (WrapError ''query'' (PlainError ''pq: password''))) =
      (500, \<lparr>st_Code = 500, st_Reason = '''', st_Message = ''internal error'',
        st_Metadata = None\<rparr>)"
  using ToHTTP_spec [of "Some (WrapError ''query'' (PlainError ''pq: password''))"] by simp

text \<open>Attaching a cause or metadata to an application error, and wrapping it, keep its code and
  reason, so \<open>Is\<close> still matches it; metadata is deep-copied and read back unchanged; and each
  constructor is recognised by exactly its own predicate.\<close>

theorem WithCause_WithMetadata_Is:
  assumes "gm_ok md"
  shows "app_Is (fst e) (WrapError w (app_err (WithCause e c)))
    \<and> app_Is (fst e) (WrapError w (app_err (WithMetadata e (Some md))))
    \<and> st_Metadata (fst (WithMetadata e (Some md))) = Some md
    \<and> Unwrap (app_err (WithCause e c)) = c
    \<and> IsConflict (Some (WrapError w (app_err (WithCause (Conflict r m) c))))
    \<and> \<not> IsServiceUnavailable (Some (WrapError w (app_err (WithCause (Conflict r m) c))))
    \<and> IsServiceUnavailable (Some (app_err (WithCause (ServiceUnavailable r m) c)))"
  using assms
  by (auto simp: app_Is_def Unwrap_def app_err_def copy_map_id error_ctor_defs error_pred_defs
      Code_def FromError_def i32_def split: prod.splits)

theorem WithCause_WithMetadata_Is_witness:
  "gm_ok [(''retry_after'', ''5'')]
   \<and> st_Metadata (fst (WithMetadata (Conflict ''X'' ''m'') (Some [(''retry_after'', ''5'')])))
      = Some [(''retry_after'', ''5'')]
   \<and> app_Is (fst (Conflict ''X'' ''m'')) (WrapError ''w'' (app_err (WithCause (Conflict ''X'' ''m'') None)))"
proof -
  have ok: "gm_ok [(''retry_after'', ''5'')]" by (simp add: gm_ok_def)
  show ?thesis
    using ok WithCause_WithMetadata_Is [OF ok, of "Conflict ''X'' ''m''" "''w''" None] by simp
qed

end
