(* ===== verification/Idempotency_Store.thy ===== *)
theory Idempotency_Store
  imports App_Errors
begin

text \<open>
  The records of \<open>internal/service/idempotency.go\<close>, the interface
  \<open>IdempotencyRepository\<close> as a record of functions over an abstract store state, the laws its
  clients rely on as a locale, and the PostgreSQL implementation of
  \<open>internal/repository/idempotency_repo.go\<close> as operations on a table.

  The table is a list of rows with the serial counter and the database clock; an
  \<open>UPDATE\<close> rewrites the rows that satisfy its \<open>WHERE\<close> clause and reports how many there
  were. Every call can fail: the faults that the driver will report are part of the state, and a
  call that fails may do so before or after its statement took effect. Timestamps keep the
  precision of \<open>time.Time\<close>; the rounding of \<open>timestamptz\<close> to microseconds is not modelled.
\<close>

section \<open>Records and the repository interface\<close>

definition StatusProcessing :: string where "StatusProcessing = ''processing''"
definition StatusSucceeded :: string where "StatusSucceeded = ''succeeded''"
definition StatusFailedRetryable :: string where "StatusFailedRetryable = ''failed_retryable''"

record IdempotencyRecord =
  ir_ID :: int
  ir_Scope :: string
  ir_IdempotencyKeyHash :: string
  ir_RequestFingerprint :: string
  ir_Status :: string
  ir_ResponseStatus :: "int option"
  ir_ResponseBody :: "string option"
  ir_ErrorReason :: "string option"
  ir_LockedUntil :: "gotime option"
  ir_ExpiresAt :: gotime
  ir_CreatedAt :: gotime
  ir_UpdatedAt :: gotime

record 's IdempotencyRepository =
  repo_CreateProcessing :: "'s \<Rightarrow> IdempotencyRecord \<Rightarrow> 's \<times> (goerror + bool \<times> IdempotencyRecord)"
  repo_GetByScopeAndKeyHash :: "'s \<Rightarrow> string \<Rightarrow> string \<Rightarrow> 's \<times> (goerror + IdempotencyRecord option)"
  repo_TryReclaim :: "'s \<Rightarrow> int \<Rightarrow> string \<Rightarrow> gotime \<Rightarrow> gotime \<Rightarrow> gotime \<Rightarrow> 's \<times> (goerror + bool)"
  repo_ExtendProcessingLock :: "'s \<Rightarrow> int \<Rightarrow> string \<Rightarrow> gotime \<Rightarrow> gotime \<Rightarrow> 's \<times> (goerror + bool)"
  repo_MarkSucceeded :: "'s \<Rightarrow> int \<Rightarrow> int \<Rightarrow> string \<Rightarrow> gotime \<Rightarrow> 's \<times> (goerror + unit)"
  repo_MarkFailedRetryable :: "'s \<Rightarrow> int \<Rightarrow> string \<Rightarrow> gotime \<Rightarrow> gotime \<Rightarrow> 's \<times> (goerror + unit)"
  repo_DeleteExpired :: "'s \<Rightarrow> gotime \<Rightarrow> int \<Rightarrow> 's \<times> (goerror + int)"

section \<open>The table\<close>

datatype fault = NoFault | FailBefore goerror | FailAfter goerror

record sql_state =
  sq_rows :: "IdempotencyRecord list"
  sq_next :: int
  sq_now :: gotime
  sq_faults :: "fault list"

definition next_fault :: "sql_state \<Rightarrow> fault" where
  "next_fault s = (case sq_faults s of [] \<Rightarrow> NoFault | f # _ \<Rightarrow> f)"

definition sql_call ::
  "(sql_state \<Rightarrow> sql_state \<times> 'a) \<Rightarrow> sql_state \<Rightarrow> sql_state \<times> (goerror + 'a)" where
  "sql_call stmt s =
     (let s0 = s\<lparr>sq_faults := tl (sq_faults s)\<rparr> in
      case next_fault s of
        NoFault \<Rightarrow> (fst (stmt s0), Inr (snd (stmt s0)))
      | FailBefore e \<Rightarrow> (s0, Inl e)
      | FailAfter e \<Rightarrow> (fst (stmt s0), Inl e))"

definition row_key :: "IdempotencyRecord \<Rightarrow> string \<times> string" where
  "row_key r = (ir_Scope r, ir_IdempotencyKeyHash r)"

definition sql_update ::
  "(IdempotencyRecord \<Rightarrow> bool) \<Rightarrow> (gotime \<Rightarrow> IdempotencyRecord \<Rightarrow> IdempotencyRecord) \<Rightarrow>
   sql_state \<Rightarrow> sql_state \<times> int" where
  "sql_update p f s =
     (s\<lparr>sq_rows := map (\<lambda>r. if p r then f (sq_now s) r else r) (sq_rows s)\<rparr>,
      int (length (filter p (sq_rows s))))"

section \<open>The statements\<close>

definition inserted_row :: "sql_state \<Rightarrow> IdempotencyRecord \<Rightarrow> IdempotencyRecord" where
  "inserted_row s record =
     \<lparr>ir_ID = sq_next s, ir_Scope = ir_Scope record,
      ir_IdempotencyKeyHash = ir_IdempotencyKeyHash record,
      ir_RequestFingerprint = ir_RequestFingerprint record, ir_Status = ir_Status record,
      ir_ResponseStatus = None, ir_ResponseBody = None, ir_ErrorReason = None,
      ir_LockedUntil = ir_LockedUntil record, ir_ExpiresAt = ir_ExpiresAt record,
      ir_CreatedAt = sq_now s, ir_UpdatedAt = sq_now s\<rparr>"

definition CreateProcessing ::
  "sql_state \<Rightarrow> IdempotencyRecord \<Rightarrow> sql_state \<times> (goerror + bool \<times> IdempotencyRecord)" where
  "CreateProcessing s record =
     sql_call (\<lambda>s.
       if \<exists>r \<in> set (sq_rows s). row_key r = row_key record
       then (s\<lparr>sq_next := sq_next s + 1\<rparr>, (False, record))
       else
         (s\<lparr>sq_rows := sq_rows s @ [inserted_row s record], sq_next := sq_next s + 1\<rparr>,
          (True, record\<lparr>ir_ID := sq_next s, ir_CreatedAt := sq_now s, ir_UpdatedAt := sq_now s\<rparr>))) s"

definition GetByScopeAndKeyHash ::
  "sql_state \<Rightarrow> string \<Rightarrow> string \<Rightarrow> sql_state \<times> (goerror + IdempotencyRecord option)" where
  "GetByScopeAndKeyHash s scope keyHash =
     sql_call (\<lambda>s. (s, find (\<lambda>r. ir_Scope r = scope \<and> ir_IdempotencyKeyHash r = keyHash) (sq_rows s))) s"

definition TryReclaim ::
  "sql_state \<Rightarrow> int \<Rightarrow> string \<Rightarrow> gotime \<Rightarrow> gotime \<Rightarrow> gotime \<Rightarrow> sql_state \<times> (goerror + bool)" where
  "TryReclaim s rid fromStatus now newLockedUntil newExpiresAt =
     sql_call (\<lambda>s.
       case sql_update
              (\<lambda>r. ir_ID r = rid \<and> ir_Status r = fromStatus \<and>
                 (case ir_LockedUntil r of None \<Rightarrow> True | Some l \<Rightarrow> l \<le> now))
              (\<lambda>dbnow r. r\<lparr>ir_Status := StatusProcessing, ir_LockedUntil := Some newLockedUntil,
                 ir_ErrorReason := None, ir_UpdatedAt := dbnow, ir_ExpiresAt := newExpiresAt\<rparr>) s of
         (s', affected) \<Rightarrow> (s', 0 < affected)) s"

definition ExtendProcessingLock ::
  "sql_state \<Rightarrow> int \<Rightarrow> string \<Rightarrow> gotime \<Rightarrow> gotime \<Rightarrow> sql_state \<times> (goerror + bool)" where
  "ExtendProcessingLock s rid requestFingerprint newLockedUntil newExpiresAt =
     sql_call (\<lambda>s.
       case sql_update
              (\<lambda>r. ir_ID r = rid \<and> ir_Status r = StatusProcessing \<and>
                 ir_RequestFingerprint r = requestFingerprint)
              (\<lambda>dbnow r. r\<lparr>ir_LockedUntil := Some newLockedUntil, ir_ExpiresAt := newExpiresAt,
                 ir_UpdatedAt := dbnow\<rparr>) s of
         (s', affected) \<Rightarrow> (s', 0 < affected)) s"

definition MarkSucceeded ::
  "sql_state \<Rightarrow> int \<Rightarrow> int \<Rightarrow> string \<Rightarrow> gotime \<Rightarrow> sql_state \<times> (goerror + unit)" where
  "MarkSucceeded s rid responseStatus responseBody expiresAt =
     sql_call (\<lambda>s.
       (fst (sql_update (\<lambda>r. ir_ID r = rid)
          (\<lambda>dbnow r. r\<lparr>ir_Status := StatusSucceeded, ir_ResponseStatus := Some responseStatus,
             ir_ResponseBody := Some responseBody, ir_ErrorReason := None, ir_LockedUntil := None,
             ir_ExpiresAt := expiresAt, ir_UpdatedAt := dbnow\<rparr>) s), ())) s"

definition MarkFailedRetryable ::
  "sql_state \<Rightarrow> int \<Rightarrow> string \<Rightarrow> gotime \<Rightarrow> gotime \<Rightarrow> sql_state \<times> (goerror + unit)" where
  "MarkFailedRetryable s rid errorReason lockedUntil expiresAt =
     sql_call (\<lambda>s.
       (fst (sql_update (\<lambda>r. ir_ID r = rid)
          (\<lambda>dbnow r. r\<lparr>ir_Status := StatusFailedRetryable, ir_ErrorReason := Some errorReason,
             ir_LockedUntil := Some lockedUntil, ir_ExpiresAt := expiresAt, ir_UpdatedAt := dbnow\<rparr>) s),
        ())) s"

definition expired_victims :: "gotime \<Rightarrow> int \<Rightarrow> IdempotencyRecord list \<Rightarrow> int list" where
  "expired_victims now limit rows =
     map ir_ID (take (nat limit) (sort_key ir_ExpiresAt (filter (\<lambda>r. ir_ExpiresAt r \<le> now) rows)))"

definition DeleteExpired ::
  "sql_state \<Rightarrow> gotime \<Rightarrow> int \<Rightarrow> sql_state \<times> (goerror + int)" where
  "DeleteExpired s now limit0 =
     (let limit = (if limit0 \<le> 0 then 500 else limit0) in
      sql_call (\<lambda>s.
        let victims = expired_victims now limit (sq_rows s);
            gone = filter (\<lambda>r. ir_ID r \<in> set victims) (sq_rows s)
        in (s\<lparr>sq_rows := filter (\<lambda>r. ir_ID r \<notin> set victims) (sq_rows s)\<rparr>, int (length gone))) s)"

definition idempotencyRepository :: "sql_state IdempotencyRepository" where
  "idempotencyRepository =
     \<lparr>repo_CreateProcessing = CreateProcessing, repo_GetByScopeAndKeyHash = GetByScopeAndKeyHash,
      repo_TryReclaim = TryReclaim, repo_ExtendProcessingLock = ExtendProcessingLock,
      repo_MarkSucceeded = MarkSucceeded, repo_MarkFailedRetryable = MarkFailedRetryable,
      repo_DeleteExpired = DeleteExpired\<rparr>"

section \<open>Invariant of the table\<close>

text \<open>Identifiers are unique, positive and below the serial counter, and no two rows share their
  scope and key hash.\<close>

definition sql_ok :: "sql_state \<Rightarrow> bool" where
  "sql_ok s \<longleftrightarrow> distinct (map ir_ID (sq_rows s)) \<and> distinct (map row_key (sq_rows s))
     \<and> 1 \<le> sq_next s \<and> list_all (\<lambda>r. 1 \<le> ir_ID r \<and> ir_ID r < sq_next s) (sq_rows s)"

definition sql_row :: "sql_state \<Rightarrow> string \<Rightarrow> string \<Rightarrow> IdempotencyRecord option" where
  "sql_row s scope keyHash =
     find (\<lambda>r. ir_Scope r = scope \<and> ir_IdempotencyKeyHash r = keyHash) (sq_rows s)"

text \<open>The statements are run through \<open>sql_call\<close>; a predicate that the statement keeps and that
  does not read the faults is kept by the call, whatever the fault is.\<close>

lemma sql_call_E:
  assumes "sql_call stmt s = (s', r)"
  obtains (finished) fs x where "stmt (s\<lparr>sq_faults := fs\<rparr>) = (s', x)" "r = Inr x"
  | (failed) fs e where "s' = s\<lparr>sq_faults := fs\<rparr> \<or> s' = fst (stmt (s\<lparr>sq_faults := fs\<rparr>))" "r = Inl e"
  using assms by (auto simp: sql_call_def Let_def split: fault.splits) (metis prod.collapse)

lemma sql_ok_faults [simp]: "sql_ok (s\<lparr>sq_faults := fs\<rparr>) = sql_ok s"
  by (simp add: sql_ok_def)

lemma sql_row_faults [simp]: "sql_row (s\<lparr>sq_faults := fs\<rparr>) = sql_row s"
  by (simp add: sql_row_def fun_eq_iff)

lemma sql_call_ok:
  assumes "sql_ok s" "\<And>t. sql_ok t \<Longrightarrow> sql_ok (fst (stmt t))"
  shows "sql_ok (fst (sql_call stmt s))"
  using assms by (simp add: sql_call_def Let_def split: fault.splits)

lemma sql_call_Inr:
  assumes "sql_call stmt s = (s', Inr x)"
  shows "stmt (s\<lparr>sq_faults := tl (sq_faults s)\<rparr>) = (s', x)"
  using assms by (auto simp: sql_call_def Let_def split: fault.splits prod.splits)

lemma sql_call_fst: "fst (sql_call stmt s) = s\<lparr>sq_faults := tl (sq_faults s)\<rparr>
    \<or> fst (sql_call stmt s) = fst (stmt (s\<lparr>sq_faults := tl (sq_faults s)\<rparr>))"
  by (simp add: sql_call_def Let_def split: fault.splits)

subsection \<open>Rows under the statements\<close>

definition key_preserving :: "(gotime \<Rightarrow> IdempotencyRecord \<Rightarrow> IdempotencyRecord) \<Rightarrow> bool" where
  "key_preserving f \<longleftrightarrow> (\<forall>t r. ir_Scope (f t r) = ir_Scope r
     \<and> ir_IdempotencyKeyHash (f t r) = ir_IdempotencyKeyHash r \<and> ir_ID (f t r) = ir_ID r)"

lemma sql_update_ok:
  assumes "key_preserving f" "sql_ok s"
  shows "sql_ok (fst (sql_update p f s))"
proof -
  let ?g = "\<lambda>r. if p r then f (sq_now s) r else r"
  have g: "ir_ID (?g r) = ir_ID r" "row_key (?g r) = row_key r" for r
    using assms(1) by (auto simp: key_preserving_def row_key_def)
  then have "ir_ID \<circ> ?g = ir_ID" "row_key \<circ> ?g = row_key" by (auto simp: fun_eq_iff)
  then show ?thesis
    using assms by (auto simp: sql_ok_def sql_update_def list_all_iff key_preserving_def)
qed

lemma sql_row_update:
  assumes "key_preserving f"
  shows "sql_row (fst (sql_update p f s)) a b =
    map_option (\<lambda>r. if p r then f (sq_now s) r else r) (sql_row s a b)"
proof -
  have "find (\<lambda>r. ir_Scope r = a \<and> ir_IdempotencyKeyHash r = b)
      (map (\<lambda>r. if p r then f t r else r) rs) =
    map_option (\<lambda>r. if p r then f t r else r)
      (find (\<lambda>r. ir_Scope r = a \<and> ir_IdempotencyKeyHash r = b) rs)" for t rs
    using assms by (induction rs) (auto simp: key_preserving_def)
  then show ?thesis by (simp add: sql_row_def sql_update_def)
qed

lemma sql_row_Some:
  "sql_row s a b = Some x \<Longrightarrow> x \<in> set (sq_rows s) \<and> ir_Scope x = a \<and> ir_IdempotencyKeyHash x = b"
  by (auto simp: sql_row_def find_Some_iff)

lemma sql_row_None:
  "sql_row s a b = None \<longleftrightarrow> (\<forall>r \<in> set (sq_rows s). row_key r \<noteq> (a, b))"
  by (auto simp: sql_row_def find_None_iff row_key_def)

lemma sql_ok_id_unique:
  "sql_ok s \<Longrightarrow> x \<in> set (sq_rows s) \<Longrightarrow> y \<in> set (sq_rows s) \<Longrightarrow> ir_ID x = ir_ID y \<Longrightarrow> x = y"
  by (auto simp: sql_ok_def distinct_map inj_on_def)

lemma sql_update_affected:
  assumes "sql_ok s" "sql_row s a b = Some x"
  shows "0 < snd (sql_update (\<lambda>r. ir_ID r = ir_ID x \<and> p r) f s) \<longleftrightarrow> p x"
proof -
  have "x \<in> set (sq_rows s)" using assms(2) sql_row_Some by blast
  then have "(\<exists>r \<in> set (sq_rows s). ir_ID r = ir_ID x \<and> p r) \<longleftrightarrow> p x"
    using sql_ok_id_unique [OF assms(1)] by blast
  then show ?thesis by (auto simp: sql_update_def filter_empty_conv)
qed

lemma key_preservingI [simp]:
  "(\<And>t r. ir_Scope (f t r) = ir_Scope r \<and> ir_IdempotencyKeyHash (f t r) = ir_IdempotencyKeyHash r
     \<and> ir_ID (f t r) = ir_ID r) \<Longrightarrow> key_preserving f"
  by (simp add: key_preserving_def)

lemma find_append_row: "find p (xs @ ys) = (case find p xs of None \<Rightarrow> find p ys | Some x \<Rightarrow> Some x)"
  by (induction xs) auto

section \<open>The contract of the repository\<close>

definition reclaimable :: "string \<Rightarrow> gotime \<Rightarrow> IdempotencyRecord \<Rightarrow> bool" where
  "reclaimable fromStatus now r \<longleftrightarrow>
     ir_Status r = fromStatus \<and> (case ir_LockedUntil r of None \<Rightarrow> True | Some l \<Rightarrow> l \<le> now)"

definition reclaimed_row :: "gotime \<Rightarrow> gotime \<Rightarrow> gotime \<Rightarrow> IdempotencyRecord \<Rightarrow> IdempotencyRecord" where
  "reclaimed_row l e u r = r\<lparr>ir_Status := StatusProcessing, ir_LockedUntil := Some l,
     ir_ErrorReason := None, ir_UpdatedAt := u, ir_ExpiresAt := e\<rparr>"

definition succeeded_row ::
  "int \<Rightarrow> string \<Rightarrow> gotime \<Rightarrow> gotime \<Rightarrow> IdempotencyRecord \<Rightarrow> IdempotencyRecord" where
  "succeeded_row st body e u r = r\<lparr>ir_Status := StatusSucceeded, ir_ResponseStatus := Some st,
     ir_ResponseBody := Some body, ir_ErrorReason := None, ir_LockedUntil := None,
     ir_ExpiresAt := e, ir_UpdatedAt := u\<rparr>"

definition failed_row ::
  "string \<Rightarrow> gotime \<Rightarrow> gotime \<Rightarrow> gotime \<Rightarrow> IdempotencyRecord \<Rightarrow> IdempotencyRecord" where
  "failed_row reason l e u r = r\<lparr>ir_Status := StatusFailedRetryable, ir_ErrorReason := Some reason,
     ir_LockedUntil := Some l, ir_ExpiresAt := e, ir_UpdatedAt := u\<rparr>"

definition stored_as :: "IdempotencyRecord \<Rightarrow> IdempotencyRecord \<Rightarrow> bool" where
  "stored_as r row \<longleftrightarrow> ir_RequestFingerprint row = ir_RequestFingerprint r \<and> ir_Status row = ir_Status r
     \<and> ir_LockedUntil row = ir_LockedUntil r \<and> ir_ExpiresAt row = ir_ExpiresAt r"

locale idempotency_repository =
  fixes repo :: "'s IdempotencyRepository"
    and row_of :: "'s \<Rightarrow> string \<Rightarrow> string \<Rightarrow> IdempotencyRecord option"
    and inv :: "'s \<Rightarrow> bool"
  assumes inv_create: "inv s \<Longrightarrow> inv (fst (repo_CreateProcessing repo s r))"
    and inv_get: "inv s \<Longrightarrow> inv (fst (repo_GetByScopeAndKeyHash repo s a b))"
    and inv_reclaim: "inv s \<Longrightarrow> inv (fst (repo_TryReclaim repo s i st n l e))"
    and inv_succeeded: "inv s \<Longrightarrow> inv (fst (repo_MarkSucceeded repo s i rs body e))"
    and inv_failed: "inv s \<Longrightarrow> inv (fst (repo_MarkFailedRetryable repo s i reason l e))"
    and create_result: "inv s \<Longrightarrow> repo_CreateProcessing repo s r = (s', Inr (own, r')) \<Longrightarrow>
      (own \<longleftrightarrow> row_of s (ir_Scope r) (ir_IdempotencyKeyHash r) = None)
      \<and> (\<not> own \<longrightarrow> r' = r)
      \<and> (own \<longrightarrow> 0 < ir_ID r' \<and> (\<exists>row. row_of s' (ir_Scope r) (ir_IdempotencyKeyHash r) = Some row
            \<and> stored_as r row \<and> ir_ID row = ir_ID r'))"
    and create_frame: "inv s \<Longrightarrow> row_of s a b = Some x \<Longrightarrow>
      row_of (fst (repo_CreateProcessing repo s r)) a b = Some x"
    and get_result: "repo_GetByScopeAndKeyHash repo s a b = (s', Inr res) \<Longrightarrow> res = row_of s a b"
    and get_frame: "row_of (fst (repo_GetByScopeAndKeyHash repo s a b)) = row_of s"
    and row_id_pos: "inv s \<Longrightarrow> row_of s a b = Some x \<Longrightarrow> 0 < ir_ID x"
    and reclaim_result: "inv s \<Longrightarrow> row_of s a b = Some x \<Longrightarrow>
      repo_TryReclaim repo s (ir_ID x) st n l e = (s', Inr t) \<Longrightarrow>
      (t \<longleftrightarrow> reclaimable st n x)
      \<and> (\<exists>u. row_of s' a b = Some (if t then reclaimed_row l e u x else x))"
    and succeeded_result: "inv s \<Longrightarrow> row_of s a b = Some x \<Longrightarrow>
      repo_MarkSucceeded repo s (ir_ID x) rs body e = (s', Inr ()) \<Longrightarrow>
      (\<exists>u. row_of s' a b = Some (succeeded_row rs body e u x))"
    and failed_result: "inv s \<Longrightarrow> row_of s a b = Some x \<Longrightarrow>
      repo_MarkFailedRetryable repo s (ir_ID x) reason l e = (s', Inr ()) \<Longrightarrow>
      (\<exists>u. row_of s' a b = Some (failed_row reason l e u x))"

text \<open>A repository whose calls do not fail while it is up.\<close>

locale reliable_repository = idempotency_repository repo row_of inv
  for repo :: "'s IdempotencyRepository" and row_of inv +
  fixes up :: "'s \<Rightarrow> bool"
  assumes up_create: "up s \<Longrightarrow> \<exists>s' x. repo_CreateProcessing repo s r = (s', Inr x) \<and> up s'"
    and up_get: "up s \<Longrightarrow> \<exists>s' x. repo_GetByScopeAndKeyHash repo s a b = (s', Inr x) \<and> up s'"
    and up_reclaim: "up s \<Longrightarrow> \<exists>s' x. repo_TryReclaim repo s i st n l e = (s', Inr x) \<and> up s'"
    and up_succeeded: "up s \<Longrightarrow> \<exists>s'. repo_MarkSucceeded repo s i rs body e = (s', Inr ()) \<and> up s'"
    and up_failed: "up s \<Longrightarrow> \<exists>s'. repo_MarkFailedRetryable repo s i reason l e = (s', Inr ()) \<and> up s'"

section \<open>The table meets the contract\<close>

lemma sql_ok_insert:
  assumes "sql_ok s" "\<forall>r \<in> set (sq_rows s). row_key r \<noteq> row_key row" "ir_ID row = sq_next s"
  shows "sql_ok (s\<lparr>sq_rows := sq_rows s @ [row], sq_next := sq_next s + 1\<rparr>)"
  using assms by (fastforce simp: sql_ok_def list_all_iff)

lemma sql_ok_next: "sql_ok s \<Longrightarrow> sql_ok (s\<lparr>sq_next := sq_next s + 1\<rparr>)"
  by (fastforce simp: sql_ok_def list_all_iff)

lemma row_key_inserted [simp]: "row_key (inserted_row s r) = row_key r"
  by (simp add: inserted_row_def row_key_def)

lemma CreateProcessing_ok: "sql_ok s \<Longrightarrow> sql_ok (fst (CreateProcessing s r))"
  unfolding CreateProcessing_def
  by (rule sql_call_ok) (auto intro!: sql_ok_insert sql_ok_next simp: inserted_row_def [of _ r] row_key_def)

lemma GetByScopeAndKeyHash_ok: "sql_ok s \<Longrightarrow> sql_ok (fst (GetByScopeAndKeyHash s a b))"
  unfolding GetByScopeAndKeyHash_def by (rule sql_call_ok) auto

lemma sql_update_stmt_ok:
  "key_preserving f \<Longrightarrow> sql_ok s \<Longrightarrow>
   sql_ok (fst (sql_call (\<lambda>s. case sql_update p f s of (s', n) \<Rightarrow> (s', g n)) s))"
  by (rule sql_call_ok) (auto simp: split_def sql_update_ok)

lemma TryReclaim_ok: "sql_ok s \<Longrightarrow> sql_ok (fst (TryReclaim s i st n l e))"
  unfolding TryReclaim_def by (rule sql_update_stmt_ok) auto

lemma ExtendProcessingLock_ok: "sql_ok s \<Longrightarrow> sql_ok (fst (ExtendProcessingLock s i fp l e))"
  unfolding ExtendProcessingLock_def by (rule sql_update_stmt_ok) auto

lemma MarkSucceeded_ok: "sql_ok s \<Longrightarrow> sql_ok (fst (MarkSucceeded s i st body e))"
  unfolding MarkSucceeded_def by (rule sql_call_ok) (auto simp: sql_update_ok)

lemma MarkFailedRetryable_ok: "sql_ok s \<Longrightarrow> sql_ok (fst (MarkFailedRetryable s i reason l e))"
  unfolding MarkFailedRetryable_def by (rule sql_call_ok) (auto simp: sql_update_ok)

lemma DeleteExpired_ok: "sql_ok s \<Longrightarrow> sql_ok (fst (DeleteExpired s now limit))"
  unfolding DeleteExpired_def Let_def
  by (rule sql_call_ok) (auto simp: sql_ok_def list_all_iff distinct_map_filter)

lemma CreateProcessing_result:
  assumes "sql_ok s" "CreateProcessing s r = (s', Inr (own, r'))"
  shows "(own \<longleftrightarrow> sql_row s (ir_Scope r) (ir_IdempotencyKeyHash r) = None)
      \<and> (\<not> own \<longrightarrow> r' = r)
      \<and> (own \<longrightarrow> 0 < ir_ID r' \<and> (\<exists>row. sql_row s' (ir_Scope r) (ir_IdempotencyKeyHash r) = Some row
            \<and> stored_as r row \<and> ir_ID row = ir_ID r'))"
proof -
  let ?s = "s\<lparr>sq_faults := tl (sq_faults s)\<rparr>"
  have none: "sql_row s (ir_Scope r) (ir_IdempotencyKeyHash r) = None \<longleftrightarrow>
      \<not> (\<exists>x \<in> set (sq_rows s). row_key x = row_key r)"
    by (auto simp: sql_row_None row_key_def)
  show ?thesis
  proof (cases own)
    case False
    with assms(2) none show ?thesis
      by (auto simp: CreateProcessing_def dest!: sql_call_Inr split: if_splits)
  next
    case True
    with assms(2) none have fresh: "sql_row s (ir_Scope r) (ir_IdempotencyKeyHash r) = None"
      and rows: "sq_rows s' = sq_rows s @ [inserted_row ?s r]" and "ir_ID r' = sq_next s"
      by (auto simp: CreateProcessing_def dest!: sql_call_Inr split: if_splits)
    moreover have "sql_row s' (ir_Scope r) (ir_IdempotencyKeyHash r) = Some (inserted_row ?s r)"
      using fresh by (simp add: sql_row_def rows find_append_row inserted_row_def)
    ultimately show ?thesis
      using True assms(1) by (simp add: stored_as_def inserted_row_def sql_ok_def)
  qed
qed

lemma CreateProcessing_rows:
  "\<exists>new. sq_rows (fst (CreateProcessing s r)) = sq_rows s @ new"
  by (auto simp: CreateProcessing_def sql_call_def Let_def split: fault.splits)

lemma CreateProcessing_frame:
  "sql_row s a b = Some x \<Longrightarrow> sql_row (fst (CreateProcessing s r)) a b = Some x"
  using CreateProcessing_rows [of s r] by (auto simp: sql_row_def find_append_row)

lemma TryReclaim_result:
  assumes "sql_ok s" "sql_row s a b = Some x" "TryReclaim s (ir_ID x) st n l e = (s', Inr t)"
  shows "(t \<longleftrightarrow> reclaimable st n x)
    \<and> (\<exists>u. sql_row s' a b = Some (if t then reclaimed_row l e u x else x))"
proof -
  let ?p = "\<lambda>r. ir_Status r = st \<and> (case ir_LockedUntil r of None \<Rightarrow> True | Some l \<Rightarrow> l \<le> n)"
  let ?f = "\<lambda>u. reclaimed_row l e u"
  let ?s = "s\<lparr>sq_faults := tl (sq_faults s)\<rparr>"
  have kp: "key_preserving ?f" by (simp add: reclaimed_row_def)
  have ok: "sql_ok ?s" "sql_row ?s a b = Some x" using assms by simp_all
  have "s' = fst (sql_update (\<lambda>r. ir_ID r = ir_ID x \<and> ?p r) ?f ?s)"
    and t: "t \<longleftrightarrow> 0 < snd (sql_update (\<lambda>r. ir_ID r = ir_ID x \<and> ?p r) ?f ?s)"
    using assms(3)
    by (auto simp: TryReclaim_def reclaimed_row_def [abs_def] dest!: sql_call_Inr split: prod.splits)
  moreover have "t \<longleftrightarrow> ?p x" using t sql_update_affected [OF ok, of ?p ?f] by simp
  ultimately show ?thesis
    using sql_row_update [OF kp] ok by (auto simp: reclaimable_def)
qed

lemma MarkSucceeded_result:
  assumes "sql_row s a b = Some x" "MarkSucceeded s (ir_ID x) rs body e = (s', Inr ())"
  shows "\<exists>u. sql_row s' a b = Some (succeeded_row rs body e u x)"
proof -
  let ?f = "\<lambda>u. succeeded_row rs body e u"
  have "key_preserving ?f" by (simp add: succeeded_row_def)
  moreover have "s' = fst (sql_update (\<lambda>r. ir_ID r = ir_ID x) ?f (s\<lparr>sq_faults := tl (sq_faults s)\<rparr>))"
    using assms(2) by (auto simp: MarkSucceeded_def succeeded_row_def [abs_def] dest!: sql_call_Inr)
  ultimately show ?thesis using assms(1) by (auto simp: sql_row_update)
qed

lemma MarkFailedRetryable_result:
  assumes "sql_row s a b = Some x" "MarkFailedRetryable s (ir_ID x) reason l e = (s', Inr ())"
  shows "\<exists>u. sql_row s' a b = Some (failed_row reason l e u x)"
proof -
  let ?f = "\<lambda>u. failed_row reason l e u"
  have "key_preserving ?f" by (simp add: failed_row_def)
  moreover have "s' = fst (sql_update (\<lambda>r. ir_ID r = ir_ID x) ?f (s\<lparr>sq_faults := tl (sq_faults s)\<rparr>))"
    using assms(2) by (auto simp: MarkFailedRetryable_def failed_row_def [abs_def] dest!: sql_call_Inr)
  ultimately show ?thesis using assms(1) by (auto simp: sql_row_update)
qed

lemma GetByScopeAndKeyHash_frame: "sql_row (fst (GetByScopeAndKeyHash s a b)) = sql_row s"
  using sql_call_fst [of "\<lambda>s. (s, find (\<lambda>r. ir_Scope r = a \<and> ir_IdempotencyKeyHash r = b) (sq_rows s))" s]
  by (auto simp: GetByScopeAndKeyHash_def)

lemma GetByScopeAndKeyHash_result:
  "GetByScopeAndKeyHash s a b = (s', Inr x) \<Longrightarrow> x = sql_row s a b"
  by (auto simp: GetByScopeAndKeyHash_def sql_row_def dest!: sql_call_Inr)

lemma sql_row_id_pos: "sql_ok s \<Longrightarrow> sql_row s a b = Some x \<Longrightarrow> 0 < ir_ID x"
  using sql_row_Some [of s a b x] by (auto simp: sql_ok_def list_all_iff)

interpretation pg: idempotency_repository idempotencyRepository sql_row sql_ok
  by unfold_locales
    (simp_all add: idempotencyRepository_def CreateProcessing_ok GetByScopeAndKeyHash_ok TryReclaim_ok
      MarkSucceeded_ok MarkFailedRetryable_ok CreateProcessing_result CreateProcessing_frame GetByScopeAndKeyHash_result
      GetByScopeAndKeyHash_frame sql_row_id_pos TryReclaim_result MarkSucceeded_result
      MarkFailedRetryable_result)

definition sql_up :: "sql_state \<Rightarrow> bool" where
  "sql_up s \<longleftrightarrow> sq_faults s = []"

lemma sql_call_up: "sql_up s \<Longrightarrow> sql_call stmt s = (fst (stmt s), Inr (snd (stmt s)))"
  by (cases s) (simp add: sql_call_def sql_up_def next_fault_def Let_def)

lemma sql_update_up: "sql_up (fst (sql_update p f s)) = sql_up s"
  by (simp add: sql_up_def sql_update_def)

lemmas sql_ops_def = CreateProcessing_def GetByScopeAndKeyHash_def TryReclaim_def
  MarkSucceeded_def MarkFailedRetryable_def

lemma sql_call_up_ex:
  "sql_up s \<Longrightarrow> sql_up (fst (stmt s)) \<Longrightarrow> \<exists>s' x. sql_call stmt s = (s', Inr x) \<and> sql_up s'"
  by (simp add: sql_call_up)

interpretation pg_up: reliable_repository idempotencyRepository sql_row sql_ok sql_up
proof unfold_locales
  show "\<exists>s' x. repo_CreateProcessing idempotencyRepository s r = (s', Inr x) \<and> sql_up s'"
    if "sql_up s" for s r
    using that unfolding idempotencyRepository_def CreateProcessing_def
    by (simp only: IdempotencyRepository.simps) (rule sql_call_up_ex; simp add: sql_up_def)
qed (auto simp: idempotencyRepository_def sql_ops_def sql_call_up sql_update_up split_def)

section \<open>Interleaved clients\<close>

text \<open>The statements of all replicas reach the table one at a time, in some order. A history is the
  list of these statements; \<open>run_ops\<close> gives for each of them whether its client was told that
  it now owns the record.\<close>

datatype repo_op =
    OpCreate IdempotencyRecord
  | OpGet string string
  | OpReclaim int string gotime gotime gotime
  | OpExtend int string gotime gotime
  | OpSucceed int int string gotime
  | OpFail int string gotime gotime
  | OpDelete gotime int

primrec run_op :: "repo_op \<Rightarrow> sql_state \<Rightarrow> sql_state \<times> bool" where
  "run_op (OpCreate r) s =
     (case CreateProcessing s r of (s', res) \<Rightarrow> (s', case res of Inr (own, _) \<Rightarrow> own | Inl _ \<Rightarrow> False))"
| "run_op (OpGet a b) s = (fst (GetByScopeAndKeyHash s a b), False)"
| "run_op (OpReclaim i st n l e) s =
     (case TryReclaim s i st n l e of (s', res) \<Rightarrow> (s', case res of Inr t \<Rightarrow> t | Inl _ \<Rightarrow> False))"
| "run_op (OpExtend i fp l e) s = (fst (ExtendProcessingLock s i fp l e), False)"
| "run_op (OpSucceed i st body e) s = (fst (MarkSucceeded s i st body e), False)"
| "run_op (OpFail i reason l e) s = (fst (MarkFailedRetryable s i reason l e), False)"
| "run_op (OpDelete now limit) s = (fst (DeleteExpired s now limit), False)"

fun run_ops :: "repo_op list \<Rightarrow> sql_state \<Rightarrow> sql_state \<times> bool list" where
  "run_ops [] s = (s, [])"
| "run_ops (o1 # os) s =
     (case run_op o1 s of (s', g) \<Rightarrow> (case run_ops os s' of (s'', gs) \<Rightarrow> (s'', g # gs)))"

text \<open>A statement that competes for the record \<open>x\<close>, and a statement that leaves the record to
  its owner: the owner has not settled or extended it, and the clocks of the others read before the
  lock deadline and before the expiry of the record.\<close>

definition competes :: "IdempotencyRecord \<Rightarrow> repo_op \<Rightarrow> bool" where
  "competes x op \<longleftrightarrow>
     (case op of
        OpCreate r \<Rightarrow> row_key r = row_key x
      | OpReclaim i _ _ _ _ \<Rightarrow> i = ir_ID x
      | _ \<Rightarrow> False)"

definition leaves_to_owner :: "gotime \<Rightarrow> IdempotencyRecord \<Rightarrow> repo_op \<Rightarrow> bool" where
  "leaves_to_owner lock x op \<longleftrightarrow>
     (case op of
        OpCreate _ \<Rightarrow> True
      | OpGet _ _ \<Rightarrow> True
      | OpReclaim i _ n _ _ \<Rightarrow> i = ir_ID x \<longrightarrow> n < lock
      | OpExtend i _ _ _ \<Rightarrow> i \<noteq> ir_ID x
      | OpSucceed i _ _ _ \<Rightarrow> i \<noteq> ir_ID x
      | OpFail i _ _ _ \<Rightarrow> i \<noteq> ir_ID x
      | OpDelete now _ \<Rightarrow> now < ir_ExpiresAt x)"

lemma run_op_ok: "sql_ok s \<Longrightarrow> sql_ok (fst (run_op op s))"
  using CreateProcessing_ok [of s] TryReclaim_ok [of s]
  by (cases op)
    (auto simp: GetByScopeAndKeyHash_ok ExtendProcessingLock_ok MarkSucceeded_ok MarkFailedRetryable_ok
      DeleteExpired_ok split_def)

lemma sql_call_row_frame:
  "(\<And>t. sql_row t a b = Some x \<Longrightarrow> sql_row (fst (stmt t)) a b = Some x) \<Longrightarrow>
   sql_row s a b = Some x \<Longrightarrow> sql_row (fst (sql_call stmt s)) a b = Some x"
  using sql_call_fst [of stmt s] by auto

lemma sql_update_row_frame:
  "key_preserving f \<Longrightarrow> \<not> p x \<Longrightarrow> sql_row t a b = Some x \<Longrightarrow>
   sql_row (fst (sql_update p f t)) a b = Some x"
  by (simp add: sql_row_update)

lemma find_filter_keep: "find q rs = Some x \<Longrightarrow> p x \<Longrightarrow> find q (filter p rs) = Some x"
  by (induction rs) (auto split: if_splits)

lemma expired_victims_expired:
  "i \<in> set (expired_victims now limit rows) \<Longrightarrow> \<exists>r \<in> set rows. ir_ID r = i \<and> ir_ExpiresAt r \<le> now"
  by (auto simp: expired_victims_def dest!: in_set_takeD)

lemma DeleteExpired_row_frame:
  assumes "sql_ok s" "sql_row s a b = Some x" "now < ir_ExpiresAt x"
  shows "sql_row (fst (DeleteExpired s now limit)) a b = Some x"
proof -
  have "ir_ID x \<notin> set (expired_victims now l (sq_rows s))" for l
    using expired_victims_expired [of "ir_ID x" now l "sq_rows s"] assms sql_row_Some [OF assms(2)]
      sql_ok_id_unique [OF assms(1)] by fastforce
  then show ?thesis
    using assms(2)
    by (auto simp: DeleteExpired_def sql_call_def Let_def sql_row_def find_filter_keep
        split: fault.splits)
qed

lemma TryReclaim_row_frame:
  assumes "sql_row s a b = Some x" "\<not> (i = ir_ID x \<and> reclaimable st n x)"
  shows "sql_row (fst (TryReclaim s i st n l e)) a b = Some x"
proof -
  have "sql_row (fst (sql_call (\<lambda>s. case sql_update p f s of (s', k) \<Rightarrow> (s', (0::int) < k)) s)) a b = Some x"
    if "key_preserving f" "\<not> p x" for p f
    by (rule sql_call_row_frame) (use that assms(1) in \<open>auto simp: split_def sql_update_row_frame\<close>)
  then show ?thesis
    using assms(2) unfolding TryReclaim_def by (auto simp: reclaimable_def)
qed

lemma ExtendProcessingLock_row_frame:
  "sql_row s a b = Some x \<Longrightarrow> i \<noteq> ir_ID x \<Longrightarrow>
   sql_row (fst (ExtendProcessingLock s i fp l e)) a b = Some x"
  unfolding ExtendProcessingLock_def
  by (rule sql_call_row_frame) (auto simp: split_def sql_update_row_frame)

lemma MarkSucceeded_row_frame:
  "sql_row s a b = Some x \<Longrightarrow> i \<noteq> ir_ID x \<Longrightarrow>
   sql_row (fst (MarkSucceeded s i st body e)) a b = Some x"
  unfolding MarkSucceeded_def by (rule sql_call_row_frame) (auto simp: sql_update_row_frame)

lemma MarkFailedRetryable_row_frame:
  "sql_row s a b = Some x \<Longrightarrow> i \<noteq> ir_ID x \<Longrightarrow>
   sql_row (fst (MarkFailedRetryable s i reason l e)) a b = Some x"
  unfolding MarkFailedRetryable_def by (rule sql_call_row_frame) (auto simp: sql_update_row_frame)

lemma locked_not_reclaimable: "ir_LockedUntil x = Some lock \<Longrightarrow> n < lock \<Longrightarrow> \<not> reclaimable st n x"
  by (simp add: reclaimable_def)

lemma run_op_locked:
  assumes "sql_ok s" "sql_row s a b = Some x" "ir_LockedUntil x = Some lock" "leaves_to_owner lock x op"
  shows "sql_row (fst (run_op op s)) a b = Some x \<and> (competes x op \<longrightarrow> \<not> snd (run_op op s))"
proof (cases op)
  case (OpCreate r)
  obtain s' res where run: "CreateProcessing s r = (s', res)" by force
  have kept: "sql_row s' a b = Some x" using CreateProcessing_frame [OF assms(2), of r] run by simp
  have "\<not> own" if "res = Inr (own, r')" "row_key r = row_key x" for own r'
    using CreateProcessing_result [OF assms(1), of r s' own r'] run that sql_row_Some [OF assms(2)] assms(2)
    by (auto simp: row_key_def)
  with kept run OpCreate show ?thesis
    by (auto simp: competes_def split: sum.splits)
next
  case (OpReclaim i st n l e)
  with assms have "\<not> (i = ir_ID x \<and> reclaimable st n x)"
    by (auto simp: leaves_to_owner_def dest: locked_not_reclaimable)
  with OpReclaim assms show ?thesis
    using TryReclaim_result [OF assms(1,2), of st n l e] TryReclaim_row_frame [OF assms(2), of i st n l e]
    by (auto simp: competes_def split: prod.splits sum.splits)
qed (use assms in \<open>auto simp: leaves_to_owner_def competes_def GetByScopeAndKeyHash_frame
  ExtendProcessingLock_row_frame MarkSucceeded_row_frame MarkFailedRetryable_row_frame
  DeleteExpired_row_frame\<close>)

text \<open>C20: mutual exclusion between replicas. Once a client holds the lock of a record until
  \<open>lock\<close>, no interleaving of statements of other clients gives the record to a second owner
  before \<open>lock\<close> as long as the owner has not settled it and it has not expired, whichever
  statements fail and whether they fail before or after taking effect; the row is still the
  owner's at the end.\<close>

theorem claim_exclusive:
  assumes "sql_ok s" "sql_row s a b = Some x" "ir_LockedUntil x = Some lock"
    and "list_all (leaves_to_owner lock x) os"
  shows "sql_row (fst (run_ops os s)) a b = Some x
    \<and> list_all2 (\<lambda>op granted. competes x op \<longrightarrow> \<not> granted) os (snd (run_ops os s))"
  using assms
proof (induction os arbitrary: s)
  case Nil
  then show ?case by simp
next
  case (Cons op os)
  have step: "sql_row (fst (run_op op s)) a b = Some x" "competes x op \<longrightarrow> \<not> snd (run_op op s)"
    using run_op_locked [of s a b x lock op] Cons.prems by simp_all
  have "sql_row (fst (run_ops os (fst (run_op op s)))) a b = Some x
    \<and> list_all2 (\<lambda>op granted. competes x op \<longrightarrow> \<not> granted) os (snd (run_ops os (fst (run_op op s))))"
    using Cons.prems step(1) run_op_ok by (intro Cons.IH) simp_all
  with step(2) show ?case by (simp add: split_def)
qed

definition demo_row :: IdempotencyRecord where
  "demo_row = \<lparr>ir_ID = 1, ir_Scope = ''s'', ir_IdempotencyKeyHash = ''k'', ir_RequestFingerprint = ''f'',
     ir_Status = ''processing'', ir_ResponseStatus = None, ir_ResponseBody = None,
     ir_ErrorReason = None, ir_LockedUntil = Some 30, ir_ExpiresAt = 100, ir_CreatedAt = 1,
     ir_UpdatedAt = 1\<rparr>"

definition demo_db :: sql_state where
  "demo_db = \<lparr>sq_rows = [demo_row], sq_next = 2, sq_now = 1, sq_faults = []\<rparr>"

theorem claim_exclusive_witness:
  "sql_row (fst (run_ops [OpCreate demo_row, OpReclaim 1 ''processing'' 20 60 120] demo_db)) ''s'' ''k''
     = Some demo_row
   \<and> list_all2 (\<lambda>op granted. competes demo_row op \<longrightarrow> \<not> granted)
       [OpCreate demo_row, OpReclaim 1 ''processing'' 20 60 120]
       (snd (run_ops [OpCreate demo_row, OpReclaim 1 ''processing'' 20 60 120] demo_db))"
  by (rule claim_exclusive [where lock = 30])
    (simp_all add: demo_db_def demo_row_def sql_ok_def sql_row_def leaves_to_owner_def)

text \<open>The cleanup deletes only expired records, at most \<open>limit\<close> of them (500 when the
  limit is not positive), reports how many it deleted, and deletes nothing when the call fails
  before its statement.\<close>

theorem DeleteExpired_spec:
  assumes "sql_ok s" "DeleteExpired s now limit = (s', res)"
  shows "set (sq_rows s') \<subseteq> set (sq_rows s)
    \<and> (\<forall>r. r \<in> set (sq_rows s) \<and> r \<notin> set (sq_rows s') \<longrightarrow> ir_ExpiresAt r \<le> now)
    \<and> (\<forall>n. res = Inr n \<longrightarrow> n = int (length (sq_rows s)) - int (length (sq_rows s'))
          \<and> n \<le> (if limit \<le> 0 then 500 else limit))"
proof -
  let ?l = "if limit \<le> 0 then 500 else limit"
  let ?v = "expired_victims now ?l (sq_rows s)"
  let ?gone = "filter (\<lambda>r. ir_ID r \<in> set ?v) (sq_rows s)"
  have "length ?gone \<le> length ?v"
  proof -
    have "distinct (map ir_ID ?gone)" using assms(1) by (simp add: sql_ok_def distinct_map_filter)
    then have "length ?gone = card (set (map ir_ID ?gone))" by (metis distinct_card length_map)
    also have "\<dots> \<le> card (set ?v)" by (rule card_mono) auto
    finally show ?thesis using card_length [of ?v] by linarith
  qed
  moreover have "int (length ?v) \<le> ?l" by (auto simp: expired_victims_def)
  ultimately have bound: "int (length ?gone) \<le> ?l" by linarith
  have split: "length (sq_rows s) = length ?gone + length (filter (\<lambda>r. ir_ID r \<notin> set ?v) (sq_rows s))"
    by (simp add: sum_length_filter_compl)
  have exp: "ir_ExpiresAt r \<le> now" if "r \<in> set (sq_rows s)" "ir_ID r \<in> set ?v" for r
    using expired_victims_expired [OF that(2)] sql_ok_id_unique [OF assms(1)] that(1) by fastforce
  show ?thesis
    using assms(2) bound split exp
    by (auto simp: DeleteExpired_def sql_call_def Let_def split: fault.splits if_splits)
qed

theorem DeleteExpired_spec_witness:
  "sql_ok demo_db \<and> DeleteExpired demo_db 100 0 = (demo_db\<lparr>sq_rows := []\<rparr>, Inr 1)
   \<and> int (length (sq_rows demo_db)) - 0 \<le> 500"
proof -
  have ok: "sql_ok demo_db" by (simp add: demo_db_def demo_row_def sql_ok_def)
  have run: "DeleteExpired demo_db 100 0 = (demo_db\<lparr>sq_rows := []\<rparr>, Inr 1)"
    by (simp add: DeleteExpired_def sql_call_def next_fault_def expired_victims_def demo_db_def demo_row_def)
  show ?thesis using ok run DeleteExpired_spec [OF ok run] by simp
qed

end
