(* ===== verification/Idempotency.thy ===== *)
theory Idempotency
  imports Idempotency_Store
begin

text \<open>
  The coordinator of \<open>internal/service/idempotency.go\<close>: it runs an operation at most once per
  idempotency key and replays its stored response.

  The world that the executor acts on is a state \<open>'w\<close>, the store a state \<open>'s\<close>, so that
  "the executor has not run" is "the world is unchanged". What Go's \<open>crypto/sha256\<close> and
  \<open>encoding/json\<close> compute, and the redaction of \<open>internal/util/logredact\<close>, are fields of
  the record \<open>idem_std\<close>. The two readings of \<open>time.Now()\<close> are the arguments
  \<open>now\<close> (before the claim) and \<open>now2\<close> (after a failed execution). Metrics and audit logs
  are left out. \<open>Execute\<close> is split where the Go function branches: \<open>resolve_existing\<close>,
  \<open>claim_existing\<close>, \<open>claim_record\<close>, \<open>run_claimed\<close>.
\<close>

section \<open>Configuration, options, results\<close>

record IdempotencyConfig =
  ic_DefaultTTL :: duration
  ic_SystemOperationTTL :: duration
  ic_ProcessingTimeout :: duration
  ic_FailedRetryBackoff :: duration
  ic_MaxStoredResponseLen :: int
  ic_ObserveOnly :: bool

definition DefaultIdempotencyConfig :: IdempotencyConfig where
  "DefaultIdempotencyConfig =
     \<lparr>ic_DefaultTTL = 24 * hour, ic_SystemOperationTTL = 1 * hour, ic_ProcessingTimeout = 30 * second,
      ic_FailedRetryBackoff = 5 * second, ic_MaxStoredResponseLen = 64 * 1024, ic_ObserveOnly = True\<rparr>"

record 'p IdempotencyExecuteOptions =
  io_Scope :: string
  io_ActorScope :: string
  io_Method :: string
  io_Route :: string
  io_IdempotencyKey :: string
  io_Payload :: 'p
  io_TTL :: duration
  io_RequireKey :: bool

record 'd IdempotencyExecuteResult =
  rs_Data :: 'd
  rs_Replayed :: bool

record ('p, 'd) idem_std =
  std_sha256_hex :: "string \<Rightarrow> string"
  std_marshal_payload :: "'p \<Rightarrow> goerror + string"
  std_marshal_data :: "'d \<Rightarrow> goerror + string"
  std_unmarshal_data :: "string \<Rightarrow> goerror + 'd"
  std_empty_object :: 'd
  std_redact :: "string \<Rightarrow> string"

definition ErrIdempotencyKeyRequired where
  "ErrIdempotencyKeyRequired = BadRequest ''IDEMPOTENCY_KEY_REQUIRED'' ''idempotency key is required''"
definition ErrIdempotencyKeyInvalid where
  "ErrIdempotencyKeyInvalid = BadRequest ''IDEMPOTENCY_KEY_INVALID'' ''idempotency key is invalid''"
definition ErrIdempotencyKeyConflict where
  "ErrIdempotencyKeyConflict = Conflict ''IDEMPOTENCY_KEY_CONFLICT'' ''idempotency key reused with different payload''"
definition ErrIdempotencyInProgress where
  "ErrIdempotencyInProgress = Conflict ''IDEMPOTENCY_IN_PROGRESS'' ''idempotent request is still processing''"
definition ErrIdempotencyRetryBackoff where
  "ErrIdempotencyRetryBackoff = Conflict ''IDEMPOTENCY_RETRY_BACKOFF'' ''idempotent request is in retry backoff window''"
definition ErrIdempotencyStoreUnavail where
  "ErrIdempotencyStoreUnavail = ServiceUnavailable ''IDEMPOTENCY_STORE_UNAVAILABLE'' ''idempotency store unavailable''"
definition ErrIdempotencyInvalidPayload where
  "ErrIdempotencyInvalidPayload = BadRequest ''IDEMPOTENCY_PAYLOAD_INVALID'' ''failed to normalize request payload''"

section \<open>Keys, fingerprints, stored responses\<close>

definition NormalizeIdempotencyKey :: "string \<Rightarrow> goerror + string" where
  "NormalizeIdempotencyKey raw =
     (let key = trim_space raw in
      if key = '''' then Inr ''''
      else if 128 < length key then Inl (app_err ErrIdempotencyKeyInvalid)
      else if \<exists>c \<in> set key. (of_char c :: nat) < 33 \<or> 126 < (of_char c :: nat)
        then Inl (app_err ErrIdempotencyKeyInvalid)
      else Inr key)"

definition HashIdempotencyKey :: "('p, 'd) idem_std \<Rightarrow> string \<Rightarrow> string" where
  "HashIdempotencyKey std key = std_sha256_hex std key"

definition BuildIdempotencyFingerprint ::
  "('p, 'd) idem_std \<Rightarrow> string \<Rightarrow> string \<Rightarrow> string \<Rightarrow> 'p \<Rightarrow> goerror + string" where
  "BuildIdempotencyFingerprint std method route actorScope payload =
     (let method = (if method = '''' then ''POST'' else method);
          route = (if route = '''' then ''/'' else route);
          actorScope = (if actorScope = '''' then ''anonymous'' else actorScope)
      in case std_marshal_payload std payload of
           Inl err \<Rightarrow> Inl (app_err (WithCause ErrIdempotencyInvalidPayload (Some err)))
         | Inr raw \<Rightarrow>
             Inr (std_sha256_hex std
               (to_upper method @ [CHR 0x0A] @ route @ [CHR 0x0A] @ actorScope @ [CHR 0x0A] @ raw)))"

definition RetryAfterSecondsFromError :: "goerror option \<Rightarrow> int" where
  "RetryAfterSecondsFromError err =
     (case err of
        None \<Rightarrow> 0
      | Some e \<Rightarrow>
          (case as_app e of
             None \<Rightarrow> 0
           | Some (s, _) \<Rightarrow>
               (case st_Metadata s of
                  None \<Rightarrow> 0
                | Some md \<Rightarrow>
                    (let v = trim_space (gm_getd '''' md ''retry_after'') in
                     if v = '''' then 0
                     else case atoi v of
                            None \<Rightarrow> 0
                          | Some seconds \<Rightarrow> if seconds \<le> 0 then 0 else seconds))))"

definition conflictWithRetryAfter ::
  "Status \<times> goerror option \<Rightarrow> gotime option \<Rightarrow> gotime \<Rightarrow> goerror" where
  "conflictWithRetryAfter base lockedUntil now =
     (case lockedUntil of
        None \<Rightarrow> app_err base
      | Some l \<Rightarrow>
          (let sec = int_seconds (time_sub l now);
               sec = (if sec \<le> 0 then 1 else sec)
           in app_err (WithMetadata base (Some [(''retry_after'', itoa sec)]))))"

fun shrink_valid :: "string \<Rightarrow> nat \<Rightarrow> nat" where
  "shrink_valid s 0 = 0"
| "shrink_valid s (Suc n) = (if utf8_valid (take (Suc n) s) then Suc n else shrink_valid s n)"

definition truncateUTF8 :: "string \<Rightarrow> int \<Rightarrow> string" where
  "truncateUTF8 s maxBytes =
     (if maxBytes \<le> 0 \<or> int (length s) \<le> maxBytes then s
      else take (shrink_valid s (nat maxBytes)) s)"

definition marshalStoredResponse ::
  "('p, 'd) idem_std \<Rightarrow> IdempotencyConfig \<Rightarrow> 'd \<Rightarrow> goerror + string" where
  "marshalStoredResponse std cfg data =
     (case std_marshal_data std data of
        Inl err \<Rightarrow> Inl err
      | Inr raw \<Rightarrow>
          (let redacted = std_redact std raw in
           if 0 < ic_MaxStoredResponseLen cfg \<and> ic_MaxStoredResponseLen cfg < int (length redacted)
           then Inr (truncateUTF8 redacted (ic_MaxStoredResponseLen cfg) @ ''...(truncated)'')
           else Inr redacted))"

definition decodeStoredResponse :: "('p, 'd) idem_std \<Rightarrow> string option \<Rightarrow> goerror + 'd" where
  "decodeStoredResponse std stored =
     (case stored of
        None \<Rightarrow> Inr (std_empty_object std)
      | Some body \<Rightarrow>
          (if trim_space body = '''' then Inr (std_empty_object std)
           else case std_unmarshal_data std body of
                  Inl err \<Rightarrow> Inl (WrapError ''decode stored response'' err)
                | Inr out \<Rightarrow> Inr out))"

section \<open>Execute\<close>

datatype 'd claim = Claimed int | Replay 'd

definition store_unavail :: "goerror \<Rightarrow> goerror" where
  "store_unavail e = app_err (WithCause ErrIdempotencyStoreUnavail (Some e))"

definition resolve_existing ::
  "'s IdempotencyRepository \<Rightarrow> ('p, 'd) idem_std \<Rightarrow> gotime \<Rightarrow> gotime \<Rightarrow> gotime \<Rightarrow>
   IdempotencyRecord \<Rightarrow> 's \<Rightarrow> 's \<times> (goerror + 'd claim)" where
  "resolve_existing repo std now lockedUntil expiresAt existing s =
     (if ir_Status existing = StatusSucceeded then
        (case decodeStoredResponse std (ir_ResponseBody existing) of
           Inl parseErr \<Rightarrow> (s, Inl (store_unavail parseErr))
         | Inr data \<Rightarrow> (s, Inr (Replay data)))
      else if ir_Status existing = StatusProcessing then
        (s, Inl (conflictWithRetryAfter ErrIdempotencyInProgress (ir_LockedUntil existing) now))
      else if ir_Status existing = StatusFailedRetryable then
        (if (case ir_LockedUntil existing of None \<Rightarrow> False | Some l \<Rightarrow> now < l) then
           (s, Inl (conflictWithRetryAfter ErrIdempotencyRetryBackoff (ir_LockedUntil existing) now))
         else
           (case repo_TryReclaim repo s (ir_ID existing) StatusFailedRetryable now lockedUntil expiresAt of
              (s', Inl reclaimErr) \<Rightarrow> (s', Inl (store_unavail reclaimErr))
            | (s', Inr taken) \<Rightarrow>
                (if \<not> taken
                 then (s', Inl (conflictWithRetryAfter ErrIdempotencyInProgress (ir_LockedUntil existing) now))
                 else (s', Inr (Claimed (ir_ID existing))))))
      else (s, Inl (app_err ErrIdempotencyKeyConflict)))"

definition claim_existing ::
  "'s IdempotencyRepository \<Rightarrow> ('p, 'd) idem_std \<Rightarrow> string \<Rightarrow> string \<Rightarrow> string \<Rightarrow> gotime \<Rightarrow> gotime \<Rightarrow>
   gotime \<Rightarrow> 's \<Rightarrow> 's \<times> (goerror + 'd claim)" where
  "claim_existing repo std scope keyHash fingerprint now lockedUntil expiresAt s =
     (case repo_GetByScopeAndKeyHash repo s scope keyHash of
        (s1, Inl getErr) \<Rightarrow> (s1, Inl (store_unavail getErr))
      | (s1, Inr None) \<Rightarrow> (s1, Inl (app_err ErrIdempotencyStoreUnavail))
      | (s1, Inr (Some existing)) \<Rightarrow>
          (if ir_RequestFingerprint existing \<noteq> fingerprint then (s1, Inl (app_err ErrIdempotencyKeyConflict))
           else if ir_ExpiresAt existing \<le> now then
             (case repo_TryReclaim repo s1 (ir_ID existing) (ir_Status existing) now lockedUntil expiresAt of
                (s2, Inl reclaimErr) \<Rightarrow> (s2, Inl (store_unavail reclaimErr))
              | (s2, Inr True) \<Rightarrow> (s2, Inr (Claimed (ir_ID existing)))
              | (s2, Inr False) \<Rightarrow>
                  (case repo_GetByScopeAndKeyHash repo s2 scope keyHash of
                     (s3, Inl latestErr) \<Rightarrow> (s3, Inl (store_unavail latestErr))
                   | (s3, Inr None) \<Rightarrow> (s3, Inl (app_err ErrIdempotencyStoreUnavail))
                   | (s3, Inr (Some latest)) \<Rightarrow>
                       (if ir_RequestFingerprint latest \<noteq> fingerprint
                        then (s3, Inl (app_err ErrIdempotencyKeyConflict))
                        else resolve_existing repo std now lockedUntil expiresAt latest s3)))
           else resolve_existing repo std now lockedUntil expiresAt existing s1))"

definition claim_record ::
  "'s IdempotencyRepository \<Rightarrow> ('p, 'd) idem_std \<Rightarrow> string \<Rightarrow> string \<Rightarrow> string \<Rightarrow> gotime \<Rightarrow> gotime \<Rightarrow>
   gotime \<Rightarrow> 's \<Rightarrow> 's \<times> (goerror + 'd claim)" where
  "claim_record repo std scope keyHash fingerprint now lockedUntil expiresAt s =
     (let record = \<lparr>ir_ID = 0, ir_Scope = scope, ir_IdempotencyKeyHash = keyHash,
            ir_RequestFingerprint = fingerprint, ir_Status = StatusProcessing,
            ir_ResponseStatus = None, ir_ResponseBody = None, ir_ErrorReason = None,
            ir_LockedUntil = Some lockedUntil, ir_ExpiresAt = expiresAt, ir_CreatedAt = 0,
            ir_UpdatedAt = 0\<rparr>;
          (s', res) =
            (case repo_CreateProcessing repo s record of
               (s1, Inl err) \<Rightarrow> (s1, Inl (store_unavail err))
             | (s1, Inr (owner, record')) \<Rightarrow>
                 (if owner then (s1, Inr (Claimed (ir_ID record')))
                  else claim_existing repo std scope keyHash fingerprint now lockedUntil expiresAt s1))
      in case res of
           Inr (Claimed rid) \<Rightarrow> (if rid = 0 then (s', Inl (app_err ErrIdempotencyStoreUnavail)) else (s', res))
         | _ \<Rightarrow> (s', res))"

definition run_claimed ::
  "'s IdempotencyRepository \<Rightarrow> ('p, 'd) idem_std \<Rightarrow> IdempotencyConfig \<Rightarrow> gotime \<Rightarrow> gotime \<Rightarrow> int \<Rightarrow>
   ('w \<Rightarrow> 'w \<times> (goerror + 'd)) \<Rightarrow> 's \<Rightarrow> 'w \<Rightarrow> 's \<times> 'w \<times> (goerror + 'd IdempotencyExecuteResult)" where
  "run_claimed repo std cfg expiresAt now2 rid execute s w =
     (case execute w of
        (w', Inl execErr) \<Rightarrow>
          (let backoffUntil = time_add now2 (ic_FailedRetryBackoff cfg);
               reason = Reason (Some execErr);
               reason = (if reason = '''' then ''EXECUTION_FAILED'' else reason)
           in (fst (repo_MarkFailedRetryable repo s rid reason backoffUntil expiresAt), w', Inl execErr))
      | (w', Inr data) \<Rightarrow>
          (case marshalStoredResponse std cfg data of
             Inl marshalErr \<Rightarrow> (s, w', Inl (store_unavail marshalErr))
           | Inr storedBody \<Rightarrow>
               (case repo_MarkSucceeded repo s rid 200 storedBody expiresAt of
                  (s', Inl markErr) \<Rightarrow> (s', w', Inl (store_unavail markErr))
                | (s', Inr _) \<Rightarrow> (s', w', Inr \<lparr>rs_Data = data, rs_Replayed = False\<rparr>))))"

text \<open>\<open>ttl\<close> of \<open>Execute\<close>: the option of the call, or the default when it is not
  positive.\<close>

definition effective_ttl :: "IdempotencyConfig \<Rightarrow> 'p IdempotencyExecuteOptions \<Rightarrow> duration" where
  "effective_ttl cfg opts = (if io_TTL opts \<le> 0 then ic_DefaultTTL cfg else io_TTL opts)"

definition Execute ::
  "'s IdempotencyRepository option \<Rightarrow> ('p, 'd) idem_std \<Rightarrow> IdempotencyConfig \<Rightarrow> gotime \<Rightarrow> gotime \<Rightarrow>
   'p IdempotencyExecuteOptions \<Rightarrow> ('w \<Rightarrow> 'w \<times> (goerror + 'd)) option \<Rightarrow> 's \<Rightarrow> 'w \<Rightarrow>
   's \<times> 'w \<times> (goerror + 'd IdempotencyExecuteResult)" where
  "Execute repo_opt std cfg now now2 opts execute_opt s w =
     (case execute_opt of
        None \<Rightarrow> (s, w, Inl (app_err (InternalServer ''IDEMPOTENCY_EXECUTOR_NIL'' ''idempotency executor is nil'')))
      | Some execute \<Rightarrow>
          (case NormalizeIdempotencyKey (io_IdempotencyKey opts) of
             Inl err \<Rightarrow> (s, w, Inl err)
           | Inr key \<Rightarrow>
               (if key = '''' then
                  (if io_RequireKey opts \<and> \<not> ic_ObserveOnly cfg
                   then (s, w, Inl (app_err ErrIdempotencyKeyRequired))
                   else case execute w of
                          (w', Inl execErr) \<Rightarrow> (s, w', Inl execErr)
                        | (w', Inr data) \<Rightarrow> (s, w', Inr \<lparr>rs_Data = data, rs_Replayed = False\<rparr>))
                else
                  (case repo_opt of
                     None \<Rightarrow> (s, w, Inl (app_err ErrIdempotencyStoreUnavail))
                   | Some repo \<Rightarrow>
                       (if io_Scope opts = ''''
                        then (s, w, Inl (app_err (BadRequest ''IDEMPOTENCY_SCOPE_REQUIRED'' ''idempotency scope is required'')))
                        else
                          (case BuildIdempotencyFingerprint std (io_Method opts) (io_Route opts)
                                  (io_ActorScope opts) (io_Payload opts) of
                             Inl err \<Rightarrow> (s, w, Inl err)
                           | Inr fingerprint \<Rightarrow>
                               (let ttl = effective_ttl cfg opts;
                                    expiresAt = time_add now ttl;
                                    lockedUntil = time_add now (ic_ProcessingTimeout cfg);
                                    keyHash = HashIdempotencyKey std key
                                in case claim_record repo std (io_Scope opts) keyHash fingerprint now
                                          lockedUntil expiresAt s of
                                     (s', Inl err) \<Rightarrow> (s', w, Inl err)
                                   | (s', Inr (Replay data)) \<Rightarrow>
                                       (s', w, Inr \<lparr>rs_Data = data, rs_Replayed = True\<rparr>)
                                   | (s', Inr (Claimed rid)) \<Rightarrow>
                                       run_claimed repo std cfg expiresAt now2 rid execute s' w)))))))"

section \<open>Clients of the repository contract\<close>

definition processing_row :: "string \<Rightarrow> gotime \<Rightarrow> gotime \<Rightarrow> int \<Rightarrow> IdempotencyRecord \<Rightarrow> bool" where
  "processing_row fp l e rid x \<longleftrightarrow> ir_RequestFingerprint x = fp \<and> ir_Status x = StatusProcessing
     \<and> ir_LockedUntil x = Some l \<and> ir_ExpiresAt x = e \<and> ir_ID x = rid"

text \<open>A record that no claim can take at time \<open>now\<close>: not expired, and settled as a success, in
  progress, or in its retry backoff.\<close>

definition unclaimable :: "gotime \<Rightarrow> IdempotencyRecord \<Rightarrow> bool" where
  "unclaimable now x \<longleftrightarrow> now < ir_ExpiresAt x \<and>
     (ir_Status x = StatusFailedRetryable \<longrightarrow>
        (case ir_LockedUntil x of None \<Rightarrow> False | Some l \<Rightarrow> now < l))"

lemma status_distinct [simp]:
  "StatusSucceeded \<noteq> StatusProcessing" "StatusSucceeded \<noteq> StatusFailedRetryable"
  "StatusProcessing \<noteq> StatusSucceeded" "StatusProcessing \<noteq> StatusFailedRetryable"
  "StatusFailedRetryable \<noteq> StatusSucceeded" "StatusFailedRetryable \<noteq> StatusProcessing"
  by (simp_all add: StatusSucceeded_def StatusProcessing_def StatusFailedRetryable_def)

lemma reclaimed_processing_row:
  "ir_RequestFingerprint x = fp \<Longrightarrow> processing_row fp l e (ir_ID x) (reclaimed_row l e u x)"
  by (simp add: processing_row_def reclaimed_row_def)

context idempotency_repository
begin

lemma resolve_blocked:
  assumes "unclaimable now x" "resolve_existing repo std now l e x s = (s', res)"
  shows "s' = s \<and> (\<forall>rid. res \<noteq> Inr (Claimed rid))
    \<and> (\<forall>d. res = Inr (Replay d) \<longrightarrow>
        ir_Status x = StatusSucceeded \<and> decodeStoredResponse std (ir_ResponseBody x) = Inr d)"
  using assms
  by (auto simp: resolve_existing_def unclaimable_def split: if_splits sum.splits option.splits)

lemma resolve_claimed:
  assumes "inv s" "row_of s a b = Some x" "resolve_existing repo std now l e x s = (s', Inr (Claimed rid))"
  shows "inv s' \<and> (\<exists>y. row_of s' a b = Some y
    \<and> processing_row (ir_RequestFingerprint x) l e rid y)"
proof -
  have rec: "repo_TryReclaim repo s (ir_ID x) StatusFailedRetryable now l e = (s', Inr True)"
    and rid: "rid = ir_ID x"
    using assms(3) by (auto simp: resolve_existing_def split: if_splits sum.splits prod.splits)
  obtain u where "row_of s' a b = Some (reclaimed_row l e u x)"
    using reclaim_result [OF assms(1,2) rec] by auto
  moreover have "inv s'" using inv_reclaim [OF assms(1)] rec by (metis fst_conv)
  ultimately show ?thesis using rid by (simp add: reclaimed_processing_row)
qed

lemma claim_existing_blocked:
  assumes "inv s" "row_of s a b = Some x" "unclaimable now x"
    and "claim_existing repo std a b fp now l e s = (s', res)"
  shows "row_of s' a b = Some x \<and> (\<forall>rid. res \<noteq> Inr (Claimed rid))
    \<and> (\<forall>d. res = Inr (Replay d) \<longrightarrow> ir_RequestFingerprint x = fp
        \<and> ir_Status x = StatusSucceeded \<and> decodeStoredResponse std (ir_ResponseBody x) = Inr d)"
proof -
  obtain s1 g where get: "repo_GetByScopeAndKeyHash repo s a b = (s1, g)" by force
  then have s1: "row_of s1 a b = Some x" using get_frame [of s a b] assms(2) by simp
  show ?thesis
  proof (cases g)
    case (Inl err)
    with get s1 assms(4) show ?thesis by (auto simp: claim_existing_def)
  next
    case (Inr y)
    with get assms(2) get_result have y: "y = Some x" by metis
    have "\<not> ir_ExpiresAt x \<le> now" using assms(3) by (simp add: unclaimable_def)
    with get Inr y assms(4) have run: "(s', res) =
        (if ir_RequestFingerprint x \<noteq> fp then (s1, Inl (app_err ErrIdempotencyKeyConflict))
         else resolve_existing repo std now l e x s1)"
      by (simp add: claim_existing_def split: if_splits)
    show ?thesis
    proof (cases "ir_RequestFingerprint x = fp")
      case True
      with run resolve_blocked [OF assms(3), of std l e s1 s' res] s1 show ?thesis by simp
    next
      case False
      with run s1 show ?thesis by simp
    qed
  qed
qed

lemma claim_existing_claimed:
  assumes "inv s" "row_of s a b = Some x"
    and "claim_existing repo std a b fp now l e s = (s', Inr (Claimed rid))"
  shows "inv s' \<and> (\<exists>y. row_of s' a b = Some y \<and> processing_row fp l e rid y)"
proof -
  obtain s1 where get: "repo_GetByScopeAndKeyHash repo s a b = (s1, Inr (Some x))"
    using assms(3) get_result assms(2)
    by (auto simp: claim_existing_def split: prod.splits sum.splits option.splits)
  have s1: "row_of s1 a b = Some x" "inv s1"
    using get_frame [of s a b] inv_get [OF assms(1), of a b] assms(2) get by simp_all
  have fp: "ir_RequestFingerprint x = fp"
    using assms(3) get by (auto simp: claim_existing_def split: if_splits)
  show ?thesis
  proof (cases "ir_ExpiresAt x \<le> now")
    case False
    with assms(3) get fp have "resolve_existing repo std now l e x s1 = (s', Inr (Claimed rid))"
      by (simp add: claim_existing_def)
    with resolve_claimed [OF s1(2,1)] fp show ?thesis by blast
  next
    case True
    obtain s2 t where rec: "repo_TryReclaim repo s1 (ir_ID x) (ir_Status x) now l e = (s2, Inr t)"
      using assms(3) get fp True
      by (auto simp: claim_existing_def split: prod.splits sum.splits)
    have inv2: "inv s2" using inv_reclaim [OF s1(2)] rec by (metis fst_conv)
    from reclaim_result [OF s1(2,1) rec] obtain u where
      row2: "row_of s2 a b = Some (if t then reclaimed_row l e u x else x)" by blast
    show ?thesis
    proof (cases t)
      case True
      with rec get fp \<open>ir_ExpiresAt x \<le> now\<close> assms(3) row2 inv2 show ?thesis
        by (auto simp: claim_existing_def intro: reclaimed_processing_row)
    next
      case False
      then have row: "row_of s2 a b = Some x" using row2 by simp
      obtain s3 where get3: "repo_GetByScopeAndKeyHash repo s2 a b = (s3, Inr (Some x))"
        using assms(3) get_result row get rec fp True False
        by (auto simp: claim_existing_def split: prod.splits sum.splits option.splits)
      have s3: "row_of s3 a b = Some x" "inv s3"
        using get_frame [of s2 a b] inv_get [OF inv2, of a b] row get3 by simp_all
      have "resolve_existing repo std now l e x s3 = (s', Inr (Claimed rid))"
        using assms(3) get rec get3 fp True False by (simp add: claim_existing_def)
      with resolve_claimed [OF s3(2,1)] fp show ?thesis by blast
    qed
  qed
qed

lemma claim_record_blocked:
  assumes "inv s" "row_of s a b = Some x" "unclaimable now x"
    and "claim_record repo std a b fp now l e s = (s', res)"
  shows "row_of s' a b = Some x \<and> (\<forall>rid. res \<noteq> Inr (Claimed rid))
    \<and> (\<forall>d. res = Inr (Replay d) \<longrightarrow> ir_RequestFingerprint x = fp
        \<and> ir_Status x = StatusSucceeded \<and> decodeStoredResponse std (ir_ResponseBody x) = Inr d)"
proof -
  define r where "r = \<lparr>ir_ID = 0, ir_Scope = a, ir_IdempotencyKeyHash = b,
    ir_RequestFingerprint = fp, ir_Status = StatusProcessing, ir_ResponseStatus = None,
    ir_ResponseBody = None, ir_ErrorReason = None, ir_LockedUntil = Some l, ir_ExpiresAt = e,
    ir_CreatedAt = 0, ir_UpdatedAt = 0\<rparr>"
  obtain s1 c where cr: "repo_CreateProcessing repo s r = (s1, c)" by force
  have s1: "row_of s1 a b = Some x" "inv s1"
    using create_frame [OF assms(1,2), of r] inv_create [OF assms(1), of r] cr by simp_all
  show ?thesis
  proof (cases c)
    case (Inl err)
    with cr assms(4) s1 show ?thesis by (auto simp: claim_record_def r_def)
  next
    case (Inr ow)
    then obtain r' where ow: "ow = (False, r')"
      using create_result [OF assms(1), of r s1 "fst ow" "snd ow"] cr assms(2)
      by (cases ow) (simp add: r_def)
    obtain s2 res2 where ce: "claim_existing repo std a b fp now l e s1 = (s2, res2)" by force
    note blocked = claim_existing_blocked [OF s1(2,1) assms(3) ce]
    then have "s' = s2 \<and> res = res2"
      using assms(4) cr Inr ow ce
      by (auto simp: claim_record_def r_def split: sum.splits claim.splits)
    with blocked show ?thesis by simp
  qed
qed

lemma claim_record_claimed:
  assumes "inv s" "claim_record repo std a b fp now l e s = (s', Inr (Claimed rid))"
  shows "inv s' \<and> (\<exists>y. row_of s' a b = Some y \<and> processing_row fp l e rid y)"
proof -
  define r where "r = \<lparr>ir_ID = 0, ir_Scope = a, ir_IdempotencyKeyHash = b,
    ir_RequestFingerprint = fp, ir_Status = StatusProcessing, ir_ResponseStatus = None,
    ir_ResponseBody = None, ir_ErrorReason = None, ir_LockedUntil = Some l, ir_ExpiresAt = e,
    ir_CreatedAt = 0, ir_UpdatedAt = 0\<rparr>"
  obtain s1 c where cr: "repo_CreateProcessing repo s r = (s1, c)" by force
  have inv1: "inv s1" using inv_create [OF assms(1), of r] cr by simp
  obtain own r' where c: "c = Inr (own, r')"
    using assms(2) cr by (cases c) (auto simp: claim_record_def r_def)
  note created = create_result [OF assms(1) cr [unfolded c]]
  show ?thesis
  proof (cases own)
    case True
    with assms(2) cr c have "s' = s1" "rid = ir_ID r'"
      by (auto simp: claim_record_def r_def split: if_splits)
    with created True inv1 show ?thesis
      by (auto simp: r_def stored_as_def processing_row_def)
  next
    case False
    with created obtain x where x: "row_of s a b = Some x" by (auto simp: r_def)
    have x1: "row_of s1 a b = Some x" using create_frame [OF assms(1) x, of r] cr by simp
    have "claim_existing repo std a b fp now l e s1 = (s', Inr (Claimed rid))"
      using assms(2) cr c False
      by (auto simp: claim_record_def r_def split: prod.splits sum.splits claim.splits if_splits)
    then show ?thesis by (rule claim_existing_claimed [OF inv1 x1])
  qed
qed

lemma Execute_blocked:
  assumes "inv s" "row_of s (io_Scope opts) (HashIdempotencyKey std key) = Some x" "unclaimable now x"
    and "NormalizeIdempotencyKey (io_IdempotencyKey opts) = Inr key" "key \<noteq> []"
    and "Execute (Some repo) std cfg now now2 opts ex s w = (s', w', res)"
  shows "row_of s' (io_Scope opts) (HashIdempotencyKey std key) = Some x \<and> w' = w
    \<and> (\<forall>r. res = Inr r \<longrightarrow> rs_Replayed r \<and> ir_Status x = StatusSucceeded
        \<and> decodeStoredResponse std (ir_ResponseBody x) = Inr (rs_Data r))"
proof (cases "ex = None \<or> io_Scope opts = [] \<or> (\<exists>err. BuildIdempotencyFingerprint std (io_Method opts)
    (io_Route opts) (io_ActorScope opts) (io_Payload opts) = Inl err)")
  case True
  with assms show ?thesis by (auto simp: Execute_def split: option.splits if_splits)
next
  case False
  then obtain execute fp where ex: "ex = Some execute"
    and fp: "BuildIdempotencyFingerprint std (io_Method opts) (io_Route opts) (io_ActorScope opts)
      (io_Payload opts) = Inr fp"
    by (cases "BuildIdempotencyFingerprint std (io_Method opts) (io_Route opts) (io_ActorScope opts)
      (io_Payload opts)") auto
  let ?ttl = "effective_ttl cfg opts"
  obtain s1 c where c: "claim_record repo std (io_Scope opts) (HashIdempotencyKey std key) fp now
      (time_add now (ic_ProcessingTimeout cfg)) (time_add now ?ttl) s = (s1, c)" by force
  note blocked = claim_record_blocked [OF assms(1-3) c]
  from assms(4-6) False ex fp c have
    "(s', w', res) = (case c of Inl err \<Rightarrow> (s1, w, Inl err)
       | Inr (Replay data) \<Rightarrow> (s1, w, Inr \<lparr>rs_Data = data, rs_Replayed = True\<rparr>)
       | Inr (Claimed rid) \<Rightarrow> run_claimed repo std cfg (time_add now ?ttl) now2 rid execute s1 w)"
    by (simp add: Execute_def Let_def split: sum.splits claim.splits)
  with blocked show ?thesis by (auto split: sum.splits claim.splits)
qed

lemma resolve_inv:
  assumes "inv s"
  shows "inv (fst (resolve_existing repo std now l e x s))"
proof -
  obtain s1 r where rec: "repo_TryReclaim repo s (ir_ID x) StatusFailedRetryable now l e = (s1, r)" by force
  then have "inv s1" using inv_reclaim [OF assms] by (metis fst_conv)
  with assms rec show ?thesis
    by (auto simp: resolve_existing_def split: sum.splits option.splits)
qed

lemma claim_existing_inv:
  assumes "inv s"
  shows "inv (fst (claim_existing repo std a b fp now l e s))"
proof -
  obtain s1 g where get: "repo_GetByScopeAndKeyHash repo s a b = (s1, g)" by force
  then have inv1: "inv s1" using inv_get [OF assms] by (metis fst_conv)
  show ?thesis
  proof (cases "\<exists>x. g = Inr (Some x) \<and> ir_RequestFingerprint x = fp \<and> ir_ExpiresAt x \<le> now")
    case False
    with get inv1 resolve_inv [OF inv1] show ?thesis
      by (auto simp: claim_existing_def split: sum.splits option.splits)
  next
    case True
    then obtain x where x: "g = Inr (Some x)" "ir_RequestFingerprint x = fp" "ir_ExpiresAt x \<le> now" by blast
    obtain s2 t where rec: "repo_TryReclaim repo s1 (ir_ID x) (ir_Status x) now l e = (s2, t)" by force
    then have inv2: "inv s2" using inv_reclaim [OF inv1] by (metis fst_conv)
    obtain s3 g3 where get3: "repo_GetByScopeAndKeyHash repo s2 a b = (s3, g3)" by force
    then have inv3: "inv s3" using inv_get [OF inv2] by (metis fst_conv)
    from get x rec get3 inv2 inv3 resolve_inv [OF inv3] show ?thesis
      by (auto simp: claim_existing_def split: sum.splits option.splits bool.splits)
  qed
qed

lemma claim_record_inv:
  assumes "inv s" "claim_record repo std a b fp now l e s = (s', res)"
  shows "inv s'"
proof -
  define r where "r = \<lparr>ir_ID = 0, ir_Scope = a, ir_IdempotencyKeyHash = b,
    ir_RequestFingerprint = fp, ir_Status = StatusProcessing, ir_ResponseStatus = None,
    ir_ResponseBody = None, ir_ErrorReason = None, ir_LockedUntil = Some l, ir_ExpiresAt = e,
    ir_CreatedAt = 0, ir_UpdatedAt = 0\<rparr>"
  obtain s1 c where cr: "repo_CreateProcessing repo s r = (s1, c)" by force
  then have inv1: "inv s1" using inv_create [OF assms(1), of r] by simp
  obtain s2 c2 where ce: "claim_existing repo std a b fp now l e s1 = (s2, c2)" by force
  then have "inv s2" using claim_existing_inv [OF inv1] by (metis fst_conv)
  with assms(2) cr ce inv1 show ?thesis
    by (auto simp: claim_record_def r_def split: sum.splits claim.splits if_splits)
qed

text \<open>One call of \<open>Execute\<close> with a key: refused before the store is asked, settled by the claim
  without running the executor, or run under a claim.\<close>

lemma Execute_cases:
  assumes "NormalizeIdempotencyKey (io_IdempotencyKey opts) = Inr key" "key \<noteq> []"
    and "Execute (Some repo) std cfg now now2 opts (Some ex) s w = (s', w', res)"
  obtains (refused) err where "s' = s" "w' = w" "res = Inl err"
  | (settled) fp c where "claim_record repo std (io_Scope opts) (HashIdempotencyKey std key) fp now
        (time_add now (ic_ProcessingTimeout cfg)) (time_add now (effective_ttl cfg opts)) s = (s', c)"
      "w' = w" "\<forall>rid. c \<noteq> Inr (Claimed rid)" "\<forall>r. res = Inr r \<longrightarrow> rs_Replayed r"
  | (granted) fp s1 rid where "claim_record repo std (io_Scope opts) (HashIdempotencyKey std key) fp now
        (time_add now (ic_ProcessingTimeout cfg)) (time_add now (effective_ttl cfg opts)) s
        = (s1, Inr (Claimed rid))"
      "BuildIdempotencyFingerprint std (io_Method opts) (io_Route opts) (io_ActorScope opts)
        (io_Payload opts) = Inr fp"
      "run_claimed repo std cfg (time_add now (effective_ttl cfg opts)) now2 rid ex s1 w = (s', w', res)"
proof (cases "io_Scope opts = [] \<or> (\<exists>err. BuildIdempotencyFingerprint std (io_Method opts)
    (io_Route opts) (io_ActorScope opts) (io_Payload opts) = Inl err)")
  case True
  with assms refused show thesis by (auto simp: Execute_def split: if_splits)
next
  case False
  then obtain fp where fp: "BuildIdempotencyFingerprint std (io_Method opts) (io_Route opts)
      (io_ActorScope opts) (io_Payload opts) = Inr fp"
    by (cases "BuildIdempotencyFingerprint std (io_Method opts) (io_Route opts) (io_ActorScope opts)
      (io_Payload opts)") auto
  obtain s1 c where c: "claim_record repo std (io_Scope opts) (HashIdempotencyKey std key) fp now
      (time_add now (ic_ProcessingTimeout cfg)) (time_add now (effective_ttl cfg opts)) s = (s1, c)" by force
  from assms False fp c have run:
    "(s', w', res) = (case c of Inl err \<Rightarrow> (s1, w, Inl err)
       | Inr (Replay data) \<Rightarrow> (s1, w, Inr \<lparr>rs_Data = data, rs_Replayed = True\<rparr>)
       | Inr (Claimed rid) \<Rightarrow> run_claimed repo std cfg (time_add now (effective_ttl cfg opts)) now2 rid ex s1 w)"
    by (simp add: Execute_def Let_def split: sum.splits claim.splits)
  show thesis
  proof (cases "\<exists>rid. c = Inr (Claimed rid)")
    case True
    with run c fp granted show thesis by auto
  next
    case False
    with run c show thesis by (intro settled [of fp c]) (auto split: sum.splits claim.splits)
  qed
qed

lemma run_claimed_inv:
  "inv s \<Longrightarrow> run_claimed repo std cfg e now2 rid ex s w = (s', w', res) \<Longrightarrow> inv s'"
  using inv_succeeded [of s rid 200 _ e] inv_failed [of s rid _ _ e]
  by (auto simp: run_claimed_def Let_def split: prod.splits sum.splits) (metis fst_conv)+

lemma Execute_inv:
  assumes "inv s" "NormalizeIdempotencyKey (io_IdempotencyKey opts) = Inr key" "key \<noteq> []"
    and "Execute (Some repo) std cfg now now2 opts (Some ex) s w = (s', w', res)"
  shows "inv s'"
  using assms(2-4)
proof (cases rule: Execute_cases)
  case (granted fp s1 rid)
  then show ?thesis using claim_record_claimed [OF assms(1)] run_claimed_inv by metis
qed (use assms(1) claim_record_inv in auto)

lemma Execute_success:
  assumes "inv s" "NormalizeIdempotencyKey (io_IdempotencyKey opts) = Inr key" "key \<noteq> []"
    and "Execute (Some repo) std cfg now now2 opts (Some ex) s w = (s', w', Inr r)" "\<not> rs_Replayed r"
  shows "ex w = (w', Inr (rs_Data r)) \<and> (\<exists>x body.
    row_of s' (io_Scope opts) (HashIdempotencyKey std key) = Some x \<and> ir_Status x = StatusSucceeded
    \<and> ir_ExpiresAt x = time_add now (effective_ttl cfg opts) \<and> ir_ResponseBody x = Some body
    \<and> marshalStoredResponse std cfg (rs_Data r) = Inr body)"
  using assms(2-4)
proof (cases rule: Execute_cases)
  case (granted fp s1 rid)
  obtain y where y: "row_of s1 (io_Scope opts) (HashIdempotencyKey std key) = Some y" "ir_ID y = rid"
    and inv1: "inv s1"
    using claim_record_claimed [OF assms(1) granted(1)] by (auto simp: processing_row_def)
  from granted(3) obtain body where ex: "ex w = (w', Inr (rs_Data r))"
    and body: "marshalStoredResponse std cfg (rs_Data r) = Inr body"
    and mark: "repo_MarkSucceeded repo s1 (ir_ID y) 200 body (time_add now (effective_ttl cfg opts)) = (s', Inr ())"
    using y(2) by (auto simp: run_claimed_def Let_def split: prod.splits sum.splits)
  from succeeded_result [OF inv1 y(1) mark] ex body show ?thesis
    by (auto simp: succeeded_row_def)
qed (use assms(5) in auto)

end

section \<open>Calls against the table\<close>

text \<open>A sequence of calls of \<open>Execute\<close> with their two clock readings, options and executors.\<close>

type_synonym ('p, 'd, 'w) idem_call =
  "gotime \<times> gotime \<times> 'p IdempotencyExecuteOptions \<times> ('w \<Rightarrow> 'w \<times> (goerror + 'd))"

fun run_calls ::
  "'s IdempotencyRepository option \<Rightarrow> ('p, 'd) idem_std \<Rightarrow> IdempotencyConfig \<Rightarrow> ('p, 'd, 'w) idem_call list \<Rightarrow>
   's \<Rightarrow> 'w \<Rightarrow> 's \<times> 'w \<times> (goerror + 'd IdempotencyExecuteResult) list" where
  "run_calls repo std cfg [] s w = (s, w, [])"
| "run_calls repo std cfg ((now, now2, opts, ex) # cs) s w =
     (case Execute repo std cfg now now2 opts (Some ex) s w of
        (s1, w1, r) \<Rightarrow>
          (case run_calls repo std cfg cs s1 w1 of (s2, w2, rs) \<Rightarrow> (s2, w2, r # rs)))"

definition same_key_before ::
  "string \<Rightarrow> string \<Rightarrow> gotime \<Rightarrow> ('p, 'd, 'w) idem_call \<Rightarrow> bool" where
  "same_key_before scope key t c \<longleftrightarrow> (case c of (now, now2, opts, ex) \<Rightarrow>
     io_Scope opts = scope \<and> NormalizeIdempotencyKey (io_IdempotencyKey opts) = Inr key \<and> now < t)"

context idempotency_repository
begin

lemma run_calls_succeeded:
  assumes "inv s" "row_of s scope (HashIdempotencyKey std key) = Some x" "key \<noteq> []"
    and "ir_Status x = StatusSucceeded" "list_all (same_key_before scope key (ir_ExpiresAt x)) cs"
    and "run_calls (Some repo) std cfg cs s w = (s', w', rs)"
  shows "w' = w \<and> list_all (\<lambda>res. \<forall>r. res = Inr r \<longrightarrow> rs_Replayed r
    \<and> decodeStoredResponse std (ir_ResponseBody x) = Inr (rs_Data r)) rs"
  using assms
proof (induction cs arbitrary: s w rs)
  case Nil
  then show ?case by simp
next
  case (Cons c cs)
  obtain now now2 opts ex where c: "c = (now, now2, opts, ex)" by (cases c)
  obtain s1 w1 r1 where run1: "Execute (Some repo) std cfg now now2 opts (Some ex) s w = (s1, w1, r1)"
    by (metis prod_cases3)
  obtain rs2 where run2: "run_calls (Some repo) std cfg cs s1 w1 = (s', w', rs2)" and rs: "rs = r1 # rs2"
    using Cons.prems(6) c run1 by (auto split: prod.splits)
  have opts: "io_Scope opts = scope" "NormalizeIdempotencyKey (io_IdempotencyKey opts) = Inr key"
    and free: "unclaimable now x"
    using Cons.prems(4,5) c by (auto simp: same_key_before_def unclaimable_def)
  note inv1 = Execute_inv [OF Cons.prems(1) opts(2) Cons.prems(3) run1]
  have blocked: "row_of s1 scope (HashIdempotencyKey std key) = Some x" "w1 = w"
    "\<forall>r. r1 = Inr r \<longrightarrow> rs_Replayed r \<and> decodeStoredResponse std (ir_ResponseBody x) = Inr (rs_Data r)"
    using Execute_blocked [OF Cons.prems(1) _ free opts(2) Cons.prems(3) run1] Cons.prems(2) opts(1) by simp_all
  have "list_all (same_key_before scope key (ir_ExpiresAt x)) cs" using Cons.prems(5) by simp
  from Cons.IH [OF inv1 blocked(1) Cons.prems(3,4) this run2] blocked rs show ?case by simp
qed

end

text \<open>C3: exactly once. When a call of \<open>Execute\<close> with a key reports a fresh success, its executor
  ran once; and no later call with the same scope and key that reads its clock before the record
  expires runs its executor again, whatever its payload and whichever statements of the store fail:
  the world stays as the first call left it, and a later call that succeeds is a replay of what
  was stored for the first result.\<close>

theorem Execute_exactly_once:
  assumes "sql_ok s" "NormalizeIdempotencyKey (io_IdempotencyKey opts) = Inr key" "key \<noteq> []"
    and "Execute (Some idempotencyRepository) std cfg now now2 opts (Some ex) s w = (s1, w1, Inr r)"
    and "\<not> rs_Replayed r"
    and "list_all (same_key_before (io_Scope opts) key (time_add now (effective_ttl cfg opts))) cs"
    and "run_calls (Some idempotencyRepository) std cfg cs s1 w1 = (s2, w2, rs)"
  shows "ex w = (w1, Inr (rs_Data r)) \<and> w2 = w1
    \<and> list_all (\<lambda>res. \<forall>q. res = Inr q \<longrightarrow> rs_Replayed q
        \<and> (\<exists>body. marshalStoredResponse std cfg (rs_Data r) = Inr body
             \<and> decodeStoredResponse std (Some body) = Inr (rs_Data q))) rs"
proof -
  note ok1 = pg.Execute_inv [OF assms(1-4)]
  from pg.Execute_success [OF assms(1-5)] obtain x body where
    ex: "ex w = (w1, Inr (rs_Data r))"
    and x: "sql_row s1 (io_Scope opts) (HashIdempotencyKey std key) = Some x"
      "ir_Status x = StatusSucceeded" "ir_ExpiresAt x = time_add now (effective_ttl cfg opts)"
      "ir_ResponseBody x = Some body" "marshalStoredResponse std cfg (rs_Data r) = Inr body"
    by blast
  have "list_all (same_key_before (io_Scope opts) key (ir_ExpiresAt x)) cs" using assms(6) x(3) by simp
  from pg.run_calls_succeeded [OF ok1 x(1) assms(3) x(2) this assms(7)] ex x(4,5) show ?thesis
    by (auto simp: list_all_iff)
qed

text \<open>The executor of a call with a key runs only under a claim. Either the call leaves the world
  alone and reports an error or a replay, or it ran the executor once from a store in which the
  record of its scope and key is marked as processing with its own fingerprint and is locked until
  the processing timeout.\<close>

theorem Execute_only_with_claim:
  assumes "sql_ok s" "NormalizeIdempotencyKey (io_IdempotencyKey opts) = Inr key" "key \<noteq> []"
    and "Execute (Some idempotencyRepository) std cfg now now2 opts (Some ex) s w = (s', w', res)"
  shows "sql_ok s' \<and>
    ((w' = w \<and> (\<forall>r. res = Inr r \<longrightarrow> rs_Replayed r))
     \<or> (\<exists>s1 y fp. sql_ok s1 \<and> sql_row s1 (io_Scope opts) (HashIdempotencyKey std key) = Some y
          \<and> BuildIdempotencyFingerprint std (io_Method opts) (io_Route opts) (io_ActorScope opts)
              (io_Payload opts) = Inr fp
          \<and> processing_row fp (time_add now (ic_ProcessingTimeout cfg))
              (time_add now (effective_ttl cfg opts)) (ir_ID y) y
          \<and> run_claimed idempotencyRepository std cfg (time_add now (effective_ttl cfg opts)) now2
              (ir_ID y) ex s1 w = (s', w', res)
          \<and> w' = fst (ex w)))"
proof -
  have ok: "sql_ok s'" by (rule pg.Execute_inv [OF assms])
  have once: "w' = fst (ex w)" if "run_claimed idempotencyRepository std cfg e n rid ex s1 w = (s', w', res)" for e n rid s1
    using that by (auto simp: run_claimed_def Let_def split: prod.splits sum.splits)
  from assms(2-4) show ?thesis
  proof (cases rule: pg.Execute_cases)
    case (granted fp s1 rid)
    from pg.claim_record_claimed [OF assms(1) granted(1)] obtain y where "sql_ok s1"
      "sql_row s1 (io_Scope opts) (HashIdempotencyKey std key) = Some y"
      "processing_row fp (time_add now (ic_ProcessingTimeout cfg)) (time_add now (effective_ttl cfg opts)) rid y"
      by blast
    moreover from this have "rid = ir_ID y" by (simp add: processing_row_def)
    ultimately show ?thesis using granted(2,3) once ok by blast
  qed (use ok in auto)
qed

section \<open>While the store is up\<close>

context reliable_repository
begin

lemma claim_record_fresh:
  assumes "inv s" "up s" "row_of s a b = None"
  shows "\<exists>s' rid. claim_record repo std a b fp now l e s = (s', Inr (Claimed rid)) \<and> up s'"
proof -
  define r where "r = \<lparr>ir_ID = 0, ir_Scope = a, ir_IdempotencyKeyHash = b,
    ir_RequestFingerprint = fp, ir_Status = StatusProcessing, ir_ResponseStatus = None,
    ir_ResponseBody = None, ir_ErrorReason = None, ir_LockedUntil = Some l, ir_ExpiresAt = e,
    ir_CreatedAt = 0, ir_UpdatedAt = 0\<rparr>"
  obtain s1 own r' where cr: "repo_CreateProcessing repo s r = (s1, Inr (own, r'))" "up s1"
    using up_create [OF assms(2), of r] by auto
  from create_result [OF assms(1) cr(1)] assms(3) have "own" "0 < ir_ID r'" by (auto simp: r_def)
  with cr show ?thesis by (simp add: claim_record_def r_def)
qed

lemma claim_record_backoff:
  assumes "inv s" "up s" "row_of s a b = Some x" "ir_RequestFingerprint x = fp"
    and "ir_Status x = StatusFailedRetryable" "ir_LockedUntil x = Some t" "now < t" "now < ir_ExpiresAt x"
  shows "\<exists>s'. claim_record repo std a b fp now l e s =
    (s', Inl (conflictWithRetryAfter ErrIdempotencyRetryBackoff (Some t) now))"
proof -
  define r where "r = \<lparr>ir_ID = 0, ir_Scope = a, ir_IdempotencyKeyHash = b,
    ir_RequestFingerprint = fp, ir_Status = StatusProcessing, ir_ResponseStatus = None,
    ir_ResponseBody = None, ir_ErrorReason = None, ir_LockedUntil = Some l, ir_ExpiresAt = e,
    ir_CreatedAt = 0, ir_UpdatedAt = 0\<rparr>"
  obtain s1 own r' where cr: "repo_CreateProcessing repo s r = (s1, Inr (own, r'))" "up s1"
    using up_create [OF assms(2), of r] by auto
  from create_result [OF assms(1) cr(1)] assms(3) have own: "\<not> own" by (auto simp: r_def)
  have x1: "row_of s1 a b = Some x" using create_frame [OF assms(1,3), of r] cr by simp
  obtain s2 y where get: "repo_GetByScopeAndKeyHash repo s1 a b = (s2, Inr y)"
    using up_get [OF cr(2)] by blast
  with get_result x1 have "y = Some x" by metis
  with get cr own assms show ?thesis
    by (simp add: claim_record_def claim_existing_def resolve_existing_def r_def)
qed

lemma Execute_fresh:
  assumes "inv s" "up s" "row_of s (io_Scope opts) (HashIdempotencyKey std key) = None"
    and "NormalizeIdempotencyKey (io_IdempotencyKey opts) = Inr key" "key \<noteq> []" "io_Scope opts \<noteq> []"
    and "BuildIdempotencyFingerprint std (io_Method opts) (io_Route opts) (io_ActorScope opts)
      (io_Payload opts) = Inr fp"
  obtains s1 y where "inv s1" "up s1" "row_of s1 (io_Scope opts) (HashIdempotencyKey std key) = Some y"
    "processing_row fp (time_add now (ic_ProcessingTimeout cfg))
       (time_add now (effective_ttl cfg opts)) (ir_ID y) y"
    "Execute (Some repo) std cfg now now2 opts (Some ex) s w =
       run_claimed repo std cfg (time_add now (effective_ttl cfg opts)) now2 (ir_ID y) ex s1 w"
proof -
  let ?l = "time_add now (ic_ProcessingTimeout cfg)" and ?e = "time_add now (effective_ttl cfg opts)"
  obtain s1 rid where cl: "claim_record repo std (io_Scope opts) (HashIdempotencyKey std key) fp now ?l ?e s
      = (s1, Inr (Claimed rid))" "up s1"
    using claim_record_fresh [OF assms(1-3)] by metis
  obtain y where y: "inv s1" "row_of s1 (io_Scope opts) (HashIdempotencyKey std key) = Some y"
      "processing_row fp ?l ?e rid y"
    using claim_record_claimed [OF assms(1) cl(1)] by blast
  then have "rid = ir_ID y" by (simp add: processing_row_def)
  with that y cl assms(4-7) show thesis by (simp add: Execute_def Let_def)
qed

end

text \<open>C38: while the store is up, a call with a new key runs its executor, returns its result, and
  leaves a succeeded record that carries the stored response and expires after the time to live.\<close>

theorem Execute_new_key_succeeds:
  assumes "sql_ok s" "sql_up s" "sql_row s (io_Scope opts) (HashIdempotencyKey std key) = None"
    and "NormalizeIdempotencyKey (io_IdempotencyKey opts) = Inr key" "key \<noteq> []" "io_Scope opts \<noteq> []"
    and "BuildIdempotencyFingerprint std (io_Method opts) (io_Route opts) (io_ActorScope opts)
      (io_Payload opts) = Inr fp"
    and "ex w = (w', Inr d)" "marshalStoredResponse std cfg d = Inr body"
  shows "\<exists>s' x. Execute (Some idempotencyRepository) std cfg now now2 opts (Some ex) s w
      = (s', w', Inr \<lparr>rs_Data = d, rs_Replayed = False\<rparr>)
    \<and> sql_row s' (io_Scope opts) (HashIdempotencyKey std key) = Some x
    \<and> ir_Status x = StatusSucceeded \<and> ir_ResponseBody x = Some body \<and> ir_RequestFingerprint x = fp
    \<and> ir_ExpiresAt x = time_add now (effective_ttl cfg opts)"
proof -
  let ?e = "time_add now (effective_ttl cfg opts)"
  obtain s1 y where y: "sql_ok s1" "sql_up s1"
      "sql_row s1 (io_Scope opts) (HashIdempotencyKey std key) = Some y"
      "processing_row fp (time_add now (ic_ProcessingTimeout cfg)) ?e (ir_ID y) y"
    and run: "Execute (Some idempotencyRepository) std cfg now now2 opts (Some ex) s w =
      run_claimed idempotencyRepository std cfg ?e now2 (ir_ID y) ex s1 w"
    using pg_up.Execute_fresh [OF assms(1-7)] by metis
  obtain s2 where mark: "repo_MarkSucceeded idempotencyRepository s1 (ir_ID y) 200 body ?e = (s2, Inr ())"
    using pg_up.up_succeeded [OF y(2)] by blast
  from pg.succeeded_result [OF y(1,3) mark] y(4) obtain u where
    "sql_row s2 (io_Scope opts) (HashIdempotencyKey std key) = Some (succeeded_row 200 body ?e u y)" by blast
  with run mark assms(8,9) y(4) show ?thesis
    by (simp add: run_claimed_def succeeded_row_def processing_row_def)
qed

text \<open>A failed execution is not retried during its backoff. While the store is up, a call with a
  new key whose executor fails reports that error, and the next call with the same options, before
  the backoff ends and the record expires, does not run its executor: it is a conflict whose
  \<open>Retry-After\<close> is the rest of the backoff in whole seconds, and at least one second.\<close>

theorem Execute_failure_backs_off:
  assumes "sql_ok s" "sql_up s" "sql_row s (io_Scope opts) (HashIdempotencyKey std key) = None"
    and "NormalizeIdempotencyKey (io_IdempotencyKey opts) = Inr key" "key \<noteq> []" "io_Scope opts \<noteq> []"
    and "BuildIdempotencyFingerprint std (io_Method opts) (io_Route opts) (io_ActorScope opts)
      (io_Payload opts) = Inr fp"
    and "ex w = (w', Inl err)"
    and "now3 < time_add now2 (ic_FailedRetryBackoff cfg)" "now3 < time_add now (effective_ttl cfg opts)"
  shows "\<exists>s' s''. Execute (Some idempotencyRepository) std cfg now now2 opts (Some ex) s w = (s', w', Inl err)
    \<and> Execute (Some idempotencyRepository) std cfg now3 now4 opts (Some ex2) s' w' =
        (s'', w', Inl (conflictWithRetryAfter ErrIdempotencyRetryBackoff
           (Some (time_add now2 (ic_FailedRetryBackoff cfg))) now3))"
proof -
  let ?e = "time_add now (effective_ttl cfg opts)" and ?b = "time_add now2 (ic_FailedRetryBackoff cfg)"
  obtain s1 y where y: "sql_ok s1" "sql_up s1"
      "sql_row s1 (io_Scope opts) (HashIdempotencyKey std key) = Some y"
      "processing_row fp (time_add now (ic_ProcessingTimeout cfg)) ?e (ir_ID y) y"
    and run: "Execute (Some idempotencyRepository) std cfg now now2 opts (Some ex) s w =
      run_claimed idempotencyRepository std cfg ?e now2 (ir_ID y) ex s1 w"
    using pg_up.Execute_fresh [OF assms(1-7)] by metis
  define reason where "reason = (if Reason (Some err) = [] then ''EXECUTION_FAILED'' else Reason (Some err))"
  obtain s2 where mark: "repo_MarkFailedRetryable idempotencyRepository s1 (ir_ID y) reason ?b ?e = (s2, Inr ())"
      "sql_up s2"
    using pg_up.up_failed [OF y(2)] by blast
  have ok2: "sql_ok s2" using pg.inv_failed [OF y(1)] mark by (metis fst_conv)
  from pg.failed_result [OF y(1,3) mark(1)] obtain u where
    row: "sql_row s2 (io_Scope opts) (HashIdempotencyKey std key) = Some (failed_row reason ?b ?e u y)" by blast
  have first: "Execute (Some idempotencyRepository) std cfg now now2 opts (Some ex) s w = (s2, w', Inl err)"
    using run mark(1) assms(8) by (simp add: run_claimed_def Let_def reason_def)
  obtain s3 where "claim_record idempotencyRepository std (io_Scope opts) (HashIdempotencyKey std key) fp now3
      (time_add now3 (ic_ProcessingTimeout cfg)) (time_add now3 (effective_ttl cfg opts)) s2
      = (s3, Inl (conflictWithRetryAfter ErrIdempotencyRetryBackoff (Some ?b) now3))"
    using pg_up.claim_record_backoff [OF ok2 mark(2) row, of fp ?b now3 std
        "time_add now3 (ic_ProcessingTimeout cfg)" "time_add now3 (effective_ttl cfg opts)"] y(4) assms(9,10)
    by (auto simp: failed_row_def processing_row_def)
  with first assms(4-7) show ?thesis by (simp add: Execute_def Let_def)
qed

section \<open>Retry-After, keys, stored responses\<close>

lemma int_seconds_bounds: "in_i64 d \<Longrightarrow> in_i64 (int_seconds d)"
proof -
  assume d: "in_i64 d"
  have "\<bar>int_seconds d\<bar> \<le> \<bar>d\<bar> div second" by (auto simp: int_seconds_def sgn_if)
  also have "\<dots> < 2 ^ 63" using d by (auto simp: in_i64_def)
  finally show ?thesis by (auto simp: in_i64_def)
qed

lemma in_i64_time_sub: "in_i64 (time_sub t u)"
  by (auto simp: in_i64_def time_sub_def max_duration_def min_duration_def)

text \<open>The delay that a conflict announces is the one a handler reads back for its
  \<open>Retry-After\<close> header: the whole seconds until the lock ends, rounded up to one when
  less than a second is left, and nothing when the record has no lock; wrapping the error on the
  way changes nothing.\<close>

theorem retry_after_roundtrip:
  "RetryAfterSecondsFromError (Some (WrapError msg (conflictWithRetryAfter ErrIdempotencyInProgress lock now)))
     = (case lock of None \<Rightarrow> 0 | Some l \<Rightarrow> max 1 (int_seconds (time_sub l now)))"
proof (cases lock)
  case None
  then show ?thesis
    by (simp add: RetryAfterSecondsFromError_def conflictWithRetryAfter_def app_err_def
        ErrIdempotencyInProgress_def Conflict_def New_def)
next
  case (Some l)
  define n where "n = (if int_seconds (time_sub l now) \<le> 0 then 1 else int_seconds (time_sub l now))"
  have n: "in_i64 n" "0 < n"
    using int_seconds_bounds [OF in_i64_time_sub, of l now] by (auto simp: in_i64_def n_def)
  have md: "copy_map [(''retry_after'', itoa n)] = [(''retry_after'', itoa n)]"
    by (rule copy_map_id) (simp add: gm_ok_def)
  have "conflictWithRetryAfter ErrIdempotencyInProgress (Some l) now =
      app_err (WithMetadata ErrIdempotencyInProgress (Some [(''retry_after'', itoa n)]))"
    by (simp add: conflictWithRetryAfter_def Let_def n_def)
  moreover have "RetryAfterSecondsFromError (Some (WrapError msg
      (app_err (WithMetadata ErrIdempotencyInProgress (Some [(''retry_after'', itoa n)]))))) = n"
    using n trim_space_printable [OF itoa_printable, of n] atoi_itoa [OF n(1)]
    by (simp add: RetryAfterSecondsFromError_def split_def md gm_getd_def gm_get_def)
  ultimately show ?thesis using Some by (auto simp: n_def max_def)
qed

lemma NormalizeIdempotencyKey_Inr:
  "NormalizeIdempotencyKey raw = Inr key \<longleftrightarrow>
     key = trim_space raw \<and> length key \<le> 128 \<and> list_all printable key"
  by (auto simp: NormalizeIdempotencyKey_def Let_def printable_def list_all_iff not_less)
    (metis not_less)+

text \<open>A key is accepted exactly when what is left of it after trimming has at most 128 bytes, all
  of them printable ASCII; normalising an accepted key again gives the same key; every other key is
  refused with the bad-request error.\<close>

theorem NormalizeIdempotencyKey_spec:
  "(case NormalizeIdempotencyKey raw of
      Inr key \<Rightarrow> key = trim_space raw \<and> length key \<le> 128 \<and> list_all printable key
        \<and> NormalizeIdempotencyKey key = Inr key
    | Inl err \<Rightarrow> err = app_err ErrIdempotencyKeyInvalid \<and> IsBadRequest (Some err)
        \<and> \<not> (length (trim_space raw) \<le> 128 \<and> list_all printable (trim_space raw)))"
proof (cases "NormalizeIdempotencyKey raw")
  case (Inr key)
  then have "key = trim_space raw" "length key \<le> 128" "list_all printable key"
    unfolding NormalizeIdempotencyKey_Inr by blast+
  moreover from this have "NormalizeIdempotencyKey key = Inr key"
    unfolding NormalizeIdempotencyKey_Inr by (simp add: trim_space_printable)
  ultimately show ?thesis using Inr by simp
next
  case (Inl err)
  moreover have "\<not> (length (trim_space raw) \<le> 128 \<and> list_all printable (trim_space raw))"
    using Inl NormalizeIdempotencyKey_Inr [of raw "trim_space raw"] by (auto simp: not_less)
  moreover have "err = app_err ErrIdempotencyKeyInvalid"
    using Inl by (auto simp: NormalizeIdempotencyKey_def Let_def split: if_splits)
  ultimately show ?thesis
    by (simp add: IsBadRequest_def ErrIdempotencyKeyInvalid_def BadRequest_def i32_def)
qed

lemma shrink_valid_le: "shrink_valid s n \<le> n"
  by (induction s n rule: shrink_valid.induct) auto

lemma shrink_valid_valid: "utf8_valid (take (shrink_valid s n) s)"
  by (induction s n rule: shrink_valid.induct) auto

lemma shrink_valid_max: "m \<le> n \<Longrightarrow> utf8_valid (take m s) \<Longrightarrow> m \<le> shrink_valid s n"
  by (induction s n rule: shrink_valid.induct) (auto simp: le_Suc_eq)

text \<open>A response that is too long is cut to its longest prefix that is valid UTF-8 within the
  limit, so that a character is never split.\<close>

theorem truncateUTF8_spec:
  assumes "0 < maxBytes" "maxBytes < int (length s)"
  shows "\<exists>n. truncateUTF8 s maxBytes = take n s \<and> int n \<le> maxBytes \<and> utf8_valid (take n s)
    \<and> (\<forall>m. int m \<le> maxBytes \<and> utf8_valid (take m s) \<longrightarrow> m \<le> n)"
proof -
  let ?n = "shrink_valid s (nat maxBytes)"
  have "int ?n \<le> maxBytes" using shrink_valid_le [of s "nat maxBytes"] assms(1) by linarith
  moreover have "m \<le> ?n" if "int m \<le> maxBytes" "utf8_valid (take m s)" for m
    using shrink_valid_max [of m "nat maxBytes" s] that by linarith
  ultimately show ?thesis
    using assms shrink_valid_valid [of s "nat maxBytes"] by (auto simp: truncateUTF8_def)
qed

theorem truncateUTF8_spec_witness:
  "truncateUTF8 [CHR ''a'', CHR 0xC3, CHR 0xA9, CHR ''b''] 2 = [CHR ''a'']
   \<and> (\<exists>n. truncateUTF8 [CHR ''a'', CHR 0xC3, CHR 0xA9, CHR ''b''] 2
          = take n [CHR ''a'', CHR 0xC3, CHR 0xA9, CHR ''b''] \<and> int n \<le> 2)"
proof -
  have "truncateUTF8 [CHR ''a'', CHR 0xC3, CHR 0xA9, CHR ''b''] 2 = [CHR ''a'']"
    by (simp add: truncateUTF8_def eval_nat_numeral utf8_valid_def cont_byte_def)
  moreover have "(2 :: int) < int (length [CHR ''a'', CHR 0xC3, CHR 0xA9, CHR ''b''])" by simp
  ultimately show ?thesis using truncateUTF8_spec [of 2 "[CHR ''a'', CHR 0xC3, CHR 0xA9, CHR ''b'']"] by auto
qed

text \<open>A response longer than \<open>MaxStoredResponseLen\<close> is never replayed. Its record holds a
  prefix followed by \<open>...(truncated)\<close>, which is not a JSON text, so with a decoder that
  rejects such texts every later call with the key, until the record expires, ends in an error
  although the operation succeeded.\<close>

theorem Execute_truncated_not_replayed:
  assumes rejects: "\<And>b. \<exists>err. std_unmarshal_data std (b @ ''...(truncated)'') = Inl err"
    and "sql_ok s" "NormalizeIdempotencyKey (io_IdempotencyKey opts) = Inr key" "key \<noteq> []"
    and "Execute (Some idempotencyRepository) std cfg now now2 opts (Some ex) s w = (s1, w1, Inr r)"
    and "\<not> rs_Replayed r" "std_marshal_data std (rs_Data r) = Inr raw"
    and "0 < ic_MaxStoredResponseLen cfg" "ic_MaxStoredResponseLen cfg < int (length (std_redact std raw))"
    and "list_all (same_key_before (io_Scope opts) key (time_add now (effective_ttl cfg opts))) cs"
    and "run_calls (Some idempotencyRepository) std cfg cs s1 w1 = (s2, w2, rs)"
  shows "list_all (\<lambda>res. \<exists>err. res = Inl err) rs"
proof -
  from pg.Execute_success [OF assms(2-6)] obtain x body where
    x: "sql_row s1 (io_Scope opts) (HashIdempotencyKey std key) = Some x"
      "ir_Status x = StatusSucceeded" "ir_ExpiresAt x = time_add now (effective_ttl cfg opts)"
      "ir_ResponseBody x = Some body" "marshalStoredResponse std cfg (rs_Data r) = Inr body"
    by blast
  obtain b where b: "body = b @ ''...(truncated)''"
    using x(5) assms(7-9) by (auto simp: marshalStoredResponse_def)
  have "trim_space body \<noteq> []"
    using trim_space_last [of "CHR '')''" "b @ ''...(truncated''"] by (simp add: b printable_def)
  then have "\<exists>err. decodeStoredResponse std (ir_ResponseBody x) = Inl err"
    using rejects [of b] b x(4) by (auto simp: decodeStoredResponse_def)
  then have no: "decodeStoredResponse std (ir_ResponseBody x) \<noteq> Inr d" for d by auto
  have cs: "list_all (same_key_before (io_Scope opts) key (ir_ExpiresAt x)) cs" using assms(10) x(3) by simp
  from pg.run_calls_succeeded [OF pg.Execute_inv [OF assms(2-5)] x(1) assms(4) x(2) cs assms(11)] no
  have "\<not> (\<exists>q. res = Inr q)" if "res \<in> set rs" for res using that by (auto simp: list_all_iff)
  then show ?thesis by (auto simp: list_all_iff) (metis sum.exhaust)
qed

section \<open>A concrete run\<close>

definition demo_std :: "(string, string) idem_std" where
  "demo_std = \<lparr>std_sha256_hex = (\<lambda>x. x), std_marshal_payload = Inr, std_marshal_data = Inr,
     std_unmarshal_data = (\<lambda>b. if b \<noteq> [] \<and> last b = CHR '')'' then Inl (PlainError ''invalid character'') else Inr b),
     std_empty_object = ''{}'', std_redact = (\<lambda>x. x)\<rparr>"

definition demo_cfg :: IdempotencyConfig where
  "demo_cfg = DefaultIdempotencyConfig\<lparr>ic_MaxStoredResponseLen := 2\<rparr>"

definition demo_opts :: "string IdempotencyExecuteOptions" where
  "demo_opts = \<lparr>io_Scope = ''pay'', io_ActorScope = ''u1'', io_Method = ''POST'', io_Route = ''/p'',
     io_IdempotencyKey = ''k'', io_Payload = ''{}'', io_TTL = 0, io_RequireKey = True\<rparr>"

definition empty_db :: sql_state where
  "empty_db = \<lparr>sq_rows = [], sq_next = 1, sq_now = 7, sq_faults = []\<rparr>"

text \<open>The executor counts its runs in the world.\<close>

definition demo_ex :: "string \<Rightarrow> nat \<Rightarrow> nat \<times> (goerror + string)" where
  "demo_ex body w = (Suc w, Inr body)"

definition demo_fail :: "nat \<Rightarrow> nat \<times> (goerror + string)" where
  "demo_fail w = (Suc w, Inl (PlainError ''boom''))"

lemma demo_key: "NormalizeIdempotencyKey (io_IdempotencyKey demo_opts) = Inr ''k''"
  by code_simp

lemma demo_fp: "\<exists>fp. BuildIdempotencyFingerprint demo_std (io_Method demo_opts) (io_Route demo_opts)
    (io_ActorScope demo_opts) (io_Payload demo_opts) = Inr fp"
  by (simp add: BuildIdempotencyFingerprint_def demo_std_def)

lemma demo_empty: "sql_ok empty_db" "sql_up empty_db" "sql_row empty_db a b = None"
  by (simp_all add: empty_db_def sql_ok_def sql_up_def sql_row_def)

lemma demo_scope: "io_Scope demo_opts \<noteq> []"
  by (simp add: demo_opts_def)

theorem Execute_new_key_succeeds_witness:
  "\<exists>s'. Execute (Some idempotencyRepository) demo_std demo_cfg 100 200 demo_opts (Some (demo_ex ''[]''))
      empty_db 0 = (s', 1, Inr \<lparr>rs_Data = ''[]'', rs_Replayed = False\<rparr>)"
proof -
  obtain fp where fp: "BuildIdempotencyFingerprint demo_std (io_Method demo_opts) (io_Route demo_opts)
    (io_ActorScope demo_opts) (io_Payload demo_opts) = Inr fp" using demo_fp by blast
  have ex: "demo_ex ''[]'' 0 = (1, Inr ''[]'')" by (simp add: demo_ex_def)
  have body: "marshalStoredResponse demo_std demo_cfg ''[]'' = Inr ''[]''"
    by (simp add: marshalStoredResponse_def demo_std_def demo_cfg_def)
  show ?thesis
    using Execute_new_key_succeeds [where ex = "demo_ex ''[]''" and w = 0, OF demo_empty(1,2) demo_empty(3)
      demo_key _ demo_scope fp ex body, of 100 200] by auto
qed

theorem Execute_failure_backs_off_witness:
  "\<exists>s' s''. Execute (Some idempotencyRepository) demo_std demo_cfg 100 200 demo_opts (Some demo_fail)
      empty_db 0 = (s', 1, Inl (PlainError ''boom''))
    \<and> Execute (Some idempotencyRepository) demo_std demo_cfg 300 400 demo_opts (Some demo_fail) s' 1 =
        (s'', 1, Inl (conflictWithRetryAfter ErrIdempotencyRetryBackoff (Some 5000000200) 300))"
proof -
  obtain fp where fp: "BuildIdempotencyFingerprint demo_std (io_Method demo_opts) (io_Route demo_opts)
    (io_ActorScope demo_opts) (io_Payload demo_opts) = Inr fp" using demo_fp by blast
  have cfg: "time_add 200 (ic_FailedRetryBackoff demo_cfg) = 5000000200"
    "time_add 100 (effective_ttl demo_cfg demo_opts) = 86400000000100"
    by (simp_all add: demo_cfg_def DefaultIdempotencyConfig_def effective_ttl_def demo_opts_def)
  have ex: "demo_fail 0 = (1, Inl (PlainError ''boom''))" by (simp add: demo_fail_def)
  show ?thesis
    using Execute_failure_backs_off [where ex = demo_fail and w = 0, OF demo_empty(1,2) demo_empty(3)
      demo_key _ demo_scope fp ex, of 300 200 demo_cfg 100 400 demo_fail]
    unfolding cfg by simp
qed

definition demo_db1 :: sql_state where
  "demo_db1 = fst (Execute (Some idempotencyRepository) demo_std demo_cfg 100 200 demo_opts
     (Some (demo_ex ''[]'')) empty_db 0)"

theorem Execute_exactly_once_witness:
  "fst (snd (run_calls (Some idempotencyRepository) demo_std demo_cfg
     [(300, 400, demo_opts, demo_ex ''no''), (500, 600, demo_opts\<lparr>io_Payload := ''x''\<rparr>, demo_fail)] demo_db1 1)) = 1"
proof -
  let ?cs = "[(300, 400, demo_opts, demo_ex ''no''), (500, 600, demo_opts\<lparr>io_Payload := ''x''\<rparr>, demo_fail)]"
  have run: "Execute (Some idempotencyRepository) demo_std demo_cfg 100 200 demo_opts (Some (demo_ex ''[]''))
      empty_db 0 = (demo_db1, 1, Inr \<lparr>rs_Data = ''[]'', rs_Replayed = False\<rparr>)"
    unfolding demo_db1_def by code_simp
  have cs: "list_all (same_key_before (io_Scope demo_opts) ''k'' (time_add 100 (effective_ttl demo_cfg demo_opts))) ?cs"
    by (simp add: same_key_before_def demo_key) (simp add: demo_opts_def effective_ttl_def demo_cfg_def
      DefaultIdempotencyConfig_def NormalizeIdempotencyKey_def)
  obtain s2 w2 rs where two: "run_calls (Some idempotencyRepository) demo_std demo_cfg ?cs demo_db1 1 = (s2, w2, rs)"
    by (metis prod_cases3)
  from Execute_exactly_once [OF demo_empty(1) demo_key _ run _ cs two] two show ?thesis by simp
qed

theorem Execute_only_with_claim_witness:
  "sql_ok demo_db1 \<and> (\<exists>s1 y. sql_row s1 (io_Scope demo_opts) (HashIdempotencyKey demo_std ''k'') = Some y
     \<and> ir_Status y = StatusProcessing)"
proof -
  have run: "Execute (Some idempotencyRepository) demo_std demo_cfg 100 200 demo_opts (Some (demo_ex ''[]''))
      empty_db 0 = (demo_db1, 1, Inr \<lparr>rs_Data = ''[]'', rs_Replayed = False\<rparr>)"
    unfolding demo_db1_def by code_simp
  from Execute_only_with_claim [OF demo_empty(1) demo_key _ run] show ?thesis
    by (auto simp: processing_row_def)
qed

definition demo_db2 :: sql_state where
  "demo_db2 = fst (Execute (Some idempotencyRepository) demo_std demo_cfg 100 200 demo_opts
     (Some (demo_ex ''[1]'')) empty_db 0)"

theorem Execute_truncated_not_replayed_witness:
  "list_all (\<lambda>res. \<exists>err. res = Inl err) (snd (snd (run_calls (Some idempotencyRepository) demo_std demo_cfg
     [(300, 400, demo_opts, demo_ex ''[1]'')] demo_db2 1)))"
proof -
  have rejects: "\<exists>err. std_unmarshal_data demo_std (b @ ''...(truncated)'') = Inl err" for b
    by (simp add: demo_std_def)
  have run: "Execute (Some idempotencyRepository) demo_std demo_cfg 100 200 demo_opts (Some (demo_ex ''[1]''))
      empty_db 0 = (demo_db2, 1, Inr \<lparr>rs_Data = ''[1]'', rs_Replayed = False\<rparr>)"
    unfolding demo_db2_def by code_simp
  have cs: "list_all (same_key_before (io_Scope demo_opts) ''k'' (time_add 100 (effective_ttl demo_cfg demo_opts)))
      [(300, 400, demo_opts, demo_ex ''[1]'')]"
    by (simp add: same_key_before_def demo_key)
      (simp add: demo_opts_def effective_ttl_def demo_cfg_def DefaultIdempotencyConfig_def)
  obtain s2 w2 rs where two: "run_calls (Some idempotencyRepository) demo_std demo_cfg
      [(300, 400, demo_opts, demo_ex ''[1]'')] demo_db2 1 = (s2, w2, rs)"
    by (metis prod_cases3)
  from Execute_truncated_not_replayed [OF rejects demo_empty(1) demo_key _ run _ _ _ _ cs two, of "''[1]''"] two
  show ?thesis by (simp add: demo_std_def demo_cfg_def)
qed

end
