(* ===== verification/Account_Pool.thy ===== *)
theory Account_Pool
  imports Go_Strings "HOL-Library.Multiset"
begin

text \<open>
  The retry settings of a pool account, from \<open>internal/service/account.go\<close>: pool mode, the
  number of retries on the same account, their delay and time budget, the status codes that are
  retried, and the rules of the upstream concurrency race.

  The settings live in \<open>Credentials\<close>, a \<open>map[string]any\<close> decoded from JSON or built by
  the administration API (\<open>goval\<close>). A receiver that may be nil is an \<open>option\<close>.
\<close>

section \<open>Accounts\<close>

definition PlatformOpenAI :: string where "PlatformOpenAI = ''openai''"
definition PlatformAntigravity :: string where "PlatformAntigravity = ''antigravity''"
definition AccountTypeAPIKey :: string where "AccountTypeAPIKey = ''apikey''"
definition AccountTypeBedrock :: string where "AccountTypeBedrock = ''bedrock''"

record Account =
  ac_ID :: int
  ac_Platform :: string
  ac_Type :: string
  ac_Credentials :: "(string, goval) gomap option"
  ac_ProxyID :: "int option"
  ac_Priority :: int

definition IsAPIKeyOrBedrock :: "Account \<Rightarrow> bool" where
  "IsAPIKeyOrBedrock a \<longleftrightarrow> ac_Type a = AccountTypeAPIKey \<or> ac_Type a = AccountTypeBedrock"

definition IsOpenAI :: "Account \<Rightarrow> bool" where
  "IsOpenAI a \<longleftrightarrow> ac_Platform a = PlatformOpenAI"

definition IsOpenAIApiKey :: "Account \<Rightarrow> bool" where
  "IsOpenAIApiKey a \<longleftrightarrow> IsOpenAI a \<and> ac_Type a = AccountTypeAPIKey"

definition credentialFlagTruthy :: "goval \<Rightarrow> bool" where
  "credentialFlagTruthy v =
     (case v of
        VBool b \<Rightarrow> b
      | VStr s \<Rightarrow> to_lower (trim_space s) \<in> {''true'', ''1'', ''yes'', ''y'', ''on''}
      | VInt i \<Rightarrow> i \<noteq> 0
      | VInt64 i \<Rightarrow> i \<noteq> 0
      | VFloat m _ \<Rightarrow> m \<noteq> 0
      | VNumber s \<Rightarrow> (case atoi s of None \<Rightarrow> False | Some i \<Rightarrow> i \<noteq> 0)
      | _ \<Rightarrow> False)"

definition IsPoolMode :: "Account \<Rightarrow> bool" where
  "IsPoolMode a =
     (case ac_Credentials a of
        None \<Rightarrow> False
      | Some c \<Rightarrow> IsAPIKeyOrBedrock a \<and> credentialFlagTruthy (any_get c ''pool_mode''))"

definition IsImagePoolMode :: "Account \<Rightarrow> bool" where
  "IsImagePoolMode a =
     (case ac_Credentials a of
        None \<Rightarrow> False
      | Some c \<Rightarrow> IsPoolMode a \<and> credentialFlagTruthy (any_get c ''image_pool_mode''))"

definition IsPoolSoftCooldownEnabled :: "Account option \<Rightarrow> bool" where
  "IsPoolSoftCooldownEnabled acc =
     (case acc of
        None \<Rightarrow> False
      | Some a \<Rightarrow>
          (if \<not> IsPoolMode a then False
           else case ac_Credentials a of
                  None \<Rightarrow> True
                | Some c \<Rightarrow>
                    (case gm_get c ''pool_soft_cooldown_enabled'' of
                       Some (VBool enabled) \<Rightarrow> enabled
                     | _ \<Rightarrow> True)))"

definition credentialBool :: "(string, goval) gomap option \<Rightarrow> string \<Rightarrow> bool" where
  "credentialBool credentials key =
     (case credentials of
        None \<Rightarrow> False
      | Some c \<Rightarrow> (case gm_get c key of Some (VBool enabled) \<Rightarrow> enabled | _ \<Rightarrow> False))"

section \<open>Race mode, counts, delays\<close>

definition defaultPoolModeRetryCount :: int where "defaultPoolModeRetryCount = 1"
definition maxPoolModeRetryCount :: int where "maxPoolModeRetryCount = 10"
definition defaultPoolModeRaceRetryCount :: int where "defaultPoolModeRaceRetryCount = 20"
definition maxPoolModeRaceRetryCount :: int where "maxPoolModeRaceRetryCount = 200"
definition defaultPoolSoftCooldownErrorThreshold :: int where "defaultPoolSoftCooldownErrorThreshold = 3"
definition maxPoolSoftCooldownErrorThreshold :: int where "maxPoolSoftCooldownErrorThreshold = 100"
definition defaultPoolModeSameAccountRetryDelay :: duration where
  "defaultPoolModeSameAccountRetryDelay = 500 * millisecond"
definition defaultPoolModeRaceRetryDelay :: duration where "defaultPoolModeRaceRetryDelay = 5 * millisecond"
definition minPoolModeSameAccountRetryDelay :: duration where
  "minPoolModeSameAccountRetryDelay = 1 * millisecond"
definition maxPoolModeSameAccountRetryDelay :: duration where
  "maxPoolModeSameAccountRetryDelay = 500 * millisecond"
definition defaultPoolModeSameAccountRetryMaxElapsed :: duration where
  "defaultPoolModeSameAccountRetryMaxElapsed = 1500 * millisecond"
definition minPoolModeSameAccountRetryMaxElapsed :: duration where
  "minPoolModeSameAccountRetryMaxElapsed = 500 * millisecond"
definition maxPoolModeSameAccountRetryMaxElapsed :: duration where
  "maxPoolModeSameAccountRetryMaxElapsed = 30 * second"

definition IsOpenAIUpstreamConcurrencyRaceEnabled :: "Account option \<Rightarrow> bool" where
  "IsOpenAIUpstreamConcurrencyRaceEnabled acc =
     (case acc of
        None \<Rightarrow> False
      | Some a \<Rightarrow>
          (if \<not> IsOpenAIApiKey a \<or> \<not> IsPoolMode a \<or> IsImagePoolMode a then False
           else case ac_Credentials a of
                  None \<Rightarrow> False
                | Some c \<Rightarrow> any_get c ''upstream_concurrency_race_enabled'' = VBool True))"

definition parsePoolModeRetryCount :: "goval \<Rightarrow> int option" where
  "parsePoolModeRetryCount v =
     (case v of
        VInt i \<Rightarrow> Some i
      | VInt64 i \<Rightarrow> Some i
      | VFloat m e \<Rightarrow> Some (float_trunc m e)
      | VNumber s \<Rightarrow> atoi s
      | VStr s \<Rightarrow> atoi (trim_space s)
      | _ \<Rightarrow> None)"

definition parsePoolSoftCooldownErrorThreshold :: "goval \<Rightarrow> int option" where
  "parsePoolSoftCooldownErrorThreshold v =
     (case v of
        VInt i \<Rightarrow> Some i
      | VInt64 i \<Rightarrow> Some i
      | VFloat m e \<Rightarrow> Some (float_trunc m e)
      | VNumber s \<Rightarrow> atoi s
      | VStr s \<Rightarrow> atoi (trim_space s)
      | _ \<Rightarrow> None)"

definition parsePoolModeRetryDelayMillis :: "goval \<Rightarrow> int option" where
  "parsePoolModeRetryDelayMillis v =
     (case v of
        VInt i \<Rightarrow> Some i
      | VInt64 i \<Rightarrow> Some i
      | VFloat m e \<Rightarrow> Some (float_trunc m e)
      | VNumber s \<Rightarrow> atoi s
      | VStr s \<Rightarrow> atoi (trim_space s)
      | _ \<Rightarrow> None)"

definition GetPoolModeRetryCount :: "Account option \<Rightarrow> int" where
  "GetPoolModeRetryCount acc =
     (case acc of
        None \<Rightarrow> defaultPoolModeRetryCount
      | Some a \<Rightarrow>
          (case ac_Credentials a of
             None \<Rightarrow> defaultPoolModeRetryCount
           | Some c \<Rightarrow>
               (if \<not> IsPoolMode a then defaultPoolModeRetryCount
                else
                  (let raceEnabled = IsOpenAIUpstreamConcurrencyRaceEnabled acc;
                       defaultCount = (if raceEnabled then defaultPoolModeRaceRetryCount else defaultPoolModeRetryCount);
                       maxCount = (if raceEnabled then maxPoolModeRaceRetryCount else maxPoolModeRetryCount);
                       retryCountKey = (if raceEnabled then ''upstream_concurrency_race_retry_count''
                                        else ''pool_mode_retry_count'');
                       raw = any_get c retryCountKey
                   in if raw = VNil then defaultCount
                      else case parsePoolModeRetryCount raw of
                             None \<Rightarrow> defaultCount
                           | Some cnt \<Rightarrow>
                               (if raceEnabled \<and> cnt < 1 then 1
                                else if \<not> raceEnabled \<and> cnt < 0 then 0
                                else if maxCount < cnt then maxCount
                                else cnt)))))"

definition GetPoolSoftCooldownErrorThreshold :: "Account option \<Rightarrow> int" where
  "GetPoolSoftCooldownErrorThreshold acc =
     (case acc of
        None \<Rightarrow> defaultPoolSoftCooldownErrorThreshold
      | Some a \<Rightarrow>
          (case ac_Credentials a of
             None \<Rightarrow> defaultPoolSoftCooldownErrorThreshold
           | Some c \<Rightarrow>
               (if \<not> IsPoolMode a then defaultPoolSoftCooldownErrorThreshold
                else
                  (let raw = any_get c ''pool_soft_cooldown_error_threshold'' in
                   if raw = VNil then defaultPoolSoftCooldownErrorThreshold
                   else case parsePoolSoftCooldownErrorThreshold raw of
                          None \<Rightarrow> defaultPoolSoftCooldownErrorThreshold
                        | Some threshold \<Rightarrow>
                            (if threshold < 1 then defaultPoolSoftCooldownErrorThreshold
                             else if maxPoolSoftCooldownErrorThreshold < threshold
                               then maxPoolSoftCooldownErrorThreshold
                             else threshold)))))"

text \<open>Race mode implies that the account and its credentials are not nil; \<open>race_credentials\<close> reads
  the credentials of an account that has it.\<close>

definition race_credentials :: "Account option \<Rightarrow> (string, goval) gomap" where
  "race_credentials acc =
     (case acc of None \<Rightarrow> [] | Some a \<Rightarrow> (case ac_Credentials a of None \<Rightarrow> [] | Some c \<Rightarrow> c))"

definition GetPoolModeSameAccountRetryDelay :: "Account option \<Rightarrow> duration" where
  "GetPoolModeSameAccountRetryDelay acc =
     (if \<not> IsOpenAIUpstreamConcurrencyRaceEnabled acc then defaultPoolModeSameAccountRetryDelay
      else
        (let raw = any_get (race_credentials acc) ''upstream_concurrency_race_retry_delay_ms'' in
         if raw = VNil then defaultPoolModeRaceRetryDelay
         else case parsePoolModeRetryDelayMillis raw of
                None \<Rightarrow> defaultPoolModeRaceRetryDelay
              | Some delayMs \<Rightarrow>
                  (if delayMs < 1 then minPoolModeSameAccountRetryDelay
                   else
                     (let delay = i64 (delayMs * millisecond) in
                      if delay < minPoolModeSameAccountRetryDelay then minPoolModeSameAccountRetryDelay
                      else if maxPoolModeSameAccountRetryDelay < delay then maxPoolModeSameAccountRetryDelay
                      else delay))))"

definition GetPoolModeSameAccountRetryMaxElapsed :: "Account option \<Rightarrow> duration" where
  "GetPoolModeSameAccountRetryMaxElapsed acc =
     (if \<not> IsOpenAIUpstreamConcurrencyRaceEnabled acc then 0
      else
        (let raw = any_get (race_credentials acc) ''upstream_concurrency_race_max_elapsed_ms'' in
         if raw = VNil then defaultPoolModeSameAccountRetryMaxElapsed
         else case parsePoolModeRetryDelayMillis raw of
                None \<Rightarrow> defaultPoolModeSameAccountRetryMaxElapsed
              | Some elapsedMs \<Rightarrow>
                  (if elapsedMs \<le> 0 then defaultPoolModeSameAccountRetryMaxElapsed
                   else
                     (let elapsed = i64 (elapsedMs * millisecond) in
                      if elapsed < minPoolModeSameAccountRetryMaxElapsed then minPoolModeSameAccountRetryMaxElapsed
                      else if maxPoolModeSameAccountRetryMaxElapsed < elapsed then maxPoolModeSameAccountRetryMaxElapsed
                      else elapsed))))"

section \<open>Status codes\<close>

definition defaultPoolModeRetryableStatusCodes :: "int list" where
  "defaultPoolModeRetryableStatusCodes = [401, 403, 429]"

definition isPoolModeRetryableStatus :: "int \<Rightarrow> bool" where
  "isPoolModeRetryableStatus statusCode \<longleftrightarrow> statusCode \<in> set defaultPoolModeRetryableStatusCodes"

definition status_code_of :: "goval \<Rightarrow> int option" where
  "status_code_of v =
     (case v of
        VFloat m e \<Rightarrow> Some (float_trunc m e)
      | VInt n \<Rightarrow> Some n
      | VInt64 n \<Rightarrow> Some n
      | VNumber s \<Rightarrow> atoi s
      | VStr s \<Rightarrow> atoi (trim_space s)
      | _ \<Rightarrow> None)"

text \<open>The loop of \<open>GetPoolModeRetryStatusCodes\<close>; \<open>codes\<close> doubles as the set \<open>seen\<close>.\<close>

fun collect_codes :: "goval list \<Rightarrow> int list \<Rightarrow> int list" where
  "collect_codes [] codes = codes"
| "collect_codes (v # vs) codes =
     (case status_code_of v of
        None \<Rightarrow> collect_codes vs codes
      | Some code \<Rightarrow>
          (if code < 100 \<or> 599 < code then collect_codes vs codes
           else if code \<in> set codes then collect_codes vs codes
           else collect_codes vs (codes @ [code])))"

definition GetPoolModeRetryStatusCodes :: "Account option \<Rightarrow> int list option" where
  "GetPoolModeRetryStatusCodes acc =
     (case acc of
        None \<Rightarrow> None
      | Some a \<Rightarrow>
          (case ac_Credentials a of
             None \<Rightarrow> None
           | Some c \<Rightarrow>
               (case any_get c ''pool_mode_retry_status_codes'' of
                  VList arr \<Rightarrow> Some (sort (collect_codes arr []))
                | _ \<Rightarrow> None)))"

section \<open>Race rules\<close>

record OpenAIUpstreamConcurrencyRaceHTTPRule =
  rule_Matcher :: string
  rule_MaxRetries :: int

definition mk_rule :: "string \<Rightarrow> int \<Rightarrow> OpenAIUpstreamConcurrencyRaceHTTPRule" where
  "mk_rule m n = \<lparr>rule_Matcher = m, rule_MaxRetries = n\<rparr>"

definition defaultOpenAIUpstreamConcurrencyRaceHTTPRules :: "OpenAIUpstreamConcurrencyRaceHTTPRule list" where
  "defaultOpenAIUpstreamConcurrencyRaceHTTPRules =
     [mk_rule ''401'' 1, mk_rule ''403'' 1, mk_rule ''408'' 2, mk_rule ''429'' 10,
      mk_rule ''5xx'' 2, mk_rule ''502'' 1, mk_rule ''503'' 3]"

definition maxOpenAIUpstreamConcurrencyRaceRuleRetries :: int where
  "maxOpenAIUpstreamConcurrencyRaceRuleRetries = 200"

definition normalizeOpenAIUpstreamConcurrencyRaceMatcher :: "string \<Rightarrow> string" where
  "normalizeOpenAIUpstreamConcurrencyRaceMatcher raw0 =
     (let raw = to_lower (trim_space raw0) in
      if raw = ''5xx'' then raw
      else if length raw \<noteq> 3 then ''''
      else if \<not> list_all (\<lambda>ch. digit_value ch \<noteq> None) raw then ''''
      else case atoi raw of
             None \<Rightarrow> ''''
           | Some code \<Rightarrow> (if code < 100 \<or> 599 < code then '''' else raw))"

text \<open>Byte-wise comparison of strings and the order of the rules: by matcher, the family last.\<close>

fun str_less :: "string \<Rightarrow> string \<Rightarrow> bool" where
  "str_less _ [] = False"
| "str_less [] (_ # _) = True"
| "str_less (a # s) (b # t) =
     ((of_char a :: nat) < of_char b \<or> (a = b \<and> str_less s t))"

definition rule_less ::
  "OpenAIUpstreamConcurrencyRaceHTTPRule \<Rightarrow> OpenAIUpstreamConcurrencyRaceHTTPRule \<Rightarrow> bool" where
  "rule_less r q =
     (if rule_Matcher r = ''5xx'' then False
      else if rule_Matcher q = ''5xx'' then True
      else str_less (rule_Matcher r) (rule_Matcher q))"

fun insert_rule where
  "insert_rule r [] = [r]"
| "insert_rule r (q # qs) = (if rule_less q r then q # insert_rule r qs else r # q # qs)"

definition sort_rules ::
  "OpenAIUpstreamConcurrencyRaceHTTPRule list \<Rightarrow> OpenAIUpstreamConcurrencyRaceHTTPRule list" where
  "sort_rules rs = foldr insert_rule rs []"

fun collect_rules ::
  "goval list \<Rightarrow> OpenAIUpstreamConcurrencyRaceHTTPRule list \<Rightarrow> OpenAIUpstreamConcurrencyRaceHTTPRule list" where
  "collect_rules [] rules = rules"
| "collect_rules (item # items) rules =
     (case item of
        VMap obj \<Rightarrow>
          (let matcher0 = (case any_get obj ''matcher'' of VStr m \<Rightarrow> m | _ \<Rightarrow> '''');
               matcher = normalizeOpenAIUpstreamConcurrencyRaceMatcher matcher0
           in if matcher = '''' then collect_rules items rules
              else if \<exists>r \<in> set rules. rule_Matcher r = matcher then collect_rules items rules
              else case parsePoolModeRetryCount (any_get obj ''max_retries'') of
                     None \<Rightarrow> collect_rules items rules
                   | Some n \<Rightarrow>
                       (let n1 = (if n < 0 then 0 else n);
                            n2 = (if maxOpenAIUpstreamConcurrencyRaceRuleRetries < n1
                                  then maxOpenAIUpstreamConcurrencyRaceRuleRetries else n1)
                        in collect_rules items (rules @ [mk_rule matcher n2])))
      | _ \<Rightarrow> collect_rules items rules)"

definition parseOpenAIUpstreamConcurrencyRaceHTTPRules ::
  "goval \<Rightarrow> OpenAIUpstreamConcurrencyRaceHTTPRule list \<times> bool" where
  "parseOpenAIUpstreamConcurrencyRaceHTTPRules raw =
     (case raw of
        VList items \<Rightarrow>
          (if items = [] then ([], True)
           else (let rules = sort_rules (collect_rules items []) in (rules, rules \<noteq> [])))
      | _ \<Rightarrow> ([], False))"

definition GetOpenAIUpstreamConcurrencyRaceHTTPRules ::
  "Account option \<Rightarrow> OpenAIUpstreamConcurrencyRaceHTTPRule list" where
  "GetOpenAIUpstreamConcurrencyRaceHTTPRules acc =
     (case acc of
        None \<Rightarrow> defaultOpenAIUpstreamConcurrencyRaceHTTPRules
      | Some a \<Rightarrow>
          (case ac_Credentials a of
             None \<Rightarrow> defaultOpenAIUpstreamConcurrencyRaceHTTPRules
           | Some c \<Rightarrow>
               (let raw = any_get c ''upstream_concurrency_race_http_rules'' in
                if raw = VNil then defaultOpenAIUpstreamConcurrencyRaceHTTPRules
                else case parseOpenAIUpstreamConcurrencyRaceHTTPRules raw of
                       (rules, valid) \<Rightarrow>
                         (if \<not> valid then defaultOpenAIUpstreamConcurrencyRaceHTTPRules else rules))))"

text \<open>The loop over the rules keeps the family that it has seen and returns at an exact match.\<close>

fun find_rule ::
  "int \<Rightarrow> (string \<times> int) option \<Rightarrow> OpenAIUpstreamConcurrencyRaceHTTPRule list \<Rightarrow> (string \<times> int) option" where
  "find_rule statusCode family [] = family"
| "find_rule statusCode family (rule # rules) =
     (if rule_Matcher rule = itoa statusCode then Some (rule_Matcher rule, rule_MaxRetries rule)
      else if rule_Matcher rule = ''5xx'' \<and> 500 \<le> statusCode
        then find_rule statusCode (Some (rule_Matcher rule, rule_MaxRetries rule)) rules
      else find_rule statusCode family rules)"

definition GetOpenAIUpstreamConcurrencyRaceHTTPRule :: "Account option \<Rightarrow> int \<Rightarrow> (string \<times> int) option" where
  "GetOpenAIUpstreamConcurrencyRaceHTTPRule acc statusCode =
     (if statusCode < 100 \<or> 599 < statusCode then None
      else find_rule statusCode None (GetOpenAIUpstreamConcurrencyRaceHTTPRules acc))"

definition IsPoolModeRetryableStatus :: "Account option \<Rightarrow> int \<Rightarrow> bool" where
  "IsPoolModeRetryableStatus acc statusCode =
     (if IsOpenAIUpstreamConcurrencyRaceEnabled acc then
        (case GetOpenAIUpstreamConcurrencyRaceHTTPRule acc statusCode of
           None \<Rightarrow> False
         | Some (_, maxRetries) \<Rightarrow> 0 < maxRetries)
      else
        (case GetPoolModeRetryStatusCodes acc of
           None \<Rightarrow> isPoolModeRetryableStatus statusCode
         | Some codes \<Rightarrow> statusCode \<in> set codes))"

definition IsOpenAIUpstreamConcurrencyRaceTransportRetryEnabled :: "Account option \<Rightarrow> bool" where
  "IsOpenAIUpstreamConcurrencyRaceTransportRetryEnabled acc =
     (if \<not> IsOpenAIUpstreamConcurrencyRaceEnabled acc then False
      else case any_get (race_credentials acc) ''upstream_concurrency_race_transport_enabled'' of
             VBool enabled \<Rightarrow> enabled
           | _ \<Rightarrow> True)"

definition GetOpenAIUpstreamConcurrencyRaceTransportRetryCount :: "Account option \<Rightarrow> int" where
  "GetOpenAIUpstreamConcurrencyRaceTransportRetryCount acc =
     (if \<not> IsOpenAIUpstreamConcurrencyRaceEnabled acc then 0
      else
        (let raw = any_get (race_credentials acc) ''upstream_concurrency_race_transport_retry_count'' in
         if raw = VNil then 1
         else case parsePoolModeRetryCount raw of
                None \<Rightarrow> 1
              | Some cnt \<Rightarrow>
                  (if cnt < 0 then 1
                   else if maxOpenAIUpstreamConcurrencyRaceRuleRetries < cnt
                     then maxOpenAIUpstreamConcurrencyRaceRuleRetries
                   else cnt)))"

definition OpenAIUpstreamConcurrencyRaceRetryRule :: "Account option \<Rightarrow> int \<Rightarrow> (string \<times> int) option" where
  "OpenAIUpstreamConcurrencyRaceRetryRule acc statusCode =
     (if \<not> IsOpenAIUpstreamConcurrencyRaceEnabled acc then None
      else if statusCode = 0 then
        (if \<not> IsOpenAIUpstreamConcurrencyRaceTransportRetryEnabled acc then None
         else Some (''transport'', GetOpenAIUpstreamConcurrencyRaceTransportRetryCount acc))
      else GetOpenAIUpstreamConcurrencyRaceHTTPRule acc statusCode)"

definition IsPoolModeBuiltinRetryEnabled :: "Account option \<Rightarrow> bool" where
  "IsPoolModeBuiltinRetryEnabled acc =
     (case acc of
        None \<Rightarrow> False
      | Some a \<Rightarrow>
          (case ac_Credentials a of
             None \<Rightarrow> False
           | Some c \<Rightarrow>
               (if \<not> IsPoolMode a then False
                else if IsOpenAIUpstreamConcurrencyRaceEnabled acc then False
                else case any_get c ''pool_mode_builtin_retry_enabled'' of
                       VBool enabled \<Rightarrow> enabled
                     | _ \<Rightarrow> True)))"

section \<open>Custom error codes\<close>

definition IsCustomErrorCodesEnabled :: "Account \<Rightarrow> bool" where
  "IsCustomErrorCodesEnabled a =
     (case ac_Credentials a of
        None \<Rightarrow> False
      | Some c \<Rightarrow>
          (if ac_Type a \<noteq> AccountTypeAPIKey then False
           else case gm_get c ''custom_error_codes_enabled'' of
                  Some (VBool enabled) \<Rightarrow> enabled
                | _ \<Rightarrow> False))"

definition GetCustomErrorCodes :: "Account \<Rightarrow> int list" where
  "GetCustomErrorCodes a =
     (case ac_Credentials a of
        None \<Rightarrow> []
      | Some c \<Rightarrow>
          (case any_get c ''custom_error_codes'' of
             VList arr \<Rightarrow> List.map_filter (\<lambda>v. case v of VFloat m e \<Rightarrow> Some (float_trunc m e) | _ \<Rightarrow> None) arr
           | _ \<Rightarrow> []))"

definition ShouldHandleErrorCode :: "Account \<Rightarrow> int \<Rightarrow> bool" where
  "ShouldHandleErrorCode a statusCode =
     (if \<not> IsCustomErrorCodesEnabled a then True
      else
        (let codes = GetCustomErrorCodes a in
         if codes = [] then True else statusCode \<in> set codes))"

section \<open>Bounds of the settings\<close>

lemmas pool_constants = defaultPoolModeRetryCount_def maxPoolModeRetryCount_def
  defaultPoolModeRaceRetryCount_def maxPoolModeRaceRetryCount_def
  defaultPoolSoftCooldownErrorThreshold_def maxPoolSoftCooldownErrorThreshold_def
  defaultPoolModeSameAccountRetryDelay_def defaultPoolModeRaceRetryDelay_def
  minPoolModeSameAccountRetryDelay_def maxPoolModeSameAccountRetryDelay_def
  defaultPoolModeSameAccountRetryMaxElapsed_def minPoolModeSameAccountRetryMaxElapsed_def
  maxPoolModeSameAccountRetryMaxElapsed_def maxOpenAIUpstreamConcurrencyRaceRuleRetries_def

lemma race_pool_mode:
  "IsOpenAIUpstreamConcurrencyRaceEnabled acc \<Longrightarrow> \<exists>a. acc = Some a \<and> IsPoolMode a \<and> IsOpenAI a"
  by (auto simp: IsOpenAIUpstreamConcurrencyRaceEnabled_def IsOpenAIApiKey_def split: option.splits if_splits)

lemma retry_count_bounds:
  "0 \<le> GetPoolModeRetryCount acc"
  "IsOpenAIUpstreamConcurrencyRaceEnabled acc \<Longrightarrow>
     1 \<le> GetPoolModeRetryCount acc \<and> GetPoolModeRetryCount acc \<le> 200"
  "\<not> IsOpenAIUpstreamConcurrencyRaceEnabled acc \<Longrightarrow> GetPoolModeRetryCount acc \<le> 10"
  by (auto simp: GetPoolModeRetryCount_def pool_constants Let_def split: option.splits)

lemma retry_delay_bounds:
  "1 * millisecond \<le> GetPoolModeSameAccountRetryDelay acc"
  "GetPoolModeSameAccountRetryDelay acc \<le> 500 * millisecond"
  by (auto simp: GetPoolModeSameAccountRetryDelay_def pool_constants Let_def split: option.splits)

lemma retry_max_elapsed_bounds:
  "\<not> IsOpenAIUpstreamConcurrencyRaceEnabled acc \<Longrightarrow> GetPoolModeSameAccountRetryMaxElapsed acc = 0"
  "IsOpenAIUpstreamConcurrencyRaceEnabled acc \<Longrightarrow>
     500 * millisecond \<le> GetPoolModeSameAccountRetryMaxElapsed acc
     \<and> GetPoolModeSameAccountRetryMaxElapsed acc \<le> 30 * second"
  by (auto simp: GetPoolModeSameAccountRetryMaxElapsed_def pool_constants Let_def split: option.splits)

text \<open>Whatever an administrator stores in the credentials, of whatever type and size (a product
  that overflows \<open>int64\<close> included), the settings that drive the retry loop stay in their
  documented ranges: at most 10 retries, or between 1 and 200 in race mode; a delay between 1 and
  500 milliseconds; a time budget between 500 milliseconds and 30 seconds exactly in race mode; a
  cooldown threshold between 1 and 100.\<close>

theorem pool_settings_bounds:
  "(let race = IsOpenAIUpstreamConcurrencyRaceEnabled acc; n = GetPoolModeRetryCount acc;
        d = GetPoolModeSameAccountRetryDelay acc; e = GetPoolModeSameAccountRetryMaxElapsed acc;
        t = GetPoolSoftCooldownErrorThreshold acc
    in (if race then 1 \<le> n \<and> n \<le> 200 else 0 \<le> n \<and> n \<le> 10)
       \<and> (1000000 \<le> d \<and> d \<le> 500000000)
       \<and> (if race then 500000000 \<le> e \<and> e \<le> 30000000000 else e = 0)
       \<and> (1 \<le> t \<and> t \<le> 100))"
proof -
  have "1 \<le> GetPoolSoftCooldownErrorThreshold acc" "GetPoolSoftCooldownErrorThreshold acc \<le> 100"
    by (auto simp: GetPoolSoftCooldownErrorThreshold_def pool_constants Let_def split: option.splits)
  then show ?thesis
    using retry_count_bounds [of acc] retry_delay_bounds [of acc] retry_max_elapsed_bounds [of acc]
    by (simp add: Let_def)
qed

section \<open>Normalised status codes\<close>

lemma collect_codes_spec:
  "distinct codes \<Longrightarrow> distinct (collect_codes vs codes)
   \<and> set (collect_codes vs codes) = set codes \<union> {c. 100 \<le> c \<and> c \<le> 599 \<and> (\<exists>v \<in> set vs. status_code_of v = Some c)}"
  by (induction vs codes rule: collect_codes.induct) (auto split: option.splits)

text \<open>A configured list of status codes is normalised to the valid HTTP codes it contains, each
  once and in increasing order; an account without race mode retries exactly those codes, so none
  when the list is explicitly empty.\<close>

theorem retry_status_codes_spec:
  assumes "ac_Credentials a = Some c" "any_get c ''pool_mode_retry_status_codes'' = VList vs"
  shows "\<exists>codes. GetPoolModeRetryStatusCodes (Some a) = Some codes \<and> sorted_wrt (<) codes
    \<and> set codes = {k. 100 \<le> k \<and> k \<le> 599 \<and> (\<exists>v \<in> set vs. status_code_of v = Some k)}
    \<and> (\<not> IsOpenAIUpstreamConcurrencyRaceEnabled (Some a) \<longrightarrow>
         (\<forall>k. IsPoolModeRetryableStatus (Some a) k = (k \<in> set codes)))"
proof -
  let ?codes = "sort (collect_codes vs [])"
  have codes: "GetPoolModeRetryStatusCodes (Some a) = Some ?codes"
    using assms by (simp add: GetPoolModeRetryStatusCodes_def)
  have "sorted_wrt (<) ?codes"
    using collect_codes_spec [of "[]" vs] by (simp add: strict_sorted_iff)
  moreover have "set ?codes = {k. 100 \<le> k \<and> k \<le> 599 \<and> (\<exists>v \<in> set vs. status_code_of v = Some k)}"
    using collect_codes_spec [of "[]" vs] by simp
  ultimately show ?thesis using codes by (simp add: IsPoolModeRetryableStatus_def)
qed

theorem retry_status_codes_spec_witness:
  "\<exists>codes. GetPoolModeRetryStatusCodes (Some \<lparr>ac_ID = 1, ac_Platform = ''openai'', ac_Type = ''apikey'',
     ac_Credentials = Some [(''pool_mode_retry_status_codes'',
       VList [VStr '' 503 '', VFloat 429 0, VNumber ''503'', VInt 42, VBool True])], ac_ProxyID = None, ac_Priority = 0\<rparr>) = Some codes
   \<and> sorted_wrt (<) codes"
  using retry_status_codes_spec [of "\<lparr>ac_ID = 1, ac_Platform = ''openai'', ac_Type = ''apikey'',
     ac_Credentials = Some [(''pool_mode_retry_status_codes'',
       VList [VStr '' 503 '', VFloat 429 0, VNumber ''503'', VInt 42, VBool True])], ac_ProxyID = None, ac_Priority = 0\<rparr>"
     "[(''pool_mode_retry_status_codes'',
       VList [VStr '' 503 '', VFloat 429 0, VNumber ''503'', VInt 42, VBool True])]"
     "[VStr '' 503 '', VFloat 429 0, VNumber ''503'', VInt 42, VBool True]"]
  by (auto simp: any_get_def gm_getd_def gm_get_def)

section \<open>Invariant of the race rules\<close>

definition matcher_ok :: "string \<Rightarrow> bool" where
  "matcher_ok m \<longleftrightarrow> m = ''5xx'' \<or>
     (length m = 3 \<and> (case atoi m of None \<Rightarrow> False | Some k \<Rightarrow> 100 \<le> k \<and> k \<le> 599))"

definition rules_ok :: "OpenAIUpstreamConcurrencyRaceHTTPRule list \<Rightarrow> bool" where
  "rules_ok rules \<longleftrightarrow> distinct (map rule_Matcher rules)
     \<and> list_all (\<lambda>r. matcher_ok (rule_Matcher r) \<and> 0 \<le> rule_MaxRetries r \<and> rule_MaxRetries r \<le> 200) rules"

lemma normalize_matcher_ok:
  "normalizeOpenAIUpstreamConcurrencyRaceMatcher raw = m \<Longrightarrow> m \<noteq> [] \<Longrightarrow> matcher_ok m"
  by (auto simp: normalizeOpenAIUpstreamConcurrencyRaceMatcher_def matcher_ok_def Let_def
      split: if_splits option.splits)

lemma rules_ok_snoc:
  "rules_ok rules \<Longrightarrow> matcher_ok m \<Longrightarrow> \<not> (\<exists>r \<in> set rules. rule_Matcher r = m) \<Longrightarrow> 0 \<le> n \<Longrightarrow> n \<le> 200 \<Longrightarrow>
   rules_ok (rules @ [mk_rule m n])"
  by (auto simp: rules_ok_def mk_rule_def)

lemma collect_rules_ok: "rules_ok rules \<Longrightarrow> rules_ok (collect_rules items rules)"
proof (induction items arbitrary: rules)
  case Nil
  then show ?case by simp
next
  case (Cons item items)
  show ?case
  proof (cases item)
    case (VMap obj)
    define m where "m = normalizeOpenAIUpstreamConcurrencyRaceMatcher
      (case any_get obj ''matcher'' of VStr m \<Rightarrow> m | _ \<Rightarrow> '''')"
    have "rules_ok (rules @ [mk_rule m n])"
      if "m \<noteq> []" "\<not> (\<exists>r \<in> set rules. rule_Matcher r = m)" "0 \<le> n" "n \<le> 200" for n
      using rules_ok_snoc [OF Cons.prems] normalize_matcher_ok [OF m_def [symmetric]] that by blast
    with Cons VMap show ?thesis
      by (simp add: Let_def pool_constants flip: m_def split: option.splits)
  qed (use Cons in simp_all)
qed

lemma mset_insert_rule: "mset (insert_rule r qs) = add_mset r (mset qs)"
  by (induction r qs rule: insert_rule.induct) auto

lemma mset_sort_rules: "mset (sort_rules rs) = mset rs"
  unfolding sort_rules_def by (induction rs) (simp_all add: mset_insert_rule)

lemma rules_ok_mset: "mset rs = mset qs \<Longrightarrow> rules_ok rs = rules_ok qs"
proof -
  assume eq: "mset rs = mset qs"
  then have "mset (map rule_Matcher rs) = mset (map rule_Matcher qs)" by simp
  then have "distinct (map rule_Matcher rs) = distinct (map rule_Matcher qs)" by (rule mset_eq_imp_distinct_iff)
  with mset_eq_setD [OF eq] show ?thesis by (simp add: rules_ok_def list_all_iff)
qed

lemma default_rules_ok: "rules_ok defaultOpenAIUpstreamConcurrencyRaceHTTPRules"
  by code_simp

lemma race_rules_ok: "rules_ok (GetOpenAIUpstreamConcurrencyRaceHTTPRules acc)"
proof -
  have nil: "rules_ok []" by (simp add: rules_ok_def)
  have "rules_ok (sort_rules (collect_rules items []))" for items
    using rules_ok_mset [OF mset_sort_rules] collect_rules_ok [OF nil] by blast
  with nil show ?thesis
    by (auto simp: GetOpenAIUpstreamConcurrencyRaceHTTPRules_def parseOpenAIUpstreamConcurrencyRaceHTTPRules_def
        Let_def default_rules_ok split: option.splits goval.splits)
qed

lemma find_rule_spec:
  "distinct (map rule_Matcher rules) \<Longrightarrow>
   find_rule k family rules =
     (case find (\<lambda>r. rule_Matcher r = itoa k) rules of
        Some r \<Rightarrow> Some (rule_Matcher r, rule_MaxRetries r)
      | None \<Rightarrow>
          (case (if 500 \<le> k then find (\<lambda>r. rule_Matcher r = ''5xx'') rules else None) of
             Some r \<Rightarrow> Some (rule_Matcher r, rule_MaxRetries r)
           | None \<Rightarrow> family))"
proof (induction k family rules rule: find_rule.induct)
  case (1 k family)
  then show ?case by simp
next
  case (2 k family rule rules)
  have "find (\<lambda>r. rule_Matcher r = ''5xx'') rules = None" if "rule_Matcher rule = ''5xx''"
    using that "2.prems" by (force simp: find_None_iff)
  with 2 show ?case by (auto split: option.splits)
qed

text \<open>The rule that a race retry is counted under. A status code is matched by the rule with
  exactly that code when there is one, wherever it stands in the list; else, from 500 on, by the
  \<open>5xx\<close> family; else it is not retried. The allowance of a rule is between 0 and 200.\<close>

theorem race_rule_precedence:
  "(let rules = GetOpenAIUpstreamConcurrencyRaceHTTPRules acc;
        res = GetOpenAIUpstreamConcurrencyRaceHTTPRule acc k
    in res =
         (if k < 100 \<or> 599 < k then None
          else map_option (\<lambda>r. (rule_Matcher r, rule_MaxRetries r))
            (case find (\<lambda>r. rule_Matcher r = itoa k) rules of
               Some r \<Rightarrow> Some r
             | None \<Rightarrow> (if 500 \<le> k then find (\<lambda>r. rule_Matcher r = ''5xx'') rules else None)))
       \<and> (case res of None \<Rightarrow> True | Some (key, n) \<Rightarrow> key \<noteq> [] \<and> 0 \<le> n \<and> n \<le> 200))"
proof -
  let ?rules = "GetOpenAIUpstreamConcurrencyRaceHTTPRules acc"
  have ok: "distinct (map rule_Matcher ?rules)"
    "\<And>r. r \<in> set ?rules \<Longrightarrow> rule_Matcher r \<noteq> [] \<and> 0 \<le> rule_MaxRetries r \<and> rule_MaxRetries r \<le> 200"
    using race_rules_ok [of acc] by (auto simp: rules_ok_def matcher_ok_def list_all_iff)
  have mem: "find P ?rules = Some r \<Longrightarrow> r \<in> set ?rules" for P r by (auto simp: find_Some_iff)
  have res: "GetOpenAIUpstreamConcurrencyRaceHTTPRule acc k =
     (if k < 100 \<or> 599 < k then None
      else map_option (\<lambda>r. (rule_Matcher r, rule_MaxRetries r))
        (case find (\<lambda>r. rule_Matcher r = itoa k) ?rules of
           Some r \<Rightarrow> Some r
         | None \<Rightarrow> (if 500 \<le> k then find (\<lambda>r. rule_Matcher r = ''5xx'') ?rules else None)))"
    using find_rule_spec [OF ok(1)]
    by (auto simp: GetOpenAIUpstreamConcurrencyRaceHTTPRule_def split: option.splits)
  moreover have "case GetOpenAIUpstreamConcurrencyRaceHTTPRule acc k of
      None \<Rightarrow> True | Some (key, n) \<Rightarrow> key \<noteq> [] \<and> 0 \<le> n \<and> n \<le> 200"
    unfolding res using ok(2) mem by (auto split: option.splits if_splits)
  ultimately show ?thesis by (simp add: Let_def)
qed

lemma race_retry_rule_bounds:
  "OpenAIUpstreamConcurrencyRaceRetryRule acc k = Some (key, n) \<Longrightarrow> 0 \<le> n \<and> n \<le> 200"
proof -
  assume rule: "OpenAIUpstreamConcurrencyRaceRetryRule acc k = Some (key, n)"
  have transport: "0 \<le> GetOpenAIUpstreamConcurrencyRaceTransportRetryCount acc"
    "GetOpenAIUpstreamConcurrencyRaceTransportRetryCount acc \<le> 200"
    by (auto simp: GetOpenAIUpstreamConcurrencyRaceTransportRetryCount_def pool_constants Let_def
        split: option.splits)
  have "r \<in> set (GetOpenAIUpstreamConcurrencyRaceHTTPRules acc) \<Longrightarrow> 0 \<le> rule_MaxRetries r \<and> rule_MaxRetries r \<le> 200" for r
    using race_rules_ok [of acc] by (auto simp: rules_ok_def list_all_iff)
  moreover have "\<exists>r \<in> set rules. n = rule_MaxRetries r"
    if "find_rule c None rules = Some (key, n)" "distinct (map rule_Matcher rules)" for c rules
    using that by (auto simp: find_rule_spec find_Some_iff split: option.splits if_splits)
  moreover have "distinct (map rule_Matcher (GetOpenAIUpstreamConcurrencyRaceHTTPRules acc))"
    using race_rules_ok [of acc] by (simp add: rules_ok_def)
  ultimately have "find_rule k None (GetOpenAIUpstreamConcurrencyRaceHTTPRules acc) = Some (key, n) \<Longrightarrow>
      0 \<le> n \<and> n \<le> 200"
    by metis
  with rule transport show ?thesis
    by (auto simp: OpenAIUpstreamConcurrencyRaceRetryRule_def GetOpenAIUpstreamConcurrencyRaceHTTPRule_def
        split: if_splits)
qed

end
