(* ===== verification/Failover.thy ===== *)
theory Failover
  imports Account_Pool
begin

text \<open>
  The failover loop of \<open>internal/handler/failover_loop.go\<close>: when an upstream account fails, the
  request is retried on the same account within its limits, or moved to another account, or given
  up.

  The request-local maps (\<open>SameAccountRetryCount\<close>, \<open>SameAccountRetryRuleCount\<close>,
  \<open>SameAccountRetryStart\<close>, \<open>FailedAccountIDs\<close>) are the fields of \<open>FailoverState\<close>; the
  state that Go mutates through the receiver is returned. What a call reads from outside is the
  record \<open>fo_env\<close>: whether the context is cancelled on entry, the readings of
  \<open>time.Now()\<close> and of \<open>time.Until\<close>, and how the wait of \<open>sleepWithContext\<close> ends. The
  calls of \<open>TempUnscheduleRetryableError\<close> are returned as a list. An
  \<open>UpstreamFailoverError\<close> has the fields that the loop and its helpers read or write; the loop
  writes the retry rule into the error, so the error it stores is the rewritten one. Logging and
  the counters of \<open>runtimeops\<close> are left out. A nil map of the state reads as the empty map.
\<close>

section \<open>Types\<close>

datatype NextAccountAction = NextAccountLegacyRetry | NextAccountRetry | NextAccountStop

record UpstreamFailoverError =
  fe_StatusCode :: int
  fe_Message :: string
  fe_ForceCacheBilling :: bool
  fe_RetryableOnSameAccount :: bool
  fe_ExecutionUnknown :: bool
  fe_RetryRuleKey :: string
  fe_RetryRuleLimit :: int
  fe_RetryRuleTransport :: bool
  fe_NextAccountAction :: NextAccountAction

definition ShouldRetryNextAccount :: "UpstreamFailoverError option \<Rightarrow> bool" where
  "ShouldRetryNextAccount e = (case e of None \<Rightarrow> False | Some x \<Rightarrow> fe_NextAccountAction x \<noteq> NextAccountStop)"

definition failover_Error :: "UpstreamFailoverError \<Rightarrow> string" where
  "failover_Error e =
     (if trim_space (fe_Message e) \<noteq> ''''
      then ''upstream error: '' @ itoa (fe_StatusCode e) @ '' (failover): '' @ trim_space (fe_Message e)
      else ''upstream error: '' @ itoa (fe_StatusCode e) @ '' (failover)'')"

datatype FailoverAction = FailoverContinue | FailoverExhausted | FailoverCanceled

text \<open>The two ways in which \<open>TempUnscheduleRetryableError\<close> takes an account out of
  scheduling.\<close>

datatype temp_unschedule = GoogleConfigError int | EmptyResponse int

definition TempUnscheduleRetryableError :: "int \<Rightarrow> UpstreamFailoverError option \<Rightarrow> temp_unschedule list" where
  "TempUnscheduleRetryableError accountID failoverErr =
     (case failoverErr of
        None \<Rightarrow> []
      | Some e \<Rightarrow>
          (if \<not> fe_RetryableOnSameAccount e then []
           else if fe_StatusCode e = 400 then [GoogleConfigError accountID]
           else if fe_StatusCode e = 502 then [EmptyResponse accountID]
           else []))"

definition maxSameAccountRetries :: int where "maxSameAccountRetries = 3"
definition sameAccountRetryDelay :: duration where "sameAccountRetryDelay = 500 * millisecond"
definition singleAccountBackoffDelay :: duration where "singleAccountBackoffDelay = 2 * second"
definition sharedRaceRetryDeadlineKey :: int where "sharedRaceRetryDeadlineKey = 0"
definition sharedRaceRetryStartedKey :: int where "sharedRaceRetryStartedKey = - 1"
definition sharedRaceRetryExhaustedKey :: int where "sharedRaceRetryExhaustedKey = - 2"

record fo_env =
  ev_cancelled :: bool
  ev_now :: gotime
  ev_until :: gotime
  ev_slept :: bool

definition sleepWithContext :: "fo_env \<Rightarrow> duration \<Rightarrow> bool" where
  "sleepWithContext env d = (if d \<le> 0 then True else ev_slept env)"

section \<open>Rules, starts, shared deadline\<close>

definition sameAccountRetryDelayForAccount :: "Account option \<Rightarrow> duration" where
  "sameAccountRetryDelayForAccount acc =
     (if acc = None then sameAccountRetryDelay else GetPoolModeSameAccountRetryDelay acc)"

definition resolveSameAccountRaceRetryRule ::
  "Account option \<Rightarrow> UpstreamFailoverError option \<Rightarrow> UpstreamFailoverError option \<times> (string \<times> int) option" where
  "resolveSameAccountRaceRetryRule acc err =
     (case (acc, err) of
        (Some a, Some e) \<Rightarrow>
          (let statusCode = fe_StatusCode e in
           if fe_RetryRuleTransport e \<and> (statusCode = 0 \<or> statusCode = 502)
           then (Some e, OpenAIUpstreamConcurrencyRaceRetryRule acc 0)
           else (Some (e\<lparr>fe_RetryRuleTransport := False\<rparr>), OpenAIUpstreamConcurrencyRaceRetryRule acc statusCode))
      | _ \<Rightarrow> (err, None))"

definition markSameAccountAttemptStart ::
  "(int, gotime) gomap option \<Rightarrow> Account option \<Rightarrow> gotime \<Rightarrow> (int, gotime) gomap option" where
  "markSameAccountAttemptStart starts acc startedAt =
     (case (starts, acc) of
        (Some st, Some a) \<Rightarrow>
          (if ac_ID a = 0 \<or> is_zero startedAt then starts
           else if IsOpenAIUpstreamConcurrencyRaceEnabled acc then starts
           else if gm_get st (ac_ID a) = None then Some (gm_put (ac_ID a) startedAt st)
           else starts)
      | _ \<Rightarrow> starts)"

definition initialSameAccountRetryStart :: "Account option \<Rightarrow> gotime \<Rightarrow> (int, gotime) gomap" where
  "initialSameAccountRetryStart acc startedAt =
     (case acc of
        None \<Rightarrow> []
      | Some a \<Rightarrow>
          (if ac_ID a \<noteq> 0 \<and> \<not> IsOpenAIUpstreamConcurrencyRaceEnabled acc \<and> \<not> is_zero startedAt
           then gm_put (ac_ID a) startedAt [] else []))"

text \<open>\<open>now\<close> and \<open>now2\<close> are the two readings of the clock, the second made only when the
  deadline has passed.\<close>

definition activeSharedRaceDeadline ::
  "(int, gotime) gomap \<Rightarrow> gotime \<Rightarrow> gotime \<Rightarrow> (int, gotime) gomap \<times> gotime option" where
  "activeSharedRaceDeadline starts now now2 =
     (if starts = [] \<or> \<not> is_zero (gm_getd 0 starts sharedRaceRetryExhaustedKey) then (starts, None)
      else
        (let deadline = gm_getd 0 starts sharedRaceRetryDeadlineKey in
         if is_zero deadline then (starts, None)
         else if \<not> now < deadline then (gm_put sharedRaceRetryExhaustedKey now2 starts, None)
         else (starts, Some deadline)))"

section \<open>Planning a retry on the same account\<close>

record sameAccountRetryPlan =
  pl_RetryLimit :: int
  pl_RetryCount :: int
  pl_RuleKey :: string
  pl_RuleLimit :: int
  pl_RuleCount :: int
  pl_Delay :: duration
  pl_Elapsed :: duration
  pl_MaxElapsed :: duration

type_synonym rule_counts = "(int, (string, int) gomap) gomap"

definition rule_count :: "rule_counts \<Rightarrow> int \<Rightarrow> string \<Rightarrow> int" where
  "rule_count rc accountID key = gm_getd 0 (gm_getd [] rc accountID) key"

definition bump_rule :: "rule_counts \<Rightarrow> int \<Rightarrow> string \<Rightarrow> rule_counts" where
  "bump_rule rc accountID key =
     gm_put accountID (gm_put key (rule_count rc accountID key + 1) (gm_getd [] rc accountID)) rc"

text \<open>The part of \<open>planSameAccountRetryWithRuleCounts\<close> on the race rules: the error with its
  resolved rule, the plan, and whether the rule lets the retry pass.\<close>

definition plan_race_rule ::
  "Account option \<Rightarrow> int \<Rightarrow> (int, int) gomap \<Rightarrow> rule_counts option \<Rightarrow> UpstreamFailoverError option \<Rightarrow>
   sameAccountRetryPlan \<Rightarrow> UpstreamFailoverError option \<times> sameAccountRetryPlan \<times> bool" where
  "plan_race_rule acc accountID counts ruleCounts failoverErr plan =
     (if \<not> IsOpenAIUpstreamConcurrencyRaceEnabled acc then (failoverErr, plan, True)
      else
        (let (err, plan, go) =
           (case failoverErr of
              None \<Rightarrow> (None, plan, ruleCounts = None)
            | Some _ \<Rightarrow>
                (case resolveSameAccountRaceRetryRule acc failoverErr of
                   (err, None) \<Rightarrow> (err, plan\<lparr>pl_RuleKey := '''', pl_RuleLimit := 0\<rparr>, False)
                 | (err, Some (key, limit)) \<Rightarrow>
                     (err, plan\<lparr>pl_RuleKey := key, pl_RuleLimit := limit\<rparr>, key \<noteq> '''')))
         in if \<not> go then (err, plan, False)
            else if pl_RuleKey plan \<noteq> '''' \<and> 0 \<le> pl_RuleLimit plan then
              (case ruleCounts of
                 None \<Rightarrow> (err, plan, \<not> pl_RuleLimit plan \<le> gm_getd 0 counts accountID)
               | Some rc \<Rightarrow>
                   (let byRule = gm_getd [] rc accountID in
                    if 0 < gm_getd 0 counts accountID \<and> length byRule = 0 then (err, plan, False)
                    else
                      (let plan = plan\<lparr>pl_RuleCount := gm_getd 0 byRule (pl_RuleKey plan)\<rparr>
                       in (err, plan, \<not> pl_RuleLimit plan \<le> pl_RuleCount plan))))
            else (err, plan, True)))"

text \<open>The part on the time budget: the request-level deadline of the race, or the elapsed cap of the
  account.\<close>

definition plan_budget ::
  "Account option \<Rightarrow> int \<Rightarrow> (int, gotime) gomap \<Rightarrow> duration \<Rightarrow> gotime \<Rightarrow> sameAccountRetryPlan \<Rightarrow>
   (int, gotime) gomap \<times> sameAccountRetryPlan \<times> bool" where
  "plan_budget acc accountID starts delay now plan =
     (let deadline0 = gm_getd 0 starts sharedRaceRetryDeadlineKey;
          sharedBudget = (\<not> is_zero deadline0)
      in if sharedBudget \<or> (IsOpenAIUpstreamConcurrencyRaceEnabled acc \<and> 0 < pl_MaxElapsed plan) then
           (let (starts, deadline) =
              (if \<not> sharedBudget then
                 (let startedAt0 = gm_getd 0 starts accountID;
                      startedAt = (if is_zero startedAt0 then now else startedAt0);
                      deadline = time_add startedAt (pl_MaxElapsed plan);
                      st = gm_put sharedRaceRetryDeadlineKey deadline
                             (gm_put sharedRaceRetryStartedKey startedAt starts)
                  in (if 0 < accountID then gm_put accountID startedAt st else st, deadline))
               else if is_zero (gm_getd 0 starts sharedRaceRetryStartedKey) then
                 (gm_put sharedRaceRetryStartedKey
                    (if 0 < pl_MaxElapsed plan then time_add deadline0 (- pl_MaxElapsed plan) else now) starts,
                  deadline0)
               else (starts, deadline0))
            in if \<not> is_zero (gm_getd 0 starts sharedRaceRetryExhaustedKey) then (starts, plan, False)
               else
                 (let elapsed = time_sub now (gm_getd 0 starts sharedRaceRetryStartedKey);
                      plan = plan\<lparr>pl_Elapsed := (if elapsed < 0 then 0 else elapsed)\<rparr>;
                      remaining = time_sub deadline now
                  in if remaining \<le> 0 then (gm_put sharedRaceRetryExhaustedKey now starts, plan, False)
                     else (starts, plan, \<not> remaining \<le> delay)))
         else if 0 < pl_MaxElapsed plan then
           (let startedAt0 = gm_getd 0 starts accountID;
                startedAt = (if is_zero startedAt0 then now else startedAt0);
                starts = (if is_zero startedAt0 then gm_put accountID startedAt starts else starts);
                elapsed = time_sub now startedAt;
                plan = plan\<lparr>pl_Elapsed := (if elapsed < 0 then 0 else elapsed)\<rparr>;
                remaining = pl_MaxElapsed plan - pl_Elapsed plan
            in (starts, plan, \<not> (remaining \<le> 0 \<or> remaining \<le> delay)))
         else (starts, plan, True))"

record plan_result =
  pr_plan :: sameAccountRetryPlan
  pr_granted :: bool
  pr_counts :: "(int, int) gomap option"
  pr_rules :: "rule_counts option"
  pr_starts :: "(int, gotime) gomap option"
  pr_err :: "UpstreamFailoverError option"

definition plan_max_elapsed :: "Account option \<Rightarrow> duration \<Rightarrow> duration" where
  "plan_max_elapsed acc maxElapsed =
     (let m = GetPoolModeSameAccountRetryMaxElapsed acc in if 0 < maxElapsed \<and> maxElapsed < m then maxElapsed else m)"

definition planSameAccountRetryWithRuleCounts ::
  "Account option \<Rightarrow> (int, int) gomap option \<Rightarrow> rule_counts option \<Rightarrow> (int, gotime) gomap option \<Rightarrow>
   duration \<Rightarrow> duration \<Rightarrow> UpstreamFailoverError option \<Rightarrow> gotime \<Rightarrow> plan_result" where
  "planSameAccountRetryWithRuleCounts acc counts_opt ruleCounts starts_opt delay maxElapsed failoverErr now =
     (let plan = \<lparr>pl_RetryLimit = 0, pl_RetryCount = 0, pl_RuleKey = '''', pl_RuleLimit = 0,
            pl_RuleCount = 0, pl_Delay = delay, pl_Elapsed = 0, pl_MaxElapsed = 0\<rparr>;
          deny = (\<lambda>plan starts err.
            \<lparr>pr_plan = plan, pr_granted = False, pr_counts = counts_opt, pr_rules = ruleCounts,
             pr_starts = starts, pr_err = err\<rparr>)
      in case (acc, counts_opt) of
           (Some a, Some counts) \<Rightarrow>
             (let starts = (case starts_opt of None \<Rightarrow> [] | Some st \<Rightarrow> st);
                  back = (\<lambda>st. map_option (\<lambda>_. st) starts_opt);
                  accountID = ac_ID a;
                  plan = plan\<lparr>pl_RetryLimit := GetPoolModeRetryCount acc\<rparr>
              in if pl_RetryLimit plan \<le> gm_getd 0 counts accountID then deny plan starts_opt failoverErr
                 else
                   (case plan_race_rule acc accountID counts ruleCounts failoverErr plan of
                      (err, plan, False) \<Rightarrow> deny plan starts_opt err
                    | (err, plan, True) \<Rightarrow>
                        (let plan = plan\<lparr>pl_MaxElapsed := plan_max_elapsed acc maxElapsed\<rparr>
                         in case plan_budget acc accountID starts delay now plan of
                              (starts, plan, False) \<Rightarrow> deny plan (back starts) err
                            | (starts, plan, True) \<Rightarrow>
                                (let n = gm_getd 0 counts accountID + 1;
                                     plan = plan\<lparr>pl_RetryCount := n\<rparr>;
                                     counts = gm_put accountID n counts
                                 in if pl_RuleKey plan \<noteq> '''' \<and> ruleCounts \<noteq> None then
                                      (let rc = bump_rule (the ruleCounts) accountID (pl_RuleKey plan)
                                       in \<lparr>pr_plan = plan\<lparr>pl_RuleCount := rule_count rc accountID (pl_RuleKey plan)\<rparr>,
                                           pr_granted = True, pr_counts = Some counts, pr_rules = Some rc,
                                           pr_starts = back starts, pr_err = err\<rparr>)
                                    else \<lparr>pr_plan = plan, pr_granted = True, pr_counts = Some counts,
                                          pr_rules = ruleCounts, pr_starts = back starts, pr_err = err\<rparr>))))
         | _ \<Rightarrow> deny plan starts_opt failoverErr)"

definition planSameAccountRetry where
  "planSameAccountRetry acc counts starts delay failoverErr now =
     planSameAccountRetryWithRuleCounts acc counts None starts delay 0 failoverErr now"

definition planSameAccountRetryWithMaxElapsed where
  "planSameAccountRetryWithMaxElapsed acc counts starts delay maxElapsed failoverErr now =
     planSameAccountRetryWithRuleCounts acc counts None starts delay maxElapsed failoverErr now"

section \<open>The state of the loop\<close>

record FailoverState =
  fs_SwitchCount :: int
  fs_MaxSwitches :: int
  fs_FailedAccountIDs :: "(int, unit) gomap"
  fs_SameAccountRetryCount :: "(int, int) gomap"
  fs_SameAccountRetryRuleCount :: rule_counts
  fs_SameAccountRetryStart :: "(int, gotime) gomap"
  fs_LastFailoverErr :: "UpstreamFailoverError option"
  fs_ForceCacheBilling :: bool
  fs_hasBoundSession :: bool
  fs_pendingRetryAccountID :: int
  fs_pendingRetryPlatform :: string
  fs_pendingRetryPoolMode :: bool
  fs_pendingRetrySharedRace :: bool
  fs_pendingRetryErr :: "UpstreamFailoverError option"

definition NewFailoverState :: "int \<Rightarrow> bool \<Rightarrow> FailoverState" where
  "NewFailoverState maxSwitches hasBoundSession =
     \<lparr>fs_SwitchCount = 0, fs_MaxSwitches = maxSwitches, fs_FailedAccountIDs = [],
      fs_SameAccountRetryCount = [], fs_SameAccountRetryRuleCount = [], fs_SameAccountRetryStart = [],
      fs_LastFailoverErr = None, fs_ForceCacheBilling = False, fs_hasBoundSession = hasBoundSession,
      fs_pendingRetryAccountID = 0, fs_pendingRetryPlatform = '''', fs_pendingRetryPoolMode = False,
      fs_pendingRetrySharedRace = False, fs_pendingRetryErr = None\<rparr>"

definition clearPendingSameAccountRetry :: "FailoverState \<Rightarrow> FailoverState" where
  "clearPendingSameAccountRetry s =
     s\<lparr>fs_pendingRetryAccountID := 0, fs_pendingRetryPlatform := '''', fs_pendingRetryPoolMode := False,
       fs_pendingRetrySharedRace := False, fs_pendingRetryErr := None\<rparr>"

definition pendingSameAccountRetryID :: "FailoverState option \<Rightarrow> int" where
  "pendingSameAccountRetryID s = (case s of None \<Rightarrow> 0 | Some st \<Rightarrow> fs_pendingRetryAccountID st)"

definition needForceCacheBilling :: "bool \<Rightarrow> UpstreamFailoverError option \<Rightarrow> bool \<Rightarrow> bool" where
  "needForceCacheBilling hasBoundSession failoverErr sameAccountRetry \<longleftrightarrow>
     (hasBoundSession \<and> \<not> sameAccountRetry)
     \<or> (case failoverErr of None \<Rightarrow> False | Some e \<Rightarrow> fe_ForceCacheBilling e)"

text \<open>The decision under the shared budget and under the elapsed cap, with the map of start times.\<close>

definition shared_budget_allows ::
  "fo_env \<Rightarrow> int \<Rightarrow> duration \<Rightarrow> duration \<Rightarrow> (int, gotime) gomap \<Rightarrow> (int, gotime) gomap \<times> bool" where
  "shared_budget_allows env accountID retryDelay maxElapsed starts =
     (let now = ev_now env; deadline0 = gm_getd 0 starts sharedRaceRetryDeadlineKey in
      if is_zero deadline0 \<and> maxElapsed \<le> 0 then (starts, True)
      else
        (let (starts, deadline) =
           (if is_zero deadline0 then
              (let startedAt0 = gm_getd 0 starts accountID;
                   startedAt = (if is_zero startedAt0 then now else startedAt0);
                   deadline = time_add startedAt maxElapsed;
                   st = gm_put sharedRaceRetryDeadlineKey deadline
                          (gm_put sharedRaceRetryStartedKey startedAt starts)
               in (if 0 < accountID then gm_put accountID startedAt st else st, deadline))
            else if is_zero (gm_getd 0 starts sharedRaceRetryStartedKey) then
              (gm_put sharedRaceRetryStartedKey
                 (if 0 < maxElapsed then time_add deadline0 (- maxElapsed) else now) starts, deadline0)
            else (starts, deadline0))
         in if \<not> is_zero (gm_getd 0 starts sharedRaceRetryExhaustedKey) then (starts, False)
            else
              (let remaining = time_sub deadline (ev_until env) in
               if remaining \<le> 0 then (gm_put sharedRaceRetryExhaustedKey now starts, False)
               else (starts, \<not> remaining \<le> retryDelay))))"

definition elapsed_cap_allows ::
  "fo_env \<Rightarrow> int \<Rightarrow> duration \<Rightarrow> duration \<Rightarrow> (int, gotime) gomap \<Rightarrow> (int, gotime) gomap \<times> bool" where
  "elapsed_cap_allows env accountID retryDelay maxElapsed starts =
     (if maxElapsed \<le> 0 then (starts, True)
      else
        (let now = ev_now env;
             startedAt0 = gm_getd 0 starts accountID;
             startedAt = (if is_zero startedAt0 then now else startedAt0);
             starts = (if is_zero startedAt0 then gm_put accountID startedAt starts else starts);
             elapsed0 = time_sub now startedAt;
             elapsed = (if elapsed0 < 0 then 0 else elapsed0)
         in (starts, elapsed < maxElapsed \<and> retryDelay < maxElapsed - elapsed)))"

definition sameAccountRetryAllowedWithBudget ::
  "fo_env \<Rightarrow> int \<Rightarrow> int \<Rightarrow> duration \<Rightarrow> duration \<Rightarrow> bool \<Rightarrow> UpstreamFailoverError option \<Rightarrow> FailoverState \<Rightarrow>
   FailoverState \<times> bool" where
  "sameAccountRetryAllowedWithBudget env accountID retryLimit retryDelay maxElapsed sharedRaceBudget0 failoverErr s =
     (if retryLimit \<le> 0 \<or> retryLimit \<le> gm_getd 0 (fs_SameAccountRetryCount s) accountID then (s, False)
      else if (case failoverErr of
                 None \<Rightarrow> False
               | Some e \<Rightarrow>
                   fe_RetryRuleKey e \<noteq> '''' \<and> 0 \<le> fe_RetryRuleLimit e
                   \<and> gm_get (fs_SameAccountRetryRuleCount s) accountID \<noteq> None
                   \<and> fe_RetryRuleLimit e \<le> rule_count (fs_SameAccountRetryRuleCount s) accountID (fe_RetryRuleKey e))
        then (s, False)
      else
        (let starts = fs_SameAccountRetryStart s;
             sharedRaceBudget = (sharedRaceBudget0 \<or> \<not> is_zero (gm_getd 0 starts sharedRaceRetryDeadlineKey));
             (starts, allowed) =
               (if sharedRaceBudget then shared_budget_allows env accountID retryDelay maxElapsed starts
                else elapsed_cap_allows env accountID retryDelay maxElapsed starts)
         in (s\<lparr>fs_SameAccountRetryStart := starts\<rparr>, allowed)))"

definition sameAccountRetryAllowed where
  "sameAccountRetryAllowed env accountID retryLimit retryDelay maxElapsed s =
     sameAccountRetryAllowedWithBudget env accountID retryLimit retryDelay maxElapsed False None s"

section \<open>Handling a failure\<close>

text \<open>The two ways out of \<open>handleFailoverErrorWithRetryPlanAndBudget\<close> once the retry is
  decided: take the retry, or move on from the account.\<close>

definition take_retry ::
  "int \<Rightarrow> string \<Rightarrow> bool \<Rightarrow> bool \<Rightarrow> UpstreamFailoverError \<Rightarrow> FailoverState \<Rightarrow> FailoverState" where
  "take_retry accountID platform poolMode sharedRaceBudget failoverErr s =
     s\<lparr>fs_SameAccountRetryCount :=
         gm_put accountID (gm_getd 0 (fs_SameAccountRetryCount s) accountID + 1) (fs_SameAccountRetryCount s),
       fs_SameAccountRetryRuleCount :=
         (if fe_RetryRuleKey failoverErr \<noteq> ''''
          then bump_rule (fs_SameAccountRetryRuleCount s) accountID (fe_RetryRuleKey failoverErr)
          else fs_SameAccountRetryRuleCount s),
       fs_pendingRetryAccountID := accountID, fs_pendingRetryPlatform := platform,
       fs_pendingRetryPoolMode := poolMode, fs_pendingRetrySharedRace := sharedRaceBudget,
       fs_pendingRetryErr := Some failoverErr\<rparr>"

definition leave_account ::
  "fo_env \<Rightarrow> int \<Rightarrow> string \<Rightarrow> FailoverState \<Rightarrow> FailoverState \<times> FailoverAction" where
  "leave_account env accountID platform s =
     (let s = s\<lparr>fs_FailedAccountIDs := gm_put accountID () (fs_FailedAccountIDs s)\<rparr> in
      if fs_MaxSwitches s \<le> fs_SwitchCount s then (s, FailoverExhausted)
      else
        (let s = s\<lparr>fs_SwitchCount := fs_SwitchCount s + 1\<rparr> in
         if platform = PlatformAntigravity \<and> \<not> sleepWithContext env (i64 ((fs_SwitchCount s - 1) * second))
         then (s, FailoverCanceled)
         else (s, FailoverContinue)))"

definition handleFailoverErrorWithRetryPlanAndBudget ::
  "fo_env \<Rightarrow> int \<Rightarrow> string \<Rightarrow> int \<Rightarrow> duration \<Rightarrow> duration \<Rightarrow> bool \<Rightarrow> bool \<Rightarrow> UpstreamFailoverError \<Rightarrow>
   FailoverState \<Rightarrow> FailoverState \<times> FailoverAction \<times> temp_unschedule list" where
  "handleFailoverErrorWithRetryPlanAndBudget env accountID platform retryLimit retryDelay retryMaxElapsed
     poolMode sharedRaceBudget failoverErr s0 =
     (if ev_cancelled env then (s0, FailoverCanceled, [])
      else
        (let s = (clearPendingSameAccountRetry s0)\<lparr>fs_LastFailoverErr := Some failoverErr\<rparr>;
             executionUnknown = (platform = PlatformOpenAI \<and> fe_ExecutionUnknown failoverErr);
             (s, sameAccountRetry) =
               (if fe_RetryableOnSameAccount failoverErr \<and> \<not> executionUnknown
                then sameAccountRetryAllowedWithBudget env accountID retryLimit retryDelay retryMaxElapsed
                       sharedRaceBudget (Some failoverErr) s
                else (s, False));
             s = (if needForceCacheBilling (fs_hasBoundSession s) (Some failoverErr) sameAccountRetry
                  then s\<lparr>fs_ForceCacheBilling := True\<rparr> else s)
         in if sameAccountRetry then
              (take_retry accountID platform poolMode sharedRaceBudget failoverErr s,
               if \<not> sleepWithContext env retryDelay then FailoverCanceled else FailoverContinue, [])
            else
              (let unscheduled =
                 (if fe_RetryableOnSameAccount failoverErr \<and> \<not> poolMode
                  then TempUnscheduleRetryableError accountID (Some failoverErr) else []);
                   (s, action) = leave_account env accountID platform s
               in (s, action, unscheduled))))"

definition handleFailoverErrorWithRetryPlan where
  "handleFailoverErrorWithRetryPlan env accountID platform retryLimit retryDelay retryMaxElapsed poolMode failoverErr s =
     handleFailoverErrorWithRetryPlanAndBudget env accountID platform retryLimit retryDelay retryMaxElapsed
       poolMode False failoverErr s"

definition HandleFailoverErrorWithRetryLimit where
  "HandleFailoverErrorWithRetryLimit env accountID platform retryLimit failoverErr s =
     handleFailoverErrorWithRetryPlan env accountID platform retryLimit sameAccountRetryDelay 0 False failoverErr s"

definition HandleFailoverError where
  "HandleFailoverError env accountID platform failoverErr s =
     HandleFailoverErrorWithRetryLimit env accountID platform maxSameAccountRetries failoverErr s"

text \<open>The rule that race mode writes into a retryable error.\<close>

definition apply_race_rule :: "Account option \<Rightarrow> UpstreamFailoverError \<Rightarrow> UpstreamFailoverError" where
  "apply_race_rule acc e =
     (if IsOpenAIUpstreamConcurrencyRaceEnabled acc \<and> fe_RetryableOnSameAccount e then
        (case resolveSameAccountRaceRetryRule acc (Some e) of
           (Some e', Some (key, limit)) \<Rightarrow>
             e'\<lparr>fe_RetryRuleKey := key, fe_RetryRuleLimit := limit,
                fe_RetryableOnSameAccount := (key \<noteq> '''' \<and> 0 < limit)\<rparr>
         | (Some e', None) \<Rightarrow>
             e'\<lparr>fe_RetryRuleKey := '''', fe_RetryRuleLimit := 0, fe_RetryableOnSameAccount := False\<rparr>
         | (None, _) \<Rightarrow> e)
      else e)"

definition HandleFailoverErrorForAccount ::
  "fo_env \<Rightarrow> Account option \<Rightarrow> UpstreamFailoverError \<Rightarrow> FailoverState \<Rightarrow>
   FailoverState \<times> FailoverAction \<times> temp_unschedule list" where
  "HandleFailoverErrorForAccount env acc failoverErr s =
     (case acc of
        None \<Rightarrow> HandleFailoverError env 0 '''' failoverErr s
      | Some a \<Rightarrow>
          (let pool = IsPoolMode a;
               retryLimit = (if pool then GetPoolModeRetryCount acc else maxSameAccountRetries);
               retryDelay = (if pool then sameAccountRetryDelayForAccount acc else sameAccountRetryDelay);
               maxElapsed = (if pool then GetPoolModeSameAccountRetryMaxElapsed acc else 0);
               failoverErr = apply_race_rule acc failoverErr;
               sharedRaceBudget =
                 (IsOpenAIUpstreamConcurrencyRaceEnabled acc
                  \<or> \<not> is_zero (gm_getd 0 (fs_SameAccountRetryStart s) sharedRaceRetryDeadlineKey))
           in handleFailoverErrorWithRetryPlanAndBudget env (ac_ID a) (ac_Platform a) retryLimit retryDelay
                maxElapsed pool sharedRaceBudget failoverErr s))"

definition settleUnavailableSameAccountRetry ::
  "fo_env \<Rightarrow> FailoverState option \<Rightarrow> FailoverState option \<times> FailoverAction \<times> temp_unschedule list" where
  "settleUnavailableSameAccountRetry env st =
     (case st of
        None \<Rightarrow> (None, FailoverContinue, [])
      | Some s \<Rightarrow>
          (case fs_pendingRetryErr s of
             None \<Rightarrow> (st, FailoverContinue, [])
           | Some failoverErr \<Rightarrow>
               (if fs_pendingRetryAccountID s \<le> 0 then (st, FailoverContinue, [])
                else
                  (case handleFailoverErrorWithRetryPlanAndBudget env (fs_pendingRetryAccountID s)
                          (fs_pendingRetryPlatform s) 0 0 0 (fs_pendingRetryPoolMode s)
                          (fs_pendingRetrySharedRace s) failoverErr (clearPendingSameAccountRetry s) of
                     (s', action, unscheduled) \<Rightarrow> (Some s', action, unscheduled)))))"

definition HandleSelectionExhausted :: "fo_env \<Rightarrow> FailoverState \<Rightarrow> FailoverState \<times> FailoverAction" where
  "HandleSelectionExhausted env s =
     (if ev_cancelled env then (s, FailoverCanceled)
      else if (case fs_LastFailoverErr s of None \<Rightarrow> False | Some e \<Rightarrow> fe_StatusCode e = 503)
              \<and> fs_SwitchCount s \<le> fs_MaxSwitches s then
        (if \<not> sleepWithContext env singleAccountBackoffDelay then (s, FailoverCanceled)
         else (s\<lparr>fs_FailedAccountIDs := []\<rparr>, FailoverContinue))
      else (s, FailoverExhausted))"

section \<open>What a decision changes\<close>

lemmas shared_keys = sharedRaceRetryDeadlineKey_def sharedRaceRetryStartedKey_def sharedRaceRetryExhaustedKey_def

abbreviation retries :: "FailoverState \<Rightarrow> int \<Rightarrow> int" where
  "retries s i \<equiv> gm_getd 0 (fs_SameAccountRetryCount s) i"

abbreviation rule_retries :: "FailoverState \<Rightarrow> int \<Rightarrow> string \<Rightarrow> int" where
  "rule_retries s i k \<equiv> rule_count (fs_SameAccountRetryRuleCount s) i k"

abbreviation shared_deadline :: "FailoverState \<Rightarrow> gotime" where
  "shared_deadline s \<equiv> gm_getd 0 (fs_SameAccountRetryStart s) sharedRaceRetryDeadlineKey"

lemma rule_count_bump:
  "rule_count (bump_rule rc i k) j l = rule_count rc j l + (if j = i \<and> l = k then 1 else 0)"
  by (simp add: rule_count_def bump_rule_def)

lemma shared_budget_allows_True:
  assumes "shared_budget_allows env i delay me starts = (starts', True)" "0 \<le> delay"
    and "gm_getd 0 starts sharedRaceRetryDeadlineKey \<noteq> 0"
  shows "ev_until env + delay < gm_getd 0 starts sharedRaceRetryDeadlineKey"
proof -
  have "delay < time_sub (gm_getd 0 starts sharedRaceRetryDeadlineKey) (ev_until env)"
    using assms(1,3) by (auto simp: shared_budget_allows_def Let_def not_le split: if_splits)
  from less_time_sub_imp [OF assms(2) this] show ?thesis by simp
qed

lemma shared_budget_allows_deadline:
  assumes "shared_budget_allows env i delay me starts = (starts', b)"
    and "gm_getd 0 starts sharedRaceRetryDeadlineKey \<noteq> 0"
  shows "gm_getd 0 starts' sharedRaceRetryDeadlineKey = gm_getd 0 starts sharedRaceRetryDeadlineKey"
  using assms by (auto simp: shared_budget_allows_def Let_def shared_keys split: if_splits)

lemma allowed_frame:
  assumes "sameAccountRetryAllowedWithBudget env i lim delay me sh err s = (s', b)"
  shows "fs_SwitchCount s' = fs_SwitchCount s \<and> fs_MaxSwitches s' = fs_MaxSwitches s
    \<and> fs_SameAccountRetryCount s' = fs_SameAccountRetryCount s
    \<and> fs_SameAccountRetryRuleCount s' = fs_SameAccountRetryRuleCount s
    \<and> fs_FailedAccountIDs s' = fs_FailedAccountIDs s \<and> fs_LastFailoverErr s' = fs_LastFailoverErr s
    \<and> fs_hasBoundSession s' = fs_hasBoundSession s \<and> fs_ForceCacheBilling s' = fs_ForceCacheBilling s"
  using assms by (auto simp: sameAccountRetryAllowedWithBudget_def Let_def split: if_splits prod.splits)

lemma allowed_True:
  assumes "sameAccountRetryAllowedWithBudget env i lim delay me sh err s = (s', True)"
  shows "retries s i < lim
    \<and> (\<forall>e. err = Some e \<and> fe_RetryRuleKey e \<noteq> [] \<and> 0 < fe_RetryRuleLimit e \<longrightarrow>
          rule_retries s i (fe_RetryRuleKey e) < fe_RetryRuleLimit e)"
  using assms
  by (auto simp: sameAccountRetryAllowedWithBudget_def rule_count_def gm_getd_def
      split: if_splits option.splits)

lemma allowed_deadline:
  assumes "sameAccountRetryAllowedWithBudget env i lim delay me sh err s = (s', b)" "shared_deadline s \<noteq> 0"
  shows "shared_deadline s' = shared_deadline s
    \<and> (b \<and> 0 \<le> delay \<longrightarrow> ev_until env + delay < shared_deadline s)"
proof (cases "fs_SameAccountRetryStart s' = fs_SameAccountRetryStart s \<and> \<not> b")
  case True
  then show ?thesis by simp
next
  case False
  then have run: "shared_budget_allows env i delay me (fs_SameAccountRetryStart s) = (fs_SameAccountRetryStart s', b)"
    using assms by (auto simp: sameAccountRetryAllowedWithBudget_def Let_def split: if_splits prod.splits)
  from shared_budget_allows_deadline [OF run assms(2)] shared_budget_allows_True [of env i delay me] run assms(2)
  show ?thesis by auto
qed

text \<open>The state that a handler starts from, and the three ways in which it ends.\<close>

definition handling :: "UpstreamFailoverError \<Rightarrow> FailoverState \<Rightarrow> FailoverState" where
  "handling e s = (clearPendingSameAccountRetry s)\<lparr>fs_LastFailoverErr := Some e\<rparr>"

definition billed :: "UpstreamFailoverError \<Rightarrow> bool \<Rightarrow> FailoverState \<Rightarrow> FailoverState" where
  "billed e same s =
     (if needForceCacheBilling (fs_hasBoundSession s) (Some e) same then s\<lparr>fs_ForceCacheBilling := True\<rparr> else s)"

lemma handle_cases [consumes 1, case_names cancelled retry left]:
  assumes "handleFailoverErrorWithRetryPlanAndBudget env i pf lim delay me pool sh e s0 = (s', act, un)"
  obtains "ev_cancelled env" "s' = s0" "act = FailoverCanceled" "un = []"
  | s where "\<not> ev_cancelled env"
      "sameAccountRetryAllowedWithBudget env i lim delay me sh (Some e) (handling e s0) = (s, True)"
      "fe_RetryableOnSameAccount e" "\<not> (pf = PlatformOpenAI \<and> fe_ExecutionUnknown e)"
      "s' = take_retry i pf pool sh e (billed e True s)" "un = []"
      "act = (if sleepWithContext env delay then FailoverContinue else FailoverCanceled)"
  | s where "\<not> ev_cancelled env"
      "s = handling e s0 \<or>
       (sameAccountRetryAllowedWithBudget env i lim delay me sh (Some e) (handling e s0) = (s, False)
        \<and> fe_RetryableOnSameAccount e \<and> \<not> (pf = PlatformOpenAI \<and> fe_ExecutionUnknown e))"
      "leave_account env i pf (billed e False s) = (s', act)"
      "un = (if fe_RetryableOnSameAccount e \<and> \<not> pool then TempUnscheduleRetryableError i (Some e) else [])"
proof (cases "ev_cancelled env")
  case True
  with assms that(1) show thesis by (simp add: handleFailoverErrorWithRetryPlanAndBudget_def)
next
  case live: False
  let ?retry = "fe_RetryableOnSameAccount e \<and> \<not> (pf = PlatformOpenAI \<and> fe_ExecutionUnknown e)"
  obtain s b where sb: "(if ?retry then sameAccountRetryAllowedWithBudget env i lim delay me sh (Some e) (handling e s0)
      else (handling e s0, False)) = (s, b)" by force
  show thesis
  proof (cases b)
    case True
    with sb live assms that(2) [of s] show thesis
      by (auto simp: handleFailoverErrorWithRetryPlanAndBudget_def handling_def [symmetric]
          billed_def Let_def split: if_splits)
  next
    case False
    with sb live assms that(3) [of s] show thesis
      by (auto simp: handleFailoverErrorWithRetryPlanAndBudget_def handling_def [symmetric]
          billed_def Let_def split: if_splits prod.splits)
  qed
qed

section \<open>Runs of the loop\<close>

datatype fo_event =
    FailedAttempt fo_env "Account option" UpstreamFailoverError
  | RetryUnavailable fo_env
  | SelectionExhausted fo_env

fun fo_run :: "fo_event \<Rightarrow> FailoverState \<Rightarrow> FailoverState \<times> FailoverAction \<times> temp_unschedule list" where
  "fo_run (FailedAttempt env acc e) s = HandleFailoverErrorForAccount env acc e s"
| "fo_run (RetryUnavailable env) s =
     (case settleUnavailableSameAccountRetry env (Some s) of
        (st, act, un) \<Rightarrow> ((case st of None \<Rightarrow> s | Some s' \<Rightarrow> s'), act, un))"
| "fo_run (SelectionExhausted env) s = (case HandleSelectionExhausted env s of (s', act) \<Rightarrow> (s', act, []))"

inductive fo_reach :: "FailoverState \<Rightarrow> bool" where
  fo_start: "fo_reach (NewFailoverState m b)"
| fo_event: "fo_reach s \<Longrightarrow> fo_run ev s = (s', act, un) \<Longrightarrow> fo_reach s'"

fun fo_runs :: "fo_event list \<Rightarrow> FailoverState \<Rightarrow> FailoverState \<times> FailoverAction list" where
  "fo_runs [] s = (s, [])"
| "fo_runs (ev # evs) s =
     (case fo_run ev s of (s1, act, _) \<Rightarrow> (case fo_runs evs s1 of (s2, acts) \<Rightarrow> (s2, act # acts)))"

text \<open>Every event is refused, changes nothing that is counted, or is one call of the common
  handler with a limit of at most 200; \<open>handler_call\<close> describes such a call.\<close>

definition handler_call ::
  "FailoverState \<Rightarrow> int \<Rightarrow> int \<Rightarrow> duration \<Rightarrow> fo_env \<Rightarrow> UpstreamFailoverError \<Rightarrow>
   FailoverState \<times> FailoverAction \<times> temp_unschedule list \<Rightarrow> bool" where
  "handler_call s i lim delay env e res \<longleftrightarrow> lim \<le> 200 \<and> 0 \<le> delay \<and>
     (\<exists>pf me pool sh. handleFailoverErrorWithRetryPlanAndBudget env i pf lim delay me pool sh e s = res)"

definition account_id :: "Account option \<Rightarrow> int" where
  "account_id acc = (case acc of None \<Rightarrow> 0 | Some a \<Rightarrow> ac_ID a)"

lemma HandleFailoverErrorForAccount_call:
  "\<exists>lim delay e'. handler_call s (account_id acc) lim delay env e' (HandleFailoverErrorForAccount env acc e s)"
proof (cases acc)
  case None
  then have "handler_call s (account_id acc) 3 sameAccountRetryDelay env e (HandleFailoverErrorForAccount env acc e s)"
    by (auto simp: handler_call_def HandleFailoverErrorForAccount_def HandleFailoverError_def account_id_def
        HandleFailoverErrorWithRetryLimit_def handleFailoverErrorWithRetryPlan_def maxSameAccountRetries_def
        sameAccountRetryDelay_def)
  then show ?thesis by blast
next
  case (Some a)
  let ?lim = "if IsPoolMode a then GetPoolModeRetryCount acc else maxSameAccountRetries"
  let ?delay = "if IsPoolMode a then sameAccountRetryDelayForAccount acc else sameAccountRetryDelay"
  have "?lim \<le> 200" using retry_count_bounds [of acc]
    by (cases "IsOpenAIUpstreamConcurrencyRaceEnabled acc") (simp_all add: maxSameAccountRetries_def)
  moreover have "0 \<le> ?delay"
    using retry_delay_bounds [of acc] by (auto simp: sameAccountRetryDelayForAccount_def sameAccountRetryDelay_def)
  ultimately have "handler_call s (account_id acc) ?lim ?delay env (apply_race_rule acc e)
      (HandleFailoverErrorForAccount env acc e s)"
    using Some unfolding handler_call_def HandleFailoverErrorForAccount_def Let_def account_id_def
    by (simp only: option.case) blast
  then show ?thesis by blast
qed

lemma settle_call:
  assumes "fo_run (RetryUnavailable env) s = (s', act, un)"
  shows "(s' = s \<and> act = FailoverContinue \<and> un = [])
    \<or> (\<exists>e. fs_pendingRetryErr s = Some e \<and> 0 < fs_pendingRetryAccountID s
        \<and> handler_call (clearPendingSameAccountRetry s) (fs_pendingRetryAccountID s) 0 0 env e (s', act, un))"
  using assms
  by (auto simp: settleUnavailableSameAccountRetry_def handler_call_def split: option.splits prod.splits if_splits)

lemma fo_run_cases [consumes 1, case_names same selection call]:
  assumes "fo_run ev s = (s', act, un)"
  obtains "s' = s" "\<forall>env acc e. ev \<noteq> FailedAttempt env acc e"
  | env where "ev = SelectionExhausted env" "s' = s\<lparr>fs_FailedAccountIDs := []\<rparr>"
  | s0 i lim delay env e where "handler_call s0 i lim delay env e (s', act, un)"
      "s0 = s \<or> s0 = clearPendingSameAccountRetry s"
      "\<forall>env acc e. ev = FailedAttempt env acc e \<longrightarrow> i = account_id acc"
proof (cases ev)
  case (FailedAttempt env acc e)
  then have "HandleFailoverErrorForAccount env acc e s = (s', act, un)" using assms by simp
  with HandleFailoverErrorForAccount_call [of s acc env e] obtain lim delay e' where
    "handler_call s (account_id acc) lim delay env e' (s', act, un)" by metis
  with FailedAttempt show thesis by (intro that(3)) auto
next
  case (RetryUnavailable env)
  with settle_call [of env s s' act un] assms consider "s' = s"
    | e where "handler_call (clearPendingSameAccountRetry s) (fs_pendingRetryAccountID s) 0 0 env e (s', act, un)"
    by blast
  then show thesis
  proof cases
    case 1
    with RetryUnavailable show thesis by (intro that(1)) simp_all
  next
    case 2
    with RetryUnavailable show thesis by (intro that(3)) auto
  qed
next
  case (SelectionExhausted env)
  with assms that(1) that(2) [of env] show thesis
    by (auto simp: HandleSelectionExhausted_def split: if_splits)
qed

section \<open>Invariant\<close>

definition fo_inv :: "FailoverState \<Rightarrow> bool" where
  "fo_inv s \<longleftrightarrow> 0 \<le> fs_SwitchCount s \<and> fs_SwitchCount s \<le> max 0 (fs_MaxSwitches s)
     \<and> (\<forall>i. 0 \<le> retries s i \<and> retries s i \<le> 200)
     \<and> (\<forall>i k. 0 \<le> rule_retries s i k \<and> rule_retries s i k \<le> retries s i)"

lemmas fo_state_defs = handling_def clearPendingSameAccountRetry_def billed_def take_retry_def

lemma handler_call_inv:
  assumes "handler_call s0 i lim delay env e (s', act, un)" "fo_inv s0"
  shows "fo_inv s'"
proof -
  from assms(1) obtain pf me pool sh where lim: "lim \<le> 200" and
    run: "handleFailoverErrorWithRetryPlanAndBudget env i pf lim delay me pool sh e s0 = (s', act, un)"
    by (auto simp: handler_call_def)
  from run show ?thesis
  proof (cases rule: handle_cases)
    case cancelled
    with assms(2) show ?thesis by simp
  next
    case (retry s)
    have below: "retries s0 i < 200"
      using allowed_True [OF retry(2)] lim by (simp add: fo_state_defs)
    show ?thesis
      using assms(2) below allowed_frame [OF retry(2)] unfolding retry(5)
      by (auto simp: fo_inv_def fo_state_defs rule_count_bump add.commute add_increasing)
  next
    case (left s)
    have "fo_inv (billed e False s)"
      using left(2) assms(2) allowed_frame [of env i lim delay me sh "Some e" "handling e s0" s False]
      by (auto simp: fo_inv_def fo_state_defs)
    with left(3) show ?thesis
      by (auto simp: leave_account_def Let_def fo_inv_def split: if_splits)
  qed
qed

lemma fo_run_inv: "fo_run ev s = (s', act, un) \<Longrightarrow> fo_inv s \<Longrightarrow> fo_inv s'"
proof (induction rule: fo_run_cases)
  case (call s0 i lim delay env e)
  then have "fo_inv s0" by (auto simp: fo_inv_def clearPendingSameAccountRetry_def)
  with call handler_call_inv show ?case by blast
qed (auto simp: fo_inv_def)

lemma fo_reach_inv: "fo_reach s \<Longrightarrow> fo_inv s"
proof (induction rule: fo_reach.induct)
  case (fo_start m b)
  then show ?case by (simp add: fo_inv_def NewFailoverState_def rule_count_def)
next
  case (fo_event s ev s' act un)
  then show ?case using fo_run_inv by blast
qed

text \<open>In every state that a request can reach, however its attempts fail and whatever the clock
  and the settings of the accounts are, the number of account switches stays within the maximum, no
  account is retried more than 200 times, and the retries counted under a rule never exceed the
  retries of the account.\<close>

theorem failover_reachable_bounds:
  assumes "fo_reach s"
  shows "0 \<le> fs_SwitchCount s \<and> fs_SwitchCount s \<le> max 0 (fs_MaxSwitches s)
     \<and> (\<forall>i. 0 \<le> retries s i \<and> retries s i \<le> 200)
     \<and> (\<forall>i k. 0 \<le> rule_retries s i k \<and> rule_retries s i k \<le> retries s i)"
  using fo_reach_inv [OF assms] by (simp add: fo_inv_def)

theorem failover_reachable_bounds_witness:
  "fo_reach (NewFailoverState 3 True) \<and> fs_SwitchCount (NewFailoverState 3 True) \<le> 3"
  using failover_reachable_bounds [OF fo_start [of 3 True]] fo_start [of 3 True]
  by (simp add: NewFailoverState_def)

section \<open>Termination\<close>

lemma handler_call_continue:
  assumes "handler_call s0 i lim delay env e (s', FailoverContinue, un)"
  shows "fs_MaxSwitches s' = fs_MaxSwitches s0
    \<and> ((fs_SwitchCount s' = fs_SwitchCount s0 + 1 \<and> fs_SameAccountRetryCount s' = fs_SameAccountRetryCount s0)
      \<or> (fs_SwitchCount s' = fs_SwitchCount s0
         \<and> fs_SameAccountRetryCount s' = gm_put i (retries s0 i + 1) (fs_SameAccountRetryCount s0)))"
proof -
  from assms obtain pf me pool sh where
    "handleFailoverErrorWithRetryPlanAndBudget env i pf lim delay me pool sh e s0 = (s', FailoverContinue, un)"
    by (auto simp: handler_call_def)
  then show ?thesis
  proof (cases rule: handle_cases)
    case (retry s)
    with allowed_frame [OF retry(2)] show ?thesis by (simp add: fo_state_defs)
  next
    case (left s)
    then show ?thesis
      using allowed_frame [of env i lim delay me sh "Some e" "handling e s0" s False]
      by (auto simp: leave_account_def Let_def fo_state_defs split: if_splits)
  qed simp
qed

definition progress :: "int set \<Rightarrow> FailoverState \<Rightarrow> int" where
  "progress A s = fs_SwitchCount s + (\<Sum>i \<in> A. retries s i)"

lemma progress_continue:
  assumes "handler_call s0 i lim delay env e (s', FailoverContinue, un)" "finite A"
  shows "fs_MaxSwitches s' = fs_MaxSwitches s0 \<and> progress A s0 \<le> progress A s'
    \<and> (i \<in> A \<longrightarrow> progress A s' = progress A s0 + 1)"
proof -
  have bump: "(\<Sum>j \<in> A. if j = i then f i + 1 else f j) = (\<Sum>j \<in> A. f j) + (if i \<in> A then 1 else 0)" for f :: "int \<Rightarrow> int"
  proof -
    have "(\<Sum>j \<in> A. if j = i then f i + 1 else f j) = (\<Sum>j \<in> A. f j + (if j = i then 1 else 0))"
      by (rule sum.cong) auto
    also have "\<dots> = (\<Sum>j \<in> A. f j) + (if i \<in> A then 1 else 0)"
      using assms(2) by (simp add: sum.distrib sum.delta)
    finally show ?thesis .
  qed
  from handler_call_continue [OF assms(1)] bump [of "retries s0"] show ?thesis
    by (auto simp: progress_def)
qed

definition failed_in :: "int set \<Rightarrow> fo_event \<Rightarrow> bool" where
  "failed_in A ev = (case ev of FailedAttempt env acc e \<Rightarrow> account_id acc \<in> A | _ \<Rightarrow> True)"

definition is_failed :: "fo_event \<Rightarrow> bool" where
  "is_failed ev = (case ev of FailedAttempt env acc e \<Rightarrow> True | _ \<Rightarrow> False)"

lemma fo_run_progress:
  assumes "fo_run ev s = (s', FailoverContinue, un)" "finite A" "failed_in A ev"
  shows "fs_MaxSwitches s' = fs_MaxSwitches s \<and> progress A s + (if is_failed ev then 1 else 0) \<le> progress A s'"
  using assms(1)
proof (cases rule: fo_run_cases)
  case same
  then show ?thesis by (cases ev) (auto simp: is_failed_def)
next
  case (selection env)
  then show ?thesis by (simp add: is_failed_def progress_def)
next
  case (call s0 i lim delay env e)
  have "progress A s0 = progress A s" "fs_MaxSwitches s0 = fs_MaxSwitches s"
    using call(2) by (auto simp: progress_def clearPendingSameAccountRetry_def)
  with progress_continue [OF call(1) assms(2)] call(3) assms(3) show ?thesis
    by (cases ev) (auto simp: is_failed_def failed_in_def)
qed

lemma fo_runs_progress:
  "fo_runs evs s = (s', acts) \<Longrightarrow> list_all (\<lambda>a. a = FailoverContinue) acts \<Longrightarrow> finite A \<Longrightarrow>
   list_all (failed_in A) evs \<Longrightarrow> fo_inv s \<Longrightarrow>
   fo_inv s' \<and> fs_MaxSwitches s' = fs_MaxSwitches s
   \<and> progress A s + int (length (filter is_failed evs)) \<le> progress A s'"
proof (induction evs arbitrary: s acts)
  case Nil
  then show ?case by simp
next
  case (Cons ev evs)
  obtain s1 act un where run: "fo_run ev s = (s1, act, un)" by (metis prod_cases3)
  from Cons.prems(1) run obtain acts2 where runs: "fo_runs evs s1 = (s', acts2)" "acts = act # acts2"
    by (auto split: prod.splits)
  with Cons.prems(2) have act: "act = FailoverContinue" "list_all (\<lambda>a. a = FailoverContinue) acts2" by auto
  have step: "fs_MaxSwitches s1 = fs_MaxSwitches s"
    "progress A s + (if is_failed ev then 1 else 0) \<le> progress A s1"
    using fo_run_progress [of ev s s1 un A] run act Cons.prems by auto
  have "fo_inv s1" using fo_run_inv [OF run] Cons.prems by simp
  with Cons.IH [OF runs(1) act(2)] Cons.prems step show ?case by auto
qed

text \<open>C5: the loop ends. As long as the handlers answer "continue", the number of failed attempts of
  a request is bounded: by the allowed switches plus 200 for each account that it touches, however
  the failures, the retries that could not start and the empty selections are interleaved.\<close>

theorem failover_terminates:
  assumes "fo_reach s" "fo_runs evs s = (s', acts)" "list_all (\<lambda>a. a = FailoverContinue) acts"
    and "finite A" "list_all (failed_in A) evs"
  shows "int (length (filter is_failed evs)) \<le> max 0 (fs_MaxSwitches s) + 200 * int (card A)"
proof -
  have inv: "fo_inv s" using assms(1) by (rule fo_reach_inv)
  from fo_runs_progress [OF assms(2-5) inv] have end_state: "fo_inv s'" "fs_MaxSwitches s' = fs_MaxSwitches s"
    "progress A s + int (length (filter is_failed evs)) \<le> progress A s'" by auto
  have "(\<Sum>i \<in> A. retries s' i) \<le> (\<Sum>i \<in> A. 200)"
    using end_state(1) by (intro sum_mono) (simp add: fo_inv_def)
  moreover have "0 \<le> (\<Sum>i \<in> A. retries s i)"
    using inv by (intro sum_nonneg) (simp add: fo_inv_def)
  ultimately show ?thesis
    using end_state inv by (simp add: progress_def fo_inv_def)
qed

text \<open>An empty selection is not bounded. After a 503 the guard on the number of switches always
  holds in a reachable state, so every further empty selection, as long as the client stays
  connected, waits and continues: any number of them in a row is answered "continue".\<close>

theorem selection_exhausted_unbounded:
  assumes "fo_reach s" "fs_LastFailoverErr s = Some e" "fe_StatusCode e = 503" "0 \<le> fs_MaxSwitches s"
    and "\<not> ev_cancelled env" "ev_slept env"
  shows "snd (fo_runs (replicate n (SelectionExhausted env)) s) = replicate n FailoverContinue"
proof -
  have "fs_SwitchCount s \<le> fs_MaxSwitches s"
    using fo_reach_inv [OF assms(1)] assms(4) by (simp add: fo_inv_def)
  then show ?thesis using assms(2-6)
  proof (induction n arbitrary: s)
    case 0
    then show ?case by simp
  next
    case (Suc n)
    have "fo_run (SelectionExhausted env) s = (s\<lparr>fs_FailedAccountIDs := []\<rparr>, FailoverContinue, [])"
      using Suc.prems by (simp add: HandleSelectionExhausted_def sleepWithContext_def)
    with Suc.IH [of "s\<lparr>fs_FailedAccountIDs := []\<rparr>"] Suc.prems show ?case by (simp add: split_def)
  qed
qed

section \<open>The deadline of the race\<close>

lemma handler_call_deadline:
  assumes "handler_call s0 i lim delay env e (s', act, un)" "shared_deadline s0 \<noteq> 0"
  shows "shared_deadline s' = shared_deadline s0
    \<and> (retries s' i \<noteq> retries s0 i \<longrightarrow> ev_until env < shared_deadline s0)"
proof -
  from assms obtain pf me pool sh where delay: "0 \<le> delay" and
    run: "handleFailoverErrorWithRetryPlanAndBudget env i pf lim delay me pool sh e s0 = (s', act, un)"
    by (auto simp: handler_call_def)
  have dl: "shared_deadline (handling e s0) = shared_deadline s0" by (simp add: fo_state_defs)
  from run show ?thesis
  proof (cases rule: handle_cases)
    case (retry s)
    have "shared_deadline (handling e s0) \<noteq> 0" using assms(2) dl by simp
    from allowed_deadline [OF retry(2) this] delay have
      "shared_deadline s = shared_deadline s0" "ev_until env < shared_deadline s0" using dl by auto
    with retry(5) show ?thesis by (simp add: fo_state_defs)
  next
    case (left s)
    have "shared_deadline (handling e s0) \<noteq> 0" using assms(2) dl by simp
    with left(2) dl have "shared_deadline s = shared_deadline s0" "retries s i = retries s0 i"
      using allowed_deadline [of env i lim delay me sh "Some e" "handling e s0" s False]
        allowed_frame [of env i lim delay me sh "Some e" "handling e s0" s False]
      by (auto simp: fo_state_defs)
    with left(3) show ?thesis
      by (auto simp: leave_account_def Let_def billed_def split: if_splits)
  qed simp
qed

text \<open>The time budget of a race is fixed by the first account that enters it: once the shared
  deadline is set no event moves it, whichever account fails next and whatever its own settings
  are, and a retry is only granted while the clock is before it.\<close>

theorem shared_deadline_fixed:
  assumes "shared_deadline s \<noteq> 0" "fo_run ev s = (s', act, un)"
  shows "shared_deadline s' = shared_deadline s
    \<and> (\<forall>env acc e. ev = FailedAttempt env acc e \<and> retries s' (account_id acc) \<noteq> retries s (account_id acc)
          \<longrightarrow> ev_until env < shared_deadline s)"
  using assms(2)
proof (cases rule: fo_run_cases)
  case (call s0 i lim delay env e)
  have s0: "shared_deadline s0 = shared_deadline s" "retries s0 i = retries s i"
    using call(2) by (auto simp: clearPendingSameAccountRetry_def)
  have "ev_until env' < shared_deadline s"
    if "ev = FailedAttempt env' acc e'" "retries s' (account_id acc) \<noteq> retries s (account_id acc)" for env' acc e'
  proof -
    have "HandleFailoverErrorForAccount env' acc e' s = (s', act, un)" using assms(2) that(1) by simp
    with HandleFailoverErrorForAccount_call [of s acc env' e'] obtain l d x where
      "handler_call s (account_id acc) l d env' x (s', act, un)" by metis
    from handler_call_deadline [OF this assms(1)] that(2) show ?thesis by simp
  qed
  with handler_call_deadline [OF call(1)] assms(1) s0 show ?thesis by simp
qed auto

section \<open>One failure\<close>

text \<open>C31: what one failure of an account does, when the request is alive. Either the account is
  retried: its counter, which was below its limit, goes up by one, the retry is counted under the
  rule of the error, and nothing else that is counted changes. Or the account is given up: it is
  marked as failed, and the handler reports exhaustion exactly when the switches are used up and
  otherwise uses up one more; an account outside a pool is then taken out of scheduling when the
  error was retryable. A request bound to a session is billed as cached exactly when it moves to
  another account, or when the error asks for it.\<close>

theorem handle_failure_spec:
  assumes "handleFailoverErrorWithRetryPlanAndBudget env i pf lim delay me pool sh e s = (s', act, un)"
    and "\<not> ev_cancelled env"
  shows "fs_LastFailoverErr s' = Some e \<and>
   ((retries s i < lim \<and> fe_RetryableOnSameAccount e
     \<and> fs_SameAccountRetryCount s' = gm_put i (retries s i + 1) (fs_SameAccountRetryCount s)
     \<and> (\<forall>j k. rule_retries s' j k = rule_retries s j k
          + (if j = i \<and> k = fe_RetryRuleKey e \<and> k \<noteq> [] then 1 else 0))
     \<and> fs_SwitchCount s' = fs_SwitchCount s \<and> fs_FailedAccountIDs s' = fs_FailedAccountIDs s
     \<and> act \<noteq> FailoverExhausted \<and> un = []
     \<and> fs_pendingRetryAccountID s' = i \<and> fs_pendingRetryErr s' = Some e
     \<and> fs_ForceCacheBilling s' = (fs_ForceCacheBilling s \<or> fe_ForceCacheBilling e))
    \<or> (fs_SameAccountRetryCount s' = fs_SameAccountRetryCount s
     \<and> fs_SameAccountRetryRuleCount s' = fs_SameAccountRetryRuleCount s
     \<and> fs_FailedAccountIDs s' = gm_put i () (fs_FailedAccountIDs s)
     \<and> (act = FailoverExhausted \<longleftrightarrow> fs_MaxSwitches s \<le> fs_SwitchCount s)
     \<and> fs_SwitchCount s' = fs_SwitchCount s + (if act = FailoverExhausted then 0 else 1)
     \<and> un = (if pool then [] else TempUnscheduleRetryableError i (Some e))
     \<and> fs_pendingRetryErr s' = None
     \<and> fs_ForceCacheBilling s' =
         (fs_ForceCacheBilling s \<or> fs_hasBoundSession s \<or> fe_ForceCacheBilling e)))"
  using assms(1)
proof (cases rule: handle_cases)
  case cancelled
  with assms(2) show ?thesis by simp
next
  case (retry s1)
  note frame = allowed_frame [OF retry(2)] and below = allowed_True [OF retry(2)]
  have "fs_SameAccountRetryCount s' = gm_put i (retries s i + 1) (fs_SameAccountRetryCount s)"
    "fs_LastFailoverErr s' = Some e" "retries s i < lim" "fs_SwitchCount s' = fs_SwitchCount s"
    "fs_FailedAccountIDs s' = fs_FailedAccountIDs s" "fs_pendingRetryAccountID s' = i"
    "fs_pendingRetryErr s' = Some e"
    "fs_ForceCacheBilling s' = (fs_ForceCacheBilling s \<or> fe_ForceCacheBilling e)"
    unfolding retry(5) using frame below by (auto simp: fo_state_defs needForceCacheBilling_def)
  moreover have "rule_retries s' j k = rule_retries s j k
      + (if j = i \<and> k = fe_RetryRuleKey e \<and> k \<noteq> [] then 1 else 0)" for j k
    unfolding retry(5) using frame by (auto simp: fo_state_defs rule_count_bump)
  ultimately show ?thesis using retry(3,6,7) by simp
next
  case (left s1)
  have frame: "fs_SwitchCount s1 = fs_SwitchCount s" "fs_MaxSwitches s1 = fs_MaxSwitches s"
    "fs_SameAccountRetryCount s1 = fs_SameAccountRetryCount s"
    "fs_SameAccountRetryRuleCount s1 = fs_SameAccountRetryRuleCount s"
    "fs_FailedAccountIDs s1 = fs_FailedAccountIDs s" "fs_LastFailoverErr s1 = Some e"
    "fs_hasBoundSession s1 = fs_hasBoundSession s" "fs_ForceCacheBilling s1 = fs_ForceCacheBilling s"
    using left(2) allowed_frame [of env i lim delay me sh "Some e" "handling e s" s1 False]
    by (auto simp: fo_state_defs)
  have pending: "fs_pendingRetryErr s1 = None"
    using left(2) by (auto simp: fo_state_defs sameAccountRetryAllowedWithBudget_def Let_def split: if_splits prod.splits)
  have "un = (if pool then [] else TempUnscheduleRetryableError i (Some e))"
    using left(4) by (simp add: TempUnscheduleRetryableError_def)
  moreover have "fs_SameAccountRetryCount s' = fs_SameAccountRetryCount s"
    "fs_SameAccountRetryRuleCount s' = fs_SameAccountRetryRuleCount s"
    "fs_FailedAccountIDs s' = gm_put i () (fs_FailedAccountIDs s)" "fs_LastFailoverErr s' = Some e"
    "act = FailoverExhausted \<longleftrightarrow> fs_MaxSwitches s \<le> fs_SwitchCount s"
    "fs_SwitchCount s' = fs_SwitchCount s + (if act = FailoverExhausted then 0 else 1)"
    "fs_pendingRetryErr s' = None"
    "fs_ForceCacheBilling s' = (fs_ForceCacheBilling s \<or> fs_hasBoundSession s \<or> fe_ForceCacheBilling e)"
    using left(3) frame pending
    by (auto simp: leave_account_def Let_def billed_def needForceCacheBilling_def split: if_splits)
  ultimately show ?thesis by blast
qed

lemma apply_race_rule_unknown [simp]: "fe_ExecutionUnknown (apply_race_rule acc e) = fe_ExecutionUnknown e"
  by (auto simp: apply_race_rule_def resolveSameAccountRaceRetryRule_def Let_def split: option.splits prod.splits)

text \<open>A request whose execution is unknown is never sent again to the same OpenAI account, even
  if the error is marked retryable: no retry is counted or pending, and the account is excluded from
  the next selection.\<close>

theorem execution_unknown_not_retried:
  assumes "ac_Platform a = PlatformOpenAI" "fe_ExecutionUnknown e" "\<not> ev_cancelled env"
    and "HandleFailoverErrorForAccount env (Some a) e s = (s', act, un)"
  shows "fs_SameAccountRetryCount s' = fs_SameAccountRetryCount s
    \<and> gm_get (fs_FailedAccountIDs s') (ac_ID a) = Some () \<and> fs_pendingRetryErr s' = None"
proof -
  obtain lim delay me pool sh where
    run: "handleFailoverErrorWithRetryPlanAndBudget env (ac_ID a) PlatformOpenAI lim delay me pool sh
      (apply_race_rule (Some a) e) s = (s', act, un)"
    using assms(1,4) by (simp add: HandleFailoverErrorForAccount_def Let_def)
  from run show ?thesis
  proof (cases rule: handle_cases)
    case (left s1)
    then have "s1 = handling (apply_race_rule (Some a) e) s" using assms(2) by auto
    with left(3) show ?thesis
      by (auto simp: leave_account_def Let_def fo_state_defs split: if_splits)
  qed (use assms in auto)
qed

text \<open>A planned retry whose account has become unavailable is settled as a failure of that
  account: no retry is counted, nothing stays pending, and the account is excluded from the next
  selection.\<close>

theorem unavailable_retry_settled:
  assumes "fs_pendingRetryErr s = Some e" "0 < fs_pendingRetryAccountID s" "\<not> ev_cancelled env"
    and "settleUnavailableSameAccountRetry env (Some s) = (Some s', act, un)"
  shows "fs_SameAccountRetryCount s' = fs_SameAccountRetryCount s
    \<and> fs_SameAccountRetryRuleCount s' = fs_SameAccountRetryRuleCount s
    \<and> gm_get (fs_FailedAccountIDs s') (fs_pendingRetryAccountID s) = Some ()
    \<and> fs_LastFailoverErr s' = Some e \<and> fs_pendingRetryErr s' = None \<and> fs_pendingRetryAccountID s' = 0"
proof -
  have run: "handleFailoverErrorWithRetryPlanAndBudget env (fs_pendingRetryAccountID s) (fs_pendingRetryPlatform s)
      0 0 0 (fs_pendingRetryPoolMode s) (fs_pendingRetrySharedRace s) e (clearPendingSameAccountRetry s) = (s', act, un)"
    using assms by (auto simp: settleUnavailableSameAccountRetry_def split: prod.splits)
  have no: "sameAccountRetryAllowedWithBudget env i 0 0 0 sh (Some e) t = (t, False)" for i sh t
    by (simp add: sameAccountRetryAllowedWithBudget_def)
  from run show ?thesis
  proof (cases rule: handle_cases)
    case (left s1)
    then have s1: "s1 = handling e (clearPendingSameAccountRetry s)" using no by auto
    with left(3) show ?thesis
      by (auto simp: leave_account_def Let_def fo_state_defs split: if_splits)
  qed (use assms no in auto)
qed

section \<open>Planning\<close>

lemma plan_race_rule_True:
  assumes "plan_race_rule acc i counts rules err plan = (err', plan', True)" "pl_RuleKey plan = []"
  shows "pl_Delay plan' = pl_Delay plan \<and> pl_RetryLimit plan' = pl_RetryLimit plan
    \<and> (pl_RuleKey plan' \<noteq> [] \<longrightarrow>
        (case rules of None \<Rightarrow> gm_getd 0 counts i < pl_RuleLimit plan'
         | Some rc \<Rightarrow> rule_count rc i (pl_RuleKey plan') < pl_RuleLimit plan') \<or> pl_RuleLimit plan' < 0)
    \<and> (\<forall>e. err = Some e \<and> IsOpenAIUpstreamConcurrencyRaceEnabled acc \<longrightarrow> pl_RuleKey plan' \<noteq> [])"
  using assms
  by (auto simp: plan_race_rule_def Let_def rule_count_def split: if_splits option.splits prod.splits)

lemma plan_budget_True:
  assumes "plan_budget acc i starts delay now plan = (starts', plan', True)" "0 \<le> delay"
  shows "pl_RuleKey plan' = pl_RuleKey plan \<and> pl_RuleLimit plan' = pl_RuleLimit plan
    \<and> pl_RetryLimit plan' = pl_RetryLimit plan
    \<and> (gm_getd 0 starts sharedRaceRetryDeadlineKey \<noteq> 0 \<longrightarrow>
        now + delay < gm_getd 0 starts sharedRaceRetryDeadlineKey)"
proof -
  have fields: "pl_RuleKey plan' = pl_RuleKey plan \<and> pl_RuleLimit plan' = pl_RuleLimit plan
    \<and> pl_RetryLimit plan' = pl_RetryLimit plan"
    using assms(1) by (auto simp: plan_budget_def Let_def split: if_splits prod.splits)
  have "delay < time_sub (gm_getd 0 starts sharedRaceRetryDeadlineKey) now"
    if "gm_getd 0 starts sharedRaceRetryDeadlineKey \<noteq> 0"
    using assms(1) that by (auto simp: plan_budget_def Let_def not_le split: if_splits)
  with fields less_time_sub_imp [OF assms(2)] show ?thesis by fastforce
qed

lemma plan_budget_deadline:
  "plan_budget acc i starts delay now plan = (starts', plan', b) \<Longrightarrow>
   gm_getd 0 starts sharedRaceRetryDeadlineKey \<noteq> 0 \<Longrightarrow>
   gm_getd 0 starts' sharedRaceRetryDeadlineKey = gm_getd 0 starts sharedRaceRetryDeadlineKey"
  by (auto simp: plan_budget_def Let_def shared_keys split: if_splits)

text \<open>C37: a planned retry never exceeds a limit. When the plan is granted, the counter of the account
  was below the account's limit and goes up by one; with a rule map, the counter of the matched rule
  was below the rule's limit and goes up by one; the delay fits before the deadline of the race when
  there is one. When it is denied no counter changes. In both cases a deadline that was set stays.\<close>

theorem plan_retry_spec:
  assumes "0 \<le> delay"
    and "planSameAccountRetryWithRuleCounts (Some a) (Some counts) rules (Some starts) delay me err now = r"
  shows "(if pr_granted r
     then gm_getd 0 counts (ac_ID a) < GetPoolModeRetryCount (Some a)
       \<and> pr_counts r = Some (gm_put (ac_ID a) (gm_getd 0 counts (ac_ID a) + 1) counts)
       \<and> (gm_getd 0 starts 0 \<noteq> 0 \<longrightarrow> now + delay < gm_getd 0 starts 0)
       \<and> (\<forall>rc. rules = Some rc \<longrightarrow>
            (\<exists>rc'. pr_rules r = Some rc' \<and> (\<forall>j k. rule_count rc' j k = rule_count rc j k
               + (if j = ac_ID a \<and> k = pl_RuleKey (pr_plan r) \<and> k \<noteq> [] then 1 else 0)))
            \<and> (pl_RuleKey (pr_plan r) \<noteq> [] \<and> 0 \<le> pl_RuleLimit (pr_plan r) \<longrightarrow>
                 rule_count rc (ac_ID a) (pl_RuleKey (pr_plan r)) < pl_RuleLimit (pr_plan r)))
     else pr_counts r = Some counts \<and> pr_rules r = rules)
    \<and> (\<exists>starts'. pr_starts r = Some starts' \<and> (gm_getd 0 starts 0 \<noteq> 0 \<longrightarrow>
         gm_getd 0 starts' 0 = gm_getd 0 starts 0))"
proof -
  define plan0 where "plan0 = \<lparr>pl_RetryLimit = GetPoolModeRetryCount (Some a), pl_RetryCount = 0,
    pl_RuleKey = '''', pl_RuleLimit = 0, pl_RuleCount = 0, pl_Delay = delay, pl_Elapsed = 0, pl_MaxElapsed = 0\<rparr>"
  obtain err1 plan1 ok1 where rule: "plan_race_rule (Some a) (ac_ID a) counts rules err plan0 = (err1, plan1, ok1)"
    by (metis prod_cases3)
  obtain starts2 plan2 ok2 where budget: "plan_budget (Some a) (ac_ID a) starts delay now
      (plan1\<lparr>pl_MaxElapsed := plan_max_elapsed (Some a) me\<rparr>) = (starts2, plan2, ok2)"
    by (metis prod_cases3)
  note keep = plan_budget_deadline [OF budget, unfolded sharedRaceRetryDeadlineKey_def]
  note run = planSameAccountRetryWithRuleCounts_def rule [unfolded plan0_def] budget
  have key0: "pl_RuleKey plan0 = []" by (simp add: plan0_def)
  consider (limit) "GetPoolModeRetryCount (Some a) \<le> gm_getd 0 counts (ac_ID a)"
    | (rule) "\<not> ok1" "gm_getd 0 counts (ac_ID a) < GetPoolModeRetryCount (Some a)"
    | (budget) "ok1" "\<not> ok2" "gm_getd 0 counts (ac_ID a) < GetPoolModeRetryCount (Some a)"
    | (granted) "ok1" "ok2" "gm_getd 0 counts (ac_ID a) < GetPoolModeRetryCount (Some a)" by linarith
  then show ?thesis
  proof cases
    case limit
    then show ?thesis using assms(2) by (auto simp: planSameAccountRetryWithRuleCounts_def Let_def)
  next
    case rule
    then show ?thesis using assms(2) by (auto simp: run Let_def)
  next
    case budget
    then show ?thesis using assms(2) keep by (auto simp: run Let_def)
  next
    case granted
    note rt = plan_race_rule_True [OF rule [simplified granted] key0]
      and bt = plan_budget_True [OF budget [simplified granted] assms(1)]
    show ?thesis
    proof (cases "pl_RuleKey plan2 \<noteq> [] \<and> rules \<noteq> None")
      case True
      then show ?thesis
        using assms(2) granted keep rt bt by (auto simp: run Let_def rule_count_bump sharedRaceRetryDeadlineKey_def)
    next
      case False
      then show ?thesis
        using assms(2) granted keep rt bt by (auto simp: run Let_def sharedRaceRetryDeadlineKey_def)
    qed
  qed
qed

section \<open>Concrete requests\<close>

definition demo_env :: "gotime \<Rightarrow> fo_env" where
  "demo_env t = \<lparr>ev_cancelled = False, ev_now = t, ev_until = t, ev_slept = True\<rparr>"

definition demo_account :: Account where
  "demo_account = \<lparr>ac_ID = 7, ac_Platform = ''openai'', ac_Type = ''apikey'',
     ac_Credentials = Some [(''pool_mode'', VBool True), (''upstream_concurrency_race_enabled'', VBool True)],
     ac_ProxyID = None, ac_Priority = 1\<rparr>"

definition demo_err :: "int \<Rightarrow> UpstreamFailoverError" where
  "demo_err st = \<lparr>fe_StatusCode = st, fe_Message = '''', fe_ForceCacheBilling = False,
     fe_RetryableOnSameAccount = True, fe_ExecutionUnknown = False, fe_RetryRuleKey = '''',
     fe_RetryRuleLimit = 0, fe_RetryRuleTransport = False, fe_NextAccountAction = NextAccountLegacyRetry\<rparr>"

definition demo_events :: "fo_event list" where
  "demo_events = [FailedAttempt (demo_env 1000) (Some demo_account) (demo_err 502),
     FailedAttempt (demo_env 2000) (Some demo_account) (demo_err 502)]"

definition demo_state :: FailoverState where
  "demo_state = fst (fo_runs demo_events (NewFailoverState 1 True))"

lemma fo_runs_reach: "fo_reach s \<Longrightarrow> fo_reach (fst (fo_runs evs s))"
proof (induction evs arbitrary: s)
  case Nil
  then show ?case by simp
next
  case (Cons ev evs)
  obtain s1 act un where run: "fo_run ev s = (s1, act, un)" by (metis prod_cases3)
  with Cons have "fo_reach (fst (fo_runs evs s1))" using fo_event by blast
  with run show ?case by (simp add: split_def)
qed

theorem failover_terminates_witness:
  "snd (fo_runs demo_events (NewFailoverState 1 True)) = [FailoverContinue, FailoverContinue]
   \<and> int (length (filter is_failed demo_events)) \<le> max 0 1 + 200 * int (card {7 :: int})"
proof -
  have acts: "snd (fo_runs demo_events (NewFailoverState 1 True)) = [FailoverContinue, FailoverContinue]"
    by code_simp
  then have run: "fo_runs demo_events (NewFailoverState 1 True) = (demo_state, [FailoverContinue, FailoverContinue])"
    by (simp add: demo_state_def prod_eq_iff)
  have ids: "list_all (failed_in {7}) demo_events"
    by (simp add: demo_events_def failed_in_def account_id_def demo_account_def)
  show ?thesis
    using failover_terminates [OF fo_start run _ _ ids] acts by (simp add: NewFailoverState_def)
qed

theorem selection_exhausted_unbounded_witness:
  "snd (fo_runs (replicate 1000 (SelectionExhausted (demo_env 9)))
     (fst (fo_runs [FailedAttempt (demo_env 1) None (demo_err 503\<lparr>fe_RetryableOnSameAccount := False\<rparr>)]
        (NewFailoverState 1 True)))) = replicate 1000 FailoverContinue"
proof -
  let ?e = "demo_err 503\<lparr>fe_RetryableOnSameAccount := False\<rparr>"
  let ?s = "fst (fo_runs [FailedAttempt (demo_env 1) None ?e] (NewFailoverState 1 True))"
  have reach: "fo_reach ?s" by (rule fo_runs_reach [OF fo_start])
  have facts: "fs_LastFailoverErr ?s = Some ?e \<and> 0 \<le> fs_MaxSwitches ?s" by code_simp
  have "fe_StatusCode ?e = 503" "\<not> ev_cancelled (demo_env 9)" "ev_slept (demo_env 9)"
    by (simp_all add: demo_err_def demo_env_def)
  then show ?thesis
    by (rule selection_exhausted_unbounded [OF reach facts [THEN conjunct1] _ facts [THEN conjunct2]])
qed

theorem shared_deadline_fixed_witness:
  "shared_deadline demo_state = 1500001000
   \<and> (\<exists>s' act un. fo_run (FailedAttempt (demo_env 3000) (Some demo_account) (demo_err 429)) demo_state = (s', act, un)
        \<and> shared_deadline s' = 1500001000)"
proof -
  have d: "shared_deadline demo_state = 1500001000" by code_simp
  obtain s' act un where
    run: "fo_run (FailedAttempt (demo_env 3000) (Some demo_account) (demo_err 429)) demo_state = (s', act, un)"
    by (metis prod_cases3)
  from shared_deadline_fixed [OF _ run] d have "shared_deadline s' = 1500001000" by simp
  with d run show ?thesis by blast
qed

theorem handle_failure_spec_witness:
  "\<exists>s' act un. handleFailoverErrorWithRetryPlanAndBudget (demo_env 1) 5 ''gemini'' 3 500 0 False False
      (demo_err 502) (NewFailoverState 1 True) = (s', act, un)
    \<and> fs_LastFailoverErr s' = Some (demo_err 502)"
proof -
  obtain s' act un where run: "handleFailoverErrorWithRetryPlanAndBudget (demo_env 1) 5 ''gemini'' 3 500 0 False False
      (demo_err 502) (NewFailoverState 1 True) = (s', act, un)"
    by (metis prod_cases3)
  have "\<not> ev_cancelled (demo_env 1)" by (simp add: demo_env_def)
  from handle_failure_spec [OF run this] run show ?thesis by blast
qed

theorem execution_unknown_not_retried_witness:
  "gm_get (fs_FailedAccountIDs (fst (HandleFailoverErrorForAccount (demo_env 1) (Some demo_account)
     (demo_err 502\<lparr>fe_ExecutionUnknown := True\<rparr>) (NewFailoverState 1 True)))) 7 = Some ()"
proof -
  obtain s' act un where run: "HandleFailoverErrorForAccount (demo_env 1) (Some demo_account)
     (demo_err 502\<lparr>fe_ExecutionUnknown := True\<rparr>) (NewFailoverState 1 True) = (s', act, un)"
    by (metis prod_cases3)
  from execution_unknown_not_retried [OF _ _ _ run] run show ?thesis
    by (simp add: demo_account_def PlatformOpenAI_def demo_env_def)
qed

definition pending_state :: FailoverState where
  "pending_state = fst (fo_runs (take 1 demo_events) (NewFailoverState 1 True))"

theorem unavailable_retry_settled_witness:
  "fs_pendingRetryAccountID pending_state = 7
   \<and> (\<exists>s' act un. settleUnavailableSameAccountRetry (demo_env 2) (Some pending_state) = (Some s', act, un)
      \<and> gm_get (fs_FailedAccountIDs s') 7 = Some ())"
proof -
  have p: "fs_pendingRetryAccountID pending_state = 7" by code_simp
  have "fs_pendingRetryErr pending_state \<noteq> None" by code_simp
  then obtain e where e: "fs_pendingRetryErr pending_state = Some e" by blast
  obtain s' act un where "handleFailoverErrorWithRetryPlanAndBudget (demo_env 2) 7
      (fs_pendingRetryPlatform pending_state) 0 0 0 (fs_pendingRetryPoolMode pending_state)
      (fs_pendingRetrySharedRace pending_state) e (clearPendingSameAccountRetry pending_state) = (s', act, un)"
    by (metis prod_cases3)
  with e p have run: "settleUnavailableSameAccountRetry (demo_env 2) (Some pending_state) = (Some s', act, un)"
    by (simp add: settleUnavailableSameAccountRetry_def)
  from unavailable_retry_settled [OF e _ _ run] p run show ?thesis by (simp add: demo_env_def)
qed

theorem plan_retry_spec_witness:
  "pr_granted (planSameAccountRetryWithRuleCounts (Some demo_account) (Some []) (Some []) (Some []) 5 0
     (Some (demo_err 429)) 1000)
   \<and> pr_counts (planSameAccountRetryWithRuleCounts (Some demo_account) (Some []) (Some []) (Some []) 5 0
     (Some (demo_err 429)) 1000) = Some [(7, 1)]"
proof -
  have g: "pr_granted (planSameAccountRetryWithRuleCounts (Some demo_account) (Some []) (Some []) (Some []) 5 0
     (Some (demo_err 429)) 1000)" by code_simp
  from plan_retry_spec [OF _ refl, of 5 demo_account "[]" "Some []" "[]" 0 "Some (demo_err 429)" 1000] g
  show ?thesis by (simp add: demo_account_def gm_put_def)
qed

end
