(* ===== verification/Stream_Circuit.thy ===== *)
theory Stream_Circuit
  imports Account_Pool
begin

text \<open>
  The circuit breaker of \<open>internal/service/openai_proxy_stream_circuit.go\<close>: proxies whose streams
  break repeatedly are quarantined, and accounts that disconnect repeatedly are taken out of
  scheduling for a while.

  The circuit is the record \<open>openAIProxyStreamCircuit\<close>; its methods run under a mutex, so each is
  one function on the state. The published snapshot is a field of it. Go's iteration order over the
  entries, which decides which of several equally old entries is evicted, is the argument
  \<open>ord\<close> (any function that permutes the entries). The lock-free update of the local disconnect
  counter is the successful round of its compare-and-swap loop. What Redis answers to the script of
  \<open>recordOpenAIAccountStreamDisconnect\<close> is an argument. The calls that take an account out of
  scheduling are returned as a list of effects.
\<close>

section \<open>Types\<close>

definition defaultOpenAIProxyStreamFailureThreshold :: int where "defaultOpenAIProxyStreamFailureThreshold = 2"
definition defaultOpenAIProxyStreamFailureWindow :: duration where
  "defaultOpenAIProxyStreamFailureWindow = minute"
definition defaultOpenAIProxyStreamQuarantineTTL :: duration where
  "defaultOpenAIProxyStreamQuarantineTTL = 10 * minute"
definition defaultOpenAIProxyStreamCircuitMaxEntries :: int where
  "defaultOpenAIProxyStreamCircuitMaxEntries = 4096"
definition defaultOpenAIProxyStreamFailureCollapse :: duration where
  "defaultOpenAIProxyStreamFailureCollapse = 3 * second"
definition openAIAccountStreamFailureWindow :: duration where
  "openAIAccountStreamFailureWindow = 2 * minute"
definition openAIAccountStreamFailureThreshold :: int where "openAIAccountStreamFailureThreshold = 2"
definition openAIStopSchedulingBridgeCooldown :: duration where
  "openAIStopSchedulingBridgeCooldown = 2 * minute"

definition OpenAIStreamFailureUpstreamDisconnect :: string where
  "OpenAIStreamFailureUpstreamDisconnect = ''upstream_disconnect''"
definition OpenAIStreamFailureUpstreamError :: string where
  "OpenAIStreamFailureUpstreamError = ''upstream_error''"

record openAIProxyStreamCircuitSettings =
  cs_enabled :: bool
  cs_failureThreshold :: int
  cs_failureWindow :: duration
  cs_quarantineTTL :: duration
  cs_collapseInterval :: duration
  cs_maxEntries :: int

record openAIProxyStreamCircuitEntry =
  ce_failureCount :: int
  ce_windowStart :: gotime
  ce_blockedUntil :: gotime
  ce_lastFailureAt :: gotime
  ce_lastTouched :: gotime

record openAIProxyStreamCircuit =
  cc_settings :: openAIProxyStreamCircuitSettings
  cc_entries :: "(int, openAIProxyStreamCircuitEntry) gomap"
  cc_blocked :: "(int, gotime) gomap"

record GatewayOpenAIProxyStreamCircuitConfig =
  gc_Enabled :: bool
  gc_FailureThreshold :: int
  gc_WindowSeconds :: int
  gc_TTLSeconds :: int
  gc_MaxEntries :: int

definition zero_entry :: openAIProxyStreamCircuitEntry where
  "zero_entry = \<lparr>ce_failureCount = 0, ce_windowStart = 0, ce_blockedUntil = 0, ce_lastFailureAt = 0,
     ce_lastTouched = 0\<rparr>"

section \<open>Settings\<close>

definition resolveOpenAIProxyStreamCircuitSettings ::
  "GatewayOpenAIProxyStreamCircuitConfig option \<Rightarrow> openAIProxyStreamCircuitSettings" where
  "resolveOpenAIProxyStreamCircuitSettings cfg_opt =
     (let settings = \<lparr>cs_enabled = False,
            cs_failureThreshold = defaultOpenAIProxyStreamFailureThreshold,
            cs_failureWindow = defaultOpenAIProxyStreamFailureWindow,
            cs_quarantineTTL = defaultOpenAIProxyStreamQuarantineTTL,
            cs_collapseInterval = defaultOpenAIProxyStreamFailureCollapse,
            cs_maxEntries = defaultOpenAIProxyStreamCircuitMaxEntries\<rparr>
      in case cfg_opt of
           None \<Rightarrow> settings
         | Some cfg \<Rightarrow>
             settings\<lparr>cs_enabled := gc_Enabled cfg,
               cs_failureThreshold :=
                 (if 0 < gc_FailureThreshold cfg then gc_FailureThreshold cfg else cs_failureThreshold settings),
               cs_failureWindow :=
                 (if 0 < gc_WindowSeconds cfg then i64 (gc_WindowSeconds cfg * second) else cs_failureWindow settings),
               cs_quarantineTTL :=
                 (if 0 < gc_TTLSeconds cfg then i64 (gc_TTLSeconds cfg * second) else cs_quarantineTTL settings),
               cs_maxEntries :=
                 (if 0 < gc_MaxEntries cfg then gc_MaxEntries cfg else cs_maxEntries settings)\<rparr>)"

definition newOpenAIProxyStreamCircuit :: "openAIProxyStreamCircuitSettings \<Rightarrow> openAIProxyStreamCircuit" where
  "newOpenAIProxyStreamCircuit settings =
     \<lparr>cc_settings = settings\<lparr>
        cs_failureThreshold :=
          (if cs_failureThreshold settings \<le> 0 then defaultOpenAIProxyStreamFailureThreshold
           else cs_failureThreshold settings),
        cs_failureWindow :=
          (if cs_failureWindow settings \<le> 0 then defaultOpenAIProxyStreamFailureWindow
           else cs_failureWindow settings),
        cs_quarantineTTL :=
          (if cs_quarantineTTL settings \<le> 0 then defaultOpenAIProxyStreamQuarantineTTL
           else cs_quarantineTTL settings),
        cs_maxEntries :=
          (if cs_maxEntries settings \<le> 0 then defaultOpenAIProxyStreamCircuitMaxEntries
           else cs_maxEntries settings),
        cs_collapseInterval := (if cs_collapseInterval settings < 0 then 0 else cs_collapseInterval settings)\<rparr>,
      cc_entries = [], cc_blocked = []\<rparr>"

definition getOpenAIProxyStreamCircuit ::
  "openAIProxyStreamCircuit option \<Rightarrow> openAIProxyStreamCircuit option" where
  "getOpenAIProxyStreamCircuit c =
     (case c of None \<Rightarrow> None | Some x \<Rightarrow> if \<not> cs_enabled (cc_settings x) then None else c)"

section \<open>Methods\<close>

definition publishLocked :: "openAIProxyStreamCircuit \<Rightarrow> openAIProxyStreamCircuit" where
  "publishLocked c =
     c\<lparr>cc_blocked := map (\<lambda>(p, e). (p, ce_blockedUntil e))
         (filter (\<lambda>(p, e). \<not> is_zero (ce_blockedUntil e)) (cc_entries c))\<rparr>"

definition removable :: "openAIProxyStreamCircuitSettings \<Rightarrow> gotime \<Rightarrow> openAIProxyStreamCircuitEntry \<Rightarrow> bool" where
  "removable settings now e \<longleftrightarrow>
     (is_zero (ce_blockedUntil e) \<and> cs_failureWindow settings < time_sub now (ce_lastTouched e))
     \<or> (\<not> is_zero (ce_blockedUntil e) \<and> \<not> now < ce_blockedUntil e)"

fun oldest_entry ::
  "int \<times> gotime \<Rightarrow> (int \<times> openAIProxyStreamCircuitEntry) list \<Rightarrow> int \<times> gotime" where
  "oldest_entry acc [] = acc"
| "oldest_entry (oldestProxyID, oldest) ((proxyID, entry) # es) =
     (if oldestProxyID = 0 \<or> ce_lastTouched entry < oldest
      then oldest_entry (proxyID, ce_lastTouched entry) es
      else oldest_entry (oldestProxyID, oldest) es)"

type_synonym entry_order =
  "(int \<times> openAIProxyStreamCircuitEntry) list \<Rightarrow> (int \<times> openAIProxyStreamCircuitEntry) list"

definition ensureCapacityLocked ::
  "entry_order \<Rightarrow> gotime \<Rightarrow> openAIProxyStreamCircuit \<Rightarrow> openAIProxyStreamCircuit" where
  "ensureCapacityLocked ord now c =
     (if int (length (cc_entries c)) < cs_maxEntries (cc_settings c) then c
      else
        (let c = c\<lparr>cc_entries := filter (\<lambda>(p, e). \<not> removable (cc_settings c) now e) (cc_entries c)\<rparr> in
         if int (length (cc_entries c)) < cs_maxEntries (cc_settings c) then c
         else
           (let oldestProxyID = fst (oldest_entry (0, 0) (ord (cc_entries c)));
                c = (if 0 < oldestProxyID then c\<lparr>cc_entries := gm_del oldestProxyID (cc_entries c)\<rparr> else c)
            in publishLocked c)))"

text \<open>The parts of \<open>recordFailure\<close>: a new window, and a failure that is counted.\<close>

definition window_entry ::
  "openAIProxyStreamCircuitSettings \<Rightarrow> gotime \<Rightarrow> openAIProxyStreamCircuitEntry \<Rightarrow> openAIProxyStreamCircuitEntry" where
  "window_entry settings now entry =
     (if is_zero (ce_windowStart entry) \<or> now < ce_windowStart entry
         \<or> cs_failureWindow settings < time_sub now (ce_windowStart entry)
      then entry\<lparr>ce_failureCount := 0, ce_windowStart := now, ce_blockedUntil := 0, ce_lastFailureAt := 0\<rparr>
      else entry)"

definition count_failure ::
  "int \<Rightarrow> gotime \<Rightarrow> openAIProxyStreamCircuitEntry \<Rightarrow> openAIProxyStreamCircuit \<Rightarrow>
   openAIProxyStreamCircuit \<times> bool \<times> gotime" where
  "count_failure proxyID now entry c =
     (let entry = entry\<lparr>ce_failureCount := ce_failureCount entry + 1, ce_lastFailureAt := now,
            ce_lastTouched := now\<rparr>;
          tripped = (cs_failureThreshold (cc_settings c) \<le> ce_failureCount entry);
          entry = (if tripped
            then entry\<lparr>ce_blockedUntil := time_add now (cs_quarantineTTL (cc_settings c))\<rparr> else entry)
      in (publishLocked (c\<lparr>cc_entries := gm_put proxyID entry (cc_entries c)\<rparr>), tripped, ce_blockedUntil entry))"

definition recordFailure ::
  "entry_order \<Rightarrow> int \<Rightarrow> gotime \<Rightarrow> openAIProxyStreamCircuit \<Rightarrow> openAIProxyStreamCircuit \<times> bool \<times> gotime" where
  "recordFailure ord proxyID now c =
     (if \<not> cs_enabled (cc_settings c) \<or> proxyID \<le> 0 then (c, False, 0)
      else
        (let entry = gm_getd zero_entry (cc_entries c) proxyID;
             present = (gm_get (cc_entries c) proxyID \<noteq> None)
         in if present \<and> now < ce_blockedUntil entry then
              (c\<lparr>cc_entries := gm_put proxyID (entry\<lparr>ce_lastTouched := now\<rparr>) (cc_entries c)\<rparr>, False,
               ce_blockedUntil entry)
            else
              (let c = (if \<not> present then ensureCapacityLocked ord now c else c);
                   entry = window_entry (cc_settings c) now entry;
                   elapsed = time_sub now (ce_lastFailureAt entry)
               in if 0 < cs_collapseInterval (cc_settings c) \<and> \<not> is_zero (ce_lastFailureAt entry)
                     \<and> 0 \<le> elapsed \<and> elapsed < cs_collapseInterval (cc_settings c)
                  then (c\<lparr>cc_entries := gm_put proxyID (entry\<lparr>ce_lastTouched := now\<rparr>) (cc_entries c)\<rparr>, False, 0)
                  else count_failure proxyID now entry c)))"

definition recordTerminal :: "int \<Rightarrow> gotime \<Rightarrow> openAIProxyStreamCircuit \<Rightarrow> openAIProxyStreamCircuit" where
  "recordTerminal proxyID now c =
     (if \<not> cs_enabled (cc_settings c) \<or> proxyID \<le> 0 then c
      else publishLocked
        (case gm_get (cc_entries c) proxyID of
           None \<Rightarrow> c\<lparr>cc_entries := gm_del proxyID (cc_entries c)\<rparr>
         | Some entry \<Rightarrow>
             (if \<not> now < ce_blockedUntil entry then c\<lparr>cc_entries := gm_del proxyID (cc_entries c)\<rparr>
              else c\<lparr>cc_entries := gm_put proxyID (entry\<lparr>ce_failureCount := 0, ce_windowStart := 0,
                       ce_lastFailureAt := 0, ce_lastTouched := now\<rparr>) (cc_entries c)\<rparr>)))"

definition isBlocked :: "openAIProxyStreamCircuit option \<Rightarrow> int \<Rightarrow> gotime \<Rightarrow> bool" where
  "isBlocked circuit proxyID now =
     (case circuit of
        None \<Rightarrow> False
      | Some c \<Rightarrow>
          (if \<not> cs_enabled (cc_settings c) \<or> proxyID \<le> 0 then False
           else case gm_get (cc_blocked c) proxyID of
                  None \<Rightarrow> False
                | Some blockedUntil \<Rightarrow> now < blockedUntil))"

section \<open>Outcomes of a stream\<close>

record openAIAccountStreamDisconnectState =
  ds_count :: int
  ds_start :: gotime
  ds_blockedUntil :: gotime

definition nextLocalOpenAIAccountStreamFailure ::
  "int \<Rightarrow> gotime \<Rightarrow> (int, openAIAccountStreamDisconnectState) gomap \<Rightarrow>
   (int, openAIAccountStreamDisconnectState) gomap \<times> int \<times> gotime" where
  "nextLocalOpenAIAccountStreamFailure accountID now counts =
     (let fresh = \<lparr>ds_count = 1, ds_start = now, ds_blockedUntil = 0\<rparr>;
          state =
            (case gm_get counts accountID of
               None \<Rightarrow> fresh
             | Some st \<Rightarrow>
                 (if is_zero (ds_start st) \<or> now < ds_start st
                     \<or> openAIAccountStreamFailureWindow \<le> time_sub now (ds_start st)
                  then fresh else st\<lparr>ds_count := ds_count st + 1\<rparr>));
          state =
            (if openAIAccountStreamFailureThreshold \<le> ds_count state \<and> is_zero (ds_blockedUntil state)
             then state\<lparr>ds_blockedUntil := time_add now openAIStopSchedulingBridgeCooldown\<rparr> else state)
      in (gm_put accountID state counts, ds_count state, ds_blockedUntil state))"

record stream_service =
  ss_circuit :: "openAIProxyStreamCircuit option"
  ss_counts :: "(int, openAIAccountStreamDisconnectState) gomap"
  ss_cleanupAt :: int
  ss_hasAccountRepo :: bool

definition pruneLocalOpenAIAccountStreamDisconnectCounts :: "gotime \<Rightarrow> stream_service \<Rightarrow> stream_service" where
  "pruneLocalOpenAIAccountStreamDisconnectCounts now s =
     (if 0 < ss_cleanupAt s \<and> now - ss_cleanupAt s < minute then s
      else s\<lparr>ss_cleanupAt := now,
             ss_counts := filter (\<lambda>(k, st). \<not> (is_zero (ds_start st)
               \<or> openAIAccountStreamFailureWindow < time_sub now (ds_start st))) (ss_counts s)\<rparr>)"

datatype stream_effect =
    BlockAccountScheduling int gotime string
  | SetTempUnschedulable int gotime string
  | ReportScheduleResult int string bool

definition blockOpenAIAccountTransportFailureUntil ::
  "stream_service \<Rightarrow> Account option \<Rightarrow> string \<Rightarrow> string \<Rightarrow> gotime \<Rightarrow> gotime \<Rightarrow> stream_effect list" where
  "blockOpenAIAccountTransportFailureUntil s acc source reason until now =
     (case acc of
        None \<Rightarrow> []
      | Some a \<Rightarrow>
          (if \<not> now < until then []
           else BlockAccountScheduling (ac_ID a) until source #
             (if ss_hasAccountRepo s then [SetTempUnschedulable (ac_ID a) until reason] else [])))"

definition blockOpenAIAccountTransportFailure ::
  "stream_service \<Rightarrow> Account option \<Rightarrow> string \<Rightarrow> string \<Rightarrow> gotime \<Rightarrow> gotime \<Rightarrow> stream_effect list" where
  "blockOpenAIAccountTransportFailure s acc source reason now now2 =
     (case acc of
        None \<Rightarrow> []
      | Some a \<Rightarrow>
          (if ac_ID a \<le> 0 \<or> ac_Platform a \<noteq> PlatformOpenAI then []
           else blockOpenAIAccountTransportFailureUntil s acc source reason
                  (time_add now openAIStopSchedulingBridgeCooldown) now2))"

text \<open>\<open>redis\<close> is the answer of the shared counter: \<open>None\<close> when Redis is not configured or the
  script fails, else the count and the end of the block, zero when there is none.\<close>

definition recordOpenAIAccountStreamDisconnect ::
  "(int \<times> gotime) option \<Rightarrow> gotime \<Rightarrow> gotime \<Rightarrow> Account option \<Rightarrow> stream_service \<Rightarrow>
   stream_service \<times> stream_effect list" where
  "recordOpenAIAccountStreamDisconnect redis now now2 acc s =
     (case acc of
        None \<Rightarrow> (s, [])
      | Some a \<Rightarrow>
          (if ac_Platform a \<noteq> PlatformOpenAI \<or> ac_ID a \<le> 0 then (s, [])
           else
             (let (s, cnt, until) =
                (case redis of
                   Some (n, u) \<Rightarrow> (s, n, u)
                 | None \<Rightarrow>
                     (case nextLocalOpenAIAccountStreamFailure (ac_ID a) now (ss_counts s) of
                        (counts, n, u) \<Rightarrow> (s\<lparr>ss_counts := counts\<rparr>, n, u)));
                  s = pruneLocalOpenAIAccountStreamDisconnectCounts now s
              in (s, if openAIAccountStreamFailureThreshold \<le> cnt \<and> now < until
                     then blockOpenAIAccountTransportFailureUntil s acc ''upstream_stream_failure''
                            ''upstream stream failed repeatedly'' until now2
                     else []))))"

datatype stream_error = NoStreamError | ContextCanceled | ContextDeadlineExceeded | OtherStreamError

definition openAIProxyStreamCircuitProxyID :: "Account option \<Rightarrow> int option" where
  "openAIProxyStreamCircuitProxyID acc =
     (case acc of
        None \<Rightarrow> None
      | Some a \<Rightarrow>
          (if ac_Platform a \<noteq> PlatformOpenAI then None
           else case ac_ProxyID a of None \<Rightarrow> None | Some p \<Rightarrow> if p \<le> 0 then None else Some p))"

definition interrupted :: "stream_error \<Rightarrow> bool" where
  "interrupted err \<longleftrightarrow> err = ContextCanceled \<or> err = ContextDeadlineExceeded"

definition recordOpenAIProxyStreamOutcome ::
  "entry_order \<Rightarrow> (int \<times> gotime) option \<Rightarrow> gotime \<Rightarrow> gotime \<Rightarrow> gotime \<Rightarrow> Account option \<Rightarrow> string \<Rightarrow> bool \<Rightarrow>
   stream_error \<Rightarrow> stream_service \<Rightarrow> stream_service \<times> stream_effect list" where
  "recordOpenAIProxyStreamOutcome ord redis now now2 now3 acc cls terminalSuccess streamErr s =
     (let (s, effects) =
        (if (case acc of None \<Rightarrow> False | Some a \<Rightarrow> ac_Platform a = PlatformOpenAI)
            \<and> \<not> terminalSuccess
            \<and> (cls = OpenAIStreamFailureUpstreamDisconnect \<or> cls = OpenAIStreamFailureUpstreamError)
            \<and> \<not> interrupted streamErr
         then recordOpenAIAccountStreamDisconnect redis now now2 acc s else (s, []))
      in case openAIProxyStreamCircuitProxyID acc of
           None \<Rightarrow> (s, effects)
         | Some proxyID \<Rightarrow>
             (case getOpenAIProxyStreamCircuit (ss_circuit s) of
                None \<Rightarrow> (s, effects)
              | Some c \<Rightarrow>
                  (if terminalSuccess then (s\<lparr>ss_circuit := Some (recordTerminal proxyID now3 c)\<rparr>, effects)
                   else if cls = OpenAIStreamFailureUpstreamError
                     then (s\<lparr>ss_circuit := Some (recordTerminal proxyID now3 c)\<rparr>, effects)
                   else if cls \<noteq> OpenAIStreamFailureUpstreamDisconnect then (s, effects)
                   else if interrupted streamErr then (s, effects)
                   else (s\<lparr>ss_circuit := Some (fst (recordFailure ord proxyID now3 c))\<rparr>, effects))))"

definition RecordOpenAIAccountStreamDisconnect ::
  "entry_order \<Rightarrow> (int \<times> gotime) option \<Rightarrow> gotime \<Rightarrow> gotime \<Rightarrow> gotime \<Rightarrow> Account option \<Rightarrow> string \<Rightarrow>
   stream_service \<Rightarrow> stream_service \<times> stream_effect list" where
  "RecordOpenAIAccountStreamDisconnect ord redis now now2 now3 acc requestedModel s =
     (case acc of
        None \<Rightarrow> (s, [])
      | Some a \<Rightarrow>
          (let (s, effects) = recordOpenAIProxyStreamOutcome ord redis now now2 now3 acc
             OpenAIStreamFailureUpstreamDisconnect False OtherStreamError s
           in (s, effects @ [ReportScheduleResult (ac_ID a) requestedModel False])))"

text \<open>A success clears nothing: the counters expire with their window.\<close>

definition clearOpenAIAccountStreamFailures :: "int \<Rightarrow> stream_service \<Rightarrow> stream_service" where
  "clearOpenAIAccountStreamFailures accountID s = s"

definition RecordOpenAIEdgeStreamOutcome ::
  "entry_order \<Rightarrow> (int \<times> gotime) option \<Rightarrow> gotime \<Rightarrow> gotime \<Rightarrow> gotime \<Rightarrow> Account option \<Rightarrow> string \<Rightarrow> bool \<Rightarrow>
   string \<Rightarrow> stream_service \<Rightarrow> stream_service \<times> stream_effect list" where
  "RecordOpenAIEdgeStreamOutcome ord redis now now2 now3 acc failureClass terminalSuccess errorMessage s =
     (if \<not> terminalSuccess \<and> to_lower (trim_space failureClass) = ''upstream_no_progress''
      then (s, blockOpenAIAccountTransportFailure s acc ''upstream_no_progress''
                 ''upstream response made no effective progress'' now now2)
      else recordOpenAIProxyStreamOutcome ord redis now now2 now3 acc (trim_space failureClass) terminalSuccess
             (if trim_space errorMessage \<noteq> '''' then OtherStreamError else NoStreamError) s)"

definition isOpenAIProxyStreamQuarantined :: "stream_service \<Rightarrow> Account option \<Rightarrow> gotime \<Rightarrow> bool" where
  "isOpenAIProxyStreamQuarantined s acc now =
     (case openAIProxyStreamCircuitProxyID acc of
        None \<Rightarrow> False
      | Some proxyID \<Rightarrow>
          (case getOpenAIProxyStreamCircuit (ss_circuit s) of
             None \<Rightarrow> False
           | Some c \<Rightarrow> isBlocked (Some c) proxyID now))"

section \<open>Invariant of the circuit\<close>

definition permutes_entries :: "entry_order \<Rightarrow> bool" where
  "permutes_entries ord \<longleftrightarrow> (\<forall>xs. set (ord xs) = set xs)"

definition published :: "openAIProxyStreamCircuit \<Rightarrow> bool" where
  "published c \<longleftrightarrow> (\<forall>p. gm_get (cc_blocked c) p =
     (case gm_get (cc_entries c) p of
        None \<Rightarrow> None | Some e \<Rightarrow> if ce_blockedUntil e = 0 then None else Some (ce_blockedUntil e)))"

definition entries_ok :: "openAIProxyStreamCircuit \<Rightarrow> bool" where
  "entries_ok c \<longleftrightarrow> gm_ok (cc_entries c) \<and> (\<forall>(p, e) \<in> set (cc_entries c). 0 < p)
     \<and> 0 < cs_maxEntries (cc_settings c) \<and> int (length (cc_entries c)) \<le> cs_maxEntries (cc_settings c)"

definition circuit_ok :: "openAIProxyStreamCircuit \<Rightarrow> bool" where
  "circuit_ok c \<longleftrightarrow> entries_ok c \<and> published c"

lemma gm_get_published_map:
  assumes "gm_ok m"
  shows "gm_get (map (\<lambda>(p, e). (p, ce_blockedUntil e)) (filter (\<lambda>(p, e). ce_blockedUntil e \<noteq> 0) m)) k =
    (case gm_get m k of None \<Rightarrow> None | Some e \<Rightarrow> if ce_blockedUntil e = 0 then None else Some (ce_blockedUntil e))"
  using assms
proof (induction m)
  case Nil
  then show ?case by simp
next
  case (Cons x m)
  obtain p e where x: "x = (p, e)" by force
  have ok: "gm_ok m" and new: "gm_get m p = None"
    using Cons.prems x by (auto simp: gm_ok_def gm_get_None image_iff)
  show ?case using Cons.IH [OF ok] new x by (auto simp: gm_get_def)
qed

lemma publishLocked_simps [simp]:
  "cc_entries (publishLocked c) = cc_entries c" "cc_settings (publishLocked c) = cc_settings c"
  by (simp_all add: publishLocked_def)

lemma published_publishLocked: "gm_ok (cc_entries c) \<Longrightarrow> published (publishLocked c)"
  using gm_get_published_map [of "cc_entries c"] by (simp add: published_def publishLocked_def)

lemma entries_ok_publishLocked [simp]: "entries_ok (publishLocked c) = entries_ok c"
  by (simp add: entries_ok_def)

lemma gm_del_subset: "set (gm_del k m) \<subseteq> set m" "length (gm_del k m) \<le> length m"
  by (auto simp: gm_del_def AList.delete_eq length_filter_le)

lemma gm_del_length: "gm_get m k \<noteq> None \<Longrightarrow> length (gm_del k m) < length m"
proof -
  assume "gm_get m k \<noteq> None"
  then obtain v where "(k, v) \<in> set m" using gm_get_SomeD by fastforce
  then show ?thesis unfolding gm_del_def AList.delete_eq by (intro length_filter_less) auto
qed

lemma oldest_entry_mem:
  "i \<noteq> 0 \<Longrightarrow> \<forall>(p, e) \<in> set es. 0 < p \<Longrightarrow> fst (oldest_entry (i, t) es) \<in> insert i (fst ` set es)"
  by (induction "(i, t)" es arbitrary: i t rule: oldest_entry.induct) (force split: if_splits)+

lemma oldest_entry_start:
  assumes "es \<noteq> []" "\<forall>(p, e) \<in> set es. 0 < p"
  shows "fst (oldest_entry (0, 0) es) \<in> fst ` set es"
proof (cases es)
  case (Cons x xs)
  obtain p e where "x = (p, e)" by force
  with Cons assms(2) oldest_entry_mem [of p xs "ce_lastTouched e"] show ?thesis by auto
qed (use assms in simp)

lemma ensureCapacityLocked_settings [simp]:
  "cc_settings (ensureCapacityLocked ord now c) = cc_settings c"
  by (simp add: ensureCapacityLocked_def Let_def)

lemma ensureCapacityLocked_ok:
  assumes "entries_ok c" "permutes_entries ord"
  shows "entries_ok (ensureCapacityLocked ord now c)
    \<and> int (length (cc_entries (ensureCapacityLocked ord now c))) < cs_maxEntries (cc_settings c)
    \<and> set (cc_entries (ensureCapacityLocked ord now c)) \<subseteq> set (cc_entries c)"
proof (cases "int (length (cc_entries c)) < cs_maxEntries (cc_settings c)")
  case True
  then show ?thesis using assms(1) by (simp add: ensureCapacityLocked_def)
next
  case full: False
  define c1 where "c1 = c\<lparr>cc_entries := filter (\<lambda>(p, e). \<not> removable (cc_settings c) now e) (cc_entries c)\<rparr>"
  have c1: "entries_ok c1" "set (cc_entries c1) \<subseteq> set (cc_entries c)"
    using assms(1) length_filter_le [of _ "cc_entries c"]
    by (auto simp: c1_def entries_ok_def intro: order_trans [of _ "int (length (cc_entries c))"])
  show ?thesis
  proof (cases "int (length (cc_entries c1)) < cs_maxEntries (cc_settings c)")
    case True
    then have "ensureCapacityLocked ord now c = c1" using full by (simp add: ensureCapacityLocked_def c1_def)
    with c1 True show ?thesis by simp
  next
    case False
    define o1 where "o1 = fst (oldest_entry (0, 0) (ord (cc_entries c1)))"
    have "cc_entries c1 \<noteq> []" using False c1(1) by (auto simp: entries_ok_def c1_def)
    then have "ord (cc_entries c1) \<noteq> []" using assms(2) unfolding permutes_entries_def by (metis set_empty)
    moreover have "\<forall>(p, e) \<in> set (ord (cc_entries c1)). 0 < p"
      using c1(1) assms(2) by (simp add: entries_ok_def permutes_entries_def)
    ultimately have "o1 \<in> fst ` set (ord (cc_entries c1))" unfolding o1_def by (rule oldest_entry_start)
    then have o1: "o1 \<in> fst ` set (cc_entries c1)" using assms(2) by (simp add: permutes_entries_def)
    then have pos: "0 < o1" using c1(1) by (auto simp: entries_ok_def)
    have "length (gm_del o1 (cc_entries c1)) < length (cc_entries c1)"
      using o1 by (intro gm_del_length) (simp add: gm_get_None)
    moreover have "ensureCapacityLocked ord now c = publishLocked (c1\<lparr>cc_entries := gm_del o1 (cc_entries c1)\<rparr>)"
      using full False pos by (simp add: ensureCapacityLocked_def c1_def o1_def Let_def)
    ultimately show ?thesis
      using c1 gm_del_subset [of o1 "cc_entries c1"] by (auto simp: entries_ok_def c1_def)
  qed
qed

text \<open>The three ways in which a recorded failure ends.\<close>

lemma entries_ok_put:
  assumes "entries_ok c" "0 < p"
    and "gm_get (cc_entries c) p \<noteq> None \<or> int (length (cc_entries c)) < cs_maxEntries (cc_settings c)"
  shows "entries_ok (c\<lparr>cc_entries := gm_put p e (cc_entries c)\<rparr>)"
proof -
  have keys: "fst ` set (gm_put p e (cc_entries c)) = insert p (fst ` set (cc_entries c))" by (rule fst_set_gm_put)
  have "0 < q" if "(q, x) \<in> set (gm_put p e (cc_entries c))" for q x
  proof -
    have "q \<in> insert p (fst ` set (cc_entries c))" using that keys by force
    with assms(1,2) show ?thesis by (auto simp: entries_ok_def)
  qed
  moreover have "int (length (gm_put p e (cc_entries c))) \<le> cs_maxEntries (cc_settings c)"
  proof (cases "gm_get (cc_entries c) p")
    case None
    with assms show ?thesis by (auto simp: gm_put_new_length)
  next
    case (Some w)
    with assms show ?thesis by (auto simp: gm_put_old_length entries_ok_def)
  qed
  ultimately show ?thesis using assms(1) by (auto simp: entries_ok_def)
qed

lemma published_put:
  assumes "published c" "ce_blockedUntil e = ce_blockedUntil x" "gm_get (cc_entries c) p = Some x"
  shows "published (c\<lparr>cc_entries := gm_put p e (cc_entries c)\<rparr>)"
  using assms by (auto simp: published_def split: option.splits)

lemma gm_get_subset: "gm_ok m \<Longrightarrow> gm_ok m' \<Longrightarrow> set m' \<subseteq> set m \<Longrightarrow> gm_get m k = None \<Longrightarrow> gm_get m' k = None"
  by (auto simp: gm_get_None)

lemma count_failure_result:
  assumes "count_failure p now w c = (c', tripped, until)"
  shows "(tripped \<longleftrightarrow> cs_failureThreshold (cc_settings c) \<le> ce_failureCount w + 1)
    \<and> c' = publishLocked (c\<lparr>cc_entries := gm_put p (w\<lparr>ce_failureCount := ce_failureCount w + 1,
        ce_lastFailureAt := now, ce_lastTouched := now,
        ce_blockedUntil := (if tripped then time_add now (cs_quarantineTTL (cc_settings c)) else ce_blockedUntil w)\<rparr>)
        (cc_entries c)\<rparr>)"
  using assms by (cases w) (auto simp: count_failure_def Let_def split: if_splits)

lemma recordFailure_cases:
  assumes "recordFailure ord p now c = (c', tripped, until)"
  obtains (ignored) "\<not> cs_enabled (cc_settings c) \<or> p \<le> 0" "c' = c" "\<not> tripped"
  | (blocked) e where "0 < p" "gm_get (cc_entries c) p = Some e" "now < ce_blockedUntil e" "\<not> tripped"
      "c' = c\<lparr>cc_entries := gm_put p (e\<lparr>ce_lastTouched := now\<rparr>) (cc_entries c)\<rparr>"
  | (collapsed) e where "0 < p" "gm_get (cc_entries c) p = Some e" "\<not> tripped" "ce_lastFailureAt e \<noteq> 0"
      "0 \<le> time_sub now (ce_lastFailureAt e)"
      "time_sub now (ce_lastFailureAt e) < cs_collapseInterval (cc_settings c)"
      "c' = c\<lparr>cc_entries := gm_put p (e\<lparr>ce_lastTouched := now\<rparr>) (cc_entries c)\<rparr>"
  | (counted) c1 e where "cs_enabled (cc_settings c)" "0 < p"
      "c1 = (if gm_get (cc_entries c) p = None then ensureCapacityLocked ord now c else c)"
      "e = window_entry (cc_settings c) now (gm_getd zero_entry (cc_entries c) p)"
      "tripped \<longleftrightarrow> cs_failureThreshold (cc_settings c) \<le> ce_failureCount e + 1"
      "c' = publishLocked (c1\<lparr>cc_entries := gm_put p (e\<lparr>ce_failureCount := ce_failureCount e + 1,
          ce_lastFailureAt := now, ce_lastTouched := now,
          ce_blockedUntil := (if tripped then time_add now (cs_quarantineTTL (cc_settings c)) else ce_blockedUntil e)\<rparr>)
          (cc_entries c1)\<rparr>)"
proof (cases "\<not> cs_enabled (cc_settings c) \<or> p \<le> 0")
  case True
  then have "recordFailure ord p now c = (c, False, 0)" unfolding recordFailure_def by (simp only: if_True)
  with True assms show thesis by (intro ignored) simp_all
next
  case on: False
  let ?e = "gm_getd zero_entry (cc_entries c) p"
  let ?w = "window_entry (cc_settings c) now ?e"
  let ?c1 = "if gm_get (cc_entries c) p = None then ensureCapacityLocked ord now c else c"
  have set1: "cc_settings ?c1 = cc_settings c" by simp
  let ?collapse = "0 < cs_collapseInterval (cc_settings c) \<and> ce_lastFailureAt ?w \<noteq> 0
    \<and> 0 \<le> time_sub now (ce_lastFailureAt ?w) \<and> time_sub now (ce_lastFailureAt ?w) < cs_collapseInterval (cc_settings c)"
  consider (b) "gm_get (cc_entries c) p \<noteq> None" "now < ce_blockedUntil ?e"
    | (k) "\<not> (gm_get (cc_entries c) p \<noteq> None \<and> now < ce_blockedUntil ?e)" "?collapse"
    | (n) "\<not> (gm_get (cc_entries c) p \<noteq> None \<and> now < ce_blockedUntil ?e)" "\<not> ?collapse" by blast
  then show thesis
  proof cases
    case b
    then obtain e where "gm_get (cc_entries c) p = Some e" by blast
    with b on assms blocked [of e] show thesis by (auto simp: recordFailure_def gm_getd_def)
  next
    case k
    then have w: "?w = ?e" by (auto simp: window_entry_def split: if_splits)
    have "ce_lastFailureAt ?e \<noteq> 0" using k(2) w by simp
    then have "gm_get (cc_entries c) p \<noteq> None"
      by (cases "gm_get (cc_entries c) p") (simp_all add: gm_getd_def zero_entry_def)
    then obtain e where e: "gm_get (cc_entries c) p = Some e" by blast
    have run: "recordFailure ord p now c =
      (c\<lparr>cc_entries := gm_put p (?w\<lparr>ce_lastTouched := now\<rparr>) (cc_entries c)\<rparr>, False, 0)"
      using k on e by (simp add: recordFailure_def Let_def)
    show thesis
      by (rule collapsed [of e]) (use run assms k w e on in \<open>auto simp: gm_getd_def\<close>)
  next
    case n
    have "recordFailure ord p now c = count_failure p now ?w ?c1"
      using n on by (auto simp: recordFailure_def Let_def)
    with assms have run: "count_failure p now ?w ?c1 = (c', tripped, until)" by simp
    from count_failure_result [OF run] on show thesis
      unfolding set1 by (intro counted [of ?c1 ?w]) simp_all
  qed
qed

lemma recordFailure_ok:
  assumes "circuit_ok c" "permutes_entries ord" "recordFailure ord p now c = (c', tripped, until)"
  shows "circuit_ok c' \<and> cc_settings c' = cc_settings c"
  using assms(3)
proof (cases rule: recordFailure_cases)
  case ignored
  then show ?thesis using assms(1) by simp
next
  case (blocked e)
  then show ?thesis
    using assms(1) by (auto simp: circuit_ok_def intro: entries_ok_put published_put [OF _ _ blocked(2)])
next
  case (collapsed e)
  then show ?thesis
    using assms(1) by (auto simp: circuit_ok_def intro: entries_ok_put published_put [OF _ _ collapsed(2)])
next
  case (counted c1 e)
  have ok: "entries_ok c" using assms(1) by (simp add: circuit_ok_def)
  have "entries_ok c1" "gm_get (cc_entries c1) p \<noteq> None \<or> int (length (cc_entries c1)) < cs_maxEntries (cc_settings c1)"
    using ensureCapacityLocked_ok [OF ok assms(2)] ok counted(3) by auto
  then have "entries_ok (c1\<lparr>cc_entries := gm_put p x (cc_entries c1)\<rparr>)" for x
    by (rule entries_ok_put [OF _ counted(2)])
  with counted show ?thesis
    by (auto simp: circuit_ok_def entries_ok_def intro!: published_publishLocked)
qed

lemma recordTerminal_ok:
  assumes "circuit_ok c"
  shows "circuit_ok (recordTerminal p now c) \<and> cc_settings (recordTerminal p now c) = cc_settings c"
proof -
  have ok: "entries_ok c" using assms by (simp add: circuit_ok_def)
  have del: "entries_ok (c\<lparr>cc_entries := gm_del p (cc_entries c)\<rparr>)"
    using ok gm_del_subset [of p "cc_entries c"] by (auto simp: entries_ok_def)
  have put: "entries_ok (c\<lparr>cc_entries := gm_put p e (cc_entries c)\<rparr>)"
    if "0 < p" "gm_get (cc_entries c) p = Some x" for e x
    using entries_ok_put [OF ok that(1)] that(2) by simp
  show ?thesis
    using assms del put
    by (auto simp: recordTerminal_def circuit_ok_def entries_ok_def intro!: published_publishLocked
        split: option.splits)
qed

section \<open>Runs of the circuit\<close>

datatype circuit_event = StreamFailure entry_order int gotime | StreamTerminal int gotime

fun circuit_step :: "circuit_event \<Rightarrow> openAIProxyStreamCircuit \<Rightarrow> openAIProxyStreamCircuit \<times> bool" where
  "circuit_step (StreamFailure ord p now) c = (case recordFailure ord p now c of (c', tripped, _) \<Rightarrow> (c', tripped))"
| "circuit_step (StreamTerminal p now) c = (recordTerminal p now c, False)"

definition fair_event :: "circuit_event \<Rightarrow> bool" where
  "fair_event ev = (case ev of StreamFailure ord _ _ \<Rightarrow> permutes_entries ord | _ \<Rightarrow> True)"

interpretation circuit: invariant_system circuit_step fair_event circuit_ok
proof
  fix ev c
  assume "fair_event ev" "circuit_ok c"
  then show "circuit_ok (fst (circuit_step ev c))"
    using recordFailure_ok recordTerminal_ok
    by (cases ev) (auto simp: fair_event_def split: prod.splits)
qed

lemma new_circuit_ok: "circuit_ok (newOpenAIProxyStreamCircuit settings)"
  by (simp add: circuit_ok_def entries_ok_def published_def newOpenAIProxyStreamCircuit_def
      defaultOpenAIProxyStreamCircuitMaxEntries_def)

lemma run_circuit_settings:
  "list_all fair_event evs \<Longrightarrow> circuit_ok c \<Longrightarrow> cc_settings (fst (run_all circuit_step evs c)) = cc_settings c"
proof (induction evs arbitrary: c)
  case Nil
  then show ?case by simp
next
  case (Cons ev evs)
  have "cc_settings (fst (circuit_step ev c)) = cc_settings c"
    using Cons.prems recordFailure_ok recordTerminal_ok by (cases ev) (auto simp: fair_event_def split: prod.splits)
  moreover have "circuit_ok (fst (circuit_step ev c))" using Cons.prems circuit.inv_step by simp
  ultimately show ?case using Cons.IH [of "fst (circuit_step ev c)"] Cons.prems by (simp add: split_def)
qed

text \<open>After any sequence of outcomes, in whatever order the map is iterated, the table stays
  within its maximum size, its keys are unique positive proxies, and the snapshot that the lock-free
  \<open>isBlocked\<close> reads agrees with the table: a proxy is reported as blocked exactly when its entry
  has a block that has not ended.\<close>

theorem circuit_reachable:
  assumes "list_all fair_event evs" "run_all circuit_step evs (newOpenAIProxyStreamCircuit settings) = (c, outs)"
  shows "int (length (cc_entries c)) \<le> cs_maxEntries (cc_settings c) \<and> gm_ok (cc_entries c)
    \<and> (\<forall>p now. isBlocked (Some c) p now \<longleftrightarrow> cs_enabled (cc_settings c)
         \<and> (\<exists>e. gm_get (cc_entries c) p = Some e \<and> ce_blockedUntil e \<noteq> 0 \<and> now < ce_blockedUntil e))"
proof -
  have ok: "circuit_ok c" using circuit.inv_run_all [OF assms(1) new_circuit_ok, of settings] assms(2) by simp
  have pos: "0 < p" if "gm_get (cc_entries c) p = Some e" for p e
    using ok gm_get_SomeD [OF that] by (auto simp: circuit_ok_def entries_ok_def)
  have "isBlocked (Some c) p now \<longleftrightarrow> cs_enabled (cc_settings c)
      \<and> (\<exists>e. gm_get (cc_entries c) p = Some e \<and> ce_blockedUntil e \<noteq> 0 \<and> now < ce_blockedUntil e)" for p now
    using ok pos [of p] by (auto simp: circuit_ok_def published_def isBlocked_def split: option.splits if_splits)
  with ok show ?thesis by (simp add: circuit_ok_def entries_ok_def)
qed


section \<open>Streaks of failures\<close>

fun spaced :: "int \<Rightarrow> int \<Rightarrow> int list \<Rightarrow> bool" where
  "spaced d t [] = True"
| "spaced d t (u # us) \<longleftrightarrow> t + d \<le> u \<and> t \<le> u \<and> spaced d u us"

definition streak_entry ::
  "int \<Rightarrow> gotime \<Rightarrow> gotime \<Rightarrow> openAIProxyStreamCircuitEntry \<Rightarrow> bool" where
  "streak_entry n t0 t e \<longleftrightarrow> ce_failureCount e = n \<and> ce_windowStart e = t0 \<and> ce_lastFailureAt e = t
     \<and> ce_blockedUntil e = 0"

lemma recordFailure_first:
  assumes "cs_enabled (cc_settings c)" "0 < p" "gm_get (cc_entries c) p = None"
  obtains c1 e until where "recordFailure ord p now c = (c1, cs_failureThreshold (cc_settings c) \<le> 1, until)"
    "cc_settings c1 = cc_settings c" "gm_get (cc_entries c1) p = Some e"
    "1 < cs_failureThreshold (cc_settings c) \<Longrightarrow> streak_entry 1 now now e"
proof -
  obtain c1 tripped until where run: "recordFailure ord p now c = (c1, tripped, until)" by (metis prod_cases3)
  then show thesis
  proof (cases rule: recordFailure_cases)
    case (counted c0 e)
    have e: "ce_failureCount e = 0" "ce_windowStart e = now" "ce_blockedUntil e = 0"
      using counted(4) assms(3) by (auto simp: gm_getd_def zero_entry_def window_entry_def)
    show thesis
    proof (rule that)
      show "recordFailure ord p now c = (c1, cs_failureThreshold (cc_settings c) \<le> 1, until)"
        using run counted(5) e by simp
      show "cc_settings c1 = cc_settings c" using counted(3,6) by simp
      show "gm_get (cc_entries c1) p = Some (e\<lparr>ce_failureCount := ce_failureCount e + 1,
          ce_lastFailureAt := now, ce_lastTouched := now,
          ce_blockedUntil := (if tripped then time_add now (cs_quarantineTTL (cc_settings c)) else ce_blockedUntil e)\<rparr>)"
        using counted(6) by simp
      show "streak_entry 1 now now (e\<lparr>ce_failureCount := ce_failureCount e + 1,
          ce_lastFailureAt := now, ce_lastTouched := now,
          ce_blockedUntil := (if tripped then time_add now (cs_quarantineTTL (cc_settings c)) else ce_blockedUntil e)\<rparr>)"
        if "1 < cs_failureThreshold (cc_settings c)"
        using that counted(5) e by (simp add: streak_entry_def)
    qed
  qed (use assms in auto)
qed

lemma recordFailure_streak:
  assumes "cs_enabled (cc_settings c)" "0 < p" "gm_get (cc_entries c) p = Some e" "streak_entry n t0 t e"
    and "0 < t0" "t0 \<le> t" "t \<le> now" "t + cs_collapseInterval (cc_settings c) \<le> now"
    and "now - t0 \<le> cs_failureWindow (cc_settings c)" "cs_collapseInterval (cc_settings c) \<le> max_duration"
  obtains c1 e1 until where
    "recordFailure ord p now c = (c1, cs_failureThreshold (cc_settings c) \<le> n + 1, until)"
    "cc_settings c1 = cc_settings c" "gm_get (cc_entries c1) p = Some e1"
    "n + 1 < cs_failureThreshold (cc_settings c) \<Longrightarrow> streak_entry (n + 1) t0 now e1"
proof -
  obtain c1 tripped until where run: "recordFailure ord p now c = (c1, tripped, until)" by (metis prod_cases3)
  have w: "window_entry (cc_settings c) now e = e"
    using assms(4-7,9) less_time_sub_imp [of "cs_failureWindow (cc_settings c)" now t0]
    by (auto simp: window_entry_def streak_entry_def)
  have nc: "\<not> time_sub now t < cs_collapseInterval (cc_settings c)"
    using assms(7,8,10) by (auto simp: time_sub_def max_duration_def min_duration_def)
  from run show thesis
  proof (cases rule: recordFailure_cases)
    case (counted c0 x)
    have x: "x = e" using counted(4) assms(3) w by (simp add: gm_getd_def)
    show thesis
    proof (rule that)
      show "recordFailure ord p now c = (c1, cs_failureThreshold (cc_settings c) \<le> n + 1, until)"
        using run counted(5) x assms(4) by (simp add: streak_entry_def)
      show "cc_settings c1 = cc_settings c" using counted(3,6) by simp
      show "gm_get (cc_entries c1) p = Some (x\<lparr>ce_failureCount := ce_failureCount x + 1,
          ce_lastFailureAt := now, ce_lastTouched := now,
          ce_blockedUntil := (if tripped then time_add now (cs_quarantineTTL (cc_settings c)) else ce_blockedUntil x)\<rparr>)"
        using counted(6) by simp
      show "streak_entry (n + 1) t0 now (x\<lparr>ce_failureCount := ce_failureCount x + 1,
          ce_lastFailureAt := now, ce_lastTouched := now,
          ce_blockedUntil := (if tripped then time_add now (cs_quarantineTTL (cc_settings c)) else ce_blockedUntil x)\<rparr>)"
        if "n + 1 < cs_failureThreshold (cc_settings c)"
        using that counted(5) x assms(4) by (simp add: streak_entry_def)
    qed
  qed (use assms nc in \<open>auto simp: streak_entry_def\<close>)
qed

lemma streak_trips:
  assumes "cs_enabled (cc_settings c)" "0 < p" "gm_get (cc_entries c) p = Some e" "streak_entry n t0 t e"
    and "0 < t0" "t0 \<le> t" "spaced (cs_collapseInterval (cc_settings c)) t ts"
    and "\<forall>u \<in> set ts. u - t0 \<le> cs_failureWindow (cc_settings c)"
    and "cs_collapseInterval (cc_settings c) \<le> max_duration"
    and "ts \<noteq> []" "n + int (length ts) = cs_failureThreshold (cc_settings c)"
  shows "snd (run_all circuit_step (map (StreamFailure ord p) ts) c) = replicate (length ts - 1) False @ [True]"
  using assms
proof (induction ts arbitrary: c e n t)
  case Nil
  then show ?case by simp
next
  case (Cons u us)
  have side: "t \<le> u" "t + cs_collapseInterval (cc_settings c) \<le> u" "u - t0 \<le> cs_failureWindow (cc_settings c)"
    using Cons.prems(7,8) by auto
  obtain c1 e1 until where run: "recordFailure ord p u c = (c1, cs_failureThreshold (cc_settings c) \<le> n + 1, until)"
    and c1: "cc_settings c1 = cc_settings c" "gm_get (cc_entries c1) p = Some e1"
    and e1: "n + 1 < cs_failureThreshold (cc_settings c) \<Longrightarrow> streak_entry (n + 1) t0 u e1"
    using recordFailure_streak [OF Cons.prems(1-6) side Cons.prems(9), of ord] by metis
  show ?case
  proof (cases "us = []")
    case True
    with run Cons.prems(11) show ?thesis by simp
  next
    case False
    then have more: "n + 1 < cs_failureThreshold (cc_settings c)" using Cons.prems(11) by (cases us) auto
    have "snd (run_all circuit_step (map (StreamFailure ord p) us) c1) = replicate (length us - 1) False @ [True]"
      using Cons.prems False c1 by (intro Cons.IH [OF _ _ c1(2) e1 [OF more]]) auto
    with run more False show ?thesis
      by (cases us) (auto simp: split_def)
  qed
qed

text \<open>C39: the circuit trips at its threshold and not before. The failures of a proxy without a record
  that lie within one window and at least the collapse interval apart are counted one by one: exactly
  the one that reaches the threshold trips the circuit.\<close>

theorem circuit_trips_at_threshold:
  assumes "cs_enabled (cc_settings c)" "0 < p" "gm_get (cc_entries c) p = None" "0 < t0"
    and "spaced (cs_collapseInterval (cc_settings c)) t0 ts"
    and "\<forall>u \<in> set ts. u - t0 \<le> cs_failureWindow (cc_settings c)"
    and "cs_collapseInterval (cc_settings c) \<le> max_duration"
    and "1 + int (length ts) = cs_failureThreshold (cc_settings c)"
  shows "snd (run_all circuit_step (map (StreamFailure ord p) (t0 # ts)) c) = replicate (length ts) False @ [True]"
proof -
  obtain c1 e until where run: "recordFailure ord p t0 c = (c1, cs_failureThreshold (cc_settings c) \<le> 1, until)"
    and c1: "cc_settings c1 = cc_settings c" "gm_get (cc_entries c1) p = Some e"
    and e: "1 < cs_failureThreshold (cc_settings c) \<Longrightarrow> streak_entry 1 t0 t0 e"
    using recordFailure_first [OF assms(1-3), of ord t0] by metis
  show ?thesis
  proof (cases "ts = []")
    case True
    with run assms(8) show ?thesis by simp
  next
    case False
    then have more: "1 < cs_failureThreshold (cc_settings c)" using assms(8) by (cases ts) auto
    have "snd (run_all circuit_step (map (StreamFailure ord p) ts) c1) = replicate (length ts - 1) False @ [True]"
      using assms c1 False by (intro streak_trips [OF _ _ c1(2) e [OF more]]) auto
    with run more False show ?thesis by (cases ts) (auto simp: split_def)
  qed
qed

text \<open>A completed stream ends the streak of a proxy that is not quarantined: its record is gone,
  it is not blocked, and the next failure starts a new streak, so that with a threshold above one it
  does not trip the circuit.\<close>

theorem terminal_ends_streak:
  assumes "circuit_ok c" "cs_enabled (cc_settings c)" "0 < p" "\<not> isBlocked (Some c) p now" "0 < now"
  shows "gm_get (cc_entries (recordTerminal p now c)) p = None
    \<and> (\<forall>t. \<not> isBlocked (Some (recordTerminal p now c)) p t)
    \<and> (\<forall>ord t. fst (snd (recordFailure ord p t (recordTerminal p now c)))
          \<longleftrightarrow> cs_failureThreshold (cc_settings c) \<le> 1)"
proof -
  have free: "\<not> now < ce_blockedUntil e" if "gm_get (cc_entries c) p = Some e" for e
    using assms that by (auto simp: isBlocked_def circuit_ok_def published_def split: if_splits)
  then have gone: "gm_get (cc_entries (recordTerminal p now c)) p = None"
    using assms(2,3) by (auto simp: recordTerminal_def split: option.splits)
  note ok = recordTerminal_ok [OF assms(1), of p now]
  have "\<not> isBlocked (Some (recordTerminal p now c)) p t" for t
    using gone ok by (auto simp: isBlocked_def circuit_ok_def published_def split: option.splits)
  moreover have "fst (snd (recordFailure ord p t (recordTerminal p now c))) \<longleftrightarrow> cs_failureThreshold (cc_settings c) \<le> 1" for ord t
    using recordFailure_first [of "recordTerminal p now c" p ord t] ok assms(2,3) gone by (metis fst_conv snd_conv)
  ultimately show ?thesis using gone by blast
qed

section \<open>Accounts that disconnect\<close>

fun disconnects ::
  "int \<Rightarrow> gotime list \<Rightarrow> (int, openAIAccountStreamDisconnectState) gomap \<Rightarrow>
   (int, openAIAccountStreamDisconnectState) gomap \<times> (int \<times> gotime) list" where
  "disconnects i [] m = (m, [])"
| "disconnects i (t # ts) m =
     (case nextLocalOpenAIAccountStreamFailure i t m of
        (m1, n, u) \<Rightarrow> (case disconnects i ts m1 of (m2, rs) \<Rightarrow> (m2, (n, u) # rs)))"

lemmas disconnect_constants = openAIAccountStreamFailureWindow_def openAIAccountStreamFailureThreshold_def
  openAIStopSchedulingBridgeCooldown_def

lemma disconnects_blocked:
  assumes "gm_get m i = Some \<lparr>ds_count = n, ds_start = t0, ds_blockedUntil = u\<rparr>"
    and "0 < t0" "u \<noteq> 0" "1 \<le> n" "\<forall>t \<in> set ts. t0 \<le> t \<and> t - t0 < 2 * minute"
  shows "\<forall>r \<in> set (snd (disconnects i ts m)). 2 \<le> fst r \<and> snd r = u"
  using assms
proof (induction ts arbitrary: m n)
  case Nil
  then show ?case by simp
next
  case (Cons t ts)
  have t: "t0 \<le> t" "t - t0 < 2 * minute" using Cons.prems(5) by simp_all
  have "time_sub t t0 < openAIAccountStreamFailureWindow"
    using t by (auto simp: time_sub_def max_duration_def min_duration_def disconnect_constants)
  then have "nextLocalOpenAIAccountStreamFailure i t m =
      (gm_put i \<lparr>ds_count = n + 1, ds_start = t0, ds_blockedUntil = u\<rparr> m, n + 1, u)"
    using Cons.prems(1-3) t by (simp add: nextLocalOpenAIAccountStreamFailure_def)
  moreover have "\<forall>r \<in> set (snd (disconnects i ts (gm_put i \<lparr>ds_count = n + 1, ds_start = t0, ds_blockedUntil = u\<rparr> m))).
      2 \<le> fst r \<and> snd r = u"
    by (rule Cons.IH [of _ "n + 1"]) (use Cons.prems in auto)
  ultimately show ?case using Cons.prems(4) by (simp add: split_def)
qed

text \<open>The local counter of disconnects. Of the failures of an account within one window of two
  minutes, the first does not block it, the second blocks it for the cooldown, and every later one
  reports the same end of the block: a block is repaired but never extended.\<close>

theorem disconnect_block_fixed:
  assumes "gm_get m i = None" "0 < t0" "t0 \<le> t1" "t1 - t0 < 2 * minute"
    and "\<forall>t \<in> set ts. t0 \<le> t \<and> t - t0 < 2 * minute"
  shows "\<exists>rs. snd (disconnects i (t0 # t1 # ts) m) = (1, 0) # (2, t1 + 2 * minute) # rs
    \<and> (\<forall>r \<in> set rs. 2 \<le> fst r \<and> snd r = t1 + 2 * minute)"
proof -
  let ?m1 = "gm_put i \<lparr>ds_count = 1, ds_start = t0, ds_blockedUntil = 0\<rparr> m"
  let ?m2 = "gm_put i \<lparr>ds_count = 2, ds_start = t0, ds_blockedUntil = t1 + 2 * minute\<rparr> ?m1"
  have one: "nextLocalOpenAIAccountStreamFailure i t0 m = (?m1, 1, 0)"
    using assms(1) by (simp add: nextLocalOpenAIAccountStreamFailure_def disconnect_constants)
  have "time_sub t1 t0 < openAIAccountStreamFailureWindow"
    using assms(3,4) by (auto simp: time_sub_def max_duration_def min_duration_def disconnect_constants)
  then have two: "nextLocalOpenAIAccountStreamFailure i t1 ?m1 = (?m2, 2, t1 + 2 * minute)"
    using assms(2,3) by (simp add: nextLocalOpenAIAccountStreamFailure_def disconnect_constants)
  have "\<forall>r \<in> set (snd (disconnects i ts ?m2)). 2 \<le> fst r \<and> snd r = t1 + 2 * minute"
    by (rule disconnects_blocked [of _ _ 2 t0]) (use assms in auto)
  then show ?thesis using one two by (simp add: split_def)
qed

section \<open>A concrete circuit\<close>

definition demo_circuit :: openAIProxyStreamCircuit where
  "demo_circuit = newOpenAIProxyStreamCircuit (resolveOpenAIProxyStreamCircuitSettings
     (Some \<lparr>gc_Enabled = True, gc_FailureThreshold = 3, gc_WindowSeconds = 0, gc_TTLSeconds = 5, gc_MaxEntries = 2\<rparr>))"

lemma demo_circuit_settings:
  "cc_settings demo_circuit = \<lparr>cs_enabled = True, cs_failureThreshold = 3, cs_failureWindow = 60000000000,
     cs_quarantineTTL = 5000000000, cs_collapseInterval = 3000000000, cs_maxEntries = 2\<rparr>"
  by (simp add: demo_circuit_def newOpenAIProxyStreamCircuit_def resolveOpenAIProxyStreamCircuitSettings_def
      defaultOpenAIProxyStreamFailureCollapse_def defaultOpenAIProxyStreamFailureWindow_def i64_def)

lemma demo_circuit_ok: "circuit_ok demo_circuit"
  unfolding demo_circuit_def by (rule new_circuit_ok)

lemma permutes_id: "permutes_entries (\<lambda>xs. xs)"
  by (simp add: permutes_entries_def)

theorem circuit_reachable_witness:
  "int (length (cc_entries (fst (run_all circuit_step
     [StreamFailure rev 1 5, StreamFailure rev 2 6, StreamFailure rev 3 7, StreamTerminal 2 8]
     (newOpenAIProxyStreamCircuit (cc_settings demo_circuit)))))) \<le> 2"
proof -
  let ?evs = "[StreamFailure rev 1 5, StreamFailure rev 2 6, StreamFailure rev 3 7, StreamTerminal 2 8]"
  have fair: "list_all fair_event ?evs" by (simp add: fair_event_def permutes_entries_def)
  obtain c outs where run: "run_all circuit_step ?evs (newOpenAIProxyStreamCircuit (cc_settings demo_circuit)) = (c, outs)"
    by force
  have "cc_settings c = cc_settings (newOpenAIProxyStreamCircuit (cc_settings demo_circuit))"
    using run_circuit_settings [OF fair new_circuit_ok] run by (metis fst_conv)
  then have "cs_maxEntries (cc_settings c) = 2" by (simp add: newOpenAIProxyStreamCircuit_def demo_circuit_settings)
  with circuit_reachable [OF fair run] run show ?thesis by simp
qed

theorem circuit_trips_at_threshold_witness:
  "snd (run_all circuit_step (map (StreamFailure (\<lambda>xs. xs) 9) [10, 4000000000, 8000000000]) demo_circuit)
     = [False, False, True]"
proof -
  have fresh: "gm_get (cc_entries demo_circuit) 9 = None"
    by (simp add: demo_circuit_def newOpenAIProxyStreamCircuit_def)
  from circuit_trips_at_threshold [OF _ _ fresh, of 10 "[4000000000, 8000000000]" "\<lambda>xs. xs"] show ?thesis
    by (simp add: demo_circuit_settings max_duration_def)
qed

definition tripped_circuit :: openAIProxyStreamCircuit where
  "tripped_circuit = fst (run_all circuit_step (map (StreamFailure (\<lambda>xs. xs) 9) [10, 4000000000]) demo_circuit)"


theorem terminal_ends_streak_witness:
  "gm_get (cc_entries (recordTerminal 9 50 demo_circuit)) 9 = None"
proof -
  have "\<not> isBlocked (Some demo_circuit) 9 50" by code_simp
  from terminal_ends_streak [OF demo_circuit_ok _ _ this] show ?thesis by (simp add: demo_circuit_settings)
qed

theorem disconnect_block_fixed_witness:
  "\<exists>rs. snd (disconnects 4 [5, 6, 7] []) = (1, 0) # (2, 6 + 2 * minute) # rs"
  using disconnect_block_fixed [of "[]" 4 5 6 "[7]"] by auto

end
