(* ===== verification/Api_Types.thy ===== *)
theory Api_Types
  imports Go_Strings
begin

text \<open>
  The message types of \<open>internal/pkg/apicompat/types.go\<close> that the converters between the Anthropic
  Messages API and the OpenAI Responses API exchange: content blocks, responses, usage and stream
  events of both protocols, with one record per Go struct and the field order of the source.

  A \<open>json.RawMessage\<close> is its text, empty for nil. A pointer to a struct is an \<open>option\<close>. A
  composite literal of Go that leaves fields out is an update of the zero value
  (\<open>zero_block\<close>, \<open>zero_output\<close> and so on). Token counts are Go \<open>int\<close>s; sums wrap at 64 bits.

  The second part is the normalisation that \<open>ResponsesUsage.UnmarshalJSON\<close> applies to the many
  spellings of token counts; what \<open>encoding/json\<close> decodes is the argument
  \<open>usage_fields\<close>.
\<close>

section \<open>Anthropic\<close>

record AnthropicCacheControl =
  cctl_Type :: string
  cctl_TTL :: string

record AnthropicImageSource =
  img_Type :: string
  img_MediaType :: string
  img_Data :: string

record AnthropicContentBlock =
  cb_Type :: string
  cb_CacheControl :: "AnthropicCacheControl option"
  cb_Text :: string
  cb_Thinking :: string
  cb_Signature :: string
  cb_Data :: string
  cb_Source :: "AnthropicImageSource option"
  cb_ID :: string
  cb_Name :: string
  cb_Input :: string
  cb_ToolUseID :: string
  cb_Content :: string
  cb_IsError :: bool

definition zero_block :: AnthropicContentBlock where
  "zero_block = \<lparr>cb_Type = '''', cb_CacheControl = None, cb_Text = '''', cb_Thinking = '''', cb_Signature = '''',
     cb_Data = '''', cb_Source = None, cb_ID = '''', cb_Name = '''', cb_Input = '''', cb_ToolUseID = '''',
     cb_Content = '''', cb_IsError = False\<rparr>"

record AnthropicUsage =
  au_InputTokens :: int
  au_OutputTokens :: int
  au_CacheCreationInputTokens :: int
  au_CacheReadInputTokens :: int

definition zero_anthropic_usage :: AnthropicUsage where
  "zero_anthropic_usage = \<lparr>au_InputTokens = 0, au_OutputTokens = 0, au_CacheCreationInputTokens = 0,
     au_CacheReadInputTokens = 0\<rparr>"

record AnthropicResponse =
  ar_ID :: string
  ar_Type :: string
  ar_Role :: string
  ar_Content :: "AnthropicContentBlock list"
  ar_Model :: string
  ar_StopReason :: "string option"
  ar_StopSequence :: "string option"
  ar_Usage :: AnthropicUsage

definition AnthropicStopReasonString :: "string option \<Rightarrow> string" where
  "AnthropicStopReasonString p = (case p of None \<Rightarrow> '''' | Some r \<Rightarrow> r)"

definition AnthropicStopReasonPtr :: "string \<Rightarrow> string option" where
  "AnthropicStopReasonPtr r = Some r"

record AnthropicDelta =
  ad_Type :: string
  ad_Text :: string
  ad_PartialJSON :: string
  ad_Thinking :: string
  ad_Signature :: string
  ad_StopReason :: string
  ad_StopSequence :: "string option"

definition zero_delta :: AnthropicDelta where
  "zero_delta = \<lparr>ad_Type = '''', ad_Text = '''', ad_PartialJSON = '''', ad_Thinking = '''', ad_Signature = '''',
     ad_StopReason = '''', ad_StopSequence = None\<rparr>"

record AnthropicStreamEvent =
  ae_Type :: string
  ae_Message :: "AnthropicResponse option"
  ae_Index :: "int option"
  ae_ContentBlock :: "AnthropicContentBlock option"
  ae_Delta :: "AnthropicDelta option"
  ae_Usage :: "AnthropicUsage option"

definition zero_anthropic_event :: AnthropicStreamEvent where
  "zero_anthropic_event = \<lparr>ae_Type = '''', ae_Message = None, ae_Index = None, ae_ContentBlock = None,
     ae_Delta = None, ae_Usage = None\<rparr>"

section \<open>Responses\<close>

record ResponsesContentPart =
  cp_Refusal :: string
  cp_Type :: string
  cp_Text :: string
  cp_ImageURL :: string
  cp_Filename :: string
  cp_FileData :: string
  cp_FileID :: string

definition output_text :: "string \<Rightarrow> ResponsesContentPart" where
  "output_text t = \<lparr>cp_Refusal = '''', cp_Type = ''output_text'', cp_Text = t, cp_ImageURL = '''',
     cp_Filename = '''', cp_FileData = '''', cp_FileID = ''''\<rparr>"

record ResponsesError =
  er_Code :: string
  er_Message :: string

record ResponsesIncompleteDetails =
  id_Reason :: string

record WebSearchAction =
  ws_Type :: string
  ws_Query :: string

record ResponsesSummary =
  sm_Type :: string
  sm_Text :: string

record ResponsesOutput =
  ro_Type :: string
  ro_ID :: string
  ro_Role :: string
  ro_Content :: "ResponsesContentPart list"
  ro_Status :: string
  ro_EncryptedContent :: string
  ro_Summary :: "ResponsesSummary list"
  ro_CallID :: string
  ro_Name :: string
  ro_Arguments :: string
  ro_Namespace :: string
  ro_Input :: string
  ro_Action :: "WebSearchAction option"

definition zero_output :: ResponsesOutput where
  "zero_output = \<lparr>ro_Type = '''', ro_ID = '''', ro_Role = '''', ro_Content = [], ro_Status = '''',
     ro_EncryptedContent = '''', ro_Summary = [], ro_CallID = '''', ro_Name = '''', ro_Arguments = '''',
     ro_Namespace = '''', ro_Input = '''', ro_Action = None\<rparr>"

record ResponsesInputTokensDetails =
  it_CachedTokens :: int
  it_AudioTokens :: int
  it_CacheCreationInputTokens :: int
  it_CacheCreationTokens :: int
  it_CacheWriteInputTokens :: int
  it_CacheWriteTokens :: int

definition zero_input_details :: ResponsesInputTokensDetails where
  "zero_input_details = \<lparr>it_CachedTokens = 0, it_AudioTokens = 0, it_CacheCreationInputTokens = 0,
     it_CacheCreationTokens = 0, it_CacheWriteInputTokens = 0, it_CacheWriteTokens = 0\<rparr>"

record ResponsesOutputTokensDetails =
  ot_ReasoningTokens :: int
  ot_AudioTokens :: int
  ot_AcceptedPredictionTokens :: int
  ot_RejectedPredictionTokens :: int

record ResponsesUsage =
  ru_InputTokens :: int
  ru_OutputTokens :: int
  ru_TotalTokens :: int
  ru_CacheCreationInputTokens :: int
  ru_InputTokensDetails :: "ResponsesInputTokensDetails option"
  ru_OutputTokensDetails :: "ResponsesOutputTokensDetails option"

record ResponsesResponse =
  rr_UpstreamServiceTier :: string
  rr_CreatedAt :: int
  rr_ID :: string
  rr_Object :: string
  rr_Model :: string
  rr_Status :: string
  rr_Output :: "ResponsesOutput list"
  rr_Usage :: "ResponsesUsage option"
  rr_IncompleteDetails :: "ResponsesIncompleteDetails option"
  rr_Error :: "ResponsesError option"

record ResponsesStreamEvent =
  re_Type :: string
  re_Response :: "ResponsesResponse option"
  re_Usage :: "ResponsesUsage option"
  re_Item :: "ResponsesOutput option"
  re_OutputIndex :: int
  re_ContentIndex :: int
  re_Delta :: string
  re_Text :: string
  re_ItemID :: string
  re_CallID :: string
  re_Name :: string
  re_Arguments :: string
  re_Input :: string
  re_SummaryIndex :: int
  re_Part :: "ResponsesContentPart option"
  re_Code :: string
  re_Param :: string
  re_SequenceNumber :: int

definition zero_responses_event :: ResponsesStreamEvent where
  "zero_responses_event = \<lparr>re_Type = '''', re_Response = None, re_Usage = None, re_Item = None,
     re_OutputIndex = 0, re_ContentIndex = 0, re_Delta = '''', re_Text = '''', re_ItemID = '''', re_CallID = '''',
     re_Name = '''', re_Arguments = '''', re_Input = '''', re_SummaryIndex = 0, re_Part = None, re_Code = '''',
     re_Param = '''', re_SequenceNumber = 0\<rparr>"

section \<open>Call identifiers\<close>

definition toResponsesCallID :: "string \<Rightarrow> string" where
  "toResponsesCallID i = i"

definition fromResponsesCallID :: "string \<Rightarrow> string" where
  "fromResponsesCallID i =
     (case cut_prefix ''fc_'' i of
        Some after \<Rightarrow> (if has_prefix ''toolu_'' after \<or> has_prefix ''call_'' after then after else i)
      | None \<Rightarrow> i)"

section \<open>Normalising usage\<close>

record cacheTokenPresence =
  tp_CacheCreationInputTokens :: "int option"
  tp_CacheCreationTokens :: "int option"
  tp_CacheWriteInputTokens :: "int option"
  tp_CacheWriteTokens :: "int option"

text \<open>What the two calls of \<open>json.Unmarshal\<close> fill in: the struct \<open>aux\<close> and
  \<open>nestedPresence\<close>.\<close>

record usage_fields =
  uf_usage :: ResponsesUsage
  uf_PromptTokens :: int
  uf_CompletionTokens :: int
  uf_CacheReadInputTokens :: int
  uf_CacheReadTokens :: int
  uf_CachedTokens :: int
  uf_CacheCreationTokens :: int
  uf_CacheWriteInputTokens :: int
  uf_CacheWriteTokens :: int
  uf_PromptTokensDetails :: "ResponsesInputTokensDetails option"
  uf_CompletionTokensDetails :: "ResponsesOutputTokensDetails option"
  uf_InputPresence :: "cacheTokenPresence option"
  uf_PromptPresence :: "cacheTokenPresence option"

definition responsesUsageCachedTokens :: "ResponsesInputTokensDetails option \<Rightarrow> int" where
  "responsesUsageCachedTokens details = (case details of None \<Rightarrow> 0 | Some d \<Rightarrow> it_CachedTokens d)"

definition responsesUsagePresenceInt :: "'a option \<Rightarrow> ('a \<Rightarrow> int option) \<Rightarrow> int" where
  "responsesUsagePresenceInt v field =
     (case v of None \<Rightarrow> 0 | Some x \<Rightarrow> (case field x of None \<Rightarrow> 0 | Some n \<Rightarrow> n))"

fun firstPositiveResponsesUsageInt :: "int list \<Rightarrow> int" where
  "firstPositiveResponsesUsageInt [] = 0"
| "firstPositiveResponsesUsageInt (v # vs) = (if 0 < v then v else firstPositiveResponsesUsageInt vs)"

definition usage_cache_read :: "usage_fields \<Rightarrow> int" where
  "usage_cache_read aux = firstPositiveResponsesUsageInt
     [responsesUsageCachedTokens (ru_InputTokensDetails (uf_usage aux)),
      responsesUsageCachedTokens (uf_PromptTokensDetails aux),
      uf_CacheReadInputTokens aux, uf_CacheReadTokens aux, uf_CachedTokens aux]"

definition usage_cache_creation :: "usage_fields \<Rightarrow> int" where
  "usage_cache_creation aux = firstPositiveResponsesUsageInt
     [responsesUsagePresenceInt (uf_InputPresence aux) tp_CacheCreationInputTokens,
      responsesUsagePresenceInt (uf_PromptPresence aux) tp_CacheCreationInputTokens,
      responsesUsagePresenceInt (uf_InputPresence aux) tp_CacheWriteInputTokens,
      responsesUsagePresenceInt (uf_PromptPresence aux) tp_CacheWriteInputTokens,
      responsesUsagePresenceInt (uf_InputPresence aux) tp_CacheWriteTokens,
      responsesUsagePresenceInt (uf_PromptPresence aux) tp_CacheWriteTokens,
      responsesUsagePresenceInt (uf_InputPresence aux) tp_CacheCreationTokens,
      responsesUsagePresenceInt (uf_PromptPresence aux) tp_CacheCreationTokens,
      ru_CacheCreationInputTokens (uf_usage aux),
      uf_CacheWriteInputTokens aux, uf_CacheCreationTokens aux, uf_CacheWriteTokens aux]"

definition ResponsesUsage_UnmarshalJSON :: "usage_fields \<Rightarrow> ResponsesUsage" where
  "ResponsesUsage_UnmarshalJSON aux =
     (let u = uf_usage aux;
          input = (if ru_InputTokens u = 0 \<and> uf_PromptTokens aux \<noteq> 0 then uf_PromptTokens aux else ru_InputTokens u);
          outp = (if ru_OutputTokens u = 0 \<and> uf_CompletionTokens aux \<noteq> 0 then uf_CompletionTokens aux
                  else ru_OutputTokens u);
          details = (if ru_InputTokensDetails u = None then uf_PromptTokensDetails aux else ru_InputTokensDetails u);
          odetails = (if ru_OutputTokensDetails u = None then uf_CompletionTokensDetails aux
                      else ru_OutputTokensDetails u);
          cacheRead = usage_cache_read aux;
          details = (if 0 < cacheRead
                     then Some ((case details of None \<Rightarrow> zero_input_details | Some d \<Rightarrow> d)\<lparr>it_CachedTokens := cacheRead\<rparr>)
                     else details);
          total = (if ru_TotalTokens u = 0 \<and> (input \<noteq> 0 \<or> outp \<noteq> 0) then i64 (input + outp) else ru_TotalTokens u)
      in \<lparr>ru_InputTokens = input, ru_OutputTokens = outp, ru_TotalTokens = total,
          ru_CacheCreationInputTokens = usage_cache_creation aux,
          ru_InputTokensDetails = details, ru_OutputTokensDetails = odetails\<rparr>)"

section \<open>Monitored streams\<close>

text \<open>A protocol of output events is a monitor that rejects (\<open>None\<close>) an event that the protocol
  does not allow. A converter is correct for it when each of its steps, on a valid input event, emits
  events that the monitor accepts and keeps the relation between its state and the monitor's; then
  the whole output of every run is accepted.\<close>

fun accepts :: "('m \<Rightarrow> 'o \<Rightarrow> 'm option) \<Rightarrow> 'm \<Rightarrow> 'o list \<Rightarrow> 'm option" where
  "accepts mon m [] = Some m"
| "accepts mon m (x # xs) = (case mon m x of None \<Rightarrow> None | Some m' \<Rightarrow> accepts mon m' xs)"

lemma accepts_append:
  "accepts mon m (xs @ ys) = (case accepts mon m xs of None \<Rightarrow> None | Some m' \<Rightarrow> accepts mon m' ys)"
  by (induction xs arbitrary: m) (auto split: option.splits)

lemma accepts_appendI [intro]:
  "accepts mon m xs = Some m' \<Longrightarrow> accepts mon m' ys = Some m'' \<Longrightarrow> accepts mon m (xs @ ys) = Some m''"
  by (simp add: accepts_append)

text \<open>The same for a converter that relies on a protocol of its input: \<open>imon\<close> is the monitor of the
  input events.\<close>

locale translated_stream =
  fixes step :: "'e \<Rightarrow> 's \<Rightarrow> 's \<times> 'o list"
    and imon :: "'i \<Rightarrow> 'e \<Rightarrow> 'i option"
    and mon :: "'m \<Rightarrow> 'o \<Rightarrow> 'm option"
    and rel :: "'s \<Rightarrow> 'i \<Rightarrow> 'm \<Rightarrow> bool"
  assumes step_translated: "imon i e = Some i' \<Longrightarrow> rel s i m \<Longrightarrow>
    \<exists>m'. accepts mon m (snd (step e s)) = Some m' \<and> rel (fst (step e s)) i' m'"
begin

lemma run_translated:
  assumes "accepts imon i es = Some i'" "rel s i m"
  shows "\<exists>m'. accepts mon m (concat (snd (run_all step es s))) = Some m' \<and> rel (fst (run_all step es s)) i' m'"
  using assms
proof (induction es arbitrary: s i m)
  case Nil
  then show ?case by auto
next
  case (Cons e es)
  then obtain i1 where i1: "imon i e = Some i1" "accepts imon i1 es = Some i'" by (auto split: option.splits)
  then obtain m1 where m1: "accepts mon m (snd (step e s)) = Some m1" "rel (fst (step e s)) i1 m1"
    using step_translated [OF i1(1) Cons.prems(2)] by auto
  from Cons.IH [OF i1(2) m1(2)] obtain m2 where
    "accepts mon m1 (concat (snd (run_all step es (fst (step e s))))) = Some m2"
    "rel (fst (run_all step es (fst (step e s)))) i' m2" by auto
  with m1 show ?case by (auto simp: split_def)
qed

end

locale monitored_stream =
  fixes step :: "'e \<Rightarrow> 's \<Rightarrow> 's \<times> 'o list"
    and valid :: "'e \<Rightarrow> bool"
    and mon :: "'m \<Rightarrow> 'o \<Rightarrow> 'm option"
    and rel :: "'s \<Rightarrow> 'm \<Rightarrow> bool"
  assumes step_accepted: "valid e \<Longrightarrow> rel s m \<Longrightarrow>
    \<exists>m'. accepts mon m (snd (step e s)) = Some m' \<and> rel (fst (step e s)) m'"

lemma accepts_valid: "list_all valid es \<Longrightarrow> accepts (\<lambda>(u :: unit) e. if valid e then Some u else None) u es = Some u"
  by (induction es) auto

sublocale monitored_stream < translated: translated_stream step "\<lambda>(u :: unit) e. if valid e then Some u else None" mon
  "\<lambda>s u m. rel s m"
  by unfold_locales (use step_accepted in \<open>auto split: if_splits\<close>)

context monitored_stream
begin

lemma run_accepted:
  assumes "list_all valid es" "rel s m"
  shows "\<exists>m'. accepts mon m (concat (snd (run_all step es s))) = Some m' \<and> rel (fst (run_all step es s)) m'"
  using translated.run_translated [OF accepts_valid [OF assms(1)] assms(2)] .

end

section \<open>Lemmas\<close>

lemma firstPositive_nonneg: "0 \<le> firstPositiveResponsesUsageInt vs"
  by (induction vs) auto

lemma firstPositive_pos: "0 < firstPositiveResponsesUsageInt vs \<longleftrightarrow> (\<exists>v \<in> set vs. 0 < v)"
  by (induction vs) auto

text \<open>The normalised usage does not depend on the spelling that the upstream uses. A count
  reported as \<open>prompt_tokens\<close> and \<open>completion_tokens\<close> is read as input and output; the
  cache counts are never negative, and positive as soon as one of their spellings is; a positive
  cache read is found in the input details, and a missing total is the sum.\<close>

theorem usage_normalised:
  assumes "ResponsesUsage_UnmarshalJSON aux = u"
  shows "0 \<le> ru_CacheCreationInputTokens u
    \<and> (ru_CacheCreationInputTokens (uf_usage aux) > 0 \<or> uf_CacheWriteTokens aux > 0
         \<or> uf_CacheWriteInputTokens aux > 0 \<or> uf_CacheCreationTokens aux > 0 \<longrightarrow> 0 < ru_CacheCreationInputTokens u)
    \<and> (0 < usage_cache_read aux \<longrightarrow> responsesUsageCachedTokens (ru_InputTokensDetails u) = usage_cache_read aux)
    \<and> (uf_CacheReadInputTokens aux > 0 \<or> uf_CacheReadTokens aux > 0 \<or> uf_CachedTokens aux > 0
         \<longrightarrow> 0 < responsesUsageCachedTokens (ru_InputTokensDetails u))
    \<and> (ru_InputTokens (uf_usage aux) = 0 \<longrightarrow> ru_InputTokens u = uf_PromptTokens aux)
    \<and> (ru_TotalTokens (uf_usage aux) = 0 \<longrightarrow> ru_TotalTokens u = i64 (ru_InputTokens u + ru_OutputTokens u))"
proof -
  have read: "0 < usage_cache_read aux \<longrightarrow> responsesUsageCachedTokens (ru_InputTokensDetails u) = usage_cache_read aux"
    using assms by (auto simp: ResponsesUsage_UnmarshalJSON_def Let_def responsesUsageCachedTokens_def)
  have "uf_CacheReadInputTokens aux > 0 \<or> uf_CacheReadTokens aux > 0 \<or> uf_CachedTokens aux > 0 \<longrightarrow>
      0 < usage_cache_read aux"
    by (auto simp: usage_cache_read_def firstPositive_pos simp del: firstPositiveResponsesUsageInt.simps)
  moreover have "ru_CacheCreationInputTokens u = usage_cache_creation aux"
    using assms by (auto simp: ResponsesUsage_UnmarshalJSON_def Let_def)
  moreover have "0 \<le> usage_cache_creation aux"
    unfolding usage_cache_creation_def by (rule firstPositive_nonneg)
  moreover have "ru_CacheCreationInputTokens (uf_usage aux) > 0 \<or> uf_CacheWriteTokens aux > 0
      \<or> uf_CacheWriteInputTokens aux > 0 \<or> uf_CacheCreationTokens aux > 0 \<longrightarrow> 0 < usage_cache_creation aux"
    by (auto simp: usage_cache_creation_def firstPositive_pos simp del: firstPositiveResponsesUsageInt.simps)
  moreover have "ru_InputTokens (uf_usage aux) = 0 \<longrightarrow> ru_InputTokens u = uf_PromptTokens aux"
    "ru_TotalTokens (uf_usage aux) = 0 \<longrightarrow> ru_TotalTokens u = i64 (ru_InputTokens u + ru_OutputTokens u)"
    using assms by (auto simp: ResponsesUsage_UnmarshalJSON_def Let_def i64_def)
  ultimately show ?thesis using read by simp
qed

theorem usage_normalised_witness:
  "ru_InputTokens (ResponsesUsage_UnmarshalJSON
     \<lparr>uf_usage = \<lparr>ru_InputTokens = 0, ru_OutputTokens = 0, ru_TotalTokens = 0, ru_CacheCreationInputTokens = 0,
        ru_InputTokensDetails = None, ru_OutputTokensDetails = None\<rparr>,
      uf_PromptTokens = 10, uf_CompletionTokens = 5, uf_CacheReadInputTokens = 0, uf_CacheReadTokens = 4,
      uf_CachedTokens = 0, uf_CacheCreationTokens = 0, uf_CacheWriteInputTokens = 0, uf_CacheWriteTokens = 0,
      uf_PromptTokensDetails = None, uf_CompletionTokensDetails = None, uf_InputPresence = None,
      uf_PromptPresence = None\<rparr>) = 10"
  using usage_normalised [OF refl, of "\<lparr>uf_usage = \<lparr>ru_InputTokens = 0, ru_OutputTokens = 0, ru_TotalTokens = 0,
        ru_CacheCreationInputTokens = 0, ru_InputTokensDetails = None, ru_OutputTokensDetails = None\<rparr>,
      uf_PromptTokens = 10, uf_CompletionTokens = 5, uf_CacheReadInputTokens = 0, uf_CacheReadTokens = 4,
      uf_CachedTokens = 0, uf_CacheCreationTokens = 0, uf_CacheWriteInputTokens = 0, uf_CacheWriteTokens = 0,
      uf_PromptTokensDetails = None, uf_CompletionTokensDetails = None, uf_InputPresence = None,
      uf_PromptPresence = None\<rparr>"] by simp

text \<open>Identifiers of tool calls survive the way to the Responses API and back, and an identifier
  with the old prefix is mapped to the Anthropic one.\<close>

theorem call_id_roundtrip:
  "(has_prefix ''fc_'' i \<or> fromResponsesCallID (toResponsesCallID i) = i)
   \<and> fromResponsesCallID (''fc_toolu_'' @ r) = ''toolu_'' @ r
   \<and> fromResponsesCallID (''fc_call_'' @ r) = ''call_'' @ r"
proof -
  have "cut_prefix ''fc_'' (''fc_toolu_'' @ r) = Some (''toolu_'' @ r)"
    "cut_prefix ''fc_'' (''fc_call_'' @ r) = Some (''call_'' @ r)" by (simp_all add: cut_prefix_Some)
  moreover have "has_prefix ''fc_'' i \<or> cut_prefix ''fc_'' i = None" by (auto simp: has_prefix_def)
  ultimately show ?thesis
    by (auto simp: fromResponsesCallID_def toResponsesCallID_def has_prefix_iff split: option.splits)
qed

end
