(* ===== verification/Responses_To_Anthropic.thy ===== *)
theory Responses_To_Anthropic
  imports Api_Types
begin

text \<open>
  The converter of \<open>internal/pkg/apicompat/responses_to_anthropic.go\<close>: a response of the OpenAI
  Responses API becomes an Anthropic message, and a stream of Responses events becomes a stream of
  Anthropic events.

  The stream state is the record \<open>ResponsesEventToAnthropicState\<close>; each handler takes and
  returns it with the events it emits. What \<open>encoding/json\<close> does for the converter is the record
  \<open>json_lib\<close>: \<open>json.Valid\<close>, decoding an object into its raw members, encoding such an object,
  and the encoding of a search query. The identifier of \<open>uuid.NewString()\<close> is the argument
  \<open>uuid\<close>. Formatting an event as SSE text is not modelled.
\<close>

section \<open>JSON and the shared helpers\<close>

record json_lib =
  js_valid :: "string \<Rightarrow> bool"
  js_object :: "string \<Rightarrow> (string, string) gomap option"
  js_encode :: "(string, string) gomap \<Rightarrow> string option"
  js_query :: "string \<Rightarrow> string"

definition sanitizeAnthropicToolUseInput :: "json_lib \<Rightarrow> string \<Rightarrow> string \<Rightarrow> string" where
  "sanitizeAnthropicToolUseInput js name raw =
     (if name \<noteq> ''Read'' \<or> raw = '''' then raw
      else case js_object js raw of
             None \<Rightarrow> raw
           | Some input \<Rightarrow>
               (case gm_get input ''pages'' of
                  None \<Rightarrow> raw
                | Some pages \<Rightarrow>
                    (if pages \<noteq> [CHR 0x22, CHR 0x22] then raw
                     else case js_encode js (gm_del ''pages'' input) of
                            None \<Rightarrow> raw
                          | Some sanitized \<Rightarrow> sanitized)))"

definition anthropicUsageFromResponsesUsage :: "ResponsesUsage option \<Rightarrow> AnthropicUsage" where
  "anthropicUsageFromResponsesUsage usage =
     (case usage of
        None \<Rightarrow> zero_anthropic_usage
      | Some u \<Rightarrow>
          (let cachedTokens = (case ru_InputTokensDetails u of None \<Rightarrow> 0 | Some d \<Rightarrow> it_CachedTokens d);
               inputTokens = i64 (i64 (ru_InputTokens u - cachedTokens) - ru_CacheCreationInputTokens u);
               inputTokens = (if inputTokens < 0 then 0 else inputTokens)
           in \<lparr>au_InputTokens = inputTokens, au_OutputTokens = ru_OutputTokens u,
               au_CacheCreationInputTokens = ru_CacheCreationInputTokens u,
               au_CacheReadInputTokens = cachedTokens\<rparr>))"

definition containsAnthropicToolUseBlock :: "AnthropicContentBlock list \<Rightarrow> bool" where
  "containsAnthropicToolUseBlock blocks = list_ex (\<lambda>b. cb_Type b = ''tool_use'') blocks"

definition responsesStatusToAnthropicStopReason ::
  "string \<Rightarrow> ResponsesIncompleteDetails option \<Rightarrow> AnthropicContentBlock list \<Rightarrow> string" where
  "responsesStatusToAnthropicStopReason status details blocks =
     (if status = ''incomplete'' then
        (if (case details of None \<Rightarrow> False | Some d \<Rightarrow> id_Reason d = ''max_output_tokens'')
         then ''max_tokens'' else ''end_turn'')
      else if status = ''completed'' then
        (if containsAnthropicToolUseBlock blocks then ''tool_use'' else ''end_turn'')
      else ''end_turn'')"

section \<open>A whole response\<close>

fun summary_text :: "ResponsesSummary list \<Rightarrow> string" where
  "summary_text [] = ''''"
| "summary_text (s # ss) = (if sm_Type s = ''summary_text'' then sm_Text s else '''') @ summary_text ss"

text \<open>The body of the loop over the output items.\<close>

definition item_blocks :: "json_lib \<Rightarrow> ResponsesOutput \<Rightarrow> AnthropicContentBlock list" where
  "item_blocks js item =
     (if ro_Type item = ''reasoning'' then
        (let summaryText = summary_text (ro_Summary item) in
         if summaryText \<noteq> '''' \<or> trim_space (ro_EncryptedContent item) \<noteq> ''''
         then [zero_block\<lparr>cb_Type := ''thinking'', cb_Thinking := summaryText,
                 cb_Signature := ro_EncryptedContent item\<rparr>]
         else [])
      else if ro_Type item = ''message'' then
        map (\<lambda>part. zero_block\<lparr>cb_Type := ''text'', cb_Text := cp_Text part\<rparr>)
          (filter (\<lambda>part. cp_Type part = ''output_text'' \<and> cp_Text part \<noteq> '''') (ro_Content item))
      else if ro_Type item = ''function_call'' then
        [zero_block\<lparr>cb_Type := ''tool_use'', cb_ID := fromResponsesCallID (ro_CallID item),
           cb_Name := ro_Name item,
           cb_Input := sanitizeAnthropicToolUseInput js (ro_Name item) (ro_Arguments item)\<rparr>]
      else if ro_Type item = ''web_search_call'' then
        (let toolUseID = ''srvtoolu_'' @ ro_ID item;
             query = (case ro_Action item of None \<Rightarrow> '''' | Some a \<Rightarrow> ws_Query a)
         in [zero_block\<lparr>cb_Type := ''server_tool_use'', cb_ID := toolUseID, cb_Name := ''web_search'',
               cb_Input := js_query js query\<rparr>,
             zero_block\<lparr>cb_Type := ''web_search_tool_result'', cb_ToolUseID := toolUseID,
               cb_Content := ''[]''\<rparr>])
      else [])"

definition ResponsesToAnthropic :: "json_lib \<Rightarrow> ResponsesResponse \<Rightarrow> string \<Rightarrow> AnthropicResponse" where
  "ResponsesToAnthropic js resp model =
     (let blocks0 = concat (map (item_blocks js) (rr_Output resp));
          blocks = (if length blocks0 = 0 then [zero_block\<lparr>cb_Type := ''text'', cb_Text := ''''\<rparr>] else blocks0)
      in \<lparr>ar_ID = rr_ID resp, ar_Type = ''message'', ar_Role = ''assistant'', ar_Content = blocks,
          ar_Model = model,
          ar_StopReason = AnthropicStopReasonPtr
            (responsesStatusToAnthropicStopReason (rr_Status resp) (rr_IncompleteDetails resp) blocks),
          ar_StopSequence = None,
          ar_Usage = (case rr_Usage resp of
             None \<Rightarrow> zero_anthropic_usage
           | Some u \<Rightarrow> anthropicUsageFromResponsesUsage (Some u))\<rparr>)"

section \<open>The stream state\<close>

record ResponsesEventToAnthropicState =
  ra_MessageStartSent :: bool
  ra_MessageStopSent :: bool
  ra_ContentBlockIndex :: int
  ra_ContentBlockOpen :: bool
  ra_CurrentBlockType :: string
  ra_CurrentToolName :: string
  ra_CurrentToolArgs :: string
  ra_CurrentToolHadDelta :: bool
  ra_PendingThinkingSignature :: string
  ra_HasToolCall :: bool
  ra_OutputIndexToBlockIdx :: "(int, int) gomap"
  ra_textByPart :: "(int \<times> int, string) gomap"
  ra_InputTokens :: int
  ra_OutputTokens :: int
  ra_CacheReadInputTokens :: int
  ra_CacheCreationInputTokens :: int
  ra_ResponseID :: string
  ra_Model :: string
  ra_Created :: int

definition NewResponsesEventToAnthropicState :: "int \<Rightarrow> ResponsesEventToAnthropicState" where
  "NewResponsesEventToAnthropicState now =
     \<lparr>ra_MessageStartSent = False, ra_MessageStopSent = False, ra_ContentBlockIndex = 0,
      ra_ContentBlockOpen = False, ra_CurrentBlockType = '''', ra_CurrentToolName = '''', ra_CurrentToolArgs = '''',
      ra_CurrentToolHadDelta = False, ra_PendingThinkingSignature = '''', ra_HasToolCall = False,
      ra_OutputIndexToBlockIdx = [], ra_textByPart = [], ra_InputTokens = 0, ra_OutputTokens = 0,
      ra_CacheReadInputTokens = 0, ra_CacheCreationInputTokens = 0, ra_ResponseID = '''', ra_Model = '''',
      ra_Created = now\<rparr>"

type_synonym r2a = "ResponsesEventToAnthropicState \<times> AnthropicStreamEvent list"

definition block_start :: "int \<Rightarrow> AnthropicContentBlock \<Rightarrow> AnthropicStreamEvent" where
  "block_start idx b = zero_anthropic_event\<lparr>ae_Type := ''content_block_start'', ae_Index := Some idx,
     ae_ContentBlock := Some b\<rparr>"

definition block_delta :: "int \<Rightarrow> AnthropicDelta \<Rightarrow> AnthropicStreamEvent" where
  "block_delta idx d = zero_anthropic_event\<lparr>ae_Type := ''content_block_delta'', ae_Index := Some idx,
     ae_Delta := Some d\<rparr>"

definition block_stop :: "int \<Rightarrow> AnthropicStreamEvent" where
  "block_stop idx = zero_anthropic_event\<lparr>ae_Type := ''content_block_stop'', ae_Index := Some idx\<rparr>"

section \<open>Handlers\<close>

definition closeCurrentBlock :: "ResponsesEventToAnthropicState \<Rightarrow> r2a" where
  "closeCurrentBlock state =
     (if \<not> ra_ContentBlockOpen state then (state, [])
      else
        (let idx = ra_ContentBlockIndex state;
             thinking = (ra_CurrentBlockType state = ''thinking'');
             sig = trim_space (ra_PendingThinkingSignature state);
             events = (if thinking \<and> sig \<noteq> ''''
               then [block_delta idx (zero_delta\<lparr>ad_Type := ''signature_delta'', ad_Signature := sig\<rparr>)] else []);
             state = (if thinking then state\<lparr>ra_PendingThinkingSignature := ''''\<rparr> else state)
         in (state\<lparr>ra_ContentBlockOpen := False, ra_ContentBlockIndex := idx + 1, ra_CurrentToolName := '''',
               ra_CurrentToolArgs := '''', ra_CurrentToolHadDelta := False\<rparr>,
             events @ [block_stop idx])))"

definition resToAnthHandleCreated ::
  "string \<Rightarrow> ResponsesStreamEvent \<Rightarrow> ResponsesEventToAnthropicState \<Rightarrow> r2a" where
  "resToAnthHandleCreated uuid evt state =
     (if ra_MessageStartSent state then (state, [])
      else
        (let state = (case re_Response evt of
               None \<Rightarrow> state
             | Some r \<Rightarrow> state\<lparr>ra_ResponseID := rr_ID r,
                 ra_Model := (if ra_Model state = '''' then rr_Model r else ra_Model state)\<rparr>);
             state = (if ra_ResponseID state = '''' then state\<lparr>ra_ResponseID := ''msg_'' @ uuid\<rparr> else state);
             state = state\<lparr>ra_MessageStartSent := True\<rparr>
         in (state,
             [zero_anthropic_event\<lparr>ae_Type := ''message_start'',
                ae_Message := Some \<lparr>ar_ID = ra_ResponseID state, ar_Type = ''message'', ar_Role = ''assistant'',
                  ar_Content = [], ar_Model = ra_Model state, ar_StopReason = None, ar_StopSequence = None,
                  ar_Usage = zero_anthropic_usage\<rparr>\<rparr>])))"

definition resToAnthHandleOutputItemAdded ::
  "ResponsesStreamEvent \<Rightarrow> ResponsesEventToAnthropicState \<Rightarrow> r2a" where
  "resToAnthHandleOutputItemAdded evt state =
     (case re_Item evt of
        None \<Rightarrow> (state, [])
      | Some item \<Rightarrow>
          (if ro_Type item = ''function_call'' \<or> ro_Type item = ''custom_tool_call'' then
             (let (state, events) = closeCurrentBlock state;
                  idx = ra_ContentBlockIndex state;
                  state = state\<lparr>ra_OutputIndexToBlockIdx :=
                      gm_put (re_OutputIndex evt) idx (ra_OutputIndexToBlockIdx state),
                    ra_ContentBlockOpen := True, ra_CurrentBlockType := ''tool_use'',
                    ra_CurrentToolName := ro_Name item, ra_CurrentToolArgs := '''',
                    ra_CurrentToolHadDelta := False, ra_HasToolCall := True\<rparr>
              in (state, events @ [block_start idx (zero_block\<lparr>cb_Type := ''tool_use'',
                    cb_ID := fromResponsesCallID (ro_CallID item), cb_Name := ro_Name item, cb_Input := ''{}''\<rparr>)]))
           else if ro_Type item = ''reasoning'' then
             (let (state, events) = closeCurrentBlock state;
                  idx = ra_ContentBlockIndex state;
                  state = state\<lparr>ra_OutputIndexToBlockIdx :=
                      gm_put (re_OutputIndex evt) idx (ra_OutputIndexToBlockIdx state),
                    ra_ContentBlockOpen := True, ra_CurrentBlockType := ''thinking'',
                    ra_PendingThinkingSignature := trim_space (ro_EncryptedContent item)\<rparr>
              in (state, events @ [block_start idx (zero_block\<lparr>cb_Type := ''thinking'', cb_Thinking := ''''\<rparr>)]))
           else (state, [])))"

definition delivered_text :: "ResponsesEventToAnthropicState \<Rightarrow> int \<times> int \<Rightarrow> string" where
  "delivered_text state part = gm_getd '''' (ra_textByPart state) part"

definition open_text_block :: "ResponsesEventToAnthropicState \<Rightarrow> r2a" where
  "open_text_block state =
     (if \<not> ra_ContentBlockOpen state \<or> ra_CurrentBlockType state \<noteq> ''text'' then
        (let (state, events) = closeCurrentBlock state;
             idx = ra_ContentBlockIndex state
         in (state\<lparr>ra_ContentBlockOpen := True, ra_CurrentBlockType := ''text''\<rparr>,
             events @ [block_start idx (zero_block\<lparr>cb_Type := ''text'', cb_Text := ''''\<rparr>)]))
      else (state, []))"

definition resToAnthHandleTextDelta ::
  "ResponsesStreamEvent \<Rightarrow> ResponsesEventToAnthropicState \<Rightarrow> r2a" where
  "resToAnthHandleTextDelta evt state =
     (if re_Delta evt = '''' then (state, [])
      else
        (let (state, events) = open_text_block state;
             idx = ra_ContentBlockIndex state;
             part = (re_OutputIndex evt, re_ContentIndex evt);
             state = state\<lparr>ra_textByPart :=
               gm_put part (delivered_text state part @ re_Delta evt) (ra_textByPart state)\<rparr>
         in (state, events @ [block_delta idx (zero_delta\<lparr>ad_Type := ''text_delta'', ad_Text := re_Delta evt\<rparr>)])))"

definition resToAnthRecoverText ::
  "ResponsesStreamEvent \<Rightarrow> ResponsesEventToAnthropicState \<Rightarrow> r2a" where
  "resToAnthRecoverText evt state =
     (let delivered = delivered_text state (re_OutputIndex evt, re_ContentIndex evt) in
      if re_Text evt = '''' \<or> re_Text evt = delivered \<or> \<not> has_prefix delivered (re_Text evt) then (state, [])
      else resToAnthHandleTextDelta (evt\<lparr>re_Delta := drop (length delivered) (re_Text evt)\<rparr>) state)"

definition input_json_delta :: "int \<Rightarrow> string \<Rightarrow> AnthropicStreamEvent" where
  "input_json_delta idx j = block_delta idx (zero_delta\<lparr>ad_Type := ''input_json_delta'', ad_PartialJSON := j\<rparr>)"

definition resToAnthHandleFuncArgsDelta ::
  "json_lib \<Rightarrow> ResponsesStreamEvent \<Rightarrow> ResponsesEventToAnthropicState \<Rightarrow> r2a" where
  "resToAnthHandleFuncArgsDelta js evt state =
     (if re_Delta evt = '''' then (state, [])
      else if ra_CurrentBlockType state = ''tool_use'' \<and> ra_CurrentToolName state = ''Read'' then
        (let state = state\<lparr>ra_CurrentToolArgs := ra_CurrentToolArgs state @ re_Delta evt\<rparr> in
         if ra_CurrentToolHadDelta state \<or> \<not> js_valid js (ra_CurrentToolArgs state) then (state, [])
         else case gm_get (ra_OutputIndexToBlockIdx state) (re_OutputIndex evt) of
                None \<Rightarrow> (state, [])
              | Some blockIdx \<Rightarrow>
                  (state\<lparr>ra_CurrentToolHadDelta := True\<rparr>,
                   [input_json_delta blockIdx
                      (sanitizeAnthropicToolUseInput js (ra_CurrentToolName state) (ra_CurrentToolArgs state))]))
      else
        (let state = (if ra_CurrentBlockType state = ''tool_use'' then state\<lparr>ra_CurrentToolHadDelta := True\<rparr> else state)
         in case gm_get (ra_OutputIndexToBlockIdx state) (re_OutputIndex evt) of
              None \<Rightarrow> (state, [])
            | Some blockIdx \<Rightarrow> (state, [input_json_delta blockIdx (re_Delta evt)])))"

definition resToAnthHandleBlockDone :: "ResponsesEventToAnthropicState \<Rightarrow> r2a" where
  "resToAnthHandleBlockDone state =
     (if \<not> ra_ContentBlockOpen state then (state, []) else closeCurrentBlock state)"

definition resToAnthHandleFuncArgsDone ::
  "json_lib \<Rightarrow> ResponsesStreamEvent \<Rightarrow> ResponsesEventToAnthropicState \<Rightarrow> r2a" where
  "resToAnthHandleFuncArgsDone js evt state =
     (if \<not> ra_ContentBlockOpen state then (state, [])
      else if ra_CurrentBlockType state \<noteq> ''tool_use'' then resToAnthHandleBlockDone state
      else
        (let raw = (if re_Arguments evt = '''' then ra_CurrentToolArgs state else re_Arguments evt) in
         if raw = '''' \<or> ra_CurrentToolHadDelta state then closeCurrentBlock state
         else
           (let sanitized = sanitizeAnthropicToolUseInput js (ra_CurrentToolName state) raw in
            if ra_CurrentToolName state = ''Read'' \<and> length sanitized = 0 then closeCurrentBlock state
            else
              (let raw = (if ra_CurrentToolName state = ''Read'' then sanitized else raw);
                   idx = ra_ContentBlockIndex state;
                   (state, events) = closeCurrentBlock state
               in (state, [input_json_delta idx raw] @ events)))))"

definition resToAnthHandleReasoningDelta ::
  "ResponsesStreamEvent \<Rightarrow> ResponsesEventToAnthropicState \<Rightarrow> r2a" where
  "resToAnthHandleReasoningDelta evt state =
     (if re_Delta evt = '''' then (state, [])
      else case gm_get (ra_OutputIndexToBlockIdx state) (re_OutputIndex evt) of
             None \<Rightarrow> (state, [])
           | Some blockIdx \<Rightarrow>
               (state, [block_delta blockIdx (zero_delta\<lparr>ad_Type := ''thinking_delta'', ad_Thinking := re_Delta evt\<rparr>)]))"

text \<open>The loops that recover the text of the parts of an item (from its index \<open>i\<close> on), and of the
  items of a response.\<close>

fun recover_parts ::
  "(ResponsesContentPart \<Rightarrow> bool) \<Rightarrow> int \<Rightarrow> int \<Rightarrow> ResponsesContentPart list \<Rightarrow>
   ResponsesEventToAnthropicState \<Rightarrow> r2a" where
  "recover_parts sel oi i [] state = (state, [])"
| "recover_parts sel oi i (part # parts) state =
     (let (state, events) =
        (if sel part
         then resToAnthRecoverText
                (zero_responses_event\<lparr>re_Text := cp_Text part, re_OutputIndex := oi, re_ContentIndex := i\<rparr>) state
         else (state, []));
          (state, events') = recover_parts sel oi (i + 1) parts state
      in (state, events @ events'))"

fun recover_items :: "int \<Rightarrow> ResponsesOutput list \<Rightarrow> ResponsesEventToAnthropicState \<Rightarrow> r2a" where
  "recover_items oi [] state = (state, [])"
| "recover_items oi (item # items) state =
     (let (state, events) =
        recover_parts (\<lambda>part. cp_Type part = ''output_text'' \<and> cp_Text part \<noteq> '''') oi 0 (ro_Content item) state;
          (state, events') = recover_items (oi + 1) items state
      in (state, events @ events'))"

definition resToAnthHandleWebSearchDone ::
  "json_lib \<Rightarrow> ResponsesOutput \<Rightarrow> ResponsesEventToAnthropicState \<Rightarrow> r2a" where
  "resToAnthHandleWebSearchDone js item state =
     (let (state, events) = closeCurrentBlock state;
          toolUseID = ''srvtoolu_'' @ ro_ID item;
          query = (case ro_Action item of None \<Rightarrow> '''' | Some a \<Rightarrow> ws_Query a);
          idx1 = ra_ContentBlockIndex state;
          idx2 = idx1 + 1
      in (state\<lparr>ra_ContentBlockIndex := idx2 + 1\<rparr>,
          events @
          [block_start idx1 (zero_block\<lparr>cb_Type := ''server_tool_use'', cb_ID := toolUseID,
             cb_Name := ''web_search'', cb_Input := js_query js query\<rparr>),
           block_stop idx1,
           block_start idx2 (zero_block\<lparr>cb_Type := ''web_search_tool_result'', cb_ToolUseID := toolUseID,
             cb_Content := ''[]''\<rparr>),
           block_stop idx2]))"

definition resToAnthHandleOutputItemDone ::
  "json_lib \<Rightarrow> ResponsesStreamEvent \<Rightarrow> ResponsesEventToAnthropicState \<Rightarrow> r2a" where
  "resToAnthHandleOutputItemDone js evt state =
     (case re_Item evt of
        None \<Rightarrow> (state, [])
      | Some item \<Rightarrow>
          (if ro_Type item = ''message'' \<and> ro_Status item \<noteq> ''failed'' then
             (let (state, events) =
                recover_parts (\<lambda>part. cp_Type part = ''output_text'') (re_OutputIndex evt) 0 (ro_Content item) state;
                  (state, events') = closeCurrentBlock state
              in (state, events @ events'))
           else if ro_Type item = ''web_search_call'' \<and> ro_Status item = ''completed'' then
             resToAnthHandleWebSearchDone js item state
           else
             (let sig = trim_space (ro_EncryptedContent item);
                  state = (if ro_Type item = ''reasoning'' \<and> sig \<noteq> ''''
                    then state\<lparr>ra_PendingThinkingSignature := sig\<rparr> else state)
              in if ra_ContentBlockOpen state then closeCurrentBlock state else (state, []))))"

definition record_usage ::
  "ResponsesUsage option \<Rightarrow> ResponsesEventToAnthropicState \<Rightarrow> ResponsesEventToAnthropicState" where
  "record_usage usage state =
     (case usage of
        None \<Rightarrow> state
      | Some u \<Rightarrow>
          (let a = anthropicUsageFromResponsesUsage (Some u) in
           state\<lparr>ra_InputTokens := au_InputTokens a, ra_OutputTokens := au_OutputTokens a,
             ra_CacheReadInputTokens := au_CacheReadInputTokens a,
             ra_CacheCreationInputTokens := au_CacheCreationInputTokens a\<rparr>))"

definition message_end :: "string \<Rightarrow> ResponsesEventToAnthropicState \<Rightarrow> AnthropicStreamEvent list" where
  "message_end stopReason state =
     [zero_anthropic_event\<lparr>ae_Type := ''message_delta'',
        ae_Delta := Some (zero_delta\<lparr>ad_StopReason := stopReason\<rparr>),
        ae_Usage := Some \<lparr>au_InputTokens = ra_InputTokens state, au_OutputTokens = ra_OutputTokens state,
          au_CacheCreationInputTokens = ra_CacheCreationInputTokens state,
          au_CacheReadInputTokens = ra_CacheReadInputTokens state\<rparr>\<rparr>,
      zero_anthropic_event\<lparr>ae_Type := ''message_stop''\<rparr>]"

definition completed_stop_reason ::
  "ResponsesResponse option \<Rightarrow> ResponsesEventToAnthropicState \<Rightarrow> string" where
  "completed_stop_reason response state =
     (case response of
        None \<Rightarrow> ''end_turn''
      | Some r \<Rightarrow>
          (if rr_Status r = ''incomplete''
              \<and> (case rr_IncompleteDetails r of None \<Rightarrow> False | Some d \<Rightarrow> id_Reason d = ''max_output_tokens'')
           then ''max_tokens''
           else if rr_Status r = ''completed'' \<and> ra_HasToolCall state then ''tool_use''
           else ''end_turn''))"

definition resToAnthHandleCompleted ::
  "ResponsesStreamEvent \<Rightarrow> ResponsesEventToAnthropicState \<Rightarrow> r2a" where
  "resToAnthHandleCompleted evt state =
     (if ra_MessageStopSent state then (state, [])
      else
        (let (state, events) = closeCurrentBlock state;
             (state, events) =
               (case re_Response evt of
                  None \<Rightarrow> (state, events)
                | Some r \<Rightarrow>
                    (if re_Type evt \<noteq> ''response.failed'' \<and> rr_Status r \<noteq> ''failed'' then
                       (let (state, events1) = recover_items 0 (rr_Output r) state;
                            (state, events2) = closeCurrentBlock state
                        in (state, events @ events1 @ events2))
                     else (state, events)));
             state = record_usage (re_Usage evt) state;
             state = (case re_Response evt of None \<Rightarrow> state | Some r \<Rightarrow> record_usage (rr_Usage r) state);
             stopReason = completed_stop_reason (re_Response evt) state
         in (state\<lparr>ra_MessageStopSent := True\<rparr>, events @ message_end stopReason state)))"

section \<open>The converter\<close>

definition convert_event ::
  "json_lib \<Rightarrow> string \<Rightarrow> ResponsesStreamEvent \<Rightarrow> ResponsesEventToAnthropicState \<Rightarrow> r2a" where
  "convert_event js uuid evt state =
     (let t = re_Type evt in
      if t = ''response.created'' then resToAnthHandleCreated uuid evt state
      else if t = ''response.output_item.added'' then resToAnthHandleOutputItemAdded evt state
      else if t = ''response.output_text.delta'' then resToAnthHandleTextDelta evt state
      else if t = ''response.output_text.done'' then
        (let (state, events) = resToAnthRecoverText evt state;
             (state, events') = resToAnthHandleBlockDone state
         in (state, events @ events'))
      else if t = ''response.function_call_arguments.delta'' \<or> t = ''response.custom_tool_call_input.delta''
        then resToAnthHandleFuncArgsDelta js evt state
      else if t = ''response.function_call_arguments.done'' then resToAnthHandleFuncArgsDone js evt state
      else if t = ''response.output_item.done'' then resToAnthHandleOutputItemDone js evt state
      else if t = ''response.reasoning_summary_text.delta'' \<or> t = ''response.reasoning_text.delta''
        then resToAnthHandleReasoningDelta evt state
      else if t = ''response.completed'' \<or> t = ''response.done'' \<or> t = ''response.incomplete'' \<or> t = ''response.failed''
        then resToAnthHandleCompleted evt state
      else (state, []))"

definition failed_event :: "ResponsesStreamEvent \<Rightarrow> bool" where
  "failed_event evt \<longleftrightarrow> re_Type evt = ''response.failed''
     \<or> (case re_Response evt of None \<Rightarrow> False | Some r \<Rightarrow> rr_Status r = ''failed'')"

definition ResponsesEventToAnthropicEvents ::
  "json_lib \<Rightarrow> string \<Rightarrow> ResponsesStreamEvent option \<Rightarrow> ResponsesEventToAnthropicState \<Rightarrow> r2a" where
  "ResponsesEventToAnthropicEvents js uuid evt_opt state =
     (case evt_opt of
        None \<Rightarrow> (state, [])
      | Some evt \<Rightarrow>
          (if ra_MessageStopSent state then (state, [])
           else
             (let (state, events) = convert_event js uuid evt state in
              if length events = 0 \<or> ra_MessageStartSent state \<or> failed_event evt then (state, events)
              else
                (let (state, start) = resToAnthHandleCreated uuid evt state in (state, start @ events)))))"

definition FinalizeResponsesAnthropicStream :: "ResponsesEventToAnthropicState \<Rightarrow> r2a" where
  "FinalizeResponsesAnthropicStream state =
     (if \<not> ra_MessageStartSent state \<or> ra_MessageStopSent state then (state, [])
      else
        (let (state, events) = closeCurrentBlock state;
             stopReason = (if ra_HasToolCall state then ''tool_use'' else ''end_turn'')
         in (state\<lparr>ra_MessageStopSent := True\<rparr>, events @ message_end stopReason state)))"

section \<open>The Anthropic stream protocol\<close>

text \<open>A message is started before its blocks; blocks have consecutive indices and are closed before the
  next one starts; a delta refers to a block that has been started; the message ends with no block
  open, and nothing follows its end. A stream that fails before it starts may consist of its end
  only.\<close>

record amon =
  am_started :: bool
  am_stopped :: bool
  am_open :: bool
  am_next :: int

definition amon_init :: amon where
  "amon_init = \<lparr>am_started = False, am_stopped = False, am_open = False, am_next = 0\<rparr>"

definition anth_mon :: "amon \<Rightarrow> AnthropicStreamEvent \<Rightarrow> amon option" where
  "anth_mon m e =
     (if am_stopped m then None
      else if ae_Type e = ''message_start'' then (if am_started m then None else Some (m\<lparr>am_started := True\<rparr>))
      else if ae_Type e = ''message_delta'' then (if am_open m then None else Some m)
      else if ae_Type e = ''message_stop'' then (if am_open m then None else Some (m\<lparr>am_stopped := True\<rparr>))
      else if \<not> am_started m then None
      else case ae_Index e of
             None \<Rightarrow> None
           | Some i \<Rightarrow>
               (if ae_Type e = ''content_block_start'' then
                  (if \<not> am_open m \<and> i = am_next m then Some (m\<lparr>am_open := True\<rparr>) else None)
                else if ae_Type e = ''content_block_delta'' then
                  (if 0 \<le> i \<and> (i < am_next m \<or> am_open m \<and> i = am_next m) then Some m else None)
                else if ae_Type e = ''content_block_stop'' then
                  (if am_open m \<and> i = am_next m then Some (m\<lparr>am_open := False, am_next := am_next m + 1\<rparr>) else None)
                else None))"

lemma anth_mon_start [simp]:
  "anth_mon m (block_start i b) =
     (if \<not> am_stopped m \<and> am_started m \<and> \<not> am_open m \<and> i = am_next m then Some (m\<lparr>am_open := True\<rparr>) else None)"
  by (simp add: anth_mon_def block_start_def)

lemma anth_mon_delta [simp]:
  "anth_mon m (block_delta i d) =
     (if \<not> am_stopped m \<and> am_started m \<and> 0 \<le> i \<and> (i < am_next m \<or> am_open m \<and> i = am_next m) then Some m else None)"
  by (simp add: anth_mon_def block_delta_def)

lemma anth_mon_input_json [simp]: "anth_mon m (input_json_delta i j) = anth_mon m (block_delta i zero_delta)"
  by (simp add: input_json_delta_def)

lemma anth_mon_stop [simp]:
  "anth_mon m (block_stop i) =
     (if \<not> am_stopped m \<and> am_started m \<and> am_open m \<and> i = am_next m
      then Some (m\<lparr>am_open := False, am_next := am_next m + 1\<rparr>) else None)"
  by (simp add: anth_mon_def block_stop_def)

section \<open>Handlers follow the protocol\<close>

definition blocks_ok :: "ResponsesEventToAnthropicState \<Rightarrow> bool" where
  "blocks_ok s \<longleftrightarrow> 0 \<le> ra_ContentBlockIndex s
     \<and> (\<forall>k i. gm_get (ra_OutputIndexToBlockIdx s) k = Some i \<longrightarrow>
          0 \<le> i \<and> i < ra_ContentBlockIndex s + (if ra_ContentBlockOpen s then 1 else 0))"

definition running :: "ResponsesEventToAnthropicState \<Rightarrow> amon" where
  "running s = \<lparr>am_started = True, am_stopped = False, am_open = ra_ContentBlockOpen s,
     am_next = ra_ContentBlockIndex s\<rparr>"

text \<open>\<open>emits s r\<close>: from a state \<open>s\<close> of a message that has started and not ended, the result
  \<open>r\<close> follows the protocol and neither starts nor ends the message.\<close>

definition emits :: "ResponsesEventToAnthropicState \<Rightarrow> r2a \<Rightarrow> bool" where
  "emits s r \<longleftrightarrow> blocks_ok (fst r) \<and> accepts anth_mon (running s) (snd r) = Some (running (fst r))
     \<and> ra_MessageStartSent (fst r) = ra_MessageStartSent s \<and> ra_MessageStopSent (fst r) = ra_MessageStopSent s"

named_theorems emits_rules \<open>results of handlers that follow the protocol\<close>

lemma emits_none [emits_rules]: "blocks_ok s \<Longrightarrow> emits s (s, [])"
  by (simp add: emits_def)

lemma emits_trans: "emits s (s1, e1) \<Longrightarrow> emits s1 (s2, e2) \<Longrightarrow> emits s (s2, e1 @ e2)"
  by (auto simp: emits_def)

lemma emits_blocks_ok: "emits s (s1, e1) \<Longrightarrow> blocks_ok s1"
  by (simp add: emits_def)

lemma emits_delta:
  assumes "blocks_ok s" "gm_get (ra_OutputIndexToBlockIdx s) k = Some i"
  shows "emits s (s, [block_delta i d])"
proof -
  have "0 \<le> i \<and> i < ra_ContentBlockIndex s + (if ra_ContentBlockOpen s then 1 else 0)"
    using assms by (auto simp: blocks_ok_def)
  then show ?thesis using assms(1) by (auto simp: emits_def running_def split: if_splits)
qed

lemma emits_close [emits_rules]: "blocks_ok s \<Longrightarrow> emits s (closeCurrentBlock s)"
  by (auto simp: emits_def blocks_ok_def running_def closeCurrentBlock_def Let_def split: if_splits)

lemma close_closes: "closeCurrentBlock s = (s1, e1) \<Longrightarrow> \<not> ra_ContentBlockOpen s1"
  by (auto simp: closeCurrentBlock_def Let_def split: if_splits)

lemma emits_start_block:
  assumes "blocks_ok s1" "\<not> ra_ContentBlockOpen s1"
    and "s2 = s1\<lparr>ra_ContentBlockOpen := True, ra_OutputIndexToBlockIdx := ra_OutputIndexToBlockIdx s2,
      ra_CurrentBlockType := ra_CurrentBlockType s2, ra_CurrentToolName := ra_CurrentToolName s2,
      ra_CurrentToolArgs := ra_CurrentToolArgs s2, ra_CurrentToolHadDelta := ra_CurrentToolHadDelta s2,
      ra_HasToolCall := ra_HasToolCall s2, ra_PendingThinkingSignature := ra_PendingThinkingSignature s2\<rparr>"
    and "ra_OutputIndexToBlockIdx s2 = ra_OutputIndexToBlockIdx s1
      \<or> ra_OutputIndexToBlockIdx s2 = gm_put k (ra_ContentBlockIndex s1) (ra_OutputIndexToBlockIdx s1)"
  shows "emits s1 (s2, [block_start (ra_ContentBlockIndex s1) b])"
proof -
  have "ra_ContentBlockOpen s2" "ra_ContentBlockIndex s2 = ra_ContentBlockIndex s1"
    "ra_MessageStartSent s2 = ra_MessageStartSent s1" "ra_MessageStopSent s2 = ra_MessageStopSent s1"
    by (subst assms(3), simp)+
  with assms(1,2,4) show ?thesis by (fastforce simp: emits_def blocks_ok_def running_def split: if_splits)
qed

lemma emits_item_added [emits_rules]:
  assumes "blocks_ok s"
  shows "emits s (resToAnthHandleOutputItemAdded evt s)"
proof (cases "\<exists>item. re_Item evt = Some item
    \<and> (ro_Type item = ''function_call'' \<or> ro_Type item = ''custom_tool_call'' \<or> ro_Type item = ''reasoning'')")
  case False
  then have "resToAnthHandleOutputItemAdded evt s = (s, [])"
    by (auto simp: resToAnthHandleOutputItemAdded_def split: option.splits)
  then show ?thesis using assms emits_none by simp
next
  case True
  then obtain item where item: "re_Item evt = Some item"
    "ro_Type item = ''function_call'' \<or> ro_Type item = ''custom_tool_call'' \<or> ro_Type item = ''reasoning''" by blast
  obtain s1 e1 where close: "closeCurrentBlock s = (s1, e1)" by force
  have c1: "emits s (s1, e1)" using emits_close [OF assms] close by simp
  obtain s2 b where s2: "resToAnthHandleOutputItemAdded evt s = (s2, e1 @ [block_start (ra_ContentBlockIndex s1) b])"
    and upd: "s2 = s1\<lparr>ra_ContentBlockOpen := True, ra_OutputIndexToBlockIdx := ra_OutputIndexToBlockIdx s2,
      ra_CurrentBlockType := ra_CurrentBlockType s2, ra_CurrentToolName := ra_CurrentToolName s2,
      ra_CurrentToolArgs := ra_CurrentToolArgs s2, ra_CurrentToolHadDelta := ra_CurrentToolHadDelta s2,
      ra_HasToolCall := ra_HasToolCall s2, ra_PendingThinkingSignature := ra_PendingThinkingSignature s2\<rparr>"
    and map: "ra_OutputIndexToBlockIdx s2 = gm_put (re_OutputIndex evt) (ra_ContentBlockIndex s1) (ra_OutputIndexToBlockIdx s1)"
    using item close by (cases "ro_Type item = ''reasoning''") (auto simp: resToAnthHandleOutputItemAdded_def Let_def)
  have "emits s1 (s2, [block_start (ra_ContentBlockIndex s1) b])"
    by (rule emits_start_block [OF emits_blocks_ok [OF c1] close_closes [OF close] upd disjI2 [OF map]])
  with c1 show ?thesis unfolding s2 by (rule emits_trans)
qed

lemma emits_open_text [emits_rules]:
  assumes "blocks_ok s"
  shows "emits s (open_text_block s) \<and> ra_ContentBlockOpen (fst (open_text_block s))"
proof (cases "\<not> ra_ContentBlockOpen s \<or> ra_CurrentBlockType s \<noteq> ''text''")
  case False
  then show ?thesis using assms emits_none by (simp add: open_text_block_def)
next
  case True
  obtain s1 e1 where close: "closeCurrentBlock s = (s1, e1)" by force
  have c1: "emits s (s1, e1)" using emits_close [OF assms] close by simp
  have "emits s1 (s1\<lparr>ra_ContentBlockOpen := True, ra_CurrentBlockType := ''text''\<rparr>,
      [block_start (ra_ContentBlockIndex s1) (zero_block\<lparr>cb_Type := ''text'', cb_Text := ''''\<rparr>)])"
    by (rule emits_start_block [OF emits_blocks_ok [OF c1] close_closes [OF close]]) auto
  with c1 True close show ?thesis by (auto simp: open_text_block_def intro: emits_trans)
qed

lemma emits_text_delta [emits_rules]:
  assumes "blocks_ok s"
  shows "emits s (resToAnthHandleTextDelta evt s)"
proof (cases "re_Delta evt = []")
  case True
  then show ?thesis using assms emits_none by (simp add: resToAnthHandleTextDelta_def)
next
  case False
  obtain s1 e1 where o1: "open_text_block s = (s1, e1)" by force
  have s1: "emits s (s1, e1)" "ra_ContentBlockOpen s1" using emits_open_text [OF assms] o1 by simp_all
  have ok1: "blocks_ok s1" using emits_blocks_ok [OF s1(1)] .
  have "emits s1 (s1\<lparr>ra_textByPart := t\<rparr>, [block_delta (ra_ContentBlockIndex s1) d])" for t d
    using ok1 s1(2) by (auto simp: emits_def blocks_ok_def running_def)
  then show ?thesis using s1(1) o1 False by (auto simp: resToAnthHandleTextDelta_def Let_def intro: emits_trans)
qed

lemma emits_recover [emits_rules]: "blocks_ok s \<Longrightarrow> emits s (resToAnthRecoverText evt s)"
  by (auto simp: resToAnthRecoverText_def Let_def intro: emits_rules)

lemma emits_quiet:
  assumes "blocks_ok s" "ra_ContentBlockOpen s' = ra_ContentBlockOpen s"
    "ra_ContentBlockIndex s' = ra_ContentBlockIndex s" "ra_OutputIndexToBlockIdx s' = ra_OutputIndexToBlockIdx s"
    "ra_MessageStartSent s' = ra_MessageStartSent s" "ra_MessageStopSent s' = ra_MessageStopSent s"
  shows "emits s (s', [])"
  using assms by (auto simp: emits_def blocks_ok_def running_def)

lemma emits_quiet_delta:
  assumes "blocks_ok s" "gm_get (ra_OutputIndexToBlockIdx s) k = Some i" "ra_ContentBlockOpen s' = ra_ContentBlockOpen s"
    "ra_ContentBlockIndex s' = ra_ContentBlockIndex s" "ra_OutputIndexToBlockIdx s' = ra_OutputIndexToBlockIdx s"
    "ra_MessageStartSent s' = ra_MessageStartSent s" "ra_MessageStopSent s' = ra_MessageStopSent s"
  shows "emits s (s', [block_delta i d])"
  using emits_trans [OF emits_delta [OF assms(1,2), of d] emits_quiet [OF assms(1,3-7)]] by simp

lemma emits_args_delta [emits_rules]: "blocks_ok s \<Longrightarrow> emits s (resToAnthHandleFuncArgsDelta js evt s)"
  by (auto simp: resToAnthHandleFuncArgsDelta_def Let_def input_json_delta_def
      intro!: emits_quiet emits_quiet_delta split: option.splits)

lemma emits_block_done [emits_rules]: "blocks_ok s \<Longrightarrow> emits s (resToAnthHandleBlockDone s)"
  by (simp add: resToAnthHandleBlockDone_def emits_none emits_close)

lemma emits_args_done [emits_rules]:
  assumes "blocks_ok s"
  shows "emits s (resToAnthHandleFuncArgsDone js evt s)"
proof (cases "ra_ContentBlockOpen s")
  case False
  then show ?thesis using assms emits_none by (simp add: resToAnthHandleFuncArgsDone_def)
next
  case True
  obtain s1 e1 where close: "closeCurrentBlock s = (s1, e1)" by force
  have c1: "emits s (s1, e1)" using emits_close [OF assms] close by simp
  have "emits s (s, [block_delta (ra_ContentBlockIndex s) d])" for d
    using assms True by (auto simp: emits_def blocks_ok_def running_def)
  then have "emits s (s1, [block_delta (ra_ContentBlockIndex s) d] @ e1)" for d
    using c1 by (rule emits_trans)
  with c1 close True emits_block_done [OF assms] show ?thesis
    by (simp add: resToAnthHandleFuncArgsDone_def Let_def input_json_delta_def)
qed

lemma emits_reasoning_delta [emits_rules]: "blocks_ok s \<Longrightarrow> emits s (resToAnthHandleReasoningDelta evt s)"
  by (auto simp: resToAnthHandleReasoningDelta_def intro: emits_none emits_delta split: option.splits)

lemma emits_recover_parts [emits_rules]:
  "blocks_ok s \<Longrightarrow> emits s (recover_parts sel oi i parts s)"
proof (induction sel oi i parts s rule: recover_parts.induct)
  case (1 sel oi i s)
  then show ?case by (simp add: emits_none)
next
  case (2 sel oi i part parts s)
  let ?e = "zero_responses_event\<lparr>re_Text := cp_Text part, re_OutputIndex := oi, re_ContentIndex := i\<rparr>"
  obtain s1 e1 where one: "(if sel part then resToAnthRecoverText ?e s else (s, [])) = (s1, e1)" by force
  have c1: "emits s (s1, e1)"
    using emits_recover [OF "2.prems", of ?e] emits_none [OF "2.prems"] one by (auto split: if_splits)
  obtain s2 e2 where two: "recover_parts sel oi (i + 1) parts s1 = (s2, e2)" by force
  have "emits s1 (s2, e2)" using "2.IH" [OF one [symmetric] refl emits_blocks_ok [OF c1]] two by simp
  with c1 one two show ?case by (simp add: Let_def emits_trans)
qed

lemma emits_recover_items [emits_rules]: "blocks_ok s \<Longrightarrow> emits s (recover_items oi items s)"
proof (induction oi items s rule: recover_items.induct)
  case (1 oi s)
  then show ?case by (simp add: emits_none)
next
  case (2 oi item items s)
  let ?sel = "\<lambda>part. cp_Type part = ''output_text'' \<and> cp_Text part \<noteq> ''''"
  obtain s1 e1 where one: "recover_parts ?sel oi 0 (ro_Content item) s = (s1, e1)" by force
  have c1: "emits s (s1, e1)" using emits_recover_parts [OF "2.prems", of ?sel oi 0 "ro_Content item"] one by simp
  obtain s2 e2 where two: "recover_items (oi + 1) items s1 = (s2, e2)" by force
  have "emits s1 (s2, e2)" using "2.IH" [OF one [symmetric] refl emits_blocks_ok [OF c1]] two by simp
  with c1 one two show ?case by (simp add: Let_def emits_trans)
qed

lemma emits_web_search [emits_rules]:
  assumes "blocks_ok s"
  shows "emits s (resToAnthHandleWebSearchDone js item s)"
proof -
  obtain s1 e1 where close: "closeCurrentBlock s = (s1, e1)" by force
  have c1: "emits s (s1, e1)" using emits_close [OF assms] close by simp
  have "blocks_ok s1" "\<not> ra_ContentBlockOpen s1" using emits_blocks_ok [OF c1] close_closes [OF close] by auto
  then have "emits s1 (s1\<lparr>ra_ContentBlockIndex := ra_ContentBlockIndex s1 + 1 + 1\<rparr>,
      [block_start (ra_ContentBlockIndex s1) b, block_stop (ra_ContentBlockIndex s1),
       block_start (ra_ContentBlockIndex s1 + 1) b', block_stop (ra_ContentBlockIndex s1 + 1)])" for b b'
    by (fastforce simp: emits_def blocks_ok_def running_def)
  with c1 close show ?thesis by (auto simp: resToAnthHandleWebSearchDone_def Let_def intro: emits_trans)
qed

lemma emits_item_done [emits_rules]:
  assumes "blocks_ok s"
  shows "emits s (resToAnthHandleOutputItemDone js evt s)"
proof (cases "re_Item evt")
  case None
  then show ?thesis using assms emits_none by (simp add: resToAnthHandleOutputItemDone_def)
next
  case (Some item)
  let ?sel = "\<lambda>part. cp_Type part = ''output_text''"
  obtain s1 e1 where one: "recover_parts ?sel (re_OutputIndex evt) 0 (ro_Content item) s = (s1, e1)" by force
  have c1: "emits s (s1, e1)"
    using emits_recover_parts [OF assms, of ?sel "re_OutputIndex evt" 0 "ro_Content item"] one by simp
  have message: "emits s (fst (closeCurrentBlock s1), e1 @ snd (closeCurrentBlock s1))"
    using emits_trans [OF c1] emits_close [OF emits_blocks_ok [OF c1]] by (metis prod.collapse)
  have quiet: "emits s (s\<lparr>ra_PendingThinkingSignature := x\<rparr>, [])" for x
    using assms by (auto intro: emits_quiet)
  then have "emits s (fst (closeCurrentBlock (s\<lparr>ra_PendingThinkingSignature := x\<rparr>)),
      [] @ snd (closeCurrentBlock (s\<lparr>ra_PendingThinkingSignature := x\<rparr>)))" for x
    using emits_close [OF emits_blocks_ok [OF quiet [of x]]] by (metis emits_trans prod.collapse)
  then have closed: "emits s (closeCurrentBlock (s\<lparr>ra_PendingThinkingSignature := x\<rparr>))" for x by simp
  show ?thesis
    using Some message one quiet closed emits_web_search [OF assms] emits_close [OF assms] emits_none [OF assms]
    by (simp add: resToAnthHandleOutputItemDone_def Let_def split_def)
qed

section \<open>The whole stream\<close>

definition terminal_type :: "string \<Rightarrow> bool" where
  "terminal_type t \<longleftrightarrow> t = ''response.completed'' \<or> t = ''response.done'' \<or> t = ''response.incomplete''
     \<or> t = ''response.failed''"

text \<open>An upstream reports a failed response only in a terminal event.\<close>

definition upstream_event :: "string \<times> ResponsesStreamEvent option \<Rightarrow> bool" where
  "upstream_event e = (case snd e of None \<Rightarrow> True | Some evt \<Rightarrow> failed_event evt \<longrightarrow> terminal_type (re_Type evt))"

definition r2a_step ::
  "json_lib \<Rightarrow> string \<times> ResponsesStreamEvent option \<Rightarrow> ResponsesEventToAnthropicState \<Rightarrow> r2a" where
  "r2a_step js e s = ResponsesEventToAnthropicEvents js (fst e) (snd e) s"

definition r2a_rel :: "ResponsesEventToAnthropicState \<Rightarrow> amon \<Rightarrow> bool" where
  "r2a_rel s m \<longleftrightarrow> blocks_ok s \<and> am_started m = ra_MessageStartSent s \<and> am_stopped m = ra_MessageStopSent s
     \<and> am_open m = ra_ContentBlockOpen s \<and> am_next m = ra_ContentBlockIndex s
     \<and> (\<not> ra_MessageStartSent s \<or> ra_MessageStopSent s \<longrightarrow> \<not> ra_ContentBlockOpen s)"

lemma accepts_message_end:
  "\<not> am_stopped m \<Longrightarrow> \<not> am_open m \<Longrightarrow> accepts anth_mon m (message_end r s) = Some (m\<lparr>am_stopped := True\<rparr>)"
  by (simp add: message_end_def anth_mon_def)

lemma record_usage_fields [simp]:
  "ra_MessageStartSent (record_usage u s) = ra_MessageStartSent s"
  "ra_MessageStopSent (record_usage u s) = ra_MessageStopSent s"
  "ra_ContentBlockOpen (record_usage u s) = ra_ContentBlockOpen s"
  "ra_ContentBlockIndex (record_usage u s) = ra_ContentBlockIndex s"
  "ra_OutputIndexToBlockIdx (record_usage u s) = ra_OutputIndexToBlockIdx s"
  "ra_HasToolCall (record_usage u s) = ra_HasToolCall s"
  "ra_textByPart (record_usage u s) = ra_textByPart s"
  by (simp_all add: record_usage_def Let_def split: option.splits)

text \<open>The end of a message: what is recovered, then the end itself, with no block left open.\<close>

lemma completed_result:
  assumes "blocks_ok s" "\<not> ra_MessageStopSent s" "resToAnthHandleCompleted evt s = (s', evs)"
  obtains s1 e1 r where "emits s (s1, e1)" "\<not> ra_ContentBlockOpen s1" "evs = e1 @ message_end r s'"
    "ra_MessageStopSent s'" "ra_MessageStartSent s' = ra_MessageStartSent s"
    "ra_ContentBlockOpen s' = ra_ContentBlockOpen s1" "ra_ContentBlockIndex s' = ra_ContentBlockIndex s1"
    "ra_OutputIndexToBlockIdx s' = ra_OutputIndexToBlockIdx s1"
    "\<not> ra_ContentBlockOpen s \<Longrightarrow> failed_event evt \<Longrightarrow> e1 = [] \<and> ra_ContentBlockIndex s1 = ra_ContentBlockIndex s"
proof -
  obtain s1 e1 where close: "closeCurrentBlock s = (s1, e1)" by force
  have c1: "emits s (s1, e1)" using emits_close [OF assms(1)] close by simp
  define skip where "skip = (case re_Response evt of None \<Rightarrow> True
    | Some r \<Rightarrow> re_Type evt = ''response.failed'' \<or> rr_Status r = ''failed'')"
  obtain s2 e2 where rec: "recover_items 0 (case re_Response evt of None \<Rightarrow> [] | Some r \<Rightarrow> rr_Output r) s1 = (s2, e2)" by force
  have c2: "emits s1 (s2, e2)" using emits_recover_items [OF emits_blocks_ok [OF c1]] rec by metis
  obtain s3 e3 where close3: "closeCurrentBlock s2 = (s3, e3)" by force
  have c3: "emits s2 (s3, e3)" using emits_close [OF emits_blocks_ok [OF c2]] close3 by simp
  define t where "t = (if skip then s1 else s3)"
  define te where "te = (if skip then e1 else e1 @ e2 @ e3)"
  have t: "emits s (t, te)" using emits_trans [OF c1 emits_trans [OF c2 c3]] c1 by (simp add: t_def te_def)
  have shut: "\<not> ra_ContentBlockOpen t"
    using close_closes [OF close] close_closes [OF close3] by (simp add: t_def)
  define u where "u = (case re_Response evt of None \<Rightarrow> record_usage (re_Usage evt) t
    | Some r \<Rightarrow> record_usage (rr_Usage r) (record_usage (re_Usage evt) t))"
  have u: "ra_MessageStartSent u = ra_MessageStartSent t" "ra_ContentBlockOpen u = ra_ContentBlockOpen t"
    "ra_ContentBlockIndex u = ra_ContentBlockIndex t" "ra_OutputIndexToBlockIdx u = ra_OutputIndexToBlockIdx t"
    by (simp_all add: u_def split: option.splits)
  have res: "resToAnthHandleCompleted evt s = (u\<lparr>ra_MessageStopSent := True\<rparr>,
      te @ message_end (completed_stop_reason (re_Response evt) u) u)"
    using assms(2) close close3 rec
    by (simp add: resToAnthHandleCompleted_def Let_def t_def te_def u_def skip_def split: option.splits)
  have me: "message_end r (u\<lparr>ra_MessageStopSent := True\<rparr>) = message_end r u" for r
    by (simp add: message_end_def)
  have "te = [] \<and> ra_ContentBlockIndex t = ra_ContentBlockIndex s" if "\<not> ra_ContentBlockOpen s" "failed_event evt"
    using that close by (auto simp: te_def t_def skip_def failed_event_def closeCurrentBlock_def split: option.splits)
  with t shut res u me assms(3) show thesis
    by (intro that [of t te "completed_stop_reason (re_Response evt) u"]) (auto simp: emits_def)
qed

lemma created_result:
  assumes "\<not> ra_MessageStartSent s"
  obtains s' ev where "resToAnthHandleCreated uuid evt s = (s', [ev])" "ae_Type ev = ''message_start''"
    "ra_MessageStartSent s'" "ra_MessageStopSent s' = ra_MessageStopSent s"
    "ra_ContentBlockOpen s' = ra_ContentBlockOpen s" "ra_ContentBlockIndex s' = ra_ContentBlockIndex s"
    "ra_OutputIndexToBlockIdx s' = ra_OutputIndexToBlockIdx s"
  using assms by (simp add: resToAnthHandleCreated_def Let_def split: option.splits)

lemma convert_emits:
  assumes "blocks_ok s" "re_Type evt \<noteq> ''response.created''" "\<not> terminal_type (re_Type evt)"
  shows "emits s (convert_event js uuid evt s)"
proof -
  obtain s1 e1 where rec: "resToAnthRecoverText evt s = (s1, e1)" by force
  have c1: "emits s (s1, e1)" using emits_recover [OF assms(1), of evt] rec by simp
  have "emits s (fst (resToAnthHandleBlockDone s1), e1 @ snd (resToAnthHandleBlockDone s1))"
    using emits_block_done [OF emits_blocks_ok [OF c1]] c1 by (metis emits_trans prod.collapse)
  with rec show ?thesis
    using assms emits_rules [OF assms(1)] by (simp add: convert_event_def terminal_type_def Let_def split_def)
qed

lemma blocks_ok_cong:
  "blocks_ok s \<Longrightarrow> ra_ContentBlockOpen s' = ra_ContentBlockOpen s \<Longrightarrow>
   ra_ContentBlockIndex s' = ra_ContentBlockIndex s \<Longrightarrow>
   ra_OutputIndexToBlockIdx s' = ra_OutputIndexToBlockIdx s \<Longrightarrow> blocks_ok s'"
  by (simp add: blocks_ok_def)

lemma accepts_message_start:
  "ae_Type ev = ''message_start'' \<Longrightarrow> \<not> am_started m \<Longrightarrow> \<not> am_stopped m \<Longrightarrow>
   accepts anth_mon m (ev # evs) = accepts anth_mon (m\<lparr>am_started := True\<rparr>) evs"
  by (simp add: anth_mon_def)

text \<open>One step, when the message has not ended: \<open>convert_event\<close> from a running message, then the
  start in front when it is still missing.\<close>

lemma step_with_start:
  assumes conv: "convert_event js uuid evt s = (s1, evs)" and rel: "r2a_rel s m" "\<not> ra_MessageStopSent s"
    and nofail: "\<not> ra_MessageStartSent s \<longrightarrow> \<not> failed_event evt" and evs: "evs \<noteq> []"
    and acc: "accepts anth_mon (running s) evs = Some m1" "r2a_rel (s1\<lparr>ra_MessageStartSent := True\<rparr>) m1"
    and start: "ra_MessageStartSent s1 = ra_MessageStartSent s"
  shows "\<exists>m'. accepts anth_mon m (snd (ResponsesEventToAnthropicEvents js uuid (Some evt) s)) = Some m'
    \<and> r2a_rel (fst (ResponsesEventToAnthropicEvents js uuid (Some evt) s)) m'"
proof (cases "ra_MessageStartSent s")
  case True
  then have "m = running s" "s1\<lparr>ra_MessageStartSent := True\<rparr> = s1"
    using rel start by (auto simp: r2a_rel_def running_def)
  with True conv rel(2) acc start show ?thesis
    by (simp add: ResponsesEventToAnthropicEvents_def)
next
  case False
  then obtain s2 ev where cr: "resToAnthHandleCreated uuid evt s1 = (s2, [ev])" "ae_Type ev = ''message_start''"
    "ra_MessageStartSent s2" "ra_MessageStopSent s2 = ra_MessageStopSent s1"
    "ra_ContentBlockOpen s2 = ra_ContentBlockOpen s1" "ra_ContentBlockIndex s2 = ra_ContentBlockIndex s1"
    "ra_OutputIndexToBlockIdx s2 = ra_OutputIndexToBlockIdx s1"
    using created_result [of s1 uuid evt] start by metis
  have res: "ResponsesEventToAnthropicEvents js uuid (Some evt) s = (s2, ev # evs)"
    using False conv rel(2) nofail evs start cr(1) by (simp add: ResponsesEventToAnthropicEvents_def)
  have "m\<lparr>am_started := True\<rparr> = running s" using rel False by (auto simp: r2a_rel_def running_def)
  then have "accepts anth_mon m (ev # evs) = Some m1"
    using accepts_message_start [OF cr(2)] rel False acc(1) by (simp add: r2a_rel_def)
  moreover have "r2a_rel s2 m1"
    using acc(2) cr by (auto simp: r2a_rel_def intro: blocks_ok_cong)
  ultimately show ?thesis using res by simp
qed

lemma r2a_step_accepted:
  assumes "upstream_event e" "r2a_rel s m"
  shows "\<exists>m'. accepts anth_mon m (snd (r2a_step js e s)) = Some m' \<and> r2a_rel (fst (r2a_step js e s)) m'"
proof (cases "snd e = None \<or> ra_MessageStopSent s")
  case True
  then show ?thesis using assms(2) by (auto simp: r2a_step_def ResponsesEventToAnthropicEvents_def split: option.splits)
next
  case live: False
  then obtain evt where evt: "snd e = Some evt" and run: "\<not> ra_MessageStopSent s" by auto
  have ok: "blocks_ok s" using assms(2) by (simp add: r2a_rel_def)
  obtain s1 evs where conv: "convert_event js (fst e) evt s = (s1, evs)" by force
  consider (created) "re_Type evt = ''response.created''" | (terminal) "terminal_type (re_Type evt)"
    | (other) "re_Type evt \<noteq> ''response.created''" "\<not> terminal_type (re_Type evt)" by blast
  then show ?thesis
  proof cases
    case created
    then have res: "ResponsesEventToAnthropicEvents js (fst e) (Some evt) s = resToAnthHandleCreated (fst e) evt s"
      using run by (auto simp: ResponsesEventToAnthropicEvents_def convert_event_def resToAnthHandleCreated_def Let_def
          split: option.splits prod.splits)
    show ?thesis
    proof (cases "ra_MessageStartSent s")
      case True
      then show ?thesis using assms(2) evt res by (simp add: r2a_step_def resToAnthHandleCreated_def)
    next
      case False
      then obtain s2 ev where cr: "resToAnthHandleCreated (fst e) evt s = (s2, [ev])" "ae_Type ev = ''message_start''"
        "ra_MessageStartSent s2" "ra_MessageStopSent s2 = ra_MessageStopSent s"
        "ra_ContentBlockOpen s2 = ra_ContentBlockOpen s" "ra_ContentBlockIndex s2 = ra_ContentBlockIndex s"
        "ra_OutputIndexToBlockIdx s2 = ra_OutputIndexToBlockIdx s"
        using created_result by metis
      have "accepts anth_mon m [ev] = Some (m\<lparr>am_started := True\<rparr>)"
        using accepts_message_start [OF cr(2)] assms(2) False run by (simp add: r2a_rel_def)
      moreover have "r2a_rel s2 (m\<lparr>am_started := True\<rparr>)"
        using assms(2) cr False run by (auto simp: r2a_rel_def intro: blocks_ok_cong)
      ultimately show ?thesis using res cr(1) evt by (simp add: r2a_step_def)
    qed
  next
    case terminal
    then have "resToAnthHandleCompleted evt s = (s1, evs)"
      using conv by (auto simp: convert_event_def terminal_type_def Let_def)
    then obtain s0 e0 r where c0: "emits s (s0, e0)" "\<not> ra_ContentBlockOpen s0" "evs = e0 @ message_end r s1"
      "ra_MessageStopSent s1" "ra_MessageStartSent s1 = ra_MessageStartSent s"
      "ra_ContentBlockOpen s1 = ra_ContentBlockOpen s0" "ra_ContentBlockIndex s1 = ra_ContentBlockIndex s0"
      "ra_OutputIndexToBlockIdx s1 = ra_OutputIndexToBlockIdx s0"
      and fail: "\<not> ra_ContentBlockOpen s \<Longrightarrow> failed_event evt \<Longrightarrow> e0 = [] \<and> ra_ContentBlockIndex s0 = ra_ContentBlockIndex s"
      using completed_result [OF ok run] by metis
    have acc: "accepts anth_mon (running s) evs = Some (running s0\<lparr>am_stopped := True\<rparr>)"
      unfolding c0(3) using c0(1,2) accepts_message_end [of "running s0"]
      by (intro accepts_appendI) (auto simp: emits_def running_def)
    have ok1: "blocks_ok s1" using emits_blocks_ok [OF c0(1)] c0 by (auto intro: blocks_ok_cong)
    show ?thesis
    proof (cases "\<not> ra_MessageStartSent s \<and> failed_event evt")
      case True
      then have shut: "\<not> ra_ContentBlockOpen s" using assms(2) by (simp add: r2a_rel_def)
      have e0: "e0 = []" "ra_ContentBlockIndex s0 = ra_ContentBlockIndex s" using fail [OF shut] True by auto
      have "accepts anth_mon m evs = Some (m\<lparr>am_stopped := True\<rparr>)"
        using assms(2) shut run c0(3) e0 by (simp add: r2a_rel_def accepts_message_end)
      moreover have "r2a_rel s1 (m\<lparr>am_stopped := True\<rparr>)"
        using assms(2) ok1 c0 e0 shut True by (auto simp: r2a_rel_def)
      ultimately show ?thesis
        using True conv run evt by (simp add: r2a_step_def ResponsesEventToAnthropicEvents_def)
    next
      case False
      have "r2a_rel (s1\<lparr>ra_MessageStartSent := True\<rparr>) (running s0\<lparr>am_stopped := True\<rparr>)"
        using ok1 c0 by (auto simp: r2a_rel_def running_def intro: blocks_ok_cong)
      moreover have "evs \<noteq> []" using c0(3) by (simp add: message_end_def)
      moreover have "\<not> ra_MessageStartSent s \<longrightarrow> \<not> failed_event evt" using False by blast
      ultimately show ?thesis
        using step_with_start [OF conv assms(2) run _ _ acc _ c0(5)] evt unfolding r2a_step_def by simp
    qed
  next
    case other
    have em: "emits s (s1, evs)" using convert_emits [OF ok other, of js "fst e"] conv by simp
    have nofail: "\<not> failed_event evt" using assms(1) other(2) evt by (auto simp: upstream_event_def)
    show ?thesis
    proof (cases "evs = []")
      case True
      then have "r2a_rel s1 m" using em assms(2) by (auto simp: emits_def r2a_rel_def running_def)
      then show ?thesis using True conv run evt by (simp add: r2a_step_def ResponsesEventToAnthropicEvents_def)
    next
      case False
      have "r2a_rel (s1\<lparr>ra_MessageStartSent := True\<rparr>) (running s1)"
        using em run by (auto simp: emits_def r2a_rel_def running_def intro: blocks_ok_cong)
      then show ?thesis
        using step_with_start [OF conv assms(2) run _ False, of "running s1"] em nofail evt
        by (simp add: emits_def r2a_step_def)
    qed
  qed
qed

interpretation r2a: monitored_stream "r2a_step js" upstream_event anth_mon r2a_rel for js
  by unfold_locales (rule r2a_step_accepted)

lemma r2a_start: "r2a_rel (NewResponsesEventToAnthropicState now) amon_init"
  by (simp add: r2a_rel_def blocks_ok_def NewResponsesEventToAnthropicState_def amon_init_def)

lemma finalize_accepted:
  assumes "r2a_rel s m"
  shows "\<exists>m'. accepts anth_mon m (snd (FinalizeResponsesAnthropicStream s)) = Some m'
    \<and> r2a_rel (fst (FinalizeResponsesAnthropicStream s)) m' \<and> (am_started m \<longrightarrow> am_stopped m')"
proof (cases "\<not> ra_MessageStartSent s \<or> ra_MessageStopSent s")
  case True
  then show ?thesis using assms by (auto simp: FinalizeResponsesAnthropicStream_def r2a_rel_def)
next
  case False
  obtain s1 e1 where close: "closeCurrentBlock s = (s1, e1)" by force
  have c1: "emits s (s1, e1)" using emits_close [of s] assms close by (simp add: r2a_rel_def)
  have shut: "\<not> ra_ContentBlockOpen s1" using close_closes [OF close] .
  have "m = running s" using assms False by (auto simp: r2a_rel_def running_def)
  then have "accepts anth_mon m (e1 @ message_end r s1) = Some (running s1\<lparr>am_stopped := True\<rparr>)" for r
    using c1 shut accepts_message_end [of "running s1"] by (intro accepts_appendI) (auto simp: emits_def running_def)
  moreover have "r2a_rel (s1\<lparr>ra_MessageStopSent := True\<rparr>) (running s1\<lparr>am_stopped := True\<rparr>)"
    using c1 shut False by (auto simp: r2a_rel_def running_def emits_def intro: blocks_ok_cong)
  ultimately show ?thesis
    using False close by (simp add: FinalizeResponsesAnthropicStream_def Let_def)
qed

lemma accepts_begun:
  "accepts anth_mon m xs = Some m' \<Longrightarrow> am_started m \<or> am_stopped m \<Longrightarrow> am_started m' \<or> am_stopped m'"
proof (induction xs arbitrary: m)
  case (Cons x xs)
  then obtain m1 where "anth_mon m x = Some m1" "accepts anth_mon m1 xs = Some m'" by (auto split: option.splits)
  moreover from this have "am_started m1 \<or> am_stopped m1"
    using Cons.prems(2) by (auto simp: anth_mon_def split: if_splits option.splits)
  ultimately show ?case using Cons.IH by blast
qed simp

lemma step_output_begun:
  assumes "upstream_event e" "snd (r2a_step js e s) \<noteq> []"
  shows "ra_MessageStartSent (fst (r2a_step js e s)) \<or> ra_MessageStopSent (fst (r2a_step js e s))"
proof -
  obtain evt where evt: "snd e = Some evt" and run: "\<not> ra_MessageStopSent s"
    using assms(2) by (auto simp: r2a_step_def ResponsesEventToAnthropicEvents_def split: option.splits if_splits)
  obtain s1 evs where conv: "convert_event js (fst e) evt s = (s1, evs)" by force
  show ?thesis
  proof (cases "failed_event evt")
    case True
    then have "resToAnthHandleCompleted evt s = (s1, evs)"
      using assms(1) conv evt by (auto simp: upstream_event_def convert_event_def terminal_type_def Let_def)
    then have "ra_MessageStopSent s1"
      using run by (auto simp: resToAnthHandleCompleted_def Let_def split: prod.splits)
    then show ?thesis using True conv run evt by (simp add: r2a_step_def ResponsesEventToAnthropicEvents_def)
  next
    case False
    show ?thesis
    proof (cases "ra_MessageStartSent s1")
      case True
      then show ?thesis using conv run evt by (simp add: r2a_step_def ResponsesEventToAnthropicEvents_def)
    next
      case fresh: False
      obtain s2 ev where "resToAnthHandleCreated (fst e) evt s1 = (s2, [ev])" "ra_MessageStartSent s2"
        using created_result [OF fresh] by metis
      moreover have "evs \<noteq> []"
        using assms(2) conv run evt by (auto simp: r2a_step_def ResponsesEventToAnthropicEvents_def)
      ultimately show ?thesis
        using False fresh conv run evt by (simp add: r2a_step_def ResponsesEventToAnthropicEvents_def)
    qed
  qed
qed

lemma run_output_begun:
  assumes "list_all upstream_event es" "r2a_rel s m" "run_all (r2a_step js) es s = (s', outs)"
    and "concat outs \<noteq> [] \<or> am_started m \<or> am_stopped m"
  shows "ra_MessageStartSent s' \<or> ra_MessageStopSent s'"
  using assms
proof (induction es arbitrary: s m outs)
  case Nil
  then show ?case by (auto simp: r2a_rel_def)
next
  case (Cons e es)
  obtain s1 o1 where step: "r2a_step js e s = (s1, o1)" by force
  obtain outs' where rest: "run_all (r2a_step js) es s1 = (s', outs')" "outs = o1 # outs'"
    using Cons.prems(3) step by (auto split: prod.splits)
  obtain m1 where m1: "accepts anth_mon m o1 = Some m1" "r2a_rel s1 m1"
    using r2a_step_accepted [of e s m js] Cons.prems(1,2) step by auto
  have "concat outs' \<noteq> [] \<or> am_started m1 \<or> am_stopped m1"
    using Cons.prems(1,4) rest(2) step step_output_begun [of e js s] accepts_begun [OF m1(1)] m1(2)
    by (auto simp: r2a_rel_def)
  then show ?case using Cons.IH [OF _ m1(2) rest(1)] Cons.prems(1) by simp
qed


text \<open>Inputs for the evaluations below: a JSON library that knows one object, and a start.\<close>

definition demo_json :: json_lib where
  "demo_json = \<lparr>js_valid = (\<lambda>s. s = ''{}''), js_object = (\<lambda>s. if s = ''{}'' then Some [] else None),
     js_encode = (\<lambda>m. if m = [] then Some ''{}'' else None), js_query = (\<lambda>q. q)\<rparr>"

definition text_delta_event :: "int \<Rightarrow> int \<Rightarrow> string \<Rightarrow> ResponsesStreamEvent" where
  "text_delta_event oi ci d = zero_responses_event\<lparr>re_Type := ''response.output_text.delta'',
     re_OutputIndex := oi, re_ContentIndex := ci, re_Delta := d\<rparr>"


section \<open>No text is lost or repeated\<close>

definition emitted_text :: "AnthropicStreamEvent list \<Rightarrow> string" where
  "emitted_text evs = concat (map (\<lambda>e. case ae_Delta e of None \<Rightarrow> '''' | Some d \<Rightarrow> ad_Text d) evs)"

lemma emitted_text_simps [simp]:
  "emitted_text [] = ''''"
  "emitted_text (e # evs) = (case ae_Delta e of None \<Rightarrow> '''' | Some d \<Rightarrow> ad_Text d) @ emitted_text evs"
  "emitted_text (evs @ evs') = emitted_text evs @ emitted_text evs'"
  by (simp_all add: emitted_text_def)

text \<open>\<open>delivers s r part d\<close>: the result \<open>r\<close> of a handler emits the text \<open>d\<close>, which belongs to the
  given part, and records it.\<close>

definition delivers :: "ResponsesEventToAnthropicState \<Rightarrow> r2a \<Rightarrow> int \<times> int \<Rightarrow> string \<Rightarrow> bool" where
  "delivers s r part d \<longleftrightarrow> emitted_text (snd r) = d
     \<and> delivered_text (fst r) = (delivered_text s)(part := delivered_text s part @ d)"

lemma delivers_none: "delivers s (s, []) part ''''"
  by (simp add: delivers_def)

lemma delivers_trans:
  "delivers s (s1, e1) part d \<Longrightarrow> delivers s1 (s2, e2) part d' \<Longrightarrow> delivers s (s2, e1 @ e2) part (d @ d')"
  by (simp add: delivers_def)

lemma delivers_close: "delivers s (closeCurrentBlock s) part ''''"
  by (simp add: delivers_def closeCurrentBlock_def block_delta_def block_stop_def zero_delta_def
      zero_anthropic_event_def delivered_text_def fun_eq_iff Let_def)

lemma delivers_open_text: "delivers s (open_text_block s) part ''''"
  using delivers_close [of s part]
  by (simp add: delivers_def open_text_block_def block_start_def zero_anthropic_event_def delivered_text_def
      fun_eq_iff Let_def split_def)

lemma delivers_text_delta:
  "delivers s (resToAnthHandleTextDelta evt s) (re_OutputIndex evt, re_ContentIndex evt) (re_Delta evt)"
proof (cases "re_Delta evt = ''''")
  case True
  then show ?thesis by (simp add: resToAnthHandleTextDelta_def delivers_none)
next
  case False
  obtain s1 e1 where o: "open_text_block s = (s1, e1)" by force
  then have "delivers s (s1, e1) (re_OutputIndex evt, re_ContentIndex evt) ''''" using delivers_open_text by metis
  then show ?thesis
    using False o by (simp add: resToAnthHandleTextDelta_def delivers_def Let_def block_delta_def zero_delta_def
        zero_anthropic_event_def delivered_text_def fun_eq_iff)
qed

lemma delivers_recover:
  assumes "has_prefix (delivered_text s (re_OutputIndex evt, re_ContentIndex evt)) (re_Text evt)"
  shows "delivers s (resToAnthRecoverText evt s) (re_OutputIndex evt, re_ContentIndex evt)
    (drop (length (delivered_text s (re_OutputIndex evt, re_ContentIndex evt))) (re_Text evt))"
  using assms delivers_none [of s] delivers_text_delta [of s "evt\<lparr>re_Delta := d\<rparr>" for d]
  by (auto simp: resToAnthRecoverText_def Let_def has_prefix_iff)

lemma delivers_block_done: "delivers s (resToAnthHandleBlockDone s) part ''''"
  using delivers_close delivers_none by (simp add: resToAnthHandleBlockDone_def)

lemma text_delta_running: "ra_MessageStopSent (fst (resToAnthHandleTextDelta evt s)) = ra_MessageStopSent s"
  by (simp add: resToAnthHandleTextDelta_def open_text_block_def closeCurrentBlock_def Let_def split_def)

text \<open>The start that is put in front of the events carries no text.\<close>

lemma delivers_created: "delivers s (resToAnthHandleCreated uuid evt s) part ''''"
  by (simp add: delivers_def resToAnthHandleCreated_def zero_anthropic_event_def delivered_text_def fun_eq_iff Let_def
      split: option.splits)

lemma delivers_events:
  assumes "delivers s (convert_event js uuid evt s) part d" "\<not> ra_MessageStopSent s"
  shows "delivers s (ResponsesEventToAnthropicEvents js uuid (Some evt) s) part d"
proof -
  obtain s1 e1 where c: "convert_event js uuid evt s = (s1, e1)" by force
  obtain s2 e2 where cr: "resToAnthHandleCreated uuid evt s1 = (s2, e2)" by force
  have "delivers s1 (s2, e2) part ''''" using delivers_created [of s1] cr by metis
  then have "delivers s (s2, e2 @ e1) part d" using assms(1) c by (simp add: delivers_def)
  with assms c cr show ?thesis by (simp add: ResponsesEventToAnthropicEvents_def)
qed

text \<open>The three events that carry the whole text \<open>t\<close> of the first part of the first item.\<close>

definition whole_text :: "string \<Rightarrow> ResponsesOutput \<Rightarrow> bool" where
  "whole_text t item \<longleftrightarrow> (\<exists>part. ro_Content item = [part] \<and> cp_Type part = ''output_text'' \<and> cp_Text part = t)"

definition completes_text :: "string \<Rightarrow> ResponsesStreamEvent \<Rightarrow> bool" where
  "completes_text t evt \<longleftrightarrow>
     (re_Type evt = ''response.output_text.done'' \<and> re_Text evt = t \<and> re_OutputIndex evt = 0 \<and> re_ContentIndex evt = 0)
   \<or> (re_Type evt = ''response.output_item.done'' \<and> re_OutputIndex evt = 0
      \<and> (\<exists>item. re_Item evt = Some item \<and> ro_Type item = ''message'' \<and> ro_Status item \<noteq> ''failed'' \<and> whole_text t item))
   \<or> (re_Type evt \<in> {''response.completed'', ''response.done'', ''response.incomplete''}
      \<and> (\<exists>r item. re_Response evt = Some r \<and> rr_Status r \<noteq> ''failed'' \<and> rr_Output r = [item] \<and> whole_text t item))"

lemma recover_whole_text:
  assumes "has_prefix (delivered_text s (0, 0)) t" "whole_text t item" "\<And>p. cp_Text p = t \<Longrightarrow> cp_Type p = ''output_text'' \<Longrightarrow> sel p"
  shows "delivers s (recover_parts sel 0 0 (ro_Content item) s) (0, 0) (drop (length (delivered_text s (0, 0))) t)"
proof -
  obtain part where part: "ro_Content item = [part]" "cp_Text part = t" "sel part"
    using assms by (auto simp: whole_text_def)
  let ?e = "zero_responses_event\<lparr>re_Text := t, re_OutputIndex := 0, re_ContentIndex := 0\<rparr>"
  obtain s1 e1 where r: "resToAnthRecoverText ?e s = (s1, e1)" by force
  have "delivers s (resToAnthRecoverText ?e s) (0, 0) (drop (length (delivered_text s (0, 0))) t)"
    using delivers_recover [of s ?e] assms(1) by simp
  with part r show ?thesis by simp
qed

lemma recover_empty_text:
  assumes "whole_text '''' item" shows "recover_parts sel oi i (ro_Content item) s = (s, [])"
  using assms by (auto simp: whole_text_def resToAnthRecoverText_def Let_def)

lemma delivers_completed:
  assumes "re_Response evt = Some r" "re_Type evt \<noteq> ''response.failed''" "rr_Status r \<noteq> ''failed''" "rr_Output r = [item]"
    "whole_text t item" "has_prefix (delivered_text s (0, 0)) t" "\<not> ra_MessageStopSent s"
  shows "delivers s (resToAnthHandleCompleted evt s) (0, 0) (drop (length (delivered_text s (0, 0))) t)"
proof -
  let ?sel = "\<lambda>part. cp_Type part = ''output_text'' \<and> cp_Text part \<noteq> ''''"
  let ?d = "drop (length (delivered_text s (0, 0))) t"
  obtain s1 e1 where c1: "closeCurrentBlock s = (s1, e1)" by force
  obtain s2 e2 where r2: "recover_parts ?sel 0 0 (ro_Content item) s1 = (s2, e2)" by force
  obtain s3 e3 where c3: "closeCurrentBlock s2 = (s3, e3)" by force
  have d1: "delivers s (s1, e1) (0, 0) ''''" "delivers s2 (s3, e3) (0, 0) ''''" using delivers_close c1 c3 by metis+
  then have same: "delivered_text s1 = delivered_text s" by (simp add: delivers_def)
  have "delivers s1 (s2, e2) (0, 0) ?d"
  proof (cases "t = ''''")
    case True
    then show ?thesis using recover_empty_text [of item ?sel 0 0 s1] assms(5) r2 delivers_none by simp
  next
    case False
    then show ?thesis using recover_whole_text [of s1 t item ?sel] assms(5,6) r2 same by simp
  qed
  then have "delivers s (s3, e1 @ e2 @ e3) (0, 0) ?d"
    using delivers_trans [OF d1(1) delivers_trans [OF _ d1(2)]] by simp
  then show ?thesis
    using assms(1-4,7) c1 r2 c3
    by (simp add: resToAnthHandleCompleted_def Let_def delivers_def delivered_text_def fun_eq_iff message_end_def
        zero_anthropic_event_def zero_delta_def)
qed

lemma delivers_whole:
  assumes "completes_text t evt" "has_prefix (delivered_text s (0, 0)) t" "\<not> ra_MessageStopSent s"
  shows "delivers s (convert_event js uuid evt s) (0, 0) (drop (length (delivered_text s (0, 0))) t)"
proof -
  let ?d = "drop (length (delivered_text s (0, 0))) t"
  consider (txt_done) "re_Type evt = ''response.output_text.done''" "re_Text evt = t" "re_OutputIndex evt = 0" "re_ContentIndex evt = 0"
    | (item) item where "re_Type evt = ''response.output_item.done''" "re_OutputIndex evt = 0" "re_Item evt = Some item"
        "ro_Type item = ''message''" "ro_Status item \<noteq> ''failed''" "whole_text t item"
    | (ended) r item where "re_Type evt \<in> {''response.completed'', ''response.done'', ''response.incomplete''}"
        "re_Response evt = Some r" "rr_Status r \<noteq> ''failed''" "rr_Output r = [item]" "whole_text t item"
    using assms(1) by (auto simp: completes_text_def)
  then show ?thesis
  proof cases
    case txt_done
    obtain s1 e1 where r: "resToAnthRecoverText evt s = (s1, e1)" by force
    have "delivers s (s1, e1) (0, 0) ?d" using delivers_recover [of s evt] assms(2) txt_done r by simp
    from delivers_trans [OF this, of "fst (resToAnthHandleBlockDone s1)" "snd (resToAnthHandleBlockDone s1)" "''''"]
    show ?thesis using txt_done r delivers_block_done by (simp add: convert_event_def Let_def split_def)
  next
    case item
    obtain s1 e1 where r: "recover_parts (\<lambda>part. cp_Type part = ''output_text'') 0 0 (ro_Content item) s = (s1, e1)" by force
    have "delivers s (s1, e1) (0, 0) ?d"
      using recover_whole_text [OF assms(2) item(6), of "\<lambda>part. cp_Type part = ''output_text''"] r by simp
    from delivers_trans [OF this, of "fst (closeCurrentBlock s1)" "snd (closeCurrentBlock s1)" "''''"]
    show ?thesis using item r delivers_close
      by (simp add: convert_event_def resToAnthHandleOutputItemDone_def Let_def split_def)
  next
    case ended
    then have "convert_event js uuid evt s = resToAnthHandleCompleted evt s"
      by (auto simp: convert_event_def Let_def)
    with delivers_completed [OF ended(2) _ ended(3-5) assms(2,3)] ended(1) show ?thesis by auto
  qed
qed

lemma text_delta_event_simps [simp]:
  "re_Type (text_delta_event oi ci d) = ''response.output_text.delta''" "re_OutputIndex (text_delta_event oi ci d) = oi"
  "re_ContentIndex (text_delta_event oi ci d) = ci" "re_Delta (text_delta_event oi ci d) = d"
  "re_Response (text_delta_event oi ci d) = None"
  by (simp_all add: text_delta_event_def zero_responses_event_def)

lemma created_running: "ra_MessageStopSent (fst (resToAnthHandleCreated uuid evt s)) = ra_MessageStopSent s"
  by (simp add: resToAnthHandleCreated_def Let_def split: option.splits)

lemma run_deltas:
  assumes "\<not> ra_MessageStopSent s" "run_all (r2a_step js) (map (\<lambda>d. (u, Some (text_delta_event 0 0 d))) ds) s = (s', outs)"
  shows "delivers s (s', concat outs) (0, 0) (concat ds) \<and> \<not> ra_MessageStopSent s'"
  using assms
proof (induction ds arbitrary: s outs)
  case Nil
  then show ?case by (auto simp: delivers_none)
next
  case (Cons d ds)
  let ?e = "text_delta_event 0 0 d"
  obtain s1 o1 where step: "ResponsesEventToAnthropicEvents js u (Some ?e) s = (s1, o1)" by force
  have conv: "convert_event js u ?e s = resToAnthHandleTextDelta ?e s" by (simp add: convert_event_def)
  have "delivers s (s1, o1) (0, 0) d"
    using delivers_events [of s js u ?e] delivers_text_delta [of s ?e] Cons.prems(1) step conv by simp
  moreover have "\<not> ra_MessageStopSent s1"
    using step conv text_delta_running [of ?e s] created_running Cons.prems(1)
    by (auto simp: ResponsesEventToAnthropicEvents_def split: prod.splits if_splits)
      (metis fst_conv)+
  moreover obtain outs' where "run_all (r2a_step js) (map (\<lambda>d. (u, Some (text_delta_event 0 0 d))) ds) s1 = (s', outs')"
    "outs = o1 # outs'"
    using Cons.prems(2) step by (auto simp: r2a_step_def [of js "(u, Some ?e)"] split: prod.splits)
  ultimately show ?case using Cons.IH [of s1 outs'] delivers_trans by simp
qed

lemma run_whole:
  assumes "ra_MessageStopSent s \<longrightarrow> delivered_text s (0, 0) = t" "has_prefix (delivered_text s (0, 0)) t"
    "list_all (\<lambda>e. completes_text t (snd e)) fin" "run_all (r2a_step js) (map (apsnd Some) fin) s = (s', outs)"
  shows "delivers s (s', concat outs) (0, 0) (if fin = [] then '''' else drop (length (delivered_text s (0, 0))) t)"
  using assms
proof (induction fin arbitrary: s outs)
  case Nil
  then show ?case by (simp add: delivers_none)
next
  case (Cons e fin)
  obtain s1 o1 where step: "r2a_step js (apsnd Some e) s = (s1, o1)" by force
  have d: "delivers s (s1, o1) (0, 0) (drop (length (delivered_text s (0, 0))) t)"
  proof (cases "ra_MessageStopSent s")
    case True
    then show ?thesis
      using step Cons.prems(1) delivers_none by (simp add: r2a_step_def ResponsesEventToAnthropicEvents_def)
  next
    case False
    then show ?thesis
      using delivers_events [OF delivers_whole [of t "snd e" s js "fst e"]] Cons.prems(2,3) step
      by (simp add: r2a_step_def)
  qed
  then have whole: "delivered_text s1 (0, 0) = t"
    using Cons.prems(2) by (auto simp: delivers_def has_prefix_iff)
  obtain outs' where rest: "run_all (r2a_step js) (map (apsnd Some) fin) s1 = (s', outs')" "outs = o1 # outs'"
    using Cons.prems(4) step by (auto split: prod.splits)
  have "delivers s1 (s', concat outs') (0, 0) ''''"
    using Cons.IH [OF _ _ _ rest(1)] Cons.prems(3) whole by (simp add: has_prefix_iff split: if_splits)
  with d rest(2) show ?case using delivers_trans by fastforce
qed



section \<open>Tool calls\<close>

definition tool_added_event :: "int \<Rightarrow> ResponsesOutput \<Rightarrow> ResponsesStreamEvent" where
  "tool_added_event oi item = zero_responses_event\<lparr>re_Type := ''response.output_item.added'',
     re_OutputIndex := oi, re_Item := Some item\<rparr>"

definition args_delta_event :: "int \<Rightarrow> string \<Rightarrow> ResponsesStreamEvent" where
  "args_delta_event oi d = zero_responses_event\<lparr>re_Type := ''response.function_call_arguments.delta'',
     re_OutputIndex := oi, re_Delta := d\<rparr>"

definition args_done_event :: "int \<Rightarrow> string \<Rightarrow> ResponsesStreamEvent" where
  "args_done_event oi a = zero_responses_event\<lparr>re_Type := ''response.function_call_arguments.done'',
     re_OutputIndex := oi, re_Arguments := a\<rparr>"

lemmas tool_event_defs = tool_added_event_def args_delta_event_def args_done_event_def zero_responses_event_def

text \<open>A message that has started and not ended converts each event by its handler alone.\<close>

definition live :: "ResponsesEventToAnthropicState \<Rightarrow> bool" where
  "live s \<longleftrightarrow> ra_MessageStartSent s \<and> \<not> ra_MessageStopSent s"

lemma step_live:
  assumes "live s" "convert_event js u evt s = (s1, evs)" "ra_MessageStartSent s1"
  shows "r2a_step js (u, Some evt) s = (s1, evs)"
  using assms by (simp add: live_def r2a_step_def ResponsesEventToAnthropicEvents_def)

text \<open>\<open>tool_open s oi n\<close>: the block of the tool call \<open>n\<close> with the given output index is open.\<close>

definition tool_open :: "ResponsesEventToAnthropicState \<Rightarrow> int \<Rightarrow> string \<Rightarrow> bool" where
  "tool_open s oi n \<longleftrightarrow> live s \<and> ra_ContentBlockOpen s \<and> ra_CurrentBlockType s = ''tool_use'' \<and> ra_CurrentToolName s = n
     \<and> gm_get (ra_OutputIndexToBlockIdx s) oi = Some (ra_ContentBlockIndex s)"

lemma close_live: "live s \<Longrightarrow> live (fst (closeCurrentBlock s))"
  by (simp add: live_def closeCurrentBlock_def Let_def)

lemma close_tool:
  "tool_open s oi n \<Longrightarrow> snd (closeCurrentBlock s) = [block_stop (ra_ContentBlockIndex s)]"
  by (simp add: tool_open_def closeCurrentBlock_def Let_def)

lemma tool_added:
  assumes "live s" "ro_Type item = ''function_call''" "closeCurrentBlock s = (s0, e0)"
  obtains s1 where "r2a_step js (u, Some (tool_added_event oi item)) s = (s1, e0 @ [block_start (ra_ContentBlockIndex s0)
      (zero_block\<lparr>cb_Type := ''tool_use'', cb_ID := fromResponsesCallID (ro_CallID item), cb_Name := ro_Name item,
         cb_Input := ''{}''\<rparr>)])"
    "tool_open s1 oi (ro_Name item)" "ra_ContentBlockIndex s1 = ra_ContentBlockIndex s0" "ra_CurrentToolArgs s1 = ''''"
    "\<not> ra_CurrentToolHadDelta s1"
proof -
  let ?idx = "ra_ContentBlockIndex s0"
  let ?s1 = "s0\<lparr>ra_OutputIndexToBlockIdx := gm_put oi ?idx (ra_OutputIndexToBlockIdx s0), ra_ContentBlockOpen := True,
    ra_CurrentBlockType := ''tool_use'', ra_CurrentToolName := ro_Name item, ra_CurrentToolArgs := '''',
    ra_CurrentToolHadDelta := False, ra_HasToolCall := True\<rparr>"
  have live0: "live s0" using close_live [OF assms(1)] assms(3) by simp
  have "convert_event js u (tool_added_event oi item) s = (?s1, e0 @ [block_start ?idx
      (zero_block\<lparr>cb_Type := ''tool_use'', cb_ID := fromResponsesCallID (ro_CallID item), cb_Name := ro_Name item,
         cb_Input := ''{}''\<rparr>)])"
    using assms(2,3) by (simp add: convert_event_def tool_event_defs resToAnthHandleOutputItemAdded_def Let_def)
  from step_live [OF assms(1) this] live0 show thesis
    by (intro that [of ?s1]) (simp_all add: tool_open_def live_def)
qed

lemma args_done:
  assumes "tool_open s oi n" "closeCurrentBlock s = (s0, e0)"
  shows "r2a_step js (u, Some (args_done_event oi a)) s = (s0,
    (let raw = (if a = '''' then ra_CurrentToolArgs s else a);
         raw = (if n = ''Read'' then sanitizeAnthropicToolUseInput js n raw else raw)
     in (if (a = '''' \<and> ra_CurrentToolArgs s = '''') \<or> ra_CurrentToolHadDelta s \<or> raw = '''' then []
         else [input_json_delta (ra_ContentBlockIndex s) raw])) @ [block_stop (ra_ContentBlockIndex s)])"
proof -
  have "e0 = [block_stop (ra_ContentBlockIndex s)]" using close_tool [OF assms(1)] assms(2) by simp
  moreover have "live s0" using close_live [of s] assms by (simp add: tool_open_def)
  ultimately show ?thesis
    using assms by (intro step_live)
      (auto simp: tool_open_def live_def convert_event_def tool_event_defs resToAnthHandleFuncArgsDone_def Let_def)
qed

lemma args_deltas:
  assumes "tool_open s oi n" "n \<noteq> ''Read''" "ra_CurrentToolArgs s = ''''"
  shows "\<exists>s'. run_all (r2a_step js) (map (\<lambda>d. (u, Some (args_delta_event oi d))) ds) s =
      (s', map (\<lambda>d. if d = '''' then [] else [input_json_delta (ra_ContentBlockIndex s) d]) ds)
    \<and> tool_open s' oi n \<and> ra_ContentBlockIndex s' = ra_ContentBlockIndex s \<and> ra_CurrentToolArgs s' = ''''
    \<and> (ra_CurrentToolHadDelta s' \<longleftrightarrow> ra_CurrentToolHadDelta s \<or> concat ds \<noteq> '''')"
  using assms
proof (induction ds arbitrary: s)
  case Nil
  then show ?case by simp
next
  case (Cons d ds)
  let ?s1 = "if d = '''' then s else s\<lparr>ra_CurrentToolHadDelta := True\<rparr>"
  have "convert_event js u (args_delta_event oi d) s =
      (?s1, if d = '''' then [] else [input_json_delta (ra_ContentBlockIndex s) d])"
    using Cons.prems by (simp add: convert_event_def tool_event_defs resToAnthHandleFuncArgsDelta_def tool_open_def)
  then have "r2a_step js (u, Some (args_delta_event oi d)) s =
      (?s1, if d = '''' then [] else [input_json_delta (ra_ContentBlockIndex s) d])"
    using Cons.prems(1) by (intro step_live) (auto simp: tool_open_def live_def)
  moreover have "tool_open ?s1 oi n" "ra_CurrentToolArgs ?s1 = ''''" using Cons.prems by (auto simp: tool_open_def live_def)
  ultimately show ?case using Cons.IH [of ?s1] Cons.prems(2) by (cases "d = ''''") auto
qed

text \<open>The deltas of a \<open>Read\<close> call are held back until the arguments are a JSON value.\<close>

lemma read_deltas_invalid:
  assumes "tool_open s oi ''Read''" "\<not> ra_CurrentToolHadDelta s" "list_all (\<lambda>d. d \<noteq> '''') ds"
    and "\<And>i. i \<le> length ds \<Longrightarrow> \<not> js_valid js (ra_CurrentToolArgs s @ concat (take i ds))"
  shows "\<exists>s'. run_all (r2a_step js) (map (\<lambda>d. (u, Some (args_delta_event oi d))) ds) s = (s', map (\<lambda>d. []) ds)
    \<and> tool_open s' oi ''Read'' \<and> ra_ContentBlockIndex s' = ra_ContentBlockIndex s
    \<and> ra_CurrentToolArgs s' = ra_CurrentToolArgs s @ concat ds \<and> \<not> ra_CurrentToolHadDelta s'"
  using assms
proof (induction ds arbitrary: s)
  case Nil
  then show ?case by simp
next
  case (Cons d ds)
  let ?s1 = "s\<lparr>ra_CurrentToolArgs := ra_CurrentToolArgs s @ d\<rparr>"
  have "\<not> js_valid js (ra_CurrentToolArgs ?s1)" using Cons.prems(4) [of 1] by simp
  then have "convert_event js u (args_delta_event oi d) s = (?s1, [])"
    using Cons.prems by (simp add: convert_event_def tool_event_defs resToAnthHandleFuncArgsDelta_def tool_open_def Let_def)
  then have "r2a_step js (u, Some (args_delta_event oi d)) s = (?s1, [])"
    using Cons.prems(1) by (intro step_live) (auto simp: tool_open_def live_def)
  moreover have "\<not> js_valid js (ra_CurrentToolArgs ?s1 @ concat (take i ds))" if "i \<le> length ds" for i
    using Cons.prems(4) [of "Suc i"] that by simp
  ultimately show ?case
    using Cons.IH [of ?s1] Cons.prems(1-3) by (auto simp: tool_open_def live_def)
qed

lemma read_delta_valid:
  assumes "tool_open s oi ''Read''" "\<not> ra_CurrentToolHadDelta s" "d \<noteq> ''''" "js_valid js (ra_CurrentToolArgs s @ d)"
  shows "r2a_step js (u, Some (args_delta_event oi d)) s =
    (s\<lparr>ra_CurrentToolArgs := ra_CurrentToolArgs s @ d, ra_CurrentToolHadDelta := True\<rparr>,
     [input_json_delta (ra_ContentBlockIndex s) (sanitizeAnthropicToolUseInput js ''Read'' (ra_CurrentToolArgs s @ d))])"
  using assms by (intro step_live)
    (simp_all add: convert_event_def tool_event_defs resToAnthHandleFuncArgsDelta_def tool_open_def live_def Let_def)

text \<open>The events of one tool call, on the block that the call opens.\<close>

definition tool_call_events :: "string \<Rightarrow> int \<Rightarrow> ResponsesOutput \<Rightarrow> string list \<Rightarrow> string \<Rightarrow>
    (string \<times> ResponsesStreamEvent option) list" where
  "tool_call_events u oi item ds a = (u, Some (tool_added_event oi item))
     # map (\<lambda>d. (u, Some (args_delta_event oi d))) ds @ [(u, Some (args_done_event oi a))]"

definition tool_block :: "int \<Rightarrow> ResponsesOutput \<Rightarrow> string list \<Rightarrow> AnthropicStreamEvent list" where
  "tool_block idx item js = block_start idx (zero_block\<lparr>cb_Type := ''tool_use'',
       cb_ID := fromResponsesCallID (ro_CallID item), cb_Name := ro_Name item, cb_Input := ''{}''\<rparr>)
     # map (input_json_delta idx) js @ [block_stop idx]"

lemma concat_nonempty: "concat (map (\<lambda>d. if d = '''' then [] else [f d]) ds) = map f (filter (\<lambda>d. d \<noteq> '''') ds)"
  by (induction ds) auto

lemma concat_filter_nonempty: "concat (filter (\<lambda>d. d \<noteq> '''') ds) = concat ds"
  by (induction ds) auto

text \<open>A tool call becomes one block of its own, on the next free index, that starts with the
  identifier and the name of the call and carries the arguments once: the deltas as they came, or,
  when none came, the arguments of the final event; the block that was open before is closed first.\<close>

theorem tool_call_streamed:
  assumes "live s" "ro_Type item = ''function_call''" "ro_Name item \<noteq> ''Read''" "closeCurrentBlock s = (s0, e0)"
  shows "concat (snd (run_all (r2a_step js) (tool_call_events u oi item ds a) s)) =
    e0 @ tool_block (ra_ContentBlockIndex s0) item
      (if concat ds \<noteq> '''' then filter (\<lambda>d. d \<noteq> '''') ds else if a = '''' then [] else [a])"
proof -
  obtain s1 where s1: "r2a_step js (u, Some (tool_added_event oi item)) s = (s1, e0 @ [block_start (ra_ContentBlockIndex s0)
      (zero_block\<lparr>cb_Type := ''tool_use'', cb_ID := fromResponsesCallID (ro_CallID item), cb_Name := ro_Name item,
         cb_Input := ''{}''\<rparr>)])"
    "tool_open s1 oi (ro_Name item)" "ra_ContentBlockIndex s1 = ra_ContentBlockIndex s0" "ra_CurrentToolArgs s1 = ''''"
    "\<not> ra_CurrentToolHadDelta s1" using tool_added [OF assms(1,2,4)] by metis
  obtain s2 where s2: "run_all (r2a_step js) (map (\<lambda>d. (u, Some (args_delta_event oi d))) ds) s1 =
      (s2, map (\<lambda>d. if d = '''' then [] else [input_json_delta (ra_ContentBlockIndex s0) d]) ds)"
    "tool_open s2 oi (ro_Name item)" "ra_ContentBlockIndex s2 = ra_ContentBlockIndex s0" "ra_CurrentToolArgs s2 = ''''"
    "ra_CurrentToolHadDelta s2 \<longleftrightarrow> concat ds \<noteq> ''''"
    using args_deltas [OF s1(2) assms(3) s1(4), of js u ds] s1(5) unfolding s1(3) by blast
  obtain s3 e3 where "closeCurrentBlock s2 = (s3, e3)" by force
  from args_done [OF s2(2) this, of js u a] s1(1) s2 assms(3) show ?thesis
    by (simp add: tool_call_events_def tool_block_def run_all_append concat_nonempty Let_def
        filter_empty_conv [THEN iffD2])
qed

text \<open>The arguments of a \<open>Read\<close> call reach the client in one piece and sanitised: while what has
  arrived is not yet a JSON value nothing is emitted, when it is, its sanitised form is emitted once,
  and the final event adds nothing.\<close>

theorem read_call_streamed:
  assumes "live s" "ro_Type item = ''function_call''" "ro_Name item = ''Read''" "closeCurrentBlock s = (s0, e0)"
    and "list_all (\<lambda>d. d \<noteq> '''') ds" "d \<noteq> ''''" "js_valid js (concat ds @ d)"
    and "\<forall>i \<in> {..length ds}. \<not> js_valid js (concat (take i ds))"
  shows "concat (snd (run_all (r2a_step js) (tool_call_events u oi item (ds @ [d]) a) s)) =
    e0 @ tool_block (ra_ContentBlockIndex s0) item [sanitizeAnthropicToolUseInput js ''Read'' (concat ds @ d)]"
proof -
  obtain s1 where s1: "r2a_step js (u, Some (tool_added_event oi item)) s = (s1, e0 @ [block_start (ra_ContentBlockIndex s0)
      (zero_block\<lparr>cb_Type := ''tool_use'', cb_ID := fromResponsesCallID (ro_CallID item), cb_Name := ro_Name item,
         cb_Input := ''{}''\<rparr>)])"
    "tool_open s1 oi ''Read''" "ra_ContentBlockIndex s1 = ra_ContentBlockIndex s0" "ra_CurrentToolArgs s1 = ''''"
    "\<not> ra_CurrentToolHadDelta s1" using tool_added [OF assms(1,2,4)] assms(3) by metis
  obtain s2 where s2: "run_all (r2a_step js) (map (\<lambda>d. (u, Some (args_delta_event oi d))) ds) s1 = (s2, map (\<lambda>d. []) ds)"
    "tool_open s2 oi ''Read''" "ra_ContentBlockIndex s2 = ra_ContentBlockIndex s0" "ra_CurrentToolArgs s2 = concat ds"
    "\<not> ra_CurrentToolHadDelta s2"
    using read_deltas_invalid [OF s1(2,5) assms(5), of js u] assms(8) s1(3,4) by auto
  let ?s3 = "s2\<lparr>ra_CurrentToolArgs := concat ds @ d, ra_CurrentToolHadDelta := True\<rparr>"
  have s3: "r2a_step js (u, Some (args_delta_event oi d)) s2 =
      (?s3, [input_json_delta (ra_ContentBlockIndex s0) (sanitizeAnthropicToolUseInput js ''Read'' (concat ds @ d))])"
    using read_delta_valid [OF s2(2,5) assms(6)] assms(7) s2(3,4) by simp
  have "tool_open ?s3 oi ''Read''" using s2(2) by (simp add: tool_open_def live_def)
  moreover obtain s4 e4 where "closeCurrentBlock ?s3 = (s4, e4)" by force
  ultimately have "r2a_step js (u, Some (args_done_event oi a)) ?s3 = (s4, [block_stop (ra_ContentBlockIndex s0)])"
    using args_done [of ?s3 oi "''Read''" s4 e4 js u a] s2(3) by (simp add: Let_def)
  with s1(1) s2(1) s3 show ?thesis
    by (simp add: tool_call_events_def tool_block_def run_all_append)
qed

definition demo_live :: ResponsesEventToAnthropicState where
  "demo_live = (NewResponsesEventToAnthropicState 0)\<lparr>ra_MessageStartSent := True\<rparr>"

theorem tool_call_streamed_witness:
  "concat (snd (run_all (r2a_step demo_json) (tool_call_events ''u'' 2
      (zero_output\<lparr>ro_Type := ''function_call'', ro_CallID := ''fc_call_1'', ro_Name := ''Bash''\<rparr>) [''{'', '''', ''}''] ''{}'')
      demo_live)) =
   tool_block 0 (zero_output\<lparr>ro_Type := ''function_call'', ro_CallID := ''fc_call_1'', ro_Name := ''Bash''\<rparr>) [''{'', ''}'']"
  using tool_call_streamed [of demo_live
      "zero_output\<lparr>ro_Type := ''function_call'', ro_CallID := ''fc_call_1'', ro_Name := ''Bash''\<rparr>" demo_live "[]"
      demo_json "''u''" 2 "[''{'', '''', ''}'']" "''{}''"]
  by (simp add: live_def demo_live_def NewResponsesEventToAnthropicState_def zero_output_def closeCurrentBlock_def)

theorem read_call_streamed_witness:
  "concat (snd (run_all (r2a_step demo_json) (tool_call_events ''u'' 2
      (zero_output\<lparr>ro_Type := ''function_call'', ro_Name := ''Read''\<rparr>) ([''{''] @ [''}'']) ''{}'') demo_live)) =
   tool_block 0 (zero_output\<lparr>ro_Type := ''function_call'', ro_Name := ''Read''\<rparr>)
     [sanitizeAnthropicToolUseInput demo_json ''Read'' ''{}'']"
proof -
  have "\<forall>i \<in> {..length [''{'']}. \<not> js_valid demo_json (concat (take i [''{'']))"
    by (auto simp: demo_json_def atMost_Suc)
  then show ?thesis
    using read_call_streamed [of demo_live "zero_output\<lparr>ro_Type := ''function_call'', ro_Name := ''Read''\<rparr>"
        demo_live "[]" "[''{'']" "''}''" demo_json "''u''" 2 "''{}''"]
    by (simp add: live_def demo_live_def NewResponsesEventToAnthropicState_def zero_output_def closeCurrentBlock_def)
      (simp add: demo_json_def)
qed

section \<open>A whole response and its usage\<close>

definition tool_calls :: "AnthropicContentBlock list \<Rightarrow> (string \<times> string) list" where
  "tool_calls bs = map (\<lambda>b. (cb_ID b, cb_Name b)) (filter (\<lambda>b. cb_Type b = ''tool_use'') bs)"

definition block_text :: "AnthropicContentBlock list \<Rightarrow> string" where
  "block_text bs = concat (map cb_Text (filter (\<lambda>b. cb_Type b = ''text'') bs))"

definition item_text :: "ResponsesOutput \<Rightarrow> string" where
  "item_text item = concat (map cp_Text (filter (\<lambda>p. cp_Type p = ''output_text'') (ro_Content item)))"

lemma item_blocks_tools:
  "tool_calls (item_blocks js item) =
     (if ro_Type item = ''function_call'' then [(fromResponsesCallID (ro_CallID item), ro_Name item)] else [])"
  by (auto simp: tool_calls_def item_blocks_def zero_block_def Let_def filter_empty_conv)

lemma text_parts: "concat (map cp_Text (filter (\<lambda>p. cp_Type p = t \<and> cp_Text p \<noteq> '''') ps)) =
    concat (map cp_Text (filter (\<lambda>p. cp_Type p = t) ps))"
  by (induction ps) auto

lemma item_blocks_text: "block_text (item_blocks js item) = (if ro_Type item = ''message'' then item_text item else '''')"
  by (simp add: block_text_def item_blocks_def item_text_def zero_block_def Let_def filter_map comp_def)
    (auto simp: text_parts)

lemma tool_calls_concat: "tool_calls (concat bss) = concat (map tool_calls bss)"
  by (induction bss) (simp_all add: tool_calls_def)

lemma block_text_concat: "block_text (concat bss) = concat (map block_text bss)"
  by (induction bss) (simp_all add: block_text_def)

lemma contains_tool_use: "containsAnthropicToolUseBlock bs \<longleftrightarrow> tool_calls bs \<noteq> []"
  by (auto simp: containsAnthropicToolUseBlock_def tool_calls_def list_ex_iff filter_empty_conv)

lemma concat_map_if: "concat (map (\<lambda>x. if P x then [f x] else []) xs) = map f (filter P xs)"
  by (induction xs) auto

lemma concat_map_filter: "concat (map (\<lambda>x. if P x then f x else []) xs) = concat (map f (filter P xs))"
  by (induction xs) auto

lemma fallback_block: "g [d] = g [] \<Longrightarrow> g (if bs = [] then [d] else bs) = g bs"
  by simp

lemma ResponsesToAnthropic_blocks:
  "ar_Content (ResponsesToAnthropic js resp model) =
     (if concat (map (item_blocks js) (rr_Output resp)) = [] then [zero_block\<lparr>cb_Type := ''text'', cb_Text := ''''\<rparr>]
      else concat (map (item_blocks js) (rr_Output resp)))"
  by (simp add: ResponsesToAnthropic_def Let_def)

lemma ResponsesToAnthropic_tools:
  "tool_calls (ar_Content (ResponsesToAnthropic js resp model)) =
     map (\<lambda>i. (fromResponsesCallID (ro_CallID i), ro_Name i)) (filter (\<lambda>i. ro_Type i = ''function_call'') (rr_Output resp))"
proof -
  let ?raw = "concat (map (item_blocks js) (rr_Output resp))"
  have "tool_calls (ar_Content (ResponsesToAnthropic js resp model)) = tool_calls ?raw"
    unfolding ResponsesToAnthropic_blocks by (rule fallback_block) (simp add: tool_calls_def)
  then show ?thesis by (simp add: tool_calls_concat comp_def item_blocks_tools concat_map_if)
qed

lemma ResponsesToAnthropic_text:
  "block_text (ar_Content (ResponsesToAnthropic js resp model)) =
     concat (map item_text (filter (\<lambda>i. ro_Type i = ''message'') (rr_Output resp)))"
proof -
  let ?raw = "concat (map (item_blocks js) (rr_Output resp))"
  have "block_text (ar_Content (ResponsesToAnthropic js resp model)) = block_text ?raw"
    unfolding ResponsesToAnthropic_blocks by (rule fallback_block) (simp add: block_text_def)
  then show ?thesis by (simp add: block_text_concat comp_def item_blocks_text concat_map_filter)
qed

lemma ResponsesToAnthropic_stop:
  "ar_StopReason (ResponsesToAnthropic js resp model) =
     Some (if rr_Status resp = ''incomplete'' then
             (if \<exists>d. rr_IncompleteDetails resp = Some d \<and> id_Reason d = ''max_output_tokens'' then ''max_tokens'' else ''end_turn'')
           else if rr_Status resp = ''completed'' \<and> (\<exists>i. i \<in> set (rr_Output resp) \<and> ro_Type i = ''function_call'')
             then ''tool_use'' else ''end_turn'')"
proof -
  have "containsAnthropicToolUseBlock (ar_Content (ResponsesToAnthropic js resp model)) \<longleftrightarrow>
      (\<exists>i. i \<in> set (rr_Output resp) \<and> ro_Type i = ''function_call'')"
    by (auto simp: contains_tool_use ResponsesToAnthropic_tools filter_empty_conv)
  then show ?thesis
    by (auto simp: ResponsesToAnthropic_def AnthropicStopReasonPtr_def responsesStatusToAnthropicStopReason_def Let_def
        split: option.splits)
qed

text \<open>The message for a whole response has content, keeps every function call with its identifier
  and name, and all text, in order, and tells the client to run tools exactly when the completed
  response contains a call; a cut-off response is reported as \<open>max_tokens\<close>.\<close>

theorem ResponsesToAnthropic_spec:
  "ar_Content (ResponsesToAnthropic js resp model) \<noteq> []
   \<and> tool_calls (ar_Content (ResponsesToAnthropic js resp model)) =
       map (\<lambda>i. (fromResponsesCallID (ro_CallID i), ro_Name i))
         (filter (\<lambda>i. ro_Type i = ''function_call'') (rr_Output resp))
   \<and> block_text (ar_Content (ResponsesToAnthropic js resp model)) =
       concat (map item_text (filter (\<lambda>i. ro_Type i = ''message'') (rr_Output resp)))
   \<and> (ar_StopReason (ResponsesToAnthropic js resp model) = Some ''tool_use'') =
       (rr_Status resp = ''completed'' \<and> (\<exists>i. i \<in> set (rr_Output resp) \<and> ro_Type i = ''function_call''))
   \<and> (ar_StopReason (ResponsesToAnthropic js resp model) = Some ''max_tokens'') =
       (rr_Status resp = ''incomplete'' \<and> (\<exists>d. rr_IncompleteDetails resp = Some d \<and> id_Reason d = ''max_output_tokens''))"
  using ResponsesToAnthropic_tools [of js resp model] ResponsesToAnthropic_text [of js resp model]
    ResponsesToAnthropic_stop [of js resp model] ResponsesToAnthropic_blocks [of js resp model]
  by (intro conjI) (auto split: if_splits)

text \<open>The usage that the client sees never has negative input; when the counts fit, the uncached
  input, the cache reads and the cache writes add up to the input that the upstream reports, and when
  the upstream counts more cache tokens than input, the input is zero.\<close>

theorem usage_conserved:
  assumes "0 \<le> ru_InputTokens u" "ru_InputTokens u < 2 ^ 62"
    "0 \<le> responsesUsageCachedTokens (ru_InputTokensDetails u)" "responsesUsageCachedTokens (ru_InputTokensDetails u) < 2 ^ 62"
    "0 \<le> ru_CacheCreationInputTokens u" "ru_CacheCreationInputTokens u < 2 ^ 62"
    and a: "a = anthropicUsageFromResponsesUsage (Some u)"
  shows "0 \<le> au_InputTokens a
    \<and> au_InputTokens a + au_CacheReadInputTokens a + au_CacheCreationInputTokens a =
        max (ru_InputTokens u) (au_CacheReadInputTokens a + au_CacheCreationInputTokens a)
    \<and> au_OutputTokens a = ru_OutputTokens u"
proof -
  let ?c = "responsesUsageCachedTokens (ru_InputTokensDetails u)"
  have "i64 (ru_InputTokens u - ?c) = ru_InputTokens u - ?c"
    "i64 (ru_InputTokens u - ?c - ru_CacheCreationInputTokens u) = ru_InputTokens u - ?c - ru_CacheCreationInputTokens u"
    using assms by (auto intro!: i64_id simp: in_i64_def)
  then show ?thesis
    using a by (auto simp: anthropicUsageFromResponsesUsage_def responsesUsageCachedTokens_def Let_def)
qed

theorem usage_conserved_witness:
  "au_InputTokens (anthropicUsageFromResponsesUsage (Some \<lparr>ru_InputTokens = 100, ru_OutputTokens = 7, ru_TotalTokens = 107,
      ru_CacheCreationInputTokens = 10, ru_InputTokensDetails = Some (zero_input_details\<lparr>it_CachedTokens := 30\<rparr>),
      ru_OutputTokensDetails = None\<rparr>)) + 30 + 10 = 100"
  using usage_conserved [OF _ _ _ _ _ _ refl, of "\<lparr>ru_InputTokens = 100, ru_OutputTokens = 7, ru_TotalTokens = 107,
      ru_CacheCreationInputTokens = 10, ru_InputTokensDetails = Some (zero_input_details\<lparr>it_CachedTokens := 30\<rparr>),
      ru_OutputTokensDetails = None\<rparr>"]
  by (simp add: responsesUsageCachedTokens_def anthropicUsageFromResponsesUsage_def zero_input_details_def Let_def)

end
