(* ===== verification/Thinking_Envelope.thy ===== *)
theory Thinking_Envelope
  imports Api_Types
begin

text \<open>
  The envelope in which a signed thinking block travels through the Responses API
  (\<open>internal/pkg/apicompat/anthropic_thinking_envelope.go\<close>), with the raw standard Base64 that it
  uses, and the recognition of the models it applies to
  (\<open>internal/pkg/claude/model_capabilities_v028.go\<close>).

  What \<open>encoding/json\<close> and \<open>crypto/hmac\<close> do for it is the record \<open>thinking_lib\<close>: encoding an
  envelope, decoding exactly one envelope without unknown fields, and the hexadecimal HMAC-SHA256 of a
  text under a key. Base64 is modelled as the standard library has it: the strict decoder rejects
  non-zero trailing bits, and ignores line breaks.
\<close>

section \<open>Base64\<close>

definition b64_alphabet :: string where
  "b64_alphabet = ''ABCDEFGHIJKLMNOPQRSTUVWXYZabcdefghijklmnopqrstuvwxyz0123456789+/''"

definition b64_char :: "nat \<Rightarrow> char" where
  "b64_char n = b64_alphabet ! n"

definition b64_val :: "char \<Rightarrow> nat option" where
  "b64_val c = find (\<lambda>n. b64_char n = c) [0..<64]"

fun b64_groups :: "nat list \<Rightarrow> nat list" where
  "b64_groups [] = []"
| "b64_groups [a] = [a div 4, (a mod 4) * 16]"
| "b64_groups [a, b] = [a div 4, (a mod 4) * 16 + b div 16, (b mod 16) * 4]"
| "b64_groups (a # b # c # r) =
     [a div 4, (a mod 4) * 16 + b div 16, (b mod 16) * 4 + c div 64, c mod 64] @ b64_groups r"

text \<open>The strict decoder, on six-bit values.\<close>

fun b64_bytes :: "nat list \<Rightarrow> nat list option" where
  "b64_bytes [] = Some []"
| "b64_bytes [w] = None"
| "b64_bytes [w, x] = (if x mod 16 = 0 then Some [w * 4 + x div 16] else None)"
| "b64_bytes [w, x, y] =
     (if y mod 4 = 0 then Some [w * 4 + x div 16, (x mod 16) * 16 + y div 4] else None)"
| "b64_bytes (w # x # y # z # r) =
     map_option (\<lambda>bs. [w * 4 + x div 16, (x mod 16) * 16 + y div 4, (y mod 4) * 64 + z] @ bs) (b64_bytes r)"

fun all_some :: "'a option list \<Rightarrow> 'a list option" where
  "all_some [] = Some []"
| "all_some (None # xs) = None"
| "all_some (Some x # xs) = map_option ((#) x) (all_some xs)"

definition b64_encode :: "string \<Rightarrow> string" where
  "b64_encode s = map b64_char (b64_groups (map of_char s))"

definition line_break :: "char \<Rightarrow> bool" where
  "line_break c \<longleftrightarrow> c = CHR 0x0A \<or> c = CHR 0x0D"

definition b64_decode :: "string \<Rightarrow> string option" where
  "b64_decode s =
     (case all_some (map b64_val (filter (\<lambda>c. \<not> line_break c) s)) of
        None \<Rightarrow> None
      | Some vs \<Rightarrow> map_option (map char_of) (b64_bytes vs))"

definition b64_encoded_len :: "nat \<Rightarrow> nat" where
  "b64_encoded_len n = n div 3 * 4 + (n mod 3 * 8 + 5) div 6"

section \<open>The envelope\<close>

definition anthropicThinkingEnvelopePrefix :: string where
  "anthropicThinkingEnvelopePrefix = ''anthropic-thinking-v1:''"

definition maxAnthropicThinkingEnvelope :: nat where
  "maxAnthropicThinkingEnvelope = 2097152"

record anthropicThinkingEnvelope =
  te_Scope :: string
  te_ItemID :: string
  te_Type :: string
  te_Thinking :: string
  te_Signature :: string
  te_Data :: string

record thinking_lib =
  tl_marshal :: "anthropicThinkingEnvelope \<Rightarrow> string option"
  tl_unmarshal :: "string \<Rightarrow> anthropicThinkingEnvelope option"
  tl_hmac_hex :: "string \<Rightarrow> string \<Rightarrow> string"

text \<open>The text that \<open>json.Marshal\<close> returns when its error is ignored.\<close>

definition marshal_text :: "thinking_lib \<Rightarrow> anthropicThinkingEnvelope \<Rightarrow> string" where
  "marshal_text lib e = (case tl_marshal lib e of None \<Rightarrow> '''' | Some raw \<Rightarrow> raw)"

definition thinkingEnvelopeMAC :: "thinking_lib \<Rightarrow> anthropicThinkingEnvelope \<Rightarrow> string \<Rightarrow> string" where
  "thinkingEnvelopeMAC lib envelope scope = tl_hmac_hex lib scope (marshal_text lib (envelope\<lparr>te_Scope := ''''\<rparr>))"

definition encodeAnthropicThinking :: "thinking_lib \<Rightarrow> AnthropicContentBlock \<Rightarrow> string \<Rightarrow> string \<Rightarrow> string" where
  "encodeAnthropicThinking lib block scope i =
     (if scope = '''' then ''''
      else
        (let envelope = \<lparr>te_Scope = '''', te_ItemID = i, te_Type = cb_Type block, te_Thinking = cb_Thinking block,
               te_Signature = cb_Signature block, te_Data = cb_Data block\<rparr>;
             envelope = envelope\<lparr>te_Scope := thinkingEnvelopeMAC lib envelope scope\<rparr>
         in case tl_marshal lib envelope of
              None \<Rightarrow> ''''
            | Some raw \<Rightarrow>
                (if maxAnthropicThinkingEnvelope < length raw then ''''
                 else anthropicThinkingEnvelopePrefix @ b64_encode raw)))"

definition envelope_type_ok :: "anthropicThinkingEnvelope \<Rightarrow> bool" where
  "envelope_type_ok e \<longleftrightarrow>
     (if te_Type e = ''thinking'' then te_Signature e \<noteq> '''' \<and> te_Data e = ''''
      else if te_Type e = ''redacted_thinking'' then te_Data e \<noteq> '''' \<and> te_Signature e = '''' \<and> te_Thinking e = ''''
      else False)"

text \<open>Every failure of the decoder is the same error, here \<open>None\<close>.\<close>

definition decodeAnthropicThinking ::
  "thinking_lib \<Rightarrow> string \<Rightarrow> string \<Rightarrow> string \<Rightarrow> AnthropicContentBlock option" where
  "decodeAnthropicThinking lib val scope i =
     (if scope = '''' then None
      else case cut_prefix anthropicThinkingEnvelopePrefix val of
        None \<Rightarrow> None
      | Some encoded \<Rightarrow>
          (if b64_encoded_len maxAnthropicThinkingEnvelope < length encoded then None
           else case b64_decode encoded of
             None \<Rightarrow> None
           | Some raw \<Rightarrow>
               (case tl_unmarshal lib raw of
                  None \<Rightarrow> None
                | Some envelope \<Rightarrow>
                    (if te_ItemID envelope \<noteq> i then None
                     else
                       (let mac = te_Scope envelope;
                            expectedMAC = thinkingEnvelopeMAC lib (envelope\<lparr>te_Scope := ''''\<rparr>) scope
                        in if mac \<noteq> expectedMAC then None
                           else if marshal_text lib envelope \<noteq> raw then None
                           else if \<not> envelope_type_ok envelope then None
                           else Some (zero_block\<lparr>cb_Type := te_Type envelope, cb_Thinking := te_Thinking envelope,
                                  cb_Signature := te_Signature envelope, cb_Data := te_Data envelope\<rparr>))))))"

section \<open>Models with adaptive thinking\<close>

definition date_suffix :: "string \<Rightarrow> bool" where
  "date_suffix s \<longleftrightarrow> (case s of [] \<Rightarrow> False | c # r \<Rightarrow> c = CHR ''-'' \<and> list_all (\<lambda>d. digit_value d \<noteq> None) r)"

definition normalize55Model :: "string \<Rightarrow> string" where
  "normalize55Model model =
     (let i = to_lower_ascii (trim_space model);
          i = trim_prefix ''models/'' i;
          i = trim_prefix ''anthropic/'' i;
          i = foldl (\<lambda>i p. trim_prefix p i) i [''us.'', ''eu.'', ''apac.'', ''global.''];
          i = trim_prefix ''anthropic.'' i;
          i = trim_suffix ''-v1:0'' i;
          i = map (\<lambda>c. if c = CHR ''@'' then CHR ''-'' else c) i;
          i = trim_suffix ''-thinking'' i
      in if 9 \<le> length i \<and> date_suffix (drop (length i - 9) i) then take (length i - 9) i else i)"

definition IsOpus55 :: "string \<Rightarrow> bool" where
  "IsOpus55 model \<longleftrightarrow> normalize55Model model = ''claude-opus-5-5''"

definition IsSonnet55 :: "string \<Rightarrow> bool" where
  "IsSonnet55 model \<longleftrightarrow> normalize55Model model = ''claude-sonnet-5-5''"

definition IsHaiku55 :: "string \<Rightarrow> bool" where
  "IsHaiku55 model \<longleftrightarrow> normalize55Model model = ''claude-haiku-5-5''"

definition IsAdaptiveThinkingModel :: "string \<Rightarrow> bool" where
  "IsAdaptiveThinkingModel model \<longleftrightarrow> IsOpus55 model \<or> IsSonnet55 model \<or> IsHaiku55 model"

section \<open>Base64 round trips\<close>

lemma b64_alphabet_length: "length b64_alphabet = 64"
  by (simp add: b64_alphabet_def)

lemma b64_alphabet_distinct: "distinct b64_alphabet"
  by (simp add: b64_alphabet_def)

lemma b64_val_char: "n < 64 \<Longrightarrow> b64_val (b64_char n) = Some n"
  unfolding b64_val_def find_Some_iff
  using b64_alphabet_distinct
  by (auto simp: b64_char_def b64_alphabet_length nth_eq_iff_index_eq intro!: exI [of _ n])

lemma b64_val_Some: "b64_val c = Some n \<Longrightarrow> n < 64 \<and> b64_char n = c"
  by (auto simp: b64_val_def find_Some_iff)

lemma all_some_map: "list_all (\<lambda>x. f (g x) = Some x) xs \<Longrightarrow> all_some (map f (map g xs)) = Some xs"
  by (induction xs) auto

lemma all_some_Some: "all_some xs = Some ys \<Longrightarrow> xs = map Some ys"
  by (induction xs arbitrary: ys rule: all_some.induct) auto

lemma b64_groups_small: "list_all (\<lambda>a. a < 256) as \<Longrightarrow> list_all (\<lambda>v. v < 64) (b64_groups as)"
proof (induction as rule: b64_groups.induct)
  case (4 a b c r)
  then show ?case by (auto simp: less_mult_imp_div_less)
qed (auto simp: less_mult_imp_div_less)

lemma b64_bytes_groups: "list_all (\<lambda>a. a < 256) as \<Longrightarrow> b64_bytes (b64_groups as) = Some as"
proof (induction as rule: b64_groups.induct)
  case (4 a b c r)
  have "c div 64 < 4" "b div 16 < 16" using "4.prems" by (auto simp: less_mult_imp_div_less)
  with 4 show ?case by auto
qed auto

lemma b64_bytes_Some: "b64_bytes vs = Some as \<Longrightarrow> list_all (\<lambda>v. v < 64) vs \<Longrightarrow> b64_groups as = vs \<and> list_all (\<lambda>a. a < 256) as"
proof (induction vs arbitrary: as rule: b64_bytes.induct)
  case (5 w x y z r)
  then show ?case by auto
qed (auto split: if_splits)
lemma of_char_small: "list_all (\<lambda>a. a < 256) (map of_char (s :: string) :: nat list)"
  by (simp add: list_all_iff)

lemma b64_char_no_break: "n < 64 \<Longrightarrow> \<not> line_break (b64_char n)"
proof -
  assume "n < 64"
  then have "b64_char n \<in> set b64_alphabet" by (simp add: b64_char_def b64_alphabet_length)
  moreover have "\<forall>c \<in> set b64_alphabet. \<not> line_break c" by (simp add: b64_alphabet_def line_break_def)
  ultimately show ?thesis by blast
qed

lemma b64_decode_encode: "b64_decode (b64_encode s) = Some s"
proof -
  let ?g = "b64_groups (map of_char s)"
  have small: "list_all (\<lambda>v. v < 64) ?g" using b64_groups_small [OF of_char_small] .
  then have "filter (\<lambda>c. \<not> line_break c) (map b64_char ?g) = map b64_char ?g"
    by (auto simp: filter_id_conv list_all_iff b64_char_no_break)
  moreover have "all_some (map b64_val (map b64_char ?g)) = Some ?g"
    using small by (intro all_some_map) (auto simp: list_all_iff b64_val_char)
  ultimately show ?thesis
    using b64_bytes_groups [OF of_char_small, of s] by (simp add: b64_decode_def b64_encode_def comp_def)
qed

lemma b64_decode_canonical: "b64_decode s = Some r \<Longrightarrow> b64_encode r = filter (\<lambda>c. \<not> line_break c) s"
proof -
  assume "b64_decode s = Some r"
  then obtain vs as where vs: "all_some (map b64_val (filter (\<lambda>c. \<not> line_break c) s)) = Some vs"
    "b64_bytes vs = Some as" "r = map char_of as" by (auto simp: b64_decode_def split: option.splits)
  have sixbit: "map b64_val (filter (\<lambda>c. \<not> line_break c) s) = map Some vs" using all_some_Some [OF vs(1)] .
  then have each: "\<forall>i < length vs. b64_val (filter (\<lambda>c. \<not> line_break c) s ! i) = Some (vs ! i)"
    by (metis length_map nth_map)
  have len: "length vs = length (filter (\<lambda>c. \<not> line_break c) s)" using arg_cong [OF sixbit, of length] by simp
  have "list_all (\<lambda>v. v < 64) vs" using each b64_val_Some by (auto simp: list_all_length)
  from b64_bytes_Some [OF vs(2) this] have as: "b64_groups as = vs" "list_all (\<lambda>a. a < 256) as" by auto
  have "map of_char r = as" using as(2) vs(3) by (auto simp: list_all_iff intro!: map_idI)
  moreover have "map b64_char vs = filter (\<lambda>c. \<not> line_break c) s"
    using each len b64_val_Some by (intro nth_equalityI) auto
  ultimately show ?thesis using as(1) by (simp add: b64_encode_def)
qed

lemma b64_encoded_len_eq: "b64_encoded_len n = (4 * n + 2) div 3"
proof -
  obtain q r where n: "n = 3 * q + r" "r < 3" by (metis mod_less_divisor mult_div_mod_eq zero_less_numeral)
  then have "r = 0 \<or> r = 1 \<or> r = 2" by auto
  with n show ?thesis by (auto simp: b64_encoded_len_def)
qed

lemma b64_groups_length: "length (b64_groups as) = b64_encoded_len (length as)"
  by (induction as rule: b64_groups.induct) (auto simp: b64_encoded_len_eq)

lemma b64_encoded_len_less: "m < n \<Longrightarrow> b64_encoded_len m < b64_encoded_len n"
proof -
  assume "m < n"
  then have "(4 * m + 2 + 3) div 3 \<le> (4 * n + 2) div 3" by (intro div_le_mono) simp
  then show ?thesis by (simp add: b64_encoded_len_eq)
qed

lemma b64_encode_length: "length (b64_encode s) = b64_encoded_len (length s)"
  by (simp add: b64_encode_def b64_groups_length)

section \<open>The envelope is a faithful and unforgeable transport\<close>

text \<open>The envelope that the encoder builds for a block.\<close>

definition sealed :: "thinking_lib \<Rightarrow> AnthropicContentBlock \<Rightarrow> string \<Rightarrow> string \<Rightarrow> anthropicThinkingEnvelope" where
  "sealed lib block scope i =
     (let e = \<lparr>te_Scope = '''', te_ItemID = i, te_Type = cb_Type block, te_Thinking = cb_Thinking block,
        te_Signature = cb_Signature block, te_Data = cb_Data block\<rparr>
      in e\<lparr>te_Scope := thinkingEnvelopeMAC lib e scope\<rparr>)"

lemma encode_sealed:
  "scope \<noteq> '''' \<Longrightarrow> encodeAnthropicThinking lib block scope i =
     (case tl_marshal lib (sealed lib block scope i) of
        None \<Rightarrow> ''''
      | Some raw \<Rightarrow> (if maxAnthropicThinkingEnvelope < length raw then ''''
                    else anthropicThinkingEnvelopePrefix @ b64_encode raw))"
  by (simp add: encodeAnthropicThinking_def sealed_def Let_def)

text \<open>A signed thinking block survives the way through a Responses client: what the encoder makes of
  it, the decoder turns back into the same block, for the same scope and item. The JSON library has to
  encode the envelope within the size limit and decode what it encoded.\<close>

theorem thinking_roundtrip:
  assumes "scope \<noteq> ''''" "tl_marshal lib (sealed lib block scope i) = Some raw"
    and "tl_unmarshal lib raw = Some (sealed lib block scope i)" "length raw \<le> maxAnthropicThinkingEnvelope"
    and "envelope_type_ok (sealed lib block scope i)"
  shows "decodeAnthropicThinking lib (encodeAnthropicThinking lib block scope i) scope i =
    Some (zero_block\<lparr>cb_Type := cb_Type block, cb_Thinking := cb_Thinking block, cb_Signature := cb_Signature block,
      cb_Data := cb_Data block\<rparr>)"
proof -
  have enc: "encodeAnthropicThinking lib block scope i = anthropicThinkingEnvelopePrefix @ b64_encode raw"
    using assms(1,2,4) by (simp add: encode_sealed)
  have "cut_prefix anthropicThinkingEnvelopePrefix (anthropicThinkingEnvelopePrefix @ b64_encode raw) = Some (b64_encode raw)"
    by (simp add: cut_prefix_Some)
  moreover have "\<not> b64_encoded_len maxAnthropicThinkingEnvelope < length (b64_encode raw)"
    using assms(4) b64_encoded_len_less [of maxAnthropicThinkingEnvelope "length raw"]
    by (metis b64_encode_length b64_encoded_len_less le_neq_implies_less not_less_iff_gr_or_eq)
  moreover have "te_ItemID (sealed lib block scope i) = i"
    "te_Scope (sealed lib block scope i) = thinkingEnvelopeMAC lib (sealed lib block scope i\<lparr>te_Scope := ''''\<rparr>) scope"
    by (simp_all add: sealed_def thinkingEnvelopeMAC_def Let_def)
  ultimately show ?thesis
    unfolding enc using assms
    by (simp add: decodeAnthropicThinking_def b64_decode_encode marshal_text_def)
      (simp add: sealed_def Let_def)
qed

text \<open>C19: the decoder accepts, for a scope and an item, nothing but the encoder's own output for the block
  that it returns (up to line breaks, which Base64 ignores), and only complete signed or redacted
  thinking blocks. Whatever a client sends, an accepted block carries the authentication code of this
  scope and item. Of the JSON decoder this needs that an empty text is not an envelope.\<close>

theorem thinking_authentic:
  assumes "tl_unmarshal lib '''' = None" "decodeAnthropicThinking lib val scope i = Some block"
  shows "encodeAnthropicThinking lib block scope i = filter (\<lambda>c. \<not> line_break c) val
    \<and> envelope_type_ok (sealed lib block scope i)"
proof -
  obtain encoded raw e where parts: "scope \<noteq> ''''" "cut_prefix anthropicThinkingEnvelopePrefix val = Some encoded"
    "length encoded \<le> b64_encoded_len maxAnthropicThinkingEnvelope" "b64_decode encoded = Some raw"
    "tl_unmarshal lib raw = Some e" "te_ItemID e = i" "te_Scope e = thinkingEnvelopeMAC lib (e\<lparr>te_Scope := ''''\<rparr>) scope"
    "marshal_text lib e = raw" "envelope_type_ok e"
    "block = zero_block\<lparr>cb_Type := te_Type e, cb_Thinking := te_Thinking e, cb_Signature := te_Signature e, cb_Data := te_Data e\<rparr>"
    using assms(2) by (auto simp: decodeAnthropicThinking_def Let_def not_less split: if_splits option.splits)
  have seal: "sealed lib block scope i = e"
    using parts(6,7) by (cases e) (simp add: sealed_def parts(10) Let_def zero_block_def thinkingEnvelopeMAC_def)
  have canon: "b64_encode raw = filter (\<lambda>c. \<not> line_break c) encoded" using b64_decode_canonical [OF parts(4)] .
  have "b64_encoded_len (length raw) \<le> length encoded"
    unfolding b64_encode_length [symmetric] canon by simp
  then have small: "length raw \<le> maxAnthropicThinkingEnvelope"
    using parts(3) b64_encoded_len_less [of maxAnthropicThinkingEnvelope "length raw"] by linarith
  have "raw \<noteq> ''''" using assms(1) parts(5) by auto
  then have "tl_marshal lib e = Some raw" using parts(8) by (auto simp: marshal_text_def split: option.splits)
  moreover have "filter (\<lambda>c. \<not> line_break c) val = anthropicThinkingEnvelopePrefix @ b64_encode raw"
    using parts(2) canon by (auto simp: cut_prefix_Some anthropicThinkingEnvelopePrefix_def line_break_def)
  ultimately show ?thesis using parts(1,9) small by (simp add: encode_sealed seal)
qed

text \<open>A library that knows one envelope.\<close>

definition demo_block :: AnthropicContentBlock where
  "demo_block = zero_block\<lparr>cb_Type := ''thinking'', cb_Thinking := ''hm'', cb_Signature := ''sig''\<rparr>"

definition demo_lib :: thinking_lib where
  "demo_lib = \<lparr>tl_marshal = (\<lambda>e. Some (te_Scope e @ ''|'' @ te_ItemID e @ ''|'' @ te_Type e @ ''|'' @ te_Thinking e
       @ ''|'' @ te_Signature e @ ''|'' @ te_Data e)),
     tl_unmarshal = (\<lambda>r. if r = ''k|item_1|thinking|hm|sig|'' then Some \<lparr>te_Scope = ''k'', te_ItemID = ''item_1'',
       te_Type = ''thinking'', te_Thinking = ''hm'', te_Signature = ''sig'', te_Data = ''''\<rparr> else None),
     tl_hmac_hex = (\<lambda>k m. k)\<rparr>"

lemma demo_lib_simps:
  "tl_marshal demo_lib e = Some (te_Scope e @ ''|'' @ te_ItemID e @ ''|'' @ te_Type e @ ''|'' @ te_Thinking e
     @ ''|'' @ te_Signature e @ ''|'' @ te_Data e)"
  "tl_unmarshal demo_lib r = (if r = ''k|item_1|thinking|hm|sig|'' then Some \<lparr>te_Scope = ''k'', te_ItemID = ''item_1'',
     te_Type = ''thinking'', te_Thinking = ''hm'', te_Signature = ''sig'', te_Data = ''''\<rparr> else None)"
  "tl_hmac_hex demo_lib k m = k"
  by (simp_all add: demo_lib_def)

lemma demo_sealed: "sealed demo_lib demo_block ''k'' ''item_1'' = \<lparr>te_Scope = ''k'', te_ItemID = ''item_1'',
    te_Type = ''thinking'', te_Thinking = ''hm'', te_Signature = ''sig'', te_Data = ''''\<rparr>"
  by (simp add: sealed_def demo_lib_simps demo_block_def zero_block_def thinkingEnvelopeMAC_def Let_def)

theorem thinking_roundtrip_witness:
  "decodeAnthropicThinking demo_lib (encodeAnthropicThinking demo_lib demo_block ''k'' ''item_1'') ''k'' ''item_1'' =
     Some demo_block"
  using thinking_roundtrip [of "''k''" demo_lib demo_block "''item_1''" "''k|item_1|thinking|hm|sig|''"]
  unfolding demo_sealed
  by (simp add: demo_lib_simps envelope_type_ok_def maxAnthropicThinkingEnvelope_def)
    (simp add: demo_block_def zero_block_def)

lemma demo_envelope: "b64_encode ''k|item_1|thinking|hm|sig|'' = ''a3xpdGVtXzF8dGhpbmtpbmd8aG18c2lnfA''"
  by (simp add: b64_encode_def b64_char_def b64_alphabet_def)

lemma demo_decode: "b64_decode ''a3xpdGVtXzF8dGhpbmtpbmd8aG18c2lnfA'' = Some ''k|item_1|thinking|hm|sig|''"
  using b64_decode_encode [of "''k|item_1|thinking|hm|sig|''"] by (simp only: demo_envelope)

theorem thinking_authentic_witness:
  "encodeAnthropicThinking demo_lib demo_block ''k'' ''item_1'' = ''anthropic-thinking-v1:a3xpdGVtXzF8dGhpbmtpbmd8aG18c2lnfA''"
proof -
  have "decodeAnthropicThinking demo_lib ''anthropic-thinking-v1:a3xpdGVtXzF8dGhpbmtpbmd8aG18c2lnfA'' ''k'' ''item_1'' = Some demo_block"
    by (simp add: decodeAnthropicThinking_def anthropicThinkingEnvelopePrefix_def demo_decode b64_encoded_len_def
        maxAnthropicThinkingEnvelope_def thinkingEnvelopeMAC_def marshal_text_def envelope_type_ok_def Let_def demo_lib_simps demo_block_def zero_block_def)
  from thinking_authentic [OF _ this] show ?thesis by (simp add: demo_lib_simps line_break_def)
qed

end
