(* ===== verification/Anthropic_To_Responses.thy ===== *)
theory Anthropic_To_Responses
  imports Responses_To_Anthropic Thinking_Envelope
begin

text \<open>
  The converter of \<open>internal/pkg/apicompat/anthropic_to_responses_response.go\<close>: an Anthropic message
  becomes a response of the OpenAI Responses API, and a stream of Anthropic events becomes a stream of
  Responses events.

  The stream state is the record \<open>AnthropicEventToResponsesState\<close>. An identifier of
  \<open>generateItemID\<close> is an argument: an event of the stream comes with the identifier that its handler
  draws when it needs one (no handler needs two), and the conversion of a whole message has a supply
  \<open>ids\<close> of which the n-th call draws the n-th. Formatting an event as SSE text is not modelled.
\<close>

section \<open>A whole message\<close>

definition anthropicStopReasonToResponsesStatus :: "string \<Rightarrow> AnthropicContentBlock list \<Rightarrow> string" where
  "anthropicStopReasonToResponsesStatus stopReason blocks =
     (if stopReason = ''max_tokens'' then ''incomplete'' else ''completed'')"

definition responses_usage :: "int \<Rightarrow> int \<Rightarrow> int \<Rightarrow> int \<Rightarrow> ResponsesUsage" where
  "responses_usage inp outp cacheRead cacheCreation =
     (let totalInputTokens = i64 (i64 (inp + cacheRead) + cacheCreation) in
      \<lparr>ru_InputTokens = totalInputTokens, ru_OutputTokens = outp, ru_TotalTokens = i64 (totalInputTokens + outp),
       ru_CacheCreationInputTokens = cacheCreation,
       ru_InputTokensDetails =
         (if 0 < cacheRead then Some (zero_input_details\<lparr>it_CachedTokens := cacheRead\<rparr>) else None),
       ru_OutputTokensDetails = None\<rparr>)"

text \<open>The loop over the content blocks: \<open>n\<close> identifiers have been drawn; the result is what is appended
  to the outputs, to the parts of the message, and the number of identifiers drawn.\<close>

definition convert_block :: "thinking_lib \<Rightarrow> bool \<Rightarrow> string \<Rightarrow> (nat \<Rightarrow> string) \<Rightarrow> nat \<Rightarrow> AnthropicContentBlock \<Rightarrow>
    ResponsesOutput list \<times> ResponsesContentPart list \<times> nat" where
  "convert_block lib adaptive scope ids n block =
     (if cb_Type block = ''thinking'' \<or> cb_Type block = ''redacted_thinking'' then
        (let summary = (if cb_Thinking block \<noteq> ''''
               then [\<lparr>sm_Type = ''summary_text'', sm_Text = cb_Thinking block\<rparr>] else [])
         in if adaptive \<and> (cb_Signature block \<noteq> '''' \<or> cb_Data block \<noteq> '''') then
              ([zero_output\<lparr>ro_Type := ''reasoning'', ro_ID := ids n,
                  ro_EncryptedContent := encodeAnthropicThinking lib block scope (ids n), ro_Summary := summary\<rparr>],
               [], n + 1)
            else if cb_Thinking block \<noteq> '''' then
              ([zero_output\<lparr>ro_Type := ''reasoning'', ro_ID := ids n, ro_Summary := summary\<rparr>], [], n + 1)
            else ([], [], n))
      else if cb_Type block = ''text'' then
        (if adaptive \<and> cb_Text block \<noteq> '''' then
           ([zero_output\<lparr>ro_Type := ''message'', ro_ID := ids n, ro_Role := ''assistant'', ro_Status := ''completed'',
               ro_Content := [output_text (cb_Text block)]\<rparr>], [], n + 1)
         else if cb_Text block \<noteq> '''' then ([], [output_text (cb_Text block)], n)
         else ([], [], n))
      else if cb_Type block = ''tool_use'' then
        ([zero_output\<lparr>ro_Type := ''function_call'', ro_ID := ids n, ro_CallID := toResponsesCallID (cb_ID block),
            ro_Name := cb_Name block,
            ro_Arguments := (if 0 < length (cb_Input block) then cb_Input block else ''{}''),
            ro_Status := ''completed''\<rparr>], [], n + 1)
      else ([], [], n))"

fun convert_blocks :: "thinking_lib \<Rightarrow> bool \<Rightarrow> string \<Rightarrow> (nat \<Rightarrow> string) \<Rightarrow> nat \<Rightarrow> AnthropicContentBlock list \<Rightarrow>
    ResponsesOutput list \<times> ResponsesContentPart list \<times> nat" where
  "convert_blocks lib adaptive scope ids n [] = ([], [], n)"
| "convert_blocks lib adaptive scope ids n (block # blocks) =
     (let (outs, parts, n) = convert_block lib adaptive scope ids n block;
          (outs', parts', n) = convert_blocks lib adaptive scope ids n blocks
      in (outs @ outs', parts @ parts', n))"

definition message_item :: "string \<Rightarrow> ResponsesContentPart list \<Rightarrow> ResponsesOutput" where
  "message_item i parts = zero_output\<lparr>ro_Type := ''message'', ro_ID := i, ro_Role := ''assistant'', ro_Content := parts,
     ro_Status := ''completed''\<rparr>"

definition AnthropicToResponsesResponse ::
  "thinking_lib \<Rightarrow> string \<Rightarrow> (nat \<Rightarrow> string) \<Rightarrow> int \<Rightarrow> AnthropicResponse \<Rightarrow> string list \<Rightarrow> ResponsesResponse" where
  "AnthropicToResponsesResponse lib respID ids now resp scopes =
     (let scope = (if 0 < length scopes then scopes ! 0 else '''');
          i = (if ar_ID resp = '''' then respID else ar_ID resp);
          (outputs, msgParts, n) =
            convert_blocks lib (IsAdaptiveThinkingModel (ar_Model resp)) scope ids 0 (ar_Content resp);
          (outputs, n) = (if 0 < length msgParts then (outputs @ [message_item (ids n) msgParts], n + 1) else (outputs, n));
          outputs = (if length outputs = 0 then [message_item (ids n) [output_text '''']] else outputs);
          status = anthropicStopReasonToResponsesStatus (AnthropicStopReasonString (ar_StopReason resp)) (ar_Content resp);
          u = ar_Usage resp
      in \<lparr>rr_UpstreamServiceTier = '''', rr_CreatedAt = now, rr_ID = i, rr_Object = ''response'', rr_Model = ar_Model resp,
          rr_Status = status, rr_Output = outputs,
          rr_Usage = Some (responses_usage (au_InputTokens u) (au_OutputTokens u) (au_CacheReadInputTokens u)
            (au_CacheCreationInputTokens u)),
          rr_IncompleteDetails = (if status = ''incomplete'' then Some \<lparr>id_Reason = ''max_output_tokens''\<rparr> else None),
          rr_Error = None\<rparr>)"

section \<open>The stream state\<close>

record AnthropicEventToResponsesState =
  as_PreserveThinkingSignatures :: bool
  as_ThinkingScope :: string
  as_CurrentThinking :: AnthropicContentBlock
  as_ThinkingEnvelopeOverflow :: bool
  as_ResponseID :: string
  as_Model :: string
  as_Created :: int
  as_SequenceNumber :: int
  as_CreatedSent :: bool
  as_CompletedSent :: bool
  as_OutputIndex :: int
  as_CurrentItemID :: string
  as_CurrentItemType :: string
  as_ContentIndex :: int
  as_TextAccum :: string
  as_CurrentContent :: "ResponsesContentPart list"
  as_CurrentArgs :: string
  as_InitialArgsPending :: bool
  as_CurrentSummary :: string
  as_Outputs :: "ResponsesOutput list"
  as_CurrentCallID :: string
  as_CurrentName :: string
  as_InputTokens :: int
  as_OutputTokens :: int
  as_CacheReadInputTokens :: int
  as_CacheCreationInputTokens :: int
  as_StopReason :: string

definition NewAnthropicEventToResponsesState :: "int \<Rightarrow> AnthropicEventToResponsesState" where
  "NewAnthropicEventToResponsesState now =
     \<lparr>as_PreserveThinkingSignatures = False, as_ThinkingScope = '''', as_CurrentThinking = zero_block,
      as_ThinkingEnvelopeOverflow = False, as_ResponseID = '''', as_Model = '''', as_Created = now,
      as_SequenceNumber = 0, as_CreatedSent = False, as_CompletedSent = False, as_OutputIndex = 0,
      as_CurrentItemID = '''', as_CurrentItemType = '''', as_ContentIndex = 0, as_TextAccum = '''',
      as_CurrentContent = [], as_CurrentArgs = '''', as_InitialArgsPending = False, as_CurrentSummary = '''',
      as_Outputs = [], as_CurrentCallID = '''', as_CurrentName = '''', as_InputTokens = 0, as_OutputTokens = 0,
      as_CacheReadInputTokens = 0, as_CacheCreationInputTokens = 0, as_StopReason = ''''\<rparr>"

type_synonym a2r = "AnthropicEventToResponsesState \<times> ResponsesStreamEvent list"

section \<open>Events\<close>

definition makeResponsesEvent ::
  "AnthropicEventToResponsesState \<Rightarrow> string \<Rightarrow> ResponsesStreamEvent \<Rightarrow>
   AnthropicEventToResponsesState \<times> ResponsesStreamEvent" where
  "makeResponsesEvent state eventType template =
     (state\<lparr>as_SequenceNumber := as_SequenceNumber state + 1\<rparr>,
      template\<lparr>re_Type := eventType, re_SequenceNumber := as_SequenceNumber state\<rparr>)"

definition zero_response :: ResponsesResponse where
  "zero_response = \<lparr>rr_UpstreamServiceTier = '''', rr_CreatedAt = 0, rr_ID = '''', rr_Object = '''', rr_Model = '''',
     rr_Status = '''', rr_Output = [], rr_Usage = None, rr_IncompleteDetails = None, rr_Error = None\<rparr>"

definition makeResponsesCreatedEvent ::
  "AnthropicEventToResponsesState \<Rightarrow> AnthropicEventToResponsesState \<times> ResponsesStreamEvent" where
  "makeResponsesCreatedEvent state =
     (state\<lparr>as_SequenceNumber := as_SequenceNumber state + 1\<rparr>,
      zero_responses_event\<lparr>re_Type := ''response.created'', re_SequenceNumber := as_SequenceNumber state,
        re_Response := Some (zero_response\<lparr>rr_CreatedAt := as_Created state, rr_ID := as_ResponseID state,
          rr_Object := ''response'', rr_Model := as_Model state, rr_Status := ''in_progress'', rr_Output := []\<rparr>)\<rparr>)"

definition makeResponsesCompletedEvent ::
  "AnthropicEventToResponsesState \<Rightarrow> string \<Rightarrow> ResponsesIncompleteDetails option \<Rightarrow>
   AnthropicEventToResponsesState \<times> ResponsesStreamEvent" where
  "makeResponsesCompletedEvent state status incompleteDetails =
     (state\<lparr>as_SequenceNumber := as_SequenceNumber state + 1\<rparr>,
      zero_responses_event\<lparr>
        re_Type := (if status = ''incomplete'' then ''response.incomplete'' else ''response.completed''),
        re_SequenceNumber := as_SequenceNumber state,
        re_Response := Some (zero_response\<lparr>rr_CreatedAt := as_Created state, rr_ID := as_ResponseID state,
          rr_Object := ''response'', rr_Model := as_Model state, rr_Status := status, rr_Output := as_Outputs state,
          rr_Usage := Some (responses_usage (as_InputTokens state) (as_OutputTokens state)
            (as_CacheReadInputTokens state) (as_CacheCreationInputTokens state)),
          rr_IncompleteDetails := incompleteDetails\<rparr>)\<rparr>)"

definition anthropicResponsesStreamTerminalState :: "string \<Rightarrow> string \<times> ResponsesIncompleteDetails option" where
  "anthropicResponsesStreamTerminalState stopReason =
     (if stopReason = ''max_tokens'' then (''incomplete'', Some \<lparr>id_Reason = ''max_output_tokens''\<rparr>)
      else (''completed'', None))"

section \<open>Handlers\<close>

definition flushAnthropicInitialToolArguments :: "AnthropicEventToResponsesState \<Rightarrow> a2r" where
  "flushAnthropicInitialToolArguments state =
     (if as_CurrentItemType state \<noteq> ''function_call'' \<or> \<not> as_InitialArgsPending state then (state, [])
      else
        (let state = state\<lparr>as_InitialArgsPending := False\<rparr> in
         if as_CurrentArgs state = '''' then (state, [])
         else
           (let (state', evt) = makeResponsesEvent state ''response.function_call_arguments.delta''
              (zero_responses_event\<lparr>re_OutputIndex := as_OutputIndex state, re_ItemID := as_CurrentItemID state,
                 re_CallID := as_CurrentCallID state, re_Name := as_CurrentName state,
                 re_Delta := as_CurrentArgs state\<rparr>)
            in (state', [evt]))))"

definition closed_item :: "thinking_lib \<Rightarrow> AnthropicEventToResponsesState \<Rightarrow> ResponsesOutput" where
  "closed_item lib state =
     (let t = as_CurrentItemType state;
          item = zero_output\<lparr>ro_Type := t, ro_ID := as_CurrentItemID state, ro_Status := ''completed''\<rparr>
      in if t = ''message'' then item\<lparr>ro_Role := ''assistant'', ro_Content := as_CurrentContent state\<rparr>
         else if t = ''function_call'' then
           item\<lparr>ro_CallID := as_CurrentCallID state, ro_Name := as_CurrentName state,
             ro_Arguments := (if as_CurrentArgs state = '''' then ''{}'' else as_CurrentArgs state)\<rparr>
         else if t = ''reasoning'' then
           item\<lparr>ro_EncryptedContent :=
               (if as_PreserveThinkingSignatures state \<and> \<not> as_ThinkingEnvelopeOverflow state
                   \<and> (cb_Signature (as_CurrentThinking state) \<noteq> '''' \<or> cb_Data (as_CurrentThinking state) \<noteq> '''')
                then encodeAnthropicThinking lib (as_CurrentThinking state) (as_ThinkingScope state) (ro_ID item)
                else ''''),
             ro_Summary := (if as_CurrentSummary state \<noteq> ''''
               then [\<lparr>sm_Type = ''summary_text'', sm_Text = as_CurrentSummary state\<rparr>] else [])\<rparr>
         else item)"

definition closeCurrentResponsesItem :: "thinking_lib \<Rightarrow> AnthropicEventToResponsesState \<Rightarrow> a2r" where
  "closeCurrentResponsesItem lib state =
     (if as_CurrentItemType state = '''' then (state, [])
      else
        (let (state, events) = flushAnthropicInitialToolArguments state;
             item = closed_item lib state;
             state = state\<lparr>as_Outputs := as_Outputs state @ [item], as_CurrentItemType := '''', as_CurrentItemID := '''',
               as_CurrentCallID := '''', as_CurrentName := '''', as_CurrentContent := [], as_CurrentArgs := '''',
               as_InitialArgsPending := False, as_CurrentSummary := '''', as_CurrentThinking := zero_block,
               as_TextAccum := '''', as_OutputIndex := as_OutputIndex state + 1, as_ContentIndex := 0\<rparr>;
             (state', evt) = makeResponsesEvent state ''response.output_item.done''
               (zero_responses_event\<lparr>re_OutputIndex := as_OutputIndex state - 1, re_Item := Some item\<rparr>)
         in (state', events @ [evt])))"
definition anthToResHandleMessageStart ::
  "AnthropicStreamEvent \<Rightarrow> AnthropicEventToResponsesState \<Rightarrow> a2r" where
  "anthToResHandleMessageStart evt state =
     (let state = (case ae_Message evt of
            None \<Rightarrow> state
          | Some m \<Rightarrow>
              (let u = ar_Usage m in
               state\<lparr>as_PreserveThinkingSignatures :=
                   as_PreserveThinkingSignatures state \<or> IsAdaptiveThinkingModel (ar_Model m),
                 as_ResponseID := ar_ID m,
                 as_Model := (if as_Model state = '''' then ar_Model m else as_Model state),
                 as_InputTokens := (if 0 < au_InputTokens u then au_InputTokens u else as_InputTokens state),
                 as_CacheReadInputTokens := (if 0 < au_CacheReadInputTokens u then au_CacheReadInputTokens u
                   else as_CacheReadInputTokens state),
                 as_CacheCreationInputTokens := (if 0 < au_CacheCreationInputTokens u then au_CacheCreationInputTokens u
                   else as_CacheCreationInputTokens state)\<rparr>))
      in if as_CreatedSent state then (state, [])
         else (let (state', evt) = makeResponsesCreatedEvent (state\<lparr>as_CreatedSent := True\<rparr>) in (state', [evt])))"

definition anthToResHandleContentBlockDelta ::
  "AnthropicStreamEvent \<Rightarrow> AnthropicEventToResponsesState \<Rightarrow> a2r" where
  "anthToResHandleContentBlockDelta evt state =
     (case ae_Delta evt of
        None \<Rightarrow> (state, [])
      | Some d \<Rightarrow>
          (if ad_Type d = ''text_delta'' then
             (if ad_Text d = '''' then (state, [])
              else
                (let state = state\<lparr>as_TextAccum := as_TextAccum state @ ad_Text d\<rparr>;
                     (state', e) = makeResponsesEvent state ''response.output_text.delta''
                       (zero_responses_event\<lparr>re_OutputIndex := as_OutputIndex state,
                          re_ContentIndex := as_ContentIndex state, re_Delta := ad_Text d,
                          re_ItemID := as_CurrentItemID state\<rparr>)
                 in (state', [e])))
           else if ad_Type d = ''thinking_delta'' then
             (if ad_Thinking d = '''' then (state, [])
              else
                (let state = state\<lparr>as_CurrentSummary := as_CurrentSummary state @ ad_Thinking d\<rparr>;
                     fits = length (cb_Thinking (as_CurrentThinking state)) + length (ad_Thinking d)
                       \<le> maxAnthropicThinkingEnvelope;
                     state =
                       (if as_PreserveThinkingSignatures state \<and> fits
                        then state\<lparr>as_CurrentThinking := (as_CurrentThinking state)\<lparr>
                               cb_Thinking := cb_Thinking (as_CurrentThinking state) @ ad_Thinking d\<rparr>\<rparr>
                        else if as_PreserveThinkingSignatures state then state\<lparr>as_ThinkingEnvelopeOverflow := True\<rparr>
                        else state);
                     (state', e) = makeResponsesEvent state ''response.reasoning_summary_text.delta''
                       (zero_responses_event\<lparr>re_OutputIndex := as_OutputIndex state, re_SummaryIndex := 0,
                          re_Delta := ad_Thinking d, re_ItemID := as_CurrentItemID state\<rparr>)
                 in (state', [e])))
           else if ad_Type d = ''input_json_delta'' then
             (if ad_PartialJSON d = '''' then (state, [])
              else
                (let state = (if as_InitialArgsPending state
                       then state\<lparr>as_CurrentArgs := '''', as_InitialArgsPending := False\<rparr> else state);
                     state = state\<lparr>as_CurrentArgs := as_CurrentArgs state @ ad_PartialJSON d\<rparr>;
                     (state', e) = makeResponsesEvent state ''response.function_call_arguments.delta''
                       (zero_responses_event\<lparr>re_OutputIndex := as_OutputIndex state, re_Delta := ad_PartialJSON d,
                          re_ItemID := as_CurrentItemID state, re_CallID := as_CurrentCallID state,
                          re_Name := as_CurrentName state\<rparr>)
                 in (state', [e])))
           else if ad_Type d = ''signature_delta'' then
             (let fits = length (cb_Signature (as_CurrentThinking state)) + length (ad_Signature d)
                    \<le> maxAnthropicThinkingEnvelope
              in (if as_PreserveThinkingSignatures state \<and> fits
                  then state\<lparr>as_CurrentThinking := (as_CurrentThinking state)\<lparr>
                         cb_Signature := cb_Signature (as_CurrentThinking state) @ ad_Signature d\<rparr>\<rparr>
                  else if as_PreserveThinkingSignatures state then state\<lparr>as_ThinkingEnvelopeOverflow := True\<rparr>
                  else state, []))
           else (state, [])))"

definition text_delta :: "string \<Rightarrow> AnthropicStreamEvent" where
  "text_delta t = zero_anthropic_event\<lparr>ae_Delta := Some (zero_delta\<lparr>ad_Type := ''text_delta'', ad_Text := t\<rparr>)\<rparr>"

definition thinking_delta :: "string \<Rightarrow> AnthropicStreamEvent" where
  "thinking_delta t =
     zero_anthropic_event\<lparr>ae_Delta := Some (zero_delta\<lparr>ad_Type := ''thinking_delta'', ad_Thinking := t\<rparr>)\<rparr>"

text \<open>The opening of a message item, when none is open.\<close>

definition open_message_item :: "string \<Rightarrow> AnthropicEventToResponsesState \<Rightarrow> a2r" where
  "open_message_item itemID state =
     (if as_CurrentItemType state \<noteq> ''message'' then
        (let state = state\<lparr>as_CurrentItemID := itemID, as_CurrentItemType := ''message'', as_ContentIndex := 0\<rparr>;
             (state', e) = makeResponsesEvent state ''response.output_item.added''
               (zero_responses_event\<lparr>re_OutputIndex := as_OutputIndex state,
                  re_Item := Some (zero_output\<lparr>ro_Type := ''message'', ro_ID := as_CurrentItemID state,
                    ro_Role := ''assistant'', ro_Status := ''in_progress''\<rparr>)\<rparr>)
         in (state', [e]))
      else (state, []))"

definition anthToResHandleContentBlockStart ::
  "thinking_lib \<Rightarrow> string \<Rightarrow> AnthropicStreamEvent \<Rightarrow> AnthropicEventToResponsesState \<Rightarrow> a2r" where
  "anthToResHandleContentBlockStart lib itemID evt state =
     (case ae_ContentBlock evt of
        None \<Rightarrow> (state, [])
      | Some b \<Rightarrow>
          (if cb_Type b = ''thinking'' \<or> cb_Type b = ''redacted_thinking'' then
             (let (state, events) = closeCurrentResponsesItem lib state;
                  state = state\<lparr>as_ThinkingEnvelopeOverflow := False, as_CurrentThinking := b\<lparr>cb_Thinking := ''''\<rparr>,
                    as_CurrentItemID := itemID, as_CurrentItemType := ''reasoning'', as_ContentIndex := 0\<rparr>;
                  (state, e) = makeResponsesEvent state ''response.output_item.added''
                    (zero_responses_event\<lparr>re_OutputIndex := as_OutputIndex state,
                       re_Item := Some (zero_output\<lparr>ro_Type := ''reasoning'', ro_ID := as_CurrentItemID state\<rparr>)\<rparr>);
                  (state, events') = (if cb_Thinking b \<noteq> ''''
                    then anthToResHandleContentBlockDelta (thinking_delta (cb_Thinking b)) state else (state, []))
              in (state, events @ [e] @ events'))
           else if cb_Type b = ''text'' then
             (let (state, events) = open_message_item itemID state;
                  (state, e) = makeResponsesEvent state ''response.content_part.added''
                    (zero_responses_event\<lparr>re_OutputIndex := as_OutputIndex state,
                       re_ContentIndex := as_ContentIndex state, re_ItemID := as_CurrentItemID state,
                       re_Part := Some (output_text '''')\<rparr>);
                  state = state\<lparr>as_TextAccum := ''''\<rparr>;
                  (state, events') = (if cb_Text b \<noteq> ''''
                    then anthToResHandleContentBlockDelta (text_delta (cb_Text b)) state else (state, []))
              in (state, events @ [e] @ events'))
           else if cb_Type b = ''tool_use'' then
             (let (state, events) = closeCurrentResponsesItem lib state;
                  state = state\<lparr>as_CurrentItemID := itemID, as_CurrentItemType := ''function_call'',
                    as_CurrentCallID := toResponsesCallID (cb_ID b), as_CurrentName := cb_Name b,
                    as_CurrentArgs := cb_Input b, as_InitialArgsPending := True\<rparr>;
                  (state, e) = makeResponsesEvent state ''response.output_item.added''
                    (zero_responses_event\<lparr>re_OutputIndex := as_OutputIndex state,
                       re_Item := Some (zero_output\<lparr>ro_Type := ''function_call'', ro_ID := as_CurrentItemID state,
                         ro_CallID := as_CurrentCallID state, ro_Name := as_CurrentName state,
                         ro_Status := ''in_progress''\<rparr>)\<rparr>)
              in (state, events @ [e]))
           else (state, [])))"

definition anthToResHandleContentBlockStop ::
  "thinking_lib \<Rightarrow> AnthropicEventToResponsesState \<Rightarrow> a2r" where
  "anthToResHandleContentBlockStop lib state =
     (if as_CurrentItemType state = ''reasoning'' then
        (let (state, e) = makeResponsesEvent state ''response.reasoning_summary_text.done''
               (zero_responses_event\<lparr>re_OutputIndex := as_OutputIndex state, re_SummaryIndex := 0,
                  re_ItemID := as_CurrentItemID state, re_Text := as_CurrentSummary state\<rparr>);
             (state, events) = closeCurrentResponsesItem lib state
         in (state, [e] @ events))
      else if as_CurrentItemType state = ''function_call'' then
        (let arguments = (if as_CurrentArgs state = '''' then ''{}'' else as_CurrentArgs state);
             (state, events) = flushAnthropicInitialToolArguments state;
             (state, e) = makeResponsesEvent state ''response.function_call_arguments.done''
               (zero_responses_event\<lparr>re_OutputIndex := as_OutputIndex state, re_ItemID := as_CurrentItemID state,
                  re_CallID := as_CurrentCallID state, re_Name := as_CurrentName state, re_Arguments := arguments\<rparr>);
             (state, events') = closeCurrentResponsesItem lib state
         in (state, events @ [e] @ events'))
      else if as_CurrentItemType state = ''message'' then
        (let t = as_TextAccum state;
             contentIndex = as_ContentIndex state;
             state = state\<lparr>as_TextAccum := '''', as_CurrentContent := as_CurrentContent state @ [output_text t]\<rparr>;
             (state, e1) = makeResponsesEvent state ''response.output_text.done''
               (zero_responses_event\<lparr>re_OutputIndex := as_OutputIndex state, re_ContentIndex := contentIndex,
                  re_ItemID := as_CurrentItemID state, re_Text := t\<rparr>);
             (state, e2) = makeResponsesEvent state ''response.content_part.done''
               (zero_responses_event\<lparr>re_OutputIndex := as_OutputIndex state, re_ContentIndex := contentIndex,
                  re_ItemID := as_CurrentItemID state, re_Part := Some (output_text t)\<rparr>)
         in (state\<lparr>as_ContentIndex := as_ContentIndex state + 1\<rparr>, [e1, e2]))
      else (state, []))"

definition anthToResHandleMessageDelta ::
  "AnthropicStreamEvent \<Rightarrow> AnthropicEventToResponsesState \<Rightarrow> a2r" where
  "anthToResHandleMessageDelta evt state =
     (let state = (case ae_Usage evt of
            None \<Rightarrow> state
          | Some u \<Rightarrow>
              state\<lparr>as_OutputTokens := au_OutputTokens u,
                as_InputTokens := (if 0 < au_InputTokens u then au_InputTokens u else as_InputTokens state),
                as_CacheReadInputTokens := (if 0 < au_CacheReadInputTokens u then au_CacheReadInputTokens u
                  else as_CacheReadInputTokens state),
                as_CacheCreationInputTokens := (if 0 < au_CacheCreationInputTokens u then au_CacheCreationInputTokens u
                  else as_CacheCreationInputTokens state)\<rparr>);
          state = (case ae_Delta evt of
            None \<Rightarrow> state
          | Some d \<Rightarrow> (if ad_StopReason d \<noteq> '''' then state\<lparr>as_StopReason := ad_StopReason d\<rparr> else state))
      in (state, []))"

text \<open>The end of the stream, shared by \<open>anthToResHandleMessageStop\<close> and
  \<open>FinalizeAnthropicResponsesStream\<close>.\<close>

definition end_stream :: "thinking_lib \<Rightarrow> AnthropicEventToResponsesState \<Rightarrow> a2r" where
  "end_stream lib state =
     (let (state, events) = closeCurrentResponsesItem lib state;
          (status, incompleteDetails) = anthropicResponsesStreamTerminalState (as_StopReason state);
          (state, e) = makeResponsesCompletedEvent state status incompleteDetails
      in (state\<lparr>as_CompletedSent := True\<rparr>, events @ [e]))"

definition anthToResHandleMessageStop :: "thinking_lib \<Rightarrow> AnthropicEventToResponsesState \<Rightarrow> a2r" where
  "anthToResHandleMessageStop lib state = (if as_CompletedSent state then (state, []) else end_stream lib state)"

definition AnthropicEventToResponsesEvents ::
  "thinking_lib \<Rightarrow> string \<Rightarrow> AnthropicStreamEvent \<Rightarrow> AnthropicEventToResponsesState \<Rightarrow> a2r" where
  "AnthropicEventToResponsesEvents lib itemID evt state =
     (let t = ae_Type evt in
      if t = ''message_start'' then anthToResHandleMessageStart evt state
      else if t = ''content_block_start'' then anthToResHandleContentBlockStart lib itemID evt state
      else if t = ''content_block_delta'' then anthToResHandleContentBlockDelta evt state
      else if t = ''content_block_stop'' then anthToResHandleContentBlockStop lib state
      else if t = ''message_delta'' then anthToResHandleMessageDelta evt state
      else if t = ''message_stop'' then anthToResHandleMessageStop lib state
      else (state, []))"

definition FinalizeAnthropicResponsesStream :: "thinking_lib \<Rightarrow> AnthropicEventToResponsesState \<Rightarrow> a2r" where
  "FinalizeAnthropicResponsesStream lib state =
     (if \<not> as_CreatedSent state \<or> as_CompletedSent state then (state, []) else end_stream lib state)"

section \<open>The two protocols\<close>

text \<open>The Anthropic stream that the converter reads: as \<open>anth_mon\<close>, with blocks of the kinds that it
  knows and deltas that fit the kind of the open block. Each event comes with an identifier that the
  handler may draw.\<close>

record ain =
  ai_started :: bool
  ai_stopped :: bool
  ai_open :: "string option"

definition ain_init :: ain where
  "ain_init = \<lparr>ai_started = False, ai_stopped = False, ai_open = None\<rparr>"

definition block_kind :: "string \<Rightarrow> string option" where
  "block_kind t = (if t = ''redacted_thinking'' then Some ''thinking''
     else if t = ''thinking'' \<or> t = ''text'' \<or> t = ''tool_use'' then Some t else None)"

definition delta_fits :: "string \<Rightarrow> AnthropicDelta \<Rightarrow> bool" where
  "delta_fits k d \<longleftrightarrow> (ad_Type d = ''text_delta'' \<longrightarrow> k = ''text'') \<and> (ad_Type d = ''thinking_delta'' \<longrightarrow> k = ''thinking'')
     \<and> (ad_Type d = ''input_json_delta'' \<longrightarrow> k = ''tool_use'')"

definition anth_in :: "ain \<Rightarrow> string \<times> AnthropicStreamEvent \<Rightarrow> ain option" where
  "anth_in i ev =
     (let e = snd ev; t = ae_Type e in
      if ai_stopped i then None
      else if t = ''message_start'' then (if ai_started i then None else Some (i\<lparr>ai_started := True\<rparr>))
      else if \<not> ai_started i then None
      else if t = ''content_block_start'' then
        (case ae_ContentBlock e of
           None \<Rightarrow> None
         | Some b \<Rightarrow> (if ai_open i \<noteq> None then None
             else map_option (\<lambda>k. i\<lparr>ai_open := Some k\<rparr>) (block_kind (cb_Type b))))
      else if t = ''content_block_delta'' then
        (case (ai_open i, ae_Delta e) of
           (Some k, Some d) \<Rightarrow> (if delta_fits k d then Some i else None)
         | _ \<Rightarrow> None)
      else if t = ''content_block_stop'' then (if ai_open i = None then None else Some (i\<lparr>ai_open := None\<rparr>))
      else if t = ''message_stop'' then (if ai_open i = None then Some (i\<lparr>ai_stopped := True\<rparr>) else None)
      else Some i)"

text \<open>The Responses stream: events are numbered; items are added and done one after the other; the events
  of an item carry its index and identifier; the final texts of a part, of arguments and of a summary,
  the finished items and the finished response repeat exactly what has been streamed; nothing follows
  the terminal event.\<close>

record rmon =
  rm_created :: bool
  rm_done :: bool
  rm_seq :: int
  rm_next :: int
  rm_item :: "(string \<times> string) option"
  rm_part :: "string option"
  rm_parts :: "ResponsesContentPart list"
  rm_args :: string
  rm_summary :: string
  rm_outputs :: "ResponsesOutput list"

definition rmon_init :: rmon where
  "rmon_init = \<lparr>rm_created = False, rm_done = False, rm_seq = 0, rm_next = 0, rm_item = None, rm_part = None,
     rm_parts = [], rm_args = '''', rm_summary = '''', rm_outputs = []\<rparr>"

definition or_empty_object :: "string \<Rightarrow> string" where
  "or_empty_object a = (if a = '''' then ''{}'' else a)"

definition summaries :: "string \<Rightarrow> ResponsesSummary list" where
  "summaries t = (if t \<noteq> '''' then [\<lparr>sm_Type = ''summary_text'', sm_Text = t\<rparr>] else [])"

definition item_repeats :: "rmon \<Rightarrow> string \<Rightarrow> string \<Rightarrow> ResponsesOutput \<Rightarrow> bool" where
  "item_repeats m ty i it \<longleftrightarrow> ro_Type it = ty \<and> ro_ID it = i
     \<and> (if ty = ''message'' then ro_Content it = rm_parts m
        else if ty = ''function_call'' then ro_Arguments it = or_empty_object (rm_args m)
        else ro_Summary it = summaries (rm_summary m))"

definition resp_item_event :: "rmon \<Rightarrow> string \<Rightarrow> ResponsesStreamEvent \<Rightarrow> rmon option" where
  "resp_item_event m ty e =
     (let t = re_Type e in
      if ty = ''message'' then
        (if re_ContentIndex e \<noteq> int (length (rm_parts m)) then None
         else case rm_part m of
           None \<Rightarrow> (if t = ''response.content_part.added'' then Some (m\<lparr>rm_part := Some ''''\<rparr>) else None)
         | Some x \<Rightarrow>
             (if t = ''response.output_text.delta'' then Some (m\<lparr>rm_part := Some (x @ re_Delta e)\<rparr>)
              else if t = ''response.output_text.done'' then (if re_Text e = x then Some m else None)
              else if t = ''response.content_part.done'' \<and> re_Part e = Some (output_text x)
                then Some (m\<lparr>rm_part := None, rm_parts := rm_parts m @ [output_text x]\<rparr>)
              else None))
      else if ty = ''function_call'' then
        (if t = ''response.function_call_arguments.delta'' then Some (m\<lparr>rm_args := rm_args m @ re_Delta e\<rparr>)
         else if t = ''response.function_call_arguments.done'' \<and> re_Arguments e = or_empty_object (rm_args m) then Some m
         else None)
      else
        (if t = ''response.reasoning_summary_text.delta'' then Some (m\<lparr>rm_summary := rm_summary m @ re_Delta e\<rparr>)
         else if t = ''response.reasoning_summary_text.done'' \<and> re_Text e = rm_summary m then Some m
         else None))"

definition resp_mon :: "rmon \<Rightarrow> ResponsesStreamEvent \<Rightarrow> rmon option" where
  "resp_mon m0 e =
     (if rm_done m0 \<or> re_SequenceNumber e \<noteq> rm_seq m0 then None
      else
        (let m = m0\<lparr>rm_seq := rm_seq m0 + 1\<rparr>; t = re_Type e in
         if t = ''response.created'' then (if rm_created m then None else Some (m\<lparr>rm_created := True\<rparr>))
         else if \<not> rm_created m then None
         else if t = ''response.completed'' \<or> t = ''response.incomplete'' then
           (case re_Response e of
              None \<Rightarrow> None
            | Some r \<Rightarrow> (if rm_item m = None \<and> rr_Output r = rm_outputs m
                 \<and> rr_Status r = (if t = ''response.incomplete'' then ''incomplete'' else ''completed'')
                then Some (m\<lparr>rm_done := True\<rparr>) else None))
         else if re_OutputIndex e \<noteq> rm_next m then None
         else if t = ''response.output_item.added'' then
           (case re_Item e of
              None \<Rightarrow> None
            | Some it \<Rightarrow> (if rm_item m = None then Some (m\<lparr>rm_item := Some (ro_Type it, ro_ID it)\<rparr>) else None))
         else case rm_item m of
           None \<Rightarrow> None
         | Some (ty, i) \<Rightarrow>
             (if t = ''response.output_item.done'' then
                (case re_Item e of
                   None \<Rightarrow> None
                 | Some it \<Rightarrow>
                     (if item_repeats m ty i it
                      then Some (m\<lparr>rm_item := None, rm_next := rm_next m + 1, rm_part := None, rm_parts := [],
                             rm_args := '''', rm_summary := '''', rm_outputs := rm_outputs m @ [it]\<rparr>)
                      else None))
              else if re_ItemID e \<noteq> i then None
              else resp_item_event m ty e)))"

section \<open>Handlers follow the protocol\<close>

definition item_ok :: "AnthropicEventToResponsesState \<Rightarrow> bool" where
  "item_ok s \<longleftrightarrow> as_CurrentItemType s \<in> {'''', ''message'', ''function_call'', ''reasoning''}
     \<and> (as_CurrentItemType s \<noteq> ''message'' \<longrightarrow> as_CurrentContent s = [])
     \<and> (as_CurrentItemType s = ''message'' \<longrightarrow> as_ContentIndex s = int (length (as_CurrentContent s)))
     \<and> (as_CurrentItemType s \<noteq> ''function_call'' \<longrightarrow> as_CurrentArgs s = '''' \<and> \<not> as_InitialArgsPending s)
     \<and> (as_CurrentItemType s \<noteq> ''reasoning'' \<longrightarrow> as_CurrentSummary s = '''')"

text \<open>The state of the monitor that corresponds to a running stream; \<open>b\<close> tells whether a text part is
  open.\<close>

definition mirror :: "bool \<Rightarrow> AnthropicEventToResponsesState \<Rightarrow> rmon" where
  "mirror b s = \<lparr>rm_created = True, rm_done = False, rm_seq = as_SequenceNumber s, rm_next = as_OutputIndex s,
     rm_item = (if as_CurrentItemType s = '''' then None else Some (as_CurrentItemType s, as_CurrentItemID s)),
     rm_part = (if b then Some (as_TextAccum s) else None), rm_parts = as_CurrentContent s,
     rm_args = (if as_InitialArgsPending s then '''' else as_CurrentArgs s), rm_summary = as_CurrentSummary s,
     rm_outputs = as_Outputs s\<rparr>"

definition sends :: "bool \<Rightarrow> AnthropicEventToResponsesState \<Rightarrow> a2r \<Rightarrow> bool \<Rightarrow> bool" where
  "sends b s r b' \<longleftrightarrow> item_ok (fst r) \<and> accepts resp_mon (mirror b s) (snd r) = Some (mirror b' (fst r))
     \<and> as_CreatedSent (fst r) = as_CreatedSent s \<and> as_CompletedSent (fst r) = as_CompletedSent s"

lemma sends_none: "item_ok s \<Longrightarrow> sends b s (s, []) b"
  by (simp add: sends_def)

lemma sends_trans: "sends b s (s1, e1) b1 \<Longrightarrow> sends b1 s1 (s2, e2) b2 \<Longrightarrow> sends b s (s2, e1 @ e2) b2"
  by (auto simp: sends_def)

lemma sends_item_ok: "sends b s (s1, e1) b1 \<Longrightarrow> item_ok s1"
  by (simp add: sends_def)

lemma mirror_seq:
  "mirror b (s\<lparr>as_SequenceNumber := q\<rparr>) = (mirror b s)\<lparr>rm_seq := q\<rparr>"
  "item_ok (s\<lparr>as_SequenceNumber := q\<rparr>) = item_ok s"
  by (simp_all add: mirror_def item_ok_def)

lemmas a2r_event_simps = makeResponsesEvent_def zero_responses_event_def resp_mon_def resp_item_event_def mirror_def
  Let_def

lemma sends_flush:
  assumes "item_ok s" "flushAnthropicInitialToolArguments s = (s', evs)"
  shows "sends b s (s', evs) b" "\<not> as_InitialArgsPending s'" "as_CurrentItemType s' = as_CurrentItemType s"
    "as_CurrentArgs s' = as_CurrentArgs s"
  using assms
  by (auto simp: flushAnthropicInitialToolArguments_def sends_def item_ok_def a2r_event_simps split: if_splits)

lemma closed_item_repeats:
  assumes "item_ok s" "as_CurrentItemType s \<noteq> ''''" "\<not> as_InitialArgsPending s"
  shows "item_repeats ((mirror b s)\<lparr>rm_seq := q\<rparr>) (as_CurrentItemType s) (as_CurrentItemID s) (closed_item lib s)"
  using assms
  by (auto simp: item_repeats_def item_ok_def closed_item_def mirror_def zero_output_def summaries_def
      or_empty_object_def Let_def)

lemma sends_close:
  assumes "item_ok s" "closeCurrentResponsesItem lib s = (s', evs)"
  shows "as_CurrentItemType s' = ''''"
    and "as_CurrentItemType s \<noteq> '''' \<or> \<not> b \<Longrightarrow> sends b s (s', evs) False"
proof -
  show "as_CurrentItemType s' = ''''"
    using assms by (auto simp: closeCurrentResponsesItem_def makeResponsesEvent_def Let_def split: prod.splits if_splits)
  assume open_or: "as_CurrentItemType s \<noteq> '''' \<or> \<not> b"
  show "sends b s (s', evs) False"
  proof (cases "as_CurrentItemType s = ''''")
    case True
    then have "\<not> b" using open_or by simp
    with True assms sends_none [of s False] show ?thesis by (simp add: closeCurrentResponsesItem_def)
  next
    case False
    obtain s1 e1 where fl: "flushAnthropicInitialToolArguments s = (s1, e1)" by force
    note f = sends_flush [OF assms(1) fl]
    have rep: "item_repeats ((mirror b s1)\<lparr>rm_seq := q\<rparr>) (as_CurrentItemType s1) (as_CurrentItemID s1) (closed_item lib s1)"
      for q using closed_item_repeats [OF sends_item_ok [OF f(1)] _ f(2)] f(3) False by simp
    define s2 where "s2 = s1\<lparr>as_Outputs := as_Outputs s1 @ [closed_item lib s1], as_CurrentItemType := '''',
      as_CurrentItemID := '''', as_CurrentCallID := '''', as_CurrentName := '''', as_CurrentContent := [],
      as_CurrentArgs := '''', as_InitialArgsPending := False, as_CurrentSummary := '''', as_CurrentThinking := zero_block,
      as_TextAccum := '''', as_OutputIndex := as_OutputIndex s1 + 1, as_ContentIndex := 0,
      as_SequenceNumber := as_SequenceNumber s1 + 1\<rparr>"
    define e where "e = zero_responses_event\<lparr>re_OutputIndex := as_OutputIndex s1,
      re_Item := Some (closed_item lib s1), re_Type := ''response.output_item.done'', re_SequenceNumber := as_SequenceNumber s1\<rparr>"
    have "resp_mon (mirror b s1) e = Some (mirror False s2)"
      using rep [of "as_SequenceNumber s1 + 1"] f(3) False
      by (simp add: resp_mon_def e_def s2_def mirror_def zero_responses_event_def)
    then have "sends b s1 (s2, [e]) False" by (simp add: sends_def item_ok_def s2_def)
    from sends_trans [OF f(1) this] show ?thesis
      using assms(2) False fl by (simp add: closeCurrentResponsesItem_def makeResponsesEvent_def Let_def s2_def e_def)
  qed
qed

text \<open>What a thinking delta does to the state, whether or not the block is kept for the envelope.\<close>

lemma thinking_delta_state:
  assumes "item_ok s" "ae_Delta evt = Some d" "ad_Type d = ''thinking_delta''" "ad_Thinking d \<noteq> ''''"
    "as_CurrentItemType s = ''reasoning''" "anthToResHandleContentBlockDelta evt s = (s', evs)"
  obtains u where "mirror b u = (mirror b s)\<lparr>rm_summary := as_CurrentSummary s @ ad_Thinking d\<rparr>" "item_ok u"
    "as_CurrentItemType u = as_CurrentItemType s" "as_CurrentItemID u = as_CurrentItemID s"
    "as_OutputIndex u = as_OutputIndex s" "as_SequenceNumber u = as_SequenceNumber s"
    "as_CreatedSent u = as_CreatedSent s" "as_CompletedSent u = as_CompletedSent s"
    "(s', evs) = (fst (makeResponsesEvent u ''response.reasoning_summary_text.delta''
        (zero_responses_event\<lparr>re_OutputIndex := as_OutputIndex u, re_SummaryIndex := 0, re_Delta := ad_Thinking d,
           re_ItemID := as_CurrentItemID u\<rparr>)),
      [snd (makeResponsesEvent u ''response.reasoning_summary_text.delta''
        (zero_responses_event\<lparr>re_OutputIndex := as_OutputIndex u, re_SummaryIndex := 0, re_Delta := ad_Thinking d,
           re_ItemID := as_CurrentItemID u\<rparr>))])"
proof -
  let ?s = "s\<lparr>as_CurrentSummary := as_CurrentSummary s @ ad_Thinking d\<rparr>"
  let ?fits = "length (cb_Thinking (as_CurrentThinking s)) + length (ad_Thinking d) \<le> maxAnthropicThinkingEnvelope"
  define u where "u = (if as_PreserveThinkingSignatures s \<and> ?fits
      then ?s\<lparr>as_CurrentThinking := (as_CurrentThinking s)\<lparr>cb_Thinking := cb_Thinking (as_CurrentThinking s) @ ad_Thinking d\<rparr>\<rparr>
      else if as_PreserveThinkingSignatures s then ?s\<lparr>as_ThinkingEnvelopeOverflow := True\<rparr> else ?s)"
  have fields: "mirror b u = mirror b ?s" "item_ok u = item_ok ?s" "as_CurrentItemType u = as_CurrentItemType s"
    "as_CurrentItemID u = as_CurrentItemID s" "as_OutputIndex u = as_OutputIndex s" "as_SequenceNumber u = as_SequenceNumber s"
    "as_CreatedSent u = as_CreatedSent s" "as_CompletedSent u = as_CompletedSent s"
    by (simp_all add: u_def mirror_def item_ok_def)
  have res: "(s', evs) = (fst (makeResponsesEvent u ''response.reasoning_summary_text.delta''
        (zero_responses_event\<lparr>re_OutputIndex := as_OutputIndex u, re_SummaryIndex := 0, re_Delta := ad_Thinking d,
           re_ItemID := as_CurrentItemID u\<rparr>)),
      [snd (makeResponsesEvent u ''response.reasoning_summary_text.delta''
        (zero_responses_event\<lparr>re_OutputIndex := as_OutputIndex u, re_SummaryIndex := 0, re_Delta := ad_Thinking d,
           re_ItemID := as_CurrentItemID u\<rparr>))])"
    unfolding assms(6) [symmetric]
    by (simp add: anthToResHandleContentBlockDelta_def assms(2-4) Let_def split_def u_def)
  have ok: "item_ok u" using assms(1,5) fields(2) by (simp add: item_ok_def)
  have mir: "mirror b u = (mirror b s)\<lparr>rm_summary := as_CurrentSummary s @ ad_Thinking d\<rparr>"
    unfolding fields(1) by (simp add: mirror_def)
  show thesis by (rule that [OF mir ok fields(3-8) res])
qed

lemma sends_delta:
  assumes "item_ok s" "ae_Delta evt = Some d" "b \<longleftrightarrow> as_CurrentItemType s = ''message''"
    and "ad_Type d = ''text_delta'' \<Longrightarrow> as_CurrentItemType s = ''message''"
    and "ad_Type d = ''thinking_delta'' \<Longrightarrow> as_CurrentItemType s = ''reasoning''"
    and "ad_Type d = ''input_json_delta'' \<Longrightarrow> as_CurrentItemType s = ''function_call''"
    and "anthToResHandleContentBlockDelta evt s = (s', evs)"
  shows "sends b s (s', evs) b" "as_CurrentItemType s' = as_CurrentItemType s"
proof -
  consider "ad_Type d = ''text_delta''" | "ad_Type d = ''thinking_delta''" | "ad_Type d = ''input_json_delta''"
    | "ad_Type d \<notin> {''text_delta'', ''thinking_delta'', ''input_json_delta''}" by auto
  then have "sends b s (s', evs) b \<and> as_CurrentItemType s' = as_CurrentItemType s"
  proof cases
    case 1
    then show ?thesis using assms
      by (auto simp: anthToResHandleContentBlockDelta_def sends_def item_ok_def a2r_event_simps split: if_splits)
  next
    case 2
    show ?thesis
    proof (cases "ad_Thinking d = ''''")
      case True
      then show ?thesis using 2 assms sends_none by (simp add: anthToResHandleContentBlockDelta_def)
    next
      case False
      obtain u where u: "mirror b u = (mirror b s)\<lparr>rm_summary := as_CurrentSummary s @ ad_Thinking d\<rparr>" "item_ok u"
        "as_CurrentItemType u = as_CurrentItemType s" "as_CurrentItemID u = as_CurrentItemID s"
        "as_OutputIndex u = as_OutputIndex s" "as_SequenceNumber u = as_SequenceNumber s"
        "as_CreatedSent u = as_CreatedSent s" "as_CompletedSent u = as_CompletedSent s"
        "(s', evs) = (fst (makeResponsesEvent u ''response.reasoning_summary_text.delta''
            (zero_responses_event\<lparr>re_OutputIndex := as_OutputIndex u, re_SummaryIndex := 0, re_Delta := ad_Thinking d,
               re_ItemID := as_CurrentItemID u\<rparr>)),
          [snd (makeResponsesEvent u ''response.reasoning_summary_text.delta''
            (zero_responses_event\<lparr>re_OutputIndex := as_OutputIndex u, re_SummaryIndex := 0, re_Delta := ad_Thinking d,
               re_ItemID := as_CurrentItemID u\<rparr>))])"
        using thinking_delta_state [OF assms(1,2) 2 False assms(5) [OF 2] assms(7)] by metis
      have s': "mirror b s' = (mirror b s)\<lparr>rm_summary := as_CurrentSummary s @ ad_Thinking d, rm_seq := as_SequenceNumber s + 1\<rparr>"
        using u(1,6,9) by (simp add: makeResponsesEvent_def mirror_seq)
      have "accepts resp_mon (mirror b s) evs = Some (mirror b s')"
        unfolding s' using u(4-6,9) assms(5) [OF 2]
        by (simp add: makeResponsesEvent_def zero_responses_event_def resp_mon_def resp_item_event_def mirror_def)
      with u show ?thesis by (simp add: sends_def makeResponsesEvent_def mirror_seq)
    qed
  next
    case 3
    then show ?thesis using assms
      by (auto simp: anthToResHandleContentBlockDelta_def sends_def item_ok_def a2r_event_simps split: if_splits)
  next
    case 4
    then have "evs = [] \<and> (s' = s \<or> (\<exists>x. s' = s\<lparr>as_CurrentThinking := x\<rparr>) \<or> s' = s\<lparr>as_ThinkingEnvelopeOverflow := True\<rparr>)"
      using assms(2,7) by (auto simp: anthToResHandleContentBlockDelta_def Let_def split: if_splits)
    moreover have "item_ok (s\<lparr>as_CurrentThinking := x\<rparr>) = item_ok s" "item_ok (s\<lparr>as_ThinkingEnvelopeOverflow := y\<rparr>) = item_ok s"
      "mirror b (s\<lparr>as_CurrentThinking := x\<rparr>) = mirror b s" "mirror b (s\<lparr>as_ThinkingEnvelopeOverflow := y\<rparr>) = mirror b s" for x y
      by (simp_all add: item_ok_def mirror_def)
    ultimately show ?thesis using assms(1) by (elim conjE disjE exE) (simp_all add: sends_def)
  qed
  then show "sends b s (s', evs) b" "as_CurrentItemType s' = as_CurrentItemType s" by auto
qed

definition item_type :: "string \<Rightarrow> string" where
  "item_type k = (if k = ''text'' then ''message'' else if k = ''tool_use'' then ''function_call'' else ''reasoning'')"

lemma sends_open_message:
  assumes "item_ok s" "as_CurrentItemType s \<in> {'''', ''message''}" "open_message_item itemID s = (s', evs)"
  shows "sends False s (s', evs) False" "as_CurrentItemType s' = ''message''"
  using assms
  by (auto simp: open_message_item_def sends_def item_ok_def a2r_event_simps zero_output_def split: if_splits)

lemma sends_part_added:
  assumes "item_ok s" "as_CurrentItemType s = ''message''"
    "makeResponsesEvent s ''response.content_part.added'' (zero_responses_event\<lparr>re_OutputIndex := as_OutputIndex s,
       re_ContentIndex := as_ContentIndex s, re_ItemID := as_CurrentItemID s, re_Part := Some (output_text '''')\<rparr>) = (s', e)"
  shows "sends False s (s'\<lparr>as_TextAccum := ''''\<rparr>, [e]) True" "as_CurrentItemType s' = ''message''"
proof -
  have s': "s' = s\<lparr>as_SequenceNumber := as_SequenceNumber s + 1\<rparr>"
    and e: "e = zero_responses_event\<lparr>re_OutputIndex := as_OutputIndex s, re_ContentIndex := as_ContentIndex s,
      re_ItemID := as_CurrentItemID s, re_Part := Some (output_text ''''), re_Type := ''response.content_part.added'',
      re_SequenceNumber := as_SequenceNumber s\<rparr>"
    using assms(3) by (auto simp: makeResponsesEvent_def)
  have idx: "as_ContentIndex s = int (length (as_CurrentContent s))" using assms(1,2) by (simp add: item_ok_def)
  have "resp_mon (mirror False s) e = Some ((mirror False s)\<lparr>rm_part := Some '''', rm_seq := as_SequenceNumber s + 1\<rparr>)"
    using assms(2) idx by (simp add: e resp_mon_def resp_item_event_def mirror_def zero_responses_event_def)
  moreover have "mirror True (s'\<lparr>as_TextAccum := ''''\<rparr>) = (mirror False s)\<lparr>rm_part := Some '''', rm_seq := as_SequenceNumber s + 1\<rparr>"
    by (simp add: s' mirror_def)
  moreover have "item_ok (s'\<lparr>as_TextAccum := ''''\<rparr>)" using assms(1) by (simp add: s' item_ok_def)
  ultimately show "sends False s (s'\<lparr>as_TextAccum := ''''\<rparr>, [e]) True" by (simp add: sends_def s')
  show "as_CurrentItemType s' = ''message''" using assms(2) by (simp add: s')
qed

lemma sends_item_added:
  assumes "item_ok s" "as_CurrentItemType s = ''''" "item_ok s1" "mirror False s1 = (mirror False s)\<lparr>rm_item := Some (t, i)\<rparr>"
    "ro_Type item = t" "ro_ID item = i" "as_OutputIndex s1 = as_OutputIndex s" "as_SequenceNumber s1 = as_SequenceNumber s"
    "as_CreatedSent s1 = as_CreatedSent s" "as_CompletedSent s1 = as_CompletedSent s"
    "makeResponsesEvent s1 ''response.output_item.added'' (zero_responses_event\<lparr>re_OutputIndex := as_OutputIndex s1,
       re_Item := Some item\<rparr>) = (s', e)"
  shows "sends False s (s', [e]) False" "as_CurrentItemType s' = as_CurrentItemType s1"
proof -
  have s': "s' = s1\<lparr>as_SequenceNumber := as_SequenceNumber s + 1\<rparr>"
    and e: "e = zero_responses_event\<lparr>re_OutputIndex := as_OutputIndex s, re_Item := Some item,
      re_Type := ''response.output_item.added'', re_SequenceNumber := as_SequenceNumber s\<rparr>"
    using assms(7,8,11) by (auto simp: makeResponsesEvent_def)
  have "resp_mon (mirror False s) e = Some ((mirror False s)\<lparr>rm_item := Some (t, i), rm_seq := as_SequenceNumber s + 1\<rparr>)"
    using assms(2,5,6) by (simp add: e resp_mon_def mirror_def zero_responses_event_def)
  then show "sends False s (s', [e]) False"
    using assms(3,4,9,10) by (simp add: sends_def s' mirror_seq)
  show "as_CurrentItemType s' = as_CurrentItemType s1" by (simp add: s')
qed

lemma sends_start_text:
  assumes "item_ok s" "as_CurrentItemType s \<in> {'''', ''message''}" "ae_ContentBlock evt = Some blk" "cb_Type blk = ''text''"
    "anthToResHandleContentBlockStart lib itemID evt s = (s', evs)"
  shows "sends False s (s', evs) True \<and> as_CurrentItemType s' = ''message''"
proof -
  obtain s1 e1 where o: "open_message_item itemID s = (s1, e1)" by force
  note o1 = sends_open_message [OF assms(1,2) o]
  obtain s2 e2 where p: "makeResponsesEvent s1 ''response.content_part.added'' (zero_responses_event\<lparr>re_OutputIndex := as_OutputIndex s1,
       re_ContentIndex := as_ContentIndex s1, re_ItemID := as_CurrentItemID s1, re_Part := Some (output_text '''')\<rparr>) = (s2, e2)" by force
  note p1 = sends_part_added [OF sends_item_ok [OF o1(1)] o1(2) p]
  let ?s2 = "s2\<lparr>as_TextAccum := ''''\<rparr>"
  obtain s3 e3 where d: "(if cb_Text blk \<noteq> '''' then anthToResHandleContentBlockDelta (text_delta (cb_Text blk)) ?s2
    else (?s2, [])) = (s3, e3)" by force
  have "sends True ?s2 (s3, e3) True \<and> as_CurrentItemType s3 = ''message''"
  proof (cases "cb_Text blk = ''''")
    case True
    then show ?thesis using d p1 sends_none sends_item_ok by auto
  next
    case False
    then show ?thesis
      using sends_delta [of ?s2 "text_delta (cb_Text blk)" _ True s3 e3] d p1 sends_item_ok [OF p1(1)]
      by (auto simp: text_delta_def zero_delta_def zero_anthropic_event_def)
  qed
  with sends_trans [OF o1(1) sends_trans [OF p1(1)]] show ?thesis
    using assms(3-5) o p d by (auto simp: anthToResHandleContentBlockStart_def Let_def)
qed

lemma sends_start_thinking:
  assumes "item_ok s" "as_CurrentItemType s \<in> {'''', ''message''}" "ae_ContentBlock evt = Some blk"
    "cb_Type blk = ''thinking'' \<or> cb_Type blk = ''redacted_thinking''"
    "anthToResHandleContentBlockStart lib itemID evt s = (s', evs)"
  shows "sends False s (s', evs) False \<and> as_CurrentItemType s' = ''reasoning''"
proof -
  obtain s0 e0 where c: "closeCurrentResponsesItem lib s = (s0, e0)" by force
  note c0 = sends_close(1) [OF assms(1) c] sends_close(2) [OF assms(1) c, of False]
  let ?s1 = "s0\<lparr>as_ThinkingEnvelopeOverflow := False, as_CurrentThinking := blk\<lparr>cb_Thinking := ''''\<rparr>, as_CurrentItemID := itemID,
    as_CurrentItemType := ''reasoning'', as_ContentIndex := 0\<rparr>"
  let ?item = "zero_output\<lparr>ro_Type := ''reasoning'', ro_ID := itemID\<rparr>"
  obtain s2 e2 where a: "makeResponsesEvent ?s1 ''response.output_item.added'' (zero_responses_event\<lparr>re_OutputIndex := as_OutputIndex ?s1,
       re_Item := Some ?item\<rparr>) = (s2, e2)" by force
  have ok0: "item_ok s0" using c0 sends_item_ok by auto
  have "item_ok ?s1" "mirror False ?s1 = (mirror False s0)\<lparr>rm_item := Some (''reasoning'', itemID)\<rparr>"
    using ok0 c0(1) by (auto simp: item_ok_def mirror_def)
  from sends_item_added [OF ok0 c0(1) this, of ?item s2 e2] a
  have a2: "sends False s0 (s2, [e2]) False" "as_CurrentItemType s2 = ''reasoning''" by (simp_all add: zero_output_def)
  obtain s3 e3 where d: "(if cb_Thinking blk \<noteq> '''' then anthToResHandleContentBlockDelta (thinking_delta (cb_Thinking blk)) s2
    else (s2, [])) = (s3, e3)" by force
  have "sends False s2 (s3, e3) False \<and> as_CurrentItemType s3 = ''reasoning''"
  proof (cases "cb_Thinking blk = ''''")
    case True
    then show ?thesis using d a2 sends_none sends_item_ok by auto
  next
    case False
    then show ?thesis
      using sends_delta [of s2 "thinking_delta (cb_Thinking blk)" _ False s3 e3] d a2 sends_item_ok [OF a2(1)]
      by (auto simp: thinking_delta_def zero_delta_def zero_anthropic_event_def)
  qed
  with sends_trans [OF c0(2) sends_trans [OF a2(1)]] show ?thesis
    using assms(3-5) c a d by (auto simp: anthToResHandleContentBlockStart_def Let_def)
qed

lemma sends_start_tool:
  assumes "item_ok s" "as_CurrentItemType s \<in> {'''', ''message''}" "ae_ContentBlock evt = Some blk" "cb_Type blk = ''tool_use''"
    "anthToResHandleContentBlockStart lib itemID evt s = (s', evs)"
  shows "sends False s (s', evs) False \<and> as_CurrentItemType s' = ''function_call''"
proof -
  obtain s0 e0 where c: "closeCurrentResponsesItem lib s = (s0, e0)" by force
  note c0 = sends_close(1) [OF assms(1) c] sends_close(2) [OF assms(1) c, of False]
  let ?s1 = "s0\<lparr>as_CurrentItemID := itemID, as_CurrentItemType := ''function_call'',
    as_CurrentCallID := toResponsesCallID (cb_ID blk), as_CurrentName := cb_Name blk, as_CurrentArgs := cb_Input blk,
    as_InitialArgsPending := True\<rparr>"
  let ?item = "zero_output\<lparr>ro_Type := ''function_call'', ro_ID := itemID, ro_CallID := toResponsesCallID (cb_ID blk),
    ro_Name := cb_Name blk, ro_Status := ''in_progress''\<rparr>"
  obtain s2 e2 where a: "makeResponsesEvent ?s1 ''response.output_item.added'' (zero_responses_event\<lparr>re_OutputIndex := as_OutputIndex ?s1,
       re_Item := Some ?item\<rparr>) = (s2, e2)" by force
  have ok0: "item_ok s0" using c0 sends_item_ok by auto
  have "item_ok ?s1" "mirror False ?s1 = (mirror False s0)\<lparr>rm_item := Some (''function_call'', itemID)\<rparr>"
    using ok0 c0(1) by (auto simp: item_ok_def mirror_def)
  from sends_item_added [OF ok0 c0(1) this, of ?item s2 e2] a
  have a2: "sends False s0 (s2, [e2]) False" "as_CurrentItemType s2 = ''function_call''" by (simp_all add: zero_output_def)
  with sends_trans [OF c0(2) a2(1)] show ?thesis
    using assms(3-5) c a by (auto simp: anthToResHandleContentBlockStart_def Let_def)
qed

lemma sends_stop_reasoning:
  assumes "item_ok s" "as_CurrentItemType s = ''reasoning''" "anthToResHandleContentBlockStop lib s = (s', evs)"
  shows "sends False s (s', evs) False \<and> as_CurrentItemType s' = ''''"
proof -
  let ?s1 = "s\<lparr>as_SequenceNumber := as_SequenceNumber s + 1\<rparr>"
  let ?e = "zero_responses_event\<lparr>re_OutputIndex := as_OutputIndex s, re_SummaryIndex := 0, re_ItemID := as_CurrentItemID s,
    re_Text := as_CurrentSummary s, re_Type := ''response.reasoning_summary_text.done'', re_SequenceNumber := as_SequenceNumber s\<rparr>"
  have "resp_mon (mirror False s) ?e = Some (mirror False ?s1)"
    using assms(2) by (simp add: mirror_seq resp_mon_def zero_responses_event_def)
      (simp add: mirror_def resp_item_event_def)
  then have d: "sends False s (?s1, [?e]) False" using assms(1) by (simp add: sends_def mirror_seq)
  obtain s2 e2 where c: "closeCurrentResponsesItem lib ?s1 = (s2, e2)" by force
  note c2 = sends_close [OF sends_item_ok [OF d] c]
  from sends_trans [OF d c2(2)] c2(1) c assms(2,3) show ?thesis
    by (auto simp: anthToResHandleContentBlockStop_def makeResponsesEvent_def Let_def)
qed

lemma sends_stop_tool:
  assumes "item_ok s" "as_CurrentItemType s = ''function_call''" "anthToResHandleContentBlockStop lib s = (s', evs)"
  shows "sends False s (s', evs) False \<and> as_CurrentItemType s' = ''''"
proof -
  obtain s1 e1 where fl: "flushAnthropicInitialToolArguments s = (s1, e1)" by force
  note f = sends_flush [OF assms(1) fl]
  let ?s2 = "s1\<lparr>as_SequenceNumber := as_SequenceNumber s1 + 1\<rparr>"
  let ?e = "zero_responses_event\<lparr>re_OutputIndex := as_OutputIndex s1, re_ItemID := as_CurrentItemID s1,
    re_CallID := as_CurrentCallID s1, re_Name := as_CurrentName s1,
    re_Arguments := or_empty_object (as_CurrentArgs s), re_Type := ''response.function_call_arguments.done'',
    re_SequenceNumber := as_SequenceNumber s1\<rparr>"
  have "resp_mon (mirror False s1) ?e = Some (mirror False ?s2)"
    using f(2-4) assms(2)
    by (simp add: mirror_seq resp_mon_def zero_responses_event_def) (simp add: mirror_def resp_item_event_def)
  then have d: "sends False s1 (?s2, [?e]) False" using sends_item_ok [OF f(1)] by (simp add: sends_def mirror_seq)
  obtain s3 e3 where c: "closeCurrentResponsesItem lib ?s2 = (s3, e3)" by force
  note c2 = sends_close [OF sends_item_ok [OF d] c]
  from sends_trans [OF f(1) sends_trans [OF d c2(2)]] c2(1) c fl assms(2,3) show ?thesis
    by (auto simp: anthToResHandleContentBlockStop_def makeResponsesEvent_def or_empty_object_def Let_def)
qed

lemma sends_stop_text:
  assumes "item_ok s" "as_CurrentItemType s = ''message''" "anthToResHandleContentBlockStop lib s = (s', evs)"
  shows "sends True s (s', evs) False \<and> as_CurrentItemType s' = ''message''"
proof -
  let ?t = "as_TextAccum s"
  have idx: "as_ContentIndex s = int (length (as_CurrentContent s))" using assms(1,2) by (simp add: item_ok_def)
  have s': "s' = s\<lparr>as_TextAccum := '''', as_CurrentContent := as_CurrentContent s @ [output_text ?t],
      as_SequenceNumber := as_SequenceNumber s + 2, as_ContentIndex := as_ContentIndex s + 1\<rparr>"
    and evs: "evs = [zero_responses_event\<lparr>re_OutputIndex := as_OutputIndex s, re_ContentIndex := as_ContentIndex s,
        re_ItemID := as_CurrentItemID s, re_Text := ?t, re_Type := ''response.output_text.done'',
        re_SequenceNumber := as_SequenceNumber s\<rparr>,
      zero_responses_event\<lparr>re_OutputIndex := as_OutputIndex s, re_ContentIndex := as_ContentIndex s,
        re_ItemID := as_CurrentItemID s, re_Part := Some (output_text ?t), re_Type := ''response.content_part.done'',
        re_SequenceNumber := as_SequenceNumber s + 1\<rparr>]"
    using assms(2,3) by (auto simp: anthToResHandleContentBlockStop_def makeResponsesEvent_def Let_def)
  have "accepts resp_mon (mirror True s) evs = Some ((mirror True s)\<lparr>rm_seq := as_SequenceNumber s + 2, rm_part := None,
      rm_parts := as_CurrentContent s @ [output_text ?t]\<rparr>)"
    using assms(2) idx by (simp add: evs resp_mon_def resp_item_event_def zero_responses_event_def mirror_def)
  moreover have "mirror False s' = (mirror True s)\<lparr>rm_seq := as_SequenceNumber s + 2, rm_part := None,
      rm_parts := as_CurrentContent s @ [output_text ?t]\<rparr>" by (simp add: s' mirror_def)
  moreover have "item_ok s'" using assms(1,2) idx by (simp add: s' item_ok_def)
  ultimately show ?thesis using assms(2) by (simp add: sends_def s')
qed

text \<open>The relation between the converter, its input and its output.\<close>

definition a2r_running :: "AnthropicEventToResponsesState \<Rightarrow> string option \<Rightarrow> bool" where
  "a2r_running s k \<longleftrightarrow> item_ok s \<and> as_CreatedSent s \<and> \<not> as_CompletedSent s
     \<and> (case k of None \<Rightarrow> as_CurrentItemType s \<in> {'''', ''message''} | Some k \<Rightarrow> as_CurrentItemType s = item_type k)"

definition a2r_rel :: "AnthropicEventToResponsesState \<Rightarrow> ain \<Rightarrow> rmon \<Rightarrow> bool" where
  "a2r_rel s i m \<longleftrightarrow>
     (if \<not> ai_started i then
        \<not> ai_stopped i \<and> ai_open i = None \<and> item_ok s \<and> as_CurrentItemType s = '''' \<and> \<not> as_CreatedSent s
        \<and> \<not> as_CompletedSent s \<and> m = (mirror False s)\<lparr>rm_created := False\<rparr>
      else if ai_stopped i then as_CreatedSent s \<and> as_CompletedSent s \<and> rm_done m
      else a2r_running s (ai_open i) \<and> m = mirror (ai_open i = Some ''text'') s
        \<and> (case ai_open i of None \<Rightarrow> True | Some k \<Rightarrow> k \<in> {''text'', ''thinking'', ''tool_use''}))"

lemma end_stream_accepted:
  assumes "item_ok s" "b \<longrightarrow> as_CurrentItemType s \<noteq> ''''" "end_stream lib s = (s', evs)"
  shows "\<exists>m. accepts resp_mon (mirror b s) evs = Some m \<and> rm_done m \<and> as_CompletedSent s'
    \<and> as_CreatedSent s' = as_CreatedSent s"
proof -
  obtain s1 e1 where c: "closeCurrentResponsesItem lib s = (s1, e1)" by force
  note c1 = sends_close(1) [OF assms(1) c] sends_close(2) [OF assms(1) c, of b]
  obtain status details where st: "anthropicResponsesStreamTerminalState (as_StopReason s1) = (status, details)" by force
  have stat: "status = ''incomplete'' \<or> status = ''completed''"
    using st by (auto simp: anthropicResponsesStreamTerminalState_def split: if_splits)
  obtain s2 e2 where d: "makeResponsesCompletedEvent s1 status details = (s2, e2)" by force
  have "resp_mon (mirror False s1) e2 = Some ((mirror False s1)\<lparr>rm_seq := as_SequenceNumber s1 + 1, rm_done := True\<rparr>)"
    using d c1(1) stat by (auto simp: makeResponsesCompletedEvent_def resp_mon_def mirror_def zero_responses_event_def
        zero_response_def)
  moreover have "accepts resp_mon (mirror b s) e1 = Some (mirror False s1)" "as_CreatedSent s1 = as_CreatedSent s"
    using c1(2) assms(2) by (auto simp: sends_def)
  moreover have "evs = e1 @ [e2]" "as_CompletedSent s'" "as_CreatedSent s' = as_CreatedSent s1"
    using assms(3) c st d by (auto simp: end_stream_def makeResponsesCompletedEvent_def Let_def)
  ultimately show ?thesis by (simp add: accepts_append)
qed

definition a2r_step :: "thinking_lib \<Rightarrow> string \<times> AnthropicStreamEvent \<Rightarrow> AnthropicEventToResponsesState \<Rightarrow> a2r" where
  "a2r_step lib ev s = AnthropicEventToResponsesEvents lib (fst ev) (snd ev) s"

lemma sends_start:
  assumes "a2r_running s None" "ae_ContentBlock evt = Some blk" "block_kind (cb_Type blk) = Some k"
    "anthToResHandleContentBlockStart lib itemID evt s = (s', evs)"
  shows "sends False s (s', evs) (k = ''text'')" "a2r_running s' (Some k)" "k \<in> {''text'', ''thinking'', ''tool_use''}"
proof -
  have ok: "item_ok s" "as_CurrentItemType s \<in> {'''', ''message''}" using assms(1) by (auto simp: a2r_running_def)
  consider "cb_Type blk = ''text''" "k = ''text''" | "cb_Type blk = ''thinking'' \<or> cb_Type blk = ''redacted_thinking''" "k = ''thinking''"
    | "cb_Type blk = ''tool_use''" "k = ''tool_use''" using assms(3) by (auto simp: block_kind_def split: if_splits)
  then have "sends False s (s', evs) (k = ''text'') \<and> as_CurrentItemType s' = item_type k \<and> k \<in> {''text'', ''thinking'', ''tool_use''}"
  proof cases
    case 1
    then show ?thesis using sends_start_text [OF ok assms(2) _ assms(4)] by (simp add: item_type_def)
  next
    case 2
    then show ?thesis using sends_start_thinking [OF ok assms(2) _ assms(4)] by (simp add: item_type_def)
  next
    case 3
    then show ?thesis using sends_start_tool [OF ok assms(2) _ assms(4)] by (simp add: item_type_def)
  qed
  then show "sends False s (s', evs) (k = ''text'')" "a2r_running s' (Some k)" "k \<in> {''text'', ''thinking'', ''tool_use''}"
    using assms(1) by (auto simp: a2r_running_def sends_def)
qed

lemma sends_stop:
  assumes "a2r_running s (Some k)" "k \<in> {''text'', ''thinking'', ''tool_use''}" "anthToResHandleContentBlockStop lib s = (s', evs)"
  shows "sends (k = ''text'') s (s', evs) False" "a2r_running s' None"
proof -
  have "sends (k = ''text'') s (s', evs) False \<and> as_CurrentItemType s' \<in> {'''', ''message''}"
    using assms sends_stop_text [of s lib s' evs] sends_stop_reasoning [of s lib s' evs] sends_stop_tool [of s lib s' evs]
    by (auto simp: a2r_running_def item_type_def)
  then show "sends (k = ''text'') s (s', evs) False" "a2r_running s' None"
    using assms(1) by (auto simp: a2r_running_def sends_def)
qed

lemma sends_delta_running:
  assumes "a2r_running s (Some k)" "k \<in> {''text'', ''thinking'', ''tool_use''}" "ae_Delta evt = Some d" "delta_fits k d"
    "anthToResHandleContentBlockDelta evt s = (s', evs)"
  shows "sends (k = ''text'') s (s', evs) (k = ''text'')" "a2r_running s' (Some k)"
proof -
  have ty: "item_ok s" "as_CurrentItemType s = item_type k" using assms(1) by (auto simp: a2r_running_def)
  have "sends (k = ''text'') s (s', evs) (k = ''text'') \<and> as_CurrentItemType s' = as_CurrentItemType s"
    using sends_delta [OF ty(1) assms(3) _ _ _ _ assms(5), of "k = ''text''"] ty(2) assms(2,4)
    by (auto simp: item_type_def delta_fits_def)
  then show "sends (k = ''text'') s (s', evs) (k = ''text'')" "a2r_running s' (Some k)"
    using assms(1) by (auto simp: a2r_running_def sends_def)
qed

text \<open>The part of the state that the protocol depends on.\<close>

definition view where
  "view s = (as_SequenceNumber s, as_OutputIndex s, as_CurrentItemID s, as_CurrentItemType s, as_ContentIndex s,
     as_TextAccum s, as_CurrentContent s, as_CurrentArgs s, as_InitialArgsPending s, as_CurrentSummary s, as_Outputs s,
     as_CreatedSent s, as_CompletedSent s)"

lemma view_cong:
  "view s = view t \<Longrightarrow> mirror b s = mirror b t" "view s = view t \<Longrightarrow> item_ok s = item_ok t"
  "view s = view t \<Longrightarrow> a2r_running s k = a2r_running t k"
  by (simp_all add: view_def mirror_def item_ok_def a2r_running_def split: option.splits)

lemma message_start_result:
  assumes "anthToResHandleMessageStart evt s = (s', evs)" "\<not> as_CreatedSent s"
  shows "\<exists>t e. view t = view s \<and> s' = t\<lparr>as_CreatedSent := True, as_SequenceNumber := as_SequenceNumber s + 1\<rparr>
    \<and> evs = [e] \<and> re_Type e = ''response.created'' \<and> re_SequenceNumber e = as_SequenceNumber s"
proof (cases "ae_Message evt")
  case None
  then show ?thesis
    using assms by (intro exI [of _ s]) (auto simp: anthToResHandleMessageStart_def makeResponsesCreatedEvent_def zero_responses_event_def)
next
  case (Some m)
  let ?u = "ar_Usage m"
  let ?t = "s\<lparr>as_PreserveThinkingSignatures := as_PreserveThinkingSignatures s \<or> IsAdaptiveThinkingModel (ar_Model m),
    as_ResponseID := ar_ID m, as_Model := (if as_Model s = '''' then ar_Model m else as_Model s),
    as_InputTokens := (if 0 < au_InputTokens ?u then au_InputTokens ?u else as_InputTokens s),
    as_CacheReadInputTokens := (if 0 < au_CacheReadInputTokens ?u then au_CacheReadInputTokens ?u else as_CacheReadInputTokens s),
    as_CacheCreationInputTokens := (if 0 < au_CacheCreationInputTokens ?u then au_CacheCreationInputTokens ?u
      else as_CacheCreationInputTokens s)\<rparr>"
  have "view ?t = view s" by (simp add: view_def)
  moreover have "(s', evs) = (let (state', e) = makeResponsesCreatedEvent (?t\<lparr>as_CreatedSent := True\<rparr>) in (state', [e]))"
    unfolding assms(1) [symmetric] using assms(2) Some by (simp add: anthToResHandleMessageStart_def Let_def)
  then have "s' = ?t\<lparr>as_CreatedSent := True, as_SequenceNumber := as_SequenceNumber s + 1\<rparr>
      \<and> evs = [snd (makeResponsesCreatedEvent (?t\<lparr>as_CreatedSent := True\<rparr>))]"
    by (simp add: makeResponsesCreatedEvent_def)
  ultimately show ?thesis by (intro exI [of _ ?t]) (simp add: makeResponsesCreatedEvent_def zero_responses_event_def)
qed

lemma message_start_accepted:
  assumes "a2r_rel s i m" "\<not> ai_started i" "anthToResHandleMessageStart evt s = (s', evs)"
  shows "\<exists>m'. accepts resp_mon m evs = Some m' \<and> a2r_rel s' (i\<lparr>ai_started := True\<rparr>) m'"
proof -
  have init: "\<not> ai_stopped i" "ai_open i = None" "item_ok s" "as_CurrentItemType s = ''''" "\<not> as_CreatedSent s"
    "\<not> as_CompletedSent s" "m = (mirror False s)\<lparr>rm_created := False\<rparr>"
    using assms(1,2) by (auto simp: a2r_rel_def)
  obtain t e where t: "view t = view s" "s' = t\<lparr>as_CreatedSent := True, as_SequenceNumber := as_SequenceNumber s + 1\<rparr>"
    "evs = [e]" "re_Type e = ''response.created''" "re_SequenceNumber e = as_SequenceNumber s"
    using message_start_result [OF assms(3) init(5)] by blast
  have s': "mirror False s' = (mirror False s)\<lparr>rm_seq := as_SequenceNumber s + 1\<rparr>" "item_ok s' = item_ok s"
    "as_CurrentItemType s' = as_CurrentItemType s" "as_CreatedSent s'" "as_CompletedSent s' = as_CompletedSent s"
    using t(1) by (simp_all add: t(2) view_def mirror_def item_ok_def)
  have "accepts resp_mon m evs = Some (mirror False s')"
    unfolding s'(1) t(3) init(7) using t(4,5) by (simp add: resp_mon_def mirror_def)
  moreover have "a2r_rel s' (i\<lparr>ai_started := True\<rparr>) (mirror False s')"
    using init s' by (simp add: a2r_rel_def a2r_running_def)
  ultimately show ?thesis by blast
qed

lemma message_delta_quiet:
  "snd (anthToResHandleMessageDelta evt s) = []" "view (fst (anthToResHandleMessageDelta evt s)) = view s"
  by (simp_all add: anthToResHandleMessageDelta_def view_def Let_def split: option.split)

lemma a2r_step_translated:
  assumes "anth_in i ev = Some i'" "a2r_rel s i m"
  shows "\<exists>m'. accepts resp_mon m (snd (a2r_step lib ev s)) = Some m' \<and> a2r_rel (fst (a2r_step lib ev s)) i' m'"
proof -
  obtain itemID e where ev: "ev = (itemID, e)" by force
  obtain s' evs where step: "AnthropicEventToResponsesEvents lib itemID e s = (s', evs)" by force
  have live: "\<not> ai_stopped i" using assms(1) by (auto simp: anth_in_def Let_def)
  have goal: "\<exists>m'. accepts resp_mon m evs = Some m' \<and> a2r_rel s' i' m'"
  proof (cases "ae_Type e = ''message_start''")
    case True
    then have "\<not> ai_started i" "i' = i\<lparr>ai_started := True\<rparr>"
      using assms(1) live ev by (auto simp: anth_in_def Let_def split: if_splits)
    with message_start_accepted [OF assms(2)] step True show ?thesis by (simp add: AnthropicEventToResponsesEvents_def)
  next
    case False
    then have started: "ai_started i" using assms(1) live ev by (auto simp: anth_in_def Let_def split: if_splits)
    then have run: "a2r_running s (ai_open i)" "m = mirror (ai_open i = Some ''text'') s"
      "case ai_open i of None \<Rightarrow> True | Some k \<Rightarrow> k \<in> {''text'', ''thinking'', ''tool_use''}"
      using assms(2) live by (auto simp: a2r_rel_def)
    have relI: "\<exists>m'. accepts resp_mon m evs = Some m' \<and> a2r_rel s' i' m'"
      if "sends (ai_open i = Some ''text'') s (s', evs) (ai_open i' = Some ''text'')" "a2r_running s' (ai_open i')"
        "case ai_open i' of None \<Rightarrow> True | Some k \<Rightarrow> k \<in> {''text'', ''thinking'', ''tool_use''}" "ai_started i'" "\<not> ai_stopped i'"
      using that run(2) by (auto simp: sends_def a2r_rel_def)
    consider (bstart) blk k where "ae_Type e = ''content_block_start''" "ae_ContentBlock e = Some blk" "ai_open i = None"
        "block_kind (cb_Type blk) = Some k" "i' = i\<lparr>ai_open := Some k\<rparr>"
      | (delta) k d where "ae_Type e = ''content_block_delta''" "ai_open i = Some k" "ae_Delta e = Some d" "delta_fits k d" "i' = i"
      | (bstop) k where "ae_Type e = ''content_block_stop''" "ai_open i = Some k" "i' = i\<lparr>ai_open := None\<rparr>"
      | (mstop) "ae_Type e = ''message_stop''" "ai_open i = None" "i' = i\<lparr>ai_stopped := True\<rparr>"
      | (quiet) "ae_Type e \<notin> {''message_start'', ''content_block_start'', ''content_block_delta'', ''content_block_stop'', ''message_stop''}"
          "i' = i"
      using assms(1) live started False ev by (auto simp: anth_in_def Let_def split: if_splits option.splits)
    then show ?thesis
    proof cases
      case bstart
      then have "anthToResHandleContentBlockStart lib itemID e s = (s', evs)"
        using step by (simp add: AnthropicEventToResponsesEvents_def)
      from sends_start [OF _ bstart(2,4) this] run(1) bstart(3,5) started live show ?thesis by (intro relI) auto
    next
      case delta
      then have "anthToResHandleContentBlockDelta e s = (s', evs)"
        using step by (simp add: AnthropicEventToResponsesEvents_def)
      from sends_delta_running [OF _ _ delta(3,4) this] run(1,3) delta(2,5) started live show ?thesis by (intro relI) auto
    next
      case bstop
      then have "anthToResHandleContentBlockStop lib s = (s', evs)"
        using step by (simp add: AnthropicEventToResponsesEvents_def)
      from sends_stop [OF _ _ this] run(1,3) bstop(2,3) started live show ?thesis by (intro relI) auto
    next
      case mstop
      then have "end_stream lib s = (s', evs)"
        using step run(1) by (simp add: AnthropicEventToResponsesEvents_def anthToResHandleMessageStop_def a2r_running_def)
      from end_stream_accepted [OF _ _ this, of False] run mstop started show ?thesis
        by (auto simp: a2r_rel_def a2r_running_def)
    next
      case quiet
      have "evs = [] \<and> view s' = view s"
        using step quiet(1) message_delta_quiet [of e s]
        by (cases "ae_Type e = ''message_delta''") (simp_all add: AnthropicEventToResponsesEvents_def)
      with view_cong [of s' s] run quiet(2) started live show ?thesis by (auto simp: a2r_rel_def)
    qed
  qed
  with ev step show ?thesis by (simp add: a2r_step_def)
qed

interpretation a2r: translated_stream "a2r_step lib" anth_in resp_mon a2r_rel for lib
  by unfold_locales (rule a2r_step_translated)

lemma a2r_init: "a2r_rel (NewAnthropicEventToResponsesState now) ain_init rmon_init"
  by (simp add: a2r_rel_def ain_init_def item_ok_def mirror_def rmon_init_def NewAnthropicEventToResponsesState_def)


text \<open>A message with thinking, text and a tool call.\<close>

definition demo_stream :: "(string \<times> AnthropicStreamEvent) list" where
  "demo_stream =
     [(''i0'', zero_anthropic_event\<lparr>ae_Type := ''message_start''\<rparr>),
      (''i1'', block_start 0 (zero_block\<lparr>cb_Type := ''text''\<rparr>)),
      (''i2'', block_delta 0 (zero_delta\<lparr>ad_Type := ''text_delta'', ad_Text := ''Hi''\<rparr>)),
      (''i3'', block_stop 0),
      (''i4'', block_start 1 (zero_block\<lparr>cb_Type := ''tool_use'', cb_ID := ''toolu_1'', cb_Name := ''Bash'', cb_Input := ''{}''\<rparr>))]"


section \<open>Streams outside the protocol\<close>

text \<open>A block of a kind that the converter does not know, such as \<open>server_tool_use\<close>, after a text
  block: its start is ignored, but its end is taken for the end of another text part, which was never
  announced. The message gets an additional empty part, and a client that checks the protocol rejects
  the stream.\<close>

theorem unknown_block_adds_part:
  assumes "a2r_running s None" "as_CurrentItemType s = ''message''" "block_kind (cb_Type blk) = None"
    and "run_all (a2r_step lib) [(i, block_start n blk), (j, block_stop n)] s = (s', outs)"
  shows "as_CurrentContent s' = as_CurrentContent s @ [output_text (as_TextAccum s)]
    \<and> accepts resp_mon (mirror False s) (concat outs) = None"
proof -
  have kinds: "cb_Type blk \<noteq> ''thinking''" "cb_Type blk \<noteq> ''redacted_thinking''" "cb_Type blk \<noteq> ''text''" "cb_Type blk \<noteq> ''tool_use''"
    using assms(3) by (auto simp: block_kind_def split: if_splits)
  have idx: "as_ContentIndex s = int (length (as_CurrentContent s))"
    using assms(1,2) by (simp add: a2r_running_def item_ok_def)
  have start: "a2r_step lib (i, block_start n blk) s = (s, [])"
    using kinds by (simp add: a2r_step_def AnthropicEventToResponsesEvents_def anthToResHandleContentBlockStart_def
        block_start_def zero_anthropic_event_def)
  have stop: "a2r_step lib (j, block_stop n) s = anthToResHandleContentBlockStop lib s"
    by (simp add: a2r_step_def AnthropicEventToResponsesEvents_def block_stop_def zero_anthropic_event_def)
  show ?thesis
    using assms(2,4) idx start stop
    by (auto simp: anthToResHandleContentBlockStop_def makeResponsesEvent_def zero_responses_event_def resp_mon_def
        resp_item_event_def mirror_def Let_def)
qed

definition demo_open_message :: AnthropicEventToResponsesState where
  "demo_open_message = (NewAnthropicEventToResponsesState 0)\<lparr>as_CreatedSent := True, as_SequenceNumber := 1,
     as_CurrentItemType := ''message'', as_CurrentItemID := ''i1'', as_CurrentContent := [output_text ''Hi''], as_ContentIndex := 1\<rparr>"

theorem unknown_block_adds_part_witness:
  "as_CurrentContent (fst (run_all (a2r_step demo_lib)
     [(''i'', block_start 1 (zero_block\<lparr>cb_Type := ''server_tool_use''\<rparr>)), (''j'', block_stop 1)] demo_open_message)) =
   [output_text ''Hi'', output_text '''']"
proof -
  let ?r = "run_all (a2r_step demo_lib)
     [(''i'', block_start 1 (zero_block\<lparr>cb_Type := ''server_tool_use''\<rparr>)), (''j'', block_stop 1)] demo_open_message"
  have "a2r_running demo_open_message None" "as_CurrentItemType demo_open_message = ''message''"
    "as_CurrentContent demo_open_message = [output_text ''Hi'']" "as_TextAccum demo_open_message = ''''"
    by (simp_all add: demo_open_message_def a2r_running_def item_ok_def NewAnthropicEventToResponsesState_def)
  with unknown_block_adds_part [of demo_open_message "zero_block\<lparr>cb_Type := ''server_tool_use''\<rparr>" demo_lib "''i''" 1 "''j''"
      "fst ?r" "snd ?r"]
  show ?thesis by (simp add: block_kind_def zero_block_def)
qed

text \<open>When the upstream breaks off inside a text block, the synthetic end loses the text of that block:
  the final response lists the message with its finished parts only, although the deltas of the open
  part were sent, and it is reported as completed.\<close>

theorem finalize_drops_open_text:
  assumes "a2r_running s (Some ''text'')" "as_StopReason s = ''''"
  shows "\<exists>e r. last (snd (FinalizeAnthropicResponsesStream lib s)) = e \<and> re_Type e = ''response.completed''
    \<and> re_Response e = Some r \<and> rr_Output r = as_Outputs s @ [message_item (as_CurrentItemID s) (as_CurrentContent s)]"
proof -
  have run: "item_ok s" "as_CreatedSent s" "\<not> as_CompletedSent s" "as_CurrentItemType s = ''message''"
    using assms(1) by (auto simp: a2r_running_def item_type_def)
  then have item: "closed_item lib s = message_item (as_CurrentItemID s) (as_CurrentContent s)"
    by (simp add: closed_item_def message_item_def zero_output_def)
  have flush: "flushAnthropicInitialToolArguments s = (s, [])"
    using run by (simp add: flushAnthropicInitialToolArguments_def)
  show ?thesis
    using run item flush assms(2)
    by (simp add: FinalizeAnthropicResponsesStream_def end_stream_def closeCurrentResponsesItem_def
        makeResponsesEvent_def makeResponsesCompletedEvent_def anthropicResponsesStreamTerminalState_def
        zero_responses_event_def zero_response_def Let_def)
qed

theorem finalize_drops_open_text_witness:
  "\<exists>e r. last (snd (FinalizeAnthropicResponsesStream demo_lib (demo_open_message\<lparr>as_TextAccum := ''lost''\<rparr>))) = e
    \<and> re_Type e = ''response.completed'' \<and> re_Response e = Some r \<and> rr_Output r = [message_item ''i1'' [output_text ''Hi'']]"
  using finalize_drops_open_text [of "demo_open_message\<lparr>as_TextAccum := ''lost''\<rparr>" demo_lib]
  by (simp add: demo_open_message_def a2r_running_def item_ok_def item_type_def NewAnthropicEventToResponsesState_def)

section \<open>There and back\<close>

lemma convert_blocks_Cons:
  assumes "convert_blocks lib ad scope ids n (b # bs) = (outs, parts, n')"
  obtains os ps m outs' parts' where "convert_block lib ad scope ids n b = (os, ps, m)"
    "convert_blocks lib ad scope ids m bs = (outs', parts', n')" "outs = os @ outs'" "parts = ps @ parts'"
  using assms by (auto split: prod.splits)

lemma convert_block_tools:
  "convert_block lib ad scope ids n b = (outs, parts, n') \<Longrightarrow>
   map (\<lambda>i. (ro_CallID i, ro_Name i)) (filter (\<lambda>i. ro_Type i = ''function_call'') outs) =
   (if cb_Type b = ''tool_use'' then [(toResponsesCallID (cb_ID b), cb_Name b)] else [])"
  by (auto simp: convert_block_def zero_output_def Let_def split: if_splits)

lemma convert_blocks_tools:
  "convert_blocks lib ad scope ids n bs = (outs, parts, n') \<Longrightarrow>
   map (\<lambda>i. (ro_CallID i, ro_Name i)) (filter (\<lambda>i. ro_Type i = ''function_call'') outs) =
   map (\<lambda>b. (toResponsesCallID (cb_ID b), cb_Name b)) (filter (\<lambda>b. cb_Type b = ''tool_use'') bs)"
proof (induction bs arbitrary: n outs parts n')
  case (Cons b bs)
  obtain os ps m outs' parts' where c: "convert_block lib ad scope ids n b = (os, ps, m)"
    "convert_blocks lib ad scope ids m bs = (outs', parts', n')" "outs = os @ outs'"
    using convert_blocks_Cons [OF Cons.prems] by metis
  show ?case using Cons.IH [OF c(2)] convert_block_tools [OF c(1)] c(3) by simp
qed simp

lemma item_text_message: "item_text (message_item i ps) = concat (map cp_Text (filter (\<lambda>p. cp_Type p = ''output_text'') ps))"
  by (simp add: item_text_def message_item_def)

lemma convert_block_text:
  "convert_block lib ad scope ids n b = (outs, parts, n') \<Longrightarrow>
   concat (map item_text (filter (\<lambda>i. ro_Type i = ''message'') outs)) @ concat (map cp_Text parts) = block_text [b]
   \<and> list_all (\<lambda>p. cp_Type p = ''output_text'') parts \<and> (if ad then parts = [] else filter (\<lambda>i. ro_Type i = ''message'') outs = [])"
  by (auto simp: convert_block_def zero_output_def block_text_def item_text_def output_text_def Let_def split: if_splits)

lemma block_text_Cons: "block_text (b # bs) = block_text [b] @ block_text bs"
  by (simp add: block_text_def)

lemma convert_blocks_text:
  "convert_blocks lib ad scope ids n bs = (outs, parts, n') \<Longrightarrow>
   concat (map item_text (filter (\<lambda>i. ro_Type i = ''message'') outs)) @ concat (map cp_Text parts) = block_text bs
   \<and> list_all (\<lambda>p. cp_Type p = ''output_text'') parts \<and> (if ad then parts = [] else filter (\<lambda>i. ro_Type i = ''message'') outs = [])"
proof (induction bs arbitrary: n outs parts n')
  case Nil
  then show ?case by (simp add: block_text_def)
next
  case (Cons b bs)
  obtain os ps m outs' parts' where c: "convert_block lib ad scope ids n b = (os, ps, m)"
    "convert_blocks lib ad scope ids m bs = (outs', parts', n')" "outs = os @ outs'" "parts = ps @ parts'"
    using convert_blocks_Cons [OF Cons.prems] by metis
  show ?case
    using Cons.IH [OF c(2)] convert_block_text [OF c(1)] c(3,4) block_text_Cons [of b bs] by (cases ad) auto
qed

lemma A2R_outputs:
  assumes "convert_blocks lib (IsAdaptiveThinkingModel (ar_Model resp)) (if 0 < length scopes then scopes ! 0 else '''') ids 0
      (ar_Content resp) = (outs, parts, n)"
  shows "rr_Output (AnthropicToResponsesResponse lib respID ids now resp scopes) =
    (if parts \<noteq> [] then outs @ [message_item (ids n) parts]
     else if outs = [] then [message_item (ids n) [output_text '''']] else outs)"
  using assms by (simp add: AnthropicToResponsesResponse_def Let_def)

lemma A2R_tools:
  "map (\<lambda>i. (ro_CallID i, ro_Name i)) (filter (\<lambda>i. ro_Type i = ''function_call'')
     (rr_Output (AnthropicToResponsesResponse lib respID ids now resp scopes))) =
   map (\<lambda>b. (toResponsesCallID (cb_ID b), cb_Name b)) (filter (\<lambda>b. cb_Type b = ''tool_use'') (ar_Content resp))"
proof -
  obtain outs parts n where c: "convert_blocks lib (IsAdaptiveThinkingModel (ar_Model resp))
    (if 0 < length scopes then scopes ! 0 else '''') ids 0 (ar_Content resp) = (outs, parts, n)" by (metis prod_cases3)
  show ?thesis using convert_blocks_tools [OF c] unfolding A2R_outputs [OF c] by (auto simp: message_item_def)
qed

lemma A2R_text:
  "concat (map item_text (filter (\<lambda>i. ro_Type i = ''message'')
     (rr_Output (AnthropicToResponsesResponse lib respID ids now resp scopes)))) = block_text (ar_Content resp)"
proof -
  obtain outs parts n where c: "convert_blocks lib (IsAdaptiveThinkingModel (ar_Model resp))
    (if 0 < length scopes then scopes ! 0 else '''') ids 0 (ar_Content resp) = (outs, parts, n)" by (metis prod_cases3)
  have types: "filter (\<lambda>p. cp_Type p = ''output_text'') parts = parts"
    using convert_blocks_text [OF c] by (auto simp: filter_id_conv list_all_iff)
  have msg: "ro_Type (message_item i ps) = ''message''" for i ps by (simp add: message_item_def)
  show ?thesis
    using convert_blocks_text [OF c] types unfolding A2R_outputs [OF c]
    by (auto simp: msg item_text_message output_text_def)
qed

lemma A2R_status:
  "rr_Status (AnthropicToResponsesResponse lib respID ids now resp scopes) =
     (if AnthropicStopReasonString (ar_StopReason resp) = ''max_tokens'' then ''incomplete'' else ''completed'')"
  by (simp add: AnthropicToResponsesResponse_def anthropicStopReasonToResponsesStatus_def Let_def split_def)

lemma A2R_details:
  "rr_IncompleteDetails (AnthropicToResponsesResponse lib respID ids now resp scopes) =
     (if AnthropicStopReasonString (ar_StopReason resp) = ''max_tokens'' then Some \<lparr>id_Reason = ''max_output_tokens''\<rparr> else None)"
  by (simp add: AnthropicToResponsesResponse_def anthropicStopReasonToResponsesStatus_def Let_def split_def)

lemma A2R_usage:
  "rr_Usage (AnthropicToResponsesResponse lib respID ids now resp scopes) =
     Some (responses_usage (au_InputTokens (ar_Usage resp)) (au_OutputTokens (ar_Usage resp))
       (au_CacheReadInputTokens (ar_Usage resp)) (au_CacheCreationInputTokens (ar_Usage resp)))"
  by (simp add: AnthropicToResponsesResponse_def Let_def split_def)

lemma usage_back:
  assumes "0 \<le> a" "a < 2 ^ 61" "0 \<le> b" "b < 2 ^ 61" "0 \<le> c" "c < 2 ^ 61"
  shows "anthropicUsageFromResponsesUsage (Some (responses_usage a out b c)) =
    \<lparr>au_InputTokens = a, au_OutputTokens = out, au_CacheCreationInputTokens = c, au_CacheReadInputTokens = b\<rparr>"
proof -
  have "i64 (a + b) = a + b" "i64 (a + b + c) = a + b + c" "i64 (a + c) = a + c" "i64 a = a" "i64 (a + b + c - b) = a + c"
    using assms by (auto intro!: i64_id simp: in_i64_def)
  then show ?thesis
    using assms by (auto simp: anthropicUsageFromResponsesUsage_def responses_usage_def zero_input_details_def Let_def)
qed


definition demo_message :: AnthropicResponse where
  "demo_message = \<lparr>ar_ID = ''msg_1'', ar_Type = ''message'', ar_Role = ''assistant'',
     ar_Content = [zero_block\<lparr>cb_Type := ''text'', cb_Text := ''Hi''\<rparr>,
       zero_block\<lparr>cb_Type := ''tool_use'', cb_ID := ''toolu_1'', cb_Name := ''Bash'', cb_Input := ''{}''\<rparr>],
     ar_Model = ''claude-opus-5-5'', ar_StopReason = Some ''tool_use'', ar_StopSequence = None,
     ar_Usage = \<lparr>au_InputTokens = 10, au_OutputTokens = 5, au_CacheCreationInputTokens = 2, au_CacheReadInputTokens = 3\<rparr>\<rparr>"


end
