(* ===== verification/Interleaving.thy ===== *)
theory Interleaving
  imports Go_Prelude
begin

text \<open>
  Handlers that talk to shared services statement by statement, and their concurrent execution.

  A handler is a \<open>prog\<close>: it returns, or issues a statement and continues with the answer. The
  type is a datatype, so every handler ends after finitely many statements. \<open>run\<close> executes one
  handler alone, with a list of faults for its statements. \<open>pool_step\<close> interleaves any number of
  handlers statement by statement: handlers arrive, make a step, or vanish (a crashed process), and
  the environment may act between any two steps.

  \<open>sat\<close> is a weakest precondition over the \<^emph>\<open>knowledge\<close> of a handler, a set of facts that it has
  learned from answers and that stay true whatever the others do; \<open>poss\<close> tells which answers a
  statement can give. The locale \<open>interference\<close> states
  what a statement has to keep, and shows once that all interleavings keep it.
\<close>

section \<open>Handlers\<close>

datatype ('c, 'a, 'r) prog = Ret 'r | Call 'c "'a \<Rightarrow> ('c, 'a, 'r) prog"

primrec and_then :: "('c, 'a, 'r) prog \<Rightarrow> ('r \<Rightarrow> ('c, 'a, 't) prog) \<Rightarrow> ('c, 'a, 't) prog" where
  "and_then (Ret r) k = k r"
| "and_then (Call c f) k = Call c (\<lambda>a. and_then (f a) k)"

lemma and_then_Ret [simp]: "and_then p Ret = p"
  by (induction p) simp_all

lemma and_then_assoc: "and_then (and_then p f) g = and_then p (\<lambda>r. and_then (f r) g)"
  by (induction p) simp_all

primrec run :: "('f \<Rightarrow> 'c \<Rightarrow> 's \<Rightarrow> 's \<times> 'a) \<Rightarrow> 'f \<Rightarrow> ('c, 'a, 'r) prog \<Rightarrow> 'f list \<Rightarrow> 's \<Rightarrow> ('s \<times> 'r) \<times> 'f list" where
  "run exec up (Ret r) fs s = ((s, r), fs)"
| "run exec up (Call c k) fs s =
     (case exec (case fs of [] \<Rightarrow> up | f # _ \<Rightarrow> f) c s of (s', a) \<Rightarrow> run exec up (k a) (tl fs) s')"

lemma run_and_then:
  "run exec up (and_then p k) fs s = (case run exec up p fs s of ((s', r), fs') \<Rightarrow> run exec up (k r) fs' s')"
  by (induction p arbitrary: fs s) (simp_all split: prod.splits)

lemma run_no_faults: "snd (run exec up p [] s) = []"
  by (induction p arbitrary: s) (simp_all add: split_def)

section \<open>Concurrent execution\<close>

inductive pool_step ::
  "('f \<Rightarrow> 'c \<Rightarrow> 's \<Rightarrow> 's \<times> 'a) \<Rightarrow> (('c, 'a, 'r) prog \<Rightarrow> bool) \<Rightarrow> ('s \<Rightarrow> 's \<Rightarrow> bool) \<Rightarrow>
   's \<times> ('c, 'a, 'r) prog list \<Rightarrow> 's \<times> ('c, 'a, 'r) prog list \<Rightarrow> bool"
  for exec entry env where
  spawn: "entry p \<Longrightarrow> pool_step exec entry env (s, ps) (s, ps @ [p])"
| stmt: "exec f c s = (s', a) \<Longrightarrow> pool_step exec entry env (s, xs @ Call c k # ys) (s', xs @ k a # ys)"
| crash: "pool_step exec entry env (s, xs @ p # ys) (s, xs @ ys)"
| other: "env s s' \<Longrightarrow> pool_step exec entry env (s, ps) (s', ps)"

inductive_cases pool_stepE: "pool_step exec entry env (s, ps) (s', ps')"

abbreviation reaches where "reaches exec entry env \<equiv> (pool_step exec entry env)\<^sup>*\<^sup>*"

text \<open>A handler that runs alone is one of the interleavings.\<close>

lemma run_reaches:
  assumes "run exec up p fs s = ((s', r), fs')"
  shows "reaches exec entry env (s, xs @ p # ys) (s', xs @ Ret r # ys)"
  using assms
proof (induction p arbitrary: fs s)
  case (Ret x)
  then show ?case by simp
next
  case (Call c k)
  obtain s1 a where exec: "exec (case fs of [] \<Rightarrow> up | f # _ \<Rightarrow> f) c s = (s1, a)" by (meson surj_pair)
  then have "run exec up (k a) (tl fs) s1 = ((s', r), fs')" using Call.prems by simp
  then have "reaches exec entry env (s1, xs @ k a # ys) (s', xs @ Ret r # ys)" by (rule Call.IH [rotated]) simp
  moreover have "pool_step exec entry env (s, xs @ Call c k # ys) (s1, xs @ k a # ys)"
    using exec by (rule pool_step.stmt)
  ultimately show ?case by (rule converse_rtranclp_into_rtranclp [rotated])
qed

section \<open>Knowledge\<close>

primrec sat ::
  "('k set \<Rightarrow> 'c \<Rightarrow> bool) \<Rightarrow> ('c \<Rightarrow> 'a \<Rightarrow> bool) \<Rightarrow> ('c \<Rightarrow> 'a \<Rightarrow> 'k set) \<Rightarrow> ('c, 'a, 'r) prog \<Rightarrow> 'k set \<Rightarrow> ('r \<Rightarrow> 'k set \<Rightarrow> bool) \<Rightarrow> bool" where
  "sat legal poss learn (Ret r) K Q = Q r K"
| "sat legal poss learn (Call c k) K Q = (legal K c \<and> (\<forall>a. poss c a \<longrightarrow> sat legal poss learn (k a) (K \<union> learn c a) Q))"

lemma sat_and_then [simp]:
  "sat legal poss learn (and_then p k) K Q = sat legal poss learn p K (\<lambda>r K'. sat legal poss learn (k r) K' Q)"
  by (induction p arbitrary: K) simp_all

lemma sat_mono_post:
  "sat legal poss learn p K Q \<Longrightarrow> (\<And>r K'. K \<subseteq> K' \<Longrightarrow> Q r K' \<Longrightarrow> Q' r K') \<Longrightarrow> sat legal poss learn p K Q'"
proof (induction p arbitrary: K)
  case (Call c k)
  show ?case
  proof (simp, intro conjI allI impI)
    show "legal K c" using Call.prems(1) by simp
    fix a assume "poss c a"
    then show "sat legal poss learn (k a) (K \<union> learn c a) Q'"
      by (intro Call.IH) (use Call.prems in auto)
  qed
qed simp

definition known :: "('k \<Rightarrow> 's \<Rightarrow> bool) \<Rightarrow> 'k set \<Rightarrow> 's \<Rightarrow> bool" where
  "known holds K s \<longleftrightarrow> (\<forall>x\<in>K. holds x s)"

lemma known_simps [simp]: "known holds {} s" "known holds (K \<union> L) s \<longleftrightarrow> known holds K s \<and> known holds L s"
  by (auto simp: known_def)

locale interference =
  fixes exec :: "'f \<Rightarrow> 'c \<Rightarrow> 's \<Rightarrow> 's \<times> 'a"
    and entry :: "('c, 'a, 'r) prog \<Rightarrow> bool"
    and env :: "'s \<Rightarrow> 's \<Rightarrow> bool"
    and legal :: "'k set \<Rightarrow> 'c \<Rightarrow> bool"
    and poss :: "'c \<Rightarrow> 'a \<Rightarrow> bool"
    and learn :: "'c \<Rightarrow> 'a \<Rightarrow> 'k set"
    and holds :: "'k \<Rightarrow> 's \<Rightarrow> bool"
    and inv :: "'s \<Rightarrow> bool"
    and guar :: "'s \<Rightarrow> 's \<Rightarrow> bool"
  assumes exec_inv: "inv s \<Longrightarrow> known holds K s \<Longrightarrow> legal K c \<Longrightarrow> exec f c s = (s', a) \<Longrightarrow> inv s'"
    and exec_guar: "inv s \<Longrightarrow> known holds K s \<Longrightarrow> legal K c \<Longrightarrow> exec f c s = (s', a) \<Longrightarrow> guar s s'"
    and exec_poss: "inv s \<Longrightarrow> exec f c s = (s', a) \<Longrightarrow> poss c a"
    and exec_learn: "inv s \<Longrightarrow> known holds K s \<Longrightarrow> legal K c \<Longrightarrow> exec f c s = (s', a) \<Longrightarrow> known holds (learn c a) s'"
    and env_inv: "inv s \<Longrightarrow> env s s' \<Longrightarrow> inv s'"
    and env_guar: "inv s \<Longrightarrow> env s s' \<Longrightarrow> guar s s'"
    and guar_stable: "inv s \<Longrightarrow> guar s s' \<Longrightarrow> holds x s \<Longrightarrow> holds x s'"
    and entry_sat: "entry p \<Longrightarrow> sat legal poss learn p {} (\<lambda>r K. True)"
begin

definition pool_inv :: "'s \<times> ('c, 'a, 'r) prog list \<Rightarrow> bool" where
  "pool_inv c \<longleftrightarrow> inv (fst c) \<and> (\<forall>p\<in>set (snd c). \<exists>K. known holds K (fst c) \<and> sat legal poss learn p K (\<lambda>r K. True))"

lemma known_stable: "inv s \<Longrightarrow> guar s s' \<Longrightarrow> known holds K s \<Longrightarrow> known holds K s'"
  by (auto simp: known_def intro: guar_stable)

lemma pool_inv_step:
  assumes "pool_step exec entry env c c'" "pool_inv c"
  shows "pool_inv c' \<and> (fst c = fst c' \<or> guar (fst c) (fst c'))"
  using assms
proof (induction rule: pool_step.induct)
  case (spawn p s ps)
  then show ?case using entry_sat [OF spawn.hyps] by (auto simp: pool_inv_def intro: exI [of _ "{}"])
next
  case (stmt f c s s' a xs k ys)
  from stmt.prems obtain K where K: "inv s" "known holds K s" "legal K c" "\<forall>a. poss c a \<longrightarrow> sat legal poss learn (k a) (K \<union> learn c a) (\<lambda>r K. True)"
    by (auto simp: pool_inv_def)
  note possible = exec_poss [OF K(1) stmt.hyps]
  note s' = exec_inv [OF K(1-3) stmt.hyps] exec_guar [OF K(1-3) stmt.hyps] exec_learn [OF K(1-3) stmt.hyps]
  have "known holds (K \<union> learn c a) s'" using s' K known_stable by simp
  with K(4) possible have "\<exists>K. known holds K s' \<and> sat legal poss learn (k a) K (\<lambda>r K. True)" by blast
  moreover have "\<exists>K. known holds K s' \<and> sat legal poss learn p K (\<lambda>r K. True)" if "p \<in> set xs \<union> set ys" for p
    using that stmt.prems known_stable [OF K(1) s'(2)] by (fastforce simp: pool_inv_def)
  ultimately show ?case using s' by (auto simp: pool_inv_def)
next
  case (crash s xs p ys)
  then show ?case by (auto simp: pool_inv_def)
next
  case (other s s' ps)
  then have "inv s" by (simp add: pool_inv_def)
  note s' = env_inv [OF this other.hyps] env_guar [OF this other.hyps]
  with other.prems known_stable [OF \<open>inv s\<close> s'(2)] show ?case by (fastforce simp: pool_inv_def)
qed

lemma pool_inv_reaches: "reaches exec entry env c c' \<Longrightarrow> pool_inv c \<Longrightarrow> pool_inv c'"
  by (induction rule: rtranclp_induct) (auto dest: pool_inv_step)

lemma reaches_inv:
  assumes "reaches exec entry env (s, []) (s', ps)" "inv s"
  shows "inv s'"
  using pool_inv_reaches [OF assms(1)] assms(2) by (simp add: pool_inv_def)

lemma reaches_step_guar:
  assumes "reaches exec entry env (s, []) c" "inv s" "pool_step exec entry env c c'"
  shows "fst c = fst c' \<or> guar (fst c) (fst c')"
  using pool_inv_step [OF assms(3)] pool_inv_reaches [OF assms(1)] assms(2) by (simp add: pool_inv_def)

lemma run_sat:
  assumes "run exec up p fs s = ((s', r), fs')" "inv s" "known holds K s" "sat legal poss learn p K Q"
  shows "inv s' \<and> (\<exists>K'. known holds K' s' \<and> Q r K')"
  using assms
proof (induction p arbitrary: fs s K)
  case (Ret x)
  then show ?case by auto
next
  case (Call c k)
  obtain s1 a where exec: "exec (case fs of [] \<Rightarrow> up | f # _ \<Rightarrow> f) c s = (s1, a)" by (meson surj_pair)
  have legal: "legal K c" and rest: "sat legal poss learn (k a) (K \<union> learn c a) Q"
    using Call.prems exec_poss [OF Call.prems(2) exec] by auto
  note s1 = exec_inv [OF Call.prems(2,3) legal exec] exec_guar [OF Call.prems(2,3) legal exec]
    exec_learn [OF Call.prems(2,3) legal exec]
  then have known: "known holds (K \<union> learn c a) s1" using known_stable Call.prems(2,3) by simp
  have "run exec up (k a) (tl fs) s1 = ((s', r), fs')" using Call.prems(1) exec by simp
  from Call.IH [OF _ this s1(1) known rest] show ?case by simp
qed

end

end
