(* ===== verification/Payment_Store.thy ===== *)
theory Payment_Store
  imports Interleaving App_Errors Complex_Main
begin

text \<open>
  What the payment and redeem services share: floating point amounts, the rows of the tables
  \<open>payment_orders\<close>, \<open>payment_audit_logs\<close>, \<open>redeem_codes\<close> and \<open>users\<close> (schema in
  \<open>ent/schema\<close>), the statements that the services send and what each statement does.

  A statement is executed atomically and may fail: \<open>Lost\<close> without an effect, \<open>Unacked\<close> after its
  effect, and a transaction at one of its inner statements (\<open>TxFails\<close>), which rolls it back. The two
  transactions (redeeming a code, accruing a rebate) are one statement each, since the row of the
  code and the unique index of the audit log serialise them. Answers of services that are not
  modelled (providers, affiliates, subscriptions) are a function in the state, \<open>pd_ext\<close>, that the
  environment may change at any time. \<open>pd_redeemed\<close>, \<open>pd_rebates\<close> and \<open>pd_assigned\<close> record what the
  committed statements granted.
\<close>

section \<open>Amounts\<close>

text \<open>A \<open>float64\<close>: a finite number has a rational value, comparisons are exact, and the result of an
  operation is rounded by a parameter. The two zeros are not distinguished.\<close>

datatype float64 = Finite rat | PosInf | NegInf | NaN

fun flt :: "float64 \<Rightarrow> float64 \<Rightarrow> bool" where
  "flt NaN y = False"
| "flt x NaN = False"
| "flt (Finite x) (Finite y) = (x < y)"
| "flt x NegInf = False"
| "flt NegInf y = True"
| "flt PosInf y = False"
| "flt x PosInf = True"

definition fle :: "float64 \<Rightarrow> float64 \<Rightarrow> bool" where
  "fle x y \<longleftrightarrow> flt x y \<or> x = y \<and> x \<noteq> NaN"

definition fneg :: "float64 \<Rightarrow> float64" where
  "fneg x = (case x of Finite r \<Rightarrow> Finite (- r) | PosInf \<Rightarrow> NegInf | NegInf \<Rightarrow> PosInf | NaN \<Rightarrow> NaN)"

fun fadd :: "(rat \<Rightarrow> float64) \<Rightarrow> float64 \<Rightarrow> float64 \<Rightarrow> float64" where
  "fadd rnd (Finite x) (Finite y) = rnd (x + y)"
| "fadd rnd NaN y = NaN"
| "fadd rnd x NaN = NaN"
| "fadd rnd PosInf NegInf = NaN"
| "fadd rnd NegInf PosInf = NaN"
| "fadd rnd PosInf y = PosInf"
| "fadd rnd NegInf y = NegInf"
| "fadd rnd x y = y"

definition fsub :: "(rat \<Rightarrow> float64) \<Rightarrow> float64 \<Rightarrow> float64 \<Rightarrow> float64" where
  "fsub rnd x y = fadd rnd x (fneg y)"

definition f_abs :: "float64 \<Rightarrow> float64" where
  "f_abs x = (if flt x (Finite 0) then fneg x else x)"

definition f_max :: "float64 \<Rightarrow> float64 \<Rightarrow> float64" where
  "f_max x y =
     (if x = PosInf \<or> y = PosInf then PosInf else if x = NaN \<or> y = NaN then NaN
      else if flt x y then y else x)"

text \<open>The conversion \<open>int(f)\<close>, as on amd64.\<close>

definition f_int :: "float64 \<Rightarrow> int" where
  "f_int x = (case x of Finite r \<Rightarrow> (let t = (if 0 \<le> r then \<lfloor>r\<rfloor> else \<lceil>r\<rceil>) in if in_i64 t then t else - (2 ^ 63)) | _ \<Rightarrow> - (2 ^ 63))"

record pay_lib =
  pl_round :: "rat \<Rightarrow> float64"
  pl_fmt :: "float64 \<Rightarrow> string"
  pl_fmt_v :: "float64 \<Rightarrow> string"
  pl_error :: "goerror \<Rightarrow> string"

section \<open>Rows\<close>

definition OrderStatusPending :: string where "OrderStatusPending = ''PENDING''"
definition OrderStatusPaid :: string where "OrderStatusPaid = ''PAID''"
definition OrderStatusRecharging :: string where "OrderStatusRecharging = ''RECHARGING''"
definition OrderStatusCompleted :: string where "OrderStatusCompleted = ''COMPLETED''"
definition OrderStatusExpired :: string where "OrderStatusExpired = ''EXPIRED''"
definition OrderStatusCancelled :: string where "OrderStatusCancelled = ''CANCELLED''"
definition OrderStatusFailed :: string where "OrderStatusFailed = ''FAILED''"
definition OrderStatusRefundRequested :: string where "OrderStatusRefundRequested = ''REFUND_REQUESTED''"
definition OrderStatusRefunding :: string where "OrderStatusRefunding = ''REFUNDING''"
definition OrderStatusRefundPending :: string where "OrderStatusRefundPending = ''REFUND_PENDING''"
definition OrderStatusPartiallyRefunded :: string where "OrderStatusPartiallyRefunded = ''PARTIALLY_REFUNDED''"
definition OrderStatusRefunded :: string where "OrderStatusRefunded = ''REFUNDED''"
definition OrderStatusRefundFailed :: string where "OrderStatusRefundFailed = ''REFUND_FAILED''"

lemmas order_statuses = OrderStatusPending_def OrderStatusPaid_def OrderStatusRecharging_def OrderStatusCompleted_def
  OrderStatusExpired_def OrderStatusCancelled_def OrderStatusFailed_def OrderStatusRefundRequested_def
  OrderStatusRefunding_def OrderStatusRefundPending_def OrderStatusPartiallyRefunded_def OrderStatusRefunded_def
  OrderStatusRefundFailed_def

definition OrderTypeBalance :: string where "OrderTypeBalance = ''balance''"
definition OrderTypeSubscription :: string where "OrderTypeSubscription = ''subscription''"

record PaymentOrder =
  od_ID :: int
  od_UserID :: int
  od_Amount :: float64
  od_BonusAmount :: float64
  od_PayAmount :: float64
  od_RechargeCode :: string
  od_OutTradeNo :: string
  od_PaymentType :: string
  od_PaymentTradeNo :: string
  od_OrderType :: string
  od_SubscriptionGroupID :: "int option"
  od_SubscriptionDays :: "int option"
  od_ProviderInstanceID :: "string option"
  od_ProviderKey :: "string option"
  od_ProviderSnapshot :: "(string, goval) gomap"
  od_Status :: string
  od_ExpiresAt :: gotime
  od_PaidAt :: "gotime option"
  od_CompletedAt :: "gotime option"
  od_FailedAt :: "gotime option"
  od_FailedReason :: "string option"
  od_CreatedAt :: gotime
  od_UpdatedAt :: gotime

record PaymentAuditLog =
  pa_OrderID :: int
  pa_Action :: string
  pa_Operator :: string
  pa_CreatedAt :: gotime

definition StatusUnused :: string where "StatusUnused = ''unused''"
definition StatusUsed :: string where "StatusUsed = ''used''"
definition StatusExpired :: string where "StatusExpired = ''expired''"
definition StatusDisabled :: string where "StatusDisabled = ''disabled''"
definition RedeemTypeBalance :: string where "RedeemTypeBalance = ''balance''"
definition RedeemTypeConcurrency :: string where "RedeemTypeConcurrency = ''concurrency''"
definition RedeemTypeSubscription :: string where "RedeemTypeSubscription = ''subscription''"
definition RedeemTypeInvitation :: string where "RedeemTypeInvitation = ''invitation''"

lemmas code_statuses = StatusUnused_def StatusUsed_def StatusExpired_def StatusDisabled_def

lemmas redeem_types = RedeemTypeBalance_def RedeemTypeConcurrency_def RedeemTypeSubscription_def
  RedeemTypeInvitation_def

record RedeemCode =
  rc_ID :: int
  rc_Code :: string
  rc_Type :: string
  rc_Value :: float64
  rc_Status :: string
  rc_UsedBy :: "int option"
  rc_UsedAt :: "gotime option"
  rc_CreatedAt :: gotime
  rc_ExpiresAt :: "gotime option"
  rc_GroupID :: "int option"
  rc_ValidityDays :: int

record User =
  us_ID :: int
  us_Balance :: float64
  us_Concurrency :: int

definition ErrRedeemCodeNotFound where "ErrRedeemCodeNotFound = NotFound ''REDEEM_CODE_NOT_FOUND'' ''redeem code not found''"
definition ErrRedeemCodeUsed where "ErrRedeemCodeUsed = Conflict ''REDEEM_CODE_USED'' ''redeem code already used''"
definition ErrRedeemCodeExpired where "ErrRedeemCodeExpired = Conflict ''REDEEM_CODE_EXPIRED'' ''redeem code expired''"
definition ErrRedeemRateLimited where
  "ErrRedeemRateLimited = TooManyRequests ''REDEEM_RATE_LIMITED'' ''too many failed attempts, please try again later''"
definition ErrRedeemCodeLocked where
  "ErrRedeemCodeLocked = Conflict ''REDEEM_CODE_LOCKED'' ''redeem code is being processed, please try again''"
definition ErrUserNotFound where "ErrUserNotFound = NotFound ''USER_NOT_FOUND'' ''user not found''"

section \<open>Statements and answers\<close>

datatype grant = GrantBalance float64 | GrantConcurrency int | GrantSubscription int int | ReduceSubscription int int

datatype question =
    ProviderInstanceOf int
  | RegistryProviderKey string
  | GroupStatus int
  | AccrueRebate int int float64
  | AccrueRedeemRebate int float64
  | ConfirmUpstream string
  | OrderProvider int
  | QueryUpstream int string nat
  | CancelUpstream int string

datatype pay_stmt =
    is_Now: Now
  | GetOrder int
  | FindOrder string
  | ListOrders "PaymentOrder \<Rightarrow> bool"
  | UpdateOrders "PaymentOrder \<Rightarrow> bool" "PaymentOrder \<Rightarrow> PaymentOrder"
  | WriteAudit int string string
  | CountAudit "PaymentAuditLog \<Rightarrow> bool"
  | GetCode string
  | GetCodeByID int
  | InsertCode RedeemCode
  | GetUser int
  | AttemptCount int
  | IncrAttempts int
  | AcquireLock string
  | ReleaseLock string
  | RedeemTx int int grant
  | RebateTx int int float64
  | AssignSubscription int int int int
  | Ext question

record QueryOrderResponse =
  qr_TradeNo :: string
  qr_Status :: string
  qr_Amount :: float64
  qr_Metadata :: "(string, string) gomap"

datatype pay_ans =
    A_Err nat goerror
  | A_Unit
  | A_Time gotime
  | A_Order PaymentOrder
  | A_Orders "PaymentOrder list"
  | A_Count int
  | A_Code RedeemCode
  | A_User User
  | A_Bool bool
  | A_Str string
  | A_Float float64
  | A_Upstream QueryOrderResponse
  | A_Nothing

record pay_db =
  pd_orders :: "PaymentOrder list"
  pd_audit :: "PaymentAuditLog list"
  pd_codes :: "RedeemCode list"
  pd_next :: int
  pd_users :: "User list"
  pd_clock :: gotime
  pd_attempts :: "(int, int) gomap"
  pd_locks :: "string list"
  pd_ext :: "question \<Rightarrow> pay_ans"
  pd_redeemed :: "(string \<times> int \<times> grant) list"
  pd_rebates :: "(int \<times> float64) list"
  pd_assigned :: "(int \<times> int \<times> int \<times> int) list"

definition db_not_found :: goerror where "db_not_found = PlainError ''ent: not found''"
definition db_not_singular :: goerror where "db_not_singular = PlainError ''ent: not singular''"
definition db_constraint :: goerror where "db_constraint = PlainError ''ent: constraint failed''"

fun only :: "'r list \<Rightarrow> goerror + 'r" where
  "only [] = Inl db_not_found"
| "only [r] = Inr r"
| "only (r # r' # rs) = Inl db_not_singular"

definition answer :: "('r \<Rightarrow> pay_ans) \<Rightarrow> goerror + 'r \<Rightarrow> pay_ans" where
  "answer f r = (case r of Inl e \<Rightarrow> A_Err 0 e | Inr x \<Rightarrow> f x)"

definition audited :: "int \<Rightarrow> string list \<Rightarrow> PaymentAuditLog list \<Rightarrow> bool" where
  "audited oid actions audit \<longleftrightarrow> list_ex (\<lambda>a. pa_OrderID a = oid \<and> pa_Action a \<in> set actions) audit"

definition give :: "pay_lib \<Rightarrow> int \<Rightarrow> grant \<Rightarrow> User list \<Rightarrow> User list option" where
  "give lib uid g users =
     (case g of
        GrantBalance amount \<Rightarrow>
          (if list_ex (\<lambda>u. us_ID u = uid) users
           then Some (map (\<lambda>u. if us_ID u = uid then u\<lparr>us_Balance := fadd (pl_round lib) (us_Balance u) amount\<rparr> else u) users)
           else None)
      | GrantConcurrency delta \<Rightarrow>
          (if list_ex (\<lambda>u. us_ID u = uid) users
           then Some (map (\<lambda>u. if us_ID u = uid then u\<lparr>us_Concurrency := us_Concurrency u + delta\<rparr> else u) users)
           else None)
      | _ \<Rightarrow> Some users)"

definition code_unused :: "int \<Rightarrow> RedeemCode \<Rightarrow> bool" where
  "code_unused cid r \<longleftrightarrow> rc_ID r = cid \<and> rc_Status r = StatusUnused"

definition redeem_tx :: "pay_lib \<Rightarrow> int \<Rightarrow> int \<Rightarrow> grant \<Rightarrow> pay_db \<Rightarrow> pay_db \<times> pay_ans" where
  "redeem_tx lib cid uid g s =
     (case find (code_unused cid) (pd_codes s) of
        None \<Rightarrow> (s, A_Err 1 (app_err ErrRedeemCodeUsed))
      | Some r \<Rightarrow>
          (case give lib uid g (pd_users s) of
             None \<Rightarrow> (s, A_Err 2 (app_err ErrUserNotFound))
           | Some users \<Rightarrow>
               (s\<lparr>pd_codes := map (\<lambda>r. if code_unused cid r
                      then r\<lparr>rc_Status := StatusUsed, rc_UsedBy := Some uid, rc_UsedAt := Some (pd_clock s)\<rparr> else r) (pd_codes s),
                  pd_users := users, pd_redeemed := pd_redeemed s @ [(rc_Code r, uid, g)]\<rparr>, A_Unit)))"

definition set_rebate_action :: "int \<Rightarrow> string \<Rightarrow> PaymentAuditLog list \<Rightarrow> PaymentAuditLog list" where
  "set_rebate_action oid act audit =
     map (\<lambda>a. if pa_OrderID a = oid \<and> pa_Action a = ''AFFILIATE_REBATE_APPLIED''
              then a\<lparr>pa_Action := act, pa_Operator := ''system''\<rparr> else a) audit"

definition rebate_tx :: "int \<Rightarrow> int \<Rightarrow> float64 \<Rightarrow> pay_db \<Rightarrow> pay_db \<times> pay_ans" where
  "rebate_tx oid uid baseAmount s =
     (if audited oid [''AFFILIATE_REBATE_APPLIED'', ''AFFILIATE_REBATE_SKIPPED''] (pd_audit s) then (s, A_Unit)
      else
        (let claimed = pd_audit s @ [\<lparr>pa_OrderID = oid, pa_Action = ''AFFILIATE_REBATE_APPLIED'', pa_Operator = ''system'',
               pa_CreatedAt = pd_clock s\<rparr>]
         in case pd_ext s (AccrueRebate oid uid baseAmount) of
              A_Float rebateAmount \<Rightarrow>
                (if fle rebateAmount (Finite 0)
                 then (s\<lparr>pd_audit := set_rebate_action oid ''AFFILIATE_REBATE_SKIPPED'' claimed\<rparr>, A_Unit)
                 else (s\<lparr>pd_audit := set_rebate_action oid ''AFFILIATE_REBATE_APPLIED'' claimed,
                         pd_rebates := pd_rebates s @ [(oid, rebateAmount)]\<rparr>, A_Unit))
            | A_Err n e \<Rightarrow> (s, A_Err 2 e)
            | _ \<Rightarrow> (s, A_Err 2 (PlainError ''affiliate''))))"

fun effect :: "pay_lib \<Rightarrow> pay_stmt \<Rightarrow> pay_db \<Rightarrow> pay_db \<times> pay_ans" where
  "effect lib Now s = (s, A_Time (pd_clock s))"
| "effect lib (GetOrder oid) s = (s, answer A_Order (only (filter (\<lambda>r. od_ID r = oid) (pd_orders s))))"
| "effect lib (FindOrder no) s = (s, answer A_Order (only (filter (\<lambda>r. od_OutTradeNo r = no) (pd_orders s))))"
| "effect lib (ListOrders p) s = (s, A_Orders (filter p (pd_orders s)))"
| "effect lib (UpdateOrders p f) s =
     (s\<lparr>pd_orders := map (\<lambda>r. if p r then (f r)\<lparr>od_UpdatedAt := pd_clock s\<rparr> else r) (pd_orders s)\<rparr>,
      A_Count (int (length (filter p (pd_orders s)))))"
| "effect lib (WriteAudit oid act operator) s =
     (if audited oid [act] (pd_audit s) then (s, A_Err 0 db_constraint)
      else (s\<lparr>pd_audit := pd_audit s @ [\<lparr>pa_OrderID = oid, pa_Action = act, pa_Operator = operator, pa_CreatedAt = pd_clock s\<rparr>]\<rparr>, A_Unit))"
| "effect lib (CountAudit p) s = (s, A_Count (int (length (filter p (pd_audit s)))))"
| "effect lib (GetCode code) s =
     (s, case only (filter (\<lambda>r. rc_Code r = code) (pd_codes s)) of
           Inl e \<Rightarrow> A_Err 0 (if e = db_not_found then app_err ErrRedeemCodeNotFound else e) | Inr r \<Rightarrow> A_Code r)"
| "effect lib (GetCodeByID cid) s = (s, answer A_Code (only (filter (\<lambda>r. rc_ID r = cid) (pd_codes s))))"
| "effect lib (InsertCode r) s =
     (if rc_Code r = [] \<or> 32 < length (rc_Code r) \<or> list_ex (\<lambda>r'. rc_Code r' = rc_Code r) (pd_codes s) then (s, A_Err 0 db_constraint)
      else (s\<lparr>pd_codes := pd_codes s @ [r\<lparr>rc_ID := pd_next s, rc_CreatedAt := pd_clock s\<rparr>], pd_next := pd_next s + 1\<rparr>, A_Unit))"
| "effect lib (GetUser uid) s =
     (s, case only (filter (\<lambda>u. us_ID u = uid) (pd_users s)) of Inl e \<Rightarrow> A_Err 0 (app_err ErrUserNotFound) | Inr u \<Rightarrow> A_User u)"
| "effect lib (AttemptCount uid) s = (s, A_Count (gm_getd 0 (pd_attempts s) uid))"
| "effect lib (IncrAttempts uid) s = (s\<lparr>pd_attempts := gm_put uid (gm_getd 0 (pd_attempts s) uid + 1) (pd_attempts s)\<rparr>, A_Unit)"
| "effect lib (AcquireLock code) s =
     (if code \<in> set (pd_locks s) then (s, A_Bool False) else (s\<lparr>pd_locks := code # pd_locks s\<rparr>, A_Bool True))"
| "effect lib (ReleaseLock code) s = (s\<lparr>pd_locks := removeAll code (pd_locks s)\<rparr>, A_Unit)"
| "effect lib (RedeemTx cid uid g) s = redeem_tx lib cid uid g s"
| "effect lib (RebateTx oid uid amount) s = rebate_tx oid uid amount s"
| "effect lib (AssignSubscription oid uid gid days) s = (s\<lparr>pd_assigned := pd_assigned s @ [(oid, uid, gid, days)]\<rparr>, A_Unit)"
| "effect lib (Ext q) s = (s, pd_ext s q)"

datatype pay_fault = Up | Lost goerror | Unacked goerror | TxFails nat goerror

definition pay_exec :: "pay_lib \<Rightarrow> pay_fault \<Rightarrow> pay_stmt \<Rightarrow> pay_db \<Rightarrow> pay_db \<times> pay_ans" where
  "pay_exec lib f c s =
     (if is_Now c then effect lib c s
      else case f of
        Up \<Rightarrow> effect lib c s
      | Lost e \<Rightarrow> (s, A_Err 0 e)
      | Unacked e \<Rightarrow> (fst (effect lib c s), A_Err 9 e)
      | TxFails n e \<Rightarrow> (s, A_Err n e))"

type_synonym 'r pay_prog = "(pay_stmt, pay_ans, 'r) prog"

section \<open>Reading answers\<close>

text \<open>The typed results of the calls in the source; the last case of each is not an answer that the
  statement gives.\<close>

definition bad_answer :: goerror where "bad_answer = PlainError ''unexpected answer''"

definition time_of :: "pay_ans \<Rightarrow> gotime" where
  "time_of a = (case a of A_Time t \<Rightarrow> t | _ \<Rightarrow> 0)"

definition err_of :: "pay_ans \<Rightarrow> goerror option" where
  "err_of a = (case a of A_Err n e \<Rightarrow> Some e | _ \<Rightarrow> None)"

definition stage_of :: "pay_ans \<Rightarrow> (nat \<times> goerror) option" where
  "stage_of a = (case a of A_Err n e \<Rightarrow> Some (n, e) | _ \<Rightarrow> None)"

definition order_of :: "pay_ans \<Rightarrow> goerror + PaymentOrder" where
  "order_of a = (case a of A_Order r \<Rightarrow> Inr r | A_Err n e \<Rightarrow> Inl e | _ \<Rightarrow> Inl bad_answer)"

definition orders_of :: "pay_ans \<Rightarrow> goerror + PaymentOrder list" where
  "orders_of a = (case a of A_Orders r \<Rightarrow> Inr r | A_Err n e \<Rightarrow> Inl e | _ \<Rightarrow> Inl bad_answer)"

definition count_of :: "pay_ans \<Rightarrow> goerror + int" where
  "count_of a = (case a of A_Count n \<Rightarrow> Inr n | A_Err n e \<Rightarrow> Inl e | _ \<Rightarrow> Inl bad_answer)"

definition code_of :: "pay_ans \<Rightarrow> goerror + RedeemCode" where
  "code_of a = (case a of A_Code r \<Rightarrow> Inr r | A_Err n e \<Rightarrow> Inl e | _ \<Rightarrow> Inl bad_answer)"

definition user_of :: "pay_ans \<Rightarrow> goerror + User" where
  "user_of a = (case a of A_User u \<Rightarrow> Inr u | A_Err n e \<Rightarrow> Inl e | _ \<Rightarrow> Inl bad_answer)"

definition bool_of :: "pay_ans \<Rightarrow> goerror + bool" where
  "bool_of a = (case a of A_Bool b \<Rightarrow> Inr b | A_Err n e \<Rightarrow> Inl e | _ \<Rightarrow> Inl bad_answer)"

definition str_of :: "pay_ans \<Rightarrow> goerror + string option" where
  "str_of a = (case a of A_Str x \<Rightarrow> Inr (Some x) | A_Nothing \<Rightarrow> Inr None | A_Err n e \<Rightarrow> Inl e | _ \<Rightarrow> Inl bad_answer)"

definition upstream_of :: "pay_ans \<Rightarrow> goerror + QueryOrderResponse" where
  "upstream_of a = (case a of A_Upstream r \<Rightarrow> Inr r | A_Err n e \<Rightarrow> Inl e | _ \<Rightarrow> Inl bad_answer)"

definition now :: "(gotime \<Rightarrow> 'r pay_prog) \<Rightarrow> 'r pay_prog" where
  "now k = Call Now (\<lambda>a. k (time_of a))"

text \<open>\<open>writeAuditLog\<close>: the JSON detail is left out, and an error is only logged.\<close>

definition writeAuditLog :: "int \<Rightarrow> string \<Rightarrow> string \<Rightarrow> 'r pay_prog \<Rightarrow> 'r pay_prog" where
  "writeAuditLog oid act operator k = Call (WriteAudit oid act operator) (\<lambda>_. k)"

text \<open>\<open>errors.Is\<close> for a target that is an application error: the walk along the chain.\<close>

fun errors_is :: "goerror \<Rightarrow> Status \<Rightarrow> bool" where
  "errors_is (ApplicationError st c) t =
     (st_Code st = st_Code t \<and> st_Reason st = st_Reason t \<or> (case c of None \<Rightarrow> False | Some e \<Rightarrow> errors_is e t))"
| "errors_is (PlainError m) t = False"
| "errors_is (WrapError m e) t = errors_is e t"

lemmas answer_defs = time_of_def err_of_def stage_of_def order_of_def orders_of_def count_of_def code_of_def
  user_of_def bool_of_def str_of_def upstream_of_def

end
