(* ===== verification/Payment_Notification.thy ===== *)
theory Payment_Notification
  imports Payment_Store
begin

text \<open>
  The checks of a payment notification: the snapshot of the provider that an order was created with
  (\<open>internal/service/payment_order_provider_snapshot.go\<close>), currencies and the tolerance of amounts
  (\<open>internal/payment/currency.go\<close>, \<open>internal/service/payment_currency.go\<close>), legacy order numbers and the
  expected provider (\<open>internal/service/payment_fulfillment.go\<close>).
\<close>

section \<open>Snapshots\<close>

record paymentOrderProviderSnapshot =
  ps_SchemaVersion :: int
  ps_ProviderInstanceID :: string
  ps_ProviderKey :: string
  ps_PaymentMode :: string
  ps_MerchantAppID :: string
  ps_MerchantID :: string
  ps_Currency :: string

definition psSnapshotStringValue :: "goval \<Rightarrow> string" where
  "psSnapshotStringValue v = (case v of VStr s \<Rightarrow> trim_space s | _ \<Rightarrow> '''')"

definition psSnapshotIntValue :: "goval \<Rightarrow> int" where
  "psSnapshotIntValue v =
     (case v of VInt i \<Rightarrow> i | VInt64 i \<Rightarrow> i | VFloat m e \<Rightarrow> float_trunc m e
      | VStr s \<Rightarrow> (case atoi (trim_space s) of Some n \<Rightarrow> n | None \<Rightarrow> 0) | _ \<Rightarrow> 0)"

definition psOrderProviderSnapshot :: "PaymentOrder \<Rightarrow> paymentOrderProviderSnapshot option" where
  "psOrderProviderSnapshot od =
     (if od_ProviderSnapshot od = [] then None
      else
        (let str = (\<lambda>k. psSnapshotStringValue (any_get (od_ProviderSnapshot od) k));
             snapshot = \<lparr>ps_SchemaVersion = psSnapshotIntValue (any_get (od_ProviderSnapshot od) ''schema_version''),
               ps_ProviderInstanceID = str ''provider_instance_id'', ps_ProviderKey = str ''provider_key'',
               ps_PaymentMode = str ''payment_mode'', ps_MerchantAppID = str ''merchant_app_id'',
               ps_MerchantID = str ''merchant_id'', ps_Currency = str ''currency''\<rparr>
         in if snapshot = \<lparr>ps_SchemaVersion = 0, ps_ProviderInstanceID = '''', ps_ProviderKey = '''', ps_PaymentMode = '''',
               ps_MerchantAppID = '''', ps_MerchantID = '''', ps_Currency = ''''\<rparr>
            then None else Some snapshot))"

definition psStringValue :: "string option \<Rightarrow> string" where
  "psStringValue v = (case v of None \<Rightarrow> '''' | Some s \<Rightarrow> s)"

section \<open>The expected provider\<close>

definition expectedNotificationProviderKey :: "string \<Rightarrow> string \<Rightarrow> string \<Rightarrow> string \<Rightarrow> string" where
  "expectedNotificationProviderKey registryKey orderPaymentType orderProviderKey instanceProviderKey =
     (if trim_space instanceProviderKey \<noteq> '''' then trim_space instanceProviderKey
      else if trim_space orderProviderKey \<noteq> '''' then trim_space orderProviderKey
      else if trim_space registryKey \<noteq> '''' then trim_space registryKey
      else trim_space orderPaymentType)"

definition expectedNotificationProviderKeyForOrder :: "string \<Rightarrow> PaymentOrder \<Rightarrow> string \<Rightarrow> string" where
  "expectedNotificationProviderKeyForOrder registryKey od instanceProviderKey =
     (let orderProviderKey = psStringValue (od_ProviderKey od);
          orderProviderKey = (case psOrderProviderSnapshot od of
             Some snapshot \<Rightarrow> (if ps_ProviderKey snapshot \<noteq> '''' then ps_ProviderKey snapshot else orderProviderKey)
           | None \<Rightarrow> orderProviderKey)
      in expectedNotificationProviderKey registryKey (od_PaymentType od) orderProviderKey instanceProviderKey)"

section \<open>Metadata of the merchant\<close>

definition TypeAlipay :: string where "TypeAlipay = ''alipay''"
definition TypeWxpay :: string where "TypeWxpay = ''wxpay''"
definition TypeStripe :: string where "TypeStripe = ''stripe''"
definition TypeCard :: string where "TypeCard = ''card''"
definition TypeLink :: string where "TypeLink = ''link''"
definition TypeEasyPay :: string where "TypeEasyPay = ''easypay''"
definition TypeAirwallex :: string where "TypeAirwallex = ''airwallex''"

lemmas payment_types = TypeAlipay_def TypeWxpay_def TypeStripe_def TypeCard_def TypeLink_def TypeEasyPay_def TypeAirwallex_def

text \<open>One block of the switch: an expected value that is not empty has to be present and equal.\<close>

definition require_equal :: "string \<Rightarrow> string \<Rightarrow> string \<Rightarrow> string \<Rightarrow> goerror option" where
  "require_equal missing mismatch expected actual =
     (if expected = '''' then None
      else if actual = '''' then Some (PlainError missing)
      else if \<not> equal_fold expected actual
        then Some (PlainError (mismatch @ '': expected '' @ expected @ '', got '' @ actual))
      else None)"

text \<open>A status that the provider reports has to be the final one.\<close>

definition require_status :: "string \<Rightarrow> string \<Rightarrow> string \<Rightarrow> goerror option" where
  "require_status mismatch expected actual =
     (if actual \<noteq> '''' \<and> \<not> equal_fold actual expected
      then Some (PlainError (mismatch @ '': expected '' @ expected @ '', got '' @ actual)) else None)"

fun first_error :: "goerror option list \<Rightarrow> goerror option" where
  "first_error [] = None"
| "first_error (Some e # es) = Some e"
| "first_error (None # es) = first_error es"

definition validateProviderSnapshotMetadata ::
  "PaymentOrder \<Rightarrow> string \<Rightarrow> (string, string) gomap \<Rightarrow> goerror option" where
  "validateProviderSnapshotMetadata od providerKey metadata =
     (if metadata = [] then None
      else case psOrderProviderSnapshot od of
        None \<Rightarrow> None
      | Some snapshot \<Rightarrow>
          (let key = trim_space providerKey;
               get = (\<lambda>k. trim_space (gm_getd '''' metadata k));
               appid = trim_space (ps_MerchantAppID snapshot);
               merchant = trim_space (ps_MerchantID snapshot);
               currency = trim_space (ps_Currency snapshot);
               actualCurrency = to_upper_ascii (get ''currency'')
           in if key = TypeWxpay then first_error
                [require_equal ''wxpay notification missing appid'' ''wxpay appid mismatch'' appid (get ''appid''),
                 require_equal ''wxpay notification missing mchid'' ''wxpay mchid mismatch'' merchant (get ''mchid''),
                 require_equal ''wxpay notification missing currency'' ''wxpay currency mismatch'' currency actualCurrency,
                 require_status ''wxpay trade_state mismatch'' ''SUCCESS'' (get ''trade_state'')]
              else if key = TypeAlipay then
                require_equal ''alipay app_id missing'' ''alipay app_id mismatch'' appid (get ''app_id'')
              else if key = TypeEasyPay then
                require_equal ''easypay pid missing'' ''easypay pid mismatch'' merchant (get ''pid'')
              else if key = TypeStripe then
                require_equal ''stripe notification missing currency'' ''stripe currency mismatch'' currency actualCurrency
              else if key = TypeAirwallex then first_error
                [require_equal ''airwallex account_id missing'' ''airwallex account_id mismatch'' merchant (get ''account_id''),
                 require_equal ''airwallex notification missing currency'' ''airwallex currency mismatch'' currency actualCurrency,
                 require_status ''airwallex status mismatch'' ''SUCCEEDED'' (get ''status'')]
              else None))"

definition validateProviderNotificationMetadata ::
  "PaymentOrder \<Rightarrow> string \<Rightarrow> (string, string) gomap \<Rightarrow> goerror option" where
  "validateProviderNotificationMetadata od providerKey metadata = validateProviderSnapshotMetadata od providerKey metadata"

section \<open>Currencies and amounts\<close>

definition DefaultPaymentCurrency :: string where "DefaultPaymentCurrency = ''CNY''"

definition NormalizePaymentCurrency :: "string \<Rightarrow> string option" where
  "NormalizePaymentCurrency raw =
     (let currency = to_upper_ascii (trim_space raw) in
      if currency = '''' then Some DefaultPaymentCurrency
      else if length currency \<noteq> 3 then None
      else if list_ex (\<lambda>c. (of_char c :: nat) < 65 \<or> 90 < (of_char c :: nat)) currency then None
      else Some currency)"

record paymentCurrencyAmountUnit =
  cu_apiMinorUnit :: nat
  cu_maxFractionDigits :: nat

definition zeroDecimalAmountUnit where "zeroDecimalAmountUnit = \<lparr>cu_apiMinorUnit = 0, cu_maxFractionDigits = 0\<rparr>"
definition twoDecimalAmountUnit where "twoDecimalAmountUnit = \<lparr>cu_apiMinorUnit = 2, cu_maxFractionDigits = 2\<rparr>"
definition threeDecimalAmountUnit where "threeDecimalAmountUnit = \<lparr>cu_apiMinorUnit = 3, cu_maxFractionDigits = 3\<rparr>"
definition stripeLegacyZeroAmount where "stripeLegacyZeroAmount = \<lparr>cu_apiMinorUnit = 2, cu_maxFractionDigits = 0\<rparr>"

definition paymentCurrencyAmountUnits :: "(string, paymentCurrencyAmountUnit) gomap" where
  "paymentCurrencyAmountUnits =
     map (\<lambda>c. (c, zeroDecimalAmountUnit)) [''BIF'', ''CLP'', ''DJF'', ''GNF'', ''JPY'', ''KMF'', ''KRW'', ''MGA'', ''PYG'', ''RWF'',
       ''VND'', ''VUV'', ''XAF'', ''XOF'', ''XPF''] @
     map (\<lambda>c. (c, stripeLegacyZeroAmount)) [''ISK'', ''UGX''] @
     map (\<lambda>c. (c, threeDecimalAmountUnit)) [''BHD'', ''IQD'', ''JOD'', ''KWD'', ''LYD'', ''OMR'', ''TND'']"

definition paymentCurrencyAmountUnitFor :: "string \<Rightarrow> paymentCurrencyAmountUnit" where
  "paymentCurrencyAmountUnitFor currency =
     (case NormalizePaymentCurrency currency of
        None \<Rightarrow> twoDecimalAmountUnit
      | Some normalized \<Rightarrow>
          (case gm_get paymentCurrencyAmountUnits normalized of Some u \<Rightarrow> u | None \<Rightarrow> twoDecimalAmountUnit))"

definition CurrencyMinorUnit :: "string \<Rightarrow> nat" where
  "CurrencyMinorUnit currency = cu_apiMinorUnit (paymentCurrencyAmountUnitFor currency)"

definition PaymentOrderCurrency :: "PaymentOrder \<Rightarrow> string" where
  "PaymentOrderCurrency od =
     (case psOrderProviderSnapshot od of
        Some snapshot \<Rightarrow>
          (case NormalizePaymentCurrency (ps_Currency snapshot) of Some c \<Rightarrow> c | None \<Rightarrow> DefaultPaymentCurrency)
      | None \<Rightarrow> DefaultPaymentCurrency)"

definition amountToleranceCNY :: "pay_lib \<Rightarrow> float64" where
  "amountToleranceCNY lib = pl_round lib (1 / 100)"

text \<open>Halving a finite number of this size is exact.\<close>

definition paymentAmountToleranceForCurrency :: "pay_lib \<Rightarrow> string \<Rightarrow> float64" where
  "paymentAmountToleranceForCurrency lib currency =
     (let minorUnit = CurrencyMinorUnit currency in
      if minorUnit \<le> 2 then amountToleranceCNY lib
      else case pl_round lib (1 / 10 ^ minorUnit) of Finite r \<Rightarrow> Finite (r / 2) | x \<Rightarrow> x)"

definition isValidProviderAmount :: "float64 \<Rightarrow> bool" where
  "isValidProviderAmount amount \<longleftrightarrow> flt (Finite 0) amount \<and> amount \<noteq> NaN \<and> amount \<noteq> PosInf \<and> amount \<noteq> NegInf"

definition amount_mismatch :: "pay_lib \<Rightarrow> PaymentOrder \<Rightarrow> float64 \<Rightarrow> bool" where
  "amount_mismatch lib od paid \<longleftrightarrow>
     flt (paymentAmountToleranceForCurrency lib (PaymentOrderCurrency od)) (f_abs (fsub (pl_round lib) paid (od_PayAmount od)))"

section \<open>Legacy order numbers\<close>

definition orderIDPrefix :: string where "orderIDPrefix = ''sub2_''"

definition parseLegacyPaymentOrderID :: "string \<Rightarrow> goerror \<Rightarrow> int option" where
  "parseLegacyPaymentOrderID orderID lookupErr =
     (if lookupErr \<noteq> db_not_found then None
      else
        (let orderID = trim_space orderID in
         if \<not> has_prefix orderIDPrefix orderID then None
         else
           (let trimmed = trim_prefix orderIDPrefix orderID in
            if trimmed = '''' \<or> trimmed = orderID then None
            else case atoi trimmed of None \<Rightarrow> None | Some oid \<Rightarrow> (if oid \<le> 0 then None else Some oid))))"

end
