(* ===== verification/Redeem.thy ===== *)
theory Redeem
  imports Payment_Store
begin

text \<open>
  Redeem codes: \<open>internal/service/redeem_code.go\<close> and the operations of
  \<open>internal/service/redeem_service.go\<close> that create and redeem a code. A handler is a program over the
  statements of \<open>Payment_Store\<close>; the lock and the counter of failed attempts are kept in Redis, which
  may be absent (\<open>cache = False\<close>) or fail. The invalidation of caches after a redemption is not
  modelled.
\<close>

section \<open>Codes\<close>

definition IsUsed :: "RedeemCode \<Rightarrow> bool" where
  "IsUsed r \<longleftrightarrow> rc_Status r = StatusUsed"

definition IsExpiredAt :: "RedeemCode \<Rightarrow> gotime \<Rightarrow> bool" where
  "IsExpiredAt r t =
     (if rc_Status r = StatusExpired then True
      else rc_Status r = StatusUnused \<and> (case rc_ExpiresAt r of None \<Rightarrow> False | Some e \<Rightarrow> \<not> t < e))"

definition CanUse :: "RedeemCode \<Rightarrow> gotime \<Rightarrow> bool" where
  "CanUse r t \<longleftrightarrow> rc_Status r = StatusUnused \<and> \<not> IsExpiredAt r t"

section \<open>Creating a code\<close>

definition CreateCode :: "RedeemCode \<Rightarrow> goerror option pay_prog" where
  "CreateCode code =
     (let code = code\<lparr>rc_Code := trim_space (rc_Code code)\<rparr> in
      if rc_Code code = [] then Ret (Some (PlainError ''code is required''))
      else
        (let code = (if rc_Type code = [] then code\<lparr>rc_Type := RedeemTypeBalance\<rparr> else code) in
         if rc_Type code \<noteq> RedeemTypeInvitation \<and> rc_Value code = Finite 0
         then Ret (Some (PlainError ''value must not be zero''))
         else
           (let code = (if rc_Status code = [] then code\<lparr>rc_Status := StatusUnused\<rparr> else code) in
            now (\<lambda>t.
              if IsExpiredAt code t then Ret (Some (app_err ErrRedeemCodeExpired))
              else Call (InsertCode code) (\<lambda>a.
                case err_of a of
                  Some err \<Rightarrow> Ret (Some (WrapError ''create redeem code'' err))
                | None \<Rightarrow> Ret None)))))"

section \<open>Rate limit and lock\<close>

definition redeemMaxErrorsPerHour :: int where "redeemMaxErrorsPerHour = 20"

definition checkRedeemRateLimit :: "bool \<Rightarrow> int \<Rightarrow> goerror option pay_prog" where
  "checkRedeemRateLimit cache userID =
     (if \<not> cache then Ret None
      else Call (AttemptCount userID) (\<lambda>a.
        case count_of a of
          Inl err \<Rightarrow> Ret None
        | Inr count \<Rightarrow> Ret (if redeemMaxErrorsPerHour \<le> count then Some (app_err ErrRedeemRateLimited) else None)))"

definition incrementRedeemErrorCount :: "bool \<Rightarrow> int \<Rightarrow> 'r pay_prog \<Rightarrow> 'r pay_prog" where
  "incrementRedeemErrorCount cache userID k =
     (if \<not> cache then k else Call (IncrAttempts userID) (\<lambda>_. k))"

definition acquireRedeemLock :: "bool \<Rightarrow> string \<Rightarrow> bool pay_prog" where
  "acquireRedeemLock cache code =
     (if \<not> cache then Ret True
      else Call (AcquireLock code) (\<lambda>a. case bool_of a of Inl err \<Rightarrow> Ret True | Inr ok \<Rightarrow> Ret ok))"

definition releaseRedeemLock :: "bool \<Rightarrow> string \<Rightarrow> 'r pay_prog \<Rightarrow> 'r pay_prog" where
  "releaseRedeemLock cache code k =
     (if \<not> cache then k else Call (ReleaseLock code) (\<lambda>_. k))"

section \<open>Redeeming a code\<close>

definition unsupportedRedeemTypeError :: "string \<Rightarrow> goerror" where
  "unsupportedRedeemTypeError codeType =
     (if codeType = RedeemTypeInvitation
      then app_err (BadRequest ''REDEEM_CODE_UNSUPPORTED_TYPE'' ''invitation codes can only be used during registration'')
      else app_err (BadRequest ''REDEEM_CODE_UNSUPPORTED_TYPE'' (''unsupported redeem type: '' @ codeType)))"

text \<open>The first switch on the type: a reason to refuse the code.\<close>

definition redeem_type_error :: "RedeemCode \<Rightarrow> goerror option" where
  "redeem_type_error r =
     (if rc_Type r = RedeemTypeBalance \<or> rc_Type r = RedeemTypeConcurrency then None
      else if rc_Type r = RedeemTypeSubscription then
        (if rc_GroupID r = None
         then Some (app_err (BadRequest ''REDEEM_CODE_INVALID'' ''invalid subscription redeem code: missing group_id'')) else None)
      else Some (unsupportedRedeemTypeError (rc_Type r)))"

text \<open>The second switch: what the transaction grants. Negative values are deductions, down to zero.\<close>

definition redeem_grant :: "pay_lib \<Rightarrow> RedeemCode \<Rightarrow> User \<Rightarrow> grant" where
  "redeem_grant lib r user =
     (if rc_Type r = RedeemTypeBalance then
        (let amount = rc_Value r in
         GrantBalance (if flt amount (Finite 0) \<and> flt (fadd (pl_round lib) (us_Balance user) amount) (Finite 0)
                       then fneg (us_Balance user) else amount))
      else if rc_Type r = RedeemTypeConcurrency then
        (let delta = f_int (rc_Value r) in
         GrantConcurrency (if delta < 0 \<and> us_Concurrency user + delta < 0 then - us_Concurrency user else delta))
      else
        (let gid = the (rc_GroupID r) in
         if rc_ValidityDays r < 0 then ReduceSubscription gid (- rc_ValidityDays r)
         else GrantSubscription gid (if rc_ValidityDays r = 0 then 30 else rc_ValidityDays r)))"

definition grant_failed :: "grant \<Rightarrow> string" where
  "grant_failed g =
     (case g of GrantBalance _ \<Rightarrow> ''update user balance'' | GrantConcurrency _ \<Rightarrow> ''update user concurrency''
      | GrantSubscription _ _ \<Rightarrow> ''assign or extend subscription'' | ReduceSubscription _ _ \<Rightarrow> ''reduce or cancel subscription'')"

definition redeem_tx_error :: "grant \<Rightarrow> nat \<Rightarrow> goerror \<Rightarrow> goerror" where
  "redeem_tx_error g stage err =
     (if stage = 0 then WrapError ''begin transaction'' err
      else if stage = 1 then
        (if errors_is err (fst ErrRedeemCodeNotFound) \<or> errors_is err (fst ErrRedeemCodeUsed) then app_err ErrRedeemCodeUsed
         else WrapError ''mark code as used'' err)
      else if stage = 2 then WrapError (grant_failed g) err
      else WrapError ''commit transaction'' err)"

text \<open>After the commit: the rebate of a positive balance code, unless the payment service accrues it,
  and the reload of the code.\<close>

definition redeemed_result :: "bool \<Rightarrow> int \<Rightarrow> RedeemCode \<Rightarrow> (goerror + RedeemCode) pay_prog" where
  "redeemed_result skipAffiliate userID r =
     (let reload = Call (GetCodeByID (rc_ID r)) (\<lambda>a.
        case code_of a of Inl err \<Rightarrow> Ret (Inl (WrapError ''get updated redeem code'' err)) | Inr r' \<Rightarrow> Ret (Inr r'))
      in if rc_Type r = RedeemTypeBalance \<and> flt (Finite 0) (rc_Value r) \<and> \<not> skipAffiliate
         then Call (Ext (AccrueRedeemRebate userID (rc_Value r))) (\<lambda>_. reload) else reload)"

definition redeem_locked :: "pay_lib \<Rightarrow> bool \<Rightarrow> bool \<Rightarrow> int \<Rightarrow> string \<Rightarrow> (goerror + RedeemCode) pay_prog" where
  "redeem_locked lib cache skipAffiliate userID code =
     Call (GetCode code) (\<lambda>a.
       case code_of a of
         Inl err \<Rightarrow>
           (if errors_is err (fst ErrRedeemCodeNotFound)
            then incrementRedeemErrorCount cache userID (Ret (Inl (app_err ErrRedeemCodeNotFound)))
            else Ret (Inl (WrapError ''get redeem code'' err)))
       | Inr r \<Rightarrow>
           now (\<lambda>t.
             if IsExpiredAt r t then incrementRedeemErrorCount cache userID (Ret (Inl (app_err ErrRedeemCodeExpired)))
             else now (\<lambda>t'.
               if \<not> CanUse r t' then incrementRedeemErrorCount cache userID (Ret (Inl (app_err ErrRedeemCodeUsed)))
               else case redeem_type_error r of
                      Some err \<Rightarrow> Ret (Inl err)
                    | None \<Rightarrow>
                        Call (GetUser userID) (\<lambda>a.
                          case user_of a of
                            Inl err \<Rightarrow> Ret (Inl (WrapError ''get user'' err))
                          | Inr user \<Rightarrow>
                              (let g = redeem_grant lib r user in
                               Call (RedeemTx (rc_ID r) userID g) (\<lambda>a.
                                 case stage_of a of
                                   Some (stage, err) \<Rightarrow> Ret (Inl (redeem_tx_error g stage err))
                                 | None \<Rightarrow> redeemed_result skipAffiliate userID r))))))"

definition Redeem :: "pay_lib \<Rightarrow> bool \<Rightarrow> bool \<Rightarrow> int \<Rightarrow> string \<Rightarrow> (goerror + RedeemCode) pay_prog" where
  "Redeem lib cache skipAffiliate userID code =
     and_then (checkRedeemRateLimit cache userID) (\<lambda>limited.
       case limited of
         Some err \<Rightarrow> Ret (Inl err)
       | None \<Rightarrow>
           and_then (acquireRedeemLock cache code) (\<lambda>ok.
             if \<not> ok then Ret (Inl (app_err ErrRedeemCodeLocked))
             else and_then (redeem_locked lib cache skipAffiliate userID code) (\<lambda>r.
                    releaseRedeemLock cache code (Ret r))))"

definition redeem_GetByCode :: "string \<Rightarrow> (goerror + RedeemCode) pay_prog" where
  "redeem_GetByCode code =
     Call (GetCode code) (\<lambda>a. case code_of a of Inl err \<Rightarrow> Ret (Inl (WrapError ''get redeem code'' err)) | Inr r \<Rightarrow> Ret (Inr r))"

end
