(* ===== verification/Payment_Fulfillment.thy ===== *)
theory Payment_Fulfillment
  imports Payment_Notification Redeem
begin

text \<open>
  \<open>internal/service/payment_fulfillment.go\<close>: from the notification of a provider to the credit. Every
  handler of the file is a program over the statements of \<open>Payment_Store\<close>, in the order in which the
  source issues them. Left out: the JSON details of the audit log, log lines and the e-mails.
\<close>

record pay_cfg =
  pc_lib :: pay_lib
  pc_cache :: bool
  pc_affiliate :: bool

definition psIsRefundStatus :: "string \<Rightarrow> bool" where
  "psIsRefundStatus s \<longleftrightarrow> s \<in> {OrderStatusRefundRequested, OrderStatusRefunding, OrderStatusRefundPending,
     OrderStatusPartiallyRefunded, OrderStatusRefunded, OrderStatusRefundFailed}"

definition isSupportedPaymentOrderType :: "string \<Rightarrow> bool" where
  "isSupportedPaymentOrderType orderType \<longleftrightarrow> orderType = OrderTypeBalance \<or> orderType = OrderTypeSubscription"

section \<open>Final states\<close>

definition markCompleted :: "PaymentOrder \<Rightarrow> string \<Rightarrow> goerror option pay_prog" where
  "markCompleted od auditAction =
     now (\<lambda>t.
       Call (UpdateOrders (\<lambda>r. od_ID r = od_ID od \<and> od_Status r = OrderStatusRecharging)
              (\<lambda>r. r\<lparr>od_Status := OrderStatusCompleted, od_CompletedAt := Some t\<rparr>)) (\<lambda>a.
         case err_of a of
           Some err \<Rightarrow> Ret (Some (WrapError ''mark completed'' err))
         | None \<Rightarrow> writeAuditLog (od_ID od) auditAction ''system'' (Ret None)))"

definition markFailed :: "pay_cfg \<Rightarrow> int \<Rightarrow> goerror \<Rightarrow> 'r pay_prog \<Rightarrow> 'r pay_prog" where
  "markFailed cfg oid cause k =
     now (\<lambda>t.
       Call (UpdateOrders (\<lambda>r. od_ID r = oid \<and> od_Status r = OrderStatusRecharging)
              (\<lambda>r. r\<lparr>od_Status := OrderStatusFailed, od_FailedAt := Some t, od_FailedReason := Some (pl_error (pc_lib cfg) cause)\<rparr>)) (\<lambda>a.
         case count_of a of
           Inl err \<Rightarrow> k
         | Inr c \<Rightarrow> (if 0 < c then writeAuditLog oid ''FULFILLMENT_FAILED'' ''system'' k else k)))"

definition rejectUnsupportedOrderType :: "PaymentOrder \<Rightarrow> 'r pay_prog \<Rightarrow> 'r pay_prog" where
  "rejectUnsupportedOrderType od k =
     (let reason = ''unsupported order type: '' @ od_OrderType od in
      now (\<lambda>t.
        Call (UpdateOrders (\<lambda>r. od_ID r = od_ID od \<and> od_Status r \<in> {OrderStatusPaid, OrderStatusRecharging})
               (\<lambda>r. r\<lparr>od_Status := OrderStatusFailed, od_FailedAt := Some t, od_FailedReason := Some reason\<rparr>)) (\<lambda>a.
          case count_of a of
            Inl err \<Rightarrow> k
          | Inr c \<Rightarrow> (if 0 < c then writeAuditLog (od_ID od) ''FULFILLMENT_FAILED'' ''system'' k else k))))"

section \<open>Affiliate rebate\<close>

definition affiliateRebateBaseAmount :: "pay_lib \<Rightarrow> PaymentOrder \<Rightarrow> float64" where
  "affiliateRebateBaseAmount lib od =
     (if od_OrderType od = OrderTypeBalance \<or> od_OrderType od = OrderTypeSubscription
      then f_max (Finite 0) (fsub (pl_round lib) (od_Amount od) (od_BonusAmount od)) else Finite 0)"

definition rebate_error :: "nat \<Rightarrow> goerror \<Rightarrow> goerror" where
  "rebate_error stage err =
     (if stage = 0 then WrapError ''begin affiliate rebate tx'' err
      else if stage = 1 then WrapError ''claim affiliate rebate audit'' err
      else if stage = 2 then WrapError ''accrue affiliate rebate'' err
      else if stage = 3 then WrapError ''update affiliate rebate skipped audit'' err
      else if stage = 4 then WrapError ''update affiliate rebate applied audit'' err
      else WrapError ''commit affiliate rebate tx'' err)"

definition applyAffiliateRebateForOrder :: "pay_cfg \<Rightarrow> PaymentOrder \<Rightarrow> goerror option pay_prog" where
  "applyAffiliateRebateForOrder cfg od =
     (let baseAmount = affiliateRebateBaseAmount (pc_lib cfg) od in
      if fle baseAmount (Finite 0) \<or> \<not> pc_affiliate cfg then Ret None
      else Call (RebateTx (od_ID od) (od_UserID od) baseAmount) (\<lambda>a.
        case stage_of a of
          Some (stage, err) \<Rightarrow>
            writeAuditLog (od_ID od) ''AFFILIATE_REBATE_FAILED'' ''system'' (Ret (Some (rebate_error stage err)))
        | None \<Rightarrow> Ret None))"

section \<open>Balance orders\<close>

datatype redeemAction = redeemActionCreate | redeemActionRedeem | redeemActionSkipCompleted

definition resolveRedeemAction :: "goerror + RedeemCode \<Rightarrow> redeemAction" where
  "resolveRedeemAction existing =
     (case existing of
        Inl lookupErr \<Rightarrow> redeemActionCreate
      | Inr r \<Rightarrow> (if IsUsed r then redeemActionSkipCompleted else redeemActionRedeem))"

text \<open>The end of both branches of \<open>doBalance\<close> and of \<open>doSub\<close>.\<close>

definition rebate_and_complete :: "pay_cfg \<Rightarrow> PaymentOrder \<Rightarrow> string \<Rightarrow> goerror option pay_prog" where
  "rebate_and_complete cfg od auditAction =
     and_then (applyAffiliateRebateForOrder cfg od) (\<lambda>e.
       case e of Some err \<Rightarrow> Ret (Some err) | None \<Rightarrow> markCompleted od auditAction)"

definition redeem_for_order :: "pay_cfg \<Rightarrow> PaymentOrder \<Rightarrow> goerror option pay_prog" where
  "redeem_for_order cfg od =
     and_then (Redeem (pc_lib cfg) (pc_cache cfg) True (od_UserID od) (od_RechargeCode od)) (\<lambda>r.
       case r of Inl err \<Rightarrow> Ret (Some (WrapError ''redeem balance'' err)) | Inr _ \<Rightarrow> rebate_and_complete cfg od ''RECHARGE_SUCCESS'')"

definition order_code :: "PaymentOrder \<Rightarrow> RedeemCode" where
  "order_code od =
     \<lparr>rc_ID = 0, rc_Code = od_RechargeCode od, rc_Type = RedeemTypeBalance, rc_Value = od_Amount od, rc_Status = StatusUnused,
      rc_UsedBy = None, rc_UsedAt = None, rc_CreatedAt = 0, rc_ExpiresAt = None, rc_GroupID = None, rc_ValidityDays = 0\<rparr>"

definition doBalance :: "pay_cfg \<Rightarrow> PaymentOrder \<Rightarrow> goerror option pay_prog" where
  "doBalance cfg od =
     and_then (redeem_GetByCode (od_RechargeCode od)) (\<lambda>existing.
       case resolveRedeemAction existing of
         redeemActionSkipCompleted \<Rightarrow> rebate_and_complete cfg od ''RECHARGE_SUCCESS''
       | redeemActionCreate \<Rightarrow>
           and_then (CreateCode (order_code od)) (\<lambda>e.
             case e of Some err \<Rightarrow> Ret (Some (WrapError ''create redeem code'' err)) | None \<Rightarrow> redeem_for_order cfg od)
       | redeemActionRedeem \<Rightarrow> redeem_for_order cfg od)"

definition bad_status :: "string \<Rightarrow> goerror" where
  "bad_status m = app_err (BadRequest ''INVALID_STATUS'' m)"

definition order_not_found :: goerror where
  "order_not_found = app_err (NotFound ''NOT_FOUND'' ''order not found'')"

text \<open>The conditional update that gives one process the right to fulfil, and its end.\<close>

definition fulfil_locked :: "pay_cfg \<Rightarrow> int \<Rightarrow> goerror option pay_prog \<Rightarrow> goerror option pay_prog" where
  "fulfil_locked cfg oid body =
     Call (UpdateOrders (\<lambda>r. od_ID r = oid \<and> od_Status r \<in> {OrderStatusPaid, OrderStatusFailed})
            (\<lambda>r. r\<lparr>od_Status := OrderStatusRecharging\<rparr>)) (\<lambda>a.
       case count_of a of
         Inl err \<Rightarrow> Ret (Some (WrapError ''lock'' err))
       | Inr c \<Rightarrow>
           (if c = 0 then Ret None
            else and_then body (\<lambda>e. case e of Some err \<Rightarrow> markFailed cfg oid err (Ret (Some err)) | None \<Rightarrow> Ret None)))"

definition ExecuteBalanceFulfillment :: "pay_cfg \<Rightarrow> int \<Rightarrow> goerror option pay_prog" where
  "ExecuteBalanceFulfillment cfg oid =
     Call (GetOrder oid) (\<lambda>a.
       case order_of a of
         Inl err \<Rightarrow> Ret (Some order_not_found)
       | Inr od \<Rightarrow>
           (if od_OrderType od \<noteq> OrderTypeBalance
            then Ret (Some (app_err (BadRequest ''INVALID_ORDER_TYPE'' ''order is not a balance order'')))
            else if od_Status od = OrderStatusCompleted then Ret None
            else if psIsRefundStatus (od_Status od) then Ret (Some (bad_status ''refund-related order cannot fulfill''))
            else if od_Status od \<noteq> OrderStatusPaid \<and> od_Status od \<noteq> OrderStatusFailed
            then Ret (Some (bad_status (''order cannot fulfill in status '' @ od_Status od)))
            else fulfil_locked cfg oid (doBalance cfg od)))"

section \<open>Subscription orders\<close>

definition hasAuditLog :: "int \<Rightarrow> string \<Rightarrow> bool pay_prog" where
  "hasAuditLog oid act =
     Call (CountAudit (\<lambda>r. pa_OrderID r = oid \<and> pa_Action r = act)) (\<lambda>a.
       case count_of a of Inl err \<Rightarrow> Ret False | Inr c \<Rightarrow> Ret (0 < c))"

definition assigned_before :: "int \<Rightarrow> bool pay_prog" where
  "assigned_before oid =
     and_then (hasAuditLog oid ''SUBSCRIPTION_ASSIGNED'') (\<lambda>b.
       if b then Ret True else hasAuditLog oid ''SUBSCRIPTION_SUCCESS'')"

definition doSub :: "pay_cfg \<Rightarrow> PaymentOrder \<Rightarrow> int \<Rightarrow> int \<Rightarrow> goerror option pay_prog" where
  "doSub cfg od gid days =
     Call (Ext (GroupStatus gid)) (\<lambda>a.
       if a \<noteq> A_Str ''active'' then Ret (Some (PlainError (''group '' @ itoa gid @ '' no longer exists or inactive'')))
       else and_then (assigned_before (od_ID od)) (\<lambda>assigned.
         if assigned then rebate_and_complete cfg od ''SUBSCRIPTION_SUCCESS''
         else Call (AssignSubscription (od_ID od) (od_UserID od) gid days) (\<lambda>a.
           case err_of a of
             Some err \<Rightarrow> Ret (Some (WrapError ''assign subscription'' err))
           | None \<Rightarrow>
               writeAuditLog (od_ID od) ''SUBSCRIPTION_ASSIGNED'' ''system'' (rebate_and_complete cfg od ''SUBSCRIPTION_SUCCESS''))))"

definition ExecuteSubscriptionFulfillment :: "pay_cfg \<Rightarrow> int \<Rightarrow> goerror option pay_prog" where
  "ExecuteSubscriptionFulfillment cfg oid =
     Call (GetOrder oid) (\<lambda>a.
       case order_of a of
         Inl err \<Rightarrow> Ret (Some order_not_found)
       | Inr od \<Rightarrow>
           (if od_Status od = OrderStatusCompleted then Ret None
            else if psIsRefundStatus (od_Status od) then Ret (Some (bad_status ''refund-related order cannot fulfill''))
            else if od_Status od \<noteq> OrderStatusPaid \<and> od_Status od \<noteq> OrderStatusFailed
            then Ret (Some (bad_status (''order cannot fulfill in status '' @ od_Status od)))
            else case (od_SubscriptionGroupID od, od_SubscriptionDays od) of
                   (Some gid, Some days) \<Rightarrow> fulfil_locked cfg oid (doSub cfg od gid days)
                 | _ \<Rightarrow> Ret (Some (bad_status ''missing subscription info''))))"

section \<open>Notifications\<close>

definition executeFulfillment :: "pay_cfg \<Rightarrow> int \<Rightarrow> goerror option pay_prog" where
  "executeFulfillment cfg oid =
     Call (GetOrder oid) (\<lambda>a.
       case order_of a of
         Inl err \<Rightarrow> Ret (Some (WrapError ''get order'' err))
       | Inr od \<Rightarrow>
           (if od_OrderType od = OrderTypeSubscription then ExecuteSubscriptionFulfillment cfg oid
            else if od_OrderType od = OrderTypeBalance then ExecuteBalanceFulfillment cfg oid
            else rejectUnsupportedOrderType od (Ret None)))"

definition alreadyProcessed :: "pay_cfg \<Rightarrow> PaymentOrder \<Rightarrow> goerror option pay_prog" where
  "alreadyProcessed cfg od =
     Call (GetOrder (od_ID od)) (\<lambda>a.
       case order_of a of
         Inl err \<Rightarrow> Ret None
       | Inr cur \<Rightarrow>
           (if od_Status cur = OrderStatusCompleted \<or> od_Status cur = OrderStatusRefunded then Ret None
            else if od_Status cur = OrderStatusFailed then executeFulfillment cfg (od_ID od)
            else if od_Status cur = OrderStatusPaid \<or> od_Status cur = OrderStatusRecharging
            then Ret (Some (PlainError (''order '' @ itoa (od_ID od) @ '' is being processed'')))
            else if od_Status cur = OrderStatusExpired
            then writeAuditLog (od_ID od) ''PAYMENT_AFTER_EXPIRY'' ''system'' (Ret None)
            else Ret None))"

definition paymentGraceMinutes :: int where "paymentGraceMinutes = 5"

definition payable :: "int \<Rightarrow> gotime \<Rightarrow> PaymentOrder \<Rightarrow> bool" where
  "payable oid grace r \<longleftrightarrow> od_ID r = oid \<and>
     (od_Status r = OrderStatusPending \<or> od_Status r = OrderStatusCancelled \<or>
      od_Status r = OrderStatusExpired \<and> grace \<le> od_UpdatedAt r)"

definition toPaid :: "pay_cfg \<Rightarrow> PaymentOrder \<Rightarrow> string \<Rightarrow> float64 \<Rightarrow> string \<Rightarrow> goerror option pay_prog" where
  "toPaid cfg od tradeNo paid pk =
     now (\<lambda>t.
       (let grace = time_add t (- paymentGraceMinutes * minute) in
        Call (UpdateOrders (payable (od_ID od) grace)
               (\<lambda>r. r\<lparr>od_Status := OrderStatusPaid, od_PayAmount := paid, od_PaymentTradeNo := tradeNo, od_PaidAt := Some t,
                  od_FailedAt := None, od_FailedReason := None\<rparr>)) (\<lambda>a.
          case count_of a of
            Inl err \<Rightarrow> Ret (Some (WrapError ''update to PAID'' err))
          | Inr c \<Rightarrow>
              (if c = 0 then alreadyProcessed cfg od
               else
                 (let paid_log = writeAuditLog (od_ID od) ''ORDER_PAID'' pk (executeFulfillment cfg (od_ID od)) in
                  if od_Status od = OrderStatusCancelled \<or> od_Status od = OrderStatusExpired
                  then writeAuditLog (od_ID od) ''ORDER_RECOVERED'' pk paid_log else paid_log)))))"

definition ErrOrderNotFound :: goerror where "ErrOrderNotFound = PlainError ''payment order not found''"

text \<open>The checks of a notification against the order that it names.\<close>

definition provider_mismatch :: "string \<Rightarrow> string \<Rightarrow> bool" where
  "provider_mismatch expectedProviderKey pk \<longleftrightarrow>
     expectedProviderKey \<noteq> '''' \<and> trim_space pk \<noteq> '''' \<and> \<not> equal_fold expectedProviderKey (trim_space pk)"

definition check_notification ::
  "pay_cfg \<Rightarrow> PaymentOrder \<Rightarrow> string \<Rightarrow> float64 \<Rightarrow> string \<Rightarrow> (string, string) gomap \<Rightarrow> (string \<times> goerror) option" where
  "check_notification cfg od expectedProviderKey paid pk metadata =
     (if provider_mismatch expectedProviderKey pk
      then Some (''PAYMENT_PROVIDER_MISMATCH'', PlainError (''provider mismatch: expected '' @ expectedProviderKey @ '', got '' @ pk))
      else case validateProviderNotificationMetadata od pk metadata of
        Some err \<Rightarrow> Some (''PAYMENT_PROVIDER_METADATA_MISMATCH'', err)
      | None \<Rightarrow>
          (if \<not> isValidProviderAmount paid
           then Some (''PAYMENT_INVALID_AMOUNT'', PlainError (''invalid paid amount from provider: '' @ pl_fmt_v (pc_lib cfg) paid))
           else if amount_mismatch (pc_lib cfg) od paid
           then Some (''PAYMENT_AMOUNT_MISMATCH'', PlainError (''amount mismatch: expected '' @ pl_fmt (pc_lib cfg) (od_PayAmount od)
                  @ '', got '' @ pl_fmt (pc_lib cfg) paid))
           else None))"

definition confirmPayment ::
  "pay_cfg \<Rightarrow> int \<Rightarrow> string \<Rightarrow> float64 \<Rightarrow> string \<Rightarrow> (string, string) gomap \<Rightarrow> goerror option pay_prog" where
  "confirmPayment cfg oid tradeNo paid pk metadata =
     Call (GetOrder oid) (\<lambda>a.
       case order_of a of
         Inl err \<Rightarrow>
           Ret (Some (if err = db_not_found then WrapError ('': order_id='' @ itoa oid) ErrOrderNotFound
                      else WrapError (''load payment order '' @ itoa oid) err))
       | Inr od \<Rightarrow>
           Call (Ext (ProviderInstanceOf oid)) (\<lambda>a.
             (let instanceProviderKey = (case str_of a of Inr (Some key) \<Rightarrow> key | _ \<Rightarrow> '''') in
              Call (Ext (RegistryProviderKey (od_PaymentType od))) (\<lambda>a.
                (let registryKey = (case str_of a of Inr (Some key) \<Rightarrow> key | _ \<Rightarrow> '''');
                     expectedProviderKey = expectedNotificationProviderKeyForOrder registryKey od instanceProviderKey
                 in case check_notification cfg od expectedProviderKey paid pk metadata of
                      Some (auditAction, err) \<Rightarrow> writeAuditLog (od_ID od) auditAction pk (Ret (Some err))
                    | None \<Rightarrow> toPaid cfg od tradeNo paid pk)))))"

record PaymentNotification =
  pn_TradeNo :: string
  pn_OrderID :: string
  pn_Amount :: float64
  pn_Status :: string
  pn_Metadata :: "(string, string) gomap"

definition NotificationStatusSuccess :: string where "NotificationStatusSuccess = ''success''"

definition HandlePaymentNotification :: "pay_cfg \<Rightarrow> PaymentNotification \<Rightarrow> string \<Rightarrow> goerror option pay_prog" where
  "HandlePaymentNotification cfg n pk =
     (if pn_Status n \<noteq> NotificationStatusSuccess then Ret None
      else Call (FindOrder (pn_OrderID n)) (\<lambda>a.
        case order_of a of
          Inl err \<Rightarrow>
            (case parseLegacyPaymentOrderID (pn_OrderID n) err of
               Some oid \<Rightarrow> confirmPayment cfg oid (pn_TradeNo n) (pn_Amount n) pk (pn_Metadata n)
             | None \<Rightarrow>
                 Ret (Some (if err = db_not_found then WrapError ('': out_trade_no='' @ pn_OrderID n) ErrOrderNotFound
                            else WrapError (''lookup order failed for out_trade_no '' @ pn_OrderID n) err)))
        | Inr od \<Rightarrow> confirmPayment cfg (od_ID od) (pn_TradeNo n) (pn_Amount n) pk (pn_Metadata n)))"

definition confirm_upstream :: "PaymentNotification \<Rightarrow> string \<Rightarrow> PaymentOrder \<Rightarrow> goerror option pay_prog" where
  "confirm_upstream n pk od =
     Call (Ext (ConfirmUpstream (pn_OrderID n))) (\<lambda>a.
       case err_of a of
         None \<Rightarrow> Ret None
       | Some err \<Rightarrow> writeAuditLog (od_ID od) ''PAYMENT_UPSTREAM_UNCONFIRMED'' pk (Ret (Some err)))"

definition ConfirmNotificationUpstream :: "bool \<Rightarrow> PaymentNotification \<Rightarrow> string \<Rightarrow> goerror option pay_prog" where
  "ConfirmNotificationUpstream confirmer n pk =
     (if \<not> confirmer \<or> pn_Status n \<noteq> NotificationStatusSuccess then Ret None
      else Call (FindOrder (pn_OrderID n)) (\<lambda>a.
        case order_of a of
          Inr od \<Rightarrow> confirm_upstream n pk od
        | Inl err \<Rightarrow>
            (let failed = (\<lambda>err. Ret (if err = db_not_found then None
                   else Some (WrapError ''lookup webhook order for upstream confirmation'' err)))
             in case parseLegacyPaymentOrderID (pn_OrderID n) err of
                  None \<Rightarrow> failed err
                | Some oid \<Rightarrow>
                    Call (GetOrder oid) (\<lambda>a. case order_of a of Inr od \<Rightarrow> confirm_upstream n pk od | Inl err \<Rightarrow> failed err))))"

definition RetryFulfillment :: "pay_cfg \<Rightarrow> int \<Rightarrow> goerror option pay_prog" where
  "RetryFulfillment cfg oid =
     Call (GetOrder oid) (\<lambda>a.
       case order_of a of
         Inl err \<Rightarrow> Ret (Some order_not_found)
       | Inr od \<Rightarrow>
           (if \<not> isSupportedPaymentOrderType (od_OrderType od)
            then Ret (Some (app_err (BadRequest ''INVALID_ORDER_TYPE'' ''unsupported order type'')))
            else if od_PaidAt od = None then Ret (Some (bad_status ''order is not paid''))
            else if psIsRefundStatus (od_Status od) then Ret (Some (bad_status ''refund-related order cannot retry''))
            else if od_Status od = OrderStatusRecharging then Ret (Some (app_err (Conflict ''CONFLICT'' ''order is being processed'')))
            else if od_Status od = OrderStatusCompleted then Ret (Some (bad_status ''order already completed''))
            else if od_Status od \<noteq> OrderStatusFailed \<and> od_Status od \<noteq> OrderStatusPaid
            then Ret (Some (bad_status ''only paid and failed orders can retry''))
            else
              Call (UpdateOrders (\<lambda>r. od_ID r = oid \<and> od_Status r \<in> {OrderStatusFailed, OrderStatusPaid})
                     (\<lambda>r. r\<lparr>od_Status := OrderStatusPaid, od_FailedAt := None, od_FailedReason := None\<rparr>)) (\<lambda>a.
                case err_of a of
                  Some err \<Rightarrow> Ret (Some (WrapError ''reset for retry'' err))
                | None \<Rightarrow> writeAuditLog oid ''RECHARGE_RETRY'' ''admin'' (executeFulfillment cfg oid))))"

end
