(* ===== verification/Payment_Lifecycle.thy ===== *)
theory Payment_Lifecycle
  imports Payment_Fulfillment
begin

text \<open>
  \<open>internal/service/payment_order_lifecycle.go\<close>: cancelling and expiring orders, which first ask the
  provider whether the order was paid after all, and the reconciliation of orders whose notification
  was missed. The choice of the provider of an order and the calls to it are answers of the
  environment; the start of the window of the cancel limit is an argument, since it depends on the
  calendar.
\<close>

definition checkPaidResultAlreadyPaid :: string where "checkPaidResultAlreadyPaid = ''already_paid''"
definition checkPaidResultCancelled :: string where "checkPaidResultCancelled = ''cancelled''"
definition pendingPaymentReconcileLimit :: nat where "pendingPaymentReconcileLimit = 20"
definition ProviderStatusPaid :: string where "ProviderStatusPaid = ''paid''"
definition ProviderStatusSuccess :: string where "ProviderStatusSuccess = ''success''"

section \<open>The cancel limit\<close>

record cancel_limit =
  cl_Enabled :: bool
  cl_Max :: int
  cl_Window :: int
  cl_Unit :: string

definition checkCancelRateLimit :: "cancel_limit \<Rightarrow> gotime \<Rightarrow> int \<Rightarrow> goerror option pay_prog" where
  "checkCancelRateLimit cfg windowStart userID =
     (if \<not> cl_Enabled cfg \<or> cl_Max cfg \<le> 0 then Ret None
      else Call (CountAudit (\<lambda>r. pa_Action r = ''ORDER_CANCELLED'' \<and> pa_Operator r = ''user:'' @ itoa userID \<and> windowStart \<le> pa_CreatedAt r)) (\<lambda>a.
        case count_of a of
          Inl err \<Rightarrow> Ret None
        | Inr count \<Rightarrow>
            Ret (if cl_Max cfg \<le> count
                 then Some (app_err (WithMetadata (TooManyRequests ''CANCEL_RATE_LIMITED'' ''cancel rate limited'')
                        (Some [(''max'', itoa (cl_Max cfg)), (''window'', itoa (cl_Window cfg)), (''unit'', cl_Unit cfg)])))
                 else None)))"

section \<open>Asking the provider\<close>

definition GetBasePaymentType :: "string \<Rightarrow> string" where
  "GetBasePaymentType t =
     (if t = TypeEasyPay then TypeEasyPay
      else if t = TypeAirwallex then TypeAirwallex
      else if t = TypeStripe \<or> t = TypeCard \<or> t = TypeLink then TypeStripe
      else if has_prefix TypeAlipay t then TypeAlipay
      else if has_prefix TypeWxpay t then TypeWxpay
      else t)"

definition paymentOrderQueryReference :: "PaymentOrder \<Rightarrow> string \<Rightarrow> string" where
  "paymentOrderQueryReference od provKey =
     (let providerKey = trim_space provKey;
          providerKey = (if providerKey = '''' then (case psOrderProviderSnapshot od of Some s \<Rightarrow> trim_space (ps_ProviderKey s) | None \<Rightarrow> '''') else providerKey);
          providerKey = (if providerKey = '''' then trim_space (psStringValue (od_ProviderKey od)) else providerKey);
          providerKey = (if providerKey = '''' then trim_space (od_PaymentType od) else providerKey)
      in if GetBasePaymentType providerKey \<in> {TypeAlipay, TypeEasyPay, TypeWxpay} then trim_space (od_OutTradeNo od)
         else if trim_space (od_PaymentTradeNo od) \<noteq> '''' then trim_space (od_PaymentTradeNo od)
         else trim_space (od_OutTradeNo od))"

definition paymentOrderShouldPersistUpstreamTradeNo :: "string \<Rightarrow> string \<Rightarrow> string \<Rightarrow> bool" where
  "paymentOrderShouldPersistUpstreamTradeNo queryRef upstreamTradeNo currentTradeNo =
     (let upstreamTradeNo = trim_space upstreamTradeNo in
      upstreamTradeNo \<noteq> '''' \<and> \<not> equal_fold upstreamTradeNo (trim_space currentTradeNo)
      \<and> \<not> equal_fold upstreamTradeNo (trim_space queryRef))"

definition requeryPaidOrderOnce :: "int \<Rightarrow> string \<Rightarrow> QueryOrderResponse option pay_prog" where
  "requeryPaidOrderOnce oid queryRef =
     (if trim_space queryRef = '''' then Ret None
      else Call (Ext (QueryUpstream oid queryRef 1)) (\<lambda>a.
        case upstream_of a of
          Inl err \<Rightarrow> Ret None
        | Inr resp \<Rightarrow>
            Ret (if qr_Status resp \<noteq> ProviderStatusPaid \<or> \<not> isValidProviderAmount (qr_Amount resp) then None else Some resp)))"

definition notify_paid :: "pay_cfg \<Rightarrow> PaymentOrder \<Rightarrow> string \<Rightarrow> string \<Rightarrow> QueryOrderResponse \<Rightarrow> string pay_prog" where
  "notify_paid cfg od provKey tradeNo resp =
     and_then (HandlePaymentNotification cfg
         \<lparr>pn_TradeNo = tradeNo, pn_OrderID = od_OutTradeNo od, pn_Amount = qr_Amount resp, pn_Status = ProviderStatusSuccess,
          pn_Metadata = qr_Metadata resp\<rparr> provKey)
       (\<lambda>_. Ret checkPaidResultAlreadyPaid)"

definition settle_paid :: "pay_cfg \<Rightarrow> PaymentOrder \<Rightarrow> string \<Rightarrow> string \<Rightarrow> QueryOrderResponse \<Rightarrow> string pay_prog" where
  "settle_paid cfg od provKey queryRef resp =
     (let upstreamTradeNo = trim_space (qr_TradeNo resp) in
      if paymentOrderShouldPersistUpstreamTradeNo queryRef upstreamTradeNo (od_PaymentTradeNo od)
      then Call (UpdateOrders (\<lambda>r. od_ID r = od_ID od) (\<lambda>r. r\<lparr>od_PaymentTradeNo := upstreamTradeNo\<rparr>)) (\<lambda>_.
             notify_paid cfg od provKey upstreamTradeNo resp)
      else notify_paid cfg od provKey (od_PaymentTradeNo od) resp)"

definition checkPaidWithOptions :: "pay_cfg \<Rightarrow> PaymentOrder \<Rightarrow> bool \<Rightarrow> string pay_prog" where
  "checkPaidWithOptions cfg od cancelIfUnpaid =
     Call (Ext (OrderProvider (od_ID od))) (\<lambda>a.
       case str_of a of
         Inr (Some provKey) \<Rightarrow>
           (let queryRef = paymentOrderQueryReference od provKey in
            if queryRef = '''' then Ret ''''
            else Call (Ext (QueryUpstream (od_ID od) queryRef 0)) (\<lambda>a.
              case upstream_of a of
                Inl err \<Rightarrow> Ret ''''
              | Inr resp \<Rightarrow>
                  (if qr_Status resp = ProviderStatusPaid then
                     (if isValidProviderAmount (qr_Amount resp) then settle_paid cfg od provKey queryRef resp
                      else writeAuditLog (od_ID od) ''PAYMENT_INVALID_AMOUNT'' provKey
                        (and_then (requeryPaidOrderOnce (od_ID od) queryRef) (\<lambda>retried.
                           case retried of None \<Rightarrow> Ret '''' | Some resp \<Rightarrow> settle_paid cfg od provKey queryRef resp)))
                   else if \<not> cancelIfUnpaid then Ret ''''
                   else Call (Ext (CancelUpstream (od_ID od) queryRef)) (\<lambda>_. Ret ''''))))
       | _ \<Rightarrow> Ret '''')"

definition checkPaid :: "pay_cfg \<Rightarrow> PaymentOrder \<Rightarrow> string pay_prog" where
  "checkPaid cfg od = checkPaidWithOptions cfg od True"

definition reconcilePaid :: "pay_cfg \<Rightarrow> PaymentOrder \<Rightarrow> string pay_prog" where
  "reconcilePaid cfg od = checkPaidWithOptions cfg od False"

section \<open>Cancel and expire\<close>

definition close_order :: "PaymentOrder \<Rightarrow> string \<Rightarrow> string \<Rightarrow> (goerror + string) pay_prog" where
  "close_order od fs operator =
     Call (UpdateOrders (\<lambda>r. od_ID r = od_ID od \<and> od_Status r = OrderStatusPending) (\<lambda>r. r\<lparr>od_Status := fs\<rparr>)) (\<lambda>a.
       case count_of a of
         Inl err \<Rightarrow> Ret (Inl (WrapError ''update order status'' err))
       | Inr c \<Rightarrow>
           (if 0 < c
            then writeAuditLog (od_ID od) (if fs = OrderStatusExpired then ''ORDER_EXPIRED'' else ''ORDER_CANCELLED'') operator
                   (Ret (Inr checkPaidResultCancelled))
            else Ret (Inr checkPaidResultCancelled)))"

definition cancelCore :: "pay_cfg \<Rightarrow> PaymentOrder \<Rightarrow> string \<Rightarrow> string \<Rightarrow> (goerror + string) pay_prog" where
  "cancelCore cfg od fs operator =
     (if od_PaymentTradeNo od \<noteq> '''' \<or> od_PaymentType od \<noteq> ''''
      then and_then (checkPaid cfg od) (\<lambda>r.
        if r = checkPaidResultAlreadyPaid then Ret (Inr checkPaidResultAlreadyPaid) else close_order od fs operator)
      else close_order od fs operator)"

definition CancelOrder :: "pay_cfg \<Rightarrow> int \<Rightarrow> int \<Rightarrow> (goerror + string) pay_prog" where
  "CancelOrder cfg orderID userID =
     Call (GetOrder orderID) (\<lambda>a.
       case order_of a of
         Inl err \<Rightarrow> Ret (Inl order_not_found)
       | Inr od \<Rightarrow>
           (if od_UserID od \<noteq> userID then Ret (Inl (app_err (Forbidden ''FORBIDDEN'' ''no permission for this order'')))
            else if od_Status od \<noteq> OrderStatusPending then Ret (Inl (bad_status ''order cannot be cancelled in current status''))
            else cancelCore cfg od OrderStatusCancelled (''user:'' @ itoa userID)))"

definition AdminCancelOrder :: "pay_cfg \<Rightarrow> int \<Rightarrow> (goerror + string) pay_prog" where
  "AdminCancelOrder cfg orderID =
     Call (GetOrder orderID) (\<lambda>a.
       case order_of a of
         Inl err \<Rightarrow> Ret (Inl order_not_found)
       | Inr od \<Rightarrow>
           (if od_Status od \<noteq> OrderStatusPending then Ret (Inl (bad_status ''order cannot be cancelled in current status''))
            else cancelCore cfg od OrderStatusCancelled ''admin''))"

fun expire_orders :: "pay_cfg \<Rightarrow> PaymentOrder list \<Rightarrow> int \<Rightarrow> int pay_prog" where
  "expire_orders cfg [] n = Ret n"
| "expire_orders cfg (od # ods) n =
     and_then (cancelCore cfg od OrderStatusExpired ''system'') (\<lambda>outcome.
       expire_orders cfg ods (case outcome of Inr x \<Rightarrow> (if x = checkPaidResultAlreadyPaid then n else n + 1) | Inl err \<Rightarrow> n))"

definition ExpireTimedOutOrders :: "pay_cfg \<Rightarrow> (goerror + int) pay_prog" where
  "ExpireTimedOutOrders cfg =
     now (\<lambda>t.
       Call (ListOrders (\<lambda>r. od_Status r = OrderStatusPending \<and> od_ExpiresAt r \<le> t)) (\<lambda>a.
         case orders_of a of
           Inl err \<Rightarrow> Ret (Inl (WrapError ''query expired'' err))
         | Inr ods \<Rightarrow> and_then (expire_orders cfg ods 0) (\<lambda>n. Ret (Inr n))))"

section \<open>Reconciliation\<close>

definition is_type :: "string \<Rightarrow> string \<Rightarrow> bool" where
  "is_type t s \<longleftrightarrow> s = t \<or> has_prefix (t @ ''_'') s"

definition reconcilable :: "gotime \<Rightarrow> PaymentOrder \<Rightarrow> bool" where
  "reconcilable t r \<longleftrightarrow> od_Status r = OrderStatusPending \<and> t < od_ExpiresAt r \<and>
     (is_type TypeWxpay (od_PaymentType r) \<or> (case od_ProviderKey r of Some k \<Rightarrow> is_type TypeWxpay k | None \<Rightarrow> False) \<or>
      is_type TypeAlipay (od_PaymentType r) \<or> (case od_ProviderKey r of Some k \<Rightarrow> is_type TypeAlipay k | None \<Rightarrow> False))"

fun reconcile_orders :: "pay_cfg \<Rightarrow> PaymentOrder list \<Rightarrow> int \<Rightarrow> int pay_prog" where
  "reconcile_orders cfg [] n = Ret n"
| "reconcile_orders cfg (od # ods) n =
     and_then (reconcilePaid cfg od) (\<lambda>r. reconcile_orders cfg ods (if r = checkPaidResultAlreadyPaid then n + 1 else n))"

definition ReconcilePendingPaymentOrders :: "pay_cfg \<Rightarrow> (goerror + int) pay_prog" where
  "ReconcilePendingPaymentOrders cfg =
     now (\<lambda>t.
       Call (ListOrders (reconcilable t)) (\<lambda>a.
         case orders_of a of
           Inl err \<Rightarrow> Ret (Inl (WrapError ''query pending payment orders'' err))
         | Inr ods \<Rightarrow>
             and_then (reconcile_orders cfg (take pendingPaymentReconcileLimit (sort_key od_CreatedAt ods)) 0) (\<lambda>n. Ret (Inr n))))"

definition invalid_trade_no :: "string \<Rightarrow> goerror" where
  "invalid_trade_no m = app_err (BadRequest ''INVALID_OUT_TRADE_NO'' m)"

definition trade_no_char :: "char \<Rightarrow> bool" where
  "trade_no_char c =
     (let n = (of_char c :: nat) in 97 \<le> n \<and> n \<le> 122 \<or> 65 \<le> n \<and> n \<le> 90 \<or> 48 \<le> n \<and> n \<le> 57 \<or> c = CHR ''_'' \<or> c = CHR ''-'')"

definition normalizeOrderLookupOutTradeNo :: "string \<Rightarrow> goerror + string" where
  "normalizeOrderLookupOutTradeNo raw =
     (let outTradeNo = trim_space raw in
      if outTradeNo = '''' then Inl (invalid_trade_no ''out_trade_no is required'')
      else if 64 < length outTradeNo then Inl (invalid_trade_no ''out_trade_no is invalid'')
      else if list_all trade_no_char outTradeNo then Inr outTradeNo
      else Inl (invalid_trade_no ''out_trade_no is invalid''))"

definition VerifyOrderByOutTradeNo :: "pay_cfg \<Rightarrow> string \<Rightarrow> int \<Rightarrow> (goerror + PaymentOrder) pay_prog" where
  "VerifyOrderByOutTradeNo cfg outTradeNo userID =
     (case normalizeOrderLookupOutTradeNo outTradeNo of
        Inl err \<Rightarrow> Ret (Inl err)
      | Inr outTradeNo \<Rightarrow>
          Call (FindOrder outTradeNo) (\<lambda>a.
            case order_of a of
              Inl err \<Rightarrow> Ret (Inl order_not_found)
            | Inr od \<Rightarrow>
                (if od_UserID od \<noteq> userID then Ret (Inl (app_err (Forbidden ''FORBIDDEN'' ''no permission for this order'')))
                 else if od_Status od = OrderStatusPending \<or> od_Status od = OrderStatusExpired then
                   and_then (reconcilePaid cfg od) (\<lambda>r.
                     if r = checkPaidResultAlreadyPaid
                     then Call (GetOrder (od_ID od)) (\<lambda>a.
                            case order_of a of Inl err \<Rightarrow> Ret (Inl (WrapError ''reload order'' err)) | Inr od' \<Rightarrow> Ret (Inr od'))
                     else Ret (Inr od))
                 else Ret (Inr od))))"

definition VerifyOrderPublic :: "string \<Rightarrow> (goerror + PaymentOrder) pay_prog" where
  "VerifyOrderPublic outTradeNo =
     (case normalizeOrderLookupOutTradeNo outTradeNo of
        Inl err \<Rightarrow> Ret (Inl err)
      | Inr outTradeNo \<Rightarrow>
          Call (FindOrder outTradeNo) (\<lambda>a. case order_of a of Inl err \<Rightarrow> Ret (Inl order_not_found) | Inr od \<Rightarrow> Ret (Inr od)))"

end
