(* ===== verification/Payment_Safety.thy ===== *)
theory Payment_Safety
  imports Payment_Lifecycle
begin

text \<open>
  What holds of the payment service when any number of its handlers run concurrently, with faults of
  the database at every statement, crashes, and an environment that creates orders and codes, settles
  refunds and changes everything that the handlers do not own. The handlers form an interpretation of
  the locale \<open>interference\<close>: each knows facts about its order and its code that nobody can falsify,
  and only with this knowledge it may create a code, redeem it, or complete an order.
\<close>

section \<open>Facts that a handler learns\<close>

datatype pay_fact = OrderIs int string string float64 | CodeIs int string string float64 | UsedCode int

definition order_fact :: "PaymentOrder \<Rightarrow> pay_fact" where
  "order_fact r = OrderIs (od_ID r) (od_OrderType r) (od_RechargeCode r) (od_Amount r)"

definition code_fact :: "RedeemCode \<Rightarrow> pay_fact" where
  "code_fact r = CodeIs (rc_ID r) (rc_Code r) (rc_Type r) (rc_Value r)"

fun fact_holds :: "pay_fact \<Rightarrow> pay_db \<Rightarrow> bool" where
  "fact_holds (OrderIs oid ty code amt) s \<longleftrightarrow> OrderIs oid ty code amt \<in> order_fact ` set (pd_orders s)"
| "fact_holds (CodeIs cid code ty v) s \<longleftrightarrow> CodeIs cid code ty v \<in> code_fact ` set (pd_codes s)"
| "fact_holds (UsedCode cid) s \<longleftrightarrow> (\<exists>r\<in>set (pd_codes s). rc_ID r = cid \<and> IsUsed r)"

section \<open>The status graph\<close>

definition settled :: "string \<Rightarrow> bool" where
  "settled st \<longleftrightarrow> st = OrderStatusCompleted \<or> psIsRefundStatus st"

text \<open>The moves of the handlers, the failure of a creation, and the refund service.\<close>

definition moves :: "string \<Rightarrow> string \<Rightarrow> bool" where
  "moves old new \<longleftrightarrow> new = old
     \<or> new = OrderStatusPaid \<and> old \<in> {OrderStatusPending, OrderStatusCancelled, OrderStatusExpired, OrderStatusFailed}
     \<or> new = OrderStatusRecharging \<and> old \<in> {OrderStatusPaid, OrderStatusFailed}
     \<or> new = OrderStatusCompleted \<and> old = OrderStatusRecharging
     \<or> new \<in> {OrderStatusCancelled, OrderStatusExpired} \<and> old = OrderStatusPending
     \<or> new = OrderStatusFailed
     \<or> settled new \<and> settled old"

section \<open>Statements that a handler may issue\<close>

definition credited :: "pay_fact set \<Rightarrow> string \<Rightarrow> bool" where
  "credited K code \<longleftrightarrow> (\<exists>cid ty v. CodeIs cid code ty v \<in> K \<and> UsedCode cid \<in> K)"

definition agrees :: "pay_fact set \<Rightarrow> PaymentOrder \<Rightarrow> bool" where
  "agrees K r \<longleftrightarrow> (\<forall>oid ty code amt. OrderIs oid ty code amt \<in> K \<longrightarrow> od_ID r = oid \<longrightarrow> order_fact r = OrderIs oid ty code amt)"

definition update_ok :: "pay_fact set \<Rightarrow> (PaymentOrder \<Rightarrow> bool) \<Rightarrow> (PaymentOrder \<Rightarrow> PaymentOrder) \<Rightarrow> bool" where
  "update_ok K p f \<longleftrightarrow> (\<forall>r. p r \<longrightarrow> agrees K r \<longrightarrow> order_fact (f r) = order_fact r \<and> moves (od_Status r) (od_Status (f r))
     \<and> (settled (od_Status (f r)) \<longrightarrow> settled (od_Status r) \<or> od_OrderType r \<noteq> OrderTypeBalance \<or> credited K (od_RechargeCode r)))"

definition insert_ok :: "pay_fact set \<Rightarrow> RedeemCode \<Rightarrow> bool" where
  "insert_ok K r \<longleftrightarrow> (\<exists>oid code. OrderIs oid OrderTypeBalance code (rc_Value r) \<in> K \<and> rc_Code r = trim_space code
     \<and> rc_Type r = RedeemTypeBalance \<and> rc_Status r = StatusUnused)"

definition redeem_ok :: "pay_fact set \<Rightarrow> int \<Rightarrow> grant \<Rightarrow> bool" where
  "redeem_ok K cid g \<longleftrightarrow> (\<exists>code ty v. CodeIs cid code ty v \<in> K \<and>
     (ty = RedeemTypeBalance \<and> \<not> flt v (Finite 0) \<longrightarrow> g = GrantBalance v))"

definition pay_legal :: "pay_fact set \<Rightarrow> pay_stmt \<Rightarrow> bool" where
  "pay_legal K c =
     (case c of UpdateOrders p f \<Rightarrow> update_ok K p f | InsertCode r \<Rightarrow> insert_ok K r | RedeemTx cid uid g \<Rightarrow> redeem_ok K cid g
      | _ \<Rightarrow> True)"

definition pay_poss :: "pay_stmt \<Rightarrow> pay_ans \<Rightarrow> bool" where
  "pay_poss c a =
     (case c of GetOrder oid \<Rightarrow> (\<forall>r. a = A_Order r \<longrightarrow> od_ID r = oid) | GetCode code \<Rightarrow> (\<forall>r. a = A_Code r \<longrightarrow> rc_Code r = code)
      | RedeemTx cid uid g \<Rightarrow> a = A_Unit \<or> (\<exists>n e. a = A_Err n e) | _ \<Rightarrow> True)"

definition learn_code :: "pay_ans \<Rightarrow> pay_fact set" where
  "learn_code a = (case a of A_Code r \<Rightarrow> insert (code_fact r) (if IsUsed r then {UsedCode (rc_ID r)} else {}) | _ \<Rightarrow> {})"

definition pay_learn :: "pay_stmt \<Rightarrow> pay_ans \<Rightarrow> pay_fact set" where
  "pay_learn c a =
     (case c of
        GetOrder oid \<Rightarrow> (case a of A_Order r \<Rightarrow> {order_fact r} | _ \<Rightarrow> {})
      | FindOrder no \<Rightarrow> (case a of A_Order r \<Rightarrow> {order_fact r} | _ \<Rightarrow> {})
      | ListOrders p \<Rightarrow> (case a of A_Orders rs \<Rightarrow> order_fact ` set rs | _ \<Rightarrow> {})
      | GetCode code \<Rightarrow> learn_code a
      | RedeemTx cid uid g \<Rightarrow> (if a = A_Unit then {UsedCode cid} else {})
      | _ \<Rightarrow> {})"

section \<open>The invariant\<close>

abbreviation balance_order :: "PaymentOrder \<Rightarrow> bool" where
  "balance_order r \<equiv> od_OrderType r = OrderTypeBalance"

definition orders_ok :: "PaymentOrder list \<Rightarrow> string set \<Rightarrow> bool" where
  "orders_ok orders redeemed \<longleftrightarrow> distinct (map od_ID orders)
     \<and> (\<forall>r\<in>set orders. balance_order r \<longrightarrow> trim_space (od_RechargeCode r) = od_RechargeCode r)
     \<and> (\<forall>r\<in>set orders. \<forall>r'\<in>set orders. balance_order r \<and> balance_order r' \<and> od_RechargeCode r = od_RechargeCode r' \<longrightarrow> od_ID r = od_ID r')
     \<and> (\<forall>r\<in>set orders. balance_order r \<and> settled (od_Status r) \<longrightarrow> od_RechargeCode r \<in> redeemed)"

definition codes_ok :: "RedeemCode list \<Rightarrow> int \<Rightarrow> string set \<Rightarrow> bool" where
  "codes_ok codes nxt redeemed \<longleftrightarrow> distinct (map rc_ID codes) \<and> distinct (map rc_Code codes) \<and> (\<forall>r\<in>set codes. rc_ID r < nxt)
     \<and> (\<forall>r\<in>set codes. rc_Status r = StatusUnused \<longrightarrow> rc_Code r \<notin> redeemed)
     \<and> (\<forall>r\<in>set codes. IsUsed r \<longrightarrow> rc_Code r \<in> redeemed)
     \<and> redeemed \<subseteq> rc_Code ` set codes"

text \<open>The code of a balance order carries the amount of the order, and so does what it granted.\<close>

definition codes_match :: "PaymentOrder list \<Rightarrow> RedeemCode list \<Rightarrow> bool" where
  "codes_match orders codes \<longleftrightarrow> (\<forall>q\<in>set orders. \<forall>r\<in>set codes. balance_order q \<and> rc_Code r = od_RechargeCode q \<longrightarrow>
     rc_Type r = RedeemTypeBalance \<and> rc_Value r = od_Amount q)"

definition grants_match :: "PaymentOrder list \<Rightarrow> (string \<times> int \<times> grant) list \<Rightarrow> bool" where
  "grants_match orders redeemed \<longleftrightarrow> (\<forall>q\<in>set orders. \<forall>(code, uid, g)\<in>set redeemed.
     balance_order q \<and> code = od_RechargeCode q \<and> \<not> flt (od_Amount q) (Finite 0) \<longrightarrow> g = GrantBalance (od_Amount q))"

definition rebates_ok :: "(int \<times> float64) list \<Rightarrow> PaymentAuditLog list \<Rightarrow> bool" where
  "rebates_ok rebates audit \<longleftrightarrow> distinct (map fst rebates) \<and>
     (\<forall>oid\<in>fst ` set rebates. audited oid [''AFFILIATE_REBATE_APPLIED''] audit)"

definition pay_inv :: "pay_db \<Rightarrow> bool" where
  "pay_inv s \<longleftrightarrow> orders_ok (pd_orders s) (fst ` set (pd_redeemed s)) \<and> codes_ok (pd_codes s) (pd_next s) (fst ` set (pd_redeemed s))
     \<and> codes_match (pd_orders s) (pd_codes s) \<and> grants_match (pd_orders s) (pd_redeemed s)
     \<and> distinct (map fst (pd_redeemed s)) \<and> rebates_ok (pd_rebates s) (pd_audit s)"

lemmas pay_inv_parts = pay_inv_def orders_ok_def codes_ok_def codes_match_def grants_match_def rebates_ok_def

definition pay_guar :: "pay_db \<Rightarrow> pay_db \<Rightarrow> bool" where
  "pay_guar s s' \<longleftrightarrow> order_fact ` set (pd_orders s) \<subseteq> order_fact ` set (pd_orders s')
     \<and> code_fact ` set (pd_codes s) \<subseteq> code_fact ` set (pd_codes s')
     \<and> (\<forall>cid. fact_holds (UsedCode cid) s \<longrightarrow> fact_holds (UsedCode cid) s')
     \<and> (\<forall>r\<in>set (pd_orders s). \<forall>r'\<in>set (pd_orders s'). od_ID r = od_ID r' \<longrightarrow> moves (od_Status r) (od_Status r'))"

section \<open>What the environment may do\<close>

inductive pay_env :: "pay_db \<Rightarrow> pay_db \<Rightarrow> bool" where
  outside: "pd_clock s \<le> t \<Longrightarrow>
    pay_env s (s\<lparr>pd_clock := t, pd_ext := x, pd_attempts := n, pd_locks := l, pd_users := u, pd_assigned := g\<rparr>)"
| new_order: "od_ID r \<notin> od_ID ` set (pd_orders s) \<Longrightarrow> od_Status r = OrderStatusPending \<Longrightarrow>
    trim_space (od_RechargeCode r) = od_RechargeCode r \<Longrightarrow> od_RechargeCode r \<notin> od_RechargeCode ` set (pd_orders s) \<Longrightarrow>
    od_RechargeCode r \<notin> rc_Code ` set (pd_codes s) \<Longrightarrow> pay_env s (s\<lparr>pd_orders := pd_orders s @ [r]\<rparr>)"
| creation_failed: "pay_env s (s\<lparr>pd_orders := map (\<lambda>r. if od_ID r = oid then r\<lparr>od_Status := OrderStatusFailed, od_UpdatedAt := t\<rparr> else r) (pd_orders s)\<rparr>)"
| details: "\<forall>r. order_fact (f r) = order_fact r \<and> od_Status (f r) = od_Status r \<Longrightarrow> pay_env s (s\<lparr>pd_orders := map f (pd_orders s)\<rparr>)"
| refund: "settled st \<Longrightarrow>
    pay_env s (s\<lparr>pd_orders := map (\<lambda>r. if od_ID r = oid \<and> settled (od_Status r) then r\<lparr>od_Status := st, od_UpdatedAt := t\<rparr> else r) (pd_orders s)\<rparr>)"
| new_code: "rc_Code r \<notin> rc_Code ` set (pd_codes s) \<Longrightarrow> rc_Code r \<notin> od_RechargeCode ` set (pd_orders s) \<Longrightarrow> rc_Status r = StatusUnused \<Longrightarrow>
    rc_ID r = pd_next s \<Longrightarrow> pay_env s (s\<lparr>pd_codes := pd_codes s @ [r], pd_next := pd_next s + 1\<rparr>)"
| audit: "pay_env s (s\<lparr>pd_audit := pd_audit s @ [r]\<rparr>)"

section \<open>Statements keep the invariant\<close>

lemma exec_state: "pay_exec lib f c s = (s', a) \<Longrightarrow> s' = s \<or> s' = fst (effect lib c s)"
  by (auto simp: pay_exec_def split: if_splits pay_fault.splits)

lemma exec_answer: "pay_exec lib f c s = (s', a) \<Longrightarrow> (\<exists>n e. a = A_Err n e) \<or> effect lib c s = (s', a)"
  by (auto simp: pay_exec_def split: if_splits pay_fault.splits)

lemma same_order: "pay_inv s \<Longrightarrow> r \<in> set (pd_orders s) \<Longrightarrow> r' \<in> set (pd_orders s) \<Longrightarrow> od_ID r = od_ID r' \<Longrightarrow> r = r'"
  by (auto simp: pay_inv_def orders_ok_def distinct_map dest: inj_onD)

lemma same_code: "pay_inv s \<Longrightarrow> r \<in> set (pd_codes s) \<Longrightarrow> r' \<in> set (pd_codes s) \<Longrightarrow> rc_ID r = rc_ID r' \<Longrightarrow> r = r'"
  by (auto simp: pay_inv_def codes_ok_def distinct_map dest: inj_onD)

lemma inv_orders:
  assumes "pay_inv s" "r \<in> set (pd_orders s)" "balance_order r"
  shows "trim_space (od_RechargeCode r) = od_RechargeCode r"
    and "r' \<in> set (pd_orders s) \<Longrightarrow> balance_order r' \<Longrightarrow> od_RechargeCode r = od_RechargeCode r' \<Longrightarrow> od_ID r = od_ID r'"
    and "settled (od_Status r) \<Longrightarrow> od_RechargeCode r \<in> fst ` set (pd_redeemed s)"
  using assms unfolding pay_inv_def orders_ok_def by blast+

lemma inv_codes:
  assumes "pay_inv s" "r \<in> set (pd_codes s)"
  shows "rc_ID r < pd_next s" "rc_Status r = StatusUnused \<Longrightarrow> rc_Code r \<notin> fst ` set (pd_redeemed s)"
    and "IsUsed r \<Longrightarrow> rc_Code r \<in> fst ` set (pd_redeemed s)"
    and "q \<in> set (pd_orders s) \<Longrightarrow> balance_order q \<Longrightarrow> rc_Code r = od_RechargeCode q \<Longrightarrow>
      rc_Type r = RedeemTypeBalance \<and> rc_Value r = od_Amount q"
  using assms unfolding pay_inv_def codes_ok_def codes_match_def by blast+

lemma known_agrees:
  assumes "pay_inv s" "known fact_holds K s" "r \<in> set (pd_orders s)"
  shows "agrees K r"
  unfolding agrees_def
proof (intro allI impI)
  fix oid ty code amt
  assume "OrderIs oid ty code amt \<in> K" and id: "od_ID r = oid"
  with assms(2) have "fact_holds (OrderIs oid ty code amt) s" by (simp only: known_def)
  then obtain r' where r': "r' \<in> set (pd_orders s)" "order_fact r' = OrderIs oid ty code amt" by auto
  with id have "od_ID r = od_ID r'" by (simp add: order_fact_def)
  with same_order assms(1,3) r' show "order_fact r = OrderIs oid ty code amt" by blast
qed

lemma credited_redeemed:
  assumes "pay_inv s" "known fact_holds K s" "credited K code"
  shows "code \<in> fst ` set (pd_redeemed s)"
proof -
  from assms(3) obtain cid ty v where "CodeIs cid code ty v \<in> K" "UsedCode cid \<in> K" by (auto simp: credited_def)
  with assms(2) have "fact_holds (CodeIs cid code ty v) s" "fact_holds (UsedCode cid) s" by (simp_all only: known_def)
  then obtain r r' where r: "r \<in> set (pd_codes s)" "code_fact r = CodeIs cid code ty v" "r' \<in> set (pd_codes s)" "rc_ID r' = cid" "IsUsed r'"
    by auto
  then have "r = r'" using same_code [OF assms(1)] by (simp add: code_fact_def)
  with r assms(1) show ?thesis by (auto simp: pay_inv_def codes_ok_def code_fact_def)
qed

lemma order_fact_update [simp]: "order_fact (r\<lparr>od_UpdatedAt := t\<rparr>) = order_fact r" "order_fact (r\<lparr>od_Status := st\<rparr>) = order_fact r"
  by (simp_all add: order_fact_def)

lemma order_factD:
  assumes "order_fact r' = order_fact r"
  shows "od_ID r' = od_ID r" "od_OrderType r' = od_OrderType r" "od_RechargeCode r' = od_RechargeCode r" "od_Amount r' = od_Amount r"
  using assms by (simp_all add: order_fact_def)

text \<open>An update of orders that keeps what orders are, and settles only orders whose code is redeemed.\<close>

lemma orders_map_inv:
  assumes inv: "pay_inv s"
    and f: "\<And>r. r \<in> set (pd_orders s) \<Longrightarrow> order_fact (f r) = order_fact r \<and> moves (od_Status r) (od_Status (f r))
      \<and> (settled (od_Status (f r)) \<longrightarrow> settled (od_Status r) \<or> \<not> balance_order r \<or> od_RechargeCode r \<in> fst ` set (pd_redeemed s))"
  shows "pay_inv (s\<lparr>pd_orders := map f (pd_orders s)\<rparr>)" "pay_guar s (s\<lparr>pd_orders := map f (pd_orders s)\<rparr>)"
proof -
  let ?rs = "pd_orders s"
  have fact: "order_fact (f r) = order_fact r" if "r \<in> set ?rs" for r using f [OF that] by simp
  note keep = order_factD [OF fact]
  have ids: "map od_ID (map f ?rs) = map od_ID ?rs" using keep(1) by simp
  have "distinct (map od_ID (map f ?rs))" unfolding ids using inv by (simp add: pay_inv_def orders_ok_def)
  moreover have "trim_space (od_RechargeCode (f r)) = od_RechargeCode (f r)" if "r \<in> set ?rs" "balance_order (f r)" for r
    using inv_orders(1) [OF inv that(1)] that(2) unfolding keep [OF that(1)] by simp
  moreover have "od_ID (f r) = od_ID (f r')" if "r \<in> set ?rs" "r' \<in> set ?rs" "balance_order (f r)" "balance_order (f r')"
    "od_RechargeCode (f r) = od_RechargeCode (f r')" for r r'
    using that(3-5) unfolding keep [OF that(1)] keep [OF that(2)] by (intro inv_orders(2) [OF inv that(1) _ that(2)])
  moreover have "od_RechargeCode (f r) \<in> fst ` set (pd_redeemed s)" if "r \<in> set ?rs" "balance_order (f r)" "settled (od_Status (f r))" for r
    using f [OF that(1)] that(2,3) inv_orders(3) [OF inv that(1)] unfolding keep [OF that(1)] by blast
  ultimately have "orders_ok (map f ?rs) (fst ` set (pd_redeemed s))" unfolding orders_ok_def set_map by blast
  moreover have "codes_match (map f ?rs) (pd_codes s)" "grants_match (map f ?rs) (pd_redeemed s)"
    using inv unfolding pay_inv_def codes_match_def grants_match_def by (simp_all add: keep)
  ultimately show "pay_inv (s\<lparr>pd_orders := map f ?rs\<rparr>)" using inv by (simp add: pay_inv_def)
  have "moves (od_Status r) (od_Status (f r'))" if "r \<in> set ?rs" "r' \<in> set ?rs" "od_ID r = od_ID (f r')" for r r'
  proof -
    have "r = r'" using same_order [OF inv that(1,2)] that(3) keep(1) [OF that(2)] by simp
    then show ?thesis using f [OF that(2)] by simp
  qed
  moreover have "order_fact ` f ` set ?rs = order_fact ` set ?rs" using fact by (force simp: image_image)
  ultimately show "pay_guar s (s\<lparr>pd_orders := map f ?rs\<rparr>)" by (auto simp: pay_guar_def)
qed

lemma guar_same:
  assumes "pay_inv s" "pd_orders s' = pd_orders s" "pd_codes s' = pd_codes s"
  shows "pay_guar s s'"
proof -
  have "moves (od_Status r) (od_Status r')" if "r \<in> set (pd_orders s)" "r' \<in> set (pd_orders s)" "od_ID r = od_ID r'" for r r'
    using same_order [OF assms(1) that] by (simp add: moves_def)
  then show ?thesis using assms(2,3) by (simp add: pay_guar_def)
qed

lemma inv_same:
  assumes "pay_inv s" "pd_orders s' = pd_orders s" "pd_codes s' = pd_codes s" "pd_next s' = pd_next s"
    and "pd_redeemed s' = pd_redeemed s" "rebates_ok (pd_rebates s') (pd_audit s')"
  shows "pay_inv s'" "pay_guar s s'"
  using assms guar_same [OF assms(1-3)] unfolding pay_inv_def by (metis, simp)

lemma update_keeps:
  assumes "pay_inv s" "known fact_holds K s" "update_ok K p f"
  shows "pay_inv (fst (effect lib (UpdateOrders p f) s))" "pay_guar s (fst (effect lib (UpdateOrders p f) s))"
proof -
  let ?f = "\<lambda>r. if p r then (f r)\<lparr>od_UpdatedAt := pd_clock s\<rparr> else r"
  have "order_fact (?f r) = order_fact r \<and> moves (od_Status r) (od_Status (?f r))
      \<and> (settled (od_Status (?f r)) \<longrightarrow> settled (od_Status r) \<or> \<not> balance_order r \<or> od_RechargeCode r \<in> fst ` set (pd_redeemed s))"
    if "r \<in> set (pd_orders s)" for r
    using assms(3) known_agrees [OF assms(1,2) that] credited_redeemed [OF assms(1,2)]
    by (auto simp: update_ok_def moves_def)
  from orders_map_inv [OF assms(1) this] show "pay_inv (fst (effect lib (UpdateOrders p f) s))"
    "pay_guar s (fst (effect lib (UpdateOrders p f) s))" by simp_all
qed

text \<open>A new code, which is not the code of another order.\<close>

lemma new_code_keeps:
  assumes inv: "pay_inv s" and new: "rc_Code r \<notin> rc_Code ` set (pd_codes s)" "rc_Status r = StatusUnused" "rc_ID r = pd_next s"
    and "\<And>q. q \<in> set (pd_orders s) \<Longrightarrow> balance_order q \<Longrightarrow> rc_Code r = od_RechargeCode q \<Longrightarrow>
      rc_Type r = RedeemTypeBalance \<and> rc_Value r = od_Amount q"
  shows "pay_inv (s\<lparr>pd_codes := pd_codes s @ [r], pd_next := pd_next s + 1\<rparr>)"
    and "pay_guar s (s\<lparr>pd_codes := pd_codes s @ [r], pd_next := pd_next s + 1\<rparr>)"
proof -
  let ?R = "fst ` set (pd_redeemed s)"
  have ids: "rc_ID r \<notin> rc_ID ` set (pd_codes s)" using inv_codes(1) [OF inv] new(3) by force
  have sub: "?R \<subseteq> rc_Code ` set (pd_codes s)" using inv by (simp add: pay_inv_def codes_ok_def)
  with new have fresh: "rc_Code r \<notin> ?R" "\<not> IsUsed r" by (auto simp: IsUsed_def code_statuses)
  have "codes_ok (pd_codes s @ [r]) (pd_next s + 1) ?R"
    using inv new ids fresh inv_codes(1) [OF inv] unfolding pay_inv_def codes_ok_def by (auto intro: order_less_imp_le)
  moreover have "codes_match (pd_orders s) (pd_codes s @ [r])"
    using inv assms(5) unfolding pay_inv_def codes_match_def by auto
  ultimately show "pay_inv (s\<lparr>pd_codes := pd_codes s @ [r], pd_next := pd_next s + 1\<rparr>)"
    using inv by (simp add: pay_inv_def)
  have "pay_guar s (s\<lparr>pd_codes := pd_codes s\<rparr>)" using guar_same [OF inv] by simp
  then show "pay_guar s (s\<lparr>pd_codes := pd_codes s @ [r], pd_next := pd_next s + 1\<rparr>)" by (auto simp: pay_guar_def)
qed

lemma insert_keeps:
  assumes inv: "pay_inv s" and "known fact_holds K s" "insert_ok K r"
  shows "pay_inv (fst (effect lib (InsertCode r) s)) \<and> pay_guar s (fst (effect lib (InsertCode r) s))"
proof (cases "rc_Code r = [] \<or> 32 < length (rc_Code r) \<or> list_ex (\<lambda>r'. rc_Code r' = rc_Code r) (pd_codes s)")
  case True
  then show ?thesis using inv guar_same [OF inv] by auto
next
  case False
  then have new: "rc_Code r \<notin> rc_Code ` set (pd_codes s)" by (auto simp: list_ex_iff)
  from assms(3) obtain oid code where fact: "OrderIs oid OrderTypeBalance code (rc_Value r) \<in> K"
    and r: "rc_Code r = trim_space code" "rc_Type r = RedeemTypeBalance" "rc_Status r = StatusUnused" by (auto simp: insert_ok_def)
  from fact assms(2) have "fact_holds (OrderIs oid OrderTypeBalance code (rc_Value r)) s" by (simp only: known_def)
  then obtain q where q: "q \<in> set (pd_orders s)" "balance_order q" "od_RechargeCode q = code" "od_Amount q = rc_Value r"
    by (auto simp: order_fact_def)
  have code: "rc_Code r = od_RechargeCode q" using inv_orders(1) [OF inv q(1,2)] r q by simp
  let ?r = "r\<lparr>rc_ID := pd_next s, rc_CreatedAt := pd_clock s\<rparr>"
  have "rc_Type ?r = RedeemTypeBalance \<and> rc_Value ?r = od_Amount q'"
    if "q' \<in> set (pd_orders s)" "balance_order q'" "rc_Code ?r = od_RechargeCode q'" for q'
  proof -
    have "od_ID q = od_ID q'" using inv_orders(2) [OF inv q(1,2) that(1,2)] that(3) code by simp
    with same_order [OF inv q(1) that(1)] show ?thesis using r q by simp
  qed
  moreover have "rc_Code ?r \<notin> rc_Code ` set (pd_codes s)" "rc_Status ?r = StatusUnused" "rc_ID ?r = pd_next s"
    using new r(3) by simp_all
  moreover have "fst (effect lib (InsertCode r) s) = s\<lparr>pd_codes := pd_codes s @ [?r], pd_next := pd_next s + 1\<rparr>"
    using False by simp
  ultimately show ?thesis using new_code_keeps [OF inv, of ?r] by metis
qed

text \<open>Redeeming marks one code, which was not redeemed before, and grants what the code is worth.\<close>

definition mark_used :: "int \<Rightarrow> int \<Rightarrow> gotime \<Rightarrow> RedeemCode \<Rightarrow> RedeemCode" where
  "mark_used cid uid t r =
     (if code_unused cid r then r\<lparr>rc_Status := StatusUsed, rc_UsedBy := Some uid, rc_UsedAt := Some t\<rparr> else r)"

lemma mark_used_keeps [simp]: "rc_ID (mark_used cid uid t r) = rc_ID r" "rc_Code (mark_used cid uid t r) = rc_Code r"
  "rc_Type (mark_used cid uid t r) = rc_Type r" "rc_Value (mark_used cid uid t r) = rc_Value r"
  "code_fact (mark_used cid uid t r) = code_fact r" "IsUsed r \<Longrightarrow> IsUsed (mark_used cid uid t r)"
  by (auto simp: mark_used_def code_fact_def IsUsed_def)

lemma mark_used_status:
  "rc_Status (mark_used cid uid t r) = StatusUnused \<longleftrightarrow> rc_Status r = StatusUnused \<and> rc_ID r \<noteq> cid"
  "IsUsed (mark_used cid uid t r) \<longleftrightarrow> IsUsed r \<or> code_unused cid r"
  by (auto simp: mark_used_def code_unused_def IsUsed_def code_statuses)

lemma redeem_tx_cases:
  obtains (refused) n e where "redeem_tx lib cid uid g s = (s, A_Err n e)"
  | (granted) r users where "r \<in> set (pd_codes s)" "code_unused cid r"
    "redeem_tx lib cid uid g s = (s\<lparr>pd_codes := map (mark_used cid uid (pd_clock s)) (pd_codes s), pd_users := users,
       pd_redeemed := pd_redeemed s @ [(rc_Code r, uid, g)]\<rparr>, A_Unit)"
proof (cases "find (code_unused cid) (pd_codes s)")
  case None
  then show ?thesis using refused by (simp add: redeem_tx_def)
next
  case (Some r)
  then have r: "r \<in> set (pd_codes s)" "code_unused cid r" by (auto simp: find_Some_iff)
  show ?thesis
  proof (cases "give lib uid g (pd_users s)")
    case None
    then show ?thesis using Some refused by (simp add: redeem_tx_def)
  next
    case users: (Some users)
    have "mark_used cid uid (pd_clock s) = (\<lambda>r. if code_unused cid r
        then r\<lparr>rc_Status := StatusUsed, rc_UsedBy := Some uid, rc_UsedAt := Some (pd_clock s)\<rparr> else r)"
      by (simp add: mark_used_def fun_eq_iff)
    then show ?thesis using granted [OF r] Some users by (simp add: redeem_tx_def)
  qed
qed

lemma granted_keeps:
  assumes inv: "pay_inv s" and r: "r \<in> set (pd_codes s)" "code_unused cid r" and known: "known fact_holds K s" "redeem_ok K cid g"
    and s': "s' = s\<lparr>pd_codes := map (mark_used cid uid t) (pd_codes s), pd_users := users, pd_redeemed := pd_redeemed s @ [(rc_Code r, uid, g)]\<rparr>"
  shows "pay_inv s'" "pay_guar s s'" "fact_holds (UsedCode cid) s'"
proof -
  let ?R = "fst ` set (pd_redeemed s)" and ?m = "mark_used cid uid t"
  have id: "rc_ID r = cid" "rc_Code r \<notin> ?R" using r inv_codes(2) [OF inv] by (auto simp: code_unused_def)
  have only_r: "rc_Code q = rc_Code r \<longleftrightarrow> q = r" "rc_ID q = cid \<longleftrightarrow> q = r" if "q \<in> set (pd_codes s)" for q
    using inv that r(1) id(1) by (auto simp: pay_inv_def codes_ok_def distinct_map dest: inj_onD)
  have "orders_ok (pd_orders s) (insert (rc_Code r) ?R)" using inv unfolding pay_inv_def orders_ok_def by blast
  moreover have "codes_ok (map ?m (pd_codes s)) (pd_next s) (insert (rc_Code r) ?R)"
  proof -
    have "map rc_ID (map ?m (pd_codes s)) = map rc_ID (pd_codes s)" "map rc_Code (map ?m (pd_codes s)) = map rc_Code (pd_codes s)" by simp_all
    moreover have "rc_Code q \<notin> insert (rc_Code r) ?R" if "q \<in> set (pd_codes s)" "rc_Status (?m q) = StatusUnused" for q
      using that inv_codes(2) [OF inv that(1)] only_r [OF that(1)] by (auto simp: mark_used_status)
    moreover have "rc_Code q \<in> insert (rc_Code r) ?R" if "q \<in> set (pd_codes s)" "IsUsed (?m q)" for q
      using that inv_codes(3) [OF inv that(1)] only_r [OF that(1)] by (auto simp: mark_used_status code_unused_def)
    moreover have "insert (rc_Code r) ?R \<subseteq> rc_Code ` set (map ?m (pd_codes s))"
      using inv r(1) by (force simp: pay_inv_def codes_ok_def image_image)
    ultimately show ?thesis using inv unfolding codes_ok_def pay_inv_def set_map by (auto simp del: map_map)
  qed
  moreover have "codes_match (pd_orders s) (map ?m (pd_codes s))" using inv unfolding pay_inv_def codes_match_def by simp
  moreover have "g = GrantBalance (od_Amount q)"
    if q: "q \<in> set (pd_orders s)" "balance_order q" "rc_Code r = od_RechargeCode q" "\<not> flt (od_Amount q) (Finite 0)" for q
  proof -
    from known(2) obtain code ty v where fact: "CodeIs cid code ty v \<in> K"
      and g: "ty = RedeemTypeBalance \<and> \<not> flt v (Finite 0) \<longrightarrow> g = GrantBalance v" by (auto simp: redeem_ok_def)
    from fact known(1) have "fact_holds (CodeIs cid code ty v) s" by (simp only: known_def)
    then obtain r' where "r' \<in> set (pd_codes s)" "code_fact r' = CodeIs cid code ty v" by auto
    with only_r(2) [of r'] have "rc_Type r = ty" "rc_Value r = v" by (auto simp: code_fact_def)
    with inv_codes(4) [OF inv r(1) q(1-3)] g q(4) show ?thesis by simp
  qed
  then have "grants_match (pd_orders s) (pd_redeemed s @ [(rc_Code r, uid, g)])"
    using inv unfolding pay_inv_def grants_match_def by auto
  ultimately show "pay_inv s'" using inv id(2) unfolding s' pay_inv_def by simp
  have "order_fact ` set (pd_orders s) \<subseteq> order_fact ` set (pd_orders s')" unfolding s' by simp
  moreover have "code_fact ` set (pd_codes s) \<subseteq> code_fact ` set (pd_codes s')" unfolding s' by (simp add: image_image)
  moreover have "fact_holds (UsedCode c) s \<longrightarrow> fact_holds (UsedCode c) s'" for c unfolding s' by auto
  moreover have "moves (od_Status q) (od_Status q')" if "q \<in> set (pd_orders s)" "q' \<in> set (pd_orders s')" "od_ID q = od_ID q'" for q q'
    using that same_order [OF inv that(1) _ that(3)] unfolding s' by (simp add: moves_def)
  ultimately show "pay_guar s s'" unfolding pay_guar_def by blast
  have "IsUsed (?m r)" using r(2) by (simp add: mark_used_status)
  then show "fact_holds (UsedCode cid) s'" using r(1) id(1) unfolding s' by auto
qed

lemma redeem_keeps:
  assumes "pay_inv s" "known fact_holds K s" "redeem_ok K cid g"
  shows "pay_inv (fst (redeem_tx lib cid uid g s)) \<and> pay_guar s (fst (redeem_tx lib cid uid g s))"
proof (cases rule: redeem_tx_cases [of lib cid uid g s])
  case (refused n e)
  then show ?thesis using assms(1) guar_same [OF assms(1)] by simp
next
  case (granted r users)
  then show ?thesis using granted_keeps(1,2) [OF assms(1) granted(1,2) assms(2,3) refl] by simp
qed

lemma redeem_learns:
  assumes "pay_inv s" "known fact_holds K s" "redeem_ok K cid g" "redeem_tx lib cid uid g s = (s', A_Unit)"
  shows "fact_holds (UsedCode cid) s'"
proof (cases rule: redeem_tx_cases [of lib cid uid g s])
  case (refused n e)
  then show ?thesis using assms(4) by simp
next
  case (granted r users)
  then show ?thesis using granted_keeps(3) [OF assms(1) granted(1,2) assms(2,3) refl] assms(4) by simp
qed

text \<open>A rebate is accrued only for an order without the audit row, and leaves the row.\<close>

lemma rebate_keeps:
  assumes "rebates_ok (pd_rebates s) (pd_audit s)"
  shows "rebates_ok (pd_rebates (fst (rebate_tx oid uid amt s))) (pd_audit (fst (rebate_tx oid uid amt s)))"
proof (cases "audited oid [''AFFILIATE_REBATE_APPLIED'', ''AFFILIATE_REBATE_SKIPPED''] (pd_audit s)")
  case True
  then show ?thesis using assms by (simp add: rebate_tx_def)
next
  case False
  define row where "row = \<lparr>pa_OrderID = oid, pa_Action = ''AFFILIATE_REBATE_APPLIED'', pa_Operator = ''system'', pa_CreatedAt = pd_clock s\<rparr>"
  have new: "oid \<notin> fst ` set (pd_rebates s)" using False assms by (auto simp: rebates_ok_def audited_def list_ex_iff)
  have old: "audited o' [''AFFILIATE_REBATE_APPLIED''] (set_rebate_action oid act (pd_audit s @ [row]))" if "o' \<in> fst ` set (pd_rebates s)" for o' act
  proof -
    have "o' \<noteq> oid" using new that by auto
    moreover from that assms obtain a where "a \<in> set (pd_audit s)" "pa_OrderID a = o'" "pa_Action a = ''AFFILIATE_REBATE_APPLIED''"
      by (auto simp: rebates_ok_def audited_def list_ex_iff)
    ultimately show ?thesis by (auto simp: audited_def set_rebate_action_def list_ex_iff intro!: bexI [of _ a])
  qed
  have own: "audited oid [''AFFILIATE_REBATE_APPLIED''] (set_rebate_action oid ''AFFILIATE_REBATE_APPLIED'' (pd_audit s @ [row]))"
    by (simp add: audited_def set_rebate_action_def list_ex_iff row_def)
  show ?thesis
    using False assms old own new by (auto simp: rebate_tx_def Let_def rebates_ok_def row_def split: pay_ans.splits)
qed

lemma audited_append: "audited oid acts audit \<Longrightarrow> audited oid acts (audit @ rows)"
  by (auto simp: audited_def)

lemma rebate_tx_frame: "pd_orders (fst (rebate_tx oid uid amt s)) = pd_orders s" "pd_codes (fst (rebate_tx oid uid amt s)) = pd_codes s"
  "pd_next (fst (rebate_tx oid uid amt s)) = pd_next s" "pd_redeemed (fst (rebate_tx oid uid amt s)) = pd_redeemed s"
  by (auto simp: rebate_tx_def Let_def split: pay_ans.splits)

lemma rebates_append: "rebates_ok rebates audit \<Longrightarrow> rebates_ok rebates (audit @ rows)"
  by (simp add: rebates_ok_def audited_append)

lemma effect_keeps:
  assumes inv: "pay_inv s" and "known fact_holds K s" "pay_legal K c"
  shows "pay_inv (fst (effect lib c s)) \<and> pay_guar s (fst (effect lib c s))"
proof -
  note same = inv_same [OF inv] and ok = inv [unfolded pay_inv_def, THEN conjunct2, THEN conjunct2, THEN conjunct2, THEN conjunct2, THEN conjunct2]
  show ?thesis
  proof (cases c)
    case (UpdateOrders p f)
    then show ?thesis using update_keeps [OF inv assms(2), of p f] assms(3) by (simp add: pay_legal_def)
  next
    case (InsertCode r)
    then show ?thesis using insert_keeps [OF inv assms(2), of r] assms(3) by (simp add: pay_legal_def)
  next
    case (RedeemTx cid uid g)
    then show ?thesis using redeem_keeps [OF inv assms(2), of cid g] assms(3) by (simp add: pay_legal_def)
  next
    case (RebateTx oid uid amt)
    then show ?thesis using same [of "fst (rebate_tx oid uid amt s)"] rebate_keeps [OF ok] by (simp add: rebate_tx_frame)
  next
    case (WriteAudit oid act operator)
    then show ?thesis using same rebates_append [OF ok] ok by simp
  qed (use same ok in simp_all)
qed

lemma only_in: "only rs = Inr r \<Longrightarrow> r \<in> set rs"
  by (induction rs rule: only.induct) auto

lemma answer_eq [simp]: "A_Order r = answer A_Order x \<longleftrightarrow> x = Inr r" "A_Code q = answer A_Code y \<longleftrightarrow> y = Inr q"
  "answer A_Order x = A_Order r \<longleftrightarrow> x = Inr r" "answer A_Code y = A_Code q \<longleftrightarrow> y = Inr q"
  by (auto simp: answer_def split: sum.splits)

lemma redeem_tx_answer: "redeem_tx lib cid uid g s = (s', a) \<Longrightarrow> a = A_Unit \<or> (\<exists>n e. a = A_Err n e)"
  by (cases rule: redeem_tx_cases [of lib cid uid g s]) auto

lemma exec_possible: "pay_exec lib f c s = (s', a) \<Longrightarrow> pay_poss c a"
  by (drule exec_answer, cases c) (auto simp: pay_poss_def dest!: only_in dest: redeem_tx_answer split: sum.splits)

lemma code_facts: "r \<in> set (pd_codes s) \<Longrightarrow> known fact_holds (learn_code (A_Code r)) s"
  by (auto simp: known_def learn_code_def code_fact_def image_iff)

lemma order_facts: "r \<in> set (pd_orders s) \<Longrightarrow> fact_holds (order_fact r) s"
  by (auto simp: order_fact_def image_iff)

lemma exec_learns:
  assumes "pay_inv s" "known fact_holds K s" "pay_legal K c" "pay_exec lib f c s = (s', a)"
  shows "known fact_holds (pay_learn c a) s'"
proof (cases "pay_learn c a = {}")
  case False
  then have "\<not> (\<exists>n e. a = A_Err n e)" by (auto simp: pay_learn_def learn_code_def split: pay_stmt.splits)
  with exec_answer [OF assms(4)] have eff: "effect lib c s = (s', a)" by blast
  show ?thesis
  proof (cases c)
    case (GetOrder oid)
    then show ?thesis using eff
      by (auto simp: pay_learn_def known_def intro!: order_facts dest!: only_in split: pay_ans.splits)
  next
    case (FindOrder no)
    then show ?thesis using eff
      by (auto simp: pay_learn_def known_def intro!: order_facts dest!: only_in split: pay_ans.splits)
  next
    case (ListOrders p)
    then show ?thesis using eff by (auto simp: pay_learn_def known_def intro!: order_facts)
  next
    case (GetCode code)
    with eff False obtain r where "a = A_Code r" "r \<in> set (pd_codes s')"
      by (auto simp: pay_learn_def learn_code_def dest!: only_in split: sum.splits pay_ans.splits)
    then show ?thesis using GetCode code_facts by (simp add: pay_learn_def)
  next
    case (RedeemTx cid uid g)
    then show ?thesis using eff False redeem_learns [OF assms(1,2), of cid g] assms(3)
      by (auto simp: pay_learn_def known_def pay_legal_def split: if_splits)
  qed (use False in \<open>simp_all add: pay_learn_def\<close>)
qed simp

lemma env_keeps: "pay_env s s' \<Longrightarrow> pay_inv s \<Longrightarrow> pay_inv s' \<and> pay_guar s s'"
proof (induction rule: pay_env.induct)
  case (outside s t x n l u g)
  then show ?case using inv_same [OF outside.prems] by (simp add: pay_inv_def)
next
  case (new_order r s)
  have unsettled: "\<not> settled (od_Status r)" using new_order.hyps by (simp add: settled_def psIsRefundStatus_def order_statuses)
  have sub: "fst ` set (pd_redeemed s) \<subseteq> rc_Code ` set (pd_codes s)" using new_order.prems by (simp add: pay_inv_def codes_ok_def)
  have "orders_ok (pd_orders s @ [r]) (fst ` set (pd_redeemed s))"
    unfolding orders_ok_def
  proof (intro conjI ballI impI)
    show "distinct (map od_ID (pd_orders s @ [r]))" using new_order by (simp add: pay_inv_def orders_ok_def)
    fix q assume q: "q \<in> set (pd_orders s @ [r])"
    show "trim_space (od_RechargeCode q) = od_RechargeCode q" if "balance_order q"
      using q that inv_orders(1) [OF new_order.prems, of q] new_order.hyps(3) by auto
    show "od_RechargeCode q \<in> fst ` set (pd_redeemed s)" if "balance_order q \<and> settled (od_Status q)"
      using q that inv_orders(3) [OF new_order.prems, of q] unsettled by auto
    fix q' assume q': "q' \<in> set (pd_orders s @ [r])"
    show "od_ID q = od_ID q'" if "balance_order q \<and> balance_order q' \<and> od_RechargeCode q = od_RechargeCode q'"
      using q q' that inv_orders(2) [OF new_order.prems, of q q'] new_order.hyps(4) by (auto simp: image_iff)
  qed
  moreover have "codes_match (pd_orders s @ [r]) (pd_codes s)" using new_order unfolding pay_inv_def codes_match_def by (auto simp: image_iff)
  moreover have "grants_match (pd_orders s @ [r]) (pd_redeemed s)"
    using new_order sub unfolding pay_inv_def grants_match_def by (fastforce simp: image_iff)
  ultimately have "pay_inv (s\<lparr>pd_orders := pd_orders s @ [r]\<rparr>)" using new_order.prems by (simp add: pay_inv_def)
  moreover have "pay_guar s (s\<lparr>pd_orders := pd_orders s @ [r]\<rparr>)"
    using guar_same [OF new_order.prems refl refl] new_order.hyps(1) by (auto simp: pay_guar_def dest: rev_image_eqI [of _ _ _ od_ID])
  ultimately show ?case by simp
next
  case (creation_failed s oid t)
  show ?case by (intro conjI orders_map_inv [OF creation_failed.prems])
    (auto simp: moves_def settled_def psIsRefundStatus_def order_statuses)
next
  case (details f s)
  show ?case by (intro conjI orders_map_inv [OF details.prems]) (use details.hyps in \<open>auto simp: moves_def\<close>)
next
  case (refund st s oid t)
  show ?case by (intro conjI orders_map_inv [OF refund.prems]) (use refund.hyps in \<open>auto simp: moves_def\<close>)
next
  case (new_code r s)
  then show ?case using new_code_keeps [OF new_code.prems, of r] by (auto simp: image_iff)
next
  case (audit s r)
  then show ?case using inv_same [OF audit.prems] rebates_append by (simp add: pay_inv_def)
qed

lemma facts_stable: "pay_guar s s' \<Longrightarrow> fact_holds x s \<Longrightarrow> fact_holds x s'"
  by (cases x) (auto simp: pay_guar_def simp del: fact_holds.simps(3))

section \<open>Every handler issues only statements that it may issue\<close>

abbreviation psat :: "'r pay_prog \<Rightarrow> pay_fact set \<Rightarrow> ('r \<Rightarrow> pay_fact set \<Rightarrow> bool) \<Rightarrow> bool" where
  "psat \<equiv> sat pay_legal pay_poss pay_learn"

abbreviation safe :: "'r pay_prog \<Rightarrow> pay_fact set \<Rightarrow> bool" where
  "safe p K \<equiv> psat p K (\<lambda>r K'. True)"

lemma safe_post: "safe p K \<Longrightarrow> (\<And>r K'. K \<subseteq> K' \<Longrightarrow> Q r K') \<Longrightarrow> psat p K Q"
  by (rule sat_mono_post) simp_all

text \<open>Statements that anybody may issue and that teach nothing.\<close>

definition harmless :: "pay_stmt \<Rightarrow> bool" where
  "harmless c = (case c of GetOrder _ \<Rightarrow> False | FindOrder _ \<Rightarrow> False | ListOrders _ \<Rightarrow> False | UpdateOrders _ _ \<Rightarrow> False
     | GetCode _ \<Rightarrow> False | InsertCode _ \<Rightarrow> False | RedeemTx _ _ _ \<Rightarrow> False | _ \<Rightarrow> True)"

lemma harmless_simps [simp]: "harmless Now" "harmless (WriteAudit oid act operator)" "harmless (CountAudit p)" "harmless (GetCodeByID cid)"
  "harmless (GetUser uid)" "harmless (AttemptCount uid)" "harmless (IncrAttempts uid)" "harmless (AcquireLock code)"
  "harmless (ReleaseLock code)" "harmless (RebateTx oid uid amt)" "harmless (AssignSubscription oid uid gid days)" "harmless (Ext q)"
  by (simp_all add: harmless_def)

lemma psat_harmless [simp]: "harmless c \<Longrightarrow> psat (Call c k) K Q \<longleftrightarrow> (\<forall>a. psat (k a) K Q)"
  by (cases c) (simp_all add: harmless_def pay_legal_def pay_learn_def pay_poss_def)

lemma psat_update [simp]: "psat (Call (UpdateOrders p f) k) K Q \<longleftrightarrow> update_ok K p f \<and> (\<forall>a. psat (k a) K Q)"
  by (simp add: pay_legal_def pay_learn_def pay_poss_def)

text \<open>What the answers to the other statements teach.\<close>

lemma psat_get_order:
  assumes "\<And>err. psat (k (Inl err)) K Q" "\<And>od. od_ID od = oid \<Longrightarrow> psat (k (Inr od)) (insert (order_fact od) K) Q"
  shows "psat (Call (GetOrder oid) (\<lambda>a. k (order_of a))) K Q"
  using assms by (auto simp: pay_legal_def pay_learn_def pay_poss_def order_of_def split: pay_ans.splits)

lemma psat_find_order:
  assumes "\<And>err. psat (k (Inl err)) K Q" "\<And>od. psat (k (Inr od)) (insert (order_fact od) K) Q"
  shows "psat (Call (FindOrder no) (\<lambda>a. k (order_of a))) K Q"
  using assms by (auto simp: pay_legal_def pay_learn_def pay_poss_def order_of_def split: pay_ans.splits)

lemma psat_list_orders:
  assumes "\<And>err. psat (k (Inl err)) K Q" "\<And>ods. psat (k (Inr ods)) (K \<union> order_fact ` set ods) Q"
  shows "psat (Call (ListOrders p) (\<lambda>a. k (orders_of a))) K Q"
  using assms by (auto simp: pay_legal_def pay_learn_def pay_poss_def orders_of_def split: pay_ans.splits)

lemma psat_get_code:
  assumes "\<And>err. psat (k (Inl err)) K Q" "\<And>r. rc_Code r = code \<Longrightarrow> psat (k (Inr r)) (K \<union> learn_code (A_Code r)) Q"
  shows "psat (Call (GetCode code) (\<lambda>a. k (code_of a))) K Q"
  using assms
  by (auto simp: pay_legal_def pay_learn_def pay_poss_def code_of_def learn_code_def split: pay_ans.splits)

lemma psat_redeem_tx:
  assumes "redeem_ok K cid g" "\<And>n e. psat (k (A_Err n e)) K Q" "psat (k A_Unit) (insert (UsedCode cid) K) Q"
  shows "psat (Call (RedeemTx cid uid g) k) K Q"
  using assms by (auto simp: pay_legal_def pay_learn_def pay_poss_def)

declare sat.simps(2) [simp del]

lemma psat_now [simp]: "psat (now k) K Q \<longleftrightarrow> (\<forall>t. psat (k t) K Q)"
proof -
  have "time_of (A_Time t) = t" for t by (simp add: time_of_def)
  then have "(\<forall>a. P (time_of a)) \<longleftrightarrow> (\<forall>t. P t)" for P by metis
  then show ?thesis by (simp add: now_def)
qed

lemma psat_audit [simp]: "psat (writeAuditLog oid act operator k) K Q \<longleftrightarrow> psat k K Q"
  by (simp add: writeAuditLog_def)

lemma credited_mono: "credited K code \<Longrightarrow> K \<subseteq> K' \<Longrightarrow> credited K' code"
  by (auto simp: credited_def)

lemma credited_used: "rc_Code r = code \<Longrightarrow> IsUsed r \<Longrightarrow> credited (K \<union> learn_code (A_Code r)) code"
  by (auto simp: credited_def learn_code_def code_fact_def)

subsection \<open>Updates of orders\<close>

lemmas status_simps = moves_def settled_def psIsRefundStatus_def order_statuses

lemma update_status_ok:
  assumes "\<And>r. p r \<Longrightarrow> order_fact (f r) = order_fact r \<and> moves (od_Status r) (od_Status (f r)) \<and> \<not> settled (od_Status (f r))"
  shows "update_ok K p f"
  using assms by (simp add: update_ok_def)

lemma failed_ok: "(\<And>r. p r \<Longrightarrow> order_fact (f r) = order_fact r \<and> od_Status (f r) = OrderStatusFailed) \<Longrightarrow> update_ok K p f"
  by (rule update_status_ok) (simp add: status_simps)

lemma safe_markFailed: "psat k K Q \<Longrightarrow> psat (markFailed cfg oid cause k) K Q"
  by (auto simp: markFailed_def order_fact_def intro!: failed_ok split: sum.splits)

lemma safe_rejectUnsupported: "psat k K Q \<Longrightarrow> psat (rejectUnsupportedOrderType od k) K Q"
  by (auto simp: rejectUnsupportedOrderType_def Let_def order_fact_def intro!: failed_ok split: sum.splits)

text \<open>An order that is known not to be a balance order.\<close>

definition not_balance :: "pay_fact set \<Rightarrow> int \<Rightarrow> bool" where
  "not_balance K oid \<longleftrightarrow> (\<exists>ty code amt. OrderIs oid ty code amt \<in> K \<and> ty \<noteq> OrderTypeBalance)"

lemma complete_ok:
  assumes "order_fact od \<in> K" "not_balance K (od_ID od) \<or> credited K (od_RechargeCode od)"
  shows "update_ok K (\<lambda>r. od_ID r = od_ID od \<and> od_Status r = OrderStatusRecharging)
    (\<lambda>r. r\<lparr>od_Status := OrderStatusCompleted, od_CompletedAt := t\<rparr>)"
  unfolding update_ok_def
proof (intro allI impI, elim conjE)
  fix r assume r: "agrees K r" "od_ID r = od_ID od" "od_Status r = OrderStatusRecharging"
  with assms(1) have "order_fact r = order_fact od" by (auto simp: agrees_def order_fact_def)
  moreover have "not_balance K (od_ID od) \<Longrightarrow> \<not> balance_order r" using r by (auto simp: not_balance_def agrees_def order_fact_def)
  ultimately show "order_fact (r\<lparr>od_Status := OrderStatusCompleted, od_CompletedAt := t\<rparr>) = order_fact r \<and>
      moves (od_Status r) (od_Status (r\<lparr>od_Status := OrderStatusCompleted, od_CompletedAt := t\<rparr>)) \<and>
      (settled (od_Status (r\<lparr>od_Status := OrderStatusCompleted, od_CompletedAt := t\<rparr>)) \<longrightarrow>
        settled (od_Status r) \<or> \<not> balance_order r \<or> credited K (od_RechargeCode r))"
    using assms(2) r(3) by (auto simp: order_fact_def moves_def)
qed

lemma safe_markCompleted:
  assumes "order_fact od \<in> K" "not_balance K (od_ID od) \<or> credited K (od_RechargeCode od)"
  shows "safe (markCompleted od act) K"
  by (auto simp: markCompleted_def intro: complete_ok [OF assms] split: option.splits)

lemma safe_rebate: "(\<And>r. Q r K) \<Longrightarrow> psat (applyAffiliateRebateForOrder cfg od) K Q"
  unfolding applyAffiliateRebateForOrder_def Let_def
  by (auto split: option.splits)

lemma safe_rebate_and_complete:
  assumes "order_fact od \<in> K" "not_balance K (od_ID od) \<or> credited K (od_RechargeCode od)"
  shows "safe (rebate_and_complete cfg od act) K"
  unfolding rebate_and_complete_def sat_and_then
  by (rule safe_rebate) (auto intro: safe_markCompleted [OF assms] split: option.splits)

subsection \<open>Codes\<close>

lemma redeem_grant_ok: "code_fact r \<in> K \<Longrightarrow> redeem_ok K (rc_ID r) (redeem_grant lib r user)"
  unfolding redeem_ok_def code_fact_def
  by (rule exI [of _ "rc_Code r"], rule exI [of _ "rc_Type r"], rule exI [of _ "rc_Value r"]) (simp add: redeem_grant_def)

lemma psat_redeemed_result: "(\<And>r. Q r K) \<Longrightarrow> psat (redeemed_result skip uid r) K Q"
  by (auto simp: redeemed_result_def Let_def split: sum.splits)

lemma psat_increment: "psat k K Q \<Longrightarrow> psat (incrementRedeemErrorCount cache uid k) K Q"
  by (simp add: incrementRedeemErrorCount_def)

lemma psat_redeem_locked:
  assumes "\<And>e K'. K \<subseteq> K' \<Longrightarrow> Q (Inl e) K'" "\<And>r K'. K \<subseteq> K' \<Longrightarrow> credited K' code \<Longrightarrow> Q (Inr r) K'"
  shows "psat (redeem_locked lib cache skip uid code) K Q"
  unfolding redeem_locked_def
proof (rule psat_get_code, goal_cases)
  case (1 err)
  then show ?case using assms(1) by (simp add: psat_increment)
next
  case (2 r)
  let ?K = "K \<union> learn_code (A_Code r)"
  have known: "code_fact r \<in> ?K" by (simp add: learn_code_def)
  with 2 have credited: "credited (insert (UsedCode (rc_ID r)) ?K) code" by (auto simp: credited_def code_fact_def)
  have "psat (redeemed_result skip uid r) (insert (UsedCode (rc_ID r)) ?K) Q"
  proof (rule psat_redeemed_result)
    fix x :: "goerror + RedeemCode"
    have "K \<subseteq> insert (UsedCode (rc_ID r)) ?K" by blast
    then show "Q x (insert (UsedCode (rc_ID r)) ?K)" using assms credited by (cases x) simp_all
  qed
  then have "psat (Call (RedeemTx (rc_ID r) uid (redeem_grant lib r user)) (\<lambda>a. case stage_of a of
      Some (stage, err) \<Rightarrow> Ret (Inl (redeem_tx_error (redeem_grant lib r user) stage err))
    | None \<Rightarrow> redeemed_result skip uid r)) ?K Q" for user
    using assms(1) by (intro psat_redeem_tx redeem_grant_ok known) (simp_all add: stage_of_def)
  then show ?case using assms(1) by (auto simp: psat_increment Let_def split: sum.splits option.splits)
qed

lemma psat_Redeem:
  assumes "\<And>e K'. K \<subseteq> K' \<Longrightarrow> Q (Inl e) K'" "\<And>r K'. K \<subseteq> K' \<Longrightarrow> credited K' code \<Longrightarrow> Q (Inr r) K'"
  shows "psat (Redeem lib cache skip uid code) K Q"
proof -
  have "psat (redeem_locked lib cache skip uid code) K (\<lambda>r K'. psat (releaseRedeemLock cache code (Ret r)) K' Q)"
    by (rule psat_redeem_locked) (use assms in \<open>simp_all add: releaseRedeemLock_def\<close>)
  then show ?thesis using assms(1)
    by (auto simp: Redeem_def checkRedeemRateLimit_def acquireRedeemLock_def split: option.splits sum.splits)
qed

lemma psat_CreateCode:
  assumes "order_fact od \<in> K" "balance_order od" "\<And>r. Q r K"
  shows "psat (CreateCode (order_code od)) K Q"
proof -
  have "insert_ok K ((order_code od)\<lparr>rc_Code := trim_space (od_RechargeCode od)\<rparr>)"
    using assms(1,2) by (auto simp: insert_ok_def order_code_def order_fact_def)
  then have "psat (Call (InsertCode ((order_code od)\<lparr>rc_Code := trim_space (od_RechargeCode od)\<rparr>)) k) K Q" if "\<And>a. psat (k a) K Q" for k
    using that by (simp add: sat.simps(2) pay_legal_def pay_learn_def)
  then show ?thesis using assms(3)
    by (auto simp: CreateCode_def Let_def order_code_def redeem_types code_statuses split: option.splits)
qed

subsection \<open>Fulfilment\<close>

lemma safe_redeem_for_order:
  assumes "order_fact od \<in> K"
  shows "safe (redeem_for_order cfg od) K"
  unfolding redeem_for_order_def sat_and_then
  by (rule psat_Redeem) (use assms in \<open>auto intro!: safe_rebate_and_complete\<close>)

lemma safe_doBalance:
  assumes "order_fact od \<in> K" "balance_order od"
  shows "safe (doBalance cfg od) K"
proof -
  have create: "safe (and_then (CreateCode (order_code od)) (\<lambda>e. case e of
      Some err \<Rightarrow> Ret (Some (WrapError ''create redeem code'' err)) | None \<Rightarrow> redeem_for_order cfg od)) K'"
    if "order_fact od \<in> K'" for K'
    unfolding sat_and_then by (rule psat_CreateCode)
      (use that assms(2) in \<open>auto intro: safe_redeem_for_order split: option.splits\<close>)
  have "psat (redeem_GetByCode (od_RechargeCode od)) K (\<lambda>existing K'. safe (case resolveRedeemAction existing of
         redeemActionSkipCompleted \<Rightarrow> rebate_and_complete cfg od ''RECHARGE_SUCCESS''
       | redeemActionCreate \<Rightarrow> and_then (CreateCode (order_code od)) (\<lambda>e.
             case e of Some err \<Rightarrow> Ret (Some (WrapError ''create redeem code'' err)) | None \<Rightarrow> redeem_for_order cfg od)
       | redeemActionRedeem \<Rightarrow> redeem_for_order cfg od) K')"
    unfolding redeem_GetByCode_def
  proof (rule psat_get_code, goal_cases)
    case (1 err)
    then show ?case using create [OF assms(1)] by (simp add: resolveRedeemAction_def)
  next
    case (2 r)
    then show ?case using assms
      by (auto simp: resolveRedeemAction_def credited_used intro!: safe_rebate_and_complete safe_redeem_for_order)
  qed
  then show ?thesis by (simp add: doBalance_def)
qed

lemma locked_ok: "update_ok K (\<lambda>r. od_ID r = oid \<and> od_Status r \<in> {OrderStatusPaid, OrderStatusFailed}) (\<lambda>r. r\<lparr>od_Status := OrderStatusRecharging\<rparr>)"
  by (rule update_status_ok) (auto simp: status_simps)

lemma safe_fulfil_locked:
  assumes "safe body K"
  shows "safe (fulfil_locked cfg oid body) K"
proof -
  have "psat body K (\<lambda>e K'. safe (case e of Some err \<Rightarrow> markFailed cfg oid err (Ret (Some err)) | None \<Rightarrow> Ret None) K')"
    by (rule safe_post [OF assms]) (auto intro: safe_markFailed split: option.splits)
  then show ?thesis using locked_ok by (auto simp: fulfil_locked_def split: sum.splits)
qed

lemma safe_ExecuteBalance: "safe (ExecuteBalanceFulfillment cfg oid) K"
  unfolding ExecuteBalanceFulfillment_def
  by (rule psat_get_order) (auto intro!: safe_fulfil_locked safe_doBalance)

lemma safe_doSub:
  assumes "order_fact od \<in> K" "not_balance K (od_ID od)"
  shows "safe (doSub cfg od gid days) K"
  using safe_rebate_and_complete [OF assms(1) disjI1 [OF assms(2)]]
  by (auto simp: doSub_def assigned_before_def hasAuditLog_def split: sum.splits option.splits)

lemma safe_ExecuteSubscription:
  assumes "order_fact od \<in> K" "od_ID od = oid" "od_OrderType od = OrderTypeSubscription"
  shows "safe (ExecuteSubscriptionFulfillment cfg oid) K"
proof -
  have "not_balance (insert x K) oid" for x
    using assms by (auto simp: not_balance_def order_fact_def OrderTypeSubscription_def OrderTypeBalance_def)
  then show ?thesis unfolding ExecuteSubscriptionFulfillment_def
    by (intro psat_get_order) (auto intro!: safe_fulfil_locked safe_doSub split: option.splits)
qed

lemma safe_executeFulfillment: "safe (executeFulfillment cfg oid) K"
  unfolding executeFulfillment_def
  by (rule psat_get_order) (auto intro!: safe_ExecuteBalance safe_ExecuteSubscription safe_rejectUnsupported)

lemma safe_alreadyProcessed: "safe (alreadyProcessed cfg od) K"
  unfolding alreadyProcessed_def by (rule psat_get_order) (auto intro!: safe_executeFulfillment)

lemma paid_ok:
  assumes "\<And>r. p r \<Longrightarrow> order_fact (f r) = order_fact r \<and> od_Status (f r) = OrderStatusPaid \<and>
    od_Status r \<in> {OrderStatusPending, OrderStatusCancelled, OrderStatusExpired, OrderStatusFailed, OrderStatusPaid}"
  shows "update_ok K p f"
proof (rule update_status_ok)
  fix r assume "p r"
  from assms [OF this] show "order_fact (f r) = order_fact r \<and> moves (od_Status r) (od_Status (f r)) \<and> \<not> settled (od_Status (f r))"
    by (auto simp: status_simps)
qed

lemma safe_toPaid: "safe (toPaid cfg od tradeNo paid pk) K"
  by (auto simp: toPaid_def Let_def payable_def order_fact_def intro!: paid_ok safe_alreadyProcessed safe_executeFulfillment
      split: sum.splits)

lemma safe_confirmPayment: "safe (confirmPayment cfg oid tradeNo paid pk metadata) K"
  unfolding confirmPayment_def
  by (rule psat_get_order) (auto simp: Let_def intro!: safe_toPaid split: option.splits)

lemma safe_HandlePaymentNotification: "safe (HandlePaymentNotification cfg n pk) K"
  unfolding HandlePaymentNotification_def
  by (auto intro!: psat_find_order safe_confirmPayment split: option.splits)

lemma safe_RetryFulfillment: "safe (RetryFulfillment cfg oid) K"
  unfolding RetryFulfillment_def
  by (rule psat_get_order) (auto simp: order_fact_def intro!: paid_ok safe_executeFulfillment split: option.splits)

lemma safe_Redeem: "safe (Redeem lib cache skip uid code) K"
  by (rule psat_Redeem) simp_all

subsection \<open>Cancelling and reconciling\<close>

lemma safe_notify_paid: "safe (notify_paid cfg od provKey tradeNo resp) K"
  by (auto simp: notify_paid_def intro: safe_HandlePaymentNotification)

lemma safe_settle_paid: "safe (settle_paid cfg od provKey queryRef resp) K"
  by (auto simp: settle_paid_def Let_def update_ok_def order_fact_def moves_def intro: safe_notify_paid)

lemma safe_checkPaidWithOptions: "safe (checkPaidWithOptions cfg od c) K"
  by (auto simp: checkPaidWithOptions_def requeryPaidOrderOnce_def Let_def intro!: safe_settle_paid
      split: sum.splits option.splits)

lemma close_ok: "fs \<in> {OrderStatusCancelled, OrderStatusExpired} \<Longrightarrow>
    update_ok K (\<lambda>r. od_ID r = oid \<and> od_Status r = OrderStatusPending) (\<lambda>r. r\<lparr>od_Status := fs\<rparr>)"
  by (rule update_status_ok) (auto simp: status_simps)

lemma psat_close_order: "fs \<in> {OrderStatusCancelled, OrderStatusExpired} \<Longrightarrow> (\<And>r. Q r K) \<Longrightarrow> psat (close_order od fs operator) K Q"
  by (auto simp: close_order_def intro: close_ok split: sum.splits)

lemma safe_cancelCore: "fs \<in> {OrderStatusCancelled, OrderStatusExpired} \<Longrightarrow> safe (cancelCore cfg od fs operator) K"
  unfolding cancelCore_def checkPaid_def
  by (auto intro!: safe_post [OF safe_checkPaidWithOptions] psat_close_order)

lemma safe_CancelOrder: "safe (CancelOrder cfg oid uid) K"
  unfolding CancelOrder_def by (rule psat_get_order) (auto intro!: safe_cancelCore)

lemma safe_AdminCancelOrder: "safe (AdminCancelOrder cfg oid) K"
  unfolding AdminCancelOrder_def by (rule psat_get_order) (auto intro!: safe_cancelCore)

lemma safe_expire_orders: "safe (expire_orders cfg ods n) K"
  by (induction ods arbitrary: n K) (auto intro!: safe_post [OF safe_cancelCore])

lemma safe_ExpireTimedOutOrders: "safe (ExpireTimedOutOrders cfg) K"
  unfolding ExpireTimedOutOrders_def psat_now
  by (intro allI psat_list_orders) (auto intro!: safe_expire_orders)

lemma safe_reconcile_orders: "safe (reconcile_orders cfg ods n) K"
  by (induction ods arbitrary: n K) (auto simp: reconcilePaid_def intro!: safe_post [OF safe_checkPaidWithOptions])

lemma safe_Reconcile: "safe (ReconcilePendingPaymentOrders cfg) K"
  unfolding ReconcilePendingPaymentOrders_def psat_now
  by (intro allI psat_list_orders) (auto intro!: safe_reconcile_orders)

lemma safe_Verify: "safe (VerifyOrderByOutTradeNo cfg no uid) K"
proof -
  have "safe (Call (GetOrder oid) (\<lambda>a. case order_of a of Inl err \<Rightarrow> Ret (Inl (WrapError ''reload order'' err)) | Inr od' \<Rightarrow> Ret (Inr od'))) K'" for oid K'
    by (rule psat_get_order) simp_all
  then show ?thesis unfolding VerifyOrderByOutTradeNo_def reconcilePaid_def
    by (auto intro!: psat_find_order safe_post [OF safe_checkPaidWithOptions] split: sum.splits)
qed

lemma safe_Confirm: "safe (ConfirmNotificationUpstream confirmer n pk) K"
proof -
  have *: "safe (confirm_upstream n pk od) K'" for od K'
    by (auto simp: confirm_upstream_def split: option.splits)
  then have "safe (Call (GetOrder oid) (\<lambda>a. case order_of a of Inr od \<Rightarrow> confirm_upstream n pk od
      | Inl err \<Rightarrow> Ret (if err = db_not_found then None else Some (WrapError ''lookup webhook order for upstream confirmation'' err)))) K'" for oid K'
    by (intro psat_get_order) simp_all
  with * show ?thesis unfolding ConfirmNotificationUpstream_def Let_def
    by (auto intro!: psat_find_order split: option.splits)
qed

section \<open>The system\<close>

definition discard :: "'r pay_prog \<Rightarrow> unit pay_prog" where
  "discard p = and_then p (\<lambda>_. Ret ())"

inductive pay_entry :: "pay_cfg \<Rightarrow> unit pay_prog \<Rightarrow> bool" for cfg where
  webhook: "pay_entry cfg (discard (HandlePaymentNotification cfg n pk))"
| confirm: "pay_entry cfg (discard (ConfirmNotificationUpstream confirmer n pk))"
| retry: "pay_entry cfg (discard (RetryFulfillment cfg oid))"
| cancel: "pay_entry cfg (discard (CancelOrder cfg oid uid))"
| admin_cancel: "pay_entry cfg (discard (AdminCancelOrder cfg oid))"
| expire: "pay_entry cfg (discard (ExpireTimedOutOrders cfg))"
| reconcile: "pay_entry cfg (discard (ReconcilePendingPaymentOrders cfg))"
| verify: "pay_entry cfg (discard (VerifyOrderByOutTradeNo cfg no uid))"
| redeem: "pay_entry cfg (discard (Redeem (pc_lib cfg) (pc_cache cfg) False uid code))"

lemma safe_discard: "safe p K \<Longrightarrow> safe (discard p) K"
  by (simp add: discard_def)

lemma entry_safe: "pay_entry cfg p \<Longrightarrow> safe p {}"
  by (induction rule: pay_entry.induct)
    (intro safe_discard safe_HandlePaymentNotification safe_Confirm safe_RetryFulfillment safe_CancelOrder safe_AdminCancelOrder
      safe_ExpireTimedOutOrders safe_Reconcile safe_Verify safe_Redeem)+

lemma exec_keeps:
  assumes "pay_inv s" "known fact_holds K s" "pay_legal K c" "pay_exec lib f c s = (s', a)"
  shows "pay_inv s' \<and> pay_guar s s'"
  using exec_state [OF assms(4)] effect_keeps [OF assms(1-3)] guar_same [OF assms(1)] assms(1) by blast

interpretation pay: interference "pay_exec (pc_lib cfg)" "pay_entry cfg" pay_env pay_legal pay_poss pay_learn fact_holds pay_inv pay_guar
  for cfg
  by unfold_locales
    (use exec_keeps env_keeps in \<open>blast intro: exec_possible exec_learns facts_stable entry_safe\<close>)+

abbreviation pay_reaches :: "pay_cfg \<Rightarrow> pay_db \<Rightarrow> pay_db \<times> unit pay_prog list \<Rightarrow> bool" where
  "pay_reaches cfg s0 c \<equiv> reaches (pay_exec (pc_lib cfg)) (pay_entry cfg) pay_env (s0, []) c"

definition fresh_db :: "pay_db \<Rightarrow> bool" where
  "fresh_db s \<longleftrightarrow> pd_orders s = [] \<and> pd_codes s = [] \<and> pd_redeemed s = [] \<and> pd_rebates s = []"

lemma fresh_inv: "fresh_db s \<Longrightarrow> pay_inv s"
  by (simp add: fresh_db_def pay_inv_parts)

lemma distinct_filter_fst: "distinct (map fst xs) \<Longrightarrow> (k, v) \<in> set xs \<Longrightarrow> filter (\<lambda>e. fst e = k) xs = [(k, v)]"
  by (induction xs) (auto simp: filter_empty_conv image_iff intro: rev_image_eqI)

lemma distinct_filter_le: "distinct (map fst xs) \<Longrightarrow> length (filter (\<lambda>e. fst e = k) xs) \<le> 1"
proof (cases "\<exists>v. (k, v) \<in> set xs")
  case True
  assume "distinct (map fst xs)"
  then show ?thesis using True distinct_filter_fst by fastforce
next
  case False
  then have "filter (\<lambda>e. fst e = k) xs = []" by (auto simp: filter_empty_conv)
  then show ?thesis by simp
qed

lemma inv_credited:
  assumes inv: "pay_inv s" and r: "r \<in> set (pd_orders s)" "balance_order r" "\<not> flt (od_Amount r) (Finite 0)" "settled (od_Status r)"
  shows "\<exists>uid. filter (\<lambda>e. fst e = od_RechargeCode r) (pd_redeemed s) = [(od_RechargeCode r, uid, GrantBalance (od_Amount r))]"
proof -
  from inv_orders(3) [OF inv r(1,2,4)] obtain uid g where e: "(od_RechargeCode r, uid, g) \<in> set (pd_redeemed s)" by force
  moreover have "grants_match (pd_orders s) (pd_redeemed s)" using inv by (simp add: pay_inv_def)
  ultimately have "g = GrantBalance (od_Amount r)" using r by (auto simp: grants_match_def)
  moreover have "distinct (map fst (pd_redeemed s))" using inv by (simp add: pay_inv_def)
  ultimately show ?thesis using distinct_filter_fst [OF _ e] by blast
qed

text \<open>C1: an order for balance is credited at most once, whatever notifications, retries, cancellations,
  expiries and redemptions run concurrently, wherever the database fails and processes crash. Once it
  is completed (or on its way through a refund) it has been credited exactly once, with its amount.\<close>

theorem order_credited_exactly_once:
  assumes "pay_reaches cfg s0 (s, ps)" "fresh_db s0"
    and "r \<in> set (pd_orders s)" "od_OrderType r = OrderTypeBalance" "\<not> flt (od_Amount r) (Finite 0)"
  shows "length (filter (\<lambda>e. fst e = od_RechargeCode r) (pd_redeemed s)) \<le> 1
    \<and> (settled (od_Status r) \<longrightarrow> (\<exists>uid. filter (\<lambda>e. fst e = od_RechargeCode r) (pd_redeemed s) =
        [(od_RechargeCode r, uid, GrantBalance (od_Amount r))]))"
proof -
  have inv: "pay_inv s" using pay.reaches_inv [OF assms(1)] fresh_inv [OF assms(2)] by simp
  then have distinct: "distinct (map fst (pd_redeemed s))" by (simp add: pay_inv_def)
  show ?thesis using distinct_filter_le [OF distinct] inv_credited [OF inv assms(3-5)] by blast
qed

text \<open>C33: the rebate of an order is accrued at most once, under the same circumstances.\<close>

theorem rebate_at_most_once:
  assumes "pay_reaches cfg s0 (s, ps)" "fresh_db s0"
  shows "length (filter (\<lambda>e. fst e = oid) (pd_rebates s)) \<le> 1"
proof -
  have "pay_inv s" using pay.reaches_inv [OF assms(1)] fresh_inv [OF assms(2)] by simp
  then show ?thesis by (intro distinct_filter_le) (simp add: pay_inv_def rebates_ok_def)
qed

text \<open>C21: the status of an order moves only along the edges of \<open>moves\<close>, in every step of every
  interleaving: to paid only from an open or failed order, to recharging only from a paid or failed
  one, to completed only from recharging. Only the failure of a creation, which sets the status
  unconditionally, takes an order back from a settled state.\<close>

theorem order_transitions:
  assumes "pay_reaches cfg s0 c" "fresh_db s0" "pool_step (pay_exec (pc_lib cfg)) (pay_entry cfg) pay_env c c'"
    and "r \<in> set (pd_orders (fst c))" "r' \<in> set (pd_orders (fst c'))" "od_ID r = od_ID r'"
  shows "moves (od_Status r) (od_Status r')"
proof -
  from pay.reaches_step_guar [OF assms(1) fresh_inv [OF assms(2)] assms(3)]
  consider "fst c = fst c'" | "pay_guar (fst c) (fst c')" by blast
  then show ?thesis
  proof cases
    case 1
    have "pay_inv (fst c)" using pay.reaches_inv [of cfg s0 "fst c" "snd c"] assms(1) fresh_inv [OF assms(2)] by simp
    then show ?thesis using same_order [of "fst c" r r'] assms(4-6) 1 by (simp add: moves_def)
  next
    case 2
    then show ?thesis using assms(4-6) by (simp add: pay_guar_def)
  qed
qed

end
