(* ===== verification/Payment_Progress.thy ===== *)
theory Payment_Progress
  imports Payment_Safety
begin

text \<open>
  What a handler of the payment service achieves when it runs alone: a notification or a retry
  completes its order whatever earlier attempts left behind, rejected notifications change nothing
  but the audit log; and the states from which no handler gets on.
\<close>

section \<open>Running alone, without faults\<close>

definition solo :: "pay_cfg \<Rightarrow> 'r pay_prog \<Rightarrow> pay_db \<Rightarrow> pay_db \<times> 'r" where
  "solo cfg p s = fst (run (pay_exec (pc_lib cfg)) Up p [] s)"

lemma solo_simps [simp]:
  "solo cfg (Ret r) s = (s, r)"
  "solo cfg (Call c k) s = (case effect (pc_lib cfg) c s of (s', a) \<Rightarrow> solo cfg (k a) s')"
  "solo cfg (and_then p q) s = (case solo cfg p s of (s', r) \<Rightarrow> solo cfg (q r) s')"
proof -
  show "solo cfg (Ret r) s = (s, r)" by (simp add: solo_def)
  have up: "pay_exec (pc_lib cfg) Up c s = effect (pc_lib cfg) c s" by (simp add: pay_exec_def)
  then show "solo cfg (Call c k) s = (case effect (pc_lib cfg) c s of (s', a) \<Rightarrow> solo cfg (k a) s')"
    by (simp add: solo_def split: prod.split)
  obtain s' r fs where p: "run (pay_exec (pc_lib cfg)) Up p [] s = ((s', r), fs)" by (metis surj_pair)
  moreover have "fs = []" using run_no_faults [of "pay_exec (pc_lib cfg)" Up p s] p by simp
  ultimately show "solo cfg (and_then p q) s = (case solo cfg p s of (s', r) \<Rightarrow> solo cfg (q r) s')"
    by (simp add: solo_def run_and_then)
qed

lemma solo_now [simp]: "solo cfg (now k) s = solo cfg (k (pd_clock s)) s"
  by (simp add: now_def time_of_def)

lemma solo_audit: "\<exists>rows. solo cfg (writeAuditLog oid act operator k) s = solo cfg k (s\<lparr>pd_audit := pd_audit s @ rows\<rparr>)"
proof (cases "audited oid [act] (pd_audit s)")
  case True
  then show ?thesis by (intro exI [of _ "[]"]) (simp add: writeAuditLog_def)
qed (auto simp: writeAuditLog_def)

lemma solo_audit_twice:
  "\<exists>rows. solo cfg (writeAuditLog oid act op (writeAuditLog oid' act' op' k)) s = solo cfg k (s\<lparr>pd_audit := pd_audit s @ rows\<rparr>)"
proof -
  obtain rows where "solo cfg (writeAuditLog oid act op (writeAuditLog oid' act' op' k)) s =
      solo cfg (writeAuditLog oid' act' op' k) (s\<lparr>pd_audit := pd_audit s @ rows\<rparr>)"
    using solo_audit by blast
  with solo_audit [of cfg oid' act' op' k "s\<lparr>pd_audit := pd_audit s @ rows\<rparr>"] show ?thesis by auto
qed

lemma only_single [simp]: "filter p xs = [x] \<Longrightarrow> only (filter p xs) = Inr x"
  by simp

text \<open>The rows of an order.\<close>

definition row_of :: "PaymentOrder \<Rightarrow> pay_db \<Rightarrow> PaymentOrder list" where
  "row_of od s = filter (\<lambda>r. od_ID r = od_ID od) (pd_orders s)"

lemma filter_singleD: "filter P xs = [x] \<Longrightarrow> P x \<and> x \<in> set xs"
  using filter_eq_Cons_iff [of P xs x "[]"] by auto

lemma row_ofD: "row_of od s = [r] \<Longrightarrow> od_ID r = od_ID od \<and> r \<in> set (pd_orders s)"
  unfolding row_of_def by (rule filter_singleD)

lemma filter_map_same: "(\<And>x. x \<in> set xs \<Longrightarrow> P (f x) = P x) \<Longrightarrow> filter P (map f xs) = map f (filter P xs)"
  by (induction xs) auto

lemma filter_key: "distinct (map f xs) \<Longrightarrow> x \<in> set xs \<Longrightarrow> filter (\<lambda>y. f y = f x) xs = [x]"
  by (induction xs) (auto simp: filter_empty_conv image_iff)

lemma inv_row: "pay_inv s \<Longrightarrow> od \<in> set (pd_orders s) \<Longrightarrow> row_of od s = [od]"
  using filter_key [of od_ID "pd_orders s" od] by (simp add: row_of_def pay_inv_def orders_ok_def)

section \<open>Fulfilment of a balance order\<close>

definition order_ready :: "pay_cfg \<Rightarrow> PaymentOrder \<Rightarrow> pay_db \<Rightarrow> bool" where
  "order_ready cfg od s \<longleftrightarrow> od_RechargeCode od \<noteq> [] \<and> length (od_RechargeCode od) \<le> 32 \<and> od_Amount od \<noteq> Finite 0
     \<and> (\<exists>u. filter (\<lambda>u. us_ID u = od_UserID od) (pd_users s) = [u])
     \<and> gm_getd 0 (pd_attempts s) (od_UserID od) < redeemMaxErrorsPerHour \<and> od_RechargeCode od \<notin> set (pd_locks s)
     \<and> (\<forall>uid amt. \<exists>x. pd_ext s (AccrueRebate (od_ID od) uid amt) = A_Float x)"

definition code_ready :: "string \<Rightarrow> RedeemCode \<Rightarrow> bool" where
  "code_ready code r \<longleftrightarrow> rc_Code r = code \<and> rc_Type r = RedeemTypeBalance \<and> rc_Status r = StatusUnused \<and> rc_ExpiresAt r = None"

lemma solo_rebate:
  assumes "\<forall>uid amt. \<exists>x. pd_ext s (AccrueRebate (od_ID od) uid amt) = A_Float x"
  shows "\<exists>s'. solo cfg (applyAffiliateRebateForOrder cfg od) s = (s', None) \<and> pd_orders s' = pd_orders s \<and> pd_redeemed s' = pd_redeemed s"
proof -
  let ?base = "affiliateRebateBaseAmount (pc_lib cfg) od"
  obtain x where x: "pd_ext s (AccrueRebate (od_ID od) (od_UserID od) ?base) = A_Float x" using assms by blast
  have "\<exists>s'. rebate_tx (od_ID od) (od_UserID od) ?base s = (s', A_Unit) \<and> pd_orders s' = pd_orders s \<and> pd_redeemed s' = pd_redeemed s"
    using x by (auto simp: rebate_tx_def Let_def)
  then obtain s' where "rebate_tx (od_ID od) (od_UserID od) ?base s = (s', A_Unit)" "pd_orders s' = pd_orders s" "pd_redeemed s' = pd_redeemed s"
    by blast
  then show ?thesis by (auto simp: applyAffiliateRebateForOrder_def Let_def stage_of_def)
qed

lemma solo_markCompleted:
  assumes "row_of od s = [r]" "od_Status r = OrderStatusRecharging"
  shows "\<exists>s' r'. solo cfg (markCompleted od act) s = (s', None) \<and> row_of od s' = [r'] \<and> order_fact r' = order_fact r
    \<and> od_Status r' = OrderStatusCompleted \<and> pd_redeemed s' = pd_redeemed s"
proof -
  define s1 where "s1 = fst (effect (pc_lib cfg) (UpdateOrders (\<lambda>r. od_ID r = od_ID od \<and> od_Status r = OrderStatusRecharging)
    (\<lambda>r. r\<lparr>od_Status := OrderStatusCompleted, od_CompletedAt := Some (pd_clock s)\<rparr>)) s)"
  obtain rows where run: "solo cfg (markCompleted od act) s = (s1\<lparr>pd_audit := pd_audit s1 @ rows\<rparr>, None)"
    using solo_audit [of cfg "od_ID od" act "''system''" "Ret None" s1] by (auto simp: markCompleted_def s1_def err_of_def)
  have "row_of od (s1\<lparr>pd_audit := pd_audit s1 @ rows\<rparr>) = map (\<lambda>r. if od_ID r = od_ID od \<and> od_Status r = OrderStatusRecharging
      then r\<lparr>od_Status := OrderStatusCompleted, od_CompletedAt := Some (pd_clock s), od_UpdatedAt := pd_clock s\<rparr> else r) (row_of od s)"
    unfolding row_of_def s1_def by (simp add: filter_map_same)
  moreover have "od_ID r = od_ID od" using row_ofD [OF assms(1)] by simp
  ultimately show ?thesis using run assms by (auto simp: order_fact_def s1_def)
qed

lemma solo_rebate_and_complete:
  assumes "\<forall>uid amt. \<exists>x. pd_ext s (AccrueRebate (od_ID od) uid amt) = A_Float x" "row_of od s = [r]" "od_Status r = OrderStatusRecharging"
  shows "\<exists>s' r'. solo cfg (rebate_and_complete cfg od act) s = (s', None) \<and> row_of od s' = [r'] \<and> order_fact r' = order_fact r
    \<and> od_Status r' = OrderStatusCompleted \<and> pd_redeemed s' = pd_redeemed s"
proof -
  obtain s1 where s1: "solo cfg (applyAffiliateRebateForOrder cfg od) s = (s1, None)" "pd_orders s1 = pd_orders s" "pd_redeemed s1 = pd_redeemed s"
    using solo_rebate [OF assms(1)] by blast
  then have "row_of od s1 = [r]" using assms(2) by (simp add: row_of_def)
  from solo_markCompleted [OF this assms(3), of cfg act] s1 show ?thesis by (simp add: rebate_and_complete_def)
qed

lemma find_filter: "find P xs = (case filter P xs of [] \<Rightarrow> None | x # _ \<Rightarrow> Some x)"
  by (induction xs) auto

text \<open>A usable code of type balance is redeemed, and the user is credited.\<close>

lemma solo_redeem_tx:
  assumes "filter (\<lambda>q. rc_ID q = rc_ID r) (pd_codes s) = [r]" "rc_Status r = StatusUnused"
    and "filter (\<lambda>u. us_ID u = uid) (pd_users s) = [u]"
  shows "\<exists>users. redeem_tx lib (rc_ID r) uid (GrantBalance amt) s =
    (s\<lparr>pd_codes := map (mark_used (rc_ID r) uid (pd_clock s)) (pd_codes s), pd_users := users,
       pd_redeemed := pd_redeemed s @ [(rc_Code r, uid, GrantBalance amt)]\<rparr>, A_Unit)"
proof -
  have "filter (code_unused (rc_ID r)) (pd_codes s) = filter (\<lambda>q. rc_Status q = StatusUnused) (filter (\<lambda>q. rc_ID q = rc_ID r) (pd_codes s))"
    unfolding filter_filter by (rule filter_cong) (auto simp: code_unused_def)
  then have "find (code_unused (rc_ID r)) (pd_codes s) = Some r" using assms(1,2) by (simp add: find_filter)
  moreover have "list_ex (\<lambda>u. us_ID u = uid) (pd_users s)" using filter_singleD [OF assms(3)] by (auto simp: list_ex_iff)
  moreover have "mark_used (rc_ID r) uid (pd_clock s) = (\<lambda>q. if code_unused (rc_ID r) q
      then q\<lparr>rc_Status := StatusUsed, rc_UsedBy := Some uid, rc_UsedAt := Some (pd_clock s)\<rparr> else q)"
    by (simp add: mark_used_def fun_eq_iff)
  ultimately show ?thesis by (auto simp: redeem_tx_def give_def)
qed

lemma solo_redeem_locked:
  assumes codes: "filter (\<lambda>q. rc_Code q = code) (pd_codes s) = [r]" "filter (\<lambda>q. rc_ID q = rc_ID r) (pd_codes s) = [r]" "code_ready code r"
    and user: "filter (\<lambda>u. us_ID u = uid) (pd_users s) = [u]" and amount: "\<not> flt (rc_Value r) (Finite 0)"
  shows "\<exists>s' r'. solo cfg (redeem_locked (pc_lib cfg) (pc_cache cfg) True uid code) s = (s', Inr r')
    \<and> pd_orders s' = pd_orders s \<and> pd_ext s' = pd_ext s \<and> pd_redeemed s' = pd_redeemed s @ [(code, uid, GrantBalance (rc_Value r))]"
proof -
  have r: "rc_Code r = code" "rc_Type r = RedeemTypeBalance" "rc_Status r = StatusUnused" "rc_ExpiresAt r = None"
    using codes(3) by (simp_all add: code_ready_def)
  obtain users where tx: "redeem_tx (pc_lib cfg) (rc_ID r) uid (GrantBalance (rc_Value r)) s =
      (s\<lparr>pd_codes := map (mark_used (rc_ID r) uid (pd_clock s)) (pd_codes s), pd_users := users,
         pd_redeemed := pd_redeemed s @ [(rc_Code r, uid, GrantBalance (rc_Value r))]\<rparr>, A_Unit)"
    using solo_redeem_tx [OF codes(2) r(3) user] by blast
  have after: "filter (\<lambda>q. rc_ID q = rc_ID r) (map (mark_used (rc_ID r) uid (pd_clock s)) (pd_codes s)) = [mark_used (rc_ID r) uid (pd_clock s) r]"
    using codes(2) by (simp add: filter_map_same)
  have usable: "\<not> IsExpiredAt r t" "CanUse r t" "redeem_type_error r = None" for t
    using r by (simp_all add: IsExpiredAt_def CanUse_def redeem_type_error_def code_statuses)
  have grant: "redeem_grant (pc_lib cfg) r u = GrantBalance (rc_Value r)" using r(2) amount by (simp add: redeem_grant_def Let_def)
  show ?thesis
    unfolding redeem_locked_def
    using codes(1) user usable grant tx after r(1)
    by (simp add: code_of_def user_of_def stage_of_def redeemed_result_def answer_def Let_def)
qed

lemma solo_Redeem:
  assumes "filter (\<lambda>q. rc_Code q = code) (pd_codes s) = [r]" "filter (\<lambda>q. rc_ID q = rc_ID r) (pd_codes s) = [r]" "code_ready code r"
    and "filter (\<lambda>u. us_ID u = uid) (pd_users s) = [u]" "\<not> flt (rc_Value r) (Finite 0)"
    and "gm_getd 0 (pd_attempts s) uid < redeemMaxErrorsPerHour" "code \<notin> set (pd_locks s)"
  shows "\<exists>s' r'. solo cfg (Redeem (pc_lib cfg) (pc_cache cfg) True uid code) s = (s', Inr r')
    \<and> pd_orders s' = pd_orders s \<and> pd_ext s' = pd_ext s \<and> pd_redeemed s' = pd_redeemed s @ [(code, uid, GrantBalance (rc_Value r))]"
proof -
  let ?s = "if pc_cache cfg then s\<lparr>pd_locks := code # pd_locks s\<rparr> else s"
  obtain s' r' where body: "solo cfg (redeem_locked (pc_lib cfg) (pc_cache cfg) True uid code) ?s = (s', Inr r')"
      "pd_orders s' = pd_orders s" "pd_ext s' = pd_ext s" "pd_redeemed s' = pd_redeemed s @ [(code, uid, GrantBalance (rc_Value r))]"
    using solo_redeem_locked [of code ?s r uid u cfg] assms by (cases "pc_cache cfg") auto
  with assms(6,7) show ?thesis
    by (cases "pc_cache cfg") (simp_all add: Redeem_def checkRedeemRateLimit_def acquireRedeemLock_def releaseRedeemLock_def
        count_of_def bool_of_def)
qed

lemma solo_redeem_for_order:
  assumes "filter (\<lambda>q. rc_Code q = od_RechargeCode od) (pd_codes s) = [r]" "filter (\<lambda>q. rc_ID q = rc_ID r) (pd_codes s) = [r]"
    and "code_ready (od_RechargeCode od) r" "rc_Value r = od_Amount od" "\<not> flt (od_Amount od) (Finite 0)" "order_ready cfg od s"
    and "row_of od s = [q]" "od_Status q = OrderStatusRecharging"
  shows "\<exists>s' r'. solo cfg (redeem_for_order cfg od) s = (s', None) \<and> row_of od s' = [r'] \<and> order_fact r' = order_fact q
    \<and> od_Status r' = OrderStatusCompleted \<and> pd_redeemed s' = pd_redeemed s @ [(od_RechargeCode od, od_UserID od, GrantBalance (od_Amount od))]"
proof -
  obtain u where "filter (\<lambda>u. us_ID u = od_UserID od) (pd_users s) = [u]" using assms(6) by (auto simp: order_ready_def)
  then obtain s1 r1 where s1: "solo cfg (Redeem (pc_lib cfg) (pc_cache cfg) True (od_UserID od) (od_RechargeCode od)) s = (s1, Inr r1)"
      "pd_orders s1 = pd_orders s" "pd_ext s1 = pd_ext s"
      "pd_redeemed s1 = pd_redeemed s @ [(od_RechargeCode od, od_UserID od, GrantBalance (od_Amount od))]"
    using solo_Redeem [OF assms(1-3), of "od_UserID od" u cfg] assms(4-6) by (auto simp: order_ready_def)
  then have "row_of od s1 = [q]" "\<forall>uid amt. \<exists>x. pd_ext s1 (AccrueRebate (od_ID od) uid amt) = A_Float x"
    using assms(6,7) by (simp_all add: row_of_def order_ready_def)
  from solo_rebate_and_complete [OF this(2,1) assms(8), of cfg "''RECHARGE_SUCCESS''"] s1 show ?thesis
    by (simp add: redeem_for_order_def)
qed

text \<open>The code of the order, after it was created.\<close>

lemma solo_CreateCode:
  assumes "order_ready cfg od s" "trim_space (od_RechargeCode od) = od_RechargeCode od" "od_RechargeCode od \<notin> rc_Code ` set (pd_codes s)"
  shows "solo cfg (CreateCode (order_code od)) s =
    (s\<lparr>pd_codes := pd_codes s @ [(order_code od)\<lparr>rc_ID := pd_next s, rc_CreatedAt := pd_clock s\<rparr>], pd_next := pd_next s + 1\<rparr>, None)"
proof -
  have "\<not> list_ex (\<lambda>r'. rc_Code r' = od_RechargeCode od) (pd_codes s)" using assms(3) by (force simp: list_ex_iff)
  then show ?thesis using assms(1,2)
    by (simp add: CreateCode_def order_code_def order_ready_def Let_def IsExpiredAt_def redeem_types code_statuses err_of_def)
qed

lemma inv_code_row: "pay_inv s \<Longrightarrow> r \<in> set (pd_codes s) \<Longrightarrow>
    filter (\<lambda>q. rc_Code q = rc_Code r) (pd_codes s) = [r] \<and> filter (\<lambda>q. rc_ID q = rc_ID r) (pd_codes s) = [r]"
  using filter_key [of rc_Code "pd_codes s" r] filter_key [of rc_ID "pd_codes s" r] by (simp add: pay_inv_def codes_ok_def)

lemma solo_doBalance:
  assumes inv: "pay_inv s" and od: "balance_order od" "\<not> flt (od_Amount od) (Finite 0)" "order_ready cfg od s"
    and q: "row_of od s = [q]" "order_fact q = order_fact od" "od_Status q = OrderStatusRecharging"
    and codes: "\<And>r. r \<in> set (pd_codes s) \<Longrightarrow> rc_Code r = od_RechargeCode od \<Longrightarrow> IsUsed r \<or> rc_Status r = StatusUnused \<and> rc_ExpiresAt r = None"
  shows "\<exists>s' r'. solo cfg (doBalance cfg od) s = (s', None) \<and> row_of od s' = [r'] \<and> order_fact r' = order_fact od
    \<and> od_Status r' = OrderStatusCompleted
    \<and> pd_redeemed s' = pd_redeemed s @ (if od_RechargeCode od \<in> fst ` set (pd_redeemed s) then []
        else [(od_RechargeCode od, od_UserID od, GrantBalance (od_Amount od))])"
proof (cases "\<exists>r\<in>set (pd_codes s). rc_Code r = od_RechargeCode od")
  case True
  then obtain r where r: "r \<in> set (pd_codes s)" "rc_Code r = od_RechargeCode od" by blast
  note rows = inv_code_row [OF inv r(1), unfolded r(2)]
  have q': "q \<in> set (pd_orders s)" "balance_order q" "rc_Code r = od_RechargeCode q" using row_ofD [OF q(1)] order_factD [OF q(2)] od(1) r by simp_all
  show ?thesis
  proof (cases "IsUsed r")
    case used: True
    then have "od_RechargeCode od \<in> fst ` set (pd_redeemed s)" using inv_codes(3) [OF inv r(1)] r(2) by simp
    moreover have "\<forall>uid amt. \<exists>x. pd_ext s (AccrueRebate (od_ID od) uid amt) = A_Float x" using od(3) by (simp add: order_ready_def)
    from solo_rebate_and_complete [OF this q(1,3), of cfg "''RECHARGE_SUCCESS''"] used rows
    have "\<exists>s' r'. solo cfg (doBalance cfg od) s = (s', None) \<and> row_of od s' = [r'] \<and> order_fact r' = order_fact q
        \<and> od_Status r' = OrderStatusCompleted \<and> pd_redeemed s' = pd_redeemed s"
      by (simp add: doBalance_def redeem_GetByCode_def code_of_def resolveRedeemAction_def)
    ultimately show ?thesis using q(2) by simp
  next
    case unused: False
    with codes [OF r] have ready: "rc_Status r = StatusUnused" "rc_ExpiresAt r = None" by auto
    with inv_codes(2) [OF inv r(1)] r(2) have new: "od_RechargeCode od \<notin> fst ` set (pd_redeemed s)" by simp
    have worth: "code_ready (od_RechargeCode od) r" "rc_Value r = od_Amount od"
      using ready r(2) inv_codes(4) [OF inv r(1) q'] order_factD [OF q(2)] by (simp_all add: code_ready_def)
    from solo_redeem_for_order [OF rows [THEN conjunct1] rows [THEN conjunct2] worth od(2,3) q(1,3)] unused rows new q(2) show ?thesis
      by (simp add: doBalance_def redeem_GetByCode_def code_of_def resolveRedeemAction_def)
  qed
next
  case False
  let ?r = "(order_code od)\<lparr>rc_ID := pd_next s, rc_CreatedAt := pd_clock s\<rparr>"
  let ?s = "s\<lparr>pd_codes := pd_codes s @ [?r], pd_next := pd_next s + 1\<rparr>"
  have none: "filter (\<lambda>q. rc_Code q = od_RechargeCode od) (pd_codes s) = []" using False by (auto simp: filter_empty_conv)
  have "fst ` set (pd_redeemed s) \<subseteq> rc_Code ` set (pd_codes s)" using inv by (simp add: pay_inv_def codes_ok_def)
  with False have new: "od_RechargeCode od \<notin> fst ` set (pd_redeemed s)" "od_RechargeCode od \<notin> rc_Code ` set (pd_codes s)" by auto
  have "trim_space (od_RechargeCode od) = od_RechargeCode od"
    using inv_orders(1) [OF inv, of q] row_ofD [OF q(1)] order_factD [OF q(2)] od(1) by simp
  from solo_CreateCode [OF od(3) this new(2)] have create: "solo cfg (CreateCode (order_code od)) s = (?s, None)" .
  have "filter (\<lambda>q. rc_ID q = pd_next s) (pd_codes s) = []" using inv_codes(1) [OF inv] by (force simp: filter_empty_conv)
  then have rows: "filter (\<lambda>q. rc_Code q = od_RechargeCode od) (pd_codes ?s) = [?r]" "filter (\<lambda>q. rc_ID q = rc_ID ?r) (pd_codes ?s) = [?r]"
    using none by (simp_all add: order_code_def)
  have ready: "code_ready (od_RechargeCode od) ?r" "rc_Value ?r = od_Amount od" "order_ready cfg od ?s" "row_of od ?s = [q]"
    using od(3) q(1) by (simp_all add: code_ready_def order_code_def order_ready_def row_of_def)
  from solo_redeem_for_order [OF rows ready(1,2) od(2) ready(3,4) q(3)] create none new(1) q(2) show ?thesis
    by (simp add: doBalance_def redeem_GetByCode_def code_of_def resolveRedeemAction_def)
qed

lemma inv_run: "pay_inv s \<Longrightarrow> safe p {} \<Longrightarrow> pay_inv (fst (solo cfg p s))"
proof -
  assume "pay_inv s" "safe p {}"
  moreover obtain s' r fs where "run (pay_exec (pc_lib cfg)) Up p [] s = ((s', r), fs)" by (metis surj_pair)
  ultimately show ?thesis using pay.run_sat [of cfg Up p "[]" s s' r fs "{}" "\<lambda>r K. True"] by (simp add: solo_def)
qed

text \<open>The lock of the fulfilment.\<close>

lemma solo_fulfil_locked:
  assumes "row_of od s = [r]" "od_Status r \<in> {OrderStatusPaid, OrderStatusFailed}"
  shows "\<exists>s1 q. solo cfg (fulfil_locked cfg (od_ID od) body) s =
      solo cfg (and_then body (\<lambda>e. case e of Some err \<Rightarrow> markFailed cfg (od_ID od) err (Ret (Some err)) | None \<Rightarrow> Ret None)) s1
    \<and> s1 = s\<lparr>pd_orders := pd_orders s1\<rparr> \<and> row_of od s1 = [q] \<and> order_fact q = order_fact r \<and> od_Status q = OrderStatusRecharging
    \<and> (pay_inv s \<longrightarrow> pay_inv s1)"
proof -
  let ?p = "\<lambda>r. od_ID r = od_ID od \<and> od_Status r \<in> {OrderStatusPaid, OrderStatusFailed}"
  let ?f = "\<lambda>r. r\<lparr>od_Status := OrderStatusRecharging\<rparr>"
  let ?g = "\<lambda>r. if ?p r then (?f r)\<lparr>od_UpdatedAt := pd_clock s\<rparr> else r"
  define s1 where "s1 = s\<lparr>pd_orders := map ?g (pd_orders s)\<rparr>"
  have r: "?p r" "r \<in> set (pd_orders s)" using assms row_ofD [OF assms(1)] by auto
  have "filter ?p (pd_orders s) = filter (\<lambda>r. od_Status r \<in> {OrderStatusPaid, OrderStatusFailed}) (row_of od s)"
    unfolding row_of_def filter_filter by (rule filter_cong) auto
  with assms have one: "filter ?p (pd_orders s) = [r]" by simp
  have eff: "effect (pc_lib cfg) (UpdateOrders ?p ?f) s = (s1, A_Count 1)" using one by (simp add: s1_def)
  have "row_of od s1 = map ?g (row_of od s)" unfolding row_of_def s1_def by (simp add: filter_map_same)
  then have row: "row_of od s1 = [?g r]" using assms(1) by simp
  have "pay_inv s \<longrightarrow> pay_inv s1"
    using update_keeps(1) [of s "{}" ?p ?f "pc_lib cfg"] locked_ok eff by (simp del: effect.simps)
  moreover have "solo cfg (fulfil_locked cfg (od_ID od) body) s =
      solo cfg (and_then body (\<lambda>e. case e of Some err \<Rightarrow> markFailed cfg (od_ID od) err (Ret (Some err)) | None \<Rightarrow> Ret None)) s1"
    using eff by (simp add: fulfil_locked_def count_of_def del: effect.simps solo_simps(3))
  ultimately show ?thesis
    by (intro exI [of _ s1] exI [of _ "?g r"]) (use r row in \<open>simp add: s1_def order_fact_def\<close>)
qed

text \<open>One attempt without faults, whatever earlier attempts left behind.\<close>

definition completes :: "pay_cfg \<Rightarrow> goerror option pay_prog \<Rightarrow> PaymentOrder \<Rightarrow> pay_db \<Rightarrow> bool" where
  "completes cfg p od s \<longleftrightarrow> (\<exists>s' r uid. solo cfg p s = (s', None) \<and> row_of od s' = [r] \<and> order_fact r = order_fact od
     \<and> od_Status r = OrderStatusCompleted \<and> filter (\<lambda>e. fst e = od_RechargeCode od) (pd_redeemed s') = [(od_RechargeCode od, uid, GrantBalance (od_Amount od))]
     \<and> (od_RechargeCode od \<notin> fst ` set (pd_redeemed s) \<longrightarrow> uid = od_UserID od))"

definition code_usable :: "PaymentOrder \<Rightarrow> pay_db \<Rightarrow> bool" where
  "code_usable od s \<longleftrightarrow> (\<forall>r\<in>set (pd_codes s). rc_Code r = od_RechargeCode od \<longrightarrow>
     IsUsed r \<or> rc_Status r = StatusUnused \<and> rc_ExpiresAt r = None)"

lemma solo_ExecuteBalance:
  assumes "pay_inv s" "od \<in> set (pd_orders s)" "od_OrderType od = OrderTypeBalance" "od_Status od \<in> {OrderStatusPaid, OrderStatusFailed}"
    and "\<not> flt (od_Amount od) (Finite 0)" "order_ready cfg od s"
    and usable: "code_usable od s"
  shows "completes cfg (ExecuteBalanceFulfillment cfg (od_ID od)) od s"
proof -
  have row: "row_of od s = [od]" using inv_row assms(1,2) by simp
  from solo_fulfil_locked [OF row assms(4), of cfg "doBalance cfg od"] assms(1)
  obtain s1 q where lock: "solo cfg (fulfil_locked cfg (od_ID od) (doBalance cfg od)) s = solo cfg (and_then (doBalance cfg od)
        (\<lambda>e. case e of Some err \<Rightarrow> markFailed cfg (od_ID od) err (Ret (Some err)) | None \<Rightarrow> Ret None)) s1"
      "s1 = s\<lparr>pd_orders := pd_orders s1\<rparr>" "row_of od s1 = [q]" "order_fact q = order_fact od" "od_Status q = OrderStatusRecharging" "pay_inv s1"
    by blast
  have same: "pd_codes s1 = pd_codes s" "pd_redeemed s1 = pd_redeemed s" "order_ready cfg od s1"
    by (subst lock(2), simp add: assms(6) [unfolded order_ready_def] order_ready_def)+
  obtain s' r' where fin: "solo cfg (doBalance cfg od) s1 = (s', None)" "row_of od s' = [r']" "order_fact r' = order_fact od"
      "od_Status r' = OrderStatusCompleted" "pd_redeemed s' = pd_redeemed s @ (if od_RechargeCode od \<in> fst ` set (pd_redeemed s) then []
        else [(od_RechargeCode od, od_UserID od, GrantBalance (od_Amount od))])"
    using solo_doBalance [OF lock(6) assms(3,5) same(3) lock(3-5)] usable unfolding same code_usable_def by blast
  have fulfil: "solo cfg (ExecuteBalanceFulfillment cfg (od_ID od)) s = (s', None)"
  proof -
    have "filter (\<lambda>r. od_ID r = od_ID od) (pd_orders s) = [od]" using row by (simp add: row_of_def)
    moreover have "od_Status od \<noteq> OrderStatusCompleted" "\<not> psIsRefundStatus (od_Status od)"
      using assms(4) by (auto simp: psIsRefundStatus_def order_statuses)
    ultimately show ?thesis using lock(1) fin(1) assms(3,4)
      by (auto simp: ExecuteBalanceFulfillment_def order_of_def answer_def)
  qed
  have "pay_inv s'" using inv_run [OF assms(1), of "ExecuteBalanceFulfillment cfg (od_ID od)" cfg] safe_ExecuteBalance fulfil by simp
  with inv_credited [of s' r'] obtain uid where credit: "filter (\<lambda>e. fst e = od_RechargeCode od) (pd_redeemed s') = [(od_RechargeCode od, uid, GrantBalance (od_Amount od))]"
    using row_ofD [OF fin(2)] order_factD [OF fin(3)] fin(4) assms(3,5) by (auto simp: settled_def)
  moreover have "uid = od_UserID od" if "od_RechargeCode od \<notin> fst ` set (pd_redeemed s)"
    using that credit fin(5) by (simp add: filter_empty_conv image_iff)
  ultimately show ?thesis using fulfil fin(2-4) unfolding completes_def by blast
qed

lemma solo_executeFulfillment:
  assumes "pay_inv s" "od \<in> set (pd_orders s)" "od_OrderType od = OrderTypeBalance"
  shows "solo cfg (executeFulfillment cfg (od_ID od)) s = solo cfg (ExecuteBalanceFulfillment cfg (od_ID od)) s"
proof -
  have "filter (\<lambda>r. od_ID r = od_ID od) (pd_orders s) = [od]" using inv_row [OF assms(1,2)] by (simp add: row_of_def)
  then show ?thesis using assms(3)
    by (simp add: executeFulfillment_def order_of_def answer_def OrderTypeBalance_def OrderTypeSubscription_def)
qed

text \<open>An update of one order that is allowed to anybody.\<close>

lemma effect_one_order:
  assumes "pay_inv s" "od \<in> set (pd_orders s)" "p od" "\<And>r. p r \<Longrightarrow> od_ID r = od_ID od" "update_ok {} p f"
  shows "\<exists>s1. effect lib (UpdateOrders p f) s = (s1, A_Count 1) \<and> pay_inv s1 \<and> (f od)\<lparr>od_UpdatedAt := pd_clock s\<rparr> \<in> set (pd_orders s1)
    \<and> s1 = s\<lparr>pd_orders := pd_orders s1\<rparr>"
proof -
  have "filter p (pd_orders s) = filter p (row_of od s)"
    unfolding row_of_def filter_filter by (rule filter_cong) (use assms(4) in auto)
  then have "filter p (pd_orders s) = [od]" using inv_row [OF assms(1,2)] assms(3) by simp
  moreover have "pay_inv (fst (effect lib (UpdateOrders p f) s))" using update_keeps(1) [OF assms(1) _ assms(5)] by simp
  ultimately show ?thesis using assms(2,3) by (auto simp: image_iff intro!: bexI [of _ od])
qed

text \<open>The end of a notification and of a retry: the order is paid, and is fulfilled.\<close>

lemma inv_audit: "pay_inv s \<Longrightarrow> pay_inv (s\<lparr>pd_audit := pd_audit s @ rows\<rparr>)"
  by (auto simp: pay_inv_def rebates_ok_def audited_def)

lemma paid_completes:
  assumes "pay_inv s" "od \<in> set (pd_orders s)" "balance_order od"
    and "\<not> flt (od_Amount od) (Finite 0)" "order_ready cfg od s" "code_usable od s"
    and "p od" "\<And>r. p r \<Longrightarrow> od_ID r = od_ID od" "update_ok {} p f"
    and f: "order_fact (f od) = order_fact od" "od_UserID (f od) = od_UserID od" "od_Status (f od) = OrderStatusPaid"
  shows "\<exists>s1. effect (pc_lib cfg) (UpdateOrders p f) s = (s1, A_Count 1) \<and>
    (\<forall>rows. completes cfg (executeFulfillment cfg (od_ID od)) od (s1\<lparr>pd_audit := pd_audit s1 @ rows\<rparr>))"
proof -
  let ?od = "(f od)\<lparr>od_UpdatedAt := pd_clock s\<rparr>"
  obtain s1 where s1: "effect (pc_lib cfg) (UpdateOrders p f) s = (s1, A_Count 1)" "pay_inv s1" "?od \<in> set (pd_orders s1)"
      "s1 = s\<lparr>pd_orders := pd_orders s1\<rparr>"
    using effect_one_order [OF assms(1,2,7,8,9)] by blast
  note fact = order_factD [OF f(1)]
  have "completes cfg (executeFulfillment cfg (od_ID od)) od (s1\<lparr>pd_audit := pd_audit s1 @ rows\<rparr>)" for rows
  proof -
    let ?t = "s1\<lparr>pd_audit := pd_audit s1 @ rows\<rparr>"
    have inv: "pay_inv ?t" using s1(2) by (rule inv_audit)
    have same: "order_ready cfg ?od ?t" "code_usable ?od ?t"
      by (subst s1(4), use assms(5,6) fact f(2) in \<open>simp add: order_ready_def code_usable_def\<close>)+
    have od: "?od \<in> set (pd_orders ?t)" "balance_order ?od" "od_Status ?od \<in> {OrderStatusPaid, OrderStatusFailed}"
        "\<not> flt (od_Amount ?od) (Finite 0)"
      using s1(3) fact f(3) assms(3,4) by simp_all
    have "completes cfg (ExecuteBalanceFulfillment cfg (od_ID ?od)) ?od ?t"
      using inv od same by (intro solo_ExecuteBalance)
    then show ?thesis
      using solo_executeFulfillment [OF inv od(1,2), of cfg] fact f(1,2) by (simp add: completes_def row_of_def)
  qed
  with s1(1) show ?thesis by blast
qed

lemma completes_from:
  "completes cfg q od t \<Longrightarrow> solo cfg p s = solo cfg q t \<Longrightarrow> pd_redeemed t = pd_redeemed s \<Longrightarrow> completes cfg p od s"
  by (simp add: completes_def)

lemma update_redeemed: "effect lib (UpdateOrders p f) s = (s1, a) \<Longrightarrow> pd_redeemed s1 = pd_redeemed s"
  by auto

lemma retry_ok: "update_ok K (\<lambda>r. od_ID r = oid \<and> od_Status r \<in> {OrderStatusFailed, OrderStatusPaid})
    (\<lambda>r. r\<lparr>od_Status := OrderStatusPaid, od_FailedAt := None, od_FailedReason := None\<rparr>)"
  by (rule update_status_ok) (auto simp: order_fact_def status_simps)


section \<open>Notifications\<close>

text \<open>The provider that the order expects, from the answers of the registries.\<close>

definition expected_provider :: "PaymentOrder \<Rightarrow> pay_db \<Rightarrow> string" where
  "expected_provider od s =
     expectedNotificationProviderKeyForOrder (case str_of (pd_ext s (RegistryProviderKey (od_PaymentType od))) of Inr (Some key) \<Rightarrow> key | _ \<Rightarrow> '''')
       od (case str_of (pd_ext s (ProviderInstanceOf (od_ID od))) of Inr (Some key) \<Rightarrow> key | _ \<Rightarrow> '''')"

lemma solo_confirmPayment:
  assumes "pay_inv s" "od \<in> set (pd_orders s)"
  shows "solo cfg (confirmPayment cfg (od_ID od) tradeNo paid pk metadata) s =
    (case check_notification cfg od (expected_provider od s) paid pk metadata of
       Some (act, err) \<Rightarrow> solo cfg (writeAuditLog (od_ID od) act pk (Ret (Some err))) s
     | None \<Rightarrow> solo cfg (toPaid cfg od tradeNo paid pk) s)"
proof -
  have "filter (\<lambda>r. od_ID r = od_ID od) (pd_orders s) = [od]" using inv_row [OF assms] by (simp add: row_of_def)
  then show ?thesis
    by (simp add: confirmPayment_def order_of_def answer_def expected_provider_def split: option.split prod.split)
qed

lemma solo_toPaid:
  assumes "pay_inv s" "od \<in> set (pd_orders s)" "balance_order od" "payable (od_ID od) (time_add (pd_clock s) (- paymentGraceMinutes * minute)) od"
    and "\<not> flt (od_Amount od) (Finite 0)" "order_ready cfg od s" "code_usable od s"
  shows "completes cfg (toPaid cfg od tradeNo paid pk) od s"
proof -
  let ?p = "payable (od_ID od) (time_add (pd_clock s) (- paymentGraceMinutes * minute))"
  let ?f = "\<lambda>r. r\<lparr>od_Status := OrderStatusPaid, od_PayAmount := paid, od_PaymentTradeNo := tradeNo, od_PaidAt := Some (pd_clock s),
      od_FailedAt := None, od_FailedReason := None\<rparr>"
  have ok: "update_ok {} ?p ?f" by (rule paid_ok) (auto simp: order_fact_def payable_def)
  have mine: "od_ID r = od_ID od" if "?p r" for r using that by (simp add: payable_def)
  obtain s1 where s1: "effect (pc_lib cfg) (UpdateOrders ?p ?f) s = (s1, A_Count 1)"
      "\<And>rows. completes cfg (executeFulfillment cfg (od_ID od)) od (s1\<lparr>pd_audit := pd_audit s1 @ rows\<rparr>)"
    using paid_completes [OF assms(1-3,5-7,4) mine ok] by (simp add: order_fact_def del: effect.simps) blast
  let ?exec = "executeFulfillment cfg (od_ID od)"
  let ?log = "writeAuditLog (od_ID od) ''ORDER_PAID'' pk ?exec"
  let ?late = "od_Status od = OrderStatusCancelled \<or> od_Status od = OrderStatusExpired"
  let ?logs = "if ?late then writeAuditLog (od_ID od) ''ORDER_RECOVERED'' pk ?log else ?log"
  have "\<exists>rows. solo cfg ?logs s1 = solo cfg ?exec (s1\<lparr>pd_audit := pd_audit s1 @ rows\<rparr>)"
    using solo_audit [of cfg "od_ID od" "''ORDER_PAID''" pk ?exec s1]
      solo_audit_twice [of cfg "od_ID od" "''ORDER_RECOVERED''" pk "od_ID od" "''ORDER_PAID''" pk ?exec s1]
    by (cases ?late) (simp_all only: if_True if_False)
  moreover have "solo cfg (toPaid cfg od tradeNo paid pk) s = solo cfg ?logs s1"
    unfolding toPaid_def Let_def solo_now solo_simps(2) s1(1) by (simp add: count_of_def)
  ultimately obtain rows where "solo cfg (toPaid cfg od tradeNo paid pk) s = solo cfg ?exec (s1\<lparr>pd_audit := pd_audit s1 @ rows\<rparr>)"
    by auto
  from completes_from [OF s1(2) this] update_redeemed [OF s1(1)] show ?thesis by simp
qed

lemma solo_notification:
  assumes "pay_inv s" "filter (\<lambda>r. od_OutTradeNo r = pn_OrderID n) (pd_orders s) = [od]" "pn_Status n = NotificationStatusSuccess"
  shows "solo cfg (HandlePaymentNotification cfg n pk) s =
    (case check_notification cfg od (expected_provider od s) (pn_Amount n) pk (pn_Metadata n) of
       Some (act, err) \<Rightarrow> solo cfg (writeAuditLog (od_ID od) act pk (Ret (Some err))) s
     | None \<Rightarrow> solo cfg (toPaid cfg od (pn_TradeNo n) (pn_Amount n) pk) s)"
proof -
  have od: "od \<in> set (pd_orders s)" using filter_singleD [OF assms(2)] by simp
  have "solo cfg (HandlePaymentNotification cfg n pk) s = solo cfg (confirmPayment cfg (od_ID od) (pn_TradeNo n) (pn_Amount n) pk (pn_Metadata n)) s"
    using assms(2,3) by (simp add: HandlePaymentNotification_def order_of_def answer_def)
  then show ?thesis using solo_confirmPayment [OF assms(1) od] by simp
qed



section \<open>A concrete shop\<close>

text \<open>One user, one pending order of ten, and a notification of the provider.\<close>

definition demo_cfg :: pay_cfg where
  "demo_cfg = \<lparr>pc_lib = \<lparr>pl_round = Finite, pl_fmt = (\<lambda>_. ''?''), pl_fmt_v = (\<lambda>_. ''?''), pl_error = (\<lambda>_. ''error'')\<rparr>, pc_cache = True, pc_affiliate = True\<rparr>"

definition demo_order :: PaymentOrder where
  "demo_order = \<lparr>od_ID = 1, od_UserID = 7, od_Amount = Finite 10, od_BonusAmount = Finite 0, od_PayAmount = Finite 10,
     od_RechargeCode = ''PAY-1'', od_OutTradeNo = ''sub2_a'', od_PaymentType = ''alipay'', od_PaymentTradeNo = '''',
     od_OrderType = OrderTypeBalance, od_SubscriptionGroupID = None, od_SubscriptionDays = None, od_ProviderInstanceID = None,
     od_ProviderKey = None, od_ProviderSnapshot = [], od_Status = OrderStatusPending, od_ExpiresAt = 100, od_PaidAt = None,
     od_CompletedAt = None, od_FailedAt = None, od_FailedReason = None, od_CreatedAt = 0, od_UpdatedAt = 0\<rparr>"

definition demo_ext :: "question \<Rightarrow> pay_ans" where
  "demo_ext q = (case q of AccrueRebate oid uid amt \<Rightarrow> A_Float (Finite 1) | RegistryProviderKey ty \<Rightarrow> A_Str ''alipay''
     | GroupStatus gid \<Rightarrow> A_Str ''active'' | _ \<Rightarrow> A_Nothing)"

definition empty_shop :: pay_db where
  "empty_shop = \<lparr>pd_orders = [], pd_audit = [], pd_codes = [], pd_next = 1, pd_users = [\<lparr>us_ID = 7, us_Balance = Finite 0, us_Concurrency = 1\<rparr>],
     pd_clock = 5, pd_attempts = [], pd_locks = [], pd_ext = demo_ext, pd_redeemed = [], pd_rebates = [], pd_assigned = []\<rparr>"

definition demo_shop :: pay_db where
  "demo_shop = empty_shop\<lparr>pd_orders := [demo_order]\<rparr>"

definition demo_notification :: PaymentNotification where
  "demo_notification = \<lparr>pn_TradeNo = ''T9'', pn_OrderID = ''sub2_a'', pn_Amount = Finite 10, pn_Status = NotificationStatusSuccess, pn_Metadata = []\<rparr>"

lemmas demo_defs = demo_cfg_def demo_order_def demo_ext_def empty_shop_def demo_shop_def demo_notification_def

lemma demo_trim: "trim_space ''PAY-1'' = ''PAY-1''" "trim_space ''alipay'' = ''alipay''" "trim_space ''wxpay'' = ''wxpay''" "trim_space '''' = ''''"
  by code_simp+

lemma demo_check: "check_notification demo_cfg demo_order (expected_provider demo_order demo_shop) (Finite 10) ''alipay'' [] = None"
  by (simp add: check_notification_def demo_defs expected_provider_def expectedNotificationProviderKeyForOrder_def str_of_def
      expectedNotificationProviderKey_def psOrderProviderSnapshot_def psStringValue_def demo_trim provider_mismatch_def equal_fold_def
      validateProviderNotificationMetadata_def validateProviderSnapshotMetadata_def isValidProviderAmount_def amount_mismatch_def
      fsub_def fneg_def f_abs_def PaymentOrderCurrency_def paymentAmountToleranceForCurrency_def amountToleranceCNY_def Let_def
      CurrencyMinorUnit_def paymentCurrencyAmountUnitFor_def)

lemma shop_reached: "pay_reaches demo_cfg empty_shop (demo_shop, [])"
proof -
  have "pay_env empty_shop (empty_shop\<lparr>pd_orders := pd_orders empty_shop @ [demo_order]\<rparr>)"
    by (rule pay_env.new_order) (simp_all add: demo_defs demo_trim)
  then have "pay_env empty_shop demo_shop" by (simp add: demo_shop_def empty_shop_def)
  then show ?thesis by (intro r_into_rtranclp pool_step.other)
qed

lemma empty_fresh: "fresh_db empty_shop" by (simp add: fresh_db_def empty_shop_def)

lemma shop_inv: "pay_inv demo_shop"
  using pay.reaches_inv [OF shop_reached fresh_inv [OF empty_fresh]] .

lemma shop_ready: "order_ready demo_cfg demo_order demo_shop" "code_usable demo_order demo_shop" "\<not> flt (od_Amount demo_order) (Finite 0)"
    "payable (od_ID demo_order) (time_add (pd_clock demo_shop) (- paymentGraceMinutes * minute)) demo_order"
  by (simp_all add: demo_defs order_ready_def code_usable_def redeemMaxErrorsPerHour_def gm_getd_def gm_get_def payable_def)

lemma solo_reaches:
  assumes "reaches (pay_exec (pc_lib cfg)) (pay_entry cfg) env c (s, ps)" "solo cfg p s = (s', r)" "pay_entry cfg (discard p)"
  shows "reaches (pay_exec (pc_lib cfg)) (pay_entry cfg) env c (s', ps @ [Ret ()])"
proof -
  have "solo cfg (discard p) s = (s', ())" using assms(2) by (simp add: discard_def)
  then obtain fs where run: "run (pay_exec (pc_lib cfg)) Up (discard p) [] s = ((s', ()), fs)" by (auto simp: solo_def prod_eq_iff)
  have "reaches (pay_exec (pc_lib cfg)) (pay_entry cfg) env c (s, ps @ [discard p])"
    using assms(1) pool_step.spawn [of "pay_entry cfg", OF assms(3)] by (rule rtranclp.rtrancl_into_rtrancl)
  moreover from run_reaches [OF run, of "pay_entry cfg" env ps "[]"]
  have "reaches (pay_exec (pc_lib cfg)) (pay_entry cfg) env (s, ps @ [discard p]) (s', ps @ [Ret ()])" .
  ultimately show ?thesis by (rule rtranclp_trans)
qed

lemma shop_finds: "filter (\<lambda>r. od_OutTradeNo r = pn_OrderID demo_notification) (pd_orders demo_shop) = [demo_order]"
    "pn_Status demo_notification = NotificationStatusSuccess" "od_OrderType demo_order = OrderTypeBalance" "demo_order \<in> set (pd_orders demo_shop)"
    "check_notification demo_cfg demo_order (expected_provider demo_order demo_shop) (pn_Amount demo_notification) ''alipay'' (pn_Metadata demo_notification) = None"
  using demo_check by (simp_all add: demo_notification_def demo_shop_def demo_order_def)


text \<open>The same notification, as a step of the whole system.\<close>

lemma shop_completes: "completes demo_cfg (HandlePaymentNotification demo_cfg demo_notification ''alipay'') demo_order demo_shop"
  by (rule completes_from [OF solo_toPaid [OF shop_inv shop_finds(4,3) shop_ready(4,3,1,2)]])
    (use solo_notification [OF shop_inv shop_finds(1,2)] shop_finds(5) in simp_all)

lemma shop_completed: "\<exists>s r. pay_reaches demo_cfg empty_shop (s, [Ret ()]) \<and> r \<in> set (pd_orders s) \<and> od_Status r = OrderStatusCompleted
    \<and> order_fact r = order_fact demo_order"
proof -
  from shop_completes obtain s r where s: "solo demo_cfg (HandlePaymentNotification demo_cfg demo_notification ''alipay'') demo_shop = (s, None)"
      "row_of demo_order s = [r]" "od_Status r = OrderStatusCompleted" "order_fact r = order_fact demo_order"
    unfolding completes_def by blast
  from solo_reaches [OF shop_reached s(1) pay_entry.webhook] have reach: "pay_reaches demo_cfg empty_shop (s, [Ret ()])" by simp
  with reach s row_ofD [OF s(2)] show ?thesis by blast
qed

theorem order_credited_exactly_once_witness:
  "\<exists>s r uid. pay_reaches demo_cfg empty_shop (s, [Ret ()]) \<and> r \<in> set (pd_orders s) \<and> od_Status r = OrderStatusCompleted
     \<and> filter (\<lambda>e. fst e = ''PAY-1'') (pd_redeemed s) = [(''PAY-1'', uid, GrantBalance (Finite 10))]"
proof -
  from shop_completed obtain s r where s: "pay_reaches demo_cfg empty_shop (s, [Ret ()])" "r \<in> set (pd_orders s)" "od_Status r = OrderStatusCompleted"
      "order_fact r = order_fact demo_order" by blast
  have r: "od_OrderType r = OrderTypeBalance" "\<not> flt (od_Amount r) (Finite 0)" "od_RechargeCode r = ''PAY-1''" "od_Amount r = Finite 10" "settled (od_Status r)"
    using order_factD [OF s(4)] s(3) by (simp_all add: demo_order_def settled_def)
  from order_credited_exactly_once [OF s(1) empty_fresh s(2) r(1,2)] r s show ?thesis by auto
qed

theorem rebate_at_most_once_witness:
  "\<exists>s. pay_reaches demo_cfg empty_shop (s, [Ret ()]) \<and> length (filter (\<lambda>e. fst e = 1) (pd_rebates s)) \<le> 1"
  using shop_completed rebate_at_most_once [OF _ empty_fresh] by blast

theorem order_transitions_witness:
  "moves (od_Status demo_order) (od_Status (demo_order\<lparr>od_Status := OrderStatusFailed, od_UpdatedAt := 9\<rparr>))"
proof -
  let ?fail = "\<lambda>s. s\<lparr>pd_orders := map (\<lambda>r. if od_ID r = 1 then r\<lparr>od_Status := OrderStatusFailed, od_UpdatedAt := 9\<rparr> else r) (pd_orders s)\<rparr>"
  have "pool_step (pay_exec (pc_lib demo_cfg)) (pay_entry demo_cfg) pay_env (demo_shop, []) (?fail demo_shop, [])"
    by (intro pool_step.other pay_env.creation_failed)
  from order_transitions [OF shop_reached empty_fresh this, of demo_order "demo_order\<lparr>od_Status := OrderStatusFailed, od_UpdatedAt := 9\<rparr>"]
  show ?thesis by (simp add: demo_shop_def demo_order_def)
qed


text \<open>A retry after the order was paid and its fulfilment failed.\<close>

definition failed_shop :: pay_db where
  "failed_shop = empty_shop\<lparr>pd_orders := [demo_order\<lparr>od_Status := OrderStatusFailed, od_PaidAt := Some 3\<rparr>]\<rparr>"


end
