(* ===== verification/Payment_Recovery.thy ===== *)
theory Payment_Recovery
  imports Payment_Progress
begin

text \<open>
  What is left behind when a process dies, or a statement is lost, in the middle of a fulfilment: an
  order that nobody holds any more stays in \<open>RECHARGING\<close>, which no handler ever leaves again, and a
  subscription whose audit row was lost is assigned a second time by the retry.
\<close>

section \<open>An order that nobody holds\<close>

definition stuck :: "int \<Rightarrow> pay_db \<Rightarrow> bool" where
  "stuck oid s \<longleftrightarrow> (\<exists>r\<in>set (pd_orders s). od_ID r = oid) \<and>
     (\<forall>r\<in>set (pd_orders s). od_ID r = oid \<longrightarrow> od_Status r = OrderStatusRecharging \<and> isSupportedPaymentOrderType (od_OrderType r))"

definition keeps_stuck :: "int \<Rightarrow> (PaymentOrder \<Rightarrow> bool) \<Rightarrow> (PaymentOrder \<Rightarrow> PaymentOrder) \<Rightarrow> bool" where
  "keeps_stuck oid p f \<longleftrightarrow> (\<forall>r. p r \<longrightarrow> od_ID (f r) = od_ID r \<and> od_OrderType (f r) = od_OrderType r
     \<and> (od_ID r = oid \<and> od_Status r = OrderStatusRecharging \<longrightarrow> od_Status (f r) = OrderStatusRecharging))"

definition stuck_legal :: "int \<Rightarrow> unit set \<Rightarrow> pay_stmt \<Rightarrow> bool" where
  "stuck_legal oid K c = (case c of UpdateOrders p f \<Rightarrow> keeps_stuck oid p f | _ \<Rightarrow> True)"

definition seen_stuck :: "int \<Rightarrow> PaymentOrder \<Rightarrow> bool" where
  "seen_stuck oid r \<longleftrightarrow> (od_ID r = oid \<longrightarrow> od_Status r = OrderStatusRecharging \<and> isSupportedPaymentOrderType (od_OrderType r))"

definition stuck_poss :: "int \<Rightarrow> pay_stmt \<Rightarrow> pay_ans \<Rightarrow> bool" where
  "stuck_poss oid c a =
     (case c of
        GetOrder i \<Rightarrow> (\<forall>r. a = A_Order r \<longrightarrow> od_ID r = i \<and> seen_stuck oid r)
      | UpdateOrders p f \<Rightarrow> (\<forall>r. p r \<longrightarrow> od_ID r = oid \<and> od_Status r \<noteq> OrderStatusRecharging) \<longrightarrow> a = A_Count 0 \<or> (\<exists>n e. a = A_Err n e)
      | _ \<Rightarrow> True)"

text \<open>The environment of the whole system, where the creation of no order fails any more.\<close>

definition late_env :: "pay_db \<Rightarrow> pay_db \<Rightarrow> bool" where
  "late_env s s' \<longleftrightarrow> pay_env s s' \<and> (\<forall>r\<in>set (pd_orders s'). od_Status r = OrderStatusFailed \<longrightarrow> r \<in> set (pd_orders s))"

lemma stuck_orders: "stuck oid s \<Longrightarrow> pd_orders s' = pd_orders s \<Longrightarrow> stuck oid s'"
  by (simp add: stuck_def)

lemma stuckD: "stuck oid s \<Longrightarrow> r \<in> set (pd_orders s) \<Longrightarrow> seen_stuck oid r"
  unfolding stuck_def seen_stuck_def by blast

lemma stuck_map:
  assumes "stuck oid s" and f: "\<And>r. r \<in> set (pd_orders s) \<Longrightarrow> od_ID (f r) = od_ID r \<and> (od_ID r = oid \<longrightarrow> seen_stuck oid (f r))"
  shows "stuck oid (s\<lparr>pd_orders := map f (pd_orders s)\<rparr>)"
proof -
  from assms(1) obtain r where "r \<in> set (pd_orders s)" "od_ID r = oid" unfolding stuck_def by blast
  then have "\<exists>r\<in>set (map f (pd_orders s)). od_ID r = oid" using f by force
  moreover have "od_ID r = oid \<longrightarrow> od_Status r = OrderStatusRecharging \<and> isSupportedPaymentOrderType (od_OrderType r)"
    if "r \<in> set (map f (pd_orders s))" for r
    using that f unfolding seen_stuck_def by fastforce
  ultimately show ?thesis unfolding stuck_def by simp
qed

lemma stuck_update:
  assumes "stuck oid s" "keeps_stuck oid p f"
  shows "stuck oid (fst (effect lib (UpdateOrders p f) s))"
proof -
  have "stuck oid (s\<lparr>pd_orders := map (\<lambda>r. if p r then (f r)\<lparr>od_UpdatedAt := pd_clock s\<rparr> else r) (pd_orders s)\<rparr>)"
  proof (rule stuck_map [OF assms(1)])
    fix r assume "r \<in> set (pd_orders s)"
    from stuckD [OF assms(1) this] assms(2)
    show "od_ID (if p r then (f r)\<lparr>od_UpdatedAt := pd_clock s\<rparr> else r) = od_ID r
        \<and> (od_ID r = oid \<longrightarrow> seen_stuck oid (if p r then (f r)\<lparr>od_UpdatedAt := pd_clock s\<rparr> else r))"
      unfolding keeps_stuck_def seen_stuck_def by simp
  qed
  then show ?thesis by simp
qed

lemma effect_orders: "(\<And>p f. c \<noteq> UpdateOrders p f) \<Longrightarrow> pd_orders (fst (effect lib c s)) = pd_orders s"
  by (cases c) (auto simp: redeem_tx_def rebate_tx_def Let_def split: option.splits pay_ans.splits)

lemma stuck_exec:
  assumes "stuck oid s" "stuck_legal oid K c" "pay_exec lib f c s = (s', a)"
  shows "stuck oid s'"
proof -
  have "stuck oid (fst (effect lib c s))"
  proof (cases "\<exists>p g. c = UpdateOrders p g")
    case True
    then show ?thesis using assms(1,2) stuck_update by (auto simp: stuck_legal_def simp del: effect.simps)
  next
    case False
    then show ?thesis using stuck_orders [OF assms(1)] effect_orders by metis
  qed
  with exec_state [OF assms(3)] assms(1) show ?thesis by auto
qed

lemma stuck_env:
  assumes "stuck oid s" "late_env s s'"
  shows "stuck oid s'"
proof -
  have "pay_env s s'" using assms(2) by (simp add: late_env_def)
  then show ?thesis
  proof cases
    case (new_order r)
    from assms(1) obtain q where "q \<in> set (pd_orders s)" "od_ID q = oid" unfolding stuck_def by blast
    with new_order have "od_ID r \<noteq> oid" by force
    with assms(1) new_order(1) show ?thesis unfolding stuck_def by simp
  next
    case (creation_failed i t)
    show ?thesis unfolding creation_failed
    proof (rule stuck_map [OF assms(1)])
      fix r assume r: "r \<in> set (pd_orders s)"
      let ?r = "r\<lparr>od_Status := OrderStatusFailed, od_UpdatedAt := t\<rparr>"
      have "?r \<in> set (pd_orders s')" if "od_ID r = i" using r that unfolding creation_failed by force
      then have "?r \<in> set (pd_orders s)" if "od_ID r = i" using assms(2) that unfolding late_env_def by fastforce
      with stuckD [OF assms(1)] have "od_ID r = i \<Longrightarrow> seen_stuck oid ?r" by blast
      then show "od_ID (if od_ID r = i then ?r else r) = od_ID r \<and> (od_ID r = oid \<longrightarrow> seen_stuck oid (if od_ID r = i then ?r else r))"
        using stuckD [OF assms(1) r] by (cases "od_ID r = i") simp_all
    qed
  next
    case (details f)
    then have "od_ID (f r) = od_ID r \<and> od_Status (f r) = od_Status r \<and> od_OrderType (f r) = od_OrderType r" for r
      using order_factD [of "f r" r] by simp
    then show ?thesis unfolding details(1)
      by (intro stuck_map [OF assms(1)]) (auto simp: seen_stuck_def dest: stuckD [OF assms(1)])
  next
    case (refund st i t)
    show ?thesis unfolding refund(1)
    proof (rule stuck_map [OF assms(1)])
      fix r assume r: "r \<in> set (pd_orders s)"
      have "\<not> settled OrderStatusRecharging" by (simp add: settled_def psIsRefundStatus_def order_statuses)
      then have "\<not> settled (od_Status r)" if "od_ID r = oid" using stuckD [OF assms(1) r] that by (simp add: seen_stuck_def)
      then show "od_ID (if od_ID r = i \<and> settled (od_Status r) then r\<lparr>od_Status := st, od_UpdatedAt := t\<rparr> else r) = od_ID r
          \<and> (od_ID r = oid \<longrightarrow> seen_stuck oid (if od_ID r = i \<and> settled (od_Status r) then r\<lparr>od_Status := st, od_UpdatedAt := t\<rparr> else r))"
        using stuckD [OF assms(1) r] by simp
    qed
  qed (use stuck_orders [OF assms(1)] in simp_all)
qed

lemma only_seen: "stuck oid s \<Longrightarrow> only (filter p (pd_orders s)) = Inr r \<Longrightarrow> p r \<and> seen_stuck oid r"
  using only_in [of "filter p (pd_orders s)" r] stuckD by auto

lemma stuck_possible:
  assumes "stuck oid s" "pay_exec lib f c s = (s', a)"
  shows "stuck_poss oid c a"
proof (cases "\<exists>n e. a = A_Err n e")
  case True
  then show ?thesis by (auto simp: stuck_poss_def split: pay_stmt.splits)
next
  case False
  then have eff: "effect lib c s = (s', a)" using exec_answer [OF assms(2)] by blast
  show ?thesis
  proof (cases c)
    case (GetOrder i)
    have "od_ID r = i \<and> seen_stuck oid r" if "a = A_Order r" for r
    proof (rule only_seen [OF assms(1)])
      show "only (filter (\<lambda>r. od_ID r = i) (pd_orders s)) = Inr r"
        using eff that unfolding GetOrder by (simp add: answer_def split: sum.splits)
    qed
    then show ?thesis unfolding stuck_poss_def GetOrder by simp
  next
    case (UpdateOrders p g)
    have "a = A_Count 0" if none: "\<forall>r. p r \<longrightarrow> od_ID r = oid \<and> od_Status r \<noteq> OrderStatusRecharging"
    proof -
      have "filter p (pd_orders s) = []" using none stuckD [OF assms(1)] unfolding seen_stuck_def filter_empty_conv by blast
      moreover have "a = A_Count (int (length (filter p (pd_orders s))))" using eff UpdateOrders by simp
      ultimately show ?thesis by (simp only: list.size int_ops)
    qed
    then show ?thesis unfolding stuck_poss_def UpdateOrders by simp
  qed (simp_all add: stuck_poss_def)
qed

section \<open>No handler touches it\<close>

abbreviation ksat :: "int \<Rightarrow> 'r pay_prog \<Rightarrow> unit set \<Rightarrow> ('r \<Rightarrow> unit set \<Rightarrow> bool) \<Rightarrow> bool" where
  "ksat oid \<equiv> sat (stuck_legal oid) (stuck_poss oid) (\<lambda>c a. {})"

abbreviation leaves :: "int \<Rightarrow> 'r pay_prog \<Rightarrow> unit set \<Rightarrow> bool" where
  "leaves oid p K \<equiv> ksat oid p K (\<lambda>r K. True)"

lemma leaves_post: "leaves oid p K \<Longrightarrow> (\<And>r K'. Q r K') \<Longrightarrow> ksat oid p K Q"
  by (rule sat_mono_post) simp_all

definition reads_order :: "pay_stmt \<Rightarrow> bool" where
  "reads_order c = (case c of GetOrder _ \<Rightarrow> True | UpdateOrders _ _ \<Rightarrow> True | _ \<Rightarrow> False)"

lemma reads_simps [simp]: "\<not> reads_order Now" "\<not> reads_order (WriteAudit i act operator)" "\<not> reads_order (CountAudit p)" "\<not> reads_order (GetCodeByID cid)"
  "\<not> reads_order (GetUser uid)" "\<not> reads_order (AttemptCount uid)" "\<not> reads_order (IncrAttempts uid)" "\<not> reads_order (AcquireLock code)"
  "\<not> reads_order (ReleaseLock code)" "\<not> reads_order (RebateTx i uid amt)" "\<not> reads_order (AssignSubscription i uid gid days)" "\<not> reads_order (Ext q)"
  "\<not> reads_order (GetCode code)" "\<not> reads_order (InsertCode r)" "\<not> reads_order (RedeemTx cid uid g)" "\<not> reads_order (FindOrder no)"
  "\<not> reads_order (ListOrders q')"
  by (simp_all add: reads_order_def)

lemma ksat_plain [simp]: "\<not> reads_order c \<Longrightarrow> ksat oid (Call c k) K Q \<longleftrightarrow> (\<forall>a. ksat oid (k a) K Q)"
  by (cases c) (simp_all add: sat.simps(2) reads_order_def stuck_legal_def stuck_poss_def)

lemma ksat_update: "keeps_stuck oid p f \<Longrightarrow> (\<And>a. ksat oid (k a) K Q) \<Longrightarrow> ksat oid (Call (UpdateOrders p f) k) K Q"
  by (simp add: sat.simps(2) stuck_legal_def)

lemma ksat_get_order:
  assumes "\<And>err. ksat oid (k (Inl err)) K Q" "\<And>od. od_ID od = i \<Longrightarrow> seen_stuck oid od \<Longrightarrow> ksat oid (k (Inr od)) K Q"
  shows "ksat oid (Call (GetOrder i) (\<lambda>a. k (order_of a))) K Q"
  using assms by (auto simp: sat.simps(2) stuck_legal_def stuck_poss_def order_of_def split: pay_ans.splits)

lemma ksat_now [simp]: "(\<And>t. ksat oid (k t) K Q) \<Longrightarrow> ksat oid (now k) K Q"
  by (simp add: now_def)

lemma ksat_audit [simp]: "ksat oid (writeAuditLog i act operator k) K Q \<longleftrightarrow> ksat oid k K Q"
  by (simp add: writeAuditLog_def)

lemma keeps_other: "(\<And>r. p r \<Longrightarrow> od_ID (f r) = od_ID r \<and> od_OrderType (f r) = od_OrderType r \<and>
    (od_ID r \<noteq> oid \<or> od_Status r \<noteq> OrderStatusRecharging \<or> od_Status (f r) = od_Status r)) \<Longrightarrow> keeps_stuck oid p f"
  by (fastforce simp: keeps_stuck_def)

lemma leaves_markFailed: "i \<noteq> oid \<Longrightarrow> ksat oid k K Q \<Longrightarrow> ksat oid (markFailed cfg i cause k) K Q"
  by (auto simp: markFailed_def intro!: ksat_now ksat_update keeps_other split: sum.splits)

lemma leaves_reject: "od_ID od \<noteq> oid \<Longrightarrow> ksat oid k K Q \<Longrightarrow> ksat oid (rejectUnsupportedOrderType od k) K Q"
  by (auto simp: rejectUnsupportedOrderType_def Let_def intro!: ksat_now ksat_update keeps_other split: sum.splits)

lemma leaves_markCompleted: "od_ID od \<noteq> oid \<Longrightarrow> leaves oid (markCompleted od act) K"
  by (auto simp: markCompleted_def intro!: ksat_now ksat_update keeps_other split: option.splits)

lemma leaves_rebate_and_complete: "od_ID od \<noteq> oid \<Longrightarrow> leaves oid (rebate_and_complete cfg od act) K"
  by (auto simp: rebate_and_complete_def applyAffiliateRebateForOrder_def Let_def leaves_markCompleted split: option.splits)

lemma leaves_Redeem: "leaves oid (Redeem lib cache skip uid code) K"
proof -
  have "leaves oid (redeem_locked lib cache skip uid code) K'" for K'
    by (auto simp: redeem_locked_def incrementRedeemErrorCount_def redeemed_result_def Let_def intro!: ksat_now
        split: sum.splits option.splits)
  then have "ksat oid (redeem_locked lib cache skip uid code) K' (\<lambda>r K'. leaves oid (releaseRedeemLock cache code (Ret r)) K')" for K'
    by (rule leaves_post) (simp add: releaseRedeemLock_def)
  then show ?thesis
    by (auto simp: Redeem_def checkRedeemRateLimit_def acquireRedeemLock_def split: option.splits sum.splits)
qed

lemma leaves_redeem_for_order: "od_ID od \<noteq> oid \<Longrightarrow> leaves oid (redeem_for_order cfg od) K"
  unfolding redeem_for_order_def sat_and_then
  by (rule leaves_post [OF leaves_Redeem]) (auto intro: leaves_rebate_and_complete split: sum.splits)

lemma leaves_CreateCode: "leaves oid (CreateCode r) K"
  by (auto simp: CreateCode_def Let_def intro!: ksat_now split: option.splits)

lemma leaves_doBalance:
  assumes "od_ID od \<noteq> oid"
  shows "leaves oid (doBalance cfg od) K"
proof -
  have "ksat oid (CreateCode (order_code od)) K' (\<lambda>e K'. leaves oid (case e of
      Some err \<Rightarrow> Ret (Some (WrapError ''create redeem code'' err)) | None \<Rightarrow> redeem_for_order cfg od) K')" for K'
    by (rule leaves_post [OF leaves_CreateCode]) (use assms in \<open>auto intro: leaves_redeem_for_order split: option.splits\<close>)
  then show ?thesis using assms
    by (auto simp: doBalance_def redeem_GetByCode_def intro: leaves_redeem_for_order leaves_rebate_and_complete
        split: sum.splits redeemAction.splits)
qed

lemma leaves_doSub: "od_ID od \<noteq> oid \<Longrightarrow> leaves oid (doSub cfg od gid days) K"
  by (auto simp: doSub_def assigned_before_def hasAuditLog_def intro: leaves_rebate_and_complete split: sum.splits option.splits)

text \<open>The lock of a stuck order is never granted.\<close>

lemma leaves_fulfil_locked:
  assumes "i \<noteq> oid \<Longrightarrow> leaves oid body K"
  shows "leaves oid (fulfil_locked cfg i body) K"
proof (cases "i = oid")
  case True
  then show ?thesis
    by (auto simp: fulfil_locked_def sat.simps(2) stuck_legal_def stuck_poss_def count_of_def keeps_stuck_def order_statuses
        split: sum.splits)
next
  case False
  then have "ksat oid body K (\<lambda>e K'. leaves oid (case e of Some err \<Rightarrow> markFailed cfg i err (Ret (Some err)) | None \<Rightarrow> Ret None) K')"
    by (intro leaves_post [OF assms]) (auto intro: leaves_markFailed split: option.splits)
  then show ?thesis using False
    by (auto simp: fulfil_locked_def intro!: ksat_update keeps_other split: sum.splits)
qed

lemma leaves_executeFulfillment: "leaves oid (executeFulfillment cfg i) K"
proof -
  have "leaves oid (ExecuteBalanceFulfillment cfg i) K'" for K'
    unfolding ExecuteBalanceFulfillment_def
    by (rule ksat_get_order) (auto intro!: leaves_fulfil_locked leaves_doBalance)
  moreover have "leaves oid (ExecuteSubscriptionFulfillment cfg i) K'" for K'
    unfolding ExecuteSubscriptionFulfillment_def
    by (rule ksat_get_order) (auto intro!: leaves_fulfil_locked leaves_doSub split: option.splits)
  ultimately show ?thesis unfolding executeFulfillment_def
    by (intro ksat_get_order)
      (auto simp: seen_stuck_def isSupportedPaymentOrderType_def intro!: leaves_reject)
qed

lemma leaves_confirmPayment: "leaves oid (confirmPayment cfg i tradeNo paid pk metadata) K"
proof -
  have "leaves oid (alreadyProcessed cfg od) K'" for od K'
    unfolding alreadyProcessed_def by (rule ksat_get_order) (auto intro!: leaves_executeFulfillment)
  then have "leaves oid (toPaid cfg od tradeNo paid pk) K'" for od K'
    by (auto simp: toPaid_def Let_def payable_def order_statuses intro!: ksat_now ksat_update keeps_other leaves_executeFulfillment
        split: sum.splits)
  then show ?thesis unfolding confirmPayment_def
    by (intro ksat_get_order) (auto simp: Let_def split: option.splits)
qed

lemma leaves_HandlePaymentNotification: "leaves oid (HandlePaymentNotification cfg n pk) K"
  by (auto simp: HandlePaymentNotification_def intro: leaves_confirmPayment split: sum.splits option.splits)

lemma leaves_RetryFulfillment: "leaves oid (RetryFulfillment cfg i) K"
  unfolding RetryFulfillment_def
  by (rule ksat_get_order)
    (auto simp: order_statuses intro!: ksat_update keeps_other leaves_executeFulfillment split: option.splits)

lemma leaves_checkPaid: "leaves oid (checkPaidWithOptions cfg od c) K"
proof -
  have "leaves oid (settle_paid cfg od provKey queryRef resp) K'" for provKey queryRef resp K'
    by (auto simp: settle_paid_def notify_paid_def Let_def intro!: ksat_update keeps_other leaves_post [OF leaves_HandlePaymentNotification])
  then show ?thesis
    by (auto simp: checkPaidWithOptions_def requeryPaidOrderOnce_def Let_def split: sum.splits option.splits)
qed

lemma leaves_cancelCore: "leaves oid (cancelCore cfg od fs operator) K"
proof -
  have "leaves oid (close_order od fs operator) K'" for K'
    by (auto simp: close_order_def order_statuses intro!: ksat_update keeps_other split: sum.splits)
  then show ?thesis unfolding cancelCore_def checkPaid_def
    by (auto intro!: leaves_post [OF leaves_checkPaid])
qed

lemma leaves_lists: "leaves oid (expire_orders cfg ods n) K" "leaves oid (reconcile_orders cfg ods n) K"
proof -
  show "leaves oid (expire_orders cfg ods n) K"
    by (induction ods arbitrary: n K) (auto intro!: leaves_post [OF leaves_cancelCore])
  show "leaves oid (reconcile_orders cfg ods n) K"
    by (induction ods arbitrary: n K) (auto simp: reconcilePaid_def intro!: leaves_post [OF leaves_checkPaid])
qed

lemma leaves_sweeps: "leaves oid (ExpireTimedOutOrders cfg) K" "leaves oid (ReconcilePendingPaymentOrders cfg) K"
  by (auto simp: ExpireTimedOutOrders_def ReconcilePendingPaymentOrders_def intro!: ksat_now leaves_post [OF leaves_lists(1)] leaves_post [OF leaves_lists(2)]
      split: sum.splits)

lemma leaves_cancels: "leaves oid (CancelOrder cfg i uid) K" "leaves oid (AdminCancelOrder cfg i) K"
  unfolding CancelOrder_def AdminCancelOrder_def by (rule ksat_get_order; auto intro!: leaves_cancelCore)+

lemma leaves_Verify: "leaves oid (VerifyOrderByOutTradeNo cfg no uid) K"
proof -
  have "leaves oid (Call (GetOrder i) (\<lambda>a. case order_of a of Inl err \<Rightarrow> Ret (Inl (WrapError ''reload order'' err)) | Inr od' \<Rightarrow> Ret (Inr od'))) K'" for i K'
    by (rule ksat_get_order) simp_all
  then show ?thesis unfolding VerifyOrderByOutTradeNo_def reconcilePaid_def
    by (auto intro!: leaves_post [OF leaves_checkPaid] split: sum.splits)
qed

lemma leaves_Confirm: "leaves oid (ConfirmNotificationUpstream confirmer n pk) K"
proof -
  have *: "leaves oid (confirm_upstream n pk od) K'" for od K'
    by (auto simp: confirm_upstream_def split: option.splits)
  then have "leaves oid (Call (GetOrder i) (\<lambda>a. case order_of a of Inr od \<Rightarrow> confirm_upstream n pk od
      | Inl err \<Rightarrow> Ret (if err = db_not_found then None else Some (WrapError ''lookup webhook order for upstream confirmation'' err)))) K'" for i K'
    by (intro ksat_get_order) simp_all
  with * show ?thesis unfolding ConfirmNotificationUpstream_def Let_def
    by (auto split: option.splits sum.splits)
qed

lemma leaves_discard: "leaves oid p K \<Longrightarrow> leaves oid (discard p) K"
  by (simp add: discard_def)

lemma entry_leaves: "pay_entry cfg p \<Longrightarrow> leaves oid p {}"
  by (induction rule: pay_entry.induct)
    (intro leaves_discard leaves_HandlePaymentNotification leaves_Confirm leaves_RetryFulfillment leaves_cancels leaves_sweeps
      leaves_Verify leaves_Redeem)+

interpretation held: interference "pay_exec (pc_lib cfg)" "pay_entry cfg" late_env "stuck_legal oid" "stuck_poss oid" "\<lambda>c a. {}"
  "\<lambda>x s. True" "stuck oid" "\<lambda>s s'. True"
  for cfg oid
  by unfold_locales (auto intro: stuck_exec stuck_env stuck_possible entry_leaves)

text \<open>C22: a process that dies after it has taken the lock of an order leaves the order in \<open>RECHARGING\<close>, and no
  handler takes it out again: whatever notifications, retries of the administrator, cancellations,
  expiries and reconciliations follow, in any interleaving and with any faults, the order stays as it
  is and is never completed nor failed.\<close>

theorem recharging_never_recovered:
  assumes "reaches (pay_exec (pc_lib cfg)) (pay_entry cfg) late_env (s, []) (s', ps)"
    and "od \<in> set (pd_orders s)" "distinct (map od_ID (pd_orders s))" "od_Status od = OrderStatusRecharging"
    and "isSupportedPaymentOrderType (od_OrderType od)"
  shows "\<exists>r\<in>set (pd_orders s'). od_ID r = od_ID od \<and> od_Status r = OrderStatusRecharging"
proof -
  have "stuck (od_ID od) s"
    using assms(2-5) unfolding stuck_def by (metis distinct_map inj_onD)
  then have "stuck (od_ID od) s'" by (rule held.reaches_inv [OF assms(1)])
  then show ?thesis by (auto simp: stuck_def)
qed

text \<open>How an order gets there: the database takes the lock and its acknowledgement is lost. The handler
  reports an error, without marking the order as failed.\<close>

definition timeout :: goerror where "timeout = PlainError ''timeout''"

lemmas demo_run = RetryFulfillment_def executeFulfillment_def ExecuteBalanceFulfillment_def fulfil_locked_def writeAuditLog_def now_def
  pay_exec_def answer_def answer_defs audited_def isSupportedPaymentOrderType_def psIsRefundStatus_def order_statuses
  OrderTypeBalance_def OrderTypeSubscription_def

lemma lost_lock:
  "\<exists>s. run (pay_exec (pc_lib demo_cfg)) Up (RetryFulfillment demo_cfg 1) [Up, Up, Up, Up, Up, Unacked timeout] failed_shop =
       ((s, Some (WrapError ''lock'' timeout)), [])
     \<and> pd_orders s = [demo_order\<lparr>od_Status := OrderStatusRecharging, od_PaidAt := Some 3, od_UpdatedAt := 5\<rparr>]"
  by (simp add: failed_shop_def demo_defs demo_run)

theorem recharging_never_recovered_witness:
  "\<exists>s s' e. run (pay_exec (pc_lib demo_cfg)) Up (RetryFulfillment demo_cfg 1) [Up, Up, Up, Up, Up, Unacked timeout] failed_shop =
       ((s, Some (WrapError ''lock'' timeout)), [])
     \<and> solo demo_cfg (RetryFulfillment demo_cfg 1) s = (s', e) \<and> (\<exists>r\<in>set (pd_orders s'). od_ID r = 1 \<and> od_Status r = OrderStatusRecharging)"
proof -
  let ?od = "demo_order\<lparr>od_Status := OrderStatusRecharging, od_PaidAt := Some 3, od_UpdatedAt := 5\<rparr>"
  obtain s where s: "run (pay_exec (pc_lib demo_cfg)) Up (RetryFulfillment demo_cfg 1) [Up, Up, Up, Up, Up, Unacked timeout] failed_shop =
      ((s, Some (WrapError ''lock'' timeout)), [])" "pd_orders s = [?od]"
    using lost_lock by blast
  obtain s' e where retry: "solo demo_cfg (RetryFulfillment demo_cfg 1) s = (s', e)" by fastforce
  have "reaches (pay_exec (pc_lib demo_cfg)) (pay_entry demo_cfg) late_env (s, []) (s', [] @ [Ret ()])"
    by (rule solo_reaches [OF rtranclp.rtrancl_refl retry pay_entry.retry])
  from recharging_never_recovered [OF this, of ?od] s(2)
  have "\<exists>r\<in>set (pd_orders s'). od_ID r = 1 \<and> od_Status r = OrderStatusRecharging"
    by (simp add: isSupportedPaymentOrderType_def demo_order_def)
  with s(1) retry show ?thesis by blast
qed

section \<open>A subscription that is assigned twice\<close>

definition sub_order :: PaymentOrder where
  "sub_order = demo_order\<lparr>od_OrderType := OrderTypeSubscription, od_SubscriptionGroupID := Some 4, od_SubscriptionDays := Some 30,
     od_Status := OrderStatusPaid, od_PaidAt := Some 3\<rparr>"

definition sub_shop :: pay_db where
  "sub_shop = empty_shop\<lparr>pd_orders := [sub_order]\<rparr>"

definition sub_faults :: "pay_fault list" where
  "sub_faults = replicate 10 Up @ [Lost timeout, TxFails 0 timeout]"


end
