(* ===== verification/Payment_Ledger.thy ===== *)
theory Payment_Ledger
  imports Payment_Recovery
begin

text \<open>
  What the payment service promises, without orders in nine states, codes, locks and notifications: a
  ledger of balance orders, in which an order is registered, credited once with its amount, and settled
  only when it has been credited. The concurrent execution of the handlers refines this ledger; the
  proof is an interpretation of the locale \<open>forward_simulation\<close>.
\<close>

section \<open>Forward simulation\<close>

locale forward_simulation =
  fixes cstep :: "'c \<Rightarrow> 'c \<Rightarrow> bool" and good :: "'c \<Rightarrow> bool" and abs :: "'c \<Rightarrow> 'a" and astep :: "'a \<Rightarrow> 'a \<Rightarrow> bool"
  assumes good_step: "good c \<Longrightarrow> cstep c c' \<Longrightarrow> good c'"
    and simulates: "good c \<Longrightarrow> cstep c c' \<Longrightarrow> astep\<^sup>=\<^sup>= (abs c) (abs c')"
begin

lemma run_simulated:
  assumes "cstep\<^sup>*\<^sup>* c c'" "good c"
  shows "good c' \<and> astep\<^sup>*\<^sup>* (abs c) (abs c')"
  using assms
proof (induction rule: rtranclp_induct)
  case (step y z)
  then have "good y" by simp
  from simulates [OF this step.hyps(2)] have "astep\<^sup>*\<^sup>* (abs y) (abs z)" by auto
  with step good_step [OF \<open>good y\<close> step.hyps(2)] show ?case by (metis rtranclp_trans)
qed simp

end

section \<open>The ledger\<close>

record ledger =
  lg_amounts :: "(int \<times> float64) set"
  lg_credits :: "(int \<times> grant) set"
  lg_settled :: "int set"

definition empty_ledger :: ledger where
  "empty_ledger = \<lparr>lg_amounts = {}, lg_credits = {}, lg_settled = {}\<rparr>"

inductive ledger_step :: "ledger \<Rightarrow> ledger \<Rightarrow> bool" where
  register: "oid \<notin> fst ` lg_amounts l \<Longrightarrow> ledger_step l (l\<lparr>lg_amounts := insert (oid, amount) (lg_amounts l)\<rparr>)"
| credit: "(oid, amount) \<in> lg_amounts l \<Longrightarrow> oid \<notin> fst ` lg_credits l \<Longrightarrow> (\<not> flt amount (Finite 0) \<Longrightarrow> g = GrantBalance amount) \<Longrightarrow>
    ledger_step l (l\<lparr>lg_credits := insert (oid, g) (lg_credits l)\<rparr>)"
| settle: "D \<subseteq> fst ` lg_credits l \<Longrightarrow> ledger_step l (l\<lparr>lg_settled := D\<rparr>)"

inductive_cases ledger_stepE: "ledger_step l l'"

text \<open>What the specification says of a ledger: amounts are fixed, credits are unique and of the right
  amount, and what is settled was credited.\<close>

definition ledger_ok :: "ledger \<Rightarrow> bool" where
  "ledger_ok l \<longleftrightarrow> single_valued (lg_amounts l) \<and> single_valued (lg_credits l) \<and> lg_settled l \<subseteq> fst ` lg_credits l
     \<and> (\<forall>(oid, g)\<in>lg_credits l. \<exists>amount. (oid, amount) \<in> lg_amounts l \<and> (\<not> flt amount (Finite 0) \<longrightarrow> g = GrantBalance amount))"

lemma single_valued_insert: "single_valued r \<Longrightarrow> x \<notin> fst ` r \<Longrightarrow> single_valued (insert (x, y) r)"
  unfolding single_valued_def by (metis Domain.DomainI Domain_fst Pair_inject insert_iff)

lemma ledger_ok_step: "ledger_step l l' \<Longrightarrow> ledger_ok l \<Longrightarrow> ledger_ok l'"
proof (induction rule: ledger_step.induct)
  case (register oid l amount)
  then show ?case unfolding ledger_ok_def by (auto intro: single_valued_insert)
next
  case (credit oid amount l g)
  then show ?case unfolding ledger_ok_def by (auto intro: single_valued_insert)
next
  case (settle D l)
  then show ?case unfolding ledger_ok_def by simp
qed

lemma ledger_ok_run: "ledger_step\<^sup>*\<^sup>* l l' \<Longrightarrow> ledger_ok l \<Longrightarrow> ledger_ok l'"
  by (induction rule: rtranclp_induct) (auto intro: ledger_ok_step)

section \<open>The ledger of a database\<close>

definition ledger_of :: "pay_db \<Rightarrow> ledger" where
  "ledger_of s =
     \<lparr>lg_amounts = {(oid, amount). \<exists>code. OrderIs oid OrderTypeBalance code amount \<in> order_fact ` set (pd_orders s)},
      lg_credits = {(oid, g). \<exists>code amount uid. OrderIs oid OrderTypeBalance code amount \<in> order_fact ` set (pd_orders s)
         \<and> (code, uid, g) \<in> set (pd_redeemed s)},
      lg_settled = od_ID ` {r \<in> set (pd_orders s). balance_order r \<and> settled (od_Status r)}\<rparr>"

lemma fact_eq: "OrderIs oid ty code amount = order_fact r \<longleftrightarrow> od_OrderType r = ty \<and> od_ID r = oid \<and> od_RechargeCode r = code \<and> od_Amount r = amount"
  by (auto simp: order_fact_def)

lemma fact_balance: "OrderIs oid OrderTypeBalance code amount \<in> order_fact ` A \<longleftrightarrow>
    (\<exists>r\<in>A. balance_order r \<and> od_ID r = oid \<and> od_RechargeCode r = code \<and> od_Amount r = amount)"
  unfolding image_iff fact_eq by blast

lemma credits_iff: "(oid, g) \<in> lg_credits (ledger_of s) \<longleftrightarrow>
    (\<exists>code uid. (\<exists>amount. OrderIs oid OrderTypeBalance code amount \<in> order_fact ` set (pd_orders s)) \<and> (code, uid, g) \<in> set (pd_redeemed s))"
  by (simp add: ledger_of_def)

lemma settled_credited:
  assumes "pay_inv s"
  shows "lg_settled (ledger_of s) \<subseteq> fst ` lg_credits (ledger_of s)"
proof -
  have "od_ID r \<in> fst ` lg_credits (ledger_of s)" if r: "r \<in> set (pd_orders s)" "balance_order r" "settled (od_Status r)" for r
  proof -
    from inv_orders(3) [OF assms r] obtain uid g where "(od_RechargeCode r, uid, g) \<in> set (pd_redeemed s)" by force
    with r have "(od_ID r, g) \<in> lg_credits (ledger_of s)" unfolding ledger_of_def by (auto simp: fact_balance)
    then show ?thesis by force
  qed
  then show ?thesis by (auto simp: ledger_of_def)
qed

text \<open>A step that neither adds an order nor redeems a code only changes what is settled.\<close>

lemma same_facts_step:
  assumes "pay_inv s'" "order_fact ` set (pd_orders s') = order_fact ` set (pd_orders s)" "pd_redeemed s' = pd_redeemed s"
  shows "ledger_step (ledger_of s) (ledger_of s')"
proof -
  have "ledger_of s' = (ledger_of s)\<lparr>lg_settled := lg_settled (ledger_of s')\<rparr>"
    using assms(2,3) by (simp add: ledger_of_def)
  moreover have "lg_settled (ledger_of s') \<subseteq> fst ` lg_credits (ledger_of s)"
    using settled_credited [OF assms(1)] assms(2,3) by (simp add: ledger_of_def)
  ultimately show ?thesis by (metis ledger_step.settle)
qed

lemma facts_card: "pay_inv s \<Longrightarrow> card (order_fact ` set (pd_orders s)) = length (pd_orders s)"
proof -
  assume "pay_inv s"
  then have "distinct (map od_ID (pd_orders s))" by (simp add: pay_inv_def orders_ok_def)
  then have "distinct (map order_fact (pd_orders s))"
    unfolding distinct_map order_fact_def inj_on_def by auto
  then show ?thesis by (metis distinct_card length_map list.set_map)
qed

lemma same_length_facts:
  assumes "pay_inv s" "pay_inv s'" "pay_guar s s'" "length (pd_orders s') = length (pd_orders s)"
  shows "order_fact ` set (pd_orders s') = order_fact ` set (pd_orders s)"
  using card_subset_eq [of "order_fact ` set (pd_orders s')" "order_fact ` set (pd_orders s)"] assms facts_card
  by (simp add: pay_guar_def)

lemma other_statements:
  "pd_redeemed (fst (effect lib c s)) = pd_redeemed s \<and> length (pd_orders (fst (effect lib c s))) = length (pd_orders s)
   \<or> (\<exists>cid uid g. c = RedeemTx cid uid g)"
  by (cases c) (auto simp: rebate_tx_def Let_def split: pay_ans.splits)

text \<open>Redeeming the code of an order credits the order; other codes are not in the ledger.\<close>

lemma redeem_step:
  assumes inv: "pay_inv s" "pay_inv s'" and "s' = fst (effect lib (RedeemTx cid uid g) s)"
  shows "ledger_step\<^sup>=\<^sup>= (ledger_of s) (ledger_of s')"
proof (cases "s' = s")
  case False
  then obtain code where s': "pd_redeemed s' = pd_redeemed s @ [(code, uid, g)]" "pd_orders s' = pd_orders s"
    using assms(3) that by (auto simp: redeem_tx_def split: option.splits)
  have new: "code \<notin> fst ` set (pd_redeemed s)" using inv(2) s'(1) by (simp add: pay_inv_def)
  show ?thesis
  proof (cases "\<exists>q\<in>set (pd_orders s). balance_order q \<and> od_RechargeCode q = code")
    case True
    then obtain q where q: "q \<in> set (pd_orders s)" "balance_order q" "od_RechargeCode q = code" by blast
    have only: "q' = q" if "q' \<in> set (pd_orders s)" "balance_order q'" "od_RechargeCode q' = code" for q'
      using inv_orders(2) [OF inv(1) that(1,2) q(1,2)] same_order [OF inv(1) that(1) q(1)] that(3) q(3) by simp
    have "(code, uid, g) \<in> set (pd_redeemed s')" "grants_match (pd_orders s') (pd_redeemed s')" using s' inv(2) by (simp_all add: pay_inv_def)
    then have "\<not> flt (od_Amount q) (Finite 0) \<Longrightarrow> g = GrantBalance (od_Amount q)" using q s'(2) unfolding grants_match_def by fastforce
    moreover have "(od_ID q, od_Amount q) \<in> lg_amounts (ledger_of s)" using q by (auto simp: ledger_of_def fact_balance)
    moreover have "od_ID q \<notin> fst ` lg_credits (ledger_of s)"
    proof
      assume "od_ID q \<in> fst ` lg_credits (ledger_of s)"
      then obtain q' uid' g' where q': "q' \<in> set (pd_orders s)" "od_ID q' = od_ID q" "(od_RechargeCode q', uid', g') \<in> set (pd_redeemed s)"
        by (auto simp: ledger_of_def fact_balance)
      with same_order [OF inv(1) q'(1) q(1)] new q(3) show False by force
    qed
    moreover have code: "OrderIs oid OrderTypeBalance code amount \<in> order_fact ` set (pd_orders s) \<longleftrightarrow> oid = od_ID q \<and> amount = od_Amount q" for oid amount
      unfolding fact_balance using q only by blast
    have "(oid, g') \<in> lg_credits (ledger_of s') \<longleftrightarrow> (oid, g') = (od_ID q, g) \<or> (oid, g') \<in> lg_credits (ledger_of s)" for oid g'
      unfolding credits_iff s' set_append Un_iff list.set using code by blast
    then have "lg_credits (ledger_of s') = insert (od_ID q, g) (lg_credits (ledger_of s))" by auto
    then have "ledger_of s' = (ledger_of s)\<lparr>lg_credits := insert (od_ID q, g) (lg_credits (ledger_of s))\<rparr>"
      using s'(2) by (simp add: ledger_of_def)
    ultimately have "ledger_step (ledger_of s) (ledger_of s')" using ledger_step.credit by metis
    then show ?thesis by blast
  next
    case False
    then have "ledger_of s' = ledger_of s" using s' by (auto simp: ledger_of_def fact_balance)
    then show ?thesis by simp
  qed
qed simp

lemma facts_map: "(\<And>r. order_fact (f r) = order_fact r) \<Longrightarrow> order_fact ` set (map f rs) = order_fact ` set rs"
  by (simp add: image_image)

lemma env_step:
  assumes "pay_env s s'" "pay_inv s" "pay_inv s'"
  shows "ledger_step\<^sup>=\<^sup>= (ledger_of s) (ledger_of s')"
  using assms
proof (induction rule: pay_env.induct)
  case (new_order r s)
  show ?case
  proof (cases "balance_order r")
    case True
    have "od_RechargeCode r \<notin> fst ` set (pd_redeemed s)"
      using new_order by (auto simp: pay_inv_def codes_ok_def)
    then have "ledger_of (s\<lparr>pd_orders := pd_orders s @ [r]\<rparr>) = (ledger_of s)\<lparr>lg_amounts := insert (od_ID r, od_Amount r) (lg_amounts (ledger_of s))\<rparr>"
      using True new_order(2) by (auto simp: ledger_of_def order_fact_def settled_def psIsRefundStatus_def order_statuses image_iff)
    moreover have "od_ID r \<notin> fst ` lg_amounts (ledger_of s)" using new_order(1) by (auto simp: ledger_of_def fact_balance)
    ultimately have "ledger_step (ledger_of s) (ledger_of (s\<lparr>pd_orders := pd_orders s @ [r]\<rparr>))" using ledger_step.register by metis
    then show ?thesis by blast
  next
    case False
    then have "ledger_of (s\<lparr>pd_orders := pd_orders s @ [r]\<rparr>) = ledger_of s" by (auto simp: ledger_of_def fact_eq)
    then show ?thesis by simp
  qed
next
  case (creation_failed s oid t)
  then show ?case by (intro sup2I1 same_facts_step) (simp_all add: facts_map del: set_map)
next
  case (details f s)
  then show ?case by (intro sup2I1 same_facts_step) (simp_all add: facts_map del: set_map)
next
  case (refund st s oid t)
  then show ?case by (intro sup2I1 same_facts_step) (simp_all add: facts_map del: set_map)
qed (auto intro!: sup2I1 same_facts_step)

section \<open>Refinement\<close>

lemma ledger_simulation:
  assumes "pay.pool_inv c" "pool_step (pay_exec (pc_lib cfg)) (pay_entry cfg) pay_env c c'"
  shows "ledger_step\<^sup>=\<^sup>= (ledger_of (fst c)) (ledger_of (fst c'))"
proof -
  have keeps: "pay.pool_inv c'" "fst c = fst c' \<or> pay_guar (fst c) (fst c')"
    using pay.pool_inv_step [OF assms(2,1)] by simp_all
  then have inv: "pay_inv (fst c)" "pay_inv (fst c')" using assms(1) by (simp_all add: pay.pool_inv_def)
  from assms(2) keeps(2) inv show ?thesis
  proof (cases rule: pool_step.cases)
    case (stmt f cmd s s' a xs k ys)
    from exec_state [OF stmt(3)] consider "s' = s" | "s' = fst (effect (pc_lib cfg) cmd s)" "s' \<noteq> s" by blast
    then show ?thesis
    proof cases
      case 2
      with keeps(2) stmt have guar: "pay_guar s s'" by simp
      show ?thesis
      proof (cases "\<exists>cid uid g. cmd = RedeemTx cid uid g")
        case True
        then obtain cid uid g where "s' = fst (effect (pc_lib cfg) (RedeemTx cid uid g) s)" using 2(1) by blast
        with redeem_step [of s s'] inv stmt show ?thesis by simp
      next
        case False
        with other_statements [of "pc_lib cfg" cmd s] 2(1) have "pd_redeemed s' = pd_redeemed s" "length (pd_orders s') = length (pd_orders s)" by auto
        with same_facts_step [of s' s] same_length_facts [OF _ _ guar] inv stmt show ?thesis by simp
      qed
    qed (use stmt in simp)
  next
    case (other s s' ps)
    then show ?thesis using env_step inv by simp
  qed simp_all
qed

interpretation ledger_sim: forward_simulation "pool_step (pay_exec (pc_lib cfg)) (pay_entry cfg) pay_env" pay.pool_inv "\<lambda>c. ledger_of (fst c)" ledger_step
  for cfg
proof unfold_locales
  fix c c' :: "pay_db \<times> unit pay_prog list"
  assume "pay.pool_inv c" "pool_step (pay_exec (pc_lib cfg)) (pay_entry cfg) pay_env c c'"
  then show "pay.pool_inv c'" "ledger_step\<^sup>=\<^sup>= (ledger_of (fst c)) (ledger_of (fst c'))"
    using pay.pool_inv_step ledger_simulation by blast+
qed

lemma fresh_ledger: "fresh_db s \<Longrightarrow> ledger_of s = empty_ledger"
  by (simp add: fresh_db_def ledger_of_def empty_ledger_def)

lemma empty_ledger_ok: "ledger_ok empty_ledger"
  by (simp add: ledger_ok_def empty_ledger_def)

text \<open>C13: the payment service refines the ledger: whatever handlers run, with faults and crashes, the
  database reached is the image of a run of the ledger, each statement of a handler is at most one step
  of the ledger, and so amounts are fixed, credits are unique and of the right amount, and only credited
  orders are settled.\<close>

theorem payment_refines_ledger:
  assumes "pay_reaches cfg s0 c" "fresh_db s0" "pool_step (pay_exec (pc_lib cfg)) (pay_entry cfg) pay_env c c'"
  shows "ledger_step\<^sup>*\<^sup>* empty_ledger (ledger_of (fst c)) \<and> ledger_step\<^sup>=\<^sup>= (ledger_of (fst c)) (ledger_of (fst c')) \<and> ledger_ok (ledger_of (fst c'))"
proof -
  have "pay.pool_inv (s0, [])" using fresh_inv [OF assms(2)] by (simp add: pay.pool_inv_def)
  from ledger_sim.run_simulated [OF assms(1) this] have run: "pay.pool_inv c" "ledger_step\<^sup>*\<^sup>* empty_ledger (ledger_of (fst c))"
    using fresh_ledger [OF assms(2)] by simp_all
  note step = ledger_sim.simulates [OF run(1) assms(3)]
  then have "ledger_step\<^sup>*\<^sup>* (ledger_of (fst c)) (ledger_of (fst c'))" by auto
  with run(2) have "ledger_step\<^sup>*\<^sup>* empty_ledger (ledger_of (fst c'))" by (rule rtranclp_trans)
  from ledger_ok_run [OF this empty_ledger_ok] run(2) step show ?thesis by blast
qed

text \<open>The order of the demonstration, registered, credited and settled.\<close>

theorem payment_refines_ledger_witness:
  "\<exists>s. pay_reaches demo_cfg empty_shop (s, [Ret ()]) \<and> ledger_step\<^sup>*\<^sup>* empty_ledger (ledger_of s) \<and> 1 \<in> lg_settled (ledger_of s)
     \<and> (1, GrantBalance (Finite 10)) \<in> lg_credits (ledger_of s)"
proof -
  from shop_completed obtain s r where s: "pay_reaches demo_cfg empty_shop (s, [Ret ()])" "r \<in> set (pd_orders s)" "od_Status r = OrderStatusCompleted"
      "order_fact r = order_fact demo_order" by blast
  have "pool_step (pay_exec (pc_lib demo_cfg)) (pay_entry demo_cfg) pay_env (s, [Ret ()]) (s, [])"
    using pool_step.crash [of _ _ _ s "[]" "Ret ()" "[]"] by simp
  from payment_refines_ledger [OF s(1) empty_fresh this]
  have run: "ledger_step\<^sup>*\<^sup>* empty_ledger (ledger_of s)" "ledger_ok (ledger_of s)" by simp_all
  have r: "od_ID r = 1" "balance_order r" "od_Amount r = Finite 10" "od_RechargeCode r = ''PAY-1''"
    using order_factD [OF s(4)] by (simp_all add: demo_order_def)
  with s have settled: "1 \<in> lg_settled (ledger_of s)" "(1, Finite 10) \<in> lg_amounts (ledger_of s)"
    by (auto simp: ledger_of_def fact_balance settled_def)
  then obtain g where g: "(1, g) \<in> lg_credits (ledger_of s)" using run(2) by (auto simp: ledger_ok_def)
  then obtain amount where "(1, amount) \<in> lg_amounts (ledger_of s)" "\<not> flt amount (Finite 0) \<longrightarrow> g = GrantBalance amount"
    using run(2) unfolding ledger_ok_def by blast
  then have "g = GrantBalance (Finite 10)" using settled(2) run(2) unfolding ledger_ok_def single_valued_def by fastforce
  with g settled(1) run(1) s(1) show ?thesis by blast
qed

end
