(* ===== verification/Payment_Refund.thy ===== *)
theory Payment_Refund
  imports Payment_Lifecycle
begin

text \<open>
  \<open>internal/service/payment_refund.go\<close>: the request of a refund by a user, the plan and the execution by
  an administrator, and the settlement of a refund that the gateway left pending.

  A handler is a program of statements, as in \<open>Interleaving\<close>. Each statement runs atomically and may
  fail before or after its effect. The three transactions of the file are one statement each, whose
  inner statements roll back together. The gateway, the subscription service and the construction of a
  provider client answer by a function in the state; what they were told is recorded in \<open>rd_gateway\<close>
  and \<open>rd_subs\<close>, and what was taken from and given back to balances in \<open>rd_taken\<close> and \<open>rd_returned\<close>.
  Cache invalidation and log lines are left out. The audit table has the unique index on order and
  action of migration 131.
\<close>

section \<open>Rows\<close>

record RefundOrder = PaymentOrder +
  od_RefundAmount :: float64
  od_RefundReason :: "string option"
  od_RefundAt :: "gotime option"
  od_ForceRefund :: bool
  od_RefundRequestedAt :: "gotime option"
  od_RefundRequestReason :: "string option"
  od_RefundRequestedBy :: "string option"

record PaymentProviderInstance =
  pi_ID :: int
  pi_ProviderKey :: string
  pi_SupportedTypes :: string
  pi_RefundEnabled :: bool
  pi_AllowUserRefund :: bool

definition DeductionTypeBalance :: string where "DeductionTypeBalance = ''balance''"
definition DeductionTypeSubscription :: string where "DeductionTypeSubscription = ''subscription''"
definition DeductionTypeNone :: string where "DeductionTypeNone = ''none''"
definition ProviderStatusPending :: string where "ProviderStatusPending = ''pending''"
definition ProviderStatusFailed :: string where "ProviderStatusFailed = ''failed''"
definition ProviderStatusRefunded :: string where "ProviderStatusRefunded = ''refunded''"

lemmas refund_strings = DeductionTypeBalance_def DeductionTypeSubscription_def DeductionTypeNone_def ProviderStatusPending_def
  ProviderStatusFailed_def ProviderStatusRefunded_def ProviderStatusSuccess_def

record RefundPlan =
  rp_OrderID :: int
  rp_Order :: RefundOrder
  rp_RefundAmount :: float64
  rp_GatewayAmount :: float64
  rp_Reason :: string
  rp_Force :: bool
  rp_DeductBalance :: bool
  rp_DeductionType :: string
  rp_BalanceToDeduct :: float64
  rp_SubDaysToDeduct :: int
  rp_SubscriptionID :: int
  rp_deductionHeld :: bool
  rp_subscriptionRevoked :: bool

record RefundResult =
  rr_Success :: bool
  rr_Warning :: string
  rr_RequireForce :: bool
  rr_BalanceDeducted :: float64
  rr_SubDaysDeducted :: int

record RefundResponse =
  rs_RefundID :: string
  rs_Status :: string

record refundPendingAuditDetail =
  dt_RefundID :: string
  dt_RefundAmount :: float64
  dt_Reason :: string
  dt_Force :: bool
  dt_DeductionRollbackOK :: bool
  dt_DeductionHeld :: bool
  dt_DeductionType :: string
  dt_BalanceDeducted :: float64
  dt_SubDaysDeducted :: int
  dt_SubscriptionID :: int
  dt_SubscriptionRevoked :: bool

record refund_audit =
  ra_OrderID :: int
  ra_Action :: string
  ra_Operator :: string
  ra_Detail :: "refundPendingAuditDetail option"
  ra_CreatedAt :: gotime

text \<open>A provider client: its key, the identity that it reports, and whether it can be asked for the state of a refund.\<close>

record provider_client =
  pv_Key :: string
  pv_Metadata :: "(string, string) gomap"
  pv_Queries :: bool

record gateway_request =
  gq_TradeNo :: string
  gq_OrderID :: string
  gq_Amount :: string
  gq_Reason :: string

record gateway_query =
  qy_TradeNo :: string
  qy_OrderID :: string
  qy_RefundID :: string
  qy_Amount :: string
  qy_RequestedAt :: gotime

text \<open>\<open>decimal\<close> of \<open>shopspring\<close>, formatting and the errors of the subscription service.\<close>

record refund_lib =
  rl_pay :: pay_lib
  rl_round :: "float64 \<Rightarrow> nat \<Rightarrow> float64"
  rl_share :: "float64 \<Rightarrow> float64 \<Rightarrow> float64 \<Rightarrow> nat \<Rightarrow> float64"
  rl_fixed :: "float64 \<Rightarrow> nat \<Rightarrow> string"

definition ErrAdjustWouldExpire where
  "ErrAdjustWouldExpire = BadRequest ''ADJUST_WOULD_EXPIRE'' ''adjustment would result in expired subscription (remaining days must be > 0)''"

section \<open>Statements\<close>

datatype sub_op = ExtendSub int int | RevokeSub int | RestoreSub int

datatype refund_stmt =
    is_R_Now: R_Now
  | R_GetOrder int
  | R_GetUser int
  | R_GetInstance int
  | R_ListInstances "PaymentProviderInstance \<Rightarrow> bool"
  | R_Update "RefundOrder \<Rightarrow> bool" "RefundOrder \<Rightarrow> RefundOrder"
  | R_UpdateOne int "RefundOrder \<Rightarrow> RefundOrder"
  | R_Audit int string string
  | R_HasAudit int string
  | R_PendingAudit int
  | R_Deduct int float64 bool
  | R_Restore int float64
  | R_Sub sub_op
  | R_ActiveSub int int
  | R_Provider PaymentProviderInstance
  | R_Gateway gateway_request
  | R_Query gateway_query
  | R_PendingTx int refundPendingAuditDetail "RefundOrder \<Rightarrow> RefundOrder"
  | R_FinishTx RefundPlan
  | R_FailTx RefundPlan goerror "goerror option"

datatype refund_ans =
    B_Err nat goerror
  | B_Unit
  | B_Time gotime
  | B_Order RefundOrder
  | B_User User
  | B_Instance PaymentProviderInstance
  | B_Instances "PaymentProviderInstance list"
  | B_Count int
  | B_Float float64
  | B_Detail "(refundPendingAuditDetail \<times> gotime) option"
  | B_Sub int
  | B_Provider provider_client
  | B_Reply "RefundResponse option" "goerror option"

record refund_db =
  rd_orders :: "RefundOrder list"
  rd_users :: "User list"
  rd_audit :: "refund_audit list"
  rd_instances :: "PaymentProviderInstance list"
  rd_clock :: gotime
  rd_activeSub :: "int \<Rightarrow> int \<Rightarrow> refund_ans"
  rd_subscription :: "sub_op \<Rightarrow> goerror option"
  rd_provider :: "PaymentProviderInstance \<Rightarrow> goerror + provider_client"
  rd_refund :: "gateway_request \<Rightarrow> RefundResponse option \<times> goerror option"
  rd_query :: "gateway_query \<Rightarrow> RefundResponse option \<times> goerror option"
  rd_gateway :: "(gateway_request \<times> RefundResponse option \<times> goerror option) list"
  rd_subs :: "sub_op list"
  rd_taken :: "(int \<times> float64) list"
  rd_returned :: "(int \<times> float64) list"

definition rd_audited :: "int \<Rightarrow> string \<Rightarrow> refund_db \<Rightarrow> bool" where
  "rd_audited oid act s \<longleftrightarrow> list_ex (\<lambda>a. ra_OrderID a = oid \<and> ra_Action a = act) (rd_audit s)"

definition insert_audit :: "int \<Rightarrow> string \<Rightarrow> string \<Rightarrow> refundPendingAuditDetail option \<Rightarrow> refund_db \<Rightarrow> goerror + refund_db" where
  "insert_audit oid act operator detail s =
     (if rd_audited oid act s then Inl db_constraint
      else Inr (s\<lparr>rd_audit := rd_audit s @ [\<lparr>ra_OrderID = oid, ra_Action = act, ra_Operator = operator, ra_Detail = detail, ra_CreatedAt = rd_clock s\<rparr>]\<rparr>))"

definition update_orders :: "(RefundOrder \<Rightarrow> bool) \<Rightarrow> (RefundOrder \<Rightarrow> RefundOrder) \<Rightarrow> refund_db \<Rightarrow> refund_db" where
  "update_orders p f s = s\<lparr>rd_orders := map (\<lambda>r. if p r then (f r)\<lparr>od_UpdatedAt := rd_clock s\<rparr> else r) (rd_orders s)\<rparr>"

definition order_count :: "(RefundOrder \<Rightarrow> bool) \<Rightarrow> refund_db \<Rightarrow> int" where
  "order_count p s = int (length (filter p (rd_orders s)))"

definition add_balance :: "pay_lib \<Rightarrow> int \<Rightarrow> float64 \<Rightarrow> User list \<Rightarrow> User list" where
  "add_balance lib uid x users = map (\<lambda>u. if us_ID u = uid then u\<lparr>us_Balance := fadd (pl_round lib) (us_Balance u) x\<rparr> else u) users"

definition f_min :: "float64 \<Rightarrow> float64 \<Rightarrow> float64" where
  "f_min x y = (if x = NegInf \<or> y = NegInf then NegInf else if x = NaN \<or> y = NaN then NaN else if flt y x then y else x)"

text \<open>\<open>DeductAvailableBalanceExact\<close> and \<open>DeductAvailableBalance\<close>.\<close>

definition DeductAvailableBalanceExact :: "pay_lib \<Rightarrow> int \<Rightarrow> float64 \<Rightarrow> refund_db \<Rightarrow> refund_db \<times> (goerror + float64)" where
  "DeductAvailableBalanceExact lib uid amount s =
     (if flt amount (Finite 0) then (s, Inl (PlainError ''deduction amount must be nonnegative''))
      else case find (\<lambda>u. us_ID u = uid \<and> fle amount (us_Balance u)) (rd_users s) of
        None \<Rightarrow> (s, Inr (Finite 0))
      | Some u \<Rightarrow> (s\<lparr>rd_users := add_balance lib uid (fneg amount) (rd_users s), rd_taken := rd_taken s @ [(uid, amount)]\<rparr>, Inr amount))"

definition DeductAvailableBalance :: "pay_lib \<Rightarrow> int \<Rightarrow> float64 \<Rightarrow> refund_db \<Rightarrow> refund_db \<times> (goerror + float64)" where
  "DeductAvailableBalance lib uid amount s =
     (if flt amount (Finite 0) then (s, Inl (PlainError ''deduction amount must be nonnegative''))
      else case find (\<lambda>u. us_ID u = uid) (rd_users s) of
        None \<Rightarrow> (s, Inl (app_err ErrUserNotFound))
      | Some u \<Rightarrow>
          (let deducted = f_min amount (f_max (us_Balance u) (Finite 0)) in
           (s\<lparr>rd_users := add_balance lib uid (fneg deducted) (rd_users s), rd_taken := rd_taken s @ [(uid, deducted)]\<rparr>, Inr deducted)))"

definition deductRefundBalance :: "pay_lib \<Rightarrow> int \<Rightarrow> float64 \<Rightarrow> bool \<Rightarrow> refund_db \<Rightarrow> refund_db \<times> (goerror + float64)" where
  "deductRefundBalance lib uid amount requireFull s =
     (if requireFull then DeductAvailableBalanceExact lib uid amount s else DeductAvailableBalance lib uid amount s)"

definition RestoreRefundBalance :: "pay_lib \<Rightarrow> int \<Rightarrow> float64 \<Rightarrow> refund_db \<Rightarrow> goerror + refund_db" where
  "RestoreRefundBalance lib uid amount s =
     (if flt amount (Finite 0) then Inl (PlainError ''refund restoration amount must be nonnegative'')
      else if list_ex (\<lambda>u. us_ID u = uid) (rd_users s)
      then Inr (s\<lparr>rd_users := add_balance lib uid amount (rd_users s), rd_returned := rd_returned s @ [(uid, amount)]\<rparr>)
      else Inl (app_err ErrUserNotFound))"

definition sub_exec :: "sub_op \<Rightarrow> refund_db \<Rightarrow> goerror + refund_db" where
  "sub_exec q s = (case rd_subscription s q of Some e \<Rightarrow> Inl e | None \<Rightarrow> Inr (s\<lparr>rd_subs := rd_subs s @ [q]\<rparr>))"

definition returnRefundSubscription :: "RefundPlan \<Rightarrow> sub_op" where
  "returnRefundSubscription p =
     (if rp_subscriptionRevoked p then RestoreSub (rp_SubscriptionID p) else ExtendSub (rp_SubscriptionID p) (rp_SubDaysToDeduct p))"

abbreviation deducts_balance :: "RefundPlan \<Rightarrow> bool" where
  "deducts_balance p \<equiv> rp_DeductionType p = DeductionTypeBalance \<and> flt (Finite 0) (rp_BalanceToDeduct p)"

abbreviation deducts_subscription :: "RefundPlan \<Rightarrow> bool" where
  "deducts_subscription p \<equiv> rp_DeductionType p = DeductionTypeSubscription \<and> 0 < rp_SubDaysToDeduct p \<and> 0 < rp_SubscriptionID p"

section \<open>Transactions\<close>

definition pending_tx :: "int \<Rightarrow> refundPendingAuditDetail \<Rightarrow> (RefundOrder \<Rightarrow> RefundOrder) \<Rightarrow> refund_db \<Rightarrow> refund_db \<times> refund_ans" where
  "pending_tx oid detail f s =
     (if order_count (\<lambda>r. od_ID r = oid) s = 0 then (s, B_Err 1 db_not_found)
      else case insert_audit oid ''REFUND_PENDING'' ''admin'' (Some detail) (update_orders (\<lambda>r. od_ID r = oid) f s) of
        Inl e \<Rightarrow> (s, B_Err 2 e)
      | Inr s' \<Rightarrow> (s', B_Unit))"

text \<open>\<open>applyRefundFinalDeduction\<close>, inside its transaction: the amount that was deducted.\<close>

definition applyRefundFinalDeduction :: "pay_lib \<Rightarrow> RefundPlan \<Rightarrow> refund_db \<Rightarrow> goerror + (refund_db \<times> float64)" where
  "applyRefundFinalDeduction lib p s =
     (if rp_deductionHeld p then Inr (s, rp_BalanceToDeduct p)
      else
        (let balance =
           (if deducts_balance p then
              (case deductRefundBalance lib (od_UserID (rp_Order p)) (rp_BalanceToDeduct p) (\<not> rp_Force p) s of
                 (s', Inl e) \<Rightarrow> Inl (WrapError ''deduction'' e)
               | (s', Inr deducted) \<Rightarrow>
                   (if \<not> rp_Force p \<and> flt deducted (rp_BalanceToDeduct p)
                    then Inl (PlainError ''deduction: user balance is insufficient for refund finalization'') else Inr (s', deducted)))
            else Inr (s, rp_BalanceToDeduct p))
         in case balance of
              Inl e \<Rightarrow> Inl e
            | Inr (s, deducted) \<Rightarrow>
                (if deducts_subscription p then
                   (case sub_exec (ExtendSub (rp_SubscriptionID p) (- rp_SubDaysToDeduct p)) s of
                      Inr s' \<Rightarrow> Inr (s', deducted)
                    | Inl e \<Rightarrow>
                        (if errors_is e (fst ErrAdjustWouldExpire) then
                           (case sub_exec (RevokeSub (rp_SubscriptionID p)) s of
                              Inr s' \<Rightarrow> Inr (s', deducted)
                            | Inl e' \<Rightarrow> Inl (WrapError ''revoke subscription'' e'))
                         else Inl (WrapError ''deduct subscription days'' e)))
                 else Inr (s, deducted))))"

definition refunded_status :: "RefundPlan \<Rightarrow> string" where
  "refunded_status p = (if flt (rp_RefundAmount p) (od_Amount (rp_Order p)) then OrderStatusPartiallyRefunded else OrderStatusRefunded)"

definition mark_refunded :: "RefundPlan \<Rightarrow> gotime \<Rightarrow> RefundOrder \<Rightarrow> RefundOrder" where
  "mark_refunded p t r = r\<lparr>od_Status := refunded_status p, od_RefundAmount := rp_RefundAmount p, od_RefundReason := Some (rp_Reason p),
     od_RefundAt := Some t, od_ForceRefund := rp_Force p\<rparr>"

definition claim_pending :: "int \<Rightarrow> RefundOrder \<Rightarrow> bool" where
  "claim_pending oid r \<longleftrightarrow> od_ID r = oid \<and> od_Status r = OrderStatusRefundPending"

definition refund_conflict :: goerror where
  "refund_conflict = app_err (Conflict ''CONFLICT'' ''order status changed'')"

definition finish_tx :: "pay_lib \<Rightarrow> RefundPlan \<Rightarrow> refund_db \<Rightarrow> refund_db \<times> refund_ans" where
  "finish_tx lib p s =
     (if order_count (claim_pending (rp_OrderID p)) s = 0 then (s, B_Err 3 refund_conflict)
      else case applyRefundFinalDeduction lib p (update_orders (claim_pending (rp_OrderID p)) (\<lambda>r. r\<lparr>od_Status := OrderStatusRefunding\<rparr>) s) of
        Inl e \<Rightarrow> (s, B_Err 3 e)
      | Inr (s', deducted) \<Rightarrow>
          (case insert_audit (rp_OrderID p) ''REFUND_SUCCESS'' ''admin'' None
               (update_orders (\<lambda>r. od_ID r = rp_OrderID p) (mark_refunded p (rd_clock s')) s') of
             Inl e \<Rightarrow> (s, B_Err 3 (WrapError ''write refund audit'' e))
           | Inr s'' \<Rightarrow> (s'', B_Float deducted)))"

definition returnHeldRefundDeduction :: "pay_lib \<Rightarrow> RefundPlan \<Rightarrow> refund_db \<Rightarrow> goerror + refund_db" where
  "returnHeldRefundDeduction lib p s =
     (if deducts_balance p then
        (case RestoreRefundBalance lib (od_UserID (rp_Order p)) (rp_BalanceToDeduct p) s of
           Inl e \<Rightarrow> Inl (WrapError ''return held balance deduction'' e) | Inr s' \<Rightarrow> Inr s')
      else if deducts_subscription p then
        (case sub_exec (returnRefundSubscription p) s of
           Inl e \<Rightarrow> Inl (WrapError ''return held subscription deduction'' e) | Inr s' \<Rightarrow> Inr s')
      else Inr s)"

text \<open>The answer \<open>B_Err 4\<close> is \<open>returnErr\<close>: the held deduction could not be returned.\<close>

definition fail_tx :: "pay_lib \<Rightarrow> RefundPlan \<Rightarrow> goerror \<Rightarrow> goerror option \<Rightarrow> refund_db \<Rightarrow> refund_db \<times> refund_ans" where
  "fail_tx lib p gErr rollbackErr s =
     (if order_count (claim_pending (rp_OrderID p)) s = 0 then (s, B_Err 3 refund_conflict)
      else
        (let s1 = update_orders (claim_pending (rp_OrderID p))
               (\<lambda>r. r\<lparr>od_Status := OrderStatusRefundFailed, od_FailedAt := Some (rd_clock s), od_FailedReason := Some (pl_error lib gErr)\<rparr>) s
         in case (if rp_deductionHeld p \<and> rollbackErr = None then returnHeldRefundDeduction lib p s1 else Inr s1) of
              Inl e \<Rightarrow> (s, B_Err 4 e)
            | Inr s2 \<Rightarrow>
                (case (if rollbackErr \<noteq> None then insert_audit (rp_OrderID p) ''REFUND_ROLLBACK_FAILED'' ''admin'' None s2 else Inr s2) of
                   Inl e \<Rightarrow> (s, B_Err 3 (WrapError ''write REFUND_ROLLBACK_FAILED audit'' e))
                 | Inr s3 \<Rightarrow>
                     (case insert_audit (rp_OrderID p) ''REFUND_FAILED'' ''admin'' None s3 of
                        Inl e \<Rightarrow> (s, B_Err 3 (WrapError ''write REFUND_FAILED audit'' e))
                      | Inr s4 \<Rightarrow> (s4, B_Unit)))))"

section \<open>Execution of a statement\<close>

definition deduct_ans :: "refund_db \<times> (goerror + float64) \<Rightarrow> refund_db \<times> refund_ans" where
  "deduct_ans r = (case r of (s, Inl e) \<Rightarrow> (s, B_Err 0 e) | (s, Inr x) \<Rightarrow> (s, B_Float x))"

definition unit_ans :: "refund_db \<Rightarrow> goerror + refund_db \<Rightarrow> refund_db \<times> refund_ans" where
  "unit_ans s r = (case r of Inl e \<Rightarrow> (s, B_Err 0 e) | Inr s' \<Rightarrow> (s', B_Unit))"

text \<open>A row whose detail is not JSON of this type has no detail.\<close>

definition latest_pending :: "int \<Rightarrow> refund_audit list \<Rightarrow> refund_ans" where
  "latest_pending oid audit =
     (case find (\<lambda>a. ra_OrderID a = oid \<and> ra_Action a = ''REFUND_PENDING'') (rev audit) of
        None \<Rightarrow> B_Detail None
      | Some a \<Rightarrow> (case ra_Detail a of Some d \<Rightarrow> B_Detail (Some (d, ra_CreatedAt a)) | None \<Rightarrow> B_Err 1 (PlainError ''parse refund pending audit'')))"

definition answer_one :: "('r \<Rightarrow> refund_ans) \<Rightarrow> goerror + 'r \<Rightarrow> refund_ans" where
  "answer_one f r = (case r of Inl e \<Rightarrow> B_Err 0 e | Inr x \<Rightarrow> f x)"

fun refund_effect :: "pay_lib \<Rightarrow> refund_stmt \<Rightarrow> refund_db \<Rightarrow> refund_db \<times> refund_ans" where
  "refund_effect lib R_Now s = (s, B_Time (rd_clock s))"
| "refund_effect lib (R_GetOrder oid) s = (s, answer_one B_Order (only (filter (\<lambda>r. od_ID r = oid) (rd_orders s))))"
| "refund_effect lib (R_GetUser uid) s = (s, answer_one B_User (only (filter (\<lambda>u. us_ID u = uid) (rd_users s))))"
| "refund_effect lib (R_GetInstance iid) s = (s, answer_one B_Instance (only (filter (\<lambda>i. pi_ID i = iid) (rd_instances s))))"
| "refund_effect lib (R_ListInstances p) s = (s, B_Instances (filter p (rd_instances s)))"
| "refund_effect lib (R_Update p f) s = (update_orders p f s, B_Count (order_count p s))"
| "refund_effect lib (R_UpdateOne oid f) s =
     (if order_count (\<lambda>r. od_ID r = oid) s = 0 then (s, B_Err 0 db_not_found) else (update_orders (\<lambda>r. od_ID r = oid) f s, B_Unit))"
| "refund_effect lib (R_Audit oid act operator) s = unit_ans s (insert_audit oid act operator None s)"
| "refund_effect lib (R_HasAudit oid act) s = (s, B_Count (if rd_audited oid act s then 1 else 0))"
| "refund_effect lib (R_PendingAudit oid) s = (s, latest_pending oid (rd_audit s))"
| "refund_effect lib (R_Deduct uid amount requireFull) s = deduct_ans (deductRefundBalance lib uid amount requireFull s)"
| "refund_effect lib (R_Restore uid amount) s = unit_ans s (RestoreRefundBalance lib uid amount s)"
| "refund_effect lib (R_Sub q) s = unit_ans s (sub_exec q s)"
| "refund_effect lib (R_ActiveSub uid gid) s = (s, rd_activeSub s uid gid)"
| "refund_effect lib (R_Provider inst) s = (s, answer_one B_Provider (rd_provider s inst))"
| "refund_effect lib (R_Gateway req) s = (s\<lparr>rd_gateway := rd_gateway s @ [(req, rd_refund s req)]\<rparr>, case rd_refund s req of (resp, err) \<Rightarrow> B_Reply resp err)"
| "refund_effect lib (R_Query q) s = (s, case rd_query s q of (resp, err) \<Rightarrow> B_Reply resp err)"
| "refund_effect lib (R_PendingTx oid detail f) s = pending_tx oid detail f s"
| "refund_effect lib (R_FinishTx p) s = finish_tx lib p s"
| "refund_effect lib (R_FailTx p gErr rollbackErr) s = fail_tx lib p gErr rollbackErr s"

text \<open>A lost request to the gateway or to a service has no effect, a lost reply has.\<close>

definition refund_exec :: "pay_lib \<Rightarrow> pay_fault \<Rightarrow> refund_stmt \<Rightarrow> refund_db \<Rightarrow> refund_db \<times> refund_ans" where
  "refund_exec lib f c s =
     (if is_R_Now c then refund_effect lib c s
      else case f of
        Up \<Rightarrow> refund_effect lib c s
      | Lost e \<Rightarrow> (s, B_Err 0 e)
      | Unacked e \<Rightarrow> (fst (refund_effect lib c s), B_Err 0 e)
      | TxFails n e \<Rightarrow> (s, B_Err n e))"

type_synonym 'r refund_prog = "(refund_stmt, refund_ans, 'r) prog"

definition r_err :: "refund_ans \<Rightarrow> goerror option" where
  "r_err a = (case a of B_Err n e \<Rightarrow> Some e | _ \<Rightarrow> None)"

definition r_now :: "(gotime \<Rightarrow> 'r refund_prog) \<Rightarrow> 'r refund_prog" where
  "r_now k = Call R_Now (\<lambda>a. k (case a of B_Time t \<Rightarrow> t | _ \<Rightarrow> 0))"

definition r_audit :: "int \<Rightarrow> string \<Rightarrow> string \<Rightarrow> 'r refund_prog \<Rightarrow> 'r refund_prog" where
  "r_audit oid act operator k = Call (R_Audit oid act operator) (\<lambda>_. k)"

definition r_get_order :: "int \<Rightarrow> (goerror \<Rightarrow> 'r refund_prog) \<Rightarrow> (RefundOrder \<Rightarrow> 'r refund_prog) \<Rightarrow> 'r refund_prog" where
  "r_get_order oid h k = Call (R_GetOrder oid) (\<lambda>a. case a of B_Order r \<Rightarrow> k r | B_Err n e \<Rightarrow> h e | _ \<Rightarrow> h bad_answer)"

definition r_get_user :: "int \<Rightarrow> (goerror \<Rightarrow> 'r refund_prog) \<Rightarrow> (User \<Rightarrow> 'r refund_prog) \<Rightarrow> 'r refund_prog" where
  "r_get_user uid h k = Call (R_GetUser uid) (\<lambda>a. case a of B_User u \<Rightarrow> k u | B_Err n e \<Rightarrow> h e | _ \<Rightarrow> h bad_answer)"

definition r_count :: "refund_ans \<Rightarrow> goerror + int" where
  "r_count a = (case a of B_Count n \<Rightarrow> Inr n | B_Err n e \<Rightarrow> Inl e | _ \<Rightarrow> Inl bad_answer)"

definition r_has_audit :: "int \<Rightarrow> string \<Rightarrow> (bool \<Rightarrow> 'r refund_prog) \<Rightarrow> 'r refund_prog" where
  "r_has_audit oid act k = Call (R_HasAudit oid act) (\<lambda>a. k (case r_count a of Inl e \<Rightarrow> False | Inr c \<Rightarrow> 0 < c))"

section \<open>The provider of an order\<close>

abbreviation base_order :: "RefundOrder \<Rightarrow> PaymentOrder" where
  "base_order r \<equiv> PaymentOrder.truncate r"

definition r_instance :: "int \<Rightarrow> (goerror + PaymentProviderInstance) refund_prog" where
  "r_instance iid = Call (R_GetInstance iid) (\<lambda>a. Ret (case a of B_Instance i \<Rightarrow> Inr i | B_Err n e \<Rightarrow> Inl e | _ \<Rightarrow> Inl bad_answer))"

definition order_text :: "RefundOrder \<Rightarrow> string" where
  "order_text r = ''order '' @ itoa (od_ID r) @ '' ''"

definition resolveSnapshotOrderProviderInstance ::
  "RefundOrder \<Rightarrow> paymentOrderProviderSnapshot \<Rightarrow> (goerror + PaymentProviderInstance option) refund_prog" where
  "resolveSnapshotOrderProviderInstance od snapshot =
     (let column = trim_space (psStringValue (od_ProviderInstanceID od));
          snapshotID = trim_space (ps_ProviderInstanceID snapshot);
          snapshotID = (if snapshotID = '''' then column else snapshotID)
      in if snapshotID = '''' then Ret (Inl (PlainError (order_text od @ ''provider snapshot is missing provider_instance_id'')))
         else if column \<noteq> '''' \<and> ps_ProviderInstanceID snapshot \<noteq> '''' \<and> \<not> equal_fold column (ps_ProviderInstanceID snapshot)
         then Ret (Inl (PlainError (order_text od @ ''provider snapshot instance mismatch: snapshot='' @ ps_ProviderInstanceID snapshot @ '' order='' @ column)))
         else case atoi snapshotID of
           None \<Rightarrow> Ret (Inl (PlainError (order_text od @ ''provider snapshot instance id is invalid: '' @ snapshotID)))
         | Some iid \<Rightarrow> and_then (r_instance iid) (\<lambda>r. Ret (case r of
               Inl e \<Rightarrow> Inl (if e = db_not_found then PlainError (order_text od @ ''provider snapshot instance '' @ snapshotID @ '' is missing'') else e)
             | Inr inst \<Rightarrow>
                 (if ps_ProviderKey snapshot \<noteq> '''' \<and> \<not> equal_fold (trim_space (pi_ProviderKey inst)) (ps_ProviderKey snapshot)
                  then Inl (PlainError (order_text od @ ''provider snapshot key mismatch: snapshot='' @ ps_ProviderKey snapshot @ '' instance='' @ pi_ProviderKey inst))
                  else Inr (Some inst)))))"

definition getRefundOrderProviderInstance :: "RefundOrder \<Rightarrow> (goerror + PaymentProviderInstance option) refund_prog" where
  "getRefundOrderProviderInstance od =
     (case psOrderProviderSnapshot (base_order od) of
        Some snapshot \<Rightarrow> resolveSnapshotOrderProviderInstance od snapshot
      | None \<Rightarrow>
          (let instID = trim_space (psStringValue (od_ProviderInstanceID od)) in
           if instID = '''' then Ret (Inr None)
           else case atoi instID of
             None \<Rightarrow> Ret (Inl (PlainError (order_text od @ ''refund provider instance id is invalid: '' @ instID)))
           | Some iid \<Rightarrow> and_then (r_instance iid) (\<lambda>r. Ret (case r of
                 Inl e \<Rightarrow> Inl (if e = db_not_found then PlainError (order_text od @ ''refund provider instance '' @ instID @ '' is missing'') else e)
               | Inr inst \<Rightarrow> Inr (Some inst)))))"

definition getRefundProvider :: "RefundOrder \<Rightarrow> (goerror + provider_client) refund_prog" where
  "getRefundProvider od =
     and_then (getRefundOrderProviderInstance od) (\<lambda>r. case r of
         Inl e \<Rightarrow> Ret (Inl e)
       | Inr None \<Rightarrow> Ret (Inl (PlainError (''refund provider instance is unavailable for order '' @ itoa (od_ID od))))
       | Inr (Some inst) \<Rightarrow> Call (R_Provider inst) (\<lambda>a. Ret (case a of B_Provider pv \<Rightarrow> Inr pv | B_Err n e \<Rightarrow> Inl e | _ \<Rightarrow> Inl bad_answer)))"

text \<open>The lookup outside refunds, which guesses the instance of an order from before the binding was kept.\<close>

fun split_commas :: "string \<Rightarrow> string list" where
  "split_commas [] = ['''']"
| "split_commas (c # cs) = (if c = CHR '','' then '''' # split_commas cs else (case split_commas cs of w # ws \<Rightarrow> (c # w) # ws | [] \<Rightarrow> [[c]]))"

definition normalizeVisibleMethodSupportType :: "string \<Rightarrow> string" where
  "normalizeVisibleMethodSupportType ty =
     (let t = trim_space ty in
      if t = TypeAlipay \<or> t = ''alipay_direct'' then TypeAlipay else if t = TypeWxpay \<or> t = ''wxpay_direct'' then TypeWxpay else t)"

definition InstanceSupportsType :: "string \<Rightarrow> string \<Rightarrow> bool" where
  "InstanceSupportsType supportedTypes target \<longleftrightarrow> supportedTypes = '''' \<or>
     list_ex (\<lambda>t. trim_space t = target \<or> normalizeVisibleMethodSupportType (trim_space t) = normalizeVisibleMethodSupportType target)
       (split_commas supportedTypes)"

definition psLegacyOrderMatchesInstance :: "string \<Rightarrow> PaymentProviderInstance \<Rightarrow> bool" where
  "psLegacyOrderMatchesInstance orderPaymentType inst =
     (let baseType = GetBasePaymentType (trim_space orderPaymentType); key = trim_space (pi_ProviderKey inst) in
      if baseType = '''' then False
      else if baseType = TypeStripe then key = TypeStripe
      else if key = TypeStripe then False
      else key = baseType \<or> InstanceSupportsType (pi_SupportedTypes inst) baseType)"

definition psFilterLegacyOrderProviderInstances :: "string \<Rightarrow> PaymentProviderInstance list \<Rightarrow> PaymentProviderInstance list" where
  "psFilterLegacyOrderProviderInstances orderPaymentType instances =
     (if trim_space orderPaymentType = '''' then instances else filter (psLegacyOrderMatchesInstance orderPaymentType) instances)"

definition unique_instance :: "string \<Rightarrow> refund_ans \<Rightarrow> goerror + PaymentProviderInstance option" where
  "unique_instance paymentType a =
     (case a of
        B_Instances instances \<Rightarrow> Inr (case psFilterLegacyOrderProviderInstances paymentType instances of [inst] \<Rightarrow> Some inst | _ \<Rightarrow> None)
      | B_Err n e \<Rightarrow> Inl e
      | _ \<Rightarrow> Inl bad_answer)"

definition resolveUniqueLegacyOrderProviderInstance :: "RefundOrder \<Rightarrow> (goerror + PaymentProviderInstance option) refund_prog" where
  "resolveUniqueLegacyOrderProviderInstance od =
     (let paymentType = GetBasePaymentType (trim_space (od_PaymentType od)); providerKey = trim_space (psStringValue (od_ProviderKey od)) in
      if providerKey \<noteq> '''' then Call (R_ListInstances (\<lambda>i. pi_ProviderKey i = providerKey)) (\<lambda>a. Ret (unique_instance paymentType a))
      else if paymentType = '''' then Ret (Inr None)
      else Call (R_ListInstances (\<lambda>i. True)) (\<lambda>a. Ret (unique_instance paymentType a)))"

definition getOrderProviderInstance :: "RefundOrder \<Rightarrow> (goerror + PaymentProviderInstance option) refund_prog" where
  "getOrderProviderInstance od =
     (case psOrderProviderSnapshot (base_order od) of
        Some snapshot \<Rightarrow> resolveSnapshotOrderProviderInstance od snapshot
      | None \<Rightarrow>
          (let instID = trim_space (psStringValue (od_ProviderInstanceID od)) in
           if instID = '''' then resolveUniqueLegacyOrderProviderInstance od
           else case atoi instID of
             None \<Rightarrow> Ret (Inr None)
           | Some iid \<Rightarrow> and_then (r_instance iid) (\<lambda>r. Ret (case r of Inl e \<Rightarrow> Inl e | Inr inst \<Rightarrow> Inr (Some inst)))))"

section \<open>Requests of users\<close>

definition validateRefundRequest :: "int \<Rightarrow> int \<Rightarrow> (goerror + RefundOrder) refund_prog" where
  "validateRefundRequest oid uid =
     r_get_order oid (\<lambda>e. Ret (Inl (app_err (NotFound ''NOT_FOUND'' ''order not found'')))) (\<lambda>od.
       if od_UserID od \<noteq> uid then Ret (Inl (app_err (Forbidden ''FORBIDDEN'' ''no permission'')))
       else if od_OrderType od \<noteq> OrderTypeBalance then Ret (Inl (app_err (BadRequest ''INVALID_ORDER_TYPE'' ''only balance orders can request refund'')))
       else if od_Status od \<noteq> OrderStatusCompleted then Ret (Inl (app_err (BadRequest ''INVALID_STATUS'' ''only completed orders can request refund'')))
       else and_then (getRefundOrderProviderInstance od) (\<lambda>r. Ret (case r of
           Inr (Some inst) \<Rightarrow>
             (if \<not> pi_AllowUserRefund inst then Inl (app_err (Forbidden ''USER_REFUND_DISABLED'' ''user refund is not enabled for this provider''))
              else Inr od)
         | _ \<Rightarrow> Inl (app_err (Forbidden ''USER_REFUND_DISABLED'' ''refund is not available for this order'')))))"

definition RequestRefund :: "int \<Rightarrow> int \<Rightarrow> string \<Rightarrow> goerror option refund_prog" where
  "RequestRefund oid uid reason =
     and_then (validateRefundRequest oid uid) (\<lambda>r. case r of
         Inl e \<Rightarrow> Ret (Some e)
       | Inr od \<Rightarrow>
           r_get_user (od_UserID od) (\<lambda>e. Ret (Some (WrapError ''get user'' e))) (\<lambda>u.
             if flt (us_Balance u) (od_Amount od) then Ret (Some (app_err (BadRequest ''BALANCE_NOT_ENOUGH'' ''refund amount exceeds balance'')))
             else r_now (\<lambda>t.
               Call (R_Update (\<lambda>r. od_ID r = oid \<and> od_UserID r = uid \<and> od_Status r = OrderStatusCompleted \<and> od_OrderType r = OrderTypeBalance)
                   (\<lambda>r. r\<lparr>od_Status := OrderStatusRefundRequested, od_RefundRequestedAt := Some t, od_RefundRequestReason := Some (trim_space reason),
                      od_RefundRequestedBy := Some (itoa uid), od_RefundAmount := od_Amount od\<rparr>)) (\<lambda>a.
                 case r_count a of
                   Inl e \<Rightarrow> Ret (Some (WrapError ''update'' e))
                 | Inr c \<Rightarrow> (if c = 0 then Ret (Some refund_conflict)
                              else r_audit oid ''REFUND_REQUESTED'' (''user:'' @ itoa uid) (Ret None))))))"

section \<open>The plan\<close>

definition CurrencyMaxFractionDigits :: "string \<Rightarrow> nat" where
  "CurrencyMaxFractionDigits currency = cu_maxFractionDigits (paymentCurrencyAmountUnitFor currency)"

definition calculateGatewayRefundAmount :: "refund_lib \<Rightarrow> float64 \<Rightarrow> float64 \<Rightarrow> float64 \<Rightarrow> string \<Rightarrow> float64" where
  "calculateGatewayRefundAmount lib orderAmount payAmount refundAmount currency =
     (if fle orderAmount (Finite 0) \<or> fle payAmount (Finite 0) \<or> fle refundAmount (Finite 0) then Finite 0
      else
        (let digits = CurrencyMaxFractionDigits currency in
         if fle (f_abs (fsub (pl_round (rl_pay lib)) refundAmount orderAmount)) (paymentAmountToleranceForCurrency (rl_pay lib) currency)
         then rl_round lib payAmount digits
         else rl_share lib payAmount refundAmount orderAmount digits))"

definition warn :: "string \<Rightarrow> bool \<Rightarrow> RefundResult" where
  "warn w f = \<lparr>rr_Success = False, rr_Warning = w, rr_RequireForce = f, rr_BalanceDeducted = Finite 0, rr_SubDaysDeducted = 0\<rparr>"

definition prepDeduct :: "RefundOrder \<Rightarrow> RefundPlan \<Rightarrow> bool \<Rightarrow> (RefundResult + RefundPlan) refund_prog" where
  "prepDeduct od p force =
     (if od_OrderType od = OrderTypeSubscription then
        (let p = p\<lparr>rp_DeductionType := DeductionTypeSubscription\<rparr> in
         case (od_SubscriptionGroupID od, od_SubscriptionDays od) of
           (Some gid, Some days) \<Rightarrow>
             (let p = p\<lparr>rp_SubDaysToDeduct := days\<rparr> in
              Call (R_ActiveSub (od_UserID od) gid) (\<lambda>a.
                case a of
                  B_Sub sid \<Rightarrow> Ret (Inr (p\<lparr>rp_SubscriptionID := sid\<rparr>))
                | _ \<Rightarrow> (if \<not> force then Ret (Inl (warn ''cannot find active subscription for deduction, use force'' True)) else Ret (Inr p))))
         | _ \<Rightarrow> Ret (Inr p))
      else
        r_get_user (od_UserID od)
          (\<lambda>e. if \<not> force then Ret (Inl (warn ''cannot fetch user balance, use force'' True)) else Ret (Inr p))
          (\<lambda>u. let p = p\<lparr>rp_DeductionType := DeductionTypeBalance\<rparr> in
               if flt (us_Balance u) (rp_RefundAmount p) \<and> \<not> force then Ret (Inl (warn ''user balance is insufficient for deduction, use force'' True))
               else Ret (Inr (p\<lparr>rp_BalanceToDeduct := f_max (Finite 0) (f_min (rp_RefundAmount p) (us_Balance u))\<rparr>))))"

definition refundable :: "string \<Rightarrow> bool" where
  "refundable st \<longleftrightarrow> st \<in> {OrderStatusCompleted, OrderStatusRefundRequested, OrderStatusRefundFailed}"

definition refund_reason :: "string \<Rightarrow> RefundOrder \<Rightarrow> string" where
  "refund_reason reason od =
     (let rr = trim_space reason;
          rr = (if rr = '''' then psStringValue (od_RefundRequestReason od) else rr)
      in if rr = '''' then ''refund order:'' @ itoa (od_ID od) else rr)"

definition bad_refund :: "(string \<Rightarrow> string \<Rightarrow> Status \<times> goerror option) \<Rightarrow> string \<Rightarrow> string \<Rightarrow> ((goerror + RefundResult) + RefundPlan)" where
  "bad_refund kind code msg = Inl (Inl (app_err (kind code msg)))"

definition refund_plan :: "refund_lib \<Rightarrow> RefundOrder \<Rightarrow> float64 \<Rightarrow> string \<Rightarrow> bool \<Rightarrow> bool \<Rightarrow> RefundPlan" where
  "refund_plan lib od amt reason force deduct =
     \<lparr>rp_OrderID = od_ID od, rp_Order = od, rp_RefundAmount = amt,
      rp_GatewayAmount = calculateGatewayRefundAmount lib (od_Amount od) (od_PayAmount od) amt (PaymentOrderCurrency (base_order od)),
      rp_Reason = reason, rp_Force = force, rp_DeductBalance = deduct, rp_DeductionType = DeductionTypeNone, rp_BalanceToDeduct = Finite 0,
      rp_SubDaysToDeduct = 0, rp_SubscriptionID = 0, rp_deductionHeld = False, rp_subscriptionRevoked = False\<rparr>"

definition PrepareRefund :: "refund_lib \<Rightarrow> int \<Rightarrow> float64 \<Rightarrow> string \<Rightarrow> bool \<Rightarrow> bool \<Rightarrow> ((goerror + RefundResult) + RefundPlan) refund_prog" where
  "PrepareRefund lib oid amt reason force deduct =
     r_get_order oid (\<lambda>e. Ret (bad_refund NotFound ''NOT_FOUND'' ''order not found'')) (\<lambda>od.
       if \<not> refundable (od_Status od) then Ret (bad_refund BadRequest ''INVALID_STATUS'' ''order status does not allow refund'')
       else and_then (getRefundOrderProviderInstance od) (\<lambda>r. case r of
           Inl e \<Rightarrow> Ret (bad_refund InternalServer ''PROVIDER_LOOKUP_FAILED'' ''failed to look up payment provider for this order'')
         | Inr None \<Rightarrow> Ret (bad_refund Forbidden ''REFUND_DISABLED'' ''refund is not available for this order'')
         | Inr (Some inst) \<Rightarrow>
             (if \<not> pi_RefundEnabled inst then Ret (bad_refund Forbidden ''REFUND_DISABLED'' ''refund is not enabled for this provider'')
              else if amt \<in> {NaN, PosInf, NegInf} then Ret (bad_refund BadRequest ''INVALID_AMOUNT'' ''invalid refund amount'')
              else
                (let amt = (if fle amt (Finite 0) then od_Amount od else amt);
                     tolerance = paymentAmountToleranceForCurrency (rl_pay lib) (PaymentOrderCurrency (base_order od))
                 in if flt tolerance (fsub (pl_round (rl_pay lib)) amt (od_Amount od))
                    then Ret (bad_refund BadRequest ''REFUND_AMOUNT_EXCEEDED'' ''refund amount exceeds recharge'')
                    else
                      (let p = refund_plan lib od amt (refund_reason reason od) force deduct in
                       if deduct then and_then (prepDeduct od p force) (\<lambda>r. Ret (case r of Inl w \<Rightarrow> Inl (Inr w) | Inr p \<Rightarrow> Inr p))
                       else Ret (Inr p))))))"

section \<open>Outcomes\<close>

type_synonym refund_outcome = "(goerror + RefundResult) refund_prog"

definition restored_status :: "RefundPlan \<Rightarrow> string" where
  "restored_status p = (if od_Status (rp_Order p) = OrderStatusRefundRequested then OrderStatusRefundRequested else OrderStatusCompleted)"

definition restoreStatusChecked :: "RefundPlan \<Rightarrow> (goerror option \<Rightarrow> 'r refund_prog) \<Rightarrow> 'r refund_prog" where
  "restoreStatusChecked p k = Call (R_UpdateOne (rp_OrderID p) (\<lambda>r. r\<lparr>od_Status := restored_status p\<rparr>)) (\<lambda>a. k (r_err a))"

definition restoreStatus :: "RefundPlan \<Rightarrow> 'r refund_prog \<Rightarrow> 'r refund_prog" where
  "restoreStatus p k = restoreStatusChecked p (\<lambda>_. k)"

definition RollbackRefund :: "RefundPlan \<Rightarrow> (bool \<Rightarrow> 'r refund_prog) \<Rightarrow> 'r refund_prog" where
  "RollbackRefund p k =
     (let failed = r_audit (rp_OrderID p) ''REFUND_ROLLBACK_FAILED'' ''admin'' (k False) in
      if deducts_balance p then
        Call (R_Restore (od_UserID (rp_Order p)) (rp_BalanceToDeduct p)) (\<lambda>a. if r_err a \<noteq> None then failed else k True)
      else if deducts_subscription p then
        Call (R_Sub (returnRefundSubscription p)) (\<lambda>a. if r_err a \<noteq> None then failed else k True)
      else k True)"

definition handleGwFail :: "refund_lib \<Rightarrow> RefundPlan \<Rightarrow> goerror \<Rightarrow> refund_outcome" where
  "handleGwFail lib p gErr =
     RollbackRefund p (\<lambda>ok.
       if ok then
         restoreStatus p (r_audit (rp_OrderID p) ''REFUND_GATEWAY_FAILED'' ''admin''
           (Ret (Inr (warn (''gateway failed: '' @ pl_error (rl_pay lib) gErr @ '', rolled back'') False))))
       else
         r_now (\<lambda>t. Call (R_UpdateOne (rp_OrderID p)
             (\<lambda>r. r\<lparr>od_Status := OrderStatusRefundFailed, od_FailedAt := Some t, od_FailedReason := Some (pl_error (rl_pay lib) gErr)\<rparr>)) (\<lambda>_.
           r_audit (rp_OrderID p) ''REFUND_FAILED'' ''admin''
             (Ret (Inl (app_err (InternalServer ''REFUND_FAILED'' (pl_error (rl_pay lib) gErr))))))))"

definition refund_done :: "RefundPlan \<Rightarrow> RefundResult" where
  "refund_done p = \<lparr>rr_Success = True, rr_Warning = '''', rr_RequireForce = False, rr_BalanceDeducted = rp_BalanceToDeduct p,
     rr_SubDaysDeducted = rp_SubDaysToDeduct p\<rparr>"

definition markRefundOk :: "RefundPlan \<Rightarrow> refund_outcome" where
  "markRefundOk p =
     r_now (\<lambda>t. Call (R_UpdateOne (rp_OrderID p) (mark_refunded p t)) (\<lambda>a.
       case r_err a of
         Some e \<Rightarrow> Ret (Inl (WrapError ''mark refund'' e))
       | None \<Rightarrow> r_audit (rp_OrderID p) ''REFUND_SUCCESS'' ''admin'' (Ret (Inr (refund_done p)))))"

definition refundResponseID :: "RefundResponse \<Rightarrow> string" where
  "refundResponseID resp = trim_space (rs_RefundID resp)"

definition pending_detail :: "RefundPlan \<Rightarrow> RefundResponse \<Rightarrow> refundPendingAuditDetail" where
  "pending_detail p resp =
     \<lparr>dt_RefundID = refundResponseID resp, dt_RefundAmount = rp_RefundAmount p, dt_Reason = rp_Reason p, dt_Force = rp_Force p,
      dt_DeductionRollbackOK = False, dt_DeductionHeld = True, dt_DeductionType = rp_DeductionType p, dt_BalanceDeducted = rp_BalanceToDeduct p,
      dt_SubDaysDeducted = rp_SubDaysToDeduct p, dt_SubscriptionID = rp_SubscriptionID p, dt_SubscriptionRevoked = rp_subscriptionRevoked p\<rparr>"

definition mark_pending :: "RefundPlan \<Rightarrow> RefundOrder \<Rightarrow> RefundOrder" where
  "mark_pending p r = r\<lparr>od_Status := OrderStatusRefundPending, od_RefundAmount := rp_RefundAmount p, od_RefundReason := Some (rp_Reason p),
     od_RefundAt := None, od_ForceRefund := rp_Force p, od_FailedAt := None, od_FailedReason := None\<rparr>"

definition markRefundPending :: "RefundPlan \<Rightarrow> RefundResponse \<Rightarrow> refund_outcome" where
  "markRefundPending p resp =
     Call (R_PendingTx (rp_OrderID p) (pending_detail p resp) (mark_pending p)) (\<lambda>a. Ret (case a of
         B_Err n e \<Rightarrow> Inl (WrapError (if n = 1 then ''mark refund pending'' else if n = 2 then ''write refund pending audit'' else ''commit mark refund pending'') e)
       | _ \<Rightarrow> Inr (warn ''gateway refund is pending confirmation'' False)))"

section \<open>The gateway\<close>

definition validateRefundProviderResponse :: "RefundResponse option \<Rightarrow> goerror option" where
  "validateRefundProviderResponse resp =
     (case resp of
        None \<Rightarrow> Some (PlainError ''payment refund response missing'')
      | Some r \<Rightarrow>
          (let status = trim_space (rs_Status r) in
           if status \<in> {ProviderStatusSuccess, ProviderStatusRefunded, ProviderStatusPending} then None
           else if status = ProviderStatusFailed then Some (PlainError (''payment refund failed: status '' @ status))
           else Some (PlainError (''payment refund returned unknown status: '' @ status))))"

definition formatGatewayRefundAmount :: "refund_lib \<Rightarrow> float64 \<Rightarrow> RefundOrder \<Rightarrow> string" where
  "formatGatewayRefundAmount lib amount od = rl_fixed lib amount (CurrencyMaxFractionDigits (PaymentOrderCurrency (base_order od)))"

definition reply_of :: "refund_ans \<Rightarrow> RefundResponse option \<times> goerror option" where
  "reply_of a = (case a of B_Reply resp err \<Rightarrow> (resp, err) | B_Err n e \<Rightarrow> (None, Some e) | _ \<Rightarrow> (None, Some bad_answer))"

definition gateway_result :: "RefundResponse option \<times> goerror option \<Rightarrow> goerror + RefundResponse" where
  "gateway_result r =
     (case r of
        (resp, Some err) \<Rightarrow> (case resp of Some x \<Rightarrow> (if trim_space (rs_Status x) = ProviderStatusPending then Inr x else Inl err) | None \<Rightarrow> Inl err)
      | (resp, None) \<Rightarrow> (case validateRefundProviderResponse resp of Some e \<Rightarrow> Inl e | None \<Rightarrow> (case resp of Some x \<Rightarrow> Inr x | None \<Rightarrow> Inl bad_answer)))"

definition refund_request :: "refund_lib \<Rightarrow> RefundPlan \<Rightarrow> gateway_request" where
  "refund_request lib p = \<lparr>gq_TradeNo = od_PaymentTradeNo (rp_Order p), gq_OrderID = od_OutTradeNo (rp_Order p),
     gq_Amount = formatGatewayRefundAmount lib (rp_GatewayAmount p) (rp_Order p), gq_Reason = rp_Reason p\<rparr>"

definition gwRefund :: "refund_lib \<Rightarrow> RefundPlan \<Rightarrow> (goerror + RefundResponse) refund_prog" where
  "gwRefund lib p =
     (let od = rp_Order p in
      if od_PaymentTradeNo od = '''' then
        r_audit (od_ID od) ''REFUND_NO_TRADE_NO'' ''admin'' (Ret (Inr \<lparr>rs_RefundID = '''', rs_Status = ProviderStatusSuccess\<rparr>))
      else and_then (getRefundProvider od) (\<lambda>r. case r of
          Inl e \<Rightarrow> Ret (Inl (WrapError ''get refund provider'' e))
        | Inr prov \<Rightarrow>
            (case validateProviderSnapshotMetadata (base_order od) (pv_Key prov) (pv_Metadata prov) of
               Some e \<Rightarrow> r_audit (od_ID od) ''REFUND_PROVIDER_METADATA_MISMATCH'' ''admin'' (Ret (Inl e))
             | None \<Rightarrow> Call (R_Gateway (refund_request lib p)) (\<lambda>a. Ret (gateway_result (reply_of a))))))"

definition finishRefund :: "refund_lib \<Rightarrow> RefundPlan \<Rightarrow> RefundResponse \<Rightarrow> refund_outcome" where
  "finishRefund lib p resp =
     (case validateRefundProviderResponse (Some resp) of
        Some e \<Rightarrow> handleGwFail lib p e
      | None \<Rightarrow> (if trim_space (rs_Status resp) = ProviderStatusPending then markRefundPending p resp else markRefundOk p))"

section \<open>Execution\<close>

text \<open>\<open>Inl\<close> is the early return of \<open>ExecuteRefund\<close>.\<close>

definition deduct_plan_balance :: "RefundPlan \<Rightarrow> ((goerror + RefundResult) + RefundPlan) refund_prog" where
  "deduct_plan_balance p =
     (if \<not> deducts_balance p then Ret (Inr p)
      else r_has_audit (rp_OrderID p) ''REFUND_ROLLBACK_FAILED'' (\<lambda>skip.
        if skip then Ret (Inr (p\<lparr>rp_BalanceToDeduct := Finite 0\<rparr>))
        else
          (let requested = rp_BalanceToDeduct p; uid = od_UserID (rp_Order p) in
           Call (R_Deduct uid requested (\<not> rp_Force p)) (\<lambda>a.
             case a of
               B_Float deducted \<Rightarrow>
                 (if \<not> rp_Force p \<and> flt deducted requested then
                    (let finish = restoreStatusChecked p (\<lambda>e. case e of
                         Some err \<Rightarrow> Ret (Inl (Inl (WrapError ''restore refund status'' err)))
                       | None \<Rightarrow> Ret (Inl (Inr (warn ''user balance became insufficient for deduction, use force'' True))))
                     in if flt (Finite 0) deducted then
                          Call (R_Restore uid deducted) (\<lambda>b.
                            case r_err b of
                              Some err \<Rightarrow> restoreStatus p (Ret (Inl (Inl (WrapError ''restore partial deduction'' err))))
                            | None \<Rightarrow> finish)
                        else finish)
                  else Ret (Inr (p\<lparr>rp_BalanceToDeduct := deducted\<rparr>)))
             | _ \<Rightarrow> restoreStatus p (Ret (Inl (Inl (WrapError ''deduction'' (case r_err a of Some e \<Rightarrow> e | None \<Rightarrow> bad_answer)))))))))"

definition deduct_plan_subscription :: "RefundPlan \<Rightarrow> ((goerror + RefundResult) + RefundPlan) refund_prog" where
  "deduct_plan_subscription p =
     (if \<not> deducts_subscription p then Ret (Inr p)
      else r_has_audit (rp_OrderID p) ''REFUND_ROLLBACK_FAILED'' (\<lambda>skip.
        if skip then Ret (Inr (p\<lparr>rp_SubDaysToDeduct := 0\<rparr>))
        else Call (R_Sub (ExtendSub (rp_SubscriptionID p) (- rp_SubDaysToDeduct p))) (\<lambda>a.
          case r_err a of
            None \<Rightarrow> Ret (Inr p)
          | Some e \<Rightarrow>
              (if errors_is e (fst ErrAdjustWouldExpire) then
                 Call (R_Sub (RevokeSub (rp_SubscriptionID p))) (\<lambda>b.
                   case r_err b of
                     Some e' \<Rightarrow> restoreStatus p (Ret (Inl (Inl (WrapError ''revoke subscription'' e'))))
                   | None \<Rightarrow> Ret (Inr (p\<lparr>rp_subscriptionRevoked := True\<rparr>)))
               else restoreStatus p (Ret (Inl (Inl (WrapError ''deduct subscription days'' e))))))))"

definition ExecuteRefund :: "refund_lib \<Rightarrow> RefundPlan \<Rightarrow> refund_outcome" where
  "ExecuteRefund lib p =
     Call (R_Update (\<lambda>r. od_ID r = rp_OrderID p \<and> refundable (od_Status r)) (\<lambda>r. r\<lparr>od_Status := OrderStatusRefunding\<rparr>)) (\<lambda>a.
       case r_count a of
         Inl e \<Rightarrow> Ret (Inl (WrapError ''lock'' e))
       | Inr c \<Rightarrow>
           (if c = 0 then Ret (Inl refund_conflict)
            else and_then (deduct_plan_balance p) (\<lambda>r. case r of
                Inl stop \<Rightarrow> Ret stop
              | Inr p \<Rightarrow> and_then (deduct_plan_subscription p) (\<lambda>r. case r of
                    Inl stop \<Rightarrow> Ret stop
                  | Inr p \<Rightarrow> and_then (gwRefund lib p) (\<lambda>r. case r of
                        Inl e \<Rightarrow> handleGwFail lib p e
                      | Inr resp \<Rightarrow> finishRefund lib p resp)))))"

section \<open>Pending refunds\<close>

definition old_detail :: refundPendingAuditDetail where
  "old_detail = \<lparr>dt_RefundID = '''', dt_RefundAmount = Finite 0, dt_Reason = '''', dt_Force = False, dt_DeductionRollbackOK = True,
     dt_DeductionHeld = False, dt_DeductionType = '''', dt_BalanceDeducted = Finite 0, dt_SubDaysDeducted = 0, dt_SubscriptionID = 0,
     dt_SubscriptionRevoked = False\<rparr>"

definition latestRefundPendingDetail :: "int \<Rightarrow> (goerror + refundPendingAuditDetail \<times> gotime) refund_prog" where
  "latestRefundPendingDetail oid =
     Call (R_PendingAudit oid) (\<lambda>a. Ret (case a of
         B_Detail None \<Rightarrow> Inr (old_detail, 0)
       | B_Detail (Some (d, t)) \<Rightarrow> Inr (d\<lparr>dt_RefundID := trim_space (dt_RefundID d)\<rparr>, t)
       | B_Err n e \<Rightarrow> Inl (if n = 1 then e else WrapError ''load refund pending audit'' e)
       | _ \<Rightarrow> Inl bad_answer))"

definition applyTo :: "refundPendingAuditDetail \<Rightarrow> RefundPlan \<Rightarrow> RefundPlan" where
  "applyTo d p = p\<lparr>rp_deductionHeld := True, rp_DeductionType := (if dt_DeductionType d = '''' then DeductionTypeNone else dt_DeductionType d),
     rp_BalanceToDeduct := dt_BalanceDeducted d, rp_SubDaysToDeduct := dt_SubDaysDeducted d, rp_SubscriptionID := dt_SubscriptionID d,
     rp_subscriptionRevoked := dt_SubscriptionRevoked d\<rparr>"

definition refundFinalizePlan :: "refund_lib \<Rightarrow> RefundOrder \<Rightarrow> RefundPlan" where
  "refundFinalizePlan lib od =
     (let reason = trim_space (psStringValue (od_RefundReason od));
          reason = (if reason = '''' then ''refund order:'' @ itoa (od_ID od) else reason)
      in (refund_plan lib od (od_RefundAmount od) reason (od_ForceRefund od) True)\<lparr>rp_DeductionType := DeductionTypeBalance,
           rp_BalanceToDeduct := (if od_OrderType od = OrderTypeBalance then od_RefundAmount od else Finite 0)\<rparr>)"

definition finalizePendingRefundSuccess :: "RefundPlan \<Rightarrow> refund_outcome" where
  "finalizePendingRefundSuccess p =
     Call (R_FinishTx p) (\<lambda>a. Ret (case a of
         B_Float deducted \<Rightarrow> Inr (refund_done (p\<lparr>rp_BalanceToDeduct := deducted\<rparr>))
       | B_Err n e \<Rightarrow> Inl (if n = 3 then e else WrapError ''commit refund finalization'' e)
       | _ \<Rightarrow> Inl bad_answer))"

definition finalizeRefundFailed :: "refund_lib \<Rightarrow> RefundPlan \<Rightarrow> goerror \<Rightarrow> refund_outcome" where
  "finalizeRefundFailed lib p gErr =
     (let warning = ''gateway refund failed: '' @ pl_error (rl_pay lib) gErr; err = (\<lambda>n e. if n = 3 then e else WrapError ''commit refund failure finalization'' e) in
      Call (R_FailTx p gErr None) (\<lambda>a.
        case a of
          B_Unit \<Rightarrow> Ret (Inr (warn warning False))
        | B_Err n e \<Rightarrow>
            (if n \<noteq> 4 then Ret (Inl (err n e))
             else Call (R_FailTx p gErr (Some e)) (\<lambda>b. Ret (case b of
                 B_Unit \<Rightarrow> Inr (warn (warning @ ''; refund deduction rollback failed'') False)
               | B_Err m e' \<Rightarrow> Inl (err m e')
               | _ \<Rightarrow> Inl bad_answer)))
        | _ \<Rightarrow> Ret (Inl bad_answer)))"

definition settle_reply :: "refund_lib \<Rightarrow> RefundPlan \<Rightarrow> RefundResponse option \<Rightarrow> refund_outcome" where
  "settle_reply lib plan reply =
     (case reply of
        None \<Rightarrow> Ret (Inl (PlainError ''query refund: missing response''))
      | Some resp \<Rightarrow>
          (if trim_space (rs_Status resp) = ProviderStatusFailed then finalizeRefundFailed lib plan (PlainError ''payment refund failed'')
           else case validateRefundProviderResponse (Some resp) of
             Some e \<Rightarrow> Ret (Inl e)
           | None \<Rightarrow>
               (if trim_space (rs_Status resp) = ProviderStatusPending then
                  r_audit (rp_OrderID plan) ''REFUND_QUERY_PENDING'' ''admin'' (Ret (Inr (warn ''gateway refund is still pending confirmation'' False)))
                else finalizePendingRefundSuccess plan)))"

definition finalize_plan :: "refund_lib \<Rightarrow> RefundOrder \<Rightarrow> refundPendingAuditDetail \<Rightarrow> (RefundResult + RefundPlan) refund_prog" where
  "finalize_plan lib od d =
     (let plan = refundFinalizePlan lib od in
      if dt_DeductionHeld d then Ret (Inr (applyTo d plan))
      else if \<not> dt_DeductionRollbackOK d then Ret (Inr (plan\<lparr>rp_BalanceToDeduct := Finite 0, rp_SubDaysToDeduct := 0\<rparr>))
      else if od_OrderType od = OrderTypeSubscription then prepDeduct od plan True
      else Ret (Inr plan))"

definition QueryAndFinalizeRefund :: "refund_lib \<Rightarrow> int \<Rightarrow> refund_outcome" where
  "QueryAndFinalizeRefund lib oid =
     r_get_order oid (\<lambda>e. Ret (Inl (app_err (NotFound ''NOT_FOUND'' ''order not found'')))) (\<lambda>od.
       if od_Status od \<noteq> OrderStatusRefundPending then Ret (Inl (app_err (BadRequest ''INVALID_STATUS'' ''only refund pending orders can be finalized'')))
       else and_then (getRefundProvider od) (\<lambda>r. case r of
           Inl e \<Rightarrow> Ret (Inl (WrapError ''get refund provider'' e))
         | Inr prov \<Rightarrow>
             (case validateProviderSnapshotMetadata (base_order od) (pv_Key prov) (pv_Metadata prov) of
                Some e \<Rightarrow> r_audit (od_ID od) ''REFUND_PROVIDER_METADATA_MISMATCH'' ''admin'' (Ret (Inl e))
              | None \<Rightarrow>
                  (if \<not> pv_Queries prov then Ret (Inl (app_err (BadRequest ''REFUND_QUERY_UNSUPPORTED''
                       ''this payment provider does not support refund status query; please verify manually'')))
                   else and_then (latestRefundPendingDetail oid) (\<lambda>r. case r of
                       Inl e \<Rightarrow> Ret (Inl e)
                     | Inr (d, t) \<Rightarrow>
                         Call (R_Query \<lparr>qy_TradeNo = od_PaymentTradeNo od, qy_OrderID = od_OutTradeNo od, qy_RefundID = dt_RefundID d,
                             qy_Amount = formatGatewayRefundAmount lib (od_RefundAmount od) od, qy_RequestedAt = t\<rparr>) (\<lambda>a.
                           case reply_of a of
                             (resp, Some e) \<Rightarrow> Ret (Inl (WrapError ''query refund'' e))
                           | (resp, None) \<Rightarrow> and_then (finalize_plan lib od d) (\<lambda>r. case r of
                                 Inl early \<Rightarrow> Ret (Inr early)
                               | Inr plan \<Rightarrow> settle_reply lib plan resp)))))))"

end
