(* ===== verification/Ownership.thy ===== *)
theory Ownership
  imports Interleaving
begin

text \<open>
  Handlers that own a row of the database for a while. A handler is in a \<^emph>\<open>mode\<close>, which answers change:
  idle modes hold facts that the others keep, and at most one handler at a time is in a mode that is not
  idle. The locale \<open>ownership\<close> states what a statement has to keep in each mode and shows that all
  interleavings keep it, also after the owner has crashed: its mode stays behind without a handler, and
  no other handler becomes the owner.
\<close>

primrec follows ::
  "('m \<Rightarrow> 'c \<Rightarrow> bool) \<Rightarrow> ('c \<Rightarrow> 'a \<Rightarrow> bool) \<Rightarrow> ('m \<Rightarrow> 'c \<Rightarrow> 'a \<Rightarrow> 'm) \<Rightarrow> ('c, 'a, 'r) prog \<Rightarrow> 'm \<Rightarrow> ('r \<Rightarrow> 'm \<Rightarrow> bool) \<Rightarrow> bool" where
  "follows may poss succ (Ret r) m Q = Q r m"
| "follows may poss succ (Call c k) m Q = (may m c \<and> (\<forall>a. poss c a \<longrightarrow> follows may poss succ (k a) (succ m c a) Q))"

lemma follows_and_then [simp]:
  "follows may poss succ (and_then p k) m Q = follows may poss succ p m (\<lambda>r m'. follows may poss succ (k r) m' Q)"
  by (induction p arbitrary: m) simp_all

lemma follows_post:
  "follows may poss succ p m Q \<Longrightarrow> (\<And>r m'. Q r m' \<Longrightarrow> Q' r m') \<Longrightarrow> follows may poss succ p m Q'"
  by (induction p arbitrary: m) simp_all

text \<open>At most one element of a list is not idle.\<close>

definition one_owner :: "('m \<Rightarrow> bool) \<Rightarrow> 'm list \<Rightarrow> bool" where
  "one_owner idle ms \<longleftrightarrow> length (filter (\<lambda>m. \<not> idle m) ms) \<le> 1"

lemma one_owner_split:
  "one_owner idle (xs @ m # ys) \<longleftrightarrow> (if idle m then one_owner idle (xs @ ys) else list_all idle (xs @ ys))"
  by (auto simp: one_owner_def list_all_iff filter_empty_conv)

lemma one_owner_idle: "list_all idle ms \<Longrightarrow> one_owner idle ms"
  by (auto simp: one_owner_def list_all_iff filter_False)

locale ownership =
  fixes exec :: "'f \<Rightarrow> 'c \<Rightarrow> 's \<Rightarrow> 's \<times> 'a"
    and entry :: "('c, 'a, 'r) prog \<Rightarrow> bool"
    and env :: "'s \<Rightarrow> 's \<Rightarrow> bool"
    and may :: "'m \<Rightarrow> 'c \<Rightarrow> bool"
    and poss :: "'c \<Rightarrow> 'a \<Rightarrow> bool"
    and succ :: "'m \<Rightarrow> 'c \<Rightarrow> 'a \<Rightarrow> 'm"
    and idle :: "'m \<Rightarrow> bool"
    and start :: 'm
    and holds :: "'m \<Rightarrow> 's \<Rightarrow> bool"
    and inv :: "'s \<Rightarrow> bool"
  assumes own_inv: "inv s \<Longrightarrow> holds m s \<Longrightarrow> may m c \<Longrightarrow> exec f c s = (s', a) \<Longrightarrow> inv s'"
    and own_holds: "inv s \<Longrightarrow> holds m s \<Longrightarrow> may m c \<Longrightarrow> exec f c s = (s', a) \<Longrightarrow> holds (succ m c a) s'"
    and own_poss: "exec f c s = (s', a) \<Longrightarrow> inv s \<Longrightarrow> poss c a"
    and other_holds: "inv s \<Longrightarrow> holds m s \<Longrightarrow> may m c \<Longrightarrow> exec f c s = (s', a) \<Longrightarrow> holds m' s \<Longrightarrow> idle m \<or> idle m' \<Longrightarrow> holds m' s'"
    and other_idle: "inv s \<Longrightarrow> holds m s \<Longrightarrow> may m c \<Longrightarrow> exec f c s = (s', a) \<Longrightarrow> holds m' s \<Longrightarrow> idle m \<Longrightarrow> \<not> idle m' \<Longrightarrow> idle (succ m c a)"
    and env_inv: "inv s \<Longrightarrow> env s s' \<Longrightarrow> inv s'"
    and env_holds: "inv s \<Longrightarrow> env s s' \<Longrightarrow> holds m s \<Longrightarrow> holds m s'"
    and start_idle: "idle start"
    and start_holds: "inv s \<Longrightarrow> holds start s"
    and entry_follows: "entry p \<Longrightarrow> follows may poss succ p start (\<lambda>r m. True)"
begin

text \<open>The modes of the handlers of the pool, and those that crashed handlers left behind.\<close>

definition owned :: "'s \<times> ('c, 'a, 'r) prog list \<Rightarrow> 'm list \<Rightarrow> 'm list \<Rightarrow> bool" where
  "owned c ms left \<longleftrightarrow> inv (fst c) \<and> list_all2 (\<lambda>p m. follows may poss succ p m (\<lambda>r m. True)) (snd c) ms
     \<and> one_owner idle (ms @ left) \<and> list_all (\<lambda>m. holds m (fst c)) (ms @ left)"

lemma owned_stmt:
  assumes owned: "owned (s, xs @ Call c k # ys) ms left" and exec: "exec f c s = (s', a)"
  shows "\<exists>ms'. owned (s', xs @ k a # ys) ms' left"
proof -
  from owned obtain us m vs where ms: "ms = us @ m # vs" and us: "list_all2 (\<lambda>p m. follows may poss succ p m (\<lambda>r m. True)) xs us"
    and vs: "list_all2 (\<lambda>p m. follows may poss succ p m (\<lambda>r m. True)) ys vs" and m: "follows may poss succ (Call c k) m (\<lambda>r m. True)"
    by (auto simp: owned_def list_all2_append1 list_all2_Cons1)
  from owned ms have inv: "inv s" and holds: "holds m s" and others: "\<forall>m'\<in>set (us @ vs @ left). holds m' s"
    by (auto simp: owned_def list_all_iff)
  from m have may: "may m c" by simp
  note step = inv holds may exec
  have rest: "follows may poss succ (k a) (succ m c a) (\<lambda>r m. True)" using m own_poss [OF exec inv] by simp
  have one: "one_owner idle (us @ m # vs @ left)" using owned ms by (simp add: owned_def)
  have quiet: "idle m \<or> idle m'" if "m' \<in> set (us @ vs @ left)" for m'
    using one that by (auto simp: one_owner_split list_all_iff split: if_splits)
  have "\<forall>m'\<in>set (us @ vs @ left). holds m' s'" using others quiet other_holds [OF step] by blast
  moreover have "one_owner idle (us @ succ m c a # vs @ left)"
  proof (cases "idle m \<and> \<not> list_all idle (us @ vs @ left)")
    case True
    then have "idle (succ m c a)" using others other_idle [OF step] by (auto simp: list_all_iff)
    then show ?thesis using one True by (simp add: one_owner_split)
  next
    case False
    then have "list_all idle (us @ vs @ left)" using one by (auto simp: one_owner_split split: if_splits)
    then show ?thesis by (auto simp: one_owner_split intro: one_owner_idle)
  qed
  ultimately have "owned (s', xs @ k a # ys) (us @ succ m c a # vs) left"
    using own_inv [OF step] own_holds [OF step] us vs rest
    by (auto simp: owned_def list_all_iff intro: list_all2_appendI)
  then show ?thesis by blast
qed

lemma owned_step:
  assumes "pool_step exec entry env c c'" "owned c ms left"
  shows "\<exists>ms' left'. owned c' ms' left' \<and> set left \<subseteq> set left'"
  using assms
proof (induction rule: pool_step.induct)
  case (spawn p s ps)
  then have "owned (s, ps @ [p]) (ms @ [start]) left"
    using entry_follows [OF spawn.hyps] start_idle start_holds
    by (auto simp: owned_def one_owner_split intro: list_all2_appendI)
  then show ?case by blast
next
  case (stmt f c s s' a xs k ys)
  from owned_stmt [OF stmt.prems stmt.hyps] show ?case by blast
next
  case (crash s xs p ys)
  then obtain us m vs where ms: "ms = us @ m # vs" and "list_all2 (\<lambda>p m. follows may poss succ p m (\<lambda>r m. True)) xs us"
    and "list_all2 (\<lambda>p m. follows may poss succ p m (\<lambda>r m. True)) ys vs"
    by (auto simp: owned_def list_all2_append1 list_all2_Cons1)
  with crash.prems have "owned (s, xs @ ys) (us @ vs) (left @ [m])"
    by (auto simp: owned_def one_owner_def intro: list_all2_appendI)
  then show ?case by fastforce
next
  case (other s s' ps)
  then have "owned (s', ps) ms left"
    using env_inv [OF _ other.hyps] env_holds [OF _ other.hyps] by (auto simp: owned_def list_all_iff)
  then show ?case by blast
qed

lemma owned_reaches:
  "reaches exec entry env c c' \<Longrightarrow> owned c ms left \<Longrightarrow> \<exists>ms' left'. owned c' ms' left' \<and> set left \<subseteq> set left'"
proof (induction rule: rtranclp_induct)
  case (step y z)
  then obtain ms1 left1 where one: "owned y ms1 left1" "set left \<subseteq> set left1" by blast
  from owned_step [OF step.hyps(2) this(1)] one(2) show ?case by blast
qed blast

lemma owned_inv: "reaches exec entry env (s, []) (s', ps) \<Longrightarrow> inv s \<Longrightarrow> inv s'"
  using owned_reaches [of "(s, [])" "(s', ps)" "[]" "[]"] by (auto simp: owned_def one_owner_def)

text \<open>What an owner that is gone has left stays for ever.\<close>

lemma left_behind: "reaches exec entry env (s, []) (s', ps) \<Longrightarrow> inv s \<Longrightarrow> holds m s \<Longrightarrow> holds m s'"
  using owned_reaches [of "(s, [])" "(s', ps)" "[]" "[m]"]
  by (cases "idle m") (auto simp: owned_def one_owner_def list_all_iff)

end

end
