(* ===== verification/Refund_Safety.thy ===== *)
theory Refund_Safety
  imports Payment_Refund Payment_Safety Ownership
begin

text \<open>
  The refund handlers under concurrency, with faults at every statement, crashes, and the payment
  service as their environment. The status \<open>REFUNDING\<close> is a lock: the handlers are an interpretation of
  \<open>ownership\<close>, where the owner of an order is the handler that has set this status. It follows that the
  gateway accepts at most one refund of an order, and that an order whose owner died stays locked.
\<close>

section \<open>Modes\<close>

datatype phase = Idle | Locked | Won

type_synonym refund_mode = "(int \<times> string) set \<times> phase"

definition lock_stmt :: "int \<Rightarrow> refund_stmt" where
  "lock_stmt oid = R_Update (\<lambda>r. od_ID r = oid \<and> refundable (od_Status r)) (\<lambda>r. r\<lparr>od_Status := OrderStatusRefunding\<rparr>)"

text \<open>An answer of the gateway that moves money, and the log of the requests of an order that had one.\<close>

definition accepted :: "RefundResponse option \<times> goerror option \<Rightarrow> bool" where
  "accepted rep = (case gateway_result rep of Inl e \<Rightarrow> False | Inr x \<Rightarrow> trim_space (rs_Status x) \<noteq> ProviderStatusPending)"

definition paid_back :: "string \<Rightarrow> refund_db \<Rightarrow> (gateway_request \<times> RefundResponse option \<times> goerror option) list" where
  "paid_back no s = filter (\<lambda>(req, rep). gq_OrderID req = no \<and> accepted rep) (rd_gateway s)"

definition taken_status :: "string \<Rightarrow> bool" where
  "taken_status st \<longleftrightarrow> st \<in> {OrderStatusRefunding, OrderStatusRefunded, OrderStatusPartiallyRefunded}"

text \<open>The log counts only when replies of the gateway are not lost (\<open>b\<close>).\<close>

definition counted where
  "counted b no s = (if b then paid_back no s else [])"

definition keeps_key :: "(RefundOrder \<Rightarrow> RefundOrder) \<Rightarrow> bool" where
  "keeps_key f \<longleftrightarrow> (\<forall>r. od_ID (f r) = od_ID r \<and> od_OutTradeNo (f r) = od_OutTradeNo r)"

definition refund_may :: "int \<Rightarrow> refund_mode \<Rightarrow> refund_stmt \<Rightarrow> bool" where
  "refund_may oid m c =
     (case c of
        R_Update p f \<Rightarrow> keeps_key f \<and> (\<forall>r. p r \<longrightarrow> refundable (od_Status r))
      | R_UpdateOne i f \<Rightarrow> keeps_key f \<and> (i = oid \<longrightarrow> snd m = Locked \<or> snd m = Won \<and> (\<forall>r. taken_status (od_Status (f r))))
      | R_PendingTx i d f \<Rightarrow> keeps_key f \<and> (i = oid \<longrightarrow> snd m = Locked)
      | R_Gateway req \<Rightarrow> (\<exists>i. (i, gq_OrderID req) \<in> fst m \<and> (i = oid \<longrightarrow> snd m = Locked))
      | _ \<Rightarrow> True)"

definition refund_succ :: "int \<Rightarrow> string \<Rightarrow> refund_mode \<Rightarrow> refund_stmt \<Rightarrow> refund_ans \<Rightarrow> refund_mode" where
  "refund_succ oid no m c a =
     (case c of
        R_GetOrder i \<Rightarrow> (case a of B_Order r \<Rightarrow> (insert (od_ID r, od_OutTradeNo r) (fst m), snd m) | _ \<Rightarrow> m)
      | R_Update p f \<Rightarrow> (fst m, if snd m = Idle \<and> c = lock_stmt oid \<and> (\<exists>n. a = B_Count n \<and> n \<noteq> 0) then Locked else snd m)
      | R_UpdateOne i f \<Rightarrow> (fst m, if i = oid then Idle else snd m)
      | R_PendingTx i d f \<Rightarrow> (fst m, if i = oid then Idle else snd m)
      | R_Gateway req \<Rightarrow> (fst m, if snd m = Locked \<and> gq_OrderID req = no \<and> accepted (reply_of a) then Won else snd m)
      | _ \<Rightarrow> m)"

definition has_order :: "refund_db \<Rightarrow> int \<Rightarrow> string \<Rightarrow> bool" where
  "has_order s i n \<longleftrightarrow> (\<exists>r\<in>set (rd_orders s). od_ID r = i \<and> od_OutTradeNo r = n)"

definition has_status :: "refund_db \<Rightarrow> int \<Rightarrow> (string \<Rightarrow> bool) \<Rightarrow> bool" where
  "has_status s i P \<longleftrightarrow> (\<exists>r\<in>set (rd_orders s). od_ID r = i \<and> P (od_Status r))"

definition mode_holds :: "bool \<Rightarrow> int \<Rightarrow> string \<Rightarrow> refund_mode \<Rightarrow> refund_db \<Rightarrow> bool" where
  "mode_holds b oid no m s \<longleftrightarrow> (\<forall>(i, n)\<in>fst m. has_order s i n)
     \<and> (snd m \<noteq> Idle \<longrightarrow> has_status s oid (\<lambda>st. st = OrderStatusRefunding)) \<and> (snd m = Locked \<longrightarrow> counted b no s = [])"

definition rows_ok :: "int \<Rightarrow> string \<Rightarrow> refund_db \<Rightarrow> bool" where
  "rows_ok oid no s \<longleftrightarrow> distinct (map od_ID (rd_orders s)) \<and> (\<forall>r\<in>set (rd_orders s). od_ID r = oid \<longleftrightarrow> od_OutTradeNo r = no)"

definition once_inv :: "bool \<Rightarrow> int \<Rightarrow> string \<Rightarrow> refund_db \<Rightarrow> bool" where
  "once_inv b oid no s \<longleftrightarrow> no \<noteq> '''' \<and> rows_ok oid no s \<and> has_order s oid no \<and> length (counted b no s) \<le> 1
     \<and> (counted b no s \<noteq> [] \<longrightarrow> has_status s oid taken_status)"

section \<open>Steps of the others\<close>

text \<open>What anybody but the owner may do: an order whose status is taken keeps it.\<close>

definition calm :: "bool \<Rightarrow> int \<Rightarrow> string \<Rightarrow> refund_db \<Rightarrow> refund_db \<Rightarrow> bool" where
  "calm b oid no s s' \<longleftrightarrow> rows_ok oid no s' \<and> counted b no s' = counted b no s
     \<and> (\<forall>r\<in>set (rd_orders s). \<exists>r'\<in>set (rd_orders s'). od_ID r' = od_ID r \<and> od_OutTradeNo r' = od_OutTradeNo r
          \<and> (od_ID r = oid \<and> taken_status (od_Status r) \<longrightarrow> od_Status r' = od_Status r))"

lemma calm_has_order: "calm b oid no s s' \<Longrightarrow> has_order s i n \<Longrightarrow> has_order s' i n"
  unfolding calm_def has_order_def by metis

lemma calm_has_status: "calm b oid no s s' \<Longrightarrow> has_status s oid P \<Longrightarrow> (\<And>st. P st \<Longrightarrow> taken_status st) \<Longrightarrow> has_status s' oid P"
  unfolding calm_def has_status_def by metis

lemma calm_inv: "calm b oid no s s' \<Longrightarrow> once_inv b oid no s \<Longrightarrow> once_inv b oid no s'"
  using calm_has_order [of b oid no s s' oid no] calm_has_status [of b oid no s s' taken_status]
  by (simp add: once_inv_def calm_def)

lemma calm_holds:
  assumes "calm b oid no s s'" "mode_holds b oid no m s"
  shows "mode_holds b oid no m s'"
proof -
  have "has_status s' oid (\<lambda>st. st = OrderStatusRefunding)" if "snd m \<noteq> Idle"
    using assms that calm_has_status [OF assms(1)] by (simp add: mode_holds_def taken_status_def)
  then show ?thesis using assms calm_has_order [OF assms(1)] by (auto simp: mode_holds_def calm_def)
qed

lemma calm_same: "rows_ok oid no s \<Longrightarrow> rd_orders s' = rd_orders s \<Longrightarrow> rd_gateway s' = rd_gateway s \<Longrightarrow> calm b oid no s s'"
  by (auto simp: calm_def rows_ok_def counted_def paid_back_def)

lemma rows_map:
  assumes "rows_ok oid no s" "rd_orders s' = map g (rd_orders s)" "keeps_key g"
  shows "rows_ok oid no s'"
proof -
  have "od_ID \<circ> g = od_ID" using assms(3) by (auto simp: keeps_key_def)
  then show ?thesis using assms by (simp add: rows_ok_def keeps_key_def)
qed

lemma calm_map:
  assumes "rows_ok oid no s" "rd_orders s' = map g (rd_orders s)" "keeps_key g" "rd_gateway s' = rd_gateway s"
    and "\<And>r. r \<in> set (rd_orders s) \<Longrightarrow> od_ID r = oid \<Longrightarrow> taken_status (od_Status r) \<Longrightarrow> od_Status (g r) = od_Status r"
  shows "calm b oid no s s'"
  using assms rows_map [OF assms(1-3)] by (auto simp: calm_def keeps_key_def counted_def paid_back_def)

section \<open>Statements\<close>

definition orders_kept :: "refund_db \<Rightarrow> refund_db \<Rightarrow> bool" where
  "orders_kept s s' \<longleftrightarrow> rd_orders s' = rd_orders s \<and> rd_gateway s' = rd_gateway s"

lemma orders_kept_simps [simp]: "orders_kept s s"
  by (simp add: orders_kept_def)

lemma kept_insert: "insert_audit i act operator d s = Inr s' \<Longrightarrow> orders_kept s s'"
  by (auto simp: insert_audit_def orders_kept_def split: if_splits)

lemma kept_deduct: "deductRefundBalance lib uid x full s = (s', r) \<Longrightarrow> orders_kept s s'"
  by (auto simp: deductRefundBalance_def DeductAvailableBalanceExact_def DeductAvailableBalance_def orders_kept_def Let_def
      split: if_splits option.splits)

lemma kept_restore: "RestoreRefundBalance lib uid x s = Inr s' \<Longrightarrow> orders_kept s s'"
  by (auto simp: RestoreRefundBalance_def orders_kept_def split: if_splits)

lemma kept_sub: "sub_exec q s = Inr s' \<Longrightarrow> orders_kept s s'"
  by (auto simp: sub_exec_def orders_kept_def split: option.splits)

lemma kept_trans: "orders_kept s s' \<Longrightarrow> orders_kept s' s'' \<Longrightarrow> orders_kept s s''"
  by (simp add: orders_kept_def)

lemma kept_final_deduction: "applyRefundFinalDeduction lib p s = Inr (s', x) \<Longrightarrow> orders_kept s s'"
  by (auto simp: applyRefundFinalDeduction_def Let_def split: if_splits prod.splits sum.splits
      dest!: kept_deduct kept_sub dest: kept_trans)

lemma kept_return: "returnHeldRefundDeduction lib p s = Inr s' \<Longrightarrow> orders_kept s s'"
  by (auto simp: returnHeldRefundDeduction_def split: if_splits sum.splits dest: kept_restore kept_sub)

definition touches_orders :: "refund_stmt \<Rightarrow> bool" where
  "touches_orders c = (case c of R_Update p f \<Rightarrow> True | R_UpdateOne i f \<Rightarrow> True | R_PendingTx i d f \<Rightarrow> True | R_Gateway req \<Rightarrow> True
     | R_FinishTx p \<Rightarrow> True | R_FailTx p g e \<Rightarrow> True | _ \<Rightarrow> False)"

lemma kept_effect: "\<not> touches_orders c \<Longrightarrow> orders_kept s (fst (refund_effect lib c s))"
  by (cases c) (auto simp: touches_orders_def unit_ans_def deduct_ans_def split: sum.splits prod.splits
      dest: kept_insert kept_deduct kept_restore kept_sub)

lemma calm_kept: "rows_ok oid no s \<Longrightarrow> orders_kept s s' \<Longrightarrow> calm b oid no s s'"
  by (auto simp: orders_kept_def intro: calm_same)

lemma keeps_key_if: "keeps_key f \<Longrightarrow> keeps_key (\<lambda>r. if p r then (f r)\<lparr>od_UpdatedAt := t\<rparr> else r)"
  by (simp add: keeps_key_def)

lemma calm_update:
  assumes "rows_ok oid no s" "keeps_key f" "\<And>r. r \<in> set (rd_orders s) \<Longrightarrow> p r \<Longrightarrow> od_ID r = oid \<Longrightarrow> \<not> taken_status (od_Status r)"
  shows "calm b oid no s (update_orders p f s)"
  by (rule calm_map [OF assms(1) _ keeps_key_if [OF assms(2), of p]]) (use assms(3) in \<open>auto simp: update_orders_def\<close>)

lemma order_count_0: "order_count p s = 0 \<longleftrightarrow> (\<forall>r\<in>set (rd_orders s). \<not> p r)"
  by (simp add: order_count_def filter_empty_conv)

lemma unique_row: "rows_ok oid no s \<Longrightarrow> r \<in> set (rd_orders s) \<Longrightarrow> r' \<in> set (rd_orders s) \<Longrightarrow> od_ID r = od_ID r' \<Longrightarrow> r = r'"
  unfolding rows_ok_def by (meson distinct_map inj_onD)

lemma claimed_row:
  assumes "rows_ok oid no s" "order_count (claim_pending i) s \<noteq> 0" "r \<in> set (rd_orders s)" "od_ID r = i"
  shows "od_Status r = OrderStatusRefundPending"
proof -
  obtain r' where "r' \<in> set (rd_orders s)" "claim_pending i r'" using assms(2) by (auto simp: order_count_0)
  then show ?thesis using unique_row [OF assms(1,3)] assms(4) by (auto simp: claim_pending_def)
qed

lemma not_taken: "\<not> taken_status OrderStatusRefundPending" "refundable st \<Longrightarrow> \<not> taken_status st"
  by (auto simp: taken_status_def refundable_def order_statuses)

lemma calm_trans_kept: "calm b oid no s s' \<Longrightarrow> orders_kept s' s'' \<Longrightarrow> calm b oid no s s''"
  by (auto simp: calm_def orders_kept_def rows_ok_def counted_def paid_back_def)

lemma calm_fail:
  assumes "rows_ok oid no s" "fail_tx lib p g e s = (s', a)"
  shows "calm b oid no s s'"
proof (cases "order_count (claim_pending (rp_OrderID p)) s = 0")
  case True
  then show ?thesis using assms by (simp add: fail_tx_def calm_same)
next
  case False
  define s1 where "s1 = update_orders (claim_pending (rp_OrderID p))
      (\<lambda>r. r\<lparr>od_Status := OrderStatusRefundFailed, od_FailedAt := Some (rd_clock s), od_FailedReason := Some (pl_error lib g)\<rparr>) s"
  have "calm b oid no s s1" unfolding s1_def
    by (rule calm_update) (auto simp: assms keeps_key_def claim_pending_def not_taken)
  moreover have "s' = s \<or> orders_kept s1 s'"
    using assms(2) False unfolding fail_tx_def s1_def [symmetric]
    by (auto simp: Let_def split: sum.splits if_splits option.splits dest!: kept_return kept_insert dest: kept_trans)
  ultimately show ?thesis using calm_same [OF assms(1)] calm_trans_kept by blast
qed

lemma calm_finish:
  assumes "rows_ok oid no s" "finish_tx lib p s = (s', a)"
  shows "calm b oid no s s'"
proof (cases "order_count (claim_pending (rp_OrderID p)) s = 0")
  case True
  then show ?thesis using assms by (simp add: finish_tx_def calm_same)
next
  case False
  define s1 where "s1 = update_orders (claim_pending (rp_OrderID p)) (\<lambda>r. r\<lparr>od_Status := OrderStatusRefunding\<rparr>) s"
  consider "s' = s" | s2 where "orders_kept s1 s2"
      "orders_kept (update_orders (\<lambda>r. od_ID r = rp_OrderID p) (mark_refunded p (rd_clock s2)) s2) s'"
    using assms(2) False unfolding finish_tx_def s1_def [symmetric]
    by (auto split: sum.splits prod.splits if_splits dest!: kept_final_deduction kept_insert)
  then show ?thesis
  proof cases
    case 1
    then show ?thesis using calm_same [OF assms(1)] by simp
  next
    case 2
    define g where "g = (\<lambda>r. (if od_ID r = rp_OrderID p then (mark_refunded p (rd_clock s2) r)\<lparr>od_UpdatedAt := rd_clock s2\<rparr> else r)) \<circ>
      (\<lambda>r. if claim_pending (rp_OrderID p) r then r\<lparr>od_Status := OrderStatusRefunding, od_UpdatedAt := rd_clock s\<rparr> else r)"
    show ?thesis
    proof (rule calm_map [OF assms(1), of _ g])
      show "rd_orders s' = map g (rd_orders s)"
        using 2 by (simp add: orders_kept_def update_orders_def s1_def g_def)
      show "keeps_key g" by (simp add: keeps_key_def g_def mark_refunded_def)
      show "rd_gateway s' = rd_gateway s" using 2 by (simp add: orders_kept_def update_orders_def s1_def)
      show "od_Status (g r) = od_Status r" if "r \<in> set (rd_orders s)" "od_ID r = oid" "taken_status (od_Status r)" for r
        using claimed_row [OF assms(1) False that(1)] that not_taken by (auto simp: g_def claim_pending_def)
    qed
  qed
qed

section \<open>Execution\<close>

text \<open>With \<open>b\<close> the reply of the gateway arrives, or the request was lost.\<close>

definition prompt :: "bool \<Rightarrow> refund_stmt \<Rightarrow> pay_fault \<Rightarrow> pay_fault" where
  "prompt b c f = (case (c, f) of (R_Gateway req, Unacked e) \<Rightarrow> (if b then Lost e else f) | _ \<Rightarrow> f)"

definition refund_run :: "bool \<Rightarrow> pay_lib \<Rightarrow> pay_fault \<Rightarrow> refund_stmt \<Rightarrow> refund_db \<Rightarrow> refund_db \<times> refund_ans" where
  "refund_run b lib f c s = refund_exec lib (prompt b c f) c s"

lemma refund_run_cases:
  assumes "refund_run b lib f c s = (s', a)"
  obtains (failed) n e where "s' = s" "a = B_Err n e"
    | (up) "refund_effect lib c s = (s', a)"
    | (unacked) n e where "s' = fst (refund_effect lib c s)" "a = B_Err n e" "\<And>req. c = R_Gateway req \<Longrightarrow> \<not> b"
  using assms
  by (cases "prompt b c f") (auto simp: refund_run_def refund_exec_def prompt_def split: if_splits refund_stmt.splits pay_fault.splits)

lemma refund_run_state: "refund_run b lib f c s = (s', a) \<Longrightarrow> s' = s \<or> s' = fst (refund_effect lib c s)"
  by (erule refund_run_cases) simp_all

definition owner_stmt :: "int \<Rightarrow> string \<Rightarrow> refund_stmt \<Rightarrow> bool" where
  "owner_stmt oid no c = (case c of R_UpdateOne i f \<Rightarrow> i = oid | R_PendingTx i d f \<Rightarrow> i = oid | R_Gateway req \<Rightarrow> gq_OrderID req = no | _ \<Rightarrow> False)"

lemma counted_append: "counted b no (s\<lparr>rd_gateway := rd_gateway s @ [(req, rep)]\<rparr>) =
    counted b no s @ (if b \<and> gq_OrderID req = no \<and> accepted rep then [(req, rep)] else [])"
  by (simp add: counted_def paid_back_def)

lemma calm_effect:
  assumes rows: "rows_ok oid no s" and may: "refund_may oid m c" and "\<not> owner_stmt oid no c"
  shows "calm b oid no s (fst (refund_effect lib c s))"
proof (cases "touches_orders c")
  case False
  then show ?thesis using kept_effect calm_kept [OF rows] by blast
next
  case True
  have same: "calm b oid no s s" using calm_same [OF rows] by simp
  show ?thesis
  proof (cases c)
    case (R_Update p f)
    have "calm b oid no s (update_orders p f s)"
      by (rule calm_update [OF rows]) (use may R_Update not_taken(2) in \<open>auto simp: refund_may_def\<close>)
    then show ?thesis using R_Update by simp
  next
    case (R_UpdateOne i f)
    have "calm b oid no s (update_orders (\<lambda>r. od_ID r = i) f s)"
      by (rule calm_update [OF rows]) (use may assms(3) R_UpdateOne in \<open>auto simp: refund_may_def owner_stmt_def\<close>)
    then show ?thesis using R_UpdateOne same by simp
  next
    case (R_PendingTx i d f)
    have "calm b oid no s (update_orders (\<lambda>r. od_ID r = i) f s)"
      by (rule calm_update [OF rows]) (use may assms(3) R_PendingTx in \<open>auto simp: refund_may_def owner_stmt_def\<close>)
    then show ?thesis using R_PendingTx same by (auto simp: pending_tx_def split: sum.splits dest!: kept_insert intro: calm_trans_kept)
  next
    case (R_Gateway req)
    then show ?thesis using rows assms(3) by (auto simp: calm_def counted_append owner_stmt_def rows_ok_def)
  next
    case (R_FinishTx p)
    then show ?thesis using calm_finish [OF rows] by (metis prod.collapse refund_effect.simps(19))
  next
    case (R_FailTx p g e)
    then show ?thesis using calm_fail [OF rows] by (metis prod.collapse refund_effect.simps(20))
  qed (use True in \<open>auto simp: touches_orders_def\<close>)
qed

lemma calm_run:
  assumes "rows_ok oid no s" "refund_may oid m c" "\<not> owner_stmt oid no c" "refund_run b lib f c s = (s', a)"
  shows "calm b oid no s s'"
  using refund_run_state [OF assms(4)] calm_effect [OF assms(1-3)] calm_same [OF assms(1)] by metis

section \<open>Steps of the owner\<close>

lemma inv_rows: "once_inv b oid no s \<Longrightarrow> rows_ok oid no s"
  by (simp add: once_inv_def)

lemma owner_not_idle:
  assumes "once_inv b oid no s" "mode_holds b oid no m s" "refund_may oid m c" "owner_stmt oid no c"
  shows "snd m \<noteq> Idle"
proof (cases c)
  case (R_Gateway req)
  with assms obtain i where i: "(i, no) \<in> fst m" "i = oid \<longrightarrow> snd m = Locked" by (auto simp: refund_may_def owner_stmt_def)
  then have "has_order s i no" using assms(2) by (auto simp: mode_holds_def)
  then have "i = oid" using inv_rows [OF assms(1)] by (auto simp: has_order_def rows_ok_def)
  with i show ?thesis by simp
qed (use assms in \<open>auto simp: refund_may_def owner_stmt_def\<close>)

text \<open>The effect of a statement of the owner: rows keep their keys, and only a request adds to the log.\<close>

definition rekeyed :: "refund_db \<Rightarrow> refund_db \<Rightarrow> bool" where
  "rekeyed s s' \<longleftrightarrow> (\<exists>g. keeps_key g \<and> rd_orders s' = map g (rd_orders s))"

lemma rekeyed_same [simp]: "rd_orders s' = rd_orders s \<Longrightarrow> rekeyed s s'"
  unfolding rekeyed_def by (rule exI [of _ "\<lambda>r. r"]) (simp add: keeps_key_def)

lemma rekeyed_update: "keeps_key f \<Longrightarrow> rekeyed s (update_orders p f s)"
  unfolding rekeyed_def update_orders_def
  by (rule exI [of _ "\<lambda>r. if p r then (f r)\<lparr>od_UpdatedAt := rd_clock s\<rparr> else r"]) (simp add: keeps_key_if)

lemma rekeyed_kept: "rekeyed s s' \<Longrightarrow> orders_kept s' s'' \<Longrightarrow> rekeyed s s''"
  by (simp add: rekeyed_def orders_kept_def)

lemma rekeyed_rows: "rekeyed s s' \<Longrightarrow> rows_ok oid no s \<Longrightarrow> rows_ok oid no s'"
  unfolding rekeyed_def using rows_map by blast

lemma rekeyed_has_order: "rekeyed s s' \<Longrightarrow> has_order s i n \<Longrightarrow> has_order s' i n"
  by (auto simp: rekeyed_def has_order_def keeps_key_def)

lemma owner_rekeyed:
  assumes "refund_may oid m c" "owner_stmt oid no c"
  shows "rekeyed s (fst (refund_effect lib c s))"
proof (cases c)
  case (R_UpdateOne i f)
  then show ?thesis using assms by (auto simp: refund_may_def intro: rekeyed_update)
next
  case (R_PendingTx i d f)
  then show ?thesis using assms
    by (auto simp: refund_may_def pending_tx_def split: sum.splits dest!: kept_insert intro: rekeyed_kept rekeyed_update)
qed (use assms in \<open>auto simp: owner_stmt_def\<close>)

lemma run_rekeyed:
  "refund_may oid m c \<Longrightarrow> owner_stmt oid no c \<Longrightarrow> refund_run b lib f c s = (s', a) \<Longrightarrow> rekeyed s s'"
  by (drule refund_run_state) (auto intro: owner_rekeyed)

lemma update_counted [simp]: "counted b no (update_orders p f s) = counted b no s"
  by (simp add: counted_def paid_back_def update_orders_def)

lemma kept_counted: "orders_kept s s' \<Longrightarrow> counted b no s' = counted b no s"
  by (simp add: counted_def paid_back_def orders_kept_def)

lemma pending_counted [simp]: "counted b no (fst (pending_tx i d f s)) = counted b no s"
  by (auto simp: pending_tx_def split: sum.splits dest!: kept_insert dest: kept_counted)

lemma update_one_counted [simp]: "counted b no (fst (refund_effect lib (R_UpdateOne i f) s)) = counted b no s"
  by simp

text \<open>The status of the order after a statement of the owner.\<close>

lemma owner_taken:
  assumes "mode_holds b oid no m s" "refund_may oid m c" "owner_stmt oid no c" "snd m = Won" "s' = fst (refund_effect lib c s)"
  shows "has_status s' oid taken_status"
proof -
  have locked: "has_status s oid (\<lambda>st. st = OrderStatusRefunding)" using assms by (simp add: mode_holds_def)
  then have taken: "has_status s oid taken_status" by (auto simp: has_status_def taken_status_def)
  show ?thesis
  proof (cases c)
    case (R_UpdateOne i f)
    then have f: "\<forall>r. od_ID (f r) = od_ID r \<and> taken_status (od_Status (f r))" "i = oid"
      using assms by (auto simp: refund_may_def owner_stmt_def keeps_key_def)
    from taken obtain r where r: "r \<in> set (rd_orders s)" "od_ID r = oid" by (auto simp: has_status_def)
    then have "(f r)\<lparr>od_UpdatedAt := rd_clock s\<rparr> \<in> set (rd_orders (update_orders (\<lambda>r. od_ID r = i) f s))"
      using f(2) by (auto simp: update_orders_def)
    then have "has_status (update_orders (\<lambda>r. od_ID r = i) f s) oid taken_status"
      unfolding has_status_def by (rule bexI [rotated]) (simp add: f r)
    then show ?thesis using R_UpdateOne assms(5) taken by simp
  qed (use assms taken in \<open>auto simp: refund_may_def owner_stmt_def has_status_def\<close>)
qed

lemma owner_inv:
  assumes inv: "once_inv b oid no s" and holds: "mode_holds b oid no m s" and may: "refund_may oid m c"
    and owner: "owner_stmt oid no c" and exec: "refund_run b lib f c s = (s', a)"
  shows "once_inv b oid no s'"
proof (cases "s' = s")
  case True
  then show ?thesis using inv by simp
next
  case False
  then have s': "s' = fst (refund_effect lib c s)" using refund_run_state [OF exec] by simp
  note keys = run_rekeyed [OF may owner exec]
  have base: "no \<noteq> ''''" "rows_ok oid no s'" "has_order s' oid no"
    using inv rekeyed_rows [OF keys] rekeyed_has_order [OF keys] by (simp_all add: once_inv_def)
  have log: "counted b no s' = counted b no s" if "\<And>req. c \<noteq> R_Gateway req"
    using that owner by (cases c) (simp_all add: s' owner_stmt_def del: refund_effect.simps(7), auto)
  show ?thesis
  proof (cases "\<exists>req. c = R_Gateway req")
    case True
    then obtain req where req: "c = R_Gateway req" by blast
    have "snd m = Locked" using owner_not_idle [OF inv holds may owner] may owner req inv holds
      by (cases "snd m") (auto simp: refund_may_def owner_stmt_def mode_holds_def once_inv_def rows_ok_def has_order_def)
    then have "counted b no s = []" "has_status s oid (\<lambda>st. st = OrderStatusRefunding)" using holds by (simp_all add: mode_holds_def)
    then show ?thesis using base s' req by (auto simp: once_inv_def counted_append has_status_def taken_status_def)
  next
    case False
    then have log: "counted b no s' = counted b no s" using log by blast
    show ?thesis
    proof (cases "snd m")
      case Won
      then show ?thesis using base log inv owner_taken [OF holds may owner Won s'] by (simp add: once_inv_def)
    next
      case Locked
      then show ?thesis using base log holds by (simp add: once_inv_def mode_holds_def)
    qed (use owner_not_idle [OF inv holds may owner] in simp)
  qed
qed

lemma owner_facts:
  assumes "mode_holds b oid no m' s" "snd m' = Idle" "rekeyed s s'"
  shows "mode_holds b oid no m' s'"
  using assms rekeyed_has_order [OF assms(3)] by (auto simp: mode_holds_def)

lemma owner_holds:
  assumes inv: "once_inv b oid no s" and holds: "mode_holds b oid no m s" and may: "refund_may oid m c"
    and owner: "owner_stmt oid no c" and exec: "refund_run b lib f c s = (s', a)"
  shows "mode_holds b oid no (refund_succ oid no m c a) s'"
proof -
  have facts: "\<forall>(i, n)\<in>fst m. has_order s' i n"
    using holds rekeyed_has_order [OF run_rekeyed [OF may owner exec]] by (auto simp: mode_holds_def)
  show ?thesis
  proof (cases c)
    case (R_Gateway req)
    have locked: "snd m = Locked" using owner_not_idle [OF inv holds may owner] may owner R_Gateway inv holds
      by (cases "snd m") (auto simp: refund_may_def owner_stmt_def mode_holds_def once_inv_def rows_ok_def has_order_def)
    then have old: "counted b no s = []" "has_status s oid (\<lambda>st. st = OrderStatusRefunding)" using holds by (simp_all add: mode_holds_def)
    have orders: "rd_orders s' = rd_orders s" using refund_run_state [OF exec] R_Gateway by auto
    have "counted b no s' = []" if "\<not> accepted (reply_of a)"
      using exec
    proof (cases rule: refund_run_cases)
      case up
      then show ?thesis using that old R_Gateway
        by (auto simp: counted_append reply_of_def split: prod.splits)
    next
      case unacked
      then show ?thesis using R_Gateway by (auto simp: counted_def)
    qed (use old in simp)
    then show ?thesis using facts old orders R_Gateway locked owner
      by (auto simp: refund_succ_def mode_holds_def has_status_def owner_stmt_def)
  qed (use owner facts in \<open>auto simp: owner_stmt_def refund_succ_def mode_holds_def\<close>)
qed

lemma lock_taken:
  assumes "rows_ok oid no s" "refund_run b lib f (lock_stmt oid) s = (s', B_Count n)" "n \<noteq> 0"
  shows "\<exists>r\<in>set (rd_orders s). od_ID r = oid \<and> refundable (od_Status r)" "has_status s' oid (\<lambda>st. st = OrderStatusRefunding)"
proof -
  from assms(2) have up: "s' = update_orders (\<lambda>r. od_ID r = oid \<and> refundable (od_Status r)) (\<lambda>r. r\<lparr>od_Status := OrderStatusRefunding\<rparr>) s"
      "n = order_count (\<lambda>r. od_ID r = oid \<and> refundable (od_Status r)) s"
    by (cases rule: refund_run_cases; simp add: lock_stmt_def)+
  from up(2) assms(3) obtain r where r: "r \<in> set (rd_orders s)" "od_ID r = oid" "refundable (od_Status r)"
    by (auto simp: order_count_0)
  then show "\<exists>r\<in>set (rd_orders s). od_ID r = oid \<and> refundable (od_Status r)" by blast
  show "has_status s' oid (\<lambda>st. st = OrderStatusRefunding)"
  proof -
    have "r\<lparr>od_Status := OrderStatusRefunding, od_UpdatedAt := rd_clock s\<rparr> \<in> set (rd_orders s')"
      using r unfolding up(1) by (simp add: update_orders_def image_iff) (use r in fastforce)
    then show ?thesis unfolding has_status_def by (rule bexI [rotated]) (simp add: r)
  qed
qed

lemma succ_lock: "refund_succ oid no m (lock_stmt oid) (B_Count n) = (fst m, if snd m = Idle \<and> n \<noteq> 0 then Locked else snd m)"
  by (simp add: refund_succ_def lock_stmt_def)

lemma not_locked:
  assumes "rows_ok oid no s" "r \<in> set (rd_orders s)" "od_ID r = oid" "refundable (od_Status r)"
  shows "\<not> has_status s oid taken_status"
proof
  assume "has_status s oid taken_status"
  then obtain r' where "r' \<in> set (rd_orders s)" "od_ID r' = oid" "taken_status (od_Status r')" by (auto simp: has_status_def)
  moreover from this have "r' = r" using unique_row [OF assms(1)] assms by simp
  ultimately show False using not_taken(2) assms(4) by simp
qed

lemma locked_taken: "has_status s oid (\<lambda>st. st = OrderStatusRefunding) \<Longrightarrow> has_status s oid taken_status"
  by (auto simp: has_status_def taken_status_def)

lemma calm_succ_holds:
  assumes inv: "once_inv b oid no s" and holds: "mode_holds b oid no m s" and may: "refund_may oid m c"
    and other: "\<not> owner_stmt oid no c" and exec: "refund_run b lib f c s = (s', a)"
  shows "mode_holds b oid no (refund_succ oid no m c a) s'"
proof -
  note rows = inv_rows [OF inv]
  note calm = calm_run [OF rows may other exec]
  have m: "mode_holds b oid no m s'" using calm_holds [OF calm holds] .
  show ?thesis
  proof (cases c)
    case (R_GetOrder i)
    have "has_order s' (od_ID r) (od_OutTradeNo r)" if "a = B_Order r" for r
      using exec that R_GetOrder
      by (cases rule: refund_run_cases) (auto simp: answer_one_def has_order_def dest!: only_in split: sum.splits)
    then show ?thesis using m R_GetOrder by (auto simp: refund_succ_def mode_holds_def split: refund_ans.splits)
  next
    case (R_Update p g)
    show ?thesis
    proof (cases "snd m = Idle \<and> c = lock_stmt oid \<and> (\<exists>n. a = B_Count n \<and> n \<noteq> 0)")
      case True
      then obtain n where n: "a = B_Count n" "n \<noteq> 0" "c = lock_stmt oid" by blast
      from lock_taken [OF rows] exec n have lock: "has_status s' oid (\<lambda>st. st = OrderStatusRefunding)"
        and "\<exists>r\<in>set (rd_orders s). od_ID r = oid \<and> refundable (od_Status r)" by metis+
      with inv not_locked [OF rows] have "counted b no s = []" by (auto simp: once_inv_def)
      then have "counted b no s' = []" using calm by (simp add: calm_def)
      moreover have "refund_succ oid no m c a = (fst m, Locked)" using True n by (simp add: succ_lock)
      ultimately show ?thesis using m lock by (simp add: mode_holds_def)
    next
      case False
      then show ?thesis using m R_Update by (auto simp: refund_succ_def mode_holds_def)
    qed
  qed (use m other in \<open>auto simp: refund_succ_def owner_stmt_def\<close>)
qed

section \<open>The handlers as an interpretation of ownership\<close>

abbreviation idle_mode :: "refund_mode \<Rightarrow> bool" where
  "idle_mode m \<equiv> snd m = Idle"

lemma refund_own_inv:
  "once_inv b oid no s \<Longrightarrow> mode_holds b oid no m s \<Longrightarrow> refund_may oid m c \<Longrightarrow> refund_run b lib f c s = (s', a) \<Longrightarrow> once_inv b oid no s'"
  by (cases "owner_stmt oid no c") (blast intro: owner_inv, blast intro: calm_inv calm_run inv_rows)

lemma refund_own_holds:
  "once_inv b oid no s \<Longrightarrow> mode_holds b oid no m s \<Longrightarrow> refund_may oid m c \<Longrightarrow> refund_run b lib f c s = (s', a) \<Longrightarrow>
    mode_holds b oid no (refund_succ oid no m c a) s'"
  by (cases "owner_stmt oid no c") (blast intro: owner_holds, blast intro: calm_succ_holds)

lemma refund_other_holds:
  assumes "once_inv b oid no s" "mode_holds b oid no m s" "refund_may oid m c" "refund_run b lib f c s = (s', a)"
    and "mode_holds b oid no m' s" "idle_mode m \<or> idle_mode m'"
  shows "mode_holds b oid no m' s'"
proof (cases "owner_stmt oid no c")
  case True
  with assms owner_not_idle have "idle_mode m'" by blast
  then show ?thesis using owner_facts [OF assms(5)] run_rekeyed [OF assms(3) True assms(4)] by blast
next
  case False
  then show ?thesis using calm_holds [OF calm_run [OF inv_rows [OF assms(1)] assms(3) _ assms(4)] assms(5)] by blast
qed

lemma refund_other_idle:
  assumes inv: "once_inv b oid no s" and "mode_holds b oid no m s" "refund_may oid m c" and exec: "refund_run b lib f c s = (s', a)"
    and other: "mode_holds b oid no m' s" and idle: "idle_mode m" "\<not> idle_mode m'"
  shows "idle_mode (refund_succ oid no m c a)"
proof (rule ccontr)
  assume "\<not> idle_mode (refund_succ oid no m c a)"
  then obtain n where n: "c = lock_stmt oid" "a = B_Count n" "n \<noteq> 0"
    using idle(1) by (auto simp: refund_succ_def split: refund_stmt.splits refund_ans.splits if_splits)
  note rows = inv_rows [OF inv]
  from lock_taken(1) [OF rows] exec n have "\<exists>r\<in>set (rd_orders s). od_ID r = oid \<and> refundable (od_Status r)" by metis
  then have "\<not> has_status s oid taken_status" using not_locked [OF rows] by blast
  then show False using other idle(2) locked_taken by (auto simp: mode_holds_def)
qed

text \<open>The environment: time, users, audit rows and providers change, orders are created with a fresh
  number, and the payment service moves orders that are not settled.\<close>

inductive refund_env :: "refund_db \<Rightarrow> refund_db \<Rightarrow> bool" where
  outside: "rd_orders s' = rd_orders s \<Longrightarrow> rd_gateway s' = rd_gateway s \<Longrightarrow> refund_env s s'"
| created: "od_ID r \<notin> od_ID ` set (rd_orders s) \<Longrightarrow> od_OutTradeNo r = '''' \<or> od_OutTradeNo r \<notin> od_OutTradeNo ` set (rd_orders s) \<Longrightarrow>
    refund_env s (s\<lparr>rd_orders := rd_orders s @ [r]\<rparr>)"
| payment: "keeps_key f \<Longrightarrow> refund_env s (s\<lparr>rd_orders := map (\<lambda>r. if settled (od_Status r) then r else f r) (rd_orders s)\<rparr>)"

lemma taken_settled: "taken_status st \<Longrightarrow> settled st"
  by (auto simp: taken_status_def settled_def psIsRefundStatus_def)

lemma refund_env_calm:
  assumes "refund_env s s'" "once_inv b oid no s"
  shows "calm b oid no s s'"
  using assms
proof (induction rule: refund_env.induct)
  case (outside s' s)
  then show ?case using calm_same inv_rows by blast
next
  case (created r s)
  then have "od_ID r \<noteq> oid \<and> od_OutTradeNo r \<noteq> no" by (auto simp: once_inv_def has_order_def)
  then show ?case using created inv_rows [OF created.prems] by (auto simp: calm_def rows_ok_def counted_def paid_back_def)
next
  case (payment f s)
  then show ?case
    by (intro calm_map [OF inv_rows [OF payment.prems], of _ "\<lambda>r. if settled (od_Status r) then r else f r"])
      (auto simp: keeps_key_def dest: taken_settled)
qed

section \<open>The handlers follow the modes\<close>

abbreviation rfollows where
  "rfollows oid no \<equiv> follows (refund_may oid) (\<lambda>c a. True) (refund_succ oid no)"

definition free_stmt :: "refund_stmt \<Rightarrow> bool" where
  "free_stmt c = (case c of R_GetOrder i \<Rightarrow> False | R_Update p f \<Rightarrow> False | R_UpdateOne i f \<Rightarrow> False | R_PendingTx i d f \<Rightarrow> False
     | R_Gateway req \<Rightarrow> False | _ \<Rightarrow> True)"

lemma free_simps [simp]: "free_stmt R_Now" "free_stmt (R_GetUser uid)" "free_stmt (R_GetInstance i)" "free_stmt (R_ListInstances q)"
  "free_stmt (R_Audit i act operator)" "free_stmt (R_HasAudit i act)" "free_stmt (R_PendingAudit i)" "free_stmt (R_Deduct uid x full)"
  "free_stmt (R_Restore uid x)" "free_stmt (R_Sub q')" "free_stmt (R_ActiveSub uid gid)" "free_stmt (R_Provider inst)"
  "free_stmt (R_Query q'')" "free_stmt (R_FinishTx p)" "free_stmt (R_FailTx p g e)"
  by (simp_all add: free_stmt_def)

lemma free_keeps [simp]: "free_stmt c \<Longrightarrow> refund_may oid m c" "free_stmt c \<Longrightarrow> refund_succ oid no m c a = m"
  by (cases c; simp add: free_stmt_def refund_may_def refund_succ_def)+

lemma follows_audit [simp]: "rfollows oid no (r_audit i act operator k) m Q \<longleftrightarrow> rfollows oid no k m Q"
  by (simp add: r_audit_def)

lemma follows_now: "(\<And>t. rfollows oid no (k t) m Q) \<Longrightarrow> rfollows oid no (r_now k) m Q"
  by (simp add: r_now_def)

lemma follows_user: "(\<And>e. rfollows oid no (h e) m Q) \<Longrightarrow> (\<And>u. rfollows oid no (k u) m Q) \<Longrightarrow> rfollows oid no (r_get_user uid h k) m Q"
  by (auto simp: r_get_user_def split: refund_ans.splits)

lemma follows_has_audit: "(\<And>x. rfollows oid no (k x) m Q) \<Longrightarrow> rfollows oid no (r_has_audit i act k) m Q"
  by (simp add: r_has_audit_def)

lemma follows_order:
  assumes "\<And>e. rfollows oid no (h e) m Q" "\<And>od. rfollows oid no (k od) (insert (od_ID od, od_OutTradeNo od) (fst m), snd m) Q"
  shows "rfollows oid no (r_get_order i h k) m Q"
  using assms by (auto simp: r_get_order_def refund_may_def refund_succ_def split: refund_ans.splits)

text \<open>Programs without statements on orders keep the mode.\<close>

lemma follows_instance: "(\<And>r. Q r m) \<Longrightarrow> rfollows oid no (r_instance i) m Q"
  by (simp add: r_instance_def)

lemma follows_snapshot_instance: "(\<And>r. Q r m) \<Longrightarrow> rfollows oid no (resolveSnapshotOrderProviderInstance od sn) m Q"
  by (auto simp: resolveSnapshotOrderProviderInstance_def Let_def intro!: follows_instance split: option.splits)

lemma follows_refund_instance: "(\<And>r. Q r m) \<Longrightarrow> rfollows oid no (getRefundOrderProviderInstance od) m Q"
  by (auto simp: getRefundOrderProviderInstance_def Let_def intro!: follows_instance follows_snapshot_instance split: option.splits)

lemma follows_provider: "(\<And>r. Q r m) \<Longrightarrow> rfollows oid no (getRefundProvider od) m Q"
  by (auto simp: getRefundProvider_def intro!: follows_refund_instance split: sum.splits option.splits)

lemma follows_pending: "(\<And>r. Q r m) \<Longrightarrow> rfollows oid no (latestRefundPendingDetail i) m Q"
  by (simp add: latestRefundPendingDetail_def)

lemma follows_prepDeduct:
  assumes "\<And>w. Q (Inl w) m"
    and "\<And>p'. rp_OrderID p' = rp_OrderID p \<Longrightarrow> rp_Order p' = rp_Order p \<Longrightarrow> Q (Inr p') m"
  shows "rfollows oid no (prepDeduct od p force) m Q"
  using assms by (auto simp: prepDeduct_def Let_def intro!: follows_user split: option.splits refund_ans.splits)

definition planned :: "int \<Rightarrow> RefundPlan \<Rightarrow> refund_mode \<Rightarrow> bool" where
  "planned oid p m \<longleftrightarrow> (rp_OrderID p, od_OutTradeNo (rp_Order p)) \<in> fst m \<and> (rp_OrderID p = oid \<longrightarrow> snd m = Locked)"

lemma follows_update_one:
  assumes "keeps_key f" "i = oid \<longrightarrow> snd m = Locked \<or> snd m = Won \<and> (\<forall>r. taken_status (od_Status (f r)))"
    and "\<And>a m'. rfollows oid no (k a) m' Q"
  shows "rfollows oid no (Call (R_UpdateOne i f) k) m Q"
  using assms by (simp add: refund_may_def)

lemma follows_restore_checked: "planned oid p m \<Longrightarrow> (\<And>e m'. rfollows oid no (k e) m' Q) \<Longrightarrow> rfollows oid no (restoreStatusChecked p k) m Q"
  unfolding restoreStatusChecked_def by (rule follows_update_one) (auto simp: planned_def keeps_key_def)

lemma follows_restore: "planned oid p m \<Longrightarrow> (\<And>m'. rfollows oid no k m' Q) \<Longrightarrow> rfollows oid no (restoreStatus p k) m Q"
  unfolding restoreStatus_def by (rule follows_restore_checked)

lemma follows_rollback: "(\<And>ok. rfollows oid no (k ok) m Q) \<Longrightarrow> rfollows oid no (RollbackRefund p k) m Q"
  by (simp add: RollbackRefund_def Let_def)

abbreviation no_demand where "no_demand \<equiv> \<lambda>r m. True"

lemma follows_handleGwFail:
  assumes "planned oid p m"
  shows "rfollows oid no (handleGwFail lib p e) m no_demand"
proof -
  have "rfollows oid no (restoreStatus p (r_audit i act operator (Ret r))) m no_demand" for i act operator and r :: "goerror + RefundResult"
    by (rule follows_restore [OF assms]) simp
  moreover have "rfollows oid no (r_now (\<lambda>t. Call (R_UpdateOne (rp_OrderID p) (f t)) (\<lambda>_. r_audit i act operator (Ret r)))) m no_demand"
    if "\<And>t. keeps_key (f t)" for f i act operator and r :: "goerror + RefundResult"
    using assms that by (intro follows_now follows_update_one) (auto simp: planned_def)
  ultimately show ?thesis unfolding handleGwFail_def
    by (intro follows_rollback) (auto simp: keeps_key_def)
qed

lemma follows_markRefundOk:
  assumes "rp_OrderID p = oid \<longrightarrow> snd m \<noteq> Idle"
  shows "rfollows oid no (markRefundOk p) m no_demand"
proof -
  have f: "keeps_key (mark_refunded p t)" "taken_status (od_Status (mark_refunded p t r))" for t r
    by (auto simp: keeps_key_def mark_refunded_def refunded_status_def taken_status_def)
  have "snd m = Locked \<or> snd m = Won" if "rp_OrderID p = oid" using that assms by (cases "snd m") auto
  then show ?thesis unfolding markRefundOk_def
    by (intro follows_now follows_update_one f) (auto simp: f split: option.splits)
qed

lemma follows_markRefundPending: "planned oid p m \<Longrightarrow> rfollows oid no (markRefundPending p resp) m no_demand"
  by (simp add: markRefundPending_def refund_may_def planned_def keeps_key_def mark_pending_def)

text \<open>After the gateway: the plan is still owned, or the refund was accepted.\<close>

definition answered :: "int \<Rightarrow> RefundPlan \<Rightarrow> goerror + RefundResponse \<Rightarrow> refund_mode \<Rightarrow> bool" where
  "answered oid p r m \<longleftrightarrow> planned oid p m \<or>
     snd m = Won \<and> (\<exists>x. r = Inr x \<and> validateRefundProviderResponse (Some x) = None \<and> trim_space (rs_Status x) \<noteq> ProviderStatusPending)"

lemma accepted_valid:
  "accepted rep \<Longrightarrow> \<exists>x. gateway_result rep = Inr x \<and> validateRefundProviderResponse (Some x) = None \<and> trim_space (rs_Status x) \<noteq> ProviderStatusPending"
proof (cases rep)
  case (Pair resp err)
  assume "accepted rep"
  then have *: "case gateway_result (resp, err) of Inl e \<Rightarrow> False | Inr x \<Rightarrow> trim_space (rs_Status x) \<noteq> ProviderStatusPending"
    using Pair by (simp add: accepted_def)
  show ?thesis
  proof (cases resp)
    case None
    then show ?thesis using * by (cases err) (simp_all add: gateway_result_def split: option.splits)
  next
    case (Some x)
    then show ?thesis using * Pair
      by (cases err; cases "validateRefundProviderResponse (Some x)") (auto simp: gateway_result_def split: if_splits)
  qed
qed

lemma follows_gwRefund:
  assumes "planned oid p m"
  shows "rfollows oid no (gwRefund lib p) m (answered oid p)"
proof -
  have gateway: "rfollows oid no (Call (R_Gateway (refund_request lib p)) (\<lambda>a. Ret (gateway_result (reply_of a)))) m (answered oid p)"
    using assms accepted_valid by (auto simp: refund_may_def refund_succ_def refund_request_def planned_def answered_def)
  have refused: "answered oid p r m" for r using assms by (simp add: answered_def)
  show ?thesis unfolding gwRefund_def Let_def follows_and_then
    using gateway refused by (auto intro!: follows_provider split: sum.splits option.splits)
qed

lemma follows_finishRefund: "answered oid p (Inr resp) m \<Longrightarrow> rfollows oid no (finishRefund lib p resp) m no_demand"
  unfolding finishRefund_def answered_def
  by (auto simp: planned_def intro: follows_handleGwFail follows_markRefundOk follows_markRefundPending split: option.splits)

lemma follows_deduct_balance:
  assumes p: "planned oid p m" and stop: "\<And>r m'. Q (Inl r) m'"
    and go: "\<And>p' . rp_OrderID p' = rp_OrderID p \<Longrightarrow> rp_Order p' = rp_Order p \<Longrightarrow> Q (Inr p') m"
  shows "rfollows oid no (deduct_plan_balance p) m Q"
proof -
  have checked: "rfollows oid no (restoreStatusChecked p (\<lambda>e. case e of Some err \<Rightarrow> Ret (Inl (h err)) | None \<Rightarrow> Ret (Inl w))) m Q" for h w
    by (rule follows_restore_checked [OF p]) (auto simp: stop split: option.splits)
  have plain: "rfollows oid no (restoreStatus p (Ret (Inl w))) m Q" for w
    by (rule follows_restore [OF p]) (simp add: stop)
  show ?thesis unfolding deduct_plan_balance_def Let_def
    by (auto intro!: follows_has_audit checked plain go split: refund_ans.splits option.splits)
qed

lemma follows_deduct_subscription:
  assumes p: "planned oid p m" and stop: "\<And>r m'. Q (Inl r) m'"
    and go: "\<And>p' . rp_OrderID p' = rp_OrderID p \<Longrightarrow> rp_Order p' = rp_Order p \<Longrightarrow> Q (Inr p') m"
  shows "rfollows oid no (deduct_plan_subscription p) m Q"
proof -
  have plain: "rfollows oid no (restoreStatus p (Ret (Inl w))) m Q" for w
    by (rule follows_restore [OF p]) (simp add: stop)
  show ?thesis unfolding deduct_plan_subscription_def
    by (auto intro!: follows_has_audit plain go split: option.splits)
qed

lemma planned_cong: "rp_OrderID p' = rp_OrderID p \<Longrightarrow> rp_Order p' = rp_Order p \<Longrightarrow> planned oid p' m = planned oid p m"
  by (simp add: planned_def)

lemma follows_charge:
  assumes "planned oid p m"
  shows "rfollows oid no (and_then (gwRefund lib p) (\<lambda>r. case r of Inl e \<Rightarrow> handleGwFail lib p e | Inr resp \<Rightarrow> finishRefund lib p resp)) m no_demand"
proof -
  have "rfollows oid no (case r of Inl e \<Rightarrow> handleGwFail lib p e | Inr resp \<Rightarrow> finishRefund lib p resp) m' no_demand"
    if "answered oid p r m'" for r m'
    using that by (cases r) (auto simp: answered_def intro: follows_handleGwFail follows_finishRefund [unfolded answered_def])
  then show ?thesis using follows_post [OF follows_gwRefund [OF assms]] by simp
qed

text \<open>A plan made by \<open>PrepareRefund\<close>: the number of its order is known.\<close>

lemma follows_ExecuteRefund:
  assumes "(rp_OrderID p, od_OutTradeNo (rp_Order p)) \<in> fst m" "snd m = Idle"
  shows "rfollows oid no (ExecuteRefund lib p) m no_demand"
proof -
  have locked: "rfollows oid no (and_then (deduct_plan_balance p) (\<lambda>r. case r of Inl stop \<Rightarrow> Ret stop
      | Inr p \<Rightarrow> and_then (deduct_plan_subscription p) (\<lambda>r. case r of Inl stop \<Rightarrow> Ret stop
        | Inr p \<Rightarrow> and_then (gwRefund lib p) (\<lambda>r. case r of Inl e \<Rightarrow> handleGwFail lib p e | Inr resp \<Rightarrow> finishRefund lib p resp)))) m' no_demand"
    if "planned oid p m'" for m'
    unfolding follows_and_then [of _ _ _ "deduct_plan_balance p"]
    apply (rule follows_deduct_balance [OF that])
     apply simp
    apply (simp only: sum.case follows_and_then [of _ _ _ "deduct_plan_subscription _"])
    apply (rule follows_deduct_subscription)
      apply (simp add: that planned_cong)
     apply simp
    apply (simp only: sum.case)
    apply (rule follows_charge)
    apply (simp add: that planned_cong)
    done
  have plan: "planned oid p (refund_succ oid no m (lock_stmt (rp_OrderID p)) (B_Count n))" if "n \<noteq> 0" for n
    using assms that by (auto simp: planned_def succ_lock) (simp add: lock_stmt_def refund_succ_def)
  have "refund_may oid m (lock_stmt (rp_OrderID p))" by (auto simp: lock_stmt_def refund_may_def keeps_key_def)
  moreover have "rfollows oid no (case r_count a of Inl e \<Rightarrow> Ret (Inl (WrapError ''lock'' e)) | Inr c \<Rightarrow> (if c = 0 then Ret (Inl refund_conflict) else k))
      (refund_succ oid no m (lock_stmt (rp_OrderID p)) a) no_demand"
    if "\<And>m'. planned oid p m' \<Longrightarrow> rfollows oid no k m' no_demand" for a and k :: refund_outcome
    using that plan by (cases a) (auto simp: r_count_def)
  ultimately show ?thesis unfolding ExecuteRefund_def lock_stmt_def [symmetric] follows.simps(2) using locked by blast
qed

lemma follows_PrepareRefund:
  assumes "\<And>r m'. snd m' = snd m \<Longrightarrow> Q (Inl r) m'"
    and "\<And>p m'. (rp_OrderID p, od_OutTradeNo (rp_Order p)) \<in> fst m' \<Longrightarrow> snd m' = snd m \<Longrightarrow> Q (Inr p) m'"
  shows "rfollows oid no (PrepareRefund lib i amt reason force deduct) m Q"
  unfolding PrepareRefund_def
proof (rule follows_order, goal_cases)
  case (1 e)
  then show ?case using assms(1) by (simp add: bad_refund_def)
next
  case (2 od)
  let ?m = "(insert (od_ID od, od_OutTradeNo od) (fst m), snd m)"
  have stop: "Q (Inl r) ?m" "Q (bad_refund kind code msg) ?m" for r kind code msg
    using assms(1) by (simp_all add: bad_refund_def)

  have plan: "rp_OrderID (refund_plan lib od x y z w) = od_ID od" "rp_Order (refund_plan lib od x y z w) = od" for x y z w
    by (simp_all add: refund_plan_def)
  show ?case
    by (auto simp: Let_def plan intro!: stop assms(2) follows_refund_instance follows_prepDeduct split: sum.splits option.splits)
qed

lemma follows_RequestRefund: "rfollows oid no (RequestRefund i uid reason) m no_demand"
proof -
  have "rfollows oid no (validateRefundRequest i uid) m' no_demand" for m'
    unfolding validateRefundRequest_def by (intro follows_order) (auto intro!: follows_refund_instance)
  then show ?thesis unfolding RequestRefund_def follows_and_then
    by (rule follows_post) (auto intro!: follows_user follows_now simp: refund_may_def keeps_key_def refundable_def split: sum.splits)
qed

lemma follows_settle_reply: "rfollows oid no (settle_reply lib p r) m no_demand"
  by (auto simp: settle_reply_def finalizeRefundFailed_def finalizePendingRefundSuccess_def Let_def split: option.splits refund_ans.splits)

lemma follows_finalize_plan: "rfollows oid no (finalize_plan lib od d) m no_demand"
  by (auto simp: finalize_plan_def Let_def intro: follows_prepDeduct)

lemma follows_Query: "rfollows oid no (QueryAndFinalizeRefund lib i) m no_demand"
proof -
  have *: "rfollows oid no (and_then (finalize_plan lib od d) (\<lambda>r. case r of Inl early \<Rightarrow> Ret (Inr early) | Inr plan \<Rightarrow> settle_reply lib plan resp)) m' no_demand" for od d resp m'
    unfolding follows_and_then by (rule follows_post [OF follows_finalize_plan]) (auto simp: follows_settle_reply split: sum.splits)
  then have reply: "rfollows oid no (case reply_of a of (resp, Some e) \<Rightarrow> Ret (Inl (WrapError ''query refund'' e)) | (resp, None) \<Rightarrow> and_then (finalize_plan lib od d)
      (\<lambda>r. case r of Inl early \<Rightarrow> Ret (Inr early) | Inr plan \<Rightarrow> settle_reply lib plan resp)) m' no_demand" for a od d m'
    by (cases "reply_of a"; cases "snd (reply_of a)") (simp_all del: follows_and_then)
  show ?thesis unfolding QueryAndFinalizeRefund_def
    by (intro follows_order)
      (auto simp del: follows_and_then simp: follows_and_then [of _ _ _ "getRefundProvider _"] follows_and_then [of _ _ _ "latestRefundPendingDetail _"]
        intro!: follows_provider follows_pending reply split: sum.splits option.splits)
qed

section \<open>What holds of all interleavings\<close>

text \<open>The handlers: a request of a user, the refund by an administrator
  (\<open>ProcessRefund\<close> of \<open>internal/handler/admin/payment_handler.go\<close>), and the settlement of a pending refund.\<close>

definition discard_result :: "'r refund_prog \<Rightarrow> unit refund_prog" where
  "discard_result p = and_then p (\<lambda>_. Ret ())"

definition ProcessRefund :: "refund_lib \<Rightarrow> int \<Rightarrow> float64 \<Rightarrow> string \<Rightarrow> bool \<Rightarrow> bool \<Rightarrow> refund_outcome" where
  "ProcessRefund lib i amt reason force deduct =
     and_then (PrepareRefund lib i amt reason force deduct) (\<lambda>r. case r of Inl early \<Rightarrow> Ret early | Inr plan \<Rightarrow> ExecuteRefund lib plan)"

inductive refund_entry :: "refund_lib \<Rightarrow> unit refund_prog \<Rightarrow> bool" for lib where
  request: "refund_entry lib (discard_result (RequestRefund i uid reason))"
| process: "refund_entry lib (discard_result (ProcessRefund lib i amt reason force deduct))"
| settle: "refund_entry lib (discard_result (QueryAndFinalizeRefund lib i))"

lemma follows_discard: "rfollows oid no p m no_demand \<Longrightarrow> rfollows oid no (discard_result p) m no_demand"
  by (simp add: discard_result_def)

lemma follows_ProcessRefund: "snd m = Idle \<Longrightarrow> rfollows oid no (ProcessRefund lib i amt reason force deduct) m no_demand"
  unfolding ProcessRefund_def follows_and_then by (rule follows_PrepareRefund) (auto intro: follows_ExecuteRefund)

lemma entry_rfollows: "refund_entry lib p \<Longrightarrow> rfollows oid no p ({}, Idle) no_demand"
  by (induction rule: refund_entry.induct)
    (intro follows_discard follows_RequestRefund follows_ProcessRefund follows_Query; simp)+

interpretation refund: ownership "refund_run b (rl_pay lib)" "refund_entry lib" refund_env "refund_may oid" "\<lambda>c a. True" "refund_succ oid no"
  idle_mode "({}, Idle)" "mode_holds b oid no" "once_inv b oid no"
  for b lib oid no
proof unfold_locales
  show "once_inv b oid no s \<Longrightarrow> refund_env s s' \<Longrightarrow> once_inv b oid no s'" for s s'
    using calm_inv refund_env_calm by blast
  show "once_inv b oid no s \<Longrightarrow> refund_env s s' \<Longrightarrow> mode_holds b oid no m s \<Longrightarrow> mode_holds b oid no m s'" for s s' m
    using calm_holds refund_env_calm by blast
  show "mode_holds b oid no ({}, Idle) s" for s by (simp add: mode_holds_def)
qed (blast intro: refund_own_inv refund_own_holds refund_other_holds refund_other_idle entry_rfollows | simp)+

lemma once_inv_start:
  assumes "distinct (map od_ID (rd_orders s))" "od \<in> set (rd_orders s)" "od_OutTradeNo od \<noteq> ''''"
    and "\<forall>r\<in>set (rd_orders s). od_OutTradeNo r = od_OutTradeNo od \<longrightarrow> r = od" "b \<longrightarrow> rd_gateway s = []"
  shows "once_inv b (od_ID od) (od_OutTradeNo od) s"
proof -
  have "r = od" if "r \<in> set (rd_orders s)" "od_ID r = od_ID od" for r
    using that assms(1,2) by (meson distinct_map inj_onD)
  then have "rows_ok (od_ID od) (od_OutTradeNo od) s" unfolding rows_ok_def using assms(1,4) by blast
  moreover have "has_order s (od_ID od) (od_OutTradeNo od)" unfolding has_order_def using assms(2) by blast
  moreover have "counted b (od_OutTradeNo od) s = []" using assms(5) by (simp add: counted_def paid_back_def)
  ultimately show ?thesis using assms(3) by (simp add: once_inv_def)
qed

text \<open>C2: whatever requests, refunds by administrators and settlements run concurrently, wherever the
  database fails and processes crash, the gateway accepts at most one refund of an order, as long as
  its replies are not lost. Once it has accepted one, the order is being refunded or refunded, so that
  no further refund can begin.\<close>

theorem refund_accepted_at_most_once:
  assumes "reaches (refund_run True (rl_pay lib)) (refund_entry lib) refund_env (s0, []) (s, ps)"
    and "distinct (map od_ID (rd_orders s0))" "od \<in> set (rd_orders s0)" "od_OutTradeNo od \<noteq> ''''"
    and "\<forall>r\<in>set (rd_orders s0). od_OutTradeNo r = od_OutTradeNo od \<longrightarrow> r = od" "rd_gateway s0 = []"
  shows "length (paid_back (od_OutTradeNo od) s) \<le> 1
    \<and> (paid_back (od_OutTradeNo od) s \<noteq> [] \<longrightarrow> has_status s (od_ID od) taken_status)"
proof -
  have "once_inv True (od_ID od) (od_OutTradeNo od) s0" by (rule once_inv_start [OF assms(2-5)]) (simp add: assms(6))
  then have "once_inv True (od_ID od) (od_OutTradeNo od) s" by (rule refund.owned_inv [OF assms(1)])
  then show ?thesis by (simp add: once_inv_def counted_def)
qed

text \<open>C23: a process that dies between the lock of an order and its outcome leaves the order in \<open>REFUNDING\<close>, and
  no refund, settlement or request takes it out again, in any interleaving and with any faults: the
  lock has no lease.\<close>

theorem refunding_never_recovered:
  assumes "reaches (refund_run False (rl_pay lib)) (refund_entry lib) refund_env (s0, []) (s, ps)"
    and "distinct (map od_ID (rd_orders s0))" "od \<in> set (rd_orders s0)" "od_OutTradeNo od \<noteq> ''''"
    and "\<forall>r\<in>set (rd_orders s0). od_OutTradeNo r = od_OutTradeNo od \<longrightarrow> r = od" "od_Status od = OrderStatusRefunding"
  shows "has_status s (od_ID od) (\<lambda>st. st = OrderStatusRefunding)"
proof -
  have inv: "once_inv False (od_ID od) (od_OutTradeNo od) s0" by (rule once_inv_start [OF assms(2-5)]) simp
  have "mode_holds False (od_ID od) (od_OutTradeNo od) ({}, Won) s0"
    using assms(3,6) unfolding mode_holds_def has_status_def by simp blast
  from refund.left_behind [OF assms(1) inv this] show ?thesis by (simp add: mode_holds_def)
qed

end
