(* ===== verification/Refund_Outcomes.thy ===== *)
theory Refund_Outcomes
  imports Refund_Safety
begin

text \<open>
  What one refund achieves when no statement fails, a shop to try it on, and two ways in which money is
  lost.
\<close>

definition solo_refund :: "refund_lib \<Rightarrow> 'r refund_prog \<Rightarrow> refund_db \<Rightarrow> refund_db \<times> 'r" where
  "solo_refund lib p s = fst (run (refund_exec (rl_pay lib)) Up p [] s)"

lemma solo_run: "run (refund_exec (rl_pay lib)) Up p [] s = (solo_refund lib p s, [])"
  unfolding solo_refund_def by (metis prod.collapse run_no_faults)

lemma solo_Ret [simp]: "solo_refund lib (Ret r) s = (s, r)"
  by (simp add: solo_refund_def)

lemma solo_Call [simp]: "solo_refund lib (Call c k) s = (case refund_effect (rl_pay lib) c s of (s', a) \<Rightarrow> solo_refund lib (k a) s')"
  by (simp add: solo_refund_def refund_exec_def split: prod.splits)

lemma solo_and_then [simp]: "solo_refund lib (and_then p k) s = (case solo_refund lib p s of (s', r) \<Rightarrow> solo_refund lib (k r) s')"
  using run_no_faults [of "refund_exec (rl_pay lib)" Up p s]
  by (cases "run (refund_exec (rl_pay lib)) Up p [] s") (auto simp: solo_refund_def run_and_then)

section \<open>A shop\<close>

definition demo_refund_lib :: refund_lib where
  "demo_refund_lib = \<lparr>rl_pay = \<lparr>pl_round = Finite, pl_fmt = (\<lambda>_. ''?''), pl_fmt_v = (\<lambda>_. ''?''), pl_error = (\<lambda>_. ''error'')\<rparr>,
     rl_round = (\<lambda>x n. x), rl_share = (\<lambda>x y z n. y), rl_fixed = (\<lambda>x n. ''10.00'')\<rparr>"

definition paid_order :: RefundOrder where
  "paid_order = \<lparr>od_ID = 1, od_UserID = 7, od_Amount = Finite 10, od_BonusAmount = Finite 0, od_PayAmount = Finite 10,
     od_RechargeCode = ''PAY-1'', od_OutTradeNo = ''sub2_a'', od_PaymentType = ''alipay'', od_PaymentTradeNo = ''T9'', od_OrderType = OrderTypeBalance,
     od_SubscriptionGroupID = None, od_SubscriptionDays = None, od_ProviderInstanceID = Some ''3'', od_ProviderKey = Some ''alipay'',
     od_ProviderSnapshot = [], od_Status = OrderStatusCompleted, od_ExpiresAt = 100, od_PaidAt = Some 3, od_CompletedAt = Some 4,
     od_FailedAt = None, od_FailedReason = None, od_CreatedAt = 1, od_UpdatedAt = 4,
     od_RefundAmount = Finite 0, od_RefundReason = None, od_RefundAt = None, od_ForceRefund = False, od_RefundRequestedAt = None,
     od_RefundRequestReason = None, od_RefundRequestedBy = None\<rparr>"

definition refund_shop :: "RefundResponse option \<times> goerror option \<Rightarrow> RefundResponse option \<times> goerror option \<Rightarrow> refund_db" where
  "refund_shop reply later = \<lparr>rd_orders = [paid_order], rd_users = [\<lparr>us_ID = 7, us_Balance = Finite 30, us_Concurrency = 1\<rparr>], rd_audit = [],
     rd_instances = [\<lparr>pi_ID = 3, pi_ProviderKey = ''alipay'', pi_SupportedTypes = '''', pi_RefundEnabled = True, pi_AllowUserRefund = True\<rparr>],
     rd_clock = 50, rd_activeSub = (\<lambda>u g. B_Sub 1), rd_subscription = (\<lambda>q. None),
     rd_provider = (\<lambda>i. Inr \<lparr>pv_Key = ''alipay'', pv_Metadata = [], pv_Queries = True\<rparr>), rd_refund = (\<lambda>q. reply), rd_query = (\<lambda>q. later),
     rd_gateway = [], rd_subs = [], rd_taken = [], rd_returned = []\<rparr>"

definition refund_reply :: "string \<Rightarrow> RefundResponse option \<times> goerror option" where
  "refund_reply st = (Some \<lparr>rs_RefundID = ''R1'', rs_Status = st\<rparr>, None)"

section \<open>The outcome of a refund\<close>

lemma refund_solo_audit [simp]: "solo_refund lib (r_audit i act operator k) s = solo_refund lib k (fst (unit_ans s (insert_audit i act operator None s)))"
  by (simp add: r_audit_def split: prod.splits)

lemma refund_solo_now [simp]: "solo_refund lib (r_now k) s = solo_refund lib (k (rd_clock s)) s"
  by (simp add: r_now_def)

lemma solo_has_audit [simp]: "solo_refund lib (r_has_audit i act k) s = solo_refund lib (k (rd_audited i act s)) s"
  by (simp add: r_has_audit_def r_count_def)

lemma provider_frame:
  assumes "rd_instances s' = rd_instances s" "rd_provider s' = rd_provider s"
  shows "solo_refund lib (getRefundProvider od) s = (s, snd (solo_refund lib (getRefundProvider od) s))
    \<and> solo_refund lib (getRefundProvider od) s' = (s', snd (solo_refund lib (getRefundProvider od) s))"
proof -
  have inst: "solo_refund lib (r_instance i) t = (t, case only (filter (\<lambda>x. pi_ID x = i) (rd_instances t)) of Inl e \<Rightarrow> Inl e | Inr x \<Rightarrow> Inr x)" for i t
    by (simp add: r_instance_def answer_one_def split: sum.splits)
  have snap: "solo_refund lib (resolveSnapshotOrderProviderInstance od sn) s = (s, snd (solo_refund lib (resolveSnapshotOrderProviderInstance od sn) s))
      \<and> solo_refund lib (resolveSnapshotOrderProviderInstance od sn) s' = (s', snd (solo_refund lib (resolveSnapshotOrderProviderInstance od sn) s))" for sn
    by (simp add: resolveSnapshotOrderProviderInstance_def Let_def inst assms split: option.splits)
  have "solo_refund lib (getRefundOrderProviderInstance od) s = (s, snd (solo_refund lib (getRefundOrderProviderInstance od) s))
      \<and> solo_refund lib (getRefundOrderProviderInstance od) s' = (s', snd (solo_refund lib (getRefundOrderProviderInstance od) s))"
    using snap by (auto simp: getRefundOrderProviderInstance_def Let_def inst assms split: option.splits)
  then obtain r where r: "solo_refund lib (getRefundOrderProviderInstance od) s = (s, r)" "solo_refund lib (getRefundOrderProviderInstance od) s' = (s', r)" by metis
  then show ?thesis using assms
    by (auto simp: getRefundProvider_def answer_one_def split: sum.splits option.splits)
qed

text \<open>What a shop must have for a plan that takes the refund from the balance.\<close>


definition plan_ready :: "refund_lib \<Rightarrow> RefundPlan \<Rightarrow> refund_db \<Rightarrow> provider_client \<Rightarrow> bool" where
  "plan_ready lib p s pv \<longleftrightarrow>
     (\<exists>r. filter (\<lambda>r. od_ID r = rp_OrderID p) (rd_orders s) = [r] \<and> refundable (od_Status r))
     \<and> deducts_balance p \<and> \<not> rp_Force p \<and> od_PaymentTradeNo (rp_Order p) \<noteq> ''''
     \<and> list_ex (\<lambda>u. us_ID u = od_UserID (rp_Order p) \<and> fle (rp_BalanceToDeduct p) (us_Balance u)) (rd_users s)
     \<and> \<not> rd_audited (rp_OrderID p) ''REFUND_ROLLBACK_FAILED'' s
     \<and> snd (solo_refund lib (getRefundProvider (rp_Order p)) s) = Inr pv
     \<and> validateProviderSnapshotMetadata (base_order (rp_Order p)) (pv_Key pv) (pv_Metadata pv) = None"

lemma flt_facts: "flt (Finite 0) x \<Longrightarrow> \<not> flt x (Finite 0)" "\<not> flt x x"
  by (cases x; simp)+

definition locked_db :: "RefundPlan \<Rightarrow> refund_db \<Rightarrow> refund_db" where
  "locked_db p s = update_orders (\<lambda>r. od_ID r = rp_OrderID p \<and> refundable (od_Status r)) (\<lambda>r. r\<lparr>od_Status := OrderStatusRefunding\<rparr>) s"

definition charged_db :: "refund_lib \<Rightarrow> RefundPlan \<Rightarrow> refund_db \<Rightarrow> refund_db" where
  "charged_db lib p s = (locked_db p s)\<lparr>rd_users := add_balance (rl_pay lib) (od_UserID (rp_Order p)) (fneg (rp_BalanceToDeduct p)) (rd_users s),
     rd_taken := rd_taken s @ [(od_UserID (rp_Order p), rp_BalanceToDeduct p)]\<rparr>"

definition asked_db :: "refund_lib \<Rightarrow> RefundPlan \<Rightarrow> refund_db \<Rightarrow> refund_db" where
  "asked_db lib p s = (charged_db lib p s)\<lparr>rd_gateway := rd_gateway s @ [(refund_request lib p, rd_refund s (refund_request lib p))]\<rparr>"

lemma solo_deduct:
  assumes "plan_ready lib p s pv"
  shows "solo_refund lib (deduct_plan_balance p) (locked_db p s) = (charged_db lib p s, Inr p)"
proof -
  let ?uid = "od_UserID (rp_Order p)" and ?x = "rp_BalanceToDeduct p"
  from assms obtain u where u: "find (\<lambda>u. us_ID u = ?uid \<and> fle ?x (us_Balance u)) (rd_users s) = Some u"
    unfolding plan_ready_def by (metis (mono_tags, lifting) find_None_iff list_ex_iff not_None_eq)
  have "rd_audited (rp_OrderID p) ''REFUND_ROLLBACK_FAILED'' (locked_db p s) = False"
    using assms by (simp add: plan_ready_def rd_audited_def locked_db_def update_orders_def)
  then show ?thesis using assms u flt_facts
    by (simp add: deduct_plan_balance_def plan_ready_def Let_def deduct_ans_def deductRefundBalance_def DeductAvailableBalanceExact_def
        charged_db_def locked_db_def update_orders_def)
qed

lemma solo_gateway:
  assumes "plan_ready lib p s pv"
  shows "solo_refund lib (gwRefund lib p) (charged_db lib p s) = (asked_db lib p s, gateway_result (rd_refund s (refund_request lib p)))"
proof -
  have same: "rd_instances (charged_db lib p s) = rd_instances s" "rd_provider (charged_db lib p s) = rd_provider s"
      "rd_refund (charged_db lib p s) = rd_refund s" "rd_gateway (charged_db lib p s) = rd_gateway s"
    by (simp_all add: charged_db_def locked_db_def update_orders_def)
  have "solo_refund lib (getRefundProvider (rp_Order p)) (charged_db lib p s) = (charged_db lib p s, Inr pv)"
    using provider_frame [OF same(1,2), of lib "rp_Order p"] assms by (simp add: plan_ready_def)
  then show ?thesis using assms same
    by (simp add: gwRefund_def Let_def plan_ready_def asked_db_def reply_of_def split: prod.splits)
qed

lemma lock_count:
  assumes "plan_ready lib p s pv"
  shows "order_count (\<lambda>r. od_ID r = rp_OrderID p \<and> refundable (od_Status r)) s = 1"
proof -
  from assms obtain r where "filter (\<lambda>r. od_ID r = rp_OrderID p) (rd_orders s) = [r]" "refundable (od_Status r)"
    unfolding plan_ready_def by blast
  then have "filter (\<lambda>r. refundable (od_Status r)) (filter (\<lambda>r. od_ID r = rp_OrderID p) (rd_orders s)) = [r]" by simp
  then show ?thesis by (simp add: order_count_def conj_commute)
qed

lemma solo_execute:
  assumes "plan_ready lib p s pv"
  shows "solo_refund lib (ExecuteRefund lib p) s =
    (case gateway_result (rd_refund s (refund_request lib p)) of
       Inl e \<Rightarrow> solo_refund lib (handleGwFail lib p e) (asked_db lib p s)
     | Inr resp \<Rightarrow> solo_refund lib (finishRefund lib p resp) (asked_db lib p s))"
proof -
  have "deduct_plan_subscription p = Ret (Inr p)"
    using assms by (simp add: deduct_plan_subscription_def plan_ready_def refund_strings)
  then show ?thesis using lock_count [OF assms] solo_deduct [OF assms] solo_gateway [OF assms]
    by (simp add: ExecuteRefund_def r_count_def locked_db_def split: sum.splits)
qed

definition statuses :: "int \<Rightarrow> refund_db \<Rightarrow> string list" where
  "statuses i s = map od_Status (filter (\<lambda>r. od_ID r = i) (rd_orders s))"

lemma statuses_update:
  assumes "\<And>r. od_ID (f r) = od_ID r" "\<And>r. od_Status (f r) = st"
  shows "statuses i (update_orders (\<lambda>r. od_ID r = i) f s) = map (\<lambda>_. st) (statuses i s)"
proof -
  have "map od_Status (filter (\<lambda>r. od_ID r = i) (map (\<lambda>r. if od_ID r = i then (f r)\<lparr>od_UpdatedAt := t\<rparr> else r) rs)) =
      map (\<lambda>_. st) (map od_Status (filter (\<lambda>r. od_ID r = i) rs))" for rs :: "RefundOrder list" and t
    by (induction rs) (simp_all add: assms)
  then show ?thesis by (simp add: statuses_def update_orders_def)
qed

lemma statuses_locked:
  assumes "plan_ready lib p s pv"
  shows "\<exists>st. statuses (rp_OrderID p) (asked_db lib p s) = [st]"
proof -
  have "length (statuses i (update_orders q f s)) = length (statuses i s)" if "\<And>r. od_ID (f r) = od_ID r" for i q f
  proof -
    have "length (filter (\<lambda>r. od_ID r = i) (map (\<lambda>r. if q r then (f r)\<lparr>od_UpdatedAt := t\<rparr> else r) rs)) = length (filter (\<lambda>r. od_ID r = i) rs)"
      for rs :: "RefundOrder list" and t
      by (induction rs) (simp_all add: that)
    then show ?thesis by (simp add: statuses_def update_orders_def)
  qed
  then have "length (statuses (rp_OrderID p) (locked_db p s)) = length (statuses (rp_OrderID p) s)" by (simp add: locked_db_def)
  also have "\<dots> = 1" using assms by (auto simp: plan_ready_def statuses_def)
  finally have "length (statuses (rp_OrderID p) (asked_db lib p s)) = 1"
    by (simp add: statuses_def asked_db_def charged_db_def)
  then show ?thesis by (metis One_nat_def length_0_conv length_Suc_conv)
qed

lemma statuses_count: "order_count (\<lambda>r. od_ID r = i) s = 0 \<longleftrightarrow> statuses i s = []"
  by (simp add: order_count_def statuses_def)

text \<open>Audit rows leave orders and accounts alone.\<close>

definition money :: "refund_db \<Rightarrow> (int \<times> float64) list \<times> (int \<times> float64) list" where
  "money s = (rd_taken s, rd_returned s)"

lemma audit_keeps:
  assumes "s' = fst (unit_ans s (insert_audit i act operator d s))"
  shows "statuses j s' = statuses j s \<and> money s' = money s"
  using assms by (auto simp: unit_ans_def insert_audit_def statuses_def money_def)

lemma update_money [simp]: "money (update_orders q f s) = money s"
  by (simp add: money_def update_orders_def)

lemma solo_mark_ok:
  assumes "statuses (rp_OrderID p) s = [st]"
  shows "\<exists>s'. solo_refund lib (markRefundOk p) s = (s', Inr (refund_done p)) \<and> statuses (rp_OrderID p) s' = [refunded_status p] \<and> money s' = money s"
  using assms audit_keeps [OF refl]
  by (simp add: markRefundOk_def r_err_def statuses_count statuses_update [where st = "refunded_status p"] mark_refunded_def)

lemma solo_mark_pending:
  assumes "statuses (rp_OrderID p) s = [st]" "\<not> rd_audited (rp_OrderID p) ''REFUND_PENDING'' s"
  shows "\<exists>s'. solo_refund lib (markRefundPending p resp) s = (s', Inr (warn ''gateway refund is pending confirmation'' False))
    \<and> statuses (rp_OrderID p) s' = [OrderStatusRefundPending] \<and> money s' = money s"
proof -
  have "statuses (rp_OrderID p) (update_orders (\<lambda>r. od_ID r = rp_OrderID p) (mark_pending p) s) = [OrderStatusRefundPending]"
    by (subst statuses_update) (simp_all add: mark_pending_def assms(1))
  moreover have "\<not> rd_audited (rp_OrderID p) ''REFUND_PENDING'' (update_orders (\<lambda>r. od_ID r = rp_OrderID p) (mark_pending p) s)"
    using assms(2) by (simp add: rd_audited_def update_orders_def)
  ultimately show ?thesis using assms(1)
    by (simp add: markRefundPending_def pending_tx_def insert_audit_def statuses_count money_def) (simp add: statuses_def update_orders_def)
qed

lemma solo_gateway_failed:
  assumes "statuses (rp_OrderID p) s = [st]" "deducts_balance p" "list_ex (\<lambda>u. us_ID u = od_UserID (rp_Order p)) (rd_users s)"
  shows "\<exists>s' w. solo_refund lib (handleGwFail lib p e) s = (s', Inr (warn w False)) \<and> statuses (rp_OrderID p) s' = [restored_status p]
    \<and> money s' = (rd_taken s, rd_returned s @ [(od_UserID (rp_Order p), rp_BalanceToDeduct p)])"
proof -
  define s1 where "s1 = s\<lparr>rd_users := add_balance (rl_pay lib) (od_UserID (rp_Order p)) (rp_BalanceToDeduct p) (rd_users s),
     rd_returned := rd_returned s @ [(od_UserID (rp_Order p), rp_BalanceToDeduct p)]\<rparr>"
  have "RestoreRefundBalance (rl_pay lib) (od_UserID (rp_Order p)) (rp_BalanceToDeduct p) s = Inr s1"
    using assms(2,3) flt_facts by (simp add: RestoreRefundBalance_def s1_def)
  moreover have one: "statuses (rp_OrderID p) s1 = [st]" using assms(1) by (simp add: s1_def statuses_def)
  moreover have "statuses (rp_OrderID p) (update_orders (\<lambda>r. od_ID r = rp_OrderID p) (\<lambda>r. r\<lparr>od_Status := restored_status p\<rparr>) s1) = [restored_status p]"
    by (subst statuses_update) (simp_all add: one)
  ultimately show ?thesis using assms(2) audit_keeps [OF refl]
    by (simp add: handleGwFail_def RollbackRefund_def restoreStatus_def restoreStatusChecked_def unit_ans_def r_err_def statuses_count)
      (use audit_keeps [OF refl] in \<open>simp add: money_def s1_def, blast\<close>)
qed

lemma add_balance_ids: "list_ex (\<lambda>u. us_ID u = i) (add_balance lib j x us) = list_ex (\<lambda>u. us_ID u = i) us"
  by (induction us) (simp_all add: add_balance_def)

lemma gateway_result_valid:
  assumes "gateway_result rep = Inr x"
  shows "validateRefundProviderResponse (Some x) = None"
proof (cases rep)
  case (Pair resp err)
  show ?thesis
  proof (cases err)
    case None
    then show ?thesis using assms Pair
      by (cases resp; cases "validateRefundProviderResponse resp") (simp_all add: gateway_result_def)
  next
    case (Some e)
    then have "trim_space (rs_Status x) = ProviderStatusPending" using assms Pair
      by (auto simp: gateway_result_def split: option.splits if_splits)
    then show ?thesis by (simp add: validateRefundProviderResponse_def refund_strings)
  qed
qed

text \<open>C17: a refund that takes its amount from the balance and meets no fault takes it exactly once. When the
  gateway accepts, the order is refunded and nothing is given back; when the gateway reports the refund
  as pending, the order waits for its settlement and the amount stays taken; when the gateway fails, the
  same amount is given back and the order returns to its state.\<close>

theorem refund_outcome:
  assumes "plan_ready lib p s pv" "solo_refund lib (ExecuteRefund lib p) s = (s', r)" "\<not> rd_audited (rp_OrderID p) ''REFUND_PENDING'' s"
  shows "rd_taken s' = rd_taken s @ [(od_UserID (rp_Order p), rp_BalanceToDeduct p)]
    \<and> (case gateway_result (rd_refund s (refund_request lib p)) of
         Inl e \<Rightarrow> rd_returned s' = rd_returned s @ [(od_UserID (rp_Order p), rp_BalanceToDeduct p)]
           \<and> statuses (rp_OrderID p) s' = [restored_status p] \<and> (\<exists>w. r = Inr (warn w False))
       | Inr x \<Rightarrow> rd_returned s' = rd_returned s
           \<and> (if trim_space (rs_Status x) = ProviderStatusPending
              then statuses (rp_OrderID p) s' = [OrderStatusRefundPending] \<and> (\<exists>w. r = Inr (warn w False))
              else statuses (rp_OrderID p) s' = [refunded_status p] \<and> r = Inr (refund_done p)))"
proof -
  let ?s = "asked_db lib p s"
  obtain st where st: "statuses (rp_OrderID p) ?s = [st]" using statuses_locked [OF assms(1)] by blast
  have taken: "rd_taken ?s = rd_taken s @ [(od_UserID (rp_Order p), rp_BalanceToDeduct p)]" "rd_returned ?s = rd_returned s"
    by (simp_all add: asked_db_def charged_db_def locked_db_def update_orders_def)
  have bal: "deducts_balance p" using assms(1) by (simp add: plan_ready_def)
  have user: "list_ex (\<lambda>u. us_ID u = od_UserID (rp_Order p)) (rd_users ?s)"
  proof -
    have "list_ex (\<lambda>u. us_ID u = od_UserID (rp_Order p)) (rd_users s)" using assms(1) by (auto simp: plan_ready_def list_ex_iff)
    then show ?thesis by (simp add: add_balance_ids asked_db_def charged_db_def)
  qed
  have fresh: "\<not> rd_audited (rp_OrderID p) ''REFUND_PENDING'' ?s"
    using assms(3) by (simp add: rd_audited_def asked_db_def charged_db_def locked_db_def update_orders_def)
  show ?thesis
  proof (cases "gateway_result (rd_refund s (refund_request lib p))")
    case (Inl e)
    with solo_execute [OF assms(1)] assms(2) have "solo_refund lib (handleGwFail lib p e) ?s = (s', r)" by simp
    with solo_gateway_failed [OF st bal user, of lib e] show ?thesis using Inl taken by (auto simp: money_def)
  next
    case (Inr x)
    with solo_execute [OF assms(1)] assms(2) have finish: "solo_refund lib (finishRefund lib p x) ?s = (s', r)" by simp
    have "validateRefundProviderResponse (Some x) = None"
      using gateway_result_valid [OF Inr] .
    with finish solo_mark_ok [OF st, of lib] solo_mark_pending [OF st fresh, of lib x] show ?thesis using Inr taken
      by (auto simp: finishRefund_def money_def split: if_splits)
  qed
qed

section \<open>The shop at work\<close>

definition demo_refund :: refund_outcome where
  "demo_refund = ProcessRefund demo_refund_lib 1 (Finite 10) '''' False True"

definition demo_settle :: refund_outcome where
  "demo_settle = QueryAndFinalizeRefund demo_refund_lib 1"

definition refund_view :: "refund_db \<Rightarrow> string list \<times> float64 list \<times> (int \<times> float64) list \<times> (int \<times> float64) list \<times> nat" where
  "refund_view s = (map od_Status (rd_orders s), map us_Balance (rd_users s), rd_taken s, rd_returned s, length (paid_back ''sub2_a'' s))"

definition demo_plan :: RefundPlan where
  "demo_plan = (refund_plan demo_refund_lib paid_order (Finite 10) ''refund order:1'' False True)\<lparr>rp_DeductionType := DeductionTypeBalance,
     rp_BalanceToDeduct := Finite 10\<rparr>"

definition demo_provider :: provider_client where
  "demo_provider = \<lparr>pv_Key = ''alipay'', pv_Metadata = [], pv_Queries = True\<rparr>"

lemma demo_accepts: "refund_view (fst (solo_refund demo_refund_lib demo_refund (refund_shop (refund_reply ''success'') (refund_reply ''success'')))) =
    ([OrderStatusRefunded], [Finite 20], [(7, Finite 10)], [], 1)"
  by code_simp

lemma demo_ready:
  "(\<lambda>s. (length (filter (\<lambda>r. od_ID r = 1) (rd_orders s)), list_all (\<lambda>r. refundable (od_Status r)) (rd_orders s))) (refund_shop x y) = (1, True)"
  "case snd (solo_refund demo_refund_lib (getRefundProvider paid_order) (refund_shop (refund_reply ''success'') (refund_reply ''success''))) of
     Inr pv \<Rightarrow> pv = demo_provider | Inl e \<Rightarrow> False"
  "validateProviderSnapshotMetadata (base_order paid_order) (pv_Key demo_provider) (pv_Metadata demo_provider) = None"
  by code_simp+


text \<open>The reply of an accepted refund is lost on its way. The handler takes the error for a failure of the gateway, gives the
  amount back and sets the order to completed: the money was paid out and the balance is whole.\<close>

theorem lost_reply_pays_and_restores:
  "let (s, r) = fst (run (refund_exec (rl_pay demo_refund_lib)) Up demo_refund (replicate 8 Up @ [Unacked (PlainError ''timeout'')])
         (refund_shop (refund_reply ''success'') (refund_reply ''success'')))
   in refund_view s = ([OrderStatusCompleted], [Finite 30], [(7, Finite 10)], [(7, Finite 10)], 1)"
  by code_simp

section \<open>Witnesses\<close>

lemma plan_ready_demo: "plan_ready demo_refund_lib demo_plan (refund_shop (refund_reply ''success'') (refund_reply ''success'')) demo_provider"
proof -
  let ?s = "refund_shop (refund_reply ''success'') (refund_reply ''success'')"
  have "filter (\<lambda>r. od_ID r = rp_OrderID demo_plan) (rd_orders ?s) = [paid_order]" "refundable (od_Status paid_order)"
    by (simp_all add: refund_shop_def demo_plan_def refund_plan_def paid_order_def refundable_def)
  moreover have "snd (solo_refund demo_refund_lib (getRefundProvider (rp_Order demo_plan)) ?s) = Inr demo_provider"
    using demo_ready(2) by (auto simp: demo_plan_def refund_plan_def split: sum.splits)
  ultimately show ?thesis using demo_ready(3)
    by (simp add: plan_ready_def) (simp add: demo_plan_def refund_plan_def refund_strings paid_order_def refund_shop_def rd_audited_def fle_def)
qed

theorem refund_outcome_witness:
  "plan_ready demo_refund_lib demo_plan (refund_shop (refund_reply ''success'') (refund_reply ''success'')) demo_provider
   \<and> rd_taken (fst (solo_refund demo_refund_lib (ExecuteRefund demo_refund_lib demo_plan) (refund_shop (refund_reply ''success'') (refund_reply ''success'')))) =
       [(7, Finite 10)]"
proof -
  let ?s = "refund_shop (refund_reply ''success'') (refund_reply ''success'')"
  obtain s' r where run: "solo_refund demo_refund_lib (ExecuteRefund demo_refund_lib demo_plan) ?s = (s', r)" by fastforce
  have "\<not> rd_audited (rp_OrderID demo_plan) ''REFUND_PENDING'' ?s" by (simp add: rd_audited_def refund_shop_def)
  from refund_outcome [OF plan_ready_demo run this] have "rd_taken s' = rd_taken ?s @ [(od_UserID (rp_Order demo_plan), rp_BalanceToDeduct demo_plan)]" by blast
  then show ?thesis using plan_ready_demo run by (simp add: refund_shop_def demo_plan_def refund_plan_def paid_order_def)
qed

text \<open>A handler that runs alone without faults is one of the interleavings.\<close>

lemma solo_refund_reaches:
  assumes "solo_refund lib p s = (s', r)" "refund_entry lib (discard_result p)"
  shows "reaches (refund_run b (rl_pay lib)) (refund_entry lib) refund_env (s, []) (s', [Ret ()])"
proof -
  have up: "refund_run b (rl_pay lib) Up = refund_exec (rl_pay lib) Up"
    by (intro ext) (simp add: refund_run_def prompt_def split: refund_stmt.splits)
  have "fst (run (refund_run b (rl_pay lib)) Up q [] s) = solo_refund lib q s" for q :: "unit refund_prog" and s
    unfolding solo_refund_def by (induction q arbitrary: s) (simp_all add: up split: prod.splits)
  then have "fst (run (refund_run b (rl_pay lib)) Up (discard_result p) [] s) = (s', ())"
    using assms(1) by (simp add: discard_result_def)
  then obtain fs where "run (refund_run b (rl_pay lib)) Up (discard_result p) [] s = ((s', ()), fs)" by (metis prod.collapse)
  from run_reaches [OF this, of "refund_entry lib" refund_env "[]" "[]"]
  have "reaches (refund_run b (rl_pay lib)) (refund_entry lib) refund_env (s, [discard_result p]) (s', [Ret ()])" by simp
  moreover have "pool_step (refund_run b (rl_pay lib)) (refund_entry lib) refund_env (s, []) (s, [] @ [discard_result p])"
    using assms(2) by (rule pool_step.spawn)
  ultimately show ?thesis by (simp add: converse_rtranclp_into_rtranclp)
qed

theorem refund_accepted_at_most_once_witness:
  "\<exists>s. reaches (refund_run True (rl_pay demo_refund_lib)) (refund_entry demo_refund_lib) refund_env
       (refund_shop (refund_reply ''success'') (refund_reply ''success''), []) (s, [Ret ()])
     \<and> length (paid_back ''sub2_a'' s) = 1 \<and> has_status s 1 taken_status"
proof -
  let ?s = "refund_shop (refund_reply ''success'') (refund_reply ''success'')"
  obtain s r where run: "solo_refund demo_refund_lib demo_refund ?s = (s, r)" by fastforce
  have reach: "reaches (refund_run True (rl_pay demo_refund_lib)) (refund_entry demo_refund_lib) refund_env (?s, []) (s, [Ret ()])"
    by (rule solo_refund_reaches [OF run]) (simp add: demo_refund_def refund_entry.process)
  have one: "length (paid_back ''sub2_a'' s) = 1" using demo_accepts run by (simp add: refund_view_def)
  moreover have "has_status s 1 taken_status"
    using refund_accepted_at_most_once [OF reach, of paid_order] one
    by (simp add: refund_shop_def) (auto simp: paid_order_def)
  ultimately show ?thesis using reach by blast
qed

theorem refunding_never_recovered_witness:
  "\<exists>s. reaches (refund_run False (rl_pay demo_refund_lib)) (refund_entry demo_refund_lib) refund_env
       ((refund_shop (refund_reply ''success'') (refund_reply ''success''))\<lparr>rd_orders := [paid_order\<lparr>od_Status := OrderStatusRefunding\<rparr>]\<rparr>, []) (s, [Ret ()])
     \<and> has_status s 1 (\<lambda>st. st = OrderStatusRefunding)"
proof -
  let ?s = "(refund_shop (refund_reply ''success'') (refund_reply ''success''))\<lparr>rd_orders := [paid_order\<lparr>od_Status := OrderStatusRefunding\<rparr>]\<rparr>"
  obtain s r where run: "solo_refund demo_refund_lib demo_refund ?s = (s, r)" by fastforce
  have reach: "reaches (refund_run False (rl_pay demo_refund_lib)) (refund_entry demo_refund_lib) refund_env (?s, []) (s, [Ret ()])"
    by (rule solo_refund_reaches [OF run]) (simp add: demo_refund_def refund_entry.process)
  from refunding_never_recovered [OF reach, of "paid_order\<lparr>od_Status := OrderStatusRefunding\<rparr>"]
  have "has_status s 1 (\<lambda>st. st = OrderStatusRefunding)" by (simp add: paid_order_def)
  with reach show ?thesis by blast
qed

end
