(* ===== verification/Chat_Types.thy ===== *)
theory Chat_Types
  imports Api_Types
begin

text \<open>
  The chat completions types of \<open>internal/pkg/apicompat/types.go\<close>, with one record per Go struct, and
  the conversions of token usage between the chat completions and the Responses format
  (\<open>responses_to_chatcompletions.go\<close>, \<open>chatcompletions_responses_bridge.go\<close>).
\<close>

section \<open>Messages\<close>

record ChatFunctionCall =
  cf_Name :: string
  cf_Arguments :: string

record ChatToolCall =
  tc_Index :: "int option"
  tc_ID :: string
  tc_Type :: string
  tc_Function :: ChatFunctionCall

record ChatMessage =
  cm_Refusal :: string
  cm_Reasoning :: string
  cm_Role :: string
  cm_Content :: string
  cm_ReasoningContent :: string
  cm_Name :: string
  cm_ToolCalls :: "ChatToolCall list"
  cm_ToolCallID :: string
  cm_FunctionCall :: "ChatFunctionCall option"

definition zero_message :: ChatMessage where
  "zero_message = \<lparr>cm_Refusal = '''', cm_Reasoning = '''', cm_Role = '''', cm_Content = '''', cm_ReasoningContent = '''',
     cm_Name = '''', cm_ToolCalls = [], cm_ToolCallID = '''', cm_FunctionCall = None\<rparr>"

record ChatTokenDetails =
  td_CachedTokens :: int
  td_AudioTokens :: int
  td_CacheCreationTokens :: int
  td_CacheWriteTokens :: int
  td_ReasoningTokens :: int
  td_AcceptedPredictionTokens :: int
  td_RejectedPredictionTokens :: int

definition zero_token_details :: ChatTokenDetails where
  "zero_token_details = \<lparr>td_CachedTokens = 0, td_AudioTokens = 0, td_CacheCreationTokens = 0, td_CacheWriteTokens = 0,
     td_ReasoningTokens = 0, td_AcceptedPredictionTokens = 0, td_RejectedPredictionTokens = 0\<rparr>"

record ChatUsage =
  cu_PromptTokens :: int
  cu_CompletionTokens :: int
  cu_TotalTokens :: int
  cu_PromptTokensDetails :: "ChatTokenDetails option"
  cu_CompletionTokensDetails :: "ChatTokenDetails option"

record ChatChoice =
  cc_Index :: int
  cc_Message :: ChatMessage
  cc_FinishReason :: string

record ChatCompletionsResponse =
  cr_ID :: string
  cr_Object :: string
  cr_Created :: int
  cr_Model :: string
  cr_Choices :: "ChatChoice list"
  cr_Usage :: "ChatUsage option"
  cr_SystemFingerprint :: string
  cr_ServiceTier :: string

section \<open>Chunks\<close>

record ChatDelta =
  dl_Refusal :: "string option"
  dl_Reasoning :: "string option"
  dl_Role :: string
  dl_Content :: "string option"
  dl_ReasoningContent :: "string option"
  dl_ToolCalls :: "ChatToolCall list"

definition delta_reasoningText :: "ChatDelta \<Rightarrow> string option" where
  "delta_reasoningText d =
     (case dl_ReasoningContent d of
        Some r \<Rightarrow> (if r \<noteq> '''' then Some r else dl_Reasoning d)
      | None \<Rightarrow> dl_Reasoning d)"

definition message_reasoningText :: "ChatMessage \<Rightarrow> string" where
  "message_reasoningText m = (if cm_ReasoningContent m \<noteq> '''' then cm_ReasoningContent m else cm_Reasoning m)"

definition zero_chat_delta :: ChatDelta where
  "zero_chat_delta = \<lparr>dl_Refusal = None, dl_Reasoning = None, dl_Role = '''', dl_Content = None, dl_ReasoningContent = None, dl_ToolCalls = []\<rparr>"

record ChatChunkChoice =
  ch_Index :: int
  ch_Delta :: ChatDelta
  ch_FinishReason :: "string option"

record ChatCompletionsChunk =
  ck_ID :: string
  ck_Object :: string
  ck_Created :: int
  ck_Model :: string
  ck_Choices :: "ChatChunkChoice list"
  ck_Usage :: "ChatUsage option"
  ck_SystemFingerprint :: string
  ck_ServiceTier :: string

section \<open>Usage\<close>

definition promptDetailsFromResponses :: "ResponsesInputTokensDetails option \<Rightarrow> ChatTokenDetails option" where
  "promptDetailsFromResponses src =
     (case src of
        None \<Rightarrow> None
      | Some d \<Rightarrow>
          (if it_CachedTokens d = 0 \<and> it_AudioTokens d = 0 \<and> it_CacheCreationTokens d = 0 \<and> it_CacheWriteTokens d = 0 then None
           else Some (zero_token_details\<lparr>td_CachedTokens := it_CachedTokens d, td_AudioTokens := it_AudioTokens d,
                  td_CacheCreationTokens := it_CacheCreationTokens d, td_CacheWriteTokens := it_CacheWriteTokens d\<rparr>)))"

definition completionDetailsFromResponses :: "ResponsesOutputTokensDetails option \<Rightarrow> ChatTokenDetails option" where
  "completionDetailsFromResponses src =
     (case src of
        None \<Rightarrow> None
      | Some d \<Rightarrow>
          (if ot_ReasoningTokens d = 0 \<and> ot_AudioTokens d = 0 \<and> ot_AcceptedPredictionTokens d = 0 \<and> ot_RejectedPredictionTokens d = 0
           then None
           else Some (zero_token_details\<lparr>td_ReasoningTokens := ot_ReasoningTokens d, td_AudioTokens := ot_AudioTokens d,
                  td_AcceptedPredictionTokens := ot_AcceptedPredictionTokens d, td_RejectedPredictionTokens := ot_RejectedPredictionTokens d\<rparr>)))"

definition chatUsageFromResponsesUsage :: "ResponsesUsage option \<Rightarrow> ChatUsage option" where
  "chatUsageFromResponsesUsage usage =
     (case usage of
        None \<Rightarrow> None
      | Some u \<Rightarrow>
          (let details = promptDetailsFromResponses (ru_InputTokensDetails u);
               details =
                 (if 0 < ru_CacheCreationInputTokens u
                  then (let d = (case details of None \<Rightarrow> zero_token_details | Some d \<Rightarrow> d) in
                        Some (if td_CacheWriteTokens d = 0 \<and> td_CacheCreationTokens d = 0
                              then d\<lparr>td_CacheCreationTokens := ru_CacheCreationInputTokens u\<rparr> else d))
                  else details)
           in Some \<lparr>cu_PromptTokens = ru_InputTokens u, cu_CompletionTokens = ru_OutputTokens u,
                cu_TotalTokens = i64 (ru_InputTokens u + ru_OutputTokens u), cu_PromptTokensDetails = details,
                cu_CompletionTokensDetails = completionDetailsFromResponses (ru_OutputTokensDetails u)\<rparr>))"

definition ChatUsageToResponsesUsage :: "ChatUsage option \<Rightarrow> ResponsesUsage option" where
  "ChatUsageToResponsesUsage usage =
     (case usage of
        None \<Rightarrow> None
      | Some u \<Rightarrow>
          (let total = (if cu_TotalTokens u = 0 then i64 (cu_PromptTokens u + cu_CompletionTokens u) else cu_TotalTokens u);
               reported = (case cu_PromptTokensDetails u of
                  None \<Rightarrow> None
                | Some d \<Rightarrow> (if 0 < td_CachedTokens d \<or> 0 < td_CacheCreationTokens d \<or> 0 < td_CacheWriteTokens d then Some d else None))
           in Some \<lparr>ru_InputTokens = cu_PromptTokens u, ru_OutputTokens = cu_CompletionTokens u, ru_TotalTokens = total,
                ru_CacheCreationInputTokens =
                  (case reported of None \<Rightarrow> 0
                   | Some d \<Rightarrow> (if 0 < td_CacheWriteTokens d then td_CacheWriteTokens d else td_CacheCreationTokens d)),
                ru_InputTokensDetails =
                  (case reported of None \<Rightarrow> None
                   | Some d \<Rightarrow> Some (zero_input_details\<lparr>it_CachedTokens := td_CachedTokens d, it_CacheCreationTokens := td_CacheCreationTokens d,
                        it_CacheWriteTokens := td_CacheWriteTokens d\<rparr>)),
                ru_OutputTokensDetails = None\<rparr>))"

end
