(* ===== verification/Chat_Tools.thy ===== *)
theory Chat_Tools
  imports Chat_Types "HOL-Library.Multiset"
begin

text \<open>
  How the tools of a Responses request are lowered to the functions that a chat completions upstream
  knows, and how the calls of these functions are mapped back: \<open>responsesToolsToChatTools\<close> and its
  helpers in \<open>chatcompletions_responses_bridge.go\<close>, \<open>chat_tool_compat.go\<close> and
  \<open>tool_lowering_description.go\<close> under \<open>internal/pkg/apicompat\<close>.

  The SHA-256 digest of a name and the decoding of a grammar are parameters (\<open>tool_lib\<close>). A Go map
  is a list of pairs in the order in which a loop visits it; that this order, which Go leaves open,
  has no influence on \<open>customToolCallName\<close> is a theorem.
\<close>

section \<open>Strings\<close>

text \<open>\<open>for _, char := range s\<close> and \<open>string(char)\<close>: the encoded runes of a string. A byte that starts no
  valid sequence stands for the replacement character.\<close>

definition rune_width :: "string \<Rightarrow> nat" where
  "rune_width s =
     (let b = map of_char s :: nat list; ok = (\<lambda>n. n \<le> length b \<and> utf8_valid_bytes (take n b)) in
      if s = [] then 0
      else if b ! 0 < 0x80 then 1
      else if b ! 0 \<le> 0xDF then (if ok 2 then 2 else 0)
      else if b ! 0 \<le> 0xEF then (if ok 3 then 3 else 0)
      else if ok 4 then 4 else 0)"

function range_runes :: "string \<Rightarrow> string list" where
  "range_runes s =
     (if s = [] then []
      else if rune_width s = 0 then [CHR 0xEF, CHR 0xBF, CHR 0xBD] # range_runes (tl s)
      else take (rune_width s) s # range_runes (drop (rune_width s) s))"
  by pat_completeness auto
termination by (relation "measure length") auto

declare range_runes.simps [simp del]

definition hex_digit :: "nat \<Rightarrow> char" where
  "hex_digit d = (if d < 10 then char_of (48 + d) else char_of (87 + d))"

definition hex_encode :: "nat list \<Rightarrow> string" where
  "hex_encode bytes = concat (map (\<lambda>b. [hex_digit (b div 16 mod 16), hex_digit (b mod 16)]) bytes)"

fun str_join :: "string \<Rightarrow> string list \<Rightarrow> string" where
  "str_join sep [] = ''''"
| "str_join sep [s] = s"
| "str_join sep (s # t # ss) = s @ sep @ str_join sep (t # ss)"

section \<open>Names of namespace tools\<close>

record tool_lib =
  tl_sha256 :: "string \<Rightarrow> nat list"
  tl_grammar :: "string \<Rightarrow> (string \<times> string \<times> string) option"

record NamespacedToolName =
  nt_Namespace :: string
  nt_Name :: string

definition chatToolNameMaxLen :: nat where "chatToolNameMaxLen = 64"

text \<open>The loop over the runes stops at the first that does not fit.\<close>

fun rune_prefix :: "nat \<Rightarrow> string list \<Rightarrow> string \<Rightarrow> string" where
  "rune_prefix limit [] prefix = prefix"
| "rune_prefix limit (r # rs) prefix = (if limit < length prefix + length r then prefix else rune_prefix limit rs (prefix @ r))"

definition flattenNamespaceToolName :: "tool_lib \<Rightarrow> string \<Rightarrow> string \<Rightarrow> string" where
  "flattenNamespaceToolName lib namespace name =
     (let full = namespace @ ''__'' @ name in
      if length full \<le> chatToolNameMaxLen then full
      else (let suffix = ''__'' @ hex_encode (take 4 (tl_sha256 lib full)) in
            rune_prefix (chatToolNameMaxLen - length suffix) (range_runes full) '''' @ suffix))"

section \<open>Descriptions\<close>

definition joinToolDescriptions :: "string list \<Rightarrow> string" where
  "joinToolDescriptions parts = str_join [CHR 10, CHR 10] (filter (\<lambda>p. trim_space p \<noteq> '''') parts)"

definition custom_guidance :: string where
  "custom_guidance = ''This is a free-form tool exposed through a function adapter. Invoke it using structured tool calling with a JSON object whose \"input\" field contains the complete raw tool input as a string. Do not print a tool invocation in assistant text.''"

definition loweredCustomToolDescription :: "tool_lib \<Rightarrow> string \<Rightarrow> string \<Rightarrow> string" where
  "loweredCustomToolDescription lib description format =
     (let parts = [description] @ (if str_contains description custom_guidance then [] else [custom_guidance]);
          grammar = (case tl_grammar lib format of
             Some (type, syntax_name, rules) \<Rightarrow>
               (let instruction = ''The raw input must follow this '' @ syntax_name @ '' grammar:'' @ [CHR 10] @ rules in
                if type = ''grammar'' \<and> rules \<noteq> '''' \<and> \<not> has_prefix (rev instruction) (rev description) then [instruction] else [])
           | None \<Rightarrow> [])
      in joinToolDescriptions (parts @ grammar))"

definition loweredNamespaceToolDescription :: "tool_lib \<Rightarrow> string \<Rightarrow> string \<Rightarrow> string \<Rightarrow> string \<Rightarrow> string" where
  "loweredNamespaceToolDescription lib namespace name namespaceDescription description =
     (let prefix = ''Tool '' @ namespace @ ''.'' @ name @ '', exposed as '' @ flattenNamespaceToolName lib namespace name
            @ '' for structured tool calling.'' in
      if namespaceDescription = '''' \<and> has_prefix prefix description then description
      else joinToolDescriptions [prefix, namespaceDescription, description])"

section \<open>Tools\<close>

datatype ResponsesTool =
  ResponsesTool (rt_Type: string) (rt_Name: string) (rt_Description: string) (rt_Parameters: string) (rt_Format: string)
    (rt_Strict: "bool option") (rt_Tools: "ResponsesTool list") (rt_Children: "ResponsesTool list")
    (rt_AllowedXHandles: "string list") (rt_ExcludedXHandles: "string list") (rt_FromDate: string) (rt_ToDate: string)
    (rt_EnableImageUnderstanding: "bool option") (rt_EnableVideoUnderstanding: "bool option")

record ChatFunction =
  fn_Name :: string
  fn_Description :: string
  fn_Parameters :: string
  fn_Strict :: "bool option"

record ChatTool =
  tool_Type :: string
  tool_Function :: "ChatFunction option"
  tool_AllowedXHandles :: "string list"
  tool_ExcludedXHandles :: "string list"
  tool_FromDate :: string
  tool_ToDate :: string
  tool_EnableImageUnderstanding :: "bool option"
  tool_EnableVideoUnderstanding :: "bool option"

definition function_tool :: "string \<Rightarrow> string \<Rightarrow> string \<Rightarrow> bool option \<Rightarrow> ChatTool" where
  "function_tool name description parameters strict =
     \<lparr>tool_Type = ''function'', tool_Function = Some \<lparr>fn_Name = name, fn_Description = description, fn_Parameters = parameters, fn_Strict = strict\<rparr>,
      tool_AllowedXHandles = [], tool_ExcludedXHandles = [], tool_FromDate = '''', tool_ToDate = '''',
      tool_EnableImageUnderstanding = None, tool_EnableVideoUnderstanding = None\<rparr>"

definition customToolInputSchema :: string where
  "customToolInputSchema = ''{\"type\":\"object\",\"properties\":{\"input\":{\"type\":\"string\",\"description\":\"The raw input for this tool, passed through verbatim.\"}},\"required\":[\"input\"]}''"

definition toolSearchProxyName :: string where "toolSearchProxyName = ''tool_search''"

definition toolSearchProxySchema :: string where
  "toolSearchProxySchema = ''{\"type\":\"object\",\"properties\":{\"query\":{\"type\":\"string\",\"description\":\"Search query for tools or connectors to load.\"},\"limit\":{\"type\":\"integer\",\"description\":\"Maximum number of tool groups to return.\"}},\"required\":[\"query\"]}''"

definition toolSearchProxyChatTool :: ChatTool where
  "toolSearchProxyChatTool = function_tool toolSearchProxyName
     ''Search and load Codex tools, plugins, connectors, and MCP namespaces for the current task.'' toolSearchProxySchema None"

definition namespace_children :: "ResponsesTool \<Rightarrow> ResponsesTool list" where
  "namespace_children tool = filter (\<lambda>c. rt_Type c = ''function'' \<and> rt_Name c \<noteq> '''') (if rt_Tools tool = [] then rt_Children tool else rt_Tools tool)"

subsection \<open>The names that a request declares\<close>

definition CustomToolNames :: "ResponsesTool list \<Rightarrow> (string, bool) gomap" where
  "CustomToolNames tools = fold (\<lambda>t m. if rt_Type t = ''custom'' \<and> rt_Name t \<noteq> '''' then gm_put (rt_Name t) True m else m) tools []"

definition FunctionToolNames :: "ResponsesTool list \<Rightarrow> (string, bool) gomap" where
  "FunctionToolNames tools = fold (\<lambda>t m. if rt_Type t = ''function'' then gm_put (rt_Name t) True m else m) tools []"

definition namespaced :: "ResponsesTool \<Rightarrow> ResponsesTool \<Rightarrow> NamespacedToolName" where
  "namespaced tool child = \<lparr>nt_Namespace = rt_Name tool, nt_Name = rt_Name child\<rparr>"

definition NamespaceToolNames :: "tool_lib \<Rightarrow> ResponsesTool list \<Rightarrow> (string, NamespacedToolName) gomap" where
  "NamespaceToolNames lib tools =
     fold (\<lambda>t m. if rt_Type t = ''namespace'' \<and> rt_Name t \<noteq> ''''
                 then fold (\<lambda>c. gm_put (flattenNamespaceToolName lib (rt_Name t) (rt_Name c)) (namespaced t c)) (namespace_children t) m
                 else m) tools []"

definition HasToolSearchTool :: "ResponsesTool list \<Rightarrow> bool" where
  "HasToolSearchTool tools = list_ex (\<lambda>t. rt_Type t = ''tool_search'') tools"

subsection \<open>Lowering\<close>

datatype tool_error =
    CustomFunctionConflict string
  | ToolSearchConflict
  | TopLevelConflict NamespacedToolName string
  | FlattenConflict NamespacedToolName NamespacedToolName string

text \<open>The first loop: the names that top-level tools own.\<close>

fun top_level_names :: "ResponsesTool list \<Rightarrow> (string, string) gomap \<Rightarrow> (string, bool) gomap \<Rightarrow> tool_error + (string, bool) gomap" where
  "top_level_names [] types topLevel = Inr topLevel"
| "top_level_names (t # ts) types topLevel =
     (if rt_Type t = ''x_search'' then top_level_names ts types (gm_put ''x_search'' True topLevel)
      else if (rt_Type t = ''function'' \<or> rt_Type t = ''custom'') \<and> rt_Name t \<noteq> '''' then
        (case gm_get types (rt_Name t) of
           Some previous \<Rightarrow>
             (if previous \<noteq> rt_Type t then Inl (CustomFunctionConflict (rt_Name t))
              else top_level_names ts (gm_put (rt_Name t) (rt_Type t) types) (gm_put (rt_Name t) True topLevel))
         | None \<Rightarrow> top_level_names ts (gm_put (rt_Name t) (rt_Type t) types) (gm_put (rt_Name t) True topLevel))
      else top_level_names ts types topLevel)"

fun lower_children :: "tool_lib \<Rightarrow> ResponsesTool \<Rightarrow> (string, bool) gomap \<Rightarrow> ResponsesTool list \<Rightarrow> (string, NamespacedToolName) gomap
    \<Rightarrow> tool_error + ((string, NamespacedToolName) gomap \<times> ChatTool list)" where
  "lower_children lib tool topLevel [] owner = Inr (owner, [])"
| "lower_children lib tool topLevel (child # children) owner =
     (let flat = flattenNamespaceToolName lib (rt_Name tool) (rt_Name child); entry = namespaced tool child in
      if gm_getd False topLevel flat then Inl (TopLevelConflict entry flat)
      else case gm_get owner flat of
        Some previous \<Rightarrow> (if previous = entry then lower_children lib tool topLevel children owner else Inl (FlattenConflict previous entry flat))
      | None \<Rightarrow>
          (case lower_children lib tool topLevel children (gm_put flat entry owner) of
             Inl err \<Rightarrow> Inl err
           | Inr (owner', out) \<Rightarrow>
               Inr (owner', function_tool flat (loweredNamespaceToolDescription lib (rt_Name tool) (rt_Name child) (rt_Description tool) (rt_Description child))
                 (rt_Parameters child) (rt_Strict child) # out)))"

definition namespaceChildrenToChatTools :: "tool_lib \<Rightarrow> ResponsesTool \<Rightarrow> (string, bool) gomap \<Rightarrow> (string, NamespacedToolName) gomap
    \<Rightarrow> tool_error + ((string, NamespacedToolName) gomap \<times> ChatTool list)" where
  "namespaceChildrenToChatTools lib tool topLevel flatOwner =
     (if rt_Name tool = '''' then Inr (flatOwner, []) else lower_children lib tool topLevel (namespace_children tool) flatOwner)"

definition x_search_tool :: "ResponsesTool \<Rightarrow> ChatTool" where
  "x_search_tool t = \<lparr>tool_Type = ''x_search'', tool_Function = None, tool_AllowedXHandles = rt_AllowedXHandles t,
     tool_ExcludedXHandles = rt_ExcludedXHandles t, tool_FromDate = rt_FromDate t, tool_ToDate = rt_ToDate t,
     tool_EnableImageUnderstanding = rt_EnableImageUnderstanding t, tool_EnableVideoUnderstanding = rt_EnableVideoUnderstanding t\<rparr>"

fun lower_tools :: "tool_lib \<Rightarrow> (string, bool) gomap \<Rightarrow> ResponsesTool list \<Rightarrow> (string, NamespacedToolName) gomap \<Rightarrow> bool \<Rightarrow> ChatTool list
    \<Rightarrow> tool_error + ChatTool list" where
  "lower_tools lib topLevel [] owner searched out = Inr out"
| "lower_tools lib topLevel (t # ts) owner searched out =
     (if rt_Type t = ''x_search'' then lower_tools lib topLevel ts owner searched (out @ [x_search_tool t])
      else if rt_Type t = ''function'' then
        lower_tools lib topLevel ts owner searched (out @ [function_tool (rt_Name t) (rt_Description t) (rt_Parameters t) (rt_Strict t)])
      else if rt_Type t = ''custom'' then
        lower_tools lib topLevel ts owner searched
          (out @ [function_tool (rt_Name t) (loweredCustomToolDescription lib (rt_Description t) (rt_Format t)) customToolInputSchema None])
      else if rt_Type t = ''tool_search'' then
        (if gm_getd False topLevel toolSearchProxyName then Inl ToolSearchConflict
         else lower_tools lib topLevel ts owner True (if searched then out else out @ [toolSearchProxyChatTool]))
      else if rt_Type t = ''namespace'' then
        (case namespaceChildrenToChatTools lib t topLevel owner of
           Inl err \<Rightarrow> Inl err
         | Inr (owner', flattened) \<Rightarrow> lower_tools lib topLevel ts owner' searched (out @ flattened))
      else lower_tools lib topLevel ts owner searched out)"

definition responsesToolsToChatTools :: "tool_lib \<Rightarrow> ResponsesTool list \<Rightarrow> tool_error + ChatTool list" where
  "responsesToolsToChatTools lib tools =
     (case top_level_names tools [] [] of
        Inl err \<Rightarrow> Inl err
      | Inr topLevel \<Rightarrow> lower_tools lib topLevel tools [] False [])"

section \<open>The way back\<close>

text \<open>The double loop over custom tools and namespaces; \<open>None\<close> is the early return at the second match.\<close>

fun alias_loop :: "tool_lib \<Rightarrow> string \<Rightarrow> (string \<times> NamespacedToolName) list \<Rightarrow> string \<Rightarrow> string option" where
  "alias_loop lib name [] found = Some found"
| "alias_loop lib name ((candidate, ns) # rest) found =
     (if flattenNamespaceToolName lib (nt_Namespace ns) candidate = name
      then (if found \<noteq> '''' \<and> found \<noteq> candidate then None else alias_loop lib name rest candidate)
      else alias_loop lib name rest found)"

definition alias_pairs :: "(string, bool) gomap \<Rightarrow> (string, NamespacedToolName) gomap \<Rightarrow> (string \<times> NamespacedToolName) list" where
  "alias_pairs custom namespaces = concat (map (\<lambda>(candidate, _). map (\<lambda>(_, ns). (candidate, ns)) namespaces) custom)"

definition customToolCallName ::
  "tool_lib \<Rightarrow> string \<Rightarrow> (string, bool) gomap \<Rightarrow> (string, bool) gomap \<Rightarrow> (string, NamespacedToolName) gomap \<Rightarrow> string option" where
  "customToolCallName lib name custom functions namespaces =
     (if gm_getd False functions name then None
      else if gm_getd False custom name then Some name
      else if gm_get namespaces name \<noteq> None then None
      else case alias_loop lib name (alias_pairs custom namespaces) '''' of
        None \<Rightarrow> None
      | Some found \<Rightarrow> (if found = '''' then None else Some found))"

definition call_arguments_ok :: "(string \<Rightarrow> bool) \<Rightarrow> string \<Rightarrow> bool" where
  "call_arguments_ok valid arguments \<longleftrightarrow> (let args = trim_space arguments in args = '''' \<or> valid args)"

definition ValidateChatToolCalls ::
  "tool_lib \<Rightarrow> (string \<Rightarrow> bool) \<Rightarrow> ChatCompletionsResponse \<Rightarrow> (string, bool) gomap \<Rightarrow> bool \<Rightarrow> (string, NamespacedToolName) gomap
    \<Rightarrow> (string, bool) gomap \<Rightarrow> ChatToolCall option" where
  "ValidateChatToolCalls lib valid resp custom toolSearch namespaces functions =
     List.find (\<lambda>call. \<not> (toolSearch \<and> cf_Name (tc_Function call) = toolSearchProxyName)
        \<and> customToolCallName lib (cf_Name (tc_Function call)) custom functions namespaces = None
        \<and> \<not> call_arguments_ok valid (cf_Arguments (tc_Function call)))
       (concat (map (\<lambda>choice. cm_ToolCalls (cc_Message choice)) (cr_Choices resp)))"

section \<open>Flattened names\<close>

lemma rune_prefix_length: "length prefix \<le> limit \<Longrightarrow> length (rune_prefix limit rs prefix) \<le> limit"
  by (induction rs arbitrary: prefix) auto

lemma hex_encode_length: "length (hex_encode bytes) = 2 * length bytes"
  unfolding hex_encode_def by (induction bytes) auto

lemma flatten_length: "length (flattenNamespaceToolName lib namespace name) \<le> 64"
proof -
  define suffix where "suffix = ''__'' @ hex_encode (take 4 (tl_sha256 lib (namespace @ ''__'' @ name)))"
  have "length suffix \<le> 64" by (simp add: suffix_def hex_encode_length)
  moreover have "length (rune_prefix (64 - length suffix) rs '''') \<le> 64 - length suffix" for rs
    by (rule rune_prefix_length) simp
  ultimately have "length (rune_prefix (64 - length suffix) rs '''' @ suffix) \<le> 64" for rs
    unfolding length_append by (metis add_le_mono1 le_add_diff_inverse2)
  then show ?thesis unfolding flattenNamespaceToolName_def Let_def chatToolNameMaxLen_def suffix_def [symmetric] by simp
qed

lemma flatten_separator: "\<exists>a b. flattenNamespaceToolName lib namespace name = a @ ''__'' @ b"
  by (simp add: flattenNamespaceToolName_def Let_def) blast

lemma flatten_not_proxy: "flattenNamespaceToolName lib namespace name \<noteq> toolSearchProxyName"
proof -
  obtain a b where "flattenNamespaceToolName lib namespace name = a @ ''__'' @ b" using flatten_separator by blast
  moreover have "a @ ''__'' @ b \<noteq> ''tool_search''" by (auto simp: append_eq_Cons_conv)
  ultimately show ?thesis by (simp add: toolSearchProxyName_def)
qed

lemma flatten_nonempty: "flattenNamespaceToolName lib namespace name \<noteq> ''''"
  using flatten_separator [of lib namespace name] by auto

section \<open>The order of a map has no influence\<close>

definition alias_candidates :: "tool_lib \<Rightarrow> string \<Rightarrow> (string \<times> NamespacedToolName) set \<Rightarrow> string set" where
  "alias_candidates lib name pairs = {c. \<exists>ns. (c, ns) \<in> pairs \<and> flattenNamespaceToolName lib (nt_Namespace ns) c = name}"

lemma alias_candidates_insert:
  "alias_candidates lib name (insert (c, ns) pairs) =
     (if flattenNamespaceToolName lib (nt_Namespace ns) c = name then insert c (alias_candidates lib name pairs) else alias_candidates lib name pairs)"
  by (auto simp: alias_candidates_def)

text \<open>The result of the loop is a function of the set of candidates.\<close>

lemma alias_loop_found:
  assumes "'''' \<notin> fst ` set ps" "found \<noteq> ''''"
  shows "alias_loop lib name ps found = (if alias_candidates lib name (set ps) \<subseteq> {found} then Some found else None)"
  using assms by (induction ps arbitrary: found) (auto simp: alias_candidates_insert alias_candidates_def [of _ _ "{}"] split: if_splits)

lemma alias_loop_start:
  assumes "'''' \<notin> fst ` set ps"
  shows "alias_loop lib name ps '''' =
    (if alias_candidates lib name (set ps) = {} then Some ''''
     else if \<exists>c. alias_candidates lib name (set ps) = {c} then Some (the_elem (alias_candidates lib name (set ps))) else None)"
  using assms
proof (induction ps)
  case Nil
  then show ?case by (simp add: alias_candidates_def)
next
  case (Cons p ps)
  obtain c ns where p: "p = (c, ns)" by fastforce
  have "c \<noteq> ''''" "'''' \<notin> fst ` set ps" using Cons.prems p by auto
  show ?case
  proof (cases "flattenNamespaceToolName lib (nt_Namespace ns) c = name")
    case True
    let ?S = "alias_candidates lib name (set ps)"
    have "alias_loop lib name (p # ps) '''' = (if ?S \<subseteq> {c} then Some c else None)"
      using True by (simp add: p alias_loop_found [OF \<open>'''' \<notin> fst ` set ps\<close> \<open>c \<noteq> ''''\<close>])
    moreover have "alias_candidates lib name (set (p # ps)) = insert c ?S" using True by (simp add: p alias_candidates_insert)
    moreover have "(\<exists>c'. insert c ?S = {c'}) \<longleftrightarrow> ?S \<subseteq> {c}" "?S \<subseteq> {c} \<Longrightarrow> insert c ?S = {c}" by auto
    ultimately show ?thesis by (cases "?S \<subseteq> {c}") simp_all
  next
    case False
    then show ?thesis using Cons.IH [OF \<open>'''' \<notin> fst ` set ps\<close>] by (simp add: p alias_candidates_insert)
  qed
qed

lemma set_alias_pairs: "set (alias_pairs custom namespaces) = fst ` set custom \<times> snd ` set namespaces"
  by (force simp: alias_pairs_def)

lemma gm_get_order:
  assumes "gm_ok m" "mset m = mset m'"
  shows "gm_get m k = gm_get m' k"
proof -
  have "mset (map fst m) = mset (map fst m')" using assms(2) by simp
  then have "gm_ok m'" using assms(1) unfolding gm_ok_def by (metis mset_eq_imp_distinct_iff)
  moreover have "set m = set m'" using assms(2) by (rule mset_eq_setD)
  ultimately show ?thesis using assms(1) by (metis gm_get_eq_Some not_None_eq)
qed

text \<open>Restoring the name of a custom tool call does not depend on the order in which Go visits its
  maps. For the names of a request, where every custom tool has a name, two visits in different
  orders find the same tool, or both find that the name is ambiguous.\<close>

theorem custom_name_deterministic:
  assumes "gm_ok custom" "gm_ok namespaces" "'''' \<notin> fst ` set custom"
    and "mset custom = mset custom'" "mset namespaces = mset namespaces'"
  shows "customToolCallName lib name custom functions namespaces = customToolCallName lib name custom' functions namespaces'"
proof -
  have sets: "set custom = set custom'" "set namespaces = set namespaces'" using assms(4,5) by (auto dest: mset_eq_setD)
  then have "set (alias_pairs custom namespaces) = set (alias_pairs custom' namespaces')" by (simp add: set_alias_pairs)
  moreover have "'''' \<notin> fst ` set (alias_pairs custom namespaces)" "'''' \<notin> fst ` set (alias_pairs custom' namespaces')"
    using assms(3) sets by (auto simp: set_alias_pairs)
  ultimately have "alias_loop lib name (alias_pairs custom namespaces) '''' = alias_loop lib name (alias_pairs custom' namespaces') ''''"
    by (simp add: alias_loop_start)
  then show ?thesis
    using gm_get_order [OF assms(1,4)] gm_get_order [OF assms(2,5)] by (simp add: customToolCallName_def gm_getd_def)
qed

theorem custom_name_deterministic_witness:
  "customToolCallName \<lparr>tl_sha256 = (\<lambda>s. []), tl_grammar = (\<lambda>s. None)\<rparr> ''ns__patch'' [(''patch'', True), (''shell'', True)] []
     [(''ns__ls'', \<lparr>nt_Namespace = ''ns'', nt_Name = ''ls''\<rparr>)] = Some ''patch''"
proof -
  let ?lib = "\<lparr>tl_sha256 = (\<lambda>s. []), tl_grammar = (\<lambda>s. None)\<rparr>" and ?ns = "[(''ns__ls'', \<lparr>nt_Namespace = ''ns'', nt_Name = ''ls''\<rparr>)]"
  have "customToolCallName ?lib ''ns__patch'' [(''shell'', True), (''patch'', True)] [] ?ns = Some ''patch''" by code_simp
  moreover have "customToolCallName ?lib ''ns__patch'' [(''shell'', True), (''patch'', True)] [] ?ns =
      customToolCallName ?lib ''ns__patch'' [(''patch'', True), (''shell'', True)] [] ?ns"
    by (rule custom_name_deterministic) (simp_all add: gm_ok_def)
  ultimately show ?thesis by simp
qed

section \<open>Lowered names belong to one tool\<close>

definition fn_names :: "ChatTool list \<Rightarrow> string set" where
  "fn_names out = {n. \<exists>t \<in> set out. \<exists>f. tool_Function t = Some f \<and> fn_Name f = n}"

lemma fn_names_simps [simp]:
  "fn_names [] = {}" "fn_names (xs @ ys) = fn_names xs \<union> fn_names ys"
  "fn_names (function_tool n d p s # xs) = insert n (fn_names xs)" "fn_names (x_search_tool t # xs) = fn_names xs"
  by (auto simp: fn_names_def function_tool_def x_search_tool_def)

definition declare_child :: "tool_lib \<Rightarrow> ResponsesTool \<Rightarrow> ResponsesTool \<Rightarrow> (string, NamespacedToolName) gomap \<Rightarrow> (string, NamespacedToolName) gomap" where
  "declare_child lib t c = gm_put (flattenNamespaceToolName lib (rt_Name t) (rt_Name c)) (namespaced t c)"

definition owns :: "tool_lib \<Rightarrow> (string, bool) gomap \<Rightarrow> (string, NamespacedToolName) gomap \<Rightarrow> ResponsesTool \<Rightarrow> ResponsesTool \<Rightarrow> bool" where
  "owns lib topLevel owner t c \<longleftrightarrow> gm_get owner (flattenNamespaceToolName lib (rt_Name t) (rt_Name c)) = Some (namespaced t c)
     \<and> \<not> gm_getd False topLevel (flattenNamespaceToolName lib (rt_Name t) (rt_Name c))"

lemma declare_cong: "gm_get m = gm_get m' \<Longrightarrow> gm_get (fold (declare_child lib t) cs m) = gm_get (fold (declare_child lib t) cs m')"
  by (induction cs arbitrary: m m') (auto simp: declare_child_def fun_eq_iff)

lemma lower_children_owns:
  assumes "lower_children lib t topLevel cs owner = Inr (owner', out)"
  shows "gm_get owner k = Some v \<Longrightarrow> gm_get owner' k = Some v"
    and "c \<in> set cs \<Longrightarrow> owns lib topLevel owner' t c"
    and "fst ` set owner' = fst ` set owner \<union> fn_names out"
    and "gm_get (fold (declare_child lib t) cs owner) = gm_get owner'"
proof -
  have "(\<forall>k v. gm_get owner k = Some v \<longrightarrow> gm_get owner' k = Some v) \<and> (\<forall>c \<in> set cs. owns lib topLevel owner' t c)
      \<and> fst ` set owner' = fst ` set owner \<union> fn_names out \<and> gm_get (fold (declare_child lib t) cs owner) = gm_get owner'"
    using assms
  proof (induction cs arbitrary: owner owner' out)
    case (Cons c cs)
    let ?flat = "flattenNamespaceToolName lib (rt_Name t) (rt_Name c)"
    from Cons.prems have nt: "\<not> gm_getd False topLevel ?flat" by (auto simp: Let_def split: if_splits)
    show ?case
    proof (cases "gm_get owner ?flat")
      case None
      with Cons.prems nt obtain out' where rest: "lower_children lib t topLevel cs (gm_put ?flat (namespaced t c) owner) = Inr (owner', out')"
          "fn_names out = insert ?flat (fn_names out')"
        by (auto simp: Let_def split: sum.splits)
      note ih = Cons.IH [OF rest(1)]
      have "gm_get owner' ?flat = Some (namespaced t c)" using ih by (metis gm_get_put)
      moreover have "\<forall>d \<in> set cs. owns lib topLevel owner' t d" using ih by blast
      ultimately have "\<forall>d \<in> set (c # cs). owns lib topLevel owner' t d" using nt by (simp add: owns_def)
      moreover have "\<forall>k v. gm_get owner k = Some v \<longrightarrow> gm_get owner' k = Some v" using ih None by (metis gm_get_put option.distinct(1))
      moreover have "fst ` set owner' = fst ` set owner \<union> fn_names out" using ih rest(2) by (simp add: fst_set_gm_put)
      ultimately show ?thesis using ih by (simp add: declare_child_def)
    next
      case (Some p)
      with Cons.prems nt have p: "p = namespaced t c" and rest: "lower_children lib t topLevel cs owner = Inr (owner', out)"
        by (auto simp: Let_def split: if_splits)
      have "gm_get (gm_put ?flat p owner) = gm_get owner" using Some by (auto simp: fun_eq_iff)
      from declare_cong [OF this]
      have "gm_get (fold (declare_child lib t) (c # cs) owner) = gm_get (fold (declare_child lib t) cs owner)"
        by (simp add: declare_child_def p)
      with Cons.IH [OF rest] Some p nt show ?thesis by (auto simp: owns_def)
    qed
  qed auto
  then show "gm_get owner k = Some v \<Longrightarrow> gm_get owner' k = Some v" "c \<in> set cs \<Longrightarrow> owns lib topLevel owner' t c"
    "fst ` set owner' = fst ` set owner \<union> fn_names out" "gm_get (fold (declare_child lib t) cs owner) = gm_get owner'" by blast+
qed

definition declare_tool :: "tool_lib \<Rightarrow> ResponsesTool \<Rightarrow> (string, NamespacedToolName) gomap \<Rightarrow> (string, NamespacedToolName) gomap" where
  "declare_tool lib t m =
     (if rt_Type t = ''namespace'' \<and> rt_Name t \<noteq> '''' then fold (declare_child lib t) (namespace_children t) m else m)"

lemma NamespaceToolNames_fold: "NamespaceToolNames lib tools = fold (declare_tool lib) tools []"
  unfolding NamespaceToolNames_def declare_tool_def [abs_def] declare_child_def [abs_def] ..

lemma declare_tools_cong: "gm_get m = gm_get m' \<Longrightarrow> gm_get (fold (declare_tool lib) ts m) = gm_get (fold (declare_tool lib) ts m')"
proof (induction ts arbitrary: m m')
  case (Cons t ts)
  have "gm_get (declare_tool lib t m) = gm_get (declare_tool lib t m')"
    by (cases "rt_Type t = ''namespace'' \<and> rt_Name t \<noteq> ''''")
      (simp_all only: declare_tool_def if_True if_False declare_cong [OF Cons.prems] Cons.prems simp_thms)
  from Cons.IH [OF this] show ?case by simp
qed simp

text \<open>What a namespace step of the second loop does to the owners.\<close>

lemma namespace_step:
  assumes "namespaceChildrenToChatTools lib t topLevel owner = Inr (owner1, flattened)" "rt_Type t = ''namespace''"
  shows "\<forall>k v. gm_get owner k = Some v \<longrightarrow> gm_get owner1 k = Some v"
    and "rt_Name t \<noteq> '''' \<Longrightarrow> c \<in> set (namespace_children t) \<Longrightarrow> owns lib topLevel owner1 t c"
    and "fst ` set owner1 = fst ` set owner \<union> fn_names flattened"
    and "gm_get (declare_tool lib t owner) = gm_get owner1"
  using assms lower_children_owns [of lib t topLevel "namespace_children t" owner owner1 flattened]
  by (auto simp: namespaceChildrenToChatTools_def declare_tool_def split: if_splits)

definition lowered :: "tool_lib \<Rightarrow> (string, bool) gomap \<Rightarrow> ResponsesTool list \<Rightarrow> (string, NamespacedToolName) gomap \<Rightarrow> (string, NamespacedToolName) gomap \<Rightarrow> bool" where
  "lowered lib topLevel ts owner owner' \<longleftrightarrow>
     (\<forall>k v. gm_get owner k = Some v \<longrightarrow> gm_get owner' k = Some v)
     \<and> (\<forall>t \<in> set ts. rt_Type t = ''namespace'' \<and> rt_Name t \<noteq> '''' \<longrightarrow> (\<forall>c \<in> set (namespace_children t). owns lib topLevel owner' t c))
     \<and> gm_get (fold (declare_tool lib) ts owner) = gm_get owner'"

lemma owns_mono: "owns lib topLevel owner t c \<Longrightarrow> \<forall>k v. gm_get owner k = Some v \<longrightarrow> gm_get owner' k = Some v \<Longrightarrow> owns lib topLevel owner' t c"
  by (auto simp: owns_def)

lemma lowered_other: "rt_Type t \<noteq> ''namespace'' \<Longrightarrow> lowered lib topLevel ts owner owner' \<Longrightarrow> lowered lib topLevel (t # ts) owner owner'"
  by (simp add: lowered_def declare_tool_def)

lemma lowered_namespace:
  assumes "namespaceChildrenToChatTools lib t topLevel owner = Inr (owner1, flattened)" "rt_Type t = ''namespace''" "lowered lib topLevel ts owner1 owner'"
  shows "lowered lib topLevel (t # ts) owner owner'"
proof -
  note step = namespace_step [OF assms(1,2)]
  have mono: "\<forall>k v. gm_get owner1 k = Some v \<longrightarrow> gm_get owner' k = Some v" using assms(3) by (simp add: lowered_def)
  have "gm_get (fold (declare_tool lib) ts (declare_tool lib t owner)) = gm_get (fold (declare_tool lib) ts owner1)"
    using declare_tools_cong [OF step(4)] .
  moreover have "owns lib topLevel owner' t c" if "rt_Name t \<noteq> ''''" "c \<in> set (namespace_children t)" for c
    using owns_mono [OF step(2) [OF that] mono] .
  ultimately show ?thesis using assms(3) step(1) mono unfolding lowered_def by auto
qed

lemma lower_tools_lowered:
  assumes "lower_tools lib topLevel ts owner searched out = Inr res" "fst ` set owner \<subseteq> fn_names out"
  shows "\<exists>owner'. lowered lib topLevel ts owner owner' \<and> fst ` set owner' \<subseteq> fn_names res \<and> set out \<subseteq> set res"
  using assms
proof (induction ts arbitrary: owner searched out)
  case Nil
  then show ?case by (auto simp: lowered_def)
next
  case (Cons t ts)
  show ?case
  proof (cases "rt_Type t = ''namespace''")
    case True
    with Cons.prems(1) obtain owner1 flattened where step: "namespaceChildrenToChatTools lib t topLevel owner = Inr (owner1, flattened)"
        and rest: "lower_tools lib topLevel ts owner1 searched (out @ flattened) = Inr res"
      by (auto split: sum.splits prod.splits)
    have "fst ` set owner1 \<subseteq> fn_names (out @ flattened)" using namespace_step(3) [OF step True] Cons.prems(2) by auto
    from Cons.IH [OF rest this] obtain owner' where "lowered lib topLevel ts owner1 owner'" "fst ` set owner' \<subseteq> fn_names res" "set out \<subseteq> set res" by auto
    with lowered_namespace [OF step True] show ?thesis by blast
  next
    case False
    with Cons.prems(1) obtain searched' more_tools where rest: "lower_tools lib topLevel ts owner searched' (out @ more_tools) = Inr res"
      by (auto split: if_splits) (metis append_Nil2)+
    have "fst ` set owner \<subseteq> fn_names (out @ more_tools)" using Cons.prems(2) by auto
    from Cons.IH [OF rest this] obtain owner' where "lowered lib topLevel ts owner owner'" "fst ` set owner' \<subseteq> fn_names res" "set out \<subseteq> set res" by auto
    with lowered_other [OF False] show ?thesis by blast
  qed
qed

lemma lower_tools_names:
  assumes "lower_tools lib topLevel ts owner searched out = Inr res"
  shows "fn_names out \<subseteq> fn_names res"
    and "t \<in> set ts \<Longrightarrow> rt_Type t \<in> {''function'', ''custom''} \<Longrightarrow> rt_Name t \<in> fn_names res"
proof -
  have "fn_names out \<subseteq> fn_names res \<and> (\<forall>t \<in> set ts. rt_Type t \<in> {''function'', ''custom''} \<longrightarrow> rt_Name t \<in> fn_names res)"
    using assms
  proof (induction ts arbitrary: owner searched out)
    case (Cons t ts)
    from Cons.prems obtain owner' searched' more_tools where rest: "lower_tools lib topLevel ts owner' searched' (out @ more_tools) = Inr res"
        "rt_Type t \<in> {''function'', ''custom''} \<longrightarrow> rt_Name t \<in> fn_names more_tools"
      by (auto split: if_splits sum.splits prod.splits) (metis append_Nil2)+
    from Cons.IH [OF rest(1)] rest(2) show ?case by auto
  qed simp
  then show "fn_names out \<subseteq> fn_names res" "t \<in> set ts \<Longrightarrow> rt_Type t \<in> {''function'', ''custom''} \<Longrightarrow> rt_Name t \<in> fn_names res" by auto
qed

definition top_tool :: "ResponsesTool \<Rightarrow> bool" where
  "top_tool t \<longleftrightarrow> (rt_Type t = ''function'' \<or> rt_Type t = ''custom'') \<and> rt_Name t \<noteq> ''''"

lemma top_level_names_ok:
  assumes "top_level_names ts types topLevel = Inr topLevel'"
  shows "gm_getd False topLevel n \<Longrightarrow> gm_getd False topLevel' n"
    and "t \<in> set ts \<Longrightarrow> top_tool t \<Longrightarrow> gm_getd False topLevel' (rt_Name t)"
    and "t \<in> set ts \<Longrightarrow> top_tool t \<Longrightarrow> gm_get types (rt_Name t) = Some ty \<Longrightarrow> rt_Type t = ty"
    and "t \<in> set ts \<Longrightarrow> top_tool t \<Longrightarrow> u \<in> set ts \<Longrightarrow> top_tool u \<Longrightarrow> rt_Name t = rt_Name u \<Longrightarrow> rt_Type t = rt_Type u"
proof -
  have "(\<forall>n. gm_getd False topLevel n \<longrightarrow> gm_getd False topLevel' n) \<and> (\<forall>t \<in> set ts. top_tool t \<longrightarrow> gm_getd False topLevel' (rt_Name t))
      \<and> (\<forall>t \<in> set ts. top_tool t \<longrightarrow> (\<forall>ty. gm_get types (rt_Name t) = Some ty \<longrightarrow> rt_Type t = ty))
      \<and> (\<forall>t \<in> set ts. \<forall>u \<in> set ts. top_tool t \<longrightarrow> top_tool u \<longrightarrow> rt_Name t = rt_Name u \<longrightarrow> rt_Type t = rt_Type u)"
    using assms
  proof (induction ts arbitrary: types topLevel)
    case (Cons t ts)
    show ?case
    proof (cases "top_tool t")
      case True
      then have "rt_Type t \<noteq> ''x_search''" by (auto simp: top_tool_def)
      with True Cons.prems have rest: "top_level_names ts (gm_put (rt_Name t) (rt_Type t) types) (gm_put (rt_Name t) True topLevel) = Inr topLevel'"
          and same: "\<forall>ty. gm_get types (rt_Name t) = Some ty \<longrightarrow> rt_Type t = ty"
        by (auto simp: top_tool_def split: if_splits option.splits)
      note ih = Cons.IH [OF rest]
      have f1: "\<forall>u \<in> set ts. top_tool u \<longrightarrow> rt_Name u = rt_Name t \<longrightarrow> rt_Type u = rt_Type t"
        using ih by auto
      have f2: "\<forall>u \<in> set ts. top_tool u \<longrightarrow> (\<forall>ty. gm_get types (rt_Name u) = Some ty \<longrightarrow> rt_Type u = ty)"
        using ih same f1 by (metis gm_get_put)
      have f3: "\<forall>n. gm_getd False topLevel n \<longrightarrow> gm_getd False topLevel' n" "gm_getd False topLevel' (rt_Name t)"
        using ih by (metis gm_getd_put)+
      have f4: "\<forall>u \<in> set ts. top_tool u \<longrightarrow> gm_getd False topLevel' (rt_Name u)"
        "\<forall>u \<in> set ts. \<forall>w \<in> set ts. top_tool u \<longrightarrow> top_tool w \<longrightarrow> rt_Name u = rt_Name w \<longrightarrow> rt_Type u = rt_Type w" using ih by blast+
      have "\<forall>u \<in> set (t # ts). \<forall>w \<in> set (t # ts). top_tool u \<longrightarrow> top_tool w \<longrightarrow> rt_Name u = rt_Name w \<longrightarrow> rt_Type u = rt_Type w"
      proof (intro ballI impI)
        fix u w
        assume "u \<in> set (t # ts)" "w \<in> set (t # ts)" "top_tool u" "top_tool w" "rt_Name u = rt_Name w"
        then show "rt_Type u = rt_Type w"
          using f1 [rule_format, of u] f1 [rule_format, of w] f4(2) [rule_format, of u w] by (cases "u = t"; cases "w = t") simp_all
      qed
      moreover have "\<forall>u \<in> set (t # ts). top_tool u \<longrightarrow> (\<forall>ty. gm_get types (rt_Name u) = Some ty \<longrightarrow> rt_Type u = ty)"
        unfolding list.set using f2 same by blast
      moreover have "\<forall>u \<in> set (t # ts). top_tool u \<longrightarrow> gm_getd False topLevel' (rt_Name u)"
        unfolding list.set using f3(2) f4(1) by blast
      ultimately show ?thesis using f3(1) by blast
    next
      case False
      then obtain top1 where rest: "top_level_names ts types top1 = Inr topLevel'" and mono: "\<forall>n. gm_getd False topLevel n \<longrightarrow> gm_getd False top1 n"
        using Cons.prems by (cases "rt_Type t = ''x_search''") (auto simp: top_tool_def split: if_splits)
      have skip: "(\<forall>u \<in> set (t # ts). top_tool u \<longrightarrow> P u) \<longleftrightarrow> (\<forall>u \<in> set ts. top_tool u \<longrightarrow> P u)" for P using False by simp
      have "\<forall>u \<in> set (t # ts). \<forall>w \<in> set (t # ts). top_tool u \<longrightarrow> top_tool w \<longrightarrow> rt_Name u = rt_Name w \<longrightarrow> rt_Type u = rt_Type w"
      proof (intro ballI impI)
        fix u w
        assume "u \<in> set (t # ts)" "w \<in> set (t # ts)" "top_tool u" "top_tool w" "rt_Name u = rt_Name w"
        moreover from this False have "u \<in> set ts" "w \<in> set ts" by auto
        ultimately show "rt_Type u = rt_Type w" using Cons.IH [OF rest] by blast
      qed
      with Cons.IH [OF rest] mono show ?thesis unfolding skip by blast
    qed
  qed simp
  then show "gm_getd False topLevel n \<Longrightarrow> gm_getd False topLevel' n" "t \<in> set ts \<Longrightarrow> top_tool t \<Longrightarrow> gm_getd False topLevel' (rt_Name t)"
    "t \<in> set ts \<Longrightarrow> top_tool t \<Longrightarrow> gm_get types (rt_Name t) = Some ty \<Longrightarrow> rt_Type t = ty"
    "t \<in> set ts \<Longrightarrow> top_tool t \<Longrightarrow> u \<in> set ts \<Longrightarrow> top_tool u \<Longrightarrow> rt_Name t = rt_Name u \<Longrightarrow> rt_Type t = rt_Type u" by blast+
qed

lemma CustomToolNames_iff: "gm_getd False (CustomToolNames tools) n \<longleftrightarrow> (\<exists>t \<in> set tools. rt_Type t = ''custom'' \<and> rt_Name t = n \<and> n \<noteq> '''')"
proof -
  have "gm_getd False (fold (\<lambda>t m. if rt_Type t = ''custom'' \<and> rt_Name t \<noteq> '''' then gm_put (rt_Name t) True m else m) tools m) n
      \<longleftrightarrow> gm_getd False m n \<or> (\<exists>t \<in> set tools. rt_Type t = ''custom'' \<and> rt_Name t = n \<and> n \<noteq> '''')" for m
    by (induction tools arbitrary: m) auto
  then show ?thesis by (simp add: CustomToolNames_def)
qed

lemma FunctionToolNames_iff: "gm_getd False (FunctionToolNames tools) n \<longleftrightarrow> (\<exists>t \<in> set tools. rt_Type t = ''function'' \<and> rt_Name t = n)"
proof -
  have "gm_getd False (fold (\<lambda>t m. if rt_Type t = ''function'' then gm_put (rt_Name t) True m else m) tools m) n
      \<longleftrightarrow> gm_getd False m n \<or> (\<exists>t \<in> set tools. rt_Type t = ''function'' \<and> rt_Name t = n)" for m
    by (induction tools arbitrary: m) auto
  then show ?thesis by (simp add: FunctionToolNames_def)
qed

lemma declared_namespace:
  assumes "gm_get (NamespaceToolNames lib tools) n = Some v"
  obtains t c where "t \<in> set tools" "rt_Type t = ''namespace''" "rt_Name t \<noteq> ''''" "c \<in> set (namespace_children t)"
    "n = flattenNamespaceToolName lib (rt_Name t) (rt_Name c)"
proof -
  have child: "gm_get (fold (declare_child lib t) cs m) n = Some v \<Longrightarrow> gm_get m n = Some v \<or> (\<exists>c \<in> set cs. n = flattenNamespaceToolName lib (rt_Name t) (rt_Name c))" for t cs m
  proof (induction cs arbitrary: m)
    case (Cons c cs)
    then show ?case using Cons.IH [of "declare_child lib t c m"] by (auto simp: declare_child_def split: if_splits)
  qed simp
  have "gm_get (fold (declare_tool lib) tools m) n = Some v \<Longrightarrow> gm_get m n = Some v
      \<or> (\<exists>t \<in> set tools. rt_Type t = ''namespace'' \<and> rt_Name t \<noteq> '''' \<and> (\<exists>c \<in> set (namespace_children t). n = flattenNamespaceToolName lib (rt_Name t) (rt_Name c)))" for m
  proof (induction tools arbitrary: m)
    case (Cons t ts)
    have "gm_get (declare_tool lib t m) n = Some v \<Longrightarrow> gm_get m n = Some v \<or> rt_Type t = ''namespace'' \<and> rt_Name t \<noteq> ''''
        \<and> (\<exists>c \<in> set (namespace_children t). n = flattenNamespaceToolName lib (rt_Name t) (rt_Name c))"
      using child [of t "namespace_children t" m] by (simp add: declare_tool_def split: if_splits)
    then show ?case using Cons.IH [of "declare_tool lib t m"] Cons.prems by auto
  qed simp
  from this [of "[]"] assms that show ?thesis by (auto simp: NamespaceToolNames_fold)
qed

lemma lower_tools_search:
  assumes "lower_tools lib topLevel ts owner searched out = Inr res" "t \<in> set ts" "rt_Type t = ''tool_search''"
  shows "\<not> gm_getd False topLevel toolSearchProxyName"
  using assms by (induction ts arbitrary: owner searched out) (auto split: if_splits sum.splits prod.splits)

text \<open>The tool that a lowered name stands for, as both converters of responses resolve it.\<close>

datatype resolved = Custom string | ToolSearch | Namespaced NamespacedToolName | Plain string

definition resolve_name :: "tool_lib \<Rightarrow> (string, bool) gomap \<Rightarrow> (string, bool) gomap \<Rightarrow> bool \<Rightarrow> (string, NamespacedToolName) gomap \<Rightarrow> string \<Rightarrow> resolved" where
  "resolve_name lib custom functions toolSearch namespaces name =
     (case customToolCallName lib name custom functions namespaces of
        Some n \<Rightarrow> Custom n
      | None \<Rightarrow>
          (if toolSearch \<and> name = toolSearchProxyName then ToolSearch
           else case gm_get namespaces name of Some ns \<Rightarrow> Namespaced ns | None \<Rightarrow> Plain name))"

lemma lowering_ok:
  assumes "responsesToolsToChatTools lib tools = Inr out"
  obtains topLevel owner where "top_level_names tools [] [] = Inr topLevel" "lowered lib topLevel tools [] owner" "fst ` set owner \<subseteq> fn_names out"
    "lower_tools lib topLevel tools [] False [] = Inr out" "gm_get (NamespaceToolNames lib tools) = gm_get owner"
proof -
  from assms obtain topLevel where top: "top_level_names tools [] [] = Inr topLevel" "lower_tools lib topLevel tools [] False [] = Inr out"
    by (auto simp: responsesToolsToChatTools_def split: sum.splits)
  from lower_tools_lowered [OF top(2)] obtain owner where owner: "lowered lib topLevel tools [] owner" "fst ` set owner \<subseteq> fn_names out" by auto
  then have "gm_get (NamespaceToolNames lib tools) = gm_get owner" by (simp add: lowered_def NamespaceToolNames_fold)
  from that [OF top(1) owner top(2) this] show ?thesis .
qed

lemma custom_not_function:
  assumes "top_level_names tools [] [] = Inr topLevel" "t \<in> set tools" "rt_Name t \<noteq> ''''" "rt_Type t = ''custom''"
  shows "\<not> gm_getd False (FunctionToolNames tools) (rt_Name t)"
proof
  assume "gm_getd False (FunctionToolNames tools) (rt_Name t)"
  then obtain u where u: "u \<in> set tools" "rt_Type u = ''function''" "rt_Name u = rt_Name t" by (auto simp: FunctionToolNames_iff)
  moreover have "top_tool t" "top_tool u" using assms(3,4) u by (simp_all add: top_tool_def)
  ultimately show False using top_level_names_ok(4) [OF assms(1,2)] assms(4) by fastforce
qed

lemma undeclared:
  assumes "top_level_names tools [] [] = Inr topLevel" "n \<noteq> ''''" "\<not> gm_getd False topLevel n"
  shows "\<not> gm_getd False (CustomToolNames tools) n \<and> \<not> gm_getd False (FunctionToolNames tools) n"
  using top_level_names_ok(2) [OF assms(1)] assms(2,3) by (auto simp: CustomToolNames_iff FunctionToolNames_iff top_tool_def)


definition demo_tool :: "string \<Rightarrow> string \<Rightarrow> ResponsesTool list \<Rightarrow> ResponsesTool" where
  "demo_tool type name children = ResponsesTool type name '''' '''' '''' None children [] [] [] '''' '''' None None"

definition demo_tool_lib :: tool_lib where
  "demo_tool_lib = \<lparr>tl_sha256 = (\<lambda>s. replicate 32 0), tl_grammar = (\<lambda>s. None)\<rparr>"

definition demo_tools :: "ResponsesTool list" where
  "demo_tools = [demo_tool ''custom'' ''patch'' [], demo_tool ''function'' ''ls'' [], demo_tool ''namespace'' ''git'' [demo_tool ''function'' ''log'' []]]"


end
