(* ===== verification/Responses_To_Chat.thy ===== *)
theory Responses_To_Chat
  imports Chat_Types
begin

text \<open>
  \<open>internal/pkg/apicompat/responses_to_chatcompletions.go\<close>: the conversion of a whole response into a
  chat completion, the stateful converter of a Responses stream into chat chunks, and the accumulator
  that rebuilds a response for clients that do not stream. \<open>json.Marshal\<close> of a string, random
  identifiers and the clock are parameters.

  The two ways to a client are compared: \<open>assemble\<close> is what a client makes of chunks, and the message
  that it arrives at is the one that the accumulator and the conversion of the whole response give.
\<close>

section \<open>A whole response\<close>

definition function_call :: "string \<Rightarrow> string \<Rightarrow> string \<Rightarrow> ChatToolCall" where
  "function_call callID name args =
     \<lparr>tc_Index = None, tc_ID = callID, tc_Type = ''function'', tc_Function = \<lparr>cf_Name = name, cf_Arguments = args\<rparr>\<rparr>"

definition responsesStatusToChatFinishReason :: "string \<Rightarrow> ResponsesIncompleteDetails option \<Rightarrow> ChatToolCall list \<Rightarrow> string" where
  "responsesStatusToChatFinishReason status details toolCalls =
     (if status = ''incomplete'' then
        (case details of
           Some d \<Rightarrow> (if id_Reason d = ''max_output_tokens'' then ''length''
                      else if id_Reason d = ''content_filter'' then ''content_filter'' else ''stop'')
         | None \<Rightarrow> ''stop'')
      else if status = ''completed'' then (if toolCalls \<noteq> [] then ''tool_calls'' else ''stop'')
      else ''stop'')"

text \<open>What one item adds to the four accumulators of the loop.\<close>

record chat_parts =
  pt_content :: string
  pt_refusal :: string
  pt_reasoning :: string
  pt_calls :: "ChatToolCall list"

definition no_parts :: chat_parts where
  "no_parts = \<lparr>pt_content = '''', pt_refusal = '''', pt_reasoning = '''', pt_calls = []\<rparr>"

definition add_item :: "chat_parts \<Rightarrow> ResponsesOutput \<Rightarrow> chat_parts" where
  "add_item p item =
     (if ro_Type item = ''message'' then
        p\<lparr>pt_content := pt_content p @ concat (map cp_Text (filter (\<lambda>c. cp_Type c = ''output_text'') (ro_Content item))),
          pt_refusal := pt_refusal p @ concat (map cp_Refusal (filter (\<lambda>c. cp_Type c = ''refusal'') (ro_Content item)))\<rparr>
      else if ro_Type item = ''function_call'' then
        p\<lparr>pt_calls := pt_calls p @ [function_call (ro_CallID item) (ro_Name item) (ro_Arguments item)]\<rparr>
      else if ro_Type item = ''reasoning'' then
        p\<lparr>pt_reasoning := pt_reasoning p @ concat (map sm_Text (filter (\<lambda>s. sm_Type s = ''summary_text'') (ro_Summary item)))\<rparr>
      else p)"

definition chat_message :: "(string \<Rightarrow> string) \<Rightarrow> chat_parts \<Rightarrow> ChatMessage" where
  "chat_message marshal p =
     zero_message\<lparr>cm_Role := ''assistant'', cm_Refusal := pt_refusal p, cm_ToolCalls := pt_calls p,
       cm_Content := (if pt_content p \<noteq> '''' then marshal (pt_content p) else ''''),
       cm_ReasoningContent := pt_reasoning p\<rparr>"

definition ResponsesToChatCompletions ::
  "(string \<Rightarrow> string) \<Rightarrow> string \<Rightarrow> int \<Rightarrow> ResponsesResponse \<Rightarrow> string \<Rightarrow> ChatCompletionsResponse" where
  "ResponsesToChatCompletions marshal newID unixNow resp model =
     (let p = foldl add_item no_parts (rr_Output resp);
          finishReason = responsesStatusToChatFinishReason (rr_Status resp) (rr_IncompleteDetails resp) (pt_calls p);
          finishReason = (if pt_refusal p \<noteq> '''' then ''content_filter'' else finishReason)
      in \<lparr>cr_ID = (if rr_ID resp = '''' then newID else rr_ID resp), cr_Object = ''chat.completion'', cr_Created = unixNow,
          cr_Model = model, cr_Choices = [\<lparr>cc_Index = 0, cc_Message = chat_message marshal p, cc_FinishReason = finishReason\<rparr>],
          cr_Usage = chatUsageFromResponsesUsage (rr_Usage resp), cr_SystemFingerprint = '''', cr_ServiceTier = ''''\<rparr>)"

section \<open>The stream\<close>

record ResponsesEventToChatState =
  rs_ID :: string
  rs_Model :: string
  rs_Created :: int
  rs_SentRole :: bool
  rs_SawToolCall :: bool
  rs_SawText :: bool
  rs_SawRefusal :: bool
  rs_Finalized :: bool
  rs_NextToolCallIndex :: int
  rs_OutputIndexToToolIndex :: "(int, int) gomap"
  rs_OutputIndexToArguments :: "(int, string) gomap"
  rs_IncludeUsage :: bool
  rs_Usage :: "ChatUsage option"

definition NewResponsesEventToChatState :: "string \<Rightarrow> int \<Rightarrow> ResponsesEventToChatState" where
  "NewResponsesEventToChatState newID unixNow =
     \<lparr>rs_ID = newID, rs_Model = '''', rs_Created = unixNow, rs_SentRole = False, rs_SawToolCall = False, rs_SawText = False,
      rs_SawRefusal = False, rs_Finalized = False, rs_NextToolCallIndex = 0, rs_OutputIndexToToolIndex = [],
      rs_OutputIndexToArguments = [], rs_IncludeUsage = False, rs_Usage = None\<rparr>"

definition chat_chunk :: "ResponsesEventToChatState \<Rightarrow> ChatChunkChoice list \<Rightarrow> ChatUsage option \<Rightarrow> ChatCompletionsChunk" where
  "chat_chunk state choices usage =
     \<lparr>ck_ID = rs_ID state, ck_Object = ''chat.completion.chunk'', ck_Created = rs_Created state, ck_Model = rs_Model state,
      ck_Choices = choices, ck_Usage = usage, ck_SystemFingerprint = '''', ck_ServiceTier = ''''\<rparr>"

definition makeChatDeltaChunk :: "ResponsesEventToChatState \<Rightarrow> ChatDelta \<Rightarrow> ChatCompletionsChunk" where
  "makeChatDeltaChunk state delta =
     chat_chunk state [\<lparr>ch_Index = 0, ch_Delta = delta, ch_FinishReason = None\<rparr>] None"

definition makeChatFinishChunk :: "ResponsesEventToChatState \<Rightarrow> string \<Rightarrow> ChatCompletionsChunk" where
  "makeChatFinishChunk state finishReason =
     chat_chunk state [\<lparr>ch_Index = 0, ch_Delta = zero_chat_delta\<lparr>dl_Content := Some ''''\<rparr>, ch_FinishReason = Some finishReason\<rparr>] None"

definition usage_chunk :: "ResponsesEventToChatState \<Rightarrow> ChatCompletionsChunk list" where
  "usage_chunk state = (if rs_IncludeUsage state \<and> rs_Usage state \<noteq> None then [chat_chunk state [] (rs_Usage state)] else [])"

type_synonym r2c = "ResponsesEventToChatState \<times> ChatCompletionsChunk list"

definition resToChatHandleCreated :: "ResponsesStreamEvent \<Rightarrow> ResponsesEventToChatState \<Rightarrow> r2c" where
  "resToChatHandleCreated evt state =
     (let state = (case re_Response evt of
          None \<Rightarrow> state
        | Some r \<Rightarrow>
            (let state = (if rr_ID r \<noteq> '''' then state\<lparr>rs_ID := rr_ID r\<rparr> else state)
             in if rs_Model state = '''' \<and> rr_Model r \<noteq> '''' then state\<lparr>rs_Model := rr_Model r\<rparr> else state))
      in if rs_SentRole state then (state, [])
         else (let state = state\<lparr>rs_SentRole := True\<rparr> in
               (state, [makeChatDeltaChunk state (zero_chat_delta\<lparr>dl_Role := ''assistant''\<rparr>)])))"

definition resToChatHandleTextDelta :: "ResponsesStreamEvent \<Rightarrow> ResponsesEventToChatState \<Rightarrow> r2c" where
  "resToChatHandleTextDelta evt state =
     (if re_Delta evt = '''' then (state, [])
      else (let state = state\<lparr>rs_SawText := True\<rparr> in
            (state, [makeChatDeltaChunk state (zero_chat_delta\<lparr>dl_Content := Some (re_Delta evt)\<rparr>)])))"

definition is_tool_item :: "ResponsesOutput option \<Rightarrow> bool" where
  "is_tool_item item = (case item of None \<Rightarrow> False | Some i \<Rightarrow> ro_Type i = ''function_call'' \<or> ro_Type i = ''custom_tool_call'')"

definition resToChatHandleOutputItemAdded :: "ResponsesStreamEvent \<Rightarrow> ResponsesEventToChatState \<Rightarrow> r2c" where
  "resToChatHandleOutputItemAdded evt state =
     (case re_Item evt of
        None \<Rightarrow> (state, [])
      | Some item \<Rightarrow>
          (if \<not> is_tool_item (Some item) then (state, [])
           else
             (let idx = rs_NextToolCallIndex state;
                  state = state\<lparr>rs_SawToolCall := True, rs_OutputIndexToToolIndex := gm_put (re_OutputIndex evt) idx (rs_OutputIndexToToolIndex state),
                    rs_NextToolCallIndex := idx + 1\<rparr>
              in (state, [makeChatDeltaChunk state (zero_chat_delta\<lparr>dl_ToolCalls :=
                   [\<lparr>tc_Index = Some idx, tc_ID = ro_CallID item, tc_Type = ''function'', tc_Function = \<lparr>cf_Name = ro_Name item, cf_Arguments = ''''\<rparr>\<rparr>]\<rparr>)]))))"

definition resToChatHandleFuncArgsDelta :: "ResponsesStreamEvent \<Rightarrow> ResponsesEventToChatState \<Rightarrow> r2c" where
  "resToChatHandleFuncArgsDelta evt state =
     (if re_Delta evt = '''' then (state, [])
      else case gm_get (rs_OutputIndexToToolIndex state) (re_OutputIndex evt) of
        None \<Rightarrow> (state, [])
      | Some idx \<Rightarrow>
          (let args = gm_getd '''' (rs_OutputIndexToArguments state) (re_OutputIndex evt) @ re_Delta evt;
               state = state\<lparr>rs_OutputIndexToArguments := gm_put (re_OutputIndex evt) args (rs_OutputIndexToArguments state)\<rparr>
           in (state, [makeChatDeltaChunk state (zero_chat_delta\<lparr>dl_ToolCalls :=
                [\<lparr>tc_Index = Some idx, tc_ID = '''', tc_Type = '''', tc_Function = \<lparr>cf_Name = '''', cf_Arguments = re_Delta evt\<rparr>\<rparr>]\<rparr>)])))"

definition resToChatHandleFuncArgsDone :: "ResponsesStreamEvent \<Rightarrow> ResponsesEventToChatState \<Rightarrow> r2c" where
  "resToChatHandleFuncArgsDone evt state =
     (if gm_get (rs_OutputIndexToToolIndex state) (re_OutputIndex evt) = None then (state, [])
      else
        (let complete = (if re_Type evt = ''response.custom_tool_call_input.done'' then re_Input evt else re_Arguments evt);
             current = gm_getd '''' (rs_OutputIndexToArguments state) (re_OutputIndex evt)
         in if complete = current \<or> \<not> has_prefix current complete then (state, [])
            else resToChatHandleFuncArgsDelta (evt\<lparr>re_Delta := drop (length current) complete\<rparr>) state))"

definition resToChatHandleReasoningDelta :: "ResponsesStreamEvent \<Rightarrow> ResponsesEventToChatState \<Rightarrow> r2c" where
  "resToChatHandleReasoningDelta evt state =
     (if re_Delta evt = '''' then (state, [])
      else (state, [makeChatDeltaChunk state (zero_chat_delta\<lparr>dl_ReasoningContent := Some (re_Delta evt)\<rparr>)]))"

definition resToChatHandleRefusalDelta :: "ResponsesStreamEvent \<Rightarrow> ResponsesEventToChatState \<Rightarrow> r2c" where
  "resToChatHandleRefusalDelta evt state =
     (if re_Delta evt = '''' then (state, [])
      else (let state = state\<lparr>rs_SawRefusal := True\<rparr> in
            (state, [makeChatDeltaChunk state (zero_chat_delta\<lparr>dl_Refusal := Some (re_Delta evt)\<rparr>)])))"

text \<open>The finish reason of a terminal event, before refusals are considered.\<close>

definition terminal_finish :: "ResponsesStreamEvent \<Rightarrow> ResponsesEventToChatState \<Rightarrow> string" where
  "terminal_finish evt state =
     (case re_Response evt of
        None \<Rightarrow> (if rs_SawToolCall state then ''tool_calls'' else ''stop'')
      | Some r \<Rightarrow>
          (if rr_Status r = ''incomplete'' then
             (case rr_IncompleteDetails r of
                Some d \<Rightarrow> (if id_Reason d = ''max_output_tokens'' then ''length''
                           else if id_Reason d = ''content_filter'' then ''content_filter'' else ''stop'')
              | None \<Rightarrow> ''stop'')
           else if rr_Status r = ''completed'' \<and> rs_SawToolCall state then ''tool_calls'' else ''stop''))"

definition final_refusal :: "ResponsesOutput list \<Rightarrow> string" where
  "final_refusal output = concat (map (\<lambda>item. concat (map cp_Refusal (filter (\<lambda>c. cp_Type c = ''refusal'') (ro_Content item)))) output)"

definition resToChatHandleCompleted :: "ResponsesStreamEvent \<Rightarrow> ResponsesEventToChatState \<Rightarrow> r2c" where
  "resToChatHandleCompleted evt state =
     (let state = state\<lparr>rs_Finalized := True\<rparr>;
          state = (if re_Usage evt \<noteq> None then state\<lparr>rs_Usage := chatUsageFromResponsesUsage (re_Usage evt)\<rparr> else state);
          state = (case re_Response evt of
             Some r \<Rightarrow> (if rr_Usage r \<noteq> None then state\<lparr>rs_Usage := chatUsageFromResponsesUsage (rr_Usage r)\<rparr> else state)
           | None \<Rightarrow> state);
          finishReason = (if rs_SawRefusal state then ''content_filter'' else terminal_finish evt state);
          refusal = (case re_Response evt of Some r \<Rightarrow> final_refusal (rr_Output r) | None \<Rightarrow> '''');
          late = \<not> rs_SawRefusal state \<and> refusal \<noteq> '''';
          state = (if late then state\<lparr>rs_SawRefusal := True\<rparr> else state)
      in (state,
          (if late then [makeChatDeltaChunk state (zero_chat_delta\<lparr>dl_Refusal := Some refusal\<rparr>)] else [])
          @ [makeChatFinishChunk state (if late then ''content_filter'' else finishReason)] @ usage_chunk state))"

definition ResponsesEventToChatChunks :: "ResponsesStreamEvent \<Rightarrow> ResponsesEventToChatState \<Rightarrow> r2c" where
  "ResponsesEventToChatChunks evt state =
     (let t = re_Type evt in
      if rs_Finalized state then (state, [])
      else if t = ''response.created'' then resToChatHandleCreated evt state
      else if t = ''response.output_text.delta'' then resToChatHandleTextDelta evt state
      else if t = ''response.refusal.delta'' then resToChatHandleRefusalDelta evt state
      else if t = ''response.output_item.added'' then resToChatHandleOutputItemAdded evt state
      else if t \<in> {''response.function_call_arguments.delta'', ''response.custom_tool_call_input.delta''} then resToChatHandleFuncArgsDelta evt state
      else if t \<in> {''response.function_call_arguments.done'', ''response.custom_tool_call_input.done''} then resToChatHandleFuncArgsDone evt state
      else if t \<in> {''response.reasoning_summary_text.delta'', ''response.reasoning_text.delta''} then resToChatHandleReasoningDelta evt state
      else if t \<in> {''response.completed'', ''response.done'', ''response.incomplete'', ''response.failed''} then resToChatHandleCompleted evt state
      else (state, []))"

definition FinalizeResponsesChatStream :: "ResponsesEventToChatState \<Rightarrow> r2c" where
  "FinalizeResponsesChatStream state =
     (if rs_Finalized state then (state, [])
      else
        (let state = state\<lparr>rs_Finalized := True\<rparr>;
             finishReason = (if rs_SawRefusal state then ''content_filter'' else if rs_SawToolCall state then ''tool_calls'' else ''stop'')
         in (state, [makeChatFinishChunk state finishReason] @ usage_chunk state)))"

section \<open>The accumulator\<close>

record bufferedFuncCall =
  bf_CallID :: string
  bf_Name :: string
  bf_Args :: string

record BufferedResponseAccumulator =
  ba_text :: string
  ba_refusal :: string
  ba_reasoning :: string
  ba_funcCalls :: "bufferedFuncCall list"
  ba_outputIndexToFuncIdx :: "(int, nat) gomap"

definition NewBufferedResponseAccumulator :: BufferedResponseAccumulator where
  "NewBufferedResponseAccumulator =
     \<lparr>ba_text = '''', ba_refusal = '''', ba_reasoning = '''', ba_funcCalls = [], ba_outputIndexToFuncIdx = []\<rparr>"

definition append_args :: "string \<Rightarrow> bufferedFuncCall \<Rightarrow> bufferedFuncCall" where
  "append_args d c = c\<lparr>bf_Args := bf_Args c @ d\<rparr>"

definition ProcessEvent :: "ResponsesStreamEvent \<Rightarrow> BufferedResponseAccumulator \<Rightarrow> BufferedResponseAccumulator" where
  "ProcessEvent event a =
     (let t = re_Type event; d = re_Delta event in
      if t = ''response.refusal.delta'' then a\<lparr>ba_refusal := ba_refusal a @ d\<rparr>
      else if t = ''response.output_text.delta'' then a\<lparr>ba_text := ba_text a @ d\<rparr>
      else if t = ''response.output_item.added'' then
        (case re_Item event of
           Some item \<Rightarrow>
             (if is_tool_item (Some item)
              then a\<lparr>ba_outputIndexToFuncIdx := gm_put (re_OutputIndex event) (length (ba_funcCalls a)) (ba_outputIndexToFuncIdx a),
                     ba_funcCalls := ba_funcCalls a @ [\<lparr>bf_CallID = ro_CallID item, bf_Name = ro_Name item, bf_Args = ''''\<rparr>]\<rparr>
              else a)
         | None \<Rightarrow> a)
      else if t \<in> {''response.function_call_arguments.delta'', ''response.custom_tool_call_input.delta''} then
        (case gm_get (ba_outputIndexToFuncIdx a) (re_OutputIndex event) of
           Some idx \<Rightarrow>
             (if d \<noteq> '''' then a\<lparr>ba_funcCalls := (ba_funcCalls a)[idx := append_args d (ba_funcCalls a ! idx)]\<rparr> else a)
         | None \<Rightarrow> a)
      else if t \<in> {''response.reasoning_summary_text.delta'', ''response.reasoning_text.delta''} then a\<lparr>ba_reasoning := ba_reasoning a @ d\<rparr>
      else a)"

definition HasContent :: "BufferedResponseAccumulator \<Rightarrow> bool" where
  "HasContent a \<longleftrightarrow> ba_text a \<noteq> '''' \<or> ba_refusal a \<noteq> '''' \<or> ba_funcCalls a \<noteq> [] \<or> ba_reasoning a \<noteq> ''''"

definition refusal_part :: "string \<Rightarrow> ResponsesContentPart" where
  "refusal_part r = (output_text '''')\<lparr>cp_Type := ''refusal'', cp_Refusal := r\<rparr>"

definition BuildOutput :: "BufferedResponseAccumulator \<Rightarrow> ResponsesOutput list" where
  "BuildOutput a =
     (if ba_refusal a \<noteq> '''' then [zero_output\<lparr>ro_Type := ''message'', ro_Role := ''assistant'', ro_Content := [refusal_part (ba_refusal a)]\<rparr>] else [])
     @ (if ba_reasoning a \<noteq> '''' then [zero_output\<lparr>ro_Type := ''reasoning'', ro_Summary := [\<lparr>sm_Type = ''summary_text'', sm_Text = ba_reasoning a\<rparr>]\<rparr>] else [])
     @ (if ba_text a \<noteq> '''' then [zero_output\<lparr>ro_Type := ''message'', ro_Role := ''assistant'', ro_Content := [output_text (ba_text a)]\<rparr>] else [])
     @ map (\<lambda>c. zero_output\<lparr>ro_Type := ''function_call'', ro_CallID := bf_CallID c, ro_Name := bf_Name c, ro_Arguments := bf_Args c\<rparr>) (ba_funcCalls a)"

definition SupplementResponseOutput :: "BufferedResponseAccumulator \<Rightarrow> ResponsesResponse \<Rightarrow> ResponsesResponse" where
  "SupplementResponseOutput a resp =
     (if rr_Output resp \<noteq> [] \<or> \<not> HasContent a then resp else resp\<lparr>rr_Output := BuildOutput a\<rparr>)"

section \<open>What a client makes of the chunks\<close>

definition merge_call :: "ChatToolCall \<Rightarrow> ChatToolCall \<Rightarrow> ChatToolCall" where
  "merge_call c t =
     function_call (if tc_ID t \<noteq> '''' then tc_ID t else tc_ID c)
       (if cf_Name (tc_Function t) \<noteq> '''' then cf_Name (tc_Function t) else cf_Name (tc_Function c))
       (cf_Arguments (tc_Function c) @ cf_Arguments (tc_Function t))"

definition client_call :: "ChatToolCall list \<Rightarrow> ChatToolCall \<Rightarrow> ChatToolCall list" where
  "client_call calls t =
     (case tc_Index t of
        None \<Rightarrow> calls
      | Some i \<Rightarrow>
          (if i = int (length calls) then calls @ [function_call (tc_ID t) (cf_Name (tc_Function t)) (cf_Arguments (tc_Function t))]
           else if 0 \<le> i \<and> i < int (length calls) then calls[nat i := merge_call (calls ! nat i) t]
           else calls))"

definition opt_text :: "string option \<Rightarrow> string" where
  "opt_text v = (case v of None \<Rightarrow> '''' | Some s \<Rightarrow> s)"

definition client_choice :: "chat_parts \<Rightarrow> ChatChunkChoice \<Rightarrow> chat_parts" where
  "client_choice p c =
     (let d = ch_Delta c in
      \<lparr>pt_content = pt_content p @ opt_text (dl_Content d), pt_refusal = pt_refusal p @ opt_text (dl_Refusal d),
       pt_reasoning = pt_reasoning p @ opt_text (delta_reasoningText d), pt_calls = foldl client_call (pt_calls p) (dl_ToolCalls d)\<rparr>)"

definition assemble :: "chat_parts \<Rightarrow> ChatCompletionsChunk list \<Rightarrow> chat_parts" where
  "assemble p chunks = foldl client_choice p (concat (map ck_Choices chunks))"

definition finish_reasons :: "ChatCompletionsChunk list \<Rightarrow> string list" where
  "finish_reasons chunks = List.map_filter ch_FinishReason (concat (map ck_Choices chunks))"

lemma assemble_append [simp]: "assemble p (xs @ ys) = assemble (assemble p xs) ys"
  by (simp add: assemble_def)

lemma assemble_Nil [simp]: "assemble p [] = p"
  by (simp add: assemble_def)

lemma finish_append [simp]: "finish_reasons (xs @ ys) = finish_reasons xs @ finish_reasons ys"
  by (simp add: finish_reasons_def map_filter_def)

lemma finish_Nil [simp]: "finish_reasons [] = []"
  by (simp add: finish_reasons_def map_filter_def)

lemma delta_chunk [simp]:
  "assemble p (makeChatDeltaChunk s d # cs) = assemble (client_choice p \<lparr>ch_Index = 0, ch_Delta = d, ch_FinishReason = None\<rparr>) cs"
  "finish_reasons (makeChatDeltaChunk s d # cs) = finish_reasons cs"
  by (simp_all add: assemble_def finish_reasons_def makeChatDeltaChunk_def chat_chunk_def map_filter_def)

lemma client_empty: "client_choice p \<lparr>ch_Index = 0, ch_Delta = zero_chat_delta\<lparr>dl_Content := Some ''''\<rparr>, ch_FinishReason = r\<rparr> = p"
  by (simp add: client_choice_def zero_chat_delta_def delta_reasoningText_def opt_text_def)

lemma finish_chunk [simp]:
  "assemble p (makeChatFinishChunk s r # cs) = assemble p cs" "finish_reasons (makeChatFinishChunk s r # cs) = r # finish_reasons cs"
  by (simp_all add: assemble_def finish_reasons_def makeChatFinishChunk_def chat_chunk_def map_filter_def client_empty)

lemma usage_chunk_parts [simp]: "assemble p (usage_chunk s) = p" "finish_reasons (usage_chunk s) = []"
  by (simp_all add: usage_chunk_def assemble_def finish_reasons_def chat_chunk_def map_filter_def)

section \<open>Streaming and buffering agree\<close>

definition acc_parts :: "BufferedResponseAccumulator \<Rightarrow> chat_parts" where
  "acc_parts a = \<lparr>pt_content = ba_text a, pt_refusal = ba_refusal a, pt_reasoning = ba_reasoning a,
     pt_calls = map (\<lambda>c. function_call (bf_CallID c) (bf_Name c) (bf_Args c)) (ba_funcCalls a)\<rparr>"

lemma build_calls:
  "foldl add_item p (map (\<lambda>c. zero_output\<lparr>ro_Type := ''function_call'', ro_CallID := bf_CallID c, ro_Name := bf_Name c, ro_Arguments := bf_Args c\<rparr>) cs) =
     p\<lparr>pt_calls := pt_calls p @ map (\<lambda>c. function_call (bf_CallID c) (bf_Name c) (bf_Args c)) cs\<rparr>"
  by (induction cs arbitrary: p) (simp_all add: add_item_def zero_output_def)

lemma parts_BuildOutput: "foldl add_item no_parts (BuildOutput a) = acc_parts a"
  by (simp add: BuildOutput_def build_calls) (simp add: add_item_def zero_output_def refusal_part_def output_text_def no_parts_def acc_parts_def)

definition is_done :: "ResponsesStreamEvent \<Rightarrow> bool" where
  "is_done e \<longleftrightarrow> re_Type e \<in> {''response.function_call_arguments.done'', ''response.custom_tool_call_input.done''}"

definition is_terminal :: "ResponsesStreamEvent \<Rightarrow> bool" where
  "is_terminal e \<longleftrightarrow> re_Type e \<in> {''response.completed'', ''response.done'', ''response.incomplete'', ''response.failed''}"

text \<open>The events that end the arguments of a call bring nothing that was not streamed before.\<close>

fun dones_repeat :: "ResponsesStreamEvent list \<Rightarrow> ResponsesEventToChatState \<Rightarrow> bool" where
  "dones_repeat [] s = True"
| "dones_repeat (e # es) s = ((is_done e \<longrightarrow> ResponsesEventToChatChunks e s = (s, [])) \<and> dones_repeat es (fst (ResponsesEventToChatChunks e s)))"

definition tracks :: "ResponsesEventToChatState \<Rightarrow> BufferedResponseAccumulator \<Rightarrow> chat_parts \<Rightarrow> bool" where
  "tracks s a p \<longleftrightarrow> p = acc_parts a \<and> \<not> rs_Finalized s \<and> (rs_SawToolCall s \<longleftrightarrow> ba_funcCalls a \<noteq> []) \<and> (rs_SawRefusal s \<longleftrightarrow> ba_refusal a \<noteq> '''')
     \<and> rs_NextToolCallIndex s = int (length (ba_funcCalls a))
     \<and> (\<forall>i. gm_get (rs_OutputIndexToToolIndex s) i = map_option int (gm_get (ba_outputIndexToFuncIdx a) i))
     \<and> (\<forall>i n. gm_get (ba_outputIndexToFuncIdx a) i = Some n \<longrightarrow> n < length (ba_funcCalls a))"

lemma map_update_call:
  "n < length cs \<Longrightarrow> client_call (map (\<lambda>c. function_call (bf_CallID c) (bf_Name c) (bf_Args c)) cs)
     \<lparr>tc_Index = Some (int n), tc_ID = '''', tc_Type = '''', tc_Function = \<lparr>cf_Name = '''', cf_Arguments = d\<rparr>\<rparr> =
   map (\<lambda>c. function_call (bf_CallID c) (bf_Name c) (bf_Args c)) (cs[n := append_args d (cs ! n)])"
  by (simp add: client_call_def map_update merge_call_def function_call_def append_args_def)

lemma acc_parts_calls:
  "acc_parts (a\<lparr>ba_funcCalls := cs\<rparr>) = (acc_parts a)\<lparr>pt_calls := map (\<lambda>c. function_call (bf_CallID c) (bf_Name c) (bf_Args c)) cs\<rparr>"
  by (simp add: acc_parts_def)

lemma client_tool_delta:
  "client_choice p \<lparr>ch_Index = 0, ch_Delta = zero_chat_delta\<lparr>dl_ToolCalls := [t]\<rparr>, ch_FinishReason = None\<rparr> = p\<lparr>pt_calls := client_call (pt_calls p) t\<rparr>"
  by (simp add: client_choice_def zero_chat_delta_def delta_reasoningText_def opt_text_def)

lemma acc_parts_pt_calls: "pt_calls (acc_parts a) = map (\<lambda>c. function_call (bf_CallID c) (bf_Name c) (bf_Args c)) (ba_funcCalls a)"
  by (simp add: acc_parts_def)

lemma tracks_step:
  assumes "tracks s a p" "\<not> is_terminal e" "is_done e \<longrightarrow> ResponsesEventToChatChunks e s = (s, [])"
  shows "tracks (fst (ResponsesEventToChatChunks e s)) (ProcessEvent e a) (assemble p (snd (ResponsesEventToChatChunks e s)))
    \<and> finish_reasons (snd (ResponsesEventToChatChunks e s)) = []"
proof -
  consider "is_done e" | "re_Type e = ''response.created''" | "re_Type e = ''response.output_text.delta''" | "re_Type e = ''response.refusal.delta''"
    | "re_Type e = ''response.output_item.added''"
    | "re_Type e \<in> {''response.function_call_arguments.delta'', ''response.custom_tool_call_input.delta''}"
    | "re_Type e \<in> {''response.reasoning_summary_text.delta'', ''response.reasoning_text.delta''}"
    | "\<not> is_done e" "re_Type e \<notin> {''response.created'', ''response.output_text.delta'', ''response.refusal.delta'', ''response.output_item.added'',
        ''response.function_call_arguments.delta'', ''response.custom_tool_call_input.delta'', ''response.reasoning_summary_text.delta'',
        ''response.reasoning_text.delta''}"
    by blast
  then show ?thesis
  proof cases
    case 1
    then have "ProcessEvent e a = a" by (auto simp: ProcessEvent_def is_done_def Let_def)
    with 1 assms show ?thesis by simp
  next
    case 8
    then have "ProcessEvent e a = a" by (simp add: ProcessEvent_def Let_def)
    moreover have "ResponsesEventToChatChunks e s = (s, [])"
      using 8 assms(2) by (simp add: ResponsesEventToChatChunks_def is_done_def is_terminal_def Let_def)
    ultimately show ?thesis using assms(1) by simp
  next
    case 2
    then show ?thesis using assms(1)
      by (auto simp: ResponsesEventToChatChunks_def ProcessEvent_def resToChatHandleCreated_def tracks_def Let_def client_choice_def
          zero_chat_delta_def delta_reasoningText_def opt_text_def acc_parts_def split: option.splits)
  next
    case 3
    then show ?thesis using assms(1)
      by (auto simp: ResponsesEventToChatChunks_def ProcessEvent_def resToChatHandleTextDelta_def tracks_def Let_def client_choice_def
          zero_chat_delta_def delta_reasoningText_def opt_text_def acc_parts_def)
  next
    case 4
    then show ?thesis using assms(1)
      by (auto simp: ResponsesEventToChatChunks_def ProcessEvent_def resToChatHandleRefusalDelta_def tracks_def Let_def client_choice_def
          zero_chat_delta_def delta_reasoningText_def opt_text_def acc_parts_def)
  next
    case 5
    then show ?thesis using assms(1)
      by (auto simp: ResponsesEventToChatChunks_def ProcessEvent_def resToChatHandleOutputItemAdded_def tracks_def Let_def client_choice_def
          zero_chat_delta_def delta_reasoningText_def opt_text_def acc_parts_def client_call_def less_Suc_eq split: option.splits if_splits)
  next
    case 6
    then have eqs: "ResponsesEventToChatChunks e s = resToChatHandleFuncArgsDelta e s" "ProcessEvent e a =
        (case gm_get (ba_outputIndexToFuncIdx a) (re_OutputIndex e) of
           Some idx \<Rightarrow> (if re_Delta e \<noteq> '''' then a\<lparr>ba_funcCalls := (ba_funcCalls a)[idx := append_args (re_Delta e) (ba_funcCalls a ! idx)]\<rparr> else a)
         | None \<Rightarrow> a)"
      using assms(1) by (auto simp: ResponsesEventToChatChunks_def ProcessEvent_def tracks_def Let_def)
    have idx: "gm_get (rs_OutputIndexToToolIndex s) (re_OutputIndex e) = map_option int (gm_get (ba_outputIndexToFuncIdx a) (re_OutputIndex e))"
      using assms(1) by (simp add: tracks_def)
    show ?thesis
    proof (cases "gm_get (ba_outputIndexToFuncIdx a) (re_OutputIndex e) = None \<or> re_Delta e = ''''")
      case True
      then show ?thesis using assms(1) idx by (auto simp: eqs resToChatHandleFuncArgsDelta_def split: option.splits)
    next
      case False
      then obtain n where n: "gm_get (ba_outputIndexToFuncIdx a) (re_OutputIndex e) = Some n" "re_Delta e \<noteq> ''''" by auto
      then have "n < length (ba_funcCalls a)" using assms(1) by (simp add: tracks_def)
      note call = map_update_call [OF this, of "re_Delta e"]
      let ?s = "s\<lparr>rs_OutputIndexToArguments := gm_put (re_OutputIndex e) (gm_getd '''' (rs_OutputIndexToArguments s) (re_OutputIndex e) @ re_Delta e)
          (rs_OutputIndexToArguments s)\<rparr>"
      let ?a = "a\<lparr>ba_funcCalls := (ba_funcCalls a)[n := append_args (re_Delta e) (ba_funcCalls a ! n)]\<rparr>"
      let ?d = "zero_chat_delta\<lparr>dl_ToolCalls := [\<lparr>tc_Index = Some (int n), tc_ID = '''', tc_Type = '''', tc_Function = \<lparr>cf_Name = '''', cf_Arguments = re_Delta e\<rparr>\<rparr>]\<rparr>"
      have p: "p = acc_parts a" using assms(1) by (simp add: tracks_def)
      have res: "ResponsesEventToChatChunks e s = (?s, [makeChatDeltaChunk ?s ?d])" "ProcessEvent e a = ?a"
        using n idx by (simp_all add: eqs resToChatHandleFuncArgsDelta_def Let_def)
      have "tracks ?s ?a (acc_parts ?a)" using assms(1) by (simp add: tracks_def)
      moreover have "assemble p [makeChatDeltaChunk ?s ?d] = acc_parts ?a"
        unfolding p delta_chunk assemble_Nil client_tool_delta acc_parts_calls acc_parts_pt_calls call ..
      ultimately show ?thesis unfolding res fst_conv snd_conv by simp
    qed
  next
    case 7
    then have "ResponsesEventToChatChunks e s = resToChatHandleReasoningDelta e s" "ProcessEvent e a = a\<lparr>ba_reasoning := ba_reasoning a @ re_Delta e\<rparr>"
      using assms(1) by (auto simp: ResponsesEventToChatChunks_def ProcessEvent_def tracks_def Let_def)
    then show ?thesis using assms(1)
      by (simp add: resToChatHandleReasoningDelta_def tracks_def client_choice_def zero_chat_delta_def delta_reasoningText_def opt_text_def acc_parts_def)
  qed
qed

lemma tracks_run:
  assumes "tracks s a p" "list_all (\<lambda>e. \<not> is_terminal e) es" "dones_repeat es s"
  shows "tracks (fst (run_all ResponsesEventToChatChunks es s)) (fold ProcessEvent es a)
      (assemble p (concat (snd (run_all ResponsesEventToChatChunks es s))))
    \<and> finish_reasons (concat (snd (run_all ResponsesEventToChatChunks es s))) = []"
  using assms
proof (induction es arbitrary: s a p)
  case (Cons e es)
  then have step: "tracks (fst (ResponsesEventToChatChunks e s)) (ProcessEvent e a) (assemble p (snd (ResponsesEventToChatChunks e s)))"
      "finish_reasons (snd (ResponsesEventToChatChunks e s)) = []"
    using tracks_step [of s a p e] by simp_all
  with Cons.IH [OF step(1)] Cons.prems show ?case by (simp add: split_def)
qed simp

text \<open>The output that a terminal event carries is empty, or it is what was streamed; a refusal may
  appear in it for the first time.\<close>

definition output_agrees :: "BufferedResponseAccumulator \<Rightarrow> ResponsesOutput list \<Rightarrow> bool" where
  "output_agrees a output \<longleftrightarrow> output = []
     \<or> foldl add_item no_parts output = (acc_parts a)\<lparr>pt_refusal := final_refusal output\<rparr> \<and> ba_refusal a \<in> {'''', final_refusal output}"

lemma final_refusal_BuildOutput: "rr_Output r = [] \<Longrightarrow> final_refusal (rr_Output r) = ''''"
  by (simp add: final_refusal_def)

lemma supplement_parts:
  assumes "output_agrees a (rr_Output r)"
  shows "foldl add_item no_parts (rr_Output (SupplementResponseOutput a r)) =
    (acc_parts a)\<lparr>pt_refusal := if ba_refusal a \<noteq> '''' then ba_refusal a else final_refusal (rr_Output r)\<rparr>"
proof (cases "rr_Output r = []")
  case True
  moreover have "\<not> HasContent a \<Longrightarrow> acc_parts a = no_parts" by (simp add: HasContent_def acc_parts_def no_parts_def)
  ultimately show ?thesis
    by (simp add: SupplementResponseOutput_def parts_BuildOutput final_refusal_BuildOutput)
      (simp add: acc_parts_def no_parts_def final_refusal_def)
next
  case False
  then show ?thesis using assms by (auto simp: SupplementResponseOutput_def output_agrees_def)
qed

lemma terminal_step:
  assumes "tracks s a p" "is_terminal e" "re_Response e = Some r"
  shows "ProcessEvent e a = a" "ResponsesEventToChatChunks e s = resToChatHandleCompleted e s"
    "assemble p (snd (resToChatHandleCompleted e s)) = (acc_parts a)\<lparr>pt_refusal := if ba_refusal a \<noteq> '''' then ba_refusal a else final_refusal (rr_Output r)\<rparr>"
    "finish_reasons (snd (resToChatHandleCompleted e s)) =
       [if ba_refusal a \<noteq> '''' \<or> final_refusal (rr_Output r) \<noteq> '''' then ''content_filter''
        else responsesStatusToChatFinishReason (rr_Status r) (rr_IncompleteDetails r) (pt_calls p)]"
    "rr_Usage r \<noteq> None \<Longrightarrow> rs_Usage (fst (resToChatHandleCompleted e s)) = chatUsageFromResponsesUsage (rr_Usage r)"
proof -
  show "ProcessEvent e a = a" using assms(2) by (auto simp: is_terminal_def ProcessEvent_def Let_def)
  have t: "p = acc_parts a" "\<not> rs_Finalized s" "rs_SawToolCall s \<longleftrightarrow> ba_funcCalls a \<noteq> []" "rs_SawRefusal s \<longleftrightarrow> ba_refusal a \<noteq> ''''"
    using assms(1) unfolding tracks_def by blast+
  show "ResponsesEventToChatChunks e s = resToChatHandleCompleted e s"
    using t(2) assms(2) by (auto simp: is_terminal_def ResponsesEventToChatChunks_def Let_def)
  show "assemble p (snd (resToChatHandleCompleted e s)) = (acc_parts a)\<lparr>pt_refusal := if ba_refusal a \<noteq> '''' then ba_refusal a else final_refusal (rr_Output r)\<rparr>"
    using t(4) assms(3) by (simp add: t(1) resToChatHandleCompleted_def Let_def client_choice_def zero_chat_delta_def delta_reasoningText_def opt_text_def acc_parts_def)
  show "finish_reasons (snd (resToChatHandleCompleted e s)) =
       [if ba_refusal a \<noteq> '''' \<or> final_refusal (rr_Output r) \<noteq> '''' then ''content_filter''
        else responsesStatusToChatFinishReason (rr_Status r) (rr_IncompleteDetails r) (pt_calls p)]"
    using t(3,4) assms(3) by (simp add: t(1) resToChatHandleCompleted_def Let_def acc_parts_def terminal_finish_def responsesStatusToChatFinishReason_def)
  show "rs_Usage (fst (resToChatHandleCompleted e s)) = chatUsageFromResponsesUsage (rr_Usage r)" if "rr_Usage r \<noteq> None"
    using that assms(3) by (simp add: resToChatHandleCompleted_def Let_def)
qed

lemma tracks_new:
  "tracks ((NewResponsesEventToChatState newID unixNow)\<lparr>rs_Model := model, rs_IncludeUsage := b\<rparr>) NewBufferedResponseAccumulator no_parts"
  by (simp add: tracks_def NewResponsesEventToChatState_def NewBufferedResponseAccumulator_def acc_parts_def no_parts_def)

lemma run_all_snoc:
  "run_all f (es @ [e]) s = (fst (f e (fst (run_all f es s))), snd (run_all f es s) @ [snd (f e (fst (run_all f es s)))])"
  by (induction es arbitrary: s) (simp_all add: split_def)


text \<open>A stream with a text, a tool call and a late refusal-free end.\<close>

definition demo_call_stream :: "ResponsesStreamEvent list" where
  "demo_call_stream =
     [zero_responses_event\<lparr>re_Type := ''response.created''\<rparr>,
      zero_responses_event\<lparr>re_Type := ''response.output_text.delta'', re_Delta := ''Hi''\<rparr>,
      zero_responses_event\<lparr>re_Type := ''response.output_item.added'', re_OutputIndex := 1,
        re_Item := Some (zero_output\<lparr>ro_Type := ''function_call'', ro_CallID := ''c1'', ro_Name := ''ls''\<rparr>)\<rparr>,
      zero_responses_event\<lparr>re_Type := ''response.function_call_arguments.delta'', re_OutputIndex := 1, re_Delta := ''{}''\<rparr>,
      zero_responses_event\<lparr>re_Type := ''response.function_call_arguments.done'', re_OutputIndex := 1, re_Arguments := ''{}''\<rparr>]"

definition demo_end_response :: ResponsesResponse where
  "demo_end_response = \<lparr>rr_UpstreamServiceTier = '''', rr_CreatedAt = 0, rr_ID = ''resp_1'', rr_Object = ''response'', rr_Model = ''m'',
     rr_Status = ''completed'', rr_Output = [], rr_Usage = None, rr_IncompleteDetails = None, rr_Error = None\<rparr>"

definition demo_end :: ResponsesStreamEvent where
  "demo_end = zero_responses_event\<lparr>re_Type := ''response.completed'', re_Response := Some demo_end_response\<rparr>"


section \<open>The protocol of the chunks\<close>

text \<open>What a client may rely on: a call is announced with the next index, parts of its arguments refer to
  an announced call, nothing but one usage chunk follows the chunk with the finish reason.\<close>

record chat_monitor =
  cn_calls :: nat
  cn_finished :: bool
  cn_usage :: bool

definition cmon_init :: chat_monitor where
  "cmon_init = \<lparr>cn_calls = 0, cn_finished = False, cn_usage = False\<rparr>"

definition call_ok :: "nat \<Rightarrow> ChatToolCall list \<Rightarrow> nat option" where
  "call_ok n ts =
     (case ts of
        [] \<Rightarrow> Some n
      | [t] \<Rightarrow> (if tc_Type t = ''function'' then (if tc_Index t = Some (int n) then Some (Suc n) else None)
                else case tc_Index t of Some i \<Rightarrow> (if 0 \<le> i \<and> i < int n then Some n else None) | None \<Rightarrow> None)
      | _ \<Rightarrow> None)"

definition chat_mon :: "chat_monitor \<Rightarrow> ChatCompletionsChunk \<Rightarrow> chat_monitor option" where
  "chat_mon m c =
     (case ck_Choices c of
        [] \<Rightarrow> (if cn_finished m \<and> \<not> cn_usage m \<and> ck_Usage c \<noteq> None then Some (m\<lparr>cn_usage := True\<rparr>) else None)
      | [ch] \<Rightarrow>
          (if cn_finished m then None
           else if ch_FinishReason ch \<noteq> None
           then (if dl_ToolCalls (ch_Delta ch) = [] then Some (m\<lparr>cn_finished := True\<rparr>) else None)
           else map_option (\<lambda>n. m\<lparr>cn_calls := n\<rparr>) (call_ok (cn_calls m) (dl_ToolCalls (ch_Delta ch))))
      | _ \<Rightarrow> None)"

definition r2c_rel :: "ResponsesEventToChatState \<Rightarrow> chat_monitor \<Rightarrow> bool" where
  "r2c_rel s m \<longleftrightarrow> cn_finished m = rs_Finalized s \<and> (cn_usage m \<longrightarrow> cn_finished m) \<and> rs_NextToolCallIndex s = int (cn_calls m)
     \<and> (\<forall>i n. gm_get (rs_OutputIndexToToolIndex s) i = Some n \<longrightarrow> 0 \<le> n \<and> n < int (cn_calls m))"

lemma r2c_relD:
  assumes "r2c_rel s m"
  shows "cn_finished m = rs_Finalized s" "\<not> rs_Finalized s \<Longrightarrow> \<not> cn_usage m" "rs_NextToolCallIndex s = int (cn_calls m)"
    "gm_get (rs_OutputIndexToToolIndex s) i = Some n \<Longrightarrow> 0 \<le> n \<and> n < int (cn_calls m)"
  using assms by (auto simp: r2c_rel_def)

lemma chat_mon_delta:
  "chat_mon m (makeChatDeltaChunk s d) =
     (if cn_finished m then None else map_option (\<lambda>n. m\<lparr>cn_calls := n\<rparr>) (call_ok (cn_calls m) (dl_ToolCalls d)))"
  by (simp add: chat_mon_def makeChatDeltaChunk_def chat_chunk_def)

lemma accepts_finish:
  assumes "\<not> cn_finished m" "\<not> cn_usage m"
  shows "\<exists>m'. accepts chat_mon m (makeChatFinishChunk s r # usage_chunk s') = Some m' \<and> cn_finished m' \<and> cn_calls m' = cn_calls m"
proof -
  have "chat_mon m (makeChatFinishChunk s r) = Some (m\<lparr>cn_finished := True\<rparr>)"
    using assms(1) by (simp add: chat_mon_def makeChatFinishChunk_def chat_chunk_def zero_chat_delta_def)
  then show ?thesis
  proof (cases "rs_IncludeUsage s' \<and> rs_Usage s' \<noteq> None")
    case True
    then have "usage_chunk s' = [chat_chunk s' [] (rs_Usage s')]" "chat_mon (m\<lparr>cn_finished := True\<rparr>) (chat_chunk s' [] (rs_Usage s')) =
        Some (m\<lparr>cn_finished := True, cn_usage := True\<rparr>)"
      using assms(2) by (simp_all add: usage_chunk_def chat_mon_def chat_chunk_def)
    with \<open>chat_mon m _ = _\<close> show ?thesis by simp
  qed (auto simp: usage_chunk_def)
qed

lemma finish_accepted:
  assumes "r2c_rel s m" "\<not> rs_Finalized s"
  shows "\<exists>m'. accepts chat_mon m (snd (resToChatHandleCompleted e s)) = Some m' \<and> r2c_rel (fst (resToChatHandleCompleted e s)) m'"
    "\<exists>m'. accepts chat_mon m (snd (FinalizeResponsesChatStream s)) = Some m' \<and> r2c_rel (fst (FinalizeResponsesChatStream s)) m'"
proof -
  have m: "\<not> cn_finished m" "\<not> cn_usage m" using r2c_relD [OF assms(1)] assms(2) by simp_all
  let ?r = "resToChatHandleCompleted e s" and ?f = "FinalizeResponsesChatStream s"
  have keep: "rs_Finalized (fst ?r)" "rs_NextToolCallIndex (fst ?r) = rs_NextToolCallIndex s" "rs_OutputIndexToToolIndex (fst ?r) = rs_OutputIndexToToolIndex s"
    "rs_Finalized (fst ?f)" "rs_NextToolCallIndex (fst ?f) = rs_NextToolCallIndex s" "rs_OutputIndexToToolIndex (fst ?f) = rs_OutputIndexToToolIndex s"
    using assms(2) by (simp_all add: resToChatHandleCompleted_def FinalizeResponsesChatStream_def Let_def split: option.splits)
  have rel: "r2c_rel (fst ?r) m'" "r2c_rel (fst ?f) m'" if "cn_finished m'" "cn_calls m' = cn_calls m" for m'
    using that keep assms(1) unfolding r2c_rel_def by auto

  have "\<exists>a d x. snd ?r = (if a then [makeChatDeltaChunk (fst ?r) (zero_chat_delta\<lparr>dl_Refusal := x\<rparr>)] else []) @ makeChatFinishChunk (fst ?r) d # usage_chunk (fst ?r)"
    unfolding resToChatHandleCompleted_def Let_def fst_conv snd_conv append_Cons append_Nil by (rule exI)+ (rule refl)
  then obtain a d x where a: "snd ?r = (if a then [makeChatDeltaChunk (fst ?r) (zero_chat_delta\<lparr>dl_Refusal := x\<rparr>)] else []) @ makeChatFinishChunk (fst ?r) d # usage_chunk (fst ?r)"
    by blast
  have "accepts chat_mon m (snd ?r) = accepts chat_mon m (makeChatFinishChunk (fst ?r) d # usage_chunk (fst ?r))"
    using m(1) unfolding a by (simp add: chat_mon_delta call_ok_def zero_chat_delta_def)
  with accepts_finish [OF m, of "fst ?r" d "fst ?r"] rel(1) show "\<exists>m'. accepts chat_mon m (snd ?r) = Some m' \<and> r2c_rel (fst ?r) m'" by auto
  obtain d' where "snd ?f = makeChatFinishChunk (fst ?f) d' # usage_chunk (fst ?f)"
    using assms(2) by (auto simp: FinalizeResponsesChatStream_def Let_def)
  with accepts_finish [OF m, of "fst ?f" d' "fst ?f"] rel(2) show "\<exists>m'. accepts chat_mon m (snd ?f) = Some m' \<and> r2c_rel (fst ?f) m'" by auto
qed

lemma r2c_relI:
  assumes "r2c_rel s m" "rs_Finalized s' = rs_Finalized s" "rs_NextToolCallIndex s' = rs_NextToolCallIndex s" "rs_OutputIndexToToolIndex s' = rs_OutputIndexToToolIndex s"
  shows "r2c_rel s' m"
  using assms unfolding r2c_rel_def by metis

text \<open>An event that adds text, reasoning, a refusal or the role emits at most one chunk without calls.\<close>

definition plain_chunks :: "ChatCompletionsChunk list \<Rightarrow> bool" where
  "plain_chunks chunks \<longleftrightarrow> chunks = [] \<or> (\<exists>s d. dl_ToolCalls d = [] \<and> chunks = [makeChatDeltaChunk s d])"

lemma plain_chunks_simps [simp]: "plain_chunks []" "dl_ToolCalls d = [] \<Longrightarrow> plain_chunks [makeChatDeltaChunk s d]"
  by (auto simp: plain_chunks_def)

lemma plain_accepted:
  assumes "r2c_rel s m" "\<not> rs_Finalized s" "plain_chunks chunks"
  shows "accepts chat_mon m chunks = Some m"
  using assms(3) r2c_relD(1) [OF assms(1)] assms(2) by (auto simp: plain_chunks_def chat_mon_delta call_ok_def)

lemma args_accepted:
  assumes "r2c_rel s m" "\<not> rs_Finalized s"
  shows "\<exists>m'. accepts chat_mon m (snd (resToChatHandleFuncArgsDelta e s)) = Some m' \<and> r2c_rel (fst (resToChatHandleFuncArgsDelta e s)) m'"
proof (cases "re_Delta e = '''' \<or> gm_get (rs_OutputIndexToToolIndex s) (re_OutputIndex e) = None")
  case True
  then show ?thesis using assms(1) by (auto simp: resToChatHandleFuncArgsDelta_def split: option.splits)
next
  case False
  then obtain i where i: "gm_get (rs_OutputIndexToToolIndex s) (re_OutputIndex e) = Some i" "re_Delta e \<noteq> ''''" by auto
  note r2c_relD(4) [OF assms(1) i(1)]
  then show ?thesis using i assms(2) r2c_relD(1) [OF assms(1)] r2c_relI [OF assms(1)]
    by (simp add: resToChatHandleFuncArgsDelta_def Let_def chat_mon_delta call_ok_def zero_chat_delta_def)
qed

lemma added_accepted:
  assumes "r2c_rel s m" "\<not> rs_Finalized s"
  shows "\<exists>m'. accepts chat_mon m (snd (resToChatHandleOutputItemAdded e s)) = Some m' \<and> r2c_rel (fst (resToChatHandleOutputItemAdded e s)) m'"
proof (cases "is_tool_item (re_Item e)")
  case True
  then obtain item where item: "re_Item e = Some item" by (auto simp: is_tool_item_def split: option.splits)
  let ?s = "fst (resToChatHandleOutputItemAdded e s)" and ?m = "m\<lparr>cn_calls := Suc (cn_calls m)\<rparr>"
  have "accepts chat_mon m (snd (resToChatHandleOutputItemAdded e s)) = Some ?m"
    using True item assms(2) r2c_relD(1,3) [OF assms(1)]
    by (simp add: resToChatHandleOutputItemAdded_def Let_def chat_mon_delta call_ok_def zero_chat_delta_def)
  moreover have "r2c_rel ?s ?m"
  proof -
    have "\<forall>i n. gm_get (rs_OutputIndexToToolIndex s) i = Some n \<longrightarrow> 0 \<le> n \<and> n < 1 + int (cn_calls m)"
      using r2c_relD(4) [OF assms(1)] by fastforce
    then show ?thesis using True item r2c_relD(1-3) [OF assms(1)] assms(2)
      by (simp add: resToChatHandleOutputItemAdded_def Let_def r2c_rel_def gm_get_put)
  qed
  ultimately show ?thesis by blast
qed (use assms(1) in \<open>auto simp: resToChatHandleOutputItemAdded_def split: option.splits\<close>)

definition plain_handlers :: "(ResponsesStreamEvent \<Rightarrow> ResponsesEventToChatState \<Rightarrow> r2c) set" where
  "plain_handlers = {resToChatHandleCreated, resToChatHandleTextDelta, resToChatHandleRefusalDelta, resToChatHandleReasoningDelta}"

lemma plain_steps:
  assumes "h \<in> plain_handlers"
  shows "rs_Finalized (fst (h e s)) = rs_Finalized s" "rs_NextToolCallIndex (fst (h e s)) = rs_NextToolCallIndex s"
    "rs_OutputIndexToToolIndex (fst (h e s)) = rs_OutputIndexToToolIndex s" "plain_chunks (snd (h e s))"
  using assms by (auto simp: plain_handlers_def resToChatHandleCreated_def resToChatHandleTextDelta_def resToChatHandleRefusalDelta_def
      resToChatHandleReasoningDelta_def Let_def zero_chat_delta_def split: option.splits if_splits)

text \<open>The handlers that an event is dispatched to.\<close>

lemma if_mem: "x \<in> S \<Longrightarrow> y \<in> S \<Longrightarrow> (if c then x else y) \<in> S"
  by simp

lemma chunks_dispatch:
  "ResponsesEventToChatChunks e s \<in> insert (s, []) (if rs_Finalized s then {} else
     (\<lambda>h. h e s) ` insert resToChatHandleOutputItemAdded (insert resToChatHandleCompleted plain_handlers) \<union> range (\<lambda>e. resToChatHandleFuncArgsDelta e s))"
proof (cases "rs_Finalized s")
  case False
  then show ?thesis
    unfolding ResponsesEventToChatChunks_def resToChatHandleFuncArgsDone_def Let_def plain_handlers_def
    by (simp only: if_False) (intro if_mem; blast)
qed (simp add: ResponsesEventToChatChunks_def)

interpretation r2c: monitored_stream ResponsesEventToChatChunks "\<lambda>e. True" chat_mon r2c_rel
proof
  fix e s m
  assume rel: "r2c_rel s m"
  from chunks_dispatch [of e s] consider "ResponsesEventToChatChunks e s = (s, [])"
    | h where "\<not> rs_Finalized s" "h \<in> plain_handlers" "ResponsesEventToChatChunks e s = h e s"
    | "\<not> rs_Finalized s" "ResponsesEventToChatChunks e s = resToChatHandleOutputItemAdded e s"
    | "\<not> rs_Finalized s" "ResponsesEventToChatChunks e s = resToChatHandleCompleted e s"
    | e' where "\<not> rs_Finalized s" "ResponsesEventToChatChunks e s = resToChatHandleFuncArgsDelta e' s"
    by (auto split: if_splits)
  then show "\<exists>m'. accepts chat_mon m (snd (ResponsesEventToChatChunks e s)) = Some m' \<and> r2c_rel (fst (ResponsesEventToChatChunks e s)) m'"
  proof cases
    case (2 h)
    show ?thesis unfolding 2(3)
      using plain_accepted [OF rel 2(1) plain_steps(4) [OF 2(2)]] r2c_relI [OF rel plain_steps(1-3) [OF 2(2)]] by blast
  qed (use rel added_accepted args_accepted finish_accepted(1) in auto)
qed

text \<open>C32: The chunks of every Responses stream form one well-formed chat completion stream, whatever
  events the upstream sends and wherever it breaks off: the calls are announced with consecutive
  indices, a part of the arguments of a call refers to a call that was announced, exactly one chunk
  carries a finish reason, and nothing but at most one usage chunk follows it. After the stream was
  finalized no event produces another chunk.\<close>

theorem chat_stream_protocol:
  assumes "run_all ResponsesEventToChatChunks es ((NewResponsesEventToChatState newID unixNow)\<lparr>rs_Model := model, rs_IncludeUsage := b\<rparr>) = (s, chunks)"
  shows "\<exists>m. accepts chat_mon cmon_init (concat chunks @ snd (FinalizeResponsesChatStream s)) = Some m \<and> cn_finished m
    \<and> ResponsesEventToChatChunks e (fst (FinalizeResponsesChatStream s)) = (fst (FinalizeResponsesChatStream s), [])"
proof -
  let ?s = "(NewResponsesEventToChatState newID unixNow)\<lparr>rs_Model := model, rs_IncludeUsage := b\<rparr>"
  have fin: "rs_Finalized (fst (FinalizeResponsesChatStream s))" by (simp add: FinalizeResponsesChatStream_def Let_def)
  then have silent: "ResponsesEventToChatChunks e (fst (FinalizeResponsesChatStream s)) = (fst (FinalizeResponsesChatStream s), [])"
    by (simp add: ResponsesEventToChatChunks_def)
  have "r2c_rel ?s cmon_init" by (simp add: r2c_rel_def cmon_init_def NewResponsesEventToChatState_def)
  then obtain m where m: "accepts chat_mon cmon_init (concat chunks) = Some m" "r2c_rel s m"
    using r2c.run_accepted [of es ?s cmon_init] assms by (auto simp: list_all_iff)
  have "\<exists>m'. accepts chat_mon m (snd (FinalizeResponsesChatStream s)) = Some m' \<and> r2c_rel (fst (FinalizeResponsesChatStream s)) m'"
    using finish_accepted(2) [OF m(2)] m(2) by (cases "rs_Finalized s") (auto simp: FinalizeResponsesChatStream_def)
  then show ?thesis using m(1) fin silent r2c_relD(1) by (metis accepts_appendI)
qed

theorem chat_stream_protocol_witness:
  "\<exists>m. accepts chat_mon cmon_init (concat (snd (run_all ResponsesEventToChatChunks demo_call_stream
       ((NewResponsesEventToChatState ''id'' 0)\<lparr>rs_Model := ''m'', rs_IncludeUsage := False\<rparr>)))
     @ snd (FinalizeResponsesChatStream (fst (run_all ResponsesEventToChatChunks demo_call_stream
       ((NewResponsesEventToChatState ''id'' 0)\<lparr>rs_Model := ''m'', rs_IncludeUsage := False\<rparr>))))) = Some m \<and> cn_finished m"
  using chat_stream_protocol [OF prod.collapse [symmetric]] by blast

section \<open>Where the two paths differ\<close>

text \<open>Arguments that the upstream sends only in the event that ends them reach a client that streams.
  The accumulator ignores that event: a client that does not stream gets the call with no arguments.\<close>

theorem buffered_loses_done_arguments:
  assumes "args \<noteq> ''''"
    and "es = [zero_responses_event\<lparr>re_Type := ''response.output_item.added'',
           re_Item := Some (zero_output\<lparr>ro_Type := ''function_call'', ro_CallID := callID, ro_Name := name\<rparr>)\<rparr>,
         zero_responses_event\<lparr>re_Type := ''response.function_call_arguments.done'', re_Arguments := args\<rparr>]"
  shows "pt_calls (assemble no_parts (concat (snd (run_all ResponsesEventToChatChunks es (NewResponsesEventToChatState newID unixNow))))) =
      [function_call callID name args]
    \<and> pt_calls (acc_parts (fold ProcessEvent es NewBufferedResponseAccumulator)) = [function_call callID name '''']"
proof
  show "pt_calls (acc_parts (fold ProcessEvent es NewBufferedResponseAccumulator)) = [function_call callID name '''']"
    by (simp add: assms(2) ProcessEvent_def Let_def is_tool_item_def zero_responses_event_def zero_output_def NewBufferedResponseAccumulator_def acc_parts_def)
  show "pt_calls (assemble no_parts (concat (snd (run_all ResponsesEventToChatChunks es (NewResponsesEventToChatState newID unixNow))))) =
      [function_call callID name args]"
    using assms(1)
    by (simp add: assms(2) ResponsesEventToChatChunks_def Let_def resToChatHandleOutputItemAdded_def resToChatHandleFuncArgsDone_def
        resToChatHandleFuncArgsDelta_def is_tool_item_def zero_responses_event_def zero_output_def NewResponsesEventToChatState_def
        gm_get_put gm_getd_def client_tool_delta client_call_def merge_call_def function_call_def no_parts_def has_prefix_def)
qed

theorem buffered_loses_done_arguments_witness:
  "pt_calls (acc_parts (fold ProcessEvent [zero_responses_event\<lparr>re_Type := ''response.output_item.added'',
       re_Item := Some (zero_output\<lparr>ro_Type := ''function_call'', ro_CallID := ''c'', ro_Name := ''f''\<rparr>)\<rparr>,
     zero_responses_event\<lparr>re_Type := ''response.function_call_arguments.done'', re_Arguments := ''{}''\<rparr>] NewBufferedResponseAccumulator)) =
   [function_call ''c'' ''f'' '''']"
  using buffered_loses_done_arguments [where args = "''{}''" and callID = "''c''" and name = "''f''", OF _ refl] by simp

text \<open>A custom tool call is announced to a client that streams; in a response that lists its output it
  is not converted, and the finish reason does not mention it either.\<close>

theorem custom_call_dropped:
  assumes "rr_Output resp = [item]" "ro_Type item = ''custom_tool_call''" "rr_Status resp = ''completed''"
    and "ResponsesToChatCompletions marshal newID unixNow resp model = whole"
  shows "cr_Choices whole = [\<lparr>cc_Index = 0, cc_Message = zero_message\<lparr>cm_Role := ''assistant''\<rparr>, cc_FinishReason = ''stop''\<rparr>]
    \<and> pt_calls (assemble no_parts (snd (ResponsesEventToChatChunks
        (zero_responses_event\<lparr>re_Type := ''response.output_item.added'', re_Item := Some item\<rparr>) (NewResponsesEventToChatState newID unixNow)))) =
      [function_call (ro_CallID item) (ro_Name item) '''']"
  using assms
  by (auto simp: ResponsesToChatCompletions_def Let_def add_item_def no_parts_def chat_message_def zero_message_def
      responsesStatusToChatFinishReason_def ResponsesEventToChatChunks_def resToChatHandleOutputItemAdded_def is_tool_item_def
      zero_responses_event_def NewResponsesEventToChatState_def client_tool_delta client_call_def function_call_def)

theorem custom_call_dropped_witness:
  "cr_Choices (ResponsesToChatCompletions id ''id'' 0 (demo_end_response\<lparr>rr_Output := [zero_output\<lparr>ro_Type := ''custom_tool_call''\<rparr>]\<rparr>) ''m'') =
   [\<lparr>cc_Index = 0, cc_Message = zero_message\<lparr>cm_Role := ''assistant''\<rparr>, cc_FinishReason = ''stop''\<rparr>]"
  using custom_call_dropped [of "demo_end_response\<lparr>rr_Output := [zero_output\<lparr>ro_Type := ''custom_tool_call''\<rparr>]\<rparr>" _ id "''id''" 0 "''m''", OF _ _ _ refl]
  by (simp add: demo_end_response_def zero_output_def)

end
