(* ===== verification/Chat_To_Responses.thy ===== *)
theory Chat_To_Responses
  imports Chat_Tools Responses_To_Chat
begin

text \<open>
  The second half of \<open>internal/pkg/apicompat/chatcompletions_responses_bridge.go\<close>: a chat completion,
  whole or as a stream of chunks, becomes a response or a stream of Responses events. Several items
  may be open at once: the reasoning, the message and one item per tool call, announced as soon as
  its identifier and name are known and closed when the stream ends.

  \<open>encoding/json\<close> (\<open>br_valid\<close>, \<open>br_object\<close>, \<open>br_string\<close>, \<open>br_parts\<close>), \<open>strconv.Quote\<close> and the random
  part of an identifier (\<open>br_rand\<close>, counted by \<open>cs_Fresh\<close>) are parameters.
\<close>

section \<open>A whole completion\<close>

record bridge_lib =
  br_tools :: tool_lib
  br_valid :: "string \<Rightarrow> bool"
  br_object :: "string \<Rightarrow> (string, string) gomap option"
  br_string :: "string \<Rightarrow> string option"
  br_parts :: "string \<Rightarrow> (string \<times> string) list option"
  br_rand :: "nat \<Rightarrow> string"
  br_quote :: "string \<Rightarrow> string"

text \<open>The tools of the request that the response answers.\<close>

record tool_names =
  tn_custom :: "(string, bool) gomap"
  tn_functions :: "(string, bool) gomap"
  tn_search :: bool
  tn_namespaces :: "(string, NamespacedToolName) gomap"

definition generateItemID :: "bridge_lib \<Rightarrow> nat \<Rightarrow> string" where
  "generateItemID lib n = ''item_'' @ br_rand lib n"

definition custom_name :: "bridge_lib \<Rightarrow> tool_names \<Rightarrow> string \<Rightarrow> string option" where
  "custom_name lib tn name = customToolCallName (br_tools lib) name (tn_custom tn) (tn_functions tn) (tn_namespaces tn)"

definition extractCustomToolCallInput :: "bridge_lib \<Rightarrow> string \<Rightarrow> string" where
  "extractCustomToolCallInput lib arguments =
     (let trimmed = trim_space arguments in
      if trimmed = '''' then ''''
      else case br_object lib trimmed of
        None \<Rightarrow> trimmed
      | Some object \<Rightarrow>
          (case gm_get object ''input'' of
             Some raw \<Rightarrow> (case br_string lib raw of Some input \<Rightarrow> input | None \<Rightarrow> trimmed)
           | None \<Rightarrow> (if object = [] then '''' else trimmed)))"

definition chatMessageContentText :: "bridge_lib \<Rightarrow> string \<Rightarrow> string" where
  "chatMessageContentText lib content =
     (let raw = trim_space content in
      if raw = '''' \<or> raw = ''null'' then ''''
      else case br_string lib raw of
        Some t \<Rightarrow> t
      | None \<Rightarrow>
          (case br_parts lib raw of
             Some parts \<Rightarrow> str_join [CHR 10, CHR 10] (map snd (filter (\<lambda>(type, t). type = ''text'' \<and> t \<noteq> '''') parts))
           | None \<Rightarrow> ''''))"

definition default_arguments :: "string \<Rightarrow> string" where
  "default_arguments arguments = (if trim_space arguments = '''' then ''{}'' else arguments)"

definition emptyResponsesMessageOutput :: "string \<Rightarrow> ResponsesOutput" where
  "emptyResponsesMessageOutput itemID =
     zero_output\<lparr>ro_Type := ''message'', ro_ID := itemID, ro_Role := ''assistant'', ro_Content := [output_text ''''], ro_Status := ''completed''\<rparr>"

text \<open>The items of the four kinds of calls.\<close>

definition call_item :: "string \<Rightarrow> string \<Rightarrow> string \<Rightarrow> ResponsesOutput" where
  "call_item type itemID callID = zero_output\<lparr>ro_Type := type, ro_ID := itemID, ro_CallID := callID, ro_Status := ''completed''\<rparr>"

definition message_call :: "bridge_lib \<Rightarrow> tool_names \<Rightarrow> string \<Rightarrow> ChatToolCall \<Rightarrow> ResponsesOutput list" where
  "message_call lib tn itemID call =
     (let name = cf_Name (tc_Function call); arguments = default_arguments (cf_Arguments (tc_Function call)) in
      case custom_name lib tn name of
        Some customName \<Rightarrow> [(call_item ''custom_tool_call'' itemID (tc_ID call))\<lparr>ro_Name := customName, ro_Input := extractCustomToolCallInput lib arguments\<rparr>]
      | None \<Rightarrow>
          (if tn_search tn \<and> name = toolSearchProxyName then [(call_item ''tool_search_call'' itemID (tc_ID call))\<lparr>ro_Arguments := arguments\<rparr>]
           else if \<not> br_valid lib arguments then []
           else case gm_get (tn_namespaces tn) name of
             Some ns \<Rightarrow> [(call_item ''function_call'' itemID (tc_ID call))\<lparr>ro_Name := nt_Name ns, ro_Namespace := nt_Namespace ns, ro_Arguments := arguments\<rparr>]
           | None \<Rightarrow> [(call_item ''function_call'' itemID (tc_ID call))\<lparr>ro_Name := name, ro_Arguments := arguments\<rparr>]))"

definition reasoning_item :: "string \<Rightarrow> string \<Rightarrow> ResponsesOutput" where
  "reasoning_item itemID reasoning = zero_output\<lparr>ro_Type := ''reasoning'', ro_ID := itemID, ro_Summary := [\<lparr>sm_Type = ''summary_text'', sm_Text = reasoning\<rparr>]\<rparr>"

definition message_item_of :: "string \<Rightarrow> string \<Rightarrow> ResponsesOutput" where
  "message_item_of itemID t = (emptyResponsesMessageOutput itemID)\<lparr>ro_Content := [output_text t]\<rparr>"

text \<open>The identifiers are numbered by the position of the item: 0 for the reasoning, 1 for the message.\<close>

definition chatMessageToResponsesOutput :: "bridge_lib \<Rightarrow> tool_names \<Rightarrow> (nat \<Rightarrow> string) \<Rightarrow> ChatMessage \<Rightarrow> ResponsesOutput list" where
  "chatMessageToResponsesOutput lib tn itemID message =
     (let reasoning = message_reasoningText message; t = chatMessageContentText lib (cm_Content message) in
      (if reasoning \<noteq> '''' then [reasoning_item (itemID 0) reasoning] else [])
      @ (if t \<noteq> '''' \<or> cm_ToolCalls message = [] \<and> reasoning = '''' then [message_item_of (itemID 1) t] else [])
      @ concat (map (\<lambda>(n, call). message_call lib tn (itemID (n + 2)) call) (enumerate 0 (cm_ToolCalls message))))"

definition mark_incomplete :: "ResponsesOutput \<Rightarrow> ResponsesOutput" where
  "mark_incomplete item = (if ro_Status item \<noteq> '''' then item\<lparr>ro_Status := ''incomplete''\<rparr> else item)"

definition cut_short :: "string \<Rightarrow> bool" where
  "cut_short finishReason \<longleftrightarrow> finishReason = ''length'' \<or> finishReason = ''content_filter''"

definition cut_details :: "string \<Rightarrow> ResponsesIncompleteDetails option" where
  "cut_details finishReason =
     (if cut_short finishReason
      then Some \<lparr>id_Reason = (if finishReason = ''content_filter'' then ''content_filter'' else ''max_output_tokens'')\<rparr> else None)"

definition fresh_response :: "string \<Rightarrow> int \<Rightarrow> string \<Rightarrow> ResponsesResponse" where
  "fresh_response respID created model =
     \<lparr>rr_UpstreamServiceTier = '''', rr_CreatedAt = created, rr_ID = respID, rr_Object = ''response'', rr_Model = model,
      rr_Status = ''completed'', rr_Output = [], rr_Usage = None, rr_IncompleteDetails = None, rr_Error = None\<rparr>"

definition invalid_call_error :: "bridge_lib \<Rightarrow> ChatToolCall \<Rightarrow> string" where
  "invalid_call_error lib call = ''tool call '' @ br_quote lib (tc_ID call) @ '' ('' @ cf_Name (tc_Function call) @ '') arguments are invalid JSON''"

definition ChatCompletionsResponseToResponses ::
  "bridge_lib \<Rightarrow> tool_names \<Rightarrow> (nat \<Rightarrow> string) \<Rightarrow> string \<Rightarrow> int \<Rightarrow> ChatCompletionsResponse option \<Rightarrow> string \<Rightarrow> ResponsesResponse" where
  "ChatCompletionsResponseToResponses lib tn itemID newID unixNow response model =
     (case response of
        None \<Rightarrow> (fresh_response newID unixNow model)\<lparr>rr_Output := [emptyResponsesMessageOutput (itemID 0)]\<rparr>
      | Some resp \<Rightarrow>
          (let out = fresh_response (if cr_ID resp = '''' then newID else cr_ID resp) unixNow model in
           case ValidateChatToolCalls (br_tools lib) (br_valid lib) resp (tn_custom tn) (tn_search tn) (tn_namespaces tn) (tn_functions tn) of
             Some call \<Rightarrow> out\<lparr>rr_Status := ''failed'', rr_Error := Some \<lparr>er_Code = ''invalid_tool_arguments'', er_Message = invalid_call_error lib call\<rparr>\<rparr>
           | None \<Rightarrow>
               (let out = (if rr_Model out = '''' then out\<lparr>rr_Model := cr_Model resp\<rparr> else out);
                    out = (case cr_Choices resp of
                       [] \<Rightarrow> out
                     | choice # _ \<Rightarrow>
                         (let items = chatMessageToResponsesOutput lib tn itemID (cc_Message choice) in
                          if cut_short (cc_FinishReason choice)
                          then out\<lparr>rr_Status := ''incomplete'', rr_IncompleteDetails := cut_details (cc_FinishReason choice), rr_Output := map mark_incomplete items\<rparr>
                          else out\<lparr>rr_Output := items\<rparr>));
                    out = (if rr_Output out = [] then out\<lparr>rr_Output := [emptyResponsesMessageOutput (itemID 0)]\<rparr> else out)
                in out\<lparr>rr_UpstreamServiceTier := cr_ServiceTier resp, rr_Usage := ChatUsageToResponsesUsage (cr_Usage resp)\<rparr>)))"

section \<open>The stream\<close>

record ChatCompletionsToResponsesStreamState =
  cs_UpstreamServiceTier :: string
  cs_ResponseID :: string
  cs_Model :: string
  cs_Created :: int
  cs_SequenceNumber :: int
  cs_CreatedSent :: bool
  cs_CompletedSent :: bool
  cs_nextOutputIndex :: int
  cs_ReasoningItemID :: string
  cs_ReasoningIndex :: int
  cs_ReasoningOpen :: bool
  cs_ReasoningDone :: bool
  cs_MessageItemID :: string
  cs_MessageIndex :: int
  cs_TextPartOpen :: bool
  cs_Text :: string
  cs_Reasoning :: string
  cs_ToolCalls :: "(int, ChatToolCall) gomap"
  cs_ToolItemIDs :: "(int, string) gomap"
  cs_ToolOutputIndex :: "(int, int) gomap"
  cs_Tools :: tool_names
  cs_toolIsCustom :: "(int, bool) gomap"
  cs_toolIsToolSearch :: "(int, bool) gomap"
  cs_toolNamespace :: "(int, NamespacedToolName) gomap"
  cs_toolAnnounced :: "(int, bool) gomap"
  cs_FinishReason :: string
  cs_Usage :: "ResponsesUsage option"
  cs_Fresh :: nat

definition NewChatCompletionsToResponsesStreamState :: "string \<Rightarrow> int \<Rightarrow> tool_names \<Rightarrow> string \<Rightarrow> ChatCompletionsToResponsesStreamState" where
  "NewChatCompletionsToResponsesStreamState newID unixNow tools model =
     \<lparr>cs_UpstreamServiceTier = '''', cs_ResponseID = newID, cs_Model = model, cs_Created = unixNow, cs_SequenceNumber = 0, cs_CreatedSent = False,
      cs_CompletedSent = False, cs_nextOutputIndex = 0, cs_ReasoningItemID = '''', cs_ReasoningIndex = 0, cs_ReasoningOpen = False,
      cs_ReasoningDone = False, cs_MessageItemID = '''', cs_MessageIndex = 0, cs_TextPartOpen = False, cs_Text = '''', cs_Reasoning = '''',
      cs_ToolCalls = [], cs_ToolItemIDs = [], cs_ToolOutputIndex = [], cs_Tools = tools, cs_toolIsCustom = [], cs_toolIsToolSearch = [],
      cs_toolNamespace = [], cs_toolAnnounced = [], cs_FinishReason = '''', cs_Usage = None, cs_Fresh = 0\<rparr>"

type_synonym c2r_state = ChatCompletionsToResponsesStreamState
type_synonym c2r = "ChatCompletionsToResponsesStreamState \<times> ResponsesStreamEvent list"

definition chatToResponsesEvent :: "ResponsesStreamEvent \<Rightarrow> c2r_state \<Rightarrow> c2r_state \<times> ResponsesStreamEvent" where
  "chatToResponsesEvent template state =
     (state\<lparr>cs_SequenceNumber := cs_SequenceNumber state + 1\<rparr>, template\<lparr>re_SequenceNumber := cs_SequenceNumber state\<rparr>)"

text \<open>A handler emits a list of events; they are numbered in order.\<close>

definition emit :: "ResponsesStreamEvent list \<Rightarrow> c2r_state \<Rightarrow> c2r" where
  "emit templates state = run_all chatToResponsesEvent templates state"

text \<open>Go appends the events of one handler after those of the other.\<close>

definition then_do :: "(c2r_state \<Rightarrow> c2r) \<Rightarrow> (c2r_state \<Rightarrow> c2r) \<Rightarrow> c2r_state \<Rightarrow> c2r" where
  "then_do f g state = (let (state, es) = f state; (state, es') = g state in (state, es @ es'))"

definition event_of :: "string \<Rightarrow> ResponsesStreamEvent" where
  "event_of type = zero_responses_event\<lparr>re_Type := type\<rparr>"

definition summary_part :: "string \<Rightarrow> ResponsesContentPart" where
  "summary_part t = (output_text t)\<lparr>cp_Type := ''summary_text''\<rparr>"

definition ensureChatToResponsesCreated :: "c2r_state \<Rightarrow> c2r" where
  "ensureChatToResponsesCreated state =
     (if cs_CreatedSent state then (state, [])
      else emit [(event_of ''response.created'')\<lparr>re_Response := Some ((fresh_response (cs_ResponseID state) (cs_Created state) (cs_Model state))\<lparr>rr_Status := ''in_progress''\<rparr>)\<rparr>]
             (state\<lparr>cs_CreatedSent := True\<rparr>))"

definition ensureChatToResponsesMessageItem :: "bridge_lib \<Rightarrow> c2r_state \<Rightarrow> c2r" where
  "ensureChatToResponsesMessageItem lib state =
     (if cs_MessageItemID state \<noteq> '''' then (state, [])
      else (let state = state\<lparr>cs_MessageItemID := generateItemID lib (cs_Fresh state), cs_Fresh := cs_Fresh state + 1,
                  cs_MessageIndex := cs_nextOutputIndex state, cs_nextOutputIndex := cs_nextOutputIndex state + 1\<rparr>
            in emit [(event_of ''response.output_item.added'')\<lparr>re_OutputIndex := cs_MessageIndex state,
                      re_Item := Some (zero_output\<lparr>ro_Type := ''message'', ro_ID := cs_MessageItemID state, ro_Role := ''assistant'', ro_Status := ''in_progress''\<rparr>)\<rparr>] state))"

definition ensureChatToResponsesTextPart :: "c2r_state \<Rightarrow> c2r" where
  "ensureChatToResponsesTextPart state =
     (if cs_TextPartOpen state then (state, [])
      else emit [(event_of ''response.content_part.added'')\<lparr>re_OutputIndex := cs_MessageIndex state, re_ItemID := cs_MessageItemID state, re_Part := Some (output_text '''')\<rparr>]
             (state\<lparr>cs_TextPartOpen := True\<rparr>))"

definition ensureChatReasoningItem :: "bridge_lib \<Rightarrow> c2r_state \<Rightarrow> c2r" where
  "ensureChatReasoningItem lib state =
     (if cs_ReasoningOpen state \<or> cs_ReasoningDone state then (state, [])
      else (let state = state\<lparr>cs_ReasoningOpen := True, cs_ReasoningItemID := generateItemID lib (cs_Fresh state), cs_Fresh := cs_Fresh state + 1,
                  cs_ReasoningIndex := cs_nextOutputIndex state, cs_nextOutputIndex := cs_nextOutputIndex state + 1\<rparr>
            in emit [(event_of ''response.output_item.added'')\<lparr>re_OutputIndex := cs_ReasoningIndex state,
                       re_Item := Some (zero_output\<lparr>ro_Type := ''reasoning'', ro_ID := cs_ReasoningItemID state, ro_Status := ''in_progress''\<rparr>)\<rparr>,
                     (event_of ''response.reasoning_summary_part.added'')\<lparr>re_OutputIndex := cs_ReasoningIndex state, re_ItemID := cs_ReasoningItemID state,
                       re_Part := Some (summary_part '''')\<rparr>] state))"

definition closeChatReasoningItem :: "c2r_state \<Rightarrow> c2r" where
  "closeChatReasoningItem state =
     (if \<not> cs_ReasoningOpen state then (state, [])
      else (let idx = cs_ReasoningIndex state; itemID = cs_ReasoningItemID state; reasoning = cs_Reasoning state in
            emit [(event_of ''response.reasoning_summary_text.done'')\<lparr>re_OutputIndex := idx, re_Text := reasoning, re_ItemID := itemID\<rparr>,
                  (event_of ''response.reasoning_summary_part.done'')\<lparr>re_OutputIndex := idx, re_ItemID := itemID, re_Part := Some (summary_part reasoning)\<rparr>,
                  (event_of ''response.output_item.done'')\<lparr>re_OutputIndex := idx, re_Item := Some ((reasoning_item itemID reasoning)\<lparr>ro_Status := ''completed''\<rparr>)\<rparr>]
              (state\<lparr>cs_ReasoningOpen := False, cs_ReasoningDone := True\<rparr>)))"

subsection \<open>Tool calls\<close>

definition put_call :: "int \<Rightarrow> ChatToolCall \<Rightarrow> c2r_state \<Rightarrow> c2r_state" where
  "put_call idx call state = state\<lparr>cs_ToolCalls := gm_put idx call (cs_ToolCalls state)\<rparr>"

definition args_delta :: "c2r_state \<Rightarrow> int \<Rightarrow> ChatToolCall \<Rightarrow> string \<Rightarrow> ResponsesStreamEvent" where
  "args_delta state idx call d =
     (event_of ''response.function_call_arguments.delta'')\<lparr>re_OutputIndex := gm_getd 0 (cs_ToolOutputIndex state) idx,
       re_ItemID := gm_getd '''' (cs_ToolItemIDs state) idx, re_Delta := d, re_CallID := tc_ID call, re_Name := cf_Name (tc_Function call)\<rparr>"

definition set_name :: "string \<Rightarrow> ChatToolCall \<Rightarrow> ChatToolCall" where
  "set_name name call = call\<lparr>tc_Function := (tc_Function call)\<lparr>cf_Name := name\<rparr>\<rparr>"

definition add_arguments :: "string \<Rightarrow> ChatToolCall \<Rightarrow> ChatToolCall" where
  "add_arguments d call = call\<lparr>tc_Function := (tc_Function call)\<lparr>cf_Arguments := cf_Arguments (tc_Function call) @ d\<rparr>\<rparr>"

definition rename_custom :: "bridge_lib \<Rightarrow> tool_names \<Rightarrow> ChatToolCall \<Rightarrow> ChatToolCall" where
  "rename_custom lib tn call = (case custom_name lib tn (cf_Name (tc_Function call)) of Some name \<Rightarrow> set_name name call | None \<Rightarrow> call)"

text \<open>\<open>stored\<close> is the call that the map \<open>ToolCalls\<close> points to; what the function does to it is written back.\<close>

definition announceChatToolItem :: "bridge_lib \<Rightarrow> int \<Rightarrow> bool \<Rightarrow> ChatToolCall \<Rightarrow> c2r_state \<Rightarrow> c2r" where
  "announceChatToolItem lib idx force stored state =
     (if gm_getd False (cs_toolAnnounced state) idx \<or> \<not> force \<and> (tc_ID stored = '''' \<or> cf_Name (tc_Function stored) = '''')
      then (put_call idx stored state, [])
      else
        (let tn = cs_Tools state;
             fresh = (tc_ID stored = '''');
             stored = (if fresh then stored\<lparr>tc_ID := generateItemID lib (cs_Fresh state)\<rparr> else stored);
             isCustom = (custom_name lib tn (cf_Name (tc_Function stored)) \<noteq> None);
             stored = rename_custom lib tn stored;
             name = cf_Name (tc_Function stored);
             isToolSearch = (\<not> isCustom \<and> tn_search tn \<and> name = toolSearchProxyName);
             ns = (if isCustom \<or> isToolSearch then None else gm_get (tn_namespaces tn) name);
             state = put_call idx stored (state\<lparr>cs_Fresh := (if fresh then cs_Fresh state + 1 else cs_Fresh state),
               cs_toolAnnounced := gm_put idx True (cs_toolAnnounced state), cs_toolIsCustom := gm_put idx isCustom (cs_toolIsCustom state),
               cs_toolIsToolSearch := gm_put idx isToolSearch (cs_toolIsToolSearch state),
               cs_toolNamespace := (case ns of Some n \<Rightarrow> gm_put idx n (cs_toolNamespace state) | None \<Rightarrow> cs_toolNamespace state)\<rparr>)
         in emit
              ((event_of ''response.output_item.added'')\<lparr>re_OutputIndex := gm_getd 0 (cs_ToolOutputIndex state) idx,
                 re_Item := Some (zero_output\<lparr>ro_Type := (if isCustom then ''custom_tool_call'' else if isToolSearch then ''tool_search_call'' else ''function_call''),
                   ro_ID := gm_getd '''' (cs_ToolItemIDs state) idx, ro_CallID := tc_ID stored,
                   ro_Name := (case ns of Some n \<Rightarrow> nt_Name n | None \<Rightarrow> name), ro_Namespace := (case ns of Some n \<Rightarrow> nt_Namespace n | None \<Rightarrow> ''''),
                   ro_Status := ''in_progress''\<rparr>)\<rparr>
               # (if \<not> isCustom \<and> \<not> isToolSearch \<and> cf_Arguments (tc_Function stored) \<noteq> ''''
                  then [args_delta state idx stored (cf_Arguments (tc_Function stored))] else []))
              state))"

text \<open>The call that a delta starts or continues.\<close>

definition open_call :: "bridge_lib \<Rightarrow> int \<Rightarrow> ChatToolCall \<Rightarrow> c2r_state \<Rightarrow> c2r" where
  "open_call lib idx toolCall state =
     (case gm_get (cs_ToolCalls state) idx of
        None \<Rightarrow>
          (let (state, es) = closeChatReasoningItem state
           in (put_call idx (toolCall\<lparr>tc_Type := ''function'', tc_Function := (tc_Function toolCall)\<lparr>cf_Arguments := ''''\<rparr>\<rparr>)
                 (state\<lparr>cs_ToolItemIDs := gm_put idx (generateItemID lib (cs_Fresh state)) (cs_ToolItemIDs state), cs_Fresh := cs_Fresh state + 1,
                    cs_ToolOutputIndex := gm_put idx (cs_nextOutputIndex state) (cs_ToolOutputIndex state),
                    cs_nextOutputIndex := cs_nextOutputIndex state + 1\<rparr>), es))
      | Some stored \<Rightarrow>
          (let stored = (if tc_ID toolCall \<noteq> '''' then stored\<lparr>tc_ID := tc_ID toolCall\<rparr> else stored);
               stored = (if cf_Name (tc_Function toolCall) \<noteq> '''' then set_name (cf_Name (tc_Function toolCall)) stored else stored)
           in (put_call idx stored state, [])))"

definition stored_call :: "int \<Rightarrow> c2r_state \<Rightarrow> ChatToolCall" where
  "stored_call idx state = gm_getd (function_call '''' '''' '''') (cs_ToolCalls state) idx"

definition announce_call :: "bridge_lib \<Rightarrow> int \<Rightarrow> c2r_state \<Rightarrow> c2r" where
  "announce_call lib idx state = announceChatToolItem lib idx False (rename_custom lib (cs_Tools state) (stored_call idx state)) state"

definition append_call_arguments :: "int \<Rightarrow> string \<Rightarrow> c2r_state \<Rightarrow> c2r" where
  "append_call_arguments idx d state =
     (if d = '''' then (state, [])
      else
        (let stored = add_arguments d (stored_call idx state); state = put_call idx stored state
         in if gm_getd False (cs_toolAnnounced state) idx \<and> \<not> gm_getd False (cs_toolIsCustom state) idx \<and> \<not> gm_getd False (cs_toolIsToolSearch state) idx
            then emit [args_delta state idx stored d] state else (state, [])))"

definition delta_call :: "bridge_lib \<Rightarrow> ChatToolCall \<Rightarrow> c2r_state \<Rightarrow> c2r" where
  "delta_call lib toolCall state =
     (let idx = (case tc_Index toolCall of Some i \<Rightarrow> i | None \<Rightarrow> 0)
      in then_do (open_call lib idx toolCall)
           (then_do (announce_call lib idx) (append_call_arguments idx (cf_Arguments (tc_Function toolCall)))) state)"

subsection \<open>A chunk\<close>

definition delta_reasoning :: "bridge_lib \<Rightarrow> string \<Rightarrow> c2r_state \<Rightarrow> c2r" where
  "delta_reasoning lib r state =
     (if r = '''' then (state, [])
      else then_do (ensureChatReasoningItem lib)
        (\<lambda>state. emit [(event_of ''response.reasoning_summary_text.delta'')\<lparr>re_OutputIndex := cs_ReasoningIndex state, re_Delta := r, re_ItemID := cs_ReasoningItemID state\<rparr>]
           (state\<lparr>cs_Reasoning := cs_Reasoning state @ r\<rparr>)) state)"

definition delta_content :: "bridge_lib \<Rightarrow> string \<Rightarrow> c2r_state \<Rightarrow> c2r" where
  "delta_content lib t state =
     (if t = '''' then (state, [])
      else then_do closeChatReasoningItem (then_do (ensureChatToResponsesMessageItem lib) (then_do ensureChatToResponsesTextPart
        (\<lambda>state. emit [(event_of ''response.output_text.delta'')\<lparr>re_OutputIndex := cs_MessageIndex state, re_Delta := t, re_ItemID := cs_MessageItemID state\<rparr>]
           (state\<lparr>cs_Text := cs_Text state @ t\<rparr>)))) state)"

fun delta_calls :: "bridge_lib \<Rightarrow> ChatToolCall list \<Rightarrow> c2r_state \<Rightarrow> c2r" where
  "delta_calls lib [] state = (state, [])"
| "delta_calls lib (c # cs) state = then_do (delta_call lib c) (delta_calls lib cs) state"

definition set_finish :: "string option \<Rightarrow> c2r_state \<Rightarrow> c2r" where
  "set_finish reason state = (case reason of Some r \<Rightarrow> (if r \<noteq> '''' then state\<lparr>cs_FinishReason := r\<rparr> else state) | None \<Rightarrow> state, [])"

definition choice_events :: "bridge_lib \<Rightarrow> ChatChunkChoice \<Rightarrow> c2r_state \<Rightarrow> c2r" where
  "choice_events lib choice =
     (let d = ch_Delta choice in
      then_do (delta_reasoning lib (opt_text (delta_reasoningText d)))
        (then_do (delta_content lib (opt_text (dl_Content d)))
          (then_do (delta_calls lib (dl_ToolCalls d)) (set_finish (ch_FinishReason choice)))))"

fun choices_events :: "bridge_lib \<Rightarrow> ChatChunkChoice list \<Rightarrow> c2r_state \<Rightarrow> c2r" where
  "choices_events lib [] state = (state, [])"
| "choices_events lib (c # cs) state = then_do (choice_events lib c) (choices_events lib cs) state"

definition chunk_header :: "ChatCompletionsChunk \<Rightarrow> c2r_state \<Rightarrow> c2r_state" where
  "chunk_header chunk state =
     (let state = (if ck_ID chunk \<noteq> '''' \<and> \<not> cs_CreatedSent state then state\<lparr>cs_ResponseID := ck_ID chunk\<rparr> else state);
          state = (if cs_Model state = '''' \<and> ck_Model chunk \<noteq> '''' then state\<lparr>cs_Model := ck_Model chunk\<rparr> else state);
          state = (if ck_ServiceTier chunk \<noteq> '''' then state\<lparr>cs_UpstreamServiceTier := ck_ServiceTier chunk\<rparr> else state)
      in if ck_Usage chunk \<noteq> None then state\<lparr>cs_Usage := ChatUsageToResponsesUsage (ck_Usage chunk)\<rparr> else state)"

definition ChatCompletionsChunkToResponsesEvents :: "bridge_lib \<Rightarrow> ChatCompletionsChunk \<Rightarrow> c2r_state \<Rightarrow> c2r" where
  "ChatCompletionsChunkToResponsesEvents lib chunk state =
     then_do ensureChatToResponsesCreated (choices_events lib (ck_Choices chunk)) (chunk_header chunk state)"

subsection \<open>The end\<close>

definition ValidateToolCallArguments :: "bridge_lib \<Rightarrow> c2r_state \<Rightarrow> ChatToolCall option" where
  "ValidateToolCallArguments lib state =
     map_option snd (List.find (\<lambda>(idx, call). \<not> gm_getd False (cs_toolIsCustom state) idx \<and> \<not> gm_getd False (cs_toolIsToolSearch state) idx
        \<and> \<not> call_arguments_ok (br_valid lib) (cf_Arguments (tc_Function call))) (cs_ToolCalls state))"

definition sortedChatToolCallIndexes :: "(int, ChatToolCall) gomap \<Rightarrow> int list" where
  "sortedChatToolCallIndexes toolCalls = sort (map fst toolCalls)"

text \<open>The item of a call that is closed, with the fields that its kind has.\<close>

definition final_item :: "bridge_lib \<Rightarrow> c2r_state \<Rightarrow> int \<Rightarrow> string \<Rightarrow> ResponsesOutput" where
  "final_item lib state i itemID =
     (let call = stored_call i state; name = cf_Name (tc_Function call); arguments = default_arguments (cf_Arguments (tc_Function call)) in
      if gm_getd False (cs_toolIsCustom state) i then
        (call_item ''custom_tool_call'' itemID (tc_ID call))\<lparr>ro_Name := name, ro_Input := extractCustomToolCallInput lib arguments\<rparr>
      else if gm_getd False (cs_toolIsToolSearch state) i then (call_item ''tool_search_call'' itemID (tc_ID call))\<lparr>ro_Arguments := arguments\<rparr>
      else (case gm_get (cs_toolNamespace state) i of
          Some ns \<Rightarrow> (call_item ''function_call'' itemID (tc_ID call))\<lparr>ro_Name := nt_Name ns, ro_Namespace := nt_Namespace ns, ro_Arguments := arguments\<rparr>
        | None \<Rightarrow> (call_item ''function_call'' itemID (tc_ID call))\<lparr>ro_Name := name, ro_Arguments := arguments\<rparr>))"

definition close_events :: "bridge_lib \<Rightarrow> c2r_state \<Rightarrow> int \<Rightarrow> int \<Rightarrow> ResponsesStreamEvent list" where
  "close_events lib state i outputIndex =
     (let call = stored_call i state; itemID = gm_getd '''' (cs_ToolItemIDs state) i; item = final_item lib state i itemID;
          finished = (event_of ''response.output_item.done'')\<lparr>re_OutputIndex := outputIndex, re_Item := Some item\<rparr>
      in if gm_getd False (cs_toolIsCustom state) i then
           (if ro_Input item \<noteq> ''''
            then [(event_of ''response.custom_tool_call_input.delta'')\<lparr>re_OutputIndex := outputIndex, re_ItemID := itemID, re_Delta := ro_Input item\<rparr>] else [])
           @ [(event_of ''response.custom_tool_call_input.done'')\<lparr>re_OutputIndex := outputIndex, re_ItemID := itemID, re_CallID := tc_ID call,
                re_Name := cf_Name (tc_Function call), re_Input := ro_Input item\<rparr>, finished]
         else if gm_getd False (cs_toolIsToolSearch state) i then [finished]
         else if \<not> br_valid lib (ro_Arguments item) then []
         else [(event_of ''response.function_call_arguments.done'')\<lparr>re_OutputIndex := outputIndex, re_ItemID := itemID, re_Arguments := ro_Arguments item,
                 re_CallID := tc_ID call, re_Name := ro_Name item\<rparr>, finished])"

definition close_call :: "bridge_lib \<Rightarrow> int \<Rightarrow> c2r_state \<Rightarrow> c2r" where
  "close_call lib i =
     then_do (\<lambda>state. announceChatToolItem lib i True (stored_call i state) state)
       (\<lambda>state. case gm_get (cs_ToolOutputIndex state) i of None \<Rightarrow> (state, []) | Some outputIndex \<Rightarrow> emit (close_events lib state i outputIndex) state)"

fun close_calls :: "bridge_lib \<Rightarrow> int list \<Rightarrow> c2r_state \<Rightarrow> c2r" where
  "close_calls lib [] state = (state, [])"
| "close_calls lib (i # is) state = then_do (close_call lib i) (close_calls lib is) state"

definition closeChatToolItems :: "bridge_lib \<Rightarrow> c2r_state \<Rightarrow> c2r" where
  "closeChatToolItems lib state = close_calls lib (sortedChatToolCallIndexes (cs_ToolCalls state)) state"

definition nonEmpty :: "string \<Rightarrow> string \<Rightarrow> string" where
  "nonEmpty s fallback = (if s \<noteq> '''' then s else fallback)"

definition chatOutput :: "bridge_lib \<Rightarrow> c2r_state \<Rightarrow> ResponsesOutput list" where
  "chatOutput lib state =
     (if cs_Reasoning state \<noteq> '''' then [reasoning_item (nonEmpty (cs_ReasoningItemID state) (generateItemID lib (cs_Fresh state))) (cs_Reasoning state)] else [])
     @ (if cs_MessageItemID state \<noteq> '''' \<or> cs_ToolCalls state = [] \<and> cs_Reasoning state = ''''
        then [message_item_of (nonEmpty (cs_MessageItemID state) (generateItemID lib (cs_Fresh state + 1))) (cs_Text state)] else [])
     @ map (\<lambda>(n, i). final_item lib state i (nonEmpty (gm_getd '''' (cs_ToolItemIDs state) i) (generateItemID lib (cs_Fresh state + 2 + n))))
         (enumerate 0 (sortedChatToolCallIndexes (cs_ToolCalls state)))"

definition close_message :: "c2r_state \<Rightarrow> c2r" where
  "close_message state =
     (if cs_MessageItemID state = '''' then (state, [])
      else
        (let idx = cs_MessageIndex state; itemID = cs_MessageItemID state; t = cs_Text state in
         emit ((if cs_TextPartOpen state
                then [(event_of ''response.output_text.done'')\<lparr>re_OutputIndex := idx, re_Text := t, re_ItemID := itemID\<rparr>,
                      (event_of ''response.content_part.done'')\<lparr>re_OutputIndex := idx, re_ItemID := itemID, re_Part := Some (output_text t)\<rparr>] else [])
               @ [(event_of ''response.output_item.done'')\<lparr>re_OutputIndex := idx, re_Item := Some (message_item_of itemID t)\<rparr>]) state))"

definition incomplete_event :: "ResponsesStreamEvent \<Rightarrow> ResponsesStreamEvent" where
  "incomplete_event e = e\<lparr>re_Item := map_option mark_incomplete (re_Item e)\<rparr>"

definition FinalizeChatCompletionsResponsesStream :: "bridge_lib \<Rightarrow> c2r_state \<Rightarrow> c2r" where
  "FinalizeChatCompletionsResponsesStream lib state =
     (if cs_CompletedSent state then (state, [])
      else
        (let (state, events) = then_do ensureChatToResponsesCreated (then_do closeChatReasoningItem (then_do close_message (closeChatToolItems lib))) state;
             cut = cut_short (cs_FinishReason state);
             events = (if cut then map incomplete_event events else events);
             state = state\<lparr>cs_CompletedSent := True\<rparr>;
             items = (if cut then map mark_incomplete (chatOutput lib state) else chatOutput lib state);
             response = (fresh_response (cs_ResponseID state) (cs_Created state) (cs_Model state))\<lparr>rr_UpstreamServiceTier := cs_UpstreamServiceTier state,
               rr_Status := (if cut then ''incomplete'' else ''completed''), rr_Output := items, rr_Usage := cs_Usage state,
               rr_IncompleteDetails := cut_details (cs_FinishReason state)\<rparr>;
             (state, terminal) = emit [(event_of (if cut then ''response.incomplete'' else ''response.completed''))\<lparr>re_Response := Some response\<rparr>] state
         in (state, events @ terminal)))"

end
