(* ===== verification/Chat_Stream_Protocol.thy ===== *)
theory Chat_Stream_Protocol
  imports Chat_To_Responses
begin

text \<open>
  The Responses events that the chat completions bridge emits obey the protocol of the Responses API:
  a monitor of the items that are open, with their index, identifier and type, accepts the events of
  every stream whose reasoning precedes its other content, up to and including the terminal event.
  The handlers are composed with \<open>then_do\<close>, and so are the triples that describe them.
\<close>

section \<open>The monitor\<close>

type_synonym slot = "string \<times> string \<times> bool"

record item_monitor =
  im_seq :: int
  im_created :: bool
  im_items :: "(int, slot) gomap"
  im_done :: bool

definition imon_init :: item_monitor where
  "imon_init = \<lparr>im_seq = 0, im_created = False, im_items = [], im_done = False\<rparr>"

text \<open>The type of item that an event inside an item belongs to.\<close>

definition event_kind :: "string \<Rightarrow> string option" where
  "event_kind t =
     (if t \<in> {''response.output_text.delta'', ''response.output_text.done'', ''response.content_part.added'', ''response.content_part.done''} then Some ''message''
      else if t \<in> {''response.reasoning_summary_part.added'', ''response.reasoning_summary_text.delta'', ''response.reasoning_summary_text.done'',
          ''response.reasoning_summary_part.done''} then Some ''reasoning''
      else if t \<in> {''response.function_call_arguments.delta'', ''response.function_call_arguments.done''} then Some ''function_call''
      else if t \<in> {''response.custom_tool_call_input.delta'', ''response.custom_tool_call_input.done''} then Some ''custom_tool_call''
      else None)"

definition item_step :: "item_monitor \<Rightarrow> ResponsesStreamEvent \<Rightarrow> item_monitor option" where
  "item_step m e =
     (let t = re_Type e; slot = gm_get (im_items m) (re_OutputIndex e) in
      if im_done m then None
      else if t = ''response.created'' then (if im_created m then None else Some (m\<lparr>im_created := True\<rparr>))
      else if \<not> im_created m then None
      else if t = ''response.output_item.added'' then
        (case re_Item e of
           Some item \<Rightarrow> (if slot = None then Some (m\<lparr>im_items := gm_put (re_OutputIndex e) (ro_ID item, ro_Type item, True) (im_items m)\<rparr>) else None)
         | None \<Rightarrow> None)
      else if t = ''response.output_item.done'' then
        (case re_Item e of
           Some item \<Rightarrow> (if slot = Some (ro_ID item, ro_Type item, True)
             then Some (m\<lparr>im_items := gm_put (re_OutputIndex e) (ro_ID item, ro_Type item, False) (im_items m)\<rparr>) else None)
         | None \<Rightarrow> None)
      else if t = ''response.completed'' \<or> t = ''response.incomplete'' then
        (case re_Response e of
           Some r \<Rightarrow> (if list_all (\<lambda>(_, itemID, type, is_open). \<not> is_open \<and> list_ex (\<lambda>item. ro_ID item = itemID \<and> ro_Type item = type) (rr_Output r)) (im_items m)
             then Some (m\<lparr>im_done := True\<rparr>) else None)
         | None \<Rightarrow> None)
      else (case event_kind t of
          Some kind \<Rightarrow> (if slot = Some (re_ItemID e, kind, True) then Some m else None)
        | None \<Rightarrow> None))"

text \<open>The events carry consecutive sequence numbers.\<close>

definition items_mon :: "item_monitor \<Rightarrow> ResponsesStreamEvent \<Rightarrow> item_monitor option" where
  "items_mon m e = (if re_SequenceNumber e = im_seq m then map_option (\<lambda>m'. m'\<lparr>im_seq := im_seq m + 1\<rparr>) (item_step m e) else None)"

lemma item_step_seq: "item_step (m\<lparr>im_seq := n\<rparr>) (e\<lparr>re_SequenceNumber := k\<rparr>) = map_option (\<lambda>m'. m'\<lparr>im_seq := n\<rparr>) (item_step m e)"
  by (simp add: item_step_def Let_def split: option.splits)

lemma item_step_keeps_seq: "item_step m e = Some m' \<Longrightarrow> im_seq m' = im_seq m"
  by (auto simp: item_step_def Let_def split: option.splits if_splits)

lemma item_step_number: "item_step m (e\<lparr>re_SequenceNumber := k\<rparr>) = item_step m e"
  by (simp add: item_step_def Let_def split: option.splits)

lemma emit_state: "fst (emit ts s) = s\<lparr>cs_SequenceNumber := cs_SequenceNumber s + int (length ts)\<rparr>"
  unfolding emit_def by (induction ts arbitrary: s) (simp_all add: chatToResponsesEvent_def split_def)

text \<open>Numbering the events is all that \<open>emit\<close> does to them.\<close>

lemma emit_accepted:
  assumes "accepts item_step m ts = Some m'" "im_seq m = cs_SequenceNumber s"
  shows "accepts items_mon m (snd (emit ts s)) = Some (m'\<lparr>im_seq := cs_SequenceNumber s + int (length ts)\<rparr>)"
  using assms
proof (induction ts arbitrary: m m' s)
  case Nil
  then show ?case by (simp add: emit_def)
next
  case (Cons t ts)
  then obtain m1 where m1: "item_step m t = Some m1" "accepts item_step m1 ts = Some m'" by (auto split: option.splits)
  have seq: "accepts item_step (n\<lparr>im_seq := k\<rparr>) ts = map_option (\<lambda>m'. m'\<lparr>im_seq := k\<rparr>) (accepts item_step n ts)" for n k
  proof (induction ts arbitrary: n)
    case (Cons u us)
    have "item_step (n\<lparr>im_seq := k\<rparr>) u = map_option (\<lambda>m'. m'\<lparr>im_seq := k\<rparr>) (item_step n u)"
      using item_step_seq [where m = n and n = k and e = u and k = "re_SequenceNumber u"] by (simp add: item_step_number)
    with Cons show ?case by (simp split: option.splits)
  qed simp
  let ?s = "s\<lparr>cs_SequenceNumber := cs_SequenceNumber s + 1\<rparr>" and ?m = "m1\<lparr>im_seq := cs_SequenceNumber s + 1\<rparr>"
  have "accepts items_mon ?m (snd (emit ts ?s)) = Some (m'\<lparr>im_seq := cs_SequenceNumber s + 1\<rparr>\<lparr>im_seq := cs_SequenceNumber ?s + int (length ts)\<rparr>)"
    by (rule Cons.IH) (simp_all add: seq m1(2))
  moreover have "items_mon m (t\<lparr>re_SequenceNumber := cs_SequenceNumber s\<rparr>) = Some ?m"
    using m1(1) Cons.prems(2) by (simp add: items_mon_def item_step_number)
  ultimately show ?case by (simp add: emit_def chatToResponsesEvent_def split_def ac_simps)
qed

section \<open>Triples\<close>

definition advances :: "(c2r_state \<Rightarrow> item_monitor \<Rightarrow> bool) \<Rightarrow> (c2r_state \<Rightarrow> c2r) \<Rightarrow> (c2r_state \<Rightarrow> item_monitor \<Rightarrow> bool) \<Rightarrow> bool" where
  "advances P f Q \<longleftrightarrow> (\<forall>s m. P s m \<longrightarrow> (\<exists>m'. accepts items_mon m (snd (f s)) = Some m' \<and> Q (fst (f s)) m'))"

lemma advancesI: "(\<And>s m. P s m \<Longrightarrow> \<exists>m'. accepts items_mon m (snd (f s)) = Some m' \<and> Q (fst (f s)) m') \<Longrightarrow> advances P f Q"
  by (simp add: advances_def)

lemma advances_then: "advances P f Q \<Longrightarrow> advances Q g R \<Longrightarrow> advances P (then_do f g) R"
proof (rule advancesI)
  fix s m
  assume f: "advances P f Q" and g: "advances Q g R" and P: "P s m"
  from f P obtain m1 where m1: "accepts items_mon m (snd (f s)) = Some m1" "Q (fst (f s)) m1" by (auto simp: advances_def)
  with g obtain m2 where "accepts items_mon m1 (snd (g (fst (f s)))) = Some m2" "R (fst (g (fst (f s)))) m2" by (auto simp: advances_def)
  with m1 show "\<exists>m'. accepts items_mon m (snd (then_do f g s)) = Some m' \<and> R (fst (then_do f g s)) m'"
    by (auto simp: then_do_def split_def Let_def)
qed

lemma advances_mono: "advances P f Q \<Longrightarrow> (\<And>s m. P' s m \<Longrightarrow> P s m) \<Longrightarrow> (\<And>s m. Q s m \<Longrightarrow> Q' s m) \<Longrightarrow> advances P' f Q'"
  unfolding advances_def by blast

lemma advances_emit:
  assumes "accepts item_step m ts = Some m'" "im_seq m = cs_SequenceNumber s"
    and "Q (s\<lparr>cs_SequenceNumber := cs_SequenceNumber s + int (length ts)\<rparr>) (m'\<lparr>im_seq := cs_SequenceNumber s + int (length ts)\<rparr>)"
  shows "\<exists>m'. accepts items_mon m (snd (emit ts s)) = Some m' \<and> Q (fst (emit ts s)) m'"
  using emit_accepted [OF assms(1,2)] assms(3) by (simp add: emit_state)

section \<open>The table of items\<close>

definition used_r :: "c2r_state \<Rightarrow> bool" where "used_r s \<longleftrightarrow> cs_ReasoningOpen s \<or> cs_ReasoningDone s"

definition used_m :: "c2r_state \<Rightarrow> bool" where "used_m s \<longleftrightarrow> cs_MessageItemID s \<noteq> ''''"

definition announced :: "c2r_state \<Rightarrow> int \<Rightarrow> bool" where "announced s k \<longleftrightarrow> gm_getd False (cs_toolAnnounced s) k"

definition call_kind :: "c2r_state \<Rightarrow> int \<Rightarrow> string" where
  "call_kind s k = (if gm_getd False (cs_toolIsCustom s) k then ''custom_tool_call''
     else if gm_getd False (cs_toolIsToolSearch s) k then ''tool_search_call'' else ''function_call'')"

definition call_id :: "c2r_state \<Rightarrow> int \<Rightarrow> string" where "call_id s k = gm_getd '''' (cs_ToolItemIDs s) k"

abbreviation call_index :: "c2r_state \<Rightarrow> int \<Rightarrow> int option" where "call_index s k \<equiv> gm_get (cs_ToolOutputIndex s) k"

text \<open>\<open>is_open\<close> tells whether the message is still open, \<open>closed\<close> are the calls that are closed.\<close>

definition table :: "c2r_state \<Rightarrow> bool \<Rightarrow> int set \<Rightarrow> (int \<Rightarrow> slot option) \<Rightarrow> bool" where
  "table s is_open closed T \<longleftrightarrow>
     (used_r s \<longrightarrow> T (cs_ReasoningIndex s) = Some (cs_ReasoningItemID s, ''reasoning'', cs_ReasoningOpen s) \<and> cs_ReasoningIndex s < cs_nextOutputIndex s)
     \<and> (used_m s \<longrightarrow> T (cs_MessageIndex s) = Some (cs_MessageItemID s, ''message'', is_open) \<and> cs_MessageIndex s < cs_nextOutputIndex s)
     \<and> (\<forall>k i. call_index s k = Some i \<longrightarrow> T i = (if announced s k then Some (call_id s k, call_kind s k, k \<notin> closed) else None) \<and> i < cs_nextOutputIndex s)
     \<and> (\<forall>k k' i. call_index s k = Some i \<longrightarrow> call_index s k' = Some i \<longrightarrow> k = k')
     \<and> (\<forall>i. T i \<noteq> None \<longrightarrow> used_r s \<and> i = cs_ReasoningIndex s \<or> used_m s \<and> i = cs_MessageIndex s \<or> (\<exists>k. call_index s k = Some i))
     \<and> (\<forall>k. call_index s k = None \<longleftrightarrow> gm_get (cs_ToolCalls s) k = None) \<and> (\<forall>k. announced s k \<longrightarrow> call_index s k \<noteq> None)"

lemma tableD:
  assumes "table s b C T"
  shows "used_r s \<Longrightarrow> T (cs_ReasoningIndex s) = Some (cs_ReasoningItemID s, ''reasoning'', cs_ReasoningOpen s)"
    and "used_m s \<Longrightarrow> T (cs_MessageIndex s) = Some (cs_MessageItemID s, ''message'', b)"
    and "call_index s k = Some i \<Longrightarrow> T i = (if announced s k then Some (call_id s k, call_kind s k, k \<notin> C) else None)"
    and "announced s k \<Longrightarrow> \<exists>i. call_index s k = Some i"
    and "call_index s k = None \<longleftrightarrow> gm_get (cs_ToolCalls s) k = None"
    and "call_index s k = Some i \<Longrightarrow> call_index s k' = Some i \<Longrightarrow> k = k'"
    and "T i = Some v \<Longrightarrow> used_r s \<and> i = cs_ReasoningIndex s \<or> used_m s \<and> i = cs_MessageIndex s \<or> (\<exists>k. call_index s k = Some i)"
    and "used_r s \<Longrightarrow> cs_ReasoningIndex s < cs_nextOutputIndex s" "used_m s \<Longrightarrow> cs_MessageIndex s < cs_nextOutputIndex s"
    and "call_index s k = Some i \<Longrightarrow> i < cs_nextOutputIndex s"
  using assms unfolding table_def by blast+

lemma tableI:
  assumes "used_r s \<Longrightarrow> T (cs_ReasoningIndex s) = Some (cs_ReasoningItemID s, ''reasoning'', cs_ReasoningOpen s)"
    and "used_m s \<Longrightarrow> T (cs_MessageIndex s) = Some (cs_MessageItemID s, ''message'', b)"
    and "\<And>k i. call_index s k = Some i \<Longrightarrow> T i = (if announced s k then Some (call_id s k, call_kind s k, k \<notin> C) else None)"
    and "\<And>k. announced s k \<Longrightarrow> \<exists>i. call_index s k = Some i"
    and "\<And>k. call_index s k = None \<longleftrightarrow> gm_get (cs_ToolCalls s) k = None"
    and "\<And>k k' i. call_index s k = Some i \<Longrightarrow> call_index s k' = Some i \<Longrightarrow> k = k'"
    and "\<And>i v. T i = Some v \<Longrightarrow> used_r s \<and> i = cs_ReasoningIndex s \<or> used_m s \<and> i = cs_MessageIndex s \<or> (\<exists>k. call_index s k = Some i)"
    and "used_r s \<Longrightarrow> cs_ReasoningIndex s < cs_nextOutputIndex s" "used_m s \<Longrightarrow> cs_MessageIndex s < cs_nextOutputIndex s"
    and "\<And>k i. call_index s k = Some i \<Longrightarrow> i < cs_nextOutputIndex s"
  shows "table s b C T"
  unfolding table_def using assms by (intro conjI allI impI) blast+

lemma table_free: "table s b C T \<Longrightarrow> cs_nextOutputIndex s \<le> i \<Longrightarrow> T i = None"
  using tableD(7) [of s b C T i] tableD(8,9) [of s b C T] tableD(10) [of s b C T _ i] by (cases "T i") force+

text \<open>The indices of reasoning, message and calls differ.\<close>

lemma table_distinct:
  assumes "table s b C T"
  shows "used_r s \<Longrightarrow> used_m s \<Longrightarrow> cs_ReasoningIndex s \<noteq> cs_MessageIndex s"
    and "used_r s \<Longrightarrow> call_index s k = Some i \<Longrightarrow> cs_ReasoningIndex s \<noteq> i"
    and "used_m s \<Longrightarrow> call_index s k = Some i \<Longrightarrow> cs_MessageIndex s \<noteq> i"
  using tableD(1,2) [OF assms] tableD(3) [OF assms, of k i] by (auto simp: call_kind_def split: if_splits)

text \<open>Steps that touch no item keep the table.\<close>

lemma table_cong:
  assumes "table s b C T"
    and "used_r s' = used_r s" "cs_ReasoningIndex s' = cs_ReasoningIndex s" "cs_ReasoningItemID s' = cs_ReasoningItemID s" "cs_ReasoningOpen s' = cs_ReasoningOpen s"
    and "cs_nextOutputIndex s' = cs_nextOutputIndex s" "cs_MessageItemID s' = cs_MessageItemID s" "cs_MessageIndex s' = cs_MessageIndex s"
    and "cs_ToolOutputIndex s' = cs_ToolOutputIndex s" "cs_toolAnnounced s' = cs_toolAnnounced s" "cs_ToolItemIDs s' = cs_ToolItemIDs s"
    and "cs_toolIsCustom s' = cs_toolIsCustom s" "cs_toolIsToolSearch s' = cs_toolIsToolSearch s"
    and "\<And>k. gm_get (cs_ToolCalls s') k = None \<longleftrightarrow> gm_get (cs_ToolCalls s) k = None"
  shows "table s' b C T"
  using assms(1) unfolding table_def used_m_def announced_def call_id_def call_kind_def assms(2-14) by blast

lemma table_open_reasoning:
  assumes "table s b C T" "\<not> used_r s"
    and "s' = s\<lparr>cs_ReasoningOpen := True, cs_ReasoningItemID := itemID, cs_Fresh := n, cs_ReasoningIndex := cs_nextOutputIndex s,
           cs_nextOutputIndex := cs_nextOutputIndex s + 1\<rparr>"
  shows "table s' b C (T(cs_nextOutputIndex s \<mapsto> (itemID, ''reasoning'', True)))"
proof -
  have eqs: "used_r s'" "used_m s' = used_m s" "announced s' = announced s" "call_id s' = call_id s" "call_kind s' = call_kind s"
      "cs_ReasoningIndex s' = cs_nextOutputIndex s" "cs_ReasoningItemID s' = itemID" "cs_ReasoningOpen s'" "cs_MessageIndex s' = cs_MessageIndex s"
      "cs_MessageItemID s' = cs_MessageItemID s" "cs_nextOutputIndex s' = cs_nextOutputIndex s + 1" "cs_ToolOutputIndex s' = cs_ToolOutputIndex s"
      "cs_ToolCalls s' = cs_ToolCalls s"
    by (simp_all add: assms(3) used_r_def used_m_def fun_eq_iff announced_def call_id_def call_kind_def)
  note d = tableD [OF assms(1)]
  show ?thesis
  proof (rule tableI)
    fix k i assume k: "call_index s' k = Some i"
    then show "(T(cs_nextOutputIndex s \<mapsto> (itemID, ''reasoning'', True))) i = (if announced s' k then Some (call_id s' k, call_kind s' k, k \<notin> C) else None)"
      using d(3,10) [of k i] by (simp add: eqs)
    show "i < cs_nextOutputIndex s'" using k d(10) [of k i] by (simp add: eqs)
  next
    fix i v assume "(T(cs_nextOutputIndex s \<mapsto> (itemID, ''reasoning'', True))) i = Some v"
    then show "used_r s' \<and> i = cs_ReasoningIndex s' \<or> used_m s' \<and> i = cs_MessageIndex s' \<or> (\<exists>k. call_index s' k = Some i)"
      using d(7) [of i] assms(2) by (auto simp: eqs split: if_splits)
  qed (use d(2,4,5,6,9) in \<open>auto simp: eqs\<close>)
qed

lemma table_close_reasoning:
  assumes "table s b C T" "cs_ReasoningOpen s" "s' = s\<lparr>cs_ReasoningOpen := False, cs_ReasoningDone := True\<rparr>"
  shows "table s' b C (T(cs_ReasoningIndex s \<mapsto> (cs_ReasoningItemID s, ''reasoning'', False)))"
proof -
  have eqs: "used_r s'" "used_r s" "used_m s' = used_m s" "announced s' = announced s" "call_id s' = call_id s" "call_kind s' = call_kind s"
      "cs_ReasoningIndex s' = cs_ReasoningIndex s" "cs_ReasoningItemID s' = cs_ReasoningItemID s" "\<not> cs_ReasoningOpen s'" "cs_MessageIndex s' = cs_MessageIndex s"
      "cs_MessageItemID s' = cs_MessageItemID s" "cs_nextOutputIndex s' = cs_nextOutputIndex s" "cs_ToolOutputIndex s' = cs_ToolOutputIndex s"
      "cs_ToolCalls s' = cs_ToolCalls s"
    using assms(2) by (simp_all add: assms(3) used_r_def used_m_def fun_eq_iff announced_def call_id_def call_kind_def)
  note d = tableD [OF assms(1)] and n = table_distinct [OF assms(1)]
  show ?thesis
  proof (rule tableI)
    fix k i assume k: "call_index s' k = Some i"
    then show "(T(cs_ReasoningIndex s \<mapsto> (cs_ReasoningItemID s, ''reasoning'', False))) i = (if announced s' k then Some (call_id s' k, call_kind s' k, k \<notin> C) else None)"
      using d(3) [of k i] n(2) [of k i] by (simp add: eqs)
    show "i < cs_nextOutputIndex s'" using k d(10) [of k i] by (simp add: eqs)
  next
    fix i v assume "(T(cs_ReasoningIndex s \<mapsto> (cs_ReasoningItemID s, ''reasoning'', False))) i = Some v"
    then show "used_r s' \<and> i = cs_ReasoningIndex s' \<or> used_m s' \<and> i = cs_MessageIndex s' \<or> (\<exists>k. call_index s' k = Some i)"
      using d(7) [of i] by (auto simp: eqs split: if_splits)
  next
    show "used_m s' \<Longrightarrow> (T(cs_ReasoningIndex s \<mapsto> (cs_ReasoningItemID s, ''reasoning'', False))) (cs_MessageIndex s') = Some (cs_MessageItemID s', ''message'', b)"
      using d(2) n(1) by (simp add: eqs)
  qed (use d(4,5,6,8,9) in \<open>auto simp: eqs\<close>)
qed

lemma table_open_message:
  assumes "table s True C T" "\<not> used_m s" "itemID \<noteq> ''''"
    and "s' = s\<lparr>cs_MessageItemID := itemID, cs_Fresh := n, cs_MessageIndex := cs_nextOutputIndex s, cs_nextOutputIndex := cs_nextOutputIndex s + 1\<rparr>"
  shows "table s' True C (T(cs_nextOutputIndex s \<mapsto> (itemID, ''message'', True)))"
proof -
  have eqs: "used_m s'" "used_r s' = used_r s" "announced s' = announced s" "call_id s' = call_id s" "call_kind s' = call_kind s"
      "cs_MessageIndex s' = cs_nextOutputIndex s" "cs_MessageItemID s' = itemID" "cs_ReasoningIndex s' = cs_ReasoningIndex s" "cs_ReasoningOpen s' = cs_ReasoningOpen s"
      "cs_ReasoningItemID s' = cs_ReasoningItemID s" "cs_nextOutputIndex s' = cs_nextOutputIndex s + 1" "cs_ToolOutputIndex s' = cs_ToolOutputIndex s"
      "cs_ToolCalls s' = cs_ToolCalls s"
    using assms(3) by (simp_all add: assms(4) used_r_def used_m_def fun_eq_iff announced_def call_id_def call_kind_def)
  note d = tableD [OF assms(1)]
  show ?thesis
  proof (rule tableI)
    fix k i assume k: "call_index s' k = Some i"
    then show "(T(cs_nextOutputIndex s \<mapsto> (itemID, ''message'', True))) i = (if announced s' k then Some (call_id s' k, call_kind s' k, k \<notin> C) else None)"
      using d(3,10) [of k i] by (simp add: eqs)
    show "i < cs_nextOutputIndex s'" using k d(10) [of k i] by (simp add: eqs)
  next
    fix i v assume "(T(cs_nextOutputIndex s \<mapsto> (itemID, ''message'', True))) i = Some v"
    then show "used_r s' \<and> i = cs_ReasoningIndex s' \<or> used_m s' \<and> i = cs_MessageIndex s' \<or> (\<exists>k. call_index s' k = Some i)"
      using d(7) [of i] assms(2) by (auto simp: eqs split: if_splits)
  qed (use d(1,4,5,6,8) in \<open>auto simp: eqs\<close>)
qed

lemma table_close_message:
  assumes "table s True C T" "used_m s"
  shows "table s False C (T(cs_MessageIndex s \<mapsto> (cs_MessageItemID s, ''message'', False)))"
proof -
  note d = tableD [OF assms(1)] and n = table_distinct [OF assms(1)]
  show ?thesis
  proof (rule tableI)
    fix k i assume k: "call_index s k = Some i"
    then show "(T(cs_MessageIndex s \<mapsto> (cs_MessageItemID s, ''message'', False))) i = (if announced s k then Some (call_id s k, call_kind s k, k \<notin> C) else None)"
      using d(3) [of k i] n(3) [of k i] assms(2) by simp
  next
    fix i v assume "(T(cs_MessageIndex s \<mapsto> (cs_MessageItemID s, ''message'', False))) i = Some v"
    then show "used_r s \<and> i = cs_ReasoningIndex s \<or> used_m s \<and> i = cs_MessageIndex s \<or> (\<exists>k. call_index s k = Some i)"
      using d(7) [of i] assms(2) by (auto split: if_splits)
  next
    show "used_r s \<Longrightarrow> (T(cs_MessageIndex s \<mapsto> (cs_MessageItemID s, ''message'', False))) (cs_ReasoningIndex s) = Some (cs_ReasoningItemID s, ''reasoning'', cs_ReasoningOpen s)"
      using d(1) n(1) assms(2) by simp
  qed (use d(4,5,6,8,9,10) in auto)
qed

lemma table_no_message: "table s b C T \<Longrightarrow> \<not> used_m s \<Longrightarrow> table s b' C T"
  unfolding table_def by blast

lemma table_open_call:
  assumes "table s b C T" "call_index s k = None" "cs_ToolOutputIndex s' = gm_put k (cs_nextOutputIndex s) (cs_ToolOutputIndex s)"
    and "cs_nextOutputIndex s' = cs_nextOutputIndex s + 1" "cs_ToolCalls s' = gm_put k c (cs_ToolCalls s)"
    and "used_r s' = used_r s" "cs_ReasoningIndex s' = cs_ReasoningIndex s" "cs_ReasoningItemID s' = cs_ReasoningItemID s" "cs_ReasoningOpen s' = cs_ReasoningOpen s"
    and "cs_MessageItemID s' = cs_MessageItemID s" "cs_MessageIndex s' = cs_MessageIndex s"
    and "cs_toolAnnounced s' = cs_toolAnnounced s" "cs_ToolItemIDs s' = gm_put k itemID (cs_ToolItemIDs s)"
    and "cs_toolIsCustom s' = cs_toolIsCustom s" "cs_toolIsToolSearch s' = cs_toolIsToolSearch s"
  shows "table s' b C T"
proof -
  note d = tableD [OF assms(1)]
  have eqs: "used_m s' = used_m s" "announced s' = announced s" "call_kind s' = call_kind s" "j \<noteq> k \<Longrightarrow> call_id s' j = call_id s j" for j
    by (simp_all add: used_m_def fun_eq_iff announced_def call_id_def call_kind_def assms)
  have "\<not> announced s k" using d(4) [of k] assms(2) by auto
  have free: "T (cs_nextOutputIndex s) = None" using table_free [OF assms(1)] by simp
  show ?thesis
  proof (rule tableI)
    fix j i assume "call_index s' j = Some i"
    then show "T i = (if announced s' j then Some (call_id s' j, call_kind s' j, j \<notin> C) else None)" "i < cs_nextOutputIndex s'"
      using d(3,10) [of j i] free \<open>\<not> announced s k\<close> by (auto simp: eqs assms(3,4) split: if_splits)
  next
    fix j j' i assume "call_index s' j = Some i" "call_index s' j' = Some i"
    then show "j = j'" using d(6) [of j i j'] d(10) [of j i] d(10) [of j' i] by (auto simp: assms(3) split: if_splits)
  next
    fix i v assume "T i = Some v"
    moreover have "call_index s' j = Some i" if "call_index s j = Some i" for j using that assms(2) by (auto simp: assms(3))
    ultimately show "used_r s' \<and> i = cs_ReasoningIndex s' \<or> used_m s' \<and> i = cs_MessageIndex s' \<or> (\<exists>k. call_index s' k = Some i)"
      using d(7) [of i v] unfolding eqs assms(6,7,11) by blast
  qed (use d(1,2,4,5,8,9) in \<open>auto simp: eqs assms\<close>)
qed

lemma table_announce:
  assumes "table s b C T" "call_index s k = Some i" "\<not> announced s k" "k \<notin> C"
    and "cs_toolAnnounced s' = gm_put k True (cs_toolAnnounced s)" "cs_toolIsCustom s' = gm_put k c (cs_toolIsCustom s)"
    and "cs_toolIsToolSearch s' = gm_put k u (cs_toolIsToolSearch s)" "cs_ToolCalls s' = gm_put k call (cs_ToolCalls s)"
    and "used_r s' = used_r s" "cs_ReasoningIndex s' = cs_ReasoningIndex s" "cs_ReasoningItemID s' = cs_ReasoningItemID s" "cs_ReasoningOpen s' = cs_ReasoningOpen s"
    and "cs_MessageItemID s' = cs_MessageItemID s" "cs_MessageIndex s' = cs_MessageIndex s" "cs_nextOutputIndex s' = cs_nextOutputIndex s"
    and "cs_ToolOutputIndex s' = cs_ToolOutputIndex s" "cs_ToolItemIDs s' = cs_ToolItemIDs s"
  shows "table s' b C (T(i \<mapsto> (call_id s' k, call_kind s' k, True)))"
proof -
  note d = tableD [OF assms(1)] and n = table_distinct [OF assms(1)]
  have eqs: "used_m s' = used_m s" "announced s' j \<longleftrightarrow> j = k \<or> announced s j" "j \<noteq> k \<Longrightarrow> call_kind s' j = call_kind s j" "call_id s' = call_id s" for j
    by (simp_all add: used_m_def fun_eq_iff announced_def call_id_def call_kind_def assms(5-17))
  show ?thesis
  proof (rule tableI)
    fix j l assume j: "call_index s' j = Some l"
    show "(T(i \<mapsto> (call_id s' k, call_kind s' k, True))) l = (if announced s' j then Some (call_id s' j, call_kind s' j, j \<notin> C) else None)"
    proof (cases "j = k")
      case True
      then show ?thesis using j assms(2,4) by (simp add: assms(16) eqs)
    next
      case False
      then have "l \<noteq> i" using j d(6) [OF assms(2), of j] by (auto simp: assms(16))
      with False j d(3) [of j l] show ?thesis by (simp add: assms(16) eqs)
    qed
    show "l < cs_nextOutputIndex s'" using j d(10) [of j l] by (simp add: assms)
  next
    fix l v assume "(T(i \<mapsto> (call_id s' k, call_kind s' k, True))) l = Some v"
    then show "used_r s' \<and> l = cs_ReasoningIndex s' \<or> used_m s' \<and> l = cs_MessageIndex s' \<or> (\<exists>k. call_index s' k = Some l)"
      using d(7) [of l v] assms(2) unfolding eqs assms(9,10,14,16) by (auto split: if_splits)
  next
    show "gm_get (cs_ToolOutputIndex s') j = None \<longleftrightarrow> gm_get (cs_ToolCalls s') j = None" for j
      using d(5) [of j] assms(2) by (auto simp: assms(8,16))
  next
    show "\<exists>l. call_index s' j = Some l" if "announced s' j" for j using that d(4) [of j] assms(2) by (auto simp: eqs assms(16))
  next
    show "used_r s' \<Longrightarrow> (T(i \<mapsto> (call_id s' k, call_kind s' k, True))) (cs_ReasoningIndex s') = Some (cs_ReasoningItemID s', ''reasoning'', cs_ReasoningOpen s')"
      using d(1) n(2) [OF _ assms(2)] by (simp add: assms(9-12))
    show "used_m s' \<Longrightarrow> (T(i \<mapsto> (call_id s' k, call_kind s' k, True))) (cs_MessageIndex s') = Some (cs_MessageItemID s', ''message'', b)"
      using d(2) n(3) [OF _ assms(2)] by (simp add: eqs assms(13,14))
  qed (use d(6,8,9) in \<open>auto simp: eqs assms(9,10,14,15,16)\<close>)
qed

lemma table_close_call:
  assumes "table s b C T" "call_index s k = Some i" "announced s k"
  shows "table s b (insert k C) (T(i \<mapsto> (call_id s k, call_kind s k, False)))"
proof -
  note d = tableD [OF assms(1)] and n = table_distinct [OF assms(1)]
  show ?thesis
  proof (rule tableI)
    fix j l assume j: "call_index s j = Some l"
    show "(T(i \<mapsto> (call_id s k, call_kind s k, False))) l = (if announced s j then Some (call_id s j, call_kind s j, j \<notin> insert k C) else None)"
    proof (cases "j = k")
      case True
      then show ?thesis using j assms(2,3) by simp
    next
      case False
      then have "l \<noteq> i" using j d(6) [OF assms(2), of j] by auto
      with False d(3) [OF j] show ?thesis by simp
    qed
  next
    fix l v assume "(T(i \<mapsto> (call_id s k, call_kind s k, False))) l = Some v"
    then show "used_r s \<and> l = cs_ReasoningIndex s \<or> used_m s \<and> l = cs_MessageIndex s \<or> (\<exists>k. call_index s k = Some l)"
      using d(7) [of l v] assms(2) by (auto split: if_splits)
  next
    show "used_r s \<Longrightarrow> (T(i \<mapsto> (call_id s k, call_kind s k, False))) (cs_ReasoningIndex s) = Some (cs_ReasoningItemID s, ''reasoning'', cs_ReasoningOpen s)"
      using d(1) n(2) [OF _ assms(2)] by simp
    show "used_m s \<Longrightarrow> (T(i \<mapsto> (call_id s k, call_kind s k, False))) (cs_MessageIndex s) = Some (cs_MessageItemID s, ''message'', b)"
      using d(2) n(3) [OF _ assms(2)] by simp
  qed (use d(4,5,6,8,9,10) in auto)
qed

section \<open>The handlers\<close>

text \<open>\<open>ready\<close> is the invariant between chunks; \<open>live\<close> holds once the response was announced, \<open>thinking\<close>
  while the reasoning item may not have got its first text yet.\<close>

definition aux :: "c2r_state \<Rightarrow> bool" where
  "aux s \<longleftrightarrow> \<not> cs_CompletedSent s \<and> gm_ok (cs_ToolCalls s) \<and> (used_r s \<longrightarrow> cs_ReasoningItemID s \<noteq> '''') \<and> (\<forall>k. call_index s k \<noteq> None \<longrightarrow> call_id s k \<noteq> '''')
     \<and> (\<forall>k. gm_getd False (cs_toolIsCustom s) k \<or> gm_getd False (cs_toolIsToolSearch s) k \<longrightarrow> announced s k)"

lemma aux_fields [simp]:
  "aux (s\<lparr>cs_SequenceNumber := n\<rparr>) = aux s" "aux (s\<lparr>cs_CreatedSent := b\<rparr>) = aux s" "aux (s\<lparr>cs_Reasoning := t\<rparr>) = aux s"
  "aux (s\<lparr>cs_TextPartOpen := b\<rparr>) = aux s" "aux (s\<lparr>cs_Text := t\<rparr>) = aux s" "aux (s\<lparr>cs_FinishReason := t\<rparr>) = aux s"
  "aux (s\<lparr>cs_MessageItemID := t, cs_Fresh := f, cs_MessageIndex := i, cs_nextOutputIndex := j\<rparr>) = aux s"
  by (simp_all add: aux_def used_r_def call_id_def announced_def)

lemma aux_steps:
  "aux s \<Longrightarrow> cs_ReasoningOpen s \<Longrightarrow> aux (s\<lparr>cs_ReasoningOpen := False, cs_ReasoningDone := True\<rparr>)"
  "aux s \<Longrightarrow> t \<noteq> '''' \<Longrightarrow> aux (s\<lparr>cs_ReasoningOpen := True, cs_ReasoningItemID := t, cs_Fresh := f, cs_ReasoningIndex := i, cs_nextOutputIndex := j\<rparr>)"
  "aux s \<Longrightarrow> aux (put_call k c s)"
  "aux s \<Longrightarrow> t \<noteq> '''' \<Longrightarrow> aux (put_call k c (s\<lparr>cs_ToolItemIDs := gm_put k t (cs_ToolItemIDs s), cs_Fresh := f, cs_ToolOutputIndex := gm_put k i (cs_ToolOutputIndex s), cs_nextOutputIndex := j\<rparr>))"
  "aux s \<Longrightarrow> aux (put_call k c (s\<lparr>cs_Fresh := f, cs_toolAnnounced := gm_put k True (cs_toolAnnounced s),
     cs_toolIsCustom := gm_put k u (cs_toolIsCustom s), cs_toolIsToolSearch := gm_put k v (cs_toolIsToolSearch s), cs_toolNamespace := w\<rparr>))"
  by (simp_all add: aux_def used_r_def call_id_def put_call_def announced_def)

lemma generateItemID_nonempty [simp]: "generateItemID lib n \<noteq> ''''"
  by (simp add: generateItemID_def)

definition ready :: "bool \<Rightarrow> int set \<Rightarrow> c2r_state \<Rightarrow> item_monitor \<Rightarrow> bool" where
  "ready b C s m \<longleftrightarrow> im_seq m = cs_SequenceNumber s \<and> im_created m = cs_CreatedSent s \<and> \<not> im_done m \<and> gm_ok (im_items m)
     \<and> table s b C (gm_get (im_items m)) \<and> (cs_TextPartOpen s \<longrightarrow> used_m s) \<and> aux s"

definition thinking :: "bool \<Rightarrow> int set \<Rightarrow> c2r_state \<Rightarrow> item_monitor \<Rightarrow> bool" where
  "thinking b C s m \<longleftrightarrow> ready b C s m \<and> cs_CreatedSent s"

definition live :: "bool \<Rightarrow> int set \<Rightarrow> c2r_state \<Rightarrow> item_monitor \<Rightarrow> bool" where
  "live b C s m \<longleftrightarrow> thinking b C s m \<and> (used_r s \<longrightarrow> cs_Reasoning s \<noteq> '''')"

lemma mid_step:
  assumes "event_kind (re_Type e) = Some kind" "gm_get (im_items m) (re_OutputIndex e) = Some (re_ItemID e, kind, True)" "im_created m" "\<not> im_done m"
  shows "item_step m e = Some m"
proof -
  have "re_Type e \<notin> {''response.created'', ''response.output_item.added'', ''response.output_item.done'', ''response.completed'', ''response.incomplete''}"
    using assms(1) by (auto simp: event_kind_def)
  then show ?thesis using assms by (simp add: item_step_def)
qed

lemma added_step:
  "re_Type e = ''response.output_item.added'' \<Longrightarrow> re_Item e = Some item \<Longrightarrow> gm_get (im_items m) (re_OutputIndex e) = None \<Longrightarrow> im_created m \<Longrightarrow> \<not> im_done m \<Longrightarrow>
   item_step m e = Some (m\<lparr>im_items := gm_put (re_OutputIndex e) (ro_ID item, ro_Type item, True) (im_items m)\<rparr>)"
  by (simp add: item_step_def)

lemma done_step:
  "re_Type e = ''response.output_item.done'' \<Longrightarrow> re_Item e = Some item \<Longrightarrow> gm_get (im_items m) (re_OutputIndex e) = Some (ro_ID item, ro_Type item, True) \<Longrightarrow>
   im_created m \<Longrightarrow> \<not> im_done m \<Longrightarrow>
   item_step m e = Some (m\<lparr>im_items := gm_put (re_OutputIndex e) (ro_ID item, ro_Type item, False) (im_items m)\<rparr>)"
  by (simp add: item_step_def)

lemma gm_get_put_fun: "gm_get (gm_put k v m) = (gm_get m)(k \<mapsto> v)"
  by (simp add: fun_eq_iff)

lemma event_of_type [simp]: "re_Type (event_of t) = t"
  by (simp add: event_of_def)

lemma kinds [simp]:
  "event_kind ''response.output_text.delta'' = Some ''message''" "event_kind ''response.output_text.done'' = Some ''message''"
  "event_kind ''response.content_part.added'' = Some ''message''" "event_kind ''response.content_part.done'' = Some ''message''"
  "event_kind ''response.reasoning_summary_part.added'' = Some ''reasoning''" "event_kind ''response.reasoning_summary_part.done'' = Some ''reasoning''"
  "event_kind ''response.reasoning_summary_text.delta'' = Some ''reasoning''" "event_kind ''response.reasoning_summary_text.done'' = Some ''reasoning''"
  "event_kind ''response.function_call_arguments.delta'' = Some ''function_call''" "event_kind ''response.function_call_arguments.done'' = Some ''function_call''"
  "event_kind ''response.custom_tool_call_input.delta'' = Some ''custom_tool_call''" "event_kind ''response.custom_tool_call_input.done'' = Some ''custom_tool_call''"
  by (simp_all add: event_kind_def)

text \<open>Changing the sequence number, or fields that no item depends on, keeps the assertions.\<close>

lemma ready_seq: "ready b C s m \<Longrightarrow> ready b C (s\<lparr>cs_SequenceNumber := n\<rparr>) (m\<lparr>im_seq := n\<rparr>)"
  unfolding ready_def by (auto simp: used_m_def used_r_def elim!: table_cong)

lemma live_seq: "live b C s m \<Longrightarrow> live b C (s\<lparr>cs_SequenceNumber := n\<rparr>) (m\<lparr>im_seq := n\<rparr>)"
  unfolding live_def thinking_def using ready_seq by (auto simp: used_r_def)

lemma created_advances: "advances (\<lambda>s m. ready b C s m \<and> (used_r s \<longrightarrow> cs_Reasoning s \<noteq> '''')) ensureChatToResponsesCreated (live b C)"
proof (rule advancesI)
  fix s m
  assume r: "ready b C s m \<and> (used_r s \<longrightarrow> cs_Reasoning s \<noteq> '''')"
  show "\<exists>m'. accepts items_mon m (snd (ensureChatToResponsesCreated s)) = Some m' \<and> live b C (fst (ensureChatToResponsesCreated s)) m'"
  proof (cases "cs_CreatedSent s")
    case True
    with r show ?thesis by (simp add: ensureChatToResponsesCreated_def live_def thinking_def)
  next
    case False
    let ?s = "s\<lparr>cs_CreatedSent := True\<rparr>" and ?m = "m\<lparr>im_created := True\<rparr>"
    have m: "\<not> im_created m" "\<not> im_done m" "im_seq m = cs_SequenceNumber ?s" using r False by (simp_all add: ready_def)
    have "ready b C ?s ?m" using r unfolding ready_def by (auto simp: used_m_def used_r_def elim!: table_cong)
    then have "live b C ?s ?m" using r by (simp add: live_def thinking_def used_r_def)
    from live_seq [OF this] show ?thesis unfolding ensureChatToResponsesCreated_def using False
      by (simp del: emit_state) (rule advances_emit, use m in \<open>simp_all add: item_step_def\<close>)
  qed
qed

lemma thinkingD:
  assumes "thinking b C s m"
  shows "im_seq m = cs_SequenceNumber s" "im_created m" "cs_CreatedSent s" "\<not> im_done m" "table s b C (gm_get (im_items m))" "cs_TextPartOpen s \<Longrightarrow> used_m s"
    "gm_ok (im_items m)" "aux s"
  using assms by (simp_all add: thinking_def ready_def)

lemma thinkingI:
  "im_seq m = cs_SequenceNumber s \<Longrightarrow> im_created m \<Longrightarrow> cs_CreatedSent s \<Longrightarrow> \<not> im_done m \<Longrightarrow> gm_ok (im_items m) \<Longrightarrow> table s b C (gm_get (im_items m)) \<Longrightarrow>
   (cs_TextPartOpen s \<Longrightarrow> used_m s) \<Longrightarrow> aux s \<Longrightarrow> thinking b C s m"
  by (simp add: thinking_def ready_def)

lemma thinking_seq: "thinking b C s m \<Longrightarrow> thinking b C (s\<lparr>cs_SequenceNumber := n\<rparr>) (m\<lparr>im_seq := n\<rparr>)"
  using ready_seq by (simp add: thinking_def)

lemma live_thinking: "live b C s m \<Longrightarrow> thinking b C s m"
  by (simp add: live_def)

lemma open_reasoning_advances:
  "advances (\<lambda>s m. thinking True {} s m \<and> \<not> cs_ReasoningDone s) (ensureChatReasoningItem lib) (\<lambda>s m. thinking True {} s m \<and> cs_ReasoningOpen s)"
proof (rule advancesI)
  fix s m
  assume t: "thinking True {} s m \<and> \<not> cs_ReasoningDone s"
  show "\<exists>m'. accepts items_mon m (snd (ensureChatReasoningItem lib s)) = Some m' \<and> thinking True {} (fst (ensureChatReasoningItem lib s)) m' \<and> cs_ReasoningOpen (fst (ensureChatReasoningItem lib s))"
  proof (cases "cs_ReasoningOpen s")
    case True
    with t show ?thesis by (simp add: ensureChatReasoningItem_def)
  next
    case False
    let ?id = "generateItemID lib (cs_Fresh s)" and ?i = "cs_nextOutputIndex s"
    let ?s = "s\<lparr>cs_ReasoningOpen := True, cs_ReasoningItemID := ?id, cs_Fresh := cs_Fresh s + 1, cs_ReasoningIndex := ?i, cs_nextOutputIndex := ?i + 1\<rparr>"
    let ?m = "m\<lparr>im_items := gm_put ?i (?id, ''reasoning'', True) (im_items m)\<rparr>"
    note m = thinkingD [OF conjunct1 [OF t]]
    have "\<not> used_r s" using False t by (simp add: used_r_def)
    then have tab: "table ?s True {} (gm_get (im_items ?m))" unfolding item_monitor.simps gm_get_put_fun by (simp add: gm_get_put_fun table_open_reasoning [OF m(5) _ refl])
    have th: "thinking True {} ?s ?m" by (rule thinkingI) (use m tab in \<open>simp_all add: used_m_def aux_steps\<close>)
    have "gm_get (im_items m) ?i = None" using table_free [OF m(5)] by simp
    then have step: "accepts item_step m [(event_of ''response.output_item.added'')\<lparr>re_OutputIndex := ?i,
          re_Item := Some (zero_output\<lparr>ro_Type := ''reasoning'', ro_ID := ?id, ro_Status := ''in_progress''\<rparr>)\<rparr>,
        (event_of ''response.reasoning_summary_part.added'')\<lparr>re_OutputIndex := ?i, re_ItemID := ?id, re_Part := Some (summary_part '''')\<rparr>] = Some ?m"
      using m(2,4) by (simp add: added_step mid_step)
    show ?thesis unfolding ensureChatReasoningItem_def Let_def using False t
      by simp (rule advances_emit [OF step], use m(1) thinking_seq [OF th] in simp_all)
  qed
qed

lemma delta_reasoning_advances:
  "advances (\<lambda>s m. live True {} s m \<and> (r \<noteq> '''' \<longrightarrow> \<not> cs_ReasoningDone s)) (delta_reasoning lib r) (live True {})"
proof (cases "r = ''''")
  case True
  then show ?thesis by (simp add: delta_reasoning_def advances_def)
next
  case False
  have "advances (\<lambda>s m. thinking True {} s m \<and> cs_ReasoningOpen s)
      (\<lambda>state. emit [(event_of ''response.reasoning_summary_text.delta'')\<lparr>re_OutputIndex := cs_ReasoningIndex state, re_Delta := r, re_ItemID := cs_ReasoningItemID state\<rparr>]
           (state\<lparr>cs_Reasoning := cs_Reasoning state @ r\<rparr>)) (live True {})"
  proof (rule advancesI, rule advances_emit)
    fix s m
    assume t: "thinking True {} s m \<and> cs_ReasoningOpen s"
    let ?s = "s\<lparr>cs_Reasoning := cs_Reasoning s @ r\<rparr>"
    note m = thinkingD [OF conjunct1 [OF t]]
    have "used_r s" using t by (simp add: used_r_def)
    then show "accepts item_step m [(event_of ''response.reasoning_summary_text.delta'')\<lparr>re_OutputIndex := cs_ReasoningIndex s, re_Delta := r, re_ItemID := cs_ReasoningItemID s\<rparr>] = Some m"
      using m(2,4) tableD(1) [OF m(5)] t by (simp add: mid_step)
    show "im_seq m = cs_SequenceNumber ?s" using m(1) by simp
    have "thinking True {} ?s m" by (rule thinkingI) (use m in \<open>auto simp: used_m_def used_r_def elim!: table_cong\<close>)
    then have "live True {} ?s m" using False by (simp add: live_def)
    from live_seq [OF this] show "live True {} (?s\<lparr>cs_SequenceNumber := cs_SequenceNumber ?s + int (length [(event_of ''response.reasoning_summary_text.delta'')
        \<lparr>re_OutputIndex := cs_ReasoningIndex s, re_Delta := r, re_ItemID := cs_ReasoningItemID s\<rparr>])\<rparr>)
      (m\<lparr>im_seq := cs_SequenceNumber ?s + int (length [(event_of ''response.reasoning_summary_text.delta'')
        \<lparr>re_OutputIndex := cs_ReasoningIndex s, re_Delta := r, re_ItemID := cs_ReasoningItemID s\<rparr>])\<rparr>)" .
  qed
  from advances_then [OF open_reasoning_advances [of lib] this] show ?thesis
    using False by (simp add: delta_reasoning_def [abs_def] advances_def live_thinking)
qed

lemma close_reasoning_advances: "advances (live b C) closeChatReasoningItem (\<lambda>s m. live b C s m \<and> \<not> cs_ReasoningOpen s)"
proof (rule advancesI)
  fix s m
  assume l: "live b C s m"
  show "\<exists>m'. accepts items_mon m (snd (closeChatReasoningItem s)) = Some m' \<and> live b C (fst (closeChatReasoningItem s)) m' \<and> \<not> cs_ReasoningOpen (fst (closeChatReasoningItem s))"
  proof (cases "cs_ReasoningOpen s")
    case False
    with l show ?thesis by (simp add: closeChatReasoningItem_def)
  next
    case True
    let ?i = "cs_ReasoningIndex s" and ?id = "cs_ReasoningItemID s"
    let ?s = "s\<lparr>cs_ReasoningOpen := False, cs_ReasoningDone := True\<rparr>" and ?m = "m\<lparr>im_items := gm_put ?i (?id, ''reasoning'', False) (im_items m)\<rparr>"
    note m = thinkingD [OF live_thinking [OF l]]
    have "used_r s" using True by (simp add: used_r_def)
    then have slot: "gm_get (im_items m) ?i = Some (?id, ''reasoning'', True)" and ne: "cs_Reasoning s \<noteq> ''''"
      using tableD(1) [OF m(5)] True l by (simp_all add: live_def)
    have "thinking b C ?s ?m"
      by (rule thinkingI) (use m table_close_reasoning [OF m(5) True refl] True in \<open>simp_all add: used_m_def gm_get_put_fun aux_steps\<close>)
    then have "live b C ?s ?m" using ne by (simp add: live_def)
    from live_seq [OF this] have final: "live b C (?s\<lparr>cs_SequenceNumber := n\<rparr>) (?m\<lparr>im_seq := n\<rparr>)" for n .
    show ?thesis unfolding closeChatReasoningItem_def Let_def using True
      by simp (rule advances_emit [where m' = ?m], use m(1,2,4) slot final in \<open>simp_all add: mid_step done_step reasoning_item_def\<close>)
  qed
qed

lemma message_advances: "advances (live True C) (ensureChatToResponsesMessageItem lib) (\<lambda>s m. live True C s m \<and> used_m s)"
proof (rule advancesI)
  fix s m
  assume l: "live True C s m"
  show "\<exists>m'. accepts items_mon m (snd (ensureChatToResponsesMessageItem lib s)) = Some m' \<and> live True C (fst (ensureChatToResponsesMessageItem lib s)) m'
    \<and> used_m (fst (ensureChatToResponsesMessageItem lib s))"
  proof (cases "used_m s")
    case True
    with l show ?thesis by (simp add: ensureChatToResponsesMessageItem_def used_m_def)
  next
    case False
    let ?id = "generateItemID lib (cs_Fresh s)" and ?i = "cs_nextOutputIndex s"
    let ?s = "s\<lparr>cs_MessageItemID := ?id, cs_Fresh := cs_Fresh s + 1, cs_MessageIndex := ?i, cs_nextOutputIndex := ?i + 1\<rparr>"
    let ?m = "m\<lparr>im_items := gm_put ?i (?id, ''message'', True) (im_items m)\<rparr>"
    note m = thinkingD [OF live_thinking [OF l]]
    have id: "?id \<noteq> ''''" by (simp add: generateItemID_def)
    have "thinking True C ?s ?m"
      by (rule thinkingI) (use m False id table_open_message [OF m(5) False id refl] in \<open>simp_all add: used_m_def gm_get_put_fun\<close>)
    then have "live True C ?s ?m" using l by (simp add: live_def used_r_def)
    from live_seq [OF this] have final: "live True C (?s\<lparr>cs_SequenceNumber := n\<rparr>) (?m\<lparr>im_seq := n\<rparr>)" for n .
    have "gm_get (im_items m) ?i = None" using table_free [OF m(5)] by simp
    then show ?thesis unfolding ensureChatToResponsesMessageItem_def Let_def using False
      by (simp add: used_m_def) (rule advances_emit [where m' = ?m], use m(1,2,4) final id in \<open>simp_all add: added_step\<close>)
  qed
qed

text \<open>An event inside the open message.\<close>

lemma in_message:
  assumes "live True C s m" "used_m s" "event_kind (re_Type e) = Some ''message''" "re_OutputIndex e = cs_MessageIndex s" "re_ItemID e = cs_MessageItemID s"
  shows "item_step m e = Some m"
  using tableD(2) [OF thinkingD(5) [OF live_thinking [OF assms(1)]] assms(2)] thinkingD(2,4) [OF live_thinking [OF assms(1)]]
  by (simp add: mid_step [OF assms(3)] assms(4,5))

lemma live_message_fields:
  assumes "live b C s m" "used_m s"
  shows "live b C (s\<lparr>cs_TextPartOpen := u\<rparr>) m" "live b C (s\<lparr>cs_Text := t\<rparr>) m"
  using assms unfolding live_def thinking_def ready_def by (auto simp: used_m_def used_r_def elim!: table_cong)

lemma text_part_advances: "advances (\<lambda>s m. live True C s m \<and> used_m s) ensureChatToResponsesTextPart (\<lambda>s m. live True C s m \<and> used_m s)"
proof (rule advancesI)
  fix s m
  assume l: "live True C s m \<and> used_m s"
  show "\<exists>m'. accepts items_mon m (snd (ensureChatToResponsesTextPart s)) = Some m' \<and> live True C (fst (ensureChatToResponsesTextPart s)) m'
    \<and> used_m (fst (ensureChatToResponsesTextPart s))"
  proof (cases "cs_TextPartOpen s")
    case False
    have "live True C (s\<lparr>cs_TextPartOpen := True\<rparr>) m" using l live_message_fields by blast
    from live_seq [OF this] show ?thesis unfolding ensureChatToResponsesTextPart_def using False l
      by simp (rule advances_emit [where m' = m],
        use thinkingD(1) [OF live_thinking [OF conjunct1 [OF l]]] in \<open>simp_all add: in_message [of C s] used_m_def\<close>)
  qed (use l in \<open>simp add: ensureChatToResponsesTextPart_def\<close>)
qed

lemma delta_content_advances: "advances (live True C) (delta_content lib t) (live True C)"
proof (cases "t = ''''")
  case True
  then show ?thesis by (simp add: delta_content_def advances_def)
next
  case False
  let ?f = "\<lambda>state. emit [(event_of ''response.output_text.delta'')\<lparr>re_OutputIndex := cs_MessageIndex state, re_Delta := t, re_ItemID := cs_MessageItemID state\<rparr>]
           (state\<lparr>cs_Text := cs_Text state @ t\<rparr>)"
  have "advances (\<lambda>s m. live True C s m \<and> used_m s) ?f (live True C)"
  proof (rule advancesI)
    fix s m
    assume l: "live True C s m \<and> used_m s"
    then have "live True C (s\<lparr>cs_Text := cs_Text s @ t\<rparr>) m" using live_message_fields by blast
    from live_seq [OF this] show "\<exists>m'. accepts items_mon m (snd (?f s)) = Some m' \<and> live True C (fst (?f s)) m'"
      by (intro advances_emit [where m' = m]) (use l thinkingD(1) [OF live_thinking [OF conjunct1 [OF l]]] in \<open>simp_all add: in_message [of C s]\<close>)
  qed
  from advances_then [OF advances_mono [OF close_reasoning_advances _ conjunct1] advances_then [OF message_advances advances_then [OF text_part_advances this]]]
  show ?thesis using False by (simp add: delta_content_def [abs_def])
qed

subsection \<open>Calls\<close>

lemma live_put_call:
  assumes "live b C s m" "gm_get (cs_ToolCalls s) k \<noteq> None"
  shows "live b C (put_call k c s) m"
  using assms unfolding live_def thinking_def ready_def using aux_steps(3) [of s k c]
  by (auto simp: put_call_def used_m_def used_r_def elim!: table_cong split: if_splits)

lemma open_call_advances: "advances (live True {}) (open_call lib k c) (\<lambda>s m. live True {} s m \<and> call_index s k \<noteq> None)"
proof (rule advancesI)
  fix s m
  assume l: "live True {} s m"
  show "\<exists>m'. accepts items_mon m (snd (open_call lib k c s)) = Some m' \<and> live True {} (fst (open_call lib k c s)) m' \<and> call_index (fst (open_call lib k c s)) k \<noteq> None"
  proof (cases "gm_get (cs_ToolCalls s) k")
    case (Some stored)
    then have "call_index s k \<noteq> None" using tableD(5) [OF thinkingD(5) [OF live_thinking [OF l]]] by auto
    then show ?thesis using Some live_put_call [OF l, of k] by (simp add: open_call_def Let_def put_call_def)
  next
    case None
    define r where "r = closeChatReasoningItem s"
    from close_reasoning_advances l obtain m1 where m1: "accepts items_mon m (snd r) = Some m1" "live True {} (fst r) m1"
      unfolding advances_def r_def by blast
    have same: "cs_ToolCalls (fst r) = cs_ToolCalls s" by (simp add: r_def closeChatReasoningItem_def Let_def emit_state)
    note t = thinkingD [OF live_thinking [OF m1(2)]]
    have "call_index (fst r) k = None" using tableD(5) [OF t(5)] None same by simp
    then have "table (fst (open_call lib k c s)) True {} (gm_get (im_items m1))"
      using None by (intro table_open_call [OF t(5)]) (simp_all add: open_call_def r_def [symmetric] split_def put_call_def used_r_def)
    then have "live True {} (fst (open_call lib k c s)) m1"
      using None m1(2) unfolding live_def thinking_def ready_def using aux_steps(4) [OF t(8), where t = "generateItemID lib (cs_Fresh (fst r))"]
      by (simp add: open_call_def r_def [symmetric] split_def put_call_def used_r_def used_m_def)
    then show ?thesis using None m1(1) by (auto simp: open_call_def r_def [symmetric] split_def put_call_def)
  qed
qed

text \<open>An event inside a call that was announced and is open.\<close>

lemma in_call:
  assumes "live b C s m" "announced s k" "k \<notin> C" "event_kind (re_Type e) = Some (call_kind s k)" "re_ItemID e = call_id s k"
    and "call_index s k = Some (re_OutputIndex e)"
  shows "item_step m e = Some m"
  using tableD(3) [OF thinkingD(5) [OF live_thinking [OF assms(1)]] assms(6)] thinkingD(2,4) [OF live_thinking [OF assms(1)]] assms(2,3)
  by (intro mid_step [OF assms(4)]) (simp_all add: assms(5))

text \<open>What an announcement does to the state and which events it emits.\<close>

lemma announce_form:
  assumes "\<not> (announced s k \<or> \<not> force \<and> (tc_ID stored = '''' \<or> cf_Name (tc_Function stored) = ''''))"
  obtains s1 item c u call n ns where
    "announceChatToolItem lib k force stored s =
       emit ((event_of ''response.output_item.added'')\<lparr>re_OutputIndex := gm_getd 0 (cs_ToolOutputIndex s) k, re_Item := Some item\<rparr>
         # (if call_kind s1 k = ''function_call'' \<and> cf_Arguments (tc_Function call) \<noteq> '''' then [args_delta s1 k call (cf_Arguments (tc_Function call))] else [])) s1"
    "ro_ID item = call_id s k" "ro_Type item = call_kind s1 k" "cf_Arguments (tc_Function call) = cf_Arguments (tc_Function stored)"
    "s1 = put_call k call (s\<lparr>cs_Fresh := n, cs_toolAnnounced := gm_put k True (cs_toolAnnounced s), cs_toolIsCustom := gm_put k c (cs_toolIsCustom s),
       cs_toolIsToolSearch := gm_put k u (cs_toolIsToolSearch s), cs_toolNamespace := ns\<rparr>)"
proof -
  define tn where "tn = cs_Tools s"
  define stored1 where "stored1 = (if tc_ID stored = '''' then stored\<lparr>tc_ID := generateItemID lib (cs_Fresh s)\<rparr> else stored)"
  define c where "c = (custom_name lib tn (cf_Name (tc_Function stored1)) \<noteq> None)"
  define call where "call = rename_custom lib tn stored1"
  define u where "u = (\<not> c \<and> tn_search tn \<and> cf_Name (tc_Function call) = toolSearchProxyName)"
  define nsp where "nsp = (if c \<or> u then None else gm_get (tn_namespaces tn) (cf_Name (tc_Function call)))"
  define ns where "ns = (case nsp of Some n \<Rightarrow> gm_put k n (cs_toolNamespace s) | None \<Rightarrow> cs_toolNamespace s)"
  define n where "n = (if tc_ID stored = '''' then cs_Fresh s + 1 else cs_Fresh s)"
  define s1 where "s1 = put_call k call (s\<lparr>cs_Fresh := n, cs_toolAnnounced := gm_put k True (cs_toolAnnounced s), cs_toolIsCustom := gm_put k c (cs_toolIsCustom s),
       cs_toolIsToolSearch := gm_put k u (cs_toolIsToolSearch s), cs_toolNamespace := ns\<rparr>)"
  define item where "item = zero_output\<lparr>ro_Type := (if c then ''custom_tool_call'' else if u then ''tool_search_call'' else ''function_call''),
      ro_ID := gm_getd '''' (cs_ToolItemIDs s1) k, ro_CallID := tc_ID call,
      ro_Name := (case nsp of Some n \<Rightarrow> nt_Name n | None \<Rightarrow> cf_Name (tc_Function call)), ro_Namespace := (case nsp of Some n \<Rightarrow> nt_Namespace n | None \<Rightarrow> ''''),
      ro_Status := ''in_progress''\<rparr>"
  have kind: "call_kind s1 k = (if c then ''custom_tool_call'' else if u then ''tool_search_call'' else ''function_call'')"
    by (simp add: call_kind_def s1_def put_call_def)
  have fields: "cs_ToolOutputIndex s1 = cs_ToolOutputIndex s" "cs_ToolItemIDs s1 = cs_ToolItemIDs s" by (simp_all add: s1_def put_call_def)
  have "announceChatToolItem lib k force stored s =
     emit ((event_of ''response.output_item.added'')\<lparr>re_OutputIndex := gm_getd 0 (cs_ToolOutputIndex s1) k, re_Item := Some item\<rparr>
         # (if \<not> c \<and> \<not> u \<and> cf_Arguments (tc_Function call) \<noteq> '''' then [args_delta s1 k call (cf_Arguments (tc_Function call))] else [])) s1"
    using assms unfolding announceChatToolItem_def Let_def announced_def item_def s1_def call_def u_def c_def ns_def nsp_def n_def tn_def stored1_def
    by (simp only: if_False)
  then have "announceChatToolItem lib k force stored s =
       emit ((event_of ''response.output_item.added'')\<lparr>re_OutputIndex := gm_getd 0 (cs_ToolOutputIndex s) k, re_Item := Some item\<rparr>
         # (if call_kind s1 k = ''function_call'' \<and> cf_Arguments (tc_Function call) \<noteq> '''' then [args_delta s1 k call (cf_Arguments (tc_Function call))] else [])) s1"
    unfolding fields kind by (cases c; cases u) simp_all
  moreover have "cf_Arguments (tc_Function call) = cf_Arguments (tc_Function stored)"
    by (simp add: call_def rename_custom_def set_name_def stored1_def split: option.split)
  moreover have "ro_ID item = call_id s k" "ro_Type item = call_kind s1 k" unfolding item_def kind call_id_def fields by simp_all
  ultimately show thesis by (intro that [OF _ _ _ _ s1_def])
qed

lemma announce_advances:
  "advances (\<lambda>s m. live b C s m \<and> call_index s k \<noteq> None \<and> k \<notin> C) (\<lambda>s. announceChatToolItem lib k force (stored s) s)
     (\<lambda>s m. live b C s m \<and> call_index s k \<noteq> None \<and> (force \<longrightarrow> announced s k))"
proof (rule advancesI)
  fix s m
  assume l: "live b C s m \<and> call_index s k \<noteq> None \<and> k \<notin> C"
  let ?a = "announceChatToolItem lib k force (stored s) s"
  note t = thinkingD [OF live_thinking [OF conjunct1 [OF l]]]
  show "\<exists>m'. accepts items_mon m (snd ?a) = Some m' \<and> live b C (fst ?a) m' \<and> call_index (fst ?a) k \<noteq> None \<and> (force \<longrightarrow> announced (fst ?a) k)"
  proof (cases "announced s k \<or> \<not> force \<and> (tc_ID (stored s) = '''' \<or> cf_Name (tc_Function (stored s)) = '''')")
    case True
    moreover have "gm_get (cs_ToolCalls s) k \<noteq> None" using tableD(5) [OF t(5)] l by auto
    ultimately show ?thesis using l live_put_call [of b C s m k "stored s"] by (auto simp: announceChatToolItem_def announced_def put_call_def)
  next
    case False
    then have new: "\<not> announced s k" by blast
    obtain i where i: "call_index s k = Some i" using l by auto
    obtain s1 item c u call n ns where form: "?a =
       emit ((event_of ''response.output_item.added'')\<lparr>re_OutputIndex := gm_getd 0 (cs_ToolOutputIndex s) k, re_Item := Some item\<rparr>
         # (if call_kind s1 k = ''function_call'' \<and> cf_Arguments (tc_Function call) \<noteq> '''' then [args_delta s1 k call (cf_Arguments (tc_Function call))] else [])) s1"
      "ro_ID item = call_id s k" "ro_Type item = call_kind s1 k" "cf_Arguments (tc_Function call) = cf_Arguments (tc_Function (stored s))"
      and s1: "s1 = put_call k call (s\<lparr>cs_Fresh := n, cs_toolAnnounced := gm_put k True (cs_toolAnnounced s),
          cs_toolIsCustom := gm_put k c (cs_toolIsCustom s), cs_toolIsToolSearch := gm_put k u (cs_toolIsToolSearch s), cs_toolNamespace := ns\<rparr>)"
      by (rule announce_form [OF False, of lib])
    let ?m = "m\<lparr>im_items := gm_put i (call_id s k, call_kind s1 k, True) (im_items m)\<rparr>"
    have id: "call_id s1 k = call_id s k" by (simp add: s1 put_call_def call_id_def)
    have "table s1 b C (gm_get (im_items ?m))"
      using table_announce [OF t(5) i new, of s1 c u call] l by (simp add: gm_get_put_fun s1 put_call_def used_r_def call_id_def)
    then have th: "thinking b C s1 ?m" by (intro thinkingI) (use t aux_steps(5) [OF t(8)] in \<open>simp_all add: s1 put_call_def used_m_def\<close>)
    then have "live b C s1 ?m" using l by (simp add: live_def s1 put_call_def used_r_def)
    note final = live_seq [OF this]
    have idx: "call_index s1 k = Some i" "announced s1 k" using i by (simp_all add: s1 put_call_def announced_def)
    have "gm_get (im_items m) i = None" using tableD(3) [OF t(5) i] new by simp
    then have add: "item_step m ((event_of ''response.output_item.added'')\<lparr>re_OutputIndex := gm_getd 0 (cs_ToolOutputIndex s) k, re_Item := Some item\<rparr>) = Some ?m"
      using t(2,4) i by (simp add: added_step form(2,3) gm_getd_def)
    have arg: "item_step ?m (args_delta s1 k call d) = Some ?m" if "call_kind s1 k = ''function_call''" for d
      using in_call [OF \<open>live b C s1 ?m\<close> idx(2), of "args_delta s1 k call d"] l idx that by (simp add: args_delta_def call_id_def gm_getd_def)
    show ?thesis unfolding form(1)
      by (rule advances_emit [where m' = ?m]) (use add arg t(1) idx final in \<open>auto simp: s1 put_call_def announced_def\<close>)
  qed
qed

lemma append_advances:
  "advances (\<lambda>s m. live True {} s m \<and> call_index s k \<noteq> None) (append_call_arguments k d) (live True {})"
proof (rule advancesI)
  fix s m
  assume l: "live True {} s m \<and> call_index s k \<noteq> None"
  show "\<exists>m'. accepts items_mon m (snd (append_call_arguments k d s)) = Some m' \<and> live True {} (fst (append_call_arguments k d s)) m'"
  proof (cases "d = ''''")
    case False
    define call where "call = add_arguments d (stored_call k s)"
    define s1 where "s1 = put_call k call s"
    have same: "call_index s1 k = call_index s k" "cs_SequenceNumber s1 = cs_SequenceNumber s" by (simp_all add: s1_def put_call_def)
    have "gm_get (cs_ToolCalls s) k \<noteq> None" using tableD(5) [OF thinkingD(5) [OF live_thinking [OF conjunct1 [OF l]]], of k] l by simp
    then have l1: "live True {} s1 m" unfolding s1_def using live_put_call l by blast
    have event: "item_step m (args_delta s1 k call d) = Some m" if "announced s1 k" "call_kind s1 k = ''function_call''"
      using in_call [OF l1 that(1), of "args_delta s1 k call d"] l that(2) same by (auto simp: args_delta_def call_id_def gm_getd_def)
    have form: "append_call_arguments k d s = (if announced s1 k \<and> call_kind s1 k = ''function_call'' then emit [args_delta s1 k call d] s1 else (s1, []))"
      using False by (simp add: append_call_arguments_def s1_def call_def announced_def call_kind_def Let_def)
    show ?thesis
    proof (cases "announced s1 k \<and> call_kind s1 k = ''function_call''")
      case True
      then show ?thesis unfolding form
        by simp (rule advances_emit [where m' = m], use event thinkingD(1) [OF live_thinking [OF l1]] live_seq [OF l1] in simp_all)
    qed (use form l1 in auto)
  qed (use l in \<open>simp add: append_call_arguments_def\<close>)
qed

lemma delta_call_advances: "advances (live True {}) (delta_call lib c) (live True {})"
proof -
  define k where "k = (case tc_Index c of Some i \<Rightarrow> i | None \<Rightarrow> 0)"
  have announce: "advances (\<lambda>s m. live True {} s m \<and> call_index s k \<noteq> None) (announce_call lib k) (\<lambda>s m. live True {} s m \<and> call_index s k \<noteq> None)"
    unfolding announce_call_def [abs_def] by (rule advances_mono [OF announce_advances]) auto
  show ?thesis unfolding delta_call_def [abs_def] Let_def k_def [symmetric]
    by (rule advances_then [OF open_call_advances advances_then [OF announce append_advances]])
qed

lemma delta_calls_advances: "advances (live True {}) (delta_calls lib cs) (live True {})"
proof (induction cs)
  case Nil
  then show ?case by (simp add: advances_def)
next
  case (Cons c cs)
  have "delta_calls lib (c # cs) = then_do (delta_call lib c) (delta_calls lib cs)" by (simp add: fun_eq_iff)
  with advances_then [OF delta_call_advances Cons.IH] show ?case by simp
qed

lemma finish_advances: "advances (live True {}) (set_finish r) (live True {})"
  unfolding advances_def set_finish_def live_def thinking_def ready_def
  by (auto simp: used_m_def used_r_def elim!: table_cong split: option.splits)

section \<open>Streams\<close>

text \<open>What the bridge relies on: no reasoning after the first content or call.\<close>

definition other_content :: "ChatDelta \<Rightarrow> bool" where
  "other_content d \<longleftrightarrow> opt_text (dl_Content d) \<noteq> '''' \<or> dl_ToolCalls d \<noteq> []"

fun choices_in :: "bool \<Rightarrow> ChatChunkChoice list \<Rightarrow> bool option" where
  "choices_in seen [] = Some seen"
| "choices_in seen (c # cs) =
     (if seen \<and> opt_text (delta_reasoningText (ch_Delta c)) \<noteq> '''' then None else choices_in (seen \<or> other_content (ch_Delta c)) cs)"

definition reasoning_first :: "bool \<Rightarrow> ChatCompletionsChunk \<Rightarrow> bool option" where
  "reasoning_first seen chunk = choices_in seen (ck_Choices chunk)"

definition streaming :: "bool \<Rightarrow> c2r_state \<Rightarrow> item_monitor \<Rightarrow> bool" where
  "streaming seen s m \<longleftrightarrow> live True {} s m \<and> (cs_ReasoningDone s \<longrightarrow> seen)"

lemma choice_advances:
  assumes "\<not> (seen \<and> opt_text (delta_reasoningText (ch_Delta c)) \<noteq> '''')"
  shows "advances (streaming seen) (choice_events lib c) (streaming (seen \<or> other_content (ch_Delta c)))"
proof -
  define r where "r = opt_text (delta_reasoningText (ch_Delta c))"
  define t where "t = opt_text (dl_Content (ch_Delta c))"
  define calls where "calls = dl_ToolCalls (ch_Delta c)"
  have kept: "cs_ReasoningDone (fst (delta_reasoning lib r s)) = cs_ReasoningDone s" for s
    by (simp add: delta_reasoning_def then_do_def ensureChatReasoningItem_def split_def emit_state Let_def)
  have reason: "advances (streaming seen) (delta_reasoning lib r) (streaming seen)"
  proof (rule advancesI)
    fix s m
    assume "streaming seen s m"
    then show "\<exists>m'. accepts items_mon m (snd (delta_reasoning lib r s)) = Some m' \<and> streaming seen (fst (delta_reasoning lib r s)) m'"
      using delta_reasoning_advances [of r lib] assms kept [of s] unfolding advances_def streaming_def r_def by blast
  qed
  have content: "advances (streaming seen) (delta_content lib t) (streaming (seen \<or> t \<noteq> ''''))"
  proof (cases "t = ''''")
    case True
    then show ?thesis by (simp add: delta_content_def advances_def)
  next
    case False
    then show ?thesis using delta_content_advances [of "{}" lib t] by (simp add: advances_def streaming_def)
  qed
  have calls: "advances (streaming (seen \<or> t \<noteq> '''')) (delta_calls lib calls) (streaming (seen \<or> t \<noteq> '''' \<or> calls \<noteq> []))"
  proof (cases "calls = []")
    case True
    then show ?thesis by (simp add: advances_def)
  next
    case False
    then show ?thesis using delta_calls_advances [of lib calls] by (simp add: advances_def streaming_def)
  qed
  have "advances (streaming b) (set_finish (ch_FinishReason c)) (streaming b)" for b
    using finish_advances [of "ch_FinishReason c"] unfolding advances_def streaming_def by (auto simp: set_finish_def split: option.splits)
  from advances_then [OF reason advances_then [OF content advances_then [OF calls this]]]
  show ?thesis by (simp add: choice_events_def [abs_def] Let_def r_def t_def calls_def other_content_def)
qed

lemma choices_advances: "choices_in seen cs = Some seen' \<Longrightarrow> advances (streaming seen) (choices_events lib cs) (streaming seen')"
proof (induction cs arbitrary: seen)
  case Nil
  then show ?case by (simp add: advances_def)
next
  case (Cons c cs)
  then have step: "\<not> (seen \<and> opt_text (delta_reasoningText (ch_Delta c)) \<noteq> '''')" "choices_in (seen \<or> other_content (ch_Delta c)) cs = Some seen'"
    by (auto split: if_splits)
  have "choices_events lib (c # cs) = then_do (choice_events lib c) (choices_events lib cs)" by (simp add: fun_eq_iff)
  with advances_then [OF choice_advances [OF step(1)] Cons.IH [OF step(2)]] show ?case by simp
qed

definition c2r_rel :: "c2r_state \<Rightarrow> bool \<Rightarrow> item_monitor \<Rightarrow> bool" where
  "c2r_rel s seen m \<longleftrightarrow> ready True {} s m \<and> (used_r s \<longrightarrow> cs_Reasoning s \<noteq> '''') \<and> (cs_ReasoningDone s \<longrightarrow> seen)"

lemma header_rel: "c2r_rel s seen m \<Longrightarrow> c2r_rel (chunk_header chunk s) seen m"
proof -
  assume rel: "c2r_rel s seen m"
  have same: "cs_SequenceNumber (chunk_header chunk s) = cs_SequenceNumber s" "cs_CreatedSent (chunk_header chunk s) = cs_CreatedSent s"
    "cs_TextPartOpen (chunk_header chunk s) = cs_TextPartOpen s" "used_m (chunk_header chunk s) = used_m s" "used_r (chunk_header chunk s) = used_r s"
    "cs_Reasoning (chunk_header chunk s) = cs_Reasoning s" "cs_ReasoningDone (chunk_header chunk s) = cs_ReasoningDone s" "aux (chunk_header chunk s) = aux s"
    by (simp_all add: chunk_header_def Let_def aux_def used_r_def used_m_def call_id_def announced_def call_kind_def)
  have "table (chunk_header chunk s) True {} T" if "table s True {} T" for T
    using that by (rule table_cong) (simp_all add: chunk_header_def Let_def used_r_def)
  then show ?thesis using rel unfolding c2r_rel_def ready_def same by blast
qed

interpretation c2r: translated_stream "ChatCompletionsChunkToResponsesEvents lib" reasoning_first items_mon c2r_rel for lib
proof
  fix seen chunk seen' s m
  assume ok: "reasoning_first seen chunk = Some seen'" and rel: "c2r_rel s seen m"
  have created: "advances (\<lambda>s m. c2r_rel s seen m) ensureChatToResponsesCreated (streaming seen)"
  proof (rule advancesI)
    fix s m
    assume "c2r_rel s seen m"
    then show "\<exists>m'. accepts items_mon m (snd (ensureChatToResponsesCreated s)) = Some m' \<and> streaming seen (fst (ensureChatToResponsesCreated s)) m'"
      using created_advances [of True "{}"] unfolding advances_def c2r_rel_def streaming_def
      by (auto simp: ensureChatToResponsesCreated_def emit_state dest!: spec)
  qed
  from advances_then [OF created choices_advances [OF ok [unfolded reasoning_first_def]]] header_rel [OF rel]
  obtain m' where "accepts items_mon m (snd (ChatCompletionsChunkToResponsesEvents lib chunk s)) = Some m'" "streaming seen' (fst (ChatCompletionsChunkToResponsesEvents lib chunk s)) m'"
    unfolding advances_def ChatCompletionsChunkToResponsesEvents_def by blast
  then show "\<exists>m'. accepts items_mon m (snd (ChatCompletionsChunkToResponsesEvents lib chunk s)) = Some m' \<and> c2r_rel (fst (ChatCompletionsChunkToResponsesEvents lib chunk s)) seen' m'"
    by (auto simp: c2r_rel_def streaming_def live_def thinking_def)
qed

section \<open>The end of a stream\<close>

lemma close_message_advances: "advances (\<lambda>s m. live True C s m \<and> \<not> cs_ReasoningOpen s) close_message (\<lambda>s m. live False C s m \<and> \<not> cs_ReasoningOpen s)"
proof (rule advancesI)
  fix s m
  assume l: "live True C s m \<and> \<not> cs_ReasoningOpen s"
  note t = thinkingD [OF live_thinking [OF conjunct1 [OF l]]]
  show "\<exists>m'. accepts items_mon m (snd (close_message s)) = Some m' \<and> live False C (fst (close_message s)) m' \<and> \<not> cs_ReasoningOpen (fst (close_message s))"
  proof (cases "used_m s")
    case False
    then have "live False C s m" using l table_no_message [OF t(5) False] unfolding live_def thinking_def ready_def by blast
    then show ?thesis using False l by (simp add: close_message_def used_m_def)
  next
    case True
    let ?m = "m\<lparr>im_items := gm_put (cs_MessageIndex s) (cs_MessageItemID s, ''message'', False) (im_items m)\<rparr>"
    have "thinking False C s ?m" by (rule thinkingI) (use t True table_close_message [OF t(5) True] in \<open>simp_all add: gm_get_put_fun\<close>)
    then have "live False C s ?m" using l by (simp add: live_def)
    note final = live_seq [OF this]
    have slot: "gm_get (im_items m) (cs_MessageIndex s) = Some (cs_MessageItemID s, ''message'', True)" using tableD(2) [OF t(5) True] .
    show ?thesis unfolding close_message_def Let_def using True l
      by (simp add: used_m_def) (intro conjI impI; rule advances_emit [where m' = ?m],
        use t(1,2,4) slot final in \<open>simp_all add: mid_step done_step message_item_of_def emptyResponsesMessageOutput_def\<close>)
  qed
qed

text \<open>The arguments of every call that is neither a custom tool call nor a tool search are JSON.\<close>

definition closable :: "bridge_lib \<Rightarrow> c2r_state \<Rightarrow> bool" where
  "closable lib s \<longleftrightarrow> (\<forall>k call. gm_get (cs_ToolCalls s) k = Some call \<longrightarrow> \<not> announced s k \<or> call_kind s k = ''function_call'' \<longrightarrow>
     br_valid lib (default_arguments (cf_Arguments (tc_Function call))))"

definition closing :: "bridge_lib \<Rightarrow> (int, int) gomap \<Rightarrow> int set \<Rightarrow> c2r_state \<Rightarrow> item_monitor \<Rightarrow> bool" where
  "closing lib X C s m \<longleftrightarrow> live False C s m \<and> \<not> cs_ReasoningOpen s \<and> closable lib s \<and> cs_ToolOutputIndex s = X"

lemma announce_keeps:
  assumes "gm_get (cs_ToolCalls s) k = Some stored"
  shows "cs_ToolOutputIndex (fst (announceChatToolItem lib k force stored s)) = cs_ToolOutputIndex s"
    and "cs_ReasoningOpen (fst (announceChatToolItem lib k force stored s)) = cs_ReasoningOpen s"
    and "closable lib s \<Longrightarrow> closable lib (fst (announceChatToolItem lib k force stored s))"
proof -
  let ?s = "fst (announceChatToolItem lib k force stored s)"
  have "cs_ToolOutputIndex ?s = cs_ToolOutputIndex s \<and> cs_ReasoningOpen ?s = cs_ReasoningOpen s \<and> (closable lib s \<longrightarrow> closable lib ?s)"
  proof (cases "announced s k \<or> \<not> force \<and> (tc_ID stored = '''' \<or> cf_Name (tc_Function stored) = '''')")
    case True
    then have "?s = put_call k stored s" by (simp add: announceChatToolItem_def announced_def)
    then show ?thesis using assms by (simp add: put_call_def closable_def call_kind_def announced_def)
  next
    case False
    obtain s1 item c u call n ns where form: "announceChatToolItem lib k force stored s =
       emit ((event_of ''response.output_item.added'')\<lparr>re_OutputIndex := gm_getd 0 (cs_ToolOutputIndex s) k, re_Item := Some item\<rparr>
         # (if call_kind s1 k = ''function_call'' \<and> cf_Arguments (tc_Function call) \<noteq> '''' then [args_delta s1 k call (cf_Arguments (tc_Function call))] else [])) s1"
      "ro_ID item = call_id s k" "ro_Type item = call_kind s1 k" and args: "cf_Arguments (tc_Function call) = cf_Arguments (tc_Function stored)"
      and s1: "s1 = put_call k call (s\<lparr>cs_Fresh := n, cs_toolAnnounced := gm_put k True (cs_toolAnnounced s),
          cs_toolIsCustom := gm_put k c (cs_toolIsCustom s), cs_toolIsToolSearch := gm_put k u (cs_toolIsToolSearch s), cs_toolNamespace := ns\<rparr>)"
      by (rule announce_form [OF False, of lib])
    have "cs_ToolOutputIndex s1 = cs_ToolOutputIndex s" "cs_ReasoningOpen s1 = cs_ReasoningOpen s" by (simp_all add: s1 put_call_def)
    moreover have "closable lib s1" if "closable lib s"
    proof -
      have "br_valid lib (default_arguments (cf_Arguments (tc_Function stored)))" using that assms False unfolding closable_def by blast
      moreover have "announced s1 j = announced s j" "call_kind s1 j = call_kind s j" "gm_get (cs_ToolCalls s1) j = gm_get (cs_ToolCalls s) j" if "j \<noteq> k" for j
        using that by (simp_all add: s1 put_call_def announced_def call_kind_def)
      moreover have "gm_get (cs_ToolCalls s1) k = Some call" by (simp add: s1 put_call_def)
      ultimately show ?thesis using that args unfolding closable_def by (metis option.inject)
    qed
    moreover have "cs_ToolOutputIndex ?s = cs_ToolOutputIndex s1" "cs_ReasoningOpen ?s = cs_ReasoningOpen s1" "closable lib ?s = closable lib s1"
      unfolding form(1) by (simp_all add: emit_state closable_def announced_def call_kind_def)
    ultimately show ?thesis by simp
  qed
  then show "cs_ToolOutputIndex ?s = cs_ToolOutputIndex s" "cs_ReasoningOpen ?s = cs_ReasoningOpen s" "closable lib s \<Longrightarrow> closable lib ?s" by simp_all
qed

lemma final_item_id: "ro_ID (final_item lib s k itemID) = itemID" "ro_Type (final_item lib s k itemID) = call_kind s k"
  by (simp_all add: final_item_def Let_def call_kind_def call_item_def split: option.split)

lemma final_item_arguments:
  "call_kind s k = ''function_call'' \<Longrightarrow> ro_Arguments (final_item lib s k itemID) = default_arguments (cf_Arguments (tc_Function (stored_call k s)))"
  by (simp add: final_item_def Let_def call_kind_def call_item_def split: option.split if_splits)

lemma call_kind_cases:
  obtains "call_kind s k = ''custom_tool_call''" "gm_getd False (cs_toolIsCustom s) k"
  | "call_kind s k = ''tool_search_call''" "\<not> gm_getd False (cs_toolIsCustom s) k" "gm_getd False (cs_toolIsToolSearch s) k"
  | "call_kind s k = ''function_call''" "\<not> gm_getd False (cs_toolIsCustom s) k" "\<not> gm_getd False (cs_toolIsToolSearch s) k"
  by (cases "gm_getd False (cs_toolIsCustom s) k"; cases "gm_getd False (cs_toolIsToolSearch s) k") (auto simp: call_kind_def)

lemma close_events_accepted:
  assumes "live False C s m" "announced s k" "k \<notin> C" "call_index s k = Some i" "closable lib s"
  shows "accepts item_step m (close_events lib s k i) = Some (m\<lparr>im_items := gm_put i (call_id s k, call_kind s k, False) (im_items m)\<rparr>)"
proof -
  note t = thinkingD [OF live_thinking [OF assms(1)]]
  let ?item = "final_item lib s k (call_id s k)"
  have slot: "gm_get (im_items m) i = Some (call_id s k, call_kind s k, True)" using tableD(3) [OF t(5) assms(4)] assms(2,3) by simp
  have fin: "item_step m ((event_of ''response.output_item.done'')\<lparr>re_OutputIndex := i, re_Item := Some ?item\<rparr>) =
      Some (m\<lparr>im_items := gm_put i (call_id s k, call_kind s k, False) (im_items m)\<rparr>)"
    using t(2,4) slot by (simp add: done_step final_item_id)
  show ?thesis
  proof (cases rule: call_kind_cases [of s k])
    case 1
    then show ?thesis using fin slot t(2,4) by (simp add: close_events_def Let_def call_id_def [symmetric] mid_step)
  next
    case 2
    then show ?thesis using fin by (simp add: close_events_def Let_def call_id_def [symmetric])
  next
    case 3
    obtain call where "gm_get (cs_ToolCalls s) k = Some call" using tableD(5) [OF t(5), of k] assms(4) by auto
    then have "br_valid lib (ro_Arguments ?item)" using assms(5) 3(1) by (simp add: closable_def final_item_arguments stored_call_def gm_getd_def)
    then show ?thesis using 3 fin slot t(2,4) by (simp add: close_events_def Let_def call_id_def [symmetric] mid_step)
  qed
qed

lemma close_call_advances: "advances (\<lambda>s m. closing lib X C s m \<and> gm_get X k \<noteq> None \<and> k \<notin> C) (close_call lib k) (closing lib X (insert k C))"
proof -
  have announce: "advances (\<lambda>s m. closing lib X C s m \<and> gm_get X k \<noteq> None \<and> k \<notin> C) (\<lambda>s. announceChatToolItem lib k True (stored_call k s) s)
      (\<lambda>s m. closing lib X C s m \<and> gm_get X k \<noteq> None \<and> k \<notin> C \<and> announced s k)"
  proof (rule advancesI)
    fix s m
    assume c: "closing lib X C s m \<and> gm_get X k \<noteq> None \<and> k \<notin> C"
    let ?a = "announceChatToolItem lib k True (stored_call k s) s"
    have l: "live False C s m" "call_index s k \<noteq> None" using c by (auto simp: closing_def)
    have "gm_get (cs_ToolCalls s) k \<noteq> None" using tableD(5) [OF thinkingD(5) [OF live_thinking [OF l(1)]], of k] l(2) by simp
    then have stored: "gm_get (cs_ToolCalls s) k = Some (stored_call k s)" by (auto simp: stored_call_def gm_getd_def)
    from announce_advances [of False C k lib True "stored_call k"] l c obtain m' where
      "accepts items_mon m (snd ?a) = Some m'" "live False C (fst ?a) m'" "announced (fst ?a) k" unfolding advances_def by blast
    with announce_keeps [OF stored, of lib True] c show "\<exists>m'. accepts items_mon m (snd ?a) = Some m' \<and>
        closing lib X C (fst ?a) m' \<and> gm_get X k \<noteq> None \<and> k \<notin> C \<and> announced (fst ?a) k"
      by (auto simp: closing_def)
  qed
  let ?f = "\<lambda>state. case call_index state k of None \<Rightarrow> (state, []) | Some outputIndex \<Rightarrow> emit (close_events lib state k outputIndex) state"
  have "advances (\<lambda>s m. closing lib X C s m \<and> gm_get X k \<noteq> None \<and> k \<notin> C \<and> announced s k) ?f (closing lib X (insert k C))"
  proof (rule advancesI)
    fix s m
    assume c: "closing lib X C s m \<and> gm_get X k \<noteq> None \<and> k \<notin> C \<and> announced s k"
    then obtain i where i: "call_index s k = Some i" and l: "live False C s m" by (auto simp: closing_def)
    note t = thinkingD [OF live_thinking [OF l]]
    let ?m = "m\<lparr>im_items := gm_put i (call_id s k, call_kind s k, False) (im_items m)\<rparr>"
    have acc: "accepts item_step m (close_events lib s k i) = Some ?m" using close_events_accepted l i c by (auto simp: closing_def)
    have "thinking False (insert k C) s ?m" by (rule thinkingI) (use t table_close_call [OF t(5) i] c in \<open>simp_all add: gm_get_put_fun\<close>)
    then have "live False (insert k C) s ?m" using l by (simp add: live_def)
    from live_seq [OF this] have fin: "closing lib X (insert k C) (s\<lparr>cs_SequenceNumber := n\<rparr>) (?m\<lparr>im_seq := n\<rparr>)" for n
      using c by (simp add: closing_def closable_def call_kind_def announced_def)
    show "\<exists>m'. accepts items_mon m (snd (?f s)) = Some m' \<and> closing lib X (insert k C) (fst (?f s)) m'"
      using advances_emit [where Q = "closing lib X (insert k C)", OF acc t(1) fin] i by simp
  qed
  from advances_then [OF announce this] show ?thesis by (simp add: close_call_def)
qed

lemma close_calls_advances:
  "distinct is \<Longrightarrow> \<forall>k \<in> set is. gm_get X k \<noteq> None \<and> k \<notin> C \<Longrightarrow> advances (closing lib X C) (close_calls lib is) (closing lib X (C \<union> set is))"
proof (induction "is" arbitrary: C)
  case Nil
  then show ?case by (simp add: advances_def)
next
  case (Cons k "is")
  have "close_calls lib (k # is) = then_do (close_call lib k) (close_calls lib is)" by (simp add: fun_eq_iff)
  moreover have "advances (closing lib X C) (close_call lib k) (closing lib X (insert k C))"
    using Cons.prems(2) by (intro advances_mono [OF close_call_advances]) auto
  moreover have "advances (closing lib X (insert k C)) (close_calls lib is) (closing lib X (insert k C \<union> set is))"
    using Cons.prems by (intro Cons.IH) auto
  ultimately show ?case using advances_then by fastforce
qed

lemma close_items_advances:
  "advances (closing lib X {}) (closeChatToolItems lib) (\<lambda>s m. \<exists>C. closing lib X C s m \<and> (\<forall>k. gm_get X k \<noteq> None \<longrightarrow> k \<in> C))"
proof (rule advancesI)
  fix s m
  assume c: "closing lib X {} s m"
  then have l: "live False {} s m" and X: "cs_ToolOutputIndex s = X" by (simp_all add: closing_def)
  note t = thinkingD [OF live_thinking [OF l]]
  let ?is = "sortedChatToolCallIndexes (cs_ToolCalls s)"
  have keys: "k \<in> set ?is \<longleftrightarrow> gm_get X k \<noteq> None" for k
    using tableD(5) [OF t(5), of k] X by (auto simp: sortedChatToolCallIndexes_def gm_get_None)
  have "distinct ?is" using t(8) by (simp add: aux_def gm_ok_def sortedChatToolCallIndexes_def)
  then have "advances (closing lib X {}) (close_calls lib ?is) (closing lib X ({} \<union> set ?is))" using keys by (intro close_calls_advances) auto
  with c keys show "\<exists>m'. accepts items_mon m (snd (closeChatToolItems lib s)) = Some m' \<and>
      (\<exists>C. closing lib X C (fst (closeChatToolItems lib s)) m' \<and> (\<forall>k. gm_get X k \<noteq> None \<longrightarrow> k \<in> C))"
    unfolding closeChatToolItems_def advances_def by fastforce
qed

lemma mark_incomplete_id [simp]: "ro_ID (mark_incomplete item) = ro_ID item" "ro_Type (mark_incomplete item) = ro_Type item"
  by (simp_all add: mark_incomplete_def)

lemma accepts_incomplete: "accepts items_mon m (map incomplete_event es) = accepts items_mon m es"
proof (induction es arbitrary: m)
  case (Cons e es)
  have "item_step m (incomplete_event e) = item_step m e" by (simp add: item_step_def incomplete_event_def Let_def split: option.splits)
  then have "items_mon m (incomplete_event e) = items_mon m e" unfolding items_mon_def by (simp add: incomplete_event_def)
  then show ?case using Cons.IH by (simp split: option.split)
qed simp

text \<open>When everything is closed, the output lists every item that was announced.\<close>

lemma output_lists:
  assumes "closing lib X C s m" "\<forall>k. gm_get X k \<noteq> None \<longrightarrow> k \<in> C" "(i, itemID, type, is_open) \<in> set (im_items m)"
  shows "\<not> is_open \<and> (\<exists>item \<in> set (chatOutput lib s). ro_ID item = itemID \<and> ro_Type item = type)"
proof -
  have l: "live False C s m" "\<not> cs_ReasoningOpen s" "cs_ToolOutputIndex s = X" using assms(1) by (simp_all add: closing_def)
  note t = thinkingD [OF live_thinking [OF l(1)]]
  have T: "gm_get (im_items m) i = Some (itemID, type, is_open)" using assms(3) t(7) by (simp add: gm_get_eq_Some)
  from tableD(7) [OF t(5) T] consider "used_r s" "i = cs_ReasoningIndex s" | "used_m s" "i = cs_MessageIndex s" | k where "call_index s k = Some i" by blast
  then show ?thesis
  proof cases
    case 1
    then have "cs_Reasoning s \<noteq> ''''" "cs_ReasoningItemID s \<noteq> ''''" using l(1) t(8) by (simp_all add: live_def aux_def)
    with 1 tableD(1) [OF t(5)] T l(2) show ?thesis by (auto simp: chatOutput_def reasoning_item_def nonEmpty_def)
  next
    case 2
    with tableD(2) [OF t(5)] T show ?thesis by (auto simp: chatOutput_def message_item_of_def emptyResponsesMessageOutput_def nonEmpty_def used_m_def)
  next
    case (3 k)
    then have "k \<in> C" using assms(2) l(3) by auto
    with tableD(3) [OF t(5) 3] T have slot: "itemID = call_id s k" "type = call_kind s k" "\<not> is_open" by (simp_all split: if_splits)
    have "call_id s k \<noteq> ''''" using t(8) 3 by (simp add: aux_def)
    moreover have "k \<in> set (sortedChatToolCallIndexes (cs_ToolCalls s))"
      using tableD(5) [OF t(5), of k] 3 by (auto simp: sortedChatToolCallIndexes_def gm_get_None)
    then obtain n where "n < length (sortedChatToolCallIndexes (cs_ToolCalls s))" "k = sortedChatToolCallIndexes (cs_ToolCalls s) ! n"
      by (auto simp: in_set_conv_nth)
    then have "(n, k) \<in> set (enumerate 0 (sortedChatToolCallIndexes (cs_ToolCalls s)))" by (simp add: in_set_enumerate_eq)
    ultimately show ?thesis using slot unfolding chatOutput_def
      by (intro conjI bexI [of _ "final_item lib s k (nonEmpty (call_id s k) (generateItemID lib (cs_Fresh s + 2 + n)))"])
        (auto simp: final_item_id nonEmpty_def call_id_def image_iff intro!: bexI [of _ "(n, k)"])
  qed
qed

lemma terminal_step_accepted:
  assumes "closing lib X C s m" "\<forall>k. gm_get X k \<noteq> None \<longrightarrow> k \<in> C" "re_Type e = ''response.completed'' \<or> re_Type e = ''response.incomplete''"
    and "re_Response e = Some r" "rr_Output r = map f (chatOutput lib s)" "\<And>item. ro_ID (f item) = ro_ID item" "\<And>item. ro_Type (f item) = ro_Type item"
  shows "item_step m e = Some (m\<lparr>im_done := True\<rparr>)"
proof -
  have "list_all (\<lambda>(_, itemID, type, is_open). \<not> is_open \<and> list_ex (\<lambda>item. ro_ID item = itemID \<and> ro_Type item = type) (rr_Output r)) (im_items m)"
    using output_lists [OF assms(1,2)] by (force simp: list_all_iff list_ex_iff assms(5-7))
  moreover have "live False C s m" using assms(1) by (simp add: closing_def)
  then have "im_created m" "\<not> im_done m" using thinkingD(2,4) [OF live_thinking] by blast+
  ultimately show ?thesis using assms(3,4) by (auto simp: item_step_def)
qed

lemma then_do_assoc: "then_do f (then_do g h) = then_do (then_do f g) h"
  by (simp add: then_do_def fun_eq_iff split_def Let_def)

lemma validated_closable:
  assumes "aux s" "ValidateToolCallArguments lib s = None" "br_valid lib ''{}''"
    and "\<forall>k call. gm_get (cs_ToolCalls s) k = Some call \<longrightarrow> trim_space (cf_Arguments (tc_Function call)) \<in> {'''', cf_Arguments (tc_Function call)}"
  shows "closable lib s"
  unfolding closable_def
proof (intro allI impI)
  fix k call
  assume call: "gm_get (cs_ToolCalls s) k = Some call" "\<not> announced s k \<or> call_kind s k = ''function_call''"
  then have "\<not> gm_getd False (cs_toolIsCustom s) k" "\<not> gm_getd False (cs_toolIsToolSearch s) k"
    using assms(1) by (auto simp: aux_def call_kind_def split: if_splits)
  then have "call_arguments_ok (br_valid lib) (cf_Arguments (tc_Function call))"
    using assms(2) gm_get_SomeD [OF call(1)] by (auto simp: ValidateToolCallArguments_def find_None_iff)
  then show "br_valid lib (default_arguments (cf_Arguments (tc_Function call)))"
    using assms(3) assms(4) [rule_format, OF call(1)] by (cases "trim_space (cf_Arguments (tc_Function call)) = ''''") (simp_all add: call_arguments_ok_def default_arguments_def Let_def)
qed

lemma chatOutput_completed: "chatOutput lib (s\<lparr>cs_CompletedSent := b\<rparr>) = chatOutput lib s"
proof -
  have "final_item lib (s\<lparr>cs_CompletedSent := b\<rparr>) i itemID = final_item lib s i itemID" for i itemID
    by (simp add: final_item_def stored_call_def Let_def split: option.split)
  then show ?thesis by (simp add: chatOutput_def)
qed

lemma bridge_finalize_accepted:
  assumes "c2r_rel s seen m" "closable lib s"
  shows "\<exists>m'. accepts items_mon m (snd (FinalizeChatCompletionsResponsesStream lib s)) = Some m' \<and> im_done m'"
proof -
  define f where "f = then_do ensureChatToResponsesCreated (then_do closeChatReasoningItem close_message)"
  define X where "X = cs_ToolOutputIndex s"
  have f: "advances (\<lambda>s m. ready True {} s m \<and> (used_r s \<longrightarrow> cs_Reasoning s \<noteq> '''')) f (\<lambda>s m. live False {} s m \<and> \<not> cs_ReasoningOpen s)"
    unfolding f_def by (rule advances_then [OF created_advances advances_then [OF close_reasoning_advances close_message_advances]])
  have same: "cs_ToolOutputIndex (fst (f s)) = X" "closable lib (fst (f s)) = closable lib s"
    by (simp_all add: X_def f_def then_do_def split_def Let_def ensureChatToResponsesCreated_def closeChatReasoningItem_def close_message_def emit_state
        closable_def announced_def call_kind_def)
  from f assms(1) obtain m1 where m1: "accepts items_mon m (snd (f s)) = Some m1" "live False {} (fst (f s)) m1 \<and> \<not> cs_ReasoningOpen (fst (f s))"
    unfolding advances_def c2r_rel_def by blast
  with same assms(2) have "closing lib X {} (fst (f s)) m1" by (simp add: closing_def)
  with close_items_advances obtain m2 C where m2: "accepts items_mon m1 (snd (closeChatToolItems lib (fst (f s)))) = Some m2"
      "closing lib X C (fst (closeChatToolItems lib (fst (f s)))) m2" "\<forall>k. gm_get X k \<noteq> None \<longrightarrow> k \<in> C" unfolding advances_def by blast
  define r where "r = then_do f (closeChatToolItems lib) s"
  have r: "accepts items_mon m (snd r) = Some m2" "fst r = fst (closeChatToolItems lib (fst (f s)))"
    using m1(1) m2(1) by (auto simp: r_def then_do_def split_def Let_def)
  define s1 where "s1 = fst r\<lparr>cs_CompletedSent := True\<rparr>"
  define cut where "cut = cut_short (cs_FinishReason (fst r))"
  have outp: "chatOutput lib s1 = chatOutput lib (fst r)" unfolding s1_def by (rule chatOutput_completed)
  have not_sent: "\<not> cs_CompletedSent s" using assms(1) by (simp add: c2r_rel_def ready_def aux_def)
  obtain e where fin: "snd (FinalizeChatCompletionsResponsesStream lib s) = (if cut then map incomplete_event (snd r) else snd r) @ snd (emit [e] s1)"
    and e: "re_Type e = ''response.completed'' \<or> re_Type e = ''response.incomplete''"
      "\<exists>resp. re_Response e = Some resp \<and> rr_Output resp = map (if cut then mark_incomplete else id) (chatOutput lib (fst r))"
  proof -
    let ?e = "(event_of (if cut then ''response.incomplete'' else ''response.completed''))\<lparr>re_Response := Some ((fresh_response (cs_ResponseID s1) (cs_Created s1) (cs_Model s1))
        \<lparr>rr_UpstreamServiceTier := cs_UpstreamServiceTier s1, rr_Status := (if cut then ''incomplete'' else ''completed''),
         rr_Output := (if cut then map mark_incomplete (chatOutput lib s1) else chatOutput lib s1), rr_Usage := cs_Usage s1, rr_IncompleteDetails := cut_details (cs_FinishReason s1)\<rparr>)\<rparr>"
    have "snd (FinalizeChatCompletionsResponsesStream lib s) = (if cut then map incomplete_event (snd r) else snd r) @ snd (emit [?e] s1)"
      using not_sent unfolding FinalizeChatCompletionsResponsesStream_def then_do_assoc f_def [symmetric, unfolded then_do_assoc] r_def [symmetric]
      by (simp add: split_def Let_def s1_def cut_def)
    then show thesis by (rule that) (simp_all add: outp)
  qed
  have "accepts items_mon m (if cut then map incomplete_event (snd r) else snd r) = Some m2" using r(1) by (simp add: accepts_incomplete)
  moreover have "item_step m2 e = Some (m2\<lparr>im_done := True\<rparr>)"
  proof -
    from e(2) obtain resp where resp: "re_Response e = Some resp" "rr_Output resp = map (if cut then mark_incomplete else id) (chatOutput lib (fst r))" by blast
    show ?thesis by (rule terminal_step_accepted [OF m2(2) [folded r(2)] m2(3) e(1) resp]) simp_all
  qed
  moreover have "im_seq m2 = cs_SequenceNumber s1"
    using m2(2) by (simp add: closing_def live_def thinking_def ready_def s1_def r(2))
  ultimately show ?thesis unfolding fin using emit_accepted [of m2 "[e]" _ s1] by (auto simp: accepts_append)
qed


definition demo_bridge :: bridge_lib where
  "demo_bridge = \<lparr>br_tools = demo_tool_lib, br_valid = (\<lambda>s. s = ''{}''), br_object = (\<lambda>s. None), br_string = (\<lambda>s. Some s), br_parts = (\<lambda>s. None),
     br_rand = (\<lambda>n. nat_digits n), br_quote = (\<lambda>s. s)\<rparr>"

definition demo_names :: tool_names where
  "demo_names = \<lparr>tn_custom = [], tn_functions = [(''ls'', True)], tn_search = False, tn_namespaces = []\<rparr>"

definition demo_chunk :: "ChatDelta \<Rightarrow> ChatCompletionsChunk" where
  "demo_chunk d = \<lparr>ck_ID = ''c1'', ck_Object = ''chat.completion.chunk'', ck_Created = 0, ck_Model = ''m'', ck_Choices = [\<lparr>ch_Index = 0, ch_Delta = d, ch_FinishReason = None\<rparr>],
     ck_Usage = None, ck_SystemFingerprint = '''', ck_ServiceTier = ''''\<rparr>"

definition demo_delta_call :: "int \<Rightarrow> string \<Rightarrow> string \<Rightarrow> string \<Rightarrow> ChatDelta" where
  "demo_delta_call i callID name args = zero_chat_delta\<lparr>dl_ToolCalls :=
     [\<lparr>tc_Index = Some i, tc_ID = callID, tc_Type = ''function'', tc_Function = \<lparr>cf_Name = name, cf_Arguments = args\<rparr>\<rparr>]\<rparr>"

text \<open>Reasoning, then two calls whose arguments arrive interleaved with text.\<close>

definition demo_chunks :: "ChatCompletionsChunk list" where
  "demo_chunks = map demo_chunk
     [zero_chat_delta\<lparr>dl_ReasoningContent := Some ''hm''\<rparr>, demo_delta_call 0 ''a'' ''ls'' ''{'', demo_delta_call 1 ''b'' ''ls'' '''',
      zero_chat_delta\<lparr>dl_Content := Some ''Hi''\<rparr>, demo_delta_call 0 '''' '''' ''}'']"

abbreviation demo_bridge_run :: "c2r_state \<times> ResponsesStreamEvent list list" where
  "demo_bridge_run \<equiv> run_all (ChatCompletionsChunkToResponsesEvents demo_bridge) demo_chunks (NewChatCompletionsToResponsesStreamState ''id'' 0 demo_names ''m'')"


section \<open>Where the bridge breaks the protocol\<close>

text \<open>Reasoning that arrives after content is sent for the reasoning item that is already closed.\<close>

theorem late_reasoning_reaches_closed_item:
  "accepts items_mon imon_init (concat (snd (run_all (ChatCompletionsChunkToResponsesEvents demo_bridge)
      (map demo_chunk [zero_chat_delta\<lparr>dl_ReasoningContent := Some ''hm''\<rparr>, zero_chat_delta\<lparr>dl_Content := Some ''Hi''\<rparr>]) (NewChatCompletionsToResponsesStreamState ''id'' 0 demo_names ''m'')))) \<noteq> None
   \<and> accepts items_mon imon_init (concat (snd (run_all (ChatCompletionsChunkToResponsesEvents demo_bridge)
      (map demo_chunk [zero_chat_delta\<lparr>dl_ReasoningContent := Some ''hm''\<rparr>, zero_chat_delta\<lparr>dl_Content := Some ''Hi''\<rparr>, zero_chat_delta\<lparr>dl_ReasoningContent := Some ''so''\<rparr>])
      (NewChatCompletionsToResponsesStreamState ''id'' 0 demo_names ''m'')))) = None"
  by code_simp

text \<open>The refusal of an upstream is dropped: neither the stream nor the whole response depends on it.\<close>

theorem refusal_dropped:
  "choice_events lib (choice\<lparr>ch_Delta := (ch_Delta choice)\<lparr>dl_Refusal := r\<rparr>\<rparr>) = choice_events lib choice
   \<and> chatMessageToResponsesOutput lib tn ids (message\<lparr>cm_Refusal := t\<rparr>) = chatMessageToResponsesOutput lib tn ids message"
  by (simp add: choice_events_def Let_def delta_reasoningText_def chatMessageToResponsesOutput_def message_reasoningText_def split: option.split)

end
