(* ===== verification/Chat_Stream_Equivalence.thy ===== *)
theory Chat_Stream_Equivalence
  imports Chat_Stream_Protocol
begin

text \<open>
  The stream of Responses events that the bridge makes of chat chunks ends with the same response that
  the conversion of the whole completion gives, up to the random identifiers of the items. The state of
  the converter mirrors what a client assembles from the chunks, call by call.
\<close>

section \<open>What the output depends on\<close>

text \<open>The fields of the state that the final output depends on.\<close>

record c2r_view =
  vw_tools :: tool_names
  vw_text :: string
  vw_reasoning :: string
  vw_message :: bool
  vw_calls :: "(int, ChatToolCall) gomap"
  vw_custom :: "(int, bool) gomap"
  vw_search :: "(int, bool) gomap"
  vw_namespace :: "(int, NamespacedToolName) gomap"
  vw_announced :: "(int, bool) gomap"
  vw_finish :: string
  vw_sent :: bool

definition view :: "c2r_state \<Rightarrow> c2r_view" where
  "view s = \<lparr>vw_tools = cs_Tools s, vw_text = cs_Text s, vw_reasoning = cs_Reasoning s, vw_message = used_m s, vw_calls = cs_ToolCalls s,
     vw_custom = cs_toolIsCustom s, vw_search = cs_toolIsToolSearch s, vw_namespace = cs_toolNamespace s, vw_announced = cs_toolAnnounced s,
     vw_finish = cs_FinishReason s, vw_sent = cs_CompletedSent s\<rparr>"

lemma view_emit [simp]: "view (fst (emit ts s)) = view s"
  by (simp add: emit_state view_def used_m_def)

lemma fst_then_do: "fst (then_do f g s) = fst (g (fst (f s)))"
  by (simp add: then_do_def split_def Let_def)

lemma view_created [simp]: "view (fst (ensureChatToResponsesCreated s)) = view s"
  by (simp add: ensureChatToResponsesCreated_def view_def emit_state used_m_def)

lemma view_close_reasoning [simp]: "view (fst (closeChatReasoningItem s)) = view s"
  by (simp add: closeChatReasoningItem_def Let_def view_def emit_state used_m_def)

lemma view_header [simp]: "view (chunk_header chunk s) = view s"
  by (simp add: chunk_header_def Let_def view_def used_m_def)

lemma view_close_message [simp]: "view (fst (close_message s)) = view s"
  by (simp add: close_message_def Let_def view_def emit_state used_m_def)

lemma view_delta_reasoning: "view (fst (delta_reasoning lib r s)) = (view s)\<lparr>vw_reasoning := cs_Reasoning s @ r\<rparr>"
  by (simp add: delta_reasoning_def fst_then_do ensureChatReasoningItem_def Let_def view_def emit_state used_m_def)

lemma view_delta_content: "view (fst (delta_content lib t s)) = (view s)\<lparr>vw_text := cs_Text s @ t, vw_message := used_m s \<or> t \<noteq> ''''\<rparr>"
  by (simp add: delta_content_def fst_then_do ensureChatToResponsesMessageItem_def ensureChatToResponsesTextPart_def closeChatReasoningItem_def Let_def view_def
      emit_state used_m_def)

lemma view_set_finish: "view (fst (set_finish r s)) = (view s)\<lparr>vw_finish := (case r of Some f \<Rightarrow> (if f \<noteq> '''' then f else cs_FinishReason s) | None \<Rightarrow> cs_FinishReason s)\<rparr>"
  by (simp add: set_finish_def view_def used_m_def split: option.split)

lemma view_fields:
  assumes "view s = v"
  shows "cs_Tools s = vw_tools v" "cs_Text s = vw_text v" "cs_Reasoning s = vw_reasoning v" "used_m s = vw_message v" "cs_ToolCalls s = vw_calls v"
    "cs_toolIsCustom s = vw_custom v" "cs_toolIsToolSearch s = vw_search v" "cs_toolNamespace s = vw_namespace v" "cs_toolAnnounced s = vw_announced v"
    "cs_FinishReason s = vw_finish v" "cs_CompletedSent s = vw_sent v"
  using assms by (auto simp: view_def)

section \<open>Names\<close>

definition renamed :: "bridge_lib \<Rightarrow> tool_names \<Rightarrow> string \<Rightarrow> string" where
  "renamed lib tn name = (case custom_name lib tn name of Some n \<Rightarrow> n | None \<Rightarrow> name)"

definition request_names :: "bridge_lib \<Rightarrow> ResponsesTool list \<Rightarrow> tool_names" where
  "request_names lib tools = \<lparr>tn_custom = CustomToolNames tools, tn_functions = FunctionToolNames tools, tn_search = HasToolSearchTool tools,
     tn_namespaces = NamespaceToolNames (br_tools lib) tools\<rparr>"

text \<open>A name that was restored is not taken for anything else later.\<close>

definition names_stable :: "bridge_lib \<Rightarrow> tool_names \<Rightarrow> bool" where
  "names_stable lib tn \<longleftrightarrow> (\<forall>name n. custom_name lib tn name = Some n \<longrightarrow> custom_name lib tn n = Some n)"

lemma alias_loop_member: "alias_loop lib name ps found = Some n \<Longrightarrow> n = found \<or> n \<in> fst ` set ps"
  by (induction ps arbitrary: found) (auto split: if_splits)

lemma request_names_stable:
  assumes "responsesToolsToChatTools (br_tools lib) tools = Inr out"
  shows "names_stable lib (request_names lib tools)"
  unfolding names_stable_def
proof (intro allI impI)
  fix name n
  let ?tn = "request_names lib tools"
  assume c: "custom_name lib ?tn name = Some n"
  have "gm_getd False (CustomToolNames tools) n"
  proof (cases "gm_getd False (CustomToolNames tools) name")
    case True
    with c show ?thesis by (auto simp: custom_name_def request_names_def customToolCallName_def split: if_splits)
  next
    case False
    with c have "alias_loop (br_tools lib) name (alias_pairs (CustomToolNames tools) (NamespaceToolNames (br_tools lib) tools)) '''' = Some n" "n \<noteq> ''''"
      by (auto simp: custom_name_def request_names_def customToolCallName_def split: if_splits option.splits)
    from alias_loop_member [OF this(1)] this(2) have "n \<in> fst ` set (CustomToolNames tools)" by (auto simp: set_alias_pairs split: if_splits)
    moreover have "gm_ok m \<Longrightarrow> (\<forall>v \<in> snd ` set m. v) \<Longrightarrow> n \<in> fst ` set m \<Longrightarrow> gm_getd False m n" for m
      using gm_get_None [of m n] gm_get_SomeD [of m n] by (cases "gm_get m n") (force simp: gm_getd_def)+
    moreover have "gm_ok (CustomToolNames tools) \<and> (\<forall>v \<in> snd ` set (CustomToolNames tools). v)"
    proof -
      have put: "snd ` set (gm_put k True m) \<subseteq> insert True (snd ` set m)" for k and m :: "(string, bool) gomap"
        unfolding gm_put_def by (induction m) auto
      have step: "gm_ok (gm_put k True m) \<and> (\<forall>v \<in> snd ` set (gm_put k True m). v)" if "gm_ok m \<and> (\<forall>v \<in> snd ` set m. v)" for k and m :: "(string, bool) gomap"
        using that put [of k m] by auto
      show ?thesis unfolding CustomToolNames_def
        by (rule fold_invariant [where Q = "\<lambda>_. True"]) (use step in \<open>simp_all split: if_split\<close>)
    qed
    ultimately show ?thesis by blast
  qed
  moreover from this obtain t where t: "t \<in> set tools" "rt_Type t = ''custom''" "rt_Name t = n" "n \<noteq> ''''" by (auto simp: CustomToolNames_iff)
  obtain topLevel where top: "top_level_names tools [] [] = Inr topLevel" using lowering_ok [OF assms] by metis
  have "\<not> gm_getd False (FunctionToolNames tools) n"
  proof
    assume "gm_getd False (FunctionToolNames tools) n"
    then obtain u where u: "u \<in> set tools" "rt_Type u = ''function''" "rt_Name u = n" by (auto simp: FunctionToolNames_iff)
    have "top_tool t" "top_tool u" using t u by (simp_all add: top_tool_def)
    with top_level_names_ok(4) [OF top t(1) _ u(1)] t u show False by simp
  qed
  ultimately show "custom_name lib ?tn n = Some n" by (simp add: custom_name_def request_names_def customToolCallName_def)
qed

section \<open>The state mirrors the client\<close>

definition stored_of :: "bridge_lib \<Rightarrow> tool_names \<Rightarrow> nat \<Rightarrow> ChatToolCall \<Rightarrow> ChatToolCall" where
  "stored_of lib tn i c = \<lparr>tc_Index = Some (int i), tc_ID = tc_ID c, tc_Type = ''function'',
     tc_Function = \<lparr>cf_Name = renamed lib tn (cf_Name (tc_Function c)), cf_Arguments = cf_Arguments (tc_Function c)\<rparr>\<rparr>"

definition stored_calls :: "bridge_lib \<Rightarrow> tool_names \<Rightarrow> ChatToolCall list \<Rightarrow> (int, ChatToolCall) gomap" where
  "stored_calls lib tn cs = map (\<lambda>i. (int i, stored_of lib tn i (cs ! i))) [0..<length cs]"

definition is_search :: "bridge_lib \<Rightarrow> tool_names \<Rightarrow> string \<Rightarrow> bool" where
  "is_search lib tn name \<longleftrightarrow> custom_name lib tn name = None \<and> tn_search tn \<and> name = toolSearchProxyName"

definition namespace_of :: "bridge_lib \<Rightarrow> tool_names \<Rightarrow> string \<Rightarrow> NamespacedToolName option" where
  "namespace_of lib tn name = (if custom_name lib tn name \<noteq> None \<or> is_search lib tn name then None else gm_get (tn_namespaces tn) name)"

definition call_name :: "ChatToolCall \<Rightarrow> string" where "call_name c = cf_Name (tc_Function c)"

definition mirrors :: "bridge_lib \<Rightarrow> tool_names \<Rightarrow> c2r_view \<Rightarrow> chat_parts \<Rightarrow> bool" where
  "mirrors lib tn v p \<longleftrightarrow> \<not> vw_sent v \<and> vw_tools v = tn \<and> vw_text v = pt_content p \<and> vw_reasoning v = pt_reasoning p \<and> (vw_message v \<longleftrightarrow> pt_content p \<noteq> '''')
     \<and> vw_calls v = stored_calls lib tn (pt_calls p)
     \<and> (\<forall>k. gm_getd False (vw_announced v) k \<longleftrightarrow> 0 \<le> k \<and> nat k < length (pt_calls p))
     \<and> (\<forall>i < length (pt_calls p). gm_getd False (vw_custom v) (int i) = (custom_name lib tn (call_name (pt_calls p ! i)) \<noteq> None)
         \<and> gm_getd False (vw_search v) (int i) = is_search lib tn (call_name (pt_calls p ! i))
         \<and> gm_get (vw_namespace v) (int i) = namespace_of lib tn (call_name (pt_calls p ! i)))
     \<and> (\<forall>k. int (length (pt_calls p)) \<le> k \<longrightarrow> gm_get (vw_namespace v) k = None)"

lemma stored_calls_get:
  "gm_get (stored_calls lib tn cs) k = (if 0 \<le> k \<and> nat k < length cs then Some (stored_of lib tn (nat k) (cs ! nat k)) else None)"
proof (cases "0 \<le> k \<and> nat k < length cs")
  case True
  then have "(k, stored_of lib tn (nat k) (cs ! nat k)) \<in> set (stored_calls lib tn cs)"
    unfolding stored_calls_def by (auto simp: image_iff intro!: bexI [of _ "nat k"])
  moreover have "gm_ok (stored_calls lib tn cs)" by (simp add: gm_ok_def stored_calls_def comp_def distinct_map inj_on_def)
  ultimately show ?thesis using True by (simp add: gm_get_eq_Some)
next
  case False
  then have "k \<notin> fst ` set (stored_calls lib tn cs)" by (auto simp: stored_calls_def)
  then show ?thesis using False gm_get_None [of "stored_calls lib tn cs" k] by simp
qed

lemma stored_calls_put_new:
  "gm_put (int (length cs)) (stored_of lib tn (length cs) c) (stored_calls lib tn cs) = stored_calls lib tn (cs @ [c])"
proof -
  have "k \<notin> fst ` set m \<Longrightarrow> gm_put k v m = m @ [(k, v)]" for k and v :: ChatToolCall and m
    unfolding gm_put_def by (induction m) auto
  moreover have "int (length cs) \<notin> fst ` set (stored_calls lib tn cs)" by (auto simp: stored_calls_def)
  moreover have "stored_calls lib tn (cs @ [c]) = stored_calls lib tn cs @ [(int (length cs), stored_of lib tn (length cs) c)]"
    by (simp add: stored_calls_def nth_append)
  ultimately show ?thesis by simp
qed

lemma stored_calls_put:
  assumes "i < length cs"
  shows "gm_put (int i) (stored_of lib tn i c) (stored_calls lib tn cs) = stored_calls lib tn (cs[i := c])"
proof -
  have upd: "i < length m \<Longrightarrow> map fst m = map int [n..<n + length m] \<Longrightarrow> gm_put (int (n + i)) v m = m[i := (int (n + i), v)]" for i n and v :: ChatToolCall and m
    unfolding gm_put_def
  proof (induction m arbitrary: i n)
    case (Cons a m)
    then have a: "fst a = int n" "map fst m = map int [Suc n..<Suc n + length m]" by (auto simp: upt_rec)
    show ?case
    proof (cases i)
      case 0
      then show ?thesis using a(1) by (cases a) simp
    next
      case (Suc j)
      then show ?thesis using Cons.IH [of j "Suc n"] Cons.prems(1) a by (cases a) simp
    qed
  qed simp
  have "gm_put (int i) (stored_of lib tn i c) (stored_calls lib tn cs) = (stored_calls lib tn cs)[i := (int i, stored_of lib tn i c)]"
    using upd [where n = 0 and i = i and m = "stored_calls lib tn cs"] assms by (simp add: stored_calls_def comp_def)
  also have "\<dots> = stored_calls lib tn (cs[i := c])"
    using assms by (intro nth_equalityI) (auto simp: stored_calls_def nth_list_update)
  finally show ?thesis .
qed

lemma stored_calls_same: "i < length cs \<Longrightarrow> gm_put (int i) (stored_of lib tn i (cs ! i)) (stored_calls lib tn cs) = stored_calls lib tn cs"
  using stored_calls_put [of i cs lib tn "cs ! i"] by simp

lemma sorted_stored: "sortedChatToolCallIndexes (stored_calls lib tn cs) = map int [0..<length cs]"
proof -
  have "map fst (stored_calls lib tn cs) = map int [0..<length cs]" by (simp add: stored_calls_def comp_def)
  moreover have "sorted (map int [0..<length cs])" by (simp add: sorted_map sorted_wrt_iff_nth_less)
  ultimately show ?thesis by (simp add: sortedChatToolCallIndexes_def sort_key_id_if_sorted)
qed

subsection \<open>Calls\<close>

text \<open>The deltas of a well-behaved upstream: the first delta of a call carries its identifier and name, the
  others only arguments.\<close>

definition whole_names :: "ChatToolCall \<Rightarrow> bool" where
  "whole_names t \<longleftrightarrow> (if tc_Type t = ''function'' then tc_ID t \<noteq> '''' \<and> call_name t \<noteq> '''' else tc_ID t = '''' \<and> call_name t = '''')"

lemma renamed_stable: "names_stable lib tn \<Longrightarrow> custom_name lib tn (renamed lib tn name) = map_option (\<lambda>_. renamed lib tn name) (custom_name lib tn name)"
  by (auto simp: names_stable_def renamed_def split: option.split)

lemma rename_stored: "names_stable lib tn \<Longrightarrow> rename_custom lib tn (stored_of lib tn i c) = stored_of lib tn i c"
  by (simp add: rename_custom_def stored_of_def renamed_stable set_name_def split: option.split)

lemma renamed_search: "custom_name lib tn name = None \<Longrightarrow> renamed lib tn name = name"
  by (simp add: renamed_def)

text \<open>A later delta: the stored call is written back unchanged before its arguments are extended.\<close>

lemma delta_call_old:
  assumes "names_stable lib tn" "mirrors lib tn (view s) p" "tc_Index t = Some (int i)" "i < length (pt_calls p)" "tc_ID t = ''''" "call_name t = ''''"
  shows "mirrors lib tn (view (fst (delta_call lib t s))) (p\<lparr>pt_calls := client_call (pt_calls p) t\<rparr>)"
proof -
  let ?c = "pt_calls p ! i"
  have calls: "cs_ToolCalls s = stored_calls lib tn (pt_calls p)" "cs_Tools s = tn" "gm_getd False (cs_toolAnnounced s) (int i)"
    using assms(2,4) by (simp_all add: mirrors_def view_def)
  have get: "gm_get (cs_ToolCalls s) (int i) = Some (stored_of lib tn i ?c)" using calls(1) assms(4) by (simp add: stored_calls_get)
  have same: "put_call (int i) (stored_of lib tn i ?c) s = s"
    using calls(1) assms(4) by (simp add: put_call_def stored_calls_same)
  have "open_call lib (int i) t s = (s, [])"
    using get assms(5,6) same by (simp add: open_call_def call_name_def)
  moreover have "announce_call lib (int i) s = (s, [])"
    using get calls assms(1) same by (simp add: announce_call_def announceChatToolItem_def stored_call_def gm_getd_def rename_stored)
  ultimately have state: "fst (delta_call lib t s) = fst (append_call_arguments (int i) (cf_Arguments (tc_Function t)) s)"
    by (simp add: delta_call_def Let_def assms(3) fst_then_do)
  define d where "d = cf_Arguments (tc_Function t)"
  have client: "client_call (pt_calls p) t = (pt_calls p)[i := function_call (tc_ID ?c) (call_name ?c) (cf_Arguments (tc_Function ?c) @ d)]"
    using assms(3-6) by (simp add: client_call_def merge_call_def call_name_def d_def)
  have "add_arguments d (stored_of lib tn i ?c) = stored_of lib tn i (function_call (tc_ID ?c) (call_name ?c) (cf_Arguments (tc_Function ?c) @ d))"
    by (simp add: add_arguments_def stored_of_def function_call_def call_name_def)
  then have put: "gm_put (int i) (add_arguments d (stored_of lib tn i ?c)) (cs_ToolCalls s) = stored_calls lib tn (client_call (pt_calls p) t)"
    using assms(4) by (simp add: calls(1) stored_calls_put client)
  have "view (fst (append_call_arguments (int i) d s)) = (view s)\<lparr>vw_calls := stored_calls lib tn (client_call (pt_calls p) t)\<rparr>"
  proof (cases "d = ''''")
    case True
    then have "add_arguments d (stored_of lib tn i ?c) = stored_of lib tn i ?c" by (simp add: add_arguments_def)
    with put have "stored_calls lib tn (client_call (pt_calls p) t) = gm_put (int i) (stored_of lib tn i ?c) (cs_ToolCalls s)" by simp
    also have "\<dots> = cs_ToolCalls s" unfolding calls(1) by (rule stored_calls_same [OF assms(4)])
    finally have "stored_calls lib tn (client_call (pt_calls p) t) = stored_calls lib tn (pt_calls p)" by (simp only: calls(1))
    then show ?thesis using True calls(1) by (simp add: append_call_arguments_def view_def)
  next
    case False
    then show ?thesis using put get by (simp add: append_call_arguments_def Let_def view_def put_call_def emit_state used_m_def stored_call_def gm_getd_def)
  qed
  moreover have "length (client_call (pt_calls p) t) = length (pt_calls p)" "call_name (client_call (pt_calls p) t ! j) = call_name (pt_calls p ! j)"
    if "j < length (pt_calls p)" for j
    using that assms(4) by (auto simp: client function_call_def call_name_def nth_list_update)
  ultimately show ?thesis using assms(2,4) unfolding state d_def [symmetric] mirrors_def by (simp add: client)
qed

lemma gm_put_put: "gm_put k v (gm_put k w m) = gm_put k v m"
  unfolding gm_put_def by (induction m) auto

lemma mirrors_add:
  assumes "mirrors lib tn (view s) p" "gm_get (cs_toolNamespace s) (int n) = None" "n = length (pt_calls p)" "call_name c = name"
  shows "mirrors lib tn ((view s)\<lparr>vw_calls := stored_calls lib tn (pt_calls p @ [c]), vw_announced := gm_put (int n) True (cs_toolAnnounced s),
      vw_custom := gm_put (int n) (custom_name lib tn name \<noteq> None) (cs_toolIsCustom s), vw_search := gm_put (int n) (is_search lib tn name) (cs_toolIsToolSearch s),
      vw_namespace := (case namespace_of lib tn name of Some x \<Rightarrow> gm_put (int n) x (cs_toolNamespace s) | None \<Rightarrow> cs_toolNamespace s)\<rparr>)
    (p\<lparr>pt_calls := pt_calls p @ [c]\<rparr>)"
proof -
  let ?ns = "case namespace_of lib tn name of Some x \<Rightarrow> gm_put (int n) x (cs_toolNamespace s) | None \<Rightarrow> cs_toolNamespace s"
  have ns: "gm_get ?ns k = (if k = int n then namespace_of lib tn name else gm_get (cs_toolNamespace s) k)" for k
    using assms(2) by (simp split: option.split)
  have old: "\<not> cs_CompletedSent s" "cs_Tools s = tn" "cs_Text s = pt_content p" "cs_Reasoning s = pt_reasoning p" "used_m s \<longleftrightarrow> pt_content p \<noteq> ''''"
    "\<And>k. gm_getd False (cs_toolAnnounced s) k \<longleftrightarrow> 0 \<le> k \<and> nat k < n"
    "\<And>i. i < n \<Longrightarrow> gm_getd False (cs_toolIsCustom s) (int i) = (custom_name lib tn (call_name (pt_calls p ! i)) \<noteq> None)
       \<and> gm_getd False (cs_toolIsToolSearch s) (int i) = is_search lib tn (call_name (pt_calls p ! i))
       \<and> gm_get (cs_toolNamespace s) (int i) = namespace_of lib tn (call_name (pt_calls p ! i))"
    "\<And>k. int n \<le> k \<Longrightarrow> gm_get (cs_toolNamespace s) k = None"
    using assms(1,3) by (simp_all add: mirrors_def view_def)
  show ?thesis unfolding mirrors_def
    using old assms(3,4) by (auto simp: view_def ns nth_append less_Suc_eq)
qed

text \<open>The first delta of a call: it is stored, announced and filled in one go.\<close>

lemma delta_call_new:
  assumes "names_stable lib tn" "mirrors lib tn (view s) p" "tc_Index t = Some (int (length (pt_calls p)))" "tc_ID t \<noteq> ''''" "call_name t \<noteq> ''''"
  shows "mirrors lib tn (view (fst (delta_call lib t s))) (p\<lparr>pt_calls := client_call (pt_calls p) t\<rparr>)"
proof -
  define n where "n = length (pt_calls p)"
  define k where "k = int n"
  define name where "name = call_name t"
  define c0 where "c0 = stored_of lib tn n (function_call (tc_ID t) name '''')"
  define c where "c = function_call (tc_ID t) name (cf_Arguments (tc_Function t))"
  have calls: "cs_ToolCalls s = stored_calls lib tn (pt_calls p)" "cs_Tools s = tn" "\<not> gm_getd False (cs_toolAnnounced s) k"
    "gm_get (cs_toolNamespace s) k = None"
    using assms(2) by (simp_all add: mirrors_def view_def k_def n_def)
  have get: "gm_get (cs_ToolCalls s) k = None" using calls(1) by (simp add: stored_calls_get k_def n_def)
  define s1 where "s1 = fst (open_call lib k t s)"
  have s1: "view s1 = (view s)\<lparr>vw_calls := gm_put k (t\<lparr>tc_Type := ''function'', tc_Function := (tc_Function t)\<lparr>cf_Arguments := ''''\<rparr>\<rparr>) (cs_ToolCalls s)\<rparr>"
    using get view_close_reasoning [of s] by (simp add: s1_def open_call_def split_def Let_def put_call_def view_def used_m_def)
  have s1_fields: "cs_Tools s1 = tn" "\<not> gm_getd False (cs_toolAnnounced s1) k"
      "stored_call k s1 = t\<lparr>tc_Type := ''function'', tc_Function := (tc_Function t)\<lparr>cf_Arguments := ''''\<rparr>\<rparr>"
    using view_fields [OF s1] calls(2,3) by (simp_all add: view_def stored_call_def)
  have c0: "rename_custom lib tn (stored_call k s1) = c0"
    using assms(3) by (simp add: s1_fields(3) rename_custom_def c0_def stored_of_def renamed_def set_name_def function_call_def name_def call_name_def n_def split: option.split)
  have c0_fields: "tc_ID c0 \<noteq> ''''" "cf_Name (tc_Function c0) = renamed lib tn name" "cf_Arguments (tc_Function c0) = ''''" "rename_custom lib tn c0 = c0"
    using assms(4) rename_stored [OF assms(1)] by (simp_all add: c0_def) (simp_all add: stored_of_def function_call_def)
  have named: "renamed lib tn name \<noteq> ''''"
  proof (cases "custom_name lib tn name")
    case None
    then show ?thesis using assms(5) by (simp add: renamed_def name_def)
  next
    case (Some n)
    then have "custom_name lib tn n = Some n" using assms(1) by (auto simp: names_stable_def)
    then show ?thesis using Some assms(5) unfolding renamed_def name_def custom_name_def customToolCallName_def
      by (auto split: if_splits option.splits)
  qed
  define s2 where "s2 = fst (announce_call lib k s1)"
  have flags: "custom_name lib tn (renamed lib tn name) \<noteq> None \<longleftrightarrow> custom_name lib tn name \<noteq> None"
    "custom_name lib tn name = None \<and> tn_search tn \<and> renamed lib tn name = toolSearchProxyName \<longleftrightarrow> is_search lib tn name"
    "(if custom_name lib tn name \<noteq> None \<or> is_search lib tn name then None else gm_get (tn_namespaces tn) (renamed lib tn name)) = namespace_of lib tn name"
    using renamed_stable [OF assms(1)] by (auto simp: is_search_def namespace_of_def renamed_search)
  have s2: "view s2 = (view s1)\<lparr>vw_calls := gm_put k c0 (cs_ToolCalls s1), vw_announced := gm_put k True (cs_toolAnnounced s1),
      vw_custom := gm_put k (custom_name lib tn name \<noteq> None) (cs_toolIsCustom s1), vw_search := gm_put k (is_search lib tn name) (cs_toolIsToolSearch s1),
      vw_namespace := (case namespace_of lib tn name of Some x \<Rightarrow> gm_put k x (cs_toolNamespace s1) | None \<Rightarrow> cs_toolNamespace s1)\<rparr>"
    using s1_fields(2) c0_fields named unfolding s2_def announce_call_def s1_fields(1) c0 announceChatToolItem_def Let_def
    by (simp only: if_False simp_thms s1_fields(1) c0_fields flags emit_state view_def used_m_def put_call_def) (simp add: s1_fields(1))
  define d where "d = cf_Arguments (tc_Function t)"
  have s3: "view (fst (append_call_arguments k d s2)) = (view s2)\<lparr>vw_calls := gm_put k (add_arguments d c0) (cs_ToolCalls s2)\<rparr>"
  proof (cases "d = ''''")
    case True
    have "cs_ToolCalls s2 = gm_put k c0 (cs_ToolCalls s1)" using view_fields(5) [OF s2] by simp
    moreover have "add_arguments '''' c0 = c0" by (simp add: add_arguments_def)
    ultimately show ?thesis using True by (simp add: append_call_arguments_def view_def gm_put_put)
  next
    case False
    have "stored_call k s2 = c0" using view_fields(5) [OF s2] by (simp add: stored_call_def)
    then show ?thesis using False by (simp add: append_call_arguments_def Let_def view_def put_call_def emit_state used_m_def)
  qed
  have state: "fst (delta_call lib t s) = fst (append_call_arguments k d s2)"
    using assms(3) by (simp add: delta_call_def Let_def fst_then_do s1_def s2_def k_def n_def d_def)
  have "add_arguments d c0 = stored_of lib tn n c" by (simp add: add_arguments_def c0_def c_def stored_of_def function_call_def d_def)
  then have put: "gm_put k (add_arguments d c0) (cs_ToolCalls s2) = stored_calls lib tn (pt_calls p @ [c])"
    using view_fields(5) [OF s2] view_fields(5) [OF s1] stored_calls_put_new [of "pt_calls p" lib tn c] calls(1)
    by (simp add: gm_put_put view_def k_def n_def)
  have client: "client_call (pt_calls p) t = pt_calls p @ [c]" using assms(3) by (simp add: client_call_def c_def name_def call_name_def)
  have final: "view (fst (delta_call lib t s)) = (view s)\<lparr>vw_calls := stored_calls lib tn (pt_calls p @ [c]), vw_announced := gm_put k True (cs_toolAnnounced s),
      vw_custom := gm_put k (custom_name lib tn name \<noteq> None) (cs_toolIsCustom s), vw_search := gm_put k (is_search lib tn name) (cs_toolIsToolSearch s),
      vw_namespace := (case namespace_of lib tn name of Some x \<Rightarrow> gm_put k x (cs_toolNamespace s) | None \<Rightarrow> cs_toolNamespace s)\<rparr>"
    unfolding state s3 put s2 using view_fields(1-4,6-11) [OF s1] by (simp add: view_def split: option.split)
  show ?thesis unfolding final client using assms(2) calls(4) by (rule mirrors_add [where name = name and n = n, folded k_def]) (simp_all add: n_def c_def function_call_def call_name_def)
qed

subsection \<open>Chunks\<close>

definition whole_chunk :: "ChatCompletionsChunk \<Rightarrow> bool" where
  "whole_chunk chunk = list_all (\<lambda>ch. list_all whole_names (dl_ToolCalls (ch_Delta ch))) (ck_Choices chunk)"

definition merge_finish :: "string \<Rightarrow> string list \<Rightarrow> string" where
  "merge_finish = foldl (\<lambda>f r. if r \<noteq> '''' then r else f)"

lemma mirrors_plain:
  assumes "mirrors lib tn v p"
  shows "mirrors lib tn (v\<lparr>vw_reasoning := vw_reasoning v @ r\<rparr>) (p\<lparr>pt_reasoning := pt_reasoning p @ r\<rparr>)"
    and "mirrors lib tn (v\<lparr>vw_text := vw_text v @ t, vw_message := vw_message v \<or> t \<noteq> ''''\<rparr>) (p\<lparr>pt_content := pt_content p @ t\<rparr>)"
    and "mirrors lib tn (v\<lparr>vw_finish := f\<rparr>) p" "mirrors lib tn v (p\<lparr>pt_refusal := x\<rparr>)"
  using assms unfolding mirrors_def by simp_all

lemma delta_calls_finish: "cs_FinishReason (fst (delta_calls lib ts s)) = cs_FinishReason s"
proof (induction ts arbitrary: s)
  case (Cons t ts)
  have "cs_FinishReason (fst (open_call lib k t s)) = cs_FinishReason s" for k s
    using view_fields(10) [OF view_close_reasoning [of s]] by (simp add: open_call_def split_def Let_def put_call_def view_def split: option.split)
  moreover have "cs_FinishReason (fst (announce_call lib k s)) = cs_FinishReason s" for k s
    by (simp add: announce_call_def announceChatToolItem_def Let_def emit_state put_call_def)
  moreover have "cs_FinishReason (fst (append_call_arguments k d s)) = cs_FinishReason s" for k d s
    by (simp add: append_call_arguments_def Let_def emit_state put_call_def)
  ultimately have "cs_FinishReason (fst (delta_call lib t s)) = cs_FinishReason s" by (simp add: delta_call_def Let_def fst_then_do)
  with Cons.IH show ?case by (simp add: fst_then_do)
qed simp

text \<open>One choice, as the monitor of a chat stream accepts it: at most one call.\<close>

lemma choice_mirrors:
  assumes "names_stable lib tn" "mirrors lib tn (view s) p" "list_all whole_names (dl_ToolCalls (ch_Delta ch))"
    and "call_ok (length (pt_calls p)) (dl_ToolCalls (ch_Delta ch)) = Some n"
  shows "mirrors lib tn (view (fst (choice_events lib ch s))) (client_choice p ch) \<and> length (pt_calls (client_choice p ch)) = n
    \<and> cs_FinishReason (fst (choice_events lib ch s)) = (case ch_FinishReason ch of Some f \<Rightarrow> (if f \<noteq> '''' then f else cs_FinishReason s) | None \<Rightarrow> cs_FinishReason s)"
proof -
  define d where "d = ch_Delta ch"
  define s1 where "s1 = fst (delta_content lib (opt_text (dl_Content d)) (fst (delta_reasoning lib (opt_text (delta_reasoningText d)) s)))"
  define p1 where "p1 = p\<lparr>pt_reasoning := pt_reasoning p @ opt_text (delta_reasoningText d), pt_content := pt_content p @ opt_text (dl_Content d),
      pt_refusal := pt_refusal p @ opt_text (dl_Refusal d)\<rparr>"
  have s1: "view s1 = (view s)\<lparr>vw_reasoning := vw_reasoning (view s) @ opt_text (delta_reasoningText d),
      vw_text := vw_text (view s) @ opt_text (dl_Content d), vw_message := vw_message (view s) \<or> opt_text (dl_Content d) \<noteq> ''''\<rparr>"
    using view_fields(2,4) [OF view_delta_reasoning [of lib "opt_text (delta_reasoningText d)" s]]
    by (simp add: s1_def view_delta_content view_delta_reasoning) (simp add: view_def)
  have m1: "mirrors lib tn (view s1) p1" unfolding s1 p1_def
    using mirrors_plain(4) [OF mirrors_plain(2) [OF mirrors_plain(1) [OF assms(2)]]] by simp
  have len: "length (pt_calls p1) = length (pt_calls p)" "pt_calls p1 = pt_calls p" by (simp_all add: p1_def)
  define s2 where "s2 = fst (delta_calls lib (dl_ToolCalls d) s1)"
  have "mirrors lib tn (view s2) (p1\<lparr>pt_calls := foldl client_call (pt_calls p1) (dl_ToolCalls d)\<rparr>) \<and> length (foldl client_call (pt_calls p1) (dl_ToolCalls d)) = n"
  proof (cases "dl_ToolCalls d")
    case Nil
    then show ?thesis using m1 assms(4) by (simp add: s2_def d_def [symmetric] call_ok_def p1_def)
  next
    case (Cons t ts)
    then have t: "ts = []" "whole_names t" using assms(3,4) by (auto simp: d_def [symmetric] call_ok_def split: list.splits)
    have step: "s2 = fst (delta_call lib t s1)" by (simp add: s2_def Cons t(1) fst_then_do)
    show ?thesis
    proof (cases "tc_Type t = ''function''")
      case True
      then have new: "tc_Index t = Some (int (length (pt_calls p1)))" "tc_ID t \<noteq> ''''" "call_name t \<noteq> ''''" "n = Suc (length (pt_calls p))"
        using assms(4) t Cons by (auto simp: d_def [symmetric] call_ok_def whole_names_def len split: if_splits)
      from delta_call_new [OF assms(1) m1 new(1-3)] show ?thesis
        using new(1,4) by (simp add: step Cons t(1) client_call_def len)
    next
      case False
      then obtain i where old: "tc_Index t = Some (int i)" "i < length (pt_calls p1)" "tc_ID t = ''''" "call_name t = ''''" "n = length (pt_calls p)"
        using assms(4) t Cons by (auto simp: d_def [symmetric] call_ok_def whole_names_def len split: if_splits option.splits) (metis nat_less_iff nonneg_int_cases of_nat_less_iff)
      from delta_call_old [OF assms(1) m1 old(1-4)] show ?thesis
        using old by (simp add: step Cons t(1) client_call_def len)
    qed
  qed
  moreover have "client_choice p ch = p1\<lparr>pt_calls := foldl client_call (pt_calls p1) (dl_ToolCalls d)\<rparr>"
    by (simp add: client_choice_def p1_def d_def Let_def)
  moreover have "fst (choice_events lib ch s) = fst (set_finish (ch_FinishReason ch) s2)"
    by (simp add: choice_events_def Let_def fst_then_do d_def s1_def s2_def)
  moreover have "cs_FinishReason s2 = cs_FinishReason s"
    using view_fields(10) [OF s1] by (simp add: s2_def delta_calls_finish) (simp add: view_def)
  moreover have "view (fst (set_finish (ch_FinishReason ch) s2)) = (view s2)\<lparr>vw_finish := cs_FinishReason (fst (set_finish (ch_FinishReason ch) s2))\<rparr>"
    "cs_FinishReason (fst (set_finish (ch_FinishReason ch) s2)) = (case ch_FinishReason ch of Some f \<Rightarrow> (if f \<noteq> '''' then f else cs_FinishReason s2) | None \<Rightarrow> cs_FinishReason s2)"
    by (simp_all add: set_finish_def view_def used_m_def split: option.split)
  ultimately show ?thesis using mirrors_plain(3) by (simp split: option.split)
qed

lemma chunk_mirrors:
  assumes "names_stable lib tn" "mirrors lib tn (view s) p" "whole_chunk chunk" "chat_mon m chunk = Some m'" "cn_calls m = length (pt_calls p)"
  shows "mirrors lib tn (view (fst (ChatCompletionsChunkToResponsesEvents lib chunk s))) (assemble p [chunk])
    \<and> cn_calls m' = length (pt_calls (assemble p [chunk]))
    \<and> cs_FinishReason (fst (ChatCompletionsChunkToResponsesEvents lib chunk s)) = merge_finish (cs_FinishReason s) (finish_reasons [chunk])"
proof -
  define s1 where "s1 = fst (ensureChatToResponsesCreated (chunk_header chunk s))"
  have s1: "view s1 = view s" by (simp add: s1_def)
  then have fin: "cs_FinishReason s1 = cs_FinishReason s" by (simp add: view_def)
  have run: "fst (ChatCompletionsChunkToResponsesEvents lib chunk s) = fst (choices_events lib (ck_Choices chunk) s1)"
    by (simp add: ChatCompletionsChunkToResponsesEvents_def fst_then_do s1_def)
  show ?thesis
  proof (cases "ck_Choices chunk")
    case Nil
    with assms s1 fin show ?thesis by (auto simp: run assemble_def finish_reasons_def map_filter_def merge_finish_def chat_mon_def split: if_splits)
  next
    case (Cons ch chs)
    with assms(4) have one: "chs = []" by (auto simp: chat_mon_def split: list.splits)
    obtain n where n: "call_ok (length (pt_calls p)) (dl_ToolCalls (ch_Delta ch)) = Some n" "cn_calls m' = n"
      using assms(4,5) Cons one by (auto simp: chat_mon_def call_ok_def [of _ "[]"] split: if_splits)
    have "list_all whole_names (dl_ToolCalls (ch_Delta ch))" using assms(3) Cons by (simp add: whole_chunk_def)
    from choice_mirrors [OF assms(1) _ this n(1), of s1] assms(2) s1 have
      c: "mirrors lib tn (view (fst (choice_events lib ch s1))) (client_choice p ch)" "length (pt_calls (client_choice p ch)) = n"
        "cs_FinishReason (fst (choice_events lib ch s1)) = (case ch_FinishReason ch of Some f \<Rightarrow> (if f \<noteq> '''' then f else cs_FinishReason s1) | None \<Rightarrow> cs_FinishReason s1)"
      by auto
    have "assemble p [chunk] = client_choice p ch" "finish_reasons [chunk] = (case ch_FinishReason ch of Some f \<Rightarrow> [f] | None \<Rightarrow> [])"
      using Cons one by (simp_all add: assemble_def finish_reasons_def map_filter_def split: option.split)
    with c n(2) show ?thesis using Cons one by (simp add: run fst_then_do merge_finish_def fin split: option.split)
  qed
qed

lemma assemble_Cons: "assemble p (c # cs) = assemble (assemble p [c]) cs"
  using assemble_append [of p "[c]" cs] by simp

lemma finish_Cons: "finish_reasons (c # cs) = finish_reasons [c] @ finish_reasons cs"
  using finish_append [of "[c]" cs] by simp

lemma run_mirrors:
  assumes "names_stable lib tn" "mirrors lib tn (view s) p" "list_all whole_chunk chunks" "accepts chat_mon m chunks = Some m'" "cn_calls m = length (pt_calls p)"
  shows "mirrors lib tn (view (fst (run_all (ChatCompletionsChunkToResponsesEvents lib) chunks s))) (assemble p chunks)
    \<and> cs_FinishReason (fst (run_all (ChatCompletionsChunkToResponsesEvents lib) chunks s)) = merge_finish (cs_FinishReason s) (finish_reasons chunks)"
  using assms(2-5)
proof (induction chunks arbitrary: s p m)
  case Nil
  then show ?case by (simp add: merge_finish_def)
next
  case (Cons c cs)
  then obtain m1 where m1: "chat_mon m c = Some m1" "accepts chat_mon m1 cs = Some m'" by (auto split: option.splits)
  have "whole_chunk c" "list_all whole_chunk cs" using Cons.prems(2) by simp_all
  note step = chunk_mirrors [OF assms(1) Cons.prems(1) \<open>whole_chunk c\<close> m1(1) Cons.prems(4)]
  from Cons.IH [OF conjunct1 [OF step] \<open>list_all whole_chunk cs\<close> m1(2)] step show ?case
    by (simp add: split_def assemble_Cons [of p c cs] finish_Cons [of c cs] merge_finish_def)
qed

section \<open>The output\<close>

definition strip_id :: "ResponsesOutput \<Rightarrow> ResponsesOutput" where
  "strip_id item = item\<lparr>ro_ID := ''''\<rparr>"

text \<open>The arguments of a call are blank or trimmed JSON, unless it calls a custom tool or the tool search.\<close>

definition good_arguments :: "bridge_lib \<Rightarrow> tool_names \<Rightarrow> ChatToolCall \<Rightarrow> bool" where
  "good_arguments lib tn c \<longleftrightarrow> (let args = cf_Arguments (tc_Function c) in
     trim_space args = '''' \<or> trim_space args = args \<and> (custom_name lib tn (call_name c) \<noteq> None \<or> is_search lib tn (call_name c) \<or> br_valid lib args))"

text \<open>The item of a call, whichever way it is converted.\<close>

definition item_of_call :: "bridge_lib \<Rightarrow> tool_names \<Rightarrow> string \<Rightarrow> ChatToolCall \<Rightarrow> ResponsesOutput" where
  "item_of_call lib tn itemID c =
     (let name = call_name c; arguments = default_arguments (cf_Arguments (tc_Function c)) in
      if custom_name lib tn name \<noteq> None then (call_item ''custom_tool_call'' itemID (tc_ID c))\<lparr>ro_Name := renamed lib tn name, ro_Input := extractCustomToolCallInput lib arguments\<rparr>
      else if is_search lib tn name then (call_item ''tool_search_call'' itemID (tc_ID c))\<lparr>ro_Arguments := arguments\<rparr>
      else case namespace_of lib tn name of
         Some ns \<Rightarrow> (call_item ''function_call'' itemID (tc_ID c))\<lparr>ro_Name := nt_Name ns, ro_Namespace := nt_Namespace ns, ro_Arguments := arguments\<rparr>
       | None \<Rightarrow> (call_item ''function_call'' itemID (tc_ID c))\<lparr>ro_Name := name, ro_Arguments := arguments\<rparr>)"

lemma item_of_call_strip: "strip_id (item_of_call lib tn itemID c) = item_of_call lib tn '''' c"
  by (simp add: item_of_call_def Let_def strip_id_def call_item_def split: option.split)

lemma message_call_item:
  assumes "good_arguments lib tn c" "br_valid lib ''{}''"
  shows "message_call lib tn itemID c = [item_of_call lib tn itemID c]"
proof -
  have valid: "custom_name lib tn (call_name c) = None \<Longrightarrow> \<not> is_search lib tn (call_name c) \<Longrightarrow> br_valid lib (default_arguments (cf_Arguments (tc_Function c)))"
    using assms by (auto simp: good_arguments_def default_arguments_def Let_def)
  show ?thesis
  proof (cases "custom_name lib tn (call_name c)")
    case (Some n)
    then show ?thesis by (simp add: message_call_def item_of_call_def Let_def call_name_def renamed_def)
  next
    case None
    show ?thesis
    proof (cases "is_search lib tn (call_name c)")
      case True
      then show ?thesis using None by (simp add: message_call_def item_of_call_def Let_def call_name_def is_search_def)
    next
      case False
      then have "\<not> (tn_search tn \<and> cf_Name (tc_Function c) = toolSearchProxyName)" using None by (simp add: is_search_def call_name_def)
      then show ?thesis using None False valid
        by (auto simp: message_call_def item_of_call_def Let_def call_name_def namespace_of_def split: option.split)
    qed
  qed
qed

lemma final_item_of_call:
  assumes "mirrors lib tn (view s) p" "i < length (pt_calls p)"
  shows "final_item lib s (int i) itemID = item_of_call lib tn itemID (pt_calls p ! i)"
proof -
  let ?c = "pt_calls p ! i"
  have "stored_call (int i) s = stored_of lib tn i ?c"
    using assms by (simp add: mirrors_def view_def stored_call_def gm_getd_def stored_calls_get)
  moreover have "gm_getd False (cs_toolIsCustom s) (int i) = (custom_name lib tn (call_name ?c) \<noteq> None)"
    "gm_getd False (cs_toolIsToolSearch s) (int i) = is_search lib tn (call_name ?c)" "gm_get (cs_toolNamespace s) (int i) = namespace_of lib tn (call_name ?c)"
    using assms by (simp_all add: mirrors_def view_def)
  ultimately show ?thesis
    by (cases "custom_name lib tn (call_name ?c)") (auto simp: final_item_def item_of_call_def Let_def stored_of_def call_name_def renamed_def split: option.split)
qed

lemma chatOutput_mirrors:
  assumes "mirrors lib tn (view s) p"
  shows "map strip_id (chatOutput lib s) =
    (if pt_reasoning p \<noteq> '''' then [reasoning_item '''' (pt_reasoning p)] else [])
    @ (if pt_content p \<noteq> '''' \<or> pt_calls p = [] \<and> pt_reasoning p = '''' then [message_item_of '''' (pt_content p)] else [])
    @ map (item_of_call lib tn '''') (pt_calls p)"
proof -
  have f: "cs_Reasoning s = pt_reasoning p" "cs_Text s = pt_content p" "cs_MessageItemID s \<noteq> '''' \<longleftrightarrow> pt_content p \<noteq> ''''"
    "cs_ToolCalls s = stored_calls lib tn (pt_calls p)"
    using assms by (simp_all add: mirrors_def view_def used_m_def)
  have empty: "stored_calls lib tn (pt_calls p) = [] \<longleftrightarrow> pt_calls p = []" by (simp add: stored_calls_def)
  have "map strip_id (map (\<lambda>(n, i). final_item lib s i (nonEmpty (gm_getd '''' (cs_ToolItemIDs s) i) (generateItemID lib (cs_Fresh s + 2 + n))))
         (enumerate 0 (map int [0..<length (pt_calls p)]))) = map (item_of_call lib tn '''') (pt_calls p)"
    by (intro nth_equalityI) (simp_all add: nth_enumerate_eq final_item_of_call [OF assms] item_of_call_strip)
  then show ?thesis
    by (simp add: chatOutput_def f empty sorted_stored) (simp add: strip_id_def reasoning_item_def message_item_of_def emptyResponsesMessageOutput_def)
qed

lemma whole_output:
  assumes "list_all (good_arguments lib tn) (pt_calls p)" "br_valid lib ''{}''"
    and "\<And>t. t \<noteq> '''' \<Longrightarrow> chatMessageContentText lib (marshal t) = t"
  shows "map strip_id (chatMessageToResponsesOutput lib tn ids (chat_message marshal p)) =
    (if pt_reasoning p \<noteq> '''' then [reasoning_item '''' (pt_reasoning p)] else [])
    @ (if pt_content p \<noteq> '''' \<or> pt_calls p = [] \<and> pt_reasoning p = '''' then [message_item_of '''' (pt_content p)] else [])
    @ map (item_of_call lib tn '''') (pt_calls p)"
proof -
  have m: "message_reasoningText (chat_message marshal p) = pt_reasoning p" "cm_ToolCalls (chat_message marshal p) = pt_calls p"
    "chatMessageContentText lib (cm_Content (chat_message marshal p)) = pt_content p"
    using assms(3) by (simp_all add: message_reasoningText_def chat_message_def zero_message_def chatMessageContentText_def [of _ "''''"])
  have "list_all (good_arguments lib tn) cs \<Longrightarrow> map strip_id (concat (map (\<lambda>(n, call). message_call lib tn (ids (n + 2)) call) (enumerate k cs))) =
      map (item_of_call lib tn '''') cs" for cs k
    by (induction cs arbitrary: k) (simp_all add: message_call_item [OF _ assms(2)] item_of_call_strip)
  then show ?thesis using assms(1)
    by (simp add: chatMessageToResponsesOutput_def m) (simp add: strip_id_def reasoning_item_def message_item_of_def emptyResponsesMessageOutput_def)
qed

section \<open>The end of the stream\<close>

lemma close_call_view:
  assumes "mirrors lib tn (view s) p" "i < length (pt_calls p)"
  shows "view (fst (close_call lib (int i) s)) = view s"
proof -
  have calls: "cs_ToolCalls s = stored_calls lib tn (pt_calls p)" "gm_getd False (cs_toolAnnounced s) (int i)"
    using assms by (simp_all add: mirrors_def view_def)
  have "stored_call (int i) s = stored_of lib tn i (pt_calls p ! i)" using calls(1) assms(2) by (simp add: stored_call_def gm_getd_def stored_calls_get)
  then have "announceChatToolItem lib (int i) True (stored_call (int i) s) s = (s, [])"
    using calls assms(2) by (simp add: announceChatToolItem_def put_call_def stored_calls_same)
  then show ?thesis by (simp add: close_call_def fst_then_do split: option.split)
qed

lemma close_calls_view:
  "mirrors lib tn (view s) p \<Longrightarrow> \<forall>i \<in> set is. i < length (pt_calls p) \<Longrightarrow> view (fst (close_calls lib (map int is) s)) = view s"
proof (induction "is" arbitrary: s)
  case (Cons i "is")
  have "view (fst (close_call lib (int i) s)) = view s" using close_call_view [OF Cons.prems(1)] Cons.prems(2) by simp
  with Cons.IH [of "fst (close_call lib (int i) s)"] Cons.prems show ?case by (simp add: fst_then_do)
qed simp

lemma finalize_response:
  assumes "mirrors lib tn (view s) p"
  shows "\<exists>r s'. view s' = view s \<and> re_Response (last (snd (FinalizeChatCompletionsResponsesStream lib s))) = Some r
    \<and> rr_Status r = (if cut_short (cs_FinishReason s) then ''incomplete'' else ''completed'') \<and> rr_IncompleteDetails r = cut_details (cs_FinishReason s)
    \<and> rr_Output r = (if cut_short (cs_FinishReason s) then map mark_incomplete (chatOutput lib s') else chatOutput lib s')"
proof -
  define s1 where "s1 = fst (then_do ensureChatToResponsesCreated (then_do closeChatReasoningItem (then_do close_message (closeChatToolItems lib))) s)"
  define s0 where "s0 = fst (close_message (fst (closeChatReasoningItem (fst (ensureChatToResponsesCreated s)))))"
  have s0: "view s0 = view s" by (simp add: s0_def)
  then have m0: "mirrors lib tn (view s0) p" using assms by simp
  have "cs_ToolCalls s0 = stored_calls lib tn (pt_calls p)" using m0 by (simp add: mirrors_def view_def)
  then have s1: "view s1 = view s" unfolding s1_def
    using close_calls_view [OF m0, of "[0..<length (pt_calls p)]"] by (simp add: fst_then_do s0_def [symmetric] closeChatToolItems_def sorted_stored s0)
  have fin: "cs_FinishReason s1 = cs_FinishReason s" "\<not> cs_CompletedSent s" using s1 assms by (simp_all add: view_def mirrors_def)
  have "\<exists>e. last (snd (FinalizeChatCompletionsResponsesStream lib s)) = e \<and> re_Response e = Some ((fresh_response (cs_ResponseID s1) (cs_Created s1) (cs_Model s1))
      \<lparr>rr_UpstreamServiceTier := cs_UpstreamServiceTier s1, rr_Status := (if cut_short (cs_FinishReason s1) then ''incomplete'' else ''completed''),
       rr_Output := (if cut_short (cs_FinishReason s1) then map mark_incomplete (chatOutput lib (s1\<lparr>cs_CompletedSent := True\<rparr>)) else chatOutput lib (s1\<lparr>cs_CompletedSent := True\<rparr>)),
       rr_Usage := cs_Usage s1, rr_IncompleteDetails := cut_details (cs_FinishReason s1)\<rparr>)"
    using fin(2) unfolding FinalizeChatCompletionsResponsesStream_def s1_def by (simp add: split_def Let_def emit_def chatToResponsesEvent_def)
  then show ?thesis using s1 fin(1) by (auto simp: chatOutput_completed)
qed

lemma strip_incomplete: "map strip_id (map mark_incomplete xs) = map mark_incomplete (map strip_id xs)"
  by (simp add: strip_id_def mark_incomplete_def)


definition demo_marshal :: "string \<Rightarrow> string" where
  "demo_marshal t = CHR 0x22 # t @ [CHR 0x22]"

definition demo_bridge_json :: bridge_lib where
  "demo_bridge_json = demo_bridge\<lparr>br_string := (\<lambda>s. if length s > 1 \<and> hd s = CHR 0x22 then Some (butlast (tl s)) else None)\<rparr>"

lemma demo_json_roundtrip: "chatMessageContentText demo_bridge_json (demo_marshal t) = t"
proof -
  have "trim_space (demo_marshal t) = demo_marshal t" unfolding demo_marshal_def by (rule trim_space_delimited) (simp_all add: printable_def)
  then show ?thesis by (simp add: chatMessageContentText_def Let_def demo_bridge_json_def demo_marshal_def)
qed

definition demo_finished :: "ChatCompletionsChunk list" where
  "demo_finished = map demo_chunk
     [zero_chat_delta\<lparr>dl_ReasoningContent := Some ''hm''\<rparr>, demo_delta_call 0 ''a'' ''git__log'' ''{'', zero_chat_delta\<lparr>dl_Content := Some ''Hi''\<rparr>,
      zero_chat_delta\<lparr>dl_ToolCalls := [\<lparr>tc_Index = Some 0, tc_ID = '''', tc_Type = '''', tc_Function = \<lparr>cf_Name = '''', cf_Arguments = ''}''\<rparr>\<rparr>]\<rparr>]
     @ [(demo_chunk zero_chat_delta)\<lparr>ck_Choices := [\<lparr>ch_Index = 0, ch_Delta = zero_chat_delta, ch_FinishReason = Some ''length''\<rparr>]\<rparr>]"

definition demo_whole :: ChatCompletionsResponse where
  "demo_whole = \<lparr>cr_ID = ''c1'', cr_Object = ''chat.completion'', cr_Created = 0, cr_Model = ''m'',
     cr_Choices = [\<lparr>cc_Index = 0, cc_Message = chat_message demo_marshal (assemble no_parts demo_finished), cc_FinishReason = ''length''\<rparr>],
     cr_Usage = None, cr_SystemFingerprint = '''', cr_ServiceTier = ''''\<rparr>"


end
