(* ===== verification/Chat_History.thy ===== *)
theory Chat_History
  imports Chat_Stream_Protocol "HOL-Library.Sublist"
begin

text \<open>
  The first half of \<open>internal/pkg/apicompat/chatcompletions_responses_bridge.go\<close>: the input items of a
  Responses request become the messages of a chat completions request. Calls and their outputs are
  paired, calls that were cut off are dropped together with their outputs, and images in tool outputs
  move to a user message of their own.

  \<open>encoding/json\<close> is the record \<open>history_lib\<close>: decoding of raw values, the validity check and the
  encoders. An error of \<open>json.Marshal\<close> on the structs that this file encodes, which only hold strings,
  is not modelled.
\<close>

section \<open>Values\<close>

record ChatImageURL =
  iu_URL :: string
  iu_Detail :: string

record ChatFile =
  fi_Filename :: string
  fi_FileData :: string
  fi_FileID :: string

record ChatContentPart =
  pa_Type :: string
  pa_Text :: string
  pa_ImageURL :: "ChatImageURL option"
  pa_File :: "ChatFile option"

text \<open>A decoded JSON value; numbers keep their text (\<open>UseNumber\<close>).\<close>

datatype json = JNull | JBool bool | JNum string | JStr string | JArr "json list" | JObj "(string \<times> json) list"

record history_lib =
  hl_bridge :: bridge_lib
  hl_array :: "string \<Rightarrow> string list option"
  hl_objects :: "string \<Rightarrow> (string, string) gomap list option"
  hl_decode :: "string \<Rightarrow> json option"
  hl_encode :: "json \<Rightarrow> string option"
  hl_marshal :: "string \<Rightarrow> string"
  hl_marshal_parts :: "ChatContentPart list \<Rightarrow> string"
  hl_marshal_input :: "string \<Rightarrow> string"
  hl_marshal_choice :: "string \<Rightarrow> string"

definition bytesTrimSpace :: "string \<Rightarrow> string" where "bytesTrimSpace raw = trim_space raw"

definition absent :: "string \<Rightarrow> bool" where
  "absent raw \<longleftrightarrow> raw = '''' \<or> raw = ''null''"

definition rawString :: "history_lib \<Rightarrow> string \<Rightarrow> string" where
  "rawString lib raw =
     (let raw = bytesTrimSpace raw in
      if absent raw then '''' else case br_string (hl_bridge lib) raw of Some s \<Rightarrow> s | None \<Rightarrow> '''')"

definition rawNestedString :: "history_lib \<Rightarrow> string \<Rightarrow> string \<Rightarrow> string" where
  "rawNestedString lib raw key = (case br_object (hl_bridge lib) raw of Some obj \<Rightarrow> rawString lib (gm_getd '''' obj key) | None \<Rightarrow> '''')"

type_synonym raw_item = "(string, string) gomap"

definition field :: "history_lib \<Rightarrow> raw_item \<Rightarrow> string \<Rightarrow> string" where
  "field lib item key = rawString lib (gm_getd '''' item key)"

section \<open>Media in tool outputs\<close>

definition toolOutputMediaMarker :: string where
  "toolOutputMediaMarker = ''[Tool output media moved to the following user message]''"

definition text_part :: "string \<Rightarrow> ChatContentPart" where
  "text_part t = \<lparr>pa_Type = ''text'', pa_Text = t, pa_ImageURL = None, pa_File = None\<rparr>"

definition toolOutputImagePart :: "string \<Rightarrow> ChatContentPart" where
  "toolOutputImagePart imageURL = \<lparr>pa_Type = ''image_url'', pa_Text = '''', pa_ImageURL = Some \<lparr>iu_URL = imageURL, iu_Detail = ''''\<rparr>, pa_File = None\<rparr>"

definition json_str :: "json option \<Rightarrow> string" where
  "json_str v = (case v of Some (JStr s) \<Rightarrow> s | _ \<Rightarrow> '''')"

definition recognizedToolOutputImageURL :: "(string \<times> json) list \<Rightarrow> string option" where
  "recognizedToolOutputImageURL obj =
     (let partType = json_str (map_of obj ''type'') in
      if partType \<noteq> ''input_image'' \<and> partType \<noteq> ''image_url'' then None
      else case map_of obj ''image_url'' of
        Some (JStr url) \<Rightarrow> (if trim_space url \<noteq> '''' then Some url else None)
      | Some (JObj o') \<Rightarrow> (let url = json_str (map_of o' ''url'') in if trim_space url \<noteq> '''' then Some url else None)
      | _ \<Rightarrow> None)"

text \<open>\<open>strings.Index\<close>: the position of the first occurrence.\<close>

fun str_index :: "string \<Rightarrow> string \<Rightarrow> nat option" where
  "str_index [] sub = (if sub = [] then Some 0 else None)"
| "str_index (c # s) sub = (if has_prefix sub (c # s) then Some 0 else map_option Suc (str_index s sub))"

definition isToolOutputImageDataURL :: "string \<Rightarrow> bool" where
  "isToolOutputImageDataURL value_text =
     (case cut_prefix ''data:image/'' value_text of
        None \<Rightarrow> False
      | Some rest \<Rightarrow>
          (case str_index rest '';base64,'' of
             None \<Rightarrow> False
           | Some n \<Rightarrow> 0 < n \<and> trim_space (drop (n + 8) rest) \<noteq> ''''))"

text \<open>The rewritten value, the media that were taken out, and whether anything changed.\<close>

function rewriteToolOutputMediaValue :: "json \<Rightarrow> json \<times> ChatContentPart list \<times> bool" where
  "rewriteToolOutputMediaValue (JArr xs) =
     (let rs = map rewriteToolOutputMediaValue xs in
      (JArr (map fst rs), concat (map (fst \<circ> snd) rs), list_ex (snd \<circ> snd) rs))"
| "rewriteToolOutputMediaValue (JObj obj) =
     (case recognizedToolOutputImageURL obj of
        Some url \<Rightarrow> (JObj [(''type'', JStr ''input_text''), (''text'', JStr toolOutputMediaMarker)], [toolOutputImagePart url], True)
      | None \<Rightarrow>
          (case map_of obj ''content'' of
             None \<Rightarrow> (JObj obj, [], False)
           | Some content \<Rightarrow>
               (let (rewritten, media, changed) = rewriteToolOutputMediaValue content in
                if changed then (JObj (AList.update ''content'' rewritten obj), media, True) else (JObj obj, [], False))))"
| "rewriteToolOutputMediaValue JNull = (JNull, [], False)"
| "rewriteToolOutputMediaValue (JBool b) = (JBool b, [], False)"
| "rewriteToolOutputMediaValue (JNum n) = (JNum n, [], False)"
| "rewriteToolOutputMediaValue (JStr s) = (JStr s, [], False)"
  by pat_completeness auto
termination
proof (relation "measure size")
  fix xs and x :: json
  assume "x \<in> set xs"
  then show "(x, JArr xs) \<in> measure size" by (simp add: size_list_estimation' less_Suc_eq_le)
next
  fix obj and content :: json
  assume "map_of obj ''content'' = Some content"
  then have "(''content'', content) \<in> set obj" by (rule map_of_SomeD)
  then have "size content < size (JObj obj)" by (induction obj) auto
  then show "(content, JObj obj) \<in> measure size" by simp
qed simp

definition decodeToolOutputJSON :: "history_lib \<Rightarrow> string \<Rightarrow> json option" where
  "decodeToolOutputJSON lib raw = (if \<not> br_valid (hl_bridge lib) raw then None else hl_decode lib raw)"

text \<open>\<open>None\<close> stands for an output that is not rewritten.\<close>

definition rewrite_output :: "history_lib \<Rightarrow> string \<Rightarrow> (string \<times> ChatContentPart list) option" where
  "rewrite_output lib raw =
     (case decodeToolOutputJSON lib raw of
        None \<Rightarrow> None
      | Some decoded \<Rightarrow>
          (let (rewritten, media, changed) = rewriteToolOutputMediaValue decoded in
           if \<not> changed then None
           else case hl_encode lib rewritten of None \<Rightarrow> None | Some encoded \<Rightarrow> Some (encoded, media)))"

definition extractToolOutputMedia :: "history_lib \<Rightarrow> string \<Rightarrow> (string \<times> ChatContentPart list) option" where
  "extractToolOutputMedia lib outputRaw =
     (let outputRaw = bytesTrimSpace outputRaw in
      if absent outputRaw then None
      else case br_string (hl_bridge lib) outputRaw of
        Some outputString \<Rightarrow>
          (if isToolOutputImageDataURL outputString then Some (toolOutputMediaMarker, [toolOutputImagePart outputString])
           else rewrite_output lib outputString)
      | None \<Rightarrow> rewrite_output lib outputRaw)"

section \<open>Content\<close>

definition part_image_url :: "history_lib \<Rightarrow> raw_item \<Rightarrow> string" where
  "part_image_url lib part =
     (let url = field lib part ''image_url'' in
      if url = '''' then rawNestedString lib (gm_getd '''' part ''image_url'') ''url'' else url)"

definition chatContentFromSingleResponsesPart :: "history_lib \<Rightarrow> string \<Rightarrow> raw_item \<Rightarrow> string" where
  "chatContentFromSingleResponsesPart lib partType part =
     (if partType = ''input_image'' \<or> partType = ''image_url''
      then hl_marshal_parts lib [toolOutputImagePart (part_image_url lib part)]
      else hl_marshal lib (field lib part ''text''))"

text \<open>The part of the chat message that one raw part becomes, if any.\<close>

definition content_part :: "history_lib \<Rightarrow> string \<Rightarrow> ChatContentPart option" where
  "content_part lib rawPart =
     (case br_object (hl_bridge lib) rawPart of
        None \<Rightarrow> None
      | Some part \<Rightarrow>
          (let partType = field lib part ''type'' in
           if partType \<in> {''input_text'', ''output_text'', ''text'', ''''} then
             (let t = field lib part ''text'' in if t = '''' then None else Some (text_part t))
           else if partType \<in> {''input_image'', ''image_url''} then
             (let url = part_image_url lib part in if url = '''' then None else Some (toolOutputImagePart url))
           else None))"

definition responsesContentPartsToChatContent :: "history_lib \<Rightarrow> string list \<Rightarrow> string \<Rightarrow> string" where
  "responsesContentPartsToChatContent lib rawParts role =
     (let chatParts = List.map_filter (content_part lib) rawParts;
          textParts = map pa_Text (filter (\<lambda>p. pa_Type p = ''text'') chatParts);
          hasNonText = list_ex (\<lambda>p. pa_Type p \<noteq> ''text'') chatParts
      in if \<not> hasNonText \<or> role \<noteq> ''user'' then hl_marshal lib (str_join [CHR 10, CHR 10] textParts)
         else hl_marshal_parts lib chatParts)"

definition responsesContentToChatContent :: "history_lib \<Rightarrow> string \<Rightarrow> string \<Rightarrow> string" where
  "responsesContentToChatContent lib raw role =
     (let raw = bytesTrimSpace raw in
      if absent raw then hl_marshal lib ''''
      else case br_string (hl_bridge lib) raw of
        Some t \<Rightarrow> raw
      | None \<Rightarrow>
          (case hl_array lib raw of
             Some rawParts \<Rightarrow> responsesContentPartsToChatContent lib rawParts role
           | None \<Rightarrow>
               (case br_object (hl_bridge lib) raw of
                  Some obj \<Rightarrow> chatContentFromSingleResponsesPart lib (field lib obj ''type'') obj
                | None \<Rightarrow> raw)))"

definition isBlankChatContent :: "history_lib \<Rightarrow> string \<Rightarrow> bool" where
  "isBlankChatContent lib raw \<longleftrightarrow>
     (let raw = bytesTrimSpace raw in absent raw \<or> raw = [CHR 34, CHR 34] \<or> chatMessageContentText (hl_bridge lib) raw = '''')"

definition collect_texts :: "history_lib \<Rightarrow> string \<Rightarrow> string list" where
  "collect_texts lib raw =
     (let raw = bytesTrimSpace raw in
      if absent raw then []
      else case hl_objects lib raw of
        Some arr \<Rightarrow> filter (\<lambda>t. t \<noteq> '''') (map (\<lambda>p. field lib p ''text'') arr)
      | None \<Rightarrow> filter (\<lambda>t. t \<noteq> '''') [rawString lib raw])"

definition extractResponsesReasoningText :: "history_lib \<Rightarrow> raw_item \<Rightarrow> string" where
  "extractResponsesReasoningText lib item =
     (let parts = collect_texts lib (gm_getd '''' item ''summary'') in
      str_join [CHR 10] (if parts = [] then collect_texts lib (gm_getd '''' item ''content'') else parts))"

definition chatCompletionsBridgeRole :: "string \<Rightarrow> string" where
  "chatCompletionsBridgeRole role =
     (let trimmed = trim_space role in
      if trimmed = '''' then ''user'' else if equal_fold trimmed ''developer'' then ''system'' else role)"

section \<open>Items\<close>

datatype history_error = ParseInput | ParseInputItem

record history =
  hy_messages :: "ChatMessage list"
  hy_pendingReasoning :: string
  hy_turnReasoning :: string
  hy_mediaByCallID :: "(string, ChatContentPart list) gomap"
  hy_invalidFunctionCallIDs :: "string list"
  hy_invalidEmptyFunctionCallOutputs :: nat

definition reasoningForAssistant :: "history \<Rightarrow> string" where
  "reasoningForAssistant h = (if hy_pendingReasoning h \<noteq> '''' then hy_pendingReasoning h else hy_turnReasoning h)"

definition appendAssistantToolCall :: "ChatMessage list \<Rightarrow> ChatToolCall \<Rightarrow> string \<Rightarrow> ChatMessage list" where
  "appendAssistantToolCall messages toolCall pendingReasoning =
     (if messages \<noteq> [] \<and> cm_Role (last messages) = ''assistant''
      then (let m = last messages in
            butlast messages @ [m\<lparr>cm_ToolCalls := cm_ToolCalls m @ [toolCall],
              cm_ReasoningContent := (if cm_ReasoningContent m = '''' then pendingReasoning else cm_ReasoningContent m)\<rparr>])
      else messages @ [zero_message\<lparr>cm_Role := ''assistant'', cm_ToolCalls := [toolCall], cm_ReasoningContent := pendingReasoning\<rparr>])"

definition add_call :: "ChatToolCall \<Rightarrow> history \<Rightarrow> history" where
  "add_call call h = h\<lparr>hy_messages := appendAssistantToolCall (hy_messages h) call (reasoningForAssistant h), hy_pendingReasoning := ''''\<rparr>"

definition add_message :: "ChatMessage \<Rightarrow> history \<Rightarrow> history" where
  "add_message m h = h\<lparr>hy_messages := hy_messages h @ [m]\<rparr>"

definition user_message :: "string \<Rightarrow> ChatMessage" where
  "user_message content = zero_message\<lparr>cm_Role := ''user'', cm_Content := content\<rparr>"

definition user_turn :: "string \<Rightarrow> history \<Rightarrow> history" where
  "user_turn content h = (add_message (user_message content) h)\<lparr>hy_turnReasoning := '''', hy_pendingReasoning := ''''\<rparr>"

definition function_call_item :: "history_lib \<Rightarrow> raw_item \<Rightarrow> history \<Rightarrow> history" where
  "function_call_item lib item h =
     (let arguments = default_arguments (field lib item ''arguments''); callID = field lib item ''call_id'' in
      if \<not> br_valid (hl_bridge lib) arguments then
        (if callID \<noteq> '''' then h\<lparr>hy_invalidFunctionCallIDs := callID # hy_invalidFunctionCallIDs h, hy_pendingReasoning := ''''\<rparr>
         else h\<lparr>hy_invalidEmptyFunctionCallOutputs := hy_invalidEmptyFunctionCallOutputs h + 1, hy_pendingReasoning := ''''\<rparr>)
      else
        (let name = field lib item ''name''; namespace = field lib item ''namespace'';
             name = (if namespace \<noteq> '''' then flattenNamespaceToolName (br_tools (hl_bridge lib)) namespace name else name)
         in add_call (function_call callID name arguments) h))"

definition tool_search_call_item :: "history_lib \<Rightarrow> raw_item \<Rightarrow> history \<Rightarrow> history" where
  "tool_search_call_item lib item h =
     (let raw = bytesTrimSpace (gm_getd '''' item ''arguments''); v = field lib item ''arguments'';
          arguments = (if v \<noteq> '''' then v else trim_space raw);
          arguments = (if absent arguments then ''{}'' else arguments)
      in add_call (function_call (field lib item ''call_id'') toolSearchProxyName arguments) h)"

definition custom_tool_call_item :: "history_lib \<Rightarrow> raw_item \<Rightarrow> history \<Rightarrow> history" where
  "custom_tool_call_item lib item h =
     add_call (function_call (field lib item ''call_id'') (field lib item ''name'') (hl_marshal_input lib (field lib item ''input''))) h"

definition output_raw :: "string \<Rightarrow> raw_item \<Rightarrow> string" where
  "output_raw itemType item =
     (let outputRaw = bytesTrimSpace (gm_getd '''' item ''output'') in
      if itemType = ''tool_search_output'' \<and> absent outputRaw then bytesTrimSpace (gm_getd '''' item ''tools'') else outputRaw)"

definition plain_output :: "history_lib \<Rightarrow> string \<Rightarrow> string" where
  "plain_output lib outputRaw =
     (let outputText = rawString lib outputRaw in
      if outputText = '''' \<and> \<not> absent outputRaw \<and> outputRaw \<noteq> [CHR 34, CHR 34] then outputRaw else outputText)"

definition tool_message :: "string \<Rightarrow> string \<Rightarrow> ChatMessage" where
  "tool_message callID content = zero_message\<lparr>cm_Role := ''tool'', cm_ToolCallID := callID, cm_Content := content\<rparr>"

definition output_item :: "history_lib \<Rightarrow> string \<Rightarrow> raw_item \<Rightarrow> history \<Rightarrow> history" where
  "output_item lib itemType item h =
     (let outputRaw = output_raw itemType item; callID = field lib item ''call_id''; h = h\<lparr>hy_pendingReasoning := ''''\<rparr> in
      if callID = '''' \<and> 0 < hy_invalidEmptyFunctionCallOutputs h then
        h\<lparr>hy_invalidEmptyFunctionCallOutputs := hy_invalidEmptyFunctionCallOutputs h - 1\<rparr>
      else if callID \<in> set (hy_invalidFunctionCallIDs h) then h
      else
        (let media = gm_del callID (hy_mediaByCallID h) in
         case extractToolOutputMedia lib outputRaw of
           Some (outputText, parts) \<Rightarrow>
             add_message (tool_message callID (hl_marshal lib outputText))
               (h\<lparr>hy_mediaByCallID := (if callID \<noteq> '''' then gm_put callID parts media else media)\<rparr>)
         | None \<Rightarrow> add_message (tool_message callID (hl_marshal lib (plain_output lib outputRaw))) (h\<lparr>hy_mediaByCallID := media\<rparr>)))"

definition message_content :: "history_lib \<Rightarrow> raw_item \<Rightarrow> string" where
  "message_content lib item =
     (let content = gm_getd '''' item ''content''; t = field lib item ''text'' in
      if bytesTrimSpace content = '''' \<and> t \<noteq> '''' then hl_marshal lib t else content)"

definition message_item_turn :: "history_lib \<Rightarrow> raw_item \<Rightarrow> history \<Rightarrow> history" where
  "message_item_turn lib item h =
     (let role = chatCompletionsBridgeRole (field lib item ''role'');
          message = zero_message\<lparr>cm_Role := role, cm_Content := responsesContentToChatContent lib (message_content lib item) role\<rparr>
      in if role = ''assistant'' then add_message (message\<lparr>cm_ReasoningContent := reasoningForAssistant h\<rparr>) h
         else (add_message message h)\<lparr>hy_pendingReasoning := '''', hy_turnReasoning := ''''\<rparr>)"

definition history_item :: "history_lib \<Rightarrow> raw_item \<Rightarrow> history \<Rightarrow> history" where
  "history_item lib item h =
     (let itemType = field lib item ''type'' in
      if itemType = ''reasoning'' then
        (let t = extractResponsesReasoningText lib item in
         if t \<noteq> '''' then h\<lparr>hy_pendingReasoning := t, hy_turnReasoning := t\<rparr> else h)
      else if itemType = ''function_call'' then function_call_item lib item h
      else if itemType = ''tool_search_call'' then tool_search_call_item lib item h
      else if itemType = ''custom_tool_call'' then custom_tool_call_item lib item h
      else if itemType \<in> {''function_call_output'', ''custom_tool_call_output'', ''tool_search_output''} then output_item lib itemType item h
      else if itemType \<in> {''input_text'', ''text''} then user_turn (hl_marshal lib (field lib item ''text'')) h
      else if itemType = ''input_image'' then user_turn (chatContentFromSingleResponsesPart lib itemType item) h
      else if itemType \<noteq> '''' \<and> itemType \<noteq> ''message'' then h\<lparr>hy_pendingReasoning := ''''\<rparr>
      else message_item_turn lib item h)"

definition history_step :: "history_lib \<Rightarrow> string \<Rightarrow> history \<Rightarrow> history_error + history" where
  "history_step lib raw h =
     (let raw = bytesTrimSpace raw in
      if absent raw then Inr h
      else case br_object (hl_bridge lib) raw of
        Some item \<Rightarrow> Inr (history_item lib item h)
      | None \<Rightarrow>
          (case br_string (hl_bridge lib) raw of
             Some t \<Rightarrow> Inr (user_turn (hl_marshal lib t) h)
           | None \<Rightarrow> Inl ParseInputItem))"

fun history_steps :: "history_lib \<Rightarrow> string list \<Rightarrow> history \<Rightarrow> history_error + history" where
  "history_steps lib [] h = Inr h"
| "history_steps lib (raw # raws) h = (case history_step lib raw h of Inl e \<Rightarrow> Inl e | Inr h' \<Rightarrow> history_steps lib raws h')"

definition buildChatMessagesFromItems ::
  "history_lib \<Rightarrow> ChatMessage list \<Rightarrow> string list \<Rightarrow> history_error + (ChatMessage list \<times> (string, ChatContentPart list) gomap)" where
  "buildChatMessagesFromItems lib messages rawItems =
     (case history_steps lib rawItems \<lparr>hy_messages = messages, hy_pendingReasoning = '''', hy_turnReasoning = '''', hy_mediaByCallID = [],
        hy_invalidFunctionCallIDs = [], hy_invalidEmptyFunctionCallOutputs = 0\<rparr> of
        Inl e \<Rightarrow> Inl e
      | Inr h \<Rightarrow> Inr (hy_messages h, hy_mediaByCallID h))"

section \<open>Normalisation\<close>

definition is_tool :: "ChatMessage \<Rightarrow> bool" where "is_tool m \<longleftrightarrow> cm_Role m = ''tool''"

definition reply_map :: "ChatMessage list \<Rightarrow> (string, ChatMessage) gomap" where
  "reply_map messages = fold (\<lambda>m r. if is_tool m \<and> cm_ToolCallID m \<noteq> '''' then gm_put (cm_ToolCallID m) m r else r) messages []"

definition kept_calls :: "(string, ChatMessage) gomap \<Rightarrow> ChatMessage \<Rightarrow> ChatToolCall list" where
  "kept_calls replies m = filter (\<lambda>tc. tc_ID tc \<noteq> '''' \<and> gm_get replies (tc_ID tc) \<noteq> None) (cm_ToolCalls m)"

definition media_parts :: "(string, ChatContentPart list) gomap \<Rightarrow> ChatToolCall list \<Rightarrow> ChatContentPart list" where
  "media_parts mediaByCallID kept =
     concat (map (\<lambda>tc. let media = gm_getd [] mediaByCallID (tc_ID tc) in
        if media = [] then [] else text_part (''[Tool output media for call '' @ tc_ID tc @ '']'') # media) kept)"

definition media_message :: "history_lib \<Rightarrow> (string, ChatContentPart list) gomap \<Rightarrow> ChatToolCall list \<Rightarrow> ChatMessage list" where
  "media_message lib mediaByCallID kept =
     (let parts = media_parts mediaByCallID kept in if parts = [] then [] else [user_message (hl_marshal_parts lib parts)])"

definition normalize_message ::
  "history_lib \<Rightarrow> (string, ChatContentPart list) gomap \<Rightarrow> (string, ChatMessage) gomap \<Rightarrow> ChatMessage \<Rightarrow> ChatMessage list" where
  "normalize_message lib mediaByCallID replies m =
     (if is_tool m then (if cm_ToolCallID m = '''' then [m] else [])
      else if cm_ToolCalls m \<noteq> [] then
        (let kept = kept_calls replies m in
         if kept = [] then (if isBlankChatContent lib (cm_Content m) then [] else [m\<lparr>cm_ToolCalls := []\<rparr>])
         else m\<lparr>cm_ToolCalls := kept\<rparr> # map (\<lambda>tc. gm_getd zero_message replies (tc_ID tc)) kept @ media_message lib mediaByCallID kept)
      else [m])"

definition normalizeChatMessagesWithToolOutputMedia ::
  "history_lib \<Rightarrow> ChatMessage list \<Rightarrow> (string, ChatContentPart list) gomap \<Rightarrow> ChatMessage list" where
  "normalizeChatMessagesWithToolOutputMedia lib messages mediaByCallID =
     concat (map (normalize_message lib mediaByCallID (reply_map messages)) messages)"

definition normalizeChatMessages :: "history_lib \<Rightarrow> ChatMessage list \<Rightarrow> ChatMessage list" where
  "normalizeChatMessages lib messages = normalizeChatMessagesWithToolOutputMedia lib messages []"

definition responsesInputToChatMessages :: "history_lib \<Rightarrow> string \<Rightarrow> string \<Rightarrow> history_error + ChatMessage list" where
  "responsesInputToChatMessages lib instructions inputRaw =
     (let messages = (if trim_space instructions \<noteq> '''' then [zero_message\<lparr>cm_Role := ''system'', cm_Content := hl_marshal lib instructions\<rparr>] else []);
          inputRaw = bytesTrimSpace inputRaw
      in if absent inputRaw then Inr messages
         else case br_string (hl_bridge lib) inputRaw of
           Some inputText \<Rightarrow> Inr (messages @ [user_message (hl_marshal lib inputText)])
         | None \<Rightarrow>
             (case hl_array lib inputRaw of
                None \<Rightarrow> Inl ParseInput
              | Some rawItems \<Rightarrow>
                  (case buildChatMessagesFromItems lib messages rawItems of
                     Inl e \<Rightarrow> Inl e
                   | Inr (built, mediaByCallID) \<Rightarrow> Inr (normalizeChatMessagesWithToolOutputMedia lib built mediaByCallID))))"

section \<open>The tool choice\<close>

definition chosen_name :: "history_lib \<Rightarrow> raw_item \<Rightarrow> string" where
  "chosen_name lib choice =
     (if field lib choice ''type'' = ''tool_search'' then toolSearchProxyName
      else (let name = field lib choice ''name'';
                name = (if name = '''' then rawNestedString lib (gm_getd '''' choice ''function'') ''name'' else name);
                namespace = field lib choice ''namespace''
            in if namespace \<noteq> '''' \<and> name \<noteq> '''' then flattenNamespaceToolName (br_tools (hl_bridge lib)) namespace name else name))"

definition responsesToolChoiceToChatToolChoice :: "history_lib \<Rightarrow> string \<Rightarrow> (string, bool) gomap \<Rightarrow> string" where
  "responsesToolChoiceToChatToolChoice lib raw declared =
     (case br_object (hl_bridge lib) raw of
        None \<Rightarrow> raw
      | Some choice \<Rightarrow>
          (let type = field lib choice ''type'' in
           if type = ''x_search'' then (if \<not> gm_getd False declared ''x_search'' then '''' else ''{\"type\":\"x_search\"}'')
           else if type \<notin> {''tool_search'', ''function'', ''custom''} then ''''
           else (let name = chosen_name lib choice in
                 if name = '''' \<or> \<not> gm_getd False declared name then '''' else hl_marshal_choice lib name)))"

text \<open>The tool choice of the lowered request; the empty string is the missing field.\<close>

definition lowered_tool_choice :: "history_lib \<Rightarrow> ChatTool list \<Rightarrow> string \<Rightarrow> string" where
  "lowered_tool_choice lib tools raw =
     (if tools = [] \<or> raw = '''' then ''''
      else responsesToolChoiceToChatToolChoice lib raw
        (fold (\<lambda>tool m. case tool_Function tool of Some f \<Rightarrow> gm_put (fn_Name f) True m | None \<Rightarrow> m) tools []))"

section \<open>Replies\<close>

lemma reply_map_get:
  "gm_get (reply_map ms) k = (if k = '''' then None else List.find (\<lambda>m. is_tool m \<and> cm_ToolCallID m = k) (rev ms))"
  unfolding reply_map_def by (induction ms rule: rev_induct) auto

lemma find_SomeD: "List.find P xs = Some x \<Longrightarrow> P x \<and> x \<in> set xs"
  by (induction xs) (auto split: if_splits)

lemma replyD:
  assumes "gm_get (reply_map ms) k = Some r"
  shows "is_tool r" "cm_ToolCallID r = k" "k \<noteq> ''''" "r \<in> set ms"
  using assms find_SomeD [of "\<lambda>m. is_tool m \<and> cm_ToolCallID m = k" "rev ms" r] by (auto simp: reply_map_get split: if_splits)

lemma reply_iff:
  "gm_get (reply_map ms) k \<noteq> None \<longleftrightarrow> k \<noteq> '''' \<and> (\<exists>m \<in> set ms. is_tool m \<and> cm_ToolCallID m = k)"
  by (auto simp: reply_map_get find_None_iff simp del: not_None_eq)

lemma reply_getd: "gm_get (reply_map ms) k \<noteq> None \<Longrightarrow> gm_get (reply_map ms) k = Some (gm_getd d (reply_map ms) k)"
  by (auto simp: gm_getd_def)

lemma user_message_simps [simp]:
  "\<not> is_tool (user_message c)" "cm_ToolCalls (user_message c) = []"
  by (simp_all add: is_tool_def user_message_def zero_message_def)

lemma is_tool_calls [simp]: "is_tool (m\<lparr>cm_ToolCalls := cs\<rparr>) = is_tool m"
  by (simp add: is_tool_def)

lemma media_message_cases:
  "media_message lib media kept = [] \<or> (\<exists>c. media_message lib media kept = [user_message c])"
  unfolding media_message_def Let_def by (cases "media_parts media kept = []") auto

lemma media_message_Nil [simp]: "media_message lib [] kept = []"
  by (simp add: media_message_def media_parts_def Let_def)

text \<open>The messages that one message becomes.\<close>

lemma normalize_message_cases:
  obtains (loose) "is_tool m" "cm_ToolCallID m = ''''" "normalize_message lib media R m = [m]"
  | (reply) "is_tool m" "cm_ToolCallID m \<noteq> ''''" "normalize_message lib media R m = []"
  | (plain) "\<not> is_tool m" "cm_ToolCalls m = []" "normalize_message lib media R m = [m]"
  | (blank) "\<not> is_tool m" "cm_ToolCalls m \<noteq> []" "kept_calls R m = []" "normalize_message lib media R m = []"
  | (unanswered) "\<not> is_tool m" "cm_ToolCalls m \<noteq> []" "kept_calls R m = []" "normalize_message lib media R m = [m\<lparr>cm_ToolCalls := []\<rparr>]"
  | (answered) "\<not> is_tool m" "kept_calls R m \<noteq> []"
      "normalize_message lib media R m = m\<lparr>cm_ToolCalls := kept_calls R m\<rparr>
         # map (\<lambda>tc. gm_getd zero_message R (tc_ID tc)) (kept_calls R m) @ media_message lib media (kept_calls R m)"
proof (cases "is_tool m")
  case True
  then show ?thesis using loose reply by (cases "cm_ToolCallID m = ''''") (simp_all add: normalize_message_def)
next
  case False
  note single = False
  show ?thesis
  proof (cases "kept_calls R m = []")
    case True
    with single show ?thesis using plain blank unanswered
      by (cases "cm_ToolCalls m = []"; cases "isBlankChatContent lib (cm_Content m)") (simp_all add: normalize_message_def)
  next
    case kept: False
    then have "cm_ToolCalls m \<noteq> []" by (auto simp: kept_calls_def)
    with single kept show ?thesis by (intro answered) (simp_all add: normalize_message_def Let_def)
  qed
qed

lemma kept_reply:
  assumes "tc \<in> set (kept_calls (reply_map ms) m)"
  shows "tc_ID tc \<noteq> ''''" "gm_get (reply_map ms) (tc_ID tc) = Some (gm_getd zero_message (reply_map ms) (tc_ID tc))"
    "is_tool (gm_getd zero_message (reply_map ms) (tc_ID tc))" "cm_ToolCallID (gm_getd zero_message (reply_map ms) (tc_ID tc)) = tc_ID tc"
proof -
  from assms show id: "tc_ID tc \<noteq> ''''" by (simp add: kept_calls_def)
  from assms have "gm_get (reply_map ms) (tc_ID tc) \<noteq> None" by (simp add: kept_calls_def)
  then show get: "gm_get (reply_map ms) (tc_ID tc) = Some (gm_getd zero_message (reply_map ms) (tc_ID tc))" by (rule reply_getd)
  from replyD [OF get] show "is_tool (gm_getd zero_message (reply_map ms) (tc_ID tc))"
    "cm_ToolCallID (gm_getd zero_message (reply_map ms) (tc_ID tc)) = tc_ID tc" by simp_all
qed

section \<open>The shape of the history\<close>

text \<open>The rule of the chat completions interface: after a message with calls come the replies to its
  calls, in their order, and no other message answers a call.\<close>

fun answers :: "string list \<Rightarrow> ChatMessage list \<Rightarrow> bool" where
  "answers pending [] = (pending = [])"
| "answers [] (m # ms) =
     (if is_tool m then cm_ToolCallID m = '''' \<and> answers [] ms
      else '''' \<notin> tc_ID ` set (cm_ToolCalls m) \<and> answers (map tc_ID (cm_ToolCalls m)) ms)"
| "answers (i # is) (m # ms) = (is_tool m \<and> cm_ToolCallID m = i \<and> answers is ms)"

lemma answers_append: "answers p xs \<Longrightarrow> answers [] ys \<Longrightarrow> answers p (xs @ ys)"
  by (induction p xs rule: answers.induct) (auto split: if_splits)

lemma answers_concat: "(\<And>x. x \<in> set xs \<Longrightarrow> answers [] (f x)) \<Longrightarrow> answers [] (concat (map f xs))"
  by (induction xs) (auto intro: answers_append)

lemma answers_replies:
  "(\<And>tc. tc \<in> set cs \<Longrightarrow> is_tool (r tc) \<and> cm_ToolCallID (r tc) = tc_ID tc) \<Longrightarrow> answers [] ys \<Longrightarrow> answers (map tc_ID cs) (map r cs @ ys)"
  by (induction cs) auto

lemma answers_plain: "list_all (\<lambda>m. \<not> is_tool m \<and> cm_ToolCalls m = []) ms \<Longrightarrow> answers [] ms"
  by (induction ms) auto

lemma normalize_message_answers: "answers [] (normalize_message lib media (reply_map ms) m)"
proof (cases rule: normalize_message_cases [where m = m and R = "reply_map ms" and lib = lib and media = media])
  case answered
  let ?kept = "kept_calls (reply_map ms) m"
  have "answers [] (media_message lib media ?kept)"
    using media_message_cases [of lib media ?kept] by (auto intro: answers_plain)
  then have "answers (map tc_ID ?kept) (map (\<lambda>tc. gm_getd zero_message (reply_map ms) (tc_ID tc)) ?kept @ media_message lib media ?kept)"
    by (intro answers_replies) (simp_all add: kept_reply)
  moreover have "'''' \<notin> tc_ID ` set ?kept" using kept_reply(1) by fastforce
  ultimately show ?thesis using answered by simp
qed auto

lemma normalize_answers: "answers [] (normalizeChatMessagesWithToolOutputMedia lib ms media)"
  unfolding normalizeChatMessagesWithToolOutputMedia_def by (intro answers_concat normalize_message_answers)


lemma normalize_message_tools:
  assumes "r \<in> set (normalize_message lib media (reply_map ms) m)" "is_tool r" "cm_ToolCallID r = k" "k \<noteq> ''''"
  shows "gm_get (reply_map ms) k = Some r"
proof (cases rule: normalize_message_cases [where m = m and R = "reply_map ms" and lib = lib and media = media])
  case answered
  with assms media_message_cases [of lib media "kept_calls (reply_map ms) m"]
  obtain tc where "tc \<in> set (kept_calls (reply_map ms) m)" "r = gm_getd zero_message (reply_map ms) (tc_ID tc)" by auto
  with kept_reply [of tc ms m] assms show ?thesis by simp
qed (use assms in auto)

lemma normalize_message_reply:
  assumes "tc \<in> set (kept_calls (reply_map ms) m)" "\<not> is_tool m"
  shows "gm_getd zero_message (reply_map ms) (tc_ID tc) \<in> set (normalize_message lib media (reply_map ms) m)"
proof (cases rule: normalize_message_cases [where m = m and R = "reply_map ms" and lib = lib and media = media])
qed (use assms in \<open>auto simp: kept_calls_def normalize_message_def\<close>)

text \<open>Of several outputs for one call the normalised history has only the last, wherever it has one.\<close>

lemma normalized_reply:
  assumes "tc \<in> set (kept_calls (reply_map ms) m)" "m \<in> set ms" "\<not> is_tool m"
  shows "gm_get (reply_map (normalizeChatMessagesWithToolOutputMedia lib ms media)) (tc_ID tc) = gm_get (reply_map ms) (tc_ID tc)"
proof -
  let ?out = "normalizeChatMessagesWithToolOutputMedia lib ms media" and ?r = "gm_getd zero_message (reply_map ms) (tc_ID tc)"
  have "?r \<in> set ?out"
    using normalize_message_reply [OF assms(1,3), of lib media] assms(2) unfolding normalizeChatMessagesWithToolOutputMedia_def by auto
  then have "gm_get (reply_map ?out) (tc_ID tc) \<noteq> None" unfolding reply_iff using kept_reply [OF assms(1)] by blast
  then obtain r where r: "gm_get (reply_map ?out) (tc_ID tc) = Some r" by auto
  from replyD [OF r] obtain m' where "r \<in> set (normalize_message lib media (reply_map ms) m')"
    unfolding normalizeChatMessagesWithToolOutputMedia_def by auto
  from normalize_message_tools [OF this] replyD [OF r] have "gm_get (reply_map ms) (tc_ID tc) = Some r" by simp
  with r show ?thesis by simp
qed

lemma normalize_message_again:
  assumes same: "\<And>tc. tc \<in> set (kept_calls (reply_map ms) m) \<Longrightarrow> \<not> is_tool m \<Longrightarrow> gm_get R' (tc_ID tc) = gm_get (reply_map ms) (tc_ID tc)"
  shows "concat (map (normalize_message lib [] R') (normalize_message lib media (reply_map ms) m)) = normalize_message lib media (reply_map ms) m"
proof (cases rule: normalize_message_cases [where m = m and R = "reply_map ms" and lib = lib and media = media])
  case answered
  let ?kept = "kept_calls (reply_map ms) m" and ?r = "\<lambda>tc. gm_getd zero_message (reply_map ms) (tc_ID tc)"
  let ?m = "m\<lparr>cm_ToolCalls := ?kept\<rparr>"
  have same': "gm_get R' (tc_ID tc) = gm_get (reply_map ms) (tc_ID tc)" "gm_getd zero_message R' (tc_ID tc) = ?r tc" if "tc \<in> set ?kept" for tc
    using same [OF that] answered by (simp_all add: gm_getd_def)
  have "kept_calls R' ?m = ?kept" unfolding kept_calls_def [of R']
    by (simp add: filter_id_conv) (use same' kept_reply in fastforce)
  moreover have "map (\<lambda>tc. gm_getd zero_message R' (tc_ID tc)) ?kept = map ?r ?kept" by (simp add: same')
  ultimately have head: "normalize_message lib [] R' ?m = ?m # map ?r ?kept"
    using answered by (simp add: normalize_message_def Let_def)
  have replies: "concat (map (normalize_message lib [] R') (map ?r ?kept)) = []"
    by (simp add: normalize_message_def kept_reply)
  have "concat (map (normalize_message lib [] R') (media_message lib media ?kept)) = media_message lib media ?kept"
    using media_message_cases [of lib media ?kept] by (auto simp: normalize_message_def)
  with head replies answered show ?thesis by simp
qed (auto simp: normalize_message_def)

lemma concat_map_fixed:
  "(\<And>x. x \<in> set xs \<Longrightarrow> concat (map g (f x)) = f x) \<Longrightarrow> concat (map g (concat (map f xs))) = concat (map f xs)"
  by (induction xs) auto

text \<open>Normalising a history again changes nothing.\<close>

theorem normalize_idempotent:
  "normalizeChatMessages lib (normalizeChatMessagesWithToolOutputMedia lib ms media) = normalizeChatMessagesWithToolOutputMedia lib ms media"
proof -
  let ?R = "reply_map ms" and ?out = "normalizeChatMessagesWithToolOutputMedia lib ms media"
  let ?R' = "reply_map ?out"
  have "concat (map (normalize_message lib [] ?R') (normalize_message lib media ?R m)) = normalize_message lib media ?R m" if "m \<in> set ms" for m
    using normalize_message_again [OF normalized_reply [OF _ that]] by simp
  then have "concat (map (normalize_message lib [] ?R') (concat (map (normalize_message lib media ?R) ms))) = concat (map (normalize_message lib media ?R) ms)"
    by (rule concat_map_fixed)
  then show ?thesis
    unfolding normalizeChatMessages_def normalizeChatMessagesWithToolOutputMedia_def [where mediaByCallID = "[]"]
    unfolding normalizeChatMessagesWithToolOutputMedia_def .
qed

section \<open>What the history keeps\<close>

definition call_answered :: "ChatMessage list \<Rightarrow> ChatToolCall \<Rightarrow> bool" where
  "call_answered ms tc \<longleftrightarrow> tc_ID tc \<noteq> '''' \<and> list_ex (\<lambda>m. is_tool m \<and> cm_ToolCallID m = tc_ID tc) ms"

definition history_calls :: "ChatMessage list \<Rightarrow> ChatToolCall list" where
  "history_calls ms = concat (map cm_ToolCalls (filter (\<lambda>m. \<not> is_tool m) ms))"

definition plain_messages :: "ChatMessage list \<Rightarrow> ChatMessage list" where
  "plain_messages ms = filter (\<lambda>m. \<not> is_tool m \<and> cm_ToolCalls m = []) ms"

lemma kept_calls_answered: "kept_calls (reply_map ms) m = filter (call_answered ms) (cm_ToolCalls m)"
  unfolding kept_calls_def call_answered_def reply_iff by (simp add: list_ex_iff)

lemma normalize_message_calls: "history_calls (normalize_message lib media (reply_map ms) m) = filter (call_answered ms) (history_calls [m])"
proof (cases rule: normalize_message_cases [where m = m and R = "reply_map ms" and lib = lib and media = media])
  case answered
  have "filter (\<lambda>m. \<not> is_tool m) (map (\<lambda>tc. gm_getd zero_message (reply_map ms) (tc_ID tc)) (kept_calls (reply_map ms) m)) = []"
    by (simp add: filter_empty_conv kept_reply)
  with answered media_message_cases [of lib media "kept_calls (reply_map ms) m"] show ?thesis
    by (auto simp: history_calls_def kept_calls_answered)
qed (auto simp: history_calls_def kept_calls_answered)

lemma history_calls_concat: "history_calls (concat (map f xs)) = concat (map (\<lambda>x. history_calls (f x)) xs)"
  unfolding history_calls_def by (induction xs) auto

lemma history_calls_single: "concat (map (\<lambda>m. filter P (history_calls [m])) ms) = filter P (history_calls ms)"
  by (induction ms) (auto simp: history_calls_def)

lemma normalize_message_plain: "\<not> is_tool m \<Longrightarrow> cm_ToolCalls m = [] \<Longrightarrow> normalize_message lib media R m = [m]"
  by (simp add: normalize_message_def)

lemma plain_kept: "subseq (plain_messages ns) (concat (map (normalize_message lib media R) ns))"
  unfolding plain_messages_def
  by (induction ns) (auto simp: normalize_message_plain intro: subseq_append_iff [THEN iffD2] list_emb_append2)


section \<open>The choice of a tool\<close>

lemma declared_names:
  "gm_getd False (fold (\<lambda>tool m. case tool_Function tool of Some f \<Rightarrow> gm_put (fn_Name f) True m | None \<Rightarrow> m) tools m0) n
     \<longleftrightarrow> gm_getd False m0 n \<or> (\<exists>t f. t \<in> set tools \<and> tool_Function t = Some f \<and> fn_Name f = n)"
  by (induction tools arbitrary: m0) (auto split: option.splits)

text \<open>The tool choice of the lowered request is absent, or it names a function that the request
  declares, or it is an \<open>x_search\<close> choice; only a choice that is no object (a mode such as \<open>auto\<close>) passes
  through.\<close>

theorem tool_choice_declared:
  assumes "br_object (hl_bridge lib) raw = Some choice" "lowered_tool_choice lib tools raw \<noteq> ''''"
  shows "(\<exists>t f. t \<in> set tools \<and> tool_Function t = Some f \<and> fn_Name f \<noteq> '''' \<and> lowered_tool_choice lib tools raw = hl_marshal_choice lib (fn_Name f))
    \<or> lowered_tool_choice lib tools raw = ''{\"type\":\"x_search\"}''"
proof -
  have "lowered_tool_choice lib tools raw = ''{\"type\":\"x_search\"}''
      \<or> chosen_name lib choice \<noteq> '''' \<and> gm_getd False (fold (\<lambda>tool m. case tool_Function tool of Some f \<Rightarrow> gm_put (fn_Name f) True m | None \<Rightarrow> m) tools [])
          (chosen_name lib choice) \<and> lowered_tool_choice lib tools raw = hl_marshal_choice lib (chosen_name lib choice)"
    using assms unfolding lowered_tool_choice_def responsesToolChoiceToChatToolChoice_def Let_def
    by (simp only: option.case split: if_splits) simp_all
  then show ?thesis unfolding declared_names gm_getd_Nil by metis
qed

text \<open>The choice of the search tool of the upstream is dropped although the tool is declared: the names
  that are compared are those of functions only.\<close>

theorem x_search_choice_dropped:
  assumes "br_object (hl_bridge lib) raw = Some choice" "field lib choice ''type'' = ''x_search''"
    "\<And>t f. t \<in> set tools \<Longrightarrow> tool_Function t = Some f \<Longrightarrow> fn_Name f \<noteq> ''x_search''"
  shows "lowered_tool_choice lib tools raw = ''''"
  using assms unfolding lowered_tool_choice_def responsesToolChoiceToChatToolChoice_def Let_def
  by (auto simp: declared_names)

section \<open>Witnesses\<close>

text \<open>A request with two calls, of which one is answered, twice, and a decoder for its items.\<close>

definition demo_quote :: "string \<Rightarrow> string" where "demo_quote s = CHR 34 # s @ [CHR 34]"

definition demo_item :: "string \<Rightarrow> (string \<times> string) list \<Rightarrow> raw_item" where
  "demo_item type kvs = (''type'', demo_quote type) # map (\<lambda>(k, v). (k, demo_quote v)) kvs"

definition demo_items :: "(string, raw_item) gomap" where
  "demo_items = [(''u'', demo_item ''message'' [(''role'', ''user''), (''content'', ''hi'')]),
     (''c1'', demo_item ''function_call'' [(''call_id'', ''A''), (''name'', ''f''), (''arguments'', ''{}'')]),
     (''c2'', demo_item ''function_call'' [(''call_id'', ''B''), (''name'', ''f''), (''arguments'', ''{}'')]),
     (''r1'', demo_item ''function_call_output'' [(''call_id'', ''A''), (''output'', ''old'')]),
     (''r2'', demo_item ''function_call_output'' [(''call_id'', ''A''), (''output'', ''new'')]),
     (''t'', demo_item ''function'' [(''name'', ''f'')]), (''x'', demo_item ''x_search'' [])]"

definition demo_history_lib :: history_lib where
  "demo_history_lib =
     \<lparr>hl_bridge = demo_bridge\<lparr>br_valid := (\<lambda>s. s = ''{}''), br_object := gm_get demo_items,
        br_string := (\<lambda>s. if s \<noteq> [] \<and> hd s = CHR 34 then Some (butlast (tl s)) else None)\<rparr>,
      hl_array = (\<lambda>s. if s = ''[]'' then Some [''u'', ''c1'', ''c2'', ''r1'', ''r2''] else None), hl_objects = (\<lambda>s. None),
      hl_decode = (\<lambda>s. None), hl_encode = (\<lambda>j. None), hl_marshal = demo_quote, hl_marshal_parts = (\<lambda>ps. ''[..]''),
      hl_marshal_input = demo_quote, hl_marshal_choice = demo_quote\<rparr>"

definition demo_history :: "ChatMessage list" where
  "demo_history = [user_message (demo_quote ''hi''),
     zero_message\<lparr>cm_Role := ''assistant'', cm_ToolCalls := [function_call ''A'' ''f'' ''{}'']\<rparr>,
     tool_message ''A'' (demo_quote ''new'')]"

lemma demo_input: "responsesInputToChatMessages demo_history_lib '''' ''[]'' = Inr demo_history"
  by code_simp



definition demo_chat_tools :: "ChatTool list" where
  "demo_chat_tools = [function_tool ''f'' '''' '''' None]"

theorem tool_choice_declared_witness:
  "lowered_tool_choice demo_history_lib demo_chat_tools ''t'' = demo_quote ''f''"
proof -
  have object: "br_object (hl_bridge demo_history_lib) ''t'' = Some (demo_item ''function'' [(''name'', ''f'')])" by code_simp
  have choice: "lowered_tool_choice demo_history_lib demo_chat_tools ''t'' \<noteq> ''''" "hl_marshal_choice demo_history_lib = demo_quote"
    "lowered_tool_choice demo_history_lib demo_chat_tools ''t'' \<noteq> ''{\"type\":\"x_search\"}''"
    by (code_simp, simp add: demo_history_lib_def, code_simp)
  have "f = \<lparr>fn_Name = ''f'', fn_Description = '''', fn_Parameters = '''', fn_Strict = None\<rparr>" if "t \<in> set demo_chat_tools" "tool_Function t = Some f" for t f
    using that by (simp add: demo_chat_tools_def function_tool_def)
  with tool_choice_declared [OF object choice(1)] choice show ?thesis by fastforce
qed

theorem x_search_choice_dropped_witness: "lowered_tool_choice demo_history_lib (demo_chat_tools @ [x_search_tool (demo_tool ''x_search'' '''' [])]) ''x'' = ''''"
proof -
  have "br_object (hl_bridge demo_history_lib) ''x'' = Some (demo_item ''x_search'' [])" by code_simp
  moreover have "field demo_history_lib (demo_item ''x_search'' []) ''type'' = ''x_search''" by code_simp
  moreover have "fn_Name f \<noteq> ''x_search''" if "t \<in> set (demo_chat_tools @ [x_search_tool (demo_tool ''x_search'' '''' [])])" "tool_Function t = Some f" for t f
    using that by (auto simp: demo_chat_tools_def function_tool_def x_search_tool_def)
  ultimately show ?thesis by (rule x_search_choice_dropped)
qed

end
