(* ===== verification/Load_Balancer.thy ===== *)
theory Load_Balancer
  imports Payment_Refund "HOL-Library.Word" "HOL-Library.Multiset"
begin

text \<open>
  \<open>internal/payment/load_balancer.go\<close>: the choice of the provider instance that takes a payment. The
  rows of the instances and the sums of today's orders are answers of the database; \<open>encoding/json\<close>, the
  start of the day in the local time zone and the decryption of old configurations are parameters. The
  round-robin counter is a 64-bit word that wraps.
\<close>

section \<open>Data\<close>

definition StrategyRoundRobin :: string where "StrategyRoundRobin = ''round-robin''"
definition StrategyLeastAmount :: string where "StrategyLeastAmount = ''least-amount''"
definition TypeAlipayDirect :: string where "TypeAlipayDirect = ''alipay_direct''"
definition TypeWxpayDirect :: string where "TypeWxpayDirect = ''wxpay_direct''"
definition AES256KeySize :: nat where "AES256KeySize = 32"

record ChannelLimits =
  cl_DailyLimit :: float64
  cl_SingleMin :: float64
  cl_SingleMax :: float64

definition no_limits :: ChannelLimits where
  "no_limits = \<lparr>cl_DailyLimit = Finite 0, cl_SingleMin = Finite 0, cl_SingleMax = Finite 0\<rparr>"

record Instance = PaymentProviderInstance +
  pi_Enabled :: bool
  pi_SortOrder :: int
  pi_Config :: string
  pi_Limits :: string
  pi_PaymentMode :: string

record InstanceSelection =
  is_InstanceID :: string
  is_ProviderKey :: string
  is_Config :: "(string, string) gomap"
  is_SupportedTypes :: string
  is_PaymentMode :: string

record instanceCandidate =
  ic_inst :: Instance
  ic_dailyUsed :: float64

record lb_env =
  le_instances :: "goerror + Instance list"
  le_usage :: "string list \<Rightarrow> gotime \<Rightarrow> goerror + (string \<times> float64) list"
  le_now :: gotime
  le_startOfDay :: "gotime \<Rightarrow> gotime"
  le_limits :: "string \<Rightarrow> (string, ChannelLimits) gomap option"
  le_config :: "string \<Rightarrow> (string, string) gomap option"
  le_decrypt :: "string \<Rightarrow> string option"
  le_keyLength :: nat
  le_round :: "rat \<Rightarrow> float64"

section \<open>Configurations and limits\<close>

definition decryptConfig :: "lb_env \<Rightarrow> string \<Rightarrow> (string, string) gomap" where
  "decryptConfig env stored =
     (if stored = '''' then []
      else case le_config env stored of
        Some config \<Rightarrow> config
      | None \<Rightarrow>
          (if le_keyLength env = AES256KeySize
           then (case le_decrypt env stored of
                   Some plaintext \<Rightarrow> (case le_config env plaintext of Some config \<Rightarrow> config | None \<Rightarrow> [])
                 | None \<Rightarrow> [])
           else []))"

definition resolveWxpayJSAPIAppID :: "(string, string) gomap \<Rightarrow> string" where
  "resolveWxpayJSAPIAppID config =
     (let appID = trim_space (gm_getd '''' config ''mpAppId'') in
      if appID \<noteq> '''' then appID else trim_space (gm_getd '''' config ''appId''))"

definition legacyVisibleMethodAlias :: "string \<Rightarrow> string" where
  "legacyVisibleMethodAlias paymentType =
     (let t = normalizeVisibleMethodSupportType paymentType in
      if t = TypeAlipay then TypeAlipayDirect else if t = TypeWxpay then TypeWxpayDirect else '''')"

definition getInstanceChannelLimits :: "lb_env \<Rightarrow> Instance \<Rightarrow> string \<Rightarrow> ChannelLimits" where
  "getInstanceChannelLimits env inst paymentType =
     (if pi_Limits inst = '''' then no_limits
      else case le_limits env (pi_Limits inst) of
        None \<Rightarrow> no_limits
      | Some limits \<Rightarrow>
          (let lookupKey = (if pi_ProviderKey inst = ''stripe'' then ''stripe'' else paymentType);
               aliasKey = legacyVisibleMethodAlias lookupKey
           in case gm_get limits lookupKey of
                Some cl \<Rightarrow> cl
              | None \<Rightarrow>
                  (if aliasKey \<noteq> '''' then (case gm_get limits aliasKey of Some cl \<Rightarrow> cl | None \<Rightarrow> no_limits) else no_limits)))"

section \<open>Candidates\<close>

definition matches_type :: "lb_env \<Rightarrow> string \<Rightarrow> string \<Rightarrow> Instance \<Rightarrow> bool" where
  "matches_type env appID paymentType inst =
     (if paymentType = TypeStripe then pi_ProviderKey inst = TypeStripe
      else InstanceSupportsType (pi_SupportedTypes inst) paymentType \<and>
        \<not> (appID \<noteq> '''' \<and> normalizeVisibleMethodSupportType paymentType = TypeWxpay \<and> pi_ProviderKey inst = TypeWxpay
            \<and> resolveWxpayJSAPIAppID (decryptConfig env (pi_Config inst)) \<noteq> appID))"

definition enabledInstances :: "lb_env \<Rightarrow> string \<Rightarrow> string \<Rightarrow> string \<Rightarrow> Instance list \<Rightarrow> Instance list" where
  "enabledInstances env appID providerKey paymentType table =
     filter (matches_type env appID paymentType)
       (sort_key pi_SortOrder (filter (\<lambda>i. pi_Enabled i \<and> (providerKey = '''' \<or> pi_ProviderKey i = providerKey)) table))"

definition queryEnabledInstances :: "lb_env \<Rightarrow> string \<Rightarrow> string \<Rightarrow> string \<Rightarrow> goerror + Instance list" where
  "queryEnabledInstances env appID providerKey paymentType =
     (case le_instances env of
        Inl e \<Rightarrow> Inl (WrapError ''query provider instances'' e)
      | Inr table \<Rightarrow>
          (let matched = enabledInstances env appID providerKey paymentType table
           in if matched = [] then Inl (PlainError (''no enabled instance for payment type '' @ paymentType)) else Inr matched))"

definition attachDailyUsage :: "lb_env \<Rightarrow> Instance list \<Rightarrow> instanceCandidate list" where
  "attachDailyUsage env instances =
     (let rows = (case le_usage env (map (\<lambda>i. itoa (pi_ID i)) instances) (le_startOfDay env (le_now env)) of Inl e \<Rightarrow> [] | Inr rows \<Rightarrow> rows);
          usageMap = fold (\<lambda>(k, v) m. gm_put k v m) rows []
      in map (\<lambda>i. \<lparr>ic_inst = i, ic_dailyUsed = gm_getd (Finite 0) usageMap (itoa (pi_ID i))\<rparr>) instances)"

definition within_limits :: "lb_env \<Rightarrow> string \<Rightarrow> float64 \<Rightarrow> instanceCandidate \<Rightarrow> bool" where
  "within_limits env paymentType orderAmount c =
     (let cl = getInstanceChannelLimits env (ic_inst c) paymentType in
      if flt (Finite 0) (cl_SingleMin cl) \<and> flt orderAmount (cl_SingleMin cl) then False
      else if flt (Finite 0) (cl_SingleMax cl) \<and> flt (cl_SingleMax cl) orderAmount then False
      else \<not> (flt (Finite 0) (cl_DailyLimit cl) \<and> flt (cl_DailyLimit cl) (fadd (le_round env) (ic_dailyUsed c) orderAmount)))"

definition filterByLimits :: "lb_env \<Rightarrow> instanceCandidate list \<Rightarrow> string \<Rightarrow> float64 \<Rightarrow> instanceCandidate list" where
  "filterByLimits env candidates paymentType orderAmount = filter (within_limits env paymentType orderAmount) candidates"

section \<open>The choice\<close>

definition pickLeastAmount :: "instanceCandidate list \<Rightarrow> instanceCandidate" where
  "pickLeastAmount candidates = fold (\<lambda>c best. if flt (ic_dailyUsed c) (ic_dailyUsed best) then c else best) (tl candidates) (hd candidates)"

definition pickByStrategy :: "64 word \<Rightarrow> instanceCandidate list \<Rightarrow> string \<Rightarrow> 64 word \<times> instanceCandidate" where
  "pickByStrategy counter candidates strategy =
     (if strategy = StrategyLeastAmount \<and> 1 < length candidates then (counter, pickLeastAmount candidates)
      else (let counter' = counter + 1 in (counter', candidates ! (unat counter' mod length candidates))))"

definition buildSelection :: "lb_env \<Rightarrow> Instance \<Rightarrow> InstanceSelection" where
  "buildSelection env inst =
     (let config = decryptConfig env (pi_Config inst);
          config = (if pi_PaymentMode inst \<noteq> '''' then gm_put ''paymentMode'' (pi_PaymentMode inst) config else config)
      in \<lparr>is_InstanceID = itoa (pi_ID inst), is_ProviderKey = pi_ProviderKey inst, is_Config = config,
          is_SupportedTypes = pi_SupportedTypes inst, is_PaymentMode = pi_PaymentMode inst\<rparr>)"

definition SelectInstance ::
  "lb_env \<Rightarrow> string \<Rightarrow> string \<Rightarrow> string \<Rightarrow> string \<Rightarrow> float64 \<Rightarrow> 64 word \<Rightarrow> 64 word \<times> (goerror + InstanceSelection)" where
  "SelectInstance env appID providerKey paymentType strategy orderAmount counter =
     (case queryEnabledInstances env appID providerKey paymentType of
        Inl e \<Rightarrow> (counter, Inl e)
      | Inr instances \<Rightarrow>
          (let candidates = attachDailyUsage env instances;
               available = filterByLimits env candidates paymentType orderAmount;
               available = (if available = [] then candidates else available);
               (counter', selected) = pickByStrategy counter available strategy
           in (counter', Inr (buildSelection env (ic_inst selected)))))"

definition GetInstanceConfig :: "lb_env \<Rightarrow> int \<Rightarrow> goerror + (string, string) gomap" where
  "GetInstanceConfig env instanceID =
     (case le_instances env of
        Inl e \<Rightarrow> Inl (WrapError (''get instance '' @ itoa instanceID) e)
      | Inr table \<Rightarrow>
          (case only (filter (\<lambda>i. pi_ID i = instanceID) table) of
             Inl e \<Rightarrow> Inl (WrapError (''get instance '' @ itoa instanceID) e)
           | Inr inst \<Rightarrow> Inr (decryptConfig env (pi_Config inst))))"

section \<open>The selected instance\<close>

lemma fold_pick: "fold (\<lambda>c best. if P c best then c else best) cs b \<in> insert b (set cs)"
  by (induction cs arbitrary: b) fastforce+

lemma pick_in: "cs \<noteq> [] \<Longrightarrow> snd (pickByStrategy counter cs strategy) \<in> set cs"
  using fold_pick [of _ "tl cs" "hd cs"] nth_mem [of "unat (counter + 1) mod length cs" cs]
  by (cases cs) (auto simp: pickByStrategy_def pickLeastAmount_def Let_def simp del: nth_mem)

lemma attach_inst: "c \<in> set (attachDailyUsage env is) \<Longrightarrow> ic_inst c \<in> set is"
  by (auto simp: attachDailyUsage_def Let_def)

lemma attach_Nil [simp]: "attachDailyUsage env is = [] \<longleftrightarrow> is = []"
  by (simp add: attachDailyUsage_def Let_def)

lemma enabledInstances_iff:
  "i \<in> set (enabledInstances env appID providerKey paymentType table) \<longleftrightarrow>
     i \<in> set table \<and> pi_Enabled i \<and> (providerKey = '''' \<or> pi_ProviderKey i = providerKey) \<and> matches_type env appID paymentType i"
  by (auto simp: enabledInstances_def)

text \<open>The candidates among which the strategy chooses: those within their limits, or all of them when
  there are none.\<close>

definition available :: "lb_env \<Rightarrow> string \<Rightarrow> float64 \<Rightarrow> instanceCandidate list \<Rightarrow> instanceCandidate list" where
  "available env paymentType amount candidates =
     (case filterByLimits env candidates paymentType amount of [] \<Rightarrow> candidates | av \<Rightarrow> av)"

lemma SelectInstance_Inr:
  assumes "le_instances env = Inr table" "enabledInstances env appID providerKey paymentType table = is" "is \<noteq> []"
  shows "SelectInstance env appID providerKey paymentType strategy amount counter =
     map_prod id (\<lambda>c. Inr (buildSelection env (ic_inst c)))
       (pickByStrategy counter (available env paymentType amount (attachDailyUsage env is)) strategy)"
  using assms
  by (cases "filterByLimits env (attachDailyUsage env is) paymentType amount")
    (simp_all add: SelectInstance_def queryEnabledInstances_def available_def Let_def split_def map_prod_def)

lemma available_in:
  "c \<in> set (available env paymentType amount cs) \<Longrightarrow>
     c \<in> set cs \<and> (within_limits env paymentType amount c \<or> list_all (\<lambda>c. \<not> within_limits env paymentType amount c) cs)"
  by (cases "filterByLimits env cs paymentType amount")
    (auto simp: available_def filterByLimits_def filter_empty_conv list_all_iff Cons_eq_filter_iff dest: filter_eq_ConsD)

lemma available_ne: "cs \<noteq> [] \<Longrightarrow> available env paymentType amount cs \<noteq> []"
  by (simp add: available_def split: list.split)

text \<open>C28: a payment goes only to an instance that is enabled, belongs to the requested provider and supports
  the method; it respects the instance's limits for one payment and for the day, unless no candidate's
  limits allow the payment. When the table can be read, the selection fails only if there is no such
  instance.\<close>

theorem selection_eligible:
  assumes "le_instances env = Inr table"
  shows "case snd (SelectInstance env appID providerKey paymentType strategy amount counter) of
      Inl e \<Rightarrow> enabledInstances env appID providerKey paymentType table = []
    | Inr sel \<Rightarrow> (let cs = attachDailyUsage env (enabledInstances env appID providerKey paymentType table) in
        \<exists>c. c \<in> set cs \<and> sel = buildSelection env (ic_inst c) \<and> ic_inst c \<in> set table \<and> pi_Enabled (ic_inst c)
          \<and> (providerKey = '''' \<or> pi_ProviderKey (ic_inst c) = providerKey) \<and> matches_type env appID paymentType (ic_inst c)
          \<and> (within_limits env paymentType amount c \<or> list_all (\<lambda>c. \<not> within_limits env paymentType amount c) cs))"
proof (cases "enabledInstances env appID providerKey paymentType table = []")
  case True
  then show ?thesis using assms by (simp add: SelectInstance_def queryEnabledInstances_def Let_def)
next
  case False
  let ?cs = "attachDailyUsage env (enabledInstances env appID providerKey paymentType table)"
  define c where "c = snd (pickByStrategy counter (available env paymentType amount ?cs) strategy)"
  have "c \<in> set (available env paymentType amount ?cs)" unfolding c_def by (intro pick_in available_ne) (use False in simp)
  from available_in [OF this] have c: "c \<in> set ?cs" "within_limits env paymentType amount c \<or> list_all (\<lambda>c. \<not> within_limits env paymentType amount c) ?cs"
    by blast+
  with attach_inst [OF c(1)] show ?thesis
    unfolding SelectInstance_Inr [OF assms refl False] by (auto simp: c_def [symmetric] enabledInstances_iff Let_def)
qed

section \<open>Fairness\<close>

text \<open>The instances of \<open>n\<close> payments in a row over the same candidates.\<close>

primrec picks :: "nat \<Rightarrow> 64 word \<Rightarrow> instanceCandidate list \<Rightarrow> string \<Rightarrow> instanceCandidate list" where
  "picks 0 counter cs strategy = []"
| "picks (Suc n) counter cs strategy = (case pickByStrategy counter cs strategy of (counter', c) \<Rightarrow> c # picks n counter' cs strategy)"

lemma unat_Suc: "unat counter + 1 < 2 ^ 64 \<Longrightarrow> unat (counter + 1 :: 64 word) = unat counter + 1"
  by (simp add: unat_word_ariths)

lemma pick_next:
  assumes "strategy \<noteq> StrategyLeastAmount" "unat counter + 1 < 2 ^ 64"
  shows "pickByStrategy counter cs strategy = (counter + 1, cs ! ((unat counter + 1) mod length cs))"
  using assms(1) by (simp add: pickByStrategy_def Let_def unat_Suc [OF assms(2)])

lemma picks_round_robin:
  assumes "strategy \<noteq> StrategyLeastAmount" "unat counter + n < 2 ^ 64"
  shows "picks n counter cs strategy = map (\<lambda>i. cs ! ((unat counter + 1 + i) mod length cs)) [0..<n]"
  using assms(2)
proof (induction n arbitrary: counter)
  case (Suc n)
  have "unat counter + 1 < 2 ^ 64" using Suc.prems by simp
  with Suc.IH [of "counter + 1"] Suc.prems show ?case
    by (simp add: pick_next [OF assms(1)] unat_Suc map_upt_Suc del: upt_Suc)
qed simp

lemma mset_rotation: "mset (map (\<lambda>i. cs ! ((c + i) mod length cs)) [0..<length cs]) = mset cs"
proof -
  have "map (\<lambda>i. cs ! ((c + i) mod length cs)) [0..<length cs] = rotate c cs"
    by (rule nth_equalityI) (simp_all add: nth_rotate add.commute)
  moreover have "mset (rotate c cs) = mset cs"
    unfolding rotate_drop_take by (metis append_take_drop_id mset_append union_commute)
  ultimately show ?thesis by (simp only:)
qed

text \<open>With the round-robin strategy, any run of as many payments as there are candidates uses each of
  them exactly once, as long as the 64-bit counter does not wrap.\<close>

theorem round_robin_fair:
  assumes "strategy \<noteq> StrategyLeastAmount" "unat counter + length cs < 2 ^ 64"
  shows "mset (picks (length cs) counter cs strategy) = mset cs"
  unfolding picks_round_robin [OF assms] by (rule mset_rotation)

section \<open>The least used instance\<close>

lemma flt_asym: "flt x y \<Longrightarrow> \<not> flt y x"
  by (cases x; cases y) auto

lemma flt_irrefl [simp]: "\<not> flt x x"
  by (cases x) auto

lemma not_flt_trans: "\<not> flt x y \<Longrightarrow> \<not> flt y z \<Longrightarrow> y \<noteq> NaN \<Longrightarrow> \<not> flt x z"
  by (cases x; cases y; cases z) auto

lemma fold_least:
  assumes "u b \<noteq> NaN" "NaN \<notin> u ` set cs" "c \<in> insert b (set cs)"
  shows "\<not> flt (u c) (u (fold (\<lambda>c best. if flt (u c) (u best) then c else best) cs b))"
  using assms
proof (induction cs arbitrary: b c)
  case Nil
  then show ?case by simp
next
  case (Cons x cs)
  let ?b = "if flt (u x) (u b) then x else b"
  have ne: "u ?b \<noteq> NaN" using Cons.prems by auto
  have nan: "NaN \<notin> u ` set cs" using Cons.prems(2) by simp
  note IH = Cons.IH [OF ne nan]
  from Cons.prems(3) consider "\<not> flt (u c) (u ?b)" | "c \<in> set cs"
    by (cases "flt (u x) (u b)") (auto dest: flt_asym)
  then show ?case
  proof cases
    case 1
    from not_flt_trans [OF this IH [of ?b] ne] show ?thesis by simp
  next
    case 2
    then show ?thesis using IH [of c] by simp
  qed
qed

text \<open>The least-amount strategy chooses an instance that no other undercuts.\<close>

lemma pickLeastAmount_least:
  assumes "c \<in> set cs" "NaN \<notin> ic_dailyUsed ` set cs"
  shows "\<not> flt (ic_dailyUsed c) (ic_dailyUsed (pickLeastAmount cs))"
proof -
  have "insert (hd cs) (set (tl cs)) = set cs" using assms(1) by (cases cs) auto
  with assms have "ic_dailyUsed (hd cs) \<noteq> NaN" "NaN \<notin> ic_dailyUsed ` set (tl cs)" "c \<in> insert (hd cs) (set (tl cs))"
    by (metis image_eqI insertI1, metis image_iff insertI2, simp)
  then show ?thesis unfolding pickLeastAmount_def by (rule fold_least)
qed

section \<open>An installation\<close>

definition demo_instance :: "int \<Rightarrow> Instance" where
  "demo_instance i = \<lparr>pi_ID = i, pi_ProviderKey = ''alipay'', pi_SupportedTypes = '''', pi_RefundEnabled = True, pi_AllowUserRefund = False,
     pi_Enabled = True, pi_SortOrder = i, pi_Config = '''', pi_Limits = '''', pi_PaymentMode = ''''\<rparr>"

definition demo_lb :: lb_env where
  "demo_lb = \<lparr>le_instances = Inr [demo_instance 2, demo_instance 1], le_usage = (\<lambda>_ _. Inr []), le_now = 0, le_startOfDay = (\<lambda>t. t),
     le_limits = (\<lambda>_. None), le_config = (\<lambda>_. None), le_decrypt = (\<lambda>_. None), le_keyLength = 0, le_round = Finite\<rparr>"

theorem selection_eligible_witness:
  "snd (SelectInstance demo_lb [] [] ''alipay'' ''round-robin'' (Finite 50) 0) = Inr (buildSelection demo_lb (demo_instance 2))
   \<and> (\<exists>c. c \<in> set (attachDailyUsage demo_lb (enabledInstances demo_lb [] [] ''alipay'' [demo_instance 2, demo_instance 1]))
        \<and> buildSelection demo_lb (demo_instance 2) = buildSelection demo_lb (ic_inst c) \<and> pi_Enabled (ic_inst c))"
proof -
  have inst: "le_instances demo_lb = Inr [demo_instance 2, demo_instance 1]" by (simp add: demo_lb_def)
  have "SelectInstance demo_lb [] [] ''alipay'' ''round-robin'' (Finite 50) 0 = (1, Inr (buildSelection demo_lb (demo_instance 2)))" by code_simp
  with selection_eligible [OF inst, where appID = "[]" and providerKey = "[]" and paymentType = "''alipay''" and strategy = "''round-robin''"
      and amount = "Finite 50" and counter = 0] show ?thesis by (auto simp: Let_def)
qed

theorem round_robin_fair_witness:
  "mset (picks 2 5 [\<lparr>ic_inst = demo_instance 1, ic_dailyUsed = Finite 0\<rparr>, \<lparr>ic_inst = demo_instance 2, ic_dailyUsed = Finite 0\<rparr>] ''round-robin'')
   = {#\<lparr>ic_inst = demo_instance 1, ic_dailyUsed = Finite 0\<rparr>, \<lparr>ic_inst = demo_instance 2, ic_dailyUsed = Finite 0\<rparr>#}"
proof -
  let ?cs = "[\<lparr>ic_inst = demo_instance 1, ic_dailyUsed = Finite 0\<rparr>, \<lparr>ic_inst = demo_instance 2, ic_dailyUsed = Finite 0\<rparr>]"
  have "''round-robin'' \<noteq> StrategyLeastAmount" "unat (5 :: 64 word) + length ?cs < 2 ^ 64" by (simp_all add: StrategyLeastAmount_def)
  from round_robin_fair [OF this] have "mset (picks (length ?cs) 5 ?cs ''round-robin'') = mset ?cs" .
  moreover have "length ?cs = 2" by simp
  ultimately show ?thesis by (simp only: mset.simps)
qed

end
