(* ===== verification/Payment_Amounts.thy ===== *)
theory Payment_Amounts
  imports Payment_Refund
begin

text \<open>
  The amounts of an order: \<open>service/payment_amounts.go\<close>, \<open>payment/fee.go\<close>, \<open>payment/currency.go\<close> and the
  functions of \<open>service/payment_order.go\<close> that turn the amount of a request into the amount credited and
  the amount to pay. The \<open>decimal\<close> library of \<open>shopspring\<close> and the conversions of \<open>strconv\<close> are the
  parameter \<open>dec_lib\<close>; \<open>decimal.NewFromFloat\<close> panics for a number that is not finite, which is an error
  value here.
\<close>

section \<open>The decimal library\<close>

record dec_lib =
  dl_pay :: pay_lib
  dl_of :: "rat \<Rightarrow> rat"
  dl_parse :: "string \<Rightarrow> rat option"
  dl_div :: "rat \<Rightarrow> rat \<Rightarrow> rat"
  dl_round :: "rat \<Rightarrow> nat \<Rightarrow> rat"
  dl_roundUp :: "rat \<Rightarrow> nat \<Rightarrow> rat"
  dl_intPart :: "rat \<Rightarrow> int"
  dl_fixed :: "rat \<Rightarrow> nat \<Rightarrow> string"
  dl_float :: "rat \<Rightarrow> float64"
  dl_format :: "float64 \<Rightarrow> string"
  dl_parseFloat :: "string \<Rightarrow> float64 option"

definition decimal_panic :: goerror where "decimal_panic = PlainError ''panic: Cannot create a Decimal from NaN or Inf''"

definition NewFromFloat :: "dec_lib \<Rightarrow> float64 \<Rightarrow> goerror + rat" where
  "NewFromFloat lib x = (case x of Finite r \<Rightarrow> Inr (dl_of lib r) | _ \<Rightarrow> Inl decimal_panic)"

definition or_err :: "goerror + 'a \<Rightarrow> ('a \<Rightarrow> goerror + 'b) \<Rightarrow> goerror + 'b" where
  "or_err r k = (case r of Inl e \<Rightarrow> Inl e | Inr x \<Rightarrow> k x)"

lemma or_err_simps [simp]: "or_err (Inl e) k = Inl e" "or_err (Inr x) k = k x"
  by (simp_all add: or_err_def)

lemma or_err_Inr: "or_err r k = Inr y \<longleftrightarrow> (\<exists>x. r = Inr x \<and> k x = Inr y)"
  by (cases r) auto

section \<open>Currencies\<close>

definition FormatAmountForCurrency :: "dec_lib \<Rightarrow> float64 \<Rightarrow> string \<Rightarrow> goerror + string" where
  "FormatAmountForCurrency lib amount currency =
     or_err (NewFromFloat lib amount) (\<lambda>d. Inr (dl_fixed lib d (CurrencyMaxFractionDigits currency)))"

definition bad_currency :: goerror where "bad_currency = PlainError ''payment currency must be a 3-letter ISO currency code''"

definition AmountToMinorUnit :: "dec_lib \<Rightarrow> string \<Rightarrow> string \<Rightarrow> goerror + int" where
  "AmountToMinorUnit lib amountStr currency =
     (case dl_parse lib (trim_space amountStr) of
        None \<Rightarrow> Inl (PlainError (''invalid amount: '' @ amountStr))
      | Some d \<Rightarrow>
          (case NormalizePaymentCurrency currency of
             None \<Rightarrow> Inl bad_currency
           | Some normalizedCurrency \<Rightarrow>
               (let unit = paymentCurrencyAmountUnitFor normalizedCurrency;
                    scaled = d * 10 ^ cu_maxFractionDigits unit
                in if scaled \<noteq> of_int \<lfloor>scaled\<rfloor> then
                     (if cu_maxFractionDigits unit = 0
                      then Inl (PlainError (''payment amount for '' @ normalizedCurrency @ '' must be a whole number''))
                      else Inl (PlainError (''payment amount for '' @ normalizedCurrency @ '' must not have more than ''
                             @ itoa (int (cu_maxFractionDigits unit)) @ '' decimal places'')))
                   else Inr (dl_intPart lib (d * 10 ^ cu_apiMinorUnit unit)))))"

definition MinorUnitToAmount :: "dec_lib \<Rightarrow> int \<Rightarrow> string \<Rightarrow> float64" where
  "MinorUnitToAmount lib amount currency = dl_float lib (dl_div lib (of_int amount) (10 ^ CurrencyMinorUnit currency))"

definition YuanToFen :: "dec_lib \<Rightarrow> string \<Rightarrow> goerror + int" where
  "YuanToFen lib yuanStr = AmountToMinorUnit lib yuanStr DefaultPaymentCurrency"

definition FenToYuan :: "dec_lib \<Rightarrow> int \<Rightarrow> float64" where
  "FenToYuan lib fen = MinorUnitToAmount lib fen DefaultPaymentCurrency"

section \<open>Multiplier, rate and fee\<close>

definition defaultBalanceRechargeMultiplier :: float64 where "defaultBalanceRechargeMultiplier = Finite 1"

definition not_finite :: "float64 \<Rightarrow> bool" where
  "not_finite x \<longleftrightarrow> x = NaN \<or> x = PosInf \<or> x = NegInf"

definition normalizeBalanceRechargeMultiplier :: "float64 \<Rightarrow> float64" where
  "normalizeBalanceRechargeMultiplier multiplier =
     (if not_finite multiplier \<or> fle multiplier (Finite 0) then defaultBalanceRechargeMultiplier else multiplier)"

definition normalizeSubscriptionUSDToCNYRate :: "float64 \<Rightarrow> float64" where
  "normalizeSubscriptionUSDToCNYRate rate = (if not_finite rate \<or> flt rate (Finite 0) then Finite 0 else rate)"

definition calculateCreditedBalance :: "dec_lib \<Rightarrow> float64 \<Rightarrow> float64 \<Rightarrow> goerror + float64" where
  "calculateCreditedBalance lib paymentAmount multiplier =
     or_err (NewFromFloat lib paymentAmount) (\<lambda>d.
     or_err (NewFromFloat lib (normalizeBalanceRechargeMultiplier multiplier)) (\<lambda>m.
       Inr (dl_float lib (dl_round lib (d * m) 2))))"

definition calculateBalanceBonusAmount :: "dec_lib \<Rightarrow> float64 \<Rightarrow> float64 \<Rightarrow> float64 \<Rightarrow> goerror + float64" where
  "calculateBalanceBonusAmount lib paymentAmount creditedAmount multiplier =
     (if fle multiplier (Finite 1) \<or> fle paymentAmount (Finite 0) \<or> fle creditedAmount paymentAmount then Inr (Finite 0)
      else
        or_err (NewFromFloat lib creditedAmount) (\<lambda>c.
        or_err (NewFromFloat lib paymentAmount) (\<lambda>d.
          Inr (dl_float lib (dl_round lib (c - d) 2)))))"

definition calculateGatewayPaymentAmount :: "dec_lib \<Rightarrow> float64 \<Rightarrow> float64 \<Rightarrow> string \<Rightarrow> goerror + float64" where
  "calculateGatewayPaymentAmount lib orderAmount multiplier currency =
     or_err (NewFromFloat lib orderAmount) (\<lambda>d.
     or_err (NewFromFloat lib (normalizeBalanceRechargeMultiplier multiplier)) (\<lambda>m.
       Inr (dl_float lib (dl_round lib (dl_div lib d m) (CurrencyMaxFractionDigits currency)))))"

definition calculateSubscriptionGatewayBaseAmount :: "dec_lib \<Rightarrow> float64 \<Rightarrow> float64 \<Rightarrow> string \<Rightarrow> goerror + float64" where
  "calculateSubscriptionGatewayBaseAmount lib amount usdToCnyRate currency =
     (let rate = normalizeSubscriptionUSDToCNYRate usdToCnyRate in
      if fle rate (Finite 0) \<or> currency \<noteq> DefaultPaymentCurrency then Inr amount
      else
        or_err (NewFromFloat lib amount) (\<lambda>d.
        or_err (NewFromFloat lib rate) (\<lambda>r.
          Inr (dl_float lib (dl_round lib (d * r) (CurrencyMaxFractionDigits currency))))))"

definition CalculatePayAmountForCurrency :: "dec_lib \<Rightarrow> float64 \<Rightarrow> float64 \<Rightarrow> string \<Rightarrow> goerror + string" where
  "CalculatePayAmountForCurrency lib rechargeAmount feeRate currency =
     (let fractionDigits = CurrencyMaxFractionDigits currency in
      or_err (NewFromFloat lib rechargeAmount) (\<lambda>amount.
        if fle feeRate (Finite 0) then Inr (dl_fixed lib amount fractionDigits)
        else or_err (NewFromFloat lib feeRate) (\<lambda>rate.
          (let fee = dl_roundUp lib (dl_div lib (amount * rate) 100) fractionDigits
           in Inr (dl_fixed lib (amount + fee) fractionDigits)))))"

definition CalculatePayAmount :: "dec_lib \<Rightarrow> float64 \<Rightarrow> float64 \<Rightarrow> goerror + string" where
  "CalculatePayAmount lib rechargeAmount feeRate = CalculatePayAmountForCurrency lib rechargeAmount feeRate DefaultPaymentCurrency"

section \<open>The amount to pay\<close>

definition invalid_amount :: "string \<Rightarrow> string \<Rightarrow> goerror" where
  "invalid_amount msg currency = app_err (WithMetadata (BadRequest ''INVALID_AMOUNT'' msg) (Some [(''currency'', currency)]))"

definition check_minor_unit :: "dec_lib \<Rightarrow> string \<Rightarrow> string \<Rightarrow> goerror option" where
  "check_minor_unit lib amountStr currency =
     (case AmountToMinorUnit lib amountStr currency of
        Inl err \<Rightarrow> Some (invalid_amount (pl_error (dl_pay lib) err) currency)
      | Inr m \<Rightarrow> None)"

definition validateCreateOrderAmountCurrency :: "dec_lib \<Rightarrow> float64 \<Rightarrow> string \<Rightarrow> goerror option" where
  "validateCreateOrderAmountCurrency lib amount currency = check_minor_unit lib (dl_format lib amount) currency"

definition calculateCreateOrderPayAmount :: "dec_lib \<Rightarrow> float64 \<Rightarrow> float64 \<Rightarrow> string \<Rightarrow> goerror + (string \<times> float64)" where
  "calculateCreateOrderPayAmount lib limitAmount feeRate currency =
     (case validateCreateOrderAmountCurrency lib limitAmount currency of
        Some err \<Rightarrow> Inl err
      | None \<Rightarrow>
          or_err (CalculatePayAmountForCurrency lib limitAmount feeRate currency) (\<lambda>payAmountStr.
            case check_minor_unit lib payAmountStr currency of
              Some err \<Rightarrow> Inl err
            | None \<Rightarrow>
                (case dl_parseFloat lib payAmountStr of
                   None \<Rightarrow> Inl (invalid_amount ''invalid payment amount'' currency)
                 | Some payAmount \<Rightarrow> Inr (payAmountStr, payAmount))))"

definition calculateCreateOrderPayAmountForOrder ::
  "dec_lib \<Rightarrow> string \<Rightarrow> float64 \<Rightarrow> float64 \<Rightarrow> float64 \<Rightarrow> float64 \<Rightarrow> string \<Rightarrow> goerror + (string \<times> float64)" where
  "calculateCreateOrderPayAmountForOrder lib orderType limitAmount feeRate balanceRechargeMultiplier subscriptionUSDToCNYRate currency =
     or_err (if orderType = OrderTypeBalance then calculateGatewayPaymentAmount lib limitAmount balanceRechargeMultiplier currency
             else if orderType = OrderTypeSubscription
               then calculateSubscriptionGatewayBaseAmount lib limitAmount subscriptionUSDToCNYRate currency
             else Inr limitAmount)
       (\<lambda>paymentAmount. calculateCreateOrderPayAmount lib paymentAmount feeRate currency)"

section \<open>Facts\<close>

lemma NewFromFloat_Finite [simp]: "NewFromFloat lib (Finite r) = Inr (dl_of lib r)"
  by (simp add: NewFromFloat_def)

lemma multiplier_finite: "\<exists>m. normalizeBalanceRechargeMultiplier x = Finite m \<and> 0 < m"
  by (cases x) (auto simp: normalizeBalanceRechargeMultiplier_def defaultBalanceRechargeMultiplier_def not_finite_def fle_def)

lemma multiplier_kept: "0 < m \<Longrightarrow> normalizeBalanceRechargeMultiplier (Finite m) = Finite m"
  by (simp add: normalizeBalanceRechargeMultiplier_def not_finite_def fle_def)

text \<open>Whatever multiplier is configured, the amounts of a finite request are computed without a panic.\<close>

lemma credited_total: "\<exists>x. calculateCreditedBalance lib (Finite a) multiplier = Inr x"
  using multiplier_finite [of multiplier] by (auto simp: calculateCreditedBalance_def)

lemma gateway_total: "\<exists>x. calculateGatewayPaymentAmount lib (Finite a) multiplier currency = Inr x"
  using multiplier_finite [of multiplier] by (auto simp: calculateGatewayPaymentAmount_def)

section \<open>Exact amounts\<close>

text \<open>The amount \<open>a\<close> and the multiplier \<open>m\<close> are decimals for which no rounding is needed: product and
  quotient have at most two fraction digits and are converted without loss.\<close>

definition exact_amounts :: "dec_lib \<Rightarrow> rat \<Rightarrow> rat \<Rightarrow> bool" where
  "exact_amounts lib a m \<longleftrightarrow> 0 < m \<and> dl_of lib a = a \<and> dl_of lib m = m \<and> dl_of lib (a / m) = a / m \<and> dl_div lib a m = a / m
     \<and> dl_round lib (a * m) 2 = a * m \<and> dl_round lib (a / m) 2 = a / m
     \<and> dl_float lib (a * m) = Finite (a * m) \<and> dl_float lib (a / m) = Finite (a / m)
     \<and> dl_parseFloat lib (dl_fixed lib (a / m) 2) = Some (Finite (a / m))"

lemma CNY_digits [simp]: "CurrencyMaxFractionDigits DefaultPaymentCurrency = 2"
  by code_simp

lemma exact_credited: "exact_amounts lib a m \<Longrightarrow> calculateCreditedBalance lib (Finite a) (Finite m) = Inr (Finite (a * m))"
  by (simp add: exact_amounts_def calculateCreditedBalance_def multiplier_kept)

lemma pay_amount_no_fee:
  assumes "calculateCreateOrderPayAmount lib (Finite p) feeRate currency = Inr (s, pay)" "fle feeRate (Finite 0)"
  shows "dl_parseFloat lib (dl_fixed lib (dl_of lib p) (CurrencyMaxFractionDigits currency)) = Some pay"
  using assms by (auto simp: calculateCreateOrderPayAmount_def CalculatePayAmountForCurrency_def split: option.splits)

lemma exact_payment:
  assumes "exact_amounts lib a m" "fle feeRate (Finite 0)"
    and "calculateCreateOrderPayAmountForOrder lib OrderTypeBalance (Finite a) feeRate (Finite m) rate DefaultPaymentCurrency = Inr (s, pay)"
  shows "pay = Finite (a / m)"
proof -
  have "calculateGatewayPaymentAmount lib (Finite a) (Finite m) DefaultPaymentCurrency = Inr (Finite (a / m))"
    using assms(1) by (simp add: exact_amounts_def calculateGatewayPaymentAmount_def multiplier_kept)
  then have "calculateCreateOrderPayAmount lib (Finite (a / m)) feeRate DefaultPaymentCurrency = Inr (s, pay)"
    using assms(3) by (simp add: calculateCreateOrderPayAmountForOrder_def)
  from pay_amount_no_fee [OF this assms(2)] assms(1) show ?thesis by (simp add: exact_amounts_def)
qed

end
