(* ===== verification/Payment_Creation.thy ===== *)
theory Payment_Creation
  imports Load_Balancer Payment_Amounts Payment_Safety
begin

text \<open>
  \<open>CreateOrder\<close> of \<open>service/payment_order.go\<close>: the checks of a request, its amounts, the choice of a
  provider instance, the transaction that inserts the order, and the call of the provider. The handler is
  a program over statements, like the handlers of the other payment theories; the statements of a
  transaction that only read are separate, since the database runs it with read-committed isolation, and
  its writes are one statement, since they become visible together. Services that only answer
  (configuration, plans, groups, users, the provider's API, return URLs and tokens) are fields of
  \<open>create_env\<close>. Columns that no modelled handler reads (the fee rate, payment URLs, the client's data) are
  not part of the row.
\<close>

section \<open>Data\<close>

record CreateOrderRequest =
  cr_UserID :: int
  cr_Amount :: float64
  cr_PaymentType :: string
  cr_OpenID :: string
  cr_ClientIP :: string
  cr_IsMobile :: bool
  cr_AlipayMobilePrecreate :: bool
  cr_IsWeChatBrowser :: bool
  cr_ReturnURL :: string
  cr_OrderType :: string
  cr_PlanID :: int

record PaymentConfig =
  cf_Enabled :: bool
  cf_MinAmount :: float64
  cf_MaxAmount :: float64
  cf_DailyLimit :: float64
  cf_OrderTimeoutMin :: int
  cf_MaxPendingOrders :: int
  cf_BalanceDisabled :: bool
  cf_BalanceRechargeMultiplier :: float64
  cf_SubscriptionUSDToCNYRate :: float64
  cf_RechargeFeeRate :: float64
  cf_LoadBalanceStrategy :: string
  cf_ProductNamePrefix :: string
  cf_ProductNameSuffix :: string
  cf_CancelRateLimit :: cancel_limit
  cf_AlipayMobilePrecreateDeepLink :: bool

record SubscriptionPlan =
  sp_ID :: int
  sp_GroupID :: int
  sp_Name :: string
  sp_Price :: float64
  sp_ValidityDays :: int
  sp_ValidityUnit :: string
  sp_ProductName :: string
  sp_ForSale :: bool

record plan_group =
  gr_Status :: string
  gr_SubscriptionType :: string

record WechatOAuthInfo =
  wo_AuthorizeURL :: string
  wo_AppID :: string
  wo_Scope :: string
  wo_RedirectURL :: string

record CreatePaymentRequest =
  cp_OrderID :: string
  cp_Amount :: string
  cp_PaymentType :: string
  cp_Subject :: string
  cp_ReturnURL :: string
  cp_OpenID :: string
  cp_ClientIP :: string
  cp_IsMobile :: bool
  cp_AlipayMobilePrecreate :: bool
  cp_InstanceSubMethods :: string

record CreatePaymentResponse =
  pr_TradeNo :: string
  pr_PayURL :: string
  pr_QRCode :: string
  pr_ClientSecret :: string
  pr_IntentID :: string
  pr_Currency :: string
  pr_ResultType :: string
  pr_OAuth :: "WechatOAuthInfo option"

record CreateOrderResponse =
  cx_OrderID :: int
  cx_Amount :: float64
  cx_BonusAmount :: float64
  cx_PayAmount :: float64
  cx_FeeRate :: float64
  cx_Status :: string
  cx_ResultType :: string
  cx_PaymentType :: string
  cx_OutTradeNo :: string
  cx_PayURL :: string
  cx_QRCode :: string
  cx_ClientSecret :: string
  cx_IntentID :: string
  cx_Currency :: string
  cx_OAuth :: "WechatOAuthInfo option"
  cx_ExpiresAt :: gotime
  cx_PaymentMode :: string
  cx_ResumeToken :: string

record create_env =
  ce_lib :: dec_lib
  ce_config :: "goerror + PaymentConfig"
  ce_plan :: "int \<Rightarrow> goerror + SubscriptionPlan"
  ce_group :: "int \<Rightarrow> goerror + plan_group"
  ce_userStatus :: "int \<Rightarrow> goerror + string"
  ce_methodCurrency :: "string \<Rightarrow> goerror + string"
  ce_officialWxpay :: bool
  ce_wechatAppID :: "goerror + string"
  ce_oauthURL :: "CreateOrderRequest \<Rightarrow> goerror + string"
  ce_provider :: "string \<Rightarrow> string \<Rightarrow> (string, string) gomap \<Rightarrow> goerror option"
  ce_returnURL :: "CreateOrderRequest \<Rightarrow> PaymentOrder \<Rightarrow> goerror + (string \<times> string)"
  ce_pay :: "CreatePaymentRequest \<Rightarrow> goerror + CreatePaymentResponse"
  ce_windowStart :: "cancel_limit \<Rightarrow> gotime \<Rightarrow> gotime"
  ce_startOfDayUTC :: "gotime \<Rightarrow> gotime"
  ce_date :: "gotime \<Rightarrow> string"

section \<open>Statements\<close>

datatype create_stmt =
    C_Pay pay_stmt
  | C_Select string string string float64
  | C_IntN nat
  | C_Begin
  | C_Count "PaymentOrder \<Rightarrow> bool"
  | C_Insert "int \<Rightarrow> gotime \<Rightarrow> PaymentOrder"

datatype create_ans = N_Pay pay_ans | N_Sel "goerror + InstanceSelection"

record create_db =
  cd_pay :: pay_db
  cd_seq :: int
  cd_lb :: lb_env
  cd_counter :: "64 word"
  cd_random :: "nat \<Rightarrow> nat"
  cd_draws :: nat

type_synonym 'r create_prog = "(create_stmt, create_ans, 'r) prog"

text \<open>\<open>C_Insert\<close> is the insertion, the update that sets the recharge code, and the commit. The number of a
  row comes from a sequence, which a transaction that rolls back also advances; the order number is
  unique by an index.\<close>

fun create_effect :: "pay_lib \<Rightarrow> create_stmt \<Rightarrow> create_db \<Rightarrow> create_db \<times> create_ans" where
  "create_effect lib (C_Pay c) s = (case effect lib c (cd_pay s) of (p, a) \<Rightarrow> (s\<lparr>cd_pay := p\<rparr>, N_Pay a))"
| "create_effect lib (C_Select appID paymentType strategy amount) s =
     (case SelectInstance (cd_lb s) appID '''' paymentType strategy amount (cd_counter s) of
        (counter', r) \<Rightarrow> (s\<lparr>cd_counter := counter'\<rparr>, N_Sel r))"
| "create_effect lib (C_IntN n) s = (s\<lparr>cd_draws := cd_draws s + 1\<rparr>, N_Pay (A_Count (int (cd_random s (cd_draws s) mod n))))"
| "create_effect lib C_Begin s = (s, N_Pay A_Unit)"
| "create_effect lib (C_Count p) s = (s, N_Pay (A_Count (int (length (filter p (pd_orders (cd_pay s)))))))"
| "create_effect lib (C_Insert f) s =
     (let r = f (cd_seq s) (pd_clock (cd_pay s)) in
      if od_OutTradeNo r \<noteq> '''' \<and> list_ex (\<lambda>r'. od_OutTradeNo r' = od_OutTradeNo r) (pd_orders (cd_pay s))
      then (s\<lparr>cd_seq := cd_seq s + 1\<rparr>, N_Pay (A_Err 0 db_constraint))
      else (s\<lparr>cd_seq := cd_seq s + 1, cd_pay := (cd_pay s)\<lparr>pd_orders := pd_orders (cd_pay s) @ [r]\<rparr>\<rparr>, N_Pay (A_Order r)))"

fun never_fails :: "create_stmt \<Rightarrow> bool" where
  "never_fails (C_Pay c) = is_Now c"
| "never_fails (C_Select a t st x) = True"
| "never_fails (C_IntN n) = True"
| "never_fails c = False"

definition create_exec :: "pay_lib \<Rightarrow> pay_fault \<Rightarrow> create_stmt \<Rightarrow> create_db \<Rightarrow> create_db \<times> create_ans" where
  "create_exec lib f c s =
     (if never_fails c then create_effect lib c s
      else case f of
        Up \<Rightarrow> create_effect lib c s
      | Lost e \<Rightarrow> (s, N_Pay (A_Err 0 e))
      | Unacked e \<Rightarrow> (fst (create_effect lib c s), N_Pay (A_Err 2 e))
      | TxFails n e \<Rightarrow> (s\<lparr>cd_seq := cd_seq s + 1\<rparr>, N_Pay (A_Err n e)))"

definition pay_of :: "create_ans \<Rightarrow> pay_ans" where
  "pay_of a = (case a of N_Pay x \<Rightarrow> x | N_Sel r \<Rightarrow> A_Nothing)"

definition selection_of :: "create_ans \<Rightarrow> goerror + InstanceSelection" where
  "selection_of a = (case a of N_Sel r \<Rightarrow> r | N_Pay x \<Rightarrow> Inl bad_answer)"

text \<open>A handler over the statements of \<open>Payment_Store\<close> as a part of this one.\<close>

primrec lift :: "'r pay_prog \<Rightarrow> 'r create_prog" where
  "lift (Ret r) = Ret r"
| "lift (Call c k) = Call (C_Pay c) (\<lambda>a. lift (k (pay_of a)))"

definition or_fail :: "goerror + 'a \<Rightarrow> ('a \<Rightarrow> (goerror + 'b) create_prog) \<Rightarrow> (goerror + 'b) create_prog" where
  "or_fail r k = (case r of Inl e \<Rightarrow> Ret (Inl e) | Inr x \<Rightarrow> k x)"

definition check_err :: "goerror option \<Rightarrow> (goerror + 'b) create_prog \<Rightarrow> (goerror + 'b) create_prog" where
  "check_err r k = (case r of Some e \<Rightarrow> Ret (Inl e) | None \<Rightarrow> k)"

definition bind_err :: "(goerror + 'a) create_prog \<Rightarrow> ('a \<Rightarrow> (goerror + 'b) create_prog) \<Rightarrow> (goerror + 'b) create_prog" where
  "bind_err p k = and_then p (\<lambda>r. or_fail r k)"

definition wrap :: "string \<Rightarrow> goerror + 'a \<Rightarrow> goerror + 'a" where
  "wrap m r = (case r of Inl e \<Rightarrow> Inl (WrapError m e) | Inr x \<Rightarrow> Inr x)"

section \<open>The checks of a request\<close>

definition EntityStatusActive :: string where "EntityStatusActive = ''active''"
definition SubscriptionTypeSubscription :: string where "SubscriptionTypeSubscription = ''subscription''"

definition NormalizeVisibleMethod :: "string \<Rightarrow> string" where
  "NormalizeVisibleMethod m = GetBasePaymentType (trim_space m)"

definition validateSubOrder :: "create_env \<Rightarrow> CreateOrderRequest \<Rightarrow> goerror + SubscriptionPlan" where
  "validateSubOrder env req =
     (if cr_PlanID req = 0 then Inl (app_err (BadRequest ''INVALID_INPUT'' ''subscription order requires a plan''))
      else case ce_plan env (cr_PlanID req) of
        Inl e \<Rightarrow> Inl (app_err (NotFound ''PLAN_NOT_AVAILABLE'' ''plan not found or not for sale''))
      | Inr plan \<Rightarrow>
          (if \<not> sp_ForSale plan then Inl (app_err (NotFound ''PLAN_NOT_AVAILABLE'' ''plan not found or not for sale''))
           else case ce_group env (sp_GroupID plan) of
             Inl e \<Rightarrow> Inl (app_err (NotFound ''GROUP_NOT_FOUND'' ''subscription group is no longer available''))
           | Inr g \<Rightarrow>
               (if gr_Status g \<noteq> EntityStatusActive then Inl (app_err (NotFound ''GROUP_NOT_FOUND'' ''subscription group is no longer available''))
                else if gr_SubscriptionType g \<noteq> SubscriptionTypeSubscription
                  then Inl (app_err (BadRequest ''GROUP_TYPE_MISMATCH'' ''group is not a subscription type''))
                else Inr plan)))"

definition validateOrderInput :: "create_env \<Rightarrow> CreateOrderRequest \<Rightarrow> PaymentConfig \<Rightarrow> goerror + SubscriptionPlan option" where
  "validateOrderInput env req cfg =
     (if cr_OrderType req = OrderTypeBalance then
        (if cf_BalanceDisabled cfg then Inl (app_err (Forbidden ''BALANCE_PAYMENT_DISABLED'' ''balance recharge has been disabled''))
         else if not_finite (cr_Amount req) \<or> fle (cr_Amount req) (Finite 0)
           then Inl (app_err (BadRequest ''INVALID_AMOUNT'' ''amount must be a positive number''))
         else if flt (Finite 0) (cf_MinAmount cfg) \<and> flt (cr_Amount req) (cf_MinAmount cfg)
               \<or> flt (Finite 0) (cf_MaxAmount cfg) \<and> flt (cf_MaxAmount cfg) (cr_Amount req)
           then Inl (app_err (WithMetadata (BadRequest ''INVALID_AMOUNT'' ''amount out of range'')
                  (Some [(''min'', pl_fmt (dl_pay (ce_lib env)) (cf_MinAmount cfg)), (''max'', pl_fmt (dl_pay (ce_lib env)) (cf_MaxAmount cfg))])))
         else Inr None)
      else if cr_OrderType req = OrderTypeSubscription then
        (case validateSubOrder env req of Inl e \<Rightarrow> Inl e | Inr plan \<Rightarrow> Inr (Some plan))
      else Inl (app_err (BadRequest ''INVALID_ORDER_TYPE'' ''unsupported order type'')))"

section \<open>The transaction\<close>

definition defaultMaxPendingOrders :: int where "defaultMaxPendingOrders = 3"
definition defaultOrderTimeoutMin :: int where "defaultOrderTimeoutMin = 30"

definition pending_of :: "int \<Rightarrow> PaymentOrder \<Rightarrow> bool" where
  "pending_of userID r \<longleftrightarrow> od_UserID r = userID \<and> od_Status r = OrderStatusPending"

definition max_pending :: "int \<Rightarrow> int" where
  "max_pending m = (if m \<le> 0 then defaultMaxPendingOrders else m)"

definition checkPendingLimit :: "int \<Rightarrow> int \<Rightarrow> goerror option create_prog" where
  "checkPendingLimit userID m =
     Call (C_Count (pending_of userID)) (\<lambda>a.
       case count_of (pay_of a) of
         Inl err \<Rightarrow> Ret (Some (WrapError ''count pending orders'' err))
       | Inr c \<Rightarrow>
           Ret (if max_pending m \<le> c
                then Some (app_err (WithMetadata (TooManyRequests ''TOO_MANY_PENDING'' ''too_many_pending'') (Some [(''max'', itoa (max_pending m))])))
                else None))"

definition paid_since :: "int \<Rightarrow> gotime \<Rightarrow> PaymentOrder \<Rightarrow> bool" where
  "paid_since userID ts r \<longleftrightarrow> od_UserID r = userID \<and> od_Status r \<in> {OrderStatusPaid, OrderStatusRecharging, OrderStatusCompleted}
     \<and> (case od_PaidAt r of None \<Rightarrow> False | Some t \<Rightarrow> ts \<le> t)"

definition used_today :: "dec_lib \<Rightarrow> PaymentOrder list \<Rightarrow> float64" where
  "used_today lib orders =
     fold (\<lambda>r used. fadd (pl_round (dl_pay lib)) used (if od_OrderType r = OrderTypeBalance then od_PayAmount r else od_Amount r)) orders (Finite 0)"

definition checkDailyLimit :: "create_env \<Rightarrow> int \<Rightarrow> float64 \<Rightarrow> float64 \<Rightarrow> goerror option create_prog" where
  "checkDailyLimit env userID amount limit =
     (if fle limit (Finite 0) then Ret None
      else Call (C_Pay Now) (\<lambda>a. Call (C_Pay (ListOrders (paid_since userID (ce_startOfDayUTC env (time_of (pay_of a)))))) (\<lambda>a.
        case orders_of (pay_of a) of
          Inl err \<Rightarrow> Ret (Some (WrapError ''query daily usage'' err))
        | Inr orders \<Rightarrow>
            (let lib = ce_lib env; used = used_today lib orders in
             Ret (if flt limit (fadd (pl_round (dl_pay lib)) used amount)
                  then Some (app_err (WithMetadata (TooManyRequests ''DAILY_LIMIT_EXCEEDED'' ''daily_limit_exceeded'')
                         (Some [(''remaining'', pl_fmt (dl_pay lib) (f_max (Finite 0) (fsub (pl_round (dl_pay lib)) limit used)))])))
                  else None)))))"

definition charset :: string where "charset = ''abcdefghijklmnopqrstuvwxyzABCDEFGHIJKLMNOPQRSTUVWXYZ0123456789''"

primrec generateRandomString :: "nat \<Rightarrow> string create_prog" where
  "generateRandomString 0 = Ret ''''"
| "generateRandomString (Suc n) =
     Call (C_IntN (length charset)) (\<lambda>a.
       let i = (case count_of (pay_of a) of Inr i \<Rightarrow> nat i mod length charset | Inl e \<Rightarrow> 0)
       in and_then (generateRandomString n) (\<lambda>rest. Ret (charset ! i # rest)))"

definition generateOutTradeNo :: "create_env \<Rightarrow> string create_prog" where
  "generateOutTradeNo env =
     Call (C_Pay Now) (\<lambda>a. and_then (generateRandomString 8) (\<lambda>rnd. Ret (orderIDPrefix @ ce_date env (time_of (pay_of a)) @ rnd)))"

definition maxAttempts :: nat where "maxAttempts = 5"

primrec allocate_loop :: "create_env \<Rightarrow> nat \<Rightarrow> (goerror + string) create_prog" where
  "allocate_loop env 0 = Ret (Inl (PlainError (''generate unique out_trade_no: exhausted '' @ itoa (int maxAttempts) @ '' attempts'')))"
| "allocate_loop env (Suc n) =
     and_then (generateOutTradeNo env) (\<lambda>candidate.
       Call (C_Count (\<lambda>r. od_OutTradeNo r = candidate)) (\<lambda>a.
         case count_of (pay_of a) of
           Inl err \<Rightarrow> Ret (Inl (WrapError ''check out_trade_no uniqueness'' err))
         | Inr c \<Rightarrow> (if c = 0 then Ret (Inr candidate) else allocate_loop env n)))"

definition allocateOutTradeNo :: "create_env \<Rightarrow> (goerror + string) create_prog" where
  "allocateOutTradeNo env = allocate_loop env maxAttempts"

definition psComputeValidityDays :: "int \<Rightarrow> string \<Rightarrow> int" where
  "psComputeValidityDays days u = (if u = ''week'' then i64 (days * 7) else if u = ''month'' then i64 (days * 30) else days)"

definition paymentProviderConfigCurrency :: "string \<Rightarrow> (string, string) gomap \<Rightarrow> string" where
  "paymentProviderConfigCurrency providerKey cfg =
     (if trim_space providerKey \<in> {TypeStripe, TypeAirwallex}
      then (case NormalizePaymentCurrency (gm_getd '''' cfg ''currency'') of Some c \<Rightarrow> c | None \<Rightarrow> DefaultPaymentCurrency)
      else DefaultPaymentCurrency)"

definition paymentOrderSnapshotWxpayAppID :: "InstanceSelection \<Rightarrow> CreateOrderRequest \<Rightarrow> string" where
  "paymentOrderSnapshotWxpayAppID sel req =
     (if trim_space (is_ProviderKey sel) \<noteq> TypeWxpay then ''''
      else if trim_space (cr_OpenID req) \<noteq> '''' then trim_space (resolveWxpayJSAPIAppID (is_Config sel))
      else trim_space (gm_getd '''' (is_Config sel) ''appId''))"

definition put_nonempty :: "string \<Rightarrow> string \<Rightarrow> (string, goval) gomap \<Rightarrow> (string, goval) gomap" where
  "put_nonempty k v m = (if v = '''' then m else gm_put k (VStr v) m)"

definition buildPaymentOrderProviderSnapshot :: "InstanceSelection \<Rightarrow> CreateOrderRequest \<Rightarrow> (string, goval) gomap" where
  "buildPaymentOrderProviderSnapshot sel req =
     (let config = (\<lambda>k. trim_space (gm_getd '''' (is_Config sel) k));
          providerKey = trim_space (is_ProviderKey sel);
          snapshot = [(''schema_version'', VInt 2)];
          snapshot = put_nonempty ''provider_instance_id'' (trim_space (is_InstanceID sel)) snapshot;
          snapshot = put_nonempty ''provider_key'' providerKey snapshot;
          snapshot = put_nonempty ''payment_mode'' (trim_space (is_PaymentMode sel)) snapshot;
          snapshot = (if providerKey = TypeWxpay then
              gm_put ''currency'' (VStr DefaultPaymentCurrency)
                (put_nonempty ''merchant_id'' (config ''mchId'')
                  (put_nonempty ''merchant_app_id'' (paymentOrderSnapshotWxpayAppID sel req) snapshot))
            else snapshot);
          snapshot = (if providerKey = TypeAlipay then put_nonempty ''merchant_app_id'' (config ''appId'') snapshot else snapshot);
          snapshot = (if providerKey = TypeEasyPay then put_nonempty ''merchant_id'' (config ''pid'') snapshot else snapshot);
          snapshot = (if providerKey = TypeStripe
            then gm_put ''currency'' (VStr (paymentProviderConfigCurrency providerKey (is_Config sel))) snapshot else snapshot);
          snapshot = (if providerKey = TypeAirwallex
            then gm_put ''currency'' (VStr (paymentProviderConfigCurrency providerKey (is_Config sel)))
                   (put_nonempty ''merchant_id'' (config ''accountId'') snapshot) else snapshot)
      in if length snapshot = 1 then [] else snapshot)"

definition psNilIfEmpty :: "string \<Rightarrow> string option" where
  "psNilIfEmpty s = (if s = '''' then None else Some s)"

definition recharge_code :: "int \<Rightarrow> gotime \<Rightarrow> string" where
  "recharge_code oid t = ''PAY-'' @ itoa oid @ ''-'' @ itoa (t mod 100000)"

definition new_row :: "CreateOrderRequest \<Rightarrow> SubscriptionPlan option \<Rightarrow> float64 \<Rightarrow> float64 \<Rightarrow> float64 \<Rightarrow> string \<Rightarrow> gotime \<Rightarrow> InstanceSelection \<Rightarrow> int \<Rightarrow> gotime \<Rightarrow> PaymentOrder" where
  "new_row req plan orderAmount bonusAmount payAmount outTradeNo expires sel oid t =
     \<lparr>od_ID = oid, od_UserID = cr_UserID req, od_Amount = orderAmount, od_BonusAmount = bonusAmount, od_PayAmount = payAmount,
      od_RechargeCode = recharge_code oid t, od_OutTradeNo = outTradeNo, od_PaymentType = cr_PaymentType req, od_PaymentTradeNo = '''',
      od_OrderType = cr_OrderType req, od_SubscriptionGroupID = map_option sp_GroupID plan,
      od_SubscriptionDays = map_option (\<lambda>p. psComputeValidityDays (sp_ValidityDays p) (sp_ValidityUnit p)) plan,
      od_ProviderInstanceID = psNilIfEmpty (trim_space (is_InstanceID sel)), od_ProviderKey = psNilIfEmpty (trim_space (is_ProviderKey sel)),
      od_ProviderSnapshot = buildPaymentOrderProviderSnapshot sel req, od_Status = OrderStatusPending, od_ExpiresAt = expires,
      od_PaidAt = None, od_CompletedAt = None, od_FailedAt = None, od_FailedReason = None, od_CreatedAt = t, od_UpdatedAt = t\<rparr>"

definition insert_error :: "nat \<Rightarrow> goerror \<Rightarrow> goerror" where
  "insert_error stage err =
     WrapError (if stage = 0 then ''create order'' else if stage = 1 then ''set recharge code'' else ''commit order transaction'') err"

definition insert_order :: "(int \<Rightarrow> gotime \<Rightarrow> PaymentOrder) \<Rightarrow> (goerror + PaymentOrder) create_prog" where
  "insert_order row = Call (C_Insert row) (\<lambda>a.
     case stage_of (pay_of a) of Some (stage, err) \<Rightarrow> Ret (Inl (insert_error stage err)) | None \<Rightarrow> Ret (order_of (pay_of a)))"

definition build_order ::
  "create_env \<Rightarrow> CreateOrderRequest \<Rightarrow> SubscriptionPlan option \<Rightarrow> PaymentConfig \<Rightarrow> float64 \<Rightarrow> float64 \<Rightarrow> InstanceSelection \<Rightarrow> (goerror + PaymentOrder) create_prog" where
  "build_order env req plan cfg orderAmount payAmount sel =
     Call (C_Pay Now) (\<lambda>a.
       let tm = (if cf_OrderTimeoutMin cfg \<le> 0 then defaultOrderTimeoutMin else cf_OrderTimeoutMin cfg);
           expires = time_add (time_of (pay_of a)) (i64 (tm * minute))
       in bind_err (allocateOutTradeNo env) (\<lambda>outTradeNo.
          or_fail (if cr_OrderType req = OrderTypeBalance
                   then calculateBalanceBonusAmount (ce_lib env) (cr_Amount req) orderAmount (cf_BalanceRechargeMultiplier cfg)
                   else Inr (Finite 0)) (\<lambda>bonusAmount.
            insert_order (new_row req plan orderAmount bonusAmount payAmount outTradeNo expires sel))))"

definition createOrderInTx ::
  "create_env \<Rightarrow> CreateOrderRequest \<Rightarrow> SubscriptionPlan option \<Rightarrow> PaymentConfig \<Rightarrow> float64 \<Rightarrow> float64 \<Rightarrow> float64 \<Rightarrow> InstanceSelection \<Rightarrow> (goerror + PaymentOrder) create_prog" where
  "createOrderInTx env req plan cfg orderAmount limitAmount payAmount sel =
     Call C_Begin (\<lambda>a.
       case err_of (pay_of a) of
         Some err \<Rightarrow> Ret (Inl (WrapError ''begin transaction'' err))
       | None \<Rightarrow>
         and_then (checkPendingLimit (cr_UserID req) (cf_MaxPendingOrders cfg)) (\<lambda>e. check_err e (
         and_then (checkDailyLimit env (cr_UserID req) limitAmount (cf_DailyLimit cfg)) (\<lambda>e. check_err e (
           build_order env req plan cfg orderAmount payAmount sel)))))"

section \<open>The instance\<close>

definition requestNeedsWeChatJSAPICompatibility :: "CreateOrderRequest \<Rightarrow> bool" where
  "requestNeedsWeChatJSAPICompatibility req \<longleftrightarrow>
     GetBasePaymentType (cr_PaymentType req) = TypeWxpay \<and> (cr_IsWeChatBrowser req \<or> trim_space (cr_OpenID req) \<noteq> '''')"

definition prepareCreateOrderSelectionContext :: "create_env \<Rightarrow> CreateOrderRequest \<Rightarrow> goerror + string" where
  "prepareCreateOrderSelectionContext env req =
     (if \<not> requestNeedsWeChatJSAPICompatibility req \<or> \<not> ce_officialWxpay env then Inr ''''
      else case ce_wechatAppID env of Inl e \<Rightarrow> Inl e | Inr appID \<Rightarrow> Inr (trim_space appID))"

definition selectCreateOrderInstance :: "create_env \<Rightarrow> CreateOrderRequest \<Rightarrow> PaymentConfig \<Rightarrow> float64 \<Rightarrow> (goerror + InstanceSelection) create_prog" where
  "selectCreateOrderInstance env req cfg payAmount =
     or_fail (prepareCreateOrderSelectionContext env req) (\<lambda>appID.
       Call (C_Select appID (cr_PaymentType req) (cf_LoadBalanceStrategy cfg) payAmount) (\<lambda>a.
         case selection_of a of
           Inl err \<Rightarrow> Ret (Inl (app_err (WithMetadata (ServiceUnavailable ''PAYMENT_GATEWAY_ERROR'' ''method_not_configured'')
               (Some [(''payment_type'', cr_PaymentType req)]))))
         | Inr sel \<Rightarrow> Ret (Inr sel)))"

definition requiresWeChatJSAPICompatibleSelection :: "CreateOrderRequest \<Rightarrow> InstanceSelection \<Rightarrow> bool" where
  "requiresWeChatJSAPICompatibleSelection req sel \<longleftrightarrow>
     is_ProviderKey sel = TypeWxpay \<and> GetBasePaymentType (cr_PaymentType req) = TypeWxpay
     \<and> (cr_IsWeChatBrowser req \<or> trim_space (cr_OpenID req) \<noteq> '''')"

definition validateSelectedCreateOrderInstance :: "create_env \<Rightarrow> CreateOrderRequest \<Rightarrow> InstanceSelection \<Rightarrow> goerror option" where
  "validateSelectedCreateOrderInstance env req sel =
     (if \<not> requiresWeChatJSAPICompatibleSelection req sel then None
      else case ce_wechatAppID env of
        Inl err \<Rightarrow> Some err
      | Inr expectedAppID \<Rightarrow>
          (let selectedAppID = resolveWxpayJSAPIAppID (is_Config sel) in
           if selectedAppID = '''' \<or> selectedAppID \<noteq> expectedAppID
           then Some (app_err (TooManyRequests ''NO_AVAILABLE_INSTANCE'' ''selected payment instance is not compatible with the current WeChat OAuth app''))
           else None))"

definition validateSelectedCreateOrderAmountCurrency :: "dec_lib \<Rightarrow> string \<Rightarrow> InstanceSelection \<Rightarrow> goerror option" where
  "validateSelectedCreateOrderAmountCurrency lib payAmount sel =
     check_minor_unit lib payAmount (paymentProviderConfigCurrency (is_ProviderKey sel) (is_Config sel))"

definition CreatePaymentResultOrderCreated :: string where "CreatePaymentResultOrderCreated = ''order_created''"
definition CreatePaymentResultOAuthRequired :: string where "CreatePaymentResultOAuthRequired = ''oauth_required''"

definition buildWeChatOAuthRequiredResponse :: "create_env \<Rightarrow> CreateOrderRequest \<Rightarrow> float64 \<Rightarrow> float64 \<Rightarrow> float64 \<Rightarrow> goerror + CreateOrderResponse" where
  "buildWeChatOAuthRequiredResponse env req amount payAmount feeRate =
     or_err (ce_wechatAppID env) (\<lambda>appID. or_err (ce_oauthURL env req) (\<lambda>authorizeURL.
       Inr \<lparr>cx_OrderID = 0, cx_Amount = amount, cx_BonusAmount = Finite 0, cx_PayAmount = payAmount, cx_FeeRate = feeRate, cx_Status = '''',
         cx_ResultType = CreatePaymentResultOAuthRequired, cx_PaymentType = cr_PaymentType req, cx_OutTradeNo = '''', cx_PayURL = '''',
         cx_QRCode = '''', cx_ClientSecret = '''', cx_IntentID = '''', cx_Currency = '''',
         cx_OAuth = Some \<lparr>wo_AuthorizeURL = authorizeURL, wo_AppID = appID, wo_Scope = ''snsapi_base'',
           wo_RedirectURL = ''/auth/wechat/payment/callback''\<rparr>,
         cx_ExpiresAt = 0, cx_PaymentMode = '''', cx_ResumeToken = ''''\<rparr>))"

definition maybeBuildWeChatOAuthRequiredResponseForSelection ::
  "create_env \<Rightarrow> CreateOrderRequest \<Rightarrow> float64 \<Rightarrow> float64 \<Rightarrow> float64 \<Rightarrow> InstanceSelection \<Rightarrow> goerror + CreateOrderResponse option" where
  "maybeBuildWeChatOAuthRequiredResponseForSelection env req amount payAmount feeRate sel =
     (if is_ProviderKey sel \<noteq> '''' \<and> is_ProviderKey sel \<noteq> TypeWxpay then Inr None
      else if trim_space (cr_OpenID req) \<noteq> '''' \<or> \<not> cr_IsWeChatBrowser req \<or> GetBasePaymentType (cr_PaymentType req) \<noteq> TypeWxpay then Inr None
      else or_err (buildWeChatOAuthRequiredResponse env req amount payAmount feeRate) (\<lambda>resp. Inr (Some resp)))"

section \<open>The provider\<close>

definition hasPaymentProductNameAffix :: "PaymentConfig \<Rightarrow> bool" where
  "hasPaymentProductNameAffix cfg \<longleftrightarrow> trim_space (cf_ProductNamePrefix cfg) \<noteq> '''' \<or> trim_space (cf_ProductNameSuffix cfg) \<noteq> ''''"

definition applyPaymentProductNameAffix :: "string \<Rightarrow> PaymentConfig \<Rightarrow> string" where
  "applyPaymentProductNameAffix productName cfg =
     (if \<not> hasPaymentProductNameAffix cfg then productName
      else trim_space (trim_space (cf_ProductNamePrefix cfg) @ '' '' @ productName @ '' '' @ trim_space (cf_ProductNameSuffix cfg)))"

definition buildPaymentSubject :: "create_env \<Rightarrow> SubscriptionPlan option \<Rightarrow> float64 \<Rightarrow> PaymentConfig \<Rightarrow> InstanceSelection \<Rightarrow> goerror + string" where
  "buildPaymentSubject env plan limitAmount cfg sel =
     (case plan of
        Some p \<Rightarrow>
          Inr (applyPaymentProductNameAffix (if sp_ProductName p = '''' then ''Sub2API Subscription '' @ sp_Name p else sp_ProductName p) cfg)
      | None \<Rightarrow>
          (let currency = paymentProviderConfigCurrency (is_ProviderKey sel) (is_Config sel) in
           or_err (FormatAmountForCurrency (ce_lib env) limitAmount currency) (\<lambda>amountStr.
             Inr (if hasPaymentProductNameAffix cfg then applyPaymentProductNameAffix amountStr cfg
                  else ''Sub2API '' @ amountStr @ '' '' @ currency))))"

definition buildProviderCreatePaymentRequest :: "CreateOrderRequest \<Rightarrow> InstanceSelection \<Rightarrow> string \<Rightarrow> string \<Rightarrow> string \<Rightarrow> CreatePaymentRequest" where
  "buildProviderCreatePaymentRequest req sel orderID amount subject =
     \<lparr>cp_OrderID = orderID, cp_Amount = amount, cp_PaymentType = cr_PaymentType req, cp_Subject = subject, cp_ReturnURL = cr_ReturnURL req,
      cp_OpenID = trim_space (cr_OpenID req), cp_ClientIP = cr_ClientIP req, cp_IsMobile = cr_IsMobile req,
      cp_AlipayMobilePrecreate = (cr_AlipayMobilePrecreate req \<and> GetBasePaymentType (is_ProviderKey sel) = TypeAlipay),
      cp_InstanceSubMethods = is_SupportedTypes sel\<rparr>"

definition removePostgresTextNUL :: "string \<Rightarrow> string" where
  "removePostgresTextNUL s = filter (\<lambda>c. (of_char c :: nat) \<noteq> 0) s"

definition sanitizeCreatePaymentResponseDetails :: "CreatePaymentResponse \<Rightarrow> CreatePaymentResponse" where
  "sanitizeCreatePaymentResponseDetails pr =
     pr\<lparr>pr_TradeNo := removePostgresTextNUL (pr_TradeNo pr), pr_PayURL := removePostgresTextNUL (pr_PayURL pr),
        pr_QRCode := removePostgresTextNUL (pr_QRCode pr)\<rparr>"

definition provider_error :: "InstanceSelection \<Rightarrow> goerror \<Rightarrow> goerror" where
  "provider_error sel err =
     (let md = [(''provider'', is_ProviderKey sel), (''instance_id'', is_InstanceID sel)] in
      case as_app err of
        Some (st, c) \<Rightarrow> app_err (WithMetadata (st, c) (Some (fold (\<lambda>(k, v) m. gm_put k v m) (case st_Metadata st of None \<Rightarrow> [] | Some m \<Rightarrow> m) md)))
      | None \<Rightarrow> app_err (WithMetadata (ServiceUnavailable ''PAYMENT_PROVIDER_MISCONFIGURED'' ''provider_misconfigured'') (Some md)))"

definition classifyCreatePaymentError :: "dec_lib \<Rightarrow> CreateOrderRequest \<Rightarrow> string \<Rightarrow> goerror \<Rightarrow> goerror" where
  "classifyCreatePaymentError lib req providerKey err =
     (let msg = pl_error (dl_pay lib) err in
      if providerKey = TypeWxpay \<and> GetBasePaymentType (cr_PaymentType req) = TypeWxpay
         \<and> str_contains msg ''wxpay h5 payments are not authorized for this merchant''
      then app_err (WithMetadata (ServiceUnavailable ''WECHAT_H5_NOT_AUTHORIZED'' ''wechat h5 payment is not available for this merchant'')
             (Some [(''action'', ''open_in_wechat_or_scan_qr'')]))
      else app_err (ServiceUnavailable ''PAYMENT_GATEWAY_ERROR'' (''payment gateway error: '' @ msg)))"

definition buildCreateOrderResponse :: "PaymentOrder \<Rightarrow> float64 \<Rightarrow> CreateOrderRequest \<Rightarrow> float64 \<Rightarrow> InstanceSelection \<Rightarrow> CreatePaymentResponse \<Rightarrow> string \<Rightarrow> CreateOrderResponse" where
  "buildCreateOrderResponse order feeRate req payAmount sel pr resultType =
     \<lparr>cx_OrderID = od_ID order, cx_Amount = od_Amount order, cx_BonusAmount = od_BonusAmount order, cx_PayAmount = payAmount,
      cx_FeeRate = feeRate, cx_Status = OrderStatusPending, cx_ResultType = resultType, cx_PaymentType = cr_PaymentType req,
      cx_OutTradeNo = od_OutTradeNo order, cx_PayURL = pr_PayURL pr, cx_QRCode = pr_QRCode pr, cx_ClientSecret = pr_ClientSecret pr,
      cx_IntentID = pr_IntentID pr, cx_Currency = pr_Currency pr, cx_OAuth = pr_OAuth pr, cx_ExpiresAt = od_ExpiresAt order,
      cx_PaymentMode = is_PaymentMode sel, cx_ResumeToken = ''''\<rparr>"

definition set_nonempty :: "string \<Rightarrow> (string \<Rightarrow> PaymentOrder \<Rightarrow> PaymentOrder) \<Rightarrow> PaymentOrder \<Rightarrow> PaymentOrder" where
  "set_nonempty v upd r = (if v = '''' then r else upd v r)"

definition payment_details :: "CreatePaymentResponse \<Rightarrow> InstanceSelection \<Rightarrow> PaymentOrder \<Rightarrow> PaymentOrder" where
  "payment_details pr sel r =
     set_nonempty (is_ProviderKey sel) (\<lambda>v r. r\<lparr>od_ProviderKey := Some v\<rparr>)
       (set_nonempty (is_InstanceID sel) (\<lambda>v r. r\<lparr>od_ProviderInstanceID := Some v\<rparr>)
         (set_nonempty (pr_TradeNo pr) (\<lambda>v r. r\<lparr>od_PaymentTradeNo := v\<rparr>) r))"

text \<open>\<open>UpdateOneID\<close> fails when there is no such row.\<close>

definition update_one :: "int \<Rightarrow> (PaymentOrder \<Rightarrow> PaymentOrder) \<Rightarrow> (goerror option \<Rightarrow> 'r create_prog) \<Rightarrow> 'r create_prog" where
  "update_one oid f k = Call (C_Pay (UpdateOrders (\<lambda>r. od_ID r = oid) f)) (\<lambda>a.
     case count_of (pay_of a) of Inl e \<Rightarrow> k (Some e) | Inr n \<Rightarrow> k (if n = 0 then Some db_not_found else None))"

definition record_payment ::
  "CreateOrderRequest \<Rightarrow> PaymentOrder \<Rightarrow> float64 \<Rightarrow> float64 \<Rightarrow> string \<Rightarrow> InstanceSelection \<Rightarrow> CreatePaymentResponse \<Rightarrow> (goerror + CreateOrderResponse) create_prog" where
  "record_payment req order feeRate payAmount resumeToken sel pr =
     update_one (od_ID order) (payment_details pr sel) (\<lambda>e. case e of
       Some err \<Rightarrow> Ret (Inl (WrapError ''update order with payment details'' err))
     | None \<Rightarrow>
         lift (writeAuditLog (od_ID order) ''ORDER_CREATED'' (''user:'' @ itoa (cr_UserID req))
           (Ret (Inr ((buildCreateOrderResponse order feeRate req payAmount sel pr
               (if pr_ResultType pr = '''' then CreatePaymentResultOrderCreated else pr_ResultType pr))\<lparr>cx_ResumeToken := resumeToken\<rparr>)))))"

definition invokeProvider ::
  "create_env \<Rightarrow> PaymentOrder \<Rightarrow> CreateOrderRequest \<Rightarrow> PaymentConfig \<Rightarrow> float64 \<Rightarrow> string \<Rightarrow> float64 \<Rightarrow> SubscriptionPlan option \<Rightarrow> InstanceSelection \<Rightarrow>
   (goerror + CreateOrderResponse) create_prog" where
  "invokeProvider env order req cfg limitAmount payAmountStr payAmount plan sel =
     (case ce_provider env (is_ProviderKey sel) (is_InstanceID sel) (is_Config sel) of
        Some err \<Rightarrow> Ret (Inl (provider_error sel err))
      | None \<Rightarrow>
          or_fail (buildPaymentSubject env plan limitAmount cfg sel) (\<lambda>subject.
          or_fail (ce_returnURL env req order) (\<lambda>(providerReturnURL, resumeToken).
            (let providerReq = buildProviderCreatePaymentRequest
                   (req\<lparr>cr_AlipayMobilePrecreate := cf_AlipayMobilePrecreateDeepLink cfg, cr_ReturnURL := providerReturnURL\<rparr>)
                   sel (od_OutTradeNo order) payAmountStr subject
             in case ce_pay env providerReq of
                  Inl err \<Rightarrow>
                    Ret (Inl (case as_app err of Some appErr \<Rightarrow> app_err appErr
                              | None \<Rightarrow> classifyCreatePaymentError (ce_lib env) req (is_ProviderKey sel) err))
                | Inr pr \<Rightarrow>
                    record_payment req order (cf_RechargeFeeRate cfg) payAmount resumeToken sel (sanitizeCreatePaymentResponseDetails pr)))))"

section \<open>CreateOrder\<close>

definition normalize_request :: "CreateOrderRequest \<Rightarrow> CreateOrderRequest" where
  "normalize_request req =
     (let req = (if cr_OrderType req = '''' then req\<lparr>cr_OrderType := OrderTypeBalance\<rparr> else req);
          normalized = NormalizeVisibleMethod (cr_PaymentType req)
      in if normalized \<noteq> '''' then req\<lparr>cr_PaymentType := normalized\<rparr> else req)"

definition order_amount :: "dec_lib \<Rightarrow> CreateOrderRequest \<Rightarrow> SubscriptionPlan option \<Rightarrow> PaymentConfig \<Rightarrow> goerror + float64" where
  "order_amount lib req plan cfg =
     (case plan of
        Some p \<Rightarrow> Inr (sp_Price p)
      | None \<Rightarrow>
          (if cr_OrderType req = OrderTypeBalance then calculateCreditedBalance lib (cr_Amount req) (cf_BalanceRechargeMultiplier cfg)
           else Inr (cr_Amount req)))"

definition limit_amount :: "CreateOrderRequest \<Rightarrow> SubscriptionPlan option \<Rightarrow> float64" where
  "limit_amount req plan = (case plan of Some p \<Rightarrow> sp_Price p | None \<Rightarrow> cr_Amount req)"

definition pay_amount :: "dec_lib \<Rightarrow> CreateOrderRequest \<Rightarrow> SubscriptionPlan option \<Rightarrow> PaymentConfig \<Rightarrow> string \<Rightarrow> goerror + (string \<times> float64)" where
  "pay_amount lib req plan cfg currency =
     calculateCreateOrderPayAmountForOrder lib (cr_OrderType req) (limit_amount req plan) (cf_RechargeFeeRate cfg)
       (cf_BalanceRechargeMultiplier cfg) (cf_SubscriptionUSDToCNYRate cfg) currency"

text \<open>After the transaction: the provider is called, and when that fails the order is set to FAILED.\<close>

definition finish_creation ::
  "create_env \<Rightarrow> PaymentOrder \<Rightarrow> CreateOrderRequest \<Rightarrow> PaymentConfig \<Rightarrow> float64 \<Rightarrow> string \<Rightarrow> float64 \<Rightarrow> SubscriptionPlan option \<Rightarrow> InstanceSelection \<Rightarrow>
   (goerror + CreateOrderResponse) create_prog" where
  "finish_creation env order req cfg limitAmount payAmountStr payAmount plan sel =
     and_then (invokeProvider env order req cfg limitAmount payAmountStr payAmount plan sel) (\<lambda>r. case r of
       Inr resp \<Rightarrow> Ret (Inr resp)
     | Inl err \<Rightarrow> update_one (od_ID order) (\<lambda>r. r\<lparr>od_Status := OrderStatusFailed\<rparr>) (\<lambda>_. Ret (Inl err)))"

definition create_for_selection ::
  "create_env \<Rightarrow> CreateOrderRequest \<Rightarrow> PaymentConfig \<Rightarrow> SubscriptionPlan option \<Rightarrow> float64 \<Rightarrow> string \<times> float64 \<Rightarrow> InstanceSelection \<Rightarrow>
   (goerror + CreateOrderResponse) create_prog" where
  "create_for_selection env req cfg plan orderAmount pay sel =
     (let limitAmount = limit_amount req plan; (payAmountStr, payAmount) = pay in
      check_err (validateSelectedCreateOrderAmountCurrency (ce_lib env) payAmountStr sel) (
      or_fail (maybeBuildWeChatOAuthRequiredResponseForSelection env req limitAmount payAmount (cf_RechargeFeeRate cfg) sel) (\<lambda>oauthResp.
        case oauthResp of
          Some resp \<Rightarrow> Ret (Inr resp)
        | None \<Rightarrow>
            bind_err (createOrderInTx env req plan cfg orderAmount limitAmount payAmount sel) (\<lambda>order.
              finish_creation env order req cfg limitAmount payAmountStr payAmount plan sel))))"

definition CreateOrder :: "create_env \<Rightarrow> CreateOrderRequest \<Rightarrow> (goerror + CreateOrderResponse) create_prog" where
  "CreateOrder env request =
     (let req = normalize_request request; lib = ce_lib env in
      or_fail (wrap ''get payment config'' (ce_config env)) (\<lambda>cfg.
      if \<not> cf_Enabled cfg then Ret (Inl (app_err (Forbidden ''PAYMENT_DISABLED'' ''payment system is disabled'')))
      else or_fail (validateOrderInput env req cfg) (\<lambda>plan.
      Call (C_Pay Now) (\<lambda>a.
      and_then (lift (checkCancelRateLimit (cf_CancelRateLimit cfg) (ce_windowStart env (cf_CancelRateLimit cfg) (time_of (pay_of a))) (cr_UserID req))) (\<lambda>e.
      check_err e (
      or_fail (wrap ''get user'' (ce_userStatus env (cr_UserID req))) (\<lambda>status.
      if status \<noteq> EntityStatusActive then Ret (Inl (app_err (Forbidden ''USER_INACTIVE'' ''user account is disabled'')))
      else or_fail (order_amount lib req plan cfg) (\<lambda>orderAmount.
      or_fail (ce_methodCurrency env (cr_PaymentType req)) (\<lambda>methodCurrency.
      or_fail (pay_amount lib req plan cfg methodCurrency) (\<lambda>pay.
      bind_err (selectCreateOrderInstance env req cfg (snd pay)) (\<lambda>sel.
      check_err (validateSelectedCreateOrderInstance env req sel) (
        (let selectedCurrency = paymentProviderConfigCurrency (is_ProviderKey sel) (is_Config sel) in
         or_fail (if selectedCurrency \<noteq> methodCurrency then pay_amount lib req plan cfg selectedCurrency else Inr pay) (\<lambda>pay.
           create_for_selection env req cfg plan orderAmount pay sel))))))))))))))"

end
