(* ===== verification/Creation_Safety.thy ===== *)
theory Creation_Safety
  imports Payment_Creation
begin

text \<open>
  What \<open>CreateOrder\<close> may do to the tables, in any interleaving: it inserts rows with the amounts of the
  request, completes their payment details or sets them to FAILED. This is exactly what the environment
  of \<open>Payment_Safety\<close> allows for, so the theorems there hold beside any number of creations. The rest of
  the theory is about amounts, the limit of pending orders, and the end of a creation that fails.
\<close>

section \<open>Statements of a handler\<close>

text \<open>Every statement that a handler can issue, whatever the answers, satisfies a predicate.\<close>

primrec issues :: "('c \<Rightarrow> bool) \<Rightarrow> ('c, 'a, 'r) prog \<Rightarrow> bool" where
  "issues P (Ret r) = True"
| "issues P (Call c k) = (P c \<and> (\<forall>a. issues P (k a)))"

lemma issues_and_then: "issues P p \<Longrightarrow> (\<And>r. issues P (k r)) \<Longrightarrow> issues P (and_then p k)"
  by (induction p) auto

lemma issues_mono: "issues P p \<Longrightarrow> (\<And>c. P c \<Longrightarrow> R c) \<Longrightarrow> issues R p"
  by (induction p) auto

lemma sat_issues: "issues P p \<Longrightarrow> sat (\<lambda>_. P) (\<lambda>_ _. True) (\<lambda>_ _. {}) p K (\<lambda>_ _. True)"
  by (induction p arbitrary: K) auto

lemma issues_or_fail: "(\<And>x. r = Inr x \<Longrightarrow> issues P (k x)) \<Longrightarrow> issues P (or_fail r k)"
  by (cases r) (auto simp: or_fail_def)

lemma issues_check_err: "issues P k \<Longrightarrow> issues P (check_err r k)"
  by (simp add: check_err_def split: option.split)

lemma issues_bind_err: "issues P p \<Longrightarrow> (\<And>x. issues P (k x)) \<Longrightarrow> issues P (bind_err p k)"
  by (simp add: bind_err_def issues_and_then issues_or_fail)

lemma issues_update_one:
  "P (C_Pay (UpdateOrders (\<lambda>r. od_ID r = oid) f)) \<Longrightarrow> (\<And>e. issues P (k e)) \<Longrightarrow> issues P (update_one oid f k)"
  by (simp add: update_one_def split: sum.split)

lemmas issues_intros = issues_and_then issues_or_fail issues_check_err issues_bind_err issues_update_one

section \<open>The statements of CreateOrder\<close>

fun reads :: "create_stmt \<Rightarrow> bool" where
  "reads (C_Pay Now) = True"
| "reads (C_Pay (ListOrders p)) = True"
| "reads (C_Pay (CountAudit p)) = True"
| "reads (C_Pay c) = False"
| "reads (C_Insert f) = False"
| "reads c = True"

text \<open>The rows that a request may insert: the amount credited is computed from the request and the
  configuration, the amount to pay in the currency of the selected instance.\<close>

definition creates_row :: "create_env \<Rightarrow> CreateOrderRequest \<Rightarrow> (int \<Rightarrow> gotime \<Rightarrow> PaymentOrder) \<Rightarrow> bool" where
  "creates_row env request row \<longleftrightarrow> (\<exists>cfg plan orderAmount payAmountStr payAmount bonus outTradeNo expires sel.
     ce_config env = Inr cfg \<and> validateOrderInput env (normalize_request request) cfg = Inr plan
     \<and> order_amount (ce_lib env) (normalize_request request) plan cfg = Inr orderAmount
     \<and> pay_amount (ce_lib env) (normalize_request request) plan cfg (paymentProviderConfigCurrency (is_ProviderKey sel) (is_Config sel))
         = Inr (payAmountStr, payAmount)
     \<and> row = new_row (normalize_request request) plan orderAmount bonus payAmount outTradeNo expires sel)"

definition create_ok :: "create_env \<Rightarrow> CreateOrderRequest \<Rightarrow> create_stmt \<Rightarrow> bool" where
  "create_ok env request c \<longleftrightarrow> reads c
     \<or> (\<exists>row. c = C_Insert row \<and> creates_row env request row)
     \<or> (\<exists>oid pr sel. c = C_Pay (UpdateOrders (\<lambda>r. od_ID r = oid) (payment_details pr sel)))
     \<or> (\<exists>oid. c = C_Pay (UpdateOrders (\<lambda>r. od_ID r = oid) (\<lambda>r. r\<lparr>od_Status := OrderStatusFailed\<rparr>)))
     \<or> (\<exists>oid uid. c = C_Pay (WriteAudit oid ''ORDER_CREATED'' uid))"

lemma create_ok_intros [simp]:
  "reads c \<Longrightarrow> create_ok env request c"
  "creates_row env request row \<Longrightarrow> create_ok env request (C_Insert row)"
  "create_ok env request (C_Pay (UpdateOrders (\<lambda>r. od_ID r = oid) (payment_details pr sel)))"
  "create_ok env request (C_Pay (UpdateOrders (\<lambda>r. od_ID r = oid) (\<lambda>r. r\<lparr>od_Status := OrderStatusFailed\<rparr>)))"
  "create_ok env request (C_Pay (WriteAudit oid ''ORDER_CREATED'' uid))"
  unfolding create_ok_def by blast+

lemmas create_ok_reads = create_ok_intros(1)

lemma random_reads: "issues reads (generateRandomString n)"
  by (induction n) (auto simp: Let_def intro!: issues_and_then)

lemma allocate_reads: "issues reads (allocate_loop env n)"
  by (induction n) (auto simp: generateOutTradeNo_def random_reads intro!: issues_and_then split: sum.split)

lemma checks_read:
  "issues reads (checkPendingLimit uid m)" "issues reads (checkDailyLimit env uid amount limit)" "issues reads (allocateOutTradeNo env)"
  "issues reads (selectCreateOrderInstance env req cfg x)" "issues reads (lift (checkCancelRateLimit cl t uid))"
  by (auto simp: checkPendingLimit_def checkDailyLimit_def allocateOutTradeNo_def allocate_reads selectCreateOrderInstance_def
      checkCancelRateLimit_def Let_def intro!: issues_or_fail split: sum.split)

lemmas checks_ok = checks_read [THEN issues_mono, OF create_ok_reads]

lemma invoke_ok: "issues (create_ok env request) (invokeProvider env' order req cfg l ps p plan sel)"
  by (auto simp: invokeProvider_def record_payment_def writeAuditLog_def Let_def
      intro!: issues_intros split: option.split sum.split prod.split)

lemma finish_ok: "issues (create_ok env request) (finish_creation env' order req cfg l ps p plan sel)"
  unfolding finish_creation_def
  by (rule issues_and_then [OF invoke_ok]) (auto intro!: issues_update_one split: sum.split)

lemma tx_ok:
  assumes "\<And>bonus outTradeNo expires. creates_row env request (new_row req plan orderAmount bonus payAmount outTradeNo expires sel)"
  shows "issues (create_ok env request) (createOrderInTx env' req plan cfg orderAmount limitAmount payAmount sel)"
proof -
  have "issues (create_ok env request) (insert_order (new_row req plan orderAmount bonus payAmount outTradeNo expires sel))" for bonus outTradeNo expires
    using assms [of bonus outTradeNo expires] by (auto simp: insert_order_def split: option.split)
  then show ?thesis
    by (auto simp: createOrderInTx_def build_order_def create_ok_reads Let_def intro!: issues_intros checks_ok split: option.split)
qed

text \<open>The amount to pay is the one for the currency of the selected instance, whether or not it was
  computed again.\<close>

lemma CreateOrder_ok: "issues (create_ok env request) (CreateOrder env request)"
proof -
  let ?req = "normalize_request request"
  have "issues (create_ok env request) (create_for_selection env ?req cfg plan orderAmount pay sel)"
    if "ce_config env = Inr cfg" "validateOrderInput env ?req cfg = Inr plan" "order_amount (ce_lib env) ?req plan cfg = Inr orderAmount"
      "pay_amount (ce_lib env) ?req plan cfg (paymentProviderConfigCurrency (is_ProviderKey sel) (is_Config sel)) = Inr pay"
    for cfg plan orderAmount pay sel
  proof -
    have "creates_row env request (new_row ?req plan orderAmount bonus (snd pay) outTradeNo expires sel)" for bonus outTradeNo expires
      using that unfolding creates_row_def by (metis surjective_pairing)
    then show ?thesis
      by (auto simp: create_for_selection_def Let_def intro!: issues_intros tx_ok finish_ok split: prod.split option.split)
  qed
  then show ?thesis
    by (auto simp: CreateOrder_def Let_def wrap_def create_ok_reads intro!: issues_intros checks_ok split: if_splits sum.splits)
qed

section \<open>Recharge codes\<close>

lemma digits_span:
  assumes "list_all (\<lambda>c. digit_value c \<noteq> None) ds" "list_all (\<lambda>c. digit_value c \<noteq> None) es"
    and "ds @ CHR ''-'' # xs = es @ CHR ''-'' # ys"
  shows "ds = es"
proof -
  have "takeWhile (\<lambda>c. digit_value c \<noteq> None) (ds @ CHR ''-'' # xs) = ds" "takeWhile (\<lambda>c. digit_value c \<noteq> None) (es @ CHR ''-'' # ys) = es"
    using assms(1,2) by (simp_all add: takeWhile_append2 list_all_iff digit_value_def)
  with assms(3) show ?thesis by metis
qed

lemma recharge_code_inj:
  assumes "recharge_code i t = recharge_code j u" "0 \<le> i" "0 \<le> j"
  shows "i = j"
proof -
  have "nat_digits (nat i) = nat_digits (nat j)"
    using assms by (intro digits_span [OF nat_digits_digit nat_digits_digit]) (simp add: recharge_code_def itoa_def)
  then have "nat i = nat j" by (metis option.inject parse_nat_digits)
  with assms show ?thesis by simp
qed

lemma recharge_code_trimmed: "trim_space (recharge_code i t) = recharge_code i t"
  by (rule trim_space_printable) (simp add: recharge_code_def itoa_printable printable_def)

section \<open>Creations beside the payment service\<close>

text \<open>The sequence is ahead of the rows, every order has the code of its number, and no code is in use
  for a number that is still to come.\<close>

definition sequence_ahead :: "create_db \<Rightarrow> bool" where
  "sequence_ahead s \<longleftrightarrow>
     (\<forall>r\<in>set (pd_orders (cd_pay s)). 0 \<le> od_ID r \<and> od_ID r < cd_seq s \<and> (\<exists>t. od_RechargeCode r = recharge_code (od_ID r) t))
     \<and> 0 \<le> cd_seq s \<and> (\<forall>r\<in>set (pd_codes (cd_pay s)). \<forall>oid t. cd_seq s \<le> oid \<longrightarrow> rc_Code r \<noteq> recharge_code oid t)"

definition create_legal :: "create_stmt \<Rightarrow> bool" where
  "create_legal c \<longleftrightarrow> (\<exists>env request. create_ok env request c)"

definition env_or_same :: "pay_db \<Rightarrow> pay_db \<Rightarrow> bool" where
  "env_or_same s s' \<longleftrightarrow> s' = s \<or> pay_env s s'"

definition creation_entry :: "unit create_prog \<Rightarrow> bool" where
  "creation_entry p \<longleftrightarrow> (\<exists>env request. p = and_then (CreateOrder env request) (\<lambda>_. Ret ()))"

text \<open>Between two statements everything else may happen that leaves the sequence ahead.\<close>

definition creation_others :: "create_db \<Rightarrow> create_db \<Rightarrow> bool" where
  "creation_others s s' \<longleftrightarrow> sequence_ahead s'"

lemma reads_effect:
  "reads c \<Longrightarrow> cd_pay (fst (create_effect lib c s)) = cd_pay s \<and> cd_seq (fst (create_effect lib c s)) = cd_seq s"
  by (cases c rule: reads.cases) (auto split: prod.splits)

lemma insert_env:
  assumes "sequence_ahead s" "creates_row env request row"
  shows "pay_env (cd_pay s) ((cd_pay s)\<lparr>pd_orders := pd_orders (cd_pay s) @ [row (cd_seq s) t]\<rparr>)"
proof -
  have row: "od_ID (row (cd_seq s) t) = cd_seq s" "od_Status (row (cd_seq s) t) = OrderStatusPending"
    "od_RechargeCode (row (cd_seq s) t) = recharge_code (cd_seq s) t"
    using assms(2) by (auto simp: creates_row_def new_row_def)
  show ?thesis
  proof (rule pay_env.new_order)
    show "od_RechargeCode (row (cd_seq s) t) \<notin> od_RechargeCode ` set (pd_orders (cd_pay s))"
      using assms(1) recharge_code_inj unfolding sequence_ahead_def row(3) by (metis image_iff less_irrefl)
    show "od_RechargeCode (row (cd_seq s) t) \<notin> rc_Code ` set (pd_codes (cd_pay s))"
      using assms(1) unfolding sequence_ahead_def row(3) by (metis image_iff order_refl)
  qed (use assms(1) row recharge_code_trimmed in \<open>auto simp: sequence_ahead_def\<close>)
qed

lemma details_columns [simp]:
  "od_ID (payment_details pr sel r) = od_ID r" "od_OrderType (payment_details pr sel r) = od_OrderType r"
  "od_RechargeCode (payment_details pr sel r) = od_RechargeCode r" "od_Amount (payment_details pr sel r) = od_Amount r"
  "od_Status (payment_details pr sel r) = od_Status r" "od_UserID (payment_details pr sel r) = od_UserID r"
  by (simp_all add: payment_details_def set_nonempty_def)

lemma details_env:
  "pay_env s (fst (effect lib (UpdateOrders (\<lambda>r. od_ID r = oid) (payment_details pr sel)) s))"
  by (simp, rule pay_env.details) (simp add: order_fact_def)

lemma failed_env:
  "pay_env s (fst (effect lib (UpdateOrders (\<lambda>r. od_ID r = oid) (\<lambda>r. r\<lparr>od_Status := OrderStatusFailed\<rparr>)) s))"
  using pay_env.creation_failed [of s oid "pd_clock s"] by simp

lemma audit_env: "env_or_same s (fst (effect lib (WriteAudit oid act uid) s))"
  by (simp add: env_or_same_def pay_env.audit)

lemma effect_env:
  assumes "sequence_ahead s" "create_legal c"
  shows "env_or_same (cd_pay s) (cd_pay (fst (create_effect lib c s)))"
proof -
  from assms(2) obtain env request where "create_ok env request c" by (auto simp: create_legal_def)
  then show ?thesis
    unfolding create_ok_def
    using insert_env [OF assms(1)] details_env failed_env audit_env reads_effect [of c lib s]
    by (elim disjE exE conjE) (auto simp: env_or_same_def Let_def split_def simp del: effect.simps)
qed

lemma ahead_update:
  assumes "sequence_ahead s" "\<And>r. od_ID (g r) = od_ID r" "\<And>r. od_RechargeCode (g r) = od_RechargeCode r"
  shows "sequence_ahead (s\<lparr>cd_pay := (cd_pay s)\<lparr>pd_orders := map g (pd_orders (cd_pay s))\<rparr>\<rparr>)"
  using assms(1) by (simp add: sequence_ahead_def assms(2,3))

lemma ahead_tables:
  assumes "sequence_ahead s" "pd_orders (cd_pay s') = pd_orders (cd_pay s)" "pd_codes (cd_pay s') = pd_codes (cd_pay s)" "cd_seq s \<le> cd_seq s'"
  shows "sequence_ahead s'"
  unfolding sequence_ahead_def
proof (intro conjI ballI allI impI)
  fix r assume "r \<in> set (pd_orders (cd_pay s'))"
  then show "0 \<le> od_ID r" "od_ID r < cd_seq s'" "\<exists>t. od_RechargeCode r = recharge_code (od_ID r) t"
    using assms unfolding sequence_ahead_def by auto
next
  show "0 \<le> cd_seq s'" using assms(1,4) by (simp add: sequence_ahead_def)
next
  fix r oid t assume "r \<in> set (pd_codes (cd_pay s'))" "cd_seq s' \<le> oid"
  then show "rc_Code r \<noteq> recharge_code oid t"
    using assms(1,3,4) unfolding sequence_ahead_def by (metis order_trans)
qed

lemma ahead_insert:
  assumes "sequence_ahead s" "od_ID r = cd_seq s" "od_RechargeCode r = recharge_code (cd_seq s) t"
  shows "sequence_ahead (s\<lparr>cd_seq := cd_seq s + 1, cd_pay := (cd_pay s)\<lparr>pd_orders := pd_orders (cd_pay s) @ [r]\<rparr>\<rparr>)"
proof -
  have "sequence_ahead (s\<lparr>cd_seq := cd_seq s + 1\<rparr>)" by (rule ahead_tables [OF assms(1)]) simp_all
  moreover have "0 \<le> cd_seq s" using assms(1) by (simp add: sequence_ahead_def)
  ultimately show ?thesis using assms(2,3) unfolding sequence_ahead_def by auto
qed

lemma effect_ahead:
  assumes "sequence_ahead s" "create_legal c"
  shows "sequence_ahead (fst (create_effect lib c s))"
proof -
  from assms(2) obtain env request where "create_ok env request c" by (auto simp: create_legal_def)
  then show ?thesis
    unfolding create_ok_def
  proof (elim disjE exE conjE)
    fix row assume c: "c = C_Insert row" "creates_row env request row"
    then have "od_ID (row i t) = i" "od_RechargeCode (row i t) = recharge_code i t" for i t
      by (auto simp: creates_row_def new_row_def)
    with c(1) ahead_insert [OF assms(1)] ahead_tables [OF assms(1), of "s\<lparr>cd_seq := cd_seq s + 1\<rparr>"] show ?thesis
      by (simp add: Let_def)
  next
    assume "reads c"
    then show ?thesis by (intro ahead_tables [OF assms(1)]) (simp_all add: reads_effect)
  next
    fix oid pr sel assume "c = C_Pay (UpdateOrders (\<lambda>r. od_ID r = oid) (payment_details pr sel))"
    then show ?thesis by (simp, intro ahead_update [OF assms(1)]) simp_all
  next
    fix oid assume "c = C_Pay (UpdateOrders (\<lambda>r. od_ID r = oid) (\<lambda>r. r\<lparr>od_Status := OrderStatusFailed\<rparr>))"
    then show ?thesis by (simp, intro ahead_update [OF assms(1)]) simp_all
  next
    fix oid uid assume "c = C_Pay (WriteAudit oid ''ORDER_CREATED'' uid)"
    then show ?thesis by (intro ahead_tables [OF assms(1)]) simp_all
  qed
qed

lemma exec_env:
  assumes "sequence_ahead s" "create_legal c" "create_exec lib f c s = (s', a)"
  shows "sequence_ahead s'" "env_or_same (cd_pay s) (cd_pay s')"
proof -
  from assms(3) have "s' = s \<or> s' = fst (create_effect lib c s) \<or> s' = s\<lparr>cd_seq := cd_seq s + 1\<rparr>"
    by (auto simp: create_exec_def split: if_splits pay_fault.splits)
  moreover have "sequence_ahead (s\<lparr>cd_seq := cd_seq s + 1\<rparr>)" by (rule ahead_tables [OF assms(1)]) simp_all
  ultimately show "sequence_ahead s'" using assms(1) effect_ahead [OF assms(1,2)] by metis
  have "env_or_same (cd_pay s) (cd_pay s)" by (simp add: env_or_same_def)
  with \<open>s' = s \<or> _\<close> effect_env [OF assms(1,2)] show "env_or_same (cd_pay s) (cd_pay s')" by auto
qed

interpretation creation: interference "create_exec lib" creation_entry creation_others "\<lambda>_. create_legal" "\<lambda>_ _. True" "\<lambda>_ _. {}"
  "\<lambda>(_ :: unit) _. True" sequence_ahead "\<lambda>_ _. True"
  for lib
proof unfold_locales
  fix p assume "creation_entry p"
  then obtain env request where p: "p = and_then (CreateOrder env request) (\<lambda>_. Ret ())" by (auto simp: creation_entry_def)
  have "issues create_legal (CreateOrder env request)"
    by (rule issues_mono [OF CreateOrder_ok]) (auto simp: create_legal_def)
  then show "sat (\<lambda>_. create_legal) (\<lambda>_ _. True) (\<lambda>_ _. {}) p {} (\<lambda>r K. True)"
    unfolding p by (intro sat_issues issues_and_then) simp_all
qed (auto simp: creation_others_def intro: exec_env)

abbreviation creation_reaches :: "pay_lib \<Rightarrow> create_db \<Rightarrow> create_db \<times> unit create_prog list \<Rightarrow> bool" where
  "creation_reaches lib s0 c \<equiv> reaches (create_exec lib) creation_entry creation_others (s0, []) c"

text \<open>C14: order creation does to the tables of the payment service only what the environment of its safety
  theorems allows: in every interleaving of any number of creations with anything else, under faults
  and crashes, a statement of a creation leaves the tables as they are or makes a step of \<open>pay_env\<close>. So
  the theorems about payments hold beside creations.\<close>

theorem creation_within_environment:
  assumes "sequence_ahead s0" "creation_reaches lib s0 (s, xs @ Call c k # ys)" "create_exec lib f c s = (s', a)"
  shows "cd_pay s' = cd_pay s \<or> pay_env (cd_pay s) (cd_pay s')"
proof -
  have "creation.pool_inv (s, xs @ Call c k # ys)"
    using creation.pool_inv_reaches [OF assms(2)] assms(1) by (simp add: creation.pool_inv_def)
  then have "sequence_ahead s" "create_legal c" by (auto simp: creation.pool_inv_def)
  from exec_env(2) [OF this assms(3)] show ?thesis by (simp add: env_or_same_def)
qed

section \<open>Amounts\<close>

lemma normalize_request_fields:
  "cr_Amount (normalize_request req) = cr_Amount req" "cr_UserID (normalize_request req) = cr_UserID req"
  "cr_OrderType (normalize_request req) = (if cr_OrderType req = '''' then OrderTypeBalance else cr_OrderType req)"
  by (auto simp: normalize_request_def Let_def)

lemma balance_plan: "cr_OrderType req = OrderTypeBalance \<Longrightarrow> validateOrderInput env req cfg = Inr plan \<Longrightarrow> plan = None"
  by (auto simp: validateOrderInput_def split: if_splits)

lemma default_currency:
  "od_ProviderKey (new_row req plan x b p no e sel i t) \<notin> {Some TypeStripe, Some TypeAirwallex} \<Longrightarrow>
     paymentProviderConfigCurrency (is_ProviderKey sel) cfg = DefaultPaymentCurrency"
  by (auto simp: new_row_def psNilIfEmpty_def paymentProviderConfigCurrency_def payment_types split: if_splits)


section \<open>The limit of pending orders\<close>

definition pending :: "int \<Rightarrow> create_db \<Rightarrow> int" where
  "pending uid s = int (length (filter (pending_of uid) (pd_orders (cd_pay s))))"

definition calm :: "create_stmt \<Rightarrow> bool" where
  "calm c \<longleftrightarrow> (\<exists>env request. create_ok env request c) \<and> (\<forall>row. c \<noteq> C_Insert row)"

text \<open>A handler that runs alone, with faults, leaves at most \<open>m\<close> pending orders, or not more than before.\<close>

definition stays :: "pay_lib \<Rightarrow> int \<Rightarrow> int \<Rightarrow> 'r create_prog \<Rightarrow> bool" where
  "stays lib uid m p \<longleftrightarrow> (\<forall>up fs s s' r fs'. run (create_exec lib) up p fs s = ((s', r), fs') \<longrightarrow> pending uid s' \<le> max m (pending uid s))"

definition grows :: "pay_lib \<Rightarrow> int \<Rightarrow> 'r create_prog \<Rightarrow> bool" where
  "grows lib uid p \<longleftrightarrow> (\<forall>up fs s s' r fs'. run (create_exec lib) up p fs s = ((s', r), fs') \<longrightarrow> pending uid s' \<le> pending uid s + 1)"

lemma filter_map_le: "(\<And>r. P (g r) \<Longrightarrow> P r) \<Longrightarrow> length (filter P (map g xs)) \<le> length (filter P xs)"
  by (induction xs) (auto simp: le_Suc_eq)

lemma pending_update:
  assumes "\<And>r. pending_of uid (g r) \<Longrightarrow> pending_of uid r"
  shows "pending uid (s\<lparr>cd_pay := (cd_pay s)\<lparr>pd_orders := map g (pd_orders (cd_pay s))\<rparr>\<rparr>) \<le> pending uid s"
  using filter_map_le [of "pending_of uid", OF assms] by (simp add: pending_def)

lemma quiet_update:
  assumes "\<And>r. pending_of uid (f r) \<Longrightarrow> pending_of uid r"
  shows "pending uid (fst (create_effect lib (C_Pay (UpdateOrders p f)) s)) \<le> pending uid s"
proof -
  have "pending_of uid r" if "pending_of uid (if p r then (f r)\<lparr>od_UpdatedAt := pd_clock (cd_pay s)\<rparr> else r)" for r
    using that assms [of r] by (simp add: pending_of_def split: if_splits)
  from pending_update [of uid "\<lambda>r. if p r then (f r)\<lparr>od_UpdatedAt := pd_clock (cd_pay s)\<rparr> else r" s, OF this] show ?thesis by simp
qed

lemma quiet_effect:
  assumes "calm c"
  shows "pending uid (fst (create_effect lib c s)) \<le> pending uid s"
proof -
  from assms obtain env request where "create_ok env request c" "\<forall>row. c \<noteq> C_Insert row" by (auto simp: calm_def)
  then show ?thesis
    unfolding create_ok_def
  proof (elim disjE exE conjE)
    assume "reads c"
    then show ?thesis by (simp add: pending_def reads_effect)
  next
    fix oid pr sel assume "c = C_Pay (UpdateOrders (\<lambda>r. od_ID r = oid) (payment_details pr sel))"
    then show ?thesis by (simp only:, intro quiet_update) (simp add: pending_of_def)
  next
    fix oid assume "c = C_Pay (UpdateOrders (\<lambda>r. od_ID r = oid) (\<lambda>r. r\<lparr>od_Status := OrderStatusFailed\<rparr>))"
    then show ?thesis by (simp only:, intro quiet_update) (simp add: pending_of_def order_statuses)
  next
    fix oid u assume "c = C_Pay (WriteAudit oid ''ORDER_CREATED'' u)"
    then show ?thesis by (simp add: pending_def)
  qed simp
qed

lemma calm_exec: "calm c \<Longrightarrow> create_exec lib f c s = (s', a) \<Longrightarrow> pending uid s' \<le> pending uid s"
  using quiet_effect [of c uid lib s] by (auto simp: create_exec_def pending_def split: if_splits pay_fault.splits)

lemma run_Call:
  assumes "run (create_exec lib) up (Call c k) fs s = ((s', r), fs')"
  obtains f s1 a where "create_exec lib f c s = (s1, a)" "run (create_exec lib) up (k a) (tl fs) s1 = ((s', r), fs')"
  using assms by (auto split: prod.splits)

lemma quiet_run:
  assumes "issues calm p" "run (create_exec lib) up p fs s = ((s', r), fs')"
  shows "pending uid s' \<le> pending uid s"
  using assms
proof (induction p arbitrary: fs s)
  case (Call c k)
  from Call.prems(2) obtain f s1 a where "create_exec lib f c s = (s1, a)" "run (create_exec lib) up (k a) (tl fs) s1 = ((s', r), fs')"
    by (rule run_Call)
  with Call.IH [OF _ _ this(2)] Call.prems(1) calm_exec [of c lib f s s1 a uid] show ?case by fastforce
qed simp


lemma calm_stays: "issues calm p \<Longrightarrow> stays lib uid m p"
  unfolding stays_def by (intro allI impI) (drule (1) quiet_run [where uid = uid], simp)

lemma reads_calm: "reads c \<Longrightarrow> calm c"
  by (auto simp: calm_def create_ok_reads)

lemma grows_after: "issues calm p \<Longrightarrow> (\<And>r. grows lib uid (k r)) \<Longrightarrow> grows lib uid (and_then p k)"
proof (unfold grows_def, intro allI impI)
  fix up fs s s' r fs'
  assume p: "issues calm p" and k: "\<And>r. \<forall>up fs s s' x fs'. run (create_exec lib) up (k r) fs s = ((s', x), fs') \<longrightarrow> pending uid s' \<le> pending uid s + 1"
    and "run (create_exec lib) up (and_then p k) fs s = ((s', r), fs')"
  then obtain s1 x fs1 where "run (create_exec lib) up p fs s = ((s1, x), fs1)" "run (create_exec lib) up (k x) fs1 s1 = ((s', r), fs')"
    by (auto simp: run_and_then split: prod.splits)
  with quiet_run [OF p, of lib up fs s s1 x fs1 uid] k [of x] show "pending uid s' \<le> pending uid s + 1" by fastforce
qed

lemma stays_and_then: "stays lib uid m p \<Longrightarrow> (\<And>r. stays lib uid m (k r)) \<Longrightarrow> stays lib uid m (and_then p k)"
proof (unfold stays_def, intro allI impI)
  fix up fs s s' r fs'
  assume p: "\<forall>up fs s s' r fs'. run (create_exec lib) up p fs s = ((s', r), fs') \<longrightarrow> pending uid s' \<le> max m (pending uid s)"
    and k: "\<And>r. \<forall>up fs s s' x fs'. run (create_exec lib) up (k r) fs s = ((s', x), fs') \<longrightarrow> pending uid s' \<le> max m (pending uid s)"
    and "run (create_exec lib) up (and_then p k) fs s = ((s', r), fs')"
  then obtain s1 x fs1 where "run (create_exec lib) up p fs s = ((s1, x), fs1)" "run (create_exec lib) up (k x) fs1 s1 = ((s', r), fs')"
    by (auto simp: run_and_then split: prod.splits)
  with p k [of x] have "pending uid s1 \<le> max m (pending uid s)" "pending uid s' \<le> max m (pending uid s1)" by blast+
  then show "pending uid s' \<le> max m (pending uid s)" by linarith
qed

lemma grows_Call: "calm c \<Longrightarrow> (\<And>a. grows lib uid (k a)) \<Longrightarrow> grows lib uid (Call c k)"
  using grows_after [of "Call c Ret" lib uid k] by simp

lemma stays_Call: "calm c \<Longrightarrow> (\<And>a. stays lib uid m (k a)) \<Longrightarrow> stays lib uid m (Call c k)"
  using stays_and_then [of lib uid m "Call c Ret" k] calm_stays [of "Call c Ret" lib uid m] by simp

lemma grows_parts:
  "grows lib uid (Ret r)" "(\<And>x. grows lib uid (h x)) \<Longrightarrow> grows lib uid (or_fail y h)" "grows lib uid q \<Longrightarrow> grows lib uid (check_err e q)"
  by (auto simp: grows_def or_fail_def check_err_def split: sum.splits option.splits)

lemma stays_parts:
  "stays lib uid m (Ret r)" "(\<And>x. stays lib uid m (h x)) \<Longrightarrow> stays lib uid m (or_fail y h)" "stays lib uid m q \<Longrightarrow> stays lib uid m (check_err e q)"
  by (auto simp: stays_def or_fail_def check_err_def split: sum.splits option.splits)

lemma pending_checked:
  assumes "run (create_exec lib) up (checkPendingLimit uid m) fs s = ((s', None), fs')"
  shows "pending uid s < max_pending m" "pending uid s' = pending uid s"
  using assms
  by (auto simp: checkPendingLimit_def create_exec_def count_of_def pay_of_def pending_def
      split: sum.splits if_splits pay_fault.splits list.splits)

lemma insert_grows: "grows lib uid (insert_order row)"
  unfolding grows_def
proof (intro allI impI)
  fix up fs s s' r fs'
  assume "run (create_exec lib) up (insert_order row) fs s = ((s', r), fs')"
  then obtain f a k where "create_exec lib f (C_Insert row) s = (s', a)"
    unfolding insert_order_def by (elim run_Call) (auto split: option.splits prod.splits)
  then show "pending uid s' \<le> pending uid s + 1"
    by (auto simp: create_exec_def pending_def Let_def split: if_splits pay_fault.splits)
qed

lemma build_grows: "grows lib uid (build_order env req plan cfg x p sel)"
proof -
  have "issues calm (allocateOutTradeNo env)" by (rule issues_mono [OF checks_read(3) reads_calm])
  then have "grows lib uid (bind_err (allocateOutTradeNo env) (\<lambda>no. or_fail b (\<lambda>bonus. insert_order (new_row req plan x bonus p no e sel))))" for b e
    unfolding bind_err_def by (intro grows_after grows_parts insert_grows)
  then show ?thesis unfolding build_order_def Let_def by (intro grows_Call reads_calm) simp_all
qed

lemma tx_stays: "stays lib (cr_UserID req) (max_pending (cf_MaxPendingOrders cfg)) (createOrderInTx env req plan cfg x l p sel)"
proof -
  let ?uid = "cr_UserID req" and ?m = "cf_MaxPendingOrders cfg"
  define rest where "rest = and_then (checkDailyLimit env ?uid l (cf_DailyLimit cfg)) (\<lambda>e. check_err e (build_order env req plan cfg x p sel))"
  have rest: "grows lib ?uid rest"
    unfolding rest_def by (intro grows_after grows_parts build_grows issues_mono [OF checks_read(2) reads_calm])
  have "stays lib ?uid (max_pending ?m) (and_then (checkPendingLimit ?uid ?m) (\<lambda>e. check_err e rest))"
  proof (unfold stays_def, intro allI impI)
    fix up fs s s' r fs'
    assume "run (create_exec lib) up (and_then (checkPendingLimit ?uid ?m) (\<lambda>e. check_err e rest)) fs s = ((s', r), fs')"
    then obtain s1 e fs1 where check: "run (create_exec lib) up (checkPendingLimit ?uid ?m) fs s = ((s1, e), fs1)"
      and tail: "run (create_exec lib) up (check_err e rest) fs1 s1 = ((s', r), fs')"
      by (auto simp: run_and_then split: prod.splits)
    show "pending ?uid s' \<le> max (max_pending ?m) (pending ?uid s)"
    proof (cases e)
      case None
      have "pending ?uid s' \<le> pending ?uid s1 + 1" using tail rest None unfolding grows_def check_err_def by fastforce
      with pending_checked [OF check [unfolded None]] show ?thesis by simp
    next
      case (Some err)
      have "issues calm (checkPendingLimit ?uid ?m)" by (rule issues_mono [OF checks_read(1) reads_calm])
      from quiet_run [OF this check, of ?uid] tail Some show ?thesis by (auto simp: check_err_def)
    qed
  qed
  then show ?thesis
    unfolding createOrderInTx_def rest_def by (intro stays_Call reads_calm) (simp_all add: stays_parts split: option.split)
qed

lemma finish_calm: "issues calm (finish_creation env order req cfg l ps p plan sel)"
proof -
  have "issues (\<lambda>c. \<forall>row. c \<noteq> C_Insert row) (finish_creation env order req cfg l ps p plan sel)"
    by (auto simp: finish_creation_def invokeProvider_def record_payment_def writeAuditLog_def Let_def
        intro!: issues_intros split: option.split sum.split prod.split)
  moreover have "issues P p \<Longrightarrow> issues R p \<Longrightarrow> issues (\<lambda>c. P c \<and> R c) p" for P R and p :: "'r create_prog"
    by (induction p) auto
  ultimately have "issues (\<lambda>c. create_ok env undefined c \<and> (\<forall>row. c \<noteq> C_Insert row)) (finish_creation env order req cfg l ps p plan sel)"
    using finish_ok by blast
  then show ?thesis by (rule issues_mono) (auto simp: calm_def)
qed

lemma stays_bind_err: "stays lib uid m p \<Longrightarrow> (\<And>x. stays lib uid m (k x)) \<Longrightarrow> stays lib uid m (bind_err p k)"
  unfolding bind_err_def by (intro stays_and_then stays_parts)

lemmas finish_stays = calm_stays [OF finish_calm]
lemmas checks_stay = checks_read [THEN issues_mono, OF reads_calm, THEN calm_stays]

lemma create_stays:
  "stays lib (cr_UserID req) (max_pending (cf_MaxPendingOrders cfg)) (create_for_selection env req cfg plan x pay sel)"
  by (auto simp: create_for_selection_def Let_def intro!: stays_parts stays_bind_err tx_stays finish_stays split: prod.split option.split)

text \<open>C25: a creation that runs without interference, with faults at any statement, respects the limit of pending
  orders: its user has afterwards no more than the limit, or than before.\<close>

theorem pending_limit_kept:
  assumes "ce_config env = Inr cfg" "run (create_exec lib) up (CreateOrder env request) fs s = ((s', r), fs')"
  shows "pending (cr_UserID request) s' \<le> max (max_pending (cf_MaxPendingOrders cfg)) (pending (cr_UserID request) s)"
proof -
  have create: "stays lib (cr_UserID request) (max_pending (cf_MaxPendingOrders cfg)) (create_for_selection env (normalize_request request) cfg plan x pay sel)"
    for plan x pay sel
    using create_stays [of lib "normalize_request request"] by (simp add: normalize_request_fields)
  have "stays lib (cr_UserID request) (max_pending (cf_MaxPendingOrders cfg)) (CreateOrder env request)"
    unfolding CreateOrder_def assms(1) wrap_def Let_def
    by (auto intro!: stays_parts stays_Call stays_and_then stays_bind_err create checks_stay reads_calm simp: or_fail_def [of "Inr cfg"])
  with assms(2) show ?thesis unfolding stays_def by blast
qed

end
