(* ===== verification/Creation_Outcomes.thy ===== *)
theory Creation_Outcomes
  imports Creation_Safety
begin

text \<open>
  How a creation can end: it overwrites the status of its order when the provider's answer cannot be
  recorded, and two creations at once exceed the limit of pending orders. The examples at the end of the
  theory are also the instances for the witnesses of \<open>Load_Balancer\<close> and \<open>Creation_Safety\<close>.
\<close>

section \<open>A creation that fails after the provider accepted\<close>

lemma lost_update:
  "run (create_exec lib) Up (update_one oid f k) (Lost e # fs) s = run (create_exec lib) Up (k (Some e)) fs s"
  by (simp add: update_one_def create_exec_def pay_of_def count_of_def)

lemma update_all:
  assumes "run (create_exec lib) Up (update_one oid f (\<lambda>_. Ret x)) [] s = ((s', r), fs')"
  shows "pd_orders (cd_pay s') = map (\<lambda>q. if od_ID q = oid then (f q)\<lparr>od_UpdatedAt := pd_clock (cd_pay s)\<rparr> else q) (pd_orders (cd_pay s))"
    and "r = x"
  using assms by (auto simp: update_one_def create_exec_def pay_of_def count_of_def)

text \<open>C27: when the provider has accepted the payment but its details cannot be stored, the order is set to
  FAILED whatever its status is by then: an order that the customer has paid, or that has been credited,
  is FAILED afterwards.\<close>

theorem failed_creation_overwrites:
  assumes "invokeProvider env order req cfg l ps p plan sel = record_payment req order fee p token sel pr"
    and "run (create_exec lib) Up (finish_creation env order req cfg l ps p plan sel) [Lost e] s = ((s', r), fs')"
  shows "r = Inl (WrapError ''update order with payment details'' e)
    \<and> pd_orders (cd_pay s') = map (\<lambda>q. if od_ID q = od_ID order
          then q\<lparr>od_Status := OrderStatusFailed, od_UpdatedAt := pd_clock (cd_pay s)\<rparr> else q) (pd_orders (cd_pay s))"
proof -
  have "run (create_exec lib) Up (finish_creation env order req cfg l ps p plan sel) [Lost e] s =
      run (create_exec lib) Up (update_one (od_ID order) (\<lambda>r. r\<lparr>od_Status := OrderStatusFailed\<rparr>)
        (\<lambda>_. Ret (Inl (WrapError ''update order with payment details'' e)))) [] s"
    by (simp add: finish_creation_def assms(1) record_payment_def run_and_then lost_update)
  with assms(2) update_all [of lib "od_ID order" "\<lambda>r. r\<lparr>od_Status := OrderStatusFailed\<rparr>"] show ?thesis by (auto cong: map_cong)
qed

section \<open>Two creations at once\<close>

lemma reaches_prefix:
  assumes "run exec up p fs s = ((s', r), fs')"
  shows "reaches exec entry env (s, xs @ and_then p k # ys) (s', xs @ k r # ys)"
  using assms
proof (induction p arbitrary: fs s)
  case (Call c h)
  obtain s1 a where exec: "exec (case fs of [] \<Rightarrow> up | f # _ \<Rightarrow> f) c s = (s1, a)" by (meson surj_pair)
  then have rest: "run exec up (h a) (tl fs) s1 = ((s', r), fs')" using Call.prems by simp
  have "pool_step exec entry env (s, xs @ and_then (Call c h) k # ys) (s1, xs @ and_then (h a) k # ys)"
    unfolding and_then.simps by (rule pool_step.stmt, rule exec)
  with Call.IH [OF rangeI rest] show ?case by (meson converse_rtranclp_into_rtranclp)
qed simp

lemma create_exec_Up [simp]: "create_exec lib Up c s = create_effect lib c s"
  by (simp add: create_exec_def)

lemma reaches_stmt:
  assumes "create_effect lib c s = (s1, a)" "reaches (create_exec lib) entry env (s1, xs @ k a # ys) c'"
  shows "reaches (create_exec lib) entry env (s, xs @ Call c k # ys) c'"
proof -
  have "pool_step (create_exec lib) entry env (s, xs @ Call c k # ys) (s1, xs @ k a # ys)"
    by (rule pool_step.stmt [where f = Up]) (simp add: assms(1))
  with assms(2) show ?thesis by (rule converse_rtranclp_into_rtranclp [rotated])
qed

definition random_string :: "create_db \<Rightarrow> nat \<Rightarrow> string" where
  "random_string s n = map (\<lambda>i. charset ! (cd_random s (cd_draws s + i) mod length charset)) [0..<n]"

lemma charset_ne: "0 < length charset"
  by (simp add: charset_def)

lemma random_run:
  "run (create_exec lib) Up (generateRandomString n) [] s = ((s\<lparr>cd_draws := cd_draws s + n\<rparr>, random_string s n), [])"
proof (induction n arbitrary: s)
  case (Suc n)
  have "random_string s (Suc n) = charset ! (cd_random s (cd_draws s) mod length charset) # random_string (s\<lparr>cd_draws := Suc (cd_draws s)\<rparr>) n"
    by (simp add: random_string_def map_upt_Suc del: upt_Suc)
  then show ?case by (simp add: pay_of_def count_of_def Let_def run_and_then Suc.IH)
qed (simp add: random_string_def)

text \<open>The order number that a transaction in the state \<open>s\<close> proposes first.\<close>

definition trade_no :: "create_env \<Rightarrow> create_db \<Rightarrow> string" where
  "trade_no env s = orderIDPrefix @ ce_date env (pd_clock (cd_pay s)) @ random_string s 8"

lemma trade_no_run:
  "run (create_exec lib) Up (generateOutTradeNo env) [] s = ((s\<lparr>cd_draws := cd_draws s + 8\<rparr>, trade_no env s), [])"
  by (simp add: generateOutTradeNo_def run_and_then random_run trade_no_def pay_of_def time_of_def)

lemma allocate_run:
  assumes "list_all (\<lambda>r. od_OutTradeNo r \<noteq> trade_no env s) (pd_orders (cd_pay s))"
  shows "run (create_exec lib) Up (allocateOutTradeNo env) [] s = ((s\<lparr>cd_draws := cd_draws s + 8\<rparr>, Inr (trade_no env s)), [])"
proof -
  have "filter (\<lambda>r. od_OutTradeNo r = trade_no env s) (pd_orders (cd_pay s)) = []" using assms by (simp add: filter_empty_conv list_all_iff)
  then have "run (create_exec lib) Up (allocate_loop env (Suc n)) [] s = ((s\<lparr>cd_draws := cd_draws s + 8\<rparr>, Inr (trade_no env s)), [])" for n
    by (simp add: run_and_then trade_no_run pay_of_def count_of_def)
  from this [of 4] show ?thesis unfolding allocateOutTradeNo_def maxAttempts_def by (simp only: eval_nat_numeral One_nat_def)
qed

text \<open>What the transaction needs to come to its insertion: room below the limit, no daily limit, and a
  number that is not taken.\<close>

definition tx_passes :: "create_env \<Rightarrow> CreateOrderRequest \<Rightarrow> PaymentConfig \<Rightarrow> float64 \<Rightarrow> create_db \<Rightarrow> bool" where
  "tx_passes env req cfg orderAmount s \<longleftrightarrow> pending (cr_UserID req) s < max_pending (cf_MaxPendingOrders cfg)
     \<and> fle (cf_DailyLimit cfg) (Finite 0) \<and> list_all (\<lambda>r. od_OutTradeNo r \<noteq> trade_no env s) (pd_orders (cd_pay s))
     \<and> (cr_OrderType req = OrderTypeBalance \<longrightarrow>
          \<not> isl (calculateBalanceBonusAmount (ce_lib env) (cr_Amount req) orderAmount (cf_BalanceRechargeMultiplier cfg)))"

lemma tx_to_insert:
  assumes "tx_passes env req cfg x s"
  obtains bonus expires where
    "\<And>xs ys. reaches (create_exec lib) entry others (s, xs @ createOrderInTx env req plan cfg x l p sel # ys)
       (s\<lparr>cd_draws := cd_draws s + 8\<rparr>, xs @ insert_order (new_row req plan x bonus p (trade_no env s) expires sel) # ys)"
proof -
  let ?b = "if cr_OrderType req = OrderTypeBalance
    then calculateBalanceBonusAmount (ce_lib env) (cr_Amount req) x (cf_BalanceRechargeMultiplier cfg) else Inr (Finite 0)"
  obtain bonus where bonus: "?b = Inr bonus" using assms by (cases ?b) (auto simp: tx_passes_def split: if_splits)
  let ?tm = "if cf_OrderTimeoutMin cfg \<le> 0 then defaultOrderTimeoutMin else cf_OrderTimeoutMin cfg"
  let ?e = "time_add (pd_clock (cd_pay s)) (i64 (?tm * minute))"
  have limit: "run (create_exec lib) Up (checkPendingLimit (cr_UserID req) (cf_MaxPendingOrders cfg)) [] s = ((s, None), [])"
    using assms by (simp add: checkPendingLimit_def tx_passes_def pending_def pay_of_def count_of_def)
  have alloc: "run (create_exec lib) Up (allocateOutTradeNo env) [] s = ((s\<lparr>cd_draws := cd_draws s + 8\<rparr>, Inr (trade_no env s)), [])"
    using assms by (intro allocate_run) (simp add: tx_passes_def)
  have build: "reaches (create_exec lib) entry others (s, xs @ build_order env req plan cfg x p sel # ys)
      (s\<lparr>cd_draws := cd_draws s + 8\<rparr>, xs @ insert_order (new_row req plan x bonus p (trade_no env s) ?e sel) # ys)" for xs ys
    unfolding build_order_def
  proof (rule reaches_stmt)
    show "create_effect lib (C_Pay Now) s = (s, N_Pay (A_Time (pd_clock (cd_pay s))))" by simp
    show "reaches (create_exec lib) entry others
        (s, xs @ (let tm = ?tm; expires = time_add (time_of (pay_of (N_Pay (A_Time (pd_clock (cd_pay s)))))) (i64 (tm * minute))
           in bind_err (allocateOutTradeNo env) (\<lambda>no. or_fail ?b (\<lambda>bonus. insert_order (new_row req plan x bonus p no expires sel)))) # ys)
        (s\<lparr>cd_draws := cd_draws s + 8\<rparr>, xs @ insert_order (new_row req plan x bonus p (trade_no env s) ?e sel) # ys)"
      using reaches_prefix [OF alloc, of entry others xs "\<lambda>r. or_fail r (\<lambda>no. or_fail ?b (\<lambda>bonus. insert_order (new_row req plan x bonus p no ?e sel)))" ys]
      unfolding bind_err_def Let_def bonus pay_of_def time_of_def by (simp add: or_fail_def)
  qed
  have tx: "reaches (create_exec lib) entry others (s, xs @ createOrderInTx env req plan cfg x l p sel # ys)
      (s, xs @ build_order env req plan cfg x p sel # ys)" for xs ys
    unfolding createOrderInTx_def
  proof (rule reaches_stmt)
    show "create_effect lib C_Begin s = (s, N_Pay A_Unit)" by simp
    show "reaches (create_exec lib) entry others (s, xs @ (case err_of (pay_of (N_Pay A_Unit)) of
          Some err \<Rightarrow> Ret (Inl (WrapError ''begin transaction'' err))
        | None \<Rightarrow> and_then (checkPendingLimit (cr_UserID req) (cf_MaxPendingOrders cfg)) (\<lambda>e. check_err e
            (and_then (checkDailyLimit env (cr_UserID req) l (cf_DailyLimit cfg)) (\<lambda>e. check_err e (build_order env req plan cfg x p sel))))) # ys)
        (s, xs @ build_order env req plan cfg x p sel # ys)"
      using reaches_prefix [OF limit, of entry others xs "\<lambda>e. check_err e (build_order env req plan cfg x p sel)" ys] assms
      by (simp add: pay_of_def err_of_def checkDailyLimit_def tx_passes_def check_err_def)
  qed
  show thesis
    by (rule that, rule rtranclp_trans, rule tx, rule build)
qed

lemma insert_reaches:
  assumes "list_all (\<lambda>r'. od_OutTradeNo r' \<noteq> od_OutTradeNo (row (cd_seq s) (pd_clock (cd_pay s)))) (pd_orders (cd_pay s))"
  shows "reaches (create_exec lib) entry others (s, xs @ insert_order row # ys)
    (s\<lparr>cd_seq := cd_seq s + 1, cd_pay := (cd_pay s)\<lparr>pd_orders := pd_orders (cd_pay s) @ [row (cd_seq s) (pd_clock (cd_pay s))]\<rparr>\<rparr>,
     xs @ Ret (Inr (row (cd_seq s) (pd_clock (cd_pay s)))) # ys)"
  unfolding insert_order_def
  by (rule reaches_stmt) (use assms in \<open>auto simp: list_ex_iff list_all_iff Let_def pay_of_def stage_of_def order_of_def\<close>)

text \<open>C26: the limit of pending orders is checked by a query and the order is inserted by a later statement,
  without a lock: two transactions of a user who is one below the limit can both pass the check and both
  insert, and the user is one above the limit.\<close>

theorem pending_limit_race:
  assumes "tx_passes env req cfg x s" "tx_passes env req cfg x (s\<lparr>cd_draws := cd_draws s + 8\<rparr>)"
    and "trade_no env s \<noteq> trade_no env (s\<lparr>cd_draws := cd_draws s + 8\<rparr>)"
    and "pending (cr_UserID req) s = max_pending (cf_MaxPendingOrders cfg) - 1"
  shows "\<exists>s' r r'. reaches (create_exec lib) entry others
      (s, [createOrderInTx env req plan cfg x l p sel, createOrderInTx env req plan cfg x l p sel]) (s', [Ret (Inr r), Ret (Inr r')])
    \<and> pending (cr_UserID req) s' = max_pending (cf_MaxPendingOrders cfg) + 1"
proof -
  let ?tx = "createOrderInTx env req plan cfg x l p sel" and ?s1 = "s\<lparr>cd_draws := cd_draws s + 8\<rparr>"
  let ?s2 = "?s1\<lparr>cd_draws := cd_draws ?s1 + 8\<rparr>" and ?t = "pd_clock (cd_pay s)"
  obtain b e where a: "reaches (create_exec lib) entry others (s, [] @ ?tx # [?tx])
      (?s1, [] @ insert_order (new_row req plan x b p (trade_no env s) e sel) # [?tx])"
    by (rule tx_to_insert [OF assms(1), of lib entry others plan l p sel]) blast
  let ?row = "new_row req plan x b p (trade_no env s) e sel"
  obtain b' e' where b: "reaches (create_exec lib) entry others (?s1, [insert_order ?row] @ ?tx # [])
      (?s2, [insert_order ?row] @ insert_order (new_row req plan x b' p (trade_no env ?s1) e' sel) # [])"
    by (rule tx_to_insert [OF assms(2), of lib entry others plan l p sel]) blast
  let ?row' = "new_row req plan x b' p (trade_no env ?s1) e' sel"
  let ?s3 = "?s2\<lparr>cd_seq := cd_seq ?s2 + 1, cd_pay := (cd_pay ?s2)\<lparr>pd_orders := pd_orders (cd_pay ?s2) @ [?row (cd_seq ?s2) ?t]\<rparr>\<rparr>"
  let ?s4 = "?s3\<lparr>cd_seq := cd_seq ?s3 + 1, cd_pay := (cd_pay ?s3)\<lparr>pd_orders := pd_orders (cd_pay ?s3) @ [?row' (cd_seq ?s3) ?t]\<rparr>\<rparr>"
  have no: "od_OutTradeNo (new_row req plan x b'' p n e'' sel i t) = n" for b'' n e'' i t by (simp add: new_row_def)
  have "reaches (create_exec lib) entry others (?s2, [] @ insert_order ?row # [insert_order ?row']) (?s3, [] @ Ret (Inr (?row (cd_seq ?s2) ?t)) # [insert_order ?row'])"
    using insert_reaches [of ?row ?s2 lib entry others "[]" "[insert_order ?row']"] assms(1) by (simp add: no tx_passes_def)
  moreover have "reaches (create_exec lib) entry others (?s3, [Ret (Inr (?row (cd_seq ?s2) ?t))] @ insert_order ?row' # [])
      (?s4, [Ret (Inr (?row (cd_seq ?s2) ?t))] @ Ret (Inr (?row' (cd_seq ?s3) ?t)) # [])"
    using insert_reaches [of ?row' ?s3 lib entry others "[Ret (Inr (?row (cd_seq ?s2) ?t))]" "[]"] assms(2,3) by (simp add: no tx_passes_def)
  ultimately have "reaches (create_exec lib) entry others (s, [?tx, ?tx]) (?s4, [Ret (Inr (?row (cd_seq ?s2) ?t)), Ret (Inr (?row' (cd_seq ?s3) ?t))])"
    using a b by (simp only: append_Nil append_Cons)
  moreover have "pending (cr_UserID req) ?s4 = max_pending (cf_MaxPendingOrders cfg) + 1"
    using assms(4) by (simp add: pending_def pending_of_def new_row_def)
  ultimately show ?thesis by blast
qed

section \<open>An installation\<close>

definition demo_pay_lib :: pay_lib where
  "demo_pay_lib = \<lparr>pl_round = Finite, pl_fmt = (\<lambda>_. ''?''), pl_fmt_v = (\<lambda>_. ''?''), pl_error = (\<lambda>_. ''error'')\<rparr>"

definition demo_dec :: dec_lib where
  "demo_dec = \<lparr>dl_pay = demo_pay_lib, dl_of = (\<lambda>r. r), dl_parse = (\<lambda>s. map_option of_int (atoi s)), dl_div = (/), dl_round = (\<lambda>r n. r),
     dl_roundUp = (\<lambda>r n. r), dl_intPart = floor, dl_fixed = (\<lambda>r n. itoa \<lfloor>r\<rfloor>), dl_float = Finite,
     dl_format = (\<lambda>x. case x of Finite r \<Rightarrow> itoa \<lfloor>r\<rfloor> | _ \<Rightarrow> ''?''), dl_parseFloat = (\<lambda>s. map_option (\<lambda>i. Finite (of_int i)) (atoi s))\<rparr>"

definition demo_config :: PaymentConfig where
  "demo_config = \<lparr>cf_Enabled = True, cf_MinAmount = Finite 1, cf_MaxAmount = Finite 0, cf_DailyLimit = Finite 0, cf_OrderTimeoutMin = 0,
     cf_MaxPendingOrders = 1, cf_BalanceDisabled = False, cf_BalanceRechargeMultiplier = Finite 2, cf_SubscriptionUSDToCNYRate = Finite 0,
     cf_RechargeFeeRate = Finite 0, cf_LoadBalanceStrategy = ''round-robin'', cf_ProductNamePrefix = '''', cf_ProductNameSuffix = '''',
     cf_CancelRateLimit = \<lparr>cl_Enabled = False, cl_Max = 0, cl_Window = 0, cl_Unit = ''''\<rparr>, cf_AlipayMobilePrecreateDeepLink = False\<rparr>"

definition demo_response :: CreatePaymentResponse where
  "demo_response = \<lparr>pr_TradeNo = ''t1'', pr_PayURL = ''https://pay'', pr_QRCode = '''', pr_ClientSecret = '''', pr_IntentID = '''',
     pr_Currency = '''', pr_ResultType = '''', pr_OAuth = None\<rparr>"

definition demo_env :: create_env where
  "demo_env = \<lparr>ce_lib = demo_dec, ce_config = Inr demo_config, ce_plan = (\<lambda>_. Inl db_not_found), ce_group = (\<lambda>_. Inl db_not_found),
     ce_userStatus = (\<lambda>_. Inr ''active''), ce_methodCurrency = (\<lambda>_. Inr ''CNY''), ce_officialWxpay = False, ce_wechatAppID = Inl db_not_found,
     ce_oauthURL = (\<lambda>_. Inl db_not_found), ce_provider = (\<lambda>_ _ _. None), ce_returnURL = (\<lambda>_ _. Inr ('''', '''')),
     ce_pay = (\<lambda>_. Inr demo_response), ce_windowStart = (\<lambda>_ t. t), ce_startOfDayUTC = (\<lambda>t. t), ce_date = (\<lambda>_. ''20260101'')\<rparr>"

definition demo_request :: CreateOrderRequest where
  "demo_request = \<lparr>cr_UserID = 1, cr_Amount = Finite 100, cr_PaymentType = ''alipay'', cr_OpenID = '''', cr_ClientIP = '''', cr_IsMobile = False,
     cr_AlipayMobilePrecreate = False, cr_IsWeChatBrowser = False, cr_ReturnURL = '''', cr_OrderType = ''balance'', cr_PlanID = 0\<rparr>"

definition demo_tables :: pay_db where
  "demo_tables = \<lparr>pd_orders = [], pd_audit = [], pd_codes = [], pd_next = 1, pd_users = [], pd_clock = 7, pd_attempts = [], pd_locks = [],
     pd_ext = (\<lambda>_. A_Nothing), pd_redeemed = [], pd_rebates = [], pd_assigned = []\<rparr>"

definition demo_create_db :: create_db where
  "demo_create_db = \<lparr>cd_pay = demo_tables, cd_seq = 1, cd_lb = demo_lb, cd_counter = 0, cd_random = (\<lambda>n. n), cd_draws = 0\<rparr>"

definition demo_sel :: InstanceSelection where
  "demo_sel = \<lparr>is_InstanceID = ''2'', is_ProviderKey = ''alipay'', is_Config = [], is_SupportedTypes = '''', is_PaymentMode = ''''\<rparr>"

lemma demo_ahead: "sequence_ahead demo_create_db"
  by (simp add: sequence_ahead_def demo_create_db_def demo_tables_def)

theorem pending_limit_race_witness:
  "\<exists>s' r r'. reaches (create_exec demo_pay_lib) (\<lambda>_. False) (\<lambda>_ _. False)
      (demo_create_db, [createOrderInTx demo_env demo_request None demo_config (Finite 200) (Finite 100) (Finite 50) demo_sel,
         createOrderInTx demo_env demo_request None demo_config (Finite 200) (Finite 100) (Finite 50) demo_sel]) (s', [Ret (Inr r), Ret (Inr r')])
    \<and> pending (cr_UserID demo_request) s' = max_pending (cf_MaxPendingOrders demo_config) + 1"
proof (rule pending_limit_race)
  show "tx_passes demo_env demo_request demo_config (Finite 200) demo_create_db" by code_simp
  show "tx_passes demo_env demo_request demo_config (Finite 200) (demo_create_db\<lparr>cd_draws := cd_draws demo_create_db + 8\<rparr>)" by code_simp
  show "trade_no demo_env demo_create_db \<noteq> trade_no demo_env (demo_create_db\<lparr>cd_draws := cd_draws demo_create_db + 8\<rparr>)" by code_simp
  show "pending (cr_UserID demo_request) demo_create_db = max_pending (cf_MaxPendingOrders demo_config) - 1" by code_simp
qed

text \<open>An order that was credited while its creation was still running.\<close>

definition demo_order :: PaymentOrder where
  "demo_order = new_row demo_request None (Finite 200) (Finite 100) (Finite 50) ''sub2_1'' 100 demo_sel 1 7"

definition demo_credited :: create_db where
  "demo_credited = demo_create_db\<lparr>cd_pay := demo_tables\<lparr>pd_orders := [demo_order\<lparr>od_Status := OrderStatusCompleted\<rparr>]\<rparr>\<rparr>"

theorem failed_creation_overwrites_witness:
  "map od_Status (pd_orders (cd_pay demo_credited)) = [OrderStatusCompleted]
   \<and> map od_Status (pd_orders (cd_pay (fst (fst (run (create_exec demo_pay_lib) Up
        (finish_creation demo_env demo_order demo_request demo_config (Finite 100) ''50'' (Finite 50) None demo_sel)
        [Lost (PlainError ''connection reset'')] demo_credited))))) = [OrderStatusFailed]"
proof -
  let ?p = "finish_creation demo_env demo_order demo_request demo_config (Finite 100) ''50'' (Finite 50) None demo_sel"
  have "buildPaymentSubject demo_env None (Finite 100) demo_config demo_sel = Inr ''Sub2API 100 CNY''" by code_simp
  then have accepted: "invokeProvider demo_env demo_order demo_request demo_config (Finite 100) ''50'' (Finite 50) None demo_sel =
      record_payment demo_request demo_order (Finite 0) (Finite 50) '''' demo_sel (sanitizeCreatePaymentResponseDetails demo_response)"
    by (simp add: invokeProvider_def demo_env_def or_fail_def demo_config_def)
  obtain s' r fs' where run: "run (create_exec demo_pay_lib) Up ?p [Lost (PlainError ''connection reset'')] demo_credited = ((s', r), fs')"
    by (metis prod.exhaust)
  have before: "pd_orders (cd_pay demo_credited) = [demo_order\<lparr>od_Status := OrderStatusCompleted\<rparr>]" by (simp add: demo_credited_def)
  from failed_creation_overwrites [OF accepted run] have "map od_Status (pd_orders (cd_pay s')) = [OrderStatusFailed]" by (simp add: before)
  then show ?thesis by (simp add: run before)
qed


theorem pending_limit_kept_witness:
  "pending (cr_UserID demo_request) (fst (fst (run (create_exec demo_pay_lib) Up (CreateOrder demo_env demo_request) [] demo_create_db))) \<le> 1"
proof -
  obtain s' r fs' where run: "run (create_exec demo_pay_lib) Up (CreateOrder demo_env demo_request) [] demo_create_db = ((s', r), fs')"
    by (metis prod.exhaust)
  have cfg: "ce_config demo_env = Inr demo_config" by (simp add: demo_env_def)
  have "max_pending (cf_MaxPendingOrders demo_config) = 1" "pending (cr_UserID demo_request) demo_create_db = 0" by code_simp+
  with pending_limit_kept [OF cfg run] run show ?thesis by simp
qed

text \<open>The first statement of a creation, in a pool of its own.\<close>

theorem creation_within_environment_witness:
  "\<exists>c k. creation_reaches demo_pay_lib demo_create_db (demo_create_db, [] @ Call c k # [])
     \<and> (cd_pay (fst (create_exec demo_pay_lib Up c demo_create_db)) = cd_pay demo_create_db
        \<or> pay_env (cd_pay demo_create_db) (cd_pay (fst (create_exec demo_pay_lib Up c demo_create_db))))"
proof -
  let ?p = "and_then (CreateOrder demo_env demo_request) (\<lambda>_. Ret ())"
  have "validateOrderInput demo_env (normalize_request demo_request) demo_config = Inr None" by code_simp
  then obtain k where k: "CreateOrder demo_env demo_request = Call (C_Pay Now) k"
    by (simp add: CreateOrder_def Let_def wrap_def or_fail_def demo_env_def demo_config_def)
  let ?k = "\<lambda>a. and_then (k a) (\<lambda>_. Ret ())"
  have "creation_entry ?p" by (auto simp: creation_entry_def)
  then have reach: "creation_reaches demo_pay_lib demo_create_db (demo_create_db, [] @ Call (C_Pay Now) ?k # [])"
    using pool_step.spawn [of creation_entry ?p "create_exec demo_pay_lib" creation_others demo_create_db "[]"] by (simp add: k)
  obtain s' a where "create_exec demo_pay_lib Up (C_Pay Now) demo_create_db = (s', a)" by (meson surj_pair)
  with creation_within_environment [OF demo_ahead reach this] reach show ?thesis by auto
qed

end
