(* ===== verification/Spec2Isabelle.thy ===== *)
theory Spec2Isabelle
  imports Idempotency Failover Stream_Circuit Anthropic_To_Responses Payment_Ledger Refund_Outcomes Chat_Stream_Equivalence Chat_History Creation_Outcomes
begin

text \<open>
  A verification library for the Go backend of an AI API gateway (\<open>src/backend\<close>). The gateway
  receives requests in the Anthropic, OpenAI Responses and chat completions dialects, selects an
  upstream account, forwards the request, converts the answer back, and retries on other accounts
  when an upstream fails. The development models the parts that carry its own logic.

  \<^bold>\<open>Theories.\<close>

  \<^item> \<open>Go_Prelude\<close>: what the models use of Go: times and durations, the wrap-around of 64-bit and
    32-bit integers, maps as association lists with distinct keys, runs of a component over a list of
    events and the locale \<open>invariant_system\<close> for properties of such runs.
  \<^item> \<open>Go_Strings\<close>: byte strings: prefixes, trimming, decimal numbers, UTF-8 validity, lower case
    (ASCII letters only, which is all that the keys compared in the sources contain).
  \<^item> \<open>App_Errors\<close>: \<open>internal/pkg/errors\<close>: application errors, causes, metadata and the HTTP
    answer.
  \<^item> \<open>Idempotency_Store\<close>: \<open>internal/repository/idempotency_repo.go\<close>: each SQL statement is an
    operation on a table whose calls may fail, before or after their effect. The contract that the
    coordinator relies on is the locale \<open>idempotency_repository\<close>; \<open>reliable_repository\<close> extends
    it with the answers of a store that is up. Both are interpreted on the model of the repository.
  \<^item> \<open>Idempotency\<close>: \<open>internal/service/idempotency.go\<close>: keys, fingerprints, stored responses and
    \<open>Execute\<close> on every branch. The executor is a function on a world that it may change, so "ran"
    and "did not run" are observable.
  \<^item> \<open>Account_Pool\<close>: the settings of an account in pool mode (\<open>internal/service/account.go\<close>):
    retry counts, delays, budgets, status codes and race rules, parsed from untyped credentials.
  \<^item> \<open>Failover\<close>: \<open>internal/handler/failover_loop.go\<close>: the state of a request, the plan for a
    retry of the same account, the handlers of a failed attempt and of an empty selection. Clock,
    cancellation and sleeping are an environment; calls to the temporary unscheduling are outputs.
  \<^item> \<open>Stream_Circuit\<close>: \<open>internal/service/openai_proxy_stream_circuit.go\<close>: the bounded table of
    proxies, its published snapshot, and the counters of disconnects. The order in which Go iterates
    over the table is a parameter, the answer of the Redis script too.
  \<^item> \<open>Api_Types\<close>: the message types of \<open>internal/pkg/apicompat/types.go\<close>, the normalisation of
    token usage, and the locales for converters of event streams: \<open>translated_stream\<close>, where a
    monitor watches the input and another the output, and its special case \<open>monitored_stream\<close>.
  \<^item> \<open>Responses_To_Anthropic\<close>: \<open>internal/pkg/apicompat/responses_to_anthropic.go\<close>: the
    conversion of whole responses and the stateful converter of streams, with \<open>encoding/json\<close> as a
    parameter. The Anthropic protocol is the monitor \<open>anth_mon\<close>; the converter is an interpretation
    of \<open>monitored_stream\<close>.
  \<^item> \<open>Thinking_Envelope\<close>: \<open>internal/pkg/apicompat/anthropic_thinking_envelope.go\<close> and
    \<open>internal/pkg/claude/model_capabilities_v028.go\<close>: the authenticated envelope that carries signed
    thinking blocks through Responses clients, with Base64, and the recognition of adaptive models.
  \<^item> \<open>Anthropic_To_Responses\<close>: \<open>internal/pkg/apicompat/anthropic_to_responses_response.go\<close>: the
    converse converters. The Responses protocol is the monitor \<open>resp_mon\<close>, the Anthropic input that
    the converter expects the monitor \<open>anth_in\<close>; the converter interprets \<open>translated_stream\<close>.
  \<^item> \<open>Interleaving\<close>: handlers that talk to shared services statement by statement, as a datatype of
    programs, their execution alone with a list of faults, and the interleaving of any number of them
    with crashes and an environment. The locale \<open>interference\<close> is a rely-guarantee rule over the facts
    that a handler has learned; it is interpreted three times on the payment service.
  \<^item> \<open>Payment_Store\<close>: amounts as \<open>float64\<close> (rounding is a parameter), the rows of orders, audit log,
    redeem codes and users, and each statement that the services send, with its faults.
  \<^item> \<open>Redeem\<close>: \<open>internal/service/redeem_code.go\<close> and the creation and redemption of codes in
    \<open>internal/service/redeem_service.go\<close>.
  \<^item> \<open>Payment_Notification\<close>: the checks of a notification: provider snapshot, metadata, currency and
    amount (\<open>internal/service/payment_order_provider_snapshot.go\<close>, \<open>internal/payment/currency.go\<close>).
  \<^item> \<open>Payment_Fulfillment\<close>: \<open>internal/service/payment_fulfillment.go\<close>: notifications, the lock of an
    order, balance and subscription fulfilment, rebates, retries.
  \<^item> \<open>Payment_Lifecycle\<close>: \<open>internal/service/payment_order_lifecycle.go\<close>: cancelling, expiring,
    verifying and reconciling orders.
  \<^item> \<open>Payment_Safety\<close>: the invariant of the tables under every interleaving of these handlers, first
    interpretation of \<open>interference\<close>. \<open>Payment_Progress\<close>: what one handler achieves alone.
    \<open>Payment_Recovery\<close>: what crashes leave behind, second interpretation.
  \<^item> \<open>Payment_Ledger\<close>: an abstract ledger of orders, credits and settlements, and the payment service as
    a refinement of it (locale \<open>forward_simulation\<close>).
  \<^item> \<open>Ownership\<close>: handlers that hold a row as a lock. The locale \<open>ownership\<close> assigns a mode to every
    handler, of which at most one is not idle, and keeps the modes of crashed handlers.
  \<^item> \<open>Payment_Refund\<close>: \<open>internal/service/payment_refund.go\<close>: requests, plans, execution and settlement
    of refunds, with the gateway and the subscription service as functions in the state.
  \<^item> \<open>Refund_Safety\<close>: the refund handlers as an interpretation of \<open>ownership\<close>, with the status
    \<open>REFUNDING\<close> as the lock. \<open>Refund_Outcomes\<close>: what one refund does alone, and how money is lost.
  \<^item> \<open>Load_Balancer\<close>: \<open>internal/payment/load_balancer.go\<close>: the choice of the provider instance, its limits
    and strategies; the round-robin counter is a 64-bit word.
  \<^item> \<open>Payment_Amounts\<close>: \<open>internal/service/payment_amounts.go\<close>, \<open>internal/payment/fee.go\<close> and the rest of
    \<open>currency.go\<close>: the amounts credited and paid, with the decimal library as a parameter.
  \<^item> \<open>Payment_Creation\<close>: \<open>CreateOrder\<close> of \<open>internal/service/payment_order.go\<close>. \<open>Creation_Safety\<close>: what it may
    do to the tables in any interleaving, third interpretation of \<open>interference\<close>, and its amounts and
    limits. \<open>Creation_Outcomes\<close>: how a creation fails and how two of them exceed a limit.
  \<^item> \<open>Chat_Types\<close>, \<open>Responses_To_Chat\<close>: the chat completions messages and
    \<open>internal/pkg/apicompat/responses_to_chatcompletions.go\<close>: the conversion of responses and streams to
    chat completions, and the accumulator of the path without streaming.
  \<^item> \<open>Chat_Tools\<close>: \<open>internal/pkg/apicompat/chat_tool_compat.go\<close>, \<open>tool_lowering_description.go\<close> and the tool part of
    \<open>chatcompletions_responses_bridge.go\<close>: Responses tools declared as chat functions and the way back.
  \<^item> \<open>Chat_To_Responses\<close>: the second half of \<open>chatcompletions_responses_bridge.go\<close>: chat completions
    answers and streams as Responses. \<open>Chat_Stream_Protocol\<close>: the emitted events follow the Responses
    protocol. \<open>Chat_Stream_Equivalence\<close>: the stream and the conversion of the whole answer agree.
  \<^item> \<open>Chat_History\<close>: its first half: the items of a request as chat messages, the pairing of calls
    and outputs, images in tool outputs, the tool choice.
  \<^item> This theory: the property that spans the coordinator and the HTTP answer.

  \<^bold>\<open>What is shown.\<close> A key runs its executor at most once per lifetime and only under a claim; two
  replicas never hold the same claim; a new key runs and is stored; failures back off; errors of the
  store never reach the client as text. The failover loop terminates, keeps its counters within their
  limits on every path and never resends a request whose execution is unknown; its time budget is
  fixed once. The circuit trips at its threshold, blocks for exactly its quarantine and keeps its
  table bounded. The converter emits only streams of the Anthropic protocol, delivers text and tool
  arguments exactly once and conserves token counts. The converse converter emits only streams of the
  Responses protocol whose final events repeat what was streamed, and a message keeps its content
  through both conversions. A thinking block survives its envelope and nothing else is accepted. A paid
  balance order is credited exactly once and its rebate accrued at most once, whatever notifications,
  retries, cancellations and redemptions run concurrently and wherever statements fail or processes
  die; the status of an order moves only along its graph; a notification or a retry that meets no
  fault completes its order; a rejected notification changes nothing but the audit log; all of it
  refines a ledger of a few rules. The gateway accepts at most one refund of an order while its replies
  arrive, and a refund alone accounts for what it takes. Order creation is one of the environments that
  these theorems allow for; alone it keeps the limit of pending orders, and its payment goes to an
  instance that may take it. The stream that a chat upstream sends gives the
  same Responses answer as its whole answer, in both directions; every declared tool resolves to itself;
  and the messages of a converted request pair every call with its output and lose none.

  Some theorems record defects: an order whose process died while it held the lock is never fulfilled,
  or never refunded; a retry can assign a subscription twice; a refund that is pending for the second
  time is lost; a lost reply of the gateway pays out and restores the balance; the recharge multiplier is
  applied twice; a creation that fails late overwrites the status of a paid order, and creations at once
  exceed the limit of pending orders; a response that was cut
  for storage is never replayed; the guard on an empty selection never stops it; a block of unknown kind
  adds a part that was never announced; a broken stream loses the text of its open part; arguments that
  come only at the end, custom calls, refusals and a choice of \<open>x_search\<close> are dropped by converters.

  \<^bold>\<open>Bounds.\<close> No definition uses fuel: every loop is structural recursion on a list, and the retry
  loop of a request is a run over a list of events, whose length is bounded by a theorem. Counters
  that the source cannot bring near 64 bits (identifiers, retries, block indices, table sizes) are unbounded
  integers; token sums, products of configured numbers and HTTP codes wrap as in the source.

  \<^bold>\<open>Not modelled.\<close> Logging, metrics and the details of audit lines; SSE text formatting and JSON
  encoding; the forwarding services, administration and the generated database layer; the clients of the
  payment providers, and of order creation the configuration, the return URLs and the WeChat
  credential, which are answers of its environment; the other converters of request bodies, which rewrite raw JSON
  in place; the frontend, the Rust edge proxy and the deployment scripts. The payment and the refund
  handlers have separate states over the same order table: each is the environment of the other, which
  may change only what the theorems about the other show it to change. The reasons are in the
  component list of the manifest.
\<close>

section \<open>Refusals of the coordinator as HTTP answers\<close>

text \<open>The texts and codes that a client can see when its key is not granted.\<close>

definition refusal_answers :: "(int \<times> string) list" where
  "refusal_answers = [(409, ''idempotency key reused with different payload''),
     (409, ''idempotent request is still processing''), (409, ''idempotent request is in retry backoff window''),
     (503, ''idempotency store unavailable'')]"

definition refusal :: "goerror \<Rightarrow> bool" where
  "refusal e \<longleftrightarrow> (fst (ToHTTP (Some e)), st_Message (snd (ToHTTP (Some e)))) \<in> set refusal_answers"

lemma ToHTTP_app_err: "(fst (ToHTTP (Some (app_err e))), st_Message (snd (ToHTTP (Some (app_err e))))) =
    (st_Code (fst e), st_Message (fst e))"
  by (cases e) (simp add: ToHTTP_def)

lemma New_fields: "st_Code (fst (New c r m)) = i32 c" "st_Message (fst (New c r m)) = m"
  by (simp_all add: New_def)

lemma refusal_base:
  "refusal (app_err ErrIdempotencyKeyConflict)" "refusal (app_err ErrIdempotencyStoreUnavail)"
  "refusal (store_unavail e)"
  by (simp_all add: refusal_def ToHTTP_app_err refusal_answers_def ErrIdempotencyKeyConflict_def Conflict_def
      ErrIdempotencyStoreUnavail_def ServiceUnavailable_def store_unavail_def New_fields i32_def)

lemma refusal_conflict:
  "refusal (conflictWithRetryAfter ErrIdempotencyInProgress l t)"
  "refusal (conflictWithRetryAfter ErrIdempotencyRetryBackoff l t)"
  by (cases l; simp add: refusal_def ToHTTP_app_err refusal_answers_def conflictWithRetryAfter_def Conflict_def
      ErrIdempotencyInProgress_def ErrIdempotencyRetryBackoff_def New_fields i32_def Let_def)+

lemmas refusals = refusal_base refusal_conflict

lemma resolve_refusal:
  "resolve_existing repo std t lockedUntil expiresAt existing s = (s', Inl err) \<Longrightarrow> refusal err"
  by (auto simp: resolve_existing_def refusals split: if_splits sum.splits prod.splits)

lemma claim_existing_refusal:
  "claim_existing repo std scope keyHash fingerprint t lockedUntil expiresAt s = (s', Inl err) \<Longrightarrow> refusal err"
  by (auto simp: claim_existing_def refusals dest: resolve_refusal
      split: if_splits sum.splits prod.splits option.splits bool.splits)

text \<open>C40: whatever the store does, a call whose key is not granted is answered with 409 or 503 and one
  of four fixed texts: an error of the database is kept as the cause and its text never reaches the
  client.\<close>

theorem claim_refusal_answer:
  assumes "claim_record repo std scope keyHash fingerprint t lockedUntil expiresAt s = (s', Inl err)"
  shows "(fst (ToHTTP (Some err)), st_Message (snd (ToHTTP (Some err)))) \<in> set refusal_answers"
proof -
  have "refusal err"
    using assms by (auto simp: claim_record_def Let_def refusals dest: claim_existing_refusal
        split: sum.splits prod.splits claim.splits if_splits)
  then show ?thesis by (simp add: refusal_def)
qed

text \<open>A store whose first statement fails: the text of its error is not in the answer.\<close>

definition down_db :: sql_state where
  "down_db = empty_db\<lparr>sq_faults := [FailBefore (PlainError ''pq: password'')]\<rparr>"

theorem claim_refusal_answer_witness:
  "\<exists>s' err. claim_record idempotencyRepository demo_std ''pay'' ''h'' ''f'' 5 10 100 down_db = (s', Inl err)
     \<and> (fst (ToHTTP (Some err)), st_Message (snd (ToHTTP (Some err)))) \<in> set refusal_answers"
proof -
  have "\<exists>s'. claim_record idempotencyRepository demo_std ''pay'' ''h'' ''f'' 5 10 100 down_db =
      (s', Inl (store_unavail (PlainError ''pq: password'')))" (is "\<exists>s'. ?call = _")
    by (simp add: claim_record_def idempotencyRepository_def CreateProcessing_def sql_call_def next_fault_def
        down_db_def empty_db_def Let_def)
  then obtain s' where call: "?call = (s', Inl (store_unavail (PlainError ''pq: password'')))" by blast
  with claim_refusal_answer [OF call] show ?thesis by (intro exI conjI)
qed

end
